(* ===== verification/Prelude.thy ===== *)
theory Prelude
  imports Complex_Main "HOL-Library.Word" "HOL-Library.Signed_Division"
begin

text \<open>
  Shared vocabulary of the development: Go's fixed-width signed integers as HOL
  integers with the wrap-around written out, Go's truncating division, the result
  type for operations that return an error or may panic, and the generic lemmas
  and named collections the component theories use.
\<close>

named_theorems go_arith \<open>unfolding rules for Go integer arithmetic\<close>
named_theorems slug_simps \<open>evaluation rules of the modelled operations\<close>

section \<open>Fixed-width integers\<close>

text \<open>
  A Go \<open>int64\<close> (and \<open>int\<close>, 64 bits wide on the supported platforms) is an HOL integer
  in \<open>[-2^63, 2^63)\<close>; every operation that can leave the range is followed by
  \<open>wrap64\<close>. \<open>int8\<close> is the same with \<open>wrap8\<close>.
\<close>

definition wrap64 :: "int \<Rightarrow> int" where
  "wrap64 x = (x + 2 ^ 63) mod 2 ^ 64 - 2 ^ 63"

definition wrap8 :: "int \<Rightarrow> int" where
  "wrap8 x = (x + 2 ^ 7) mod 2 ^ 8 - 2 ^ 7"

definition max_int64 :: int where
  "max_int64 = 9223372036854775807"

definition min_int64 :: int where
  "min_int64 = - 9223372036854775808"

declare max_int64_def [go_arith] min_int64_def [go_arith]

lemma wrap64_range: "min_int64 \<le> wrap64 x \<and> wrap64 x \<le> max_int64"
  using pos_mod_bound [of 18446744073709551616 "x + 9223372036854775808"]
  by (simp add: wrap64_def go_arith)

lemma wrap8_range: "- 128 \<le> wrap8 x \<and> wrap8 x \<le> 127"
  using pos_mod_bound [of 256 "x + 128"] by (simp add: wrap8_def)

lemma wrap64_id: "min_int64 \<le> x \<Longrightarrow> x \<le> max_int64 \<Longrightarrow> wrap64 x = x"
  by (simp add: wrap64_def go_arith)

lemma wrap8_id: "- 128 \<le> x \<Longrightarrow> x \<le> 127 \<Longrightarrow> wrap8 x = x"
  by (simp add: wrap8_def)

lemma wrap64_idem [simp]: "wrap64 (wrap64 x) = wrap64 x"
  using wrap64_range by (intro wrap64_id) auto

section \<open>Truncating division\<close>

text \<open>
  Go's \<open>/\<close> and \<open>%\<close> on integers truncate toward zero: \<open>sdiv\<close> and \<open>smod\<close> of the library.
  A zero divisor panics in Go, so each use is guarded as the source guards it.
\<close>

lemma sdiv_int_alt: "a sdiv b = sgn a * sgn b * (\<bar>a\<bar> div \<bar>b\<bar>)" for a b :: int
  by (simp add: signed_divide_int_def)

lemma smod_int_alt: "a smod b = a - (a sdiv b) * b" for a b :: int
  by (simp add: minus_sdiv_mult_eq_smod)

lemma smod_eq_0_iff: "a smod b = 0 \<longleftrightarrow> b dvd a" for a b :: int
proof -
  have "\<bar>a\<bar> mod \<bar>b\<bar> = 0 \<longleftrightarrow> b dvd a"
    by (simp add: mod_eq_0_iff_dvd)
  then show ?thesis
    by (cases "a = 0") (simp_all add: signed_modulo_int_def sgn_if)
qed

lemma sdiv_dvd: "b dvd a \<Longrightarrow> (a sdiv b) * b = a" for a b :: int
  using smod_int_alt [of a b] smod_eq_0_iff [of a b] by simp

lemma abs_sdiv: "\<bar>a sdiv b\<bar> = \<bar>a\<bar> div \<bar>b\<bar>" if "b \<noteq> 0" for a b :: int
  using that by (cases "a = 0") (simp_all add: sdiv_int_alt abs_mult abs_sgn_eq pos_imp_zdiv_nonneg_iff)

lemma sdiv_nonneg: "0 \<le> a \<Longrightarrow> 0 < b \<Longrightarrow> a sdiv b = a div b" for a b :: int
  by (simp add: sdiv_int_alt sgn_if)

lemma smod_nonneg: "0 \<le> a \<Longrightarrow> 0 < b \<Longrightarrow> a smod b = a mod b" for a b :: int
  by (simp add: signed_modulo_int_def sgn_if)

section \<open>Sizes\<close>

lemma size_mem: "x \<in> set xs \<Longrightarrow> f x < size_list f xs"
  by (induction xs) auto

section \<open>Results\<close>

text \<open>
  A Go function that returns \<open>(value, error)\<close> is a sum: \<open>Inl\<close> the error's message, \<open>Inr\<close>
  the value. A function that may panic returns an option, \<open>None\<close> for the panic.
\<close>

type_synonym 'a go_result = "string + 'a"

end
