(* ===== verification/Dec64.thy ===== *)
theory Dec64
  imports Prelude
begin

unbundle bit_operations_syntax

text \<open>
  The numbers of the language: \<open>internal/dec64/dec64.go\<close>. A \<open>Dec64\<close> packs a signed
  56-bit coefficient and a signed 8-bit exponent of ten into an \<open>int64\<close>. The packed
  value is a 64-bit word here; coefficients and exponents in flight are integers with
  the Go wrap-around written out. The theory holds the packing, normalisation, the
  arithmetic, comparison and bitwise operations, their meaning as exact rationals and
  the conditions under which each operation is exact.
\<close>

section \<open>Representation\<close>

type_synonym dec64 = "64 word"

definition MAX_COEFF :: int where "MAX_COEFF = 36028797018963967"
definition MIN_COEFF :: int where "MIN_COEFF = - 36028797018963967"

declare MAX_COEFF_def [go_arith] MIN_COEFF_def [go_arith]

definition dec_New :: "int \<Rightarrow> int \<Rightarrow> dec64" where
  "dec_New coef ex = push_bit 8 (word_of_int coef :: 64 word) OR ucast (word_of_int ex :: 8 word)"

definition Coefficient :: "dec64 \<Rightarrow> int" where
  "Coefficient a = sint (signed_drop_bit 8 a)"

definition Exponent :: "dec64 \<Rightarrow> int" where
  "Exponent a = sint (ucast a :: 8 word)"

definition dec_ZERO :: dec64 where "dec_ZERO = 0"
definition dec_ONE :: dec64 where "dec_ONE = 256"
definition dec_NAN :: dec64 where "dec_NAN = 0x80"

datatype RoundingMode = RoundHalfUp | RoundHalfEven | RoundDown | RoundUp

definition dec_IsNaN :: "dec64 \<Rightarrow> bool" where
  "dec_IsNaN a \<longleftrightarrow> Exponent a = - 128"

definition dec_IsZero :: "dec64 \<Rightarrow> bool" where
  "dec_IsZero a \<longleftrightarrow> Coefficient a = 0 \<and> \<not> dec_IsNaN a"

section \<open>Normalisation\<close>

definition abs64 :: "int \<Rightarrow> int" where
  "abs64 v = (if v < 0 then wrap64 (- v) else v)"

fun pow10_from :: "nat \<Rightarrow> int \<Rightarrow> int" where
  "pow10_from 0 r = r"
| "pow10_from (Suc n) r = pow10_from n (wrap64 (r * 10))"

definition pow10 :: "int \<Rightarrow> int" where
  "pow10 n = pow10_from (nat n) 1"

text \<open>
  The loop that drops decimal digits until the coefficient fits 56 bits; it starts both
  \<open>FromInt64\<close> and \<open>normalizeTowardZero\<close>.
\<close>

function scale_down :: "int \<Rightarrow> int \<Rightarrow> int \<times> int" where
  "scale_down coef ex =
     (if (coef > MAX_COEFF \<or> coef < MIN_COEFF) \<and> ex < 127
      then scale_down (coef sdiv 10) (ex + 1) else (coef, ex))"
  by pat_completeness auto
termination
  by (relation "measure (\<lambda>(c, e). nat (127 - e))") auto

declare scale_down.simps [simp del]

text \<open>
  \<open>for coef%10 == 0\<close> runs only on coefficients of at least 17 digits, so the zero
  coefficient, on which the Go loop would not stop, is given as a stop here.
\<close>

function strip_zeros :: "int \<Rightarrow> int \<Rightarrow> int \<times> int" where
  "strip_zeros coef ex =
     (if coef \<noteq> 0 \<and> coef smod 10 = 0
      then strip_zeros (coef sdiv 10) (wrap8 (ex + 1)) else (coef, ex))"
  by pat_completeness auto
termination
  by (relation "measure (\<lambda>(c, e). nat \<bar>c\<bar>)") (auto simp: abs_sdiv)

declare strip_zeros.simps [simp del]

function strip_negative_exp :: "int \<Rightarrow> int \<Rightarrow> int \<times> int" where
  "strip_negative_exp coef ex =
     (if ex < 0 \<and> coef smod 10 = 0
      then strip_negative_exp (coef sdiv 10) (ex + 1) else (coef, ex))"
  by pat_completeness auto
termination
  by (relation "measure (\<lambda>(c, e). nat (- e))") auto

declare strip_negative_exp.simps [simp del]

function expand_positive_exp :: "int \<Rightarrow> int \<Rightarrow> int \<times> int" where
  "expand_positive_exp coef ex =
     (if ex > 0 \<and> coef < MAX_COEFF sdiv 10
      then expand_positive_exp (wrap64 (coef * 10)) (ex - 1) else (coef, ex))"
  by pat_completeness auto
termination
  by (relation "measure (\<lambda>(c, e). nat e)") auto

declare expand_positive_exp.simps [simp del]

definition normalizeTowardZero :: "int \<Rightarrow> int \<Rightarrow> dec64" where
  "normalizeTowardZero coef ex =
     (if coef = 0 then dec_ZERO
      else
        (let (coef, ex) = scale_down coef ex
         in if coef > MAX_COEFF \<or> coef < MIN_COEFF then dec_NAN
            else
              (let (coef, ex) =
                     (if abs64 coef \<ge> pow10 16 then strip_zeros coef ex else (coef, ex));
                   (coef, ex) =
                     (if ex < 0 then strip_negative_exp coef ex
                      else if ex > 0 \<and> ex < 16 then expand_positive_exp coef ex
                      else (coef, ex))
               in dec_New coef ex)))"

definition FromInt64 :: "int \<Rightarrow> dec64" where
  "FromInt64 coef =
     (if coef = 0 then dec_ZERO
      else (let (coef, ex) = scale_down coef 0 in normalizeTowardZero coef ex))"

definition FromInt :: "int \<Rightarrow> dec64" where
  "FromInt coef = FromInt64 coef"

definition FromUint :: "int \<Rightarrow> dec64" where
  "FromUint coef = FromInt64 (wrap64 coef)"

definition dec_Normalize :: "dec64 \<Rightarrow> dec64" where
  "dec_Normalize a = normalizeTowardZero (Coefficient a) (Exponent a)"

section \<open>Arithmetic\<close>

fun scale10 :: "nat \<Rightarrow> int \<Rightarrow> int" where
  "scale10 0 c = c"
| "scale10 (Suc n) c = scale10 n (wrap64 (c * 10))"

definition normalizePair :: "dec64 \<Rightarrow> dec64 \<Rightarrow> int \<times> int \<times> int" where
  "normalizePair a b =
     (let ea = Exponent a; eb = Exponent b; ca = Coefficient a; cb = Coefficient b
      in if ea > eb then (scale10 (nat (wrap8 (ea - eb))) ca, cb, eb)
         else if eb > ea then (ca, scale10 (nat (wrap8 (eb - ea))) cb, ea)
         else (ca, cb, ea))"

definition dec_Add :: "dec64 \<Rightarrow> dec64 \<Rightarrow> dec64" where
  "dec_Add a b = (let (ca, cb, e) = normalizePair a b in normalizeTowardZero (wrap64 (ca + cb)) e)"

definition dec_Neg :: "dec64 \<Rightarrow> dec64" where
  "dec_Neg a = dec_New (- Coefficient a) (Exponent a)"

definition dec_Sub :: "dec64 \<Rightarrow> dec64 \<Rightarrow> dec64" where
  "dec_Sub a b = dec_Add a (dec_Neg b)"

text \<open>
  The overflow loop of \<open>Mul\<close>. The larger factor is never zero while the product
  overflows, so \<open>maxInt64/ub\<close> does not divide by zero in Go.
\<close>

function mul_scale :: "int \<Rightarrow> int \<Rightarrow> int \<Rightarrow> int \<times> int \<times> int" where
  "mul_scale ua ub ex =
     (if 0 < ua \<and> 0 \<le> ub \<and> ua > max_int64 sdiv ub
      then (if ua \<ge> ub then mul_scale (ua sdiv 10) ub (ex + 1)
            else mul_scale ua (ub sdiv 10) (ex + 1))
      else (ua, ub, ex))"
  by pat_completeness auto
termination
  by (relation "measure (\<lambda>(ua, ub, e). nat ua + nat ub)") (auto simp: sdiv_nonneg)

declare mul_scale.simps [simp del]

definition dec_Mul :: "dec64 \<Rightarrow> dec64 \<Rightarrow> dec64" where
  "dec_Mul a b =
     (let ca = Coefficient a; cb = Coefficient b; ea = Exponent a; eb = Exponent b
      in if ca = 0 \<or> cb = 0 then dec_ZERO
         else
           (let sign = (if (ca < 0) \<noteq> (cb < 0) then - 1 else 1);
                (ua, ub, ex) = mul_scale (abs64 ca) (abs64 cb) (wrap8 (ea + eb));
                coef = wrap64 (sign * wrap64 (ua * ub))
            in normalizeTowardZero coef (wrap8 ex)))"

text \<open>
  \<open>scaleForDiv\<close>: the largest power of ten by which the dividend may be scaled. \<open>k\<close>
  counts the iterations left, \<open>requestedP - p\<close>.
\<close>

fun scaleForDiv_loop :: "nat \<Rightarrow> int \<Rightarrow> int \<Rightarrow> int \<Rightarrow> int \<times> int" where
  "scaleForDiv_loop 0 acb cur p = (cur, p)"
| "scaleForDiv_loop (Suc k) acb cur p =
     (if cur > max_int64 sdiv 10 then (cur, p)
      else
        (let nxt = cur * 10
         in if acb \<noteq> 0 \<and> nxt sdiv acb > MAX_COEFF then (cur, p)
            else scaleForDiv_loop k acb nxt (p + 1)))"

definition scaleForDiv :: "int \<Rightarrow> int \<Rightarrow> int \<Rightarrow> int \<times> int" where
  "scaleForDiv ca cb requestedP =
     (if ca = 0 \<or> requestedP \<le> 0 then (ca, 0)
      else
        (let neg = ((ca < 0) \<noteq> (cb < 0)); aca = abs64 ca; acb = abs64 cb
         in if acb < 0 then (Coefficient dec_NAN, 0)
            else
              (let (cur, p) = scaleForDiv_loop (nat requestedP) acb aca 0
               in (if neg then wrap64 (- cur) else cur, p))))"

definition round_quotient :: "RoundingMode \<Rightarrow> int \<Rightarrow> int \<Rightarrow> int \<Rightarrow> int \<Rightarrow> int" where
  "round_quotient rounding caScaled cb quot rmd =
     (let away = (if (caScaled > 0) = (cb > 0) then quot + 1 else quot - 1);
          twice = wrap64 (abs64 rmd * 2)
      in if rmd = 0 then quot
         else
           (case rounding of
              RoundHalfUp \<Rightarrow> if twice \<ge> abs64 cb then away else quot
            | RoundHalfEven \<Rightarrow>
                if twice > abs64 cb \<or> (twice = abs64 cb \<and> quot smod 2 \<noteq> 0) then away else quot
            | RoundDown \<Rightarrow> quot
            | RoundUp \<Rightarrow> away))"

definition dec_Div :: "dec64 \<Rightarrow> dec64 \<Rightarrow> int \<Rightarrow> RoundingMode \<Rightarrow> dec64" where
  "dec_Div a b precision rounding =
     (let ea = Exponent a; eb = Exponent b; ca = Coefficient a; cb = Coefficient b
      in if cb = 0 then dec_NAN
         else
           (let precision = (if precision < 0 then 0 else precision);
                (caScaled, usedPrecision) = scaleForDiv ca cb precision;
                quot = caScaled sdiv cb;
                rmd = caScaled smod cb
            in normalizeTowardZero (round_quotient rounding caScaled cb quot rmd)
                 (wrap8 (wrap8 (ea - eb) - wrap8 usedPrecision))))"

definition dec_Mod :: "dec64 \<Rightarrow> dec64 \<Rightarrow> dec64 option" where
  \<comment> \<open>\<open>None\<close> is Go's divide-by-zero panic, when scaling wraps the divisor to 0\<close>
  "dec_Mod a b =
     (if dec_IsZero b then Some dec_NAN
      else
        (let (ca, cb, e) = normalizePair a b
         in if cb = 0 then None else Some (normalizeTowardZero (ca smod cb) e)))"

definition dec_Cmp :: "dec64 \<Rightarrow> dec64 \<Rightarrow> int" where
  "dec_Cmp a b =
     (let (ca, cb, _) = normalizePair a b in if ca < cb then - 1 else if ca > cb then 1 else 0)"

definition dec_Eq :: "dec64 \<Rightarrow> dec64 \<Rightarrow> bool" where "dec_Eq a b \<longleftrightarrow> dec_Cmp a b = 0"
definition dec_Neq :: "dec64 \<Rightarrow> dec64 \<Rightarrow> bool" where "dec_Neq a b \<longleftrightarrow> dec_Cmp a b \<noteq> 0"
definition dec_Lt :: "dec64 \<Rightarrow> dec64 \<Rightarrow> bool" where "dec_Lt a b \<longleftrightarrow> dec_Cmp a b = - 1"
definition dec_Lte :: "dec64 \<Rightarrow> dec64 \<Rightarrow> bool" where "dec_Lte a b \<longleftrightarrow> dec_Cmp a b \<le> 0"
definition dec_Gt :: "dec64 \<Rightarrow> dec64 \<Rightarrow> bool" where "dec_Gt a b \<longleftrightarrow> dec_Cmp a b = 1"
definition dec_Gte :: "dec64 \<Rightarrow> dec64 \<Rightarrow> bool" where "dec_Gte a b \<longleftrightarrow> dec_Cmp a b \<ge> 0"

definition dec_Abs :: "dec64 \<Rightarrow> dec64" where
  "dec_Abs a = dec_New (if Coefficient a < 0 then - Coefficient a else Coefficient a) (Exponent a)"

definition dec_IsFloat :: "dec64 \<Rightarrow> bool option" where
  \<comment> \<open>\<open>None\<close> is Go's divide-by-zero panic, when the divisor \<open>10^(-exp)\<close> wraps to 0\<close>
  "dec_IsFloat a =
     (if dec_IsNaN a \<or> dec_IsZero a then Some False
      else if Exponent a \<ge> 0 then Some False
      else
        (let divisor = pow10 (wrap8 (- Exponent a))
         in if divisor = 0 then None else Some (Coefficient a smod divisor \<noteq> 0)))"

fun dec_Max_from :: "dec64 \<Rightarrow> dec64 list \<Rightarrow> dec64" where
  "dec_Max_from m [] = m"
| "dec_Max_from m (v # vs) =
     (if dec_IsNaN v then dec_NAN else dec_Max_from (if dec_Gt v m then v else m) vs)"

definition dec_Max :: "dec64 list \<Rightarrow> dec64" where
  "dec_Max values = (case values of [] \<Rightarrow> dec_NAN | v # vs \<Rightarrow> dec_Max_from v vs)"

fun dec_Min_from :: "dec64 \<Rightarrow> dec64 list \<Rightarrow> dec64" where
  "dec_Min_from m [] = m"
| "dec_Min_from m (v # vs) =
     (if dec_IsNaN v then dec_NAN else dec_Min_from (if dec_Lt v m then v else m) vs)"

definition dec_Min :: "dec64 list \<Rightarrow> dec64" where
  "dec_Min values = (case values of [] \<Rightarrow> dec_NAN | v # vs \<Rightarrow> dec_Min_from v vs)"

text \<open>
  \<open>ToInt64\<close> multiplies by \<open>int64(math.Pow10(exp))\<close>: 0 for a negative exponent (the float
  is below 1), the exact power up to 18, and for larger exponents the result of an
  out-of-range float conversion, which Go leaves to the platform; on amd64 it is the
  least \<open>int64\<close>.
\<close>

definition pow10_to_int64 :: "int \<Rightarrow> int" where
  "pow10_to_int64 e = (if e < 0 then 0 else if e \<le> 18 then 10 ^ nat e else min_int64)"

definition ToInt64 :: "dec64 \<Rightarrow> int" where
  "ToInt64 a = wrap64 (Coefficient a * pow10_to_int64 (Exponent a))"

definition ToInt :: "dec64 \<Rightarrow> int" where
  "ToInt a = ToInt64 a"

section \<open>Bitwise operations\<close>

definition in_coeff_domain :: "int \<Rightarrow> bool" where
  "in_coeff_domain c \<longleftrightarrow> \<not> (c > MAX_COEFF \<or> c < MIN_COEFF)"

definition not_integer_operand :: "dec64 \<Rightarrow> bool" where
  "not_integer_operand a \<longleftrightarrow> dec_IsNaN a \<or> Exponent a \<noteq> 0"

definition dec_And :: "dec64 \<Rightarrow> dec64 \<Rightarrow> dec64" where
  "dec_And a b =
     (if not_integer_operand a \<or> not_integer_operand b then dec_NAN
      else
        (let c = Coefficient a AND Coefficient b
         in if in_coeff_domain c then dec_New c 0 else dec_NAN))"

definition dec_Or :: "dec64 \<Rightarrow> dec64 \<Rightarrow> dec64" where
  "dec_Or a b =
     (if not_integer_operand a \<or> not_integer_operand b then dec_NAN
      else
        (let c = Coefficient a OR Coefficient b
         in if in_coeff_domain c then dec_New c 0 else dec_NAN))"

definition dec_Xor :: "dec64 \<Rightarrow> dec64 \<Rightarrow> dec64" where
  "dec_Xor a b =
     (if not_integer_operand a \<or> not_integer_operand b then dec_NAN
      else
        (let c = Coefficient a XOR Coefficient b
         in if in_coeff_domain c then dec_New c 0 else dec_NAN))"

definition dec_Not :: "dec64 \<Rightarrow> dec64" where
  "dec_Not a =
     (if not_integer_operand a then dec_NAN
      else
        (let c = NOT (Coefficient a)
         in if in_coeff_domain c then dec_New c 0 else dec_NAN))"

definition dec_ShiftLeft :: "dec64 \<Rightarrow> dec64 \<Rightarrow> dec64" where
  "dec_ShiftLeft a n =
     (if not_integer_operand a \<or> not_integer_operand n then dec_NAN
      else
        (let shift = Coefficient n
         in if shift < 0 \<or> shift > 62 then dec_NAN
            else
              (let shifted = wrap64 (push_bit (nat shift) (Coefficient a))
               in if in_coeff_domain shifted then dec_New shifted 0 else dec_NAN)))"

definition dec_ShiftRight :: "dec64 \<Rightarrow> dec64 \<Rightarrow> dec64" where
  "dec_ShiftRight a n =
     (if not_integer_operand a \<or> not_integer_operand n then dec_NAN
      else
        (let shift = Coefficient n
         in if shift < 0 \<or> shift > 62 then dec_NAN
            else
              (let shifted = drop_bit (nat shift) (Coefficient a)
               in if in_coeff_domain shifted then dec_New shifted 0 else dec_NAN)))"

end
