(* ===== verification/Dec64_Laws.thy ===== *)
theory Dec64_Laws
  imports Dec64
begin

text \<open>
  The laws of the \<open>Dec64\<close> operations. A number means the rational \<open>coefficient * 10^exponent\<close>
  (\<open>dval\<close>). Packing and unpacking are inverse; normalisation keeps the value while the
  exponent stays in range (\<open>norm_ok\<close>); addition, multiplication and comparison agree with
  the rationals while the aligned coefficients fit an \<open>int64\<close> (\<open>aligned\<close>); division rounds
  to the nearest representable quotient for a positive divisor. The last section states
  where the code departs from arithmetic.
\<close>

section \<open>Packing\<close>

lemma Coefficient_New_take_bit: "Coefficient (dec_New c e) = signed_take_bit 55 c"
proof (rule bit_eqI)
  fix n
  show "bit (Coefficient (dec_New c e)) n = bit (signed_take_bit 55 c) n"
    unfolding Coefficient_def dec_New_def
    by (cases "n = 55") (auto simp add: bit_simps min_def)
qed

lemma Exponent_New_wrap: "Exponent (dec_New c e) = wrap8 e"
proof -
  have "Exponent (dec_New c e) = signed_take_bit 7 e"
    unfolding Exponent_def dec_New_def
    by (rule bit_eqI) (auto simp add: bit_simps min_def)
  then show ?thesis
    by (simp add: wrap8_def signed_take_bit_eq_take_bit_shift take_bit_eq_mod)
qed

lemma New_parts: "dec_New (Coefficient a) (Exponent a) = a"
  unfolding Exponent_def dec_New_def Coefficient_def
  by (rule bit_word_eqI) (auto simp add: bit_simps min_def)

lemma Coefficient_range: "- (2 ^ 55) \<le> Coefficient a \<and> Coefficient a < 2 ^ 55"
proof -
  have "Coefficient a = signed_take_bit 55 (Coefficient a)"
    by (metis New_parts Coefficient_New_take_bit)
  then show ?thesis
    by (metis signed_take_bit_int_greater_eq_minus_exp signed_take_bit_int_less_exp)
qed

lemma Exponent_range: "- 128 \<le> Exponent a \<and> Exponent a \<le> 127"
  by (metis New_parts Exponent_New_wrap wrap8_range)

lemma Coefficient_New [simp]: "MIN_COEFF - 1 \<le> c \<Longrightarrow> c \<le> MAX_COEFF \<Longrightarrow> Coefficient (dec_New c e) = c"
  by (simp add: Coefficient_New_take_bit signed_take_bit_int_eq_self go_arith)

lemma Exponent_New [simp]: "- 128 \<le> e \<Longrightarrow> e \<le> 127 \<Longrightarrow> Exponent (dec_New c e) = e"
  by (simp add: Exponent_New_wrap wrap8_id)

lemma ZERO_parts [simp]: "Coefficient dec_ZERO = 0" "Exponent dec_ZERO = 0"
  by (simp_all add: Coefficient_def Exponent_def dec_ZERO_def)

lemma NAN_parts [simp]: "Coefficient dec_NAN = 0" "Exponent dec_NAN = - 128"
  by (simp_all add: Coefficient_def Exponent_def dec_NAN_def)

section \<open>Values\<close>

definition cval :: "int \<Rightarrow> int \<Rightarrow> rat" where
  "cval c e = of_int c * 10 powi e"

definition dval :: "dec64 \<Rightarrow> rat" where
  "dval a = cval (Coefficient a) (Exponent a)"

lemma cval_0 [simp]: "cval 0 e = 0"
  by (simp add: cval_def)

lemma dval_ZERO [simp]: "dval dec_ZERO = 0"
  by (simp add: dval_def)

lemma dval_New:
  "MIN_COEFF - 1 \<le> c \<Longrightarrow> c \<le> MAX_COEFF \<Longrightarrow> - 128 \<le> e \<Longrightarrow> e \<le> 127 \<Longrightarrow> dval (dec_New c e) = cval c e"
  by (simp add: dval_def)

lemma cval_shift: "cval (c * 10) (e - 1) = cval c e"
  by (simp add: cval_def power_int_diff)

lemma cval_shift_n: "cval (c * 10 ^ n) (e - int n) = cval c e"
  by (simp add: cval_def power_int_diff)

lemma cval_sdiv: "c smod 10 = 0 \<Longrightarrow> cval (c sdiv 10) (e + 1) = cval c e"
  using cval_shift [of "c sdiv 10" "e + 1"] sdiv_dvd [of 10 c] by (simp add: smod_eq_0_iff)

lemma cval_add: "cval (c + d) e = cval c e + cval d e"
  by (simp add: cval_def distrib_right)

lemma cval_mult: "cval (c * d) (e + f) = cval c e * cval d f"
  by (simp add: cval_def power_int_add)

lemma cval_less_iff: "cval c e < cval d e \<longleftrightarrow> c < d"
  by (simp add: cval_def)

section \<open>Normalisation\<close>

lemma scale_down_id: "MIN_COEFF \<le> c \<Longrightarrow> c \<le> MAX_COEFF \<Longrightarrow> scale_down c e = (c, e)"
  by (subst scale_down.simps) simp

lemma sdiv10_nonneg: "0 \<le> c \<Longrightarrow> 0 \<le> c sdiv 10" for c :: int
  by (simp add: sdiv_nonneg)

lemma abs_sdiv10_le: "\<bar>c sdiv 10\<bar> \<le> \<bar>c\<bar>" for c :: int
  by (simp add: abs_sdiv)

lemma scale_down_nonneg: "scale_down c e = (c', e') \<Longrightarrow> 0 \<le> c \<Longrightarrow> 0 \<le> c'"
proof (induction c e rule: scale_down.induct)
  case (1 c e)
  then show ?case
    by (subst (asm) (2) scale_down.simps) (auto split: if_splits dest: sdiv10_nonneg)
qed

lemma strip_zeros_nonneg: "strip_zeros c e = (c', e') \<Longrightarrow> 0 \<le> c \<Longrightarrow> 0 \<le> c' \<and> c' \<le> c"
proof (induction c e rule: strip_zeros.induct)
  case (1 c e)
  then show ?case
    using abs_sdiv10_le [of c] sdiv10_nonneg [of c]
    by (subst (asm) (2) strip_zeros.simps) (auto split: if_splits)
qed

lemma strip_negative_exp_nonneg:
  "strip_negative_exp c e = (c', e') \<Longrightarrow> 0 \<le> c \<Longrightarrow> 0 \<le> c' \<and> c' \<le> c"
proof (induction c e rule: strip_negative_exp.induct)
  case (1 c e)
  then show ?case
    using abs_sdiv10_le [of c] sdiv10_nonneg [of c]
    by (subst (asm) (2) strip_negative_exp.simps) (auto split: if_splits)
qed

lemma strip_zeros_spec:
  "strip_zeros c e = (c', e') \<Longrightarrow> \<bar>c\<bar> < 10 ^ Suc n \<Longrightarrow> - 128 \<le> e \<Longrightarrow> e + int n \<le> 127
   \<Longrightarrow> cval c' e' = cval c e \<and> \<bar>c'\<bar> \<le> \<bar>c\<bar> \<and> e \<le> e' \<and> e' \<le> e + int n
       \<and> c = c' * 10 ^ nat (e' - e)"
proof (induction n arbitrary: c e)
  case 0
  have "strip_zeros c e = (c, e)"
    using 0 by (subst strip_zeros.simps) (auto simp: smod_eq_0_iff dest: zdvd_imp_le)
  then show ?case using 0 by simp
next
  case (Suc n)
  show ?case
  proof (cases "c \<noteq> 0 \<and> c smod 10 = 0")
    case True
    then have step: "strip_zeros (c sdiv 10) (e + 1) = (c', e')"
      using Suc.prems by (subst (asm) strip_zeros.simps) (simp add: wrap8_id)
    have digit: "(c sdiv 10) * 10 = c"
      using True by (intro sdiv_dvd) (simp add: smod_eq_0_iff)
    have "\<bar>c sdiv 10\<bar> < 10 ^ Suc n"
      using Suc.prems(2) digit by (simp add: abs_sdiv) 
    moreover have "- 128 \<le> e + 1" "e + 1 + int n \<le> 127" using Suc.prems by simp_all
    ultimately have IH: "cval c' e' = cval (c sdiv 10) (e + 1) \<and> \<bar>c'\<bar> \<le> \<bar>c sdiv 10\<bar> \<and> e + 1 \<le> e'
        \<and> e' \<le> e + 1 + int n \<and> c sdiv 10 = c' * 10 ^ nat (e' - (e + 1))"
      by (rule Suc.IH [OF step])
    have "c = c' * 10 ^ Suc (nat (e' - (e + 1)))"
      using IH digit by (metis mult.assoc power_Suc2)
    moreover have "Suc (nat (e' - (e + 1))) = nat (e' - e)"
      using IH by linarith
    ultimately have "c = c' * 10 ^ nat (e' - e)" by simp
    moreover have "cval c' e' = cval c e \<and> \<bar>c'\<bar> \<le> \<bar>c\<bar>"
      using IH True cval_sdiv [of c e] abs_sdiv10_le [of c] by linarith
    moreover have "e \<le> e' \<and> e' \<le> e + int (Suc n)" using IH by simp
    ultimately show ?thesis by blast
  next
    case False
    then have "strip_zeros c e = (c, e)" by (subst strip_zeros.simps) auto
    then show ?thesis using Suc.prems by simp
  qed
qed

lemma strip_negative_exp_spec:
  "strip_negative_exp c e = (c', e')
   \<Longrightarrow> cval c' e' = cval c e \<and> \<bar>c'\<bar> \<le> \<bar>c\<bar> \<and> e \<le> e' \<and> (e' \<le> 0 \<or> e' = e)"
proof (induction c e rule: strip_negative_exp.induct)
  case (1 c e)
  show ?case
  proof (cases "e < 0 \<and> c smod 10 = 0")
    case True
    then show ?thesis
      using 1 cval_sdiv [of c e] abs_sdiv10_le [of c]
      by (subst (asm) (2) strip_negative_exp.simps) auto
  next
    case False
    then have "strip_negative_exp c e = (c, e)" by (subst strip_negative_exp.simps) auto
    then show ?thesis using 1 by simp
  qed
qed

lemma MAX_sdiv10: "MAX_COEFF sdiv 10 = 3602879701896396"
  by (simp add: go_arith sdiv_nonneg)

lemma expand_positive_exp_spec:
  "expand_positive_exp c e = (c', e') \<Longrightarrow> MIN_COEFF \<le> c \<Longrightarrow> c \<le> MAX_COEFF
   \<Longrightarrow> 0 \<le> c \<or> \<bar>c\<bar> * 10 ^ nat e \<le> MAX_COEFF \<Longrightarrow> 0 \<le> e
   \<Longrightarrow> cval c' e' = cval c e \<and> MIN_COEFF \<le> c' \<and> c' \<le> MAX_COEFF \<and> 0 \<le> e' \<and> e' \<le> e \<and> (0 \<le> c \<longrightarrow> 0 \<le> c')"
proof (induction c e rule: expand_positive_exp.induct)
  case (1 c e)
  show ?case
  proof (cases "e > 0 \<and> c < MAX_COEFF sdiv 10")
    case True
    have pow: "10 ^ nat e = (10::int) * 10 ^ nat (e - 1)"
      using True by (metis Suc_nat_eq_nat_zadd1 add.commute diff_add_cancel int_one_le_iff_zero_less power_Suc zle_diff1_eq diff_ge_0_iff_ge)
    have small: "0 \<le> c \<or> \<bar>c * 10\<bar> * 10 ^ nat (e - 1) \<le> MAX_COEFF"
      using "1.prems"(4) pow by (auto simp: abs_mult algebra_simps)
    have "\<bar>c * 10\<bar> \<le> \<bar>c * 10\<bar> * 10 ^ nat (e - 1)"
      by (simp add: mult_le_cancel_left1 zero_less_mult_iff)
    then have "0 \<le> c \<or> \<bar>c * 10\<bar> \<le> MAX_COEFF"
      using small by linarith
    then have dom: "MIN_COEFF \<le> c * 10 \<and> c * 10 \<le> MAX_COEFF"
      using True by (auto simp: MAX_sdiv10 go_arith)
    then have "wrap64 (c * 10) = c * 10"
      by (intro wrap64_id) (auto simp: go_arith)
    then have step: "expand_positive_exp (c * 10) (e - 1) = (c', e')"
      using "1.prems"(1) True by (subst (asm) expand_positive_exp.simps) simp
    show ?thesis
      using "1.IH" [OF True] \<open>wrap64 (c * 10) = c * 10\<close> step dom small True cval_shift [of c e] by auto
  next
    case False
    then have "expand_positive_exp c e = (c, e)" by (subst expand_positive_exp.simps) auto
    then show ?thesis using 1 by simp
  qed
qed

lemma pow10_16: "pow10 16 = 10000000000000000"
  by code_simp

lemma abs64_dom: "MIN_COEFF \<le> c \<Longrightarrow> c \<le> MAX_COEFF \<Longrightarrow> abs64 c = \<bar>c\<bar>"
  by (simp add: abs64_def wrap64_id go_arith)

text \<open>
  When normalisation is exact: the coefficient fits, stripping zeros cannot push the
  exponent past 127, and a negative coefficient is not multiplied out of the domain.
\<close>

definition norm_ok :: "int \<Rightarrow> int \<Rightarrow> bool" where
  "norm_ok c e \<longleftrightarrow>
     MIN_COEFF \<le> c \<and> c \<le> MAX_COEFF \<and> - 128 \<le> e \<and> e \<le> 111 \<and>
     (0 \<le> c \<or> 16 \<le> e \<or> \<bar>c\<bar> * 10 ^ nat e \<le> MAX_COEFF)"

lemma strip_zeros_norm_ok:
  assumes "norm_ok c e" and strip: "(if abs64 c \<ge> pow10 16 then strip_zeros c e else (c, e)) = (c2, e2)"
  shows "cval c2 e2 = cval c e \<and> MIN_COEFF \<le> c2 \<and> c2 \<le> MAX_COEFF \<and> - 128 \<le> e2 \<and> e2 \<le> 127
    \<and> (0 < e2 \<and> e2 < 16 \<longrightarrow> 0 \<le> c2 \<or> \<bar>c2\<bar> * 10 ^ nat e2 \<le> MAX_COEFF)
    \<and> e \<le> e2 \<and> e2 \<le> e + 16"
proof (cases "abs64 c \<ge> pow10 16")
  case False
  then show ?thesis using assms by (auto simp: norm_ok_def)
next
  case True
  have dom: "MIN_COEFF \<le> c" "c \<le> MAX_COEFF" "- 128 \<le> e" "e \<le> 111"
    using assms by (auto simp: norm_ok_def)
  have sz: "strip_zeros c e = (c2, e2)" using True strip by simp
  have "\<bar>c\<bar> < 10 ^ Suc 16" using dom by (auto simp: go_arith)
  moreover have "e + int 16 \<le> 127" using dom by simp
  ultimately have S: "cval c2 e2 = cval c e \<and> \<bar>c2\<bar> \<le> \<bar>c\<bar> \<and> e \<le> e2 \<and> e2 \<le> e + int 16
      \<and> c = c2 * 10 ^ nat (e2 - e)"
    using strip_zeros_spec [OF sz _ dom(3)] by blast
  then have abs_c: "\<bar>c2\<bar> * 10 ^ nat (e2 - e) = \<bar>c\<bar>"
    by (metis abs_mult abs_of_nonneg zero_le_power zero_le_numeral)
  have "\<bar>c2\<bar> * 10 ^ nat e2 \<le> \<bar>c\<bar> * 10 ^ nat e" if "0 < e2"
  proof (cases "0 \<le> e")
    case True
    moreover have "e \<le> e2" using S by blast
    ultimately have "nat e2 = nat (e2 - e) + nat e" by linarith
    then show ?thesis
      by (simp add: power_add abs_c flip: mult.assoc)
  next
    case False
    then have "(10::int) ^ nat e2 \<le> 10 ^ nat (e2 - e)" using that by (intro power_increasing) auto
    then have "\<bar>c2\<bar> * 10 ^ nat e2 \<le> \<bar>c2\<bar> * 10 ^ nat (e2 - e)" by (rule mult_left_mono) simp
    then show ?thesis using False abs_c by simp
  qed
  moreover have "0 \<le> c \<longrightarrow> 0 \<le> c2" using strip_zeros_nonneg [OF sz] by blast
  moreover have "cval c2 e2 = cval c e" "\<bar>c2\<bar> \<le> \<bar>c\<bar>" "e \<le> e2" "e2 \<le> e + int 16"
    using S by blast+
  ultimately show ?thesis using dom assms(1) by (auto simp: norm_ok_def go_arith)
qed

lemma normalize_spec:
  "norm_ok c e \<Longrightarrow> dval (normalizeTowardZero c e) = cval c e \<and>
     (0 \<le> e \<longrightarrow> 0 \<le> Exponent (normalizeTowardZero c e) \<and> Exponent (normalizeTowardZero c e) \<le> e + 16)"
proof (cases "c = 0")
  case True
  then show ?thesis by (simp add: normalizeTowardZero_def)
next
  case False
  assume ok: "norm_ok c e"
  then have sd: "scale_down c e = (c, e)" and dom: "\<not> (c > MAX_COEFF \<or> c < MIN_COEFF)"
    by (auto simp: norm_ok_def scale_down_id)
  obtain c2 e2 where z: "(if abs64 c \<ge> pow10 16 then strip_zeros c e else (c, e)) = (c2, e2)"
    by (cases "if abs64 c \<ge> pow10 16 then strip_zeros c e else (c, e)")
  note S = strip_zeros_norm_ok [OF ok z]
  obtain c3 e3 where f: "(if e2 < 0 then strip_negative_exp c2 e2
      else if e2 > 0 \<and> e2 < 16 then expand_positive_exp c2 e2 else (c2, e2)) = (c3, e3)"
    by (cases "if e2 < 0 then strip_negative_exp c2 e2
      else if e2 > 0 \<and> e2 < 16 then expand_positive_exp c2 e2 else (c2, e2)")
  have "cval c3 e3 = cval c2 e2 \<and> MIN_COEFF \<le> c3 \<and> c3 \<le> MAX_COEFF \<and> - 128 \<le> e3 \<and> e3 \<le> 127
      \<and> (0 \<le> e \<longrightarrow> 0 \<le> e3 \<and> e3 \<le> e + 16)"
    using f S strip_negative_exp_spec [of c2 e2 c3 e3] expand_positive_exp_spec [of c2 e2 c3 e3]
    by (auto simp: go_arith split: if_splits)
  moreover have "normalizeTowardZero c e = dec_New c3 e3"
    using False sd dom z f by (auto simp: normalizeTowardZero_def split: prod.splits)
  ultimately show ?thesis
    using S by (simp add: dval_New go_arith)
qed

lemma normalize_value: "norm_ok c e \<Longrightarrow> dval (normalizeTowardZero c e) = cval c e"
  using normalize_spec by blast

lemma normalize_nonneg: "0 \<le> c \<Longrightarrow> 0 \<le> Coefficient (normalizeTowardZero c e)"
proof -
  assume "0 \<le> c"
  obtain c1 e1 where s: "scale_down c e = (c1, e1)" by (cases "scale_down c e")
  then have c1: "0 \<le> c1" using scale_down_nonneg \<open>0 \<le> c\<close> by blast
  obtain c2 e2 where z: "(if abs64 c1 \<ge> pow10 16 then strip_zeros c1 e1 else (c1, e1)) = (c2, e2)"
    by (cases "if abs64 c1 \<ge> pow10 16 then strip_zeros c1 e1 else (c1, e1)")
  then have c2: "0 \<le> c2 \<and> c2 \<le> c1" using c1 strip_zeros_nonneg by (auto split: if_splits)
  obtain c3 e3 where f: "(if e2 < 0 then strip_negative_exp c2 e2
      else if e2 > 0 \<and> e2 < 16 then expand_positive_exp c2 e2 else (c2, e2)) = (c3, e3)"
    by (cases "if e2 < 0 then strip_negative_exp c2 e2
      else if e2 > 0 \<and> e2 < 16 then expand_positive_exp c2 e2 else (c2, e2)")
  have "0 \<le> c3 \<and> c3 \<le> MAX_COEFF" if "c1 \<le> MAX_COEFF"
    using f c2 that strip_negative_exp_nonneg [of c2 e2 c3 e3] expand_positive_exp_spec [of c2 e2 c3 e3]
    by (auto simp: go_arith split: if_splits)
  then show ?thesis
    using s z f by (auto simp: normalizeTowardZero_def go_arith)
qed

section \<open>Addition, multiplication and comparison\<close>

lemma scale10_exact: "\<bar>c\<bar> * 10 ^ n \<le> max_int64 \<Longrightarrow> scale10 n c = c * 10 ^ n"
proof (induction n arbitrary: c)
  case 0
  then show ?case by simp
next
  case (Suc n)
  have "\<bar>c * 10\<bar> \<le> \<bar>c * 10\<bar> * 10 ^ n"
    by (simp add: mult_le_cancel_left1)
  moreover have le: "\<bar>c * 10\<bar> * 10 ^ n \<le> max_int64"
    using Suc.prems by (simp add: abs_mult algebra_simps)
  ultimately have "wrap64 (c * 10) = c * 10"
    by (intro wrap64_id) (auto simp: go_arith)
  then show ?case using Suc.IH [OF le] by simp
qed

text \<open>
  The pairs whose coefficients Go aligns without wrapping: the exponents differ by at
  most 127 and the shifted coefficient still fits an \<open>int64\<close>.
\<close>

definition aligned :: "dec64 \<Rightarrow> dec64 \<Rightarrow> bool" where
  "aligned a b \<longleftrightarrow>
     \<bar>Exponent a - Exponent b\<bar> \<le> 127 \<and>
     \<bar>Coefficient a\<bar> * 10 ^ nat (Exponent a - Exponent b) \<le> max_int64 \<and>
     \<bar>Coefficient b\<bar> * 10 ^ nat (Exponent b - Exponent a) \<le> max_int64"

definition align_left :: "dec64 \<Rightarrow> dec64 \<Rightarrow> int" where
  "align_left a b = Coefficient a * 10 ^ nat (Exponent a - Exponent b)"

lemma normalizePair_aligned:
  "aligned a b \<Longrightarrow> normalizePair a b = (align_left a b, align_left b a, min (Exponent a) (Exponent b))"
  by (auto simp: normalizePair_def aligned_def align_left_def Let_def wrap8_id scale10_exact min_def)

lemma align_left_value: "cval (align_left a b) (min (Exponent a) (Exponent b)) = dval a"
proof (cases "Exponent a \<le> Exponent b")
  case True
  then show ?thesis by (simp add: align_left_def dval_def min_def)
next
  case False
  then have "min (Exponent a) (Exponent b) = Exponent a - int (nat (Exponent a - Exponent b))"
    by simp
  then show ?thesis
    using cval_shift_n [of "Coefficient a" "nat (Exponent a - Exponent b)" "Exponent a"]
    by (simp only: align_left_def dval_def)
qed

lemma align_left_bound: "aligned a b \<Longrightarrow> \<bar>align_left a b\<bar> \<le> max_int64"
  by (simp add: aligned_def align_left_def abs_mult)

lemma aligned_sym: "aligned a b \<longleftrightarrow> aligned b a"
  by (auto simp: aligned_def abs_minus_commute)

lemma dec_Add_value:
  assumes "aligned a b" and "norm_ok (align_left a b + align_left b a) (min (Exponent a) (Exponent b))"
  shows "dval (dec_Add a b) = dval a + dval b"
proof -
  have "wrap64 (align_left a b + align_left b a) = align_left a b + align_left b a"
    using assms(2) by (intro wrap64_id) (auto simp: norm_ok_def go_arith)
  then have "dval (dec_Add a b) = cval (align_left a b + align_left b a) (min (Exponent a) (Exponent b))"
    using assms by (simp add: dec_Add_def normalizePair_aligned normalize_value)
  also have "\<dots> = dval a + dval b"
    using align_left_value [of a b] align_left_value [of b a] by (simp add: cval_add min.commute)
  finally show ?thesis .
qed

lemma dec_Neg_value: "MIN_COEFF \<le> Coefficient a \<Longrightarrow> dval (dec_Neg a) = - dval a"
  using Coefficient_range [of a] Exponent_range [of a]
  by (simp add: dec_Neg_def dval_New go_arith) (simp add: dval_def cval_def)

lemma dec_Cmp_value:
  "aligned a b \<Longrightarrow> dec_Cmp a b = (if dval a < dval b then - 1 else if dval b < dval a then 1 else 0)"
  using align_left_value [of a b] align_left_value [of b a]
    cval_less_iff [of "align_left a b" "min (Exponent a) (Exponent b)" "align_left b a"]
    cval_less_iff [of "align_left b a" "min (Exponent a) (Exponent b)" "align_left a b"]
  by (simp add: dec_Cmp_def normalizePair_aligned min.commute)

lemma mul_scale_id: "0 < ub \<Longrightarrow> 0 \<le> ua \<Longrightarrow> ua * ub \<le> max_int64 \<Longrightarrow> mul_scale ua ub e = (ua, ub, e)"
proof -
  assume "0 < ub" "0 \<le> ua" "ua * ub \<le> max_int64"
  then have "ua \<le> max_int64 sdiv ub"
    using zdiv_mono1 [of "ua * ub" max_int64 ub] by (simp add: sdiv_nonneg go_arith)
  then show ?thesis by (subst mul_scale.simps) simp
qed

lemma dec_Mul_value:
  assumes "\<bar>Coefficient a * Coefficient b\<bar> \<le> max_int64"
    and "- 128 \<le> Exponent a + Exponent b" "Exponent a + Exponent b \<le> 127"
    and "norm_ok (Coefficient a * Coefficient b) (Exponent a + Exponent b)"
  shows "dval (dec_Mul a b) = dval a * dval b"
proof (cases "Coefficient a = 0 \<or> Coefficient b = 0")
  case True
  then show ?thesis by (auto simp: dec_Mul_def dval_def)
next
  case False
  let ?ca = "Coefficient a" and ?cb = "Coefficient b"
  have abs: "abs64 ?ca = \<bar>?ca\<bar>" "abs64 ?cb = \<bar>?cb\<bar>"
    using Coefficient_range [of a] Coefficient_range [of b]
    by (auto simp: abs64_def wrap64_id go_arith)
  have ms: "mul_scale \<bar>?ca\<bar> \<bar>?cb\<bar> (Exponent a + Exponent b) = (\<bar>?ca\<bar>, \<bar>?cb\<bar>, Exponent a + Exponent b)"
    using False assms(1) by (intro mul_scale_id) (auto simp: abs_mult)
  have "(if (?ca < 0) \<noteq> (?cb < 0) then - 1 else 1) * (\<bar>?ca\<bar> * \<bar>?cb\<bar>) = ?ca * ?cb"
    using False by (auto simp: abs_if)
  moreover have "wrap64 (\<bar>?ca\<bar> * \<bar>?cb\<bar>) = \<bar>?ca\<bar> * \<bar>?cb\<bar>"
    using assms(1) by (intro wrap64_id) (auto simp: abs_mult go_arith intro: order_trans [of _ 0])
  moreover have "wrap64 (?ca * ?cb) = ?ca * ?cb"
    using assms(1) by (intro wrap64_id) (auto simp: go_arith)
  ultimately have "dec_Mul a b = normalizeTowardZero (?ca * ?cb) (Exponent a + Exponent b)"
    using False assms(2,3) by (simp add: dec_Mul_def abs wrap8_id ms)
  then have "dval (dec_Mul a b) = cval (?ca * ?cb) (Exponent a + Exponent b)"
    using assms(4) by (simp add: normalize_value)
  then show ?thesis by (simp add: cval_mult dval_def)
qed

section \<open>Division\<close>

lemma scaleForDiv_loop_spec:
  "scaleForDiv_loop k acb cur p = (cur', p') \<Longrightarrow> 0 \<le> cur \<Longrightarrow> cur \<le> max_int64
   \<Longrightarrow> \<exists>n \<le> k. cur' = cur * 10 ^ n \<and> p' = p + int n \<and> cur' \<le> max_int64
         \<and> (0 < n \<longrightarrow> 0 < acb \<longrightarrow> cur' div acb \<le> MAX_COEFF)"
proof (induction k acb cur p rule: scaleForDiv_loop.induct)
  case (1 acb cur p)
  then show ?case by simp
next
  case (2 k acb cur p)
  show ?case
  proof (cases "cur > max_int64 sdiv 10 \<or> (acb \<noteq> 0 \<and> (cur * 10) sdiv acb > MAX_COEFF)")
    case True
    then show ?thesis using 2 by (intro exI [of _ 0]) (auto split: if_splits simp: Let_def)
  next
    case False
    then have step: "scaleForDiv_loop k acb (cur * 10) (p + 1) = (cur', p')"
      using 2 by (auto simp: Let_def split: if_splits)
    have small: "cur * 10 \<le> max_int64"
      using False by (simp add: sdiv_nonneg go_arith)
    from False have "\<not> cur > max_int64 sdiv 10" "\<not> (acb \<noteq> 0 \<and> (cur * 10) sdiv acb > MAX_COEFF)"
      by auto
    from "2.IH" [OF this(1) refl this(2) step] small \<open>0 \<le> cur\<close>
    obtain n where n: "n \<le> k" "cur' = cur * 10 * 10 ^ n" "p' = p + 1 + int n" "cur' \<le> max_int64"
      "0 < n \<longrightarrow> 0 < acb \<longrightarrow> cur' div acb \<le> MAX_COEFF" by auto
    moreover have "n = 0 \<longrightarrow> 0 < acb \<longrightarrow> cur' div acb \<le> MAX_COEFF"
      using n(2) False \<open>0 \<le> cur\<close> by (auto simp: sdiv_nonneg)
    ultimately show ?thesis
      by (intro exI [of _ "Suc n"]) auto
  qed
qed

lemma abs64_Coefficient: "abs64 (Coefficient a) = \<bar>Coefficient a\<bar>"
  using Coefficient_range [of a] by (auto simp: abs64_def wrap64_id go_arith)

text \<open>\<open>scaleForDiv\<close> multiplies the dividend by a power of ten, up to the sign it sets.\<close>

lemma scaleForDiv_spec:
  assumes "scaleForDiv (Coefficient a) (Coefficient b) p = (s, u)"
  shows "\<exists>n. u = int n \<and> int n \<le> max 0 p \<and> \<bar>s\<bar> = \<bar>Coefficient a\<bar> * 10 ^ n \<and> \<bar>s\<bar> \<le> max_int64
    \<and> (0 < p \<longrightarrow> (if (Coefficient a < 0) \<noteq> (Coefficient b < 0) then s \<le> 0 else 0 \<le> s))
    \<and> (p \<le> 0 \<longrightarrow> s = Coefficient a)"
proof (cases "Coefficient a = 0 \<or> p \<le> 0")
  case True
  then show ?thesis
    using assms Coefficient_range [of a]
    by (intro exI [of _ 0]) (auto simp: scaleForDiv_def go_arith split: if_splits)
next
  case False
  obtain cur q where l: "scaleForDiv_loop (nat p) \<bar>Coefficient b\<bar> \<bar>Coefficient a\<bar> 0 = (cur, q)"
    by (cases "scaleForDiv_loop (nat p) \<bar>Coefficient b\<bar> \<bar>Coefficient a\<bar> 0")
  have "\<bar>Coefficient a\<bar> \<le> max_int64" using Coefficient_range [of a] by (auto simp: go_arith)
  with scaleForDiv_loop_spec [OF l] obtain n where n: "n \<le> nat p" "cur = \<bar>Coefficient a\<bar> * 10 ^ n" "q = int n"
      "cur \<le> max_int64" by auto
  then have "0 \<le> cur" by simp
  then have "wrap64 (- cur) = - cur"
    using n(4) by (intro wrap64_id) (simp_all add: go_arith)
  then have "s = (if (Coefficient a < 0) \<noteq> (Coefficient b < 0) then - cur else cur)" "u = q"
    using assms False l by (auto simp: scaleForDiv_def abs64_Coefficient Let_def split: if_splits)
  moreover from this(1) have "\<bar>s\<bar> = cur" using \<open>0 \<le> cur\<close> by auto
  ultimately show ?thesis
    using False n \<open>0 \<le> cur\<close> by (intro exI [of _ n]) (auto simp del: abs_mult)
qed

lemma wrap64_twice: "0 \<le> r \<Longrightarrow> r \<le> 2 ^ 55 \<Longrightarrow> wrap64 (abs64 r * 2) = 2 * r"
  by (simp add: abs64_def wrap64_id go_arith)

lemma round_half_even_error:
  assumes "0 \<le> s" "0 < cb" "cb \<le> 2 ^ 55"
    and q: "q = round_quotient RoundHalfEven s cb (s sdiv cb) (s smod cb)"
  shows "2 * \<bar>q * cb - s\<bar> \<le> cb \<and> (2 * \<bar>q * cb - s\<bar> = cb \<longrightarrow> even q) \<and> 0 \<le> q \<and> q \<le> s div cb + 1"
proof -
  define q0 where "q0 = s div cb"
  define r where "r = s mod cb"
  have r: "0 \<le> r" "r < cb" "s = q0 * cb + r" "0 \<le> q0"
    using assms by (simp_all add: q0_def r_def pos_imp_zdiv_nonneg_iff)
  have "wrap64 (abs64 r * 2) = 2 * r"
    using r(1,2) assms(3) by (intro wrap64_twice) linarith+
  moreover have "abs64 cb = cb" using assms by (simp add: abs64_def)
  moreover have "r \<noteq> 0 \<Longrightarrow> 0 < s" using assms(1) by (cases "s = 0") (auto simp: r_def)
  ultimately have qeq: "q = (if 2 * r > cb \<or> (2 * r = cb \<and> odd q0) then q0 + 1 else q0)"
    using assms(1,2) r by (auto simp: q round_quotient_def sdiv_nonneg smod_nonneg Let_def
        even_iff_mod_2_eq_zero simp flip: q0_def r_def)
  have "(q0 + 1) * cb - s = cb - r" "q0 * cb - s = - r"
    using r(3) by (simp_all add: algebra_simps)
  then show ?thesis
    unfolding q0_def [symmetric] using qeq r(1,2,4) by (cases "q = q0") (auto split: if_splits)
qed

lemma dec_Div_half_even:
  assumes "0 \<le> Coefficient a" "0 < Coefficient b" "0 \<le> p" "p \<le> 127"
    and sc: "scaleForDiv (Coefficient a) (Coefficient b) p = (s, u)"
    and fits: "s div Coefficient b < MAX_COEFF"
    and ex: "- 128 \<le> Exponent a - Exponent b - u" "Exponent a - Exponent b \<le> 111"
  shows "\<bar>dval (dec_Div a b p RoundHalfEven) - dval a / dval b\<bar> \<le> 10 powi (Exponent a - Exponent b - u) / 2"
proof -
  let ?ca = "Coefficient a" and ?cb = "Coefficient b" and ?e = "Exponent a - Exponent b - u"
  obtain n where n: "u = int n" "int n \<le> p" "\<bar>s\<bar> = \<bar>?ca\<bar> * 10 ^ n" "0 \<le> s"
    using scaleForDiv_spec [OF sc] assms(1-3) by (auto simp: max_def split: if_splits)
  define q where "q = round_quotient RoundHalfEven s ?cb (s sdiv ?cb) (s smod ?cb)"
  have "?cb \<le> 2 ^ 55" using Coefficient_range [of b] by simp
  from round_half_even_error [OF n(4) assms(2) this q_def]
  have err: "2 * \<bar>q * ?cb - s\<bar> \<le> ?cb" and q: "0 \<le> q" "q \<le> MAX_COEFF" using fits by auto
  have "wrap8 (wrap8 (Exponent a - Exponent b) - wrap8 u) = ?e"
    using ex n assms(4) by (simp add: wrap8_id)
  then have "dec_Div a b p RoundHalfEven = normalizeTowardZero q ?e"
    using assms(2,3) sc by (simp add: dec_Div_def q_def Let_def)
  moreover have "norm_ok q ?e" using q ex n by (simp add: norm_ok_def go_arith)
  ultimately have res: "dval (dec_Div a b p RoundHalfEven) = of_int q * 10 powi ?e"
    by (simp add: normalize_value cval_def)
  have "dval a / dval b = of_int ?ca / of_int ?cb * 10 powi (Exponent a - Exponent b)"
    by (simp add: dval_def cval_def power_int_diff)
  also have "(10::rat) powi (Exponent a - Exponent b) = 10 ^ n * 10 powi ?e"
    using power_int_add [of "10::rat" "int n" ?e] n(1) by simp
  also have "of_int ?ca / of_int ?cb * (10 ^ n * 10 powi ?e) = (of_int s / of_int ?cb) * (10 powi ?e :: rat)"
    using n(3,4) assms(1) by simp
  finally have quot: "dval a / dval b = (of_int s / of_int ?cb) * 10 powi ?e" .
  define X where "X = (of_int (q * ?cb - s) / of_int ?cb :: rat)"
  have "of_int q - of_int s / of_int ?cb = X"
    using assms(2) by (simp add: X_def field_simps)
  then have diff: "dval (dec_Div a b p RoundHalfEven) - dval a / dval b = X * 10 powi ?e"
    unfolding res quot by (metis left_diff_distrib)
  have "\<bar>of_int (q * ?cb - s) / of_int ?cb :: rat\<bar> \<le> 1 / 2"
  proof -
    have "(of_int (2 * \<bar>q * ?cb - s\<bar>) :: rat) \<le> of_int ?cb" using err by (simp only: of_int_le_iff)
    then show ?thesis using assms(2) by (simp add: field_simps)
  qed
  then have "\<bar>X\<bar> * 10 powi ?e \<le> 1 / 2 * 10 powi ?e"
    unfolding X_def by (rule mult_right_mono) simp
  then show ?thesis
    by (simp add: diff abs_mult)
qed

section \<open>Integers\<close>

lemma wrap64_mod: "wrap64 x mod 2 ^ 64 = x mod 2 ^ 64"
  by (simp add: wrap64_def mod_diff_left_eq)

lemma wrap64_cong: "x mod 2 ^ 64 = y mod 2 ^ 64 \<Longrightarrow> wrap64 x = wrap64 y"
  unfolding wrap64_def by (metis mod_add_left_eq)

lemma wrap64_mult: "wrap64 (wrap64 x * y) = wrap64 (x * y)"
  by (rule wrap64_cong) (metis mod_mult_left_eq wrap64_mod)

lemma pow10_from_wrap: "pow10_from n (wrap64 r) = wrap64 (r * 10 ^ n)"
proof (induction n arbitrary: r)
  case (Suc n)
  then show ?case by (simp add: wrap64_mult algebra_simps)
qed simp

lemma pow10_wrap: "pow10 e = wrap64 (10 ^ nat e)"
  using pow10_from_wrap [of "nat e" 1] by (simp add: pow10_def wrap64_id go_arith)

lemma pow10_exact: "e \<le> 18 \<Longrightarrow> pow10 e = 10 ^ nat e"
proof -
  assume "e \<le> 18"
  then have "(10::int) ^ nat e \<le> 10 ^ 18" by (intro power_increasing) auto
  then show ?thesis
    by (simp add: pow10_wrap wrap64_id go_arith order_trans [of _ 0])
qed

lemma pow10_overflow: "64 \<le> e \<Longrightarrow> pow10 e = 0"
proof -
  assume "64 \<le> e"
  then have e: "nat e = 64 + (nat e - 64)" by simp
  have "(10::int) ^ 64 = 2 ^ 64 * 5 ^ 64" by simp
  then have "(10::int) ^ nat e = 2 ^ 64 * (5 ^ 64 * 10 ^ (nat e - 64))"
    by (subst e) (simp only: power_add mult.assoc)
  then have "(10::int) ^ nat e mod 2 ^ 64 = 0 mod 2 ^ 64"
    by (simp only: mod_mult_self1_is_0 mod_0)
  then have "wrap64 (10 ^ nat e) = wrap64 0" by (rule wrap64_cong)
  then show ?thesis by (simp add: pow10_wrap wrap64_id go_arith)
qed

lemma cval_Ints_iff: "cval c (- int n) \<in> \<int> \<longleftrightarrow> 10 ^ n dvd c"
proof -
  have "cval c (- int n) = of_int c / of_int (10 ^ n)"
    by (simp add: cval_def power_int_minus field_simps)
  then show ?thesis
    by (simp only: of_int_div_of_int_in_Ints_iff) auto
qed

lemma dec_IsFloat_correct:
  assumes "- 18 \<le> Exponent a"
  shows "dec_IsFloat a = Some (dval a \<notin> \<int>)"
proof (cases "0 \<le> Exponent a \<or> Coefficient a = 0")
  case True
  then have "dval a \<in> \<int>"
    by (auto simp: dval_def cval_def power_int_def Ints_mult)
  then show ?thesis
    using True assms by (auto simp: dec_IsFloat_def dec_IsNaN_def dec_IsZero_def)
next
  case False
  define n where "n = nat (- Exponent a)"
  have n: "Exponent a = - int n" "n \<le> 18" using False assms by (auto simp: n_def)
  have "pow10 (wrap8 (- Exponent a)) = 10 ^ n"
    using n by (simp add: wrap8_id pow10_exact)
  then have "dec_IsFloat a = Some (\<not> 10 ^ n dvd Coefficient a)"
    using False n by (auto simp: dec_IsFloat_def dec_IsNaN_def dec_IsZero_def smod_eq_0_iff)
  then show ?thesis
    using cval_Ints_iff [of "Coefficient a" n] by (simp add: dval_def n(1))
qed

lemma dec_IsFloat_panics:
  "- 128 < e \<Longrightarrow> e \<le> - 64 \<Longrightarrow> c \<noteq> 0 \<Longrightarrow> MIN_COEFF \<le> c \<Longrightarrow> c \<le> MAX_COEFF
   \<Longrightarrow> dec_IsFloat (dec_New c e) = None"
  by (simp add: dec_IsFloat_def dec_IsNaN_def dec_IsZero_def wrap8_id pow10_overflow)

lemma norm_ok_int: "MIN_COEFF \<le> n \<Longrightarrow> n \<le> MAX_COEFF \<Longrightarrow> norm_ok n 0"
  by (auto simp: norm_ok_def go_arith)

lemma FromInt64_eq: "MIN_COEFF \<le> n \<Longrightarrow> n \<le> MAX_COEFF \<Longrightarrow> FromInt64 n = normalizeTowardZero n 0"
  by (simp add: FromInt64_def scale_down_id normalizeTowardZero_def)

lemma FromInt64_value: "MIN_COEFF \<le> n \<Longrightarrow> n \<le> MAX_COEFF \<Longrightarrow> dval (FromInt64 n) = of_int n"
  using normalize_value [of n 0] by (simp add: FromInt64_eq norm_ok_int cval_def)

lemma scale_down_pos:
  "scale_down c e = (c', e') \<Longrightarrow> 0 \<le> c \<Longrightarrow> c \<le> MAX_COEFF * 10 ^ n \<Longrightarrow> e + int n \<le> 127
   \<Longrightarrow> \<exists>k \<le> n. c' = c div 10 ^ k \<and> e' = e + int k \<and> c' \<le> MAX_COEFF"
proof (induction n arbitrary: c e)
  case 0
  then show ?case using scale_down_id [of c e] by (auto simp: go_arith)
next
  case (Suc n)
  show ?case
  proof (cases "c \<le> MAX_COEFF")
    case True
    then show ?thesis using Suc.prems scale_down_id [of c e] by (intro exI [of _ 0]) (auto simp: go_arith)
  next
    case False
    then have "scale_down (c div 10) (e + 1) = (c', e')"
      using Suc.prems by (subst (asm) scale_down.simps) (simp add: sdiv_nonneg)
    moreover have "0 \<le> c div 10" "c div 10 \<le> MAX_COEFF * 10 ^ n" "e + 1 + int n \<le> 127"
      using Suc.prems by simp_all
    ultimately obtain k where "k \<le> n" "c' = c div 10 div 10 ^ k" "e' = e + 1 + int k" "c' \<le> MAX_COEFF"
      using Suc.IH by blast
    then show ?thesis
      by (intro exI [of _ "Suc k"]) (auto simp: zdiv_zmult2_eq)
  qed
qed

lemma FromInt64_truncates:
  assumes "0 \<le> n" "n \<le> max_int64"
  shows "dval (FromInt64 n) \<le> of_int n \<and> of_int n - dval (FromInt64 n) < 1000"
proof (cases "n = 0")
  case False
  obtain c e where s: "scale_down n 0 = (c, e)" by (cases "scale_down n 0")
  from scale_down_pos [OF s assms(1), of 3] assms(2)
  obtain k where k: "k \<le> 3" "c = n div 10 ^ k" "e = int k" "c \<le> MAX_COEFF" by (auto simp: go_arith)
  moreover have "0 \<le> c" using k assms by (simp add: pos_imp_zdiv_nonneg_iff)
  ultimately have "norm_ok c e" by (simp add: norm_ok_def go_arith)
  then have val: "dval (FromInt64 n) = of_int (n div 10 ^ k * 10 ^ k)"
    using False s k by (simp add: FromInt64_def normalize_value cval_def)
  have "n div 10 ^ k * 10 ^ k = n - n mod 10 ^ k" by (simp add: minus_mod_eq_div_mult)
  moreover have "(10::int) ^ k \<le> 1000"
    using power_increasing [of k 3 "10::int"] k by simp
  then have "n mod 10 ^ k < 1000"
    using pos_mod_bound [of "10 ^ k" n] by (meson order_less_le_trans zero_less_numeral zero_less_power)
  ultimately have "n div 10 ^ k * 10 ^ k \<le> n" "n - n div 10 ^ k * 10 ^ k < 1000" by simp_all
  then show ?thesis
    unfolding val by (metis of_int_diff of_int_le_iff of_int_less_iff of_int_numeral)
qed (simp add: FromInt64_def)

lemma ToInt64_value:
  assumes "0 \<le> Exponent a" "Exponent a \<le> 18" "\<bar>Coefficient a * 10 ^ nat (Exponent a)\<bar> \<le> max_int64"
  shows "of_int (ToInt64 a) = dval a"
proof -
  have "ToInt64 a = Coefficient a * 10 ^ nat (Exponent a)"
    using assms by (simp add: ToInt64_def pow10_to_int64_def wrap64_id go_arith)
  then show ?thesis
    using assms by (simp add: dval_def cval_def power_int_def)
qed

lemma ToInt64_FromInt64:
  assumes "MIN_COEFF \<le> n" "n \<le> MAX_COEFF"
  shows "ToInt64 (FromInt64 n) = n"
proof -
  let ?a = "FromInt64 n"
  have e: "0 \<le> Exponent ?a" "Exponent ?a \<le> 16"
    using normalize_spec [of n 0] assms by (simp_all add: FromInt64_eq norm_ok_int)
  have v: "(of_int n :: rat) = of_int (Coefficient ?a * 10 ^ nat (Exponent ?a))"
    using FromInt64_value [OF assms] e by (simp add: dval_def cval_def power_int_def)
  then have "Coefficient ?a * 10 ^ nat (Exponent ?a) = n" by (simp only: of_int_eq_iff)
  then have "(of_int (ToInt64 ?a) :: rat) = dval ?a"
    using assms e by (intro ToInt64_value) (auto simp: go_arith)
  then show ?thesis
    using FromInt64_value [OF assms] by (simp only: of_int_eq_iff)
qed

lemma ToInt64_fraction: "Exponent a < 0 \<Longrightarrow> ToInt64 a = 0"
  by (simp add: ToInt64_def pow10_to_int64_def wrap64_id go_arith)

section \<open>Departures from arithmetic\<close>

lemma dec_Div_negative_divisor:
  assumes "0 < Coefficient a" "Coefficient b < 0" "0 < p"
  shows "0 \<le> Coefficient (dec_Div a b p r)"
proof -
  let ?cb = "Coefficient b"
  obtain s u where sc: "scaleForDiv (Coefficient a) ?cb p = (s, u)"
    by (cases "scaleForDiv (Coefficient a) ?cb p")
  have s: "s \<le> 0" using scaleForDiv_spec [OF sc] assms by auto
  have q: "0 \<le> s sdiv ?cb"
    using s assms by (simp add: sdiv_int_alt sgn_if neg_imp_zdiv_nonneg_iff)
  have "0 \<le> round_quotient r s ?cb (s sdiv ?cb) (s smod ?cb)"
    using q s assms by (auto simp: round_quotient_def Let_def split: RoundingMode.splits)
  then show ?thesis
    using sc assms normalize_nonneg by (simp add: dec_Div_def Let_def)
qed

lemma dec_Mul_NaN: "dec_Mul dec_NAN b = dec_ZERO" "dec_Mul a dec_NAN = dec_ZERO"
  by (simp_all add: dec_Mul_def)

lemma dec_Eq_NaN_ZERO: "dec_Eq dec_NAN dec_ZERO"
  by (simp add: dec_Eq_def dec_Cmp_def normalizePair_def wrap8_def)


section \<open>Properties\<close>

text \<open>
  Packing and unpacking are inverse up to the field widths: the coefficient of a packed
  number is the argument reduced to 56 signed bits, its exponent the argument reduced to
  8 signed bits, and every 64-bit pattern is the packing of its own two fields.\<close>

theorem dec64_packing_roundtrip:
  "Coefficient (dec_New c e) = signed_take_bit 55 c \<and> Exponent (dec_New c e) = wrap8 e
   \<and> dec_New (Coefficient a) (Exponent a) = a"
  by (simp add: Coefficient_New_take_bit Exponent_New_wrap New_parts)

text \<open>C27: Addition is exact: when the coefficients align without wrapping and the aligned sum is
  one normalisation represents, \<open>Add\<close> returns the number whose value is the exact sum.\<close>

theorem dec_Add_exact:
  assumes "aligned a b" and "norm_ok (align_left a b + align_left b a) (min (Exponent a) (Exponent b))"
  shows "dval (dec_Add a b) = dval a + dval b"
  using assms by (rule dec_Add_value)

theorem dec_Add_exact_witness:
  "dval (dec_Add (dec_New 15 (- 1)) (dec_New 25 (- 2))) = dval (dec_New 15 (- 1)) + dval (dec_New 25 (- 2))"
  by (rule dec_Add_exact) (simp_all add: aligned_def align_left_def norm_ok_def go_arith)

text \<open>
  Comparison is comparison of values: on coefficients that align without wrapping, \<open>Cmp\<close>
  returns -1, 0 or 1 according to the order of the two exact values.\<close>

theorem dec_Cmp_exact:
  "aligned a b \<Longrightarrow> dec_Cmp a b = (if dval a < dval b then - 1 else if dval b < dval a then 1 else 0)"
  by (rule dec_Cmp_value)

theorem dec_Cmp_exact_witness:
  "dec_Cmp (dec_New 15 (- 1)) (dec_New 25 (- 2)) =
     (if dval (dec_New 15 (- 1)) < dval (dec_New 25 (- 2)) then - 1
      else if dval (dec_New 25 (- 2)) < dval (dec_New 15 (- 1)) then 1 else 0)"
  by (rule dec_Cmp_exact) (simp add: aligned_def go_arith)

text \<open>
  Multiplication is exact whenever the product of the coefficients fits an \<open>int64\<close>, the sum
  of the exponents fits an \<open>int8\<close> and normalisation represents the result.\<close>

theorem dec_Mul_exact:
  assumes "\<bar>Coefficient a * Coefficient b\<bar> \<le> max_int64"
    and "- 128 \<le> Exponent a + Exponent b" "Exponent a + Exponent b \<le> 127"
    and "norm_ok (Coefficient a * Coefficient b) (Exponent a + Exponent b)"
  shows "dval (dec_Mul a b) = dval a * dval b"
  using assms by (rule dec_Mul_value)

theorem dec_Mul_exact_witness:
  "dval (dec_Mul (dec_New 15 (- 1)) (dec_New (- 25) (- 2)))
     = dval (dec_New 15 (- 1)) * dval (dec_New (- 25) (- 2))"
  by (rule dec_Mul_exact) (simp_all add: norm_ok_def go_arith)

text \<open>C28: Division of a non-negative number by a positive one, rounding half to even, is correctly
  rounded: the result is within half a unit of the last digit \<open>scaleForDiv\<close> could afford.\<close>

theorem dec_Div_correctly_rounded:
  assumes "0 \<le> Coefficient a" "0 < Coefficient b" "0 \<le> p" "p \<le> 127"
    and "scaleForDiv (Coefficient a) (Coefficient b) p = (s, u)"
    and "s div Coefficient b < MAX_COEFF"
    and "- 128 \<le> Exponent a - Exponent b - u" "Exponent a - Exponent b \<le> 111"
  shows "\<bar>dval (dec_Div a b p RoundHalfEven) - dval a / dval b\<bar> \<le> 10 powi (Exponent a - Exponent b - u) / 2"
  using assms by (rule dec_Div_half_even)

theorem dec_Div_correctly_rounded_witness:
  "\<bar>dval (dec_Div (dec_New 1 0) (dec_New 3 0) 2 RoundHalfEven) - dval (dec_New 1 0) / dval (dec_New 3 0)\<bar>
     \<le> 10 powi (- 2) / 2"
  using dec_Div_correctly_rounded [of "dec_New 1 0" "dec_New 3 0" 2 100 2]
  by (simp add: scaleForDiv_def abs64_def go_arith numeral_2_eq_2 sdiv_int_alt)

text \<open>
  A positive dividend and a negative divisor give a quotient that is never negative: the sign
  \<open>scaleForDiv\<close> already put on the dividend is cancelled by the signed division. Ten divided
  by minus three is positive.\<close>

theorem dec_Div_loses_divisor_sign:
  assumes "0 < Coefficient a" "Coefficient b < 0" "0 < p"
  shows "0 \<le> Coefficient (dec_Div a b p r)"
  using assms by (rule dec_Div_negative_divisor)

theorem dec_Div_loses_divisor_sign_witness:
  "0 \<le> Coefficient (dec_Div (dec_New 10 0) (dec_New (- 3) 0) 14 RoundHalfEven)"
  by (rule dec_Div_loses_divisor_sign) (simp_all add: go_arith)

text \<open>
  Integers survive the number type: every integer of at most 56 bits is read back unchanged
  by \<open>ToInt64\<close>, and its \<open>Dec64\<close> has exactly its value.\<close>

theorem dec64_int_roundtrip:
  assumes "MIN_COEFF \<le> n" "n \<le> MAX_COEFF"
  shows "ToInt64 (FromInt64 n) = n \<and> dval (FromInt64 n) = of_int n"
  using assms by (simp add: ToInt64_FromInt64 FromInt64_value)

theorem dec64_int_roundtrip_witness:
  "ToInt64 (FromInt64 (- 1234)) = - 1234 \<and> dval (FromInt64 (- 1234)) = of_int (- 1234)"
  by (rule dec64_int_roundtrip) (simp_all add: go_arith)

text \<open>
  \<open>IsFloat\<close> decides integrality for exponents from -18 up, and from -127 down to -64 it
  panics on every non-zero coefficient, because the power of ten it divides by wraps to 0.\<close>

theorem dec_IsFloat_decides:
  "(- 18 \<le> Exponent a \<longrightarrow> dec_IsFloat a = Some (dval a \<notin> \<int>))
   \<and> (- 128 < Exponent a \<and> Exponent a \<le> - 64 \<and> MIN_COEFF \<le> Coefficient a \<and> Coefficient a \<noteq> 0
      \<longrightarrow> dec_IsFloat a = None)"
  using dec_IsFloat_correct [of a] dec_IsFloat_panics [of "Exponent a" "Coefficient a"] Coefficient_range [of a]
  by (auto simp: New_parts go_arith)

theorem dec_IsFloat_decides_witness:
  "dec_IsFloat (dec_New 15 (- 1)) = Some (dval (dec_New 15 (- 1)) \<notin> \<int>)
   \<and> dec_IsFloat (dec_New 1 (- 70)) = None"
  using dec_IsFloat_decides [of "dec_New 15 (- 1)"] dec_IsFloat_decides [of "dec_New 1 (- 70)"]
  by (simp add: go_arith)

end
