(* ===== verification/Hamt.thy ===== *)
theory Hamt
  imports Prelude
begin

unbundle bit_operations_syntax

text \<open>
  The hash array mapped trie behind the language's maps: \<open>internal/object/hamt.go\<close>.
  A node is a bucket of leaves or a branch of 32 children selected by five bits of the
  64-bit key hash per level. Go's \<open>hamtNode\<close> struct with its \<open>isBucket\<close> flag is a datatype
  with one constructor per flag value, a nil pointer is \<open>None\<close>, and the \<open>replaced\<close> and
  \<open>removed\<close> flags the Go functions set through a pointer are returned. Values are
  polymorphic (\<open>MapPair\<close> in the code).
\<close>

section \<open>Keys\<close>

datatype MapKey = MapKey (key_type: string) (key_value: "64 word")

definition hamtMaxDepth :: nat where "hamtMaxDepth = 13"

text \<open>Every \<open>ObjectType\<close> constant is a non-empty string, so \<open>k.Type[0]\<close> exists.\<close>

definition mapKeyHash :: "MapKey \<Rightarrow> 64 word" where
  "mapKeyHash k =
     push_bit 56 (case key_type k of [] \<Rightarrow> 0 | c # _ \<Rightarrow> of_char c) XOR key_value k"

definition segment :: "64 word \<Rightarrow> nat \<Rightarrow> nat" where
  "segment hash depth = unat (drop_bit (depth * 5) hash AND 31)"

section \<open>Nodes and operations\<close>

datatype 'p hnode = Bucket "(MapKey \<times> 'p) list" | Branch "32 word" "'p hnode option list"

definition child :: "'p hnode option list \<Rightarrow> nat \<Rightarrow> 'p hnode option" where
  "child children seg = (if seg < length children then children ! seg else None)"

definition no_children :: "'p hnode option list" where
  "no_children = replicate 32 None"

fun replace_leaf :: "MapKey \<Rightarrow> 'p \<Rightarrow> (MapKey \<times> 'p) list \<Rightarrow> (MapKey \<times> 'p) list" where
  "replace_leaf key pair [] = []"
| "replace_leaf key pair ((k, p) # ls) =
     (if k = key then (k, pair) # ls else (k, p) # replace_leaf key pair ls)"

fun remove_leaf :: "MapKey \<Rightarrow> (MapKey \<times> 'p) list \<Rightarrow> (MapKey \<times> 'p) list" where
  "remove_leaf key [] = []"
| "remove_leaf key ((k, p) # ls) = (if k = key then ls else (k, p) # remove_leaf key ls)"

lemma child_size: "child children seg = Some n \<Longrightarrow> size n < size_list (size_option size) children"
proof -
  assume "child children seg = Some n"
  then have "Some n \<in> set children"
    by (auto simp: child_def in_set_conv_nth split: if_splits)
  then have "size_option size (Some n) \<le> size_list (size_option size) children"
    by (rule size_list_estimation') simp
  then show ?thesis by simp
qed

function (sequential) hamtInsert ::
    "'p hnode option \<Rightarrow> 64 word \<Rightarrow> nat \<Rightarrow> MapKey \<Rightarrow> 'p \<Rightarrow> 'p hnode \<times> bool"
  and hamtInsertBranch ::
    "32 word \<Rightarrow> 'p hnode option list \<Rightarrow> 64 word \<Rightarrow> nat \<Rightarrow> MapKey \<Rightarrow> 'p
     \<Rightarrow> 32 word \<times> 'p hnode option list \<times> bool" where
  "hamtInsert None hash depth key pair = (Bucket [(key, pair)], False)"
| "hamtInsert (Some (Bucket leaves)) hash depth key pair =
     (if key \<in> fst ` set leaves then (Bucket (replace_leaf key pair leaves), True)
      else
        (let leaves' = leaves @ [(key, pair)]
         in if length leaves' \<le> 4 \<or> hamtMaxDepth \<le> depth then (Bucket leaves', False)
            else
              (let (bm, ch) =
                 foldl (\<lambda>(bm, ch) (k, p).
                   (let (bm', ch', _) = hamtInsertBranch bm ch (mapKeyHash k) depth k p in (bm', ch')))
                   (0, no_children) leaves'
               in (Branch bm ch, False))))"
| "hamtInsert (Some (Branch bitmap children)) hash depth key pair =
     (let (bm, ch, replaced) = hamtInsertBranch bitmap children hash depth key pair
      in (Branch bm ch, replaced))"
| "hamtInsertBranch bitmap children hash depth key pair =
     (let seg = segment hash depth; b = push_bit seg (1 :: 32 word)
      in if bitmap AND b = 0
         then (bitmap OR b, children[seg := Some (Bucket [(key, pair)])], False)
         else
           (let (c, replaced) = hamtInsert (child children seg) hash (Suc depth) key pair
            in (bitmap, children[seg := Some c], replaced)))"
  by pat_completeness auto
termination
proof (relation "measures
    [\<lambda>x. case x of Inl (n, h, d, k, p) \<Rightarrow> hamtMaxDepth - d | Inr (b, c, h, d, k, p) \<Rightarrow> hamtMaxDepth - d,
     \<lambda>x. case x of
        Inl (n, h, d, k, p) \<Rightarrow>
          (if d < hamtMaxDepth then 1 else case n of None \<Rightarrow> 0 | Some m \<Rightarrow> 2 * size m)
      | Inr (b, c, h, d, k, p) \<Rightarrow>
          (if d < hamtMaxDepth then 0 else Suc (2 * size_list (size_option size) c))]",
    goal_cases)
  case (4 bitmap children hash depth key pair seg b)
  then show ?case
    by (auto split: option.split dest: child_size)
qed auto

lemma child_size_option [termination_simp]:
  "size_option size (child children seg) < Suc (Suc (size_list (size_option size) children))"
  by (cases "child children seg") (auto dest: child_size)

fun hamtGet :: "'p hnode option \<Rightarrow> 64 word \<Rightarrow> nat \<Rightarrow> MapKey \<Rightarrow> 'p option" where
  "hamtGet None hash depth key = None"
| "hamtGet (Some (Bucket leaves)) hash depth key = map_of leaves key"
| "hamtGet (Some (Branch bitmap children)) hash depth key =
     (let seg = segment hash depth; b = push_bit seg (1 :: 32 word)
      in if bitmap AND b = 0 then None
         else hamtGet (child children seg) hash (Suc depth) key)"

text \<open>\<open>bits.TrailingZeros32\<close>: the index of the lowest set bit, 32 for 0.\<close>

definition trailingSegment :: "32 word \<Rightarrow> nat" where
  "trailingSegment bitmap = (case filter (bit bitmap) [0..<32] of [] \<Rightarrow> 32 | s # _ \<Rightarrow> s)"

fun hamtDelete ::
    "'p hnode option \<Rightarrow> 64 word \<Rightarrow> nat \<Rightarrow> MapKey \<Rightarrow> 'p hnode option \<times> bool" where
  "hamtDelete None hash depth key = (None, False)"
| "hamtDelete (Some (Bucket leaves)) hash depth key =
     (if key \<notin> fst ` set leaves then (Some (Bucket leaves), False)
      else if length leaves = 1 then (None, True)
      else (Some (Bucket (remove_leaf key leaves)), True))"
| "hamtDelete (Some (Branch bitmap children)) hash depth key =
     (let seg = segment hash depth; b = push_bit seg (1 :: 32 word)
      in if bitmap AND b = 0 then (Some (Branch bitmap children), False)
         else
           (let (nextChild, removed) = hamtDelete (child children seg) hash (Suc depth) key
            in if \<not> removed then (Some (Branch bitmap children), False)
               else
                 (case nextChild of
                    Some c \<Rightarrow> (Some (Branch bitmap (children[seg := Some c])), True)
                  | None \<Rightarrow>
                      (let bm = bitmap AND NOT b; ch = children[seg := None]
                       in if bm = 0 then (None, True)
                          else if bm AND (bm - 1) = 0
                          then (case child ch (trailingSegment bm) of
                                  Some (Bucket ls) \<Rightarrow> (Some (Bucket ls), True)
                                | _ \<Rightarrow> (Some (Branch bm ch), True))
                          else (Some (Branch bm ch), True)))))"

text \<open>
  \<open>hamtForEach\<close> with the callback's state threaded: the callback returns whether to go
  on. The branch loop takes the lowest set bit while one is left.
\<close>

lemma child_size_double:
  "2 * size_option size (child children seg) < Suc (Suc (Suc (2 * size_list (size_option size) children)))"
  using child_size_option [of children seg] by linarith

lemma and_minus_1_less: "bm \<noteq> 0 \<Longrightarrow> unat (bm AND (bm - 1)) < unat bm" for bm :: "32 word"
proof -
  assume "bm \<noteq> 0"
  then have "bm - 1 < bm"
    by (metis measure_unat word_less_nat_alt)
  moreover have "bm AND (bm - 1) \<le> bm - 1" by (rule word_and_le1)
  ultimately show ?thesis by (simp add: word_less_nat_alt word_le_nat_alt)
qed

function hamtForEach ::
    "'p hnode option \<Rightarrow> (MapKey \<Rightarrow> 'p \<Rightarrow> 's \<Rightarrow> 's \<times> bool) \<Rightarrow> 's \<Rightarrow> 's \<times> bool"
  and hamtForEach_leaves ::
    "(MapKey \<times> 'p) list \<Rightarrow> (MapKey \<Rightarrow> 'p \<Rightarrow> 's \<Rightarrow> 's \<times> bool) \<Rightarrow> 's \<Rightarrow> 's \<times> bool"
  and hamtForEach_branch ::
    "32 word \<Rightarrow> 'p hnode option list \<Rightarrow> (MapKey \<Rightarrow> 'p \<Rightarrow> 's \<Rightarrow> 's \<times> bool) \<Rightarrow> 's \<Rightarrow> 's \<times> bool"
  where
  "hamtForEach None fn s = (s, True)"
| "hamtForEach (Some (Bucket leaves)) fn s = hamtForEach_leaves leaves fn s"
| "hamtForEach (Some (Branch bitmap children)) fn s = hamtForEach_branch bitmap children fn s"
| "hamtForEach_leaves [] fn s = (s, True)"
| "hamtForEach_leaves ((k, p) # ls) fn s =
     (let (s', go) = fn k p s in if \<not> go then (s', False) else hamtForEach_leaves ls fn s')"
| "hamtForEach_branch bm children fn s =
     (if bm = 0 then (s, True)
      else
        (let (s', go) = hamtForEach (child children (trailingSegment bm)) fn s
         in if \<not> go then (s', False)
            else hamtForEach_branch (bm AND (bm - 1)) children fn s'))"
  by pat_completeness auto
termination
  by (relation "measures
       [\<lambda>x. case x of Inl (n, _) \<Rightarrow> 2 * size_option size n | Inr (Inl (ls, _)) \<Rightarrow> 0
                | Inr (Inr (_, c, _)) \<Rightarrow> Suc (2 * Suc (size_list (size_option size) c)),
        \<lambda>x. case x of Inl _ \<Rightarrow> 0 | Inr (Inl (ls, _)) \<Rightarrow> length ls
                | Inr (Inr (bm, _)) \<Rightarrow> unat bm]")
     (use child_size_option in \<open>auto simp: and_minus_1_less intro: child_size_double\<close>)

declare hamtForEach_branch.simps [simp del]

end
