(* ===== verification/Hamt_Laws.thy ===== *)
theory Hamt_Laws
  imports Hamt
begin

text \<open>
  What the trie of \<open>internal/object/hamt.go\<close> keeps: the bits of its bitmaps, the finite map
  a node stands for, the well-formedness invariant, and that lookup, insertion (with the
  promotion of a full bucket), deletion (with the collapse of a branch down to its only
  bucket) and iteration implement the operations of that map.
\<close>

unbundle bit_operations_syntax

section \<open>Bits of the bitmap\<close>

lemma segment_less [simp]: "segment h d < 32"
proof -
  have "drop_bit (d * 5) h AND 31 \<le> (31 :: 64 word)" by (rule word_and_le1)
  then have "unat (drop_bit (d * 5) h AND 31) \<le> unat (31 :: 64 word)"
    by (simp add: word_le_nat_alt)
  then show ?thesis by (simp add: segment_def)
qed

lemma bit_test [simp]: "bitmap AND 2 ^ s = 0 \<longleftrightarrow> \<not> bit bitmap s" for bitmap :: "32 word"
  by (simp add: and_exp_eq_0_iff_not_bit)

lemma bit_set: "s < 32 \<Longrightarrow> bit (bitmap OR push_bit t 1) s \<longleftrightarrow> bit bitmap s \<or> s = t" for bitmap :: "32 word"
  by (auto simp: bit_simps)

lemma bit_clear: "s < 32 \<Longrightarrow> bit (bitmap AND NOT (push_bit t 1)) s \<longleftrightarrow> bit bitmap s \<and> s \<noteq> t" for bitmap :: "32 word"
  by (auto simp: bit_simps)

lemma bitmap_eq_0_iff: "bm = 0 \<longleftrightarrow> (\<forall>s<32. \<not> bit bm s)" for bm :: "32 word"
  by (auto simp: bit_eq_iff)

lemma trailingSegment_least:
  assumes "bm \<noteq> 0"
  shows "trailingSegment bm < 32 \<and> bit bm (trailingSegment bm) \<and> (\<forall>s<trailingSegment bm. \<not> bit bm s)"
proof -
  let ?f = "filter (bit bm) [0..<32]"
  obtain s0 where s0: "s0 < 32" "bit bm s0" using assms by (auto simp: bitmap_eq_0_iff)
  then have "s0 \<in> set ?f" by simp
  then obtain s ss where f: "?f = s # ss" by (cases ?f) auto
  then have s: "s \<in> set ?f" by simp
  have "sorted (s # ss)" unfolding f [symmetric] by (intro sorted_wrt_filter sorted_upt)
  then have le: "s \<le> t" if "t \<in> set ?f" for t using that f by auto
  have "\<not> bit bm t" if "t < s" for t
  proof
    assume "bit bm t"
    then have "t \<in> set ?f" using that s by simp
    then show False using le that by fastforce
  qed
  moreover have "s < 32 \<and> bit bm s" using s by simp
  ultimately show ?thesis using f by (simp add: trailingSegment_def)
qed

lemma clear_lowest:
  assumes "bm \<noteq> 0" "s < 32"
  shows "bit (bm AND (bm - 1)) s \<longleftrightarrow> bit bm s \<and> s \<noteq> trailingSegment bm"
proof -
  let ?t = "trailingSegment bm"
  let ?u = "bm AND NOT (push_bit ?t 1)"
  have t: "?t < 32" "bit bm ?t" "\<And>s. s < ?t \<Longrightarrow> \<not> bit bm s"
    using trailingSegment_least [OF assms(1)] by auto
  have "?u + push_bit ?t 1 = ?u OR push_bit ?t 1"
    by (rule disjunctive_add) (auto simp: bit_simps)
  also have "\<dots> = bm"
    by (rule bit_eqI) (use t in \<open>auto simp: bit_simps\<close>)
  finally have "bm - 1 = ?u + mask ?t"
    by (simp add: mask_eq_exp_minus_1 algebra_simps push_bit_eq_mult)
  also have "\<dots> = ?u OR mask ?t"
    by (rule disjunctive_add) (use t in \<open>auto simp: bit_simps\<close>)
  finally show ?thesis
    using assms(2) t by (auto simp: bit_simps)
qed

section \<open>Abstraction and invariant\<close>

fun hamt_leaves :: "'p hnode option \<Rightarrow> (MapKey \<times> 'p) list" where
  "hamt_leaves None = []"
| "hamt_leaves (Some (Bucket leaves)) = leaves"
| "hamt_leaves (Some (Branch bitmap children)) =
     concat (map (\<lambda>s. if bit bitmap s then hamt_leaves (child children s) else []) [0..<32])"

definition hamt_map :: "'p hnode option \<Rightarrow> MapKey \<Rightarrow> 'p option" where
  "hamt_map n = map_of (hamt_leaves n)"

text \<open>
  A well-formed node at depth \<open>d\<close>: buckets are non-empty with distinct keys; a branch is
  above the depth limit, has 32 slots, its bitmap marks exactly the occupied ones, and
  every key below slot \<open>s\<close> has \<open>s\<close> as its hash segment of depth \<open>d\<close>.
\<close>

function hamt_wf :: "nat \<Rightarrow> 'p hnode option \<Rightarrow> bool"
  and branch_wf :: "nat \<Rightarrow> 32 word \<Rightarrow> 'p hnode option list \<Rightarrow> bool" where
  "hamt_wf d None = True"
| "hamt_wf d (Some (Bucket leaves)) = (leaves \<noteq> [] \<and> distinct (map fst leaves))"
| "hamt_wf d (Some (Branch bitmap children)) = (bitmap \<noteq> 0 \<and> branch_wf d bitmap children)"
| "branch_wf d bitmap children =
     (d < hamtMaxDepth \<and> length children = 32
      \<and> (\<forall>s<32. bit bitmap s \<longleftrightarrow> child children s \<noteq> None)
      \<and> (\<forall>s<32. hamt_wf (Suc d) (child children s)
           \<and> (\<forall>k\<in>dom (hamt_map (child children s)). segment (mapKeyHash k) d = s)))"
  by pat_completeness auto
termination
  by (relation "measure (\<lambda>x. case x of Inl (_, n) \<Rightarrow> 2 * size_option size n
        | Inr (_, _, c) \<Rightarrow> Suc (2 * Suc (size_list (size_option size) c)))")
     (auto intro: child_size_double)

declare branch_wf.simps [simp del] hamtInsertBranch.simps [simp del]

lemma branch_wf_child:
  assumes "branch_wf d bm ch" "s < 32"
  shows "hamt_wf (Suc d) (child ch s)" "bit bm s \<longleftrightarrow> child ch s \<noteq> None"
    "k \<in> dom (hamt_map (child ch s)) \<Longrightarrow> segment (mapKeyHash k) d = s"
  using assms by (auto simp: branch_wf.simps)

lemma map_of_concat:
  assumes "s \<in> set ss" "\<And>t. t \<in> set ss \<Longrightarrow> t \<noteq> s \<Longrightarrow> map_of (f t) k = None"
  shows "map_of (concat (map f ss)) k = map_of (f s) k"
  using assms
proof (induction ss)
  case (Cons t ss)
  show ?case
  proof (cases "s \<in> set ss")
    case True
    then have "map_of (concat (map f ss)) k = map_of (f s) k" using Cons by simp
    moreover have "t \<noteq> s \<Longrightarrow> map_of (f t) k = None" using Cons.prems by simp
    ultimately show ?thesis by (cases "t = s") (auto simp: map_add_def split: option.split)
  next
    case False
    then have "t = s" using Cons.prems by simp
    have "map_of (f u) k = None" if "u \<in> set ss" for u using Cons.prems False that by auto
    then have "k \<notin> fst ` (\<Union>u\<in>set ss. set (f u))"
      by (auto simp: map_of_eq_None_iff image_UN)
    then have "map_of (concat (map f ss)) k = None" by (auto simp: map_of_eq_None_iff)
    with \<open>t = s\<close> show ?thesis by (simp add: map_add_def split: option.split)
  qed
qed simp

lemma hamt_map_simps [simp]:
  "hamt_map None = Map.empty"
  "hamt_map (Some (Bucket ls)) = map_of ls"
  by (simp_all add: hamt_map_def fun_eq_iff)

lemma hamt_map_branch:
  assumes "branch_wf d bm ch"
  shows "hamt_map (Some (Branch bm ch)) k = hamt_map (child ch (segment (mapKeyHash k) d)) k"
proof -
  let ?s = "segment (mapKeyHash k) d"
  let ?f = "\<lambda>s. if bit bm s then hamt_leaves (child ch s) else []"
  have "hamt_map (Some (Branch bm ch)) k = map_of (?f ?s) k"
    unfolding hamt_map_def hamt_leaves.simps
    by (rule map_of_concat)
       (use branch_wf_child(3) [OF assms, of _ k] in \<open>force simp: hamt_map_def dom_def\<close>)+
  also have "\<dots> = hamt_map (child ch ?s) k"
    using branch_wf_child(2) [OF assms, of ?s] by (auto simp: hamt_map_def)
  finally show ?thesis .
qed

lemma hamt_leaves_distinct: "hamt_wf d n \<Longrightarrow> distinct (map fst (hamt_leaves n))"
proof (induction n arbitrary: d rule: hamt_leaves.induct)
  case (3 bm ch)
  then have wf: "branch_wf d bm ch" by simp
  let ?f = "\<lambda>s. if bit bm s then hamt_leaves (child ch s) else []"
  have seg: "segment (mapKeyHash k) d = s" if "s < 32" "k \<in> fst ` set (?f s)" for s k
    using branch_wf_child(3) [OF wf that(1), of k] that(2)
    by (cases "bit bm s") (simp_all add: hamt_map_def dom_map_of_conv_image_fst)
  have dist: "distinct (map fst (?f s))" if "s < 32" for s
    using 3(1) [of s "Suc d"] branch_wf_child(1) [OF wf that] that by simp
  have "distinct (concat (map (\<lambda>s. map fst (?f s)) ss))" if "distinct ss" "set ss \<subseteq> {0..<32}" for ss
    using that
  proof (induction ss)
    case (Cons s ss)
    have "fst ` set (?f s) \<inter> fst ` set (?f t) = {}" if "t \<in> set ss" for t
    proof -
      have "t < 32" "s < 32" "s \<noteq> t" using Cons.prems that by auto
      then show ?thesis using seg [of s] seg [of t] by (metis disjoint_iff)
    qed
    then have "fst ` set (?f s) \<inter> (\<Union>t\<in>set ss. fst ` set (?f t)) = {}" by blast
    moreover have "s < 32" using Cons.prems by simp
    ultimately show ?case using Cons dist [of s] by (simp add: image_UN)
  qed simp
  then have "distinct (concat (map (\<lambda>s. map fst (?f s)) [0..<32]))" by auto
  then show ?case by (simp only: hamt_leaves.simps map_concat map_map comp_def)
qed auto

lemma child_update: "length ch = 32 \<Longrightarrow> s < 32 \<Longrightarrow> child (ch[s := x]) t = (if t = s then x else child ch t)"
  by (auto simp: child_def)

lemma branch_update:
  assumes wf: "branch_wf d bm ch" and s: "s < 32" and x: "hamt_wf (Suc d) x"
    and seg: "\<And>k. k \<in> dom (hamt_map x) \<Longrightarrow> segment (mapKeyHash k) d = s"
    and bm: "\<And>t. t < 32 \<Longrightarrow> bit bm' t \<longleftrightarrow> (if t = s then x \<noteq> None else bit bm t)"
  shows "branch_wf d bm' (ch[s := x])"
    "hamt_map (Some (Branch bm' (ch[s := x]))) k =
      (if segment (mapKeyHash k) d = s then hamt_map x k else hamt_map (Some (Branch bm ch)) k)"
proof -
  have len: "length ch = 32" using wf by (simp add: branch_wf.simps)
  show wf': "branch_wf d bm' (ch[s := x])"
    using wf x seg bm by (auto simp: branch_wf.simps child_update [OF len s])
  show "hamt_map (Some (Branch bm' (ch[s := x]))) k =
      (if segment (mapKeyHash k) d = s then hamt_map x k else hamt_map (Some (Branch bm ch)) k)"
    by (simp add: hamt_map_branch [OF wf'] hamt_map_branch [OF wf] child_update [OF len s])
qed

section \<open>Lookup\<close>

lemma hamtGet_map: "hamt_wf d n \<Longrightarrow> hamtGet n (mapKeyHash k) d k = hamt_map n k"
proof (induction n "mapKeyHash k" d k rule: hamtGet.induct)
  case (3 bm ch d k)
  then have wf: "branch_wf d bm ch" by simp
  show ?case
    using 3(1) [OF refl refl] branch_wf_child(1,2) [OF wf, of "segment (mapKeyHash k) d"]
    by (auto simp: hamt_map_branch [OF wf] Let_def)
qed (auto simp: fun_eq_iff)

section \<open>Insertion\<close>

lemma fst_replace_leaf [simp]: "map fst (replace_leaf k p ls) = map fst ls"
  by (induction k p ls rule: replace_leaf.induct) auto

lemma replace_leaf_Nil [simp]: "replace_leaf k p ls = [] \<longleftrightarrow> ls = []"
  by (cases ls) (auto split: if_splits)

lemma map_of_replace_leaf: "k \<in> fst ` set ls \<Longrightarrow> map_of (replace_leaf k p ls) = (map_of ls)(k \<mapsto> p)"
  by (induction k p ls rule: replace_leaf.induct) (force simp: fun_eq_iff)+

definition insert_ok :: "nat \<Rightarrow> 'p hnode option \<Rightarrow> MapKey \<Rightarrow> 'p \<Rightarrow> 'p hnode \<times> bool \<Rightarrow> bool" where
  "insert_ok d n k p res \<longleftrightarrow>
     hamt_wf d (Some (fst res)) \<and> hamt_map (Some (fst res)) = (hamt_map n)(k \<mapsto> p)
     \<and> (snd res \<longleftrightarrow> k \<in> dom (hamt_map n))"

lemma no_children_wf: "d < hamtMaxDepth \<Longrightarrow> branch_wf d 0 no_children"
  by (simp add: branch_wf.simps no_children_def child_def)

lemma hamt_map_no_children: "hamt_map (Some (Branch 0 no_children)) = Map.empty"
  by (simp add: hamt_map_def)

text \<open>Promotion: inserting the leaves one by one into an empty branch.\<close>

lemma map_of_snoc: "k \<notin> fst ` set ls \<Longrightarrow> map_of (ls @ [(k, p)]) = (map_of ls)(k \<mapsto> p)"
  by (induction ls) (auto simp: fun_eq_iff)

lemma map_of_rev_distinct: "distinct (map fst ls) \<Longrightarrow> map_of (rev ls) = map_of ls"
  by (induction ls) (auto simp: map_of_snoc simp del: map_of_append)

lemma promote_fold:
  assumes "\<And>k p bm ch. (k, p) \<in> set ls \<Longrightarrow> branch_wf d bm ch \<Longrightarrow>
      (case hamtInsertBranch bm ch (mapKeyHash k) d k p of (bm', ch', r) \<Rightarrow>
         insert_ok d (Some (Branch bm ch)) k p (Branch bm' ch', r))"
    and "branch_wf d bm ch" and "ls = [] \<Longrightarrow> bm \<noteq> 0"
    and "foldl (\<lambda>(bm, ch) (k, p).
           (let (bm', ch', _) = hamtInsertBranch bm ch (mapKeyHash k) d k p in (bm', ch')))
           (bm, ch) ls = (bm2, ch2)"
  shows "hamt_wf d (Some (Branch bm2 ch2))
    \<and> hamt_map (Some (Branch bm2 ch2)) = hamt_map (Some (Branch bm ch)) ++ map_of (rev ls)"
  using assms
proof (induction ls arbitrary: bm ch)
  case (Cons x ls)
  obtain k p where x: "x = (k, p)" by (cases x)
  obtain bm' ch' r where ins: "hamtInsertBranch bm ch (mapKeyHash k) d k p = (bm', ch', r)"
    by (metis prod_cases3)
  have ok: "insert_ok d (Some (Branch bm ch)) k p (Branch bm' ch', r)"
    using Cons.prems(1) [of k p bm ch] Cons.prems(2) by (simp add: x ins)
  have "hamt_wf d (Some (Branch bm2 ch2))
    \<and> hamt_map (Some (Branch bm2 ch2)) = hamt_map (Some (Branch bm' ch')) ++ map_of (rev ls)"
    by (rule Cons.IH) (use Cons.prems ok in \<open>auto simp: insert_ok_def x ins\<close>)
  then show ?case using ok by (simp add: insert_ok_def x)
qed simp

lemma hamtInsert_correct:
  "h = mapKeyHash k \<Longrightarrow> hamt_wf d n \<Longrightarrow> insert_ok d n k p (hamtInsert n h d k p)"
  "h = mapKeyHash k \<Longrightarrow> branch_wf d bm ch \<Longrightarrow>
     (case hamtInsertBranch bm ch h d k p of (bm', ch', r) \<Rightarrow>
        insert_ok d (Some (Branch bm ch)) k p (Branch bm' ch', r))"
proof (induction n h d k p and bm ch h d k p rule: hamtInsert_hamtInsertBranch.induct)
  case (1 h d k p)
  then show ?case by (simp add: insert_ok_def)
next
  case (2 ls h d k p)
  let ?ls = "ls @ [(k, p)]"
  show ?case
  proof (cases "k \<in> fst ` set ls")
    case True
    then show ?thesis using 2(3) by (simp add: insert_ok_def map_of_replace_leaf dom_map_of_conv_image_fst)
  next
    case new: False
    then have dist: "distinct (map fst ?ls)" using 2(3) by simp
    have map: "map_of ?ls = (map_of ls)(k \<mapsto> p)"
      using new by (rule map_of_snoc)
    show ?thesis
    proof (cases "length ?ls \<le> 4 \<or> hamtMaxDepth \<le> d")
      case True
      then show ?thesis
        using new dist map by (auto simp: insert_ok_def dom_map_of_conv_image_fst)
    next
      case False
      obtain bm2 ch2 where f: "foldl (\<lambda>(bm, ch) (k, p).
           (let (bm', ch', _) = hamtInsertBranch bm ch (mapKeyHash k) d k p in (bm', ch')))
           (0, no_children) ?ls = (bm2, ch2)"
        by fastforce
      have "hamt_wf d (Some (Branch bm2 ch2))
        \<and> hamt_map (Some (Branch bm2 ch2)) = hamt_map (Some (Branch 0 no_children)) ++ map_of (rev ?ls)"
      proof (rule promote_fold)
        fix k' p' bm' ch'
        assume mem: "(k', p') \<in> set ?ls" and bw: "branch_wf d bm' (ch' :: 'a hnode option list)"
        show "case hamtInsertBranch bm' ch' (mapKeyHash k') d k' p' of (bm'', ch'', r) \<Rightarrow>
            insert_ok d (Some (Branch bm' ch')) k' p' (Branch bm'' ch'', r)"
          by (rule 2(1) [OF new refl False mem refl refl bw])
      next
        show "branch_wf d 0 no_children" using False by (intro no_children_wf) simp
      qed (use f in auto)
      moreover have "map_of (rev ?ls) = map_of ?ls"
        using dist by (rule map_of_rev_distinct)
      moreover have "hamtInsert (Some (Bucket ls)) h d k p = (Branch bm2 ch2, False)"
        using new False f by (simp add: Let_def)
      ultimately show ?thesis
        using map new by (simp add: insert_ok_def hamt_map_no_children dom_map_of_conv_image_fst)
    qed
  qed
next
  case (3 bm ch h d k p)
  then show ?case by (cases "hamtInsertBranch bm ch h d k p") simp
next
  case (4 bm ch h d k p)
  let ?s = "segment h d"
  have h: "h = mapKeyHash k" and wf: "branch_wf d bm ch" by (fact 4)+
  have old: "hamt_map (Some (Branch bm ch)) k = hamt_map (child ch ?s) k"
    using hamt_map_branch [OF wf] h by simp
  obtain c r where ins: "insert_ok (Suc d) (child ch ?s) k p (c, r)"
    and res: "hamtInsertBranch bm ch h d k p = (bm OR 2 ^ ?s, ch[?s := Some c], r)"
  proof (cases "bit bm ?s")
    case True
    obtain c r where c: "hamtInsert (child ch ?s) h (Suc d) k p = (c, r)" by fastforce
    have "bm OR 2 ^ ?s = bm" by (rule bit_eqI) (use True in \<open>auto simp: bit_simps\<close>)
    then show ?thesis
      using that [of c r] 4(1) [OF refl refl] True h c branch_wf_child(1) [OF wf, of ?s]
      by (simp add: hamtInsertBranch.simps)
  next
    case False
    then have "child ch ?s = None" using branch_wf_child(2) [OF wf, of ?s] by simp
    then show ?thesis
      using that [of "Bucket [(k, p)]" False] False
      by (simp add: hamtInsertBranch.simps insert_ok_def Let_def)
  qed
  have seg: "segment (mapKeyHash k') d = ?s" if "k' \<in> dom (hamt_map (Some c))" for k'
    using ins that branch_wf_child(3) [OF wf, of ?s k'] h by (auto simp: insert_ok_def split: if_splits)
  note upd = branch_update [OF wf, of ?s "Some c" "bm OR 2 ^ ?s"]
  have "branch_wf d (bm OR 2 ^ ?s) (ch[?s := Some c])"
    by (rule upd) (use ins seg in \<open>auto simp: insert_ok_def bit_simps\<close>)
  moreover have "hamt_map (Some (Branch (bm OR 2 ^ ?s) (ch[?s := Some c]))) k' =
      ((hamt_map (Some (Branch bm ch)))(k \<mapsto> p)) k'" for k'
  proof -
    have "hamt_map (Some (Branch (bm OR 2 ^ ?s) (ch[?s := Some c]))) k' =
      (if segment (mapKeyHash k') d = ?s then hamt_map (Some c) k' else hamt_map (Some (Branch bm ch)) k')"
      by (rule upd) (use ins seg in \<open>auto simp: insert_ok_def bit_simps\<close>)
    then show ?thesis using ins h by (auto simp: insert_ok_def hamt_map_branch [OF wf])
  qed
  moreover have "bm OR 2 ^ ?s \<noteq> 0" by (auto simp: bitmap_eq_0_iff bit_simps intro!: exI [of _ ?s])
  ultimately show ?case using ins old by (simp add: res insert_ok_def fun_eq_iff dom_def)
qed

section \<open>Deletion\<close>

lemma remove_leaf_sub: "set (remove_leaf k ls) \<subseteq> set ls"
  by (induction k ls rule: remove_leaf.induct) auto

lemma distinct_remove_leaf: "distinct (map fst ls) \<Longrightarrow> distinct (map fst (remove_leaf k ls))"
proof (induction k ls rule: remove_leaf.induct)
  case (2 k k' p ls)
  then show ?case using remove_leaf_sub [of k ls] by auto
qed simp

lemma map_of_remove_leaf:
  "distinct (map fst ls) \<Longrightarrow> map_of (remove_leaf k ls) = (map_of ls)(k := None)"
  by (induction k ls rule: remove_leaf.induct)
     (auto simp: fun_eq_iff map_of_eq_None_iff)

lemma remove_leaf_Nil: "remove_leaf k ls = [] \<Longrightarrow> length ls \<le> 1"
  by (cases ls) (auto split: if_splits)

definition delete_ok :: "nat \<Rightarrow> 'p hnode option \<Rightarrow> MapKey \<Rightarrow> 'p hnode option \<times> bool \<Rightarrow> bool" where
  "delete_ok d n k res \<longleftrightarrow>
     hamt_wf d (fst res) \<and> hamt_map (fst res) = (hamt_map n)(k := None)
     \<and> (snd res \<longleftrightarrow> k \<in> dom (hamt_map n))"


text \<open>The node a branch becomes once its slot \<open>s\<close> has been emptied.\<close>

definition collapse :: "32 word \<Rightarrow> 'p hnode option list \<Rightarrow> 'p hnode option" where
  "collapse bm ch =
     (if bm = 0 then None
      else if bm AND (bm - 1) = 0
      then (case child ch (trailingSegment bm) of
              Some (Bucket ls) \<Rightarrow> Some (Bucket ls) | _ \<Rightarrow> Some (Branch bm ch))
      else Some (Branch bm ch))"

lemma hamtDelete_branch:
  "hamtDelete (Some (Branch bm ch)) h d k =
     (if \<not> bit bm (segment h d) then (Some (Branch bm ch), False)
      else
        (let (x, removed) = hamtDelete (child ch (segment h d)) h (Suc d) k
         in if \<not> removed then (Some (Branch bm ch), False)
            else (case x of Some c \<Rightarrow> Some (Branch bm (ch[segment h d := Some c]))
                  | None \<Rightarrow> collapse (bm AND NOT (2 ^ segment h d)) (ch[segment h d := None]), True)))"
  by (simp add: Let_def collapse_def split: prod.split option.split hnode.split)

declare hamtDelete.simps(3) [simp del]

lemma collapse_correct:
  assumes wf: "branch_wf d bm ch"
  shows "hamt_wf d (collapse bm ch) \<and> hamt_map (collapse bm ch) = hamt_map (Some (Branch bm ch))"
proof (cases "bm = 0")
  case True
  then show ?thesis by (simp add: collapse_def hamt_map_def)
next
  case ne: False
  let ?t = "trailingSegment bm"
  have t: "?t < 32" "bit bm ?t" using trailingSegment_least [OF ne] by auto
  show ?thesis
  proof (cases "bm AND (bm - 1) = 0 \<and> (\<exists>ls. child ch ?t = Some (Bucket ls))")
    case True
    then obtain ls where ls: "child ch ?t = Some (Bucket ls)" by blast
    have only: "bit bm s \<longleftrightarrow> s = ?t" if "s < 32" for s
      using clear_lowest [OF ne that] True t that by auto
    have "hamt_map (Some (Branch bm ch)) k = map_of ls k" for k
    proof (cases "segment (mapKeyHash k) d = ?t")
      case True
      then show ?thesis by (simp add: hamt_map_branch [OF wf] ls)
    next
      case False
      then have "hamt_map (Some (Branch bm ch)) k = None"
        using only [of "segment (mapKeyHash k) d"] branch_wf_child(2) [OF wf, of "segment (mapKeyHash k) d"]
        by (simp add: hamt_map_branch [OF wf])
      moreover have "map_of ls k = None"
        using branch_wf_child(3) [OF wf t(1), of k] False ls by (metis domIff hamt_map_simps(2))
      ultimately show ?thesis by simp
    qed
    then show ?thesis
      using True ne ls branch_wf_child(1) [OF wf t(1)] by (simp add: collapse_def fun_eq_iff)
  next
    case False
    then have "collapse bm ch = Some (Branch bm ch)"
      using ne by (auto simp: collapse_def split: option.split hnode.split)
    then show ?thesis using wf ne by simp
  qed
qed

lemma hamtDelete_correct:
  "h = mapKeyHash k \<Longrightarrow> hamt_wf d n \<Longrightarrow> delete_ok d n k (hamtDelete n h d k)"
proof (induction n h d k rule: hamtDelete.induct)
  case (1 h d k)
  then show ?case by (simp add: delete_ok_def)
next
  case (2 ls h d k)
  then show ?case
    using remove_leaf_Nil [of k ls]
    by (cases ls) (auto simp: delete_ok_def distinct_remove_leaf map_of_remove_leaf dom_map_of_conv_image_fst
        length_Suc_conv fun_eq_iff map_of_eq_None_iff)
next
  case (3 bm ch h d k)
  let ?s = "segment h d"
  have h: "h = mapKeyHash k" and wf: "branch_wf d bm ch" and ne: "bm \<noteq> 0" using 3(2,3) by simp_all
  have old: "hamt_map (Some (Branch bm ch)) k = hamt_map (child ch ?s) k"
    using hamt_map_branch [OF wf] h by simp
  obtain x r where x: "hamtDelete (child ch ?s) h (Suc d) k = (x, r)" by fastforce
  show ?case
  proof (cases "bit bm ?s \<and> r")
    case False
    have "hamt_map (child ch ?s) k = None"
    proof (cases "bit bm ?s")
      case True
      then show ?thesis
        using 3(1) [OF refl refl] False x h branch_wf_child(1) [OF wf, of ?s]
        by (auto simp: delete_ok_def)
    qed (use branch_wf_child(2) [OF wf, of ?s] in simp)
    moreover have "hamtDelete (Some (Branch bm ch)) h d k = (Some (Branch bm ch), False)"
      using False x by (simp add: hamtDelete_branch)
    ultimately show ?thesis
      using 3(3) old by (simp add: delete_ok_def fun_upd_idem dom_def)
  next
    case True
    have ok: "delete_ok (Suc d) (child ch ?s) k (x, True)"
      using 3(1) [OF refl refl] True x h branch_wf_child(1) [OF wf, of ?s] by simp
    define bm' where "bm' = (if x = None then bm AND NOT (2 ^ ?s) else bm)"
    have seg: "segment (mapKeyHash k') d = ?s" if "k' \<in> dom (hamt_map x)" for k'
      using ok that branch_wf_child(3) [OF wf, of ?s k'] by (auto simp: delete_ok_def split: if_splits)
    have bits: "bit bm' t \<longleftrightarrow> (if t = ?s then x \<noteq> None else bit bm t)" if "t < 32" for t
      using that True by (auto simp: bm'_def bit_simps)
    have xwf: "hamt_wf (Suc d) x" using ok by (simp add: delete_ok_def)
    note upd = branch_update [OF wf segment_less xwf seg bits, simplified]
    have map: "hamt_map (Some (Branch bm' (ch[?s := x]))) = (hamt_map (Some (Branch bm ch)))(k := None)"
      using upd(2) ok h by (auto simp: delete_ok_def fun_eq_iff hamt_map_branch [OF wf])
    have res: "hamtDelete (Some (Branch bm ch)) h d k =
        (if x = None then collapse bm' (ch[?s := None]) else Some (Branch bm' (ch[?s := x])), True)"
      using True x by (auto simp: hamtDelete_branch bm'_def)
    have dom: "k \<in> dom (hamt_map (Some (Branch bm ch)))"
      using ok old by (simp add: delete_ok_def dom_def)
    show ?thesis
      using upd(1) map dom ne collapse_correct [of d bm' "ch[?s := None]"]
      by (auto simp: res delete_ok_def bm'_def)
  qed
qed

section \<open>Iteration\<close>

text \<open>\<open>hamtForEach\<close> runs the callback on the leaves in order until it says stop.\<close>

lemma set_bits_split:
  assumes "bm \<noteq> 0"
  shows "filter (bit bm) [0..<32] = trailingSegment bm # filter (bit (bm AND (bm - 1))) [0..<32]"
proof -
  let ?t = "trailingSegment bm"
  note t = trailingSegment_least [OF assms]
  have parts: "[0..<32] = [0..<?t] @ ?t # [Suc ?t..<32]"
    using t by (metis less_imp_add_positive upt_add_eq_append upt_conv_Cons add_diff_cancel_left' le0 plus_nat.add_0)
  have "filter (bit bm) [0..<?t] = []" "filter (bit (bm AND (bm - 1))) [0..<?t] = []"
    using t by (auto simp: filter_empty_conv bit_simps)
  moreover have "filter (bit (bm AND (bm - 1))) [Suc ?t..<32] = filter (bit bm) [Suc ?t..<32]"
    using clear_lowest [OF assms] by (intro filter_cong) auto
  moreover have "\<not> bit (bm AND (bm - 1)) ?t" using clear_lowest [OF assms, of ?t] t by simp
  ultimately show ?thesis using t by (simp add: parts del: upt_conv_Cons)
qed

lemma hamtForEach_leaves_append:
  "hamtForEach_leaves (xs @ ys) fn s =
     (let (s', go) = hamtForEach_leaves xs fn s in if \<not> go then (s', False) else hamtForEach_leaves ys fn s')"
  by (induction xs arbitrary: s) (auto split: prod.split)

lemma concat_map_if:
  "concat (map (\<lambda>s. if P s then f s else []) ss) = concat (map f (filter P ss))"
  by (induction ss) auto

lemma hamtForEach_order:
  "hamtForEach n fn s = hamtForEach_leaves (hamt_leaves n) fn s"
  "hamtForEach_leaves ls fn s = hamtForEach_leaves ls fn s"
  "hamtForEach_branch bm ch fn s =
     hamtForEach_leaves (concat (map (\<lambda>s. hamt_leaves (child ch s)) (filter (bit bm) [0..<32]))) fn s"
proof (induction n fn s and ls fn s and bm ch fn s
    rule: hamtForEach_hamtForEach_leaves_hamtForEach_branch.induct)
  case (3 bm ch fn s)
  then show ?case by (simp add: concat_map_if)
next
  case (6 bm ch fn s)
  show ?case
  proof (cases "bm = 0")
    case True
    then show ?thesis by (simp add: hamtForEach_branch.simps)
  next
    case False
    then show ?thesis
      using 6 by (subst hamtForEach_branch.simps)
        (auto simp: set_bits_split hamtForEach_leaves_append split: prod.split)
  qed
qed simp_all

end
