(* ===== verification/MapStorage.thy ===== *)
theory MapStorage
  imports Hamt_Laws "HOL-Library.List_Lexorder" "HOL-Library.Char_ord"
begin

text \<open>
  \<open>internal/object/map_storage.go\<close> and the map object of \<open>internal/object/object.go\<close>: the Go
  interface \<open>mapStorage\<close> as a locale with its contract, the trie-backed implementation
  \<open>hamtMapStorage\<close> and its interpretation, the deterministic enumeration
  \<open>stableMapPairs\<close>, and the \<open>Map\<close> object whose legacy \<open>Pairs\<close> are migrated on first use.
\<close>

section \<open>The order of map keys\<close>

text \<open>Keys compare by their type's name, then by value, as \<open>stableMapPairs\<close> sorts them.\<close>

instantiation MapKey :: linorder
begin

definition less_eq_MapKey :: "MapKey \<Rightarrow> MapKey \<Rightarrow> bool" where
  "less_eq_MapKey a b \<longleftrightarrow>
     (if key_type a \<noteq> key_type b then key_type a < key_type b else key_value a \<le> key_value b)"

definition less_MapKey :: "MapKey \<Rightarrow> MapKey \<Rightarrow> bool" where
  "less_MapKey a b \<longleftrightarrow>
     (if key_type a \<noteq> key_type b then key_type a < key_type b else key_value a < key_value b)"

instance
  by standard
    (auto simp: less_eq_MapKey_def less_MapKey_def not_less MapKey.expand split: if_splits)

end

section \<open>The storage interface\<close>

locale map_storage =
  fixes inv :: "'s \<Rightarrow> bool"
    and empty :: 's
    and put :: "'s \<Rightarrow> 'k :: linorder \<Rightarrow> 'v \<Rightarrow> 's"
    and get :: "'s \<Rightarrow> 'k \<Rightarrow> 'v option"
    and del :: "'s \<Rightarrow> 'k \<Rightarrow> 's \<times> bool"
    and len :: "'s \<Rightarrow> int"
    and entries :: "'s \<Rightarrow> ('k \<times> 'v) list"
  assumes inv_empty: "inv empty"
    and inv_put: "inv s \<Longrightarrow> inv (put s k v)"
    and inv_del: "inv s \<Longrightarrow> inv (fst (del s k))"
    and get_empty: "get empty k = None"
    and get_put: "inv s \<Longrightarrow> get (put s k v) k' = (if k' = k then Some v else get s k')"
    and get_del: "inv s \<Longrightarrow> get (fst (del s k)) k' = (if k' = k then None else get s k')"
    and removed_del: "inv s \<Longrightarrow> snd (del s k) \<longleftrightarrow> get s k \<noteq> None"
    and get_entries: "inv s \<Longrightarrow> get s k = map_of (entries s) k"
    and distinct_entries: "inv s \<Longrightarrow> distinct (map fst (entries s))"
    and len_entries: "inv s \<Longrightarrow> len s = int (length (entries s))"
begin

definition put_all :: "'s \<Rightarrow> ('k \<times> 'v) list \<Rightarrow> 's" where
  "put_all s ps = foldl (\<lambda>s (k, v). put s k v) s ps"

lemma inv_put_all: "inv s \<Longrightarrow> inv (put_all s ps)"
  unfolding put_all_def by (induction ps arbitrary: s) (auto simp: inv_put)

lemma get_put_all: "inv s \<Longrightarrow> get (put_all s ps) = get s ++ map_of (rev ps)"
  unfolding put_all_def
proof (induction ps arbitrary: s)
  case (Cons p ps)
  obtain k v where p: "p = (k, v)" by (cases p)
  have "get (put s k v) = (get s)(k \<mapsto> v)" using Cons.prems by (simp add: get_put fun_eq_iff)
  moreover have "get (foldl (\<lambda>s (k, v). put s k v) (put s k v) ps) = get (put s k v) ++ map_of (rev ps)"
    using Cons by (simp add: inv_put)
  ultimately show ?case by (simp add: p)
qed (simp add: fun_eq_iff)

lemma get_map_of: "inv s \<Longrightarrow> get s = map_of (entries s)"
  by (simp add: get_entries fun_eq_iff)

lemma set_entries: "inv s \<Longrightarrow> (k, v) \<in> set (entries s) \<longleftrightarrow> get s k = Some v"
  by (simp add: get_entries distinct_entries)

lemma len_card: "inv s \<Longrightarrow> len s = int (card (dom (get s)))"
proof -
  assume s: "inv s"
  then have "dom (get s) = set (map fst (entries s))"
    by (simp add: dom_map_of_conv_image_fst get_map_of)
  then show ?thesis using s distinct_card [OF distinct_entries [OF s]] by (simp add: len_entries)
qed

lemma finite_dom: "inv s \<Longrightarrow> finite (dom (get s))"
  by (simp add: get_map_of finite_dom_map_of)

lemma len_put: "inv s \<Longrightarrow> len (put s k v) = (if get s k = None then len s + 1 else len s)"
proof -
  assume s: "inv s"
  have "get (put s k v) = (get s)(k \<mapsto> v)" using s by (simp add: get_put fun_eq_iff)
  then have "dom (get (put s k v)) = insert k (dom (get s))" by simp
  then show ?thesis
    using s by (auto simp: len_card inv_put finite_dom card_insert_if domIff)
qed

lemma len_del: "inv s \<Longrightarrow> len (fst (del s k)) = (if get s k = None then len s else len s - 1)"
proof -
  assume s: "inv s"
  have "get (fst (del s k)) = (get s)(k := None)" using s by (simp add: get_del fun_eq_iff)
  then have "dom (get (fst (del s k))) = dom (get s) - {k}" by simp
  then show ?thesis
    using s card_Suc_Diff1 [of "dom (get s)" k]
    by (auto simp: len_card inv_del finite_dom domIff card_Diff_singleton_if)
qed

text \<open>Two storages that answer alike enumerate alike once sorted.\<close>

definition sorted_entries :: "'s \<Rightarrow> ('k \<times> 'v) list" where
  "sorted_entries s = sort_key fst (entries s)"

lemma sorted_entries_eq:
  assumes "inv s" "inv t" "get s = get t"
  shows "sorted_entries s = sorted_entries t"
proof -
  have set: "set (entries s) = set (entries t)"
    using set_entries [OF assms(1)] set_entries [OF assms(2)] assms(3) by auto
  have sorted: "sorted (map fst (sorted_entries s)) \<and> distinct (map fst (sorted_entries s))
      \<and> set (sorted_entries s) = set (entries s)" if "inv s" for s
    using distinct_entries [OF that] by (simp add: sorted_entries_def distinct_map)
  have "inj_on fst (set (entries s))"
    using distinct_entries [OF assms(1)] by (simp add: distinct_map)
  then show ?thesis
    using set sorted [OF assms(1)] sorted [OF assms(2)]
    by (intro map_sorted_distinct_set_unique [of fst]) auto
qed

end


section \<open>The trie-backed storage\<close>

datatype 'p hamtMapStorage = HamtMapStorage (hms_root: "'p hnode option") (hms_size: int)

definition storage_empty :: "'p hamtMapStorage" where
  "storage_empty = HamtMapStorage None 0"

definition storage_put :: "'p hamtMapStorage \<Rightarrow> MapKey \<Rightarrow> 'p \<Rightarrow> 'p hamtMapStorage" where
  "storage_put s k v =
     (let (root, replaced) = hamtInsert (hms_root s) (mapKeyHash k) 0 k v;
          size = (if \<not> replaced then hms_size s + 1 else hms_size s)
      in HamtMapStorage (Some root) size)"

definition storage_get :: "'p hamtMapStorage \<Rightarrow> MapKey \<Rightarrow> 'p option" where
  "storage_get s k = hamtGet (hms_root s) (mapKeyHash k) 0 k"

definition storage_del :: "'p hamtMapStorage \<Rightarrow> MapKey \<Rightarrow> 'p hamtMapStorage \<times> bool" where
  "storage_del s k =
     (let (root, removed) = hamtDelete (hms_root s) (mapKeyHash k) 0 k;
          size = (if removed then hms_size s - 1 else hms_size s)
      in (HamtMapStorage root size, removed))"

definition storage_len :: "'p hamtMapStorage \<Rightarrow> int" where
  "storage_len s = hms_size s"

definition storage_forEach ::
    "'p hamtMapStorage \<Rightarrow> (MapKey \<Rightarrow> 'p \<Rightarrow> 's \<Rightarrow> 's \<times> bool) \<Rightarrow> 's \<Rightarrow> 's" where
  "storage_forEach s fn st = fst (hamtForEach (hms_root s) fn st)"

text \<open>
  \<open>stableMapPairs\<close> collects the entries with a callback that appends and goes on, sorts
  them by key and keeps the pairs. Keys are distinct, so the unstable sort of Go's
  \<open>sort.Slice\<close> and \<open>sort_key\<close> give the same list. A nil storage has no entries.
\<close>

definition collect_entries :: "'p hamtMapStorage \<Rightarrow> (MapKey \<times> 'p) list" where
  "collect_entries s = storage_forEach s (\<lambda>k p acc. (acc @ [(k, p)], True)) []"

definition stableMapPairs :: "'p hamtMapStorage option \<Rightarrow> 'p list" where
  "stableMapPairs so = (case so of None \<Rightarrow> [] | Some s \<Rightarrow> map snd (sort_key fst (collect_entries s)))"

definition storage_wf :: "'p hamtMapStorage \<Rightarrow> bool" where
  "storage_wf s \<longleftrightarrow> hamt_wf 0 (hms_root s) \<and> hms_size s = int (length (hamt_leaves (hms_root s)))"

lemma collect_entries_leaves: "collect_entries s = hamt_leaves (hms_root s)"
proof -
  have "fst (hamtForEach_leaves ls (\<lambda>k p acc. (acc @ [(k, p)], True)) acc) = acc @ ls"
    for ls :: "(MapKey \<times> 'a) list" and acc
    by (induction ls arbitrary: acc) auto
  then show ?thesis
    by (simp add: collect_entries_def storage_forEach_def hamtForEach_order(1))
qed

lemma leaves_card:
  assumes "hamt_wf d n"
  shows "length (hamt_leaves n) = card (dom (hamt_map n))"
proof -
  have "card (set (map fst (hamt_leaves n))) = length (map fst (hamt_leaves n))"
    by (rule distinct_card [OF hamt_leaves_distinct [OF assms]])
  then show ?thesis by (simp only: hamt_map_def dom_map_of_conv_image_fst list.set_map length_map)
qed

lemma finite_hamt_map: "finite (dom (hamt_map n))"
  by (simp add: hamt_map_def finite_dom_map_of)

lemma storage_put_wf: "storage_wf s \<Longrightarrow> storage_wf (storage_put s k v)"
proof -
  assume s: "storage_wf s"
  obtain root r where ins: "hamtInsert (hms_root s) (mapKeyHash k) 0 k v = (root, r)" by fastforce
  then have ok: "insert_ok 0 (hms_root s) k v (root, r)"
    using hamtInsert_correct(1) [OF refl, of 0 "hms_root s" k v] s by (simp add: storage_wf_def)
  have "length (hamt_leaves (Some root)) = card (insert k (dom (hamt_map (hms_root s))))"
    using ok leaves_card [of 0 "Some root"] by (simp add: insert_ok_def)
  also have "\<dots> = length (hamt_leaves (hms_root s)) + (if r then 0 else 1)"
    using ok s leaves_card [of 0 "hms_root s"]
    by (simp add: insert_ok_def card_insert_if finite_hamt_map storage_wf_def)
  finally show ?thesis
    using s ok by (simp add: storage_put_def ins storage_wf_def insert_ok_def)
qed

lemma storage_put_get:
  "storage_wf s \<Longrightarrow> storage_get (storage_put s k v) k' = (if k' = k then Some v else storage_get s k')"
proof -
  assume s: "storage_wf s"
  obtain root r where ins: "hamtInsert (hms_root s) (mapKeyHash k) 0 k v = (root, r)" by fastforce
  then have ok: "insert_ok 0 (hms_root s) k v (root, r)"
    using hamtInsert_correct(1) [OF refl, of 0 "hms_root s" k v] s by (simp add: storage_wf_def)
  then show ?thesis
    using s ins by (simp add: storage_put_def storage_get_def storage_wf_def insert_ok_def hamtGet_map)
qed

lemma storage_del_ok: "storage_wf s \<Longrightarrow> delete_ok 0 (hms_root s) k (hamtDelete (hms_root s) (mapKeyHash k) 0 k)"
  using hamtDelete_correct [OF refl, of 0 "hms_root s" k] by (simp add: storage_wf_def)

lemma storage_del_wf: "storage_wf s \<Longrightarrow> storage_wf (fst (storage_del s k))"
proof -
  assume s: "storage_wf s"
  obtain root r where del: "hamtDelete (hms_root s) (mapKeyHash k) 0 k = (root, r)" by fastforce
  have ok: "delete_ok 0 (hms_root s) k (root, r)" using storage_del_ok [OF s, of k] del by simp
  have "card (dom (hamt_map (hms_root s)) - {k}) + (if r then 1 else 0) = card (dom (hamt_map (hms_root s)))"
    using ok card_Suc_Diff1 [OF finite_hamt_map, of k "hms_root s"] by (auto simp: delete_ok_def)
  moreover have "length (hamt_leaves root) = card (dom (hamt_map (hms_root s)) - {k})"
    using ok leaves_card [of 0 root] by (simp add: delete_ok_def)
  ultimately have "length (hamt_leaves root) + (if r then 1 else 0) = length (hamt_leaves (hms_root s))"
    using s leaves_card [of 0 "hms_root s"] by (simp add: storage_wf_def)
  then show ?thesis
    using s ok by (simp add: storage_del_def del storage_wf_def delete_ok_def split: if_splits)
qed

interpretation hamt_storage: map_storage storage_wf storage_empty storage_put storage_get
  storage_del storage_len collect_entries
proof unfold_locales
  show "storage_wf storage_empty" by (simp add: storage_wf_def storage_empty_def)
next
  fix k show "storage_get storage_empty k = None" by (simp add: storage_get_def storage_empty_def)
next
  fix s :: "'a hamtMapStorage" and k k'
  assume s: "storage_wf s"
  then have w: "hamt_wf 0 (hms_root s)" by (simp add: storage_wf_def)
  obtain root r where del: "hamtDelete (hms_root s) (mapKeyHash k) 0 k = (root, r)" by fastforce
  have ok: "delete_ok 0 (hms_root s) k (root, r)" using storage_del_ok [OF s, of k] del by simp
  then show "storage_get (fst (storage_del s k)) k' = (if k' = k then None else storage_get s k')"
    using w by (simp add: storage_del_def del storage_get_def delete_ok_def hamtGet_map)
  show "snd (storage_del s k) \<longleftrightarrow> storage_get s k \<noteq> None"
    using ok w by (auto simp: storage_del_def del storage_get_def delete_ok_def hamtGet_map)
  show "storage_get s k = map_of (collect_entries s) k"
    using w by (simp add: storage_get_def hamtGet_map hamt_map_def collect_entries_leaves)
  show "distinct (map fst (collect_entries s))"
    using w by (simp add: collect_entries_leaves hamt_leaves_distinct)
  show "storage_len s = int (length (collect_entries s))"
    using s by (simp add: storage_len_def storage_wf_def collect_entries_leaves)
qed (auto simp: storage_put_wf storage_put_get storage_del_wf)


section \<open>Map objects\<close>

text \<open>
  The \<open>Map\<close> object: tags, the legacy \<open>Pairs\<close> (in the order in which Go happens to iterate
  them) and the storage, nil until first used. Go updates the receiver and returns it;
  here the updated map is returned. \<open>'o\<close> stands for the objects.
\<close>

datatype 'o MapPair = MapPair (mp_Key: 'o) (mp_Value: 'o)

datatype ('o, 't) slug_map =
  SlugMap (map_Tags: 't) (map_Pairs: "(MapKey \<times> 'o MapPair) list")
    (map_stg: "'o MapPair hamtMapStorage option")

definition ensureStorage :: "('o, 't) slug_map \<Rightarrow> 'o MapPair hamtMapStorage \<times> ('o, 't) slug_map" where
  "ensureStorage m =
     (case map_stg m of
        Some st \<Rightarrow> (st, m)
      | None \<Rightarrow>
          (let st = foldl (\<lambda>st (k, v). storage_put st k v) storage_empty (map_Pairs m)
           in (st, SlugMap (map_Tags m) [] (Some st))))"

definition map_PutPair :: "('o, 't) slug_map \<Rightarrow> MapKey \<Rightarrow> 'o MapPair \<Rightarrow> ('o, 't) slug_map" where
  "map_PutPair m k v =
     (let (st, m) = ensureStorage m in SlugMap (map_Tags m) [] (Some (storage_put st k v)))"

text \<open>\<open>Put\<close> takes the key object and its \<open>MapKey()\<close>.\<close>

definition map_Put :: "('o, 't) slug_map \<Rightarrow> 'o \<Rightarrow> MapKey \<Rightarrow> 'o \<Rightarrow> ('o, 't) slug_map" where
  "map_Put m ko k v =
     (let (st, m) = ensureStorage m
      in SlugMap (map_Tags m) [] (Some (storage_put st k (MapPair ko v))))"

definition map_DeleteKey :: "('o, 't) slug_map \<Rightarrow> MapKey \<Rightarrow> ('o, 't) slug_map" where
  "map_DeleteKey m k =
     (let (st, m) = ensureStorage m in SlugMap (map_Tags m) [] (Some (fst (storage_del st k))))"

definition map_GetPair :: "('o, 't) slug_map \<Rightarrow> MapKey \<Rightarrow> 'o MapPair option" where
  "map_GetPair m k = storage_get (fst (ensureStorage m)) k"

definition map_Get :: "('o, 't) slug_map \<Rightarrow> MapKey \<Rightarrow> 'o option" where
  "map_Get m k = map_option mp_Value (map_GetPair m k)"

definition map_Len :: "('o, 't) slug_map \<Rightarrow> int" where
  "map_Len m = storage_len (fst (ensureStorage m))"

definition map_Entries :: "('o, 't) slug_map \<Rightarrow> 'o MapPair list" where
  "map_Entries m = stableMapPairs (Some (fst (ensureStorage m)))"

definition map_Clone :: "('o, 't) slug_map \<Rightarrow> ('o, 't) slug_map" where
  "map_Clone m = SlugMap (map_Tags m) [] (Some (fst (ensureStorage m)))"

definition map_wf :: "('o, 't) slug_map \<Rightarrow> bool" where
  "map_wf m \<longleftrightarrow> (case map_stg m of None \<Rightarrow> distinct (map fst (map_Pairs m)) | Some st \<Rightarrow> storage_wf st)"

lemma ensureStorage_put_all:
  "map_stg m = None \<Longrightarrow> fst (ensureStorage m) = hamt_storage.put_all storage_empty (map_Pairs m)"
  by (simp add: ensureStorage_def hamt_storage.put_all_def Let_def)

lemma ensureStorage_wf: "map_wf m \<Longrightarrow> storage_wf (fst (ensureStorage m))"
proof (cases "map_stg m")
  case None
  then show ?thesis
    by (simp add: ensureStorage_put_all hamt_storage.inv_put_all hamt_storage.inv_empty)
qed (simp add: map_wf_def ensureStorage_def)

lemma ensureStorage_get:
  "map_wf m \<Longrightarrow> storage_get (fst (ensureStorage m)) =
     (case map_stg m of None \<Rightarrow> map_of (map_Pairs m) | Some st \<Rightarrow> storage_get st)"
proof (cases "map_stg m")
  case None
  moreover assume "map_wf m"
  ultimately show ?thesis
    using hamt_storage.get_put_all [OF hamt_storage.inv_empty, of "map_Pairs m"]
    by (simp add: ensureStorage_put_all map_wf_def map_of_rev_distinct hamt_storage.get_empty map_add_def fun_eq_iff
        split: option.split)
qed (simp add: ensureStorage_def)

lemma ensureStorage_stg [simp]: "map_stg (snd (ensureStorage m)) = Some (fst (ensureStorage m))"
  by (simp add: ensureStorage_def Let_def split: option.split)

lemma map_ops_unfold:
  "map_stg (map_PutPair m k p) = Some (storage_put (fst (ensureStorage m)) k p)"
  "map_Put m ko k v = map_PutPair m k (MapPair ko v)"
  "map_stg (map_DeleteKey m k) = Some (fst (storage_del (fst (ensureStorage m)) k))"
  by (simp_all add: map_PutPair_def map_Put_def map_DeleteKey_def split: prod.split)

lemma map_stg_ensure: "map_stg m = Some st \<Longrightarrow> fst (ensureStorage m) = st"
  by (simp add: ensureStorage_def)

lemma map_wf_stg: "map_stg m = Some st \<Longrightarrow> storage_wf st \<Longrightarrow> map_wf m"
  by (simp add: map_wf_def)

lemma map_PutPair_wf: "map_wf m \<Longrightarrow> map_wf (map_PutPair m k p)"
  by (rule map_wf_stg [OF map_ops_unfold(1)]) (simp add: storage_put_wf ensureStorage_wf)

lemma map_DeleteKey_wf: "map_wf m \<Longrightarrow> map_wf (map_DeleteKey m k)"
  by (rule map_wf_stg [OF map_ops_unfold(3)]) (simp add: storage_del_wf ensureStorage_wf)

lemma map_GetPair_PutPair:
  "map_wf m \<Longrightarrow> map_GetPair (map_PutPair m k p) k' = (if k' = k then Some p else map_GetPair m k')"
  by (simp add: map_GetPair_def map_stg_ensure [OF map_ops_unfold(1)] ensureStorage_wf hamt_storage.get_put)

lemma map_GetPair_DeleteKey:
  "map_wf m \<Longrightarrow> map_GetPair (map_DeleteKey m k) k' = (if k' = k then None else map_GetPair m k')"
  by (simp add: map_GetPair_def map_stg_ensure [OF map_ops_unfold(3)] ensureStorage_wf hamt_storage.get_del)

lemma map_Len_PutPair:
  "map_wf m \<Longrightarrow> map_Len (map_PutPair m k p) = (if map_GetPair m k = None then map_Len m + 1 else map_Len m)"
  by (simp add: map_Len_def map_GetPair_def map_stg_ensure [OF map_ops_unfold(1)] ensureStorage_wf hamt_storage.len_put)

lemma map_Len_DeleteKey:
  "map_wf m \<Longrightarrow> map_Len (map_DeleteKey m k) = (if map_GetPair m k = None then map_Len m else map_Len m - 1)"
  by (simp add: map_Len_def map_GetPair_def map_stg_ensure [OF map_ops_unfold(3)] ensureStorage_wf hamt_storage.len_del)

lemma map_Entries_sorted: "map_Entries m = map snd (hamt_storage.sorted_entries (fst (ensureStorage m)))"
  by (simp add: map_Entries_def stableMapPairs_def hamt_storage.sorted_entries_def)

lemma map_Entries_cong:
  assumes "map_wf m" "map_wf m'" "map_GetPair m = map_GetPair m'"
  shows "map_Entries m = map_Entries m'"
  unfolding map_Entries_sorted
  using hamt_storage.sorted_entries_eq [OF ensureStorage_wf [OF assms(1)] ensureStorage_wf [OF assms(2)]] assms(3)
  by (simp add: map_GetPair_def fun_eq_iff)

lemma map_Entries_set:
  assumes "map_wf m"
  shows "p \<in> set (map_Entries m) \<longleftrightarrow> (\<exists>k. map_GetPair m k = Some p)"
proof -
  have "p \<in> set (map_Entries m) \<longleftrightarrow> (\<exists>k. (k, p) \<in> set (collect_entries (fst (ensureStorage m))))"
    by (force simp: map_Entries_def stableMapPairs_def)
  then show ?thesis
    by (simp add: map_GetPair_def hamt_storage.set_entries [OF ensureStorage_wf [OF assms]])
qed


section \<open>Properties\<close>

text \<open>C25: Every operation of the trie-backed storage keeps its invariant: bitmaps mark exactly the
  occupied slots, keys lie below the slots their hash names, keys are distinct, no branch is
  empty or deeper than \<open>hamtMaxDepth\<close>, and the size field counts the entries.\<close>

theorem storage_invariant:
  "storage_wf (storage_empty :: 'p hamtMapStorage)
   \<and> (storage_wf (s :: 'p hamtMapStorage) \<longrightarrow> storage_wf (storage_put s k v) \<and> storage_wf (fst (storage_del s k)))"
  by (simp add: hamt_storage.inv_empty storage_put_wf storage_del_wf)

theorem storage_invariant_witness:
  "storage_wf (storage_put storage_empty (MapKey ''NUMBER'' 7) True)"
  using storage_invariant [of "storage_empty :: bool hamtMapStorage" "MapKey ''NUMBER'' 7" True] by simp

text \<open>C24: A map object refines a finite map: through \<open>GetPair\<close>, \<open>PutPair\<close> is the update at the
  key, \<open>DeleteKey\<close> removes the key and nothing else, and \<open>Len\<close> is the number of keys.\<close>

theorem map_refines_finite_map:
  assumes "map_wf m"
  shows "map_GetPair (map_PutPair m k p) = (map_GetPair m)(k \<mapsto> p)
    \<and> map_GetPair (map_DeleteKey m k) = (map_GetPair m)(k := None)
    \<and> map_Len m = int (card (dom (map_GetPair m)))
    \<and> map_wf (map_PutPair m k p) \<and> map_wf (map_DeleteKey m k)"
proof (intro conjI)
  show "map_GetPair (map_PutPair m k p) = (map_GetPair m)(k \<mapsto> p)"
    "map_GetPair (map_DeleteKey m k) = (map_GetPair m)(k := None)"
    using assms by (simp_all add: fun_eq_iff map_GetPair_PutPair map_GetPair_DeleteKey)
  show "map_Len m = int (card (dom (map_GetPair m)))"
    using hamt_storage.len_card [OF ensureStorage_wf [OF assms]]
    by (simp add: map_Len_def map_GetPair_def [abs_def])
qed (use assms in \<open>simp_all add: map_PutPair_wf map_DeleteKey_wf\<close>)

theorem map_refines_finite_map_witness:
  "map_GetPair (map_DeleteKey (map_PutPair (SlugMap () [] None) (MapKey ''NUMBER'' 7) (MapPair True False))
     (MapKey ''NUMBER'' 7)) = map_GetPair (SlugMap () [] None)"
proof -
  have wf: "map_wf (SlugMap () ([] :: (MapKey \<times> bool MapPair) list) None)" by (simp add: map_wf_def)
  have "map_GetPair (SlugMap () ([] :: (MapKey \<times> bool MapPair) list) None) (MapKey ''NUMBER'' 7) = None"
    by (simp add: map_GetPair_def ensureStorage_def storage_get_def storage_empty_def Let_def)
  then show ?thesis
    using map_refines_finite_map [OF wf] map_refines_finite_map [OF map_PutPair_wf [OF wf]]
    by (simp add: fun_upd_idem)
qed

text \<open>C26: Enumeration is deterministic: two maps that answer every lookup alike list the same
  entries in the same order, whatever sequence of operations built their tries, and the
  list holds exactly the stored pairs.\<close>

theorem map_entries_canonical:
  assumes "map_wf m" "map_wf m'" "map_GetPair m = map_GetPair m'"
  shows "map_Entries m = map_Entries m' \<and> (\<forall>p. p \<in> set (map_Entries m) \<longleftrightarrow> (\<exists>k. map_GetPair m k = Some p))"
  using map_Entries_cong [OF assms] map_Entries_set [OF assms(1)] by blast

theorem map_entries_canonical_witness:
  "map_Entries (SlugMap () [(MapKey ''A'' 1, MapPair True True), (MapKey ''B'' 2, MapPair False True)] None)
   = map_Entries (SlugMap () [(MapKey ''B'' 2, MapPair False True), (MapKey ''A'' 1, MapPair True True)] None)"
proof -
  let ?m = "SlugMap () [(MapKey ''A'' 1, MapPair True True), (MapKey ''B'' 2, MapPair False True)] None"
  let ?m' = "SlugMap () [(MapKey ''B'' 2, MapPair False True), (MapKey ''A'' 1, MapPair True True)] None"
  have wf: "map_wf ?m" "map_wf ?m'" by (simp_all add: map_wf_def)
  have "map_GetPair ?m = map_GetPair ?m'"
    using ensureStorage_get [OF wf(1)] ensureStorage_get [OF wf(2)]
    by (simp add: map_GetPair_def [abs_def] fun_upd_twist)
  then show ?thesis using map_entries_canonical [OF wf] by blast
qed

text \<open>
  Migrating the legacy pairs does not depend on the order in which Go iterates its map:
  any two orders of the same pairs give maps that answer and enumerate alike.\<close>

theorem map_migration_order:
  assumes "distinct (map fst ps)" "distinct (map fst qs)" "set ps = set qs"
  shows "map_GetPair (SlugMap t ps None) = map_of ps
    \<and> map_GetPair (SlugMap t qs None) = map_GetPair (SlugMap t ps None)
    \<and> map_Entries (SlugMap t qs None) = map_Entries (SlugMap t ps None)"
proof -
  have wf: "map_wf (SlugMap t ps None)" "map_wf (SlugMap t qs None)"
    using assms by (simp_all add: map_wf_def)
  have "map_of ps = map_of qs" using assms by (rule map_of_inject_set [THEN iffD2])
  then have "map_GetPair (SlugMap t qs None) = map_GetPair (SlugMap t ps None)"
    using ensureStorage_get [OF wf(1)] ensureStorage_get [OF wf(2)] by (simp add: map_GetPair_def [abs_def])
  then show ?thesis
    using ensureStorage_get [OF wf(1)] map_Entries_cong [OF wf(2,1)] by (simp add: map_GetPair_def [abs_def])
qed

theorem map_migration_order_witness:
  "map_Entries (SlugMap () [(MapKey ''B'' 2, MapPair False True), (MapKey ''A'' 1, MapPair True True)] None)
   = map_Entries (SlugMap () [(MapKey ''A'' 1, MapPair True True), (MapKey ''B'' 2, MapPair False True)] None)"
  using map_migration_order [of "[(MapKey ''A'' 1, MapPair True True), (MapKey ''B'' 2, MapPair False True)]"
      "[(MapKey ''B'' 2, MapPair False True), (MapKey ''A'' 1, MapPair True True)]" "()"]
  by (simp add: insert_commute)

text \<open>
  Iteration visits the entries in the trie's order and stops at the first callback that says
  stop: with a callback that goes on while the key is not \<open>k\<close>, the keys seen are the prefix
  up to and including \<open>k\<close>.\<close>

theorem storage_forEach_stops:
  "storage_forEach s (\<lambda>key p seen. (seen @ [key], key \<noteq> k)) [] =
     (let ks = map fst (collect_entries s)
      in takeWhile (\<lambda>key. key \<noteq> k) ks @ (if k \<in> set ks then [k] else []))"
proof -
  have "fst (hamtForEach_leaves ls (\<lambda>key p seen. (seen @ [key], key \<noteq> k)) acc) =
     acc @ takeWhile (\<lambda>key. key \<noteq> k) (map fst ls) @ (if k \<in> set (map fst ls) then [k] else [])"
    for ls :: "(MapKey \<times> 'a) list" and acc
    by (induction ls arbitrary: acc) (auto, force)
  then show ?thesis
    by (simp add: storage_forEach_def hamtForEach_order(1) collect_entries_leaves Let_def)
qed

end
