(* ===== verification/Token.thy ===== *)
theory Token
  imports Prelude
begin

text \<open>
  \<open>internal/token/token.go\<close>: the token types, tokens and the keyword table, and the part of
  Go's \<open>unicode/utf8\<close> the lexer reads its input with. Go strings are lists of bytes
  (\<open>char\<close>), runes are natural numbers. As in Go, a token type
  is a string with one named constant per type.
\<close>

section \<open>Token types\<close>

type_synonym TokenType = string

abbreviation ILLEGAL :: TokenType where "ILLEGAL \<equiv> ''ILLEGAL''"
abbreviation EOF :: TokenType where "EOF \<equiv> ''EOF''"
abbreviation NEWLINE :: TokenType where "NEWLINE \<equiv> ''NEWLINE''"
abbreviation DOC_COMMENT :: TokenType where "DOC_COMMENT \<equiv> ''DOC_COMMENT''"

abbreviation IDENT :: TokenType where "IDENT \<equiv> ''IDENT''"
abbreviation SYMBOL :: TokenType where "SYMBOL \<equiv> ''SYMBOL''"
abbreviation NUMBER :: TokenType where "NUMBER \<equiv> ''NUMBER''"
abbreviation STRING :: TokenType where "STRING \<equiv> ''STRING''"
abbreviation BYTES :: TokenType where "BYTES \<equiv> ''BYTES''"

abbreviation ASSIGN :: TokenType where "ASSIGN \<equiv> ''=''"
abbreviation PLUS :: TokenType where "PLUS \<equiv> ''+''"
abbreviation MINUS :: TokenType where "MINUS \<equiv> ''-''"
abbreviation BANG :: TokenType where "BANG \<equiv> ''!''"
abbreviation ASTERISK :: TokenType where "ASTERISK \<equiv> ''*''"
abbreviation SLASH :: TokenType where "SLASH \<equiv> ''/''"
abbreviation PERCENT :: TokenType where "PERCENT \<equiv> ''%''"
abbreviation UNDERSCORE :: TokenType where "UNDERSCORE \<equiv> ''_''"
abbreviation AT :: TokenType where "AT \<equiv> ''@''"
abbreviation APPEND_ITEM :: TokenType where "APPEND_ITEM \<equiv> '':+''"
abbreviation PREPEND_ITEM :: TokenType where "PREPEND_ITEM \<equiv> ''+:''"
abbreviation INTERPOLATION_START :: TokenType where "INTERPOLATION_START \<equiv> ''{{''"
abbreviation INTERPOLATION_END :: TokenType where "INTERPOLATION_END \<equiv> ''}}''"
abbreviation MATCH_KEYS_EXACT :: TokenType where "MATCH_KEYS_EXACT \<equiv> ''{|''"
abbreviation MATCH_KEYS_CLOSE :: TokenType where "MATCH_KEYS_CLOSE \<equiv> ''|}''"
abbreviation LT :: TokenType where "LT \<equiv> ''<''"
abbreviation LT_EQ :: TokenType where "LT_EQ \<equiv> ''<=''"
abbreviation GT :: TokenType where "GT \<equiv> ''>''"
abbreviation GT_EQ :: TokenType where "GT_EQ \<equiv> ''>=''"
abbreviation COMPLEMENT :: TokenType where "COMPLEMENT \<equiv> ''~''"
abbreviation BITWISE_AND :: TokenType where "BITWISE_AND \<equiv> ''&''"
abbreviation BITWISE_OR :: TokenType where "BITWISE_OR \<equiv> ''|''"
abbreviation BITWISE_XOR :: TokenType where "BITWISE_XOR \<equiv> ''^''"
abbreviation SHIFT_LEFT :: TokenType where "SHIFT_LEFT \<equiv> ''<<''"
abbreviation SHIFT_RIGHT :: TokenType where "SHIFT_RIGHT \<equiv> ''>>''"
abbreviation LOGICAL_AND :: TokenType where "LOGICAL_AND \<equiv> ''&&''"
abbreviation LOGICAL_OR :: TokenType where "LOGICAL_OR \<equiv> ''||''"
abbreviation EQ :: TokenType where "EQ \<equiv> ''==''"
abbreviation NOT_EQ :: TokenType where "NOT_EQ \<equiv> ''!=''"
abbreviation ROCKET :: TokenType where "ROCKET \<equiv> ''=>''"
abbreviation ELLIPSIS :: TokenType where "ELLIPSIS \<equiv> ''...''"
abbreviation NOT_IMPLEMENTED :: TokenType where "NOT_IMPLEMENTED \<equiv> ''???''"
abbreviation CALL_CHAIN :: TokenType where "CALL_CHAIN \<equiv> ''/>''"

abbreviation PERIOD :: TokenType where "PERIOD \<equiv> ''.''"
abbreviation COMMA :: TokenType where "COMMA \<equiv> '',''"
abbreviation SEMICOLON :: TokenType where "SEMICOLON \<equiv> '';''"
abbreviation COLON :: TokenType where "COLON \<equiv> '':''"
abbreviation LPAREN :: TokenType where "LPAREN \<equiv> ''(''"
abbreviation RPAREN :: TokenType where "RPAREN \<equiv> '')''"
abbreviation LBRACE :: TokenType where "LBRACE \<equiv> ''{''"
abbreviation RBRACE :: TokenType where "RBRACE \<equiv> ''}''"
abbreviation LBRACKET :: TokenType where "LBRACKET \<equiv> ''[''"
abbreviation RBRACKET :: TokenType where "RBRACKET \<equiv> '']''"

abbreviation FOREIGN :: TokenType where "FOREIGN \<equiv> ''FOREIGN''"
abbreviation FUNCTION :: TokenType where "FUNCTION \<equiv> ''FUNCTION''"
abbreviation VAL :: TokenType where "VAL \<equiv> ''VAL''"
abbreviation VAR :: TokenType where "VAR \<equiv> ''VAR''"
abbreviation TRUE :: TokenType where "TRUE \<equiv> ''TRUE''"
abbreviation FALSE :: TokenType where "FALSE \<equiv> ''FALSE''"
abbreviation NIL :: TokenType where "NIL \<equiv> ''NIL''"
abbreviation IF :: TokenType where "IF \<equiv> ''IF''"
abbreviation ELSE :: TokenType where "ELSE \<equiv> ''ELSE''"
abbreviation MATCH :: TokenType where "MATCH \<equiv> ''MATCH''"
abbreviation RETURN :: TokenType where "RETURN \<equiv> ''RETURN''"
abbreviation RECUR :: TokenType where "RECUR \<equiv> ''RECUR''"
abbreviation THROW :: TokenType where "THROW \<equiv> ''THROW''"
abbreviation DEFER :: TokenType where "DEFER \<equiv> ''DEFER''"
abbreviation STRUCT :: TokenType where "STRUCT \<equiv> ''STRUCT''"
abbreviation COPY :: TokenType where "COPY \<equiv> ''COPY''"
abbreviation NURSERY :: TokenType where "NURSERY \<equiv> ''NURSERY''"
abbreviation SPAWN :: TokenType where "SPAWN \<equiv> ''SPAWN''"
abbreviation SELECT :: TokenType where "SELECT \<equiv> ''SELECT''"

datatype Token = Token (tok_Type: TokenType) (tok_Literal: string) (tok_Position: nat)

definition keyword_table :: "(string \<times> TokenType) list" where
  "keyword_table =
     [(''nil'', NIL), (''true'', TRUE), (''false'', FALSE),
      (''fn'', FUNCTION), (''foreign'', FOREIGN), (''val'', VAL), (''var'', VAR),
      (''struct'', STRUCT), (''copy'', COPY),
      (''if'', IF), (''else'', ELSE), (''match'', MATCH), (''return'', RETURN), (''recur'', RECUR),
      (''throw'', THROW), (''defer'', DEFER),
      (''nursery'', NURSERY), (''spawn'', SPAWN), (''select'', SELECT)]"

definition LookupIdent :: "string \<Rightarrow> TokenType" where
  "LookupIdent ident = (case map_of keyword_table ident of Some tok \<Rightarrow> tok | None \<Rightarrow> IDENT)"

lemma LookupIdent_types:
  "LookupIdent s \<in> insert IDENT (snd ` set keyword_table)"
  by (auto simp: LookupIdent_def split: option.split dest: map_of_SomeD intro: rev_image_eqI)

section \<open>Bytes and runes\<close>

definition byte :: "char \<Rightarrow> nat" where "byte c = of_char c"

definition RuneError :: nat where "RuneError = 0xFFFD"

definition is_cont :: "nat \<Rightarrow> bool" where "is_cont b \<longleftrightarrow> 0x80 \<le> b \<and> b \<le> 0xBF"

text \<open>\<open>utf8.DecodeRuneInString\<close>: the rune and its width; \<open>RuneError\<close> and 1 on invalid input.\<close>

definition second_ok :: "nat \<Rightarrow> nat \<Rightarrow> bool" where
  "second_ok b0 b1 \<longleftrightarrow>
     (if b0 = 0xE0 then 0xA0 \<le> b1 \<and> b1 \<le> 0xBF
      else if b0 = 0xED then 0x80 \<le> b1 \<and> b1 \<le> 0x9F
      else if b0 = 0xF0 then 0x90 \<le> b1 \<and> b1 \<le> 0xBF
      else if b0 = 0xF4 then 0x80 \<le> b1 \<and> b1 \<le> 0x8F
      else is_cont b1)"

definition DecodeRune :: "string \<Rightarrow> nat \<times> nat" where
  "DecodeRune s =
     (case s of
        [] \<Rightarrow> (RuneError, 0)
      | c0 # s1 \<Rightarrow>
          (let b0 = byte c0 in
           if b0 < 0x80 then (b0, 1)
           else if 0xC2 \<le> b0 \<and> b0 \<le> 0xDF then
             (case s1 of
                c1 # _ \<Rightarrow> if second_ok b0 (byte c1) then (b0 mod 32 * 64 + byte c1 mod 64, 2)
                           else (RuneError, 1)
              | [] \<Rightarrow> (RuneError, 1))
           else if 0xE0 \<le> b0 \<and> b0 \<le> 0xEF then
             (case s1 of
                c1 # c2 # _ \<Rightarrow>
                  if second_ok b0 (byte c1) \<and> is_cont (byte c2)
                  then (b0 mod 16 * 4096 + byte c1 mod 64 * 64 + byte c2 mod 64, 3)
                  else (RuneError, 1)
              | _ \<Rightarrow> (RuneError, 1))
           else if 0xF0 \<le> b0 \<and> b0 \<le> 0xF4 then
             (case s1 of
                c1 # c2 # c3 # _ \<Rightarrow>
                  if second_ok b0 (byte c1) \<and> is_cont (byte c2) \<and> is_cont (byte c3)
                  then (b0 mod 8 * 262144 + byte c1 mod 64 * 4096 + byte c2 mod 64 * 64 + byte c3 mod 64, 4)
                  else (RuneError, 1)
              | _ \<Rightarrow> (RuneError, 1))
           else (RuneError, 1)))"

text \<open>\<open>string(r)\<close> and \<open>WriteRune\<close>: the UTF-8 bytes of a rune, of \<open>RuneError\<close> for no scalar value.\<close>

definition EncodeRune :: "nat \<Rightarrow> string" where
  "EncodeRune r0 =
     (let r = (if r0 > 0x10FFFF \<or> (0xD800 \<le> r0 \<and> r0 \<le> 0xDFFF) then RuneError else r0) in
      map char_of
        (if r < 0x80 then [r]
         else if r < 0x800 then [0xC0 + r div 64, 0x80 + r mod 64]
         else if r < 0x10000 then [0xE0 + r div 4096, 0x80 + r div 64 mod 64, 0x80 + r mod 64]
         else [0xF0 + r div 262144, 0x80 + r div 4096 mod 64, 0x80 + r div 64 mod 64, 0x80 + r mod 64]))"

definition valid_rune :: "nat \<Rightarrow> bool" where
  "valid_rune r \<longleftrightarrow> r \<le> 0x10FFFF \<and> \<not> (0xD800 \<le> r \<and> r \<le> 0xDFFF)"

text \<open>\<open>unicode.IsSpace\<close>: the runes with the White Space property.\<close>

definition isSpace :: "nat \<Rightarrow> bool" where
  "isSpace c \<longleftrightarrow>
     c = 32 \<or> (9 \<le> c \<and> c \<le> 13) \<or> c = 0x85 \<or> c = 0xA0 \<or> c = 0x1680 \<or> (0x2000 \<le> c \<and> c \<le> 0x200A)
     \<or> c = 0x2028 \<or> c = 0x2029 \<or> c = 0x202F \<or> c = 0x205F \<or> c = 0x3000"

lemma byte_char_of [simp]: "b < 256 \<Longrightarrow> byte (char_of b) = b"
  by (simp add: byte_def)

lemma byte_less: "byte c < 256"
  by (simp add: byte_def)

lemma DecodeRune_size: "s \<noteq> [] \<Longrightarrow> 0 < snd (DecodeRune s) \<and> snd (DecodeRune s) \<le> length s"
  by (auto simp: DecodeRune_def Let_def split: list.split)

lemma DecodeRune_ascii: "byte c < 0x80 \<Longrightarrow> DecodeRune (c # s) = (byte c, 1)"
  by (simp add: DecodeRune_def)

lemma EncodeRune_ascii: "r < 0x80 \<Longrightarrow> EncodeRune r = [char_of r]"
  by (simp add: EncodeRune_def)

lemma EncodeRune_byte: "byte c < 0x80 \<Longrightarrow> EncodeRune (byte c) = [c]"
  by (simp add: EncodeRune_ascii) (simp add: byte_def)

lemma low_bits [simp]:
  "b < 32 \<Longrightarrow> (192 + b) mod 32 = b" "b < 16 \<Longrightarrow> (224 + b) mod 16 = b" "b < 8 \<Longrightarrow> (240 + b) mod 8 = b"
  "b < 64 \<Longrightarrow> (128 + b) mod 64 = b" for b :: nat
  using mod_mult_self3 [of 6 32 b] mod_mult_self3 [of 14 16 b] mod_mult_self3 [of 30 8 b]
    mod_mult_self3 [of 2 64 b] by simp_all

lemma decode_2:
  "2 \<le> a \<Longrightarrow> a < 32 \<Longrightarrow> b < 64
   \<Longrightarrow> DecodeRune (map char_of [192 + a, 128 + b] @ s) = (a * 64 + b, 2)"
  by (simp add: DecodeRune_def Let_def second_ok_def is_cont_def)

lemma decode_3:
  "a < 16 \<Longrightarrow> b < 64 \<Longrightarrow> c < 64 \<Longrightarrow> (a = 0 \<Longrightarrow> 32 \<le> b) \<Longrightarrow> (a = 13 \<Longrightarrow> b \<le> 31)
   \<Longrightarrow> DecodeRune (map char_of [224 + a, 128 + b, 128 + c] @ s) = (a * 4096 + b * 64 + c, 3)"
  by (simp add: DecodeRune_def Let_def second_ok_def is_cont_def)

lemma decode_4:
  "a \<le> 4 \<Longrightarrow> b < 64 \<Longrightarrow> c < 64 \<Longrightarrow> d < 64 \<Longrightarrow> (a = 0 \<Longrightarrow> 16 \<le> b) \<Longrightarrow> (a = 4 \<Longrightarrow> b \<le> 15)
   \<Longrightarrow> DecodeRune (map char_of [240 + a, 128 + b, 128 + c, 128 + d] @ s)
        = (a * 262144 + b * 4096 + c * 64 + d, 4)"
  by (simp add: DecodeRune_def Let_def second_ok_def is_cont_def)

lemma div_digits: "r div 4096 = r div 64 div 64" "r div 262144 = r div 64 div 64 div 64" for r :: nat
  by (simp_all add: div_mult2_eq [symmetric])

lemma DecodeRune_EncodeRune:
  assumes "valid_rune r"
  shows "DecodeRune (EncodeRune r @ s) = (r, length (EncodeRune r))"
proof -
  define a b c d where "a = r div 64 div 64 div 64" and "b = r div 64 div 64 mod 64"
    and "c = r div 64 mod 64" and "d = r mod 64"
  have r: "r = a * 262144 + b * 4096 + c * 64 + d"
    unfolding a_def b_def c_def d_def
    using div_mult_mod_eq [of r 64] div_mult_mod_eq [of "r div 64" 64] div_mult_mod_eq [of "r div 64 div 64" 64]
    by linarith
  have lt: "b < 64" "c < 64" "d < 64" by (simp_all add: b_def c_def d_def)
  have q: "r div 64 = a * 4096 + b * 64 + c" "r div 4096 = a * 64 + b" "r div 262144 = a"
    unfolding a_def b_def c_def div_digits
    using div_mult_mod_eq [of "r div 64" 64] div_mult_mod_eq [of "r div 64 div 64" 64] by linarith+
  have m: "r mod 64 = d" "r div 64 mod 64 = c" "r div 4096 mod 64 = b"
    by (simp_all add: b_def c_def d_def div_digits)
  consider "r < 0x80" | "0x80 \<le> r" "r < 0x800" | "0x800 \<le> r" "r < 0x10000" | "0x10000 \<le> r" "r \<le> 0x10FFFF"
    using assms by (fastforce simp: valid_rune_def)
  then show ?thesis
  proof cases
    case 1
    then show ?thesis by (simp add: EncodeRune_def DecodeRune_def)
  next
    case 2
    then have "a = 0" "b = 0" using r lt by linarith+
    moreover from this have "2 \<le> c" "c < 32" using 2 r lt by linarith+
    moreover have "EncodeRune r = map char_of [192 + c, 128 + d]"
      using 2 \<open>a = 0\<close> \<open>b = 0\<close> by (simp add: EncodeRune_def m(1) q(1))
    ultimately show ?thesis using decode_2 [of c d s] lt r by simp
  next
    case 3
    then have "a = 0" "b < 16" using r lt by linarith+
    moreover have "b = 0 \<Longrightarrow> 32 \<le> c" using 3 r lt \<open>a = 0\<close> by linarith
    moreover have "b = 13 \<Longrightarrow> c \<le> 31" using assms r lt \<open>a = 0\<close> by (auto simp: valid_rune_def)
    moreover have "EncodeRune r = map char_of [224 + b, 128 + c, 128 + d]"
      using 3 assms \<open>a = 0\<close> by (auto simp: EncodeRune_def valid_rune_def m(1,2) q(2))
    ultimately show ?thesis using decode_3 [of b c d s] lt r by simp
  next
    case 4
    then have "a \<le> 4" using r lt by linarith
    moreover have "a = 0 \<Longrightarrow> 16 \<le> b" using 4 r lt by linarith
    moreover have "a = 4 \<Longrightarrow> b \<le> 15" using 4 r lt by linarith
    moreover have "EncodeRune r = map char_of [240 + a, 128 + b, 128 + c, 128 + d]"
      using 4 by (simp add: EncodeRune_def m q(3))
    ultimately show ?thesis using decode_4 [of a b c d s] lt r by simp
  qed
qed

section \<open>Text\<close>

text \<open>The runes of a string with the bytes of each, as Go's iteration yields them.\<close>

function rune_parts :: "string \<Rightarrow> (nat \<times> string) list" where
  "rune_parts s =
     (if s = [] then [] else let (r, n) = DecodeRune s in (r, take n s) # rune_parts (drop n s))"
  by pat_completeness auto
termination
  by (relation "measure length") (auto, metis DecodeRune_size diff_less length_greater_0_conv snd_conv)

declare rune_parts.simps [simp del]

definition runes :: "string \<Rightarrow> nat list" where
  "runes s = map fst (rune_parts s)"

text \<open>\<open>strings.TrimSpace\<close>\<close>

definition TrimSpace :: "string \<Rightarrow> string" where
  "TrimSpace s =
     (let ps = dropWhile (\<lambda>(r, _). isSpace r) (rune_parts s);
          ps = rev (dropWhile (\<lambda>(r, _). isSpace r) (rev ps))
      in concat (map snd ps))"

definition squoted :: "string \<Rightarrow> string" where
  "squoted s = CHR 0x27 # s @ [CHR 0x27]"

definition dquoted :: "string \<Rightarrow> string" where
  "dquoted s = CHR 0x22 # s @ [CHR 0x22]"

text \<open>The decimal digits of a number, as \<open>fmt\<close> prints it for \<open>%d\<close>.\<close>

fun show_nat :: "nat \<Rightarrow> string" where
  "show_nat n =
     (if n < 10 then [char_of (48 + n)] else show_nat (n div 10) @ [char_of (48 + n mod 10)])"

declare show_nat.simps [simp del]

end
