(* ===== verification/Lexer.thy ===== *)
theory Lexer
  imports Token
begin

text \<open>
  \<open>internal/lexer\<close>: the lexer state and its readers (\<open>lexer.go\<close>), the general tokenizer and
  the string tokenizers (\<open>general_tokenizer.go\<close>, \<open>string_tokenizer.go\<close>,
  \<open>multi_line_string_tokenizer.go\<close>). Go's tokenizer objects differ only in the type and
  the \<open>isRaw\<close> flag (the quote follows from it), so a mode is a datatype and a nil
  tokenizer is \<open>None\<close>; methods take and return the lexer state. The Unicode tables of
  Go's \<open>unicode\<close> package beyond ASCII are a parameter.
\<close>

section \<open>Character classes\<close>

text \<open>
  The tables consulted for runes from 128 up: letters and marks (categories L, Mn and Mc)
  and decimal digits (Nd). Below 128 the classes are written out.
\<close>

record unicode =
  uni_letter :: "nat \<Rightarrow> bool"
  uni_digit :: "nat \<Rightarrow> bool"

definition isLetter :: "unicode \<Rightarrow> nat \<Rightarrow> bool" where
  "isLetter U c \<longleftrightarrow>
     (if c < 128 then c = 95 \<or> (65 \<le> c \<and> c \<le> 90) \<or> (97 \<le> c \<and> c \<le> 122) else uni_letter U c)"

definition isDigit :: "unicode \<Rightarrow> nat \<Rightarrow> bool" where
  "isDigit U c \<longleftrightarrow> (if c < 128 then 48 \<le> c \<and> c \<le> 57 else uni_digit U c)"

definition isHexDigit :: "nat \<Rightarrow> bool" where
  "isHexDigit c \<longleftrightarrow> (48 \<le> c \<and> c \<le> 57) \<or> (97 \<le> c \<and> c \<le> 102) \<or> (65 \<le> c \<and> c \<le> 70)"

section \<open>Lexer state\<close>

datatype mode = GeneralTokenizer | SingleLineStringTokenizer (isRaw: bool) | MultiLineStringTokenizer (isRaw: bool)

definition quote :: "bool \<Rightarrow> nat" where
  "quote raw = (if raw then byte CHR 0x27 else byte CHR 0x22)"

text \<open>The two stacks have their top at the head (Go appends and truncates at the end).\<close>

record lexer =
  input :: string
  position :: nat
  readPosition :: nat
  ch :: nat
  prevMode :: "mode option"
  currentMode :: mode
  parenDepth :: nat
  bracketDepth :: nat
  braceDepth :: nat
  delimiterBraceBaselines :: "nat list"
  interpolationStack :: "mode list"

definition readChar :: "lexer \<Rightarrow> lexer" where
  "readChar l =
     (if readPosition l \<ge> length (input l) then l\<lparr>ch := 0, position := readPosition l\<rparr>
      else
        (let (r, size) = DecodeRune (drop (readPosition l) (input l))
         in l\<lparr>ch := r, position := readPosition l, readPosition := readPosition l + size\<rparr>))"

definition peekChar :: "lexer \<Rightarrow> nat" where
  "peekChar l =
     (if readPosition l \<ge> length (input l) then 0
      else fst (DecodeRune (drop (readPosition l) (input l))))"

definition peekTwoChars :: "lexer \<Rightarrow> nat" where
  "peekTwoChars l =
     (if readPosition l \<ge> length (input l) then 0
      else
        (let idx = readPosition l + snd (DecodeRune (drop (readPosition l) (input l)))
         in if idx \<ge> length (input l) then 0 else fst (DecodeRune (drop idx (input l)))))"

definition switchMode :: "mode \<Rightarrow> lexer \<Rightarrow> lexer" where
  "switchMode m l = l\<lparr>prevMode := Some (currentMode l), currentMode := m\<rparr>"

definition setMode :: "mode \<Rightarrow> lexer \<Rightarrow> lexer" where
  "setMode m l = l\<lparr>prevMode := None, currentMode := m\<rparr>"

definition lexer_New :: "string \<Rightarrow> lexer" where
  "lexer_New inp =
     readChar \<lparr>input = inp, position = 0, readPosition = 0, ch = 0, prevMode = None,
       currentMode = GeneralTokenizer, parenDepth = 0, bracketDepth = 0, braceDepth = 0,
       delimiterBraceBaselines = [], interpolationStack = []\<rparr>"

definition pushInterpolationReturnMode :: "mode option \<Rightarrow> lexer \<Rightarrow> lexer" where
  "pushInterpolationReturnMode m l =
     (case m of None \<Rightarrow> l | Some m \<Rightarrow> l\<lparr>interpolationStack := m # interpolationStack l\<rparr>)"

definition popInterpolationReturnMode :: "lexer \<Rightarrow> mode option \<times> lexer" where
  "popInterpolationReturnMode l =
     (case interpolationStack l of [] \<Rightarrow> (None, l) | m # ms \<Rightarrow> (Some m, l\<lparr>interpolationStack := ms\<rparr>))"

definition hasInterpolationReturnMode :: "lexer \<Rightarrow> bool" where
  "hasInterpolationReturnMode l \<longleftrightarrow> interpolationStack l \<noteq> []"

definition canStartInterpolation :: "lexer \<Rightarrow> bool" where
  "canStartInterpolation l \<longleftrightarrow>
     (case prevMode l of
        Some (SingleLineStringTokenizer _) \<Rightarrow> True | Some (MultiLineStringTokenizer _) \<Rightarrow> True | _ \<Rightarrow> False)"

definition pushDelimiterBaseline :: "lexer \<Rightarrow> lexer" where
  "pushDelimiterBaseline l = l\<lparr>delimiterBraceBaselines := braceDepth l # delimiterBraceBaselines l\<rparr>"

definition popDelimiterBaseline :: "lexer \<Rightarrow> lexer" where
  "popDelimiterBaseline l =
     (case delimiterBraceBaselines l of [] \<Rightarrow> l | _ # bs \<Rightarrow> l\<lparr>delimiterBraceBaselines := bs\<rparr>)"

definition currentDelimiterBaseline :: "lexer \<Rightarrow> nat option" where
  "currentDelimiterBaseline l = (case delimiterBraceBaselines l of [] \<Rightarrow> None | b # _ \<Rightarrow> Some b)"

section \<open>Progress\<close>

text \<open>
  The bytes left to read, doubled, plus one while the current rune is not the end marker:
  every \<open>readChar\<close> that has something to consume makes it smaller.
\<close>

definition left :: "lexer \<Rightarrow> nat" where
  "left l = 2 * (length (input l) - readPosition l) + (if ch l = 0 then 0 else 1)"

lemma left_readChar_le: "left (readChar l) \<le> left l"
  using DecodeRune_size [of "drop (readPosition l) (input l)"]
  by (auto simp: left_def readChar_def split: prod.split)

lemma left_readChar: "ch l \<noteq> 0 \<Longrightarrow> left (readChar l) < left l"
  using DecodeRune_size [of "drop (readPosition l) (input l)"]
  by (auto simp: left_def readChar_def split: prod.split)

lemma left_readChar_peek: "peekChar l \<noteq> 0 \<Longrightarrow> left (readChar l) < left l"
  using DecodeRune_size [of "drop (readPosition l) (input l)"]
  by (auto simp: left_def readChar_def peekChar_def split: prod.split if_splits)

lemma ch_readChar: "ch (readChar l) = peekChar l"
  by (simp add: readChar_def peekChar_def split: prod.split)

text \<open>
  A state reached by reading runes and nothing else, and a state that follows another: some
  more runes read, and anything done to the modes, the depths and the stacks. Every
  operation of the lexer advances its state, so what \<open>readChar\<close> keeps all of them keep, by
  rule induction.
\<close>

inductive reads :: "lexer \<Rightarrow> lexer \<Rightarrow> bool" where
  reads_refl: "reads l l"
| reads_read: "reads l l' \<Longrightarrow> reads l (readChar l')"

definition core :: "lexer \<Rightarrow> string \<times> nat \<times> nat \<times> nat" where
  "core l = (input l, position l, readPosition l, ch l)"

inductive advances :: "lexer \<Rightarrow> lexer \<Rightarrow> bool" where
  adv_refl: "advances l l"
| adv_read: "advances l l' \<Longrightarrow> advances l (readChar l')"
| adv_other: "advances l l' \<Longrightarrow> core l'' = core l' \<Longrightarrow> advances l l''"

lemma reads_trans: "reads l1 l2 \<Longrightarrow> reads l0 l1 \<Longrightarrow> reads l0 l2"
  by (induction rule: reads.induct) (auto intro: reads.intros)

lemma reads_step: "reads (readChar l) l' \<Longrightarrow> reads l l'"
  by (erule reads_trans) (intro reads.intros)

lemma reads_step2: "reads (readChar (readChar l)) l' \<Longrightarrow> reads l l'"
  by (rule reads_step [OF reads_step])

lemma reads_power: "reads l ((readChar ^^ n) l)"
  by (induction n) (auto intro: reads.intros)

lemma adv_trans: "advances l1 l2 \<Longrightarrow> advances l0 l1 \<Longrightarrow> advances l0 l2"
  by (induction rule: advances.induct) (auto intro: advances.intros)

lemma reads_advances: "reads l l' \<Longrightarrow> advances l l'"
  by (induction rule: reads.induct) (auto intro: advances.intros)

lemma adv_step: "advances (readChar l) l' \<Longrightarrow> advances l l'"
  by (erule adv_trans) (intro advances.intros)

lemma left_core: "core l = core l' \<Longrightarrow> left l = left l'"
  by (simp add: core_def left_def)

lemma left_advances: "advances l l' \<Longrightarrow> left l' \<le> left l"
  by (induction rule: advances.induct)
     (auto intro: order_trans [OF left_readChar_le] dest: left_core)

lemma left_reads: "reads (readChar l) l' \<Longrightarrow> ch l \<noteq> 0 \<Longrightarrow> left l' < left l"
  using left_advances [OF reads_advances] left_readChar le_less_trans by blast

section \<open>White space and comments\<close>

function skipToLineEnd :: "lexer \<Rightarrow> lexer" where
  "skipToLineEnd l =
     (if ch l \<noteq> byte CHR 0x0A \<and> ch l \<noteq> 0 then skipToLineEnd (readChar l) else l)"
  by pat_completeness auto
termination by (relation "measure left") (auto simp: left_readChar)

declare skipToLineEnd.simps [simp del]

lemma reads_skipToLineEnd: "reads l (skipToLineEnd l)"
proof (induction l rule: skipToLineEnd.induct)
  case (1 l)
  then show ?case by (subst skipToLineEnd.simps) (auto intro: reads_refl dest: reads_step)
qed

lemma reads_skip: "reads (skipToLineEnd l) l' \<Longrightarrow> reads l l'"
  by (erule reads_trans) (rule reads_skipToLineEnd)

lemma left_skipToLineEnd:
  "ch l \<noteq> byte CHR 0x0A \<Longrightarrow> ch l \<noteq> 0 \<Longrightarrow> left (skipToLineEnd l) < left l"
  by (subst skipToLineEnd.simps) (simp add: left_reads reads_skipToLineEnd)

function skipWhitespace :: "lexer \<Rightarrow> lexer" where
  "skipWhitespace l =
     (if ch l = byte CHR '' '' \<or> ch l = byte CHR 0x09 \<or> ch l = byte CHR 0x0D then skipWhitespace (readChar l)
      else if ch l = byte CHR ''#'' then skipWhitespace (skipToLineEnd l)
      else if ch l = byte CHR ''/'' then
        (if peekChar l = byte CHR ''/'' then skipWhitespace (skipToLineEnd l) else l)
      else l)"
  by pat_completeness auto
termination
  by (relation "measure left") (auto simp: byte_def intro!: left_readChar left_skipToLineEnd)

declare skipWhitespace.simps [simp del]

lemma reads_skipWhitespace: "reads l (skipWhitespace l)"
proof (induction l rule: skipWhitespace.induct)
  case (1 l)
  then show ?case
    by (subst skipWhitespace.simps) (auto intro: reads_refl dest: reads_step reads_skip)
qed

lemma left_skipWhitespace_le: "left (skipWhitespace l) \<le> left l"
  by (rule left_advances [OF reads_advances [OF reads_skipWhitespace]])

section \<open>Comments\<close>

definition newToken :: "TokenType \<Rightarrow> nat \<Rightarrow> nat \<Rightarrow> Token" where
  "newToken t c pos = Token t (EncodeRune c) pos"

text \<open>\<open>l.input[a:b]\<close>\<close>

definition slice :: "lexer \<Rightarrow> nat \<Rightarrow> nat \<Rightarrow> string" where
  "slice l a b = take (b - a) (drop a (input l))"

text \<open>The loop of \<open>skipBlockComment\<close>; the flag says whether the comment was closed.\<close>

function skipBlockComment_loop :: "nat \<Rightarrow> lexer \<Rightarrow> bool \<times> lexer" where
  "skipBlockComment_loop depth l =
     (if ch l = 0 then (False, l)
      else if ch l = byte CHR ''/'' \<and> peekChar l = byte CHR ''*''
      then skipBlockComment_loop (depth + 1) (readChar (readChar l))
      else if ch l = byte CHR ''*'' \<and> peekChar l = byte CHR ''/''
      then (let l' = readChar (readChar l)
            in if depth - 1 = 0 then (True, l') else skipBlockComment_loop (depth - 1) l')
      else skipBlockComment_loop depth (readChar l))"
  by pat_completeness auto
termination
  by (relation "measure (\<lambda>(_, l). left l)") (auto simp: left_readChar le_less_trans [OF left_readChar_le])

declare skipBlockComment_loop.simps [simp del]

definition skipBlockComment :: "lexer \<Rightarrow> string option \<times> lexer" where
  \<comment> \<open>\<open>Some\<close> is the error\<close>
  "skipBlockComment l =
     (if ch l \<noteq> byte CHR ''/'' \<or> peekChar l \<noteq> byte CHR ''*'' then (None, l)
      else
        (let (closed, l') = skipBlockComment_loop 1 (readChar (readChar l))
         in (if closed then None else Some ''unterminated block comment'', l')))"

definition docCommentClosingOffset :: "lexer \<Rightarrow> nat option" where
  "docCommentClosingOffset l =
     (if position l \<ge> length (input l) then None
      else
        (let rest = drop (position l) (input l);
             blanks = takeWhile (\<lambda>b. b = CHR '' '' \<or> b = CHR 0x09) rest;
             after = drop (length blanks) rest
         in (case after of
               CHR ''*'' # CHR ''/'' # _ \<Rightarrow> Some (length blanks)
             | _ \<Rightarrow> None)))"

fun split_lines :: "string \<Rightarrow> string list" where
  \<comment> \<open>\<open>strings.Split(s, "\n")\<close>\<close>
  "split_lines [] = [[]]"
| "split_lines (c # cs) =
     (if c = CHR 0x0A then [] # split_lines cs
      else (case split_lines cs of l # ls \<Rightarrow> (c # l) # ls | [] \<Rightarrow> [[c]]))"

definition join_lines :: "string list \<Rightarrow> string" where
  \<comment> \<open>\<open>strings.Join(lines, "\n")\<close>\<close>
  "join_lines ls = (case ls of [] \<Rightarrow> [] | l # ls \<Rightarrow> l @ concat (map (\<lambda>l. CHR 0x0A # l) ls))"

fun formatDocLines :: "string list \<Rightarrow> (string list) option" where
  "formatDocLines [] = Some []"
| "formatDocLines (l # ls) =
     (let line = rev (dropWhile (\<lambda>c. c = CHR 0x0D) (rev l))
      in if (\<forall>r\<in>set (runes line). isSpace r)
         then map_option (Cons []) (formatDocLines ls)
         else
           (let trimmed = dropWhile (\<lambda>c. c = CHR '' '' \<or> c = CHR 0x09) line
            in (case trimmed of
                  CHR ''*'' # CHR '' '' # t \<Rightarrow> map_option (Cons t) (formatDocLines ls)
                | CHR ''*'' # t \<Rightarrow> map_option (Cons t) (formatDocLines ls)
                | _ \<Rightarrow> None)))"

definition formatDocComment :: "string \<Rightarrow> string + string" where
  "formatDocComment raw =
     (let ls = split_lines raw;
          ls = (if length ls > 1 then butlast (tl ls) else ls)
      in if ls = [] then Inr []
         else (case formatDocLines ls of
                 None \<Rightarrow> Inl (''doc comment lines must start with '' @ squoted ''*'')
               | Some out \<Rightarrow> Inr (join_lines out)))"

function readDocComment_loop :: "nat \<Rightarrow> bool \<Rightarrow> lexer \<Rightarrow> (string + string) \<times> lexer" where
  "readDocComment_loop contentStart atLineStart l =
     (if ch l = 0 then (Inl ''unterminated doc comment'', l)
      else
        (case (if atLineStart then docCommentClosingOffset l else None) of
           Some offset \<Rightarrow>
             (formatDocComment (slice l contentStart (position l)),
              readChar (readChar ((readChar ^^ offset) l)))
         | None \<Rightarrow>
             readDocComment_loop contentStart
               (if ch l = byte CHR 0x0A then True else if ch l \<noteq> byte CHR 0x0D then False else atLineStart)
               (readChar l)))"
  by pat_completeness auto
termination
  by (relation "measure (\<lambda>(_, _, l). left l)") (auto simp: left_readChar)

declare readDocComment_loop.simps [simp del]

definition readDocComment :: "lexer \<Rightarrow> (string + string) \<times> lexer" where
  "readDocComment l =
     (if ch l \<noteq> byte CHR ''/'' \<or> peekChar l \<noteq> byte CHR ''*'' \<or> peekTwoChars l \<noteq> byte CHR ''*''
      then (Inr [], l)
      else
        (let l' = readChar (readChar (readChar l))
         in readDocComment_loop (position l') True l'))"

section \<open>Identifiers and numbers\<close>

function skipIdentifier :: "unicode \<Rightarrow> lexer \<Rightarrow> lexer" where
  "skipIdentifier U l =
     (if isLetter U (ch l) \<or> isDigit U (ch l) then skipIdentifier U (readChar l) else l)"
  by pat_completeness auto
termination
  by (relation "measure (left \<circ> snd)") (auto intro!: left_readChar simp: isLetter_def isDigit_def split: if_splits)

declare skipIdentifier.simps [simp del]

definition readIdentifier :: "unicode \<Rightarrow> lexer \<Rightarrow> string \<times> lexer" where
  "readIdentifier U l = (let l' = skipIdentifier U l in (slice l (position l) (position l'), l'))"


text \<open>
  \<open>readNumber\<close>: a run of digits in which an underscore stands between digits, an optional
  fraction of the same form, an optional exponent.
\<close>

definition underscore_err :: string where
  "underscore_err = ''underscore must be between digits in number literal''"

function readDigits :: "unicode \<Rightarrow> string \<Rightarrow> lexer \<Rightarrow> (string + string) \<times> lexer" where
  "readDigits U numStr l =
     (if isDigit U (ch l) \<or> ch l = byte CHR ''_'' then
        (if ch l = byte CHR ''_'' then
           (if \<not> isDigit U (byte (input l ! (position l - 1))) \<or> \<not> isDigit U (peekChar l)
            then (Inl underscore_err, l)
            else readDigits U numStr (readChar l))
         else readDigits U (numStr @ EncodeRune (ch l)) (readChar l))
      else (Inr numStr, l))"
  by pat_completeness auto
termination
  by (relation "measure (\<lambda>(_, _, l). left l)")
     (auto intro!: left_readChar simp: isDigit_def byte_def split: if_splits)

declare readDigits.simps [simp del]

function readPlainDigits :: "unicode \<Rightarrow> string \<Rightarrow> lexer \<Rightarrow> string \<times> lexer" where
  "readPlainDigits U numStr l =
     (if isDigit U (ch l) then readPlainDigits U (numStr @ EncodeRune (ch l)) (readChar l)
      else (numStr, l))"
  by pat_completeness auto
termination
  by (relation "measure (\<lambda>(_, _, l). left l)")
     (auto intro!: left_readChar simp: isDigit_def split: if_splits)

declare readPlainDigits.simps [simp del]

definition readExponent :: "unicode \<Rightarrow> string \<Rightarrow> lexer \<Rightarrow> string \<times> lexer" where
  "readExponent U numStr l =
     (if ch l = byte CHR ''e'' \<or> ch l = byte CHR ''E'' then
        (let numStr = numStr @ EncodeRune (ch l); l = readChar l;
             (numStr, l) =
               (if ch l = byte CHR ''+'' \<or> ch l = byte CHR ''-''
                then (numStr @ EncodeRune (ch l), readChar l) else (numStr, l))
         in readPlainDigits U numStr l)
      else (numStr, l))"

definition readNumber :: "unicode \<Rightarrow> lexer \<Rightarrow> (string + string) \<times> lexer" where
  "readNumber U l =
     (case readDigits U [] l of
        (Inl e, l) \<Rightarrow> (Inl e, l)
      | (Inr numStr, l) \<Rightarrow>
          (case (if ch l = byte CHR ''.'' \<and> isDigit U (peekChar l)
                 then readDigits U (numStr @ EncodeRune (ch l)) (readChar l) else (Inr numStr, l)) of
             (Inl e, l) \<Rightarrow> (Inl e, l)
           | (Inr numStr, l) \<Rightarrow> (let (numStr, l) = readExponent U numStr l in (Inr numStr, l))))"

function readHexDigits :: "string \<Rightarrow> lexer \<Rightarrow> string \<times> lexer" where
  "readHexDigits hexStr l =
     (if isHexDigit (ch l) \<or> ch l = byte CHR ''_'' then
        (if ch l = byte CHR ''_'' then
           (if \<not> isHexDigit (byte (input l ! (position l - 1))) \<or> \<not> isHexDigit (peekChar l)
            then (hexStr, l)
            else readHexDigits hexStr (readChar l))
         else readHexDigits (hexStr @ EncodeRune (ch l)) (readChar l))
      else (hexStr, l))"
  by pat_completeness auto
termination
  by (relation "measure (\<lambda>(_, l). left l)")
     (auto intro!: left_readChar simp: isHexDigit_def byte_def)

declare readHexDigits.simps [simp del]

definition expected_x :: string where
  "expected_x = ''expected '' @ squoted ''x'' @ '' after '' @ squoted ''0''"

definition expected_hex :: string where
  "expected_hex = ''expected hex digit after '' @ squoted ''0x''"

definition readHexLiteral :: "lexer \<Rightarrow> (string + string) \<times> lexer" where
  "readHexLiteral l =
     (let hexStr = EncodeRune (ch l); l = readChar l
      in if ch l \<noteq> byte CHR ''x'' then (Inl expected_x, l)
         else
           (let hexStr = hexStr @ EncodeRune (ch l); l = readChar l
            in if ch l = byte CHR ''_'' \<and> \<not> isHexDigit (peekChar l) then (Inl expected_hex, l)
               else
                 (let l = (if ch l = byte CHR ''_'' then readChar l else l)
                  in if \<not> isHexDigit (ch l) then (Inl expected_hex, l)
                     else
                       (let (hexStr, l) = readHexDigits hexStr l
                        in if length hexStr mod 2 \<noteq> 0
                           then (Inl ''hex literal must have even length'', l)
                           else (Inr hexStr, l)))))"

text \<open>
  The loop of \<open>readByteArrayLiteral\<close> reads a rune before it tests one, so the first rune
  after the opening quote is never tested.
\<close>

function skipBytesLiteral :: "lexer \<Rightarrow> bool \<times> lexer" where
  "skipBytesLiteral l =
     (let l' = readChar l
      in if ch l' = byte CHR 0x22 \<or> ch l' = 0 then (True, l')
         else if \<not> isHexDigit (ch l') then (False, l')
         else skipBytesLiteral l')"
  by pat_completeness auto
termination
  by (relation "measure left") (auto intro!: left_readChar_peek simp: ch_readChar isHexDigit_def Let_def)

declare skipBytesLiteral.simps [simp del]

definition readByteArrayLiteral :: "lexer \<Rightarrow> string option \<times> lexer" where
  "readByteArrayLiteral l =
     (let l = readChar (readChar (readChar l)); start = position l;
          (ok, l) = (if ch l \<noteq> byte CHR 0x22 then skipBytesLiteral l else (True, l))
      in if \<not> ok then (None, l)
         else if ch l \<noteq> byte CHR 0x22 then (None, l)
         else
           (let hexStr = slice l start (position l)
            in if length hexStr mod 2 \<noteq> 0 then (None, l) else (Some hexStr, readChar l)))"


section \<open>String tokenizers\<close>

text \<open>
  \<open>consumeOctal\<close>: up to two more octal digits after the first; the state is left on the
  last digit consumed.
\<close>

fun consumeOctal_loop :: "nat \<Rightarrow> nat \<Rightarrow> lexer \<Rightarrow> nat \<times> lexer" where
  "consumeOctal_loop 0 value l = (value, l)"
| "consumeOctal_loop (Suc k) value l =
     (let nxt = peekChar l
      in if nxt < byte CHR ''0'' \<or> nxt > byte CHR ''7'' then (value, l)
         else consumeOctal_loop k (value * 8 + (nxt - byte CHR ''0'')) (readChar l))"

definition consumeOctal :: "lexer \<Rightarrow> nat \<times> lexer" where
  "consumeOctal l = consumeOctal_loop 2 (ch l - byte CHR ''0'') l"

text \<open>The switch on the rune after a backslash: the bytes written and the state.\<close>

definition readEscape :: "lexer \<Rightarrow> string \<times> lexer" where
  "readEscape l =
     (if ch l = byte CHR ''n'' then ([CHR 0x0A], l)
      else if ch l = byte CHR ''r'' then ([CHR 0x0D], l)
      else if ch l = byte CHR ''t'' then ([CHR 0x09], l)
      else if ch l = byte CHR 0x5C then ([CHR 0x5C], l)
      else if ch l = byte CHR 0x22 then ([CHR 0x22], l)
      else if ch l = byte CHR ''{'' then (''{'', l)
      else if byte CHR ''0'' \<le> ch l \<and> ch l \<le> byte CHR ''7'' then
        (let (value, l) = consumeOctal l in (EncodeRune value, l))
      else (CHR 0x5C # EncodeRune (ch l), l))"

text \<open>One rune of the string body: an escape sequence or the rune itself.\<close>

definition readStringRune :: "bool \<Rightarrow> lexer \<Rightarrow> string \<times> lexer" where
  "readStringRune raw l =
     (if \<not> raw \<and> ch l = byte CHR 0x5C then
        (let (out, l) = readEscape (readChar l) in (out, readChar l))
      else (EncodeRune (ch l), readChar l))"

lemma reads_consumeOctal_loop: "consumeOctal_loop k v l = (v', l') \<Longrightarrow> reads l l'"
  by (induction k arbitrary: v l) (auto simp: Let_def intro: reads_refl dest: reads_step split: if_splits)

lemma reads_readEscape: "readEscape l = (out, l') \<Longrightarrow> reads l l'"
  by (auto simp: readEscape_def consumeOctal_def intro: reads_refl reads_consumeOctal_loop
      split: if_splits prod.splits)

lemma reads_readStringRune: "readStringRune raw l = (out, l') \<Longrightarrow> reads (readChar l) l'"
  by (auto simp: readStringRune_def intro: reads_refl reads_read reads_readEscape split: if_splits prod.splits)

lemma left_readStringRune: "(out, l') = readStringRune raw l \<Longrightarrow> ch l \<noteq> 0 \<Longrightarrow> left l' < left l"
  by (metis reads_readStringRune left_reads)

text \<open>
  \<open>SingleLineStringTokenizer.NextToken\<close>; \<open>None\<close> in the result stands for the illegal token
  at the end of the input.
\<close>

function singleLine_loop :: "bool \<Rightarrow> string \<Rightarrow> lexer \<Rightarrow> string option \<times> lexer" where
  "singleLine_loop raw result l =
     (if ch l = 0 then (None, l)
      else if \<not> raw \<and> ch l = byte CHR ''{'' \<and> peekChar l = byte CHR ''{''
      then (Some result, switchMode GeneralTokenizer l)
      else if ch l = quote raw then (Some result, setMode GeneralTokenizer (readChar l))
      else
        (let (out, l') = readStringRune raw l in singleLine_loop raw (result @ out) l'))"
  by pat_completeness auto
termination
  by (relation "measure (\<lambda>(_, _, l). left l)") (auto intro: left_readStringRune)

declare singleLine_loop.simps [simp del]

text \<open>\<open>MultiLineStringTokenizer.NextToken\<close>: the newline before the closing quotes is dropped.\<close>

function multiLine_loop :: "bool \<Rightarrow> string \<Rightarrow> lexer \<Rightarrow> string option \<times> lexer" where
  "multiLine_loop raw result l =
     (if ch l = 0 then (None, l)
      else if \<not> raw \<and> ch l = byte CHR ''{'' \<and> peekChar l = byte CHR ''{''
      then (Some result, switchMode GeneralTokenizer l)
      else if ch l = quote raw \<and> peekChar l = quote raw \<and> peekTwoChars l = quote raw
      then (Some (if result \<noteq> [] \<and> last result = CHR 0x0A then butlast result else result),
            setMode GeneralTokenizer (readChar (readChar (readChar l))))
      else
        (let (out, l') = readStringRune raw l in multiLine_loop raw (result @ out) l'))"
  by pat_completeness auto
termination
  by (relation "measure (\<lambda>(_, _, l). left l)") (auto intro: left_readStringRune)

declare multiLine_loop.simps [simp del]

definition stringNextToken :: "mode \<Rightarrow> lexer \<Rightarrow> Token \<times> lexer" where
  "stringNextToken m l =
     (let start = position l;
          (res, l') = (case m of
             MultiLineStringTokenizer raw \<Rightarrow> multiLine_loop raw [] l
           | SingleLineStringTokenizer raw \<Rightarrow> singleLine_loop raw [] l
           | GeneralTokenizer \<Rightarrow> (None, l))
      in (case res of
            Some s \<Rightarrow> (Token STRING s start, l')
          | None \<Rightarrow> (newToken ILLEGAL (ch l') start, l')))"

section \<open>The general tokenizer\<close>

definition handleCompoundToken :: "TokenType \<Rightarrow> nat \<Rightarrow> TokenType \<Rightarrow> lexer \<Rightarrow> Token \<times> lexer" where
  "handleCompoundToken t ch1 t1 l =
     (if peekChar l = ch1
      then (let l' = readChar l in (Token t1 (EncodeRune (ch l) @ EncodeRune (ch l')) (position l), l'))
      else (newToken t (ch l) (position l), l))"

definition handleCompoundToken2 ::
    "TokenType \<Rightarrow> nat \<Rightarrow> TokenType \<Rightarrow> nat \<Rightarrow> TokenType \<Rightarrow> lexer \<Rightarrow> Token \<times> lexer" where
  "handleCompoundToken2 t ch1 t1 ch2 t2 l =
     (if peekChar l = ch1
      then (let l' = readChar l in (Token t1 (EncodeRune (ch l) @ EncodeRune (ch l')) (position l), l'))
      else if peekChar l = ch2
      then (let l' = readChar l in (Token t2 (EncodeRune (ch l) @ EncodeRune (ch l')) (position l), l'))
      else (newToken t (ch l) (position l), l))"

text \<open>The loop that collapses newlines into one token and counts them.\<close>

function collapseNewlines :: "nat \<Rightarrow> lexer \<Rightarrow> nat \<times> lexer" where
  "collapseNewlines n l =
     (if ch l = byte CHR 0x0A then collapseNewlines (n + 1) (skipWhitespace (readChar l))
      else if ch l = byte CHR 0x0D \<or> ch l = byte CHR '' '' \<or> ch l = byte CHR 0x09
      then collapseNewlines n (skipWhitespace (readChar l))
      else (n, l))"
  by pat_completeness auto
termination
  by (relation "measure (\<lambda>(_, l). left l)")
     (auto simp: byte_def intro!: le_less_trans [OF left_skipWhitespace_le] left_readChar)

declare collapseNewlines.simps [simp del]

text \<open>
  The cases of \<open>GeneralTokenizer.NextToken\<close> with several runes or a change of state: the token
  and the state before the \<open>readChar\<close> that ends the method.
\<close>

definition openBrace :: "lexer \<Rightarrow> Token \<times> lexer" where
  "openBrace l =
     (if peekChar l = byte CHR ''{'' \<and> canStartInterpolation l
      then (Token INTERPOLATION_START ''{{'' (position l),
            (let l' = readChar l in pushInterpolationReturnMode (prevMode l') l'))
      else if peekChar l = byte CHR ''|''
      then (Token MATCH_KEYS_EXACT ''{|'' (position l),
            (let l' = readChar l in l'\<lparr>braceDepth := braceDepth l' + 1\<rparr>))
      else (newToken LBRACE (ch l) (position l), l\<lparr>braceDepth := braceDepth l + 1\<rparr>))"

definition closeBrace :: "lexer \<Rightarrow> Token \<times> lexer" where
  "closeBrace l =
     (if hasInterpolationReturnMode l \<and> peekChar l = byte CHR ''}'' then
        (let (returnMode, l') = popInterpolationReturnMode (readChar l);
             tok = Token INTERPOLATION_END ''}}'' (position l)
         in (case returnMode of
               Some (SingleLineStringTokenizer raw) \<Rightarrow>
                 (if peekChar l' = byte CHR 0x22
                  then (tok, setMode GeneralTokenizer (readChar l'))
                  else (tok, switchMode (SingleLineStringTokenizer raw) l'))
             | Some m \<Rightarrow> (tok, switchMode m l')
             | None \<Rightarrow> (tok, l')))
      else
        (newToken RBRACE (ch l) (position l),
         (if braceDepth l > 0 then l\<lparr>braceDepth := braceDepth l - 1\<rparr> else l)))"

definition closeMatchKeys :: "lexer \<Rightarrow> Token \<times> lexer" where
  "closeMatchKeys l =
     (if peekChar l = byte CHR ''|'' then (Token LOGICAL_OR ''||'' (position l), readChar l)
      else if peekChar l = byte CHR ''}'' then
        (Token MATCH_KEYS_CLOSE ''|}'' (position l),
         (let l' = readChar l in if braceDepth l' > 0 then l'\<lparr>braceDepth := braceDepth l' - 1\<rparr> else l'))
      else (newToken BITWISE_OR (ch l) (position l), l))"


definition periodOrEllipsis :: "lexer \<Rightarrow> Token \<times> lexer" where
  "periodOrEllipsis l =
     (if peekChar l = byte CHR ''.'' \<and> peekTwoChars l = byte CHR ''.''
      then (Token ELLIPSIS ''...'' (position l), readChar (readChar l))
      else (newToken PERIOD (ch l) (position l), l))"

definition openDelimiter :: "TokenType \<Rightarrow> lexer \<Rightarrow> Token \<times> lexer" where
  "openDelimiter t l =
     (newToken t (ch l) (position l),
      (let l' = pushDelimiterBaseline l
       in if t = LPAREN then l'\<lparr>parenDepth := parenDepth l' + 1\<rparr>
          else l'\<lparr>bracketDepth := bracketDepth l' + 1\<rparr>))"

definition closeDelimiter :: "TokenType \<Rightarrow> lexer \<Rightarrow> Token \<times> lexer" where
  "closeDelimiter t l =
     (newToken t (ch l) (position l),
      popDelimiterBaseline
        (if t = RPAREN
         then (if parenDepth l > 0 then l\<lparr>parenDepth := parenDepth l - 1\<rparr> else l)
         else (if bracketDepth l > 0 then l\<lparr>bracketDepth := bracketDepth l - 1\<rparr> else l)))"

text \<open>
  The cases of the switch that build a token standing on its last rune, which the end of
  \<open>NextToken\<close> then consumes; \<open>None\<close> for the runes handled elsewhere.
\<close>

definition operatorToken :: "lexer \<Rightarrow> (Token \<times> lexer) option" where
  "operatorToken l =
     (let c = ch l; single = (\<lambda>t. Some (newToken t (ch l) (position l), l)) in
      if c = byte CHR ''='' then
        Some (handleCompoundToken2 ASSIGN (byte CHR ''='') EQ (byte CHR ''>'') ROCKET l)
      else if c = byte CHR ''+'' then Some (handleCompoundToken PLUS (byte CHR '':'') PREPEND_ITEM l)
      else if c = byte CHR ''-'' then single MINUS
      else if c = byte CHR ''!'' then Some (handleCompoundToken BANG (byte CHR ''='') NOT_EQ l)
      else if c = byte CHR ''*'' then single ASTERISK
      else if c = byte CHR ''%'' then single PERCENT
      else if c = byte CHR ''~'' then single COMPLEMENT
      else if c = byte CHR ''&'' then
        Some (handleCompoundToken BITWISE_AND (byte CHR ''&'') LOGICAL_AND l)
      else if c = byte CHR ''|'' then Some (closeMatchKeys l)
      else if c = byte CHR ''^'' then single BITWISE_XOR
      else if c = byte CHR ''<'' then
        Some (handleCompoundToken2 LT (byte CHR ''='') LT_EQ (byte CHR ''<'') SHIFT_LEFT l)
      else if c = byte CHR ''>'' then
        Some (handleCompoundToken2 GT (byte CHR ''='') GT_EQ (byte CHR ''>'') SHIFT_RIGHT l)
      else if c = byte CHR '';'' then single SEMICOLON
      else if c = byte CHR '':'' then Some (handleCompoundToken COLON (byte CHR ''+'') APPEND_ITEM l)
      else if c = byte CHR '','' then single COMMA
      else if c = byte CHR ''.'' then Some (periodOrEllipsis l)
      else if c = byte CHR ''{'' then Some (openBrace l)
      else if c = byte CHR ''}'' then Some (closeBrace l)
      else if c = byte CHR ''('' then Some (openDelimiter LPAREN l)
      else if c = byte CHR '')'' then Some (closeDelimiter RPAREN l)
      else if c = byte CHR ''['' then Some (openDelimiter LBRACKET l)
      else if c = byte CHR '']'' then Some (closeDelimiter RBRACKET l)
      else if c = byte CHR ''@'' then single AT
      else if c = 0 then Some (Token EOF [] (position l), l)
      else None)"

definition stringStart :: "lexer \<Rightarrow> Token \<times> lexer" where
  \<comment> \<open>the quote cases\<close>
  "stringStart l =
     (let raw = (ch l \<noteq> byte CHR 0x22); q = quote raw
      in if peekChar l = q \<and> peekTwoChars l = q then
           (let l1 = readChar (readChar (readChar l));
                l2 = (if ch l1 = byte CHR 0x0A then readChar l1 else l1);
                m = MultiLineStringTokenizer raw
            in stringNextToken m (switchMode m l2))
         else
           (let m = SingleLineStringTokenizer raw
            in stringNextToken m (switchMode m (readChar l))))"

definition identToken :: "unicode \<Rightarrow> lexer \<Rightarrow> Token \<times> lexer" where
  "identToken U l =
     (let (lit, l') = readIdentifier U l in (Token (LookupIdent lit) lit (position l), l'))"

definition numberToken :: "unicode \<Rightarrow> lexer \<Rightarrow> Token \<times> lexer" where
  "numberToken U l =
     (let start = position l in
      if ch l = byte CHR ''0'' \<and> peekChar l = byte CHR ''x'' \<and> peekTwoChars l = byte CHR 0x22 then
        (case readByteArrayLiteral l of
           (Some lit, l') \<Rightarrow> (Token BYTES lit start, l')
         | (None, l') \<Rightarrow> (Token ILLEGAL ''invalid bytes literal'' start, l'))
      else if ch l = byte CHR ''0'' \<and> peekChar l = byte CHR ''x'' then
        (case readHexLiteral l of
           (Inl e, l') \<Rightarrow> (Token ILLEGAL e start, l')
         | (Inr lit, l') \<Rightarrow> (Token NUMBER lit start, l'))
      else
        (case readNumber U l of
           (Inl e, l') \<Rightarrow> (Token ILLEGAL e start, l')
         | (Inr lit, l') \<Rightarrow> (Token NUMBER lit start, l')))"

text \<open>
  The newline and slash cases: \<open>Inl\<close> is the state from which the method calls itself again (a
  newline treated as white space, a block comment), \<open>Inr\<close> the token and the state returned.
\<close>

definition newlineStep :: "lexer \<Rightarrow> lexer + Token \<times> lexer" where
  "newlineStep l =
     (let collapsed =
            (let (n, l') = collapseNewlines 0 l
             in Inr (Token NEWLINE (replicate (max n 1) CHR 0x0A) (position l), l'))
      in (case currentDelimiterBaseline l of
            Some baseline \<Rightarrow> if braceDepth l \<le> baseline then Inl (readChar l) else collapsed
          | None \<Rightarrow> collapsed))"

definition slashStep :: "lexer \<Rightarrow> lexer + Token \<times> lexer" where
  "slashStep l =
     (let start = position l in
      if peekChar l = byte CHR ''>'' then Inr (Token CALL_CHAIN ''/>'' start, readChar (readChar l))
      else if peekChar l = byte CHR ''*'' then
        (if peekTwoChars l = byte CHR ''*'' then
           (case readDocComment l of
              (Inl e, l') \<Rightarrow> Inr (Token ILLEGAL e start, l')
            | (Inr lit, l') \<Rightarrow> Inr (Token DOC_COMMENT lit start, l'))
         else
           (case skipBlockComment l of
              (Some e, l') \<Rightarrow> Inr (Token ILLEGAL e start, l')
            | (None, l') \<Rightarrow> Inl l'))
      else Inr (newToken SLASH (ch l) start, readChar l))"

definition otherToken :: "unicode \<Rightarrow> lexer \<Rightarrow> Token \<times> lexer" where
  "otherToken U l =
     (let start = position l in
      if ch l = byte CHR ''_'' then
        (if isLetter U (peekChar l) then identToken U l
         else (newToken UNDERSCORE (ch l) start, readChar l))
      else if ch l = byte CHR ''?'' then
        (if peekChar l = byte CHR ''?'' \<and> peekTwoChars l = byte CHR ''?''
         then (Token NOT_IMPLEMENTED ''???'' start, readChar (readChar (readChar l)))
         else (newToken ILLEGAL (ch l) start, l))
      else if ch l = byte CHR 0x22 \<or> ch l = byte CHR 0x27 then stringStart l
      else
        (case operatorToken l of
           Some (tok, l') \<Rightarrow> (tok, readChar l')
         | None \<Rightarrow>
             (if isLetter U (ch l) then identToken U l
              else if isDigit U (ch l) then numberToken U l
              else (newToken ILLEGAL (ch l) start, readChar l))))"

text \<open>One pass of \<open>GeneralTokenizer.NextToken\<close> after the white space.\<close>

definition general_step :: "unicode \<Rightarrow> lexer \<Rightarrow> lexer + Token \<times> lexer" where
  "general_step U l =
     (if ch l = byte CHR 0x0A then newlineStep l
      else if ch l = byte CHR ''/'' then slashStep l
      else Inr (otherToken U l))"

lemma reads_skipBlockComment_loop: "reads l (snd (skipBlockComment_loop d l))"
proof (induction d l rule: skipBlockComment_loop.induct)
  case (1 d l)
  let ?open = "ch l = byte CHR ''/'' \<and> peekChar l = byte CHR ''*''"
  let ?close = "ch l = byte CHR ''*'' \<and> peekChar l = byte CHR ''/''"
  show ?case
  proof (cases "ch l = 0")
    case True
    then show ?thesis by (subst skipBlockComment_loop.simps) (simp add: reads_refl)
  next
    case ch: False
    show ?thesis
    proof (cases ?open)
      case True
      with ch 1(1) show ?thesis by (subst skipBlockComment_loop.simps) (simp add: reads_step2)
    next
      case o: False
      show ?thesis
      proof (cases ?close)
        case True
        then show ?thesis
          using reads_step2 [OF 1(2) [OF ch o True refl]] reads_read [OF reads_read [OF reads_refl], of l] ch o
          by (subst skipBlockComment_loop.simps) (simp add: Let_def)
      next
        case False
        then show ?thesis
          using reads_step [OF 1(3) [OF ch o False]] ch o
          by (subst skipBlockComment_loop.simps) (simp only: if_False if_not_P simp_thms)
      qed
    qed
  qed
qed

lemma left_skipBlockComment:
  assumes "skipBlockComment l = (e, l')" "ch l = byte CHR ''/''" "peekChar l = byte CHR ''*''"
  shows "left l' < left l"
proof (rule left_reads)
  show "reads (readChar l) l'"
    using assms reads_step [OF reads_skipBlockComment_loop, of "readChar l" 1]
    by (auto simp: skipBlockComment_def split: prod.splits)
  show "ch l \<noteq> 0" using assms by (simp add: byte_def)
qed

lemma general_step_again:
  assumes "general_step U l = Inl l'"
  shows "left l' < left l"
proof -
  consider (nl) "ch l = byte CHR 0x0A" "newlineStep l = Inl l'"
    | (slash) "ch l = byte CHR ''/''" "slashStep l = Inl l'"
    using assms by (auto simp: general_step_def split: if_splits)
  then show ?thesis
  proof cases
    case nl
    then have "l' = readChar l"
      by (simp add: newlineStep_def Let_def split: option.splits if_splits prod.splits)
    moreover have "ch l \<noteq> 0" using nl by (simp add: byte_def)
    ultimately show ?thesis by (simp add: left_readChar)
  next
    case slash
    then have "peekChar l = byte CHR ''*'' \<and> (\<exists>e. skipBlockComment l = (e, l'))"
      by (auto simp: slashStep_def Let_def split: if_splits option.splits prod.splits sum.splits)
    then show ?thesis using left_skipBlockComment slash by blast
  qed
qed

function general_NextToken :: "unicode \<Rightarrow> lexer \<Rightarrow> Token \<times> lexer" where
  "general_NextToken U l =
     (case general_step U (skipWhitespace l) of
        Inl l' \<Rightarrow> general_NextToken U l'
      | Inr res \<Rightarrow> res)"
  by pat_completeness auto
termination
  by (relation "measure (\<lambda>(_, l). left l)")
     (auto dest!: general_step_again intro: less_le_trans [OF _ left_skipWhitespace_le])

declare general_NextToken.simps [simp del]

definition NextToken :: "unicode \<Rightarrow> lexer \<Rightarrow> Token \<times> lexer" where
  "NextToken U l =
     (case currentMode l of
        GeneralTokenizer \<Rightarrow> general_NextToken U l
      | m \<Rightarrow> stringNextToken m l)"

end
