(* ===== verification/Lexer_Laws.thy ===== *)
theory Lexer_Laws
  imports Lexer
begin

text \<open>
  What the lexer keeps and promises: its position invariant, progress of every token and
  termination of the token stream, newline suppression inside delimiters, escapes in string
  literals, and the inputs on which it never reaches the end.
\<close>

section \<open>Every reader only reads\<close>

lemma reads_readDocComment_loop: "reads l (snd (readDocComment_loop s b l))"
proof (induction s b l rule: readDocComment_loop.induct)
  case (1 s b l)
  show ?case
  proof (cases "ch l = 0")
    case True
    then show ?thesis by (subst readDocComment_loop.simps) (simp add: reads_refl)
  next
    case False
    show ?thesis
    proof (cases "if b then docCommentClosingOffset l else None")
      case None
      then show ?thesis
        using reads_step [OF 1 [OF False None]] False by (subst readDocComment_loop.simps) simp
    next
      case (Some n)
      then show ?thesis
        using False reads_power [of l n] by (subst readDocComment_loop.simps) (simp add: reads_read)
    qed
  qed
qed

lemma reads_readDocComment: "reads l (snd (readDocComment l))"
proof -
  let ?l = "readChar (readChar (readChar l))"
  have "reads l (snd (readDocComment_loop (position ?l) True ?l))"
    by (rule reads_step [OF reads_step2]) (rule reads_readDocComment_loop)
  then show ?thesis by (simp add: readDocComment_def reads_refl Let_def)
qed

lemma reads_skipBlockComment: "reads l (snd (skipBlockComment l))"
proof -
  have "reads l (snd (skipBlockComment_loop 1 (readChar (readChar l))))"
    by (rule reads_step2) (rule reads_skipBlockComment_loop)
  then show ?thesis by (auto simp: skipBlockComment_def reads_refl split: prod.split)
qed

lemma reads_skipIdentifier: "reads l (skipIdentifier U l)"
proof (induction U l rule: skipIdentifier.induct)
  case (1 U l)
  then show ?case by (subst skipIdentifier.simps) (auto intro: reads_refl dest: reads_step)
qed

lemma reads_readDigits: "reads l (snd (readDigits U s l))"
proof (induction U s l rule: readDigits.induct)
  case (1 U s l)
  then show ?case by (subst readDigits.simps) (auto intro: reads_refl dest: reads_step)
qed

lemma reads_readPlainDigits: "reads l (snd (readPlainDigits U s l))"
proof (induction U s l rule: readPlainDigits.induct)
  case (1 U s l)
  then show ?case by (subst readPlainDigits.simps) (auto intro: reads_refl dest: reads_step)
qed

lemma reads_readPlainDigits_eq: "readPlainDigits U s l = (r, l') \<Longrightarrow> reads l l'"
  using reads_readPlainDigits [of l U s] by simp

lemma reads_readExponent: "readExponent U s l = (r, l') \<Longrightarrow> reads l l'"
  by (auto simp: readExponent_def Let_def intro: reads_refl split: if_splits
      dest!: reads_readPlainDigits_eq dest: reads_step)

lemma reads_readNumber: "readNumber U l = (r, l') \<Longrightarrow> reads l l'"
proof -
  assume num: "readNumber U l = (r, l')"
  obtain r1 l1 where 1: "readDigits U [] l = (r1, l1)" by fastforce
  obtain r2 l2 where 2: "(if ch l1 = byte CHR ''.'' \<and> isDigit U (peekChar l1)
      then readDigits U (projr r1 @ EncodeRune (ch l1)) (readChar l1) else (r1, l1)) = (r2, l2)" by fastforce
  have r1: "reads l l1" using reads_readDigits [of l U "[]"] 1 by simp
  have r2: "reads l1 l2"
    using 2 reads_step [OF reads_readDigits, of l1 U "projr r1 @ EncodeRune (ch l1)"]
    by (auto intro: reads_refl split: if_splits)
  have "l' = l1 \<or> l' = l2 \<or> (\<exists>s r. readExponent U s l2 = (r, l'))"
    using num 1 2 by (auto simp: readNumber_def Let_def split: sum.splits prod.splits if_splits)
  then show ?thesis using r1 reads_trans [OF r2 r1] reads_trans [OF reads_readExponent] by blast
qed

lemma reads_readHexDigits: "reads l (snd (readHexDigits s l))"
proof (induction s l rule: readHexDigits.induct)
  case (1 s l)
  then show ?case by (subst readHexDigits.simps) (auto intro: reads_refl dest: reads_step)
qed

lemma reads_readHexLiteral: "readHexLiteral l = (r, l') \<Longrightarrow> reads (readChar l) l'"
  using reads_step2 [OF reads_readHexDigits, of "readChar l"] reads_step [OF reads_readHexDigits, of "readChar l"]
  by (auto simp: readHexLiteral_def Let_def intro: reads.intros split: if_splits prod.splits
      dest!: arg_cong [of _ _ snd])

lemma reads_skipBytesLiteral: "reads l (snd (skipBytesLiteral l))"
proof (induction l rule: skipBytesLiteral.induct)
  case (1 l)
  then show ?case
    by (subst skipBytesLiteral.simps) (auto simp: Let_def intro: reads.intros dest: reads_step)
qed

lemma reads_readByteArrayLiteral: "readByteArrayLiteral l = (r, l') \<Longrightarrow> reads (readChar l) l'"
  using reads_step2 [OF reads_skipBytesLiteral, of "readChar l"]
  by (auto simp: readByteArrayLiteral_def Let_def intro: reads.intros split: if_splits prod.splits)

lemma reads_collapseNewlines: "reads l (snd (collapseNewlines n l))"
proof (induction n l rule: collapseNewlines.induct)
  case (1 n l)
  have "reads (skipWhitespace (readChar l)) l' \<Longrightarrow> reads l l'" for l'
    using reads_skipWhitespace reads_step reads_trans by blast
  with 1 show ?case by (subst collapseNewlines.simps) (auto intro: reads_refl)
qed


section \<open>Every operation advances\<close>

lemma core_updates [simp]:
  "core (l\<lparr>prevMode := pm\<rparr>) = core l" "core (l\<lparr>currentMode := m\<rparr>) = core l"
  "core (l\<lparr>parenDepth := n\<rparr>) = core l" "core (l\<lparr>bracketDepth := n\<rparr>) = core l"
  "core (l\<lparr>braceDepth := n\<rparr>) = core l" "core (l\<lparr>delimiterBraceBaselines := bs\<rparr>) = core l"
  "core (l\<lparr>interpolationStack := ms\<rparr>) = core l"
  "core (switchMode m l) = core l" "core (setMode m l) = core l"
  "core (pushInterpolationReturnMode pm l) = core l"
  "core (pushDelimiterBaseline l) = core l" "core (popDelimiterBaseline l) = core l"
  by (simp_all add: core_def switchMode_def setMode_def pushInterpolationReturnMode_def
      pushDelimiterBaseline_def popDelimiterBaseline_def split: option.split list.split)

lemma core_popInterpolation: "popInterpolationReturnMode l = (m, l') \<Longrightarrow> core l' = core l"
  by (auto simp: popInterpolationReturnMode_def split: list.splits)

lemma adv_core: "core l' = core l \<Longrightarrow> advances l l'"
  using adv_refl by (rule adv_other)

lemma adv_readChar: "advances l (readChar l)"
  by (intro advances.intros)

lemma adv_readChar2: "advances l (readChar (readChar l))"
  by (intro advances.intros)

lemma adv_core_read: "core l' = core (readChar l) \<Longrightarrow> advances l l'"
  using adv_readChar by (rule adv_other)

lemma left_read_advances: "advances l l' \<Longrightarrow> ch l \<noteq> 0 \<Longrightarrow> left (readChar l') < left l"
proof (induction rule: advances.induct)
  case (adv_read l l')
  then show ?case using left_readChar_le [of "readChar l'"] by simp
next
  case (adv_other l l' l'')
  have "core (readChar l'') = core (readChar l')"
    using adv_other.hyps(2) by (auto simp: core_def readChar_def split: prod.split)
  then show ?case using adv_other left_core by metis
qed (simp add: left_readChar)

lemma left_advances_read: "advances (readChar l) l' \<Longrightarrow> ch l \<noteq> 0 \<Longrightarrow> left l' < left l"
  using left_advances left_readChar le_less_trans by blast

lemma adv_singleLine_loop: "advances l (snd (singleLine_loop raw s l))"
proof (induction raw s l rule: singleLine_loop.induct)
  case (1 raw s l)
  obtain out l' where r: "readStringRune raw l = (out, l')" by fastforce
  have rest: "advances l' m \<Longrightarrow> advances l m" for m
    using adv_step [OF reads_advances [OF reads_readStringRune [OF r]]] by (rule adv_trans [rotated])
  have "advances l (switchMode GeneralTokenizer l)" "advances l (setMode GeneralTokenizer (readChar l))"
    by (simp_all add: adv_core adv_core_read)
  then show ?case
    using rest 1 by (subst singleLine_loop.simps) (simp add: r adv_refl)
qed

lemma adv_multiLine_loop: "advances l (snd (multiLine_loop raw s l))"
proof (induction raw s l rule: multiLine_loop.induct)
  case (1 raw s l)
  obtain out l' where r: "readStringRune raw l = (out, l')" by fastforce
  have rest: "advances l' m \<Longrightarrow> advances l m" for m
    using adv_step [OF reads_advances [OF reads_readStringRune [OF r]]] by (rule adv_trans [rotated])
  have "advances l (switchMode GeneralTokenizer l)" by (simp add: adv_core)
  moreover have "advances l (setMode GeneralTokenizer (readChar (readChar (readChar l))))"
    by (rule adv_other [of _ "readChar (readChar (readChar l))"]) (simp_all add: adv_read adv_refl)
  ultimately show ?case
    using rest 1 by (subst multiLine_loop.simps) (simp add: r adv_refl)
qed

lemma adv_loops_eq:
  "singleLine_loop raw s l = (r, l') \<Longrightarrow> advances l l'"
  "multiLine_loop raw s l = (r, l') \<Longrightarrow> advances l l'"
  using adv_singleLine_loop [of l raw s] adv_multiLine_loop [of l raw s] by simp_all

lemma adv_stringNextToken: "stringNextToken m l = (t, l') \<Longrightarrow> advances l l'"
  by (auto simp: stringNextToken_def Let_def adv_refl split: mode.splits option.splits prod.splits
      dest: adv_loops_eq)

lemma adv_operatorToken: "operatorToken l = Some (t, l') \<Longrightarrow> advances l l'"
proof -
  have compound: "advances l (snd (handleCompoundToken a b c l))"
      "advances l (snd (handleCompoundToken2 a b c d e l))" for a b c d e
    by (simp_all add: handleCompoundToken_def handleCompoundToken2_def Let_def adv_refl adv_readChar)
  have braces: "advances l (snd (openBrace l))" "advances l (snd (closeMatchKeys l))"
      "advances l (snd (periodOrEllipsis l))"
    by (simp_all add: openBrace_def closeMatchKeys_def periodOrEllipsis_def Let_def adv_refl
        adv_readChar adv_readChar2 adv_core adv_core_read)
  have delims: "advances l (snd (openDelimiter d l))" "advances l (snd (closeDelimiter d l))" for d
    by (simp_all add: openDelimiter_def closeDelimiter_def Let_def adv_core)
  have close: "advances l (snd (closeBrace l))"
  proof -
    obtain m l1 where p: "popInterpolationReturnMode (readChar l) = (m, l1)" by fastforce
    have c: "core l1 = core (readChar l)" using core_popInterpolation [OF p] .
    then have 1: "advances l l1" by (rule adv_core_read)
    have "core (setMode GeneralTokenizer (readChar l1)) = core (readChar l1)" by simp
    then have 2: "advances l (setMode GeneralTokenizer (readChar l1))"
      using adv_read [OF 1] adv_other by blast
    have 3: "advances l (switchMode n l1)" for n using adv_core_read c by simp
    show ?thesis
      using 1 2 3 by (auto simp: closeBrace_def p adv_core Let_def split: option.split mode.split)
  qed
  assume "operatorToken l = Some (t, l')"
  then have "l' = l \<or> l' = snd (openBrace l) \<or> l' = snd (closeMatchKeys l) \<or> l' = snd (closeBrace l)
    \<or> l' = snd (periodOrEllipsis l) \<or> (\<exists>d. l' = snd (openDelimiter d l) \<or> l' = snd (closeDelimiter d l))
    \<or> (\<exists>a b c. l' = snd (handleCompoundToken a b c l))
    \<or> (\<exists>a b c d e. l' = snd (handleCompoundToken2 a b c d e l))"
    unfolding operatorToken_def Let_def
    by (simp split: if_split_asm) (metis snd_conv)+
  then show ?thesis using compound braces delims close adv_refl by metis
qed


lemma adv_identToken:
  assumes "identToken U l = (t, l')"
  shows "reads l l'" and "isLetter U (ch l) \<Longrightarrow> left l' < left l"
proof -
  have l': "l' = skipIdentifier U l"
    using assms by (simp add: identToken_def readIdentifier_def Let_def)
  then show "reads l l'" using reads_skipIdentifier by simp
  assume c: "isLetter U (ch l)"
  then have "l' = skipIdentifier U (readChar l)" using l' by (subst (asm) skipIdentifier.simps) simp
  then show "left l' < left l"
    using left_reads [of l l'] reads_skipIdentifier [of "readChar l" U] c
    by (auto simp: isLetter_def split: if_splits)
qed

lemma reads_readNumber_digit:
  assumes "readNumber U l = (r, l')" "isDigit U (ch l)"
  shows "reads (readChar l) l'"
proof -
  have d: "ch l \<noteq> byte CHR ''_''" using assms(2) by (auto simp: isDigit_def byte_def)
  have "reads (readChar l) (snd (readDigits U [] l))"
    using reads_readDigits [of "readChar l" U "EncodeRune (ch l)"] assms(2) d
    by (subst readDigits.simps) simp
  moreover have "reads (snd (readDigits U [] l)) l'"
  proof -
    obtain r1 l1 where 1: "readDigits U [] l = (r1, l1)" by fastforce
    obtain r2 l2 where 2: "(if ch l1 = byte CHR ''.'' \<and> isDigit U (peekChar l1)
        then readDigits U (projr r1 @ EncodeRune (ch l1)) (readChar l1) else (r1, l1)) = (r2, l2)" by fastforce
    have r2: "reads l1 l2"
      using 2 reads_step [OF reads_readDigits, of l1 U "projr r1 @ EncodeRune (ch l1)"]
      by (auto intro: reads_refl split: if_splits)
    have "l' = l1 \<or> l' = l2 \<or> (\<exists>s r. readExponent U s l2 = (r, l'))"
      using assms(1) 1 2 by (auto simp: readNumber_def Let_def split: sum.splits prod.splits if_splits)
    then show ?thesis using r2 1 reads_refl reads_trans [OF reads_readExponent r2] by auto
  qed
  ultimately show ?thesis using reads_trans by blast
qed

lemma adv_numberToken: "numberToken U l = (t, l') \<Longrightarrow> isDigit U (ch l) \<Longrightarrow> reads (readChar l) l'"
  by (auto simp: numberToken_def Let_def split: if_splits prod.splits option.splits sum.splits
      dest: reads_readByteArrayLiteral reads_readHexLiteral reads_readNumber_digit)

lemma adv_stringStart: "stringStart l = (t, l') \<Longrightarrow> advances (readChar l) l'"
proof -
  assume t: "stringStart l = (t, l')"
  let ?l3 = "readChar (readChar (readChar l))"
  have "advances (readChar l) (if ch ?l3 = byte CHR 0x0A then readChar ?l3 else ?l3)"
    by (simp add: advances.intros)
  then have "advances (readChar l) (switchMode m (if ch ?l3 = byte CHR 0x0A then readChar ?l3 else ?l3))" for m
    by (rule adv_other) simp
  moreover have "advances (readChar l) (switchMode m (readChar l))" for m by (rule adv_core) simp
  ultimately show ?thesis
    using t adv_trans [OF adv_stringNextToken]
    unfolding stringStart_def Let_def by (auto split: if_splits)
qed

lemma adv_otherToken:
  assumes "otherToken U l = (t, l')"
  shows "advances l l'" and "tok_Type t \<noteq> EOF \<Longrightarrow> tok_Type t \<noteq> ILLEGAL \<Longrightarrow> left l' < left l"
proof -
  consider (ident) "identToken U l = (t, l')" "isLetter U (ch l)"
    | (number) "numberToken U l = (t, l')" "isDigit U (ch l)"
    | (str) "stringStart l = (t, l')" "ch l \<noteq> 0"
    | (op) l1 where "operatorToken l = Some (t, l1)" "l' = readChar l1" "ch l \<noteq> 0 \<or> tok_Type t = EOF"
    | (one) "l' = readChar l" "ch l \<noteq> 0"
    | (illegal) "l' = l" "tok_Type t = ILLEGAL"
    | (three) "l' = readChar (readChar (readChar l))" "ch l \<noteq> 0"
  proof -
    have eof: "operatorToken l = Some (Token EOF [] (position l), l)" if "ch l = 0"
      using that by (simp add: operatorToken_def byte_def)
    consider "ch l = byte CHR ''_''" | "ch l = byte CHR ''?''"
      | "ch l = byte CHR 0x22 \<or> ch l = byte CHR 0x27"
      | "ch l \<noteq> byte CHR ''_''" "ch l \<noteq> byte CHR ''?''" "ch l \<noteq> byte CHR 0x22" "ch l \<noteq> byte CHR 0x27"
      by blast
    then show ?thesis
    proof cases
      case 1
      then have "isLetter U (ch l)" "ch l \<noteq> 0" by (simp_all add: isLetter_def byte_def)
      then show ?thesis using assms 1 that by (simp add: otherToken_def Let_def split: if_splits)
    next
      case 2
      then have "ch l \<noteq> 0" "ch l \<noteq> byte CHR ''_''" by (simp_all add: byte_def)
      then show ?thesis using assms 2 that
        by (simp add: otherToken_def Let_def newToken_def split: if_splits) auto
    next
      case 3
      then have "ch l \<noteq> 0" "ch l \<noteq> byte CHR ''_''" "ch l \<noteq> byte CHR ''?''" by (auto simp: byte_def)
      then show ?thesis using assms 3 that(3) by (simp add: otherToken_def Let_def)
    next
      case 4
      show ?thesis
      proof (cases "operatorToken l")
        case None
        have "ch l \<noteq> 0" using None eof by auto
        then show ?thesis using assms 4 None that(1,2,5) by (simp add: otherToken_def Let_def split: if_splits)
      next
        case (Some x)
        then show ?thesis
          using assms 4 eof that(4) [of "snd x"] by (cases x; cases "ch l = 0") (auto simp: otherToken_def Let_def)
      qed
    qed
  qed
  note cases = this
  show "advances l l'"
    using cases
  proof cases
    case op
    then show ?thesis using adv_read [OF adv_operatorToken] by blast
  next
    case number
    then show ?thesis using adv_step [OF reads_advances [OF adv_numberToken]] by blast
  qed (auto intro: adv_step [OF adv_stringStart] reads_advances [OF adv_identToken(1)] advances.intros)
  assume t: "tok_Type t \<noteq> EOF" "tok_Type t \<noteq> ILLEGAL"
  show "left l' < left l"
    using cases
  proof cases
    case op
    then show ?thesis using t left_read_advances [OF adv_operatorToken] by blast
  next
    case number
    then have "ch l \<noteq> 0" by (auto simp: isDigit_def split: if_splits)
    then show ?thesis using left_reads adv_numberToken number by blast
  next
    case three
    then show ?thesis using left_read_advances [OF adv_readChar2] by simp
  qed (use t in \<open>auto simp: left_readChar intro: left_advances_read [OF adv_stringStart] adv_identToken(2)\<close>)
qed


lemma reads_slashStep:
  assumes "slashStep l = Inr (t, l')" "ch l = byte CHR ''/''"
  shows "reads (readChar l) l'"
proof -
  have one: "reads (readChar l) (readChar l)" "reads (readChar l) (readChar (readChar l))"
    by (intro reads.intros)+
  have doc: "reads (readChar l) (snd (readDocComment l))"
    if "peekChar l = byte CHR ''*''" "peekTwoChars l = byte CHR ''*''"
    using that assms(2) reads_step2 [OF reads_readDocComment_loop, of "readChar l"]
    by (simp add: readDocComment_def Let_def)
  have blk: "reads (readChar l) (snd (skipBlockComment l))" if "peekChar l = byte CHR ''*''"
    using that assms(2) reads_step [OF reads_skipBlockComment_loop, of "readChar l" 1]
    by (auto simp: skipBlockComment_def split: prod.split)
  show ?thesis
    using assms(1) one doc blk
    by (auto simp: slashStep_def Let_def split: if_splits option.splits prod.splits sum.splits)
qed

lemma reads_newlineStep:
  assumes "newlineStep l = Inr (t, l')" "ch l = byte CHR 0x0A"
  shows "reads (readChar l) l'"
proof -
  have "l' = snd (collapseNewlines 0 l)"
    using assms by (auto simp: newlineStep_def Let_def split: if_splits option.splits prod.splits)
  also have "\<dots> = snd (collapseNewlines 1 (skipWhitespace (readChar l)))"
    using assms(2) by (subst collapseNewlines.simps) simp
  finally show ?thesis
    using reads_trans [OF reads_collapseNewlines reads_skipWhitespace] by simp
qed

lemma adv_general_step:
  assumes "general_step U l = Inr (t, l')"
  shows "advances l l'" and "tok_Type t \<noteq> EOF \<Longrightarrow> tok_Type t \<noteq> ILLEGAL \<Longrightarrow> left l' < left l"
proof -
  have "(ch l \<noteq> 0 \<and> reads (readChar l) l') \<or> otherToken U l = (t, l')"
    using assms reads_slashStep [of l t l'] reads_newlineStep [of l t l']
    by (auto simp: general_step_def byte_def split: if_splits)
  then show "advances l l'" "tok_Type t \<noteq> EOF \<Longrightarrow> tok_Type t \<noteq> ILLEGAL \<Longrightarrow> left l' < left l"
    using adv_otherToken [of U l t l'] left_reads adv_step [OF reads_advances] by blast+
qed

lemma adv_general_again: "general_step U l = Inl l' \<Longrightarrow> reads l l'"
proof -
  assume "general_step U l = Inl l'"
  then have "l' = readChar l \<or> l' = snd (skipBlockComment l)"
    by (auto simp: general_step_def newlineStep_def slashStep_def Let_def
        split: if_splits option.splits prod.splits sum.splits)
  then show "reads l l'" using reads_skipBlockComment reads_read [OF reads_refl] by auto
qed

text \<open>What \<open>GeneralTokenizer.NextToken\<close> returns comes from one pass, after some reading.\<close>

lemma general_NextToken_step:
  "\<exists>l1. reads l l1 \<and> general_step U l1 = Inr (general_NextToken U l)"
proof (induction U l rule: general_NextToken.induct)
  case (1 U l)
  let ?l = "skipWhitespace l"
  show ?case
  proof (cases "general_step U ?l")
    case (Inl l')
    then obtain l1 where "reads l' l1" "general_step U l1 = Inr (general_NextToken U l')"
      using 1 by blast
    moreover have "reads l l'" using adv_general_again [OF Inl] reads_skipWhitespace reads_trans by blast
    ultimately show ?thesis using Inl reads_trans by (subst general_NextToken.simps) auto
  next
    case (Inr r)
    then show ?thesis using reads_skipWhitespace by (subst general_NextToken.simps) auto
  qed
qed

lemma adv_NextToken: "NextToken U l = (t, l') \<Longrightarrow> advances l l'"
proof (cases "currentMode l")
  case GeneralTokenizer
  assume "NextToken U l = (t, l')"
  then obtain l1 where "reads l l1" "general_step U l1 = Inr (t, l')"
    using general_NextToken_step [of l U] GeneralTokenizer by (auto simp: NextToken_def)
  then show ?thesis using adv_general_step(1) reads_advances adv_trans by blast
qed (auto simp: NextToken_def adv_stringNextToken)

section \<open>The position invariant\<close>

text \<open>
  \<open>position\<close> and \<open>readPosition\<close> delimit the current rune, which is the one decoded there; at
  the end of the input the rune is 0.
\<close>

definition lexer_ok :: "lexer \<Rightarrow> bool" where
  "lexer_ok l \<longleftrightarrow>
     readPosition l \<le> length (input l) \<and>
     (if position l < length (input l)
      then DecodeRune (drop (position l) (input l)) = (ch l, readPosition l - position l)
        \<and> position l < readPosition l
      else position l = length (input l) \<and> readPosition l = length (input l) \<and> ch l = 0)"

lemma lexer_ok_readChar: "lexer_ok l \<Longrightarrow> lexer_ok (readChar l)"
  using DecodeRune_size [of "drop (readPosition l) (input l)"]
  by (auto simp: lexer_ok_def readChar_def split: prod.split)

lemma lexer_ok_core: "core l = core l' \<Longrightarrow> lexer_ok l = lexer_ok l'"
  by (simp add: core_def lexer_ok_def)

lemma lexer_ok_advances: "advances l l' \<Longrightarrow> lexer_ok l \<Longrightarrow> lexer_ok l' \<and> input l' = input l \<and> position l \<le> position l'"
proof (induction rule: advances.induct)
  case (adv_read l l')
  then have "position l' \<le> position (readChar l')"
    by (auto simp: lexer_ok_def readChar_def split: prod.split if_splits)
  moreover have "input (readChar l') = input l'" by (simp add: readChar_def split: prod.split)
  ultimately show ?case using adv_read lexer_ok_readChar by simp
next
  case (adv_other l l' l'')
  then show ?case using lexer_ok_core [of l'' l'] by (simp add: core_def)
qed simp

lemma lexer_ok_New: "lexer_ok (lexer_New inp)"
  using DecodeRune_size [of inp]
  by (auto simp: lexer_ok_def lexer_New_def readChar_def split: prod.split)


section \<open>Progress\<close>

definition lex_measure :: "lexer \<Rightarrow> nat" where
  "lex_measure l = 2 * left l + (if currentMode l = GeneralTokenizer then 0 else 1)"

lemma loops_mode:
  "singleLine_loop raw s l = (Some r, l') \<Longrightarrow> currentMode l' = GeneralTokenizer"
proof (induction raw s l rule: singleLine_loop.induct)
  case (1 raw s l)
  obtain out l1 where r: "readStringRune raw l = (out, l1)" by fastforce
  note IH = 1(1) [OF _ _ _ r [symmetric] refl]
  show ?case
    using 1(2) IH
    by (subst (asm) singleLine_loop.simps) (simp add: r switchMode_def setMode_def split: if_split_asm, auto)
qed

lemma multiLine_mode:
  "multiLine_loop raw s l = (Some r, l') \<Longrightarrow> currentMode l' = GeneralTokenizer"
proof (induction raw s l rule: multiLine_loop.induct)
  case (1 raw s l)
  obtain out l1 where r: "readStringRune raw l = (out, l1)" by fastforce
  note IH = 1(1) [OF _ _ _ r [symmetric] refl]
  show ?case
    using 1(2) IH
    by (subst (asm) multiLine_loop.simps) (simp add: r switchMode_def setMode_def split: if_split_asm, auto)
qed

lemma stringNextToken_mode:
  "stringNextToken m l = (t, l') \<Longrightarrow> tok_Type t \<noteq> ILLEGAL \<Longrightarrow> currentMode l' = GeneralTokenizer"
  by (auto simp: stringNextToken_def Let_def newToken_def split: mode.splits option.splits prod.splits
      dest: loops_mode multiLine_mode)

lemma NextToken_progress:
  assumes "NextToken U l = (t, l')" "tok_Type t \<noteq> EOF" "tok_Type t \<noteq> ILLEGAL"
  shows "lex_measure l' < lex_measure l"
proof (cases "currentMode l")
  case GeneralTokenizer
  then obtain l1 where "reads l l1" "general_step U l1 = Inr (t, l')"
    using assms(1) general_NextToken_step [of l U] by (auto simp: NextToken_def)
  then have "left l' < left l"
    using adv_general_step(2) [of U l1 t l'] assms left_advances [OF reads_advances] less_le_trans by blast
  then show ?thesis by (simp add: lex_measure_def)
next
  case (SingleLineStringTokenizer raw)
  then show ?thesis
    using assms stringNextToken_mode [of "currentMode l" l t l'] left_advances [OF adv_NextToken [OF assms(1)]]
    by (simp add: NextToken_def lex_measure_def)
next
  case (MultiLineStringTokenizer raw)
  then show ?thesis
    using assms stringNextToken_mode [of "currentMode l" l t l'] left_advances [OF adv_NextToken [OF assms(1)]]
    by (simp add: NextToken_def lex_measure_def)
qed

text \<open>The token stream up to and including the first EOF or illegal token.\<close>

fun tokenize :: "unicode \<Rightarrow> nat \<Rightarrow> lexer \<Rightarrow> Token list" where
  "tokenize U 0 l = []"
| "tokenize U (Suc n) l =
     (let (t, l') = NextToken U l
      in if tok_Type t = EOF \<or> tok_Type t = ILLEGAL then [t] else t # tokenize U n l')"

lemma tokenize_stops:
  "lex_measure l < n \<Longrightarrow> tokenize U n l \<noteq> [] \<and> tok_Type (last (tokenize U n l)) \<in> {EOF, ILLEGAL}"
proof (induction n arbitrary: l)
  case (Suc n)
  obtain t l' where t: "NextToken U l = (t, l')" by fastforce
  show ?case
  proof (cases "tok_Type t = EOF \<or> tok_Type t = ILLEGAL")
    case False
    then have "lex_measure l' < lex_measure l" using NextToken_progress [OF t] by blast
    then have "tokenize U n l' \<noteq> [] \<and> tok_Type (last (tokenize U n l')) \<in> {EOF, ILLEGAL}"
      using Suc by simp
    then show ?thesis using t False by simp
  qed (simp add: t)
qed simp

lemma lex_measure_New: "lex_measure (lexer_New inp) \<le> 4 * length inp + 2"
proof -
  have "left (lexer_New inp) \<le> 2 * length inp + 1"
    by (auto simp: lexer_New_def left_def readChar_def split: prod.split)
  moreover have "currentMode (lexer_New inp) = GeneralTokenizer"
    by (simp add: lexer_New_def readChar_def split: prod.split)
  ultimately show ?thesis by (simp add: lex_measure_def)
qed

section \<open>Newlines\<close>

lemma reads_frame:
  "reads l l' \<Longrightarrow> braceDepth l' = braceDepth l \<and> currentDelimiterBaseline l' = currentDelimiterBaseline l"
  by (induction rule: reads.induct)
     (auto simp: readChar_def currentDelimiterBaseline_def split: prod.split)

lemma LookupIdent_not_NEWLINE: "LookupIdent s \<noteq> NEWLINE"
  using LookupIdent_types [of s] by (auto simp: keyword_table_def)

lemma operatorToken_not_NEWLINE: "operatorToken l = Some (t, l') \<Longrightarrow> tok_Type t \<noteq> NEWLINE"
  unfolding operatorToken_def Let_def
  by (simp split: if_split_asm add: newToken_def handleCompoundToken_def handleCompoundToken2_def openBrace_def closeBrace_def
      closeMatchKeys_def periodOrEllipsis_def openDelimiter_def closeDelimiter_def Let_def
      split: prod.splits option.splits mode.splits) auto

lemma otherToken_not_NEWLINE: "otherToken U l = (t, l') \<Longrightarrow> tok_Type t \<noteq> NEWLINE"
  using operatorToken_not_NEWLINE [of l t] LookupIdent_not_NEWLINE
  unfolding otherToken_def Let_def
  by (auto simp: newToken_def identToken_def numberToken_def stringStart_def stringNextToken_def Let_def
      split: if_splits prod.splits option.splits sum.splits mode.splits)

lemma slashStep_not_NEWLINE: "slashStep l = Inr (t, l') \<Longrightarrow> tok_Type t \<noteq> NEWLINE"
  by (auto simp: slashStep_def newToken_def Let_def split: if_splits prod.splits option.splits sum.splits)

lemma NEWLINE_only_outside:
  assumes "currentMode l = GeneralTokenizer" "NextToken U l = (t, l')" "tok_Type t = NEWLINE"
  shows "case currentDelimiterBaseline l of None \<Rightarrow> True | Some b \<Rightarrow> b < braceDepth l"
proof -
  obtain l1 where l1: "reads l l1" "general_step U l1 = Inr (t, l')"
    using assms general_NextToken_step [of l U] by (auto simp: NextToken_def)
  then have "newlineStep l1 = Inr (t, l')"
    using assms(3) slashStep_not_NEWLINE otherToken_not_NEWLINE
    by (auto simp: general_step_def split: if_splits)
  then show ?thesis
    using reads_frame [OF l1(1)] by (auto simp: newlineStep_def Let_def split: option.splits if_splits)
qed


section \<open>String literals\<close>

text \<open>The lexer stands before the text \<open>s\<close>; for ASCII text it then reads byte by byte.\<close>

definition stands :: "lexer \<Rightarrow> string \<Rightarrow> bool" where
  "stands l s \<longleftrightarrow> lexer_ok l \<and> drop (position l) (input l) = s"

definition ascii :: "char \<Rightarrow> bool" where
  "ascii c \<longleftrightarrow> byte c < 128 \<and> byte c \<noteq> 0"

lemma byte_eq_iff [simp]: "byte c = byte d \<longleftrightarrow> c = d"
  by (simp add: byte_def)

lemma stands_Cons:
  assumes "stands l (c # s)" "ascii c"
  shows "ch l = byte c" "stands (readChar l) s" "position (readChar l) = Suc (position l)"
    "peekChar l = (if s = [] then 0 else fst (DecodeRune s))"
proof -
  have pos: "position l < length (input l)"
    using assms(1) by (metis stands_def drop_all leI list.distinct(1))
  have dec: "DecodeRune (drop (position l) (input l)) = (byte c, 1)"
    using assms by (simp add: stands_def ascii_def DecodeRune_ascii)
  then have *: "ch l = byte c" "readPosition l = Suc (position l)"
    using assms(1) pos by (auto simp: stands_def lexer_ok_def)
  have s: "s = drop (Suc (position l)) (input l)"
    using assms(1) by (metis drop_Suc list.sel(3) stands_def tl_drop)
  show "ch l = byte c" by (fact *)
  show p: "position (readChar l) = Suc (position l)"
    using * by (simp add: readChar_def split: prod.split)
  have "input (readChar l) = input l" by (simp add: readChar_def split: prod.split)
  then show "stands (readChar l) s"
    using assms(1) p s lexer_ok_readChar by (simp add: stands_def)
  show "peekChar l = (if s = [] then 0 else fst (DecodeRune s))"
    using * s by (simp add: peekChar_def)
qed

lemma EncodeRune_ascii_char: "ascii c \<Longrightarrow> EncodeRune (byte c) = [c]"
  by (simp add: ascii_def EncodeRune_byte)

lemma peek_ascii: "stands l (c # d # s) \<Longrightarrow> ascii c \<Longrightarrow> ascii d \<Longrightarrow> peekChar l = byte d"
  using stands_Cons(4) [of l c "d # s"] by (simp add: ascii_def DecodeRune_ascii)

definition escapeChar :: "char \<Rightarrow> string" where
  "escapeChar c =
     (if c = CHR 0x5C \<or> c = CHR 0x22 \<or> c = CHR ''{'' then [CHR 0x5C, c]
      else if c = CHR 0x0A then [CHR 0x5C, CHR ''n'']
      else if c = CHR 0x0D then [CHR 0x5C, CHR ''r'']
      else if c = CHR 0x09 then [CHR 0x5C, CHR ''t'']
      else [c])"

definition escape :: "string \<Rightarrow> string" where
  "escape w = concat (map escapeChar w)"

lemma ascii_consts [simp]:
  "ascii CHR 0x5C" "ascii CHR 0x22" "ascii CHR 0x27" "ascii CHR ''{''" "ascii CHR ''n''" "ascii CHR ''r''" "ascii CHR ''t''"
  by (simp_all add: ascii_def byte_def)

lemma ascii_byte [simp]: "ascii c \<Longrightarrow> 0 < byte c"
  by (simp add: ascii_def)

lemma ascii_nonzero: "ascii c \<Longrightarrow> byte c \<noteq> 0"
  by (simp add: ascii_def)

lemma readStringRune_escape:
  assumes "stands l (escapeChar c @ s)" "ascii c"
  shows "fst (readStringRune False l) = [c]" "stands (snd (readStringRune False l)) s"
    "ch l \<noteq> 0" "ch l \<noteq> byte CHR 0x22" "ch l \<noteq> byte CHR ''{''"
proof -
  have esc: "readEscape m = ([c], m)"
    if "ch m = byte d" "d = (if c = CHR 0x0A then CHR ''n'' else if c = CHR 0x0D then CHR ''r''
       else if c = CHR 0x09 then CHR ''t'' else c)"
      "c \<in> {CHR 0x5C, CHR 0x22, CHR ''{'', CHR 0x0A, CHR 0x0D, CHR 0x09}" for m d
    using that by (auto simp: readEscape_def)
  have "fst (readStringRune False l) = [c] \<and> stands (snd (readStringRune False l)) s
      \<and> ch l \<noteq> 0 \<and> ch l \<noteq> byte CHR 0x22 \<and> ch l \<noteq> byte CHR ''{''"
  proof (cases "c \<in> {CHR 0x5C, CHR 0x22, CHR ''{'', CHR 0x0A, CHR 0x0D, CHR 0x09}")
    case True
    define d where "d = (if c = CHR 0x0A then CHR ''n'' else if c = CHR 0x0D then CHR ''r''
       else if c = CHR 0x09 then CHR ''t'' else c)"
    have e: "escapeChar c = [CHR 0x5C, d]" and d: "ascii d"
      using True assms(2) by (auto simp: escapeChar_def d_def)
    have 1: "stands l (CHR 0x5C # d # s)" using assms(1) e by simp
    note a = stands_Cons [OF 1 ascii_consts(1)]
    note b = stands_Cons [OF a(2) d]
    have "readEscape (readChar l) = ([c], readChar l)"
      using esc [OF b(1) d_def True] .
    then show ?thesis
      using a(1) b(2) by (simp add: readStringRune_def)
  next
    case False
    then have e: "escapeChar c = [c]" by (auto simp: escapeChar_def)
    have 1: "stands l (c # s)" using assms(1) e by simp
    note a = stands_Cons [OF 1 assms(2)]
    show ?thesis
      using a(1,2) assms(2) False by (simp add: readStringRune_def EncodeRune_ascii_char)
  qed
  then show "fst (readStringRune False l) = [c]" "stands (snd (readStringRune False l)) s"
    "ch l \<noteq> 0" "ch l \<noteq> byte CHR 0x22" "ch l \<noteq> byte CHR ''{''" by blast+
qed

lemma stands_core: "core l = core l' \<Longrightarrow> stands l s = stands l' s"
  using lexer_ok_core [of l l'] by (simp add: stands_def core_def)

lemma singleLine_end:
  assumes "stands l (q # s)" "byte q = quote raw" "ascii q" "q \<noteq> CHR ''{''"
  shows "\<exists>l'. singleLine_loop raw r l = (Some r, l') \<and> stands l' s \<and> currentMode l' = GeneralTokenizer"
proof -
  note a = stands_Cons [OF assms(1,3)]
  let ?m = "setMode GeneralTokenizer (readChar l)"
  have "ch l \<noteq> 0" "ch l \<noteq> byte CHR ''{''" "ch l = quote raw"
    using assms(3,4) by (simp_all add: a(1) flip: assms(2))
  then have "singleLine_loop raw r l = (Some r, ?m)"
    by (subst singleLine_loop.simps) simp
  moreover have "stands ?m s" using a(2) stands_core [of ?m "readChar l"] by simp
  moreover have "currentMode ?m = GeneralTokenizer" by (simp add: setMode_def)
  ultimately show ?thesis by blast
qed

lemma singleLine_escape:
  "stands l (escape w @ CHR 0x22 # s) \<Longrightarrow> (\<forall>c\<in>set w. ascii c) \<Longrightarrow>
   \<exists>l'. singleLine_loop False r l = (Some (r @ w), l') \<and> stands l' s \<and> currentMode l' = GeneralTokenizer"
proof (induction w arbitrary: r l)
  case Nil
  then show ?case using singleLine_end [of l "CHR 0x22" s False r] by (simp add: escape_def quote_def)
next
  case (Cons c w)
  then have st: "stands l (escapeChar c @ (escape w @ CHR 0x22 # s))" and c: "ascii c"
    by (simp_all add: escape_def)
  note a = readStringRune_escape [OF st c]
  obtain l1 where l1: "readStringRune False l = ([c], l1)" using a(1) by (metis prod.collapse)
  have "singleLine_loop False r l = singleLine_loop False (r @ [c]) l1"
    using a(3-5) l1 by (subst singleLine_loop.simps) (simp add: quote_def)
  moreover have "stands l1 (escape w @ CHR 0x22 # s)" using a(2) l1 by simp
  ultimately show ?case using Cons.IH [of l1 "r @ [c]"] Cons.prems(2) by simp
qed

lemma singleLine_raw:
  "stands l (w @ CHR 0x27 # s) \<Longrightarrow> (\<forall>c\<in>set w. ascii c \<and> c \<noteq> CHR 0x27) \<Longrightarrow>
   \<exists>l'. singleLine_loop True r l = (Some (r @ w), l') \<and> stands l' s \<and> currentMode l' = GeneralTokenizer"
proof (induction w arbitrary: r l)
  case Nil
  then show ?case using singleLine_end [of l "CHR 0x27" s True r] by (simp add: quote_def)
next
  case (Cons c w)
  then have st: "stands l (c # (w @ CHR 0x27 # s))" and c: "ascii c" "c \<noteq> CHR 0x27" by simp_all
  note a = stands_Cons [OF st c(1)]
  have "readStringRune True l = ([c], readChar l)"
    using a(1) c by (simp add: readStringRune_def EncodeRune_ascii_char)
  moreover have "ch l \<noteq> 0" "ch l \<noteq> quote True" using a(1) c by (simp_all add: quote_def)
  ultimately have "singleLine_loop True r l = singleLine_loop True (r @ [c]) (readChar l)"
    by (subst singleLine_loop.simps) simp
  then show ?case using Cons.IH [of "readChar l" "r @ [c]"] a(2) Cons.prems(2) by simp
qed

lemma general_quote:
  assumes "currentMode l = GeneralTokenizer" "ch l = byte CHR 0x22 \<or> ch l = byte CHR 0x27"
  shows "NextToken U l = stringStart l"
proof -
  have "skipWhitespace l = l" using assms(2) by (subst skipWhitespace.simps) (auto simp: byte_def)
  moreover have "general_step U l = Inr (stringStart l)"
    using assms(2) by (auto simp: general_step_def otherToken_def)
  ultimately show ?thesis using assms(1) by (simp add: NextToken_def general_NextToken.simps)
qed

lemma string_token:
  assumes "currentMode l = GeneralTokenizer" "stands l (q # c # s)"
    and "q = (if raw then CHR 0x27 else CHR 0x22)" "ascii c" "c \<noteq> q"
    and loop: "\<And>m. stands m (c # s) \<Longrightarrow> \<exists>l'. singleLine_loop raw [] m = (Some w, l') \<and> stands l' rest
      \<and> currentMode l' = GeneralTokenizer"
  shows "\<exists>l'. NextToken U l = (Token STRING w (Suc (position l)), l') \<and> stands l' rest
      \<and> currentMode l' = GeneralTokenizer"
proof -
  have q: "ascii q" using assms(3) by simp
  note a = stands_Cons [OF assms(2) q]
  have pk: "peekChar l = byte c" using peek_ascii [OF assms(2) q assms(4)] .
  let ?m = "switchMode (SingleLineStringTokenizer raw) (readChar l)"
  have "stands ?m (c # s)" using a(2) stands_core [of ?m "readChar l"] by simp
  then obtain l' where l': "singleLine_loop raw [] ?m = (Some w, l')" "stands l' rest"
      "currentMode l' = GeneralTokenizer" using loop by blast
  have r: "(ch l \<noteq> byte CHR 0x22) = raw" "quote raw = byte q" using a(1) assms(3) by (auto simp: quote_def)
  have "stringStart l = stringNextToken (SingleLineStringTokenizer raw) ?m"
    using r pk assms(5) by (simp add: stringStart_def Let_def)
  also have "\<dots> = (Token STRING w (Suc (position l)), l')"
    using l'(1) a(3) by (simp add: stringNextToken_def Let_def switchMode_def)
  finally show ?thesis
    using l' general_quote [OF assms(1)] a(1) assms(3) by auto
qed


section \<open>Bytes literals\<close>

lemma peek2_ascii:
  assumes "stands l (c # d # e # s)" "ascii c" "ascii d" "ascii e"
  shows "peekTwoChars l = byte e"
proof -
  note a = stands_Cons [OF assms(1,2)]
  have st: "stands (readChar l) (d # e # s)" by (fact a(2))
  have "drop (readPosition l) (input l) = d # e # s"
    using a(2,3) by (simp add: stands_def readChar_def split: if_splits prod.splits)
  moreover from this have "readPosition l < length (input l)" by (metis drop_all leI list.distinct(1))
  moreover have "drop (Suc (readPosition l)) (input l) = e # s"
    using calculation(1) by (metis drop_Suc list.sel(3) tl_drop)
  moreover from this have "Suc (readPosition l) < length (input l)"
    by (metis drop_all leI list.distinct(1))
  ultimately show ?thesis
    using assms(3,4) by (simp add: peekTwoChars_def ascii_def DecodeRune_ascii Let_def)
qed

lemma digit_0: "isDigit U (byte CHR ''0'')" "ascii CHR ''0''" "ascii CHR ''x''"
  by (simp_all add: isDigit_def ascii_def byte_def)

lemma slice_stands:
  assumes "stands l (u @ v)" "stands l' v" "input l' = input l" "position l' = position l + length u"
  shows "slice l' (position l) (position l') = u"
  using assms by (simp add: slice_def stands_def)

lemma bytes_literal_general:
  assumes "currentMode l = GeneralTokenizer" "ch l = byte CHR ''0''" "peekChar l = byte CHR ''x''"
    "peekTwoChars l = byte CHR 0x22"
  shows "NextToken U l =
     (case readByteArrayLiteral l of
        (Some lit, l') \<Rightarrow> (Token BYTES lit (position l), l')
      | (None, l') \<Rightarrow> (Token ILLEGAL ''invalid bytes literal'' (position l), l'))"
proof -
  have "skipWhitespace l = l" using assms(2) by (subst skipWhitespace.simps) simp
  moreover have "operatorToken l = None" "\<not> isLetter U (ch l)"
    unfolding assms(2) by (simp_all add: operatorToken_def assms(2) isLetter_def) (simp_all add: byte_def)
  then have "general_step U l = Inr (numberToken U l)"
    using assms(2) digit_0 by (simp add: general_step_def otherToken_def)
  ultimately show ?thesis
    using assms by (simp add: NextToken_def general_NextToken.simps numberToken_def Let_def)
qed

lemma reads_input: "reads l l' \<Longrightarrow> input l' = input l"
  by (induction rule: reads.induct) (auto simp: readChar_def split: prod.split)

lemma bytes_first_unchecked:
  assumes "currentMode l = GeneralTokenizer" "stands l (''0x'' @ [CHR 0x22, a, b, CHR 0x22] @ s)"
    and a: "ascii a" "a \<noteq> CHR 0x22" and b: "isHexDigit (byte b)"
  shows "\<exists>l'. NextToken U l = (Token BYTES [a, b] (position l), l') \<and> stands l' s"
proof -
  have b': "ascii b" "b \<noteq> CHR 0x22" using b by (auto simp: isHexDigit_def ascii_def byte_def)
  have st0: "stands l (CHR ''0'' # CHR ''x'' # CHR 0x22 # a # b # CHR 0x22 # s)" using assms(2) by simp
  note p0 = stands_Cons [OF st0 digit_0(2)]
  note p1 = stands_Cons [OF p0(2) digit_0(3)]
  note p2 = stands_Cons [OF p1(2) ascii_consts(2)]
  note p3 = stands_Cons [OF p2(2) a(1)]
  note p4 = stands_Cons [OF p3(2) b'(1)]
  note p5 = stands_Cons [OF p4(2) ascii_consts(2)]
  let ?l3 = "readChar (readChar (readChar l))"
  let ?l5 = "readChar (readChar ?l3)"
  have "skipBytesLiteral ?l3 = skipBytesLiteral (readChar ?l3)"
    using p4(1) b b'(2) ascii_nonzero [OF b'(1)] by (subst skipBytesLiteral.simps) (simp add: Let_def)
  also have "\<dots> = (True, ?l5)"
    using p5(1) by (subst skipBytesLiteral.simps) (simp add: Let_def)
  finally have skip: "skipBytesLiteral ?l3 = (True, ?l5)" .
  have sl: "slice ?l5 (position ?l3) (position ?l5) = [a, b]"
    by (rule slice_stands [of ?l3 "[a, b]" "CHR 0x22 # s"])
       (use p2(2) p4(2) p3(3) p4(3) in \<open>simp_all add: reads_input [OF reads_power [of _ 2], simplified, unfolded numeral_2_eq_2, simplified]\<close>)
  have "readByteArrayLiteral l = (Some [a, b], readChar ?l5)"
    using p3(1) p5(1) a(2) skip sl by (simp add: readByteArrayLiteral_def Let_def)
  then show ?thesis
    using bytes_literal_general [OF assms(1) p0(1)] peek_ascii [OF st0 digit_0(2,3)]
      peek2_ascii [OF st0 digit_0(2,3) ascii_consts(2)] p5(2) by simp
qed

section \<open>Properties\<close>

text \<open>The witnesses take the tables with nothing beyond ASCII.\<close>

definition ascii_only :: unicode where
  "ascii_only = \<lparr>uni_letter = (\<lambda>_. False), uni_digit = (\<lambda>_. False)\<rparr>"

text \<open>C32: Position invariant: whatever token the lexer returns from a good state, the new state is
  good (its current rune is the one decoded at \<open>position\<close>, \<open>readPosition\<close> is the next
  boundary, both inside the input), the input is untouched and the position never goes
  back. The initial state is good.\<close>

theorem lexer_position_invariant:
  "lexer_ok (lexer_New inp)
   \<and> (lexer_ok l \<and> NextToken U l = (t, l')
      \<longrightarrow> lexer_ok l' \<and> input l' = input l \<and> position l \<le> position l')"
  using lexer_ok_New lexer_ok_advances adv_NextToken by blast

theorem lexer_position_invariant_witness:
  "lexer_ok (snd (NextToken ascii_only (lexer_New ''val x'')))"
proof -
  obtain t l' where t: "NextToken ascii_only (lexer_New ''val x'') = (t, l')" by fastforce
  show ?thesis
    using lexer_position_invariant [of "''val x''" "lexer_New ''val x''" ascii_only t l'] t by simp
qed

text \<open>C33: Lexing terminates: from the start of any input, reading tokens reaches an EOF or an illegal
  token after at most four tokens per byte and three more.\<close>

theorem lexer_terminates:
  "tokenize U (4 * length inp + 3) (lexer_New inp) \<noteq> []
   \<and> tok_Type (last (tokenize U (4 * length inp + 3) (lexer_New inp))) \<in> {EOF, ILLEGAL}"
  using lex_measure_New [of inp] by (intro tokenize_stops) simp

text \<open>C34: Newlines are white space inside parentheses and brackets: the general tokenizer returns a
  NEWLINE token only when no delimiter is open or a brace was opened since the innermost
  one.\<close>

theorem newline_only_outside_delimiters:
  assumes "currentMode l = GeneralTokenizer" "NextToken U l = (t, l')" "tok_Type t = NEWLINE"
  shows "case currentDelimiterBaseline l of None \<Rightarrow> True | Some b \<Rightarrow> b < braceDepth l"
  using assms by (rule NEWLINE_only_outside)

theorem newline_only_outside_delimiters_witness:
  "case currentDelimiterBaseline (lexer_New [CHR 0x0A]) of None \<Rightarrow> True | Some b \<Rightarrow> b < braceDepth (lexer_New [CHR 0x0A])"
proof -
  let ?l = "lexer_New [CHR 0x0A]"
  have c: "ch ?l = byte CHR 0x0A" "currentMode ?l = GeneralTokenizer" "currentDelimiterBaseline ?l = None"
    by (simp_all add: lexer_New_def readChar_def DecodeRune_def byte_def currentDelimiterBaseline_def)
  have "skipWhitespace ?l = ?l" using c(1) by (subst skipWhitespace.simps) simp
  moreover have "\<exists>t l'. general_step ascii_only ?l = Inr (t, l') \<and> tok_Type t = NEWLINE"
    using c by (simp add: general_step_def newlineStep_def Let_def split: prod.split)
  ultimately obtain t l' where "NextToken ascii_only ?l = (t, l')" "tok_Type t = NEWLINE"
    using c(2) by (auto simp: NextToken_def general_NextToken.simps)
  then show ?thesis using newline_only_outside_delimiters [OF c(2)] by blast
qed


text \<open>C35: String literals are read back: escaping any non-empty ASCII text without NUL and quoting it
  gives one STRING token with exactly that text, after which the lexer is in general mode
  and stands behind the closing quote.\<close>

theorem string_escape_roundtrip:
  assumes "currentMode l = GeneralTokenizer"
    and "stands l (CHR 0x22 # escape w @ CHR 0x22 # s)" "w \<noteq> []" "\<forall>c\<in>set w. ascii c"
  shows "\<exists>l'. NextToken U l = (Token STRING w (Suc (position l)), l') \<and> stands l' s
    \<and> currentMode l' = GeneralTokenizer"
proof -
  obtain a v where w: "w = a # v" using assms(3) by (cases w) auto
  have "ascii a" using assms(4) w by simp
  then have "hd (escapeChar a) \<noteq> CHR 0x22 \<and> ascii (hd (escapeChar a)) \<and> escapeChar a \<noteq> []"
    by (auto simp: escapeChar_def)
  then obtain c cs where c: "escape w = c # cs" "c \<noteq> CHR 0x22" "ascii c"
    using w by (cases "escapeChar a") (auto simp: escape_def)
  show ?thesis
    by (rule string_token [where raw = False and c = c and s = "cs @ CHR 0x22 # s"])
       (use assms c singleLine_escape [of _ w s "[]"] in auto)
qed

theorem string_escape_roundtrip_witness:
  "\<exists>l'. NextToken ascii_only (lexer_New (CHR 0x22 # escape ''a{b'' @ [CHR 0x22])) = (Token STRING ''a{b'' 1, l')
    \<and> stands l' [] \<and> currentMode l' = GeneralTokenizer"
  using string_escape_roundtrip [of "lexer_New (CHR 0x22 # escape ''a{b'' @ [CHR 0x22])" "''a{b''" "[]" ascii_only]
    lexer_ok_New [of "CHR 0x22 # escape ''a{b'' @ [CHR 0x22]"]
  by (simp add: stands_def lexer_New_def readChar_def DecodeRune_def byte_def ascii_def)

text \<open>
  Raw strings are verbatim: in single quotes every non-empty ASCII text without a quote is
  one STRING token with exactly that text; backslashes and double braces mean nothing.\<close>

theorem raw_string_verbatim:
  assumes "currentMode l = GeneralTokenizer"
    and "stands l (CHR 0x27 # w @ CHR 0x27 # s)" "w \<noteq> []" "\<forall>c\<in>set w. ascii c \<and> c \<noteq> CHR 0x27"
  shows "\<exists>l'. NextToken U l = (Token STRING w (Suc (position l)), l') \<and> stands l' s
    \<and> currentMode l' = GeneralTokenizer"
proof -
  obtain c cs where c: "w = c # cs" using assms(3) by (cases w) auto
  show ?thesis
    by (rule string_token [where raw = True and c = c and s = "cs @ CHR 0x27 # s"])
       (use assms c singleLine_raw [of _ w s "[]"] in auto)
qed

theorem raw_string_verbatim_witness:
  "\<exists>l'. NextToken ascii_only (lexer_New (CHR 0x27 # ''{{x'' @ [CHR 0x27])) = (Token STRING ''{{x'' 1, l')
    \<and> stands l' [] \<and> currentMode l' = GeneralTokenizer"
  using raw_string_verbatim [of "lexer_New (CHR 0x27 # ''{{x'' @ [CHR 0x27])" "''{{x''" "[]" ascii_only]
    lexer_ok_New [of "CHR 0x27 # ''{{x'' @ [CHR 0x27]"]
  by (simp add: stands_def lexer_New_def readChar_def DecodeRune_def byte_def ascii_def)

text \<open>
  The lexer gets stuck: in a string mode at the end of the input, and on a question mark that
  does not start three of them, \<open>NextToken\<close> returns an illegal token and the very same
  state, so that reading on never reaches EOF.\<close>

theorem lexer_stuck:
  assumes "(currentMode l \<noteq> GeneralTokenizer \<and> ch l = 0)
    \<or> (currentMode l = GeneralTokenizer \<and> ch l = byte CHR ''?''
       \<and> \<not> (peekChar l = byte CHR ''?'' \<and> peekTwoChars l = byte CHR ''?''))"
  shows "NextToken U l = (newToken ILLEGAL (ch l) (position l), l)"
  using assms
proof
  assume "currentMode l \<noteq> GeneralTokenizer \<and> ch l = 0"
  then show ?thesis
    by (cases "currentMode l")
       (auto simp: NextToken_def stringNextToken_def singleLine_loop.simps multiLine_loop.simps)
next
  assume q: "currentMode l = GeneralTokenizer \<and> ch l = byte CHR ''?''
       \<and> \<not> (peekChar l = byte CHR ''?'' \<and> peekTwoChars l = byte CHR ''?'')"
  then have "skipWhitespace l = l" by (subst skipWhitespace.simps) simp
  moreover have "general_step U l = Inr (newToken ILLEGAL (ch l) (position l), l)"
    using q by (auto simp: general_step_def otherToken_def Let_def)
  ultimately show ?thesis using q by (simp add: NextToken_def general_NextToken.simps)
qed

theorem lexer_stuck_witness:
  "NextToken ascii_only (lexer_New ''?'') = (Token ILLEGAL ''?'' 0, lexer_New ''?'')"
proof -
  have "ch (lexer_New ''?'') = byte CHR ''?''" "currentMode (lexer_New ''?'') = GeneralTokenizer"
    "peekChar (lexer_New ''?'') = 0" "position (lexer_New ''?'') = 0"
    by (simp_all add: lexer_New_def readChar_def DecodeRune_def byte_def peekChar_def)
  then show ?thesis
    using lexer_stuck [of "lexer_New ''?''" ascii_only] EncodeRune_byte [of "CHR ''?''"]
    by (simp add: newToken_def byte_def)
qed

text \<open>
  A bytes literal does not check its first digit: the two bytes after the opening quote are
  returned as a BYTES token whatever ASCII byte other than the quote comes first, as long as
  the second is a hexadecimal digit.\<close>

theorem bytes_literal_first_unchecked:
  assumes "currentMode l = GeneralTokenizer" "stands l (''0x'' @ [CHR 0x22, a, b, CHR 0x22] @ s)"
    and "ascii a" "a \<noteq> CHR 0x22" and "isHexDigit (byte b)"
  shows "\<exists>l'. NextToken U l = (Token BYTES [a, b] (position l), l') \<and> stands l' s"
  using assms by (rule bytes_first_unchecked)

theorem bytes_literal_first_unchecked_witness:
  "\<exists>l'. NextToken ascii_only (lexer_New (''0x'' @ [CHR 0x22, CHR ''Z'', CHR ''1'', CHR 0x22])) = (Token BYTES ''Z1'' 0, l')
    \<and> stands l' []"
  using bytes_literal_first_unchecked [of "lexer_New (''0x'' @ [CHR 0x22, CHR ''Z'', CHR ''1'', CHR 0x22])"
      "CHR ''Z''" "CHR ''1''" "[]" ascii_only]
    lexer_ok_New [of "''0x'' @ [CHR 0x22, CHR ''Z'', CHR ''1'', CHR 0x22]"]
  by (simp add: stands_def lexer_New_def readChar_def DecodeRune_def byte_def ascii_def isHexDigit_def)

text \<open>
  The lexer's UTF-8 round trip: the bytes written for any Unicode scalar value decode to that
  value and its length, whatever follows.\<close>

theorem utf8_roundtrip:
  "valid_rune r \<Longrightarrow> DecodeRune (EncodeRune r @ s) = (r, length (EncodeRune r))"
  by (rule DecodeRune_EncodeRune)

theorem utf8_roundtrip_witness:
  "DecodeRune (EncodeRune 0x1F40C @ ''!'') = (0x1F40C, length (EncodeRune 0x1F40C))"
  by (rule utf8_roundtrip) (simp add: valid_rune_def)

end
