(* ===== verification/Ast.thy ===== *)
theory Ast
  imports Token Dec64
begin

text \<open>
  \<open>internal/ast/ast.go\<close>: the syntax tree. Each Go struct behind the \<open>Statement\<close>,
  \<open>Expression\<close> and \<open>MatchPattern\<close> interfaces is a constructor with the struct's fields in
  order; helper structs are datatypes of their own, parametric in what they hold. A nil
  interface value is \<open>NoExpr\<close>, \<open>NoStmt\<close> or \<open>NoPattern\<close>, a nil pointer is \<open>None\<close>. The pairs of a
  map literal, a Go map, are listed in the order in which Go iterates them.
\<close>

datatype FSig = FSig (sig_Tags: string) (sig_Min: int) (sig_Max: int) (sig_IsVariadic: bool)

datatype Identifier = Identifier (id_Token: Token) (id_Value: string)

datatype DeferMode = DeferAlways | DeferOnSuccess | DeferOnError

datatype SelectCaseType = SelectRecv | SelectSend | SelectAfter | SelectAwait | SelectDefault

datatype 'e Tag = Tag (tag_Token: Token) (tag_Name: string) (tag_Args: "'e list")

datatype 'e FunctionParameter =
  FunctionParameter (fp_Tags: "'e Tag list") (fp_Name: Identifier) (fp_Type: string)
    (fp_Default: 'e) (fp_IsVariadic: bool)

datatype ('s, 'e) BlockStatement =
  BlockStatement (bs_Token: Token) (bs_Statements: "'s list") (bs_IsNursery: bool) (bs_Limit: 'e)

datatype ('e, 'p, 'b) MatchCase =
  MatchCase (mc_Token: Token) (mc_Pattern: 'p) (mc_Guard: 'e) (mc_Body: "'b option")

datatype 'e SelectCase =
  SelectCase (sc_Token: Token) (sc_Kind: SelectCaseType) (sc_Channel: 'e) (sc_Value: 'e)
    (sc_After: 'e) (sc_Await: 'e) (sc_Handler: 'e)

datatype 'e StructField =
  StructField (sf_Token: Token) (sf_Name: string) (sf_Type: string) (sf_Default: 'e)

datatype 'e StructInitField =
  StructInitField (si_Token: Token) (si_Name: string) (si_Value: 'e)

datatype ('e, 'p) MapPatternEntry = MapPatternEntry (me_Key: 'e) (me_Pattern: 'p)

datatype 'p StructPatternField = StructPatternField (spf_Name: string) (spf_Pattern: 'p)

datatype (plugins only: code size) expr =
  NoExpr
| VarExpression "expr Tag list" Token pattern string expr string bool
| ValExpression "expr Tag list" Token pattern string expr string bool
| IdentifierExpr Identifier
| SymbolLiteral Token string
| Boolean Token bool
| NilLiteral Token
| NumberLiteral Token dec64
| PrefixExpression Token string expr
| InfixExpression Token expr string expr
| IfExpression Token expr "(stmt, expr) BlockStatement option" "(stmt, expr) BlockStatement option"
| FunctionLiteral Token "string list" FSig "expr FunctionParameter list" string
    "(stmt, expr) BlockStatement option" bool
| TypeApplicationExpression Token expr "string list"
| RecurExpression Token "expr list"
| SpawnExpression Token expr
| AwaitExpression Token expr
| CallExpression Token expr "expr list" bool
| NamedArgument Token Identifier expr
| BytesLiteral Token string
| StringLiteral Token string
| ListLiteral Token "expr list"
| IndexExpression Token expr expr bool
| SliceExpression Token expr expr expr
| MapLiteral Token "(expr \<times> expr) list"
| StructSchemaExpression Token "expr StructField list"
| StructInitExpression Token expr "expr StructInitField list"
| StructCopyExpression Token expr expr
| MatchExpression Token expr "(expr, pattern, (stmt, expr) BlockStatement) MatchCase list"
| SelectExpression Token "expr SelectCase list"
| BlockExpr "(stmt, expr) BlockStatement"
| SpreadExpression Token expr
| NotImplemented Token
and stmt =
  NoStmt
| ExpressionStatement Token expr
| ReturnStatement Token expr
| ThrowStatement Token expr
| DeferStatement Token stmt DeferMode "Identifier option"
| BlockStmt "(stmt, expr) BlockStatement"
| ForeignFunctionDeclaration "expr Tag list" Token Identifier "string list" "expr FunctionParameter list"
    string FSig string bool
and pattern =
  NoPattern
| BindingPattern Token "Identifier option" pattern
| AllPattern Token
| WildcardPattern Token
| SpreadPattern Token "Identifier option"
| LiteralPattern Token expr
| IdentifierPattern Token Identifier
| PinnedIdentifierPattern Token Identifier
| MultiPattern Token "pattern list"
| ListPattern Token "pattern list"
| MapPattern Token "(expr, pattern) MapPatternEntry list" pattern bool bool
| StructPattern Token Identifier "pattern StructPatternField list"

end
