(* ===== verification/Bytecode.thy ===== *)
theory Bytecode
  imports Ast
begin

text \<open>
  \<open>internal/vm/bytecode.go\<close> and the compile-time part of \<open>internal/vm/function.go\<close>: opcodes,
  instructions, chunks, and the constants the compiler stores in them. A constant is one of
  the objects the compiler creates; of a \<open>VMFunction\<close> it sets the fields kept here, the name,
  the tags and the closure are set at run time.
\<close>

datatype (plugins only: code size) Opcode =
  OpConstant | OpNil | OpTrue | OpFalse | OpGetGlobal | OpSetGlobalConst | OpSetGlobalVar
  | OpSetDoc | OpBindMapAllConst | OpBindMapAllVar | OpAssignGlobal | OpArray | OpHash
  | OpStructSchema | OpStructInit | OpStructCopy | OpSlice | OpIndex | OpIndexDot
  | OpMapHasKey | OpDup | OpSpawn | OpAwait | OpListPrepend | OpListAppend
  | OpMatchListEmpty | OpMatchListHeadTail | OpMatchSeqLenEq | OpMatchSeqLenGte
  | OpMatchSeqTail | OpMatchMapLenEq | OpMatchMapLenGte | OpMatchMapBindRemainder
  | OpMatchStructSchema | OpDefer | OpPushScope | OpPopScope | OpAdd | OpSub | OpMul
  | OpDiv | OpMod | OpEqual | OpNotEqual | OpGreaterThan | OpGreaterThanEqual | OpLessThan
  | OpLessThanEqual | OpBitAnd | OpBitOr | OpBitXor | OpShiftLeft | OpShiftRight | OpBang
  | OpNegate | OpBitNot | OpApplyTags | OpPop | OpJump | OpJumpIfFalse | OpCall | OpSelect
  | OpRecur | OpThrow | OpReturn

datatype CallArgKind = CallArgPositional | CallArgNamed | CallArgSpread

datatype CallArgSpec = CallArgSpec (ca_Kind: CallArgKind) (ca_Name: string)

datatype SelectCaseSpec =
  SelectCaseSpec (ss_Kind: SelectCaseType) (ss_TokenPos: nat) (ss_ChannelFn: int) (ss_ValueFn: int)
    (ss_AfterFn: int) (ss_AwaitFn: int) (ss_HandlerFn: int)

datatype Instruction =
  Instruction (Op: Opcode) (IntArg: int) (StrArg: string) (StrArg2: string)
    (CallPlan: "CallArgSpec list") (Select: "SelectCaseSpec list") (Position: nat)

text \<open>A field of a struct schema; \<open>FieldIndex\<close> of the Go schema is the position in the list.\<close>

datatype StructSchemaField =
  StructSchemaField (ssf_Name: string) (ssf_Type: string) (ssf_Default: expr) (ssf_Tags: "expr Tag list")

datatype 'c VMParam =
  VMParam (vp_Name: string) (vp_IsVariadic: bool) (vp_Default: "'c option") (vp_Tags: "expr Tag list")

datatype Constant =
  NumberConst dec64
| StringConst string
| BytesConst string
| SymbolConst string
| SchemaConst "StructSchemaField list"
| FunctionConst VMFunction
and Chunk = Chunk (Instructions: "Instruction list") (Constants: "Constant list")
and VMFunction =
  VMFunction (fn_TypeParams: "string list") (fn_Params: "Chunk VMParam list")
    (fn_ParamIndex: "(string \<times> nat) list") (fn_ReturnType: string) (fn_Chunk: Chunk)
    (fn_Signature: FSig) (fn_Parameters: "expr FunctionParameter list")

text \<open>Instructions with the arguments the compiler gives them, the others zero.\<close>

definition ins :: "Opcode \<Rightarrow> nat \<Rightarrow> Instruction" where
  "ins op pos = Instruction op 0 [] [] [] [] pos"

definition ins_int :: "Opcode \<Rightarrow> int \<Rightarrow> nat \<Rightarrow> Instruction" where
  "ins_int op n pos = Instruction op n [] [] [] [] pos"

definition ins_str :: "Opcode \<Rightarrow> string \<Rightarrow> nat \<Rightarrow> Instruction" where
  "ins_str op s pos = Instruction op 0 s [] [] [] pos"

definition set_IntArg :: "int \<Rightarrow> Instruction \<Rightarrow> Instruction" where
  "set_IntArg n i = Instruction (Op i) n (StrArg i) (StrArg2 i) (CallPlan i) (Select i) (Position i)"

definition set_StrArg :: "string \<Rightarrow> Instruction \<Rightarrow> Instruction" where
  "set_StrArg s i = Instruction (Op i) (IntArg i) s (StrArg2 i) (CallPlan i) (Select i) (Position i)"

end
