(* ===== verification/Compiler.thy ===== *)
theory Compiler
  imports Bytecode
begin

text \<open>
  \<open>internal/vm/compiler.go\<close>: the bytecode compiler. The Go methods of \<open>compiler\<close> mutate the
  chunk under construction and return an error; here each is a computation from the chunk
  to an error message or a result and the new chunk. \<open>emit\<close> and \<open>addConstant\<close> return the
  index, as in Go. The lists of pending jumps that Go appends to through a pointer are
  returned.
\<close>

section \<open>Compiler computations\<close>

type_synonym 'a cm = "Chunk \<Rightarrow> string + 'a \<times> Chunk"

definition cret :: "'a \<Rightarrow> 'a cm" where
  "cret a c = Inr (a, c)"

definition cfail :: "string \<Rightarrow> 'a cm" where
  "cfail e c = Inl e"

definition cbind :: "'a cm \<Rightarrow> ('a \<Rightarrow> 'b cm) \<Rightarrow> 'b cm" where
  "cbind m f c = (case m c of Inl e \<Rightarrow> Inl e | Inr (a, c') \<Rightarrow> f a c')"

definition cthen :: "'a cm \<Rightarrow> 'b cm \<Rightarrow> 'b cm" where
  "cthen m n = cbind m (\<lambda>_. n)"

fun cseq :: "unit cm list \<Rightarrow> unit cm" where
  "cseq [] = cret ()"
| "cseq (m # ms) = cthen m (cseq ms)"

definition emit :: "Instruction \<Rightarrow> nat cm" where
  "emit i c = Inr (length (Instructions c), Chunk (Instructions c @ [i]) (Constants c))"

definition emitI :: "Instruction \<Rightarrow> unit cm" where
  "emitI i = cthen (emit i) (cret ())"

definition addConstant :: "Constant \<Rightarrow> nat cm" where
  "addConstant k c = Inr (length (Constants c), Chunk (Instructions c) (Constants c @ [k]))"

definition emitConstant :: "Constant \<Rightarrow> nat \<Rightarrow> unit cm" where
  "emitConstant k pos = cbind (addConstant k) (\<lambda>i. emitI (ins_int OpConstant (int i) pos))"

definition emitName :: "Opcode \<Rightarrow> string \<Rightarrow> nat \<Rightarrow> unit cm" where
  "emitName op s pos = emitI (ins_str op s pos)"

definition emitNumberConstant :: "nat \<Rightarrow> nat \<Rightarrow> unit cm" where
  "emitNumberConstant pos n = emitConstant (NumberConst (FromInt (int n))) pos"

text \<open>\<open>patchJump(at, len(c.chunk.Instructions))\<close>: every call of the source patches to here.\<close>

definition patchJump :: "nat \<Rightarrow> nat \<Rightarrow> unit cm" where
  "patchJump j target c =
     Inr ((), Chunk ((Instructions c)[j := set_IntArg (int target) (Instructions c ! j)]) (Constants c))"

definition patchHere :: "nat \<Rightarrow> unit cm" where
  "patchHere j c = patchJump j (length (Instructions c)) c"

definition patchAllHere :: "nat list \<Rightarrow> unit cm" where
  "patchAllHere js = cseq (map patchHere js)"

text \<open>\<open>child := &compiler{chunk: &Chunk{}}\<close>: compile into a chunk of its own.\<close>

definition childChunk :: "unit cm \<Rightarrow> Chunk cm" where
  "childChunk m c = (case m (Chunk [] []) of Inl e \<Rightarrow> Inl e | Inr (_, ch) \<Rightarrow> Inr (ch, c))"

section \<open>Messages and names\<close>

definition err_at :: "nat \<Rightarrow> string \<Rightarrow> string" where
  "err_at pos msg = ''vm compile error at '' @ show_nat pos @ '': '' @ msg"

text \<open>\<open>%T\<close> of a node.\<close>

definition expr_type :: "expr \<Rightarrow> string" where
  "expr_type e =
     (case e of
        NoExpr \<Rightarrow> ''<nil>''
      | NamedArgument _ _ _ \<Rightarrow> ''*ast.NamedArgument''
      | SpreadExpression _ _ \<Rightarrow> ''*ast.SpreadExpression''
      | NotImplemented _ \<Rightarrow> ''*ast.NotImplemented''
      | _ \<Rightarrow> ''*ast.Expression'')"

definition stmt_type :: "stmt \<Rightarrow> string" where
  "stmt_type s =
     (case s of
        NoStmt \<Rightarrow> ''<nil>''
      | ExpressionStatement _ _ \<Rightarrow> ''*ast.ExpressionStatement''
      | ReturnStatement _ _ \<Rightarrow> ''*ast.ReturnStatement''
      | ThrowStatement _ _ \<Rightarrow> ''*ast.ThrowStatement''
      | DeferStatement _ _ _ _ \<Rightarrow> ''*ast.DeferStatement''
      | BlockStmt _ \<Rightarrow> ''*ast.BlockStatement''
      | ForeignFunctionDeclaration _ _ _ _ _ _ _ _ _ \<Rightarrow> ''*ast.ForeignFunctionDeclaration'')"

definition pattern_type :: "pattern \<Rightarrow> string" where
  "pattern_type p =
     (case p of
        NoPattern \<Rightarrow> ''<nil>''
      | BindingPattern _ _ _ \<Rightarrow> ''*ast.BindingPattern''
      | AllPattern _ \<Rightarrow> ''*ast.AllPattern''
      | WildcardPattern _ \<Rightarrow> ''*ast.WildcardPattern''
      | SpreadPattern _ _ \<Rightarrow> ''*ast.SpreadPattern''
      | LiteralPattern _ _ \<Rightarrow> ''*ast.LiteralPattern''
      | IdentifierPattern _ _ \<Rightarrow> ''*ast.IdentifierPattern''
      | PinnedIdentifierPattern _ _ \<Rightarrow> ''*ast.PinnedIdentifierPattern''
      | MultiPattern _ _ \<Rightarrow> ''*ast.MultiPattern''
      | ListPattern _ _ \<Rightarrow> ''*ast.ListPattern''
      | MapPattern _ _ _ _ _ \<Rightarrow> ''*ast.MapPattern''
      | StructPattern _ _ _ \<Rightarrow> ''*ast.StructPattern'')"

definition unsupportedNodeErr :: "string \<Rightarrow> string \<Rightarrow> string" where
  "unsupportedNodeErr kind t = ''vm compile error: unsupported '' @ kind @ '' node '' @ t"

definition listShapeErr :: "nat \<Rightarrow> string" where
  "listShapeErr pos = err_at pos ''unsupported list pattern shape''"

definition mapEntryErr :: "pattern \<Rightarrow> string" where
  "mapEntryErr p = ''vm compile error: unsupported map entry pattern '' @ pattern_type p"

definition structFieldErr :: "pattern \<Rightarrow> string" where
  "structFieldErr p = ''vm compile error: unsupported struct field pattern '' @ pattern_type p"

fun join_with :: "string \<Rightarrow> string list \<Rightarrow> string" where
  \<comment> \<open>\<open>strings.Join\<close>\<close>
  "join_with sep [] = []"
| "join_with sep [s] = s"
| "join_with sep (s # ss) = s @ sep @ join_with sep ss"

definition encodeTagNames :: "expr Tag list \<Rightarrow> string" where
  "encodeTagNames tags = join_with '','' (filter (\<lambda>n. n \<noteq> []) (map tag_Name tags))"

definition mapPatternKeyName :: "expr \<Rightarrow> string" where
  "mapPatternKeyName key =
     (case key of
        IdentifierExpr i \<Rightarrow> id_Value i | SymbolLiteral _ v \<Rightarrow> v | StringLiteral _ v \<Rightarrow> v | _ \<Rightarrow> [])"

definition isSimpleTypeIdent :: "string \<Rightarrow> bool" where
  "isSimpleTypeIdent s =
     (let alpha = (\<lambda>c. (97 \<le> byte c \<and> byte c \<le> 122) \<or> (65 \<le> byte c \<and> byte c \<le> 90) \<or> c = CHR ''_'')
      in (case s of
            [] \<Rightarrow> False
          | c # cs \<Rightarrow> alpha c \<and> (\<forall>d\<in>set cs. alpha d \<or> (48 \<le> byte d \<and> byte d \<le> 57))))"

definition structFieldTagsFromType :: "string \<Rightarrow> expr Tag list" where
  "structFieldTagsFromType raw =
     (let decl = TrimSpace raw; noTok = Token [] [] 0
      in if decl = [] \<or> CHR ''|'' \<in> set decl then []
         else
           (let ident = (if CHR ''<'' \<in> set decl then TrimSpace (takeWhile (\<lambda>c. c \<noteq> CHR ''<'') decl) else decl)
            in if ident \<in> {''num'', ''str'', ''bool'', ''list'', ''map'', ''bytes'', ''sym'', ''fn'', ''chan'', ''task'', ''struct''}
               then [Tag noTok (CHR ''@'' # ident) []]
               else if isSimpleTypeIdent ident
               then [Tag noTok ''@struct'' [IdentifierExpr (Identifier (Token IDENT ident 0) ident)]]
               else []))"

fun schemaFields :: "string list \<Rightarrow> expr StructField list \<Rightarrow> string + StructSchemaField list" where
  "schemaFields seen [] = Inr []"
| "schemaFields seen (f # fs) =
     (if sf_Name f \<in> set seen
      then Inl (err_at (tok_Position (sf_Token f)) (''duplicate struct field: '' @ sf_Name f))
      else
        (case schemaFields (sf_Name f # seen) fs of
           Inl e \<Rightarrow> Inl e
         | Inr gs \<Rightarrow>
             Inr (StructSchemaField (sf_Name f) (sf_Type f) (sf_Default f)
                    (structFieldTagsFromType (sf_Type f)) # gs)))"

definition infixOpcode :: "string \<Rightarrow> Opcode option" where
  "infixOpcode op =
     map_of
       [(''+'', OpAdd), (''+:'', OpListPrepend), ('':+'', OpListAppend), (''-'', OpSub), (''*'', OpMul),
        (''/'', OpDiv), (''%'', OpMod), (''=='', OpEqual), (''!='', OpNotEqual),
        (''>'', OpGreaterThan), (''>='', OpGreaterThanEqual), (''<'', OpLessThan), (''<='', OpLessThanEqual),
        (''&'', OpBitAnd), (''|'', OpBitOr), (''^'', OpBitXor), (''<<'', OpShiftLeft), (''>>'', OpShiftRight)] op"

definition prefixOpcode :: "string \<Rightarrow> Opcode option" where
  "prefixOpcode op = map_of [(''!'', OpBang), (''-'', OpNegate), (''~'', OpBitNot)] op"

definition singleElementListLiteral :: "expr \<Rightarrow> expr option" where
  "singleElementListLiteral e =
     (case e of
        ListLiteral _ [x] \<Rightarrow> (case x of SpreadExpression _ _ \<Rightarrow> None | _ \<Rightarrow> Some x)
      | _ \<Rightarrow> None)"

definition no_expr :: "expr \<Rightarrow> bool" where
  "no_expr e = (case e of NoExpr \<Rightarrow> True | _ \<Rightarrow> False)"

definition no_pattern :: "pattern \<Rightarrow> bool" where
  "no_pattern p = (case p of NoPattern \<Rightarrow> True | _ \<Rightarrow> False)"

definition is_wildcard :: "pattern \<Rightarrow> bool" where
  "is_wildcard p = (case p of WildcardPattern _ \<Rightarrow> True | _ \<Rightarrow> False)"

definition scopeLimit :: "(stmt, expr) BlockStatement \<Rightarrow> string + int" where
  "scopeLimit b =
     (let pos = tok_Position (bs_Token b) in
      if \<not> bs_IsNursery b then Inr 0
      else if no_expr (bs_Limit b) then Inr (- 1)
      else
        (case bs_Limit b of
           NumberLiteral _ v \<Rightarrow>
             (if ToInt64 v < 1 then Inl (err_at pos ''nursery limit must be >= 1'') else Inr (ToInt64 v))
         | _ \<Rightarrow> Inl (err_at pos ''nursery limit must be a numeric literal'')))"

definition deferModeInt :: "DeferMode \<Rightarrow> int" where
  "deferModeInt m = (case m of DeferAlways \<Rightarrow> 0 | DeferOnSuccess \<Rightarrow> 1 | DeferOnError \<Rightarrow> 2)"

text \<open>The loop that looks for a spread among the elements of a list pattern.\<close>

fun findSpread :: "nat \<Rightarrow> nat \<Rightarrow> nat \<Rightarrow> (nat \<times> Identifier option) option \<Rightarrow> pattern list
    \<Rightarrow> string + (nat \<times> Identifier option) option" where
  "findSpread pos n i acc [] = Inr acc"
| "findSpread pos n i acc (el # els) =
     (case el of
        SpreadPattern _ v \<Rightarrow>
          (if acc \<noteq> None then Inl (err_at pos ''list pattern supports only one spread'')
           else if i + 1 \<noteq> n then Inl (err_at pos ''spread (...) must be final element in list pattern'')
           else findSpread pos n (i + 1) (Some (i, v)) els)
      | _ \<Rightarrow> findSpread pos n (i + 1) acc els)"

definition noFunction :: "Chunk \<Rightarrow> string list \<Rightarrow> Constant" where
  \<comment> \<open>the \<open>VMFunction\<close> of a thunk with the given parameter names\<close>
  "noFunction ch params =
     FunctionConst (VMFunction [] (map (\<lambda>n. VMParam n False None []) params) [] [] ch (FSig [] 0 0 False) [])"


section \<open>Statements and blocks\<close>

lemma size_bs_Statements: "size_list size (bs_Statements b) < size_BlockStatement size size b"
  by (cases b) simp

text \<open>
  The compiler recurses through expressions. Each method below that can reach
  \<open>compileExpression\<close> takes it as its first argument \<open>ce\<close>, and \<open>compileExpression\<close> is the fixed
  point (the last section).
\<close>

definition emitThunk :: "unit cm \<Rightarrow> string list \<Rightarrow> nat \<Rightarrow> nat cm" where
  \<comment> \<open>a child compiler's code and its \<open>OpReturn\<close>, as a function constant\<close>
  "emitThunk m params pos =
     cbind (childChunk (cthen m (emitI (ins OpReturn pos)))) (\<lambda>ch. addConstant (noFunction ch params))"

function compileStatement :: "(expr \<Rightarrow> unit cm) \<Rightarrow> stmt \<Rightarrow> unit cm"
  and compileDeferBody :: "(expr \<Rightarrow> unit cm) \<Rightarrow> nat \<Rightarrow> stmt \<Rightarrow> unit cm"
  and compileBlock :: "(expr \<Rightarrow> unit cm) \<Rightarrow> (stmt, expr) BlockStatement option \<Rightarrow> unit cm"
  and compileBlockStmts :: "(expr \<Rightarrow> unit cm) \<Rightarrow> stmt list \<Rightarrow> unit cm" where
  "compileStatement ce (ExpressionStatement t e) = cthen (ce e) (emitI (ins OpPop (tok_Position t)))"
| "compileStatement ce (ReturnStatement t e) = cthen (ce e) (emitI (ins OpReturn (tok_Position t)))"
| "compileStatement ce (DeferStatement t call mode name) =
     cbind (emitThunk (compileDeferBody ce (tok_Position t) call) [] (tok_Position t)) (\<lambda>i.
     cseq [emitI (ins_int OpConstant (int i) (tok_Position t)),
           emitI (Instruction OpDefer (deferModeInt mode) (case name of None \<Rightarrow> [] | Some n \<Rightarrow> id_Value n)
                    [] [] [] (tok_Position t)),
           emitI (ins OpNil (tok_Position t))])"
| "compileStatement ce (ThrowStatement t e) = cthen (ce e) (emitI (ins OpThrow (tok_Position t)))"
| "compileStatement ce NoStmt = cfail (unsupportedNodeErr ''statement'' (stmt_type NoStmt))"
| "compileStatement ce (BlockStmt b) = cfail (unsupportedNodeErr ''statement'' (stmt_type (BlockStmt b)))"
| "compileStatement ce (ForeignFunctionDeclaration a b c d e f g h i) =
     cfail (unsupportedNodeErr ''statement'' (stmt_type (ForeignFunctionDeclaration a b c d e f g h i)))"
| "compileDeferBody ce pos call =
     (case call of
        NoStmt \<Rightarrow> emitI (ins OpNil pos)
      | ExpressionStatement _ e \<Rightarrow> ce e
      | BlockStmt b \<Rightarrow> compileBlock ce (Some b)
      | s \<Rightarrow> compileStatement ce s)"
| "compileBlock ce None = emitI (ins OpNil 0)"
| "compileBlock ce (Some b) =
     (case scopeLimit b of
        Inl e \<Rightarrow> cfail e
      | Inr limit \<Rightarrow>
          (let pos = tok_Position (bs_Token b) in
           cseq [emitI (ins_int OpPushScope limit pos),
                 if bs_Statements b = [] then emitI (ins OpNil pos) else compileBlockStmts ce (bs_Statements b),
                 emitI (ins OpPopScope pos)]))"
| "compileBlockStmts ce [] = cret ()"
| "compileBlockStmts ce (s # ss) =
     (case s of
        ExpressionStatement t e \<Rightarrow>
          cseq [ce e,
                if ss = [] then cret () else emitI (ins OpPop (tok_Position t)),
                compileBlockStmts ce ss]
      | _ \<Rightarrow>
          cseq [compileStatement ce s,
                if ss = [] then cret () else emitI (ins OpPop 0),
                compileBlockStmts ce ss])"
  by pat_completeness auto
termination
  by (relation "measure (\<lambda>x. case x of
        Inl (Inl (ce, s)) \<Rightarrow> 3 * size s
      | Inl (Inr (ce, pos, s)) \<Rightarrow> 3 * size s + 1
      | Inr (Inl (ce, b)) \<Rightarrow> (case b of None \<Rightarrow> 0 | Some b' \<Rightarrow> 3 * size_BlockStatement size size b')
      | Inr (Inr (ce, ss)) \<Rightarrow> 3 * size_list size ss)")
    (auto simp: size_bs_Statements)

section \<open>Binding patterns\<close>

definition setOp :: "bool \<Rightarrow> Opcode" where
  "setOp isConst = (if isConst then OpSetGlobalConst else OpSetGlobalVar)"

text \<open>\<open>compileBindPattern(&ast.IdentifierPattern{Value: v}, isConst, pos)\<close>.\<close>

definition bindIdent :: "Identifier \<Rightarrow> bool \<Rightarrow> nat \<Rightarrow> unit cm" where
  "bindIdent v isConst pos = emitName (setOp isConst) (id_Value v) pos"

definition compileMapPatternKey :: "(expr \<Rightarrow> unit cm) \<Rightarrow> expr \<Rightarrow> nat \<Rightarrow> unit cm" where
  "compileMapPatternKey ce key pos =
     (case key of
        IdentifierExpr i \<Rightarrow> emitConstant (SymbolConst (id_Value i)) pos
      | SymbolLiteral _ v \<Rightarrow> emitConstant (SymbolConst v) pos
      | StringLiteral _ v \<Rightarrow> emitConstant (StringConst v) pos
      | _ \<Rightarrow> ce key)"

definition mapSpreadErr :: "pattern \<Rightarrow> bool" where
  "mapSpreadErr spread =
     (case spread of NoPattern \<Rightarrow> False | SpreadPattern _ None \<Rightarrow> False | _ \<Rightarrow> True)"

text \<open>
  \<open>compileBindPattern\<close> and its loops over the entries of a map pattern, the elements of a list
  pattern (\<open>n\<close> of them, from the \<open>i\<close>-th on) and the fields of a struct pattern.
\<close>

function compileBindPattern :: "(expr \<Rightarrow> unit cm) \<Rightarrow> pattern \<Rightarrow> bool \<Rightarrow> nat \<Rightarrow> unit cm"
  and bindPairs :: "(expr \<Rightarrow> unit cm) \<Rightarrow> (expr, pattern) MapPatternEntry list \<Rightarrow> bool \<Rightarrow> nat \<Rightarrow> unit cm"
  and bindElems :: "(expr \<Rightarrow> unit cm) \<Rightarrow> nat \<Rightarrow> nat \<Rightarrow> pattern list \<Rightarrow> bool \<Rightarrow> nat \<Rightarrow> unit cm"
  and bindFields :: "(expr \<Rightarrow> unit cm) \<Rightarrow> pattern StructPatternField list \<Rightarrow> bool \<Rightarrow> nat \<Rightarrow> unit cm" where
  "compileBindPattern ce p isConst pos =
     (case p of
        IdentifierPattern _ v \<Rightarrow> bindIdent v isConst pos
      | BindingPattern _ name q \<Rightarrow>
          (case name of
             None \<Rightarrow> cfail (err_at pos ''binding pattern missing name'')
           | Some v \<Rightarrow>
               cseq [emitI (ins OpDup pos), emitName (setOp isConst) (id_Value v) pos, emitI (ins OpPop pos),
                     compileBindPattern ce q isConst pos])
      | MapPattern _ pairs spread exact selectAll \<Rightarrow>
          (if exact then cfail (err_at pos ''exact map patterns are not yet supported'')
           else if mapSpreadErr spread
           then cfail (err_at pos ''spread map binding capture is not yet supported'')
           else
             cseq [if selectAll then emitI (ins (if isConst then OpBindMapAllConst else OpBindMapAllVar) pos)
                   else cret (),
                   bindPairs ce pairs isConst pos])
      | ListPattern _ els \<Rightarrow> bindElems ce (length els) 0 els isConst pos
      | StructPattern _ _ fields \<Rightarrow> bindFields ce fields isConst pos
      | _ \<Rightarrow> cfail (err_at pos (''unsupported binding pattern '' @ pattern_type p)))"
| "bindPairs ce [] isConst pos = cret ()"
| "bindPairs ce (MapPatternEntry key q # es) isConst pos =
     (if no_pattern q then bindPairs ce es isConst pos
      else
        cseq [emitI (ins OpDup pos), compileMapPatternKey ce key pos, emitI (ins OpIndex pos),
              compileBindPattern ce q isConst pos, emitI (ins OpPop pos),
              bindPairs ce es isConst pos])"
| "bindElems ce n i [] isConst pos = cret ()"
| "bindElems ce n i (el # els) isConst pos =
     (case el of
        SpreadPattern _ v \<Rightarrow>
          (if i + 1 \<noteq> n
           then cfail (err_at pos ''spread (...) must be final element in list binding pattern'')
           else
             (case v of
                None \<Rightarrow> cret ()
              | Some x \<Rightarrow>
                  cseq [emitI (ins OpDup pos), emitNumberConstant pos i, emitI (ins OpNil pos),
                        emitI (ins OpNil pos), emitI (ins OpSlice pos), bindIdent x isConst pos,
                        emitI (ins OpPop pos)]))
      | WildcardPattern _ \<Rightarrow> bindElems ce n (i + 1) els isConst pos
      | q \<Rightarrow>
          cseq [emitI (ins OpDup pos), emitNumberConstant pos i, emitI (ins OpIndex pos),
                compileBindPattern ce q isConst pos, emitI (ins OpPop pos),
                bindElems ce n (i + 1) els isConst pos])"
| "bindFields ce [] isConst pos = cret ()"
| "bindFields ce (StructPatternField name q # fs) isConst pos =
     (if no_pattern q then bindFields ce fs isConst pos
      else
        cseq [emitI (ins OpDup pos), emitConstant (SymbolConst name) pos, emitI (ins OpIndexDot pos),
              compileBindPattern ce q isConst pos, emitI (ins OpPop pos),
              bindFields ce fs isConst pos])"
  by pat_completeness auto
termination
  by (relation "measure (\<lambda>x. case x of
        Inl (Inl (ce, p, c, pos)) \<Rightarrow> 2 * size p
      | Inl (Inr (ce, es, c, pos)) \<Rightarrow> 2 * size_list (size_MapPatternEntry size size) es + 1
      | Inr (Inl (ce, n, i, els, c, pos)) \<Rightarrow> 2 * size_list size els + 1
      | Inr (Inr (ce, fs, c, pos)) \<Rightarrow> 2 * size_list (size_StructPatternField size) fs + 1)")
    auto

section \<open>Match patterns against a value\<close>

text \<open>The length check of a list pattern (\<open>n\<close> elements, the spread at \<open>spread\<close>).\<close>

definition emitLenCheck :: "(nat \<times> Identifier option) option \<Rightarrow> nat \<Rightarrow> nat \<Rightarrow> unit cm" where
  "emitLenCheck spread n pos =
     (case spread of
        Some (i, _) \<Rightarrow> emitI (ins_int OpMatchSeqLenGte (int i) pos)
      | None \<Rightarrow> emitI (ins_int OpMatchSeqLenEq (int n) pos))"

definition emitMapLenCheck :: "nat \<Rightarrow> pattern \<Rightarrow> bool \<Rightarrow> bool \<Rightarrow> nat \<Rightarrow> unit cm" where
  "emitMapLenCheck n spread selectAll exact pos =
     (if exact then emitI (ins_int OpMatchMapLenEq (int n) pos)
      else if n > 0 then emitI (ins_int OpMatchMapLenGte (int n) pos)
      else if \<not> no_pattern spread \<or> selectAll then emitI (ins_int OpMatchMapLenGte 0 pos)
      else emitI (ins_int OpMatchMapLenEq 0 pos))"

definition emitJump :: "Opcode \<Rightarrow> nat \<Rightarrow> nat list cm" where
  "emitJump op pos = cbind (emit (ins op pos)) (\<lambda>j. cret [j])"

definition capp :: "nat list cm \<Rightarrow> nat list cm \<Rightarrow> nat list cm" where
  \<comment> \<open>two computations, the pending jumps of both\<close>
  "capp m n = cbind m (\<lambda>js. cbind n (\<lambda>ks. cret (js @ ks)))"

text \<open>The comparison of the value on the stack with a pinned name or a literal.\<close>

definition comparePinned :: "Identifier \<Rightarrow> nat \<Rightarrow> nat list cm" where
  "comparePinned v pos =
     cthen (emitName OpGetGlobal (id_Value v) pos)
       (cthen (emitI (ins OpEqual pos)) (emitJump OpJumpIfFalse pos))"

definition compareLiteral :: "(expr \<Rightarrow> unit cm) \<Rightarrow> expr \<Rightarrow> nat \<Rightarrow> nat list cm" where
  "compareLiteral ce e pos =
     cthen (ce e) (cthen (emitI (ins OpEqual pos)) (emitJump OpJumpIfFalse pos))"

definition bindPop :: "Identifier \<Rightarrow> nat \<Rightarrow> nat list cm" where
  "bindPop v pos = cthen (bindIdent v True pos) (cthen (emitI (ins OpPop pos)) (cret []))"

text \<open>Checking that a map has the key of an entry, then its value on the stack.\<close>

definition entryKey :: "(expr \<Rightarrow> unit cm) \<Rightarrow> expr \<Rightarrow> nat \<Rightarrow> nat list cm" where
  "entryKey ce key pos =
     cthen (cseq [emitI (ins OpDup pos), compileMapPatternKey ce key pos, emitI (ins OpMapHasKey pos)])
       (cbind (emitJump OpJumpIfFalse pos) (\<lambda>js.
        cthen (cseq [emitI (ins OpDup pos), compileMapPatternKey ce key pos, emitI (ins OpIndex pos)])
          (cret js)))"

function compileListPatternFromValue :: "(expr \<Rightarrow> unit cm) \<Rightarrow> pattern list \<Rightarrow> nat \<Rightarrow> nat list cm"
  and listElems :: "(expr \<Rightarrow> unit cm) \<Rightarrow> (nat \<times> Identifier option) option \<Rightarrow> nat \<Rightarrow> pattern list \<Rightarrow> nat \<Rightarrow> nat list cm"
  and compileMapPatternFromValue :: "(expr \<Rightarrow> unit cm) \<Rightarrow> (expr, pattern) MapPatternEntry list \<Rightarrow> pattern
      \<Rightarrow> bool \<Rightarrow> bool \<Rightarrow> nat \<Rightarrow> nat list cm"
  and mapEntries :: "(expr \<Rightarrow> unit cm) \<Rightarrow> (expr, pattern) MapPatternEntry list \<Rightarrow> nat \<Rightarrow> nat list cm"
  and subPattern :: "(expr \<Rightarrow> unit cm) \<Rightarrow> string \<Rightarrow> pattern \<Rightarrow> nat \<Rightarrow> nat list cm" where
  "compileListPatternFromValue ce els pos =
     (case findSpread pos (length els) 0 None els of
        Inl e \<Rightarrow> cfail e
      | Inr spread \<Rightarrow>
          cbind (capp (cthen (cseq [emitI (ins OpDup pos), emitLenCheck spread (length els) pos])
                          (emitJump OpJumpIfFalse pos))
                      (listElems ce spread 0 els pos)) (\<lambda>local.
          cthen (emitI (ins OpPop pos))
            (cbind (emit (ins OpJump pos)) (\<lambda>done.
             cthen (patchAllHere local)
               (cthen (emitI (ins OpPop pos))
                 (cbind (emit (ins OpJump pos)) (\<lambda>fail.
                  cthen (patchHere done) (cret [fail]))))))))"
| "listElems ce spread i [] pos = cret []"
| "listElems ce spread i (el # els) pos =
     (if (case spread of Some (k, _) \<Rightarrow> i = k | None \<Rightarrow> False)
      then
        (case spread of
           Some (k, Some v) \<Rightarrow>
             cthen (cseq [emitI (ins OpDup pos), emitI (ins_int OpMatchSeqTail (int k) pos)]) (bindPop v pos)
         | _ \<Rightarrow> cret [])
      else
        (if is_wildcard el then listElems ce spread (i + 1) els pos
         else
           cthen (cseq [emitI (ins OpDup pos), emitNumberConstant pos i, emitI (ins OpIndex pos)])
             (capp (subPattern ce (listShapeErr pos) el pos)
                (listElems ce spread (i + 1) els pos))))"
| "compileMapPatternFromValue ce pairs spread selectAll exact pos =
     cbind (capp (cthen (cseq [emitI (ins OpDup pos), emitMapLenCheck (length pairs) spread selectAll exact pos])
                     (emitJump OpJumpIfFalse pos))
                 (cthen (if selectAll then emitI (ins OpBindMapAllConst pos) else cret ())
                     (mapEntries ce pairs pos))) (\<lambda>js.
     cthen (emitI (ins OpPop pos)) (cret js))"
| "mapEntries ce [] pos = cret []"
| "mapEntries ce (MapPatternEntry key q # es) pos =
     capp (entryKey ce key pos)
       (capp (subPattern ce (mapEntryErr q) q pos)
          (mapEntries ce es pos))"
| "subPattern ce err p pos =
     (case p of
        IdentifierPattern _ v \<Rightarrow> bindPop v pos
      | PinnedIdentifierPattern _ v \<Rightarrow> comparePinned v pos
      | LiteralPattern _ e \<Rightarrow> compareLiteral ce e pos
      | MapPattern _ pairs sp exact selectAll \<Rightarrow> compileMapPatternFromValue ce pairs sp selectAll exact pos
      | ListPattern _ els \<Rightarrow> compileListPatternFromValue ce els pos
      | _ \<Rightarrow> cfail err)"
  by pat_completeness auto
termination
  by (relation "measure (\<lambda>x. case x of
        Inl (Inl (ce, els, pos)) \<Rightarrow> 3 * size_list size els + 1
      | Inl (Inr (ce, sp, i, els, pos)) \<Rightarrow> 3 * size_list size els
      | Inr (Inl (ce, es, sp, sa, ex, pos)) \<Rightarrow> 3 * size_list (size_MapPatternEntry size size) es + 1
      | Inr (Inr (Inl (ce, es, pos))) \<Rightarrow> 3 * size_list (size_MapPatternEntry size size) es
      | Inr (Inr (Inr (ce, err, p, pos))) \<Rightarrow> 3 * size p)")
    auto

section \<open>Match expressions\<close>

definition bindWhole :: "Identifier option \<Rightarrow> nat \<Rightarrow> unit cm" where
  "bindWhole whole pos =
     (case whole of
        None \<Rightarrow> cret ()
      | Some v \<Rightarrow> cseq [emitI (ins OpDup pos), bindIdent v True pos, emitI (ins OpPop pos)])"

definition compileGuard :: "(expr \<Rightarrow> unit cm) \<Rightarrow> expr \<Rightarrow> nat \<Rightarrow> nat list cm" where
  "compileGuard ce guard pos =
     (if no_expr guard then cret [] else cthen (ce guard) (emitJump OpJumpIfFalse pos))"

text \<open>
  The end of a case that opened a scope: guard, body and jump to the end of the match, then the
  place where the pending jumps go. The result is the jump to the end.
\<close>

definition scopedTail :: "(expr \<Rightarrow> unit cm) \<Rightarrow> nat list \<Rightarrow> expr \<Rightarrow> (stmt, expr) BlockStatement option
    \<Rightarrow> nat \<Rightarrow> nat list cm" where
  "scopedTail ce fails guard body pos =
     cbind (compileGuard ce guard pos) (\<lambda>gs.
     cthen (cseq [emitI (ins OpPop pos), compileBlock ce body, emitI (ins OpPopScope pos)])
       (cbind (emitJump OpJump pos) (\<lambda>js.
        cthen (patchAllHere (fails @ gs))
          (cthen (emitI (ins OpPopScope pos)) (cret js)))))"

definition unscopedTail :: "(expr \<Rightarrow> unit cm) \<Rightarrow> nat list \<Rightarrow> expr \<Rightarrow> (stmt, expr) BlockStatement option
    \<Rightarrow> nat \<Rightarrow> nat list cm" where
  "unscopedTail ce fails guard body pos =
     cbind (compileGuard ce guard pos) (\<lambda>gs.
     cthen (cseq [emitI (ins OpPop pos), compileBlock ce body])
       (cbind (emitJump OpJump pos) (\<lambda>js.
        cthen (patchAllHere (gs @ fails)) (cret js))))"

definition matchIdentifierCase :: "(expr \<Rightarrow> unit cm) \<Rightarrow> Identifier option \<Rightarrow> Identifier \<Rightarrow> expr
    \<Rightarrow> (stmt, expr) BlockStatement option \<Rightarrow> nat \<Rightarrow> nat list cm" where
  "matchIdentifierCase ce whole v guard body pos =
     cthen (cseq [emitI (ins OpPushScope pos), bindWhole whole pos, emitI (ins OpDup pos),
                  bindIdent v True pos, emitI (ins OpPop pos)])
       (if no_expr guard
        then cthen (cseq [emitI (ins OpPop pos), compileBlock ce body, emitI (ins OpPopScope pos)])
               (emitJump OpJump pos)
        else scopedTail ce [] guard body pos)"

definition matchListCase :: "(expr \<Rightarrow> unit cm) \<Rightarrow> Identifier option \<Rightarrow> pattern list \<Rightarrow> expr
    \<Rightarrow> (stmt, expr) BlockStatement option \<Rightarrow> nat \<Rightarrow> nat list cm" where
  "matchListCase ce whole els guard body pos =
     (case findSpread pos (length els) 0 None els of
        Inl e \<Rightarrow> cfail e
      | Inr spread \<Rightarrow>
          cbind (capp (cthen (cseq [emitI (ins OpPushScope pos), bindWhole whole pos, emitI (ins OpDup pos),
                                    emitLenCheck spread (length els) pos])
                        (emitJump OpJumpIfFalse pos))
                      (listElems ce spread 0 els pos)) (\<lambda>fails.
          scopedTail ce fails guard body pos))"

text \<open>The patterns that the entries of a match case's own map and struct patterns allow.\<close>

definition leafPattern :: "(expr \<Rightarrow> unit cm) \<Rightarrow> string \<Rightarrow> pattern \<Rightarrow> nat \<Rightarrow> nat list cm" where
  "leafPattern ce err p pos =
     (case p of
        IdentifierPattern _ v \<Rightarrow> bindPop v pos
      | PinnedIdentifierPattern _ v \<Rightarrow> comparePinned v pos
      | LiteralPattern _ e \<Rightarrow> compareLiteral ce e pos
      | _ \<Rightarrow> cfail err)"

fun matchMapEntries :: "(expr \<Rightarrow> unit cm) \<Rightarrow> (expr, pattern) MapPatternEntry list \<Rightarrow> nat \<Rightarrow> nat list cm" where
  "matchMapEntries ce [] pos = cret []"
| "matchMapEntries ce (MapPatternEntry key q # es) pos =
     capp (entryKey ce key pos)
       (capp (leafPattern ce (mapEntryErr q) q pos)
          (matchMapEntries ce es pos))"

definition bindRemainder :: "pattern \<Rightarrow> string list \<Rightarrow> nat \<Rightarrow> unit cm" where
  "bindRemainder spread keys pos =
     (let bind = (\<lambda>v. cseq [emitI (ins OpDup pos),
                            emitI (Instruction OpMatchMapBindRemainder 0 (id_Value v) (join_with '','' keys) [] [] pos),
                            emitI (ins OpPop pos)])
      in (case spread of
            SpreadPattern _ (Some v) \<Rightarrow> bind v
          | IdentifierPattern _ v \<Rightarrow> bind v
          | _ \<Rightarrow> cret ()))"

definition matchMapCase :: "(expr \<Rightarrow> unit cm) \<Rightarrow> Identifier option \<Rightarrow> (expr, pattern) MapPatternEntry list
    \<Rightarrow> pattern \<Rightarrow> bool \<Rightarrow> bool \<Rightarrow> expr \<Rightarrow> (stmt, expr) BlockStatement option \<Rightarrow> nat \<Rightarrow> nat list cm" where
  "matchMapCase ce whole pairs spread selectAll exact guard body pos =
     cbind (capp (cthen (cseq [emitI (ins OpPushScope pos), bindWhole whole pos, emitI (ins OpDup pos),
                               emitMapLenCheck (length pairs) spread selectAll exact pos])
                   (emitJump OpJumpIfFalse pos))
                 (cthen (if selectAll then emitI (ins OpBindMapAllConst pos) else cret ())
                    (matchMapEntries ce pairs pos))) (\<lambda>fails.
     cthen (bindRemainder spread (filter (\<lambda>k. k \<noteq> []) (map (\<lambda>e. mapPatternKeyName (me_Key e)) pairs)) pos)
       (scopedTail ce fails guard body pos))"

fun structFields :: "(expr \<Rightarrow> unit cm) \<Rightarrow> pattern StructPatternField list \<Rightarrow> nat \<Rightarrow> nat list cm" where
  "structFields ce [] pos = cret []"
| "structFields ce (StructPatternField name q # fs) pos =
     cthen (cseq [emitI (ins OpDup pos), emitConstant (SymbolConst name) pos, emitI (ins OpIndex pos)])
       (capp (leafPattern ce (structFieldErr q) q pos)
          (structFields ce fs pos))"

definition matchStructCase :: "(expr \<Rightarrow> unit cm) \<Rightarrow> Identifier option \<Rightarrow> Identifier
    \<Rightarrow> pattern StructPatternField list \<Rightarrow> expr \<Rightarrow> (stmt, expr) BlockStatement option \<Rightarrow> nat \<Rightarrow> nat list cm" where
  "matchStructCase ce whole schema fields guard body pos =
     cbind (capp (cthen (cseq [emitI (ins OpPushScope pos), bindWhole whole pos, emitI (ins OpDup pos),
                               emitName OpMatchStructSchema (id_Value schema) pos])
                   (emitJump OpJumpIfFalse pos))
                 (structFields ce fields pos)) (\<lambda>fails.
     scopedTail ce fails guard body pos)"

definition compilePatternValue :: "(expr \<Rightarrow> unit cm) \<Rightarrow> pattern \<Rightarrow> unit cm" where
  "compilePatternValue ce p =
     (case p of
        LiteralPattern _ e \<Rightarrow> ce e
      | PinnedIdentifierPattern t v \<Rightarrow> emitName OpGetGlobal (id_Value v) (tok_Position t)
      | MultiPattern _ _ \<Rightarrow> cfail ''vm compile error: multi pattern requires special case lowering''
      | _ \<Rightarrow> cfail (''vm compile error: unsupported match pattern '' @ pattern_type p))"

text \<open>The alternatives of a multi pattern; the result lists the jumps taken on a match.\<close>

fun multiPatterns :: "(expr \<Rightarrow> unit cm) \<Rightarrow> pattern list \<Rightarrow> nat \<Rightarrow> nat list cm" where
  "multiPatterns ce [] pos = cret []"
| "multiPatterns ce (p # ps) pos =
     cthen (cseq [emitI (ins OpDup pos), compilePatternValue ce p, emitI (ins OpEqual pos)])
       (cbind (emit (ins OpJumpIfFalse pos)) (\<lambda>jf.
        cthen (emitI (ins OpTrue pos))
          (cbind (emitJump OpJump pos) (\<lambda>js.
           cthen (patchHere jf)
             (cbind (multiPatterns ce ps pos) (\<lambda>ks. cret (js @ ks)))))))"

definition matchMultiCase :: "(expr \<Rightarrow> unit cm) \<Rightarrow> pattern list \<Rightarrow> expr
    \<Rightarrow> (stmt, expr) BlockStatement option \<Rightarrow> nat \<Rightarrow> nat list cm" where
  "matchMultiCase ce ps guard body pos =
     (if ps = [] then cfail (err_at pos ''empty multi pattern'')
      else
        cbind (multiPatterns ce ps pos) (\<lambda>matched.
        cthen (emitI (ins OpFalse pos))
          (cthen (patchAllHere matched)
            (cbind (emitJump OpJumpIfFalse pos) (\<lambda>next.
             unscopedTail ce next guard body pos)))))"

definition matchValueCase :: "(expr \<Rightarrow> unit cm) \<Rightarrow> pattern \<Rightarrow> expr
    \<Rightarrow> (stmt, expr) BlockStatement option \<Rightarrow> nat \<Rightarrow> nat list cm" where
  "matchValueCase ce p guard body pos =
     cthen (cseq [emitI (ins OpDup pos), compilePatternValue ce p, emitI (ins OpEqual pos)])
       (cbind (emitJump OpJumpIfFalse pos) (\<lambda>next. unscopedTail ce next guard body pos))"

definition matchPatternCase :: "(expr \<Rightarrow> unit cm) \<Rightarrow> Identifier option \<Rightarrow> pattern \<Rightarrow> expr
    \<Rightarrow> (stmt, expr) BlockStatement option \<Rightarrow> nat \<Rightarrow> nat list cm" where
  "matchPatternCase ce whole pat guard body pos =
     (case pat of
        WildcardPattern _ \<Rightarrow> unscopedTail ce [] guard body pos
      | IdentifierPattern _ v \<Rightarrow> matchIdentifierCase ce whole v guard body pos
      | ListPattern _ els \<Rightarrow> matchListCase ce whole els guard body pos
      | MapPattern _ pairs spread exact selectAll \<Rightarrow>
          matchMapCase ce whole pairs spread selectAll exact guard body pos
      | StructPattern _ schema fields \<Rightarrow> matchStructCase ce whole schema fields guard body pos
      | MultiPattern _ ps \<Rightarrow> matchMultiCase ce ps guard body pos
      | _ \<Rightarrow> matchValueCase ce pat guard body pos)"

definition wholeBinding :: "pattern \<Rightarrow> Identifier option \<times> pattern" where
  "wholeBinding p = (case p of BindingPattern _ name q \<Rightarrow> (name, q) | _ \<Rightarrow> (None, p))"

definition compileMatchCase :: "(expr \<Rightarrow> unit cm)
    \<Rightarrow> (expr, pattern, (stmt, expr) BlockStatement) MatchCase \<Rightarrow> nat list cm" where
  "compileMatchCase ce cs =
     (case wholeBinding (mc_Pattern cs) of
        (whole, pat) \<Rightarrow>
          matchPatternCase ce whole pat (mc_Guard cs) (mc_Body cs) (tok_Position (mc_Token cs)))"

fun compileMatchCases :: "(expr \<Rightarrow> unit cm)
    \<Rightarrow> (expr, pattern, (stmt, expr) BlockStatement) MatchCase list \<Rightarrow> nat list cm" where
  "compileMatchCases ce [] = cret []"
| "compileMatchCases ce (cs # css) = capp (compileMatchCase ce cs) (compileMatchCases ce css)"

definition compileMatchExpression :: "(expr \<Rightarrow> unit cm) \<Rightarrow> nat \<Rightarrow> expr
    \<Rightarrow> (expr, pattern, (stmt, expr) BlockStatement) MatchCase list \<Rightarrow> unit cm" where
  "compileMatchExpression ce pos value cases =
     (if no_expr value
      then cfail (err_at pos ''pipeline-style match without explicit value is not yet supported'')
      else if cases = [] then cfail (err_at pos ''match requires at least one case'')
      else
        cthen (ce value)
          (cbind (compileMatchCases ce cases) (\<lambda>ends.
           cseq [emitI (ins OpPop pos), emitI (ins OpNil pos), patchAllHere ends])))"

section \<open>Calls, select and functions\<close>

text \<open>
  The arguments of a call or \<open>recur\<close>: the result is the call plan. A positional or spread
  argument after a named one is an error.
\<close>

definition positionalErr :: "nat \<Rightarrow> string" where
  "positionalErr pos = err_at pos ''positional arguments must appear before named arguments''"

definition callArg :: "expr \<Rightarrow> CallArgSpec \<times> expr" where
  "callArg arg =
     (case arg of
        NamedArgument _ name e \<Rightarrow> (CallArgSpec CallArgNamed (id_Value name), e)
      | SpreadExpression _ e \<Rightarrow> (CallArgSpec CallArgSpread [], e)
      | _ \<Rightarrow> (CallArgSpec CallArgPositional [], arg))"

definition callArgPos :: "nat \<Rightarrow> expr \<Rightarrow> nat" where
  "callArgPos pos arg = (case arg of SpreadExpression t _ \<Rightarrow> tok_Position t | _ \<Rightarrow> pos)"

fun compileArgs :: "(expr \<Rightarrow> unit cm) \<Rightarrow> nat \<Rightarrow> bool \<Rightarrow> expr list \<Rightarrow> CallArgSpec list cm" where
  "compileArgs ce pos sawNamed [] = cret []"
| "compileArgs ce pos sawNamed (arg # args) =
     (case callArg arg of
        (spec, e) \<Rightarrow>
          (if sawNamed \<and> ca_Kind spec \<noteq> CallArgNamed then cfail (positionalErr (callArgPos pos arg))
           else
             cthen (ce e) (cbind (compileArgs ce pos (sawNamed \<or> ca_Kind spec = CallArgNamed) args) (\<lambda>plan.
             cret (spec # plan)))))"

definition compileRecur :: "(expr \<Rightarrow> unit cm) \<Rightarrow> Opcode \<Rightarrow> nat \<Rightarrow> expr list \<Rightarrow> unit cm" where
  \<comment> \<open>the arguments and the final instruction of a call or \<open>recur\<close>\<close>
  "compileRecur ce op pos args =
     cbind (compileArgs ce pos False args) (\<lambda>plan.
     emitI (Instruction op (int (length args)) [] [] plan [] pos))"

definition compileCall :: "(expr \<Rightarrow> unit cm) \<Rightarrow> nat \<Rightarrow> expr \<Rightarrow> expr list \<Rightarrow> unit cm" where
  "compileCall ce pos f args = cthen (ce f) (compileRecur ce OpCall pos args)"

text \<open>
  The handler of a \<open>select\<close> case is compiled as the match or call that the source builds, with
  the received value \<open>__select_value\<close> as subject or first argument.
\<close>

definition selectHandlerBody :: "(expr \<Rightarrow> unit cm) \<Rightarrow> expr \<Rightarrow> nat \<Rightarrow> unit cm" where
  "selectHandlerBody ce h pos =
     (let value = IdentifierExpr (Identifier (Token IDENT ''__select_value'' pos) ''__select_value'')
      in (case h of
            MatchExpression t v cases \<Rightarrow>
              (if no_expr v then compileMatchExpression ce (tok_Position t) value cases
               else cfail (err_at pos ''select case match handler must be subjectless''))
          | CallExpression t f args _ \<Rightarrow> compileCall ce (tok_Position t) f (value # args)
          | _ \<Rightarrow> compileCall ce pos h [value]))"

definition compileSelectCase :: "(expr \<Rightarrow> unit cm) \<Rightarrow> expr SelectCase \<Rightarrow> SelectCaseSpec cm" where
  "compileSelectCase ce cs =
     (let pos = tok_Position (sc_Token cs);
          expr_fn = (\<lambda>e. emitThunk (ce e) [] pos);
          handler = (\<lambda>spec.
            if no_expr (sc_Handler cs) then cret (spec (- 1))
            else cbind (emitThunk (selectHandlerBody ce (sc_Handler cs) pos) [''__select_value''] pos)
                   (\<lambda>h. cret (spec (int h))));
          spec = SelectCaseSpec (sc_Kind cs) pos
      in (case sc_Kind cs of
            SelectRecv \<Rightarrow> cbind (expr_fn (sc_Channel cs)) (\<lambda>ch. handler (spec (int ch) (- 1) (- 1) (- 1)))
          | SelectSend \<Rightarrow>
              cbind (expr_fn (sc_Channel cs)) (\<lambda>ch.
              cbind (expr_fn (sc_Value cs)) (\<lambda>v. handler (spec (int ch) (int v) (- 1) (- 1))))
          | SelectAfter \<Rightarrow> cbind (expr_fn (sc_After cs)) (\<lambda>a. handler (spec (- 1) (- 1) (int a) (- 1)))
          | SelectAwait \<Rightarrow> cbind (expr_fn (sc_Await cs)) (\<lambda>a. handler (spec (- 1) (- 1) (- 1) (int a)))
          | SelectDefault \<Rightarrow> handler (spec (- 1) (- 1) (- 1) (- 1))))"

fun compileSelectCases :: "(expr \<Rightarrow> unit cm) \<Rightarrow> expr SelectCase list \<Rightarrow> SelectCaseSpec list cm" where
  "compileSelectCases ce [] = cret []"
| "compileSelectCases ce (cs # css) =
     cbind (compileSelectCase ce cs) (\<lambda>spec.
     cbind (compileSelectCases ce css) (\<lambda>specs. cret (spec # specs)))"

definition compileSelectExpression :: "(expr \<Rightarrow> unit cm) \<Rightarrow> nat \<Rightarrow> expr SelectCase list \<Rightarrow> unit cm" where
  "compileSelectExpression ce pos cases =
     cbind (compileSelectCases ce cases) (\<lambda>specs.
     emitI (Instruction OpSelect 0 [] [] [] specs pos))"

fun compileParams :: "(expr \<Rightarrow> unit cm) \<Rightarrow> nat \<Rightarrow> expr FunctionParameter list \<Rightarrow> Chunk VMParam list cm" where
  "compileParams ce pos [] = cret []"
| "compileParams ce pos (p # ps) =
     cbind (if no_expr (fp_Default p) then cret None
            else cbind (childChunk (cthen (ce (fp_Default p)) (emitI (ins OpReturn pos)))) (\<lambda>ch. cret (Some ch)))
       (\<lambda>dflt.
     cbind (compileParams ce pos ps) (\<lambda>vps.
     cret (VMParam (id_Value (fp_Name p)) (fp_IsVariadic p) dflt (fp_Tags p) # vps)))"

text \<open>The instructions of a function body with the outer scope marked.\<close>

definition markRoot :: "Instruction list \<Rightarrow> Instruction list" where
  "markRoot is =
     (if length is \<ge> 2
      then (let js = is[0 := set_StrArg ''fnroot'' (is ! 0)]
            in js[length js - 1 := set_StrArg ''fnroot'' (js ! (length js - 1))])
      else is)"

definition paramIndex :: "string list \<Rightarrow> (string \<times> nat) list" where
  \<comment> \<open>the Go map; of two parameters of one name the later position is the one found\<close>
  "paramIndex names = rev (zip names [0..<length names])"

definition compileFunctionLiteral :: "(expr \<Rightarrow> unit cm) \<Rightarrow> nat \<Rightarrow> string list \<Rightarrow> FSig
    \<Rightarrow> expr FunctionParameter list \<Rightarrow> string \<Rightarrow> (stmt, expr) BlockStatement option \<Rightarrow> VMFunction cm" where
  "compileFunctionLiteral ce pos typeParams sig params returnType body =
     cbind (compileParams ce pos params) (\<lambda>vps.
     cbind (childChunk (compileBlock ce body)) (\<lambda>ch.
     cret (VMFunction typeParams vps (paramIndex (map vp_Name vps)) returnType
             (Chunk (markRoot (Instructions ch) @ [ins OpReturn pos]) (Constants ch)) sig params)))"

section \<open>Expressions\<close>

definition compileMaybeExpression :: "(expr \<Rightarrow> unit cm) \<Rightarrow> expr \<Rightarrow> unit cm" where
  "compileMaybeExpression ce e = (if no_expr e then emitI (ins OpNil 0) else ce e)"

text \<open>The bodies of the \<open>ValExpression\<close> and \<open>VarExpression\<close> cases.\<close>

definition compileDecl :: "(expr \<Rightarrow> unit cm) \<Rightarrow> bool \<Rightarrow> expr Tag list \<Rightarrow> nat \<Rightarrow> pattern \<Rightarrow> expr \<Rightarrow> string \<Rightarrow> bool
    \<Rightarrow> unit cm" where
  "compileDecl ce isConst tags pos p value doc hasDoc =
     cseq [ce value,
           if tags = [] then cret () else emitName OpApplyTags (encodeTagNames tags) pos,
           compileBindPattern ce p isConst pos,
           (case p of
              IdentifierPattern _ v \<Rightarrow>
                (if hasDoc then emitI (Instruction OpSetDoc 0 (id_Value v) doc [] [] pos) else cret ())
            | _ \<Rightarrow> cret ())]"

definition compileShortCircuit :: "(expr \<Rightarrow> unit cm) \<Rightarrow> nat \<Rightarrow> expr \<Rightarrow> string \<Rightarrow> expr \<Rightarrow> unit cm" where
  "compileShortCircuit ce pos left op right =
     cthen (ce left)
       (if op = ''&&''
        then
          cbind (emit (ins OpJumpIfFalse pos)) (\<lambda>jumpFalse.
          cthen (ce right)
            (cbind (emit (ins OpJump pos)) (\<lambda>jumpEnd.
             cseq [patchHere jumpFalse, emitI (ins OpFalse pos), patchHere jumpEnd])))
        else
          cbind (emit (ins OpJumpIfFalse pos)) (\<lambda>jumpFalse.
          cthen (emitI (ins OpTrue pos))
            (cbind (emit (ins OpJump pos)) (\<lambda>jumpEnd.
             cseq [patchHere jumpFalse, ce right, patchHere jumpEnd]))))"

definition compileInfix :: "(expr \<Rightarrow> unit cm) \<Rightarrow> nat \<Rightarrow> expr \<Rightarrow> string \<Rightarrow> expr \<Rightarrow> unit cm" where
  "compileInfix ce pos left op right =
     (if op = ''='' then
        (case left of
           IdentifierExpr i \<Rightarrow> cthen (ce right) (emitName OpAssignGlobal (id_Value i) pos)
         | _ \<Rightarrow> cfail (err_at pos ''left side of assignment must be an identifier''))
      else if op = ''&&'' \<or> op = ''||'' then compileShortCircuit ce pos left op right
      else
        (case (if op = ''+'' then singleElementListLiteral right else None) of
           Some x \<Rightarrow> cseq [ce left, ce x, emitI (ins OpListAppend pos)]
         | None \<Rightarrow>
             (case (if op = ''+'' then singleElementListLiteral left else None) of
                Some x \<Rightarrow> cseq [ce x, ce right, emitI (ins OpListPrepend pos)]
              | None \<Rightarrow>
                  cseq [ce left, ce right,
                        (case infixOpcode op of
                           Some opc \<Rightarrow> emitI (ins opc pos)
                         | None \<Rightarrow> cfail (err_at pos (''unsupported infix operator '' @ dquoted op)))])))"

definition compileIf :: "(expr \<Rightarrow> unit cm) \<Rightarrow> nat \<Rightarrow> expr \<Rightarrow> (stmt, expr) BlockStatement option
    \<Rightarrow> (stmt, expr) BlockStatement option \<Rightarrow> unit cm" where
  "compileIf ce pos c th el =
     cthen (ce c)
       (cbind (emit (ins OpJumpIfFalse pos)) (\<lambda>jumpIfFalse.
        cthen (compileBlock ce th)
          (cbind (emit (ins OpJump pos)) (\<lambda>jumpToEnd.
           cseq [patchHere jumpIfFalse,
                 if el = None then emitI (ins OpNil pos) else compileBlock ce el,
                 patchHere jumpToEnd]))))"

definition compilePrefix :: "(expr \<Rightarrow> unit cm) \<Rightarrow> nat \<Rightarrow> string \<Rightarrow> expr \<Rightarrow> unit cm" where
  "compilePrefix ce pos op right =
     cthen (ce right)
       (case prefixOpcode op of
          Some opc \<Rightarrow> emitI (ins opc pos)
        | None \<Rightarrow> cfail (err_at pos (''unsupported prefix operator '' @ dquoted op)))"

definition compileSpawn :: "(expr \<Rightarrow> unit cm) \<Rightarrow> nat \<Rightarrow> expr \<Rightarrow> unit cm" where
  "compileSpawn ce pos body =
     cbind (emitThunk (ce body) [] pos) (\<lambda>i.
     cseq [emitI (ins_int OpConstant (int i) pos), emitI (ins OpSpawn pos)])"

definition compileListLiteral :: "(expr \<Rightarrow> unit cm) \<Rightarrow> nat \<Rightarrow> expr list \<Rightarrow> unit cm" where
  "compileListLiteral ce pos els =
     cthen (cseq (map ce els)) (emitI (ins_int OpArray (int (length els)) pos))"

definition compileMapLiteral :: "(expr \<Rightarrow> unit cm) \<Rightarrow> nat \<Rightarrow> (expr \<times> expr) list \<Rightarrow> unit cm" where
  "compileMapLiteral ce pos pairs =
     cthen (cseq (map (\<lambda>(k, v). cthen (ce k) (ce v)) pairs)) (emitI (ins_int OpHash (int (length pairs)) pos))"

definition compileStructSchema :: "nat \<Rightarrow> expr StructField list \<Rightarrow> unit cm" where
  "compileStructSchema pos fields =
     (case schemaFields [] fields of
        Inl e \<Rightarrow> cfail e
      | Inr schema \<Rightarrow> cthen (emitConstant (SchemaConst schema) pos) (emitI (ins OpStructSchema pos)))"

definition compileStructInitField :: "(expr \<Rightarrow> unit cm) \<Rightarrow> expr StructInitField \<Rightarrow> unit cm" where
  "compileStructInitField ce f =
     cthen (emitConstant (SymbolConst (si_Name f)) (tok_Position (si_Token f))) (ce (si_Value f))"

definition compileStructInit :: "(expr \<Rightarrow> unit cm) \<Rightarrow> nat \<Rightarrow> expr \<Rightarrow> expr StructInitField list \<Rightarrow> unit cm" where
  "compileStructInit ce pos schema fields =
     cseq [ce schema, cseq (map (compileStructInitField ce) fields),
           emitI (ins_int OpHash (int (length fields)) pos), emitI (ins OpStructInit pos)]"

definition compileStructCopy :: "(expr \<Rightarrow> unit cm) \<Rightarrow> nat \<Rightarrow> expr \<Rightarrow> expr \<Rightarrow> unit cm" where
  "compileStructCopy ce pos source fields = cseq [ce source, ce fields, emitI (ins OpStructCopy pos)]"

definition compileIndex :: "(expr \<Rightarrow> unit cm) \<Rightarrow> nat \<Rightarrow> expr \<Rightarrow> expr \<Rightarrow> bool \<Rightarrow> unit cm" where
  "compileIndex ce pos left i isDot =
     cseq [ce left, ce i, emitI (ins (if isDot then OpIndexDot else OpIndex) pos)]"

definition compileSlice :: "(expr \<Rightarrow> unit cm) \<Rightarrow> nat \<Rightarrow> expr \<Rightarrow> expr \<Rightarrow> expr \<Rightarrow> unit cm" where
  "compileSlice ce pos start end step =
     cseq [compileMaybeExpression ce start, compileMaybeExpression ce end, compileMaybeExpression ce step,
           emitI (ins OpSlice pos)]"

fun exprStep :: "(expr \<Rightarrow> unit cm) \<Rightarrow> expr \<Rightarrow> unit cm" where
  "exprStep ce (NumberLiteral t v) = emitConstant (NumberConst v) (tok_Position t)"
| "exprStep ce (StringLiteral t v) = emitConstant (StringConst v) (tok_Position t)"
| "exprStep ce (BytesLiteral t v) = emitConstant (BytesConst v) (tok_Position t)"
| "exprStep ce (SymbolLiteral t v) = emitConstant (SymbolConst v) (tok_Position t)"
| "exprStep ce (Boolean t v) = emitI (ins (if v then OpTrue else OpFalse) (tok_Position t))"
| "exprStep ce (NilLiteral t) = emitI (ins OpNil (tok_Position t))"
| "exprStep ce (IdentifierExpr i) = emitName OpGetGlobal (id_Value i) (tok_Position (id_Token i))"
| "exprStep ce (ValExpression tags t p typ v doc hasDoc) =
     compileDecl ce True tags (tok_Position t) p v doc hasDoc"
| "exprStep ce (VarExpression tags t p typ v doc hasDoc) =
     compileDecl ce False tags (tok_Position t) p v doc hasDoc"
| "exprStep ce (PrefixExpression t op right) = compilePrefix ce (tok_Position t) op right"
| "exprStep ce (InfixExpression t left op right) = compileInfix ce (tok_Position t) left op right"
| "exprStep ce (BlockExpr b) = compileBlock ce (Some b)"
| "exprStep ce (IfExpression t c th el) = compileIf ce (tok_Position t) c th el"
| "exprStep ce (MatchExpression t v cases) = compileMatchExpression ce (tok_Position t) v cases"
| "exprStep ce (SelectExpression t cases) = compileSelectExpression ce (tok_Position t) cases"
| "exprStep ce (SpawnExpression t body) = compileSpawn ce (tok_Position t) body"
| "exprStep ce (AwaitExpression t v) = cthen (ce v) (emitI (ins OpAwait (tok_Position t)))"
| "exprStep ce (ListLiteral t els) = compileListLiteral ce (tok_Position t) els"
| "exprStep ce (MapLiteral t pairs) = compileMapLiteral ce (tok_Position t) pairs"
| "exprStep ce (StructSchemaExpression t fields) = compileStructSchema (tok_Position t) fields"
| "exprStep ce (StructInitExpression t schema fields) = compileStructInit ce (tok_Position t) schema fields"
| "exprStep ce (StructCopyExpression t source fields) = compileStructCopy ce (tok_Position t) source fields"
| "exprStep ce (IndexExpression t left i isDot) = compileIndex ce (tok_Position t) left i isDot"
| "exprStep ce (SliceExpression t start end step) = compileSlice ce (tok_Position t) start end step"
| "exprStep ce (FunctionLiteral t typeParams sig params returnType body hasTail) =
     cbind (compileFunctionLiteral ce (tok_Position t) typeParams sig params returnType body) (\<lambda>f.
     emitConstant (FunctionConst f) (tok_Position t))"
| "exprStep ce (TypeApplicationExpression t f args) = ce f"
| "exprStep ce (CallExpression t f args tail) = compileCall ce (tok_Position t) f args"
| "exprStep ce (RecurExpression t args) = compileRecur ce OpRecur (tok_Position t) args"
| "exprStep ce NoExpr = cfail (unsupportedNodeErr ''expression'' (expr_type NoExpr))"
| "exprStep ce (NamedArgument t n e) = cfail (unsupportedNodeErr ''expression'' (expr_type (NamedArgument t n e)))"
| "exprStep ce (SpreadExpression t e) = cfail (unsupportedNodeErr ''expression'' (expr_type (SpreadExpression t e)))"
| "exprStep ce (NotImplemented t) = cfail (unsupportedNodeErr ''expression'' (expr_type (NotImplemented t)))"

end
