(* ===== verification/Compiler_Rec.thy ===== *)
theory Compiler_Rec
  imports Compiler
begin

text \<open>
  \<open>compileExpression\<close> as the fixed point of the step of \<open>Compiler\<close>. The congruence lemmas say
  that each method calls the compiler only on expressions smaller than the one it is given;
  they are what the termination proof of \<open>compileExpression\<close> uses. The last section has the
  entry point \<open>Compile\<close>.
\<close>

section \<open>Calls on smaller expressions\<close>

lemma stmt_cong:
  "(\<And>e. size e < size s \<Longrightarrow> f e = g e) \<Longrightarrow> compileStatement f s = compileStatement g s"
  "(\<And>e. size e < size s' \<Longrightarrow> f e = g e) \<Longrightarrow> compileDeferBody f pos s' = compileDeferBody g pos s'"
  "(\<And>e. size e < size_option (size_BlockStatement size size) b \<Longrightarrow> f e = g e) \<Longrightarrow> compileBlock f b = compileBlock g b"
  "(\<And>e. size e < size_list size ss \<Longrightarrow> f e = g e) \<Longrightarrow> compileBlockStmts f ss = compileBlockStmts g ss"
proof (induction f s and f pos s' and f b and f ss
    rule: compileStatement_compileDeferBody_compileBlock_compileBlockStmts.induct)
  case (8 ce pos call)
  then show ?case by (cases call) auto
next
  case (10 ce b)
  have "compileBlockStmts ce (bs_Statements b) = compileBlockStmts g (bs_Statements b)" if "scopeLimit b = Inr l" "bs_Statements b \<noteq> []" for l
    using that size_bs_Statements[of b] by (intro 10) auto
  then show ?case by (auto split: sum.splits simp: Let_def)
next
  case (12 ce s ss)
  then show ?case by (cases s) auto
qed auto

lemmas block_cong = stmt_cong(3)

lemma key_cong: "(\<And>e. size e < size k + 1 \<Longrightarrow> f e = g e) \<Longrightarrow> compileMapPatternKey f k pos = compileMapPatternKey g k pos"
  by (cases k) (auto simp: compileMapPatternKey_def)

lemma bind_cong:
  "(\<And>e. size e < size p \<Longrightarrow> f e = g e) \<Longrightarrow> compileBindPattern f p c pos = compileBindPattern g p c pos"
  "(\<And>e. size e < size_list (size_MapPatternEntry size size) es \<Longrightarrow> f e = g e) \<Longrightarrow> bindPairs f es c pos = bindPairs g es c pos"
  "(\<And>e. size e < size_list size els \<Longrightarrow> f e = g e) \<Longrightarrow> bindElems f n i els c pos = bindElems g n i els c pos"
  "(\<And>e. size e < size_list (size_StructPatternField size) fs \<Longrightarrow> f e = g e) \<Longrightarrow> bindFields f fs c pos = bindFields g fs c pos"
proof (induction f p c pos and f es c pos and f n i els c pos and f fs c pos
    rule: compileBindPattern_bindPairs_bindElems_bindFields.induct)
  case (1 ce p isConst pos)
  then show ?case by (cases p) (auto split: option.splits)
next
  case (3 ce key q es isConst pos)
  then show ?case using key_cong[of key ce g pos] by auto
next
  case (5 ce n i el els isConst pos)
  then show ?case by (cases el) (auto split: option.splits)
qed auto

lemma entryKey_cong: "(\<And>e. size e < size k + 1 \<Longrightarrow> f e = g e) \<Longrightarrow> entryKey f k pos = entryKey g k pos"
  using key_cong[of k f g pos] by (auto simp: entryKey_def)

lemma fromValue_cong:
  "(\<And>e. size e < size_list size els \<Longrightarrow> f e = g e) \<Longrightarrow>
     compileListPatternFromValue f els pos = compileListPatternFromValue g els pos"
  "(\<And>e. size e < size_list size els \<Longrightarrow> f e = g e) \<Longrightarrow> listElems f sp i els pos = listElems g sp i els pos"
  "(\<And>e. size e < size_list (size_MapPatternEntry size size) es \<Longrightarrow> f e = g e) \<Longrightarrow>
     compileMapPatternFromValue f es spr sa ex pos = compileMapPatternFromValue g es spr sa ex pos"
  "(\<And>e. size e < size_list (size_MapPatternEntry size size) es \<Longrightarrow> f e = g e) \<Longrightarrow>
     mapEntries f es pos = mapEntries g es pos"
  "(\<And>e. size e < size p \<Longrightarrow> f e = g e) \<Longrightarrow> subPattern f err p pos = subPattern g err p pos"
proof (induction f els pos and f sp i els pos and f es spr sa ex pos and f es pos and f err p pos
    rule: compileListPatternFromValue_listElems_compileMapPatternFromValue_mapEntries_subPattern.induct)
  case (1 ce els pos)
  have "listElems ce sp 0 els pos = listElems g sp 0 els pos" if "findSpread pos (length els) 0 None els = Inr sp" for sp
    using that by (rule 1(1)) (rule 1(2))
  then show ?case by (simp cong: sum.case_cong)
next
  case (3 ce spread i el els pos)
  have "listElems ce spread (i + 1) els pos = listElems g spread (i + 1) els pos" if "\<not> (case spread of None \<Rightarrow> False | Some (k, x) \<Rightarrow> i = k)"
    using 3(1,3)[OF that] 3(4) by (cases "is_wildcard el") simp_all
  moreover have "subPattern ce (listShapeErr pos) el pos = subPattern g (listShapeErr pos) el pos" if "\<not> (case spread of None \<Rightarrow> False | Some (k, x) \<Rightarrow> i = k)" "\<not> is_wildcard el"
    using 3(2)[OF that] 3(4) by simp
  ultimately show ?case by simp
next
  case (6 ce key q es pos)
  have "entryKey ce key pos = entryKey g key pos" by (rule entryKey_cong) (rule 6(3), simp)
  moreover have "mapEntries ce es pos = mapEntries g es pos" by (rule 6(2)) (rule 6(3), simp)
  moreover have "subPattern ce (mapEntryErr q) q pos = subPattern g (mapEntryErr q) q pos"
    by (rule 6(1)) (rule 6(3), simp)
  ultimately show ?case by (simp only: mapEntries.simps)
next
  case (7 ce err p pos)
  then show ?case by (cases p) (simp_all add: compareLiteral_def)
qed (simp_all)

lemma leafPattern_cong: "(\<And>e. size e < size p \<Longrightarrow> f e = g e) \<Longrightarrow> leafPattern f err p pos = leafPattern g err p pos"
  by (cases p) (simp_all add: leafPattern_def compareLiteral_def)

lemma matchMapEntries_cong:
  "(\<And>e. size e < size_list (size_MapPatternEntry size size) es \<Longrightarrow> f e = g e) \<Longrightarrow>
     matchMapEntries f es pos = matchMapEntries g es pos"
proof (induction f es pos rule: matchMapEntries.induct)
  case (2 ce key q es pos)
  have "entryKey ce key pos = entryKey g key pos" by (rule entryKey_cong) (rule 2(2), simp)
  moreover have "leafPattern ce (mapEntryErr q) q pos = leafPattern g (mapEntryErr q) q pos"
    by (rule leafPattern_cong) (rule 2(2), simp)
  moreover have "matchMapEntries ce es pos = matchMapEntries g es pos" by (rule 2(1)) (rule 2(2), simp)
  ultimately show ?case by (simp only: matchMapEntries.simps)
qed simp

lemma structFields_cong:
  "(\<And>e. size e < size_list (size_StructPatternField size) fs \<Longrightarrow> f e = g e) \<Longrightarrow>
     structFields f fs pos = structFields g fs pos"
proof (induction f fs pos rule: structFields.induct)
  case (2 ce name q fs pos)
  then show ?case using leafPattern_cong[of q ce g _ pos] by simp
qed simp

lemma patternValue_cong:
  "(\<And>e. size e < size p \<Longrightarrow> f e = g e) \<Longrightarrow> compilePatternValue f p = compilePatternValue g p"
  by (cases p) (simp_all add: compilePatternValue_def)

lemma multiPatterns_cong:
  "(\<And>e. size e < size_list size ps \<Longrightarrow> f e = g e) \<Longrightarrow> multiPatterns f ps pos = multiPatterns g ps pos"
proof (induction f ps pos rule: multiPatterns.induct)
  case (2 ce p ps pos)
  then show ?case using patternValue_cong[of p ce g] by simp
qed simp


lemma tails_cong:
  assumes "\<And>e. size e < Suc (size guard + size_option (size_BlockStatement size size) body) \<Longrightarrow> f e = g e"
  shows "scopedTail f js guard body pos = scopedTail g js guard body pos"
    and "unscopedTail f js guard body pos = unscopedTail g js guard body pos"
  using assms block_cong[of body f g]
  by (simp_all add: scopedTail_def unscopedTail_def compileGuard_def)

lemma matchPatternCase_cong:
  assumes e: "\<And>e. size e < Suc (size guard + size_option (size_BlockStatement size size) body + size p) \<Longrightarrow> f e = g e"
  shows "matchPatternCase f whole p guard body pos = matchPatternCase g whole p guard body pos"
proof -
  have b: "compileBlock f body = compileBlock g body" by (rule block_cong) (auto intro: e)
  have t: "scopedTail f js guard body pos = scopedTail g js guard body pos"
    "unscopedTail f js guard body pos = unscopedTail g js guard body pos" for js
    by (rule tails_cong; auto intro: e)+
  show ?thesis
  proof (cases p)
    case (ListPattern t els)
    have "listElems f sp 0 els pos = listElems g sp 0 els pos" for sp
      by (rule fromValue_cong) (auto intro: e simp: ListPattern)
    then show ?thesis
      by (simp add: matchPatternCase_def ListPattern matchListCase_def t cong: sum.case_cong)
  next
    case (MapPattern t es sp sa ex)
    have "matchMapEntries f es pos = matchMapEntries g es pos"
      by (rule matchMapEntries_cong) (auto intro: e simp: MapPattern)
    then show ?thesis by (simp add: matchPatternCase_def MapPattern matchMapCase_def t)
  next
    case (StructPattern t sch fs)
    have "structFields f fs pos = structFields g fs pos"
      by (rule structFields_cong) (auto intro: e simp: StructPattern)
    then show ?thesis by (simp add: matchPatternCase_def StructPattern matchStructCase_def t)
  next
    case (MultiPattern t ps)
    have "multiPatterns f ps pos = multiPatterns g ps pos"
      by (rule multiPatterns_cong) (auto intro: e simp: MultiPattern)
    then show ?thesis by (simp add: matchPatternCase_def MultiPattern matchMultiCase_def t)
  next
    case (IdentifierPattern t v)
    show ?thesis by (simp add: matchPatternCase_def IdentifierPattern matchIdentifierCase_def t b)
  qed (use patternValue_cong[of p f g] e in \<open>simp_all add: matchPatternCase_def matchValueCase_def t\<close>)
qed

lemma matchCase_cong:
  assumes "\<And>e. size e < size_MatchCase size size (size_BlockStatement size size) cs \<Longrightarrow> f e = g e"
  shows "compileMatchCase f cs = compileMatchCase g cs"
proof -
  obtain t p guard body where cs: "cs = MatchCase t p guard body" by (cases cs)
  obtain whole q where q: "wholeBinding p = (whole, q)" by (cases "wholeBinding p")
  have "size q \<le> size p" using q by (cases p) (auto simp: wholeBinding_def)
  then have "matchPatternCase f whole q guard body (tok_Position t) = matchPatternCase g whole q guard body (tok_Position t)"
    by (intro matchPatternCase_cong assms) (simp add: cs)
  then show ?thesis by (simp add: compileMatchCase_def cs q)
qed

lemma matchCases_cong:
  "(\<And>e. size e < size_list (size_MatchCase size size (size_BlockStatement size size)) css \<Longrightarrow> f e = g e) \<Longrightarrow>
     compileMatchCases f css = compileMatchCases g css"
proof (induction css)
  case (Cons cs css)
  then show ?case using matchCase_cong[of cs f g] by simp
qed simp

lemma matchExpression_cong:
  "f value = g value \<Longrightarrow>
   (\<And>e. size e < size_list (size_MatchCase size size (size_BlockStatement size size)) css \<Longrightarrow> f e = g e) \<Longrightarrow>
     compileMatchExpression f pos value css = compileMatchExpression g pos value css"
  using matchCases_cong[of css f g] by (simp add: compileMatchExpression_def)

lemma size_callArg: "callArg arg = (spec, e) \<Longrightarrow> size e \<le> size arg"
  by (cases arg) (auto simp: callArg_def)

lemma args_cong:
  "(\<And>e. size e < size_list size args \<Longrightarrow> f e = g e) \<Longrightarrow> compileArgs f pos named args = compileArgs g pos named args"
proof (induction f pos named args rule: compileArgs.induct)
  case (2 ce pos named arg args)
  obtain spec e where a: "callArg arg = (spec, e)" by (cases "callArg arg")
  have "ce e = g e" using size_callArg[OF a] by (intro 2(2)) simp
  then show ?case using 2 a by simp
qed simp

lemma recur_cong:
  "(\<And>e. size e < size_list size args \<Longrightarrow> f e = g e) \<Longrightarrow> compileRecur f op pos args = compileRecur g op pos args"
  using args_cong[of args f g] by (simp add: compileRecur_def)

lemma call_cong:
  "f h = g h \<Longrightarrow> (\<And>e. size e < size_list size args \<Longrightarrow> f e = g e) \<Longrightarrow> compileCall f pos h args = compileCall g pos h args"
  using recur_cong[of args f g] by (simp add: compileCall_def)

lemma handler_cong:
  assumes e: "\<And>e. size e < Suc (size h) \<Longrightarrow> f e = g e"
  shows "selectHandlerBody f h pos = selectHandlerBody g h pos"
proof -
  have call: "compileCall f p k (IdentifierExpr i # args) = compileCall g p k (IdentifierExpr i # args)"
    if "size k + size_list size args \<le> size h" for p k i args
    using that by (intro call_cong e) auto
  have m: "compileMatchExpression f p (IdentifierExpr i) css = compileMatchExpression g p (IdentifierExpr i) css"
    if "size_list (size_MatchCase size size (size_BlockStatement size size)) css \<le> size h" for p i css
    using that by (intro matchExpression_cong e) auto
  show ?thesis
    by (cases h) (simp_all add: selectHandlerBody_def Let_def call m)
qed

lemma selectCase_cong:
  assumes e: "\<And>e. size e < size_SelectCase size cs \<Longrightarrow> f e = g e"
  shows "compileSelectCase f cs = compileSelectCase g cs"
proof -
  obtain t k ch v af aw h where cs: "cs = SelectCase t k ch v af aw h" by (cases cs)
  have "selectHandlerBody f h (tok_Position t) = selectHandlerBody g h (tok_Position t)"
    by (intro handler_cong e) (simp add: cs)
  moreover have "f ch = g ch" "f v = g v" "f af = g af" "f aw = g aw"
    by (intro e; simp add: cs)+
  ultimately show ?thesis
    by (cases k) (simp_all add: cs compileSelectCase_def Let_def cong: if_cong)
qed

lemma select_cong:
  "(\<And>e. size e < size_list (size_SelectCase size) css \<Longrightarrow> f e = g e) \<Longrightarrow>
     compileSelectExpression f pos css = compileSelectExpression g pos css"
proof -
  have "(\<And>e. size e < size_list (size_SelectCase size) css \<Longrightarrow> f e = g e) \<Longrightarrow>
     compileSelectCases f css = compileSelectCases g css"
  proof (induction css)
    case (Cons cs css)
    then show ?case using selectCase_cong[of cs f g] by simp
  qed simp
  then show "(\<And>e. size e < size_list (size_SelectCase size) css \<Longrightarrow> f e = g e) \<Longrightarrow> ?thesis"
    by (simp add: compileSelectExpression_def)
qed

lemma params_cong:
  "(\<And>e. size e < size_list (size_FunctionParameter size) ps \<Longrightarrow> f e = g e) \<Longrightarrow> compileParams f pos ps = compileParams g pos ps"
proof (induction f pos ps rule: compileParams.induct)
  case (2 ce pos p ps)
  have "ce (fp_Default p) = g (fp_Default p)" by (rule 2(2)) (cases p; simp)
  then show ?case using 2 by simp
qed simp

lemma function_cong:
  assumes "\<And>e. size e < size_list (size_FunctionParameter size) ps + size_option (size_BlockStatement size size) body \<Longrightarrow> f e = g e"
  shows "compileFunctionLiteral f pos tps sig ps rt body = compileFunctionLiteral g pos tps sig ps rt body"
  using assms params_cong[of ps f g] block_cong[of body f g] by (simp add: compileFunctionLiteral_def)

lemma infix_cong:
  assumes e: "\<And>e. size e < Suc (size l + size r) \<Longrightarrow> f e = g e"
  shows "compileInfix f pos l op r = compileInfix g pos l op r"
proof -
  have [simp]: "f l = g l" "f r = g r" by (intro e; simp)+
  have s: "size x \<le> size y" if "singleElementListLiteral y = Some x" for x y
    using that by (cases y) (auto simp: singleElementListLiteral_def split: list.splits expr.splits)
  have [simp]: "f x = g x" if "singleElementListLiteral r = Some x \<or> singleElementListLiteral l = Some x" for x
    using that s[of l x] s[of r x] by (intro e) auto
  show ?thesis
    by (auto simp: compileInfix_def compileShortCircuit_def split: option.split expr.split)
qed

lemma decl_cong:
  "(\<And>e. size e < Suc (size v + size p) \<Longrightarrow> f e = g e) \<Longrightarrow> compileDecl f c tags pos p v doc hasDoc = compileDecl g c tags pos p v doc hasDoc"
  using bind_cong(1)[of p f g] by (simp add: compileDecl_def)

lemma exprStep_cong [fundef_cong]:
  assumes "x = e" and f: "\<And>y. size y < size e \<Longrightarrow> f y = g y"
  shows "exprStep f x = exprStep g e"
proof -
  have map: "map f es = map g es" if "size_list size es < size e" for es
    using that by (intro map_cong refl f) (auto dest!: size_mem[where f=size])
  have "exprStep f e = exprStep g e"
  proof (cases e)
    case (ListLiteral t es)
    then show ?thesis using map[of es] by (simp add: compileListLiteral_def del: map_eq_conv)
  next
    case (MapLiteral t ps)
    have "map (\<lambda>(k, v). cthen (f k) (f v)) ps = map (\<lambda>(k, v). cthen (g k) (g v)) ps"
      using size_mem[where f="size_prod size size" and xs=ps] f
      by (intro map_cong refl) (fastforce simp: MapLiteral)
    then show ?thesis by (simp only: MapLiteral exprStep.simps compileMapLiteral_def)
  next
    case (StructInitExpression t sch fs)
    have "map (compileStructInitField f) fs = map (compileStructInitField g) fs"
    proof (intro map_cong refl)
      fix x assume "x \<in> set fs"
      then show "compileStructInitField f x = compileStructInitField g x"
        using size_mem[of x fs "size_StructInitField size"] f[of "si_Value x"]
        by (cases x rule: StructInitField.exhaust) (simp add: compileStructInitField_def StructInitExpression)
    qed
    then show ?thesis using f[of sch] by (simp add: StructInitExpression compileStructInit_def del: map_eq_conv)
  next
    case (FunctionLiteral t tps sig ps rt body tail)
    have "compileFunctionLiteral f pos tps sig ps rt body = compileFunctionLiteral g pos tps sig ps rt body" for pos
      by (intro function_cong f) (simp add: FunctionLiteral)
    then show ?thesis by (simp add: FunctionLiteral)
  next
    case (MatchExpression t v css)
    have "compileMatchExpression f pos v css = compileMatchExpression g pos v css" for pos
      by (intro matchExpression_cong f) (simp_all add: MatchExpression)
    then show ?thesis by (simp add: MatchExpression)
  next
    case (SelectExpression t css)
    have "compileSelectExpression f pos css = compileSelectExpression g pos css" for pos
      by (intro select_cong f) (simp_all add: SelectExpression)
    then show ?thesis by (simp add: SelectExpression)
  next
    case (CallExpression t h args tail)
    have "compileCall f pos h args = compileCall g pos h args" for pos
      by (intro call_cong f) (simp_all add: CallExpression)
    then show ?thesis by (simp add: CallExpression)
  next
    case (RecurExpression t args)
    have "compileRecur f op pos args = compileRecur g op pos args" for op pos
      by (intro recur_cong f) (simp_all add: RecurExpression)
    then show ?thesis by (simp add: RecurExpression)
  next
    case (InfixExpression t l op r)
    have "compileInfix f pos l op r = compileInfix g pos l op r" for pos
      by (intro infix_cong f) (simp_all add: InfixExpression)
    then show ?thesis by (simp add: InfixExpression)
  next
    case (ValExpression tags t p ty v doc hd)
    have "compileDecl f c tags pos p v doc hd = compileDecl g c tags pos p v doc hd" for c pos
      by (intro decl_cong f) (simp_all add: ValExpression)
    then show ?thesis by (simp add: ValExpression)
  next
    case (VarExpression tags t p ty v doc hd)
    have "compileDecl f c tags pos p v doc hd = compileDecl g c tags pos p v doc hd" for c pos
      by (intro decl_cong f) (simp_all add: VarExpression)
    then show ?thesis by (simp add: VarExpression)
  next
    case (IfExpression t c a b)
    have "compileBlock f a = compileBlock g a" "compileBlock f b = compileBlock g b" "f c = g c"
      by (intro block_cong f; simp add: IfExpression)+
    then show ?thesis by (simp add: IfExpression compileIf_def)
  next
    case (BlockExpr b)
    have "compileBlock f (Some b) = compileBlock g (Some b)"
      by (intro block_cong f) (simp add: BlockExpr)
    then show ?thesis by (simp only: BlockExpr exprStep.simps)
  next
    case (SliceExpression t a b c)
    have "f a = g a" "f b = g b" "f c = g c" by (intro f; simp add: SliceExpression)+
    then show ?thesis by (simp add: SliceExpression compileSlice_def compileMaybeExpression_def)
  qed (use f in \<open>simp_all add: compilePrefix_def compileSpawn_def compileStructCopy_def compileIndex_def\<close>)
  then show ?thesis by (simp add: assms(1))
qed


section \<open>The compiler\<close>

function compileExpression :: "expr \<Rightarrow> unit cm" where
  "compileExpression e = exprStep compileExpression e"
  by pat_completeness auto
termination
  by (relation "measure size") auto

declare compileExpression.simps [simp del]

definition compileProgram :: "stmt list \<Rightarrow> unit cm" where
  "compileProgram stmts = cseq (map (compileStatement compileExpression) stmts)"

definition Compile :: "stmt list \<Rightarrow> string + Chunk" where
  "Compile stmts =
     (case cthen (compileProgram stmts) (emitI (ins OpReturn 0)) (Chunk [] []) of
        Inl e \<Rightarrow> Inl e
      | Inr (_, c) \<Rightarrow> Inr c)"

end
