(* ===== verification/Compiler_Laws.thy ===== *)
theory Compiler_Laws
  imports Compiler_Rec
begin

text \<open>
  What the compiler produces. \<open>chunk_ok\<close> says that a chunk ends in \<open>OpReturn\<close>, that every jump
  goes forward to an instruction of the chunk, that constants and select thunks exist, and
  that the same holds of every chunk among the constants. The lemmas carry this through the
  compiler with triples over the jumps still to be patched.
\<close>

section \<open>Well-formed chunks\<close>

definition is_jump :: "Opcode \<Rightarrow> bool" where
  "is_jump op \<longleftrightarrow> op = OpJump \<or> op = OpJumpIfFalse"

definition spec_fns :: "SelectCaseSpec \<Rightarrow> int list" where
  "spec_fns s = [ss_ChannelFn s, ss_ValueFn s, ss_AfterFn s, ss_AwaitFn s, ss_HandlerFn s]"

definition fn_index_ok :: "nat \<Rightarrow> int \<Rightarrow> bool" where
  "fn_index_ok k x \<longleftrightarrow> x = - 1 \<or> (0 \<le> x \<and> x < int k)"

text \<open>Instruction \<open>i\<close> of a chunk with \<open>n\<close> instructions so far and \<open>k\<close> constants.\<close>

definition instr_ok :: "nat \<Rightarrow> nat \<Rightarrow> nat \<Rightarrow> Instruction \<Rightarrow> bool" where
  "instr_ok i n k x \<longleftrightarrow>
     (is_jump (Op x) \<longrightarrow> int i < IntArg x \<and> IntArg x \<le> int n) \<and>
     (Op x = OpConstant \<longrightarrow> 0 \<le> IntArg x \<and> IntArg x < int k) \<and>
     (Op x = OpSelect \<longrightarrow> (\<forall>s\<in>set (Select x). \<forall>f\<in>set (spec_fns s). fn_index_ok k f))"

lemma size_vp_Default: "p \<in> set ps \<Longrightarrow> vp_Default p = Some d \<Longrightarrow> f d < size_list (size_VMParam f) ps"
proof -
  assume "p \<in> set ps" "vp_Default p = Some d"
  then have "size_VMParam f p < size_list (size_VMParam f) ps" "f d < size_VMParam f p"
    by (simp_all add: size_mem) (cases p; simp)
  then show ?thesis by simp
qed

function chunk_ok :: "Chunk \<Rightarrow> bool" and const_ok :: "Constant \<Rightarrow> bool" where
  "chunk_ok c \<longleftrightarrow>
     Instructions c \<noteq> [] \<and> Op (last (Instructions c)) = OpReturn \<and>
     (\<forall>i<length (Instructions c).
        instr_ok i (length (Instructions c) - 1) (length (Constants c)) (Instructions c ! i)) \<and>
     (\<forall>k\<in>set (Constants c). const_ok k)"
| "const_ok k \<longleftrightarrow>
     (case k of
        FunctionConst f \<Rightarrow>
          chunk_ok (fn_Chunk f) \<and>
          (\<forall>p\<in>set (fn_Params f). case vp_Default p of None \<Rightarrow> True | Some d \<Rightarrow> chunk_ok d)
      | _ \<Rightarrow> True)"
  by pat_completeness auto
termination
proof (relation "measure (\<lambda>x. case x of Inl c \<Rightarrow> size c | Inr k \<Rightarrow> size k)", goal_cases)
  case (2 c k)
  then show ?case by (cases c) (auto dest: size_mem[where f=size])
next
  case (3 k f)
  then show ?case by (cases f) auto
next
  case (4 k f p d)
  then show ?case by (cases f) (auto dest!: size_vp_Default[where f=size])
qed auto

declare chunk_ok.simps [simp del] const_ok.simps [simp del]

section \<open>Triples\<close>

text \<open>
  What is outstanding while a chunk is built: a jump at an index that is still to be patched,
  the index of a constant or thunk that a later instruction will name, a finished chunk that
  will go into a constant.
\<close>

datatype need = Hole nat | Index int | Done Chunk

text \<open>
  \<open>built c0 P c\<close>: \<open>c\<close> extends \<open>c0\<close>, and everything added is in order except for the holes in \<open>P\<close>.
\<close>

definition built :: "Chunk \<Rightarrow> need set \<Rightarrow> Chunk \<Rightarrow> bool" where
  "built c0 P c \<longleftrightarrow>
     take (length (Instructions c0)) (Instructions c) = Instructions c0 \<and>
     take (length (Constants c0)) (Constants c) = Constants c0 \<and>
     (\<forall>i. Hole i \<in> P \<longrightarrow> length (Instructions c0) \<le> i \<and> i < length (Instructions c) \<and> is_jump (Op (Instructions c ! i))) \<and>
     (\<forall>x. Index x \<in> P \<longrightarrow> fn_index_ok (length (Constants c)) x) \<and>
     (\<forall>ch. Done ch \<in> P \<longrightarrow> chunk_ok ch) \<and>
     (\<forall>i. length (Instructions c0) \<le> i \<and> i < length (Instructions c) \<and> Hole i \<notin> P \<longrightarrow>
        instr_ok i (length (Instructions c)) (length (Constants c)) (Instructions c ! i)) \<and>
     (\<forall>k\<in>set (drop (length (Constants c0)) (Constants c)). const_ok k)"

definition trip :: "need set \<Rightarrow> 'a cm \<Rightarrow> ('a \<Rightarrow> need set) \<Rightarrow> bool" where
  "trip A m B \<longleftrightarrow>
     (\<forall>c0 P c. built c0 (P \<union> A) c \<longrightarrow>
        (case m c of Inl e \<Rightarrow> True | Inr (a, c') \<Rightarrow> built c0 (P \<union> B a) c'))"

abbreviation closed :: "'a cm \<Rightarrow> bool" where
  "closed m \<equiv> trip {} m (\<lambda>_. {})"

abbreviation opens :: "nat list cm \<Rightarrow> bool" where
  "opens m \<equiv> trip {} m (\<lambda>js. Hole ` set js)"

lemma take_prefix_length: "take (length xs) ys = xs \<Longrightarrow> length xs \<le> length ys"
  by (metis length_take min.cobounded2 min.commute)

lemma take_snoc: "take (length xs) ys = xs \<Longrightarrow> take (length xs) (ys @ zs) = xs"
  by (metis append_take_drop_id append.assoc append_eq_conv_conj)

lemma trip_ret: "A = B a \<Longrightarrow> trip A (cret a) B"
  by (simp add: trip_def cret_def)

lemma trip_fail: "trip A (cfail e) B"
  by (simp add: trip_def cfail_def)

lemma trip_bind:
  assumes "trip A m B" "\<And>a. trip (B a) (f a) C"
  shows "trip A (cbind m f) C"
  unfolding trip_def
proof (intro allI impI)
  fix c0 P c
  assume "built c0 (P \<union> A) c"
  with assms(1) have "case m c of Inl e \<Rightarrow> True | Inr (a, c') \<Rightarrow> built c0 (P \<union> B a) c'"
    unfolding trip_def by blast
  then show "case cbind m f c of Inl e \<Rightarrow> True | Inr (a, c') \<Rightarrow> built c0 (P \<union> C a) c'"
    using assms(2) unfolding trip_def by (cases "m c") (auto simp: cbind_def)
qed

lemma trip_then: "trip A m (\<lambda>_. B) \<Longrightarrow> trip B n C \<Longrightarrow> trip A (cthen m n) C"
  unfolding cthen_def by (rule trip_bind)

lemma trip_frame: "trip A m B \<Longrightarrow> X = F \<union> A \<Longrightarrow> trip X m (\<lambda>a. F \<union> B a)"
  by (force simp: trip_def Un_assoc[symmetric] split: sum.splits)

lemma trip_closed: "closed m \<Longrightarrow> trip A m (\<lambda>_. A)"
  using trip_frame[of "{}" m "\<lambda>_. {}" A A] by simp

lemma trip_opens: "opens m \<Longrightarrow> trip A m (\<lambda>js. A \<union> Hole ` set js)"
  using trip_frame[of "{}" m _ A A] by simp

lemma closed_then: "closed m \<Longrightarrow> trip A n B \<Longrightarrow> trip A (cthen m n) B"
  by (rule trip_then[OF trip_closed])

lemma closed_seq: "(\<And>m. m \<in> set ms \<Longrightarrow> closed m) \<Longrightarrow> closed (cseq ms)"
  by (induction ms) (auto intro: trip_ret closed_then)

lemma opens_capp: "opens m \<Longrightarrow> opens n \<Longrightarrow> opens (capp m n)"
  unfolding capp_def
  by (rule trip_bind, assumption, rule trip_bind, erule trip_opens, rule trip_ret) (simp add: image_Un)

lemma built_mono:
  assumes "built c0 P c" "Q \<subseteq> P" "\<And>i. Hole i \<in> P \<Longrightarrow> Hole i \<in> Q"
  shows "built c0 Q c"
  using assms unfolding built_def by blast

lemma built_emit:
  assumes "built c0 P c" "instr_ok (length (Instructions c)) (length (Instructions c)) (length (Constants c)) x
    \<or> is_jump (Op x) \<and> Q = insert (Hole (length (Instructions c))) P" "P \<subseteq> Q" "Q \<subseteq> insert (Hole (length (Instructions c))) P"
    "Q = P \<or> is_jump (Op x)"
  shows "built c0 Q (Chunk (Instructions c @ [x]) (Constants c))"
proof -
  have mono: "instr_ok i (length (Instructions c)) k y \<Longrightarrow> instr_ok i (Suc (length (Instructions c))) k y" for i k y
    by (auto simp: instr_ok_def)
  show ?thesis
    using assms take_prefix_length[of "Instructions c0" "Instructions c"]
    unfolding built_def
    by (auto simp: take_snoc nth_append less_Suc_eq intro!: mono)
qed

lemma closed_emitI:
  assumes "\<not> is_jump (Op x)" "Op x \<noteq> OpConstant" "Op x \<noteq> OpSelect"
  shows "closed (emitI x)"
  using assms built_emit[where x=x and Q=P and P=P for P]
  by (auto simp: trip_def emitI_def cthen_def cbind_def emit_def cret_def instr_ok_def)

lemma trip_emit_jump: "is_jump op \<Longrightarrow> trip A (emit (ins op pos)) (\<lambda>j. insert (Hole j) A)"
  using built_emit[where x="ins op pos" and Q="insert (Hole (length (Instructions c))) P" and P=P and c=c for P c]
  by (auto simp: trip_def emit_def ins_def)

lemma opens_emitJump: "is_jump op \<Longrightarrow> opens (emitJump op pos)"
  unfolding emitJump_def by (rule trip_bind, erule trip_emit_jump, rule trip_ret) simp

lemma trip_patch: "trip (insert (Hole j) A) (patchHere j) (\<lambda>_. A)"
  unfolding trip_def
proof (intro allI impI)
  fix c0 P c
  assume b: "built c0 (P \<union> insert (Hole j) A) c"
  then have j: "length (Instructions c0) \<le> j" "j < length (Instructions c)" "is_jump (Op (Instructions c ! j))"
    by (auto simp: built_def)
  have "instr_ok j (length (Instructions c)) (length (Constants c))
      (set_IntArg (int (length (Instructions c))) (Instructions c ! j))"
    using j by (auto simp: instr_ok_def set_IntArg_def is_jump_def)
  then have "built c0 (P \<union> A) (Chunk ((Instructions c)[j := set_IntArg (int (length (Instructions c))) (Instructions c ! j)]) (Constants c))"
    using b j by (auto simp: built_def nth_list_update set_IntArg_def)
  then show "case patchHere j c of Inl e \<Rightarrow> True | Inr (_, c') \<Rightarrow> built c0 (P \<union> A) c'"
    by (simp add: patchHere_def patchJump_def)
qed

lemma trip_patch': "X = insert (Hole j) A \<Longrightarrow> trip X (patchHere j) (\<lambda>_. A)"
  using trip_patch by simp

lemma trip_patchAll: "trip (Hole ` set js \<union> A) (patchAllHere js) (\<lambda>_. A)"
  unfolding patchAllHere_def
proof (induction js)
  case (Cons j js)
  show ?case
    using trip_then[OF trip_patch[of j "Hole ` set js \<union> A"] Cons.IH] by simp
qed (simp add: trip_ret)

lemma trip_patchAll': "X = Hole ` set js \<union> A \<Longrightarrow> trip X (patchAllHere js) (\<lambda>_. A)"
  using trip_patchAll by simp

lemma trip_addConstant:
  assumes "const_ok k"
  shows "trip A (addConstant k) (\<lambda>i. insert (Index (int i)) A)"
proof -
  have mono: "instr_ok i n a y \<Longrightarrow> instr_ok i n (Suc a) y" for i n a y
    by (fastforce simp: instr_ok_def fn_index_ok_def)
  show ?thesis
    using assms by (auto simp: trip_def addConstant_def built_def take_snoc take_prefix_length fn_index_ok_def intro!: mono)
qed

lemma trip_OpConstant: "trip (insert (Index (int i)) A) (emitI (ins_int OpConstant (int i) pos)) (\<lambda>_. A)"
proof -
  have "built c0 (P \<union> A) (Chunk (Instructions c @ [ins_int OpConstant (int i) pos]) (Constants c))"
    if "built c0 (P \<union> insert (Index (int i)) A) c" for c0 P c
  proof (rule built_emit)
    show "built c0 (P \<union> A) c" by (rule built_mono[OF that]) auto
    have "fn_index_ok (length (Constants c)) (int i)" using that by (auto simp: built_def)
    then show "instr_ok (length (Instructions c)) (length (Instructions c)) (length (Constants c)) (ins_int OpConstant (int i) pos)
      \<or> is_jump (Op (ins_int OpConstant (int i) pos)) \<and> P \<union> A = insert (Hole (length (Instructions c))) (P \<union> A)"
      by (auto simp: instr_ok_def ins_int_def fn_index_ok_def is_jump_def)
  qed auto
  then show ?thesis by (simp add: trip_def emitI_def cthen_def cbind_def emit_def cret_def)
qed

lemma closed_emitConstant: "const_ok k \<Longrightarrow> closed (emitConstant k pos)"
  unfolding emitConstant_def by (rule trip_bind, erule trip_addConstant, rule trip_OpConstant)

lemma closed_emitNumberConstant: "closed (emitNumberConstant pos n)"
  unfolding emitNumberConstant_def by (rule closed_emitConstant) (simp add: const_ok.simps)

lemma built_return:
  assumes "built (Chunk [] []) {} c"
  shows "chunk_ok (Chunk (Instructions c @ [ins OpReturn pos]) (Constants c))"
  using assms by (auto simp: built_def chunk_ok.simps nth_append less_Suc_eq ins_def instr_ok_def is_jump_def)

lemma trip_childChunk:
  assumes "closed m"
  shows "trip A (childChunk (cthen m (emitI (ins OpReturn pos)))) (\<lambda>ch. insert (Done ch) A)"
proof -
  have "built (Chunk [] []) {} (Chunk [] [])" by (simp add: built_def)
  then have "case m (Chunk [] []) of Inl e \<Rightarrow> True | Inr (a, c') \<Rightarrow> built (Chunk [] []) {} c'"
    using assms unfolding trip_def by (metis Un_empty)
  then show ?thesis
    using built_return
    by (auto simp: trip_def childChunk_def cthen_def cbind_def emitI_def emit_def cret_def built_def split: sum.splits prod.splits)
qed

lemma trip_done:
  assumes "chunk_ok ch \<Longrightarrow> trip A m B"
  shows "trip (insert (Done ch) A) m B"
  unfolding trip_def
proof (intro allI impI)
  fix c0 P c
  assume b: "built c0 (P \<union> insert (Done ch) A) c"
  then have "chunk_ok ch" by (auto simp: built_def)
  moreover have "built c0 (P \<union> A) c" by (rule built_mono[OF b]) auto
  ultimately show "case m c of Inl e \<Rightarrow> True | Inr (a, c') \<Rightarrow> built c0 (P \<union> B a) c'"
    using assms unfolding trip_def by blast
qed

lemma trip_thunk: "closed m \<Longrightarrow> trip A (emitThunk m ps pos) (\<lambda>i. insert (Index (int i)) A)"
  unfolding emitThunk_def
  by (rule trip_bind, erule trip_childChunk, rule trip_done, rule trip_addConstant)
    (simp add: const_ok.simps noFunction_def)

lemma jump_then:
  "(\<And>j. trip (insert (Hole j) A) (f j) C) \<Longrightarrow> trip A (cbind (emit (ins OpJump pos)) f) C"
  "(\<And>j. trip (insert (Hole j) A) (f j) C) \<Longrightarrow> trip A (cbind (emit (ins OpJumpIfFalse pos)) f) C"
  by (rule trip_bind[OF trip_emit_jump], simp_all add: is_jump_def)+

lemma patch_then: "trip A n C \<Longrightarrow> trip (insert (Hole j) A) (cthen (patchHere j) n) C"
  by (rule trip_then[OF trip_patch])

lemma patchAll_then: "X = Hole ` set js \<union> A \<Longrightarrow> trip A n C \<Longrightarrow> trip X (cthen (patchAllHere js) n) C"
  by (rule trip_then[OF trip_patchAll'])

lemma trip_ret_weak:
  assumes "B a \<subseteq> insert (Index (- 1)) A" "\<And>i. Hole i \<notin> A"
  shows "trip A (cret a) B"
  using assms unfolding trip_def cret_def by (auto simp: built_def fn_index_ok_def)

lemma trip_OpSelect:
  assumes "\<And>s. s \<in> set specs \<Longrightarrow> Index ` set (spec_fns s) \<subseteq> A" "\<And>i. Hole i \<notin> A"
  shows "trip A (emitI (Instruction OpSelect 0 [] [] [] specs pos)) (\<lambda>_. {})"
proof -
  have "built c0 P (Chunk (Instructions c @ [Instruction OpSelect 0 [] [] [] specs pos]) (Constants c))"
    if b: "built c0 (P \<union> A) c" for c0 P c
  proof (rule built_emit)
    show "built c0 P c" using assms(2) by (intro built_mono[OF b]) auto
    have "fn_index_ok (length (Constants c)) f" if "s \<in> set specs" "f \<in> set (spec_fns s)" for s f
      using assms(1)[OF that(1)] that(2) b by (auto simp: built_def)
    then show "instr_ok (length (Instructions c)) (length (Instructions c)) (length (Constants c))
        (Instruction OpSelect 0 [] [] [] specs pos) \<or>
      is_jump (Op (Instruction OpSelect 0 [] [] [] specs pos)) \<and> P = insert (Hole (length (Instructions c))) P"
      by (auto simp: instr_ok_def is_jump_def)
  qed auto
  then show ?thesis by (simp add: trip_def emitI_def cthen_def cbind_def emit_def cret_def)
qed

named_theorems closed_intros

declare closed_seq [closed_intros] closed_then [closed_intros] trip_fail [closed_intros]
  closed_emitNumberConstant [closed_intros] closed_emitConstant [closed_intros]
  opens_capp [closed_intros]

lemma closed_ret [closed_intros]: "closed (cret a)"
  by (rule trip_ret) simp

lemma opens_ret [closed_intros]: "opens (cret [])"
  by (rule trip_ret) simp

lemma closed_ins [closed_intros]:
  "\<not> is_jump op \<Longrightarrow> op \<noteq> OpConstant \<Longrightarrow> op \<noteq> OpSelect \<Longrightarrow> closed (emitI (ins op pos))"
  "\<not> is_jump op \<Longrightarrow> op \<noteq> OpConstant \<Longrightarrow> op \<noteq> OpSelect \<Longrightarrow> closed (emitI (ins_int op n pos))"
  "\<not> is_jump op \<Longrightarrow> op \<noteq> OpConstant \<Longrightarrow> op \<noteq> OpSelect \<Longrightarrow> closed (emitI (Instruction op n s t pl sel pos))"
  "\<not> is_jump op \<Longrightarrow> op \<noteq> OpConstant \<Longrightarrow> op \<noteq> OpSelect \<Longrightarrow> closed (emitName op s pos)"
  by (auto simp: emitName_def ins_def ins_int_def ins_str_def intro!: closed_emitI)

lemma opens_jumps [closed_intros]: "opens (emitJump OpJump pos)" "opens (emitJump OpJumpIfFalse pos)"
  by (auto intro!: opens_emitJump simp: is_jump_def)

lemma opens_bindI [closed_intros]: "opens m \<Longrightarrow> (\<And>js. trip (Hole ` set js) (f js) B) \<Longrightarrow> trip {} (cbind m f) B"
  by (rule trip_bind)

lemma not_jump [simp]:
  "is_jump op \<longleftrightarrow> op \<in> {OpJump, OpJumpIfFalse}"
  by (auto simp: is_jump_def)

section \<open>The methods of the compiler\<close>

declare compileBindPattern.simps [simp del] subPattern.simps [simp del] compileDeferBody.simps [simp del]

lemma infixOpcode_simple:
  "infixOpcode op = Some opc \<Longrightarrow> opc \<noteq> OpJump \<and> opc \<noteq> OpJumpIfFalse \<and> opc \<noteq> OpConstant \<and> opc \<noteq> OpSelect"
  by (auto simp: infixOpcode_def split: if_splits)

lemma prefixOpcode_simple:
  "prefixOpcode op = Some opc \<Longrightarrow> opc \<noteq> OpJump \<and> opc \<noteq> OpJumpIfFalse \<and> opc \<noteq> OpConstant \<and> opc \<noteq> OpSelect"
  by (auto simp: prefixOpcode_def split: if_splits)

locale expr_compiler =
  fixes ce :: "expr \<Rightarrow> unit cm"
  assumes closed_ce: "closed (ce e)"
begin

declare closed_ce [closed_intros]

lemma closed_stmt:
  "f = ce \<Longrightarrow> closed (compileStatement f s)" "f = ce \<Longrightarrow> closed (compileDeferBody f pos s')"
  "f = ce \<Longrightarrow> closed (compileBlock f b)" "f = ce \<Longrightarrow> closed (compileBlockStmts f ss)"
proof (induction f s and f pos s' and f b and f ss
    rule: compileStatement_compileDeferBody_compileBlock_compileBlockStmts.induct)
  case (3 f t call mode name)
  then have "closed (compileDeferBody f (tok_Position t) call)" by simp
  then show ?case
    by (simp, intro trip_bind[OF trip_thunk] trip_then[OF trip_OpConstant] closed_intros) simp_all
next
  case (8 f pos call)
  then show ?case by (subst compileDeferBody.simps, cases call) (auto intro!: closed_intros)
next
  case (10 f b)
  then show ?case by (auto simp: Let_def intro!: closed_intros split: sum.splits)
next
  case (12 f s ss)
  then show ?case by (cases s) (auto intro!: closed_intros)
qed (auto intro!: closed_intros)

lemmas closed_block [closed_intros] = closed_stmt(3)[OF refl]

lemma closed_bindIdent [closed_intros]: "closed (bindIdent v isConst pos)"
  by (auto simp: bindIdent_def setOp_def intro!: closed_intros)

lemma closed_key [closed_intros]: "closed (compileMapPatternKey ce key pos)"
  by (cases key) (auto simp: compileMapPatternKey_def const_ok.simps intro!: closed_intros)

lemma closed_bind:
  "f = ce \<Longrightarrow> closed (compileBindPattern f p c pos)" "f = ce \<Longrightarrow> closed (bindPairs f es c pos)"
  "f = ce \<Longrightarrow> closed (bindElems f n i els c pos)" "f = ce \<Longrightarrow> closed (bindFields f fs c pos)"
proof (induction f p c pos and f es c pos and f n i els c pos and f fs c pos
    rule: compileBindPattern_bindPairs_bindElems_bindFields.induct)
  case (1 f p isConst pos)
  then show ?case
    by (subst compileBindPattern.simps, cases p)
      (auto intro!: closed_intros simp: setOp_def split: option.splits)
next
  case (5 f n i el els isConst pos)
  then show ?case by (cases el) (auto intro!: closed_intros split: option.splits)
qed (auto intro!: closed_intros simp: const_ok.simps)

lemma opens_compare [closed_intros]:
  "opens (comparePinned v pos)" "opens (compareLiteral ce e pos)" "opens (bindPop v pos)"
  by (auto simp: comparePinned_def compareLiteral_def bindPop_def intro!: closed_intros)

lemma opens_entryKey [closed_intros]: "opens (entryKey ce key pos)"
  unfolding entryKey_def
  by (rule closed_then, (auto intro!: closed_intros)[1], rule trip_bind, rule opens_jumps, rule trip_then[OF trip_closed])
    (auto intro!: closed_intros trip_ret)

lemma closed_checks [closed_intros]:
  "closed (emitLenCheck spread n pos)" "closed (emitMapLenCheck n sp sa ex pos)" "closed (bindWhole whole pos)"
  by (auto simp: emitLenCheck_def emitMapLenCheck_def bindWhole_def intro!: closed_intros split: option.splits)

lemma opens_fromValue:
  "f = ce \<Longrightarrow> opens (compileListPatternFromValue f els pos)" "f = ce \<Longrightarrow> opens (listElems f sp i els pos)"
  "f = ce \<Longrightarrow> opens (compileMapPatternFromValue f es spr sa ex pos)" "f = ce \<Longrightarrow> opens (mapEntries f es pos)"
  "f = ce \<Longrightarrow> opens (subPattern f err p pos)"
proof (induction f els pos and f sp i els pos and f es spr sa ex pos and f es pos and f err p pos
    rule: compileListPatternFromValue_listElems_compileMapPatternFromValue_mapEntries_subPattern.induct)
  case (1 f els pos)
  have *: "trip (Hole ` set local) (cthen (emitI (ins OpPop pos)) (cbind (emit (ins OpJump pos)) (\<lambda>done.
      cthen (patchAllHere local) (cthen (emitI (ins OpPop pos)) (cbind (emit (ins OpJump pos)) (\<lambda>fail.
      cthen (patchHere done) (cret [fail]))))))) (\<lambda>js. Hole ` set js)" for local
    by (rule closed_then, (auto intro!: closed_intros)[1], rule jump_then,
        rule patchAll_then[where A="{Hole j}" for j], rule insert_is_Un[THEN trans], rule Un_commute,
        rule closed_then, (auto intro!: closed_intros)[1], rule jump_then,
        subst insert_commute, rule patch_then, auto intro: trip_ret)
  show ?case
    using 1 by (auto intro!: closed_intros * split: sum.splits)
next
  case (3 f spread i el els pos)
  then show ?case by (auto intro!: closed_intros split: option.splits)
next
  case (4 f pairs spread selectAll exact pos)
  then show ?case by (auto intro!: closed_intros trip_ret)
next
  case (7 f err p pos)
  then show ?case by (subst subPattern.simps, cases p) (auto intro!: closed_intros)
qed (auto intro!: closed_intros)

lemmas opens_patterns [closed_intros] = opens_fromValue(1,2,3)[OF refl]

lemma opens_leafPattern [closed_intros]: "opens (leafPattern ce err p pos)"
  by (cases p) (auto simp: leafPattern_def intro!: closed_intros)

lemma opens_entries [closed_intros]:
  "opens (matchMapEntries ce es pos)" "opens (structFields ce fs pos)"
proof -
  have "f = ce \<Longrightarrow> opens (matchMapEntries f es pos)" for f
    by (induction f es pos rule: matchMapEntries.induct) (auto intro!: closed_intros)
  then show "opens (matchMapEntries ce es pos)" by simp
  have "f = ce \<Longrightarrow> opens (structFields f fs pos)" for f
    by (induction f fs pos rule: structFields.induct) (auto intro!: closed_intros simp: const_ok.simps)
  then show "opens (structFields ce fs pos)" by simp
qed

lemma closed_patternValue [closed_intros]: "closed (compilePatternValue ce p)"
  by (cases p) (auto simp: compilePatternValue_def intro!: closed_intros)

lemma opens_guard [closed_intros]: "opens (compileGuard ce guard pos)"
  by (auto simp: compileGuard_def intro!: closed_intros)

lemma trip_opens_bind:
  "opens m \<Longrightarrow> (\<And>js. trip (A \<union> Hole ` set js) (f js) C) \<Longrightarrow> trip A (cbind m f) C"
  by (rule trip_bind[OF trip_opens])

lemma tails:
  "trip (Hole ` set fails) (scopedTail ce fails guard body pos) (\<lambda>js. Hole ` set js)"
  "trip (Hole ` set fails) (unscopedTail ce fails guard body pos) (\<lambda>js. Hole ` set js)"
  unfolding scopedTail_def unscopedTail_def
  by (rule trip_opens_bind, rule opens_guard, rule closed_then, (auto intro!: closed_intros)[1],
      rule trip_opens_bind, rule opens_jumps, rule patchAll_then[where A="Hole ` set js" for js], force,
      auto intro!: closed_then closed_intros trip_ret)+

lemma tails_Nil [closed_intros]:
  "opens (scopedTail ce [] guard body pos)" "opens (unscopedTail ce [] guard body pos)"
  using tails[of "[]"] by simp_all

lemma opens_multiPatterns [closed_intros]: "opens (multiPatterns ce ps pos)"
proof (induction ps)
  case (Cons p ps)
  have *: "trip (insert (Hole jf) {}) (cbind (emitJump OpJump pos) (\<lambda>js. cthen (patchHere jf)
      (cbind (multiPatterns ce ps pos) (\<lambda>ks. cret (js @ ks))))) (\<lambda>js. Hole ` set js)" for jf
    by (rule trip_opens_bind, rule opens_jumps, simp only: insert_is_Un[symmetric], rule patch_then,
        simp, rule trip_opens_bind, rule Cons.IH, rule trip_ret, simp add: image_Un)
  show ?case
    unfolding multiPatterns.simps
    by (rule closed_then, (auto intro!: closed_intros)[1], rule jump_then, rule closed_then,
        (auto intro!: closed_intros)[1], rule *)
qed (simp add: opens_ret)

lemma opens_matchCases [closed_intros]:
  "opens (matchIdentifierCase ce whole v guard body pos)"
  "opens (matchListCase ce whole els guard body pos)"
  "opens (matchMapCase ce whole es sp sa ex guard body pos)"
  "opens (matchStructCase ce whole sch fs guard body pos)"
  "opens (matchValueCase ce p guard body pos)"
proof -
  show "opens (matchIdentifierCase ce whole v guard body pos)"
    by (auto simp: matchIdentifierCase_def intro!: closed_intros)
  show "opens (matchListCase ce whole els guard body pos)"
    by (auto simp: matchListCase_def intro!: closed_intros tails split: sum.splits)
  have rem: "closed (bindRemainder sp keys pos)" for keys
    by (auto simp: bindRemainder_def Let_def intro!: closed_intros split: pattern.splits option.splits)
  show "opens (matchMapCase ce whole es sp sa ex guard body pos)"
    by (auto simp: matchMapCase_def intro!: closed_intros rem tails)
  show "opens (matchStructCase ce whole sch fs guard body pos)"
    by (auto simp: matchStructCase_def intro!: closed_intros tails)
  show "opens (matchValueCase ce p guard body pos)"
    by (auto simp: matchValueCase_def intro!: closed_intros tails)
qed

lemma opens_matchMultiCase [closed_intros]: "opens (matchMultiCase ce ps guard body pos)"
proof -
  have *: "trip (Hole ` set matched) (cthen (patchAllHere matched) (cbind (emitJump OpJumpIfFalse pos) (\<lambda>next.
      unscopedTail ce next guard body pos))) (\<lambda>js. Hole ` set js)" for matched
    by (rule patchAll_then[where A="{}"], simp, rule trip_bind, rule opens_jumps, rule tails)
  show ?thesis
    by (auto simp: matchMultiCase_def intro!: closed_intros *)
qed

lemma opens_compileMatchCases [closed_intros]: "opens (compileMatchCases ce css)"
proof (induction css)
  case (Cons cs css)
  have "opens (matchPatternCase ce whole p guard body pos)" for whole p guard body pos
    by (cases p) (auto simp: matchPatternCase_def intro!: closed_intros)
  then show ?case using Cons by (auto simp: compileMatchCase_def intro!: closed_intros split: prod.splits)
qed (simp add: opens_ret)

lemma closed_matchExpression [closed_intros]: "closed (compileMatchExpression ce pos value css)"
proof -
  have *: "trip (Hole ` set ends) (cseq [emitI (ins OpPop pos), emitI (ins OpNil pos), patchAllHere ends]) (\<lambda>_. {})"
    for ends
    unfolding cseq.simps
    by (rule closed_then, (auto intro!: closed_intros)[1], rule closed_then, (auto intro!: closed_intros)[1],
        rule patchAll_then[where A="{}"], auto intro: closed_ret)
  show ?thesis
    by (auto simp: compileMatchExpression_def intro!: closed_intros * simp del: cseq.simps)
qed

lemma closed_args: "closed (compileArgs ce pos named args)"
proof -
  have "f = ce \<Longrightarrow> closed (compileArgs f pos named args)" for f
  proof (induction f pos named args rule: compileArgs.induct)
    case (2 f pos named arg args)
    then show ?case
      by (auto intro!: closed_intros intro: trip_bind split: prod.splits)
  qed (simp add: closed_ret)
  then show ?thesis by simp
qed

lemma closed_recur [closed_intros]:
  "op \<in> {OpCall, OpRecur} \<Longrightarrow> closed (compileRecur ce op pos args)" "closed (compileCall ce pos f args)"
  by (auto simp: compileRecur_def compileCall_def intro!: closed_intros intro!: trip_bind[OF closed_args])

lemma closed_handler [closed_intros]: "closed (selectHandlerBody ce h pos)"
  by (cases h) (auto simp: selectHandlerBody_def Let_def intro!: closed_intros)

lemma trip_selectCase: "trip {} (compileSelectCase ce cs) (\<lambda>s. Index ` set (spec_fns s))"
proof -
  have handler: "trip A (if no_expr h then cret (SelectCaseSpec k p a b c d (- 1))
      else cbind (emitThunk (selectHandlerBody ce h pos) [''__select_value''] pos)
             (\<lambda>h. cret (SelectCaseSpec k p a b c d (int h)))) (\<lambda>s. Index ` set (spec_fns s))"
    if "Index ` {a, b, c, d} \<subseteq> insert (Index (- 1)) A" "\<And>i. Hole i \<notin> A" for A h k p a b c d pos
    using that
    by (auto intro!: trip_ret_weak trip_bind[OF trip_thunk] closed_handler simp: spec_fns_def)
  show ?thesis
  proof (cases "sc_Kind cs = SelectDefault")
    case True
    then show ?thesis unfolding compileSelectCase_def Let_def by (simp only: SelectCaseType.case, intro handler) auto
  next
    case False
    then show ?thesis
      by (cases "sc_Kind cs")
        (auto simp: compileSelectCase_def Let_def intro!: trip_bind[OF trip_thunk] closed_ce handler)
  qed
qed

lemma closed_select [closed_intros]: "closed (compileSelectExpression ce pos css)"
proof -
  have "trip {} (compileSelectCases ce css) (\<lambda>ss. \<Union>s\<in>set ss. Index ` set (spec_fns s))"
  proof (induction css)
    case (Cons cs css)
    show ?case
      by (simp, rule trip_bind, rule trip_selectCase, rule trip_bind, rule trip_frame, rule Cons.IH, simp, rule trip_ret) simp
  qed (simp add: trip_ret)
  then show ?thesis
    unfolding compileSelectExpression_def by (rule trip_bind) (rule trip_OpSelect, auto)
qed

lemma trip_params:
  "trip {} (compileParams ce pos ps) (\<lambda>vps. \<Union>p\<in>set vps. Done ` set_option (vp_Default p))"
proof -
  have "f = ce \<Longrightarrow> trip {} (compileParams f pos ps) (\<lambda>vps. \<Union>p\<in>set vps. Done ` set_option (vp_Default p))" for f
  proof (induction f pos ps rule: compileParams.induct)
    case (2 f pos p ps)
    have "trip {} (if no_expr (fp_Default p) then cret None
            else cbind (childChunk (cthen (f (fp_Default p)) (emitI (ins OpReturn pos)))) (\<lambda>ch. cret (Some ch)))
        (\<lambda>d. Done ` set_option d)"
      using 2(2) closed_ce by (auto intro!: trip_ret trip_bind[OF trip_childChunk])
    then show ?case
      unfolding compileParams.simps
      by (rule trip_bind) (rule trip_bind, rule trip_frame, rule 2, rule 2, simp, rule trip_ret, auto)
  qed (simp add: trip_ret)
  then show ?thesis by simp
qed

lemma markRoot_nth:
  "length (markRoot is) = length is"
  "i < length is \<Longrightarrow> \<exists>s. markRoot is ! i = set_StrArg s (is ! i)"
proof -
  have same: "\<exists>s. x = set_StrArg s x" for x
    by (rule exI[of _ "StrArg x"]) (cases x, simp add: set_StrArg_def)
  show "length (markRoot is) = length is" by (simp add: markRoot_def Let_def)
  show "i < length is \<Longrightarrow> \<exists>s. markRoot is ! i = set_StrArg s (is ! i)"
    using same by (cases "is = []") (auto simp: markRoot_def Let_def nth_list_update set_StrArg_def)
qed

lemma instr_ok_set_StrArg [simp]: "instr_ok i n k (set_StrArg s x) = instr_ok i n k x"
  by (simp add: instr_ok_def set_StrArg_def)

lemma built_markRoot:
  assumes "built (Chunk [] []) {} (Chunk is ks)"
  shows "built (Chunk [] []) {} (Chunk (markRoot is) ks)"
proof -
  have "instr_ok i (length is) (length ks) (markRoot is ! i)" if "i < length is" for i
    using markRoot_nth(2)[OF that] assms that by (auto simp: built_def)
  then show ?thesis using assms by (auto simp: built_def markRoot_nth(1))
qed

lemma closed_function: 
  "trip {} (compileFunctionLiteral ce pos tps sig ps rt body) (\<lambda>f. {Done (fn_Chunk f)} \<union> (\<Union>p\<in>set (fn_Params f). Done ` set_option (vp_Default p)))"
proof -
  have "built (Chunk [] []) {} (Chunk [] [])" by (simp add: built_def)
  then have b: "case compileBlock ce body (Chunk [] []) of Inl e \<Rightarrow> True | Inr (a, c') \<Rightarrow> built (Chunk [] []) {} c'"
    using closed_block unfolding trip_def by (metis Un_empty)
  have "chunk_ok (Chunk (markRoot (Instructions ch) @ [ins OpReturn pos]) (Constants ch))"
    if "built (Chunk [] []) {} ch" for ch
    using built_return[OF built_markRoot, of "Instructions ch" "Constants ch"] that by simp
  then have *: "trip A (childChunk (compileBlock ce body))
      (\<lambda>ch. insert (Done (Chunk (markRoot (Instructions ch) @ [ins OpReturn pos]) (Constants ch))) A)" for A
    using b by (auto simp: trip_def childChunk_def built_def split: sum.splits prod.splits)
  show ?thesis
    unfolding compileFunctionLiteral_def
    by (rule trip_bind, rule trip_params, rule trip_bind, rule *, rule trip_ret) simp
qed

lemma closed_infix [closed_intros]: "closed (compileInfix ce pos l op r)"
proof -
  have "closed (compileShortCircuit ce pos l op r)"
  proof (cases "op = ''&&''")
    case True
    show ?thesis
      unfolding compileShortCircuit_def if_P[OF True] cseq.simps
      by (rule closed_then[OF closed_ce], rule jump_then,
          rule closed_then[OF closed_ce], rule jump_then, subst insert_commute, rule patch_then,
          rule closed_then, (auto intro!: closed_intros)[1], rule patch_then, rule closed_ret)
  next
    case False
    show ?thesis
      unfolding compileShortCircuit_def if_not_P[OF False] cseq.simps
      by (rule closed_then[OF closed_ce], rule jump_then,
          rule closed_then, (auto intro!: closed_intros)[1], rule jump_then, subst insert_commute,
          rule patch_then, rule closed_then[OF closed_ce], rule patch_then, rule closed_ret)
  qed
  moreover have "closed (case l of IdentifierExpr i \<Rightarrow> cthen (ce r) (emitName OpAssignGlobal (id_Value i) pos)
         | _ \<Rightarrow> cfail err)" for err
    by (cases l) (auto intro!: closed_intros)
  moreover have "closed (case infixOpcode op of Some opc \<Rightarrow> emitI (ins opc pos) | None \<Rightarrow> cfail err)" for err
    using infixOpcode_simple by (auto intro!: closed_intros split: option.split)
  ultimately show ?thesis
    unfolding compileInfix_def by (auto intro!: closed_intros split: option.split simp del: cseq.simps)
qed

lemma closed_if [closed_intros]: "closed (compileIf ce pos c th el)"
  unfolding compileIf_def cseq.simps
  by (rule closed_then[OF closed_ce], rule jump_then, rule closed_then[OF closed_block], rule jump_then,
      subst insert_commute, rule patch_then, rule closed_then, (auto intro!: closed_intros)[1],
      rule patch_then, rule closed_ret)

lemma closed_exprStep: "closed (exprStep ce e)"
proof (cases e)
  case (FunctionLiteral t tps sig ps rt body tail)
  have k: "trip ({Done (fn_Chunk f)} \<union> (\<Union>p\<in>set (fn_Params f). Done ` set_option (vp_Default p)))
     (emitConstant (FunctionConst f) pos) (\<lambda>_. {})" (is "trip ?A _ _") for f pos
  proof -
    have "trip ?A (emitConstant (FunctionConst f) pos) (\<lambda>_. {})"
      unfolding trip_def
    proof (intro allI impI)
      fix c0 P c assume b: "built c0 (P \<union> ?A) c"
      have "chunk_ok ch" if "Done ch \<in> ?A" for ch using b that unfolding built_def by blast
      then have "const_ok (FunctionConst f)"
        by (subst const_ok.simps) (force split: option.splits)
      then have "closed (emitConstant (FunctionConst f) pos)" by (rule closed_emitConstant)
      moreover have "built c0 (P \<union> {}) c" by (rule built_mono[OF b]) auto
      ultimately show "case emitConstant (FunctionConst f) pos c of Inl e \<Rightarrow> True | Inr (a, c') \<Rightarrow> built c0 (P \<union> {}) c'"
        unfolding trip_def by blast
    qed
    then show ?thesis .
  qed
  show ?thesis
    unfolding FunctionLiteral exprStep.simps by (rule trip_bind, rule closed_function, rule k)
next
  case (BlockExpr b)
  show ?thesis unfolding BlockExpr exprStep.simps by (rule closed_block)
next
  case (SpawnExpression t body)
  then show ?thesis
    by (auto simp: compileSpawn_def intro!: trip_bind[OF trip_thunk] trip_then[OF trip_OpConstant] closed_intros)
next
  case (PrefixExpression t op r)
  then show ?thesis using prefixOpcode_simple by (auto simp: compilePrefix_def intro!: closed_intros split: option.splits)
qed (auto intro!: closed_intros simp: const_ok.simps compileDecl_def compileStructInitField_def
      compileListLiteral_def compileMapLiteral_def compileStructSchema_def compileStructInit_def
      compileStructCopy_def compileIndex_def compileSlice_def
      compileMaybeExpression_def split: sum.splits pattern.splits intro!: closed_bind(1)[OF refl])

end

lemma closed_compileExpression: "closed (compileExpression e)"
proof (induction e rule: measure_induct_rule[of size])
  case (less e)
  define f where "f = (\<lambda>y. if size y < size e then compileExpression y else cret ())"
  have "closed (f y)" for y using less by (auto simp: f_def closed_ret)
  then have "closed (exprStep f e)" by (intro expr_compiler.closed_exprStep expr_compiler.intro)
  moreover have "exprStep compileExpression e = exprStep f e"
    by (rule exprStep_cong) (simp_all add: f_def)
  ultimately show ?case by (simp add: compileExpression.simps)
qed

interpretation slug: expr_compiler compileExpression
  by unfold_locales (rule closed_compileExpression)

lemma closed_program: "closed (compileProgram stmts)"
  unfolding compileProgram_def by (rule closed_seq) (auto simp: slug.closed_stmt)

lemma Compile_built:
  assumes "Compile stmts = Inr c"
  obtains c1 where "built (Chunk [] []) {} c1"
    "c = Chunk (Instructions c1 @ [ins OpReturn 0]) (Constants c1)"
proof -
  have "built (Chunk [] []) {} (Chunk [] [])" by (simp add: built_def)
  then have "case compileProgram stmts (Chunk [] []) of Inl e \<Rightarrow> True | Inr (a, c') \<Rightarrow> built (Chunk [] []) {} c'"
    using closed_program unfolding trip_def by (metis Un_empty)
  then show thesis
    using assms that
    by (auto simp: Compile_def cthen_def cbind_def emitI_def emit_def cret_def split: sum.splits prod.splits)
qed

section \<open>Control flow\<close>

text \<open>
  Control flow inside one chunk: the next instruction, or the target of a jump; \<open>OpReturn\<close>
  and \<open>OpThrow\<close> leave the chunk. \<open>OpRecur\<close> pushes a signal and goes on.
\<close>

inductive flow :: "Chunk \<Rightarrow> nat \<Rightarrow> nat \<Rightarrow> bool" for c where
  flow_next: "pc < length (Instructions c) \<Longrightarrow> Op (Instructions c ! pc) \<notin> {OpJump, OpReturn, OpThrow} \<Longrightarrow>
    flow c pc (pc + 1)"
| flow_jump: "pc < length (Instructions c) \<Longrightarrow> is_jump (Op (Instructions c ! pc)) \<Longrightarrow>
    IntArg (Instructions c ! pc) = int t \<Longrightarrow> flow c pc t"

inductive_simps flow_iff: "flow c pc pc'"

text \<open>The chunks among the constants of a chunk: function bodies, default values, thunks.\<close>

inductive subchunk :: "Chunk \<Rightarrow> Chunk \<Rightarrow> bool" for c where
  subchunk_refl: "subchunk c c"
| subchunk_fn: "subchunk c d \<Longrightarrow> FunctionConst f \<in> set (Constants d) \<Longrightarrow> subchunk c (fn_Chunk f)"
| subchunk_default: "subchunk c d \<Longrightarrow> FunctionConst f \<in> set (Constants d) \<Longrightarrow> p \<in> set (fn_Params f) \<Longrightarrow>
    vp_Default p = Some e \<Longrightarrow> subchunk c e"

lemma subchunk_ok: "subchunk c d \<Longrightarrow> chunk_ok c \<Longrightarrow> chunk_ok d"
proof (induction rule: subchunk.induct)
  case (subchunk_fn d f)
  then have "const_ok (FunctionConst f)" by (auto simp: chunk_ok.simps)
  then show ?case by (auto simp: const_ok.simps)
next
  case (subchunk_default d f p e)
  then have "const_ok (FunctionConst f)" by (auto simp: chunk_ok.simps)
  then show ?case using subchunk_default by (auto simp: const_ok.simps dest: bspec)
qed

lemma chunk_ok_instr:
  assumes "chunk_ok c" "pc < length (Instructions c)"
  shows "instr_ok pc (length (Instructions c) - 1) (length (Constants c)) (Instructions c ! pc)"
    and "Op (Instructions c ! pc) = OpReturn \<or> pc + 1 < length (Instructions c)"
proof -
  show "instr_ok pc (length (Instructions c) - 1) (length (Constants c)) (Instructions c ! pc)"
    using assms by (simp add: chunk_ok.simps)
  have "Op (last (Instructions c)) = OpReturn" "Instructions c \<noteq> []"
    using assms by (auto simp: chunk_ok.simps)
  then show "Op (Instructions c ! pc) = OpReturn \<or> pc + 1 < length (Instructions c)"
    using assms(2) last_conv_nth[of "Instructions c"]
    by (cases "pc = length (Instructions c) - 1") auto
qed

lemma flow_forward:
  assumes "chunk_ok c" "flow c pc pc'"
  shows "pc < pc' \<and> pc' < length (Instructions c)"
  using assms(2)
proof cases
  case flow_next
  then show ?thesis using chunk_ok_instr(2)[OF assms(1)] by fastforce
next
  case flow_jump
  then show ?thesis using chunk_ok_instr(1)[OF assms(1), of pc] by (auto simp: instr_ok_def)
qed

lemma flow_progress:
  assumes "chunk_ok c" "pc < length (Instructions c)" "Op (Instructions c ! pc) \<notin> {OpReturn, OpThrow}"
  shows "\<exists>pc'. flow c pc pc'"
proof (cases "is_jump (Op (Instructions c ! pc))")
  case True
  then have "IntArg (Instructions c ! pc) = int (nat (IntArg (Instructions c ! pc)))"
    using chunk_ok_instr(1)[OF assms(1,2)] by (auto simp: instr_ok_def)
  then show ?thesis using flow_jump[OF assms(2) True] by blast
next
  case False
  then show ?thesis using flow_next[OF assms(2)] assms(3) by auto
qed

lemma flow_steps:
  assumes "chunk_ok c" "(flow c ^^ n) pc pc'" "pc < length (Instructions c)"
  shows "pc + n \<le> pc' \<and> pc' < length (Instructions c)"
  using assms(2)
proof (induction n arbitrary: pc')
  case (Suc n)
  then obtain q where "(flow c ^^ n) pc q" "flow c q pc'" by auto
  then show ?case using Suc.IH flow_forward[OF assms(1)] by fastforce
qed (use assms in auto)

lemma chunk_ok_Compile: "Compile stmts = Inr c \<Longrightarrow> chunk_ok c"
  using Compile_built built_return by metis

section \<open>Code of a single node\<close>

lemmas cm_simps = cbind_def cthen_def cret_def cfail_def emit_def emitI_def addConstant_def emitConstant_def emitName_def

lemma args_plan:
  assumes "compileArgs ce pos named args c = Inr (plan, c')"
  shows "plan = map (fst \<circ> callArg) args"
    and "named \<Longrightarrow> i < length plan \<Longrightarrow> ca_Kind (plan ! i) = CallArgNamed"
    and "i < j \<Longrightarrow> j < length plan \<Longrightarrow> ca_Kind (plan ! i) = CallArgNamed \<Longrightarrow> ca_Kind (plan ! j) = CallArgNamed"
proof -
  have *: "plan = map (fst \<circ> callArg) args \<and>
    (named \<longrightarrow> (\<forall>i<length plan. ca_Kind (plan ! i) = CallArgNamed)) \<and>
    (\<forall>i j. i < j \<and> j < length plan \<and> ca_Kind (plan ! i) = CallArgNamed \<longrightarrow> ca_Kind (plan ! j) = CallArgNamed)"
    using assms
  proof (induction ce pos named args arbitrary: c c' plan rule: compileArgs.induct)
    case (2 ce pos named arg args)
    obtain spec e where a: "callArg arg = (spec, e)" by (cases "callArg arg")
    with 2(2) obtain c1 rest where c1: "compileArgs ce pos (named \<or> ca_Kind spec = CallArgNamed) args c1 = Inr (rest, c')"
        "plan = spec # rest" and n: "\<not> (named \<and> ca_Kind spec \<noteq> CallArgNamed)"
      by (auto simp: cm_simps split: if_splits sum.splits)
    note IH = 2(1)[OF a[symmetric] n c1(1)]
    show ?case
      using IH n unfolding c1(2)
      by (auto simp: a nth_Cons split: nat.splits) (metis comp_apply nth_map less_trans)
  qed (simp add: cret_def)
  show "plan = map (fst \<circ> callArg) args" using * by blast
  show "named \<Longrightarrow> i < length plan \<Longrightarrow> ca_Kind (plan ! i) = CallArgNamed" using * by blast
  show "i < j \<Longrightarrow> j < length plan \<Longrightarrow> ca_Kind (plan ! i) = CallArgNamed \<Longrightarrow> ca_Kind (plan ! j) = CallArgNamed"
    using * by blast
qed

section \<open>Properties\<close>

text \<open>C3: every chunk that \<open>Compile\<close> returns, and every chunk nested in its constants, is well formed:
  it ends in a return, each jump goes forward and stays inside the chunk, and each constant and
  select thunk that an instruction names exists.\<close>

theorem compile_well_formed:
  assumes "Compile stmts = Inr c" "subchunk c d"
  shows "chunk_ok d"
  using subchunk_ok[OF assms(2)] chunk_ok_Compile[OF assms(1)] .

text \<open>C4: a path through a compiled chunk has fewer steps than the chunk has instructions, and it
  ends only at a return or a throw: the code of one chunk cannot loop or run off its end.\<close>

theorem compiled_flow_terminates:
  assumes "Compile stmts = Inr c" "subchunk c d" "(flow d ^^ n) 0 pc"
  shows "n < length (Instructions d) \<and> pc < length (Instructions d) \<and>
    (Op (Instructions d ! pc) \<in> {OpReturn, OpThrow} \<or> (\<exists>pc'. flow d pc pc'))"
proof -
  have ok: "chunk_ok d" using subchunk_ok[OF assms(2)] chunk_ok_Compile[OF assms(1)] .
  then have "0 < length (Instructions d)" by (simp add: chunk_ok.simps)
  then show ?thesis using flow_steps[OF ok assms(3)] flow_progress[OF ok, of pc] by fastforce
qed

text \<open>
  compiling an expression only appends: the instructions and constants already in the
  chunk are unchanged, and the jumps of the new code stay within it.\<close>

theorem compile_expression_appends:
  assumes "compileExpression e (Chunk is ks) = Inr ((), c)"
  shows "\<exists>js ls. c = Chunk (is @ js) (ks @ ls) \<and>
    (\<forall>i<length js. instr_ok (length is + i) (length (is @ js)) (length (ks @ ls)) (js ! i))"
proof -
  have "built (Chunk is ks) {} (Chunk is ks)" by (auto simp: built_def)
  then have "case compileExpression e (Chunk is ks) of Inl e \<Rightarrow> True | Inr (a, c') \<Rightarrow> built (Chunk is ks) {} c'"
    using closed_compileExpression unfolding trip_def by (metis Un_empty)
  then have b: "built (Chunk is ks) {} c" by (simp add: assms)
  obtain is' ks' where c: "c = Chunk is' ks'" by (cases c)
  have "is' = is @ drop (length is) is'" "ks' = ks @ drop (length ks) ks'"
    using b by (auto simp: built_def c) (metis append_take_drop_id)+
  then obtain js ls where "is' = is @ js" "ks' = ks @ ls" by blast
  then show ?thesis
    using b by (auto simp: built_def c) (metis add_less_cancel_left le_add1 nth_append_length_plus)
qed

text \<open>
  the peephole rules are equivalences: \<open>l + [x]\<close> compiles to the code of \<open>l :+ x\<close>, and
  \<open>[x] + r\<close> to that of \<open>x +: r\<close> when \<open>r\<close> is not itself a one-element list literal.\<close>

theorem list_concat_peephole:
  "singleElementListLiteral xs = Some x \<Longrightarrow>
    compileExpression (InfixExpression t l ''+'' xs) = compileExpression (InfixExpression t l '':+'' x) \<and>
    (singleElementListLiteral l = None \<longrightarrow>
      compileExpression (InfixExpression t xs ''+'' l) = compileExpression (InfixExpression t x ''+:'' l))"
  by (simp add: compileExpression.simps compileInfix_def infixOpcode_def)

text \<open>
  a call that compiles has a plan with one entry per argument, each of the kind of its
  argument, and once an argument is named all later ones are.\<close>

theorem call_plan_named_last:
  assumes "compileArgs ce pos False args c = Inr (plan, c')"
  shows "plan = map (fst \<circ> callArg) args \<and>
    (\<forall>i j. i < j \<and> j < length plan \<and> ca_Kind (plan ! i) = CallArgNamed \<longrightarrow> ca_Kind (plan ! j) = CallArgNamed)"
  using args_plan[OF assms] by blast

text \<open>
  the code that binds the rest of a list (\<open>[..., ...v]\<close> in \<open>val\<close> or \<open>var\<close>) builds a slice
  object and stores that in the variable: no index instruction applies it to the list.\<close>

theorem list_bind_spread_no_index:
  "compileBindPattern ce (ListPattern t (map WildcardPattern ts @ [SpreadPattern t' (Some v)])) isConst pos (Chunk is ks) =
   Inr ((), Chunk (is @ [ins OpDup pos, ins_int OpConstant (int (length ks)) pos, ins OpNil pos, ins OpNil pos,
                         ins OpSlice pos, ins_str (setOp isConst) (id_Value v) pos, ins OpPop pos])
                  (ks @ [NumberConst (FromInt (int (length ts)))]))"
proof -
  have "bindElems ce n i (map WildcardPattern ts @ [SpreadPattern t' (Some v)]) isConst pos (Chunk is ks) =
    Inr ((), Chunk (is @ [ins OpDup pos, ins_int OpConstant (int (length ks)) pos, ins OpNil pos, ins OpNil pos,
                         ins OpSlice pos, ins_str (setOp isConst) (id_Value v) pos, ins OpPop pos])
                  (ks @ [NumberConst (FromInt (int (i + length ts)))]))" if "n = i + length ts + 1" for n i
    using that
    by (induction ts arbitrary: i) (simp_all add: cm_simps emitNumberConstant_def bindIdent_def add.assoc)
  from this[of "length ts + 1" 0] show ?thesis by (subst compileBindPattern.simps) simp
qed


text \<open>A program with nested code: \<open>if\<close>, a match, a function with a default value, a \<open>defer\<close> call.\<close>

definition sample_token :: Token where
  "sample_token = Token [] [] 7"

definition sample_program :: "stmt list" where
  "sample_program =
     (let t = sample_token; x = Identifier t ''x''; num = (\<lambda>n. NumberLiteral t (FromInt n));
          blk = (\<lambda>e. BlockStatement t [ExpressionStatement t e] False NoExpr)
      in [ExpressionStatement t
            (IfExpression t (IdentifierExpr x) (Some (blk (num 1))) None),
          ExpressionStatement t
            (FunctionLiteral t [] (FSig [] 0 1 False)
               [FunctionParameter [] x [] (num 2) False] []
               (Some (blk (MatchExpression t (IdentifierExpr x)
                  [MatchCase t (ListPattern t [IdentifierPattern t x, SpreadPattern t None]) NoExpr
                     (Some (blk (IdentifierExpr x)))]))) False),
          ReturnStatement t (CallExpression t (IdentifierExpr x)
            [num 3, NamedArgument t x (num 4)] False)])"

definition sample_chunk :: Chunk where
  "sample_chunk = (case Compile sample_program of Inr c \<Rightarrow> c | Inl e \<Rightarrow> Chunk [] [])"

lemma sample_compiles: "Compile sample_program = Inr sample_chunk"
  by (simp add: sample_chunk_def) code_simp


section \<open>Witnesses\<close>

theorem compile_well_formed_witness: "chunk_ok sample_chunk"
  by (rule compile_well_formed[OF sample_compiles subchunk_refl])

theorem compiled_flow_terminates_witness:
  "1 < length (Instructions sample_chunk) \<and> 1 < length (Instructions sample_chunk) \<and>
    (Op (Instructions sample_chunk ! 1) \<in> {OpReturn, OpThrow} \<or> (\<exists>pc'. flow sample_chunk 1 pc'))"
proof -
  have "flow sample_chunk 0 (0 + 1)"
    by (rule flow_next) code_simp+
  then have "(flow sample_chunk ^^ 1) 0 1" by (simp add: relcompp_apply)
  then show ?thesis by (rule compiled_flow_terminates[OF sample_compiles subchunk_refl])
qed

theorem compile_expression_appends_witness:
  "\<exists>js ls. Chunk ([ins OpPop 3] @ [ins OpNil 7, ins OpAwait 7]) [] = Chunk ([ins OpPop 3] @ js) ([] @ ls) \<and>
    (\<forall>i<length js. instr_ok (length [ins OpPop 3] + i) (length ([ins OpPop 3] @ js)) (length ([] @ ls)) (js ! i))"
  by (rule compile_expression_appends[of "AwaitExpression sample_token (NilLiteral sample_token)"])
    (simp add: compileExpression.simps cm_simps sample_token_def)

theorem list_concat_peephole_witness:
  "compileExpression (InfixExpression sample_token (Boolean sample_token True) ''+''
      (ListLiteral sample_token [NilLiteral sample_token])) =
     compileExpression (InfixExpression sample_token (Boolean sample_token True) '':+'' (NilLiteral sample_token)) \<and>
   compileExpression (InfixExpression sample_token (ListLiteral sample_token [NilLiteral sample_token]) ''+''
      (Boolean sample_token True)) =
     compileExpression (InfixExpression sample_token (NilLiteral sample_token) ''+:'' (Boolean sample_token True))"
  using list_concat_peephole[of "ListLiteral sample_token [NilLiteral sample_token]" "NilLiteral sample_token"
      sample_token "Boolean sample_token True"]
  by (simp add: singleElementListLiteral_def)

theorem call_plan_named_last_witness:
  "[CallArgSpec CallArgPositional [], CallArgSpec CallArgNamed ''x''] =
     map (fst \<circ> callArg) [NilLiteral sample_token, NamedArgument sample_token (Identifier sample_token ''x'') (NilLiteral sample_token)]"
  using call_plan_named_last[of compileExpression 0
      "[NilLiteral sample_token, NamedArgument sample_token (Identifier sample_token ''x'') (NilLiteral sample_token)]"
      "Chunk [] []" "[CallArgSpec CallArgPositional [], CallArgSpec CallArgNamed ''x'']"
      "Chunk [ins OpNil 7, ins OpNil 7] []"]
  by (simp add: compileExpression.simps cm_simps sample_token_def callArg_def)

end
