(* ===== verification/Value.thy ===== *)
theory Value
  imports MapStorage Bytecode
begin

text \<open>
  Objects of the language: the types of \<open>internal/object/object.go\<close> and the operations on
  values of \<open>internal/vm/executor.go\<close> that need no machine state: map keys, equality,
  arithmetic and comparison, list and bytes operations, indexing and slicing.

  An object that Go compares or mutates by reference carries a reference number; the
  schemas and function groups behind such references are kept in a store. Tag tables, which
  Go keeps on most objects, are kept for maps only. \<open>NIL\<close>, \<open>TRUE\<close> and \<open>FALSE\<close> are
  singletons in Go, so a pointer test is a test of the value here. A map holds the storage
  it has after \<open>ensureStorage\<close>.
\<close>

section \<open>Objects\<close>

datatype StackFrame =
  StackFrame (frame_Function: string) (frame_File: string) (frame_Src: string) (frame_Position: nat)

text \<open>
  The common fields of \<open>Function\<close> and \<open>Foreign\<close>; the parameters may be a nil slice, and a
  \<open>Function\<close> has no name.
\<close>

datatype FnHead =
  FnHead (fh_Signature: FSig) (fh_TypeParams: "string list")
    (fh_Parameters: "expr FunctionParameter list option") (fh_ReturnType: string) (fh_Name: string)

text \<open>
  The fields of \<open>Error\<close> after the reference are the message, the kind, the path, the source
  and the position; those of \<open>RuntimeError\<close> the payload, the stack trace and the cause.
\<close>

datatype (plugins only: code size) obj =
  NilO
| BooleanO bool
| NumberO dec64
| StringO string
| BytesO string
| SymbolO string
| ListO "obj list"
| MapO "string list" "obj MapPair hamtMapStorage"
| StructSchemaO nat
| StructO nat nat "(string \<times> obj) list"
| FunctionO nat FnHead
| VMFunctionO nat VMFunction "nat option"
| FunctionGroupO nat
| ForeignO nat FnHead
| SliceO nat "obj option" "obj option" "obj option"
| ErrorO nat string string string string nat
| RuntimeErrorO nat obj "StackFrame list" "obj option"
| ReturnValueO nat obj
| TaskHandleO nat
| ChannelO nat
| ModuleO nat
| BindingRefO nat "nat option" string
| UninitializedO
| RecurO nat "obj list" "(string \<times> obj) list"

text \<open>\<open>Type()\<close>.\<close>

definition obj_type :: "obj \<Rightarrow> string" where
  "obj_type v =
     (case v of
        NilO \<Rightarrow> ''NIL'' | BooleanO _ \<Rightarrow> ''BOOLEAN'' | NumberO _ \<Rightarrow> ''NUMBER'' | StringO _ \<Rightarrow> ''STRING''
      | BytesO _ \<Rightarrow> ''BYTES'' | SymbolO _ \<Rightarrow> ''SYMBOL'' | ListO _ \<Rightarrow> ''LIST'' | MapO _ _ \<Rightarrow> ''MAP''
      | StructSchemaO _ \<Rightarrow> ''STRUCT_SCHEMA'' | StructO _ _ _ \<Rightarrow> ''STRUCT'' | FunctionO _ _ \<Rightarrow> ''FUNCTION''
      | VMFunctionO _ _ _ \<Rightarrow> ''FUNCTION'' | FunctionGroupO _ \<Rightarrow> ''FUNCTION_GROUP'' | ForeignO _ _ \<Rightarrow> ''FOREIGN''
      | SliceO _ _ _ _ \<Rightarrow> ''SLICE'' | ErrorO _ _ _ _ _ _ \<Rightarrow> ''ERROR'' | RuntimeErrorO _ _ _ _ \<Rightarrow> ''ERROR''
      | ReturnValueO _ _ \<Rightarrow> ''RETURN_VALUE'' | TaskHandleO _ \<Rightarrow> ''TASK'' | ChannelO _ \<Rightarrow> ''CHANNEL''
      | ModuleO _ \<Rightarrow> ''MODULE'' | BindingRefO _ _ _ \<Rightarrow> ''BINDING_REF'' | UninitializedO \<Rightarrow> ''UNINITIALIZED''
      | RecurO _ _ _ \<Rightarrow> ''VM_RECUR'')"

definition obj_ref :: "obj \<Rightarrow> nat option" where
  \<comment> \<open>the reference that pointer equality compares\<close>
  "obj_ref v =
     (case v of
        StructSchemaO r \<Rightarrow> Some r | StructO r _ _ \<Rightarrow> Some r | FunctionO r _ \<Rightarrow> Some r
      | VMFunctionO r _ _ \<Rightarrow> Some r | FunctionGroupO r \<Rightarrow> Some r | ForeignO r _ \<Rightarrow> Some r
      | SliceO r _ _ _ \<Rightarrow> Some r | ErrorO r _ _ _ _ _ \<Rightarrow> Some r | RuntimeErrorO r _ _ _ \<Rightarrow> Some r
      | ReturnValueO r _ \<Rightarrow> Some r | TaskHandleO r \<Rightarrow> Some r | ChannelO r \<Rightarrow> Some r | ModuleO r \<Rightarrow> Some r
      | BindingRefO r _ _ \<Rightarrow> Some r | UninitializedO \<Rightarrow> Some 0 | RecurO r _ _ \<Rightarrow> Some r
      | _ \<Rightarrow> None)"

definition isTruthy :: "obj \<Rightarrow> bool" where
  "isTruthy v = (case v of NilO \<Rightarrow> False | BooleanO b \<Rightarrow> b | _ \<Rightarrow> True)"

definition nilIfNilObject :: "obj \<Rightarrow> obj option" where
  "nilIfNilObject v = (case v of NilO \<Rightarrow> None | _ \<Rightarrow> Some v)"

section \<open>Map keys\<close>

text \<open>\<open>fnv.New64a\<close> over a byte sequence.\<close>

definition fnv64a :: "string \<Rightarrow> 64 word" where
  "fnv64a s = foldl (\<lambda>h c. (h XOR of_char c) * 1099511628211) 14695981039346656037 s"

text \<open>
  \<open>MapKey()\<close> of the hashable objects. A string is hashed rune by rune; \<open>sid\<close> gives the
  number of an interned symbol.
\<close>

definition obj_MapKey :: "(string \<Rightarrow> 64 word) \<Rightarrow> obj \<Rightarrow> MapKey option" where
  "obj_MapKey sid v =
     (case v of
        NumberO n \<Rightarrow> Some (MapKey ''NUMBER'' (word_of_int (ToInt64 n)))
      | BooleanO b \<Rightarrow> Some (MapKey ''BOOLEAN'' (if b then 1 else 0))
      | StringO s \<Rightarrow> Some (MapKey ''STRING'' (fnv64a (concat (map EncodeRune (runes s)))))
      | BytesO s \<Rightarrow> Some (MapKey ''BYTES'' (fnv64a s))
      | SymbolO s \<Rightarrow> Some (MapKey ''SYMBOL'' (sid s))
      | _ \<Rightarrow> None)"

unbundle bit_operations_syntax

text \<open>The symbol table: numbers are given in order of first use.\<close>

definition InternSymbol :: "(string \<times> nat) list \<times> nat \<Rightarrow> string \<Rightarrow> nat \<times> (string \<times> nat) list \<times> nat" where
  "InternSymbol tab name =
     (case tab of
        (entries, last_id) \<Rightarrow>
          (case map_of entries name of
             Some i \<Rightarrow> (i, entries, last_id)
           | None \<Rightarrow> (last_id + 1, (name, last_id + 1) # entries, last_id + 1)))"

section \<open>Equality\<close>

definition snoc_entry :: "MapKey \<Rightarrow> 'p \<Rightarrow> (MapKey \<times> 'p) list \<Rightarrow> (MapKey \<times> 'p) list \<times> bool" where
  "snoc_entry k p acc = (acc @ [(k, p)], True)"

lemma hamtForEach_collect:
  "fn = snoc_entry \<Longrightarrow> snd ` set (fst (hamtForEach n fn acc)) \<subseteq>
     snd ` set acc \<union> (case n of None \<Rightarrow> {} | Some m \<Rightarrow> set_hnode m)"
  "fn = snoc_entry \<Longrightarrow> snd ` set (fst (hamtForEach_leaves ls fn acc)) \<subseteq> snd ` set acc \<union> snd ` set ls"
  "fn = snoc_entry \<Longrightarrow> snd ` set (fst (hamtForEach_branch bm ch fn acc)) \<subseteq>
     snd ` set acc \<union> (\<Union>c\<in>set ch. \<Union>m\<in>set_option c. set_hnode m)"
proof (induction n fn acc and ls fn acc and bm ch fn acc
    rule: hamtForEach_hamtForEach_leaves_hamtForEach_branch.induct)
  case (6 bm ch fn s)
  show ?case
  proof (cases "bm = 0")
    case True
    then show ?thesis by (simp add: hamtForEach_branch.simps)
  next
    case False
    obtain s' go where n: "hamtForEach (child ch (trailingSegment bm)) fn s = (s', go)"
      by (rule prod.exhaust)
    define U where "U = (\<Union>c\<in>set ch. \<Union>m\<in>set_option c. set_hnode m)"
    define C where "C = (case child ch (trailingSegment bm) of None \<Rightarrow> {} | Some m \<Rightarrow> set_hnode m)"
    have 1: "C \<subseteq> U"
    proof (cases "child ch (trailingSegment bm)")
      case (Some m)
      then have "Some m \<in> set ch" by (auto simp: child_def in_set_conv_nth split: if_splits)
      then show ?thesis using Some unfolding C_def U_def by force
    qed (simp add: C_def)
    have 2: "snd ` set s' \<subseteq> snd ` set s \<union> C"
      using 6(1)[OF False 6(3)] unfolding n C_def by simp
    have 3: "snd ` set (fst (hamtForEach_branch (bm AND (bm - 1)) ch fn s')) \<subseteq> snd ` set s' \<union> U" if go
      using 6(2)[OF False refl n[symmetric] _ 6(3)] that unfolding U_def by simp
    have 4: "hamtForEach_branch bm ch fn s =
        (if \<not> go then (s', False) else hamtForEach_branch (bm AND (bm - 1)) ch fn s')"
      using False n by (subst hamtForEach_branch.simps) simp
    show ?thesis
    proof (cases go)
      case True
      have "snd ` set (fst (hamtForEach_branch bm ch fn s)) \<subseteq> snd ` set s' \<union> U" using 3 True 4 by simp
      also have "\<dots> \<subseteq> snd ` set s \<union> U" using 1 2 by blast
      finally show ?thesis unfolding U_def .
    next
      case False
      then have "snd ` set (fst (hamtForEach_branch bm ch fn s)) = snd ` set s'" using 4 by simp
      then show ?thesis unfolding U_def[symmetric] using 1 2 by blast
    qed
  qed
next
  case (5 k p ls fn s)
  then show ?case by (auto simp: snoc_entry_def)
next
  case (2 leaves fn s)
  have "(\<Union>x\<in>set leaves. Basic_BNFs.snds x) = snd ` set leaves"
    by (force simp: snds.simps)
  then show ?case using 2 by auto
qed simp_all

lemma collect_entries_values:
  fixes st :: "'p hamtMapStorage"
  shows "snd ` set (collect_entries st) \<subseteq> set_hamtMapStorage st"
proof -
  have "(\<lambda>k (p :: 'p) acc. (acc @ [(k, p)], True)) = snoc_entry" by (intro ext) (simp add: snoc_entry_def)
  then have "snd ` set (collect_entries st) \<subseteq> (case hms_root st of None \<Rightarrow> {} | Some m \<Rightarrow> set_hnode m)"
    unfolding collect_entries_def storage_forEach_def
    using hamtForEach_collect(1)[of snoc_entry "hms_root st" "[]"] by simp
  then show ?thesis by (cases st) (auto split: option.splits)
qed

lemma size_hnode_mem: "p \<in> set_hnode n \<Longrightarrow> f p < size_hnode f n"
proof (induction n)
  case (Bucket ls)
  then obtain k where "(k, p) \<in> set ls" by auto
  then have "size_prod (\<lambda>_. 0) f (k, p) \<le> size_list (size_prod (\<lambda>_. 0) f) ls"
    by (intro size_list_estimation') auto
  then show ?case by simp
next
  case (Branch bm ch)
  then obtain c m where "c \<in> set ch" "c = Some m" "f p < size_hnode f m" by force
  moreover from this have "size_option (size_hnode f) c \<le> size_list (size_option (size_hnode f)) ch"
    by (intro size_list_estimation') auto
  ultimately show ?case by simp
qed

lemma size_entries:
  "(k, p) \<in> set (collect_entries st) \<Longrightarrow> f p < size_hamtMapStorage f st"
proof -
  assume "(k, p) \<in> set (collect_entries st)"
  then have "p \<in> set_hamtMapStorage st" using collect_entries_values by fastforce
  then obtain m where "hms_root st = Some m" "p \<in> set_hnode m" by (cases st) (auto split: option.splits)
  then show ?thesis using size_hnode_mem[of p m f] by (cases st) auto
qed

text \<open>
  \<open>objectsEqual\<close>. The loop over the entries of a map stops at the first mismatch, which makes
  it the test that every entry matches.
\<close>

function objectsEqual :: "obj \<Rightarrow> obj \<Rightarrow> bool" where
  "objectsEqual a b \<longleftrightarrow>
     obj_type a = obj_type b \<and>
     (case a of
        NumberO x \<Rightarrow> (case b of NumberO y \<Rightarrow> dec_Eq x y | _ \<Rightarrow> False)
      | BooleanO x \<Rightarrow> b = BooleanO x
      | StringO x \<Rightarrow> b = StringO x
      | SymbolO x \<Rightarrow> b = SymbolO x
      | NilO \<Rightarrow> True
      | ListO xs \<Rightarrow>
          (case b of
             ListO ys \<Rightarrow> length xs = length ys \<and> (\<forall>p\<in>set (zip xs ys). objectsEqual (fst p) (snd p))
           | _ \<Rightarrow> False)
      | BytesO x \<Rightarrow> b = BytesO x
      | MapO _ st \<Rightarrow>
          (case b of
             MapO _ st' \<Rightarrow>
               storage_len st = storage_len st' \<and>
               (\<forall>e\<in>set (collect_entries st).
                  case storage_get st' (fst e) of
                    None \<Rightarrow> False
                  | Some q \<Rightarrow> objectsEqual (mp_Value (snd e)) (mp_Value q))
           | _ \<Rightarrow> False)
      | _ \<Rightarrow> obj_ref a = obj_ref b)"
  by pat_completeness auto
termination
proof (relation "measure (\<lambda>(a, b). size a)", goal_cases)
  case 1
  show ?case by simp
next
  case (2 a b xs ys z)
  then have "size (fst z) < size_list size xs" by (metis in_set_zipE prod.collapse size_mem)
  with 2 show ?case by (simp add: case_prod_beta)
next
  case (3 a b tags st tags' st' z q)
  have "size_MapPair size (snd z) < size_hamtMapStorage (size_MapPair size) st"
    using 3 by (intro size_entries[of "fst z"]) simp
  moreover have "size (mp_Value (snd z)) < size_MapPair size (snd z)" by (cases "snd z") simp
  ultimately show ?case using 3 by simp
qed

declare objectsEqual.simps [simp del]

section \<open>Arithmetic, comparison and concatenation\<close>

text \<open>
  An operation returns the error message it raises, with \<open>panic\<close> for the cases in which the
  Go code panics.
\<close>

datatype fault = Raise string | Panic string

definition type_mismatch :: "obj \<Rightarrow> string \<Rightarrow> obj \<Rightarrow> fault" where
  "type_mismatch l op r =
     Raise (''type mismatch: '' @ obj_type l @ '' '' @ op @ '' '' @ obj_type r)"

definition binaryOpName :: "Opcode \<Rightarrow> string" where
  "binaryOpName op =
     (case op of
        OpAdd \<Rightarrow> ''+'' | OpSub \<Rightarrow> ''-'' | OpMul \<Rightarrow> ''*'' | OpDiv \<Rightarrow> ''/'' | OpMod \<Rightarrow> ''%''
      | OpEqual \<Rightarrow> ''=='' | OpNotEqual \<Rightarrow> ''!='' | OpGreaterThan \<Rightarrow> ''>'' | OpGreaterThanEqual \<Rightarrow> ''>=''
      | OpLessThan \<Rightarrow> ''<'' | OpLessThanEqual \<Rightarrow> ''<='' | OpBitAnd \<Rightarrow> ''&'' | OpBitOr \<Rightarrow> ''|''
      | OpBitXor \<Rightarrow> ''^'' | OpShiftLeft \<Rightarrow> ''<<'' | OpShiftRight \<Rightarrow> ''>>'' | _ \<Rightarrow> ''<?>'')"

text \<open>Decimal digits of an integer, as \<open>fmt\<close> prints it.\<close>

definition show_int :: "int \<Rightarrow> string" where
  "show_int i = (if i < 0 then CHR ''-'' # show_nat (nat (- i)) else show_nat (nat i))"

definition numberToByte :: "dec64 \<Rightarrow> string + char" where
  "numberToByte n =
     (let v = ToInt64 n
      in if v < 0 \<or> v > 255 then Inl (''value out of byte range: '' @ show_int v) else Inr (char_of (nat v)))"

definition byte_op :: "Opcode \<Rightarrow> char \<Rightarrow> char \<Rightarrow> char" where
  "byte_op op a b =
     (let x = of_char a :: 8 word; y = of_char b
      in char_of (unat (case op of OpBitAnd \<Rightarrow> x AND y | OpBitOr \<Rightarrow> x OR y | OpBitXor \<Rightarrow> x XOR y | _ \<Rightarrow> 0)))"

definition doBytesBitwise :: "string \<Rightarrow> string \<Rightarrow> Opcode \<Rightarrow> obj" where
  "doBytesBitwise left right op =
     (let (long, short) = (if length left \<ge> length right then (left, right) else (right, left))
      in if short = [] then BytesO []
         else BytesO (map (\<lambda>i. byte_op op (long ! i) (short ! (i mod length short))) [0..<length long]))"

definition evalBytesBitwise :: "Opcode \<Rightarrow> obj \<Rightarrow> obj \<Rightarrow> obj option" where
  "evalBytesBitwise op left right =
     (case (left, right) of
        (BytesO l, BytesO r) \<Rightarrow> Some (doBytesBitwise l r op)
      | (BytesO l, NumberO n) \<Rightarrow>
          (case numberToByte n of Inl _ \<Rightarrow> None | Inr b \<Rightarrow> Some (doBytesBitwise l [b] op))
      | (NumberO n, BytesO r) \<Rightarrow>
          (case numberToByte n of Inl _ \<Rightarrow> None | Inr b \<Rightarrow> Some (doBytesBitwise [b] r op))
      | _ \<Rightarrow> None)"

text \<open>\<open>strings.Repeat\<close>, which panics when the result is too long for an \<open>int\<close>.\<close>

definition Repeat :: "string \<Rightarrow> int \<Rightarrow> fault + string" where
  "Repeat s n =
     (if int (length s) * n > max_int64 then Inl (Panic ''strings: Repeat output length overflow'')
      else Inr (concat (replicate (nat n) s)))"

text \<open>The order operators on two values of one type, from a strict and a weak order.\<close>

definition order_result :: "Opcode \<Rightarrow> bool \<Rightarrow> bool \<Rightarrow> bool \<Rightarrow> bool \<Rightarrow> bool" where
  "order_result op gt gte lt lte =
     (case op of OpGreaterThan \<Rightarrow> gt | OpGreaterThanEqual \<Rightarrow> gte | OpLessThan \<Rightarrow> lt | _ \<Rightarrow> lte)"

definition evalOrder :: "Opcode \<Rightarrow> obj \<Rightarrow> obj \<Rightarrow> fault + obj" where
  "evalOrder op left right =
     (case (left, right) of
        (NumberO a, NumberO b) \<Rightarrow>
          Inr (BooleanO (order_result op (dec_Gt a b) (dec_Gte a b) (dec_Lt a b) (dec_Lte a b)))
      | (StringO a, StringO b) \<Rightarrow> Inr (BooleanO (order_result op (a > b) (a \<ge> b) (a < b) (a \<le> b)))
      | (SymbolO a, SymbolO b) \<Rightarrow> Inr (BooleanO (order_result op (a > b) (a \<ge> b) (a < b) (a \<le> b)))
      | _ \<Rightarrow> Inl (type_mismatch left (binaryOpName op) right))"

definition evalAdd :: "(obj \<Rightarrow> string) \<Rightarrow> obj \<Rightarrow> obj \<Rightarrow> fault + obj" where
  "evalAdd insp left right =
     (case (left, right) of
        (NumberO a, NumberO b) \<Rightarrow> Inr (NumberO (dec_Add a b))
      | (StringO a, StringO b) \<Rightarrow> Inr (StringO (a @ b))
      | (StringO a, _) \<Rightarrow> Inr (StringO (a @ insp right))
      | (_, StringO b) \<Rightarrow> Inr (StringO (insp left @ b))
      | (ListO a, ListO b) \<Rightarrow> Inr (ListO (a @ b))
      | (BytesO a, BytesO b) \<Rightarrow> Inr (BytesO (a @ b))
      | _ \<Rightarrow> Inl (type_mismatch left ''+'' right))"

definition evalMul :: "obj \<Rightarrow> obj \<Rightarrow> fault + obj" where
  "evalMul left right =
     (case (left, right) of
        (NumberO a, NumberO b) \<Rightarrow> Inr (NumberO (dec_Mul a b))
      | (StringO s, NumberO n) \<Rightarrow>
          (let times = ToInt64 n
           in if times < 0
              then Inl (Raise (''repetition count must be a non-negative NUMBER, got '' @ show_int times))
              else map_sum id StringO (Repeat s times))
      | _ \<Rightarrow> Inl (type_mismatch left ''*'' right))"

definition evalNumbers :: "(dec64 \<Rightarrow> dec64 \<Rightarrow> dec64) \<Rightarrow> string \<Rightarrow> obj \<Rightarrow> obj \<Rightarrow> fault + obj" where
  "evalNumbers f name left right =
     (case (left, right) of
        (NumberO a, NumberO b) \<Rightarrow> Inr (NumberO (f a b))
      | _ \<Rightarrow> Inl (type_mismatch left name right))"

definition evalBitwise :: "Opcode \<Rightarrow> (dec64 \<Rightarrow> dec64 \<Rightarrow> dec64) \<Rightarrow> obj \<Rightarrow> obj \<Rightarrow> fault + obj" where
  "evalBitwise op f left right =
     (case (left, right) of
        (NumberO a, NumberO b) \<Rightarrow> Inr (NumberO (f a b))
      | _ \<Rightarrow>
          (case evalBytesBitwise op left right of
             Some v \<Rightarrow> Inr v
           | None \<Rightarrow> Inl (type_mismatch left (binaryOpName op) right)))"

text \<open>\<open>evalBinary\<close> on the two operands; \<open>insp\<close> stands for \<open>Inspect()\<close>.\<close>

definition evalBinary :: "(obj \<Rightarrow> string) \<Rightarrow> Opcode \<Rightarrow> obj \<Rightarrow> obj \<Rightarrow> fault + obj" where
  "evalBinary insp op left right =
     (case op of
        OpAdd \<Rightarrow> evalAdd insp left right
      | OpSub \<Rightarrow> evalNumbers dec_Sub ''-'' left right
      | OpMul \<Rightarrow> evalMul left right
      | OpDiv \<Rightarrow> evalNumbers (\<lambda>a b. dec_Div a b 14 RoundHalfEven) ''/'' left right
      | OpMod \<Rightarrow>
          (case (left, right) of
             (NumberO a, NumberO b) \<Rightarrow>
               (case dec_Mod a b of
                  Some r \<Rightarrow> Inr (NumberO r)
                | None \<Rightarrow> Inl (Panic ''runtime error: integer divide by zero''))
           | _ \<Rightarrow> Inl (type_mismatch left ''%'' right))
      | OpEqual \<Rightarrow> Inr (BooleanO (objectsEqual left right))
      | OpNotEqual \<Rightarrow> Inr (BooleanO (\<not> objectsEqual left right))
      | OpBitAnd \<Rightarrow> evalBitwise op dec_And left right
      | OpBitOr \<Rightarrow> evalBitwise op dec_Or left right
      | OpBitXor \<Rightarrow> evalBitwise op dec_Xor left right
      | OpShiftLeft \<Rightarrow> evalNumbers dec_ShiftLeft ''<<'' left right
      | OpShiftRight \<Rightarrow> evalNumbers dec_ShiftRight ''>>'' left right
      | _ \<Rightarrow> evalOrder op left right)"

definition evalPrefix :: "Opcode \<Rightarrow> obj \<Rightarrow> fault + obj" where
  \<comment> \<open>the cases \<open>OpBang\<close>, \<open>OpNegate\<close> and \<open>OpBitNot\<close> of the run loop\<close>
  "evalPrefix op v =
     (case op of
        OpBang \<Rightarrow> Inr (BooleanO (\<not> isTruthy v))
      | OpNegate \<Rightarrow>
          (case v of NumberO n \<Rightarrow> Inr (NumberO (dec_Neg n)) | _ \<Rightarrow> Inl (Raise (''unknown operator: -'' @ obj_type v)))
      | _ \<Rightarrow>
          (case v of
             NumberO n \<Rightarrow> Inr (NumberO (dec_Not n))
           | BytesO s \<Rightarrow> Inr (BytesO (map (\<lambda>c. char_of (unat (NOT (of_char c :: 8 word)))) s))
           | _ \<Rightarrow> Inl (Raise (''unknown operator: ~'' @ obj_type v))))"

definition listPrepend :: "obj \<Rightarrow> obj \<Rightarrow> fault + obj" where
  "listPrepend left right =
     (case right of
        ListO xs \<Rightarrow> Inr (ListO (left # xs))
      | BytesO s \<Rightarrow>
          (case left of
             NumberO n \<Rightarrow>
               (case numberToByte n of
                  Inl e \<Rightarrow> Inl (Raise (''cannot convert number to byte: '' @ e))
                | Inr b \<Rightarrow> Inr (BytesO (b # s)))
           | _ \<Rightarrow> Inl (type_mismatch left ''+:'' right))
      | _ \<Rightarrow> Inl (type_mismatch left ''+:'' right))"

definition listAppend :: "obj \<Rightarrow> obj \<Rightarrow> fault + obj" where
  "listAppend left right =
     (case left of
        ListO xs \<Rightarrow> Inr (ListO (xs @ [right]))
      | BytesO s \<Rightarrow>
          (case right of
             NumberO n \<Rightarrow>
               (case numberToByte n of
                  Inl e \<Rightarrow> Inl (Raise (''cannot convert number to byte: '' @ e))
                | Inr b \<Rightarrow> Inr (BytesO (s @ [b])))
           | _ \<Rightarrow> Inl (type_mismatch left '':+'' right))
      | _ \<Rightarrow> Inl (type_mismatch left '':+'' right))"

end
