(* ===== verification/Indexing.thy ===== *)
theory Indexing
  imports Value "HOL-Library.AList"
begin

text \<open>
  Slices and indexing (\<open>computeSliceIndices\<close>, \<open>sequenceSliceLen\<close> and \<open>evalIndex\<close> of
  \<open>internal/vm/executor.go\<close>), and the values of a struct: the fields taken from a map and the
  check of their type tags.
\<close>

section \<open>Slices\<close>

definition slice_bound :: "obj option \<Rightarrow> int \<Rightarrow> fault + int" where
  \<comment> \<open>a bound that is present has to be a number: the type assertion panics otherwise\<close>
  "slice_bound b d =
     (case b of
        None \<Rightarrow> Inr d
      | Some (NumberO n) \<Rightarrow> Inr (ToInt64 n)
      | Some _ \<Rightarrow> Inl (Panic ''interface conversion''))"

definition clamp_slice :: "int \<Rightarrow> int \<Rightarrow> int \<Rightarrow> int \<Rightarrow> int \<times> int \<times> int" where
  "clamp_slice len start end step =
     (let start = (if start < 0 then start + len else start);
          end = (if end < 0 then end + len else end);
          start = (if start < 0 then 0 else start);
          end = (if end > len then len else end);
          step = (if step \<le> 0 then 1 else step)
      in (start, end, step))"

definition computeSliceIndices ::
  "int \<Rightarrow> obj option \<Rightarrow> obj option \<Rightarrow> obj option \<Rightarrow> fault + int \<times> int \<times> int" where
  "computeSliceIndices len s e p =
     (case slice_bound s 0 of
        Inl f \<Rightarrow> Inl f
      | Inr start \<Rightarrow>
          (case slice_bound e len of
             Inl f \<Rightarrow> Inl f
           | Inr end \<Rightarrow>
               (case slice_bound p 1 of
                  Inl f \<Rightarrow> Inl f
                | Inr step \<Rightarrow> Inr (clamp_slice len start end step))))"

definition sequenceSliceLen :: "int \<Rightarrow> int \<Rightarrow> int \<Rightarrow> int" where
  "sequenceSliceLen start end step =
     (if step \<le> 0 \<or> start \<ge> end then 0 else wrap64 (wrap64 (end - start + step) - 1) sdiv step)"

text \<open>
  \<open>for i := start; i < end; i += step\<close> over the elements. The step is positive, so an index
  that does not grow has wrapped round to a negative one, and reading that element panics.
\<close>

function slice_loop :: "'a list \<Rightarrow> int \<Rightarrow> int \<Rightarrow> int \<Rightarrow> fault + 'a list" where
  "slice_loop xs i end step =
     (if i \<ge> end then Inr []
      else if i < 0 \<or> i \<ge> int (length xs) then Inl (Panic ''index out of range'')
      else
        (let j = wrap64 (i + step)
         in if j \<le> i then Inl (Panic ''index out of range'')
            else map_sum id ((#) (xs ! nat i)) (slice_loop xs j end step)))"
  by pat_completeness auto
termination by (relation "measure (\<lambda>(xs, i, end, step). nat (end - i))") auto

declare slice_loop.simps [simp del]

definition slice_contents :: "'a list \<Rightarrow> obj option \<Rightarrow> obj option \<Rightarrow> obj option \<Rightarrow> fault + 'a list" where
  "slice_contents xs s e p =
     (case computeSliceIndices (int (length xs)) s e p of
        Inl f \<Rightarrow> Inl f
      | Inr (start, end, step) \<Rightarrow> slice_loop xs start end step)"

definition slice_list :: "obj list \<Rightarrow> obj option \<Rightarrow> obj option \<Rightarrow> obj option \<Rightarrow> fault + obj" where
  \<comment> \<open>a step of 1 shares the array: Go's slice expression; otherwise the capacity is computed first\<close>
  "slice_list xs s e p =
     (case computeSliceIndices (int (length xs)) s e p of
        Inl f \<Rightarrow> Inl f
      | Inr (start, end, step) \<Rightarrow>
          if step = 1 then
            (if start \<ge> end then Inr (ListO [])
             else Inr (ListO (drop (nat start) (take (nat end) xs))))
          else if sequenceSliceLen start end step < 0 then Inl (Panic ''makeslice: cap out of range'')
          else map_sum id ListO (slice_loop xs start end step))"

section \<open>Indexing\<close>

definition bad_index :: "obj \<Rightarrow> fault" where
  "bad_index v = Raise (''index operator not supported: '' @ obj_type v)"

definition element_at :: "'a list \<Rightarrow> dec64 \<Rightarrow> 'a option" where
  "element_at xs n =
     (let mx = int (length xs) - 1; idx = ToInt64 n; idx = (if idx < 0 then mx + idx + 1 else idx)
      in if idx < 0 \<or> idx > mx then None else Some (xs ! nat idx))"

definition or_nil :: "obj option \<Rightarrow> obj" where
  "or_nil v = (case v of None \<Rightarrow> NilO | Some x \<Rightarrow> x)"

definition map_lookup :: "(string \<Rightarrow> 64 word) \<Rightarrow> obj MapPair hamtMapStorage \<Rightarrow> obj \<Rightarrow> obj option" where
  \<comment> \<open>\<open>GetPair\<close> of a key object; \<open>None\<close> also for a key that cannot be hashed\<close>
  "map_lookup sid st key =
     (case obj_MapKey sid key of None \<Rightarrow> None | Some k \<Rightarrow> map_option mp_Value (storage_get st k))"

definition evalIndex :: "(string \<Rightarrow> 64 word) \<Rightarrow> obj \<Rightarrow> obj \<Rightarrow> bool \<Rightarrow> fault + obj" where
  "evalIndex sid left index isDotLookup =
     (case left of
        ListO xs \<Rightarrow>
          (case index of
             SliceO _ s e p \<Rightarrow> slice_list xs s e p
           | NumberO n \<Rightarrow> Inr (or_nil (element_at xs n))
           | _ \<Rightarrow> Inl (bad_index index))
      | StringO str \<Rightarrow>
          (case index of
             SliceO _ s e p \<Rightarrow>
               map_sum id (\<lambda>rs. StringO (concat (map EncodeRune rs))) (slice_contents (runes str) s e p)
           | NumberO n \<Rightarrow> Inr (or_nil (map_option (\<lambda>r. StringO (EncodeRune r)) (element_at (runes str) n)))
           | _ \<Rightarrow> Inl (bad_index index))
      | BytesO bs \<Rightarrow>
          (case index of
             SliceO _ s e p \<Rightarrow> map_sum id BytesO (slice_contents bs s e p)
           | NumberO n \<Rightarrow> Inr (or_nil (map_option (\<lambda>c. NumberO (FromInt (of_char c))) (element_at bs n)))
           | _ \<Rightarrow> Inl (bad_index index))
      | MapO _ st \<Rightarrow>
          (case obj_MapKey sid index of
             None \<Rightarrow> Inl (Raise (''unusable as map key: '' @ obj_type index))
           | Some _ \<Rightarrow>
               (case map_lookup sid st index of
                  Some v \<Rightarrow> Inr v
                | None \<Rightarrow>
                    (case index of
                       SymbolO name \<Rightarrow>
                         Inr (if isDotLookup then or_nil (map_lookup sid st (StringO name)) else NilO)
                     | _ \<Rightarrow> Inr NilO)))
      | StructO _ _ fields \<Rightarrow>
          (case index of
             SymbolO name \<Rightarrow> Inr (or_nil (map_of fields name))
           | StringO name \<Rightarrow> Inr (or_nil (map_of fields name))
           | _ \<Rightarrow> Inl (Raise (''struct field access expects symbol, got '' @ obj_type index)))
      | _ \<Rightarrow> Inl (bad_index left))"

section \<open>Structs\<close>

text \<open>A struct schema of the run time, with the environment in which its defaults are evaluated.\<close>

record StructSchema =
  schema_Name :: string
  schema_Fields :: "StructSchemaField list"
  schema_Env :: "nat option"

definition structSchemaName :: "StructSchema \<Rightarrow> string" where
  "structSchemaName schema = (if schema_Name schema \<noteq> [] then schema_Name schema else ''<anonymous>'')"

definition structFieldNameFromKey :: "obj \<Rightarrow> string option" where
  "structFieldNameFromKey key = (case key of SymbolO s \<Rightarrow> Some s | StringO s \<Rightarrow> Some s | _ \<Rightarrow> None)"

definition mapBindingName :: "obj \<Rightarrow> string option" where
  "mapBindingName key = (case key of SymbolO s \<Rightarrow> Some s | StringO s \<Rightarrow> Some s | _ \<Rightarrow> None)"

fun structValues_loop ::
  "StructSchema \<Rightarrow> obj MapPair list \<Rightarrow> (string \<times> obj) list \<Rightarrow> string + (string \<times> obj) list" where
  "structValues_loop schema [] out = Inr out"
| "structValues_loop schema (pair # ps) out =
     (case structFieldNameFromKey (mp_Key pair) of
        None \<Rightarrow> Inl (''struct field access expects symbol, got '' @ obj_type (mp_Key pair))
      | Some name \<Rightarrow>
          if name \<notin> set (map ssf_Name (schema_Fields schema))
          then Inl (''unknown field '' @ [CHR 0x27] @ name @ [CHR 0x27] @ '' for struct '' @ structSchemaName schema)
          else if map_of out name \<noteq> None
          then Inl (''duplicate field '' @ [CHR 0x27] @ name @ [CHR 0x27] @ '' in struct data'')
          else structValues_loop schema ps (AList.update name (mp_Value pair) out))"

definition structValuesFromMap ::
  "StructSchema \<Rightarrow> obj MapPair hamtMapStorage \<Rightarrow> string + (string \<times> obj) list" where
  "structValuesFromMap schema m = structValues_loop schema (map snd (collect_entries m)) []"

definition TypeTags :: "(string \<times> string) list" where
  "TypeTags =
     [(''@bool'', ''BOOLEAN''), (''@bytes'', ''BYTES''), (''@chan'', ''CHANNEL''), (''@list'', ''LIST''),
      (''@map'', ''MAP''), (''@num'', ''NUMBER''), (''@str'', ''STRING''), (''@struct'', ''STRUCT''),
      (''@sym'', ''SYMBOL''), (''@task'', ''TASK''), (''@fn'', ''FUNCTION'')]"

definition Trim_quotes :: "string \<Rightarrow> string" where
  "Trim_quotes s = rev (dropWhile ((=) (CHR 0x22)) (rev (dropWhile ((=) (CHR 0x22)) s)))"

definition struct_tag_name :: "expr \<Rightarrow> string" where
  \<comment> \<open>the name in \<open>@struct(Name)\<close> or \<open>@struct("Name")\<close>, empty for anything else\<close>
  "struct_tag_name a =
     (case a of IdentifierExpr i \<Rightarrow> id_Value i | StringLiteral _ s \<Rightarrow> Trim_quotes s | _ \<Rightarrow> [])"

definition hint_mismatch :: "StructSchema \<Rightarrow> string \<Rightarrow> string \<Rightarrow> obj \<Rightarrow> string" where
  "hint_mismatch schema field expected v =
     ''struct '' @ structSchemaName schema @ '' field '' @ field @ '' expected '' @ expected @ '', got '' @ obj_type v"

definition check_hint :: "(nat \<Rightarrow> string) \<Rightarrow> StructSchema \<Rightarrow> string \<Rightarrow> obj \<Rightarrow> expr Tag \<Rightarrow> string option" where
  "check_hint sname schema field v tag =
     (let mismatch = Some (hint_mismatch schema field (tag_Name tag) v)
      in if tag_Name tag = ''@fn'' then
           (if obj_type v = ''FUNCTION'' \<or> obj_type v = ''FUNCTION_GROUP'' then None else mismatch)
         else if tag_Name tag = ''@struct'' then
           (case tag_Args tag of
              [a] \<Rightarrow>
                (let expected = struct_tag_name a
                 in if (case v of StructO _ r _ \<Rightarrow> sname r = expected | StructSchemaO r \<Rightarrow> sname r = expected | _ \<Rightarrow> False)
                    then None
                    else Some (hint_mismatch schema field (''@struct('' @ expected @ '')'') v))
            | _ \<Rightarrow> if obj_type v = ''STRUCT'' \<or> obj_type v = ''STRUCT_SCHEMA'' then None else mismatch)
         else
           (case map_of TypeTags (tag_Name tag) of
              None \<Rightarrow> Some (''unknown struct field type hint: '' @ tag_Name tag)
            | Some expected \<Rightarrow> if obj_type v \<noteq> expected then mismatch else None))"

definition first_some :: "'a option list \<Rightarrow> 'a option" where
  \<comment> \<open>a loop that returns at the first error\<close>
  "first_some xs = (case filter (\<lambda>x. x \<noteq> None) xs of [] \<Rightarrow> None | x # _ \<Rightarrow> x)"

definition check_field :: "(nat \<Rightarrow> string) \<Rightarrow> StructSchema \<Rightarrow> (string \<times> obj) list \<Rightarrow> StructSchemaField \<Rightarrow> string option" where
  "check_field sname schema vals f =
     (case map_of vals (ssf_Name f) of
        None \<Rightarrow> None
      | Some NilO \<Rightarrow> None
      | Some v \<Rightarrow> first_some (map (check_hint sname schema (ssf_Name f) v) (ssf_Tags f)))"

definition validateStructHints :: "(nat \<Rightarrow> string) \<Rightarrow> StructSchema \<Rightarrow> (string \<times> obj) list \<Rightarrow> string option" where
  "validateStructHints sname schema vals = first_some (map (check_field sname schema vals) (schema_Fields schema))"

end
