(* ===== verification/Value_Laws.thy ===== *)
theory Value_Laws
  imports Indexing Dec64_Laws
begin

text \<open>
  Laws of the values: slices against their list of indices, the overflow of a slice step,
  map keys of numbers, symbol numbers and the bitwise operators on byte sequences.
\<close>

section \<open>Slices\<close>

text \<open>The number of the indices \<open>start\<close>, \<open>start + step\<close>, ... below \<open>end\<close>, and the elements there.\<close>

definition slice_count :: "int \<Rightarrow> int \<Rightarrow> int \<Rightarrow> nat" where
  "slice_count start end step = nat ((end - start + step - 1) div step)"

definition slice_spec :: "'a list \<Rightarrow> int \<Rightarrow> int \<Rightarrow> int \<Rightarrow> 'a list" where
  "slice_spec xs start end step =
     map (\<lambda>k. xs ! nat (start + int k * step)) [0..<slice_count start end step]"

lemma slice_count_none: "end \<le> start \<Longrightarrow> 1 \<le> step \<Longrightarrow> slice_count start end step = 0"
  using zdiv_mono1 [of "end - start + step - 1" "step - 1" step] by (simp add: slice_count_def)

lemma slice_count_Suc:
  "start < end \<Longrightarrow> 1 \<le> step \<Longrightarrow>
     slice_count start end step = Suc (slice_count (start + step) end step)"
proof -
  assume a: "start < end" "1 \<le> step"
  have "(x + step) div step = x div step + 1" for x using a by simp
  from this [of "end - (start + step) + step - 1"]
  have "(end - start + step - 1) div step = (end - (start + step) + step - 1) div step + 1"
    by (simp add: algebra_simps)
  moreover have "0 \<le> (end - (start + step) + step - 1) div step"
    using a by (simp add: pos_imp_zdiv_nonneg_iff)
  ultimately show ?thesis by (simp add: slice_count_def nat_add_distrib)
qed

lemma slice_spec_none: "end \<le> start \<Longrightarrow> 1 \<le> step \<Longrightarrow> slice_spec xs start end step = []"
  by (simp add: slice_spec_def slice_count_none)

lemma slice_spec_Cons:
  "start < end \<Longrightarrow> 1 \<le> step \<Longrightarrow>
     slice_spec xs start end step = xs ! nat start # slice_spec xs (start + step) end step"
  by (simp add: slice_spec_def slice_count_Suc map_upt_Suc algebra_simps del: upt_Suc)

lemma slice_loop_spec:
  assumes "0 \<le> i" "end \<le> int (length xs)" "1 \<le> step" "end + step \<le> max_int64"
  shows "slice_loop xs i end step = Inr (slice_spec xs i end step)"
  using assms
proof (induction xs i "end" step rule: slice_loop.induct)
  case (1 xs i "end" step)
  show ?case
  proof (cases "i < end")
    case True
    have "wrap64 (i + step) = i + step" using 1(2-5) True by (intro wrap64_id) (auto simp: go_arith)
    then show ?thesis
      using 1 True by (subst slice_loop.simps) (simp add: Let_def slice_spec_Cons)
  next
    case False
    then show ?thesis using 1 by (subst slice_loop.simps) (simp add: slice_spec_none)
  qed
qed

lemma slice_spec_step1:
  "0 \<le> start \<Longrightarrow> start \<le> end \<Longrightarrow> end \<le> int (length xs) \<Longrightarrow>
     slice_spec xs start end 1 = drop (nat start) (take (nat end) xs)"
  by (rule nth_equalityI) (auto simp: slice_spec_def slice_count_def nat_add_distrib nat_diff_distrib)

lemma slice_bounds:
  assumes "computeSliceIndices len s e p = Inr (start, end, step)"
  shows "(0 \<le> len \<longrightarrow> 0 \<le> start) \<and> end \<le> len \<and> 1 \<le> step"
  using assms
  by (auto simp: computeSliceIndices_def clamp_slice_def Let_def split: sum.splits if_splits)

lemma slice_loop_indices:
  "computeSliceIndices (int n) s e p = Inr (start, end, step) \<Longrightarrow> int n + step \<le> max_int64 \<Longrightarrow>
     length ys = n \<Longrightarrow> slice_loop ys start end step = Inr (slice_spec ys start end step)"
  using slice_bounds [of "int n" s e p start "end" step] by (intro slice_loop_spec) auto

text \<open>C36:
  Slicing a list, a byte sequence or a string gives the elements at the indices \<open>start\<close>,
  \<open>start + step\<close>, ... below \<open>end\<close> that \<open>computeSliceIndices\<close> gives, whichever of the two ways
  the code takes for a list: the shared part of the array for a step of 1, or the loop. No
  index is out of range, as long as length plus step is an \<open>int64\<close>.
\<close>

theorem slice_elements:
  assumes "computeSliceIndices (int n) s e p = Inr (start, end, step)" "int n + step \<le> max_int64"
    and "length xs = n" "length bs = n" "length (runes str) = n"
  shows "0 \<le> start \<and> end \<le> int n \<and>
    evalIndex sid (ListO xs) (SliceO r s e p) dot = Inr (ListO (slice_spec xs start end step)) \<and>
    evalIndex sid (BytesO bs) (SliceO r s e p) dot = Inr (BytesO (slice_spec bs start end step)) \<and>
    evalIndex sid (StringO str) (SliceO r s e p) dot =
      Inr (StringO (concat (map EncodeRune (slice_spec (runes str) start end step))))"
proof -
  have b: "0 \<le> start" "end \<le> int n" "1 \<le> step" using slice_bounds [OF assms(1)] by auto
  have "sequenceSliceLen start end step \<ge> 0"
    using b assms(2) by (auto simp: sequenceSliceLen_def wrap64_id go_arith sdiv_nonneg pos_imp_zdiv_nonneg_iff)
  then have "slice_list xs s e p = Inr (ListO (slice_spec xs start end step))"
    using assms b slice_loop_indices [OF assms(1,2,3)]
    by (auto simp: slice_list_def slice_spec_none slice_spec_step1)
  then show ?thesis
    using b assms slice_loop_indices [OF assms(1,2,4)] slice_loop_indices [OF assms(1,2,5)]
    by (simp add: evalIndex_def slice_contents_def)
qed

text \<open>
  The step of a slice is added to the index without a check: when the sum leaves the range of
  \<open>int64\<close> the index becomes negative and reading it panics, although one element was taken.
\<close>

theorem slice_step_overflow:
  assumes "0 \<le> ToInt64 a" "ToInt64 a < int (length bs)" "int (length bs) \<le> max_int64"
    and "max_int64 < ToInt64 a + ToInt64 b"
  shows "evalIndex sid (BytesO bs) (SliceO r (Some (NumberO a)) None (Some (NumberO b))) dot =
    Inl (Panic ''index out of range'')"
proof -
  have "ToInt64 b \<le> max_int64" using wrap64_range by (simp add: ToInt64_def)
  then have "(ToInt64 a + ToInt64 b + 2 ^ 63 - 2 ^ 64) mod 2 ^ 64 = ToInt64 a + ToInt64 b + 2 ^ 63 - 2 ^ 64"
    using assms by (intro mod_pos_pos_trivial) (auto simp: go_arith)
  then have "wrap64 (ToInt64 a + ToInt64 b) = ToInt64 a + ToInt64 b - 2 ^ 64"
    using mod_diff_right_eq [of "ToInt64 a + ToInt64 b + 2 ^ 63" "2 ^ 64" "2 ^ 64 :: int"]
    by (simp add: wrap64_def)
  then have "wrap64 (ToInt64 a + ToInt64 b) \<le> ToInt64 a"
    using \<open>ToInt64 b \<le> max_int64\<close> by (simp add: go_arith)
  then have "slice_loop bs (ToInt64 a) (int (length bs)) (ToInt64 b) = Inl (Panic ''index out of range'')"
    using assms by (subst slice_loop.simps) (simp add: Let_def)
  then show ?thesis
    using assms by (simp add: evalIndex_def slice_contents_def computeSliceIndices_def slice_bound_def
        clamp_slice_def Let_def)
qed

theorem slice_step_overflow_witness:
  "evalIndex (\<lambda>_. 0) (BytesO (replicate 900 CHR ''a''))
     (SliceO 1 (Some (NumberO (dec_New 808 0))) None (Some (NumberO (dec_New 9223372036854775 3)))) False =
   Inl (Panic ''index out of range'')"
  by (rule slice_step_overflow) (simp_all add: ToInt64_def pow10_to_int64_def wrap64_def go_arith)

theorem slice_elements_witness:
  "0 \<le> (1 :: int) \<and> 4 \<le> int 4 \<and>
    evalIndex (\<lambda>_. 0) (ListO [NilO, BooleanO True, NilO, BooleanO False])
      (SliceO 1 (Some (NumberO (dec_New (- 3) 0))) None (Some (NumberO (dec_New 2 0)))) False =
      Inr (ListO (slice_spec [NilO, BooleanO True, NilO, BooleanO False] 1 4 2)) \<and>
    evalIndex (\<lambda>_. 0) (BytesO ''abcd'')
      (SliceO 1 (Some (NumberO (dec_New (- 3) 0))) None (Some (NumberO (dec_New 2 0)))) False =
      Inr (BytesO (slice_spec ''abcd'' 1 4 2)) \<and>
    evalIndex (\<lambda>_. 0) (StringO ''abcd'')
      (SliceO 1 (Some (NumberO (dec_New (- 3) 0))) None (Some (NumberO (dec_New 2 0)))) False =
      Inr (StringO (concat (map EncodeRune (slice_spec (runes ''abcd'') 1 4 2))))"
proof (rule slice_elements)
  show "length (runes ''abcd'') = 4" by code_simp
qed (simp_all add: computeSliceIndices_def slice_bound_def clamp_slice_def ToInt64_def pow10_to_int64_def
      wrap64_def go_arith MIN_COEFF_def MAX_COEFF_def)

section \<open>Map keys\<close>

text \<open>
  \<open>MapKey\<close> of a number is its \<open>ToInt64\<close>, which is 0 for every number with a negative
  exponent: an entry put under one of them is found under any other and under 0.
\<close>

theorem fraction_keys_collide:
  assumes "Exponent a < 0" "Exponent b < 0 \<or> b = dec_ZERO"
    and "storage_wf st" "obj_MapKey sid (NumberO a) = Some k"
  shows "evalIndex sid (MapO tags (storage_put st k (MapPair (NumberO a) v))) (NumberO b) dot = Inr v"
proof -
  have z: "ToInt64 c = 0" if "Exponent c < 0 \<or> c = dec_ZERO" for c
    using that by (auto simp: ToInt64_def pow10_to_int64_def wrap64_def)
  have "obj_MapKey sid (NumberO b) = Some k"
    using assms z [of a] z [of b] by (simp add: obj_MapKey_def)
  then show ?thesis
    using assms(3) by (simp add: evalIndex_def map_lookup_def storage_put_get)
qed

theorem fraction_keys_collide_witness:
  "\<not> objectsEqual (NumberO (dec_New 5 (- 1))) (NumberO (dec_New 15 (- 1))) \<and>
   evalIndex (\<lambda>_. 0)
     (MapO [] (storage_put storage_empty (MapKey ''NUMBER'' 0) (MapPair (NumberO (dec_New 5 (- 1))) (BooleanO True))))
     (NumberO (dec_New 15 (- 1))) False = Inr (BooleanO True)"
proof
  show "\<not> objectsEqual (NumberO (dec_New 5 (- 1))) (NumberO (dec_New 15 (- 1)))"
    by (simp add: objectsEqual.simps dec_Eq_def dec_Cmp_def normalizePair_def Let_def MIN_COEFF_def MAX_COEFF_def)
  show "evalIndex (\<lambda>_. 0)
     (MapO [] (storage_put storage_empty (MapKey ''NUMBER'' 0) (MapPair (NumberO (dec_New 5 (- 1))) (BooleanO True))))
     (NumberO (dec_New 15 (- 1))) False = Inr (BooleanO True)"
    by (rule fraction_keys_collide)
      (simp_all add: obj_MapKey_def ToInt64_def pow10_to_int64_def wrap64_def hamt_storage.inv_empty)
qed

section \<open>Symbols\<close>

definition symtab_ok :: "(string \<times> nat) list \<times> nat \<Rightarrow> bool" where
  "symtab_ok t \<longleftrightarrow> distinct (map snd (fst t)) \<and> snd ` set (fst t) \<subseteq> {1..snd t}"

lemma symtab_ok_inj:
  "symtab_ok t \<Longrightarrow> map_of (fst t) a = Some i \<Longrightarrow> map_of (fst t) b = Some i \<Longrightarrow> a = b"
  unfolding symtab_ok_def distinct_map using inj_onD [of snd "set (fst t)" "(a, i)" "(b, i)"]
  by (auto dest!: map_of_SomeD)

lemma symtab_ok_bound: "symtab_ok t \<Longrightarrow> map_of (fst t) a = Some i \<Longrightarrow> i \<le> snd t"
  by (force simp: symtab_ok_def dest!: map_of_SomeD)

lemma symtab_ok_intern: "symtab_ok t \<Longrightarrow> symtab_ok (snd (InternSymbol t a))"
  by (force simp: symtab_ok_def InternSymbol_def split: prod.splits option.splits)

lemma InternSymbol_entry: "map_of (fst (snd (InternSymbol t a))) a = Some (fst (InternSymbol t a))"
  by (simp add: InternSymbol_def split: prod.splits option.splits)

lemma InternSymbol_keeps:
  "map_of (fst t) a = Some i \<Longrightarrow> map_of (fst (snd (InternSymbol t b))) a = Some i"
  by (auto simp: InternSymbol_def split: prod.splits option.splits)

lemma InternSymbol_known: "map_of (fst t) a = Some i \<Longrightarrow> InternSymbol t a = (i, t)"
  by (cases t) (simp add: InternSymbol_def)

text \<open>
  The symbol table keeps its numbers distinct: two symbols have the same number, hence the
  same map key, only if they have the same name, and a name keeps its number.
\<close>

theorem symbol_numbers_identify:
  assumes "symtab_ok t" "InternSymbol t a = (i, t1)" "InternSymbol t1 b = (j, t2)"
  shows "symtab_ok t2 \<and> (i = j \<longleftrightarrow> a = b) \<and> InternSymbol t2 a = (i, t2) \<and> InternSymbol t2 b = (j, t2)"
proof -
  have ok: "symtab_ok t2" using assms symtab_ok_intern [of t a] symtab_ok_intern [of t1 b] by simp
  have "map_of (fst t1) a = Some i" using InternSymbol_entry [of t a] assms(2) by simp
  then have a: "map_of (fst t2) a = Some i" using InternSymbol_keeps [of t1 a i b] assms(3) by simp
  have b: "map_of (fst t2) b = Some j" using InternSymbol_entry [of t1 b] assms(3) by simp
  have "i = j \<longleftrightarrow> a = b" using a b symtab_ok_inj [OF ok] by auto
  then show ?thesis using ok a b by (simp add: InternSymbol_known)
qed

theorem symbol_numbers_identify_witness:
  "symtab_ok ([(''b'', 2), (''a'', 1)], 2) \<and> ((1 :: nat) = 2 \<longleftrightarrow> ''a'' = ''b'') \<and>
   InternSymbol ([(''b'', 2), (''a'', 1)], 2) ''a'' = (1, [(''b'', 2), (''a'', 1)], 2) \<and>
   InternSymbol ([(''b'', 2), (''a'', 1)], 2) ''b'' = (2, [(''b'', 2), (''a'', 1)], 2)"
  by (rule symbol_numbers_identify [where t = "([], 0)" and ?t1.0 = "([(''a'', 1)], 1)"])
    (simp_all add: symtab_ok_def InternSymbol_def)

section \<open>Bitwise operators on byte sequences\<close>

lemma byte_op_commute: "byte_op op a b = byte_op op b a"
  by (simp add: byte_op_def Let_def and.commute or.commute xor.commute split: Opcode.splits)

lemma of_char_char_of_byte: "of_char (char_of (unat (w :: 8 word))) = w"
proof -
  have "of_char (char_of (unat w)) = (of_nat (of_char (char_of (unat w)) :: nat) :: 8 word)"
    by (simp only: of_nat_of_char)
  also have "\<dots> = of_nat (unat w mod 256)" by simp
  also have "\<dots> = w" using unsigned_less [of w, where 'a = nat] by simp
  finally show ?thesis .
qed

lemma char_of_byte_of_char: "char_of (unat (of_char c :: 8 word)) = c"
proof -
  have "(of_char c :: nat) = of_char c mod 256" by simp
  also have "\<dots> < 256" by (rule mod_less_divisor) simp
  finally have "unat (of_nat (of_char c) :: 8 word) = (of_char c :: nat)" by (simp add: unsigned_of_nat take_bit_eq_mod)
  then show ?thesis by (simp add: of_nat_of_char)
qed

lemma byte_op_xor_twice: "byte_op OpBitXor (byte_op OpBitXor a b) b = a"
  by (simp add: byte_op_def Let_def of_char_char_of_byte xor.assoc char_of_byte_of_char)

lemma length_doBytes:
  "k \<noteq> [] \<Longrightarrow> length k \<le> length a \<Longrightarrow>
     doBytesBitwise a k op = BytesO (map (\<lambda>i. byte_op op (a ! i) (k ! (i mod length k))) [0..<length a])"
  by (simp add: doBytesBitwise_def)

text \<open>
  \<open>^\<close> with a key no longer than the data, repeated cyclically, is undone by the same key.
\<close>

theorem xor_bytes_roundtrip:
  assumes "k \<noteq> []" "length k \<le> length a"
  shows "\<exists>c. evalBinary insp OpBitXor (BytesO a) (BytesO k) = Inr (BytesO c) \<and>
    length c = length a \<and> evalBinary insp OpBitXor (BytesO c) (BytesO k) = Inr (BytesO a)"
proof (intro exI conjI)
  let ?c = "map (\<lambda>i. byte_op OpBitXor (a ! i) (k ! (i mod length k))) [0..<length a]"
  show "evalBinary insp OpBitXor (BytesO a) (BytesO k) = Inr (BytesO ?c)"
    using assms by (simp add: evalBinary_def evalBitwise_def evalBytesBitwise_def length_doBytes)
  have "map (\<lambda>i. byte_op OpBitXor (?c ! i) (k ! (i mod length k))) [0..<length a] = a"
    by (rule nth_equalityI) (simp_all add: byte_op_xor_twice)
  then show "evalBinary insp OpBitXor (BytesO ?c) (BytesO k) = Inr (BytesO a)"
    using assms by (simp add: evalBinary_def evalBitwise_def evalBytesBitwise_def length_doBytes)
qed simp

theorem xor_bytes_roundtrip_witness:
  "\<exists>c. evalBinary (\<lambda>_. []) OpBitXor (BytesO ''secret'') (BytesO ''key'') = Inr (BytesO c) \<and>
    length c = length ''secret'' \<and>
    evalBinary (\<lambda>_. []) OpBitXor (BytesO c) (BytesO ''key'') = Inr (BytesO ''secret'')"
  by (rule xor_bytes_roundtrip) simp_all

end
