(* ===== verification/Channels.thy ===== *)
theory Channels
  imports Value
begin

text \<open>
  \<open>internal/object/channel.go\<close>, the part of Go's channels that \<open>select\<close> uses, and the handles of
  \<open>internal/vm/task.go\<close>. A channel is its buffer, the oldest element first, and whether it is
  closed; a receiver or sender that waits is not part of it. A method that holds the mutex of
  its object is one step.
\<close>

section \<open>Channels\<close>

record Channel =
  ch_Capacity :: int
  ch_buffer :: "obj list"
  ch_closed :: bool

definition NewChannel :: "int \<Rightarrow> Channel" where
  "NewChannel capacity = \<lparr>ch_Capacity = (if capacity < 0 then 0 else capacity), ch_buffer = [], ch_closed = False\<rparr>"

definition CloseChannel :: "Channel \<Rightarrow> bool \<times> Channel" where
  "CloseChannel c = (if ch_closed c then (False, c) else (True, c\<lparr>ch_closed := True\<rparr>))"

definition IsClosed :: "Channel \<Rightarrow> bool" where
  "IsClosed c = ch_closed c"

text \<open>When a channel operation need not wait, and what it does then; a send may panic.\<close>

definition can_receive :: "Channel \<Rightarrow> bool" where
  "can_receive c \<longleftrightarrow> ch_buffer c \<noteq> [] \<or> ch_closed c"

definition can_send :: "Channel \<Rightarrow> bool" where
  "can_send c \<longleftrightarrow> ch_closed c \<or> int (length (ch_buffer c)) < ch_Capacity c"

definition chan_receive :: "Channel \<Rightarrow> obj option \<times> Channel" where
  "chan_receive c =
     (case ch_buffer c of [] \<Rightarrow> (None, c) | x # xs \<Rightarrow> (Some x, c\<lparr>ch_buffer := xs\<rparr>))"

definition chan_send :: "obj \<Rightarrow> Channel \<Rightarrow> Channel option" where
  "chan_send x c = (if ch_closed c then None else Some (c\<lparr>ch_buffer := ch_buffer c @ [x]\<rparr>))"

section \<open>The cases of a select\<close>

text \<open>
  A \<open>reflect.SelectCase\<close> by what it waits for: an element of a channel, room in a channel, the
  closed channel \<open>readySignal\<close>, a timer of that many nanoseconds, the end of a task, or nothing.
\<close>

datatype ReflectCase = RecvOn nat | SendOn nat obj | RecvReady | RecvTimer int | RecvDone nat | DefaultCase

definition case_ready :: "Channel list \<Rightarrow> ReflectCase \<Rightarrow> bool" where
  "case_ready cs k =
     (case k of
        RecvOn c \<Rightarrow> can_receive (cs ! c) | SendOn c _ \<Rightarrow> can_send (cs ! c) | RecvReady \<Rightarrow> True
      | RecvTimer d \<Rightarrow> d \<le> 0 | RecvDone _ \<Rightarrow> True | DefaultCase \<Rightarrow> False)"

text \<open>
  The cases that \<open>reflect.Select\<close> may take: a ready one, a timer, which may have run down when the
  select is reached, and the default if nothing is ready.
\<close>

definition may_take :: "Channel list \<Rightarrow> ReflectCase list \<Rightarrow> nat \<Rightarrow> bool" where
  "may_take cs ks i \<longleftrightarrow>
     i < length ks \<and>
     (case ks ! i of
        RecvTimer _ \<Rightarrow> True
      | DefaultCase \<Rightarrow> \<not> list_ex (case_ready cs) ks
      | k \<Rightarrow> case_ready cs k)"

section \<open>Task handles\<close>

text \<open>\<open>th_done\<close> says that the channel \<open>done\<close> is closed.\<close>

record VMTaskHandle =
  th_done :: bool
  th_result :: "obj option"
  th_closed :: bool

definition NewVMTaskHandle :: VMTaskHandle where
  "NewVMTaskHandle = \<lparr>th_done = False, th_result = None, th_closed = False\<rparr>"

definition AwaitResult :: "VMTaskHandle \<Rightarrow> obj" where
  "AwaitResult h = (case th_result h of None \<Rightarrow> NilO | Some x \<Rightarrow> x)"

definition Complete :: "obj \<Rightarrow> VMTaskHandle \<Rightarrow> VMTaskHandle" where
  "Complete result h =
     (if th_closed h then h else h\<lparr>th_result := Some result, th_closed := True, th_done := True\<rparr>)"

text \<open>The payload of a cancelled task; \<open>r\<close> is the reference of the new error.\<close>

definition cancelled_payload :: "string \<Rightarrow> obj" where
  "cancelled_payload reason =
     (let put = (\<lambda>k v m. case obj_MapKey (\<lambda>_. 0) (StringO k) of
                              Some mk \<Rightarrow> storage_put m mk (MapPair (StringO k) v) | None \<Rightarrow> m)
      in MapO [] (put ''reason'' (StringO reason) (put ''type'' (StringO ''cancelled'') storage_empty)))"

definition Cancel :: "nat \<Rightarrow> string \<Rightarrow> VMTaskHandle \<Rightarrow> VMTaskHandle" where
  "Cancel r reason h = Complete (RuntimeErrorO r (cancelled_payload reason) [] None) h"

end
