(* ===== verification/Environment.thy ===== *)
theory Environment
  imports Indexing Channels
begin

text \<open>
  \<open>internal/object/environment.go\<close>: environments, bindings and function groups. Go shares
  all three by reference, so they are kept in a store and named by their position there;
  \<open>ID\<close> is that position. Reading a field of an environment is \<open>envs h ! i\<close>. The maps of
  bindings are read by key only; the functions of a group are listed in the order in which Go
  iterates them. The \<open>Defers\<close> of an environment, which the virtual machine does not use, and
  the locks are left out.
\<close>

section \<open>The store\<close>

record Meta =
  IsImport :: bool
  IsExport :: bool
  meta_Doc :: string
  meta_HasDoc :: bool

record Binding =
  bn_Value :: "obj option"
  bn_Err :: "obj option"
  bn_Meta :: Meta
  bn_IsMutable :: bool

record Environment =
  env_Bindings :: "string \<rightharpoonup> nat"
  env_Outer :: "nat option"
  env_Src :: string
  env_Path :: string
  env_LibRoot :: string
  env_ModuleFqn :: string
  env_StackInfo :: "StackFrame option"
  env_Limit :: int
  env_IsThreadNurseryScope :: bool

record FunctionGroup =
  fg_Functions :: "(FSig \<times> obj) list"
  fg_Delegates :: "nat list"
  fg_Doc :: string
  fg_HasDoc :: bool

record heap =
  envs :: "Environment list"
  bindings :: "Binding list"
  groups :: "FunctionGroup list"
  schemas :: "StructSchema list"
  task_results :: "obj list"
  channels :: "Channel list"
  next_ref :: nat

definition no_meta :: Meta where
  "no_meta = \<lparr>IsImport = False, IsExport = False, meta_Doc = [], meta_HasDoc = False\<rparr>"

definition alloc_env :: "Environment \<Rightarrow> heap \<Rightarrow> nat \<times> heap" where
  "alloc_env e h = (length (envs h), h\<lparr>envs := envs h @ [e]\<rparr>)"

definition alloc_binding :: "Binding \<Rightarrow> heap \<Rightarrow> nat \<times> heap" where
  "alloc_binding b h = (length (bindings h), h\<lparr>bindings := bindings h @ [b]\<rparr>)"

definition alloc_group :: "FunctionGroup \<Rightarrow> heap \<Rightarrow> nat \<times> heap" where
  "alloc_group g h = (length (groups h), h\<lparr>groups := groups h @ [g]\<rparr>)"

definition set_binding :: "nat \<Rightarrow> Binding \<Rightarrow> heap \<Rightarrow> heap" where
  "set_binding b bn h = h\<lparr>bindings := (bindings h)[b := bn]\<rparr>"

definition set_group :: "nat \<Rightarrow> FunctionGroup \<Rightarrow> heap \<Rightarrow> heap" where
  "set_group g fg h = h\<lparr>groups := (groups h)[g := fg]\<rparr>"

definition bind_name :: "nat \<Rightarrow> string \<Rightarrow> nat \<Rightarrow> heap \<Rightarrow> heap" where
  \<comment> \<open>\<open>e.Bindings[name] = binding\<close>\<close>
  "bind_name i name b h =
     h\<lparr>envs := (envs h)[i := (envs h ! i)\<lparr>env_Bindings := (env_Bindings (envs h ! i))(name \<mapsto> b)\<rparr>]\<rparr>"

section \<open>Creating environments\<close>

definition NewEnclosedEnvironment :: "nat \<Rightarrow> StackFrame option \<Rightarrow> heap \<Rightarrow> nat \<times> heap" where
  "NewEnclosedEnvironment outer frame h =
     (let o' = envs h ! outer
      in alloc_env
           \<lparr>env_Bindings = Map.empty, env_Outer = Some outer, env_Src = env_Src o', env_Path = env_Path o',
            env_LibRoot = env_LibRoot o', env_ModuleFqn = env_ModuleFqn o', env_StackInfo = frame,
            env_Limit = env_Limit o', env_IsThreadNurseryScope = False\<rparr> h)"

definition NewRootEnvironment :: "int \<Rightarrow> heap \<Rightarrow> nat \<times> heap" where
  \<comment> \<open>\<open>NewEnvironment\<close> with the two fields of the root set\<close>
  "NewRootEnvironment limit h =
     alloc_env
       \<lparr>env_Bindings = Map.empty, env_Outer = None, env_Src = [], env_Path = [], env_LibRoot = [],
        env_ModuleFqn = [], env_StackInfo = None, env_Limit = limit, env_IsThreadNurseryScope = True\<rparr> h"

definition ShallowCopy :: "nat \<Rightarrow> heap \<Rightarrow> nat \<times> heap" where
  \<comment> \<open>the copy has its own map from names to the same bindings\<close>
  "ShallowCopy i h =
     (let e = envs h ! i
      in alloc_env
           \<lparr>env_Bindings = env_Bindings e, env_Outer = env_Outer e, env_Src = env_Src e, env_Path = env_Path e,
            env_LibRoot = env_LibRoot e, env_ModuleFqn = env_ModuleFqn e, env_StackInfo = None,
            env_Limit = 0, env_IsThreadNurseryScope = False\<rparr> h)"

definition ResetForTCO :: "nat \<Rightarrow> heap \<Rightarrow> heap" where
  "ResetForTCO i h = h\<lparr>envs := (envs h)[i := (envs h ! i)\<lparr>env_Bindings := Map.empty\<rparr>]\<rparr>"

section \<open>Lookup\<close>

text \<open>
  An environment is created after its outer one, so the outer position is smaller; the test
  that cuts the search otherwise never fails on a store that the operations build.
\<close>

function GetBinding :: "heap \<Rightarrow> nat \<Rightarrow> string \<Rightarrow> nat option" where
  "GetBinding h i name =
     (case env_Bindings (envs h ! i) name of
        Some b \<Rightarrow> Some b
      | None \<Rightarrow>
          (case env_Outer (envs h ! i) of
             None \<Rightarrow> None
           | Some outer \<Rightarrow> if outer < i then GetBinding h outer name else None))"
  by pat_completeness auto
termination by (relation "measure (\<lambda>(h, i, name). i)") auto

declare GetBinding.simps [simp del]

definition GetLocalBinding :: "heap \<Rightarrow> nat \<Rightarrow> string \<Rightarrow> nat option" where
  "GetLocalBinding h i name = env_Bindings (envs h ! i) name"

definition GetLocalBindingValue :: "heap \<Rightarrow> nat \<Rightarrow> string \<Rightarrow> (obj option \<times> nat) option" where
  "GetLocalBindingValue h i name =
     map_option (\<lambda>b. (bn_Value (bindings h ! b), b)) (env_Bindings (envs h ! i) name)"

definition env_Get :: "heap \<Rightarrow> nat \<Rightarrow> string \<Rightarrow> obj option option" where
  "env_Get h i name = map_option (\<lambda>b. bn_Value (bindings h ! b)) (GetBinding h i name)"

section \<open>Definition\<close>

definition GetSignature :: "obj \<Rightarrow> FSig option" where
  \<comment> \<open>the objects with a method \<open>GetSignature\<close>\<close>
  "GetSignature v =
     (case v of
        FunctionO _ f \<Rightarrow> Some (fh_Signature f)
      | ForeignO _ f \<Rightarrow> Some (fh_Signature f)
      | VMFunctionO _ f _ \<Rightarrow> Some (fn_Signature f)
      | _ \<Rightarrow> None)"

definition isCallableObject :: "obj \<Rightarrow> bool" where
  "isCallableObject v = ((case v of FunctionGroupO _ \<Rightarrow> True | _ \<Rightarrow> False) \<or> GetSignature v \<noteq> None)"

definition show_bool :: "bool \<Rightarrow> string" where
  "show_bool b = (if b then ''true'' else ''false'')"

definition signatureString :: "FSig \<Rightarrow> string" where
  "signatureString sig =
     ''('' @ sig_Tags sig @ '', Args: '' @ show_int (sig_Min sig) @ '' - '' @ show_int (sig_Max sig) @
     '' vargs: '' @ show_bool (sig_IsVariadic sig) @ '')''"

definition backquoted :: "string \<Rightarrow> string" where
  "backquoted s = [CHR 0x60] @ s @ [CHR 0x60]"

definition addFunctionWithSignature ::
  "string \<Rightarrow> (FSig \<times> obj) list \<Rightarrow> FSig \<Rightarrow> obj \<Rightarrow> string + (FSig \<times> obj) list" where
  "addFunctionWithSignature name fs sig fn =
     (if map_of fs sig \<noteq> None
      then Inl (''function '' @ backquoted name @ '' already has an overload with signature '' @ signatureString sig)
      else Inr (fs @ [(sig, fn)]))"

text \<open>The loop over the functions of a group keeps what it added before an error.\<close>

fun addFunctions ::
  "string \<Rightarrow> (FSig \<times> obj) list \<Rightarrow> (FSig \<times> obj) list \<Rightarrow> string option \<times> (FSig \<times> obj) list" where
  "addFunctions name fs [] = (None, fs)"
| "addFunctions name fs ((sig, fn) # rest) =
     (case addFunctionWithSignature name fs sig fn of
        Inl e \<Rightarrow> (Some e, fs)
      | Inr fs' \<Rightarrow> addFunctions name fs' rest)"

definition new_group :: FunctionGroup where
  "new_group = \<lparr>fg_Functions = [], fg_Delegates = [], fg_Doc = [], fg_HasDoc = False\<rparr>"

definition group_of :: "obj option \<Rightarrow> heap \<Rightarrow> nat \<times> heap" where
  \<comment> \<open>the group a value is, or a new one\<close>
  "group_of v h = (case v of Some (FunctionGroupO g) \<Rightarrow> (g, h) | _ \<Rightarrow> alloc_group new_group h)"

definition callable_entries :: "heap \<Rightarrow> obj \<Rightarrow> (FSig \<times> obj) list option" where
  "callable_entries h v =
     (case GetSignature v of
        Some sig \<Rightarrow> Some [(sig, v)]
      | None \<Rightarrow> (case v of FunctionGroupO g \<Rightarrow> Some (fg_Functions (groups h ! g)) | _ \<Rightarrow> None))"

text \<open>\<open>mergeCallableIntoBinding\<close>: the error, or the new value of the binding.\<close>

definition mergeCallableIntoBinding ::
  "string \<Rightarrow> obj option \<Rightarrow> obj \<Rightarrow> heap \<Rightarrow> (string + obj) \<times> heap" where
  "mergeCallableIntoBinding name value v h =
     (let (g, h) = group_of value h
      in case callable_entries h v of
           None \<Rightarrow>
             (Inl (''internal error: mergeCallableIntoBinding expects callable object, got '' @ obj_type v), h)
         | Some entries \<Rightarrow>
             (let (err, fs) = addFunctions name (fg_Functions (groups h ! g)) entries;
                  h = set_group g ((groups h ! g)\<lparr>fg_Functions := fs\<rparr>) h
              in case err of Some e \<Rightarrow> (Inl e, h) | None \<Rightarrow> (Inr (FunctionGroupO g), h)))"

definition defined_value :: "string \<Rightarrow> obj option \<Rightarrow> obj \<Rightarrow> heap \<Rightarrow> (string + obj) \<times> heap" where
  "defined_value name value v h =
     (if isCallableObject v then mergeCallableIntoBinding name value v h else (Inr v, h))"

definition is_group :: "obj option \<Rightarrow> bool" where
  "is_group v = (case v of Some (FunctionGroupO _) \<Rightarrow> True | _ \<Rightarrow> False)"

definition may_define :: "Binding \<Rightarrow> obj \<Rightarrow> bool" where
  \<comment> \<open>whether \<open>define\<close> accepts an existing binding\<close>
  "may_define bn v =
     (bn_IsMutable bn \<or> bn_Value bn = Some UninitializedO \<or> IsImport (bn_Meta bn) \<or>
      (isCallableObject v \<and> is_group (bn_Value bn)))"

text \<open>
  \<open>define\<close>. An existing binding is changed in place and keeps its mutability; its meta data
  are set before the merge that may fail.
\<close>

definition env_define ::
  "nat \<Rightarrow> string \<Rightarrow> obj \<Rightarrow> bool \<Rightarrow> bool \<Rightarrow> bool \<Rightarrow> heap \<Rightarrow> (string + obj) \<times> heap" where
  "env_define i name v isMutable isExported isImport h =
     (case env_Bindings (envs h ! i) name of
        Some b \<Rightarrow>
          (let bn = bindings h ! b
           in if \<not> may_define bn v
              then (Inl ((if isMutable then ''var'' else ''val'') @ '' '' @ backquoted name @
                         '' is already defined as a '' @ [CHR 0x27] @ ''val'' @ [CHR 0x27] @ '' and cannot be reassigned''), h)
              else
                (let bn = bn\<lparr>bn_Meta := (bn_Meta bn)\<lparr>IsImport := isImport, IsExport := isExported\<rparr>\<rparr>;
                     h = set_binding b bn h
                 in case defined_value name (bn_Value bn) v h of
                      (Inl e, h) \<Rightarrow> (Inl e, h)
                    | (Inr w, h) \<Rightarrow> (Inr v, set_binding b (bn\<lparr>bn_Value := Some w\<rparr>) h)))
      | None \<Rightarrow>
          (case defined_value name None v h of
             (Inl e, h) \<Rightarrow> (Inl e, h)
           | (Inr w, h) \<Rightarrow>
               (let (b, h) = alloc_binding
                      \<lparr>bn_Value = Some w, bn_Err = None,
                       bn_Meta = no_meta\<lparr>IsImport := isImport, IsExport := isExported\<rparr>,
                       bn_IsMutable = isMutable\<rparr> h
                in (Inr v, bind_name i name b h))))"

definition DefineConstant :: "nat \<Rightarrow> string \<Rightarrow> obj \<Rightarrow> bool \<Rightarrow> bool \<Rightarrow> heap \<Rightarrow> (string + obj) \<times> heap" where
  "DefineConstant i name v isExported isImport h = env_define i name v False isExported isImport h"

definition Define :: "nat \<Rightarrow> string \<Rightarrow> obj \<Rightarrow> bool \<Rightarrow> bool \<Rightarrow> heap \<Rightarrow> (string + obj) \<times> heap" where
  "Define i name v isExported isImport h = env_define i name v True isExported isImport h"

section \<open>Assignment and documentation\<close>

definition assigned_value :: "obj option \<Rightarrow> obj \<Rightarrow> heap \<Rightarrow> obj \<times> heap" where
  \<comment> \<open>a function joins the group that is bound, replacing an overload of its signature\<close>
  "assigned_value value v h =
     (case GetSignature v of
        Some sig \<Rightarrow>
          (let (g, h) = group_of value h; fg = groups h ! g
           in (FunctionGroupO g, set_group g (fg\<lparr>fg_Functions := AList.update sig v (fg_Functions fg)\<rparr>) h))
      | None \<Rightarrow> (v, h))"

definition assign_at :: "nat \<Rightarrow> string \<Rightarrow> obj \<Rightarrow> heap \<Rightarrow> (string + obj) \<times> heap" where
  "assign_at b name v h =
     (let bn = bindings h ! b
      in if \<not> bn_IsMutable bn
         then (Inl (''failed to assign to val '' @ [CHR 0x27] @ name @ [CHR 0x27] @ '': value is immutible''), h)
         else
           (let bn = bn\<lparr>bn_Meta := (bn_Meta bn)\<lparr>IsImport := False\<rparr>\<rparr>;
                (w, h) = assigned_value (bn_Value bn) v h
            in (Inr v, set_binding b (bn\<lparr>bn_Value := Some w\<rparr>) h)))"

definition undefined_name :: "string \<Rightarrow> string" where
  "undefined_name name =
     ''failed to assign to '' @ [CHR 0x27] @ name @ [CHR 0x27] @ '': not defined in any accessible scope''"

function env_Assign :: "nat \<Rightarrow> string \<Rightarrow> obj \<Rightarrow> heap \<Rightarrow> (string + obj) \<times> heap" where
  "env_Assign i name v h =
     (case env_Bindings (envs h ! i) name of
        Some b \<Rightarrow> assign_at b name v h
      | None \<Rightarrow>
          (case env_Outer (envs h ! i) of
             None \<Rightarrow> (Inl (undefined_name name), h)
           | Some outer \<Rightarrow> if outer < i then env_Assign outer name v h else (Inl (undefined_name name), h)))"
  by pat_completeness auto
termination by (relation "measure (\<lambda>(i, name, v, h). i)") auto

declare env_Assign.simps [simp del]

definition SetLocalDoc :: "nat \<Rightarrow> string \<Rightarrow> string \<Rightarrow> heap \<Rightarrow> heap" where
  "SetLocalDoc i name doc h =
     (case env_Bindings (envs h ! i) name of
        None \<Rightarrow> h
      | Some b \<Rightarrow>
          (let bn = bindings h ! b;
               h = set_binding b (bn\<lparr>bn_Meta := (bn_Meta bn)\<lparr>meta_Doc := doc, meta_HasDoc := True\<rparr>\<rparr>) h
           in case bn_Value bn of
                Some (FunctionGroupO g) \<Rightarrow>
                  set_group g ((groups h ! g)\<lparr>fg_Doc := doc, fg_HasDoc := True\<rparr>) h
              | _ \<Rightarrow> h))"

section \<open>Live bindings\<close>

text \<open>
  A binding reference stands for the current value of a module's binding. Following
  references may not end, when a binding refers to itself: \<open>None\<close>.
\<close>

partial_function (option) resolve_loop :: "heap \<Rightarrow> obj \<Rightarrow> (fault + obj) option" where
  "resolve_loop h v =
     (case v of
        BindingRefO _ (Some i) name \<Rightarrow>
          (case GetLocalBindingValue h i name of
             None \<Rightarrow> Some (Inl (Raise (''binding reference not found: '' @ name)))
           | Some (Some UninitializedO, _) \<Rightarrow>
               Some (Inl (Raise (name @ '' used before initialization (likely circular import)'')))
           | Some (Some w, _) \<Rightarrow> resolve_loop h w
           | Some (None, _) \<Rightarrow> Some (Inl (Panic ''nil object'')))
      | BindingRefO _ None name \<Rightarrow>
          Some (Inl (Raise (''invalid binding reference: <bindingref '' @ name @ ''>'')))
      | _ \<Rightarrow> Some (Inr v))"

end
