(* ===== verification/Environment_Laws.thy ===== *)
theory Environment_Laws
  imports Environment
begin

text \<open>
  Laws of environments: the store stays well formed under every operation, a \<open>val\<close> keeps its
  value, assignment changes exactly the binding that lookup finds, and what a redefinition
  does to the mutability of a name.
\<close>

section \<open>Well-formed stores\<close>

definition value_ok :: "heap \<Rightarrow> obj option \<Rightarrow> bool" where
  "value_ok h v \<longleftrightarrow> (\<forall>g. v = Some (FunctionGroupO g) \<longrightarrow> g < length (groups h))"

definition env_ok :: "heap \<Rightarrow> nat \<Rightarrow> bool" where
  "env_ok h i \<longleftrightarrow>
     (\<forall>outer. env_Outer (envs h ! i) = Some outer \<longrightarrow> outer < i) \<and>
     (\<forall>name b. env_Bindings (envs h ! i) name = Some b \<longrightarrow> b < length (bindings h))"

definition heap_wf :: "heap \<Rightarrow> bool" where
  "heap_wf h \<longleftrightarrow> (\<forall>i < length (envs h). env_ok h i) \<and> (\<forall>bn\<in>set (bindings h). value_ok h (bn_Value bn))"

named_theorems store \<open>what the store holds after an update\<close>

lemmas [store] =
  alloc_env_def alloc_binding_def alloc_group_def set_binding_def set_group_def bind_name_def

lemma heap_wf_outer: "heap_wf h \<Longrightarrow> i < length (envs h) \<Longrightarrow> env_Outer (envs h ! i) = Some outer \<Longrightarrow> outer < i"
  by (auto simp: heap_wf_def env_ok_def)

lemma heap_wf_binding:
  "heap_wf h \<Longrightarrow> i < length (envs h) \<Longrightarrow> env_Bindings (envs h ! i) name = Some b \<Longrightarrow> b < length (bindings h)"
  by (auto simp: heap_wf_def env_ok_def)

lemma heap_wf_value: "heap_wf h \<Longrightarrow> b < length (bindings h) \<Longrightarrow> value_ok h (bn_Value (bindings h ! b))"
  by (auto simp: heap_wf_def)

text \<open>On a well-formed store the search never needs the test that cuts it.\<close>

lemma GetBinding_outer:
  "heap_wf h \<Longrightarrow> i < length (envs h) \<Longrightarrow>
     GetBinding h i name =
       (case env_Bindings (envs h ! i) name of
          Some b \<Rightarrow> Some b
        | None \<Rightarrow> Option.bind (env_Outer (envs h ! i)) (\<lambda>outer. GetBinding h outer name))"
  by (subst GetBinding.simps) (auto split: option.splits dest: heap_wf_outer)

lemma GetBinding_range:
  "heap_wf h \<Longrightarrow> i < length (envs h) \<Longrightarrow> GetBinding h i name = Some b \<Longrightarrow> b < length (bindings h)"
proof (induction h i name rule: GetBinding.induct)
  case (1 h i name)
  then show ?case
    using GetBinding.simps [of h i name] by (auto split: option.splits if_splits dest: heap_wf_binding)
qed

section \<open>Updates of the store\<close>

lemma heap_wf_alloc_env:
  "heap_wf h \<Longrightarrow> env_Outer e = None \<or> (\<exists>outer. env_Outer e = Some outer \<and> outer < length (envs h)) \<Longrightarrow>
     (\<And>name b. env_Bindings e name = Some b \<Longrightarrow> b < length (bindings h)) \<Longrightarrow>
     heap_wf (snd (alloc_env e h))"
  by (auto simp: heap_wf_def env_ok_def value_ok_def store nth_append less_Suc_eq)

lemma heap_wf_set_binding: "heap_wf h \<Longrightarrow> value_ok h (bn_Value bn) \<Longrightarrow> heap_wf (set_binding b bn h)"
  by (auto simp: heap_wf_def env_ok_def value_ok_def store dest!: set_update_subset_insert [THEN subsetD])

lemma heap_wf_set_group: "heap_wf h \<Longrightarrow> heap_wf (set_group g fg h)"
  by (simp add: heap_wf_def env_ok_def value_ok_def store)

lemma heap_wf_alloc_group: "heap_wf h \<Longrightarrow> heap_wf (snd (alloc_group g h))"
  by (fastforce simp: heap_wf_def env_ok_def value_ok_def store)

lemma heap_wf_alloc_binding: "heap_wf h \<Longrightarrow> value_ok h (bn_Value bn) \<Longrightarrow> heap_wf (snd (alloc_binding bn h))"
  by (fastforce simp: heap_wf_def env_ok_def value_ok_def store)

lemma heap_wf_bind_name:
  "heap_wf h \<Longrightarrow> i < length (envs h) \<Longrightarrow> b < length (bindings h) \<Longrightarrow> heap_wf (bind_name i name b h)"
  by (auto simp: heap_wf_def env_ok_def value_ok_def store nth_list_update split: if_splits)

text \<open>What merging functions changes: groups, and no fewer of them.\<close>

definition groups_only :: "heap \<Rightarrow> heap \<Rightarrow> bool" where
  "groups_only h h' \<longleftrightarrow> (\<exists>gs. h' = h\<lparr>groups := gs\<rparr> \<and> length (groups h) \<le> length gs)"

lemma groups_only_refl [simp]: "groups_only h h"
  unfolding groups_only_def by (rule exI [of _ "groups h"]) simp

lemma groups_only_trans: "groups_only h h' \<Longrightarrow> groups_only h' h'' \<Longrightarrow> groups_only h h''"
  unfolding groups_only_def by fastforce

lemma groups_only_parts:
  "groups_only h h' \<Longrightarrow>
     envs h' = envs h \<and> bindings h' = bindings h \<and> schemas h' = schemas h \<and> task_results h' = task_results h \<and> channels h' = channels h \<and> next_ref h' = next_ref h \<and>
     length (groups h) \<le> length (groups h')"
  by (auto simp: groups_only_def)

lemma groups_only_wf: "groups_only h h' \<Longrightarrow> heap_wf h \<Longrightarrow> heap_wf h'"
  by (fastforce simp: groups_only_def heap_wf_def env_ok_def value_ok_def)

lemma groups_only_value_ok: "groups_only h h' \<Longrightarrow> value_ok h v \<Longrightarrow> value_ok h' v"
  by (fastforce simp: groups_only_def value_ok_def)

lemma groups_only_set_group: "groups_only h (set_group g fg h)"
  unfolding groups_only_def set_group_def by (rule exI [of _ "(groups h)[g := fg]"]) simp

lemma group_of_ok:
  assumes "group_of v h = (g, h')" "value_ok h v"
  shows "groups_only h h' \<and> g < length (groups h')"
proof -
  have "groups_only h (snd (alloc_group new_group h))"
    unfolding groups_only_def alloc_group_def by (rule exI [of _ "groups h @ [new_group]"]) simp
  then show ?thesis
    using assms by (auto simp: group_of_def alloc_group_def value_ok_def split: option.splits obj.splits)
qed

lemma defined_value_ok:
  assumes "defined_value name value v h = (r, h')" "value_ok h value" "value_ok h (Some v)"
  shows "groups_only h h' \<and> (\<forall>w. r = Inr w \<longrightarrow> value_ok h' (Some w))"
proof (cases "isCallableObject v")
  case True
  obtain g h1 where g: "group_of value h = (g, h1)" by fastforce
  have ok: "groups_only h h1" "g < length (groups h1)" using group_of_ok [OF g assms(2)] by auto
  then show ?thesis
    using True assms(1) g groups_only_set_group
    by (auto simp: defined_value_def mergeCallableIntoBinding_def Let_def value_ok_def
        dest: groups_only_parts split: option.splits prod.splits
        intro: groups_only_trans [OF _ groups_only_set_group])
      (simp add: set_group_def)
next
  case False
  then show ?thesis using assms by (auto simp: defined_value_def)
qed

lemma assigned_value_ok:
  assumes "assigned_value value v h = (w, h')" "value_ok h value" "value_ok h (Some v)"
  shows "groups_only h h' \<and> value_ok h' (Some w)"
proof (cases "GetSignature v")
  case (Some sig)
  obtain g h1 where g: "group_of value h = (g, h1)" by fastforce
  have ok: "groups_only h h1" "g < length (groups h1)" using group_of_ok [OF g assms(2)] by auto
  then show ?thesis
    using Some assms(1) g
    by (auto simp: assigned_value_def Let_def value_ok_def intro: groups_only_trans [OF _ groups_only_set_group])
      (simp add: set_group_def)
next
  case None
  then show ?thesis using assms by (simp add: assigned_value_def)
qed

lemma env_define_wf:
  assumes "heap_wf h" "i < length (envs h)" "value_ok h (Some v)"
  shows "heap_wf (snd (env_define i name v m x im h))"
proof (cases "env_Bindings (envs h ! i) name")
  case None
  obtain r h1 where d: "defined_value name None v h = (r, h1)" by fastforce
  have ok: "groups_only h h1" "\<And>w. r = Inr w \<Longrightarrow> value_ok h1 (Some w)"
    using defined_value_ok [OF d] assms(3) by (auto simp: value_ok_def)
  show ?thesis
  proof (cases r)
    case (Inr w)
    let ?bn = "\<lparr>bn_Value = Some w, bn_Err = None, bn_Meta = no_meta\<lparr>IsImport := im, IsExport := x\<rparr>, bn_IsMutable = m\<rparr>"
    have "heap_wf (snd (alloc_binding ?bn h1))"
      using ok Inr groups_only_wf [OF ok(1) assms(1)] by (intro heap_wf_alloc_binding) auto
    then have "heap_wf (bind_name i name (length (bindings h1)) (snd (alloc_binding ?bn h1)))"
      using assms(2) groups_only_parts [OF ok(1)] by (intro heap_wf_bind_name) (auto simp: alloc_binding_def)
    then show ?thesis by (simp add: env_define_def None d Inr alloc_binding_def)
  qed (use None d ok groups_only_wf [OF ok(1) assms(1)] in \<open>simp add: env_define_def\<close>)
next
  case (Some b)
  show ?thesis
  proof (cases "may_define (bindings h ! b) v")
    case True
    define bn where "bn = (bindings h ! b)\<lparr>bn_Meta := (bn_Meta (bindings h ! b))\<lparr>IsImport := im, IsExport := x\<rparr>\<rparr>"
    have b: "b < length (bindings h)" using heap_wf_binding assms Some by blast
    have v: "bn_Value bn = bn_Value (bindings h ! b)" by (simp add: bn_def)
    have h0: "heap_wf (set_binding b bn h)"
      using assms(1) heap_wf_value [OF assms(1) b] v by (intro heap_wf_set_binding) auto
    obtain r h1 where d: "defined_value name (bn_Value bn) v (set_binding b bn h) = (r, h1)" by fastforce
    have ok: "groups_only (set_binding b bn h) h1" "\<And>w. r = Inr w \<Longrightarrow> value_ok h1 (Some w)"
      using defined_value_ok [OF d] assms(3) heap_wf_value [OF assms(1) b] v
      by (auto simp: value_ok_def set_binding_def)
    have "heap_wf h1" by (rule groups_only_wf [OF ok(1) h0])
    then show ?thesis
      using Some True d ok(2) v
      by (cases r) (auto simp: env_define_def Let_def bn_def intro!: heap_wf_set_binding)
  qed (use Some assms in \<open>simp add: env_define_def Let_def\<close>)
qed

lemma env_Assign_lookup:
  "env_Assign i name v h =
     (case GetBinding h i name of
        Some b \<Rightarrow> assign_at b name v h
      | None \<Rightarrow> (Inl (undefined_name name), h))"
proof (induction i name v h rule: env_Assign.induct)
  case (1 i name v h)
  show ?case
  proof (cases "env_Bindings (envs h ! i) name")
    case None
    show ?thesis
    proof (cases "env_Outer (envs h ! i)")
      case (Some outer)
      show ?thesis
        using 1 [OF None Some] None Some
        by (subst env_Assign.simps, subst GetBinding.simps) simp
    qed (subst env_Assign.simps, subst GetBinding.simps, simp add: None)
  qed (subst env_Assign.simps, subst GetBinding.simps, simp)
qed

lemma assign_at_wf:
  assumes "heap_wf h" "b < length (bindings h)" "value_ok h (Some v)"
  shows "heap_wf (snd (assign_at b name v h))"
proof -
  obtain w h1 where d: "assigned_value (bn_Value (bindings h ! b)) v h = (w, h1)" by fastforce
  have "groups_only h h1" "value_ok h1 (Some w)"
    using assigned_value_ok [OF d] heap_wf_value [OF assms(1,2)] assms(3) by auto
  then have "heap_wf (set_binding b (bn\<lparr>bn_Value := Some w\<rparr>) h1)" for bn :: Binding
    using groups_only_wf [OF _ assms(1)] by (intro heap_wf_set_binding) simp_all
  then show ?thesis using assms(1) d by (simp add: assign_at_def Let_def)
qed

lemma env_Assign_wf:
  "heap_wf h \<Longrightarrow> i < length (envs h) \<Longrightarrow> value_ok h (Some v) \<Longrightarrow> heap_wf (snd (env_Assign i name v h))"
  by (auto simp: env_Assign_lookup assign_at_wf GetBinding_range split: option.split)

lemma SetLocalDoc_wf:
  assumes "heap_wf h" "i < length (envs h)"
  shows "heap_wf (SetLocalDoc i name doc h)"
proof (cases "env_Bindings (envs h ! i) name")
  case (Some b)
  let ?bn = "(bindings h ! b)\<lparr>bn_Meta := (bn_Meta (bindings h ! b))\<lparr>meta_Doc := doc, meta_HasDoc := True\<rparr>\<rparr>"
  have "b < length (bindings h)" using heap_wf_binding assms Some by blast
  then have h: "heap_wf (set_binding b ?bn h)"
    using assms heap_wf_value by (intro heap_wf_set_binding) auto
  then show ?thesis
    using heap_wf_set_group [OF h] Some by (simp add: SetLocalDoc_def Let_def split: option.split obj.split)
qed (use assms in \<open>simp add: SetLocalDoc_def\<close>)

lemma ResetForTCO_wf: "heap_wf h \<Longrightarrow> i < length (envs h) \<Longrightarrow> heap_wf (ResetForTCO i h)"
  by (auto simp: ResetForTCO_def heap_wf_def env_ok_def value_ok_def nth_list_update split: if_splits)

lemma new_env_wf:
  "heap_wf h \<Longrightarrow> i < length (envs h) \<Longrightarrow> heap_wf (snd (NewEnclosedEnvironment i frame h))"
  "heap_wf h \<Longrightarrow> heap_wf (snd (NewRootEnvironment limit h))"
  "heap_wf h \<Longrightarrow> i < length (envs h) \<Longrightarrow> heap_wf (snd (ShallowCopy i h))"
proof -
  assume h: "heap_wf h" and i: "i < length (envs h)"
  show "heap_wf (snd (NewEnclosedEnvironment i frame h))"
    using h i by (auto simp: NewEnclosedEnvironment_def Let_def intro!: heap_wf_alloc_env)
  have "outer < length (envs h)" if "env_Outer (envs h ! i) = Some outer" for outer
    using heap_wf_outer [OF h i that] i by simp
  then show "heap_wf (snd (ShallowCopy i h))"
    using h i heap_wf_binding [OF h i]
    by (cases "env_Outer (envs h ! i)") (auto simp: ShallowCopy_def Let_def intro!: heap_wf_alloc_env)
qed (auto simp: NewRootEnvironment_def intro!: heap_wf_alloc_env)

section \<open>Histories\<close>

text \<open>The operations a program performs on a store, on environments and values it has.\<close>

datatype env_op =
  MkRoot int
| MkEnclosed nat "StackFrame option"
| MkCopy nat
| DoReset nat
| DoDefine nat string obj bool bool bool
| DoAssign nat string obj
| DoSetDoc nat string string

definition perform :: "env_op \<Rightarrow> heap \<Rightarrow> heap" where
  "perform op h =
     (case op of
        MkRoot limit \<Rightarrow> snd (NewRootEnvironment limit h)
      | MkEnclosed i frame \<Rightarrow> snd (NewEnclosedEnvironment i frame h)
      | MkCopy i \<Rightarrow> snd (ShallowCopy i h)
      | DoReset i \<Rightarrow> ResetForTCO i h
      | DoDefine i name v m x im \<Rightarrow> snd (env_define i name v m x im h)
      | DoAssign i name v \<Rightarrow> snd (env_Assign i name v h)
      | DoSetDoc i name doc \<Rightarrow> SetLocalDoc i name doc h)"

definition admissible :: "env_op \<Rightarrow> heap \<Rightarrow> bool" where
  "admissible op h =
     (case op of
        MkRoot limit \<Rightarrow> True
      | MkEnclosed i frame \<Rightarrow> i < length (envs h)
      | MkCopy i \<Rightarrow> i < length (envs h)
      | DoReset i \<Rightarrow> i < length (envs h)
      | DoDefine i name v m x im \<Rightarrow> i < length (envs h) \<and> value_ok h (Some v)
      | DoAssign i name v \<Rightarrow> i < length (envs h) \<and> value_ok h (Some v)
      | DoSetDoc i name doc \<Rightarrow> i < length (envs h))"

inductive history :: "heap \<Rightarrow> heap \<Rightarrow> bool" where
  none: "history h h"
| step: "history h h' \<Longrightarrow> admissible op h' \<Longrightarrow> history h (perform op h')"

lemma perform_wf: "heap_wf h \<Longrightarrow> admissible op h \<Longrightarrow> heap_wf (perform op h)"
  by (cases op)
    (simp_all add: perform_def admissible_def new_env_wf ResetForTCO_wf env_define_wf env_Assign_wf SetLocalDoc_wf)

lemma history_wf: "history h h' \<Longrightarrow> heap_wf h \<Longrightarrow> heap_wf h'"
  by (induction rule: history.induct) (simp_all add: perform_wf)

text \<open>
  Whatever a program does to a well-formed store, an environment lies inside an older one, so
  that the walk to the outer environments ends: lookup is given by the names of the scope and
  the lookup outside, and every binding it finds exists.
\<close>

theorem lookup_well_founded:
  assumes "history h h'" "heap_wf h" "i < length (envs h')"
  shows "heap_wf h' \<and>
    GetBinding h' i name =
      (case env_Bindings (envs h' ! i) name of
         Some b \<Rightarrow> Some b
       | None \<Rightarrow> Option.bind (env_Outer (envs h' ! i)) (\<lambda>outer. GetBinding h' outer name)) \<and>
    (\<forall>b. GetBinding h' i name = Some b \<longrightarrow> b < length (bindings h'))"
  using history_wf [OF assms(1,2)] GetBinding_outer GetBinding_range assms(3) by blast

definition empty_heap :: heap where
  "empty_heap = \<lparr>envs = [], bindings = [], groups = [], schemas = [], task_results = [], channels = [], next_ref = 0\<rparr>"

lemma heap_wf_empty [simp]: "heap_wf empty_heap" by (simp add: heap_wf_def empty_heap_def)

text \<open>A root with a \<open>val\<close> and a \<open>var\<close>, and a scope inside it.\<close>

definition sample_heap :: heap where
  "sample_heap =
     perform (MkEnclosed 0 None)
       (perform (DoDefine 0 ''y'' NilO True False False)
         (perform (DoDefine 0 ''x'' (BooleanO True) False False False) (perform (MkRoot 4) empty_heap)))"

lemmas perform_simps =
  perform_def env_define_def defined_value_def isCallableObject_def GetSignature_def store Let_def
  NewRootEnvironment_def NewEnclosedEnvironment_def empty_heap_def no_meta_def

lemma history_sample: "history empty_heap sample_heap"
  unfolding sample_heap_def
  by (intro history.intros) (simp_all add: admissible_def value_ok_def perform_simps)

lemma length_sample: "length (envs sample_heap) = 2" "length (bindings sample_heap) = 2"
  by (simp_all add: sample_heap_def perform_simps)

theorem lookup_well_founded_witness:
  "heap_wf sample_heap \<and>
    GetBinding sample_heap 1 ''x'' =
      (case env_Bindings (envs sample_heap ! 1) ''x'' of
         Some b \<Rightarrow> Some b
       | None \<Rightarrow> Option.bind (env_Outer (envs sample_heap ! 1)) (\<lambda>outer. GetBinding sample_heap outer ''x''))"
  using lookup_well_founded [OF history_sample, of 1 "''x''"] by (simp add: length_sample)

section \<open>Values are final\<close>

definition final_binding :: "Binding \<Rightarrow> bool" where
  \<comment> \<open>a \<open>val\<close> that is initialised, not imported and not a function\<close>
  "final_binding bn \<longleftrightarrow>
     \<not> bn_IsMutable bn \<and> bn_Value bn \<noteq> Some UninitializedO \<and> \<not> IsImport (bn_Meta bn) \<and> \<not> is_group (bn_Value bn)"

definition keeps :: "nat \<Rightarrow> heap \<Rightarrow> heap \<Rightarrow> bool" where
  "keeps b h h' \<longleftrightarrow> b < length (bindings h') \<and> final_binding (bindings h' ! b) \<and>
     bn_Value (bindings h' ! b) = bn_Value (bindings h ! b)"

lemma env_define_bindings:
  "\<exists>bs. bindings (snd (env_define i name v m x im h)) =
       (case env_Bindings (envs h ! i) name of
          None \<Rightarrow> bindings h @ bs
        | Some b \<Rightarrow> if may_define (bindings h ! b) v then (bindings h)[b := hd bs] else bindings h)"
proof (cases "env_Bindings (envs h ! i) name")
  case None
  obtain r h1 where d: "defined_value name None v h = (r, h1)" by fastforce
  have "bindings h1 = bindings h"
    using d by (auto simp: defined_value_def mergeCallableIntoBinding_def Let_def store group_of_def
        split: if_splits option.splits prod.splits obj.splits)
  then show ?thesis
    using None d by (cases r) (auto simp: env_define_def store Let_def intro: exI [of _ "[]"])
next
  case (Some b)
  have groups: "bindings h2 = bindings h1" if "defined_value name val v h1 = (r, h2)" for val r h1 h2
    using that by (auto simp: defined_value_def mergeCallableIntoBinding_def Let_def store group_of_def
        split: if_splits option.splits prod.splits obj.splits)
  show ?thesis
    using Some by (auto simp: env_define_def Let_def set_binding_def dest!: groups split: prod.splits sum.splits
        intro: exI [of _ "[_]"])
qed

lemma env_Assign_bindings:
  "\<exists>bn. bindings (snd (env_Assign i name v h)) =
       (case GetBinding h i name of
          None \<Rightarrow> bindings h
        | Some b \<Rightarrow> if bn_IsMutable (bindings h ! b) then (bindings h)[b := bn] else bindings h)"
proof -
  have "bindings h2 = bindings h1" if "assigned_value val v h1 = (r, h2)" for val r h1 h2
    using that by (auto simp: assigned_value_def Let_def store group_of_def
        split: option.splits prod.splits obj.splits)
  then show ?thesis
    by (fastforce simp: env_Assign_lookup assign_at_def Let_def set_binding_def split: prod.splits option.splits)
qed

lemma perform_final:
  assumes "heap_wf h" "admissible op h" "b < length (bindings h)" "final_binding (bindings h ! b)"
  shows "keeps b h (perform op h)"
proof (cases op)
  case (DoDefine i name v m x im)
  have "\<not> may_define (bindings h ! b) v" using assms(4) by (auto simp: final_binding_def may_define_def)
  moreover obtain bs where "bindings (perform op h) =
       (case env_Bindings (envs h ! i) name of
          None \<Rightarrow> bindings h @ bs
        | Some b \<Rightarrow> if may_define (bindings h ! b) v then (bindings h)[b := hd bs] else bindings h)"
    using env_define_bindings [of i name v m x im h] DoDefine by (auto simp: perform_def)
  moreover have "b' \<noteq> b" if "may_define (bindings h ! b') v" for b' using that calculation(1) by auto
  ultimately show ?thesis
    using assms(3,4) by (auto simp: keeps_def nth_append split: option.splits)
next
  case (DoAssign i name v)
  obtain bn where "bindings (perform op h) =
       (case GetBinding h i name of
          None \<Rightarrow> bindings h
        | Some b \<Rightarrow> if bn_IsMutable (bindings h ! b) then (bindings h)[b := bn] else bindings h)"
    using env_Assign_bindings [of i name v h] DoAssign by (auto simp: perform_def)
  moreover have "b' \<noteq> b" if "bn_IsMutable (bindings h ! b')" for b'
    using that assms(4) by (auto simp: final_binding_def)
  ultimately show ?thesis
    using assms(3,4) by (auto simp: keeps_def split: option.splits)
next
  case (DoSetDoc i name doc)
  show ?thesis
  proof (cases "env_Bindings (envs h ! i) name")
    case (Some b')
    have "bindings (perform op h) = (bindings h)[b' := (bindings h ! b')
        \<lparr>bn_Meta := (bn_Meta (bindings h ! b'))\<lparr>meta_Doc := doc, meta_HasDoc := True\<rparr>\<rparr>]"
      using DoSetDoc Some by (simp add: perform_def SetLocalDoc_def Let_def store split: option.split obj.split)
    then show ?thesis
      using assms(3,4) by (cases "b' = b") (simp_all add: keeps_def final_binding_def)
  qed (use DoSetDoc assms in \<open>simp add: keeps_def perform_def SetLocalDoc_def\<close>)
qed (use assms in \<open>simp_all add: keeps_def perform_def store NewRootEnvironment_def NewEnclosedEnvironment_def
      ShallowCopy_def ResetForTCO_def Let_def\<close>)

text \<open>C38:
  A \<open>val\<close> is final: no sequence of operations on any environments changes the value or the
  immutability of a binding that is initialised, not imported and not a function.
\<close>

theorem val_is_final:
  assumes "history h h'" "heap_wf h" "b < length (bindings h)" "final_binding (bindings h ! b)"
  shows "bn_Value (bindings h' ! b) = bn_Value (bindings h ! b) \<and> final_binding (bindings h' ! b)"
proof -
  have "keeps b h h'"
    using assms
  proof (induction rule: history.induct)
    case (step h h' op)
    then have k: "keeps b h h'" by blast
    then have "keeps b h' (perform op h')"
      using perform_final step history_wf by (auto simp: keeps_def)
    then show ?case using k by (simp add: keeps_def)
  qed (simp add: keeps_def)
  then show ?thesis by (simp add: keeps_def)
qed

theorem val_is_final_witness:
  "bn_Value (bindings (perform (DoAssign 1 ''x'' NilO) sample_heap) ! 0) = bn_Value (bindings sample_heap ! 0) \<and>
   final_binding (bindings (perform (DoAssign 1 ''x'' NilO) sample_heap) ! 0)"
proof (rule val_is_final)
  show "history sample_heap (perform (DoAssign 1 ''x'' NilO) sample_heap)"
    by (intro history.intros) (simp add: admissible_def value_ok_def length_sample)
  show "heap_wf sample_heap" by (rule history_wf [OF history_sample]) simp
  show "final_binding (bindings sample_heap ! 0)"
    by (simp add: sample_heap_def perform_simps final_binding_def is_group_def)
qed (simp add: length_sample)

section \<open>Assignment\<close>

text \<open>C37:
  Assignment changes exactly the binding that lookup finds: an undefined name and a \<open>val\<close> are
  errors that change nothing; otherwise every name of every environment that stands for that
  binding reads the new value and every other name what it read before.
\<close>

theorem assign_changes_the_binding_found:
  assumes "heap_wf h" "i < length (envs h)" "GetSignature v = None" "env_Assign i name v h = (r, h')"
  shows "case GetBinding h i name of
      None \<Rightarrow> r = Inl (undefined_name name) \<and> h' = h
    | Some b \<Rightarrow>
        if bn_IsMutable (bindings h ! b)
        then r = Inr v \<and>
             (\<forall>j name'. env_Get h' j name' =
                (if GetBinding h j name' = Some b then Some (Some v) else env_Get h j name'))
        else (\<exists>e. r = Inl e) \<and> h' = h"
proof (cases "GetBinding h i name")
  case (Some b)
  have same: "GetBinding (h\<lparr>bindings := bs\<rparr>) j name' = GetBinding h j name'" for bs j name'
    by (induction h j name' rule: GetBinding.induct)
      (subst (1 2) GetBinding.simps, simp split: option.split)
  have "b < length (bindings h)" using GetBinding_range assms(1,2) Some by blast
  then show ?thesis
    using assms(3,4) Some
    by (auto simp: env_Assign_lookup assign_at_def assigned_value_def Let_def env_Get_def same
        set_binding_def nth_list_update intro!: option.map_cong0 split: if_splits)
qed (use assms in \<open>simp add: env_Assign_lookup\<close>)

theorem assign_changes_the_binding_found_witness:
  "\<exists>h'. env_Assign 1 ''y'' (BooleanO False) sample_heap = (Inr (BooleanO False), h') \<and>
     env_Get h' 0 ''y'' = Some (Some (BooleanO False)) \<and> env_Get h' 0 ''x'' = env_Get sample_heap 0 ''x''"
proof -
  obtain r h' where a: "env_Assign 1 ''y'' (BooleanO False) sample_heap = (r, h')" by fastforce
  have wf: "heap_wf sample_heap" by (rule history_wf [OF history_sample]) simp
  have g: "GetBinding sample_heap 1 ''y'' = Some 1" "GetBinding sample_heap 0 ''y'' = Some 1"
    "GetBinding sample_heap 0 ''x'' = Some 0"
    by (simp_all add: GetBinding.simps sample_heap_def perform_simps)
  have "bn_IsMutable (bindings sample_heap ! 1)" by (simp add: sample_heap_def perform_simps)
  then show ?thesis
    using assign_changes_the_binding_found [OF wf _ _ a] a g
    by (simp add: length_sample GetSignature_def)
qed

section \<open>Redefinition\<close>

text \<open>
  Defining a name again in its own scope reuses the binding with the mutability it has: a
  \<open>val\<close> that follows a \<open>var\<close> can still be assigned to, and a \<open>var\<close> that follows an imported
  name cannot.
\<close>

theorem redefinition_keeps_mutability:
  assumes "heap_wf h" "i < length (envs h)" "env_Bindings (envs h ! i) name = Some b"
    and "bn_IsMutable (bindings h ! b) = old" "old \<or> IsImport (bn_Meta (bindings h ! b))"
    and "GetSignature v = None" "GetSignature w = None" "\<not> is_group (Some v)"
    and "env_define i name v new x im h = (r, h')"
  shows "r = Inr v \<and> ((\<exists>w'. fst (env_Assign i name w h') = Inr w') \<longleftrightarrow> old)"
proof -
  have b: "b < length (bindings h)" using heap_wf_binding assms(1-3) by blast
  have m: "may_define (bindings h ! b) v" using assms(4,5) by (auto simp: may_define_def)
  have c: "\<not> isCallableObject v"
    using assms(6,8) by (auto simp: isCallableObject_def is_group_def split: obj.splits)
  have "GetBinding h' i name = Some b" "r = Inr v" "bn_IsMutable (bindings h' ! b) = old"
    using assms(3,4,9) b m c
    by (auto simp: env_define_def Let_def defined_value_def set_binding_def GetBinding.simps)
  then show ?thesis
    using assms(7) by (simp add: env_Assign_lookup assign_at_def assigned_value_def Let_def)
qed

theorem redefinition_keeps_mutability_witness:
  "fst (env_define 0 ''y'' (BooleanO True) False False False sample_heap) = Inr (BooleanO True) \<and>
   (\<exists>w'. fst (env_Assign 0 ''y'' NilO (snd (env_define 0 ''y'' (BooleanO True) False False False sample_heap))) = Inr w')"
proof -
  obtain r h' where d: "env_define 0 ''y'' (BooleanO True) False False False sample_heap = (r, h')" by fastforce
  have wf: "heap_wf sample_heap" by (rule history_wf [OF history_sample]) simp
  have "env_Bindings (envs sample_heap ! 0) ''y'' = Some 1" "bn_IsMutable (bindings sample_heap ! 1) = True"
    by (simp_all add: sample_heap_def perform_simps)
  from redefinition_keeps_mutability [OF wf _ this _ _ _ _ d, of NilO]
  show ?thesis using d by (simp add: length_sample GetSignature_def is_group_def)
qed

end
