(* ===== verification/Dispatch.thy ===== *)
theory Dispatch
  imports Environment "HOL-Library.Product_Lexorder"
begin

text \<open>
  Binding arguments to parameters and choosing an overload: \<open>bindArgumentsForDispatch\<close>,
  \<open>evaluateFunctionMatch\<close> and \<open>DispatchToFunction\<close> of \<open>internal/object/object.go\<close>, and
  \<open>selectVMFunctionFromGroup\<close>, \<open>evaluateVMTagMatch\<close> and \<open>mergeFunctionOverload\<close> of
  \<open>internal/vm/executor.go\<close>. A Go map of named arguments or of functions is a list in the
  order in which Go iterates it.
\<close>

section \<open>Binding arguments\<close>

text \<open>
  The code binds arguments in three places with the same steps. A slot is \<open>None\<close> while its
  parameter is not provided; a parameter is given by its name and whether it is variadic.
\<close>

type_synonym slots = "obj option list"

definition param_index :: "(string \<times> bool) list \<Rightarrow> string \<Rightarrow> nat option" where
  \<comment> \<open>the map from names to positions: a later parameter of the same name wins\<close>
  "param_index ps name = map_of (rev (zip (map fst ps) [0..<length ps])) name"

fun bind_named :: "(string \<times> bool) list \<Rightarrow> (string \<times> obj) list \<Rightarrow> slots \<Rightarrow> string + slots" where
  "bind_named ps [] vs = Inr vs"
| "bind_named ps ((name, v) # named) vs =
     (case param_index ps name of
        None \<Rightarrow> Inl (''unknown named parameter: '' @ name)
      | Some idx \<Rightarrow>
          if vs ! idx \<noteq> None then Inl (''duplicate assignment to parameter: '' @ name)
          else if snd (ps ! idx) \<and> (case v of ListO _ \<Rightarrow> False | _ \<Rightarrow> True)
          then Inl (''variadic parameter '' @ [CHR 0x27] @ name @ [CHR 0x27] @ '' must be a list when passed by name'')
          else bind_named ps named (vs[idx := Some v]))"

fun fill_slots :: "slots \<Rightarrow> obj list \<Rightarrow> slots \<times> obj list" where
  "fill_slots [] args = ([], args)"
| "fill_slots (Some v # vs) args = (let (ws, rest) = fill_slots vs args in (Some v # ws, rest))"
| "fill_slots (None # vs) [] = (None # vs, [])"
| "fill_slots (None # vs) (a # args) = (let (ws, rest) = fill_slots vs args in (Some a # ws, rest))"

definition has_variadic :: "(string \<times> bool) list \<Rightarrow> bool" where
  "has_variadic ps \<longleftrightarrow> ps \<noteq> [] \<and> snd (last ps)"

definition bind_positional :: "(string \<times> bool) list \<Rightarrow> obj list \<Rightarrow> slots \<Rightarrow> string + slots" where
  "bind_positional ps positional vs =
     (if has_variadic ps then
        (let (front, rest) = fill_slots (butlast vs) positional
         in case last vs of
              Some v \<Rightarrow> if rest \<noteq> [] then Inl ''too many positional arguments'' else Inr (front @ [Some v])
            | None \<Rightarrow> Inr (front @ [Some (ListO rest)]))
      else
        (let (ws, rest) = fill_slots vs positional
         in if rest \<noteq> [] then Inl ''too many positional arguments'' else Inr ws))"

definition bind_slots :: "(string \<times> bool) list \<Rightarrow> obj list \<Rightarrow> (string \<times> obj) list \<Rightarrow> string + slots" where
  "bind_slots ps positional named =
     (case bind_named ps named (replicate (length ps) None) of
        Inl e \<Rightarrow> Inl e
      | Inr vs \<Rightarrow> bind_positional ps positional vs)"

definition param_spec :: "expr FunctionParameter \<Rightarrow> string \<times> bool" where
  "param_spec p = (id_Value (fp_Name p), fp_IsVariadic p)"

definition has_default :: "expr \<Rightarrow> bool" where
  "has_default e = (case e of NoExpr \<Rightarrow> False | _ \<Rightarrow> True)"

fun missing_parameter :: "expr FunctionParameter list \<Rightarrow> slots \<Rightarrow> string option" where
  "missing_parameter (p # ps) (v # vs) =
     (if v \<noteq> None \<or> fp_IsVariadic p \<or> has_default (fp_Default p) then missing_parameter ps vs
      else Some (''missing required parameter: '' @ id_Value (fp_Name p)))"
| "missing_parameter _ _ = None"

text \<open>Nil parameters, \<open>None\<close>, accept any positional arguments.\<close>

definition bindArgumentsForDispatch ::
  "expr FunctionParameter list option \<Rightarrow> obj list \<Rightarrow> (string \<times> obj) list \<Rightarrow> string + slots" where
  "bindArgumentsForDispatch params positional named =
     (case params of
        None \<Rightarrow>
          if named \<noteq> [] then Inl ''named arguments are not supported for this function''
          else Inr (map Some positional)
      | Some ps \<Rightarrow>
          (case bind_slots (map param_spec ps) positional named of
             Inl e \<Rightarrow> Inl e
           | Inr vs \<Rightarrow> (case missing_parameter ps vs of Some e \<Rightarrow> Inl e | None \<Rightarrow> Inr vs)))"

section \<open>Scores\<close>

text \<open>
  The score of one argument against the tags of its parameter; \<open>None\<close> where the code returns
  \<open>-1\<close>. The \<open>break\<close> after a matching \<open>@struct(Name)\<close> only leaves the inner switch, so the
  test for a plain \<open>@struct\<close> counts the match a second time.
\<close>

definition matches_type :: "string \<Rightarrow> string \<Rightarrow> obj \<Rightarrow> bool" where
  \<comment> \<open>the type of a tag found in \<open>TypeTags\<close>\<close>
  "matches_type name ty v \<longleftrightarrow>
     obj_type v = ty \<or> name = ''@fn'' \<and> obj_type v = ''FUNCTION_GROUP'' \<or> obj_type v = ''NIL''"

definition struct_named :: "(nat \<Rightarrow> string) \<Rightarrow> string \<Rightarrow> obj \<Rightarrow> bool" where
  "struct_named sname expected v =
     (case v of StructO _ r _ \<Rightarrow> sname r = expected | StructSchemaO r \<Rightarrow> sname r = expected | _ \<Rightarrow> False)"

definition is_struct_type :: "obj \<Rightarrow> bool" where
  "is_struct_type v \<longleftrightarrow> obj_type v = ''STRUCT'' \<or> obj_type v = ''STRUCT_SCHEMA''"

fun tag_score :: "(nat \<Rightarrow> string) \<Rightarrow> obj \<Rightarrow> expr Tag list \<Rightarrow> int option" where
  "tag_score sname v [] = Some 0"
| "tag_score sname v (tag # tags) =
     (if tag_Name tag = ''@struct'' then
        (if obj_type v = ''NIL'' then Some 1
         else case tag_Args tag of
                [a] \<Rightarrow>
                  (let expected = struct_tag_name a
                   in if expected = [] then None
                      else if struct_named sname expected v then Some 2 else None)
              | _ \<Rightarrow> if is_struct_type v then Some 1 else None)
      else
        (case map_of TypeTags (tag_Name tag) of
           Some ty \<Rightarrow> if matches_type (tag_Name tag) ty v then Some 1 else None
         | None \<Rightarrow> tag_score sname v tags))"

fun sum_scores :: "int option list \<Rightarrow> int" where
  \<comment> \<open>the loop that adds the scores and returns \<open>-1\<close> at the first mismatch\<close>
  "sum_scores [] = 0"
| "sum_scores (None # ss) = - 1"
| "sum_scores (Some s # ss) = (let t = sum_scores ss in if t < 0 then - 1 else s + t)"

definition evaluateFunctionMatch :: "(nat \<Rightarrow> string) \<Rightarrow> expr FunctionParameter list option \<Rightarrow> slots \<Rightarrow> int" where
  "evaluateFunctionMatch sname params bound =
     sum_scores
       (map (\<lambda>(p, b). case b of None \<Rightarrow> Some 0 | Some v \<Rightarrow> tag_score sname v (fp_Tags p))
         (zip (case params of None \<Rightarrow> [] | Some ps \<Rightarrow> ps) bound))"

section \<open>The best overload\<close>

definition signatureSpecificity :: "FSig \<Rightarrow> int" where
  "signatureSpecificity sig = int (length (sig_Tags sig))"

definition signatureKey :: "FSig \<Rightarrow> string" where
  "signatureKey sig =
     show_int (sig_Min sig) @ ''|'' @ show_int (sig_Max sig) @ ''|'' @ show_bool (sig_IsVariadic sig) @ ''|'' @
     sig_Tags sig"

record best =
  best_Match :: "obj option"
  best_Max :: int
  best_Score :: int
  best_Specificity :: int
  best_SigKey :: string
  foundNonVariadic :: bool

definition no_match :: best where
  "no_match =
     \<lparr>best_Match = None, best_Max = max_int64, best_Score = - 1, best_Specificity = - 1,
      best_SigKey = [], foundNonVariadic = False\<rparr>"

definition better :: "FSig \<Rightarrow> int \<Rightarrow> best \<Rightarrow> bool" where
  "better sig score b \<longleftrightarrow>
     (score \<ge> 0 \<and> sig_Max sig < best_Max b) \<or>
     (sig_Max sig = best_Max b \<and> score > best_Score b) \<or>
     (sig_Max sig = best_Max b \<and> score = best_Score b \<and> \<not> foundNonVariadic b \<and> \<not> sig_IsVariadic sig) \<or>
     (sig_Max sig = best_Max b \<and> score = best_Score b \<and> foundNonVariadic b = (\<not> sig_IsVariadic sig) \<and>
      signatureSpecificity sig > best_Specificity b) \<or>
     (sig_Max sig = best_Max b \<and> score = best_Score b \<and> foundNonVariadic b = (\<not> sig_IsVariadic sig) \<and>
      signatureSpecificity sig = best_Specificity b \<and>
      (best_SigKey b = [] \<or> signatureKey sig < best_SigKey b))"

definition take_match :: "FSig \<Rightarrow> obj \<Rightarrow> int \<Rightarrow> best \<Rightarrow> best" where
  "take_match sig fn score b =
     (if better sig score b
      then \<lparr>best_Match = Some fn, best_Max = sig_Max sig, best_Score = score,
            best_Specificity = signatureSpecificity sig, best_SigKey = signatureKey sig,
            foundNonVariadic = (\<not> sig_IsVariadic sig)\<rparr>
      else b)"

definition arity_fits :: "nat \<Rightarrow> FSig \<Rightarrow> bool" where
  "arity_fits n sig \<longleftrightarrow> sig_Min sig \<le> int n \<and> int n \<le> sig_Max sig"

text \<open>One candidate of \<open>DispatchToFunction\<close>: the best so far and the first binding error.\<close>

definition dispatch_score ::
  "(nat \<Rightarrow> string) \<Rightarrow> obj list \<Rightarrow> (string \<times> obj) list \<Rightarrow> obj \<Rightarrow> string + int" where
  "dispatch_score sname positional named fn =
     (case fn of
        FunctionO _ f \<Rightarrow>
          map_sum id (evaluateFunctionMatch sname (fh_Parameters f)) (bindArgumentsForDispatch (fh_Parameters f) positional named)
      | ForeignO _ f \<Rightarrow>
          map_sum id (evaluateFunctionMatch sname (fh_Parameters f)) (bindArgumentsForDispatch (fh_Parameters f) positional named)
      | _ \<Rightarrow> Inr 0)"

definition dispatch_step ::
  "(nat \<Rightarrow> string) \<Rightarrow> obj list \<Rightarrow> (string \<times> obj) list \<Rightarrow> FSig \<times> obj \<Rightarrow> best \<times> string option \<Rightarrow> best \<times> string option" where
  "dispatch_step sname positional named c st =
     (let (sig, fn) = c; (b, err) = st
      in if arity_fits (length positional + length named) sig
         then (case dispatch_score sname positional named fn of
                 Inl e \<Rightarrow> (b, if err = None then Some e else err)
               | Inr score \<Rightarrow> (take_match sig fn score b, err))
         else st)"

definition allGroups :: "heap \<Rightarrow> nat \<Rightarrow> nat list" where
  "allGroups h g = g # fg_Delegates (groups h ! g)"

definition all_functions :: "heap \<Rightarrow> nat \<Rightarrow> (FSig \<times> obj) list" where
  "all_functions h g = concat (map (\<lambda>g'. fg_Functions (groups h ! g')) (allGroups h g))"

definition sig_key :: "FSig \<Rightarrow> int \<times> int \<times> bool \<times> string" where
  "sig_key s = (sig_Min s, sig_Max s, sig_IsVariadic s, sig_Tags s)"

text \<open>The candidates an error lists; \<open>quote\<close> stands for the verb \<open>%q\<close>.\<close>

definition show_candidate :: "(string \<Rightarrow> string) \<Rightarrow> FSig \<Rightarrow> string" where
  "show_candidate quote sig =
     ''args '' @
     (if sig_IsVariadic sig then show_int (sig_Min sig) @ ''+''
      else if sig_Min sig = sig_Max sig then show_int (sig_Min sig)
      else show_int (sig_Min sig) @ ''..'' @ show_int (sig_Max sig)) @
     '', tags '' @ quote (sig_Tags sig)"

definition dispatchCandidates :: "(string \<Rightarrow> string) \<Rightarrow> heap \<Rightarrow> nat \<Rightarrow> string list" where
  "dispatchCandidates quote h g =
     (let sigs = remdups (map fst (all_functions h g))
      in if sigs = [] then [''<none>''] else map (show_candidate quote) (sort_key sig_key sigs))"

fun join :: "string \<Rightarrow> string list \<Rightarrow> string" where
  "join sep [] = []"
| "join sep [s] = s"
| "join sep (s # ss) = s @ sep @ join sep ss"

definition argument_types :: "obj list \<Rightarrow> (string \<times> obj) list \<Rightarrow> string" where
  "argument_types positional named =
     join '', '' (map obj_type positional @ map (\<lambda>(name, v). name @ ''='' @ obj_type v) (sort_key fst named))"

definition DispatchToFunction ::
  "(string \<Rightarrow> string) \<Rightarrow> heap \<Rightarrow> nat \<Rightarrow> obj list \<Rightarrow> (string \<times> obj) list \<Rightarrow> string + obj" where
  "DispatchToFunction quote h g positional named =
     (let sname = (\<lambda>r. schema_Name (schemas h ! r));
          (b, err) = fold (dispatch_step sname positional named) (all_functions h g) (no_match, None)
      in case best_Match b of
           Some fn \<Rightarrow> Inr fn
         | None \<Rightarrow>
             (case err of
                Some e \<Rightarrow> Inl e
              | None \<Rightarrow>
                  Inl (''No suitable function ('' @ argument_types positional named @
                       '') found to dispatch. Candidates: '' @ join ''; '' (dispatchCandidates quote h g))))"

section \<open>Overloads of the virtual machine\<close>

definition vm_has_variadic :: "Chunk VMParam list \<Rightarrow> bool" where
  "vm_has_variadic ps \<longleftrightarrow> ps \<noteq> [] \<and> vp_IsVariadic (last ps)"

fun optional_from :: "Chunk VMParam list \<Rightarrow> nat \<Rightarrow> nat" where
  \<comment> \<open>the loop that lowers the minimum while the last counted parameter has a default\<close>
  "optional_from ps 0 = 0"
| "optional_from ps (Suc n) = (if vp_Default (ps ! n) \<noteq> None then optional_from ps n else Suc n)"

definition signatureForVMFunction :: "(expr Tag \<Rightarrow> string) \<Rightarrow> VMFunction \<Rightarrow> FSig" where
  \<comment> \<open>\<open>tagString\<close> stands for \<open>String()\<close> of a tag\<close>
  "signatureForVMFunction tagString fn =
     (let ps = fn_Params fn; n = length ps; variadic = vm_has_variadic ps
      in FSig (concat (map (\<lambda>p. concat (map tagString (vp_Tags p)) @ ''|'') ps))
           (int (optional_from ps (if variadic then n - 1 else n)))
           (if variadic then max_int64 else int n) variadic)"

definition functionSignatureOf :: "(expr Tag \<Rightarrow> string) \<Rightarrow> obj \<Rightarrow> FSig option" where
  "functionSignatureOf tagString v =
     (case v of
        VMFunctionO _ fn _ \<Rightarrow> Some (signatureForVMFunction tagString fn)
      | FunctionO _ f \<Rightarrow> Some (fh_Signature f)
      | ForeignO _ f \<Rightarrow> Some (fh_Signature f)
      | _ \<Rightarrow> None)"

text \<open>An existing group is extended in place; two functions make a new group.\<close>

definition mergeFunctionOverload ::
  "(expr Tag \<Rightarrow> string) \<Rightarrow> obj \<Rightarrow> obj \<Rightarrow> heap \<Rightarrow> (obj \<times> heap) option" where
  "mergeFunctionOverload tagString existing added h =
     (case functionSignatureOf tagString added of
        None \<Rightarrow> None
      | Some sig \<Rightarrow>
          (case existing of
             FunctionGroupO g \<Rightarrow>
               (let fg = groups h ! g
                in Some (existing, set_group g (fg\<lparr>fg_Functions := AList.update sig added (fg_Functions fg)\<rparr>) h))
           | _ \<Rightarrow>
               (case functionSignatureOf tagString existing of
                  Some sig' \<Rightarrow>
                    (let (g, h) = alloc_group
                           (new_group\<lparr>fg_Functions := AList.update sig added [(sig', existing)]\<rparr>) h
                     in Some (FunctionGroupO g, h))
                | None \<Rightarrow> None)))"

definition vmParamValue ::
  "nat \<Rightarrow> Chunk VMParam \<Rightarrow> Chunk VMParam list \<Rightarrow> obj list \<Rightarrow> (string \<times> obj) list \<Rightarrow> obj option" where
  "vmParamValue index p ps positional named =
     (case map_of named (vp_Name p) of
        Some v \<Rightarrow> Some v
      | None \<Rightarrow>
          if index < length positional then Some (positional ! index)
          else if index = length ps - 1 \<and> vp_IsVariadic p \<and> length positional \<ge> length ps - 1
          then Some (ListO (drop (length ps - 1) positional))
          else None)"

text \<open>
  The score of one argument in \<open>evaluateVMTagMatch\<close>. \<open>TypeTags\<close> is consulted first, and the
  \<open>break\<close> after a struct name that matches leaves the switch and reaches \<open>return -1\<close>.
\<close>

fun vm_tag_score :: "(nat \<Rightarrow> string) \<Rightarrow> obj \<Rightarrow> expr Tag list \<Rightarrow> int option" where
  "vm_tag_score sname v [] = Some 0"
| "vm_tag_score sname v (tag # tags) =
     (case map_of TypeTags (tag_Name tag) of
        Some ty \<Rightarrow> if matches_type (tag_Name tag) ty v then Some 1 else None
      | None \<Rightarrow>
          if tag_Name tag = ''@struct'' then
            (if obj_type v = ''NIL'' then Some 1
             else if length (tag_Args tag) = 1 then None
             else if is_struct_type v then Some 1 else None)
          else vm_tag_score sname v tags)"

definition evaluateVMTagMatch ::
  "(nat \<Rightarrow> string) \<Rightarrow> VMFunction \<Rightarrow> obj list \<Rightarrow> (string \<times> obj) list \<Rightarrow> int" where
  "evaluateVMTagMatch sname fn positional named =
     (let ps = fn_Params fn
      in sum_scores
           (map (\<lambda>(i, p). case vmParamValue i p ps positional named of
                            None \<Rightarrow> Some 0
                          | Some v \<Rightarrow> vm_tag_score sname v (vp_Tags p))
             (enumerate 0 ps)))"

definition vm_select_step ::
  "(nat \<Rightarrow> string) \<Rightarrow> obj list \<Rightarrow> (string \<times> obj) list \<Rightarrow> FSig \<times> obj \<Rightarrow> best \<Rightarrow> best" where
  "vm_select_step sname positional named c b =
     (let (sig, candidate) = c
      in case candidate of
           VMFunctionO _ fn _ \<Rightarrow>
             if \<not> arity_fits (length positional + length named) sig then b
             else
               (let score = evaluateVMTagMatch sname fn positional named
                in if score < 0 then b else take_match sig candidate score b)
         | _ \<Rightarrow> b)"

definition selectVMFunctionFromGroup ::
  "heap \<Rightarrow> nat \<Rightarrow> obj list \<Rightarrow> (string \<times> obj) list \<Rightarrow> obj option" where
  "selectVMFunctionFromGroup h g positional named =
     best_Match
       (fold (vm_select_step (\<lambda>r. schema_Name (schemas h ! r)) positional named)
         (fg_Functions (groups h ! g)) no_match)"

text \<open>The names of the schemas of a store, for the checks that take them as a parameter.\<close>

definition schema_names :: "heap \<Rightarrow> nat \<Rightarrow> string" where
  "schema_names h r = schema_Name (schemas h ! r)"

end
