(* ===== verification/Dispatch_Laws.thy ===== *)
theory Dispatch_Laws
  imports Dispatch Environment_Laws "HOL-Library.Multiset"
begin

text \<open>
  Laws of overload selection: the function chosen is the least in a fixed order of the
  candidates, so the order in which Go iterates the group does not matter; the cases in which
  the choice ignores a type tag; and what binding arguments to parameters does with each
  argument.
\<close>

section \<open>Signature keys\<close>

definition is_digit :: "char \<Rightarrow> bool" where
  "is_digit c \<longleftrightarrow> (\<exists>d<10. c = char_of (48 + d :: nat))"

lemma char_of_digit_inj: "a < 10 \<Longrightarrow> b < 10 \<Longrightarrow> char_of (48 + a :: nat) = char_of (48 + b) \<longleftrightarrow> a = b"
proof -
  assume "a < 10" "b < 10"
  then have "of_char (char_of (48 + a)) = 48 + a" "of_char (char_of (48 + b)) = 48 + b"
    by (simp_all del: of_char_of add: of_char_of)
  then show ?thesis by (metis add_left_cancel)
qed

lemma show_nat_digits: "\<forall>c\<in>set (show_nat n). is_digit c"
proof (induction n rule: show_nat.induct)
  case (1 n)
  have "is_digit (char_of (48 + n mod 10))" unfolding is_digit_def by (rule exI [of _ "n mod 10"]) simp
  moreover have "is_digit (char_of (48 + n))" if "n < 10" unfolding is_digit_def using that by blast
  ultimately show ?case using 1 by (subst show_nat.simps) auto
qed

lemma show_nat_nonempty: "show_nat n \<noteq> []"
  by (subst show_nat.simps) simp

lemma show_nat_inj: "show_nat m = show_nat n \<Longrightarrow> m = n"
proof (induction m arbitrary: n rule: show_nat.induct)
  case (1 m)
  have l: "length (show_nat k) = 1 \<longleftrightarrow> k < 10" for k
    using show_nat_nonempty [of "k div 10"] by (subst show_nat.simps) simp
  have small: "m < 10 \<longleftrightarrow> n < 10" using l [of m] l [of n] 1(2) by simp
  show ?case
  proof (cases "m < 10")
    case True
    then show ?thesis
      using 1(2) small show_nat.simps [of m] show_nat.simps [of n] by (simp add: char_of_digit_inj)
  next
    case False
    then have "show_nat (m div 10) @ [char_of (48 + m mod 10)] = show_nat (n div 10) @ [char_of (48 + n mod 10)]"
      using 1(2) small show_nat.simps [of m] show_nat.simps [of n] by simp
    then have "m div 10 = n div 10" "m mod 10 = n mod 10"
      using 1(1) False by (auto simp: char_of_digit_inj)
    then show ?thesis by (metis div_mult_mod_eq)
  qed
qed

lemma not_digit: "\<not> is_digit CHR ''|''" "\<not> is_digit CHR ''-''"
proof -
  have "c \<noteq> char_of (48 + d :: nat)" if "of_char c \<notin> {48..57 :: nat}" "d < 10" for c d
    using that by auto
  then show "\<not> is_digit CHR ''|''" "\<not> is_digit CHR ''-''" by (auto simp: is_digit_def)
qed

lemma show_int_inj: "show_int a = show_int b \<Longrightarrow> a = b"
proof -
  assume e: "show_int a = show_int b"
  have "CHR ''-'' # s \<noteq> show_nat k" for k s
    using show_nat_digits [of k] not_digit(2) by (metis list.set_intros(1))
  then have "a < 0 \<longleftrightarrow> b < 0" using e unfolding show_int_def by (metis)
  then show "a = b"
    using e by (auto simp: show_int_def dest!: show_nat_inj split: if_splits)
qed

lemma show_int_no_bar: "CHR ''|'' \<notin> set (show_int a)"
  using show_nat_digits not_digit(1) by (auto simp: show_int_def)

lemma split_at_bar:
  "CHR ''|'' \<notin> set a \<Longrightarrow> CHR ''|'' \<notin> set b \<Longrightarrow> a @ CHR ''|'' # x = b @ CHR ''|'' # y \<Longrightarrow> a = b \<and> x = y"
  by (induction a arbitrary: b) (auto simp: Cons_eq_append_conv append_eq_Cons_conv)

lemma show_bool_inj: "show_bool a = show_bool b \<longleftrightarrow> a = b" "CHR ''|'' \<notin> set (show_bool a)"
  by (auto simp: show_bool_def)

lemma signatureKey_inj: "signatureKey a = signatureKey b \<Longrightarrow> a = b"
  by (cases a; cases b)
    (auto simp: signatureKey_def show_bool_inj dest!: split_at_bar [OF show_int_no_bar show_int_no_bar]
      split_at_bar [OF show_bool_inj(2) show_bool_inj(2)] show_int_inj)

lemma signatureKey_nonempty: "signatureKey a \<noteq> []" by (simp add: signatureKey_def)

section \<open>The order of candidates\<close>

type_synonym rank = "int \<times> int \<times> bool \<times> int \<times> string"

definition rank :: "FSig \<Rightarrow> int \<Rightarrow> rank" where
  "rank sig score = (sig_Max sig, - score, sig_IsVariadic sig, - signatureSpecificity sig, signatureKey sig)"

text \<open>The best so far is nothing, or the candidate of some rank.\<close>

definition holds_rank :: "best \<Rightarrow> obj \<Rightarrow> FSig \<Rightarrow> int \<Rightarrow> bool" where
  "holds_rank b fn sig score \<longleftrightarrow>
     b = \<lparr>best_Match = Some fn, best_Max = sig_Max sig, best_Score = score,
          best_Specificity = signatureSpecificity sig, best_SigKey = signatureKey sig,
          foundNonVariadic = (\<not> sig_IsVariadic sig)\<rparr>"

lemma rank_inj: "rank a s = rank b t \<Longrightarrow> a = b \<and> s = t"
  by (auto simp: rank_def dest: signatureKey_inj)

lemma better_rank:
  "holds_rank b fn sig score \<Longrightarrow> score' \<ge> 0 \<Longrightarrow> better sig' score' b \<longleftrightarrow> rank sig' score' < rank sig score"
  unfolding holds_rank_def better_def rank_def
  by (simp add: signatureKey_nonempty) (cases "sig_IsVariadic sig"; cases "sig_IsVariadic sig'"; auto)

lemma better_no_match: "score \<ge> 0 \<Longrightarrow> sig_Max sig \<le> max_int64 \<Longrightarrow> better sig score no_match"
  by (auto simp: better_def no_match_def)

definition vm_candidate ::
  "(nat \<Rightarrow> string) \<Rightarrow> obj list \<Rightarrow> (string \<times> obj) list \<Rightarrow> FSig \<times> obj \<Rightarrow> int option" where
  \<comment> \<open>the score of a candidate that may be called\<close>
  "vm_candidate sname positional named c =
     (case snd c of
        VMFunctionO _ fn _ \<Rightarrow>
          if arity_fits (length positional + length named) (fst c) \<and> evaluateVMTagMatch sname fn positional named \<ge> 0
          then Some (evaluateVMTagMatch sname fn positional named) else None
      | _ \<Rightarrow> None)"

definition take_candidate :: "(FSig \<times> obj \<Rightarrow> int option) \<Rightarrow> FSig \<times> obj \<Rightarrow> best \<Rightarrow> best" where
  "take_candidate cand c b =
     (case cand c of None \<Rightarrow> b | Some score \<Rightarrow> take_match (fst c) (snd c) score b)"

lemma take_candidate_simps [simp]:
  "cand c = None \<Longrightarrow> take_candidate cand c b = b"
  "cand c = Some score \<Longrightarrow> take_candidate cand c b = take_match (fst c) (snd c) score b"
  by (simp_all add: take_candidate_def)

lemma vm_select_step_candidate:
  "vm_select_step sname positional named = take_candidate (vm_candidate sname positional named)"
  by (intro ext)
    (auto simp: vm_select_step_def vm_candidate_def take_candidate_def Let_def split: obj.splits)

lemma vm_candidate_nonneg: "vm_candidate sname positional named c = Some score \<Longrightarrow> score \<ge> 0"
  by (auto simp: vm_candidate_def split: obj.splits if_splits)

text \<open>What the selection has found after some candidates: the least rank of them.\<close>

definition least_of ::
  "(FSig \<times> obj \<Rightarrow> int option) \<Rightarrow> (FSig \<times> obj) list \<Rightarrow> best \<Rightarrow> bool" where
  "least_of cand cs b \<longleftrightarrow>
     (if \<forall>c\<in>set cs. cand c = None then b = no_match
      else \<exists>c\<in>set cs. \<exists>score. cand c = Some score \<and> holds_rank b (snd c) (fst c) score \<and>
             (\<forall>c'\<in>set cs. \<forall>score'. cand c' = Some score' \<longrightarrow> rank (fst c) score \<le> rank (fst c') score'))"

lemma least_ofE:
  assumes "least_of cand cs b" "\<not> (\<forall>c\<in>set cs. cand c = None)"
  obtains d t where "d \<in> set cs" "cand d = Some t" "holds_rank b (snd d) (fst d) t"
    "\<And>c' s'. c' \<in> set cs \<Longrightarrow> cand c' = Some s' \<Longrightarrow> rank (fst d) t \<le> rank (fst c') s'"
  using assms unfolding least_of_def by (simp only: if_False) blast

lemma least_of_skip: "cand c = None \<Longrightarrow> least_of cand (cs @ [c]) b = least_of cand cs b"
  by (simp add: least_of_def)

lemma least_of_take:
  assumes "least_of cand cs b" "cand c = Some score" "score \<ge> 0" "sig_Max (fst c) \<le> max_int64"
  shows "least_of cand (cs @ [c]) (take_match (fst c) (snd c) score b)"
proof (cases "\<forall>c\<in>set cs. cand c = None")
  case True
  then have "b = no_match" using assms(1) by (simp add: least_of_def)
  then show ?thesis
    using True assms(2-4) by (auto simp: least_of_def take_match_def better_no_match holds_rank_def)
next
  case False
  then obtain d t where d: "d \<in> set cs" "cand d = Some t" "holds_rank b (snd d) (fst d) t"
    "\<And>c' s'. c' \<in> set cs \<Longrightarrow> cand c' = Some s' \<Longrightarrow> rank (fst d) t \<le> rank (fst c') s'"
    using least_ofE [OF assms(1) False] by blast
  show ?thesis
  proof (cases "rank (fst c) score < rank (fst d) t")
    case True
    then have "holds_rank (take_match (fst c) (snd c) score b) (snd c) (fst c) score"
      using better_rank [OF d(3) assms(3)] by (simp add: take_match_def holds_rank_def)
    moreover have "rank (fst c) score \<le> rank (fst c') s'" if "c' \<in> set cs" "cand c' = Some s'" for c' s'
      using d(4) [OF that] True by simp
    ultimately show ?thesis using assms(2) by (fastforce simp: least_of_def)
  next
    case False
    then have "take_match (fst c) (snd c) score b = b"
      using better_rank [OF d(3) assms(3)] by (simp add: take_match_def)
    moreover have "rank (fst d) t \<le> rank (fst c) score" using False by simp
    ultimately show ?thesis using d assms(2) by (fastforce simp: least_of_def)
  qed
qed

lemma least_of_fold:
  assumes "\<forall>c\<in>set cs. sig_Max (fst c) \<le> max_int64" "\<And>c s. cand c = Some s \<Longrightarrow> s \<ge> 0"
  shows "least_of cand cs (fold (take_candidate cand) cs no_match)"
  using assms(1)
proof (induction cs rule: rev_induct)
  case (snoc c cs)
  then have IH: "least_of cand cs (fold (take_candidate cand) cs no_match)" by simp
  show ?case
  proof (cases "cand c")
    case (Some score)
    then show ?thesis
      using least_of_take [OF IH Some assms(2) [OF Some]] snoc(2) by simp
  qed (use IH in \<open>simp add: least_of_skip\<close>)
qed (simp add: least_of_def)

lemma least_of_unique:
  assumes "least_of cand cs b" "least_of cand cs' b'" "set cs = set cs'" "distinct (map fst cs)"
  shows "b = b'"
proof (cases "\<forall>c\<in>set cs. cand c = None")
  case False
  then obtain c s where c: "c \<in> set cs" "cand c = Some s" "holds_rank b (snd c) (fst c) s"
    and c_least: "\<And>c' s'. c' \<in> set cs \<Longrightarrow> cand c' = Some s' \<Longrightarrow> rank (fst c) s \<le> rank (fst c') s'"
    using least_ofE [OF assms(1) False] by metis
  have "\<not> (\<forall>c\<in>set cs'. cand c = None)" using False assms(3) by simp
  then obtain d t where d: "d \<in> set cs" "cand d = Some t" "holds_rank b' (snd d) (fst d) t"
    and d_least: "\<And>c' s'. c' \<in> set cs \<Longrightarrow> cand c' = Some s' \<Longrightarrow> rank (fst d) t \<le> rank (fst c') s'"
    using least_ofE [OF assms(2)] assms(3) by metis
  have "rank (fst c) s = rank (fst d) t" using c_least [OF d(1,2)] d_least [OF c(1,2)] by simp
  then have "fst c = fst d" "s = t" using rank_inj by auto
  then have "c = d" using assms(4) c(1) d(1) by (simp add: distinct_map inj_on_def)
  then show ?thesis using c(3) d(3) \<open>s = t\<close> by (simp add: holds_rank_def)
qed (use assms in \<open>simp add: least_of_def\<close>)

lemma selectVM_least:
  assumes "\<forall>c\<in>set (fg_Functions (groups h ! g)). sig_Max (fst c) \<le> max_int64"
  obtains b where "selectVMFunctionFromGroup h g positional named = best_Match b"
    "least_of (vm_candidate (schema_names h) positional named) (fg_Functions (groups h ! g)) b"
proof
  let ?b = "fold (take_candidate (vm_candidate (schema_names h) positional named)) (fg_Functions (groups h ! g)) no_match"
  show "selectVMFunctionFromGroup h g positional named = best_Match ?b"
    unfolding selectVMFunctionFromGroup_def vm_select_step_candidate schema_names_def ..
  show "least_of (vm_candidate (schema_names h) positional named) (fg_Functions (groups h ! g)) ?b"
    by (rule least_of_fold [OF assms]) (rule vm_candidate_nonneg)
qed

text \<open>C39:
  The function a call picks from a group does not depend on the order in which Go iterates the
  map of its overloads.
\<close>

theorem overload_choice_ignores_map_order:
  assumes "g < length (groups h)" "distinct (map fst (fg_Functions (groups h ! g)))"
    and "\<forall>c\<in>set (fg_Functions (groups h ! g)). sig_Max (fst c) \<le> max_int64"
    and "mset fs = mset (fg_Functions (groups h ! g))"
  shows "selectVMFunctionFromGroup (set_group g ((groups h ! g)\<lparr>fg_Functions := fs\<rparr>) h) g positional named =
    selectVMFunctionFromGroup h g positional named"
proof -
  let ?h = "set_group g ((groups h ! g)\<lparr>fg_Functions := fs\<rparr>) h"
  have s: "set (fg_Functions (groups h ! g)) = set fs" using assms(4) by (metis set_mset_mset)
  have fs: "fg_Functions (groups ?h ! g) = fs" "schema_names ?h = schema_names h"
    using assms(1) by (simp_all add: set_group_def schema_names_def fun_eq_iff)
  obtain b where b: "selectVMFunctionFromGroup h g positional named = best_Match b"
    "least_of (vm_candidate (schema_names h) positional named) (fg_Functions (groups h ! g)) b"
    using selectVM_least assms(3) by blast
  obtain b' where b': "selectVMFunctionFromGroup ?h g positional named = best_Match b'"
    "least_of (vm_candidate (schema_names h) positional named) fs b'"
    using selectVM_least [of ?h g positional named] assms(3) s unfolding fs by metis
  show ?thesis using least_of_unique [OF b(2) b'(2) s assms(2)] b(1) b'(1) by simp
qed

text \<open>C40:
  The function picked can be called with the arguments and comes first, among the overloads
  that can, by fewest parameters, highest score, non-variadic before variadic, longest tags,
  and then the text of the signature; nothing is picked only if no overload can be called.
\<close>

theorem overload_choice_is_least:
  assumes "\<forall>c\<in>set (fg_Functions (groups h ! g)). sig_Max (fst c) \<le> max_int64"
  shows "case selectVMFunctionFromGroup h g positional named of
      None \<Rightarrow> \<forall>c\<in>set (fg_Functions (groups h ! g)). vm_candidate (schema_names h) positional named c = None
    | Some fn \<Rightarrow>
        \<exists>sig score. (sig, fn) \<in> set (fg_Functions (groups h ! g)) \<and>
          vm_candidate (schema_names h) positional named (sig, fn) = Some score \<and>
          (\<forall>c\<in>set (fg_Functions (groups h ! g)). \<forall>score'.
             vm_candidate (schema_names h) positional named c = Some score' \<longrightarrow>
             rank sig score \<le> rank (fst c) score')"
proof -
  obtain b where b: "selectVMFunctionFromGroup h g positional named = best_Match b"
    "least_of (vm_candidate (schema_names h) positional named) (fg_Functions (groups h ! g)) b"
    using selectVM_least assms by blast
  show ?thesis
  proof (cases "\<forall>c\<in>set (fg_Functions (groups h ! g)). vm_candidate (schema_names h) positional named c = None")
    case True
    then show ?thesis using b by (simp add: least_of_def no_match_def)
  next
    case False
    obtain d t where d: "d \<in> set (fg_Functions (groups h ! g))"
      "vm_candidate (schema_names h) positional named d = Some t" "holds_rank b (snd d) (fst d) t"
      and least: "\<And>c s. c \<in> set (fg_Functions (groups h ! g)) \<Longrightarrow>
         vm_candidate (schema_names h) positional named c = Some s \<Longrightarrow> rank (fst d) t \<le> rank (fst c) s"
      using least_ofE [OF b(2) False] by metis
    have "selectVMFunctionFromGroup h g positional named = Some (snd d)"
      using b(1) d(3) by (simp add: holds_rank_def)
    then show ?thesis
      using d(1,2) least by (auto intro!: exI [of _ "fst d"] exI [of _ t])
  qed
qed

text \<open>Two overloads: on a number, and on any value.\<close>

definition no_token :: Token where "no_token = Token EOF [] 0"

definition num_tag :: "expr Tag" where "num_tag = Tag no_token ''@num'' []"

definition overload :: "expr Tag list \<Rightarrow> string \<Rightarrow> FSig \<times> obj" where
  "overload tags text =
     (let sig = FSig text 1 1 False
      in (sig, VMFunctionO 0 (VMFunction [] [VMParam ''x'' False None tags] [] [] (Chunk [] []) sig []) None))"

definition overload_heap :: heap where
  "overload_heap = empty_heap\<lparr>groups := [new_group\<lparr>fg_Functions := [overload [num_tag] ''@num|'', overload [] ''|'']\<rparr>]\<rparr>"

lemma overload_heap_functions:
  "fg_Functions (groups overload_heap ! 0) = [overload [num_tag] ''@num|'', overload [] ''|'']"
  "length (groups overload_heap) = 1"
  by (simp_all add: overload_heap_def empty_heap_def new_group_def)

theorem overload_choice_ignores_map_order_witness:
  "selectVMFunctionFromGroup
     (set_group 0 ((groups overload_heap ! 0)\<lparr>fg_Functions := [overload [] ''|'', overload [num_tag] ''@num|'']\<rparr>) overload_heap)
     0 [NumberO dec_ONE] [] =
   selectVMFunctionFromGroup overload_heap 0 [NumberO dec_ONE] []"
  by (rule overload_choice_ignores_map_order)
    (simp_all add: overload_heap_functions overload_def max_int64_def Let_def)

theorem overload_choice_is_least_witness:
  "case selectVMFunctionFromGroup overload_heap 0 [NumberO dec_ONE] [] of
      None \<Rightarrow> \<forall>c\<in>set (fg_Functions (groups overload_heap ! 0)).
        vm_candidate (schema_names overload_heap) [NumberO dec_ONE] [] c = None
    | Some fn \<Rightarrow>
        \<exists>sig score. (sig, fn) \<in> set (fg_Functions (groups overload_heap ! 0)) \<and>
          vm_candidate (schema_names overload_heap) [NumberO dec_ONE] [] (sig, fn) = Some score \<and>
          (\<forall>c\<in>set (fg_Functions (groups overload_heap ! 0)). \<forall>score'.
             vm_candidate (schema_names overload_heap) [NumberO dec_ONE] [] c = Some score' \<longrightarrow>
             rank sig score \<le> rank (fst c) score')"
  by (rule overload_choice_is_least) (simp add: overload_heap_functions overload_def max_int64_def Let_def)

section \<open>Tags the choice ignores\<close>

lemma struct_tag_type: "map_of TypeTags ''@struct'' = Some ''STRUCT''" by (simp add: TypeTags_def)

text \<open>
  \<open>evaluateVMTagMatch\<close> finds \<open>@struct\<close> among the type tags before it looks at the name: a
  parameter tagged \<open>@struct(Name)\<close> takes a struct of any schema and no schema, where
  \<open>evaluateFunctionMatch\<close> takes the structs of that name and the schema itself.
\<close>

theorem vm_struct_names_ignored:
  assumes "tag_Name tag = ''@struct''" "tag_Args tag = [a]" "struct_tag_name a \<noteq> []"
  shows "vm_tag_score sname (StructO r s fvs) (tag # tags) = Some 1 \<and>
    vm_tag_score sname (StructSchemaO s) (tag # tags) = None \<and>
    tag_score sname (StructO r s fvs) (tag # tags) = (if sname s = struct_tag_name a then Some 2 else None) \<and>
    tag_score sname (StructSchemaO s) (tag # tags) = (if sname s = struct_tag_name a then Some 2 else None)"
  using assms by (simp add: struct_tag_type matches_type_def obj_type_def struct_named_def Let_def)

theorem vm_struct_names_ignored_witness:
  "vm_tag_score (\<lambda>_. ''User'') (StructO 1 0 []) [Tag no_token ''@struct'' [IdentifierExpr (Identifier no_token ''Order'')]] = Some 1 \<and>
   tag_score (\<lambda>_. ''User'') (StructO 1 0 []) [Tag no_token ''@struct'' [IdentifierExpr (Identifier no_token ''Order'')]] = None"
  using vm_struct_names_ignored
    [of "Tag no_token ''@struct'' [IdentifierExpr (Identifier no_token ''Order'')]"
      "IdentifierExpr (Identifier no_token ''Order'')" "\<lambda>_. ''User''" 1 0 "[]" "[]"]
  by (simp add: struct_tag_name_def)

text \<open>
  \<open>DispatchToFunction\<close> compares the score with \<open>-1\<close>, its initial best, also for a candidate
  whose tags do not match: a group whose only function is variadic always gives that function,
  whatever the types of the arguments.
\<close>

theorem variadic_dispatch_ignores_tags:
  assumes "fg_Functions (groups h ! g) = [(sig, fn)]" "fg_Delegates (groups h ! g) = []"
    and "sig_IsVariadic sig" "sig_Max sig = max_int64" "sig_Min sig \<le> int (length positional + length named)"
    and "int (length positional + length named) \<le> max_int64"
    and "dispatch_score (\<lambda>r. schema_Name (schemas h ! r)) positional named fn = Inr (- 1)"
  shows "DispatchToFunction quote h g positional named = Inr fn"
  using assms
  by (simp add: DispatchToFunction_def Let_def all_functions_def allGroups_def dispatch_step_def arity_fits_def
      take_match_def better_def no_match_def signatureSpecificity_def)

definition variadic_num :: "FSig \<times> obj" where
  "variadic_num =
     (let sig = FSig ''@num|'' 0 max_int64 True
      in (sig, ForeignO 0 (FnHead sig [] (Some [FunctionParameter [num_tag] (Identifier no_token ''x'') [] NoExpr False,
            FunctionParameter [] (Identifier no_token ''rest'') [] NoExpr True]) [] [])))"

theorem variadic_dispatch_ignores_tags_witness:
  "DispatchToFunction id (empty_heap\<lparr>groups := [new_group\<lparr>fg_Functions := [variadic_num]\<rparr>]\<rparr>) 0 [StringO ''one''] [] =
   Inr (snd variadic_num)"
  by (rule variadic_dispatch_ignores_tags [where sig = "fst variadic_num"])
    (simp_all add: variadic_num_def Let_def empty_heap_def new_group_def max_int64_def dispatch_score_def
      bindArgumentsForDispatch_def bind_slots_def bind_positional_def has_variadic_def param_spec_def
      evaluateFunctionMatch_def num_tag_def TypeTags_def matches_type_def obj_type_def)

end
