(* ===== verification/DeclaredType.thy ===== *)
theory DeclaredType
  imports Dispatch
begin

text \<open>
  \<open>internal/vm/declared_type_runtime.go\<close>: the types that annotations declare, as the virtual
  machine reads, prints, infers and checks them at run time. A Go \<open>rtType\<close> is a kind with the
  fields of that kind; here each kind is a constructor. Only the result of a function type may
  be a nil pointer, and a nil pointer in place of a whole type is \<open>None\<close>.

  The names of schemas are read from the store, by the parameter \<open>sname\<close>.
\<close>

section \<open>Types\<close>

datatype rtType =
  RtAny
| RtNil
| RtBool
| RtNum
| RtStr
| RtBytes
| RtSym
| RtTask
| RtChan
| RtList rtType
| RtTuple "rtType list"
| RtMap rtType rtType
| RtFn (rt_ret: "rtType option") (rt_params: "rtType list") (rt_variadic: bool)
| RtStruct string
| RtTypeParam string
| RtUnion "rtType list"

definition rt_kind :: "rtType \<Rightarrow> string" where
  "rt_kind t =
     (case t of
        RtAny \<Rightarrow> ''any'' | RtNil \<Rightarrow> ''nil'' | RtBool \<Rightarrow> ''bool'' | RtNum \<Rightarrow> ''num'' | RtStr \<Rightarrow> ''str''
      | RtBytes \<Rightarrow> ''bytes'' | RtSym \<Rightarrow> ''sym'' | RtTask \<Rightarrow> ''task'' | RtChan \<Rightarrow> ''chan'' | RtList _ \<Rightarrow> ''list''
      | RtTuple _ \<Rightarrow> ''tuple'' | RtMap _ _ \<Rightarrow> ''map'' | RtFn _ _ _ \<Rightarrow> ''fn'' | RtStruct _ \<Rightarrow> ''struct''
      | RtTypeParam _ \<Rightarrow> ''typeparam'' | RtUnion _ \<Rightarrow> ''union'')"

definition or_any :: "rtType option \<Rightarrow> rtType" where
  "or_any t = (case t of Some t \<Rightarrow> t | None \<Rightarrow> RtAny)"

section \<open>Reading a type\<close>

text \<open>
  \<open>splitRuntimeTypeTopLevel\<close>: the pieces between the separators that no bracket encloses. Go
  iterates the runes of the text; all characters it looks for are ASCII, so that the bytes
  serve as well. Closing brackets do not take a counter below zero.
\<close>

type_synonym depth = "nat \<times> nat \<times> nat"

definition bracket_step :: "char \<Rightarrow> depth \<Rightarrow> depth" where
  \<comment> \<open>\<open>angles\<close>, \<open>parens\<close> and \<open>brackets\<close> after a character\<close>
  "bracket_step c d =
     (let (a, p, b) = d
      in if c = CHR ''<'' then (a + 1, p, b) else if c = CHR ''>'' then (a - 1, p, b)
         else if c = CHR ''('' then (a, p + 1, b) else if c = CHR '')'' then (a, p - 1, b)
         else if c = CHR ''['' then (a, p, b + 1) else if c = CHR '']'' then (a, p, b - 1)
         else d)"

fun split_from :: "char \<Rightarrow> depth \<Rightarrow> string \<Rightarrow> string \<Rightarrow> string list" where
  \<comment> \<open>with the counters and the piece read so far\<close>
  "split_from sep d piece [] = [TrimSpace piece]"
| "split_from sep d piece (c # cs) =
     (if c = sep \<and> c \<notin> set ''<>()[]'' \<and> d = (0, 0, 0) then TrimSpace piece # split_from sep d [] cs
      else split_from sep (bracket_step c d) (piece @ [c]) cs)"

definition splitRuntimeTypeTopLevel :: "string \<Rightarrow> char \<Rightarrow> string list" where
  "splitRuntimeTypeTopLevel s sep = split_from sep (0, 0, 0) [] s"

definition ident_start :: "char \<Rightarrow> bool" where
  "ident_start c \<longleftrightarrow>
     (CHR ''a'' \<le> c \<and> c \<le> CHR ''z'') \<or> (CHR ''A'' \<le> c \<and> c \<le> CHR ''Z'') \<or> c = CHR ''_''"

definition isRuntimeSimpleTypeIdent :: "string \<Rightarrow> bool" where
  "isRuntimeSimpleTypeIdent s \<longleftrightarrow>
     (case s of
        [] \<Rightarrow> False
      | c # cs \<Rightarrow> ident_start c \<and> (\<forall>d\<in>set cs. ident_start d \<or> (CHR ''0'' \<le> d \<and> d \<le> CHR ''9'')))"

text \<open>The trimmed text between a prefix and the closing character, if the text has this shape.\<close>

definition enclosed :: "string \<Rightarrow> char \<Rightarrow> string \<Rightarrow> string option" where
  "enclosed pre close s =
     (if take (length pre) s = pre \<and> s \<noteq> [] \<and> last s = close
      then Some (TrimSpace (butlast (drop (length pre) s))) else None)"

definition scalar_type :: "string list \<Rightarrow> string \<Rightarrow> rtType option" where
  \<comment> \<open>the last \<open>switch\<close>\<close>
  "scalar_type typeParams s =
     (if s = ''any'' \<or> s = ''?'' then Some RtAny
      else if s = ''nil'' then Some RtNil
      else if s = ''bool'' then Some RtBool
      else if s = ''num'' then Some RtNum
      else if s = ''str'' then Some RtStr
      else if s = ''bytes'' then Some RtBytes
      else if s = ''sym'' \<or> s = ''symbol'' then Some RtSym
      else if s = ''list'' then Some (RtList RtAny)
      else if s = ''map'' then Some (RtMap RtAny RtAny)
      else if s = ''fn'' then Some (RtFn None [] False)
      else if s = ''task'' then Some RtTask
      else if s = ''chan'' then Some RtChan
      else if s = ''struct'' then Some (RtStruct [])
      else if s \<in> set typeParams then Some (RtTypeParam s)
      else if isRuntimeSimpleTypeIdent s then Some (RtStruct s)
      else None)"

lemma concat_rune_parts: "concat (map snd (rune_parts s)) = s"
proof (induction s rule: rune_parts.induct)
  case (1 s)
  obtain r n where "DecodeRune s = (r, n)" by fastforce
  then show ?case using 1 by (cases "s = []") (simp_all add: rune_parts.simps [of s] rune_parts.simps [of "[]"])
qed

lemma length_concat_dropWhile: "length (concat (map snd (dropWhile P ps))) \<le> length (concat (map snd ps))"
  by (induction ps) auto

lemma length_concat_rev: "length (concat (map f (rev ps))) = length (concat (map f ps))"
  by (induction ps) auto

lemma length_TrimSpace: "length (TrimSpace s) \<le> length s"
proof -
  let ?P = "\<lambda>(r, _). isSpace r"
  let ?a = "dropWhile ?P (rune_parts s)"
  have "length (TrimSpace s) = length (concat (map snd (dropWhile ?P (rev ?a))))"
    by (simp add: TrimSpace_def Let_def length_concat_rev)
  also have "\<dots> \<le> length (concat (map snd (rev ?a)))" by (rule length_concat_dropWhile)
  also have "\<dots> \<le> length (concat (map snd (rune_parts s)))"
    by (simp only: length_concat_rev) (rule length_concat_dropWhile)
  finally show ?thesis by (simp add: concat_rune_parts)
qed

lemma split_from_length: "p \<in> set (split_from sep d piece s) \<Longrightarrow> length p \<le> length piece + length s"
proof (induction sep d piece s rule: split_from.induct)
  case (2 sep d piece c cs)
  then show ?case using length_TrimSpace [of piece] by (auto split: if_splits)
qed (simp add: length_TrimSpace)

lemma split_from_short:
  "length (split_from sep d piece s) > 1 \<Longrightarrow> p \<in> set (split_from sep d piece s) \<Longrightarrow>
     length p < length piece + length s"
proof (induction sep d piece s rule: split_from.induct)
  case (2 sep d piece c cs)
  then show ?case
    using length_TrimSpace [of piece] split_from_length [of p sep d "[]" cs] by (auto split: if_splits)
qed simp

lemma length_enclosed: "enclosed pre close s = Some r \<Longrightarrow> pre \<noteq> [] \<Longrightarrow> length r < length s"
  using length_TrimSpace [of "butlast (drop (length pre) s)"]
  by (cases s) (auto simp: enclosed_def split: if_splits)

lemma enclosed_shorter: "enclosed pre close (TrimSpace raw) = Some r \<Longrightarrow> pre \<noteq> [] \<Longrightarrow> length r < length raw"
  using length_enclosed [of pre close "TrimSpace raw" r] length_TrimSpace [of raw] by simp

lemma split_enclosed_shorter:
  "enclosed pre close (TrimSpace raw) = Some r \<Longrightarrow> pre \<noteq> [] \<Longrightarrow> p \<in> set (splitRuntimeTypeTopLevel r c) \<Longrightarrow>
     length p < length raw"
  using enclosed_shorter [of pre close raw r] split_from_length [of p c "(0, 0, 0)" "[]" r]
  by (simp add: splitRuntimeTypeTopLevel_def)

lemma split_pair_shorter:
  "enclosed pre close (TrimSpace raw) = Some r \<Longrightarrow> splitRuntimeTypeTopLevel r c = [k, v] \<Longrightarrow> pre \<noteq> [] \<Longrightarrow>
     length k < length raw \<and> length v < length raw"
  using split_enclosed_shorter [of pre close raw r k c] split_enclosed_shorter [of pre close raw r v c] by simp

text \<open>
  \<open>parseRuntimeDeclaredTypeWithTypeParams\<close>. A part of a union that cannot be read is dropped,
  and elsewhere it becomes \<open>any\<close>.
\<close>

function parseRuntimeDeclaredType :: "string list \<Rightarrow> string \<Rightarrow> rtType option" where
  "parseRuntimeDeclaredType typeParams raw =
     (let s = TrimSpace raw; parts = splitRuntimeTypeTopLevel s CHR ''|''
      in if s = [] then None
         else if length parts > 1 then
           (let opts = concat (map (\<lambda>p. case parseRuntimeDeclaredType typeParams p of Some t \<Rightarrow> [t] | None \<Rightarrow> []) parts)
            in if opts = [] then None else Some (RtUnion opts))
         else
           (case enclosed ''['' CHR '']'' s of
              Some inner \<Rightarrow>
                if inner = [] then Some (RtTuple [])
                else Some (RtTuple (map (\<lambda>p. or_any (parseRuntimeDeclaredType typeParams p))
                                      (splitRuntimeTypeTopLevel inner CHR '','')))
            | None \<Rightarrow>
                (case enclosed ''list<'' CHR ''>'' s of
                   Some inner \<Rightarrow> Some (RtList (or_any (parseRuntimeDeclaredType typeParams inner)))
                 | None \<Rightarrow>
                     (case enclosed ''map<'' CHR ''>'' s of
                        Some inner \<Rightarrow>
                          (case splitRuntimeTypeTopLevel inner CHR '','' of
                             [k, v] \<Rightarrow>
                               Some (RtMap (or_any (parseRuntimeDeclaredType typeParams k))
                                      (or_any (parseRuntimeDeclaredType typeParams v)))
                           | _ \<Rightarrow> Some (RtMap RtAny RtAny))
                      | None \<Rightarrow>
                          if enclosed ''chan<'' CHR ''>'' s \<noteq> None then Some RtChan
                          else if enclosed ''task<'' CHR ''>'' s \<noteq> None then Some RtTask
                          else
                            (case enclosed ''fn<'' CHR ''>'' s of
                               Some inner \<Rightarrow>
                                 (case map (\<lambda>p. or_any (parseRuntimeDeclaredType typeParams p))
                                         (splitRuntimeTypeTopLevel inner CHR '','') of
                                    [] \<Rightarrow> None
                                  | ret # params \<Rightarrow> Some (RtFn (Some ret) params False))
                             | None \<Rightarrow>
                                 (case enclosed ''struct<'' CHR ''>'' s of
                                    Some name \<Rightarrow> Some (RtStruct name)
                                  | None \<Rightarrow> scalar_type typeParams s))))))"
  by pat_completeness auto
termination
proof (relation "measure (length \<circ> snd)", goal_cases)
  case 1
  show ?case by simp
next
  case (2 typeParams raw s parts p)
  then show ?case
    using split_from_short [of "CHR ''|''" "(0, 0, 0)" "[]" s p] length_TrimSpace [of raw]
    by (simp add: splitRuntimeTypeTopLevel_def)
qed (auto simp: enclosed_shorter split_enclosed_shorter dest!: split_pair_shorter)

declare parseRuntimeDeclaredType.simps [simp del]

section \<open>Printing a type\<close>

fun describeRuntimeDeclaredType :: "rtType \<Rightarrow> string" where
  "describeRuntimeDeclaredType (RtUnion ts) = join ''|'' (map describeRuntimeDeclaredType ts)"
| "describeRuntimeDeclaredType (RtList t) = ''list<'' @ describeRuntimeDeclaredType t @ ''>''"
| "describeRuntimeDeclaredType (RtTuple ts) =
     ''['' @ join '', '' (map describeRuntimeDeclaredType ts) @ '']''"
| "describeRuntimeDeclaredType (RtMap k v) =
     ''map<'' @ describeRuntimeDeclaredType k @ '', '' @ describeRuntimeDeclaredType v @ ''>''"
| "describeRuntimeDeclaredType (RtFn ret ps variadic) =
     ''fn<'' @ (case ret of None \<Rightarrow> ''any'' | Some t \<Rightarrow> describeRuntimeDeclaredType t) @
       concat (map (\<lambda>p. '', '' @ describeRuntimeDeclaredType p) ps) @ ''>''"
| "describeRuntimeDeclaredType (RtTypeParam name) = (if name \<noteq> [] then name else ''typeparam'')"
| "describeRuntimeDeclaredType (RtStruct name) = (if name = [] then ''struct'' else ''struct('' @ name @ '')'')"
| "describeRuntimeDeclaredType t = rt_kind t"

section \<open>Compatibility\<close>

text \<open>
  \<open>runtimeDeclaredTypeCompatible\<close>. The kinds are compared before the options of a union are
  looked at.
\<close>

function runtimeDeclaredTypeCompatible :: "rtType \<Rightarrow> rtType \<Rightarrow> bool" where
  "runtimeDeclaredTypeCompatible actual expected \<longleftrightarrow>
     (if expected = RtAny \<or> actual = RtAny \<or> rt_kind expected = ''typeparam'' \<or> rt_kind actual = ''typeparam'' then True
      else if rt_kind actual \<noteq> rt_kind expected then False
      else
        (case expected of
           RtUnion opts \<Rightarrow> \<exists>opt\<in>set opts. runtimeDeclaredTypeCompatible actual opt
         | RtList t \<Rightarrow> (case actual of RtList t' \<Rightarrow> runtimeDeclaredTypeCompatible t' t | _ \<Rightarrow> False)
         | RtTuple ts \<Rightarrow>
             (case actual of
                RtTuple ts' \<Rightarrow>
                  length ts' = length ts \<and> (\<forall>p\<in>set (zip ts' ts). runtimeDeclaredTypeCompatible (fst p) (snd p))
              | _ \<Rightarrow> False)
         | RtMap k v \<Rightarrow>
             (case actual of
                RtMap k' v' \<Rightarrow> runtimeDeclaredTypeCompatible k' k \<and> runtimeDeclaredTypeCompatible v' v
              | _ \<Rightarrow> False)
         | RtFn ret ps variadic \<Rightarrow>
             (case actual of
                RtFn ret' ps' variadic' \<Rightarrow>
                  if ret = None \<and> ps = [] then True
                  else
                    variadic' = variadic \<and> length ps' = length ps \<and>
                    (\<forall>p\<in>set (zip ps' ps). runtimeDeclaredTypeCompatible (fst p) (snd p)) \<and>
                    (case ret of
                       None \<Rightarrow> True
                     | Some r \<Rightarrow> (case ret' of None \<Rightarrow> True | Some r' \<Rightarrow> runtimeDeclaredTypeCompatible r' r))
              | _ \<Rightarrow> False)
         | RtStruct name \<Rightarrow>
             (case actual of RtStruct name' \<Rightarrow> name = [] \<or> name' = [] \<or> name' = name | _ \<Rightarrow> False)
         | _ \<Rightarrow> True))"
  by pat_completeness auto
termination
  by (relation "measure (\<lambda>(a, e). size e)")
    (auto dest!: set_zip_rightD simp: less_Suc_eq_le size_list_estimation' dest: size_mem [where f = size])

declare runtimeDeclaredTypeCompatible.simps [simp del]

section \<open>Types of functions\<close>

definition runtimeTypeParamSet :: "string list \<Rightarrow> string list" where
  "runtimeTypeParamSet typeParams = filter (\<lambda>n. n \<noteq> []) typeParams"

definition runtimeDeclaredTypeFromFunction ::
  "expr FunctionParameter list \<Rightarrow> string \<Rightarrow> string list \<Rightarrow> bool \<Rightarrow> rtType" where
  \<comment> \<open>with the flag for a variadic function, which only VM functions set\<close>
  "runtimeDeclaredTypeFromFunction params returnType typeParams variadic =
     (let parse = (\<lambda>s. or_any (parseRuntimeDeclaredType (runtimeTypeParamSet typeParams) s))
      in RtFn (Some (parse returnType)) (map (\<lambda>p. parse (fp_Type p)) params) variadic)"

definition runtimeDeclaredTypeFromVMFunction :: "VMFunction \<Rightarrow> rtType" where
  "runtimeDeclaredTypeFromVMFunction fn =
     runtimeDeclaredTypeFromFunction (fn_Parameters fn) (fn_ReturnType fn) (fn_TypeParams fn)
       (fn_Parameters fn \<noteq> [] \<and> fp_IsVariadic (last (fn_Parameters fn)))"

definition head_type :: "FnHead \<Rightarrow> rtType" where
  "head_type f =
     runtimeDeclaredTypeFromFunction (case fh_Parameters f of None \<Rightarrow> [] | Some ps \<Rightarrow> ps) (fh_ReturnType f)
       (fh_TypeParams f) False"

definition runtimeDeclaredTypeFromObject :: "obj \<Rightarrow> rtType option" where
  "runtimeDeclaredTypeFromObject v =
     (case v of
        FunctionO _ f \<Rightarrow> Some (head_type f)
      | ForeignO _ f \<Rightarrow> Some (head_type f)
      | VMFunctionO _ fn _ \<Rightarrow> Some (runtimeDeclaredTypeFromVMFunction fn)
      | FunctionGroupO _ \<Rightarrow> Some (RtFn None [] False)
      | _ \<Rightarrow> None)"

section \<open>Checking a value\<close>

text \<open>
  \<open>runtimeObjectMatchesDeclaredType\<close>. The loops over elements and entries stop at the first
  mismatch, which makes them the test of all.
\<close>

function runtimeObjectMatchesDeclaredType :: "(nat \<Rightarrow> string) \<Rightarrow> obj \<Rightarrow> rtType \<Rightarrow> bool" where
  "runtimeObjectMatchesDeclaredType sname v t \<longleftrightarrow>
     (case t of
        RtAny \<Rightarrow> True
      | RtTypeParam _ \<Rightarrow> True
      | RtUnion opts \<Rightarrow> \<exists>opt\<in>set opts. runtimeObjectMatchesDeclaredType sname v opt
      | RtNil \<Rightarrow> v = NilO
      | RtBool \<Rightarrow> obj_type v = ''BOOLEAN''
      | RtNum \<Rightarrow> obj_type v = ''NUMBER''
      | RtStr \<Rightarrow> obj_type v = ''STRING''
      | RtBytes \<Rightarrow> obj_type v = ''BYTES''
      | RtSym \<Rightarrow> obj_type v = ''SYMBOL''
      | RtList elem \<Rightarrow>
          (case v of ListO xs \<Rightarrow> \<forall>x\<in>set xs. runtimeObjectMatchesDeclaredType sname x elem | _ \<Rightarrow> False)
      | RtTuple elems \<Rightarrow>
          (case v of
             ListO xs \<Rightarrow>
               length xs = length elems \<and>
               (\<forall>p\<in>set (zip xs elems). runtimeObjectMatchesDeclaredType sname (fst p) (snd p))
           | _ \<Rightarrow> False)
      | RtMap key val \<Rightarrow>
          (case v of
             MapO _ st \<Rightarrow>
               \<forall>e\<in>set (collect_entries st).
                 runtimeObjectMatchesDeclaredType sname (mp_Key (snd e)) key \<and>
                 runtimeObjectMatchesDeclaredType sname (mp_Value (snd e)) val
           | _ \<Rightarrow> False)
      | RtFn _ _ _ \<Rightarrow>
          (case runtimeDeclaredTypeFromObject v of
             None \<Rightarrow> obj_type v \<in> {''FUNCTION'', ''FUNCTION_GROUP'', ''FOREIGN''}
           | Some actual \<Rightarrow> runtimeDeclaredTypeCompatible actual t)
      | RtTask \<Rightarrow> obj_type v = ''TASK''
      | RtChan \<Rightarrow> obj_type v = ''CHANNEL''
      | RtStruct name \<Rightarrow>
          (case v of
             StructO _ s _ \<Rightarrow> name = [] \<or> sname s = name
           | StructSchemaO s \<Rightarrow> name = [] \<or> sname s = name
           | _ \<Rightarrow> False))"
  by pat_completeness auto
termination
  by (relation "measure (\<lambda>(sname, v, t). size t)")
    (auto dest!: set_zip_rightD simp: less_Suc_eq_le dest: size_mem [where f = size])

declare runtimeObjectMatchesDeclaredType.simps [simp del]

section \<open>The type of a value\<close>

definition runtimeRuntimeTypeUnion :: "rtType list \<Rightarrow> rtType" where
  "runtimeRuntimeTypeUnion types =
     (if types = [] then RtAny
      else
        (let uniq = map (\<lambda>t. (describeRuntimeDeclaredType t, t)) types;
             parts = sort (remdups (map fst uniq));
             get = (\<lambda>k. the (map_of (rev uniq) k))
         in case parts of [k] \<Rightarrow> get k | _ \<Rightarrow> RtUnion (map get parts)))"

definition allRuntimeTypesEqual :: "rtType list \<Rightarrow> bool" where
  "allRuntimeTypesEqual types \<longleftrightarrow>
     (case types of
        [] \<Rightarrow> True
      | t # ts \<Rightarrow> \<forall>u\<in>set ts. describeRuntimeDeclaredType u = describeRuntimeDeclaredType t)"

definition runtimeTypeFromList :: "rtType list \<Rightarrow> rtType" where
  \<comment> \<open>from the types of the elements\<close>
  "runtimeTypeFromList elems =
     (if elems = [] then RtList RtAny
      else if allRuntimeTypesEqual elems then RtList (hd elems)
      else if length elems \<le> 4 then RtTuple elems
      else RtList (runtimeRuntimeTypeUnion elems))"

definition runtimeTypeFromMap :: "(rtType \<times> rtType) list \<Rightarrow> rtType" where
  \<comment> \<open>from the types of the entries\<close>
  "runtimeTypeFromMap entries =
     (if entries = [] then RtMap RtAny RtAny
      else RtMap (runtimeRuntimeTypeUnion (map fst entries)) (runtimeRuntimeTypeUnion (map snd entries)))"

function runtimeTypeFromObject :: "(nat \<Rightarrow> string) \<Rightarrow> obj \<Rightarrow> rtType option" where
  "runtimeTypeFromObject sname v =
     (case v of
        NilO \<Rightarrow> Some RtNil
      | BooleanO _ \<Rightarrow> Some RtBool
      | NumberO _ \<Rightarrow> Some RtNum
      | StringO _ \<Rightarrow> Some RtStr
      | BytesO _ \<Rightarrow> Some RtBytes
      | SymbolO _ \<Rightarrow> Some RtSym
      | ListO xs \<Rightarrow> Some (runtimeTypeFromList (map (\<lambda>x. or_any (runtimeTypeFromObject sname x)) xs))
      | MapO _ st \<Rightarrow>
          Some (runtimeTypeFromMap
            (map (\<lambda>e. (or_any (runtimeTypeFromObject sname (mp_Key (snd e))),
                       or_any (runtimeTypeFromObject sname (mp_Value (snd e))))) (collect_entries st)))
      | StructO _ s _ \<Rightarrow> Some (RtStruct (sname s))
      | StructSchemaO s \<Rightarrow> Some (RtStruct (sname s))
      | ChannelO _ \<Rightarrow> Some RtChan
      | TaskHandleO _ \<Rightarrow> Some RtTask
      | _ \<Rightarrow> runtimeDeclaredTypeFromObject v)"
  by pat_completeness auto
termination
proof (relation "measure (\<lambda>(sname, v). size v)", goal_cases)
  case (2 sname v xs x)
  then show ?case using size_mem [of x xs size] by simp
next
  case (3 sname v tags st e)
  have "size_MapPair size (snd e) < size_hamtMapStorage (size_MapPair size) st"
    using 3 by (intro size_entries [of "fst e"]) simp
  then show ?case using 3 by (cases "snd e") simp
next
  case (4 sname v tags st e)
  have "size_MapPair size (snd e) < size_hamtMapStorage (size_MapPair size) st"
    using 4 by (intro size_entries [of "fst e"]) simp
  then show ?case using 4 by (cases "snd e") simp
qed simp

declare runtimeTypeFromObject.simps [simp del]

section \<open>Printing the type of a value\<close>

definition ToLower :: "string \<Rightarrow> string" where
  \<comment> \<open>\<open>strings.ToLower\<close> on ASCII\<close>
  "ToLower s = map (\<lambda>c. if CHR ''A'' \<le> c \<and> c \<le> CHR ''Z'' then char_of (of_char c + (32 :: nat)) else c) s"

definition joinTypeSet :: "string list \<Rightarrow> string" where
  "joinTypeSet ss = (if ss = [] then ''any'' else join ''|'' (sort (remdups ss)))"

definition describeRuntimeListType :: "string list \<Rightarrow> string" where
  \<comment> \<open>from the descriptions of the elements\<close>
  "describeRuntimeListType parts =
     (case parts of
        [] \<Rightarrow> ''list<any>''
      | p # ps \<Rightarrow>
          if \<forall>q\<in>set ps. q = p then
            (if take 1 p = ''['' then ''list<'' @ p @ ''>''
             else if length parts \<le> 4 then ''['' @ join '', '' parts @ '']''
             else ''list<'' @ p @ ''>'')
          else if length parts \<le> 4 then ''['' @ join '', '' parts @ '']''
          else ''list<any>'')"

definition describeRuntimeMapType :: "(string \<times> string) list \<Rightarrow> string" where
  \<comment> \<open>from the descriptions of the entries\<close>
  "describeRuntimeMapType entries =
     (if entries = [] then ''map<any, any>''
      else ''map<'' @ joinTypeSet (map fst entries) @ '', '' @ joinTypeSet (map snd entries) @ ''>'')"

function describeRuntimeObjectType :: "(nat \<Rightarrow> string) \<Rightarrow> obj \<Rightarrow> string" where
  "describeRuntimeObjectType sname v =
     (case v of
        NilO \<Rightarrow> ''nil''
      | BooleanO _ \<Rightarrow> ''bool''
      | NumberO _ \<Rightarrow> ''num''
      | StringO _ \<Rightarrow> ''str''
      | BytesO _ \<Rightarrow> ''bytes''
      | SymbolO _ \<Rightarrow> ''sym''
      | ListO xs \<Rightarrow> describeRuntimeListType (map (describeRuntimeObjectType sname) xs)
      | MapO _ st \<Rightarrow>
          describeRuntimeMapType
            (map (\<lambda>e. (describeRuntimeObjectType sname (mp_Key (snd e)),
                       describeRuntimeObjectType sname (mp_Value (snd e)))) (collect_entries st))
      | StructO _ s _ \<Rightarrow> describeRuntimeDeclaredType (RtStruct (sname s))
      | StructSchemaO s \<Rightarrow> describeRuntimeDeclaredType (RtStruct (sname s))
      | ChannelO _ \<Rightarrow> ''chan''
      | TaskHandleO _ \<Rightarrow> ''task''
      | FunctionGroupO _ \<Rightarrow> ''fn''
      | _ \<Rightarrow>
          (case runtimeDeclaredTypeFromObject v of
             Some t \<Rightarrow> describeRuntimeDeclaredType t
           | None \<Rightarrow> ToLower (obj_type v)))"
  by pat_completeness auto
termination
proof (relation "measure (\<lambda>(sname, v). size v)", goal_cases)
  case (2 sname v xs x)
  then show ?case using size_mem [of x xs size] by simp
next
  case (3 sname v tags st e)
  have "size_MapPair size (snd e) < size_hamtMapStorage (size_MapPair size) st"
    using 3 by (intro size_entries [of "fst e"]) simp
  then show ?case using 3 by (cases "snd e") simp
next
  case (4 sname v tags st e)
  have "size_MapPair size (snd e) < size_hamtMapStorage (size_MapPair size) st"
    using 4 by (intro size_entries [of "fst e"]) simp
  then show ?case using 4 by (cases "snd e") simp
qed simp

declare describeRuntimeObjectType.simps [simp del]


section \<open>Type parameters\<close>

text \<open>
  \<open>inferRuntimeTypeBindings\<close> binds the type parameters of the expected type to parts of the
  actual one. Go changes the map of bindings in place and throws a copy away when a match
  fails, so that a failure has no bindings here.
\<close>

type_synonym rtBindings = "string \<rightharpoonup> rtType"

fun inferRuntimeTypeBindings :: "rtType \<Rightarrow> rtType \<Rightarrow> rtBindings \<Rightarrow> rtBindings option"
and infer_first :: "rtType list \<Rightarrow> rtType \<Rightarrow> rtBindings \<Rightarrow> rtBindings option"
and infer_all :: "rtType list \<Rightarrow> rtType list \<Rightarrow> rtBindings \<Rightarrow> rtBindings option" where
  "inferRuntimeTypeBindings expected actual B =
     (case expected of
        RtTypeParam name \<Rightarrow>
          (case B name of
             Some existing \<Rightarrow>
               if runtimeDeclaredTypeCompatible actual existing \<and> runtimeDeclaredTypeCompatible existing actual
               then Some B else None
           | None \<Rightarrow> Some (B(name \<mapsto> actual)))
      | _ \<Rightarrow>
        if rt_kind actual = ''typeparam'' then Some B
        else
          (case expected of
             RtUnion opts \<Rightarrow> infer_first opts actual B
           | RtList t \<Rightarrow> (case actual of RtList t' \<Rightarrow> inferRuntimeTypeBindings t t' B | _ \<Rightarrow> None)
           | RtTuple ts \<Rightarrow>
               (case actual of
                  RtTuple ts' \<Rightarrow> if length ts = length ts' then infer_all ts ts' B else None
                | _ \<Rightarrow> None)
           | RtMap k v \<Rightarrow>
               (case actual of
                  RtMap k' v' \<Rightarrow>
                    (case inferRuntimeTypeBindings k k' B of
                       Some B \<Rightarrow> inferRuntimeTypeBindings v v' B
                     | None \<Rightarrow> None)
                | _ \<Rightarrow> None)
           | RtFn r ps variadic \<Rightarrow>
               (case actual of
                  RtFn r' ps' variadic' \<Rightarrow>
                    if variadic' \<noteq> variadic \<or> length ps' \<noteq> length ps then None
                    else
                      (case infer_all ps ps' B of
                         Some B \<Rightarrow>
                           (case r of
                              None \<Rightarrow> Some B
                            | Some r \<Rightarrow> (case r' of None \<Rightarrow> Some B | Some r' \<Rightarrow> inferRuntimeTypeBindings r r' B))
                       | None \<Rightarrow> None)
                | _ \<Rightarrow> None)
           | RtStruct name \<Rightarrow>
               (case actual of
                  RtStruct name' \<Rightarrow> if name = [] \<or> name' = [] \<or> name = name' then Some B else None
                | _ \<Rightarrow> None)
           | _ \<Rightarrow> if rt_kind expected = rt_kind actual then Some B else None))"
| "infer_first [] actual B = None"
| "infer_first (opt # opts) actual B =
     (case inferRuntimeTypeBindings opt actual B of
        Some B' \<Rightarrow> Some B'
      | None \<Rightarrow> infer_first opts actual B)"
| "infer_all (t # ts) (t' # ts') B =
     (case inferRuntimeTypeBindings t t' B of Some B \<Rightarrow> infer_all ts ts' B | None \<Rightarrow> None)"
| "infer_all _ _ B = Some B"

declare inferRuntimeTypeBindings.simps [simp del]

fun substituteRuntimeDeclaredType :: "rtBindings \<Rightarrow> rtType \<Rightarrow> rtType" where
  "substituteRuntimeDeclaredType B (RtTypeParam name) =
     (case B name of Some t \<Rightarrow> t | None \<Rightarrow> RtTypeParam name)"
| "substituteRuntimeDeclaredType B (RtUnion opts) = RtUnion (map (substituteRuntimeDeclaredType B) opts)"
| "substituteRuntimeDeclaredType B (RtList t) = RtList (substituteRuntimeDeclaredType B t)"
| "substituteRuntimeDeclaredType B (RtTuple ts) = RtTuple (map (substituteRuntimeDeclaredType B) ts)"
| "substituteRuntimeDeclaredType B (RtMap k v) =
     RtMap (substituteRuntimeDeclaredType B k) (substituteRuntimeDeclaredType B v)"
| "substituteRuntimeDeclaredType B (RtFn r ps variadic) =
     RtFn (map_option (substituteRuntimeDeclaredType B) r) (map (substituteRuntimeDeclaredType B) ps) variadic"
| "substituteRuntimeDeclaredType B t = t"

section \<open>The type that a call declares\<close>

definition bind_argument ::
  "(nat \<Rightarrow> string) \<Rightarrow> string list \<Rightarrow> expr FunctionParameter \<times> obj option \<Rightarrow> rtBindings \<Rightarrow> rtBindings" where
  \<comment> \<open>one round of the loop of \<open>runtimeTypeBindingsFromCall\<close>; a nil value has the type \<open>nil\<close>\<close>
  "bind_argument sname typeParams px B =
     (let (p, x) = px
      in if TrimSpace (fp_Type p) = [] then B
         else
           (case (case x of None \<Rightarrow> Some RtNil | Some x \<Rightarrow> runtimeTypeFromObject sname x) of
              None \<Rightarrow> B
            | Some actual \<Rightarrow>
                (case parseRuntimeDeclaredType typeParams (fp_Type p) of
                   None \<Rightarrow> B
                 | Some expected \<Rightarrow>
                     (case inferRuntimeTypeBindings expected actual B of None \<Rightarrow> B | Some B' \<Rightarrow> B'))))"

definition runtimeTypeBindingsFromCall ::
  "(nat \<Rightarrow> string) \<Rightarrow> expr FunctionParameter list \<Rightarrow> string list \<Rightarrow> slots \<Rightarrow> rtBindings" where
  "runtimeTypeBindingsFromCall sname params typeParams values =
     fold (bind_argument sname typeParams) (zip params values) Map.empty"

definition runtimeDeclaredTypeForCall ::
  "(nat \<Rightarrow> string) \<Rightarrow> string \<Rightarrow> string list \<Rightarrow> expr FunctionParameter list \<Rightarrow> slots \<Rightarrow> rtType option" where
  "runtimeDeclaredTypeForCall sname returnType typeParams params values =
     (if TrimSpace returnType = [] then None
      else
        (let typeParamSet = runtimeTypeParamSet typeParams
         in case parseRuntimeDeclaredType typeParamSet returnType of
              None \<Rightarrow> None
            | Some expected \<Rightarrow>
                if params = [] \<or> values = [] then Some expected
                else
                  Some (substituteRuntimeDeclaredType
                    (runtimeTypeBindingsFromCall sname params typeParamSet values) expected)))"

section \<open>Checks of results\<close>

text \<open>
  \<open>callValuesForParameters\<close> of \<open>internal/vm/executor.go\<close>, and the tests there of the result of
  a function and of a foreign function: the message of the error, if there is one.
\<close>

definition callValuesForParameters ::
  "expr FunctionParameter list \<Rightarrow> obj list \<Rightarrow> (string \<times> obj) list \<Rightarrow> slots" where
  "callValuesForParameters params positional named =
     map (\<lambda>i. if i < length positional then Some (positional ! i)
               else map_of named (id_Value (fp_Name (params ! i)))) [0..<length params]"

definition declared_mismatch :: "(nat \<Rightarrow> string) \<Rightarrow> string \<Rightarrow> rtType option \<Rightarrow> obj \<Rightarrow> string option" where
  "declared_mismatch sname what rt result =
     (case rt of
        None \<Rightarrow> None
      | Some rt \<Rightarrow>
          if runtimeObjectMatchesDeclaredType sname result rt then None
          else Some (what @ '' return type mismatch: expected '' @ describeRuntimeDeclaredType rt @
                 '', got '' @ describeRuntimeObjectType sname result))"

definition return_error :: "(nat \<Rightarrow> string) \<Rightarrow> VMFunction \<Rightarrow> obj list \<Rightarrow> obj \<Rightarrow> string option" where
  "return_error sname fn bound result =
     declared_mismatch sname ''function''
       (runtimeDeclaredTypeForCall sname (fn_ReturnType fn) (fn_TypeParams fn) (fn_Parameters fn) (map Some bound))
       result"

definition foreign_return_error ::
  "(nat \<Rightarrow> string) \<Rightarrow> obj \<Rightarrow> obj list \<Rightarrow> (string \<times> obj) list \<Rightarrow> obj \<Rightarrow> string option" where
  "foreign_return_error sname callee positional named result =
     (case callee of
        ForeignO _ f \<Rightarrow>
          (let params = (case fh_Parameters f of None \<Rightarrow> [] | Some ps \<Rightarrow> ps)
           in declared_mismatch sname ''foreign''
                (runtimeDeclaredTypeForCall sname (fh_ReturnType f) (fh_TypeParams f) params
                  (callValuesForParameters params positional named))
                result)
      | _ \<Rightarrow> None)"

end
