(* ===== verification/Machine.thy ===== *)
theory Machine
  imports DeclaredType
begin

text \<open>
  The state of an executor of \<open>internal/vm/executor.go\<close> and the instructions that do not call
  functions. An operation acts on the executor and the store; it gives a value, makes \<open>run\<close>
  return an object, or panics. Stacks are lists with the innermost element first: the value
  stack, the scopes, and the entries of a scope, which run in that order.

  What the machine takes from outside is in the configuration: \<open>Inspect\<close>, the numbers of
  symbols, the text of a tag, the call bridge of the runtime, and the case that a select takes.
\<close>

section \<open>State\<close>

record config =
  cfg_Inspect :: "obj \<Rightarrow> string"
  cfg_SymbolId :: "string \<Rightarrow> 64 word"
  cfg_TagString :: "expr Tag \<Rightarrow> string"
  cfg_Call :: "(nat \<Rightarrow> nat \<Rightarrow> obj \<Rightarrow> obj list \<Rightarrow> (string \<times> obj) list \<Rightarrow> heap \<Rightarrow> obj \<times> heap) option"
  cfg_Select :: "ReflectCase list \<Rightarrow> heap \<Rightarrow> nat option"

datatype vmDeferEntry =
  vmDeferEntry (de_fn: "VMFunction \<times> nat option") (de_mode: int) (de_errorName: string) (de_pos: nat)

text \<open>
  A task scope is nil, \<open>None\<close>, or the handles it owns; a task limit is nil or the capacity of
  the channel. \<open>v_last\<close> is the variable \<open>last\<close> of \<open>run\<close>.
\<close>

record vm =
  v_env :: nat
  v_stack :: "obj list"
  v_last :: obj
  deferScopes :: "vmDeferEntry list list"
  taskScopes :: "nat list option list"
  taskLimits :: "int option list"
  recurCarryHandles :: "nat list"
  borrowedTaskDepth :: nat
  borrowedLimitDepth :: nat

definition NewExecutor :: "nat \<Rightarrow> vm" where
  "NewExecutor env =
     \<lparr>v_env = env, v_stack = [], v_last = NilO, deferScopes = [], taskScopes = [], taskLimits = [],
      recurCarryHandles = [], borrowedTaskDepth = 0, borrowedLimitDepth = 0\<rparr>"

datatype 'a outcome =
  Val 'a vm heap
| Stop obj vm heap
| Panicked string
| OutOfFuel
| Unmodelled string

type_synonym 'a exec = "vm \<Rightarrow> heap \<Rightarrow> 'a outcome"

definition ret :: "'a \<Rightarrow> 'a exec" where
  "ret a v h = Val a v h"

definition stop :: "obj \<Rightarrow> 'a exec" where
  "stop r v h = Stop r v h"

definition bindE :: "'a exec \<Rightarrow> ('a \<Rightarrow> 'b exec) \<Rightarrow> 'b exec" where
  "bindE m f v h =
     (case m v h of
        Val a v h \<Rightarrow> f a v h
      | Stop r v h \<Rightarrow> Stop r v h
      | Panicked s \<Rightarrow> Panicked s
      | OutOfFuel \<Rightarrow> OutOfFuel
      | Unmodelled s \<Rightarrow> Unmodelled s)"

abbreviation thenE :: "'a exec \<Rightarrow> 'b exec \<Rightarrow> 'b exec" where
  "thenE m n \<equiv> bindE m (\<lambda>_. n)"

definition catchE :: "obj exec \<Rightarrow> obj exec" where
  \<comment> \<open>the object an inner Go function returns, whichever way\<close>
  "catchE m v h = (case m v h of Stop r v h \<Rightarrow> Val r v h | x \<Rightarrow> x)"

definition getV :: "(vm \<Rightarrow> 'a) \<Rightarrow> 'a exec" where
  "getV f v h = Val (f v) v h"

definition getH :: "(heap \<Rightarrow> 'a) \<Rightarrow> 'a exec" where
  "getH f v h = Val (f h) v h"

definition modV :: "(vm \<Rightarrow> vm) \<Rightarrow> unit exec" where
  "modV f v h = Val () (f v) h"

definition onH :: "(heap \<Rightarrow> 'a \<times> heap) \<Rightarrow> 'a exec" where
  "onH f v h = (case f h of (a, h) \<Rightarrow> Val a v h)"

definition onH_env :: "(nat \<Rightarrow> heap \<Rightarrow> 'a \<times> heap) \<Rightarrow> 'a exec" where
  \<comment> \<open>an operation on the current environment\<close>
  "onH_env f = bindE (getV v_env) (\<lambda>env. onH (f env))"

definition fresh :: "nat exec" where
  "fresh = onH (\<lambda>h. (next_ref h, h\<lparr>next_ref := next_ref h + 1\<rparr>))"

fun mapE :: "('a \<Rightarrow> 'b exec) \<Rightarrow> 'a list \<Rightarrow> 'b list exec" where
  "mapE f [] = ret []"
| "mapE f (x # xs) = bindE (f x) (\<lambda>y. bindE (mapE f xs) (\<lambda>ys. ret (y # ys)))"

definition push :: "obj \<Rightarrow> unit exec" where
  "push x = modV (\<lambda>v. v\<lparr>v_stack := x # v_stack v\<rparr>)"

definition pop_option :: "obj option exec" where
  "pop_option v h =
     (case v_stack v of [] \<Rightarrow> Val None v h | x # xs \<Rightarrow> Val (Some x) (v\<lparr>v_stack := xs\<rparr>) h)"

section \<open>Errors\<close>

text \<open>The prefix of the message is dropped when the position is known.\<close>

definition errorAt :: "nat \<Rightarrow> string \<Rightarrow> obj exec" where
  "errorAt pos msg =
     bindE (getV v_env) (\<lambda>env.
     bindE (getH (\<lambda>h. envs h ! env)) (\<lambda>e.
     bindE fresh (\<lambda>r.
     ret (ErrorO r (if pos > 0 then msg else ''vm runtime error: '' @ msg) ''RuntimeError''
            (env_Path e) (env_Src e) pos))))"

definition fail :: "nat \<Rightarrow> string \<Rightarrow> 'a exec" where
  \<comment> \<open>\<open>return e.errorAt(...)\<close>\<close>
  "fail pos msg = bindE (errorAt pos msg) stop"

definition pop :: "nat \<Rightarrow> string \<Rightarrow> obj exec" where
  "pop pos what =
     bindE pop_option (\<lambda>x. case x of None \<Rightarrow> fail pos (''stack underflow for '' @ what) | Some x \<Rightarrow> ret x)"

definition panic :: "string \<Rightarrow> 'a exec" where
  "panic msg v h = Panicked msg"

definition liftF :: "nat \<Rightarrow> fault + 'a \<Rightarrow> 'a exec" where
  "liftF pos r = (case r of Inr a \<Rightarrow> ret a | Inl (Raise msg) \<Rightarrow> fail pos msg | Inl (Panic msg) \<Rightarrow> panic msg)"

definition liftM :: "nat \<Rightarrow> string + 'a \<Rightarrow> 'a exec" where
  "liftM pos r = (case r of Inr a \<Rightarrow> ret a | Inl msg \<Rightarrow> fail pos msg)"

definition resolveValue :: "nat \<Rightarrow> obj \<Rightarrow> obj exec" where
  "resolveValue pos x =
     bindE (getH (\<lambda>h. resolve_loop h x)) (\<lambda>r. case r of None \<Rightarrow> (\<lambda>v h. OutOfFuel) | Some r \<Rightarrow> liftF pos r)"

section \<open>Constants\<close>

definition alloc_schema :: "StructSchema \<Rightarrow> heap \<Rightarrow> nat \<times> heap" where
  "alloc_schema s h = (length (schemas h), h\<lparr>schemas := schemas h @ [s]\<rparr>)"

text \<open>
  \<open>bindClosureIfNeeded\<close> on a constant. A schema constant is followed by the instruction that
  copies it, so that it can be allocated when it is pushed.
\<close>

definition bindClosureIfNeeded :: "Constant \<Rightarrow> obj exec" where
  "bindClosureIfNeeded c =
     (case c of
        NumberConst n \<Rightarrow> ret (NumberO n)
      | StringConst s \<Rightarrow> ret (StringO s)
      | BytesConst s \<Rightarrow> ret (BytesO s)
      | SymbolConst s \<Rightarrow> ret (SymbolO s)
      | SchemaConst fs \<Rightarrow>
          bindE (onH (alloc_schema \<lparr>schema_Name = [], schema_Fields = fs, schema_Env = None\<rparr>)) (\<lambda>r. ret (StructSchemaO r))
      | FunctionConst fn \<Rightarrow>
          bindE fresh (\<lambda>r. bindE (getV v_env) (\<lambda>env. ret (VMFunctionO r fn (Some env)))))"

section \<open>Names\<close>

definition read_name :: "nat \<Rightarrow> string \<Rightarrow> obj exec" where
  "read_name pos name =
     bindE (onH_env (\<lambda>env h. (env_Get h env name, h))) (\<lambda>x.
     case x of
       None \<Rightarrow> fail pos (''identifier not found: '' @ name)
     | Some None \<Rightarrow> panic ''nil object''
     | Some (Some x) \<Rightarrow> resolveValue pos x)"

definition GetGlobal :: "Instruction \<Rightarrow> unit exec" where
  "GetGlobal i = bindE (read_name (Position i) (StrArg i)) push"

text \<open>
  A function that is bound to a name with a function is merged with it, in the binding that
  lookup finds, whatever scope that is.
\<close>

definition merge_overload :: "config \<Rightarrow> string \<Rightarrow> obj \<Rightarrow> obj option exec" where
  "merge_overload C name x =
     onH_env (\<lambda>env h.
       case GetBinding h env name of
         None \<Rightarrow> (None, h)
       | Some b \<Rightarrow>
           (case bn_Value (bindings h ! b) of
              None \<Rightarrow> (None, h)
            | Some existing \<Rightarrow>
                (case mergeFunctionOverload (cfg_TagString C) existing x h of
                   None \<Rightarrow> (None, h)
                 | Some (merged, h) \<Rightarrow> (Some merged, set_binding b ((bindings h ! b)\<lparr>bn_Value := Some merged\<rparr>) h))))"

definition name_schema :: "obj \<Rightarrow> string \<Rightarrow> unit exec" where
  "name_schema x name =
     (case x of
        StructSchemaO r \<Rightarrow>
          onH (\<lambda>h. ((), let s = schemas h ! r
                        in if schema_Name s = [] then h\<lparr>schemas := (schemas h)[r := s\<lparr>schema_Name := name\<rparr>]\<rparr> else h))
      | _ \<Rightarrow> ret ())"

text \<open>The bodies of the two cases after the value is popped, with the value they push.\<close>

definition define_const :: "config \<Rightarrow> nat \<Rightarrow> string \<Rightarrow> obj \<Rightarrow> obj exec" where
  "define_const C pos name x =
     bindE (merge_overload C name x) (\<lambda>m.
     case m of
       Some merged \<Rightarrow> ret merged
     | None \<Rightarrow>
         thenE (name_schema x name)
        (bindE (onH_env (\<lambda>env. DefineConstant env name x False False)) (\<lambda>r.
         thenE (liftM pos r) (ret x))))"

definition define_var :: "config \<Rightarrow> nat \<Rightarrow> string \<Rightarrow> obj \<Rightarrow> obj exec" where
  "define_var C pos name x =
     bindE (merge_overload C name x) (\<lambda>m.
     case m of
       Some merged \<Rightarrow> ret merged
     | None \<Rightarrow>
         bindE (onH_env (\<lambda>env. Define env name x False False)) (\<lambda>r.
         thenE (liftM pos r)
        (thenE (name_schema x name) (ret x))))"

definition SetGlobalConst :: "config \<Rightarrow> Instruction \<Rightarrow> unit exec" where
  "SetGlobalConst C i =
     bindE (pop (Position i) ''const bind'') (\<lambda>x. bindE (define_const C (Position i) (StrArg i) x) push)"

definition SetGlobalVar :: "config \<Rightarrow> Instruction \<Rightarrow> unit exec" where
  "SetGlobalVar C i =
     bindE (pop (Position i) ''var bind'') (\<lambda>x. bindE (define_var C (Position i) (StrArg i) x) push)"

definition SetDoc :: "Instruction \<Rightarrow> unit exec" where
  "SetDoc i = (if StrArg i = [] then ret () else onH_env (\<lambda>env h. ((), SetLocalDoc env (StrArg i) (StrArg2 i) h)))"

fun bind_entries :: "bool \<Rightarrow> bool \<Rightarrow> nat \<Rightarrow> obj MapPair list \<Rightarrow> heap \<Rightarrow> (string + unit) \<times> heap" where
  "bind_entries mutable isImport env [] h = (Inr (), h)"
| "bind_entries mutable isImport env (p # ps) h =
     (case mapBindingName (mp_Key p) of
        None \<Rightarrow> bind_entries mutable isImport env ps h
      | Some name \<Rightarrow>
          if name = [] then bind_entries mutable isImport env ps h
          else (case env_define env name (mp_Value p) mutable False isImport h of
                  (Inl e, h) \<Rightarrow> (Inl e, h)
                | (Inr _, h) \<Rightarrow> bind_entries mutable isImport env ps h))"

definition BindMapAll :: "bool \<Rightarrow> Instruction \<Rightarrow> unit exec" where
  "BindMapAll mutable i =
     bindE (pop (Position i) ''map select-all binding'') (\<lambda>x.
     case x of
       MapO tags st \<Rightarrow>
         bindE (onH_env (\<lambda>env. bind_entries mutable (''@import'' \<in> set tags) env (map snd (collect_entries st)))) (\<lambda>r.
         thenE (liftM (Position i) r) (push x))
     | _ \<Rightarrow> fail (Position i) (''map select-all expects map value, got '' @ obj_type x))"

definition assign_name :: "nat \<Rightarrow> string \<Rightarrow> obj \<Rightarrow> obj exec" where
  "assign_name pos name x =
     bindE (onH_env (\<lambda>env. env_Assign env name x)) (\<lambda>r. thenE (liftM pos r) (ret x))"

definition AssignGlobal :: "Instruction \<Rightarrow> unit exec" where
  "AssignGlobal i =
     bindE (pop (Position i) ''assignment'') (\<lambda>x. bindE (assign_name (Position i) (StrArg i) x) push)"

section \<open>Building values\<close>

definition pop_many :: "nat \<Rightarrow> nat \<Rightarrow> string \<Rightarrow> obj list exec" where
  \<comment> \<open>the top \<open>n\<close> values, in the order they were pushed\<close>
  "pop_many n pos what = bindE (mapE (\<lambda>_. pop pos what) [0..<n]) (\<lambda>xs. ret (rev xs))"

definition BuildArray :: "Instruction \<Rightarrow> unit exec" where
  "BuildArray i =
     (if IntArg i < 0 then fail (Position i) ''invalid array arity''
      else bindE (pop_many (nat (IntArg i)) (Position i) ''array literal'') (\<lambda>xs. push (ListO xs)))"

definition map_entry :: "config \<Rightarrow> nat \<Rightarrow> obj \<times> obj \<Rightarrow> (MapKey \<times> obj MapPair) exec" where
  "map_entry C pos kv =
     (case obj_MapKey (cfg_SymbolId C) (fst kv) of
        None \<Rightarrow> fail pos (''unusable as map key: '' @ obj_type (fst kv))
      | Some k \<Rightarrow> ret (k, MapPair (fst kv) (snd kv)))"

definition storage_of :: "(MapKey \<times> obj MapPair) list \<Rightarrow> obj MapPair hamtMapStorage" where
  "storage_of ps = fold (\<lambda>(k, p) st. storage_put st k p) ps storage_empty"

text \<open>
  The pairs are popped from the last to the first; the Go map keeps, of two pairs with one
  key, the pair popped later.
\<close>

definition BuildHash :: "config \<Rightarrow> Instruction \<Rightarrow> unit exec" where
  "BuildHash C i =
     (if IntArg i < 0 then fail (Position i) ''invalid map arity''
      else
        bindE (mapE (\<lambda>_.
            bindE (pop (Position i) ''map value'') (\<lambda>value.
            bindE (pop (Position i) ''map key'') (\<lambda>key.
            map_entry C (Position i) (key, value)))) [0..<nat (IntArg i)]) (\<lambda>ps.
        push (MapO [] (storage_of ps))))"

definition BindSchema :: "Instruction \<Rightarrow> unit exec" where
  "BindSchema i =
     bindE (pop (Position i) ''struct schema'') (\<lambda>x.
     case x of
       StructSchemaO r \<Rightarrow>
         bindE (onH_env (\<lambda>env h. alloc_schema ((schemas h ! r)\<lparr>schema_Env := Some env\<rparr>) h)) (\<lambda>r'.
         push (StructSchemaO r'))
     | _ \<Rightarrow> fail (Position i) (''expected struct schema, got '' @ obj_type x))"

definition schema_name :: "heap \<Rightarrow> nat \<Rightarrow> string" where
  "schema_name h r = schema_Name (schemas h ! r)"

definition checked_struct :: "nat \<Rightarrow> nat \<Rightarrow> (string \<times> obj) list \<Rightarrow> obj exec" where
  \<comment> \<open>a struct value, after \<open>validateStructHints\<close>\<close>
  "checked_struct pos s vals =
     bindE (getH (\<lambda>h. validateStructHints (schema_name h) (schemas h ! s) vals)) (\<lambda>e.
     case e of
       Some msg \<Rightarrow> fail pos msg
     | None \<Rightarrow> bindE fresh (\<lambda>r. ret (StructO r s vals)))"

definition StructCopy :: "Instruction \<Rightarrow> unit exec" where
  "StructCopy i =
     bindE (pop (Position i) ''struct copy fields'') (\<lambda>fieldsObj.
     bindE (pop (Position i) ''struct copy source'') (\<lambda>src.
     case fieldsObj of
       MapO _ st \<Rightarrow>
         (case src of
            StructO _ s vals \<Rightarrow>
              bindE (getH (\<lambda>h. structValuesFromMap (schemas h ! s) st)) (\<lambda>r.
              bindE (liftM (Position i) r) (\<lambda>updates.
              bindE (checked_struct (Position i) s (fold (\<lambda>(k, x). AList.update k x) updates vals)) push))
          | MapO tags st' \<Rightarrow>
              push (MapO tags (fold (\<lambda>(k, p) st. storage_put st k p) (collect_entries st) st'))
          | _ \<Rightarrow> fail (Position i) (''copy expects a struct or map value, got '' @ obj_type src))
     | _ \<Rightarrow> fail (Position i) (''copy expects a map for data, got '' @ obj_type fieldsObj)))"

definition make_slice :: "obj \<Rightarrow> obj \<Rightarrow> obj \<Rightarrow> obj exec" where
  "make_slice start end step =
     bindE fresh (\<lambda>r. ret (SliceO r (nilIfNilObject start) (nilIfNilObject end) (nilIfNilObject step)))"

definition BuildSlice :: "Instruction \<Rightarrow> unit exec" where
  "BuildSlice i =
     bindE (pop (Position i) ''slice step'') (\<lambda>step.
     bindE (pop (Position i) ''slice end'') (\<lambda>end.
     bindE (pop (Position i) ''slice start'') (\<lambda>start.
     bindE (make_slice start end step) push)))"

definition index_value :: "config \<Rightarrow> nat \<Rightarrow> bool \<Rightarrow> obj \<Rightarrow> obj \<Rightarrow> obj exec" where
  "index_value C pos isDot left index =
     bindE (liftF pos (evalIndex (cfg_SymbolId C) left index isDot)) (resolveValue pos)"

definition Index :: "config \<Rightarrow> Instruction \<Rightarrow> unit exec" where
  "Index C i =
     bindE (pop (Position i) ''index operand'') (\<lambda>index.
     bindE (pop (Position i) ''indexed value'') (\<lambda>left.
     bindE (index_value C (Position i) (Op i = OpIndexDot) left index) push))"

section \<open>Operators\<close>

definition Binary :: "config \<Rightarrow> Instruction \<Rightarrow> unit exec" where
  "Binary C i =
     bindE (pop (Position i) ''binary operator'') (\<lambda>right.
     bindE (pop (Position i) ''binary operator'') (\<lambda>left.
     bindE (liftF (Position i) (evalBinary (cfg_Inspect C) (Op i) left right)) push))"

definition unary_name :: "Opcode \<Rightarrow> string" where
  "unary_name op = (case op of OpBang \<Rightarrow> ''! operator'' | OpNegate \<Rightarrow> ''unary - operator'' | _ \<Rightarrow> ''unary ~ operator'')"

definition Unary :: "Instruction \<Rightarrow> unit exec" where
  "Unary i =
     bindE (pop (Position i) (unary_name (Op i))) (\<lambda>x.
     bindE (liftF (Position i) (evalPrefix (Op i) x)) push)"

definition list_extend :: "Opcode \<Rightarrow> obj \<Rightarrow> obj \<Rightarrow> fault + obj" where
  "list_extend op left right = (if op = OpListPrepend then listPrepend left right else listAppend left right)"

definition ListExtend :: "Instruction \<Rightarrow> unit exec" where
  \<comment> \<open>\<open>OpListPrepend\<close> and \<open>OpListAppend\<close>\<close>
  "ListExtend i =
     (let what = (if Op i = OpListPrepend then ''list prepend'' else ''list append'')
      in bindE (pop (Position i) what) (\<lambda>right.
         bindE (pop (Position i) what) (\<lambda>left.
         bindE (liftF (Position i) (list_extend (Op i) left right)) push)))"

section \<open>Patterns\<close>

definition MapHasKey :: "config \<Rightarrow> Instruction \<Rightarrow> unit exec" where
  "MapHasKey C i =
     bindE (pop (Position i) ''map key check'') (\<lambda>key.
     bindE (pop (Position i) ''map key check'') (\<lambda>x.
     push (BooleanO (case x of MapO _ st \<Rightarrow> map_lookup (cfg_SymbolId C) st key \<noteq> None | _ \<Rightarrow> False))))"

definition MatchListEmpty :: "Instruction \<Rightarrow> unit exec" where
  "MatchListEmpty i =
     bindE (pop (Position i) ''list match'') (\<lambda>x.
     push (BooleanO (case x of ListO xs \<Rightarrow> xs = [] | _ \<Rightarrow> False)))"

definition bind_constant :: "nat \<Rightarrow> string \<Rightarrow> obj \<Rightarrow> unit exec" where
  "bind_constant pos name x =
     bindE (onH_env (\<lambda>env. DefineConstant env name x False False)) (\<lambda>r. thenE (liftM pos r) (ret ()))"

definition MatchListHeadTail :: "Instruction \<Rightarrow> unit exec" where
  "MatchListHeadTail i =
     bindE (pop (Position i) ''list match'') (\<lambda>x.
     case x of
       ListO (head # tail) \<Rightarrow>
         thenE (bind_constant (Position i) (StrArg i) head)
        (thenE (bind_constant (Position i) (StrArg2 i) (ListO tail)) (push (BooleanO True)))
     | _ \<Rightarrow> push (BooleanO False))"

definition seq_length :: "obj \<Rightarrow> int option" where
  "seq_length x = (case x of ListO xs \<Rightarrow> Some (int (length xs)) | BytesO s \<Rightarrow> Some (int (length s)) | _ \<Rightarrow> None)"

definition MatchSeqLen :: "Instruction \<Rightarrow> unit exec" where
  "MatchSeqLen i =
     bindE (pop (Position i) ''sequence length match'') (\<lambda>x.
     push (BooleanO
       (case seq_length x of
          None \<Rightarrow> False
        | Some n \<Rightarrow> if Op i = OpMatchSeqLenEq then n = IntArg i else n \<ge> IntArg i)))"

definition MatchSeqTail :: "Instruction \<Rightarrow> unit exec" where
  "MatchSeqTail i =
     bindE (pop (Position i) ''sequence tail extraction'') (\<lambda>x.
     case x of
       ListO xs \<Rightarrow> push (ListO (drop (nat (IntArg i)) xs))
     | BytesO s \<Rightarrow> push (BytesO (drop (nat (IntArg i)) s))
     | _ \<Rightarrow> fail (Position i) (''sequence tail expects LIST or BYTES, got '' @ obj_type x))"

definition MatchMapLen :: "Instruction \<Rightarrow> unit exec" where
  "MatchMapLen i =
     bindE (pop (Position i) ''map length match'') (\<lambda>x.
     push (BooleanO
       (case x of
          MapO _ st \<Rightarrow> if Op i = OpMatchMapLenEq then storage_len st = IntArg i else storage_len st \<ge> IntArg i
        | _ \<Rightarrow> False)))"

fun split_commas :: "string \<Rightarrow> string \<Rightarrow> string list" where
  \<comment> \<open>\<open>strings.Split(s, ",")\<close>, with the part read so far\<close>
  "split_commas part [] = [part]"
| "split_commas part (c # cs) = (if c = CHR '','' then part # split_commas [] cs else split_commas (part @ [c]) cs)"

definition map_remainder :: "string list \<Rightarrow> obj MapPair hamtMapStorage \<Rightarrow> obj MapPair hamtMapStorage" where
  "map_remainder excluded st =
     storage_of
       (filter (\<lambda>(k, p). case mapBindingName (mp_Key p) of Some name \<Rightarrow> name \<notin> set excluded | None \<Rightarrow> True)
         (collect_entries st))"

definition MatchMapBindRemainder :: "Instruction \<Rightarrow> unit exec" where
  "MatchMapBindRemainder i =
     bindE (pop (Position i) ''map remainder bind'') (\<lambda>x.
     case x of
       MapO _ st \<Rightarrow>
         thenE (bind_constant (Position i) (StrArg i)
                  (MapO [] (map_remainder (filter (\<lambda>k. k \<noteq> []) (split_commas [] (StrArg2 i))) st)))
           (push (BooleanO True))
     | _ \<Rightarrow> fail (Position i) (''map remainder expects MAP, got '' @ obj_type x))"

definition MatchStructSchema :: "Instruction \<Rightarrow> unit exec" where
  "MatchStructSchema i =
     bindE (pop (Position i) ''struct schema match'') (\<lambda>x.
     bindE (getH (\<lambda>h. case x of StructO _ s _ \<Rightarrow> schema_name h s = StrArg i | _ \<Rightarrow> False)) (\<lambda>b.
     push (BooleanO b)))"

section \<open>Scopes\<close>

definition RegisterDefer :: "Instruction \<Rightarrow> unit exec" where
  "RegisterDefer i =
     bindE (pop (Position i) ''defer registration'') (\<lambda>x.
     case x of
       VMFunctionO _ fn clo \<Rightarrow>
         modV (\<lambda>v. let e = vmDeferEntry (fn, clo) (IntArg i) (StrArg i) (Position i)
                    in v\<lparr>deferScopes := (case deferScopes v of [] \<Rightarrow> [[e]] | s # ss \<Rightarrow> (e # s) # ss)\<rparr>)
     | _ \<Rightarrow> fail (Position i) (''defer expects a function value, got '' @ obj_type x))"

definition resolveScopeLimit :: "int \<Rightarrow> int option exec" where
  "resolveScopeLimit scopeLimitArg =
     (if scopeLimitArg = 0 then ret None
      else
        bindE (getV v_env) (\<lambda>env.
        bindE (getH (\<lambda>h. env_Limit (envs h ! env))) (\<lambda>envLimit.
        bindE (getV taskLimits) (\<lambda>limits.
        let limit = (if scopeLimitArg < 0 then
                       (if envLimit > 0 then envLimit
                        else case limits of Some c # _ \<Rightarrow> c | _ \<Rightarrow> 4)
                     else scopeLimitArg)
        in ret (if limit < 1 then None else Some limit)))))"

definition PushScope :: "Instruction \<Rightarrow> unit exec" where
  "PushScope i =
     thenE (modV (\<lambda>v.
       (if IntArg i = 0 then v\<lparr>taskScopes := None # taskScopes v\<rparr>
        else v\<lparr>taskScopes := Some (recurCarryHandles v) # taskScopes v, recurCarryHandles := []\<rparr>)
       \<lparr>deferScopes := [] # deferScopes v\<rparr>))
    (bindE (resolveScopeLimit (IntArg i)) (\<lambda>limit.
     thenE (modV (\<lambda>v. v\<lparr>taskLimits := limit # taskLimits v\<rparr>))
    (bindE (onH_env (\<lambda>env. NewEnclosedEnvironment env None)) (\<lambda>env.
     modV (\<lambda>v. v\<lparr>v_env := env\<rparr>)))))"

text \<open>Leaving the scope of the environment, with the value to keep on the stack.\<close>

definition leave_scope :: "nat \<Rightarrow> obj \<Rightarrow> unit exec" where
  "leave_scope pos kept =
     thenE (modV (\<lambda>v. v\<lparr>taskLimits := tl (taskLimits v)\<rparr>))
    (bindE (onH_env (\<lambda>env h. (env_Outer (envs h ! env), h))) (\<lambda>outer.
     case outer of
       None \<Rightarrow> fail pos ''cannot pop root scope''
     | Some o' \<Rightarrow> thenE (modV (\<lambda>v. v\<lparr>v_env := o'\<rparr>)) (push kept)))"

fun give_to_owner :: "nat list \<Rightarrow> nat list option list \<Rightarrow> nat list option list option" where
  \<comment> \<open>the innermost scope that owns tasks takes the handles; \<open>None\<close> if there is none\<close>
  "give_to_owner hs [] = None"
| "give_to_owner hs (Some own # ss) = Some (Some (own @ hs) # ss)"
| "give_to_owner hs (None # ss) = map_option ((#) None) (give_to_owner hs ss)"

text \<open>On \<open>recur\<close> the tasks of the scope are handed outwards, or kept for the next round.\<close>

definition carry_tasks :: "vm \<Rightarrow> vm" where
  "carry_tasks v =
     (case taskScopes v of
        [] \<Rightarrow> v
      | s # ss \<Rightarrow>
          (case s of
             None \<Rightarrow> v\<lparr>taskScopes := ss\<rparr>
           | Some [] \<Rightarrow> v\<lparr>taskScopes := ss\<rparr>
           | Some hs \<Rightarrow>
               (case give_to_owner hs ss of
                  Some ss' \<Rightarrow> v\<lparr>taskScopes := ss'\<rparr>
                | None \<Rightarrow> v\<lparr>taskScopes := ss, recurCarryHandles := recurCarryHandles v @ hs\<rparr>)))"

text \<open>
  \<open>executeTaskHandlesInCurrentScope\<close>. Waiting for a task gives its result; the first error
  becomes the result of the scope unless that is an error or an explicit return already.
  Cancelling a task that has ended does nothing.
\<close>

definition is_error :: "obj \<Rightarrow> bool" where
  "is_error x \<longleftrightarrow> obj_type x = ''ERROR''"

definition join_result :: "obj \<Rightarrow> obj \<Rightarrow> obj" where
  "join_result current res =
     (if is_error res \<and> \<not> is_error current \<and> obj_type current \<noteq> ''RETURN_VALUE'' then res else current)"

definition executeTaskHandlesInCurrentScope :: "obj \<Rightarrow> obj exec" where
  "executeTaskHandlesInCurrentScope current =
     bindE (getV taskScopes) (\<lambda>ss.
     case ss of
       [] \<Rightarrow> ret current
     | s # ss \<Rightarrow>
         thenE (modV (\<lambda>v. v\<lparr>taskScopes := ss\<rparr>))
        (bindE (getH task_results) (\<lambda>results.
         ret (foldl (\<lambda>cur t. join_result cur (results ! t)) current (case s of None \<Rightarrow> [] | Some hs \<Rightarrow> hs)))))"

end
