(* ===== verification/Executor.thy ===== *)
theory Executor
  imports Machine Compiler_Rec
begin

text \<open>
  Calls, deferred functions, tasks and the loop \<open>run\<close> of \<open>internal/vm/executor.go\<close>. The
  operations that run a chunk take the runner \<open>R\<close>; \<open>run\<close> ties the knot with a fuel, which
  counts instructions along the deepest path and the rounds of \<open>recur\<close> of a call.

  A spawned goroutine runs to its end before its parent goes on: one of the schedules that Go
  allows. \<open>OpSelect\<close> and \<open>OpApplyTags\<close> are not modelled and end a run as such.
\<close>

section \<open>Other executors\<close>

type_synonym runner = "Chunk \<Rightarrow> obj exec"

definition in_child :: "vm \<Rightarrow> obj exec \<Rightarrow> (obj \<times> vm) exec" where
  \<comment> \<open>run on another executor and the same store\<close>
  "in_child c m v h =
     (case m c h of
        Val a c h \<Rightarrow> Val (a, c) v h
      | Stop r c h \<Rightarrow> Val (r, c) v h
      | Panicked s \<Rightarrow> Panicked s
      | OutOfFuel \<Rightarrow> OutOfFuel
      | Unmodelled s \<Rightarrow> Unmodelled s)"

section \<open>Arguments\<close>

definition is_list :: "obj \<Rightarrow> bool" where
  "is_list x = (case x of ListO _ \<Rightarrow> True | _ \<Rightarrow> False)"

fun sort_arguments ::
  "(CallArgSpec \<times> obj) list \<Rightarrow> obj list \<Rightarrow> (string \<times> obj) list \<Rightarrow> string + obj list \<times> (string \<times> obj) list" where
  "sort_arguments [] positional named = Inr (positional, named)"
| "sort_arguments ((spec, x) # rest) positional named =
     (case ca_Kind spec of
        CallArgPositional \<Rightarrow> sort_arguments rest (positional @ [x]) named
      | CallArgSpread \<Rightarrow>
          (case x of
             ListO xs \<Rightarrow> sort_arguments rest (positional @ xs) named
           | _ \<Rightarrow> Inl (''spread operator can only be used on lists, got '' @ obj_type x))
      | CallArgNamed \<Rightarrow>
          if map_of named (ca_Name spec) \<noteq> None then Inl (''duplicate named argument: '' @ ca_Name spec)
          else sort_arguments rest positional (named @ [(ca_Name spec, x)]))"

definition popCallArguments ::
  "int \<Rightarrow> CallArgSpec list \<Rightarrow> nat \<Rightarrow> (obj list \<times> (string \<times> obj) list) exec" where
  "popCallArguments argCount plan pos =
     (if argCount < 0 then fail pos ''invalid call arity''
      else if int (length plan) \<noteq> argCount
      then fail pos (''invalid call metadata: expected '' @ show_int argCount @ '' args in plan, got '' @
                     show_int (int (length plan)))
      else
        bindE (pop_many (length plan) pos ''call arguments'') (\<lambda>args.
        liftM pos (sort_arguments (zip plan args) [] [])))"

text \<open>The slots that are left get the default, evaluated where the function was defined.\<close>

definition bind_default :: "config \<Rightarrow> runner \<Rightarrow> nat \<Rightarrow> nat \<Rightarrow> Chunk VMParam \<times> obj option \<Rightarrow> obj exec" where
  "bind_default C R pos defEnv pv =
     (let (p, slot) = pv
      in case slot of
           Some x \<Rightarrow> ret x
         | None \<Rightarrow>
             if vp_IsVariadic p then ret (ListO [])
             else (case vp_Default p of
                     None \<Rightarrow> fail pos (''missing required parameter: '' @ vp_Name p)
                   | Some ch \<Rightarrow>
                       bindE (onH (NewEnclosedEnvironment defEnv None)) (\<lambda>env.
                       bindE (in_child (NewExecutor env) (R ch)) (\<lambda>(x, _).
                       if is_error x
                       then (case x of ErrorO _ _ _ _ _ _ \<Rightarrow> stop x | _ \<Rightarrow> fail pos (cfg_Inspect C x))
                       else ret x))))"

definition vm_param_spec :: "Chunk VMParam \<Rightarrow> string \<times> bool" where
  "vm_param_spec p = (vp_Name p, vp_IsVariadic p)"

definition bindVMArgumentsInto ::
  "config \<Rightarrow> runner \<Rightarrow> VMFunction \<Rightarrow> nat \<Rightarrow> obj list \<Rightarrow> (string \<times> obj) list \<Rightarrow> nat \<Rightarrow> obj list exec" where
  "bindVMArgumentsInto C R fn closure positional named pos =
     bindE (liftM pos (bind_slots (map vm_param_spec (fn_Params fn)) positional named)) (\<lambda>slots.
     mapE (bind_default C R pos closure) (zip (fn_Params fn) slots))"

definition set_param :: "nat \<Rightarrow> string \<times> obj \<Rightarrow> heap \<Rightarrow> heap" where
  "set_param env nx h =
     (let (name, x) = nx
      in case env_Bindings (envs h ! env) name of
           Some b \<Rightarrow> set_binding b ((bindings h ! b)\<lparr>bn_Value := Some x, bn_IsMutable := True\<rparr>) h
         | None \<Rightarrow>
             (let (b, h) = alloc_binding
                    \<lparr>bn_Value = Some x, bn_Err = None, bn_Meta = no_meta, bn_IsMutable = True\<rparr> h
              in bind_name env name b h))"

definition setVMCallFrameParams :: "nat \<Rightarrow> VMFunction \<Rightarrow> obj list \<Rightarrow> unit exec" where
  "setVMCallFrameParams env fn xs =
     onH (\<lambda>h. ((), fold (set_param env) (zip (map vp_Name (fn_Params fn)) xs) h))"

section \<open>Calls\<close>

text \<open>
  The loop of \<open>invokeVMFunction\<close>: a \<open>recur\<close> signal binds new arguments to the parameters of
  the same environment and runs the body again.
\<close>

fun invoke_loop ::
  "config \<Rightarrow> runner \<Rightarrow> nat \<Rightarrow> VMFunction \<Rightarrow> nat \<Rightarrow> nat \<Rightarrow> nat \<Rightarrow> obj list \<Rightarrow> vm \<Rightarrow> obj exec" where
  "invoke_loop C R 0 fn closure callEnv pos bound callee_vm = (\<lambda>v h. OutOfFuel)"
| "invoke_loop C R (Suc k) fn closure callEnv pos bound callee_vm =
     bindE (in_child callee_vm (R (fn_Chunk fn))) (\<lambda>(result, callee_vm).
     thenE (modV (\<lambda>v. v\<lparr>taskScopes := taskScopes callee_vm, taskLimits := taskLimits callee_vm\<rparr>))
     (case result of
        RecurO _ positional named \<Rightarrow>
          bindE (bindVMArgumentsInto C R fn closure positional named pos) (\<lambda>bound.
          thenE (setVMCallFrameParams callEnv fn bound)
          (invoke_loop C R k fn closure callEnv pos bound callee_vm))
      | _ \<Rightarrow>
          if is_error result \<or> TrimSpace (fn_ReturnType fn) = [] then ret result
          else
            bindE (getH (\<lambda>h. return_error (schema_names h) fn bound result)) (\<lambda>msg.
            case msg of None \<Rightarrow> ret result | Some msg \<Rightarrow> errorAt pos msg)))"

definition invokeVMFunction ::
  "config \<Rightarrow> runner \<Rightarrow> nat \<Rightarrow> VMFunction \<times> nat option \<Rightarrow> obj list \<Rightarrow> (string \<times> obj) list \<Rightarrow> nat \<Rightarrow> obj exec" where
  "invokeVMFunction C R k fc positional named pos =
     (let (fn, clo) = fc
      in catchE
           (bindE (getV (\<lambda>v. case clo of Some c \<Rightarrow> c | None \<Rightarrow> v_env v)) (\<lambda>closure.
            bindE (bindVMArgumentsInto C R fn closure positional named pos) (\<lambda>bound.
            bindE (onH (NewEnclosedEnvironment closure None)) (\<lambda>callEnv.
            thenE (setVMCallFrameParams callEnv fn bound)
            (bindE (getV (\<lambda>v. (NewExecutor callEnv)
               \<lparr>taskScopes := taskScopes v, taskLimits := taskLimits v,
                borrowedTaskDepth := length (taskScopes v), borrowedLimitDepth := length (taskLimits v)\<rparr>)) (\<lambda>callee_vm.
             invoke_loop C R k fn closure callEnv pos bound callee_vm)))))))"

section \<open>Deferred functions\<close>

text \<open>The error a result is: whether it is one, its payload, and the \<open>RuntimeError\<close> if it is one.\<close>

definition error_state :: "obj \<Rightarrow> bool \<times> obj \<times> obj option" where
  "error_state x =
     (case x of
        RuntimeErrorO _ payload _ _ \<Rightarrow> (True, payload, Some x)
      | ErrorO _ _ _ _ _ _ \<Rightarrow> (True, x, None)
      | _ \<Rightarrow> (False, NilO, None))"

definition should_run :: "int \<Rightarrow> bool \<Rightarrow> bool" where
  \<comment> \<open>\<open>DeferAlways\<close> is 0, \<open>DeferOnSuccess\<close> 1 and \<open>DeferOnError\<close> 2\<close>
  "should_run mode isError =
     (if mode = 0 then True else if mode = 1 then \<not> isError else if mode = 2 then isError else False)"

definition bind_error_name :: "string \<Rightarrow> obj \<Rightarrow> obj option \<Rightarrow> unit exec" where
  "bind_error_name name payload rtErr =
     onH_env (\<lambda>env h.
       let (b, h) = alloc_binding
             \<lparr>bn_Value = Some payload, bn_Err = rtErr, bn_Meta = no_meta, bn_IsMutable = False\<rparr> h
       in ((), bind_name env name b h))"

definition after_defer :: "int \<Rightarrow> bool \<Rightarrow> obj option \<Rightarrow> obj \<Rightarrow> obj \<Rightarrow> obj" where
  "after_defer mode isError active current deferResult =
     (case deferResult of
        RuntimeErrorO r p st cause \<Rightarrow> RuntimeErrorO r p st (if active \<noteq> None then active else cause)
      | _ \<Rightarrow>
          if isError \<and> mode = 2
          then (case deferResult of ReturnValueO _ x \<Rightarrow> x | _ \<Rightarrow> deferResult)
          else current)"

fun executeDeferredEntries :: "config \<Rightarrow> runner \<Rightarrow> nat \<Rightarrow> vmDeferEntry list \<Rightarrow> obj \<Rightarrow> obj exec" where
  "executeDeferredEntries C R k [] current = ret current"
| "executeDeferredEntries C R k (d # ds) current =
     (let (isError, payload, active) = error_state current
      in if \<not> should_run (de_mode d) isError then executeDeferredEntries C R k ds current
         else
           thenE (if isError \<and> de_errorName d \<noteq> [] then bind_error_name (de_errorName d) payload active else ret ())
          (bindE (invokeVMFunction C R k (de_fn d) [] [] (de_pos d)) (\<lambda>deferResult.
           executeDeferredEntries C R k ds (after_defer (de_mode d) isError active current deferResult))))"

definition executeDeferredInCurrentScope :: "config \<Rightarrow> runner \<Rightarrow> nat \<Rightarrow> obj \<Rightarrow> obj exec" where
  "executeDeferredInCurrentScope C R k current =
     bindE (getV deferScopes) (\<lambda>ss.
     case ss of
       [] \<Rightarrow> ret current
     | s # ss \<Rightarrow>
         thenE (modV (\<lambda>v. v\<lparr>deferScopes := ss\<rparr>)) (executeDeferredEntries C R k s current))"

text \<open>\<open>unwindDeferredScopes\<close>, with a fuel for its loop.\<close>

fun unwind :: "config \<Rightarrow> runner \<Rightarrow> nat \<Rightarrow> nat \<Rightarrow> obj \<Rightarrow> obj exec" where
  "unwind C R k 0 current = (\<lambda>v h. OutOfFuel)"
| "unwind C R k (Suc m) current =
     bindE (getV id) (\<lambda>v.
     if deferScopes v = [] \<and> length (taskScopes v) \<le> borrowedTaskDepth v then ret current
     else
       bindE (if length (taskScopes v) > borrowedTaskDepth v
              then executeTaskHandlesInCurrentScope current else ret current) (\<lambda>current.
       bindE (executeDeferredInCurrentScope C R k current) (\<lambda>current.
       thenE (modV (\<lambda>v. if length (taskLimits v) > borrowedLimitDepth v
                         then v\<lparr>taskLimits := tl (taskLimits v)\<rparr> else v))
       (unwind C R k m current))))"

definition return_unwound :: "config \<Rightarrow> runner \<Rightarrow> nat \<Rightarrow> obj \<Rightarrow> 'a exec" where
  "return_unwound C R k x = bindE (unwind C R k k x) stop"

text \<open>The result of a call: an error unwinds the scopes, anything else is pushed.\<close>

definition push_or_return :: "config \<Rightarrow> runner \<Rightarrow> nat \<Rightarrow> obj \<Rightarrow> unit exec" where
  "push_or_return C R k result = (if is_error result then return_unwound C R k result else push result)"

definition external_call ::
  "config \<Rightarrow> runner \<Rightarrow> nat \<Rightarrow> nat \<Rightarrow> obj \<Rightarrow> obj list \<Rightarrow> (string \<times> obj) list \<Rightarrow> unit exec" where
  "external_call C R k pos callee positional named =
     (case cfg_Call C of
        None \<Rightarrow> fail pos (''attempted to call non-vm function value ('' @ obj_type callee @ '')'')
      | Some call \<Rightarrow>
          bindE (onH_env (\<lambda>env. call env pos callee positional named)) (\<lambda>result.
          if is_error result then return_unwound C R k result
          else
            bindE (getH (\<lambda>h. foreign_return_error (schema_names h) callee positional named result)) (\<lambda>msg.
            case msg of Some msg \<Rightarrow> bindE (errorAt pos msg) (return_unwound C R k) | None \<Rightarrow> push result)))"

definition evalCall :: "config \<Rightarrow> runner \<Rightarrow> nat \<Rightarrow> Instruction \<Rightarrow> unit exec" where
  "evalCall C R k i =
     bindE (popCallArguments (IntArg i) (CallPlan i) (Position i)) (\<lambda>(positional, named).
     bindE (pop (Position i) ''callee'') (\<lambda>callee.
     bindE (getH (\<lambda>h. case callee of
                        FunctionGroupO g \<Rightarrow> selectVMFunctionFromGroup h g positional named
                      | _ \<Rightarrow> Some callee)) (\<lambda>target.
     case target of
       Some (VMFunctionO _ fn clo) \<Rightarrow>
         bindE (invokeVMFunction C R k (fn, clo) positional named (Position i)) (push_or_return C R k)
     | _ \<Rightarrow> external_call C R k (Position i) callee positional named)))"

definition Recur :: "Instruction \<Rightarrow> unit exec" where
  "Recur i =
     bindE (popCallArguments (IntArg i) (CallPlan i) (Position i)) (\<lambda>(positional, named).
     bindE fresh (\<lambda>r. push (RecurO r positional named)))"

definition Throw :: "config \<Rightarrow> runner \<Rightarrow> nat \<Rightarrow> Instruction \<Rightarrow> 'a exec" where
  "Throw C R k i =
     bindE (pop (Position i) ''throw'') (\<lambda>x.
     bindE (onH_env (\<lambda>env h. (envs h ! env, h))) (\<lambda>e.
     let frame =
       (case env_StackInfo e of
          None \<Rightarrow> StackFrame [] (env_Path e) (env_Src e) (Position i)
        | Some info \<Rightarrow>
            StackFrame (frame_Function info)
              (if env_Path e = [] then frame_File info else env_Path e)
              (if env_Src e = [] then frame_Src info else env_Src e) (Position i))
     in bindE fresh (\<lambda>r. return_unwound C R k (RuntimeErrorO r x [frame] None))))"

definition Return :: "config \<Rightarrow> runner \<Rightarrow> nat \<Rightarrow> 'a exec" where
  "Return C R k =
     bindE pop_option (\<lambda>x. case x of
       Some x \<Rightarrow> return_unwound C R k x
     | None \<Rightarrow> bindE (getV v_last) (return_unwound C R k))"

section \<open>Scopes\<close>

definition is_recur :: "obj \<Rightarrow> bool" where
  "is_recur x = (case x of RecurO _ _ _ \<Rightarrow> True | _ \<Rightarrow> False)"

definition pop_or_nil :: "obj exec" where
  "pop_or_nil = bindE pop_option (\<lambda>x. ret (or_nil x))"

text \<open>
  A \<open>recur\<close> signal leaves the scope of a function body without running its deferred
  functions, and another scope after running them.
\<close>

definition PopScope :: "config \<Rightarrow> runner \<Rightarrow> nat \<Rightarrow> Instruction \<Rightarrow> unit exec" where
  "PopScope C R k i =
     bindE pop_or_nil (\<lambda>x.
     if is_recur x then
       bindE (if StrArg i = ''fnroot''
              then thenE (modV (\<lambda>v. v\<lparr>deferScopes := tl (deferScopes v)\<rparr>)) (ret x)
              else executeDeferredInCurrentScope C R k x) (\<lambda>x.
       if \<not> is_recur x then push x
       else thenE (modV carry_tasks) (leave_scope (Position i) x))
     else
       bindE (executeTaskHandlesInCurrentScope x) (\<lambda>x.
       bindE (executeDeferredInCurrentScope C R k x) (\<lambda>x.
       leave_scope (Position i) x)))"

section \<open>Tasks\<close>

definition Spawn :: "config \<Rightarrow> runner \<Rightarrow> nat \<Rightarrow> Instruction \<Rightarrow> unit exec" where
  "Spawn C R k i =
     bindE (pop (Position i) ''spawn'') (\<lambda>x.
     case x of
       VMFunctionO _ fn clo \<Rightarrow>
         bindE (getV (\<lambda>v. case clo of Some c \<Rightarrow> c | None \<Rightarrow> v_env v)) (\<lambda>closure.
         bindE (onH (ShallowCopy closure)) (\<lambda>env.
         bindE (in_child (NewExecutor env) (R (fn_Chunk fn))) (\<lambda>(result, callee_vm).
         bindE (case result of
                  VMFunctionO _ fn' clo' \<Rightarrow>
                    if fn_Params fn' = []
                    then in_child callee_vm (invokeVMFunction C R k (fn', clo') [] [] (Position i))
                    else ret (result, callee_vm)
                | _ \<Rightarrow> ret (result, callee_vm)) (\<lambda>(result, _).
         bindE (onH (\<lambda>h. (length (task_results h), h\<lparr>task_results := task_results h @ [result]\<rparr>))) (\<lambda>t.
         thenE (modV (\<lambda>v. case give_to_owner [t] (taskScopes v) of
                              None \<Rightarrow> v
                            | Some ss \<Rightarrow> v\<lparr>taskScopes := ss\<rparr>))
         (push (TaskHandleO t)))))))
     | _ \<Rightarrow> fail (Position i) (''spawn expects a VM function body, got '' @ obj_type x))"

definition Await :: "Instruction \<Rightarrow> unit exec" where
  "Await i =
     bindE (pop (Position i) ''await'') (\<lambda>x.
     case x of
       TaskHandleO t \<Rightarrow>
         bindE (getH (\<lambda>h. task_results h ! t)) (\<lambda>result. if is_error result then stop result else push result)
     | _ \<Rightarrow> fail (Position i) (''await expects a task handle, got '' @ obj_type x))"

section \<open>Structs\<close>

function root_env :: "heap \<Rightarrow> nat \<Rightarrow> nat" where
  \<comment> \<open>the outermost environment\<close>
  "root_env h i =
     (case env_Outer (envs h ! i) of None \<Rightarrow> i | Some outer \<Rightarrow> if outer < i then root_env h outer else i)"
  by pat_completeness auto
termination by (relation "measure (\<lambda>(h, i). i)") auto

declare root_env.simps [simp del]

text \<open>\<open>EvalProgram\<close> of a program on a new executor, whose state is reset anyway.\<close>

definition EvalProgram :: "runner \<Rightarrow> nat \<Rightarrow> stmt list \<Rightarrow> obj exec" where
  "EvalProgram R env program =
     (case Compile program of
        Inl e \<Rightarrow> bindE fresh (\<lambda>r. ret (ErrorO r e [] [] [] 0))
      | Inr ch \<Rightarrow> bindE (in_child (NewExecutor env) (R ch)) (\<lambda>(x, _). ret x))"

definition evalExpressionOnly :: "runner \<Rightarrow> nat \<Rightarrow> expr \<Rightarrow> nat \<Rightarrow> obj exec" where
  "evalExpressionOnly R env e pos = EvalProgram R env [ReturnStatement (Token [] [] pos) e]"

definition evalStructDefault :: "runner \<Rightarrow> StructSchema \<Rightarrow> expr \<Rightarrow> nat \<Rightarrow> obj exec" where
  "evalStructDefault R schema e pos =
     bindE (getV (\<lambda>v. case schema_Env schema of Some env \<Rightarrow> env | None \<Rightarrow> v_env v)) (\<lambda>defEnv.
     bindE (getH (\<lambda>h. root_env h defEnv)) (\<lambda>root.
     bindE (onH (NewEnclosedEnvironment root None)) (\<lambda>env.
     evalExpressionOnly R env e pos)))"

fun init_fields ::
  "runner \<Rightarrow> StructSchema \<Rightarrow> nat \<Rightarrow> StructSchemaField list \<Rightarrow> (string \<times> obj) list \<Rightarrow> (string \<times> obj) list exec" where
  "init_fields R schema pos [] vals = ret vals"
| "init_fields R schema pos (f # fs) vals =
     (if map_of vals (ssf_Name f) \<noteq> None then init_fields R schema pos fs vals
      else if has_default (ssf_Default f)
      then bindE (evalStructDefault R schema (ssf_Default f) pos) (\<lambda>x.
           if is_error x then stop x else init_fields R schema pos fs (AList.update (ssf_Name f) x vals))
      else init_fields R schema pos fs (AList.update (ssf_Name f) NilO vals))"

definition StructInit :: "runner \<Rightarrow> Instruction \<Rightarrow> unit exec" where
  "StructInit R i =
     bindE (pop (Position i) ''struct initializer fields'') (\<lambda>fieldsObj.
     bindE (pop (Position i) ''struct initializer schema'') (\<lambda>schemaObj.
     case schemaObj of
       StructSchemaO s \<Rightarrow>
         (case fieldsObj of
            MapO _ st \<Rightarrow>
              bindE (getH (\<lambda>h. schemas h ! s)) (\<lambda>schema.
              bindE (liftM (Position i) (structValuesFromMap schema st)) (\<lambda>vals.
              bindE (init_fields R schema (Position i) (schema_Fields schema) vals) (\<lambda>vals.
              bindE (checked_struct (Position i) s vals) push)))
          | _ \<Rightarrow> fail (Position i) (''struct initializer expects map fields, got '' @ obj_type fieldsObj))
     | _ \<Rightarrow> fail (Position i) (''expected struct schema, got '' @ obj_type schemaObj)))"

section \<open>Select\<close>

record vmSelectEvalCase =
  ev_kind :: SelectCaseType
  ev_tokenPos :: nat
  ev_channel :: "nat option"
  ev_sendValue :: "obj option"
  ev_afterVal :: "obj option"
  ev_awaitTask :: "nat option"
  ev_handlerFn :: "(VMFunction \<times> nat option) option"

definition selectThunkByIndex :: "Chunk \<Rightarrow> int \<Rightarrow> nat \<Rightarrow> (VMFunction \<times> nat option) exec" where
  "selectThunkByIndex ch idx pos =
     (if idx < 0 \<or> idx \<ge> int (length (Constants ch)) then fail pos ''invalid select thunk index''
      else
        bindE (bindClosureIfNeeded (Constants ch ! nat idx)) (\<lambda>x.
        case x of
          VMFunctionO _ fn clo \<Rightarrow> ret (fn, clo)
        | _ \<Rightarrow> fail pos (''select thunk must be a VM function, got '' @ obj_type x)))"

definition stop_at_error :: "obj \<Rightarrow> obj exec" where
  \<comment> \<open>the type assertion names \<open>Error\<close>, not \<open>RuntimeError\<close>\<close>
  "stop_at_error x = (case x of ErrorO _ _ _ _ _ _ \<Rightarrow> stop x | _ \<Rightarrow> ret x)"

definition select_operand :: "config \<Rightarrow> runner \<Rightarrow> nat \<Rightarrow> Chunk \<Rightarrow> int \<Rightarrow> nat \<Rightarrow> obj exec" where
  "select_operand C R k ch idx pos =
     bindE (selectThunkByIndex ch idx pos) (\<lambda>f. bindE (invokeVMFunction C R k f [] [] pos) stop_at_error)"

definition select_channel :: "string \<Rightarrow> nat \<Rightarrow> obj \<Rightarrow> nat exec" where
  "select_channel what pos x =
     (case x of ChannelO c \<Rightarrow> ret c | _ \<Rightarrow> fail pos (what @ '' expects a channel, got '' @ obj_type x))"

text \<open>
  One case: what \<open>reflect.Select\<close> shall wait for, and the entry of \<open>evals\<close>. An \<open>after\<close> of no
  time has an entry, but nothing to wait for.
\<close>

definition select_case ::
  "config \<Rightarrow> runner \<Rightarrow> nat \<Rightarrow> Chunk \<Rightarrow> SelectCaseSpec \<Rightarrow> vmSelectEvalCase \<Rightarrow> (ReflectCase list \<times> vmSelectEvalCase) exec" where
  "select_case C R k ch spec ev =
     (let pos = ss_TokenPos spec
      in case ss_Kind spec of
           SelectRecv \<Rightarrow>
             bindE (select_operand C R k ch (ss_ChannelFn spec) pos) (\<lambda>x.
             bindE (select_channel ''recv'' pos x) (\<lambda>c.
             ret ([RecvOn c], ev\<lparr>ev_channel := Some c\<rparr>)))
         | SelectSend \<Rightarrow>
             bindE (select_operand C R k ch (ss_ChannelFn spec) pos) (\<lambda>x.
             bindE (select_channel ''send'' pos x) (\<lambda>c.
             bindE (select_operand C R k ch (ss_ValueFn spec) pos) (\<lambda>val.
             if val = NilO then fail pos ''send expects a non-nil payload''
             else
               bindE (getH (\<lambda>h. IsClosed (channels h ! c))) (\<lambda>closed.
               ret ([if closed then RecvReady else SendOn c val],
                    ev\<lparr>ev_channel := Some c, ev_sendValue := Some val\<rparr>)))))
         | SelectAfter \<Rightarrow>
             bindE (select_operand C R k ch (ss_AfterFn spec) pos) (\<lambda>x.
             case x of
               NumberO n \<Rightarrow>
                 let ms = ToInt64 n
                 in if ms < 0 then fail pos ''after expects a non-negative duration''
                    else ret (if ms > 0 then [RecvTimer (wrap64 (ms * 1000000))] else [], ev\<lparr>ev_afterVal := Some x\<rparr>)
             | _ \<Rightarrow> fail pos ''after expects a number (ms)'')
         | SelectAwait \<Rightarrow>
             bindE (select_operand C R k ch (ss_AwaitFn spec) pos) (\<lambda>x.
             case x of
               TaskHandleO t \<Rightarrow> ret ([RecvDone t], ev\<lparr>ev_awaitTask := Some t\<rparr>)
             | _ \<Rightarrow> fail pos (''await expects a task handle, got '' @ obj_type x))
         | SelectDefault \<Rightarrow> ret ([DefaultCase], ev))"

definition select_handler :: "Chunk \<Rightarrow> SelectCaseSpec \<Rightarrow> (VMFunction \<times> nat option) option exec" where
  "select_handler ch spec =
     (if ss_HandlerFn spec \<ge> 0
      then bindE (selectThunkByIndex ch (ss_HandlerFn spec) (ss_TokenPos spec)) (\<lambda>f. ret (Some f))
      else ret None)"

definition new_eval :: "SelectCaseSpec \<Rightarrow> (VMFunction \<times> nat option) option \<Rightarrow> vmSelectEvalCase" where
  "new_eval spec handler =
     \<lparr>ev_kind = ss_Kind spec, ev_tokenPos = ss_TokenPos spec, ev_channel = None, ev_sendValue = None,
      ev_afterVal = None, ev_awaitTask = None, ev_handlerFn = handler\<rparr>"

text \<open>The loop over the cases; the flag is \<open>defaultSeen\<close>.\<close>

fun select_cases ::
  "config \<Rightarrow> runner \<Rightarrow> nat \<Rightarrow> Chunk \<Rightarrow> bool \<Rightarrow> SelectCaseSpec list \<Rightarrow>
   (ReflectCase list \<times> vmSelectEvalCase list) exec" where
  "select_cases C R k ch seen [] = ret ([], [])"
| "select_cases C R k ch seen (spec # specs) =
     bindE (select_handler ch spec) (\<lambda>handler.
     if ss_Kind spec = SelectDefault \<and> seen
     then fail (ss_TokenPos spec) ''select cannot have multiple default cases''
     else
       bindE (select_case C R k ch spec (new_eval spec handler)) (\<lambda>(cs, ev).
       bindE (select_cases C R k ch (seen \<or> ss_Kind spec = SelectDefault) specs) (\<lambda>(cases, evals).
       ret (cs @ cases, ev # evals))))"

text \<open>
  \<open>reflect.Select\<close> gives the index of the case and, where an element was received, that. It
  waits, for ever in this machine, if there is no case that it may take.
\<close>

definition set_channel :: "nat \<Rightarrow> Channel \<Rightarrow> heap \<Rightarrow> heap" where
  "set_channel c ch h = h\<lparr>channels := (channels h)[c := ch]\<rparr>"

definition reflect_Select :: "config \<Rightarrow> ReflectCase list \<Rightarrow> (nat \<times> obj option) exec" where
  "reflect_Select C cases v h =
     (case cfg_Select C cases h of
        None \<Rightarrow> OutOfFuel
      | Some i \<Rightarrow>
          if \<not> may_take (channels h) cases i then OutOfFuel
          else case cases ! i of
              RecvOn c \<Rightarrow>
                (case chan_receive (channels h ! c) of (x, ch) \<Rightarrow> Val (i, x) v (set_channel c ch h))
            | SendOn c x \<Rightarrow>
                (case chan_send x (channels h ! c) of
                   None \<Rightarrow> Panicked ''send on closed channel''
                 | Some ch \<Rightarrow> Val (i, None) v (set_channel c ch h))
            | _ \<Rightarrow> Val (i, None) v h)"

definition selected_value :: "vmSelectEvalCase \<Rightarrow> obj option \<Rightarrow> obj exec" where
  "selected_value ev recv =
     (case ev_kind ev of
        SelectRecv \<Rightarrow> ret (or_nil recv)
      | SelectSend \<Rightarrow>
          bindE (getH (\<lambda>h. case ev_channel ev of Some c \<Rightarrow> IsClosed (channels h ! c) | None \<Rightarrow> False)) (\<lambda>closed.
          if closed then fail (ev_tokenPos ev) ''send on closed channel'' else ret (or_nil (ev_sendValue ev)))
      | SelectAfter \<Rightarrow> ret (or_nil (ev_afterVal ev))
      | SelectAwait \<Rightarrow>
          getH (\<lambda>h. case ev_awaitTask ev of Some t \<Rightarrow> task_results h ! t | None \<Rightarrow> NilO)
      | SelectDefault \<Rightarrow> ret NilO)"

definition evalSelect :: "config \<Rightarrow> runner \<Rightarrow> nat \<Rightarrow> Chunk \<Rightarrow> Instruction \<Rightarrow> unit exec" where
  "evalSelect C R k ch i =
     (if Select i = [] then fail (Position i) ''select requires at least one case''
      else
        bindE (select_cases C R k ch False (Select i)) (\<lambda>(cases, evals).
        bindE (reflect_Select C cases) (\<lambda>(chosen, recv).
        let selected = evals ! chosen
        in bindE (selected_value selected recv) (\<lambda>val.
           case ev_handlerFn selected of
             None \<Rightarrow> push val
           | Some f \<Rightarrow>
               bindE (invokeVMFunction C R k f [val] [] (ev_tokenPos selected)) (\<lambda>res.
               bindE (stop_at_error res) push)))))"

section \<open>The loop\<close>

text \<open>The operand of \<open>OpConstant\<close>; Go panics if the index is out of range.\<close>

definition LoadConstant :: "Chunk \<Rightarrow> Instruction \<Rightarrow> unit exec" where
  "LoadConstant ch i =
     (if 0 \<le> IntArg i \<and> IntArg i < int (length (Constants ch))
      then bindE (bindClosureIfNeeded (Constants ch ! nat (IntArg i))) push
      else panic ''index out of range'')"

definition Dup :: "Instruction \<Rightarrow> unit exec" where
  "Dup i = bindE (pop (Position i) ''dup'') (\<lambda>x. thenE (push x) (push x))"

definition Pop :: "Instruction \<Rightarrow> unit exec" where
  "Pop i = bindE (pop (Position i) ''pop'') (\<lambda>x. modV (\<lambda>v. v\<lparr>v_last := x\<rparr>))"

definition perform_op :: "config \<Rightarrow> runner \<Rightarrow> nat \<Rightarrow> Chunk \<Rightarrow> Instruction \<Rightarrow> unit exec" where
  \<comment> \<open>the instructions after which the next one follows\<close>
  "perform_op C R k ch i =
     (case Op i of
        OpConstant \<Rightarrow> LoadConstant ch i
      | OpNil \<Rightarrow> push NilO
      | OpTrue \<Rightarrow> push (BooleanO True)
      | OpFalse \<Rightarrow> push (BooleanO False)
      | OpGetGlobal \<Rightarrow> GetGlobal i
      | OpSetGlobalConst \<Rightarrow> SetGlobalConst C i
      | OpSetGlobalVar \<Rightarrow> SetGlobalVar C i
      | OpSetDoc \<Rightarrow> SetDoc i
      | OpBindMapAllConst \<Rightarrow> BindMapAll False i
      | OpBindMapAllVar \<Rightarrow> BindMapAll True i
      | OpAssignGlobal \<Rightarrow> AssignGlobal i
      | OpArray \<Rightarrow> BuildArray i
      | OpHash \<Rightarrow> BuildHash C i
      | OpStructSchema \<Rightarrow> BindSchema i
      | OpStructInit \<Rightarrow> StructInit R i
      | OpStructCopy \<Rightarrow> StructCopy i
      | OpSlice \<Rightarrow> BuildSlice i
      | OpIndex \<Rightarrow> Index C i
      | OpIndexDot \<Rightarrow> Index C i
      | OpMapHasKey \<Rightarrow> MapHasKey C i
      | OpDup \<Rightarrow> Dup i
      | OpSpawn \<Rightarrow> Spawn C R k i
      | OpAwait \<Rightarrow> Await i
      | OpListPrepend \<Rightarrow> ListExtend i
      | OpListAppend \<Rightarrow> ListExtend i
      | OpMatchListEmpty \<Rightarrow> MatchListEmpty i
      | OpMatchListHeadTail \<Rightarrow> MatchListHeadTail i
      | OpMatchSeqLenEq \<Rightarrow> MatchSeqLen i
      | OpMatchSeqLenGte \<Rightarrow> MatchSeqLen i
      | OpMatchSeqTail \<Rightarrow> MatchSeqTail i
      | OpMatchMapLenEq \<Rightarrow> MatchMapLen i
      | OpMatchMapLenGte \<Rightarrow> MatchMapLen i
      | OpMatchMapBindRemainder \<Rightarrow> MatchMapBindRemainder i
      | OpMatchStructSchema \<Rightarrow> MatchStructSchema i
      | OpDefer \<Rightarrow> RegisterDefer i
      | OpPushScope \<Rightarrow> PushScope i
      | OpPopScope \<Rightarrow> PopScope C R k i
      | OpBang \<Rightarrow> Unary i
      | OpNegate \<Rightarrow> Unary i
      | OpBitNot \<Rightarrow> Unary i
      | OpPop \<Rightarrow> Pop i
      | OpCall \<Rightarrow> evalCall C R k i
      | OpRecur \<Rightarrow> Recur i
      | OpThrow \<Rightarrow> Throw C R k i
      | OpReturn \<Rightarrow> Return C R k
      | OpApplyTags \<Rightarrow> (\<lambda>v h. Unmodelled ''OpApplyTags'')
      | OpSelect \<Rightarrow> evalSelect C R k ch i
      | _ \<Rightarrow> Binary C i)"

definition step :: "config \<Rightarrow> runner \<Rightarrow> nat \<Rightarrow> Chunk \<Rightarrow> int \<Rightarrow> Instruction \<Rightarrow> int exec" where
  \<comment> \<open>one instruction, and the index of the next\<close>
  "step C R k ch ip i =
     (case Op i of
        OpJump \<Rightarrow> ret (IntArg i)
      | OpJumpIfFalse \<Rightarrow>
          bindE (pop (Position i) ''conditional jump'') (\<lambda>x. ret (if isTruthy x then ip + 1 else IntArg i))
      | _ \<Rightarrow> thenE (perform_op C R k ch i) (ret (ip + 1)))"

fun run :: "config \<Rightarrow> nat \<Rightarrow> Chunk \<Rightarrow> int \<Rightarrow> obj exec" where
  "run C 0 ch ip = (\<lambda>v h. OutOfFuel)"
| "run C (Suc k) ch ip =
     (if ip \<ge> int (length (Instructions ch))
      then bindE pop_option (\<lambda>x. case x of Some x \<Rightarrow> ret x | None \<Rightarrow> getV v_last)
      else if ip < 0 then panic ''index out of range''
      else
        bindE (step C (\<lambda>ch. thenE (modV (\<lambda>v. v\<lparr>v_last := NilO\<rparr>)) (run C k ch 0)) k ch ip
                 (Instructions ch ! nat ip))
          (\<lambda>ip. run C k ch ip))"

declare run.simps(2) [simp del]

definition run_chunk :: "config \<Rightarrow> nat \<Rightarrow> Chunk \<Rightarrow> obj exec" where
  \<comment> \<open>\<open>run\<close> from the first instruction\<close>
  "run_chunk C k ch = thenE (modV (\<lambda>v. v\<lparr>v_last := NilO\<rparr>)) (run C k ch 0)"

end
