(* ===== verification/Semantics.thy ===== *)
theory Semantics
  imports Executor
begin

text \<open>
  A reference evaluator: what an expression means, by recursion on the syntax tree and without
  a value stack or jumps. It covers literals, names, operators, assignment, lists, maps,
  indexing and slices, \<open>val\<close> and \<open>var\<close> of a name, \<open>if\<close> and blocks; the rest is marked as not
  covered. It acts on the state of an executor like the machine, but reads and writes only the
  scopes, the store and \<open>last\<close>.
\<close>

definition uncovered :: "'a exec" where
  "uncovered v h = Unmodelled ''not covered by the reference evaluator''"

lemma size_singleElement: "singleElementListLiteral e = Some x \<Longrightarrow> size x < size e"
  by (auto simp: singleElementListLiteral_def split: expr.splits list.splits)

lemma size_bs: "size_list size (bs_Statements b) < size_BlockStatement size size b"
  by (cases b) simp

section \<open>Scopes\<close>

definition enter_scope :: "int \<Rightarrow> unit exec" where
  "enter_scope limit = PushScope (ins_int OpPushScope limit 0)"

text \<open>The end of a block in which no function was deferred, with the value of the block.\<close>

definition exit_scope :: "nat \<Rightarrow> obj \<Rightarrow> obj exec" where
  "exit_scope pos x =
     bindE (getV deferScopes) (\<lambda>ds.
     if is_recur x \<or> ds = [] \<or> hd ds \<noteq> [] then uncovered
     else
       bindE (executeTaskHandlesInCurrentScope x) (\<lambda>x.
       thenE (modV (\<lambda>v. v\<lparr>deferScopes := tl (deferScopes v), taskLimits := tl (taskLimits v)\<rparr>))
      (bindE (onH_env (\<lambda>env h. (env_Outer (envs h ! env), h))) (\<lambda>outer.
       case outer of
         None \<Rightarrow> fail pos ''cannot pop root scope''
       | Some o' \<Rightarrow> thenE (modV (\<lambda>v. v\<lparr>v_env := o'\<rparr>)) (ret x)))))"

definition discard :: "obj \<Rightarrow> unit exec" where
  "discard x = modV (\<lambda>v. v\<lparr>v_last := x\<rparr>)"

section \<open>Expressions\<close>

definition declare_name :: "config \<Rightarrow> bool \<Rightarrow> nat \<Rightarrow> expr Tag list \<Rightarrow> pattern \<Rightarrow> obj \<Rightarrow> bool \<Rightarrow> obj exec" where
  "declare_name C isConst pos tags p x hasDoc =
     (case p of
        IdentifierPattern _ i \<Rightarrow>
          if tags = [] \<and> \<not> hasDoc
          then (if isConst then define_const else define_var) C pos (id_Value i) x
          else uncovered
      | _ \<Rightarrow> uncovered)"

definition operate :: "config \<Rightarrow> nat \<Rightarrow> string \<Rightarrow> obj \<Rightarrow> obj \<Rightarrow> obj exec" where
  "operate C pos op a b =
     (case infixOpcode op of
        None \<Rightarrow> uncovered
      | Some opc \<Rightarrow>
          if opc = OpListPrepend \<or> opc = OpListAppend then liftF pos (list_extend opc a b)
          else liftF pos (evalBinary (cfg_Inspect C) opc a b))"

function sem :: "config \<Rightarrow> expr \<Rightarrow> obj exec"
  and sem_list :: "config \<Rightarrow> expr list \<Rightarrow> obj list exec"
  and sem_pairs :: "config \<Rightarrow> (expr \<times> expr) list \<Rightarrow> (obj \<times> obj) list exec"
  and sem_maybe :: "config \<Rightarrow> expr \<Rightarrow> obj exec"
  and sem_block :: "config \<Rightarrow> (stmt, expr) BlockStatement option \<Rightarrow> obj exec"
  and sem_stmts :: "config \<Rightarrow> stmt list \<Rightarrow> obj exec"
where
  "sem C e =
     (case e of
        NumberLiteral _ n \<Rightarrow> ret (NumberO n)
      | StringLiteral _ s \<Rightarrow> ret (StringO s)
      | BytesLiteral _ s \<Rightarrow> ret (BytesO s)
      | SymbolLiteral _ s \<Rightarrow> ret (SymbolO s)
      | Boolean _ b \<Rightarrow> ret (BooleanO b)
      | NilLiteral _ \<Rightarrow> ret NilO
      | IdentifierExpr i \<Rightarrow> read_name (tok_Position (id_Token i)) (id_Value i)
      | ValExpression tags t p _ e1 _ hasDoc \<Rightarrow>
          bindE (sem C e1) (\<lambda>x. declare_name C True (tok_Position t) tags p x hasDoc)
      | VarExpression tags t p _ e1 _ hasDoc \<Rightarrow>
          bindE (sem C e1) (\<lambda>x. declare_name C False (tok_Position t) tags p x hasDoc)
      | PrefixExpression t op e1 \<Rightarrow>
          bindE (sem C e1) (\<lambda>x. case prefixOpcode op of
                                    Some opc \<Rightarrow> liftF (tok_Position t) (evalPrefix opc x)
                                  | None \<Rightarrow> uncovered)
      | InfixExpression t l op r \<Rightarrow>
          if op = ''='' then
            (case l of
               IdentifierExpr i \<Rightarrow> bindE (sem C r) (assign_name (tok_Position t) (id_Value i))
             | _ \<Rightarrow> uncovered)
          else if op = ''&&'' then
            bindE (sem C l) (\<lambda>x. if isTruthy x then sem C r else ret (BooleanO False))
          else if op = ''||'' then
            bindE (sem C l) (\<lambda>x. if isTruthy x then ret (BooleanO True) else sem C r)
          else
            (case (if op = ''+'' then singleElementListLiteral r else None) of
               Some e1 \<Rightarrow>
                 bindE (sem C l) (\<lambda>a. bindE (sem C e1) (\<lambda>b. liftF (tok_Position t) (listAppend a b)))
             | None \<Rightarrow>
                 (case (if op = ''+'' then singleElementListLiteral l else None) of
                    Some e1 \<Rightarrow>
                      bindE (sem C e1) (\<lambda>a. bindE (sem C r) (\<lambda>b. liftF (tok_Position t) (listPrepend a b)))
                  | None \<Rightarrow>
                      bindE (sem C l) (\<lambda>a. bindE (sem C r) (\<lambda>b. operate C (tok_Position t) op a b))))
      | BlockExpr b \<Rightarrow> sem_block C (Some b)
      | IfExpression t c a b \<Rightarrow>
          bindE (sem C c) (\<lambda>x. if isTruthy x then sem_block C a else if b = None then ret NilO else sem_block C b)
      | ListLiteral _ es \<Rightarrow> bindE (sem_list C es) (\<lambda>xs. ret (ListO xs))
      | MapLiteral t ps \<Rightarrow>
          bindE (sem_pairs C ps) (\<lambda>kvs.
          bindE (mapE (map_entry C (tok_Position t)) (rev kvs)) (\<lambda>entries. ret (MapO [] (storage_of entries))))
      | IndexExpression t e1 e2 isDot \<Rightarrow>
          bindE (sem C e1) (\<lambda>x. bindE (sem C e2) (index_value C (tok_Position t) isDot x))
      | SliceExpression _ e1 e2 e3 \<Rightarrow>
          bindE (sem_maybe C e1) (\<lambda>a. bindE (sem_maybe C e2) (\<lambda>b. bindE (sem_maybe C e3) (make_slice a b)))
      | TypeApplicationExpression _ e1 _ \<Rightarrow> sem C e1
      | _ \<Rightarrow> uncovered)"
| "sem_list C [] = ret []"
| "sem_list C (e # es) = bindE (sem C e) (\<lambda>x. bindE (sem_list C es) (\<lambda>xs. ret (x # xs)))"
| "sem_pairs C [] = ret []"
| "sem_pairs C ((k, e) # ps) =
     bindE (sem C k) (\<lambda>x. bindE (sem C e) (\<lambda>y. bindE (sem_pairs C ps) (\<lambda>kvs. ret ((x, y) # kvs))))"
| "sem_maybe C e = (if no_expr e then ret NilO else sem C e)"
| "sem_block C None = ret NilO"
| "sem_block C (Some b) =
     (case scopeLimit b of
        Inl _ \<Rightarrow> uncovered
      | Inr limit \<Rightarrow>
          thenE (enter_scope limit)
            (bindE (if bs_Statements b = [] then ret NilO else sem_stmts C (bs_Statements b))
              (exit_scope (tok_Position (bs_Token b)))))"
| "sem_stmts C [] = uncovered"
| "sem_stmts C (s # ss) =
     (case s of
        ExpressionStatement _ e \<Rightarrow>
          bindE (sem C e) (\<lambda>x. if ss = [] then ret x else thenE (discard x) (sem_stmts C ss))
      | _ \<Rightarrow> uncovered)"
  by pat_completeness auto
termination
  by (relation "measure (\<lambda>x. case x of
        Inl (Inl (C, e)) \<Rightarrow> 3 * size e
      | Inl (Inr (Inl (C, es))) \<Rightarrow> 3 * size_list size es
      | Inl (Inr (Inr (C, ps))) \<Rightarrow> 3 * size_list (size_prod size size) ps
      | Inr (Inl (C, e)) \<Rightarrow> 3 * size e + 1
      | Inr (Inr (Inl (C, b))) \<Rightarrow> (case b of None \<Rightarrow> 0 | Some b \<Rightarrow> 3 * size_BlockStatement size size b)
      | Inr (Inr (Inr (C, ss))) \<Rightarrow> 3 * size_list size ss)")
    (auto simp: size_bs dest: size_singleElement split: if_splits option.split)

declare sem.simps [simp del] sem_maybe.simps [simp del]

text \<open>A program: the values of its expressions are discarded, and the last is the result.\<close>

fun sem_program :: "config \<Rightarrow> stmt list \<Rightarrow> obj exec" where
  "sem_program C [] = getV v_last"
| "sem_program C (s # ss) =
     (case s of
        ExpressionStatement _ e \<Rightarrow> bindE (sem C e) (\<lambda>x. thenE (discard x) (sem_program C ss))
      | _ \<Rightarrow> uncovered)"

end
