(* ===== verification/Simulation.thy ===== *)
theory Simulation
  imports Semantics Compiler_Laws
begin

text \<open>
  The frame of the compiler's correctness proof: computations that leave the value stack
  alone, what it means that a piece of code behaves as such a computation and pushes its
  result, and the rules by which code is put together.
\<close>

section \<open>Monad laws\<close>

lemma bindE_ret [simp]: "bindE (ret a) f = f a" "bindE m ret = m"
  by (auto simp: bindE_def ret_def fun_eq_iff split: outcome.split)

lemma bindE_assoc [simp]: "bindE (bindE m f) g = bindE m (\<lambda>x. bindE (f x) g)"
  by (auto simp: bindE_def fun_eq_iff split: outcome.split)

lemma bindE_simps [simp]:
  "m v h = Val a v' h' \<Longrightarrow> bindE m f v h = f a v' h'"
  "m v h = Stop r v' h' \<Longrightarrow> bindE m f v h = Stop r v' h'"
  "m v h = Panicked s \<Longrightarrow> bindE m f v h = Panicked s"
  "m v h = OutOfFuel \<Longrightarrow> bindE m f v h = OutOfFuel"
  "m v h = Unmodelled s \<Longrightarrow> bindE m f v h = Unmodelled s"
  by (simp_all add: bindE_def)

lemma if_bindE: "bindE (if b then m else n) f = (if b then bindE m f else bindE n f)" by simp

section \<open>Computations without the value stack\<close>

fun with_stack :: "obj list \<Rightarrow> 'a outcome \<Rightarrow> 'a outcome" where
  "with_stack s (Val a v h) = Val a (v\<lparr>v_stack := s\<rparr>) h"
| "with_stack s (Stop r v h) = Stop r (v\<lparr>v_stack := s\<rparr>) h"
| "with_stack s x = x"

definition stackless :: "'a exec \<Rightarrow> bool" where
  "stackless m \<longleftrightarrow> (\<forall>v h s. m (v\<lparr>v_stack := s\<rparr>) h = with_stack s (m v h))"

named_theorems stackless_intros \<open>computations that leave the value stack alone\<close>

lemma stacklessD: "stackless m \<Longrightarrow> m (v\<lparr>v_stack := s\<rparr>) h = with_stack s (m v h)"
  by (simp add: stackless_def)

lemma stackless_bind [stackless_intros]:
  "stackless m \<Longrightarrow> (\<And>x. stackless (f x)) \<Longrightarrow> stackless (bindE m f)"
  unfolding stackless_def bindE_def by (auto split: outcome.splits)

lemma stackless_basic [stackless_intros]:
  "stackless (ret a)" "stackless (stop r)" "stackless (getH g)" "stackless (onH k)" "stackless (panic s)"
  "stackless uncovered"
  by (simp_all add: stackless_def ret_def stop_def getH_def onH_def panic_def uncovered_def split: prod.split)

lemma stackless_getV: "(\<And>v s. g (v\<lparr>v_stack := s\<rparr>) = g v) \<Longrightarrow> stackless (getV g)"
  by (simp add: stackless_def getV_def)

lemma stackless_modV: "(\<And>v s. g (v\<lparr>v_stack := s\<rparr>) = (g v)\<lparr>v_stack := s\<rparr>) \<Longrightarrow> stackless (modV g)"
  by (simp add: stackless_def modV_def)

lemma stackless_fields [stackless_intros]:
  "stackless (getV v_env)" "stackless (getV deferScopes)" "stackless (getV taskScopes)"
  "stackless (getV taskLimits)"
  by (rule stackless_getV; simp)+

lemma stackless_onH_env [stackless_intros]: "stackless (onH_env f)"
  unfolding onH_env_def by (intro stackless_intros)

lemma stackless_fresh [stackless_intros]: "stackless fresh"
  unfolding fresh_def by (intro stackless_intros)

lemma stackless_errors [stackless_intros]:
  "stackless (errorAt pos msg)" "stackless (fail pos msg)" "stackless (liftM pos r)"
  "stackless (liftF pos q)"
  unfolding errorAt_def fail_def liftM_def liftF_def
  by (auto intro!: stackless_intros split: sum.splits fault.splits)

lemma stackless_mapE [stackless_intros]: "(\<And>x. stackless (f x)) \<Longrightarrow> stackless (mapE f xs)"
  by (induction xs) (auto intro!: stackless_intros)

lemma stackless_resolve [stackless_intros]: "stackless (resolveValue pos x)"
proof -
  have "stackless (\<lambda>v h. OutOfFuel)" by (simp add: stackless_def)
  then show ?thesis unfolding resolveValue_def by (auto intro!: stackless_intros split: option.splits)
qed

lemma stackless_names [stackless_intros]:
  "stackless (read_name pos name)" "stackless (name_schema x name)" "stackless (merge_overload C name x)"
  "stackless (assign_name pos name x)"
  unfolding read_name_def name_schema_def merge_overload_def assign_name_def
  by (auto intro!: stackless_intros split: option.splits obj.splits)

lemma stackless_define [stackless_intros]:
  "stackless (define_const C pos name x)" "stackless (define_var C pos name x)"
  unfolding define_const_def define_var_def by (auto intro!: stackless_intros split: option.splits)

lemma stackless_values [stackless_intros]:
  "stackless (map_entry C pos kv)" "stackless (make_slice a b c)" "stackless (index_value C pos d x y)"
  "stackless (operate C pos op a b)" "stackless (declare_name C ic pos tags p x doc)"
  unfolding map_entry_def make_slice_def index_value_def operate_def declare_name_def
  by (auto intro!: stackless_intros split: option.splits pattern.splits)

lemma stackless_tasks [stackless_intros]: "stackless (executeTaskHandlesInCurrentScope x)"
proof -
  have "stackless (modV (\<lambda>v. v\<lparr>taskScopes := ss\<rparr>))" for ss by (rule stackless_modV) simp
  then show ?thesis
    unfolding executeTaskHandlesInCurrentScope_def by (auto intro!: stackless_intros split: list.splits)
qed

lemma stackless_scopes [stackless_intros]:
  "stackless (enter_scope limit)" "stackless (exit_scope pos x)" "stackless (discard x)"
proof -
  show "stackless (discard x)" unfolding discard_def by (rule stackless_modV) simp
  have r: "stackless (resolveScopeLimit n)" for n
    unfolding resolveScopeLimit_def Let_def by (auto intro!: stackless_intros)
  have "stackless (modV (\<lambda>v. v\<lparr>v_env := e\<rparr>))" "stackless (modV (\<lambda>v. v\<lparr>taskLimits := l # taskLimits v\<rparr>))"
    "stackless (modV (\<lambda>v. v\<lparr>deferScopes := tl (deferScopes v), taskLimits := tl (taskLimits v)\<rparr>))"
    "stackless (modV (\<lambda>v. (if b then v\<lparr>taskScopes := None # taskScopes v\<rparr>
        else v\<lparr>taskScopes := Some (recurCarryHandles v) # taskScopes v, recurCarryHandles := []\<rparr>)
       \<lparr>deferScopes := [] # deferScopes v\<rparr>))" for e l b
    by (rule stackless_modV; simp)+
  with r show "stackless (enter_scope limit)" "stackless (exit_scope pos x)"
    unfolding enter_scope_def PushScope_def exit_scope_def
    by (auto intro!: stackless_intros split: option.splits)
qed

lemma stackless_sem_list: "\<forall>e\<in>set es. stackless (sem C e) \<Longrightarrow> stackless (sem_list C es)"
  by (induction es) (auto intro!: stackless_intros)

lemma stackless_sem_pairs:
  "\<forall>p\<in>set ps. stackless (sem C (fst p)) \<and> stackless (sem C (snd p)) \<Longrightarrow> stackless (sem_pairs C ps)"
  by (induction ps) (auto intro!: stackless_intros)

lemma stackless_sem_stmts:
  "\<forall>s\<in>set ss. \<forall>t e. s = ExpressionStatement t e \<longrightarrow> stackless (sem C e) \<Longrightarrow> stackless (sem_stmts C ss)"
  by (induction ss) (auto intro!: stackless_intros split: stmt.split)

lemma stackless_sem_block:
  "\<forall>s\<in>set (bs_Statements b). \<forall>t e. s = ExpressionStatement t e \<longrightarrow> stackless (sem C e) \<Longrightarrow>
     stackless (sem_block C (Some b))"
  by (auto intro!: stackless_intros stackless_sem_stmts split: sum.split)

lemma size_stmt_in_block:
  "ExpressionStatement t e \<in> set (bs_Statements b) \<Longrightarrow> size e < size_BlockStatement size size b"
proof -
  assume "ExpressionStatement t e \<in> set (bs_Statements b)"
  then have "size (ExpressionStatement t e) < size_list size (bs_Statements b)" by (rule size_mem)
  then show ?thesis using size_bs [of b] by simp
qed

lemma size_pair_mem:
  "(k, e) \<in> set ps \<Longrightarrow> size k < size_list (size_prod size size) ps \<and> size e < size_list (size_prod size size) ps"
  using size_mem [of "(k, e)" ps "size_prod size size"] by simp

lemma stackless_ident_case:
  "(\<And>i. stackless (m i)) \<Longrightarrow> stackless (case l of IdentifierExpr i \<Rightarrow> m i | _ \<Rightarrow> uncovered)"
  by (cases l) (simp_all add: stackless_intros)

lemma stackless_if: "stackless m \<Longrightarrow> stackless n \<Longrightarrow> stackless (if b then m else n)"
  by simp

lemma stackless_option_case:
  "stackless m \<Longrightarrow> (\<And>x. q = Some x \<Longrightarrow> stackless (n x)) \<Longrightarrow> stackless (case q of None \<Rightarrow> m | Some x \<Rightarrow> n x)"
  by (cases q) simp_all

lemma stackless_sem [stackless_intros]: "stackless (sem C e)"
proof (induction e rule: measure_induct_rule [where f = size])
  case (less e)
  have blk: "stackless (sem_block C b)" if "size_option (size_BlockStatement size size) b \<le> size e" for b
  proof (cases b)
    case (Some b')
    have "stackless (sem C e')" if "ExpressionStatement t e' \<in> set (bs_Statements b')" for t e'
      using size_stmt_in_block [OF that] \<open>size_option (size_BlockStatement size size) b \<le> size e\<close> Some
      by (intro less) simp
    then show ?thesis unfolding Some by (intro stackless_sem_block) blast
  qed (simp add: stackless_intros)
  show ?case
  proof (cases e)
    case (InfixExpression t l op r)
    have s: "stackless (sem C l)" "stackless (sem C r)"
      "singleElementListLiteral l = Some x \<Longrightarrow> stackless (sem C x)"
      "singleElementListLiteral r = Some x \<Longrightarrow> stackless (sem C x)" for x
      using less InfixExpression size_singleElement [of l x] size_singleElement [of r x] by simp_all
    show ?thesis
      unfolding InfixExpression sem.simps [of C "InfixExpression t l op r"] expr.case
      by (intro stackless_if stackless_ident_case stackless_option_case stackless_intros)
        (auto split: if_splits intro: s)
  next
    case (IfExpression t c a b)
    have "stackless (sem C c)" "stackless (sem_block C a)" "stackless (sem_block C b)"
      using less blk IfExpression by simp_all
    then show ?thesis
      unfolding IfExpression sem.simps [of C "IfExpression t c a b"] expr.case
      by (auto intro!: stackless_intros)
  next
    case (BlockExpr b)
    have "stackless (sem_block C (Some b))" by (rule blk) (simp add: BlockExpr)
    then show ?thesis
      unfolding BlockExpr sem.simps [of C "BlockExpr b"] expr.case .
  next
    case (SliceExpression t a b c)
    have "stackless (sem_maybe C x)" if "size x < size e" for x
      using less [OF that] by (auto simp: sem_maybe.simps intro!: stackless_intros)
    then have "stackless (sem_maybe C a)" "stackless (sem_maybe C b)" "stackless (sem_maybe C c)"
      using SliceExpression by simp_all
    then show ?thesis
      unfolding SliceExpression sem.simps [of C "SliceExpression t a b c"] expr.case
      by (auto intro!: stackless_intros)
  next
    case (ListLiteral t es)
    have "stackless (sem_list C es)"
      using less ListLiteral by (auto intro!: stackless_sem_list simp: size_mem less_Suc_eq)
    then show ?thesis
      unfolding ListLiteral sem.simps [of C "ListLiteral t es"] expr.case by (auto intro!: stackless_intros)
  next
    case (MapLiteral t ps)
    have "stackless (sem_pairs C ps)"
      using less MapLiteral size_pair_mem by (intro stackless_sem_pairs ballI) force
    then show ?thesis
      unfolding MapLiteral sem.simps [of C "MapLiteral t ps"] expr.case by (auto intro!: stackless_intros)
  next
    case (ValExpression tags t p ty e1 doc hasDoc)
    have "stackless (sem C e1)" using less ValExpression by simp
    then show ?thesis unfolding ValExpression by (subst sem.simps) (auto intro!: stackless_intros)
  next
    case (VarExpression tags t p ty e1 doc hasDoc)
    have "stackless (sem C e1)" using less VarExpression by simp
    then show ?thesis unfolding VarExpression by (subst sem.simps) (auto intro!: stackless_intros)
  next
    case (PrefixExpression t op e1)
    have "stackless (sem C e1)" using less PrefixExpression by simp
    then show ?thesis
      unfolding PrefixExpression by (subst sem.simps) (auto intro!: stackless_intros split: option.split)
  next
    case (IndexExpression t e1 e2 isDot)
    have "stackless (sem C e1)" "stackless (sem C e2)" using less IndexExpression by simp_all
    then show ?thesis unfolding IndexExpression by (subst sem.simps) (auto intro!: stackless_intros)
  next
    case (TypeApplicationExpression t e1 ts)
    have "stackless (sem C e1)" using less TypeApplicationExpression by simp
    then show ?thesis unfolding TypeApplicationExpression by (subst sem.simps) simp
  qed (subst sem.simps, simp add: stackless_intros)+
qed

section \<open>Code that behaves as a computation\<close>

text \<open>
  \<open>covers o o'\<close>: the outcome \<open>o'\<close> is \<open>o\<close>, except for the value stack of a run that ends, or
  \<open>o\<close> is not covered.
\<close>

definition covers :: "'a outcome \<Rightarrow> 'a outcome \<Rightarrow> bool" where
  "covers p q \<longleftrightarrow>
     (case p of
        Unmodelled _ \<Rightarrow> True
      | Stop r v h \<Rightarrow> \<exists>s. q = Stop r (v\<lparr>v_stack := s\<rparr>) h
      | _ \<Rightarrow> q = p)"

lemma covers_refl [simp]: "covers p p"
proof -
  have "\<exists>s. v = v\<lparr>v_stack := s\<rparr>" for v :: vm by (rule exI [of _ "v_stack v"]) simp
  then show ?thesis by (cases p) (auto simp: covers_def)
qed

lemma covers_simps [simp]:
  "covers (Val a v h) q \<longleftrightarrow> q = Val a v h" "covers (Panicked s) q \<longleftrightarrow> q = Panicked s"
  "covers OutOfFuel q \<longleftrightarrow> q = OutOfFuel" "covers (Unmodelled s) q"
  "covers (Stop r v h) q \<longleftrightarrow> (\<exists>s. q = Stop r (v\<lparr>v_stack := s\<rparr>) h)"
  by (simp_all add: covers_def)

text \<open>
  \<open>sim C ch ip j m\<close>: from \<open>ip\<close> the machine does what \<open>m\<close> does and arrives at \<open>j\<close>, in a number
  of steps that depends on the state; if \<open>m\<close> ends the run, so does the machine.
\<close>

definition sim :: "config \<Rightarrow> Chunk \<Rightarrow> nat \<Rightarrow> nat \<Rightarrow> unit exec \<Rightarrow> bool" where
  "sim C ch ip j m \<longleftrightarrow>
     (\<forall>v h. \<exists>n. \<forall>k. covers (bindE m (\<lambda>_. run C k ch (int j)) v h) (run C (n + k) ch (int ip) v h) \<and>
        (\<forall>v' h'. m v h = Val () v' h' \<longrightarrow> run C (n + k) ch (int ip) v h = run C k ch (int j) v' h'))"

lemma simE:
  assumes "sim C ch ip j m"
  obtains n where
    "\<And>k v' h'. m v h = Val () v' h' \<Longrightarrow> run C (n + k) ch (int ip) v h = run C k ch (int j) v' h'"
    "\<And>k r v' h'. m v h = Stop r v' h' \<Longrightarrow> \<exists>s. run C (n + k) ch (int ip) v h = Stop r (v'\<lparr>v_stack := s\<rparr>) h'"
    "\<And>k s. m v h = Panicked s \<Longrightarrow> run C (n + k) ch (int ip) v h = Panicked s"
    "\<And>k. m v h = OutOfFuel \<Longrightarrow> run C (n + k) ch (int ip) v h = OutOfFuel"
proof -
  obtain n where n: "\<And>k. covers (bindE m (\<lambda>_. run C k ch (int j)) v h) (run C (n + k) ch (int ip) v h)"
    "\<And>k v' h'. m v h = Val () v' h' \<Longrightarrow> run C (n + k) ch (int ip) v h = run C k ch (int j) v' h'"
    using assms unfolding sim_def by blast
  show thesis
    by (rule that [of n]) (use n(1) n(2) in \<open>force+\<close>)
qed

lemma simI:
  assumes "\<And>v h. \<exists>n. \<forall>k. case m v h of
      Val _ v' h' \<Rightarrow> run C (n + k) ch (int ip) v h = run C k ch (int j) v' h'
    | Stop r v' h' \<Rightarrow> \<exists>s. run C (n + k) ch (int ip) v h = Stop r (v'\<lparr>v_stack := s\<rparr>) h'
    | Panicked s \<Rightarrow> run C (n + k) ch (int ip) v h = Panicked s
    | OutOfFuel \<Rightarrow> run C (n + k) ch (int ip) v h = OutOfFuel
    | Unmodelled _ \<Rightarrow> True"
  shows "sim C ch ip j m"
  unfolding sim_def
proof (intro allI)
  fix v h
  obtain n where "\<forall>k. case m v h of
      Val _ v' h' \<Rightarrow> run C (n + k) ch (int ip) v h = run C k ch (int j) v' h'
    | Stop r v' h' \<Rightarrow> \<exists>s. run C (n + k) ch (int ip) v h = Stop r (v'\<lparr>v_stack := s\<rparr>) h'
    | Panicked s \<Rightarrow> run C (n + k) ch (int ip) v h = Panicked s
    | OutOfFuel \<Rightarrow> run C (n + k) ch (int ip) v h = OutOfFuel
    | Unmodelled _ \<Rightarrow> True"
    using assms by blast
  then show "\<exists>n. \<forall>k. covers (bindE m (\<lambda>_. run C k ch (int j)) v h) (run C (n + k) ch (int ip) v h) \<and>
      (\<forall>v' h'. m v h = Val () v' h' \<longrightarrow> run C (n + k) ch (int ip) v h = run C k ch (int j) v' h')"
    by (intro exI [of _ n]) (cases "m v h"; simp)
qed

lemma sim_runs:
  assumes "sim C ch ip j m"
  shows "\<exists>n. \<forall>k. case m v h of
      Val _ v' h' \<Rightarrow> run C (n + k) ch (int ip) v h = run C k ch (int j) v' h'
    | Stop r v' h' \<Rightarrow> \<exists>s. run C (n + k) ch (int ip) v h = Stop r (v'\<lparr>v_stack := s\<rparr>) h'
    | Panicked s \<Rightarrow> run C (n + k) ch (int ip) v h = Panicked s
    | OutOfFuel \<Rightarrow> run C (n + k) ch (int ip) v h = OutOfFuel
    | Unmodelled _ \<Rightarrow> True"
proof -
  obtain n where
    "\<And>k v' h'. m v h = Val () v' h' \<Longrightarrow> run C (n + k) ch (int ip) v h = run C k ch (int j) v' h'"
    "\<And>k r v' h'. m v h = Stop r v' h' \<Longrightarrow> \<exists>s. run C (n + k) ch (int ip) v h = Stop r (v'\<lparr>v_stack := s\<rparr>) h'"
    "\<And>k s. m v h = Panicked s \<Longrightarrow> run C (n + k) ch (int ip) v h = Panicked s"
    "\<And>k. m v h = OutOfFuel \<Longrightarrow> run C (n + k) ch (int ip) v h = OutOfFuel"
    using simE [OF assms, of v h] by metis
  then show ?thesis by (intro exI [of _ n]) (cases "m v h"; simp)
qed

lemma sim_refl: "sim C ch ip ip (ret ())"
  by (rule simI, rule exI [of _ 0]) (simp add: ret_def)

lemma sim_trans: "sim C ch ip j m \<Longrightarrow> sim C ch j l m' \<Longrightarrow> sim C ch ip l (thenE m m')"
proof (rule simI)
  fix v h
  assume a: "sim C ch ip j m" "sim C ch j l m'"
  obtain n where n:
    "\<And>k v' h'. m v h = Val () v' h' \<Longrightarrow> run C (n + k) ch (int ip) v h = run C k ch (int j) v' h'"
    "\<And>k r v' h'. m v h = Stop r v' h' \<Longrightarrow> \<exists>s. run C (n + k) ch (int ip) v h = Stop r (v'\<lparr>v_stack := s\<rparr>) h'"
    "\<And>k s. m v h = Panicked s \<Longrightarrow> run C (n + k) ch (int ip) v h = Panicked s"
    "\<And>k. m v h = OutOfFuel \<Longrightarrow> run C (n + k) ch (int ip) v h = OutOfFuel"
    using simE [OF a(1), of v h] by metis
  show "\<exists>n. \<forall>k. case thenE m m' v h of
      Val _ v' h' \<Rightarrow> run C (n + k) ch (int ip) v h = run C k ch (int l) v' h'
    | Stop r v' h' \<Rightarrow> \<exists>s. run C (n + k) ch (int ip) v h = Stop r (v'\<lparr>v_stack := s\<rparr>) h'
    | Panicked s \<Rightarrow> run C (n + k) ch (int ip) v h = Panicked s
    | OutOfFuel \<Rightarrow> run C (n + k) ch (int ip) v h = OutOfFuel
    | Unmodelled _ \<Rightarrow> True"
  proof (cases "m v h")
    case (Val a v1 h1)
    obtain n' where n':
      "\<And>k v' h'. m' v1 h1 = Val () v' h' \<Longrightarrow> run C (n' + k) ch (int j) v1 h1 = run C k ch (int l) v' h'"
      "\<And>k r v' h'. m' v1 h1 = Stop r v' h' \<Longrightarrow> \<exists>s. run C (n' + k) ch (int j) v1 h1 = Stop r (v'\<lparr>v_stack := s\<rparr>) h'"
      "\<And>k s. m' v1 h1 = Panicked s \<Longrightarrow> run C (n' + k) ch (int j) v1 h1 = Panicked s"
      "\<And>k. m' v1 h1 = OutOfFuel \<Longrightarrow> run C (n' + k) ch (int j) v1 h1 = OutOfFuel"
      using simE [OF a(2), of v1 h1] by metis
    have "run C (n + n' + k) ch (int ip) v h = run C (n' + k) ch (int j) v1 h1" for k
      using n(1) [of v1 h1 "n' + k"] Val by (simp add: add.assoc)
    then show ?thesis
      using Val n' by (intro exI [of _ "n + n'"]) (cases "m' v1 h1"; simp)
  qed (use n in \<open>auto intro: exI [of _ n]\<close>)
qed

lemma sim_covers: "sim C ch ip j m \<Longrightarrow> (\<And>v h. covers (m' v h) (m v h)) \<Longrightarrow> sim C ch ip j m'"
proof (rule simI)
  fix v h
  assume a: "sim C ch ip j m" "\<And>v h. covers (m' v h) (m v h)"
  obtain n where n:
    "\<And>k v' h'. m v h = Val () v' h' \<Longrightarrow> run C (n + k) ch (int ip) v h = run C k ch (int j) v' h'"
    "\<And>k r v' h'. m v h = Stop r v' h' \<Longrightarrow> \<exists>s. run C (n + k) ch (int ip) v h = Stop r (v'\<lparr>v_stack := s\<rparr>) h'"
    "\<And>k s. m v h = Panicked s \<Longrightarrow> run C (n + k) ch (int ip) v h = Panicked s"
    "\<And>k. m v h = OutOfFuel \<Longrightarrow> run C (n + k) ch (int ip) v h = OutOfFuel"
    using simE [OF a(1), of v h] by metis
  show "\<exists>n. \<forall>k. case m' v h of
      Val _ v' h' \<Rightarrow> run C (n + k) ch (int ip) v h = run C k ch (int j) v' h'
    | Stop r v' h' \<Rightarrow> \<exists>s. run C (n + k) ch (int ip) v h = Stop r (v'\<lparr>v_stack := s\<rparr>) h'
    | Panicked s \<Rightarrow> run C (n + k) ch (int ip) v h = Panicked s
    | OutOfFuel \<Rightarrow> run C (n + k) ch (int ip) v h = OutOfFuel
    | Unmodelled _ \<Rightarrow> True"
    using a(2) [of v h] n by (intro exI [of _ n]) (cases "m' v h"; force)
qed

section \<open>Single instructions\<close>

lemma run_op:
  assumes "j < length (Instructions ch)" "\<not> is_jump (Op (Instructions ch ! j))"
  obtains R where "run C (Suc k) ch (int j) =
    bindE (perform_op C R k ch (Instructions ch ! j)) (\<lambda>_. run C k ch (int (Suc j)))"
proof
  have "step C R k ch (int j) i = thenE (perform_op C R k ch i) (ret (int (Suc j)))"
    if "\<not> is_jump (Op i)" for R i
    using that by (simp add: step_def is_jump_def add.commute split: Opcode.split)
  then show "run C (Suc k) ch (int j) =
    bindE (perform_op C (\<lambda>ch. thenE (modV (\<lambda>v. v\<lparr>v_last := NilO\<rparr>)) (run C k ch 0)) k ch (Instructions ch ! j))
      (\<lambda>_. run C k ch (int (Suc j)))"
    using assms by (simp add: run.simps)
qed

lemma sim_op:
  assumes "j < length (Instructions ch)" "\<not> is_jump (Op (Instructions ch ! j))"
    and "\<And>R k v h. covers (m v h) (perform_op C R k ch (Instructions ch ! j) v h)"
  shows "sim C ch j (Suc j) m"
proof (rule simI, intro exI [of _ 1] allI)
  fix v h k
  obtain R where R: "run C (Suc k) ch (int j) =
      bindE (perform_op C R k ch (Instructions ch ! j)) (\<lambda>_. run C k ch (int (Suc j)))"
    by (rule run_op [OF assms(1,2)])
  show "case m v h of
      Val _ v' h' \<Rightarrow> run C (1 + k) ch (int j) v h = run C k ch (int (Suc j)) v' h'
    | Stop r v' h' \<Rightarrow> \<exists>s. run C (1 + k) ch (int j) v h = Stop r (v'\<lparr>v_stack := s\<rparr>) h'
    | Panicked s \<Rightarrow> run C (1 + k) ch (int j) v h = Panicked s
    | OutOfFuel \<Rightarrow> run C (1 + k) ch (int j) v h = OutOfFuel
    | Unmodelled _ \<Rightarrow> True"
    using assms(3) [of v h R k] R by (cases "m v h") auto
qed

section \<open>Values on the stack\<close>

definition push_all :: "obj list \<Rightarrow> unit exec" where
  "push_all xs = modV (\<lambda>v. v\<lparr>v_stack := rev xs @ v_stack v\<rparr>)"

abbreviation esim :: "config \<Rightarrow> Chunk \<Rightarrow> nat \<Rightarrow> nat \<Rightarrow> obj exec \<Rightarrow> bool" where
  "esim C ch ip j m \<equiv> sim C ch ip j (bindE m push)"

abbreviation lsim :: "config \<Rightarrow> Chunk \<Rightarrow> nat \<Rightarrow> nat \<Rightarrow> obj list exec \<Rightarrow> bool" where
  "lsim C ch ip j ms \<equiv> sim C ch ip j (bindE ms push_all)"

lemma push_all_simps [simp]: "push_all [] = ret ()" "push_all [x] = push x"
  by (simp_all add: push_all_def push_def modV_def ret_def fun_eq_iff)

lemma push_then: "thenE (push x) (push_all xs) = push_all (x # xs)"
  by (simp add: push_all_def push_def modV_def bindE_def fun_eq_iff)

lemma stackless_keeps: "stackless m \<Longrightarrow> m v h = Val a v' h' \<Longrightarrow> v_stack v' = v_stack v"
  using stacklessD [of m "v_stack v" v h] by simp (metis vm.select_convs(2) vm.surjective vm.update_convs(2))

text \<open>A value pushed before a computation without the stack ends up below its result.\<close>

lemma push_under:
  assumes "stackless ms"
  shows "covers (bindE ms (\<lambda>xs. push_all (x # xs)) v h) (thenE (push x) (bindE ms push_all) v h)"
proof -
  have "ms (v\<lparr>v_stack := x # v_stack v\<rparr>) h = with_stack (x # v_stack v) (ms v h)"
    by (rule stacklessD [OF assms])
  then show ?thesis
    using stackless_keeps [OF assms, of v h]
    by (cases "ms v h") (auto simp: bindE_def push_def modV_def push_all_def)
qed

lemma lsim_nil: "lsim C ch ip ip (ret [])"
  by (simp add: sim_refl)

lemma covers_bind: "(\<And>a v h. covers (f a v h) (g a v h)) \<Longrightarrow> covers (bindE m f v h) (bindE m g v h)"
proof -
  have "\<exists>s. v = v\<lparr>v_stack := s\<rparr>" for v :: vm by (rule exI [of _ "v_stack v"]) simp
  then show "(\<And>a v h. covers (f a v h) (g a v h)) \<Longrightarrow> ?thesis" by (cases "m v h") simp_all
qed

lemma lsim_cons:
  assumes "esim C ch ip j m" "lsim C ch j l ms" "stackless ms"
  shows "lsim C ch ip l (bindE m (\<lambda>x. bindE ms (\<lambda>xs. ret (x # xs))))"
  by (rule sim_covers [OF sim_trans [OF assms(1,2)]]) (simp, rule covers_bind, rule push_under [OF assms(3)])

lemma lsim_one: "esim C ch ip j m \<Longrightarrow> lsim C ch ip j (bindE m (\<lambda>x. ret [x]))"
  by simp

lemma lsim_two:
  assumes "esim C ch ip j m" "esim C ch j l m'" "stackless m'"
  shows "lsim C ch ip l (bindE m (\<lambda>x. bindE m' (\<lambda>y. ret [x, y])))"
  using lsim_cons [OF assms(1) lsim_one [OF assms(2)]] assms(3) by (simp add: stackless_intros)

lemma lsim_three:
  assumes "esim C ch ip j m" "esim C ch j l m'" "esim C ch l l' m''" "stackless m'" "stackless m''"
  shows "lsim C ch ip l' (bindE m (\<lambda>x. bindE m' (\<lambda>y. bindE m'' (\<lambda>z. ret [x, y, z]))))"
  using lsim_cons [OF assms(1) lsim_two [OF assms(2,3,5)]] assms(4,5) by (simp add: stackless_intros)

text \<open>
  \<open>consumes C i n f\<close>: instruction \<open>i\<close> pops \<open>n\<close> values and then does what \<open>f\<close> says about them;
  \<open>takes C i n f\<close>: it pushes what \<open>f\<close> computes from them.
\<close>

definition consumes :: "config \<Rightarrow> Chunk \<Rightarrow> Instruction \<Rightarrow> nat \<Rightarrow> (obj list \<Rightarrow> unit exec) \<Rightarrow> bool" where
  "consumes C ch i n f \<longleftrightarrow>
     (\<forall>R k v h xs. length xs = n \<longrightarrow>
        covers (f xs v h) (perform_op C R k ch i (v\<lparr>v_stack := rev xs @ v_stack v\<rparr>) h))"

abbreviation takes :: "config \<Rightarrow> Chunk \<Rightarrow> Instruction \<Rightarrow> nat \<Rightarrow> (obj list \<Rightarrow> obj exec) \<Rightarrow> bool" where
  "takes C ch i n f \<equiv> consumes C ch i n (\<lambda>xs. bindE (f xs) push)"

definition yields :: "'a list exec \<Rightarrow> nat \<Rightarrow> bool" where
  "yields ms n \<longleftrightarrow> (\<forall>v h xs v' h'. ms v h = Val xs v' h' \<longrightarrow> length xs = n)"

lemma sim_consume:
  assumes "lsim C ch ip j ms" "yields ms n" "consumes C ch (Instructions ch ! j) n f"
    and "j < length (Instructions ch)" "\<not> is_jump (Op (Instructions ch ! j))"
  shows "sim C ch ip (Suc j) (bindE ms f)"
proof (rule simI)
  fix v h
  obtain n' where n':
    "\<And>k v' h'. bindE ms push_all v h = Val () v' h' \<Longrightarrow> run C (n' + k) ch (int ip) v h = run C k ch (int j) v' h'"
    "\<And>k r v' h'. bindE ms push_all v h = Stop r v' h' \<Longrightarrow> \<exists>s. run C (n' + k) ch (int ip) v h = Stop r (v'\<lparr>v_stack := s\<rparr>) h'"
    "\<And>k s. bindE ms push_all v h = Panicked s \<Longrightarrow> run C (n' + k) ch (int ip) v h = Panicked s"
    "\<And>k. bindE ms push_all v h = OutOfFuel \<Longrightarrow> run C (n' + k) ch (int ip) v h = OutOfFuel"
    using simE [OF assms(1), of v h] by metis
  show "\<exists>n. \<forall>k. case bindE ms f v h of
      Val _ v' h' \<Rightarrow> run C (n + k) ch (int ip) v h = run C k ch (int (Suc j)) v' h'
    | Stop r v' h' \<Rightarrow> \<exists>s. run C (n + k) ch (int ip) v h = Stop r (v'\<lparr>v_stack := s\<rparr>) h'
    | Panicked s \<Rightarrow> run C (n + k) ch (int ip) v h = Panicked s
    | OutOfFuel \<Rightarrow> run C (n + k) ch (int ip) v h = OutOfFuel
    | Unmodelled _ \<Rightarrow> True"
  proof (cases "ms v h")
    case (Val xs v1 h1)
    let ?v = "v1\<lparr>v_stack := rev xs @ v_stack v1\<rparr>"
    have len: "length xs = n" using assms(2) Val unfolding yields_def by blast
    have r: "run C (n' + 1 + k) ch (int ip) v h = run C (Suc k) ch (int j) ?v h1" for k
      using n'(1) [of ?v h1 "Suc k"] Val by (simp add: push_all_def modV_def add.commute add.left_commute)
    have "case f xs v1 h1 of
      Val _ v' h' \<Rightarrow> run C (Suc k) ch (int j) ?v h1 = run C k ch (int (Suc j)) v' h'
    | Stop r v' h' \<Rightarrow> \<exists>s. run C (Suc k) ch (int j) ?v h1 = Stop r (v'\<lparr>v_stack := s\<rparr>) h'
    | Panicked s \<Rightarrow> run C (Suc k) ch (int j) ?v h1 = Panicked s
    | OutOfFuel \<Rightarrow> run C (Suc k) ch (int j) ?v h1 = OutOfFuel
    | Unmodelled _ \<Rightarrow> True" for k
    proof -
      obtain R where R: "run C (Suc k) ch (int j) =
          bindE (perform_op C R k ch (Instructions ch ! j)) (\<lambda>_. run C k ch (int (Suc j)))"
        by (rule run_op [OF assms(4,5)])
      have "covers (f xs v1 h1) (perform_op C R k ch (Instructions ch ! j) ?v h1)"
        using assms(3) len unfolding consumes_def by blast
      then show ?thesis unfolding R by (cases "f xs v1 h1") auto
    qed
    then show ?thesis
      using Val r by (intro exI [of _ "n' + 1"]) (auto split: outcome.splits)
  qed (use n' in \<open>auto intro: exI [of _ n']\<close>)
qed

end
