(* ===== verification/Compiler_Correct.thy ===== *)
theory Compiler_Correct
  imports Simulation Environment_Laws
begin

text \<open>
  The compiler is correct with respect to the reference evaluator: the code of an expression
  computes what the expression means and pushes it, and the code of a program returns its
  result.
\<close>

section \<open>Code in a chunk\<close>

text \<open>The code between two stages of a chunk under construction, as a part of the final chunk.\<close>

definition extends :: "Chunk \<Rightarrow> Chunk \<Rightarrow> bool" where
  "extends c c' \<longleftrightarrow>
     take (length (Instructions c)) (Instructions c') = Instructions c \<and>
     take (length (Constants c)) (Constants c') = Constants c"

definition segment :: "Chunk \<Rightarrow> Chunk \<Rightarrow> Chunk \<Rightarrow> bool" where
  "segment ch c c' \<longleftrightarrow>
     (\<forall>i. length (Instructions c) \<le> i \<and> i < length (Instructions c') \<longrightarrow>
        i < length (Instructions ch) \<and> Instructions ch ! i = Instructions c' ! i) \<and>
     take (length (Constants c')) (Constants ch) = Constants c'"

definition appends :: "'a cm \<Rightarrow> bool" where
  "appends m \<longleftrightarrow> (\<forall>c a c'. m c = Inr (a, c') \<longrightarrow> extends c c')"

lemma appends_closed: "closed m \<Longrightarrow> appends m"
proof -
  assume m: "closed m"
  have "built c {} c" for c by (auto simp: built_def)
  then have "case m c of Inl e \<Rightarrow> True | Inr (a, c') \<Rightarrow> built c {} c'" for c
    using m unfolding trip_def by (metis Un_empty_left)
  then have "m c = Inr (a, c') \<Longrightarrow> built c {} c'" for c a c' by (metis old.sum.simps(6) prod.case)
  then show ?thesis unfolding appends_def extends_def built_def by blast
qed

lemma extends_refl: "extends c c"
  by (simp add: extends_def)

lemma take_eq_prefix: "take (length xs) ys = xs \<longleftrightarrow> (\<exists>zs. ys = xs @ zs)"
  by (metis append_eq_conv_conj append_take_drop_id)

lemma extends_trans: "extends c c' \<Longrightarrow> extends c' c'' \<Longrightarrow> extends c c''"
  by (auto simp: extends_def take_eq_prefix)

lemma extends_nth:
  "extends c c' \<Longrightarrow> i < length (Instructions c) \<Longrightarrow>
     i < length (Instructions c') \<and> Instructions c' ! i = Instructions c ! i"
  by (auto simp: extends_def take_eq_prefix nth_append)

lemma segment_split:
  assumes "segment ch c c''" "extends c c'" "extends c' c''"
  shows "segment ch c c'" "segment ch c' c''"
proof -
  have "length (Instructions c) \<le> length (Instructions c')"
    using assms(2) by (auto simp: extends_def take_eq_prefix)
  then show "segment ch c' c''" using assms(1) by (auto simp: segment_def)
  show "segment ch c c'"
    using assms(1) extends_nth [OF assms(3)] assms(3)
    by (auto simp: segment_def extends_def take_eq_prefix)
qed

lemma cthen_ok: "cthen m n c = Inr (b, c'') \<longleftrightarrow> (\<exists>a c'. m c = Inr (a, c') \<and> n c' = Inr (b, c''))"
  by (auto simp: cthen_def cbind_def split: sum.splits)

lemma emitI_ok: "emitI i c = Inr (u, c') \<longleftrightarrow> c' = Chunk (Instructions c @ [i]) (Constants c)"
  by (auto simp: emitI_def cthen_def cbind_def emit_def cret_def)

lemma cthen_assoc [simp]: "cthen (cthen a b) d = cthen a (cthen b d)"
  by (auto simp: cthen_def cbind_def fun_eq_iff split: sum.splits)

lemma cthen_cret [simp]: "cthen m (cret ()) = m" "cthen (cret ()) n = n"
  by (auto simp: cthen_def cbind_def cret_def fun_eq_iff split: sum.splits)

lemma segment_emitI:
  "segment ch c (Chunk (Instructions c @ [i]) (Constants c)) \<Longrightarrow>
     length (Instructions c) < length (Instructions ch) \<and> Instructions ch ! length (Instructions c) = i"
  unfolding segment_def by (drule conjunct1, drule spec [of _ "length (Instructions c)"]) simp

section \<open>Correct code\<close>

definition correctL :: "config \<Rightarrow> unit cm \<Rightarrow> obj list exec \<Rightarrow> bool" where
  "correctL C cm ms \<longleftrightarrow>
     appends cm \<and>
     (\<forall>c u c' ch. cm c = Inr (u, c') \<longrightarrow> segment ch c c' \<longrightarrow>
        lsim C ch (length (Instructions c)) (length (Instructions c')) ms)"

abbreviation correct :: "config \<Rightarrow> unit cm \<Rightarrow> obj exec \<Rightarrow> bool" where
  "correct C cm m \<equiv> correctL C cm (bindE m (\<lambda>x. ret [x]))"

text \<open>Code that ends with an instruction on the values before it, or without values.\<close>

definition acts :: "config \<Rightarrow> unit cm \<Rightarrow> unit exec \<Rightarrow> bool" where
  "acts C cm m \<longleftrightarrow>
     appends cm \<and>
     (\<forall>c u c' ch. cm c = Inr (u, c') \<longrightarrow> segment ch c c' \<longrightarrow>
        sim C ch (length (Instructions c)) (length (Instructions c')) m)"

lemma acts_correctL: "acts C cm (bindE ms push_all) \<longleftrightarrow> correctL C cm ms"
  by (simp add: acts_def correctL_def)

lemma appends_then: "appends m \<Longrightarrow> appends n \<Longrightarrow> appends (cthen m n)"
  unfolding appends_def cthen_ok using extends_trans by blast

lemma appends_emitI: "appends (emitI i)"
  by (auto simp: appends_def emitI_ok extends_def)

lemma appends_cret: "appends (cret ())"
  by (auto simp: appends_def cret_def extends_refl)

lemma acts_then: "acts C a m \<Longrightarrow> acts C b n \<Longrightarrow> acts C (cthen a b) (thenE m n)"
  unfolding acts_def
proof (intro conjI allI impI; (elim conjE)?)
  assume "appends a" "appends b"
  then show "appends (cthen a b)" by (rule appends_then)
  fix c u c'' ch
  assume ab: "cthen a b c = Inr (u, c'')" "segment ch c c''"
    and sims: "\<forall>c u c' ch. a c = Inr (u, c') \<longrightarrow> segment ch c c' \<longrightarrow> sim C ch (length (Instructions c)) (length (Instructions c')) m"
      "\<forall>c u c' ch. b c = Inr (u, c') \<longrightarrow> segment ch c c' \<longrightarrow> sim C ch (length (Instructions c)) (length (Instructions c')) n"
  obtain c' where c': "a c = Inr ((), c')" "b c' = Inr (u, c'')" using ab(1) by (auto simp: cthen_ok)
  then have "extends c c'" "extends c' c''" using \<open>appends a\<close> \<open>appends b\<close> unfolding appends_def by blast+
  then show "sim C ch (length (Instructions c)) (length (Instructions c'')) (thenE m n)"
    using sims c' segment_split [OF ab(2)] by (blast intro: sim_trans)
qed

lemma correctL_nil: "correctL C (cret ()) (ret [])"
  by (auto simp: correctL_def appends_cret cret_def lsim_nil [simplified] sim_refl)

lemma acts_covers: "acts C cm m \<Longrightarrow> (\<And>v h. covers (m' v h) (m v h)) \<Longrightarrow> acts C cm m'"
  unfolding acts_def by (blast intro: sim_covers)

lemma correctL_cons:
  assumes "correct C a m" "correctL C b ms" "stackless ms"
  shows "correctL C (cthen a b) (bindE m (\<lambda>x. bindE ms (\<lambda>xs. ret (x # xs))))"
proof -
  have "acts C (cthen a b) (thenE (bindE m push) (bindE ms push_all))"
    using acts_then [of C a "bindE m push" b "bindE ms push_all"] assms(1,2)
    by (simp add: acts_correctL [symmetric])
  then show ?thesis
    unfolding acts_correctL [symmetric]
    by (rule acts_covers) (simp, rule covers_bind, rule push_under [OF assms(3)])
qed

lemma yields_intros:
  "yields (ret []) 0" "yields (bindE m (\<lambda>x. ret [x])) 1"
  "yields ms n \<Longrightarrow> yields (bindE m (\<lambda>x. bindE ms (\<lambda>xs. ret (x # xs)))) (Suc n)"
  by (auto simp: yields_def ret_def bindE_def split: outcome.splits)

lemma acts_op:
  assumes "correctL C cm ms" "yields ms n" "\<And>ch. consumes C ch i n f" "\<not> is_jump (Op i)"
  shows "acts C (cthen cm (emitI i)) (bindE ms f)"
  unfolding acts_def
proof (intro conjI allI impI)
  show app: "appends (cthen cm (emitI i))"
    using assms(1) by (intro appends_then appends_emitI) (simp add: correctL_def)
  fix c u c'' ch
  assume ok: "cthen cm (emitI i) c = Inr (u, c'')" and seg: "segment ch c c''"
  obtain c' where c': "cm c = Inr ((), c')" "c'' = Chunk (Instructions c' @ [i]) (Constants c')"
    using ok by (auto simp: cthen_ok emitI_ok)
  have "extends c c'" using assms(1) c'(1) unfolding correctL_def appends_def by blast
  moreover have "extends c' c''" unfolding c' by (simp add: extends_def)
  ultimately have segs: "segment ch c c'" "segment ch c' c''" using segment_split [OF seg] by blast+
  have i: "length (Instructions c') < length (Instructions ch)" "Instructions ch ! length (Instructions c') = i"
    using segment_emitI segs(2) unfolding c'(2) by blast+
  have "sim C ch (length (Instructions c)) (Suc (length (Instructions c'))) (bindE ms f)"
  proof (rule sim_consume [where n = n])
    show "lsim C ch (length (Instructions c)) (length (Instructions c')) ms"
      using assms(1) c'(1) segs(1) unfolding correctL_def by blast
  qed (use assms i in auto)
  then show "sim C ch (length (Instructions c)) (length (Instructions c'')) (bindE ms f)" by (simp add: c'(2))
qed

lemma acts_leaf:
  assumes "\<And>ch. consumes C ch i 0 f" "\<not> is_jump (Op i)"
  shows "acts C (emitI i) (f [])"
  using acts_op [OF correctL_nil yields_intros(1) assms] by simp

lemma correct_acts: "acts C cm (bindE m push) \<longleftrightarrow> correct C cm m"
  by (simp add: acts_correctL [symmetric])

lemma correct_unop:
  assumes "correct C cm m" "\<And>ch. takes C ch i 1 f" "\<not> is_jump (Op i)"
  shows "correct C (cthen cm (emitI i)) (bindE m (\<lambda>x. f [x]))"
  using acts_op [OF assms(1) yields_intros(2) assms(2,3)] unfolding correct_acts [symmetric] by simp

lemma correct_binop:
  assumes "correct C a m" "correct C b n" "stackless n" "\<And>ch. takes C ch i 2 f" "\<not> is_jump (Op i)"
  shows "correct C (cthen a (cthen b (emitI i))) (bindE m (\<lambda>x. bindE n (\<lambda>y. f [x, y])))"
proof -
  have y: "yields (bindE m (\<lambda>x. bindE (bindE n (\<lambda>y. ret [y])) (\<lambda>xs. ret (x # xs)))) 2"
    using yields_intros(3) [OF yields_intros(2)] by (simp add: numeral_2_eq_2)
  have l: "correctL C (cthen a b) (bindE m (\<lambda>x. bindE (bindE n (\<lambda>y. ret [y])) (\<lambda>xs. ret (x # xs))))"
    using assms(1-3) by (intro correctL_cons) (auto intro: stackless_intros)
  show ?thesis using acts_op [OF l y assms(4,5)] unfolding correct_acts [symmetric] by simp
qed

section \<open>What the instructions do\<close>

lemma pop_pushed [simp]:
  "bindE (pop pos what) f (v\<lparr>v_stack := x # s\<rparr>) h = f x (v\<lparr>v_stack := s\<rparr>) h"
  by (simp add: pop_def pop_option_def bindE_def ret_def)

lemma push_apply: "push x v h = Val () (v\<lparr>v_stack := x # v_stack v\<rparr>) h"
  by (simp add: push_def modV_def)

lemma ins_simps [simp]:
  "Op (ins op pos) = op" "Position (ins op pos) = pos"
  "Op (ins_int op n pos) = op" "IntArg (ins_int op n pos) = n" "Position (ins_int op n pos) = pos"
  "Op (ins_str op s pos) = op" "StrArg (ins_str op s pos) = s" "Position (ins_str op s pos) = pos"
  by (simp_all add: ins_def ins_int_def ins_str_def)

lemma length_one: "length xs = Suc 0 \<longleftrightarrow> (\<exists>x. xs = [x])"
  by (auto simp: length_Suc_conv)

lemma length_two: "length xs = 2 \<longleftrightarrow> (\<exists>x y. xs = [x, y])"
  by (auto simp: length_Suc_conv numeral_2_eq_2)

lemma consumes_unary:
  "prefixOpcode op = Some opc \<Longrightarrow> takes C ch (ins opc pos) 1 (\<lambda>xs. liftF pos (evalPrefix opc (xs ! 0)))"
  by (auto simp: consumes_def length_one perform_op_def Unary_def prefixOpcode_def split: if_splits)

lemma consumes_binary:
  "infixOpcode op = Some opc \<Longrightarrow> takes C ch (ins opc pos) 2 (\<lambda>xs. operate C pos op (xs ! 0) (xs ! 1))"
  by (auto simp: consumes_def length_two perform_op_def Binary_def ListExtend_def Let_def operate_def infixOpcode_def
      split: if_splits)

lemma consumes_extend:
  "takes C ch (ins OpListAppend pos) 2 (\<lambda>xs. liftF pos (listAppend (xs ! 0) (xs ! 1)))"
  "takes C ch (ins OpListPrepend pos) 2 (\<lambda>xs. liftF pos (listPrepend (xs ! 0) (xs ! 1)))"
  by (auto simp: consumes_def length_two perform_op_def ListExtend_def Let_def list_extend_def)

lemma consumes_index:
  "takes C ch (ins (if d then OpIndexDot else OpIndex) pos) 2 (\<lambda>xs. index_value C pos d (xs ! 0) (xs ! 1))"
  by (auto simp: consumes_def length_two perform_op_def Index_def)

lemma consumes_names:
  "takes C ch (ins_str OpAssignGlobal name pos) 1 (\<lambda>xs. assign_name pos name (xs ! 0))"
  "takes C ch (ins_str (setOp isConst) name pos) 1
     (\<lambda>xs. (if isConst then define_const else define_var) C pos name (xs ! 0))"
  "takes C ch (ins_str OpGetGlobal name pos) 0 (\<lambda>xs. read_name pos name)"
  by (auto simp: consumes_def length_one perform_op_def AssignGlobal_def SetGlobalConst_def SetGlobalVar_def
      GetGlobal_def setOp_def)

lemma consumes_literals:
  "takes C ch (ins OpNil pos) 0 (\<lambda>xs. ret NilO)"
  "takes C ch (ins (if b then OpTrue else OpFalse) pos) 0 (\<lambda>xs. ret (BooleanO b))"
  by (auto simp: consumes_def perform_op_def)

lemma mapE_pop:
  "length is = length xs \<Longrightarrow>
     mapE (\<lambda>_. pop pos what) is (v\<lparr>v_stack := xs @ s\<rparr>) h = Val xs (v\<lparr>v_stack := s\<rparr>) h"
proof (induction xs arbitrary: "is")
  case (Cons x xs)
  then obtain j js where "is = j # js" "length js = length xs" by (cases "is") auto
  then show ?case using Cons.IH [of js] by (simp add: ret_def)
qed (simp add: ret_def)

lemma pop_many_pushed:
  "length xs = n \<Longrightarrow> pop_many n pos what (v\<lparr>v_stack := rev xs @ s\<rparr>) h = Val xs (v\<lparr>v_stack := s\<rparr>) h"
  by (simp add: pop_many_def mapE_pop bindE_def ret_def)

lemma consumes_array: "takes C ch (ins_int OpArray (int n) pos) n (\<lambda>xs. ret (ListO xs))"
  by (auto simp: consumes_def perform_op_def BuildArray_def pop_many_pushed bindE_def)

fun pairs_of :: "'a list \<Rightarrow> ('a \<times> 'a) list" where
  "pairs_of (a # b # xs) = (a, b) # pairs_of xs"
| "pairs_of _ = []"

lemma pairs_of_flat [simp]: "pairs_of (concat (map (\<lambda>(a, b). [a, b]) kvs)) = kvs"
  by (induction kvs) auto

lemma rev_pairs:
  "length xs = 2 * n \<Longrightarrow>
     rev xs = concat (map (\<lambda>(a, b). [b, a]) (rev (pairs_of xs))) \<and> length (pairs_of xs) = n"
proof (induction xs arbitrary: n rule: pairs_of.induct)
  case (1 a b xs)
  then show ?case using "1.IH" [of "n - 1"] by (cases n) auto
qed auto

lemma covers_bind2:
  "covers (m v h) (m' v' h') \<Longrightarrow> (\<And>a v h. covers (f a v h) (g a v h)) \<Longrightarrow>
     covers (bindE m f v h) (bindE m' g v' h')"
  by (cases "m v h") auto

lemma mapE_entries:
  "length is = length kvs \<Longrightarrow>
     covers (mapE (map_entry C pos) kvs v h)
       (mapE (\<lambda>_. bindE (pop pos a) (\<lambda>value. bindE (pop pos b) (\<lambda>key. map_entry C pos (key, value)))) is
         (v\<lparr>v_stack := concat (map (\<lambda>(a, b). [b, a]) kvs) @ v_stack v\<rparr>) h)"
proof (induction kvs arbitrary: "is" v h)
  case (Cons kv kvs)
  obtain k x where kv: "kv = (k, x)" by (cases kv)
  obtain j js where js: "is = j # js" "length js = length kvs" using Cons.prems by (cases "is") auto
  let ?s = "concat (map (\<lambda>(a, b). [b, a]) kvs) @ v_stack v"
  have sl: "stackless (map_entry C pos (k, x))" by (rule stackless_intros)
  have e: "map_entry C pos (k, x) (v\<lparr>v_stack := ?s\<rparr>) h = with_stack ?s (map_entry C pos (k, x) v h)"
    by (rule stacklessD [OF sl])
  show ?case
  proof (cases "map_entry C pos (k, x) v h")
    case (Val p v1 h1)
    have "v_stack v1 = v_stack v" by (rule stackless_keeps [OF sl Val])
    then show ?thesis
      using Val e Cons.IH [OF js(2), of v1 h1]
      by (simp add: kv js(1)) (rule covers_bind2, assumption, simp)
  qed (use e in \<open>auto simp: kv js(1)\<close>)
qed (simp add: ret_def)

lemma consumes_hash:
  "takes C ch (ins_int OpHash (int n) pos) (2 * n)
     (\<lambda>xs. bindE (mapE (map_entry C pos) (rev (pairs_of xs))) (\<lambda>es. ret (MapO [] (storage_of es))))"
  unfolding consumes_def
proof (intro allI impI)
  fix R k v h and xs :: "obj list"
  assume len: "length xs = 2 * n"
  have "covers (bindE (mapE (map_entry C pos) (rev (pairs_of xs))) (\<lambda>es. push (MapO [] (storage_of es))) v h)
    (BuildHash C (ins_int OpHash (int n) pos) (v\<lparr>v_stack := rev xs @ v_stack v\<rparr>) h)"
    using rev_pairs [OF len]
    by (simp add: BuildHash_def del: mapE.simps) (rule covers_bind2, rule mapE_entries, simp_all)
  then show "covers (bindE (bindE (mapE (map_entry C pos) (rev (pairs_of xs))) (\<lambda>es. ret (MapO [] (storage_of es)))) push v h)
    (perform_op C R k ch (ins_int OpHash (int n) pos) (v\<lparr>v_stack := rev xs @ v_stack v\<rparr>) h)"
    by (simp add: perform_op_def)
qed

lemma length_three: "length xs = 3 \<longleftrightarrow> (\<exists>x y z. xs = [x, y, z])"
  by (auto simp: length_Suc_conv numeral_3_eq_3)

lemma consumes_slice: "takes C ch (ins OpSlice pos) 3 (\<lambda>xs. make_slice (xs ! 0) (xs ! 1) (xs ! 2))"
  by (auto simp: consumes_def length_three perform_op_def BuildSlice_def)

lemma consumes_pop: "consumes C ch (ins OpPop pos) 1 (\<lambda>xs. discard (xs ! 0))"
  by (auto simp: consumes_def length_one perform_op_def Pop_def discard_def)

lemma consumes_enter: "consumes C ch (ins_int OpPushScope limit pos) 0 (\<lambda>xs. enter_scope limit)"
  by (simp add: consumes_def perform_op_def enter_scope_def PushScope_def)

lemma tasks_val:
  "executeTaskHandlesInCurrentScope x v h = Val y v' h' \<Longrightarrow> deferScopes v' = deferScopes v \<and> h' = h"
  by (auto simp: executeTaskHandlesInCurrentScope_def bindE_def getV_def getH_def modV_def ret_def split: list.splits)

lemma consumes_exit: "takes C ch (ins OpPopScope pos) 1 (\<lambda>xs. exit_scope pos (xs ! 0))"
  unfolding consumes_def
proof (intro allI impI)
  fix R k v h and xs :: "obj list"
  assume "length xs = 1"
  then obtain x where xs: "xs = [x]" by (auto simp: length_one)
  have p: "PopScope C R k (ins OpPopScope pos) (v\<lparr>v_stack := x # v_stack v\<rparr>) h =
    bindE (executeTaskHandlesInCurrentScope x) (\<lambda>x. bindE (executeDeferredInCurrentScope C R k x) (leave_scope pos)) v h"
    if "\<not> is_recur x"
    using that by (simp add: PopScope_def pop_or_nil_def pop_option_def bindE_def ret_def or_nil_def)
  have l: "covers (bindE (thenE (modV (\<lambda>v. v\<lparr>deferScopes := tl (deferScopes v), taskLimits := tl (taskLimits v)\<rparr>))
       (bindE (onH_env (\<lambda>env h. (env_Outer (envs h ! env), h))) (\<lambda>outer.
        case outer of None \<Rightarrow> fail pos ''cannot pop root scope''
        | Some o' \<Rightarrow> thenE (modV (\<lambda>v. v\<lparr>v_env := o'\<rparr>)) (ret y)))) push v' h')
     (bindE (executeDeferredInCurrentScope C R k y) (leave_scope pos) v' h')"
    if "deferScopes v' = [] # ds" for y v' h' ds
    using that
    by (simp add: executeDeferredInCurrentScope_def leave_scope_def bindE_def getV_def modV_def ret_def onH_env_def onH_def
        fail_def errorAt_def fresh_def getH_def stop_def split: option.split)
  have "covers (bindE (exit_scope pos x) push v h) (PopScope C R k (ins OpPopScope pos) (v\<lparr>v_stack := x # v_stack v\<rparr>) h)"
  proof (cases "is_recur x \<or> deferScopes v = [] \<or> hd (deferScopes v) \<noteq> []")
    case True
    then show ?thesis by (simp add: exit_scope_def getV_def bindE_def uncovered_def)
  next
    case False
    then obtain ds where ds: "deferScopes v = [] # ds" by (cases "deferScopes v") auto
    show ?thesis
      using False ds tasks_val [of x v h] l
      unfolding p [OF conjunct1 [OF False [simplified]]] 
      by (cases "executeTaskHandlesInCurrentScope x v h") (simp_all add: exit_scope_def getV_def)
  qed
  then show "covers (bindE (exit_scope pos (xs ! 0)) push v h)
    (perform_op C R k ch (ins OpPopScope pos) (v\<lparr>v_stack := rev xs @ v_stack v\<rparr>) h)"
    by (simp add: xs perform_op_def)
qed

section \<open>Constants and conditionals\<close>

lemma emitConstant_ok:
  "emitConstant k pos c = Inr (u, c') \<longleftrightarrow>
     c' = Chunk (Instructions c @ [ins_int OpConstant (int (length (Constants c))) pos]) (Constants c @ [k])"
  by (auto simp: emitConstant_def addConstant_def cbind_def emitI_ok)

lemma correct_constant:
  assumes "bindClosureIfNeeded k = ret x"
  shows "correct C (emitConstant k pos) (ret x)"
  unfolding correct_acts [symmetric] acts_def
proof (intro conjI allI impI)
  show "appends (emitConstant k pos)" by (auto simp: appends_def emitConstant_ok extends_def)
  fix c u c' ch
  assume ok: "emitConstant k pos c = Inr (u, c')" and seg: "segment ch c c'"
  let ?i = "length (Instructions c)" and ?k = "length (Constants c)"
  have c': "c' = Chunk (Instructions c @ [ins_int OpConstant (int ?k) pos]) (Constants c @ [k])"
    using ok by (simp add: emitConstant_ok)
  have i: "?i < length (Instructions ch)" "Instructions ch ! ?i = ins_int OpConstant (int ?k) pos"
    using seg unfolding segment_def c' by (auto simp: nth_append)
  have "take (Suc ?k) (Constants ch) = Constants c @ [k]" using seg by (simp add: segment_def c')
  then have k: "?k < length (Constants ch)" "Constants ch ! ?k = k"
    by (metis length_append_singleton lessI length_take min_less_iff_conj nth_append_length nth_take)+
  have "sim C ch ?i (Suc ?i) (push x)"
    by (rule sim_op) (use i k assms in \<open>auto simp: perform_op_def LoadConstant_def\<close>)
  then show "sim C ch ?i (length (Instructions c')) (bindE (ret x) push)" by (simp add: c')
qed

text \<open>The code shape shared by \<open>if\<close> and the short-circuit operators.\<close>

definition conditional_code :: "unit cm \<Rightarrow> unit cm \<Rightarrow> unit cm \<Rightarrow> nat \<Rightarrow> unit cm" where
  "conditional_code c a b pos =
     cthen c
       (cbind (emit (ins OpJumpIfFalse pos)) (\<lambda>j.
        cthen a
          (cbind (emit (ins OpJump pos)) (\<lambda>j'. cseq [patchHere j, b, patchHere j']))))"

lemma sim_jump:
  assumes "j < length (Instructions ch)" "Op (Instructions ch ! j) = OpJump"
    and "IntArg (Instructions ch ! j) = int t"
  shows "sim C ch j t (ret ())"
proof (rule simI, intro exI [of _ "Suc 0"] allI)
  fix v h k
  have "run C (Suc k) ch (int j) = run C k ch (int t)"
    using assms by (simp add: run.simps(2) step_def)
  then show "case ret () v h of
      Val _ v' h' \<Rightarrow> run C (Suc 0 + k) ch (int j) v h = run C k ch (int t) v' h'
    | Stop r v' h' \<Rightarrow> \<exists>s. run C (Suc 0 + k) ch (int j) v h = Stop r (v'\<lparr>v_stack := s\<rparr>) h'
    | Panicked s \<Rightarrow> run C (Suc 0 + k) ch (int j) v h = Panicked s
    | OutOfFuel \<Rightarrow> run C (Suc 0 + k) ch (int j) v h = OutOfFuel
    | Unmodelled _ \<Rightarrow> True"
    by (simp add: ret_def)
qed

lemma run_branch:
  assumes "j < length (Instructions ch)" "Op (Instructions ch ! j) = OpJumpIfFalse"
    and "IntArg (Instructions ch ! j) = int l"
  shows "run C (Suc k) ch (int j) (v\<lparr>v_stack := x # s\<rparr>) h =
    run C k ch (int (if isTruthy x then Suc j else l)) (v\<lparr>v_stack := s\<rparr>) h"
  using assms by (simp add: run.simps(2) step_def add.commute)

lemma sim_branch:
  assumes c: "esim C ch ip j m"
    and j: "j < length (Instructions ch)" "Op (Instructions ch ! j) = OpJumpIfFalse"
      "IntArg (Instructions ch ! j) = int l"
    and a: "sim C ch (Suc j) e ma" and b: "sim C ch l e mb"
  shows "sim C ch ip e (bindE m (\<lambda>x. if isTruthy x then ma else mb))"
proof (rule simI)
  fix v h
  obtain n where n:
    "\<And>k v' h'. bindE m push v h = Val () v' h' \<Longrightarrow> run C (n + k) ch (int ip) v h = run C k ch (int j) v' h'"
    "\<And>k r v' h'. bindE m push v h = Stop r v' h' \<Longrightarrow> \<exists>s. run C (n + k) ch (int ip) v h = Stop r (v'\<lparr>v_stack := s\<rparr>) h'"
    "\<And>k s. bindE m push v h = Panicked s \<Longrightarrow> run C (n + k) ch (int ip) v h = Panicked s"
    "\<And>k. bindE m push v h = OutOfFuel \<Longrightarrow> run C (n + k) ch (int ip) v h = OutOfFuel"
    using simE [OF c, of v h] by metis
  show "\<exists>n. \<forall>k. case bindE m (\<lambda>x. if isTruthy x then ma else mb) v h of
      Val _ v' h' \<Rightarrow> run C (n + k) ch (int ip) v h = run C k ch (int e) v' h'
    | Stop r v' h' \<Rightarrow> \<exists>s. run C (n + k) ch (int ip) v h = Stop r (v'\<lparr>v_stack := s\<rparr>) h'
    | Panicked s \<Rightarrow> run C (n + k) ch (int ip) v h = Panicked s
    | OutOfFuel \<Rightarrow> run C (n + k) ch (int ip) v h = OutOfFuel
    | Unmodelled _ \<Rightarrow> True"
  proof (cases "m v h")
    case (Val x v1 h1)
    define t where "t = (if isTruthy x then Suc j else l)"
    define m' where "m' = (if isTruthy x then ma else mb)"
    have s: "sim C ch t e m'" using a b by (simp add: t_def m'_def)
    obtain n' where n': "\<forall>k. case m' v1 h1 of
        Val _ v' h' \<Rightarrow> run C (n' + k) ch (int t) v1 h1 = run C k ch (int e) v' h'
      | Stop r v' h' \<Rightarrow> \<exists>s. run C (n' + k) ch (int t) v1 h1 = Stop r (v'\<lparr>v_stack := s\<rparr>) h'
      | Panicked s \<Rightarrow> run C (n' + k) ch (int t) v1 h1 = Panicked s
      | OutOfFuel \<Rightarrow> run C (n' + k) ch (int t) v1 h1 = OutOfFuel
      | Unmodelled _ \<Rightarrow> True"
      using sim_runs [OF s, of v1 h1] by blast
    have jump: "run C (n + Suc n' + k) ch (int ip) v h = run C (n' + k) ch (int t) v1 h1" for k
      using n(1) [of "v1\<lparr>v_stack := x # v_stack v1\<rparr>" h1 "Suc (n' + k)"] Val run_branch [OF j, where v = v1 and s = "v_stack v1" and x = x and h = h1 and C = C and k = "n' + k"]
      by (simp add: push_apply t_def add.assoc del: of_nat_Suc)
    have eq: "bindE m (\<lambda>x. if isTruthy x then ma else mb) v h = m' v1 h1"
      using Val by (simp add: m'_def)
    show ?thesis
      unfolding eq using n' by (intro exI [of _ "n + Suc n'"]) (simp only: jump simp_thms)
  qed (use n in \<open>auto intro: exI [of _ n]\<close>)
qed

lemma conditional_ok:
  assumes "conditional_code c a b pos c0 = Inr (u, c7)" "appends c" "appends a" "appends b"
    and seg: "segment ch c0 c7"
  obtains c1 c2 c3 c5 c6 where
    "c c0 = Inr ((), c1)" "segment ch c0 c1"
    "a c2 = Inr ((), c3)" "segment ch c2 c3" "length (Instructions c2) = Suc (length (Instructions c1))"
    "b c5 = Inr ((), c6)" "segment ch c5 c6" "length (Instructions c5) = Suc (length (Instructions c3))"
    "length (Instructions c7) = length (Instructions c6)"
    "length (Instructions c1) < length (Instructions ch)"
    "Op (Instructions ch ! length (Instructions c1)) = OpJumpIfFalse"
    "IntArg (Instructions ch ! length (Instructions c1)) = int (length (Instructions c5))"
    "length (Instructions c3) < length (Instructions ch)"
    "Op (Instructions ch ! length (Instructions c3)) = OpJump"
    "IntArg (Instructions ch ! length (Instructions c3)) = int (length (Instructions c6))"
proof -
  let ?jif = "ins OpJumpIfFalse pos" and ?jmp = "ins OpJump pos"
  let ?patch = "\<lambda>c j. Chunk ((Instructions c)[j := set_IntArg (int (length (Instructions c))) (Instructions c ! j)]) (Constants c)"
  obtain c1 c3 c6 where ok: "c c0 = Inr ((), c1)"
    "a (Chunk (Instructions c1 @ [?jif]) (Constants c1)) = Inr ((), c3)"
    "b (?patch (Chunk (Instructions c3 @ [?jmp]) (Constants c3)) (length (Instructions c1))) = Inr ((), c6)"
    "c7 = ?patch c6 (length (Instructions c3))"
    using assms(1) unfolding conditional_code_def
    by (auto simp: cthen_ok cbind_def emit_def patchHere_def patchJump_def split: sum.splits)
  define c2 where "c2 = Chunk (Instructions c1 @ [?jif]) (Constants c1)"
  define c5 where "c5 = ?patch (Chunk (Instructions c3 @ [?jmp]) (Constants c3)) (length (Instructions c1))"
  have ext: "extends c0 c1" "extends c2 c3" "extends c5 c6"
    using assms(2-4) ok(1-3) unfolding appends_def c2_def c5_def by blast+
  obtain z1 z3 z6 where z: "Instructions c1 = Instructions c0 @ z1" "Instructions c3 = Instructions c1 @ ?jif # z3"
    "Instructions c6 = Instructions c5 @ z6"
    using ext unfolding extends_def take_eq_prefix c2_def by auto
  define J where "J = set_IntArg (int (length (Instructions c5))) ?jif"
  define J' where "J' = set_IntArg (int (length (Instructions c6))) ?jmp"
  have c5: "Instructions c5 = Instructions c1 @ J # z3 @ [?jmp]"
    by (simp add: c5_def z J_def nth_append list_update_append)
  have c7: "Instructions c7 = Instructions c1 @ J # z3 @ J' # z6"
    by (simp add: ok(4) z c5 J'_def nth_append list_update_append)
  obtain y1 y3 y6 where k: "Constants c1 = Constants c0 @ y1" "Constants c3 = Constants c1 @ y3"
    "Constants c6 = Constants c3 @ y6" "Constants c7 = Constants c6"
    using ext unfolding extends_def take_eq_prefix by (auto simp: c2_def c5_def ok(4))
  obtain y where y: "Constants ch = Constants c7 @ y"
    using seg unfolding segment_def take_eq_prefix by blast
  have ch: "i < length (Instructions ch) \<and> Instructions ch ! i = Instructions c7 ! i"
    if "length (Instructions c0) \<le> i" "i < length (Instructions c7)" for i
    using seg that unfolding segment_def by blast
  show thesis
  proof (rule that [of c1 c2 c3 c5 c6])
    show "segment ch c0 c1"
      using ch by (auto simp: segment_def y k c7 nth_append z(1))
    show "segment ch c2 c3"
      using ch by (auto simp: segment_def y k c7 c2_def z nth_append nth_Cons' less_diff_conv)
    show "segment ch c5 c6"
      using ch by (auto simp: segment_def y k c7 c5 z(1,3) nth_append nth_Cons')
    show "length (Instructions c1) < length (Instructions ch)"
      "Op (Instructions ch ! length (Instructions c1)) = OpJumpIfFalse"
      "IntArg (Instructions ch ! length (Instructions c1)) = int (length (Instructions c5))"
      using ch [of "length (Instructions c1)"] by (simp_all add: c7 z(1) nth_append J_def set_IntArg_def ins_def)
    show "length (Instructions c3) < length (Instructions ch)"
      "Op (Instructions ch ! length (Instructions c3)) = OpJump"
      "IntArg (Instructions ch ! length (Instructions c3)) = int (length (Instructions c6))"
      using ch [of "length (Instructions c3)"]
      by (simp_all add: c7 z(1,2) nth_append J'_def set_IntArg_def ins_def)
  qed (use ok in \<open>simp_all add: c2_def c5_def z\<close>)
qed

lemma acts_conditional:
  assumes "correct C c m" "acts C a ma" "acts C b mb" "appends (conditional_code c a b pos)"
  shows "acts C (conditional_code c a b pos) (bindE m (\<lambda>x. if isTruthy x then ma else mb))"
  unfolding acts_def
proof (intro conjI allI impI)
  have app: "appends c" "appends a" "appends b"
    using assms by (simp_all add: correctL_def acts_def)
  show "appends (conditional_code c a b pos)" by (rule assms(4))
  fix c0 u c7 ch
  assume "conditional_code c a b pos c0 = Inr (u, c7)" "segment ch c0 c7"
  then show "sim C ch (length (Instructions c0)) (length (Instructions c7)) (bindE m (\<lambda>x. if isTruthy x then ma else mb))"
  proof (rule conditional_ok [OF _ app], goal_cases)
    case (1 c1 c2 c3 c5 c6)
    have "esim C ch (length (Instructions c0)) (length (Instructions c1)) m"
      using assms(1) 1(1,2) unfolding correct_acts [symmetric] acts_def by blast
    moreover have "sim C ch (length (Instructions c2)) (length (Instructions c3)) ma"
      using assms(2) 1(3,4) unfolding acts_def by blast
    then have "sim C ch (length (Instructions c2)) (length (Instructions c6)) (thenE ma (ret ()))"
      by (rule sim_trans) (rule sim_jump [OF 1(13-15)])
    moreover have "sim C ch (length (Instructions c5)) (length (Instructions c6)) mb"
      using assms(3) 1(6,7) unfolding acts_def by blast
    ultimately show ?case
      using sim_branch [OF _ 1(10-12)] 1(5,9) by simp
  qed
qed

section \<open>Uncovered constructs\<close>

lemma acts_uncovered: "appends cm \<Longrightarrow> acts C cm uncovered"
  unfolding acts_def by (auto intro!: simI simp: uncovered_def)

lemma acts_cfail: "acts C (cfail e) m"
  by (simp add: acts_def appends_def cfail_def)

lemma push_uncovered: "thenE (push x) uncovered = uncovered"
  by (simp add: bindE_def push_apply uncovered_def fun_eq_iff)

lemma uncovered_bind [simp]: "bindE uncovered f = uncovered"
  by (simp add: bindE_def uncovered_def fun_eq_iff)

lemma correct_uncovered: "appends cm \<Longrightarrow> correct C cm uncovered"
  unfolding correct_acts [symmetric] by (simp add: acts_uncovered)

lemma correctL_uncovered [simp]: "correctL C cm uncovered \<longleftrightarrow> appends cm"
  using acts_uncovered [of cm C] unfolding acts_correctL [symmetric] by (auto simp: acts_def)

lemma correct_then_uncovered:
  assumes "correct C a m" "appends b"
  shows "correct C (cthen a b) (bindE m (\<lambda>x. uncovered))"
  using acts_then [OF assms(1) [folded correct_acts] acts_uncovered [OF assms(2)]]
  unfolding correct_acts [symmetric] by (simp add: push_uncovered)

lemma acts_discard:
  assumes "correct C a m" "acts C b n"
  shows "acts C (cthen a (cthen (emitI (ins OpPop pos)) b)) (bindE m (\<lambda>x. thenE (discard x) n))"
proof -
  have "acts C (cthen a (emitI (ins OpPop pos))) (bindE m discard)"
    using acts_op [OF assms(1) yields_intros(2) consumes_pop [where pos = pos]] by simp
  then show ?thesis using acts_then [OF _ assms(2)] by fastforce
qed

section \<open>Expressions\<close>

lemma appends_compile:
  "appends (compileExpression e)" "appends (compileBlock compileExpression b)"
  "appends (compileStatement compileExpression s)" "appends (compileBlockStmts compileExpression ss)"
  by (auto intro!: appends_closed slug.closed_ce slug.closed_stmt)

lemma stackless_lists [stackless_intros]: "stackless (sem_list C es)" "stackless (sem_pairs C ps)"
  by (auto intro!: stackless_sem_list stackless_sem_pairs stackless_intros)

lemma correct_list:
  "\<forall>e\<in>set es. correct C (compileExpression e) (sem C e) \<Longrightarrow>
     correctL C (cseq (map compileExpression es)) (sem_list C es) \<and> yields (sem_list C es) (length es)"
proof (induction es)
  case (Cons e es)
  then show ?case by (auto intro!: correctL_cons yields_intros stackless_sem_list stackless_intros)
qed (simp add: correctL_nil yields_intros)

lemma correct_pairs:
  "\<forall>p\<in>set ps. correct C (compileExpression (fst p)) (sem C (fst p)) \<and> correct C (compileExpression (snd p)) (sem C (snd p)) \<Longrightarrow>
     correctL C (cseq (map (\<lambda>(k, v). cthen (compileExpression k) (compileExpression v)) ps))
       (bindE (sem_pairs C ps) (\<lambda>kvs. ret (concat (map (\<lambda>(a, b). [a, b]) kvs)))) \<and>
     yields (bindE (sem_pairs C ps) (\<lambda>kvs. ret (concat (map (\<lambda>(a, b). [a, b]) kvs)))) (2 * length ps)"
proof (induction ps)
  case (Cons p ps)
  obtain k e where p: "p = (k, e)" by (cases p)
  let ?ms = "bindE (sem_pairs C ps) (\<lambda>kvs. ret (concat (map (\<lambda>(a, b). [a, b]) kvs)))"
  let ?m = "bindE (sem C k) (\<lambda>x. bindE (bindE (sem C e) (\<lambda>y. bindE ?ms (\<lambda>xs. ret (y # xs)))) (\<lambda>xs. ret (x # xs)))"
  have eq: "bindE (sem_pairs C (p # ps)) (\<lambda>kvs. ret (concat (map (\<lambda>(a, b). [a, b]) kvs))) = ?m"
    by (simp add: p)
  have "stackless ?ms" by (intro stackless_intros)
  then have "correctL C (cthen (compileExpression k) (cthen (compileExpression e)
      (cseq (map (\<lambda>(k, v). cthen (compileExpression k) (compileExpression v)) ps)))) ?m"
    using Cons p by (intro correctL_cons stackless_intros) auto
  moreover have "yields ?m (Suc (Suc (2 * length ps)))"
    using Cons by (intro yields_intros) auto
  ultimately show ?case unfolding eq by (simp add: p)
qed (simp add: correctL_nil yields_intros)

lemma correct_stmts:
  "\<forall>s\<in>set ss. \<forall>t e. s = ExpressionStatement t e \<longrightarrow> correct C (compileExpression e) (sem C e) \<Longrightarrow>
     correct C (compileBlockStmts compileExpression ss) (sem_stmts C ss)"
proof (induction ss)
  case (Cons s ss)
  have other: "sem_stmts C (s # ss) = uncovered \<Longrightarrow> ?case"
    using correct_uncovered [OF appends_compile(4)] by (simp only:)
  show ?case
  proof (cases s)
    case (ExpressionStatement t e)
    have e: "correct C (compileExpression e) (sem C e)" using Cons.prems ExpressionStatement by simp
    have ss: "correct C (compileBlockStmts compileExpression ss) (sem_stmts C ss)" using Cons by simp
    show ?thesis
    proof (cases "ss = []")
      case False
      then show ?thesis
        using acts_discard [OF e ss [folded correct_acts], of "tok_Position t"]
        unfolding correct_acts [symmetric] by (simp add: ExpressionStatement)
    qed (use e in \<open>simp add: ExpressionStatement\<close>)
  qed (use other in \<open>simp_all del: compileBlockStmts.simps\<close>)
qed (simp add: appends_cret)

lemma correct_block:
  assumes "\<forall>s\<in>set (bs_Statements b). \<forall>t e. s = ExpressionStatement t e \<longrightarrow> correct C (compileExpression e) (sem C e)"
  shows "correct C (compileBlock compileExpression (Some b)) (sem_block C (Some b))"
proof (cases "scopeLimit b")
  case (Inl e)
  then show ?thesis using appends_compile(2) [of "Some b"] by simp
next
  case (Inr limit)
  let ?pos = "tok_Position (bs_Token b)"
  let ?body = "if bs_Statements b = [] then emitI (ins OpNil ?pos) else compileBlockStmts compileExpression (bs_Statements b)"
  let ?m = "if bs_Statements b = [] then ret NilO else sem_stmts C (bs_Statements b)"
  have "correct C ?body ?m"
    using acts_leaf [OF consumes_literals(1) [where C = C and pos = ?pos]] correct_stmts [OF assms]
    by (simp add: correct_acts [symmetric])
  then have body: "correct C (cthen ?body (emitI (ins OpPopScope ?pos))) (bindE ?m (exit_scope ?pos))"
    using correct_unop [OF _ consumes_exit, of C ?body ?m ?pos] by simp
  have enter: "acts C (emitI (ins_int OpPushScope limit ?pos)) (enter_scope limit)"
    using acts_leaf [OF consumes_enter [where C = C and limit = limit and pos = ?pos]] by simp
  show ?thesis
    using acts_then [OF enter body [folded correct_acts]]
    unfolding correct_acts [symmetric] by (simp add: Inr Let_def)
qed

lemma correct_maybe:
  "correct C (compileExpression e) (sem C e) \<Longrightarrow>
     correct C (compileMaybeExpression compileExpression e) (sem_maybe C e)"
  using acts_leaf [OF consumes_literals(1) [where C = C and pos = 0]]
  by (simp add: compileMaybeExpression_def sem_maybe.simps correct_acts [symmetric])

lemma correct_leaf: "(\<And>ch. takes C ch i 0 (\<lambda>xs. m)) \<Longrightarrow> \<not> is_jump (Op i) \<Longrightarrow> correct C (emitI i) m"
  unfolding correct_acts [symmetric] by (drule acts_leaf) simp_all

lemma correct_conditional:
  assumes "correct C c m" "correct C a ma" "correct C b mb" "appends (conditional_code c a b pos)"
  shows "correct C (conditional_code c a b pos) (bindE m (\<lambda>x. if isTruthy x then ma else mb))"
  using acts_conditional [OF assms(1) assms(2,3) [folded correct_acts] assms(4)]
  unfolding correct_acts [symmetric] by (simp add: if_bindE)

lemma conditional_forms:
  "compileIf ce pos c th el = conditional_code (ce c) (compileBlock ce th)
     (if el = None then emitI (ins OpNil pos) else compileBlock ce el) pos"
  "compileShortCircuit ce pos l ''&&'' r = conditional_code (ce l) (ce r) (emitI (ins OpFalse pos)) pos"
  "op \<noteq> ''&&'' \<Longrightarrow> compileShortCircuit ce pos l op r = conditional_code (ce l) (emitI (ins OpTrue pos)) (ce r) pos"
  by (simp_all add: compileIf_def compileShortCircuit_def conditional_code_def)

lemma correct_short_circuit:
  assumes "correct C (compileExpression l) (sem C l)" "correct C (compileExpression r) (sem C r)" "op \<in> {''&&'', ''||''}"
  shows "correct C (compileInfix compileExpression pos l op r)
    (bindE (sem C l) (\<lambda>x. if isTruthy x then (if op = ''&&'' then sem C r else ret (BooleanO True))
                          else (if op = ''&&'' then ret (BooleanO False) else sem C r)))"
proof -
  have app: "appends (compileInfix compileExpression pos l op r)"
    by (rule appends_closed) (rule slug.closed_infix)
  have b: "correct C (emitI (ins OpTrue pos)) (ret (BooleanO True))"
    "correct C (emitI (ins OpFalse pos)) (ret (BooleanO False))"
    using correct_leaf [OF consumes_literals(2) [of C _ True pos]] correct_leaf [OF consumes_literals(2) [of C _ False pos]]
    by simp_all
  show ?thesis
  proof (cases "op = ''&&''")
    case True
    then show ?thesis
      using correct_conditional [OF assms(1,2) b(2), of pos] app
      by (simp add: compileInfix_def conditional_forms)
  next
    case False
    then show ?thesis
      using correct_conditional [OF assms(1) b(1) assms(2), of pos] app assms(3)
      by (simp add: compileInfix_def conditional_forms)
  qed
qed

lemma correct_infix:
  assumes "\<And>e. size e < size (InfixExpression t l op r) \<Longrightarrow> correct C (compileExpression e) (sem C e)"
  shows "correct C (compileInfix compileExpression (tok_Position t) l op r) (sem C (InfixExpression t l op r))"
proof -
  let ?pos = "tok_Position t"
  have lr: "correct C (compileExpression l) (sem C l)" "correct C (compileExpression r) (sem C r)"
    using assms by simp_all
  have el: "correct C (compileExpression x) (sem C x)"
    if "singleElementListLiteral l = Some x \<or> singleElementListLiteral r = Some x" for x
    using that size_singleElement [of l x] size_singleElement [of r x] by (intro assms) auto
  have sl: "stackless (sem C x)" for x by (rule stackless_intros)
  consider "op = ''=''" | "op \<in> {''&&'', ''||''}" | "op \<notin> {''='', ''&&'', ''||''}" by blast
  then show ?thesis
  proof cases
    case 1
    have "correct C (cthen (compileExpression r) (emitName OpAssignGlobal name ?pos)) (bindE (sem C r) (assign_name ?pos name))" for name
      unfolding emitName_def using correct_unop [OF lr(2) consumes_names(1) [where name = name and pos = ?pos]] by simp
    then show ?thesis
      using 1 by (cases l) (simp_all add: compileInfix_def sem.simps appends_def cfail_def)
  next
    case 2
    then show ?thesis
      using correct_short_circuit [OF lr 2, of ?pos]
      by (subst sem.simps) (auto cong: if_cong)
  next
    case 3
    have app: "correct C (cthen (compileExpression l) (cthen (compileExpression x) (emitI (ins OpListAppend ?pos))))
        (bindE (sem C l) (\<lambda>a. bindE (sem C x) (\<lambda>b. liftF ?pos (listAppend a b))))"
      if "singleElementListLiteral r = Some x" for x
      using correct_binop [OF lr(1) el sl consumes_extend(1) [where pos = ?pos], of x] that by simp
    have pre: "correct C (cthen (compileExpression x) (cthen (compileExpression r) (emitI (ins OpListPrepend ?pos))))
        (bindE (sem C x) (\<lambda>a. bindE (sem C r) (\<lambda>b. liftF ?pos (listPrepend a b))))"
      if "singleElementListLiteral l = Some x" for x
      using correct_binop [OF el lr(2) sl consumes_extend(2) [where pos = ?pos], of x] that by simp
    have bin: "correct C (cthen (compileExpression l) (cthen (compileExpression r)
          (case infixOpcode op of Some opc \<Rightarrow> emitI (ins opc ?pos)
           | None \<Rightarrow> cfail (err_at ?pos (''unsupported infix operator '' @ dquoted op)))))
        (bindE (sem C l) (\<lambda>a. bindE (sem C r) (\<lambda>b. operate C ?pos op a b)))"
    proof (cases "infixOpcode op")
      case None
      then show ?thesis by (simp add: correctL_def appends_def cthen_ok cfail_def)
    next
      case (Some opc)
      show ?thesis
        using correct_binop [OF lr sl consumes_binary [OF Some, where pos = ?pos]] infixOpcode_simple [OF Some]
        by (simp add: Some)
    qed
    show ?thesis
      using 3 app pre bin unfolding compileInfix_def
      by (subst sem.simps) (auto split: option.split)
  qed
qed

lemma correct_decl:
  assumes "correct C (compileExpression e) (sem C e)"
  shows "correct C (compileDecl compileExpression isConst tags pos p e doc hasDoc)
    (bindE (sem C e) (\<lambda>x. declare_name C isConst pos tags p x hasDoc))"
proof (cases "(\<exists>t i. p = IdentifierPattern t i) \<and> tags = [] \<and> \<not> hasDoc")
  case True
  then obtain t i where p: "p = IdentifierPattern t i" "tags = []" "\<not> hasDoc" by blast
  have "correct C (cthen (compileExpression e) (emitI (ins_str (setOp isConst) (id_Value i) pos)))
      (bindE (sem C e) (\<lambda>x. (if isConst then define_const else define_var) C pos (id_Value i) x))"
    using correct_unop [OF assms consumes_names(2) [where name = "id_Value i" and pos = pos and isConst = isConst]]
    by (simp add: setOp_def)
  then show ?thesis
    by (simp add: p compileDecl_def declare_name_def compileBindPattern.simps bindIdent_def emitName_def)
next
  case False
  have "closed (cseq [if tags = [] then cret () else emitName OpApplyTags (encodeTagNames tags) pos,
      compileBindPattern compileExpression p isConst pos,
      case p of IdentifierPattern _ v \<Rightarrow>
          (if hasDoc then emitI (Instruction OpSetDoc 0 (id_Value v) doc [] [] pos) else cret ())
      | _ \<Rightarrow> cret ()])" (is "closed ?rest")
    by (intro closed_seq)
      (auto intro!: closed_intros slug.closed_bind(1) [OF refl] simp del: compileBindPattern.simps split: pattern.split)
  then have "correct C (cthen (compileExpression e) ?rest) (bindE (sem C e) (\<lambda>x. uncovered))"
    by (intro correct_then_uncovered assms appends_closed)
  moreover have "declare_name C isConst pos tags p x hasDoc = uncovered" for x
    using False by (cases p) (auto simp: declare_name_def)
  ultimately show ?thesis by (simp add: compileDecl_def)
qed

lemma correct_prefix:
  assumes "correct C (compileExpression e) (sem C e)"
  shows "correct C (compilePrefix compileExpression pos op e)
    (bindE (sem C e) (\<lambda>x. case prefixOpcode op of Some opc \<Rightarrow> liftF pos (evalPrefix opc x) | None \<Rightarrow> uncovered))"
proof (cases "prefixOpcode op")
  case None
  then show ?thesis by (simp add: compilePrefix_def correctL_def appends_def cthen_ok cfail_def)
next
  case (Some opc)
  then show ?thesis
    using correct_unop [OF assms consumes_unary [OF Some, where pos = pos]] prefixOpcode_simple [OF Some]
    by (simp add: compilePrefix_def)
qed

text \<open>Every construct, by induction on the size of the expression.\<close>

lemma correct_expression: "correct C (compileExpression e) (sem C e)"
proof (induction e rule: measure_induct_rule [where f = size])
  case (less e)
  have blk: "correct C (compileBlock compileExpression b) (sem_block C b)"
    if "size_option (size_BlockStatement size size) b \<le> size e" for b
  proof (cases b)
    case None
    then show ?thesis using correct_leaf [OF consumes_literals(1) [of C _ 0]] by simp
  next
    case (Some b')
    have "correct C (compileExpression e') (sem C e')" if "ExpressionStatement t e' \<in> set (bs_Statements b')" for t e'
      using size_stmt_in_block [OF that] \<open>size_option (size_BlockStatement size size) b \<le> size e\<close> Some
      by (intro less) simp
    then show ?thesis unfolding Some by (intro correct_block) blast
  qed
  have sl: "stackless (sem C x)" for x by (rule stackless_intros)
  have app: "appends (exprStep compileExpression e)"
    using appends_compile(1) [of e] by (simp only: compileExpression.simps [of e])
  show ?case
  proof (cases e)
    case (InfixExpression t l op r)
    then show ?thesis using correct_infix [of t l op r C] less by (simp add: compileExpression.simps [of "InfixExpression t l op r"])
  next
    case (ValExpression tags t p ty e1 doc hasDoc)
    then show ?thesis
      using correct_decl [OF less [of e1], of True tags "tok_Position t" p doc hasDoc]
      unfolding compileExpression.simps [of e] sem.simps [of C e] by simp
  next
    case (VarExpression tags t p ty e1 doc hasDoc)
    then show ?thesis
      using correct_decl [OF less [of e1], of False tags "tok_Position t" p doc hasDoc]
      unfolding compileExpression.simps [of e] sem.simps [of C e] by simp
  next
    case (PrefixExpression t op e1)
    then show ?thesis
      using correct_prefix [OF less [of e1], of "tok_Position t" op]
      unfolding compileExpression.simps [of e] sem.simps [of C e] by simp
  next
    case (BlockExpr b)
    then show ?thesis using blk [of "Some b"] unfolding compileExpression.simps [of e] sem.simps [of C e] by simp
  next
    case (IfExpression t c a b)
    have "correct C (if b = None then emitI (ins OpNil (tok_Position t)) else compileBlock compileExpression b)
        (if b = None then ret NilO else sem_block C b)"
      using blk [of b] IfExpression correct_leaf [OF consumes_literals(1) [of C _ "tok_Position t"]] by simp
    moreover have "appends (compileIf compileExpression (tok_Position t) c a b)"
      by (rule appends_closed) (rule slug.closed_if)
    ultimately have "correct C (compileIf compileExpression (tok_Position t) c a b)
        (bindE (sem C c) (\<lambda>x. if isTruthy x then sem_block C a else if b = None then ret NilO else sem_block C b))"
      using less [of c] blk [of a] IfExpression unfolding conditional_forms
      by (intro correct_conditional) simp_all
    then show ?thesis unfolding compileExpression.simps [of e] sem.simps [of C e] by (simp add: IfExpression)
  next
    case (ListLiteral t es)
    have l: "correctL C (cseq (map compileExpression es)) (sem_list C es)" "yields (sem_list C es) (length es)"
      using correct_list [of es C] less ListLiteral by (auto simp: size_mem less_Suc_eq)
    show ?thesis
      using acts_op [OF l consumes_array [of C _ "length es" "tok_Position t"]]
      unfolding correct_acts [symmetric]
      unfolding compileExpression.simps [of e] sem.simps [of C e] by (simp add: ListLiteral compileListLiteral_def)
  next
    case (MapLiteral t ps)
    have "\<forall>p\<in>set ps. correct C (compileExpression (fst p)) (sem C (fst p)) \<and> correct C (compileExpression (snd p)) (sem C (snd p))"
      using less MapLiteral size_pair_mem [where ps = ps] by (force simp: less_Suc_eq)
    from correct_pairs [OF this] show ?thesis
      using acts_op [OF _ _ consumes_hash [of C _ "length ps" "tok_Position t"],
          of "cseq (map (\<lambda>(k, v). cthen (compileExpression k) (compileExpression v)) ps)"
            "bindE (sem_pairs C ps) (\<lambda>kvs. ret (concat (map (\<lambda>(a, b). [a, b]) kvs)))"]
      unfolding correct_acts [symmetric]
      unfolding compileExpression.simps [of e] sem.simps [of C e] by (simp add: MapLiteral compileMapLiteral_def)
  next
    case (IndexExpression t e1 e2 isDot)
    then show ?thesis
      using correct_binop [OF less [of e1] less [of e2] sl consumes_index [of C _ isDot "tok_Position t"]]
      unfolding compileExpression.simps [of e] sem.simps [of C e] by (simp add: compileIndex_def)
  next
    case (SliceExpression t e1 e2 e3)
    have m: "correct C (compileMaybeExpression compileExpression x) (sem_maybe C x)" "stackless (sem_maybe C x)"
      if "size x < size e" for x
      using less [OF that] correct_maybe sl by (simp_all add: sem_maybe.simps stackless_intros)
    let ?ms = "bindE (sem_maybe C e1) (\<lambda>a. bindE (bindE (sem_maybe C e2) (\<lambda>b. bindE (bindE (sem_maybe C e3)
        (\<lambda>c. ret [c])) (\<lambda>xs. ret (b # xs)))) (\<lambda>xs. ret (a # xs)))"
    have l: "correctL C (cthen (compileMaybeExpression compileExpression e1)
        (cthen (compileMaybeExpression compileExpression e2) (compileMaybeExpression compileExpression e3))) ?ms"
      using m [of e1] m [of e2] m [of e3] SliceExpression by (intro correctL_cons stackless_intros) auto
    have y: "yields ?ms 3" unfolding numeral_3_eq_3 by (intro yields_intros yields_intros(2) [unfolded One_nat_def])
    show ?thesis
      using acts_op [OF l y consumes_slice [of C _ "tok_Position t"]]
      unfolding correct_acts [symmetric]
      unfolding compileExpression.simps [of e] sem.simps [of C e] by (simp add: SliceExpression compileSlice_def)
  next
    case (TypeApplicationExpression t e1 ts)
    then show ?thesis using less [of e1] unfolding compileExpression.simps [of e] sem.simps [of C e] by simp
  qed (unfold compileExpression.simps [of e] sem.simps [of C e], use app correct_constant correct_leaf [OF consumes_literals(1)] correct_leaf [OF consumes_literals(2)]
      correct_leaf [OF consumes_names(3)] in
    \<open>simp_all add: bindClosureIfNeeded_def emitName_def\<close>)
qed

section \<open>Scopes are left as they were found\<close>

definition balanced :: "'a exec \<Rightarrow> bool" where
  "balanced m \<longleftrightarrow>
     (\<forall>v h a v' h'. m v h = Val a v' h' \<longrightarrow>
        deferScopes v' = deferScopes v \<and> taskScopes v' = taskScopes v \<and> borrowedTaskDepth v' = borrowedTaskDepth v)"

named_theorems balanced_intros \<open>computations that leave the scopes as they found them\<close>

lemma balanced_bind [balanced_intros]:
  "balanced m \<Longrightarrow> (\<And>x. balanced (f x)) \<Longrightarrow> balanced (bindE m f)"
  unfolding balanced_def bindE_def by (fastforce split: outcome.splits)

lemma balanced_basic [balanced_intros]:
  "balanced (ret a)" "balanced (stop r)" "balanced (getH g)" "balanced (getV f)" "balanced (onH k)"
  "balanced (panic s)" "balanced uncovered" "balanced (\<lambda>v h. OutOfFuel)" "balanced (onH_env e)" "balanced fresh"
  "balanced (discard x)"
  by (auto simp: balanced_def ret_def stop_def getH_def getV_def onH_def panic_def uncovered_def onH_env_def fresh_def
      discard_def modV_def bindE_def split: prod.splits)

lemma balanced_errors [balanced_intros]:
  "balanced (errorAt pos msg)" "balanced (fail pos msg)" "balanced (liftM pos r)" "balanced (liftF pos q)"
  "balanced (resolveValue pos x)"
  unfolding errorAt_def fail_def liftM_def liftF_def resolveValue_def
  by (auto intro!: balanced_intros split: sum.splits fault.splits option.splits)

lemma balanced_mapE [balanced_intros]: "(\<And>x. balanced (f x)) \<Longrightarrow> balanced (mapE f xs)"
  by (induction xs) (auto intro!: balanced_intros)

lemma balanced_operations [balanced_intros]:
  "balanced (read_name pos name)" "balanced (name_schema x name)" "balanced (merge_overload C name x)"
  "balanced (assign_name pos name x)" "balanced (map_entry C pos kv)" "balanced (make_slice a b c)"
  "balanced (index_value C pos d x y)" "balanced (operate C pos op a b)"
  unfolding read_name_def name_schema_def merge_overload_def assign_name_def map_entry_def make_slice_def
    index_value_def operate_def
  by (auto intro!: balanced_intros split: option.splits obj.splits)

lemma balanced_declare [balanced_intros]: "balanced (declare_name C ic pos tags p x doc)"
  unfolding declare_name_def define_const_def define_var_def
  by (auto intro!: balanced_intros split: option.splits pattern.splits)

lemma balanced_if: "balanced m \<Longrightarrow> balanced n \<Longrightarrow> balanced (if b then m else n)"
  by simp

lemma balanced_option: "balanced m \<Longrightarrow> (\<And>x. q = Some x \<Longrightarrow> balanced (n x)) \<Longrightarrow> balanced (case q of None \<Rightarrow> m | Some x \<Rightarrow> n x)"
  by (cases q) simp_all

lemma balanced_ident:
  "(\<And>i. balanced (m i)) \<Longrightarrow> balanced (case l of IdentifierExpr i \<Rightarrow> m i | _ \<Rightarrow> uncovered)"
  by (cases l) (simp_all add: balanced_intros)

lemma enter_val:
  "enter_scope n v h = Val u v' h' \<Longrightarrow>
     deferScopes v' = [] # deferScopes v \<and> tl (taskScopes v') = taskScopes v \<and> taskScopes v' \<noteq> [] \<and>
     borrowedTaskDepth v' = borrowedTaskDepth v"
  by (auto simp: enter_scope_def PushScope_def resolveScopeLimit_def bindE_def modV_def getV_def getH_def ret_def
      onH_env_def onH_def Let_def split: outcome.splits if_splits prod.splits)

lemma exit_val:
  "exit_scope pos x v h = Val y v' h' \<Longrightarrow>
     deferScopes v' = tl (deferScopes v) \<and> taskScopes v' = tl (taskScopes v) \<and> borrowedTaskDepth v' = borrowedTaskDepth v"
  by (auto simp: exit_scope_def executeTaskHandlesInCurrentScope_def uncovered_def fail_def errorAt_def fresh_def stop_def
      bindE_def modV_def getV_def getH_def ret_def onH_env_def onH_def
      split: outcome.splits if_splits option.splits list.splits)

lemma balanced_scope: "balanced m \<Longrightarrow> balanced (thenE (enter_scope n) (bindE m (exit_scope pos)))"
proof -
  assume m: "balanced m"
  show ?thesis
    unfolding balanced_def
  proof (intro allI impI)
    fix v h a v' h'
    assume "thenE (enter_scope n) (bindE m (exit_scope pos)) v h = Val a v' h'"
    then obtain u v1 h1 x v2 h2 where e: "enter_scope n v h = Val u v1 h1" "m v1 h1 = Val x v2 h2"
      "exit_scope pos x v2 h2 = Val a v' h'"
      by (auto simp: bindE_def split: outcome.splits)
    then show "deferScopes v' = deferScopes v \<and> taskScopes v' = taskScopes v \<and> borrowedTaskDepth v' = borrowedTaskDepth v"
      using enter_val [OF e(1)] exit_val [OF e(3)] m unfolding balanced_def by (metis list.sel(3))
  qed
qed

lemma balanced_sem_list: "\<forall>e\<in>set es. balanced (sem C e) \<Longrightarrow> balanced (sem_list C es)"
  by (induction es) (auto intro!: balanced_intros)

lemma balanced_sem_pairs:
  "\<forall>p\<in>set ps. balanced (sem C (fst p)) \<and> balanced (sem C (snd p)) \<Longrightarrow> balanced (sem_pairs C ps)"
  by (induction ps) (auto intro!: balanced_intros)

lemma balanced_sem_block:
  "\<forall>s\<in>set (bs_Statements b). \<forall>t e. s = ExpressionStatement t e \<longrightarrow> balanced (sem C e) \<Longrightarrow>
     balanced (sem_block C (Some b))"
proof -
  have "\<forall>s\<in>set ss. \<forall>t e. s = ExpressionStatement t e \<longrightarrow> balanced (sem C e) \<Longrightarrow> balanced (sem_stmts C ss)" for ss
    by (induction ss) (auto intro!: balanced_intros split: stmt.split)
  then show "\<forall>s\<in>set (bs_Statements b). \<forall>t e. s = ExpressionStatement t e \<longrightarrow> balanced (sem C e) \<Longrightarrow> ?thesis"
    unfolding sem_block.simps
    by (cases "scopeLimit b") (simp_all only: sum.case, auto intro!: balanced_intros balanced_scope balanced_if simp del: bindE_ret)
qed

lemma balanced_sem [balanced_intros]: "balanced (sem C e)"
proof (induction e rule: measure_induct_rule [where f = size])
  case (less e)
  have blk: "balanced (sem_block C b)" if "size_option (size_BlockStatement size size) b \<le> size e" for b
  proof (cases b)
    case (Some b')
    have "balanced (sem C e')" if "ExpressionStatement t e' \<in> set (bs_Statements b')" for t e'
      using size_stmt_in_block [OF that] \<open>size_option (size_BlockStatement size size) b \<le> size e\<close> Some
      by (intro less) simp
    then show ?thesis unfolding Some by (intro balanced_sem_block) blast
  qed (simp add: balanced_intros)
  have maybe: "balanced (sem_maybe C x)" if "size x < size e" for x
    using less [OF that] by (auto simp: sem_maybe.simps intro!: balanced_intros)
  show ?case
  proof (cases e)
    case (InfixExpression t l op r)
    have s: "balanced (sem C l)" "balanced (sem C r)"
      "singleElementListLiteral l = Some x \<Longrightarrow> balanced (sem C x)"
      "singleElementListLiteral r = Some x \<Longrightarrow> balanced (sem C x)" for x
      using less InfixExpression size_singleElement [of l x] size_singleElement [of r x] by simp_all
    show ?thesis
      unfolding InfixExpression sem.simps [of C "InfixExpression t l op r"] expr.case
      by (intro balanced_if balanced_ident balanced_option balanced_intros) (auto split: if_splits intro: s)
  next
    case (ListLiteral t es)
    have "balanced (sem_list C es)"
      using less ListLiteral by (auto intro!: balanced_sem_list simp: size_mem less_Suc_eq)
    then show ?thesis unfolding sem.simps [of C e] by (auto simp: ListLiteral intro!: balanced_intros)
  next
    case (MapLiteral t ps)
    have "balanced (sem_pairs C ps)"
      using less MapLiteral size_pair_mem by (intro balanced_sem_pairs ballI) force
    then show ?thesis unfolding sem.simps [of C e] by (auto simp: MapLiteral intro!: balanced_intros)
  next
    case (BlockExpr b)
    then show ?thesis using blk [of "Some b"] unfolding sem.simps [of C e] by simp
  next
    case (IfExpression t c a b)
    then show ?thesis
      using less [of c] blk [of a] blk [of b] unfolding sem.simps [of C e] by (auto intro!: balanced_intros)
  next
    case (SliceExpression t a b c)
    then show ?thesis
      using maybe [of a] maybe [of b] maybe [of c] unfolding sem.simps [of C e] by (auto intro!: balanced_intros)
  qed (unfold sem.simps [of C e], use less in \<open>auto intro!: balanced_intros split: option.split\<close>)
qed

section \<open>Programs\<close>

lemma sem_program_val: "sem_program C ss v h = Val x v' h' \<Longrightarrow> x = v_last v'"
proof (induction ss arbitrary: v h)
  case (Cons s ss)
  then show ?case
    by (cases s) (auto simp: uncovered_def bindE_def discard_def modV_def split: outcome.splits)
qed (simp add: getV_def)

lemma balanced_program: "balanced (sem_program C ss)"
  by (induction ss) (auto intro!: balanced_intros split: stmt.split)

lemma acts_program: "acts C (compileProgram ss) (bindE (sem_program C ss) (\<lambda>x. ret ()))"
proof (induction ss)
  case Nil
  have "bindE (getV v_last) (\<lambda>x. ret ()) = ret ()" by (simp add: bindE_def getV_def ret_def fun_eq_iff)
  then show ?case
    by (simp add: compileProgram_def acts_def appends_cret) (auto simp: cret_def sim_refl)
next
  case (Cons s ss)
  have app: "appends (compileProgram (s # ss))"
    by (rule appends_closed) (rule closed_program)
  show ?case
  proof (cases s)
    case (ExpressionStatement t e)
    show ?thesis
      using acts_discard [OF correct_expression Cons.IH, of e "tok_Position t"]
      by (simp add: ExpressionStatement compileProgram_def)
  qed (use acts_uncovered [OF app] in simp_all)
qed

lemma stackless_program: "stackless (sem_program C ss)"
proof (induction ss)
  case Nil
  then show ?case by (auto intro!: stackless_getV)
next
  case (Cons s ss)
  then show ?case by (auto intro!: stackless_intros split: stmt.split)
qed

lemma run_return:
  assumes "j < length (Instructions ch)" "Op (Instructions ch ! j) = OpReturn"
    and "v_stack v = []" "deferScopes v = []" "taskScopes v = []"
  shows "run C (Suc (Suc k)) ch (int j) v h = Stop (v_last v) v h"
  using assms
  by (simp add: run.simps(2) step_def perform_op_def Return_def pop_option_def return_unwound_def)
    (simp add: getV_def stop_def)

section \<open>Properties\<close>

text \<open>C2:
  The code of an expression computes what the expression means. From the first instruction of
  the code, with enough fuel, the machine arrives behind the last one with the value of the
  reference evaluator on top of the stack it started with, and with its scopes, store and
  \<open>last\<close>; if the evaluator ends the run with an error or a panic, the machine does the same. The
  number of steps may depend on the state. Only a construct that the evaluator does not cover
  is left open.
\<close>

theorem compiled_expression_simulates:
  assumes "compileExpression e c = Inr ((), c')" "segment ch c c'"
  shows "\<exists>n. \<forall>k. case sem C e v h of
      Val x v' h' \<Rightarrow>
        run C (n + k) ch (int (length (Instructions c))) v h =
        run C k ch (int (length (Instructions c'))) (v'\<lparr>v_stack := x # v_stack v\<rparr>) h'
    | Stop r v' h' \<Rightarrow>
        \<exists>s. run C (n + k) ch (int (length (Instructions c))) v h = Stop r (v'\<lparr>v_stack := s\<rparr>) h'
    | Panicked s \<Rightarrow> run C (n + k) ch (int (length (Instructions c))) v h = Panicked s
    | OutOfFuel \<Rightarrow> run C (n + k) ch (int (length (Instructions c))) v h = OutOfFuel
    | Unmodelled _ \<Rightarrow> True"
proof -
  have "esim C ch (length (Instructions c)) (length (Instructions c')) (sem C e)"
    using correct_expression [of C e] assms unfolding correct_acts [symmetric] acts_def by blast
  from sim_runs [OF this, of v h] show ?thesis
    using stackless_keeps [OF stackless_sem, of C e v h] by (cases "sem C e v h") (auto simp: push_apply)
qed

text \<open>C1:
  A compiled program, run on a new executor with enough fuel, returns what the program means:
  the value of its last statement, or the error that ended it, with the same store.
\<close>

theorem compiled_program_simulates:
  assumes "Compile prog = Inr ch"
  shows "\<exists>n. \<forall>k. case sem_program C prog (NewExecutor env) h of
      Val x v' h' \<Rightarrow> run_chunk C (n + k) ch (NewExecutor env) h = Stop x v' h'
    | Stop r v' h' \<Rightarrow> \<exists>s. run_chunk C (n + k) ch (NewExecutor env) h = Stop r (v'\<lparr>v_stack := s\<rparr>) h'
    | Panicked s \<Rightarrow> run_chunk C (n + k) ch (NewExecutor env) h = Panicked s
    | OutOfFuel \<Rightarrow> run_chunk C (n + k) ch (NewExecutor env) h = OutOfFuel
    | Unmodelled _ \<Rightarrow> True"
proof -
  let ?v = "NewExecutor env"
  obtain c where c: "compileProgram prog (Chunk [] []) = Inr ((), c)"
    "ch = Chunk (Instructions c @ [ins OpReturn 0]) (Constants c)"
    using assms by (auto simp: Compile_def cthen_ok emitI_ok split: sum.splits)
  have seg: "segment ch (Chunk [] []) c" by (auto simp: segment_def c(2) nth_append)
  have start: "run_chunk C k ch ?v = run C k ch 0 ?v" for k
    by (simp add: run_chunk_def modV_def bindE_def NewExecutor_def fun_eq_iff)
  have sim: "sim C ch 0 (length (Instructions c)) (bindE (sem_program C prog) (\<lambda>x. ret ()))"
    using acts_program [of C prog] c(1) seg unfolding acts_def by fastforce
  obtain n where n: "\<forall>k. case bindE (sem_program C prog) (\<lambda>x. ret ()) ?v h of
      Val _ v' h' \<Rightarrow> run C (n + k) ch (int 0) ?v h = run C k ch (int (length (Instructions c))) v' h'
    | Stop r v' h' \<Rightarrow> \<exists>s. run C (n + k) ch (int 0) ?v h = Stop r (v'\<lparr>v_stack := s\<rparr>) h'
    | Panicked s \<Rightarrow> run C (n + k) ch (int 0) ?v h = Panicked s
    | OutOfFuel \<Rightarrow> run C (n + k) ch (int 0) ?v h = OutOfFuel
    | Unmodelled _ \<Rightarrow> True"
    using sim_runs [OF sim, of ?v h] by blast
  show ?thesis
  proof (cases "sem_program C prog ?v h")
    case (Val x v' h')
    have "v_stack v' = []" "deferScopes v' = []" "taskScopes v' = []" "x = v_last v'"
      using stackless_keeps [OF stackless_program Val] sem_program_val [OF Val] balanced_program Val
      unfolding balanced_def by (simp_all add: NewExecutor_def) (metis vm.select_convs)+
    then have "run C (Suc (Suc k)) ch (int (length (Instructions c))) v' h' = Stop x v' h'" for k
      using run_return [of "length (Instructions c)" ch v' C k h'] by (simp add: c(2))
    then have "run C (n + Suc (Suc k)) ch 0 ?v h = Stop x v' h'" for k
      using n [rule_format, of "Suc (Suc k)"] Val by (simp add: bindE_def ret_def)
    then show ?thesis
      using Val by (intro exI [of _ "n + 2"]) (simp add: start)
  qed (use n in \<open>auto simp: start intro: exI [of _ n]\<close>)
qed

section \<open>Witnesses\<close>

definition sample_config :: config where
  "sample_config =
     \<lparr>cfg_Inspect = (\<lambda>_. []), cfg_SymbolId = (\<lambda>_. 0), cfg_TagString = (\<lambda>_. []), cfg_Call = None, cfg_Select = (\<lambda>_ _. None)\<rparr>"

definition sample_if :: expr where
  \<comment> \<open>\<open>if (true) { val x = "a" + "b"; x }\<close>\<close>
  "sample_if =
     (let t = sample_token; x = Identifier t ''x''
      in IfExpression t (Boolean t True)
           (Some (BlockStatement t
              [ExpressionStatement t
                 (ValExpression [] t (IdentifierPattern t x) []
                    (InfixExpression t (StringLiteral t ''a'') ''+'' (StringLiteral t ''b'')) [] False),
               ExpressionStatement t (IdentifierExpr x)] False NoExpr)) None)"

definition sample_root :: heap where
  "sample_root = snd (NewRootEnvironment 4 empty_heap)"

lemma sample_if_sem: "\<exists>v h. sem sample_config sample_if (NewExecutor 0) sample_root = Val (StringO ''ab'') v h"
proof -
  let ?t = sample_token
  let ?v = "(NewExecutor 0)\<lparr>taskScopes := [None], deferScopes := [[]], taskLimits := [None], v_env := 1\<rparr>"
  obtain h where h: "enter_scope 0 (NewExecutor 0) sample_root = Val () ?v h" "env_Outer (envs h ! 1) = Some 0"
    "length (envs h) = 2" "env_Bindings (envs h ! 1) = Map.empty" "env_Bindings (envs h ! 0) = Map.empty"
    "env_Outer (envs h ! 0) = None" "bindings h = []"
    by (simp add: enter_scope_def PushScope_def sample_root_def NewRootEnvironment_def empty_heap_def alloc_env_def
        resolveScopeLimit_def bindE_def modV_def ret_def onH_env_def onH_def getV_def NewEnclosedEnvironment_def NewExecutor_def Let_def)
  show ?thesis
    using h
    by (simp add: sample_if_def sem.simps Let_def isTruthy_def scopeLimit_def obj_type_def singleElementListLiteral_def
       operate_def infixOpcode_def evalBinary_def evalAdd_def liftF_def declare_name_def define_const_def merge_overload_def
       onH_env_def onH_def getV_def GetBinding.simps ret_def name_schema_def DefineConstant_def env_define_def
       alloc_binding_def bind_name_def set_binding_def defined_value_def isCallableObject_def GetSignature_def liftM_def
       discard_def modV_def read_name_def getH_def env_Get_def resolveValue_def resolve_loop.simps exit_scope_def
       executeTaskHandlesInCurrentScope_def is_recur_def)
qed

definition sample_if_program :: "stmt list" where
  "sample_if_program = [ExpressionStatement sample_token sample_if]"

definition sample_if_chunk :: Chunk where
  "sample_if_chunk = (case Compile sample_if_program of Inr c \<Rightarrow> c | Inl e \<Rightarrow> Chunk [] [])"

definition sample_if_code :: Chunk where
  "sample_if_code = (case compileExpression sample_if (Chunk [] []) of Inr (u, c) \<Rightarrow> c | Inl e \<Rightarrow> Chunk [] [])"

lemma sample_if_compiles:
  "Compile sample_if_program = Inr sample_if_chunk"
  "compileExpression sample_if (Chunk [] []) = Inr ((), sample_if_code)"
  by (simp_all add: sample_if_chunk_def sample_if_code_def) code_simp+


theorem compiled_expression_simulates_witness:
  "\<exists>n v h. \<forall>k. v_stack v = [StringO ''ab''] \<and>
     run sample_config (n + k) sample_if_code 0 (NewExecutor 0) sample_root =
     run sample_config k sample_if_code (int (length (Instructions sample_if_code))) v h"
proof -
  obtain v h where "sem sample_config sample_if (NewExecutor 0) sample_root = Val (StringO ''ab'') v h"
    using sample_if_sem by blast
  moreover have "segment sample_if_code (Chunk [] []) sample_if_code" by (simp add: segment_def)
  ultimately obtain n where "\<forall>k. run sample_config (n + k) sample_if_code 0 (NewExecutor 0) sample_root =
      run sample_config k sample_if_code (int (length (Instructions sample_if_code))) (v\<lparr>v_stack := [StringO ''ab'']\<rparr>) h"
    using compiled_expression_simulates [OF sample_if_compiles(2), of sample_if_code sample_config "NewExecutor 0" sample_root]
    by (auto simp: NewExecutor_def)
  then show ?thesis by (intro exI [of _ n] exI [of _ "v\<lparr>v_stack := [StringO ''ab'']\<rparr>"] exI [of _ h]) simp
qed

theorem compiled_program_simulates_witness:
  "\<exists>n v h. \<forall>k. run_chunk sample_config (n + k) sample_if_chunk (NewExecutor 0) sample_root = Stop (StringO ''ab'') v h"
proof -
  obtain v h where "sem sample_config sample_if (NewExecutor 0) sample_root = Val (StringO ''ab'') v h"
    using sample_if_sem by blast
  then have "sem_program sample_config sample_if_program (NewExecutor 0) sample_root =
      Val (StringO ''ab'') (v\<lparr>v_last := StringO ''ab''\<rparr>) h"
    by (simp add: sample_if_program_def) (simp add: discard_def modV_def getV_def)
  then show ?thesis
    using compiled_program_simulates [OF sample_if_compiles(1), of sample_config 0 sample_root] by auto
qed

end
