(* ===== verification/Printer.thy ===== *)
theory Printer
  imports Ast Bytecode
begin

text \<open>
  The \<open>String\<close> methods of \<open>internal/ast/ast.go\<close>, which print a tree. A method called on a nil
  pointer or a nil interface panics, which is \<open>None\<close>. The parser prints tags, for the signature
  of a function, and keys of map patterns.

  Where a Go nil pointer sits in an interface value it differs from a nil interface. The three
  such values that the parser makes are constants here, told apart from the nodes of a program
  by a token without a type.
\<close>

section \<open>Nil pointers in interface values\<close>

definition noToken :: Token where
  "noToken = Token [] [] 0"

definition nilForeign :: stmt where
  "nilForeign = ForeignFunctionDeclaration [] noToken (Identifier noToken []) [] [] [] (FSig [] 0 0 False) [] False"

definition nilDefer :: stmt where
  "nilDefer = DeferStatement noToken NoStmt DeferAlways None"

definition nilMapPattern :: pattern where
  "nilMapPattern = MapPattern noToken [] NoPattern False False"

definition nilTag :: "expr Tag" where
  "nilTag = Tag noToken [] []"

section \<open>Putting text together\<close>

definition cat :: "string option list \<Rightarrow> string option" where
  "cat parts = map_option concat (those parts)"

fun Join :: "string \<Rightarrow> string list \<Rightarrow> string" where
  \<comment> \<open>\<open>strings.Join\<close>\<close>
  "Join sep [] = []"
| "Join sep [s] = s"
| "Join sep (s # ss) = s @ sep @ Join sep ss"

definition joined :: "string \<Rightarrow> string option list \<Rightarrow> string option" where
  "joined sep parts = map_option (Join sep) (those parts)"

definition hex_digit :: "nat \<Rightarrow> char" where
  "hex_digit d = (if d < 10 then char_of (48 + d) else char_of (87 + d))"

definition EncodeToString :: "string \<Rightarrow> string" where
  \<comment> \<open>\<open>hex.EncodeToString\<close>\<close>
  "EncodeToString s = concat (map (\<lambda>c. [hex_digit (byte c div 16), hex_digit (byte c mod 16)]) s)"

section \<open>Parts of nodes\<close>

definition type_String :: "string \<Rightarrow> string \<Rightarrow> string" where
  \<comment> \<open>an annotation, if it is not blank\<close>
  "type_String pre ty = (if TrimSpace ty \<noteq> [] then pre @ ty else [])"

definition type_params_String :: "string list \<Rightarrow> string" where
  "type_params_String ps = (if ps = [] then [] else ''<'' @ Join '', '' ps @ ''>'')"

definition Tag_String :: "(expr \<Rightarrow> string option) \<Rightarrow> expr Tag \<Rightarrow> string option" where
  "Tag_String f a =
     (if tok_Type (tag_Token a) = [] \<and> tag_Name a = [] then None
      else if tag_Args a = [] then Some (tag_Name a)
      else cat [Some (tag_Name a @ ''(''), joined '', '' (map f (tag_Args a)), Some '')''])"

definition tags_String :: "(expr \<Rightarrow> string option) \<Rightarrow> expr Tag list \<Rightarrow> string option" where
  "tags_String f tags = cat (map (\<lambda>a. cat [Tag_String f a, Some '' '']) tags)"

definition maybe_String :: "string \<Rightarrow> (expr \<Rightarrow> string option) \<Rightarrow> expr \<Rightarrow> string option" where
  "maybe_String pre f e = (if e = NoExpr then Some [] else cat [Some pre, f e])"

definition FunctionParameter_String :: "(expr \<Rightarrow> string option) \<Rightarrow> expr FunctionParameter \<Rightarrow> string option" where
  "FunctionParameter_String f p =
     cat [Some ''('', tags_String f (fp_Tags p), Some (if fp_IsVariadic p then ''...'' else []),
          Some (id_Value (fp_Name p)), Some (type_String '':'' (fp_Type p)), maybe_String ''='' f (fp_Default p), Some '')'']"

definition BlockStatement_String ::
  "(expr \<Rightarrow> string option) \<Rightarrow> (stmt \<Rightarrow> string option) \<Rightarrow> (stmt, expr) BlockStatement option \<Rightarrow> string option" where
  "BlockStatement_String f g b =
     (case b of
        None \<Rightarrow> None
      | Some b \<Rightarrow>
          cat [if bs_IsNursery b
               then cat [Some ''nursery '',
                      if bs_Limit b = NoExpr then Some [] else cat [Some ''limit '', f (bs_Limit b), Some '' '']]
               else Some [],
               Some ''{'', cat (map g (bs_Statements b)), Some ''}''])"

definition StructField_String :: "(expr \<Rightarrow> string option) \<Rightarrow> expr StructField \<Rightarrow> string option" where
  "StructField_String f s =
     cat [Some (sf_Name s), Some (type_String '':'' (sf_Type s)), maybe_String '' = '' f (sf_Default s)]"

definition StructInitField_String :: "(expr \<Rightarrow> string option) \<Rightarrow> expr StructInitField \<Rightarrow> string option" where
  "StructInitField_String f s = cat [Some (si_Name s), maybe_String '': '' f (si_Value s),
     Some (if si_Value s = NoExpr then '': '' else [])]"

definition MatchCase_String ::
  "(expr \<Rightarrow> string option) \<Rightarrow> (stmt \<Rightarrow> string option) \<Rightarrow> (pattern \<Rightarrow> string option) \<Rightarrow>
   (expr, pattern, (stmt, expr) BlockStatement) MatchCase \<Rightarrow> string option" where
  "MatchCase_String f g h m =
     cat [h (mc_Pattern m), maybe_String '' if '' f (mc_Guard m), Some '' => '', BlockStatement_String f g (mc_Body m)]"

definition SelectCase_String :: "(expr \<Rightarrow> string option) \<Rightarrow> expr SelectCase \<Rightarrow> string option" where
  "SelectCase_String f s =
     cat [case sc_Kind s of
            SelectRecv \<Rightarrow> cat [Some ''recv '', f (sc_Channel s)]
          | SelectSend \<Rightarrow> cat [Some ''send '', f (sc_Channel s), Some '', '', f (sc_Value s)]
          | SelectAfter \<Rightarrow> cat [Some ''after '', f (sc_After s)]
          | SelectAwait \<Rightarrow> cat [Some ''await '', f (sc_Await s)]
          | SelectDefault \<Rightarrow> Some ''_'',
          maybe_String '' /> '' f (sc_Handler s)]"

definition Pair_String :: "(expr \<Rightarrow> string option) \<Rightarrow> expr \<times> expr \<Rightarrow> string option" where
  "Pair_String f kv = cat [f (fst kv), Some '':'', f (snd kv)]"

definition MapPatternEntry_String ::
  "(expr \<Rightarrow> string option) \<Rightarrow> (pattern \<Rightarrow> string option) \<Rightarrow> (expr, pattern) MapPatternEntry \<Rightarrow> string option" where
  "MapPatternEntry_String f h m = cat [f (me_Key m), Some '': '', h (me_Pattern m)]"

definition StructPatternField_String :: "(pattern \<Rightarrow> string option) \<Rightarrow> pattern StructPatternField \<Rightarrow> string option" where
  "StructPatternField_String h s = cat [Some (spf_Name s @ '': ''), h (spf_Pattern s)]"

section \<open>Calls on smaller nodes\<close>

lemma Tag_String_cong: "(\<And>e. e \<in> set (tag_Args a) \<Longrightarrow> f e = g e) \<Longrightarrow> Tag_String f a = Tag_String g a"
  by (simp add: Tag_String_def cong: map_cong)

lemma tags_String_cong:
  "tags = tags' \<Longrightarrow> (\<And>a e. a \<in> set tags' \<Longrightarrow> e \<in> set (tag_Args a) \<Longrightarrow> f e = g e) \<Longrightarrow> tags_String f tags = tags_String g tags'"
  unfolding tags_String_def
  by (rule arg_cong [where f = cat], rule map_cong, assumption)
    (rule arg_cong [where f = "\<lambda>s. cat [s, Some '' '']"], rule Tag_String_cong)

lemma maybe_String_cong [fundef_cong]: "e = e' \<Longrightarrow> f e' = g e' \<Longrightarrow> maybe_String pre f e = maybe_String pre g e'"
  by (simp add: maybe_String_def)

definition param_exprs :: "expr FunctionParameter \<Rightarrow> expr list" where
  "param_exprs p = fp_Default p # concat (map tag_Args (fp_Tags p))"

lemma FunctionParameter_String_cong:
  assumes "p = p'" "\<And>e. e \<in> set (param_exprs p') \<Longrightarrow> f e = g e"
  shows "FunctionParameter_String f p = FunctionParameter_String g p'"
proof -
  have "tags_String f (fp_Tags p') = tags_String g (fp_Tags p')"
    by (rule tags_String_cong) (auto intro!: assms(2) simp: param_exprs_def)
  then show ?thesis using assms by (simp add: FunctionParameter_String_def maybe_String_def param_exprs_def)
qed

lemma params_String_cong [fundef_cong]:
  "ps = ps' \<Longrightarrow> (\<And>p e. p \<in> set ps' \<Longrightarrow> e \<in> set (param_exprs p) \<Longrightarrow> f e = g e) \<Longrightarrow>
     map (FunctionParameter_String f) ps = map (FunctionParameter_String g) ps'"
  by (auto intro!: FunctionParameter_String_cong)

declare tags_String_cong [fundef_cong]

lemma BlockStatement_String_cong [fundef_cong]:
  assumes "b = b'" "\<And>c. b' = Some c \<Longrightarrow> f (bs_Limit c) = f' (bs_Limit c)"
    "\<And>c s. b' = Some c \<Longrightarrow> s \<in> set (bs_Statements c) \<Longrightarrow> g s = g' s"
  shows "BlockStatement_String f g b = BlockStatement_String f' g' b'"
proof -
  have "map g (bs_Statements c) = map g' (bs_Statements c)" if "b' = Some c" for c
    using assms(3) [OF that] by simp
  then show ?thesis using assms(1,2) by (simp add: BlockStatement_String_def split: option.split del: map_eq_conv)
qed

lemma fields_String_cong [fundef_cong]:
  "fs = fs' \<Longrightarrow> (\<And>s. s \<in> set fs' \<Longrightarrow> f (sf_Default s) = g (sf_Default s)) \<Longrightarrow>
     map (StructField_String f) fs = map (StructField_String g) fs'"
  by (simp add: StructField_String_def maybe_String_def)

lemma init_fields_String_cong [fundef_cong]:
  "fs = fs' \<Longrightarrow> (\<And>s. s \<in> set fs' \<Longrightarrow> f (si_Value s) = g (si_Value s)) \<Longrightarrow>
     map (StructInitField_String f) fs = map (StructInitField_String g) fs'"
  by (simp add: StructInitField_String_def maybe_String_def)

lemma match_cases_String_cong [fundef_cong]:
  assumes "ms = ms'" "\<And>m. m \<in> set ms' \<Longrightarrow> f (mc_Guard m) = f' (mc_Guard m)"
    "\<And>m. m \<in> set ms' \<Longrightarrow> h (mc_Pattern m) = h' (mc_Pattern m)"
    "\<And>m c. m \<in> set ms' \<Longrightarrow> mc_Body m = Some c \<Longrightarrow> f (bs_Limit c) = f' (bs_Limit c)"
    "\<And>m c s. m \<in> set ms' \<Longrightarrow> mc_Body m = Some c \<Longrightarrow> s \<in> set (bs_Statements c) \<Longrightarrow> g s = g' s"
  shows "map (MatchCase_String f g h) ms = map (MatchCase_String f' g' h') ms'"
proof (rule map_cong [OF assms(1)])
  fix m assume m: "m \<in> set ms'"
  have "BlockStatement_String f g (mc_Body m) = BlockStatement_String f' g' (mc_Body m)"
    using assms(4,5) [OF m] by (intro BlockStatement_String_cong refl) auto
  then show "MatchCase_String f g h m = MatchCase_String f' g' h' m"
    using assms(2,3) [OF m] by (simp add: MatchCase_String_def maybe_String_def)
qed

lemma select_cases_String_cong [fundef_cong]:
  "ss = ss' \<Longrightarrow> (\<And>s e. s \<in> set ss' \<Longrightarrow> e \<in> {sc_Channel s, sc_Value s, sc_After s, sc_Await s, sc_Handler s} \<Longrightarrow> f e = g e) \<Longrightarrow>
     map (SelectCase_String f) ss = map (SelectCase_String g) ss'"
  by (simp add: SelectCase_String_def maybe_String_def split: SelectCaseType.split)

lemma pairs_String_cong [fundef_cong]:
  "ps = ps' \<Longrightarrow> (\<And>p. p \<in> set ps' \<Longrightarrow> f (fst p) = g (fst p)) \<Longrightarrow> (\<And>p. p \<in> set ps' \<Longrightarrow> f (snd p) = g (snd p)) \<Longrightarrow>
     map (Pair_String f) ps = map (Pair_String g) ps'"
  by (simp add: Pair_String_def)

lemma entries_String_cong [fundef_cong]:
  "ps = ps' \<Longrightarrow> (\<And>p. p \<in> set ps' \<Longrightarrow> f (me_Key p) = g (me_Key p)) \<Longrightarrow>
     (\<And>p. p \<in> set ps' \<Longrightarrow> h (me_Pattern p) = h' (me_Pattern p)) \<Longrightarrow>
     map (MapPatternEntry_String f h) ps = map (MapPatternEntry_String g h') ps'"
  by (simp add: MapPatternEntry_String_def)

lemma pattern_fields_String_cong [fundef_cong]:
  "fs = fs' \<Longrightarrow> (\<And>s. s \<in> set fs' \<Longrightarrow> h (spf_Pattern s) = h' (spf_Pattern s)) \<Longrightarrow>
     map (StructPatternField_String h) fs = map (StructPatternField_String h') fs'"
  by (simp add: StructPatternField_String_def)

section \<open>Sizes of parts\<close>

named_theorems part_size

lemma size_tag_arg [part_size]:
  "a \<in> set tags \<Longrightarrow> e \<in> set (tag_Args a) \<Longrightarrow> size e < size_list (size_Tag size) tags"
  using size_mem [of a tags "size_Tag size"] size_mem [of e "tag_Args a" size] by (cases a) simp

lemma size_param_expr [part_size]:
  assumes "p \<in> set ps" "e \<in> set (param_exprs p)"
  shows "size e < size_list (size_FunctionParameter size) ps"
proof -
  have "size_FunctionParameter size p < size_list (size_FunctionParameter size) ps" using assms(1) by (rule size_mem)
  then show ?thesis using assms(2) by (cases p) (auto simp: param_exprs_def dest!: size_tag_arg)
qed

lemma size_block [part_size]:
  "size (bs_Limit b) < size_BlockStatement size size b"
  "s \<in> set (bs_Statements b) \<Longrightarrow> size s < size_BlockStatement size size b"
  using size_mem [of s "bs_Statements b" size] by (cases b; simp)+

lemma size_field [part_size]: "x \<in> set xs \<Longrightarrow> size (sf_Default x) < size_list (size_StructField size) xs"
  using size_mem [of x xs "size_StructField size"] by (cases x) simp

lemma size_init_field [part_size]: "x \<in> set xs \<Longrightarrow> size (si_Value x) < size_list (size_StructInitField size) xs"
  using size_mem [of x xs "size_StructInitField size"] by (cases x) simp

lemma size_pattern_field [part_size]:
  "x \<in> set xs \<Longrightarrow> size (spf_Pattern x) < size_list (size_StructPatternField size) xs"
  using size_mem [of x xs "size_StructPatternField size"] by (cases x) simp

lemma size_match_case [part_size]:
  assumes "x \<in> set xs"
  shows "size (mc_Guard x) < size_list (size_MatchCase size size (size_BlockStatement size size)) xs"
    and "size (mc_Pattern x) < size_list (size_MatchCase size size (size_BlockStatement size size)) xs"
    and "mc_Body x = Some b \<Longrightarrow> size (bs_Limit b) < size_list (size_MatchCase size size (size_BlockStatement size size)) xs"
    and "mc_Body x = Some b \<Longrightarrow> s \<in> set (bs_Statements b) \<Longrightarrow>
       size s < size_list (size_MatchCase size size (size_BlockStatement size size)) xs"
  using size_mem [OF assms, of "size_MatchCase size size (size_BlockStatement size size)"] size_block(1) [of b] size_block(2) [of s b]
  by (cases x; simp)+

lemma size_select_case [part_size]:
  "x \<in> set xs \<Longrightarrow> e \<in> {sc_Channel x, sc_Value x, sc_After x, sc_Await x, sc_Handler x} \<Longrightarrow>
     size e < size_list (size_SelectCase size) xs"
  using size_mem [of x xs "size_SelectCase size"] by (cases x) auto

lemma size_pairs [part_size]:
  "x \<in> set xs \<Longrightarrow> size (fst x) < size_list (size_prod size size) xs"
  "x \<in> set xs \<Longrightarrow> size (snd x) < size_list (size_prod size size) xs"
  using size_mem [of x xs "size_prod size size"] by (cases x; simp)+

lemma size_pattern_entries [part_size]:
  "x \<in> set xs \<Longrightarrow> size (me_Key x) < size_list (size_MapPatternEntry size size) xs"
  "x \<in> set xs \<Longrightarrow> size (me_Pattern x) < size_list (size_MapPatternEntry size size) xs"
  using size_mem [of x xs "size_MapPatternEntry size size"] by (cases x; simp)+

lemma size_member [part_size]: "x \<in> set xs \<Longrightarrow> size x < size_list size xs"
  by (rule size_mem)

section \<open>Printing\<close>

definition id_String :: "Identifier option \<Rightarrow> string option" where
  \<comment> \<open>an identifier that may be a nil pointer, where a method is called on it\<close>
  "id_String i = map_option id_Value i"

function String_expr :: "expr \<Rightarrow> string option"
  and String_stmt :: "stmt \<Rightarrow> string option"
  and String_pattern :: "pattern \<Rightarrow> string option"
where
  "String_expr e =
     (case e of
        NoExpr \<Rightarrow> None
      | VarExpression tags t p ty v _ _ \<Rightarrow>
          cat [tags_String String_expr tags, Some (tok_Literal t @ '' ''), String_pattern p,
               Some (type_String '': '' ty), maybe_String '' = '' String_expr v, Some '';'']
      | ValExpression tags t p ty v _ _ \<Rightarrow>
          cat [tags_String String_expr tags, Some (tok_Literal t @ '' ''), String_pattern p,
               Some (type_String '': '' ty @ '' = ''), maybe_String [] String_expr v, Some '';'']
      | IdentifierExpr i \<Rightarrow> Some (id_Value i)
      | SymbolLiteral _ v \<Rightarrow> Some ('':'' @ v)
      | Boolean t _ \<Rightarrow> Some (tok_Literal t)
      | NilLiteral t \<Rightarrow> Some (tok_Literal t)
      | NumberLiteral t _ \<Rightarrow> Some (tok_Literal t)
      | PrefixExpression _ op r \<Rightarrow> cat [Some ''('', Some op, String_expr r, Some '')'']
      | InfixExpression _ l op r \<Rightarrow>
          cat [Some ''('', String_expr l, Some ('' '' @ op @ '' ''), String_expr r, Some '')'']
      | IfExpression _ c th el \<Rightarrow>
          cat [Some ''if'', String_expr c, Some '' '', BlockStatement_String String_expr String_stmt th,
               if el = None then Some [] else cat [Some '' else '', BlockStatement_String String_expr String_stmt el]]
      | FunctionLiteral t tps _ ps rt body _ \<Rightarrow>
          cat [Some (tok_Literal t @ type_params_String tps), Some ''('',
               joined '', '' (map (FunctionParameter_String String_expr) ps), Some '') '',
               Some (if TrimSpace rt \<noteq> [] then '': '' @ rt @ '' '' else []),
               BlockStatement_String String_expr String_stmt body]
      | TypeApplicationExpression _ f args \<Rightarrow> cat [String_expr f, Some (''<'' @ Join '', '' args @ ''>'')]
      | RecurExpression _ args \<Rightarrow> cat [Some ''recur('', joined '', '' (map String_expr args), Some '')'']
      | SpawnExpression _ body \<Rightarrow> cat [Some ''spawn '', String_expr body]
      | AwaitExpression _ v \<Rightarrow> cat [Some ''await '', String_expr v]
      | CallExpression _ f args _ \<Rightarrow>
          cat [String_expr f, Some ''('', joined '', '' (map String_expr args), Some '')'']
      | NamedArgument _ n v \<Rightarrow> cat [Some (id_Value n @ '' = ''), String_expr v]
      | BytesLiteral _ v \<Rightarrow> Some (''0x'' @ dquoted (EncodeToString v))
      | StringLiteral t _ \<Rightarrow> Some (tok_Literal t)
      | ListLiteral _ es \<Rightarrow> cat [Some ''['', joined '', '' (map String_expr es), Some '']'']
      | IndexExpression _ l i _ \<Rightarrow> cat [Some ''('', String_expr l, Some ''['', String_expr i, Some ''])'']
      | SliceExpression _ a b c \<Rightarrow>
          cat [maybe_String [] String_expr a, Some '':'', maybe_String [] String_expr b,
               maybe_String '':'' String_expr c]
      | MapLiteral _ ps \<Rightarrow> cat [Some ''{'', joined '', '' (map (Pair_String String_expr) ps), Some ''}'']
      | StructSchemaExpression _ fs \<Rightarrow>
          cat [Some ''struct {'', joined '', '' (map (StructField_String String_expr) fs), Some ''}'']
      | StructInitExpression _ s fs \<Rightarrow>
          cat [String_expr s, Some '' {'', joined '', '' (map (StructInitField_String String_expr) fs), Some ''}'']
      | StructCopyExpression _ s fs \<Rightarrow> cat [String_expr s, Some '' copy '', String_expr fs]
      | MatchExpression _ v ms \<Rightarrow>
          cat [Some ''match'', maybe_String '' '' String_expr v, Some '' {'',
               cat (map (\<lambda>s. cat [Some (CHR 0x0A # ''    ''), s])
                 (map (MatchCase_String String_expr String_stmt String_pattern) ms)),
               Some (CHR 0x0A # ''}'')]
      | SelectExpression _ ss \<Rightarrow>
          cat [Some ''select {'',
               cat (map (\<lambda>s. cat [Some (CHR 0x0A # ''    ''), s]) (map (SelectCase_String String_expr) ss)),
               Some (CHR 0x0A # ''}'')]
      | BlockExpr b \<Rightarrow> BlockStatement_String String_expr String_stmt (Some b)
      | SpreadExpression _ v \<Rightarrow> cat [Some ''...'', String_expr v]
      | NotImplemented t \<Rightarrow> Some (tok_Literal t))"
| "String_stmt s =
     (if s = nilForeign \<or> s = nilDefer then None
      else case s of
        NoStmt \<Rightarrow> None
      | ExpressionStatement _ e \<Rightarrow> maybe_String [] String_expr e
      | ReturnStatement t e \<Rightarrow> cat [Some (tok_Literal t @ '' ''), maybe_String [] String_expr e, Some '';'']
      | ThrowStatement t e \<Rightarrow> cat [Some (tok_Literal t @ '' ''), maybe_String [] String_expr e, Some '';'']
      | DeferStatement _ call mode name \<Rightarrow>
          cat [Some ''defer '',
               (case mode of
                  DeferAlways \<Rightarrow> Some []
                | DeferOnSuccess \<Rightarrow> Some ''onsuccess ''
                | DeferOnError \<Rightarrow>
                    Some (''onerror'' @ (case name of None \<Rightarrow> [] | Some i \<Rightarrow> ''('' @ id_Value i @ '')'') @ '' '')),
               String_stmt call]
      | BlockStmt b \<Rightarrow> BlockStatement_String String_expr String_stmt (Some b)
      | ForeignFunctionDeclaration tags t n tps ps rt _ _ _ \<Rightarrow>
          cat [tags_String String_expr tags, Some (''foreign '' @ id_Value n @ type_params_String tps @ '' = ''),
               Some (tok_Literal t @ ''(''), joined '', '' (map (FunctionParameter_String String_expr) ps),
               Some ('')'' @ type_String '':'' rt @ '' ;'')])"
| "String_pattern p =
     (if p = nilMapPattern then None
      else case p of
        NoPattern \<Rightarrow> None
      | BindingPattern _ n q \<Rightarrow>
          cat [Some ((case n of None \<Rightarrow> [] | Some i \<Rightarrow> id_Value i) @ '' @ ''),
               if q = NoPattern then Some [] else String_pattern q]
      | AllPattern _ \<Rightarrow> Some ''*''
      | WildcardPattern _ \<Rightarrow> Some ''_''
      | SpreadPattern t n \<Rightarrow> Some (tok_Literal t @ (case n of None \<Rightarrow> [] | Some i \<Rightarrow> id_Value i))
      | LiteralPattern _ e \<Rightarrow> String_expr e
      | IdentifierPattern _ i \<Rightarrow> Some (id_Value i)
      | PinnedIdentifierPattern _ i \<Rightarrow> Some (''^'' @ id_Value i)
      | MultiPattern _ ps \<Rightarrow> joined '', '' (map String_pattern ps)
      | ListPattern _ ps \<Rightarrow> cat [Some ''['', joined '', '' (map String_pattern ps), Some '']'']
      | MapPattern _ es spread exact all \<Rightarrow>
          (let es = filter (\<lambda>m. me_Key m \<noteq> NoExpr) es
           in cat [Some (''{'' @ (if exact then ''|'' else []) @ (if all then ''*'' else [])),
                   joined '', '' (map (MapPatternEntry_String String_expr String_pattern) es),
                   if spread = NoPattern then Some []
                   else cat [Some ((if es \<noteq> [] then '', '' else []) @ ''...''), String_pattern spread],
                   Some ((if exact then ''|'' else []) @ ''}'')])
      | StructPattern _ s fs \<Rightarrow>
          cat [Some (id_Value s @ '' {''), joined '', '' (map (StructPatternField_String String_pattern) fs), Some ''}''])"
  by pat_completeness auto
termination
  by (relation "measure (\<lambda>x. case x of Inl e \<Rightarrow> size e | Inr (Inl s) \<Rightarrow> size s | Inr (Inr p) \<Rightarrow> size p)")
    (simp_all add: part_size less_SucI trans_less_add1 trans_less_add2)

declare String_expr.simps [simp del] String_stmt.simps [simp del] String_pattern.simps [simp del]

end
