(* ===== verification/Diagnostics.thy ===== *)
theory Diagnostics
  imports Token
begin

text \<open>
  The positions and source lines that error messages show: \<open>GetLineAndColumn\<close>,
  \<open>GetContextLines\<close> and their helpers in \<open>internal/util/utils.go\<close>. Lines and columns count
  from one; a position is a byte offset and a column counts runes.
\<close>

section \<open>Positions\<close>

fun line_column :: "nat \<Rightarrow> nat \<Rightarrow> nat \<times> nat \<Rightarrow> (nat \<times> string) list \<Rightarrow> nat \<times> nat" where
  \<comment> \<open>the loop from offset \<open>i\<close>, with the line and column there\<close>
  "line_column pos i lc [] = lc"
| "line_column pos i lc ((r, bytes) # ps) =
     (if i + length bytes > pos then lc
      else line_column pos (i + length bytes) (if r = 10 then (fst lc + 1, 1) else (fst lc, snd lc + 1)) ps)"

definition GetLineAndColumn :: "string \<Rightarrow> nat \<Rightarrow> nat \<times> nat" where
  "GetLineAndColumn src pos = line_column (min pos (length src)) 0 (1, 1) (rune_parts src)"

section \<open>Source lines\<close>

text \<open>
  The loop that collects the lines, with the offset of the rune and of the line. A last line
  whose last rune takes several bytes is not collected: its offset is not \<open>len(src)-1\<close>.
\<close>

fun source_lines :: "string \<Rightarrow> nat \<Rightarrow> nat \<Rightarrow> (nat \<times> string) list \<Rightarrow> string list" where
  "source_lines src start i [] = []"
| "source_lines src start i ((r, bytes) # ps) =
     (if r = 10 \<or> i + 1 = length src
      then (if i + 1 = length src \<and> r \<noteq> 10 then take (i + 1 - start) (drop start src)
            else take (i - start) (drop start src))
        # source_lines src (i + 1) (i + length bytes) ps
      else source_lines src start (i + length bytes) ps)"

definition pad3 :: "nat \<Rightarrow> string" where
  \<comment> \<open>\<open>%3d\<close>\<close>
  "pad3 n = replicate (3 - length (show_nat n)) CHR '' '' @ show_nat n"

definition firstNRunes :: "string \<Rightarrow> nat \<Rightarrow> string" where
  "firstNRunes s n = concat (map EncodeRune (take n (runes s)))"

definition replaceVisibleWithSpaces :: "string \<Rightarrow> string" where
  "replaceVisibleWithSpaces s = map (\<lambda>r. if r = 9 then CHR 0x09 else CHR '' '') (runes s)"

definition context_line :: "nat \<Rightarrow> nat \<Rightarrow> nat \<times> string \<Rightarrow> string" where
  \<comment> \<open>one round of the loop that formats the lines\<close>
  "context_line errorLine errorCol nl =
     (let (lineNum, content) = nl
      in if lineNum = errorLine
         then
           (let margin = ''  >  '' @ pad3 lineNum @ '' | ''
            in margin @ content @ [CHR 0x0A] @
                 replaceVisibleWithSpaces (margin @ firstNRunes content (errorCol - 1)) @ ''^ unexpected here'')
         else ''     '' @ pad3 lineNum @ '' | '' @ content @ [CHR 0x0A])"

definition GetContextLines :: "string \<Rightarrow> nat \<Rightarrow> nat \<Rightarrow> string" where
  "GetContextLines src errorLine errorCol =
     (let lines = source_lines src 0 0 (rune_parts src);
          startLine = max 1 (errorLine - 2)
      in concat (map (context_line errorLine errorCol)
           (filter (\<lambda>nl. startLine \<le> fst nl \<and> fst nl \<le> errorLine) (enumerate 1 lines))))"

end
