(* ===== verification/Dec64_Text.thy ===== *)
theory Dec64_Text
  imports Dec64_Laws Token "HOL-Library.Char_ord"
begin

text \<open>
  Numbers as text: \<open>FromString\<close>, \<open>String\<close> and \<open>StringRaw\<close> of \<open>internal/dec64/dec64.go\<close>, with
  \<open>strconv.ParseInt\<close> in base ten. Printing and reading a number gives the number in normal
  form back.
\<close>

section \<open>Reading integers\<close>

definition digit_value :: "char \<Rightarrow> int" where
  "digit_value c = of_char c - 48"

definition is_decimal :: "char \<Rightarrow> bool" where
  "is_decimal c \<longleftrightarrow> CHR ''0'' \<le> c \<and> c \<le> CHR ''9''"

definition digits_value :: "string \<Rightarrow> int" where
  "digits_value s = foldl (\<lambda>n c. n * 10 + digit_value c) 0 s"

definition ParseInt_err :: "string \<Rightarrow> string \<Rightarrow> string" where
  "ParseInt_err s what = ''strconv.ParseInt: parsing '' @ dquoted s @ '': '' @ what"

definition ParseInt :: "string \<Rightarrow> string + int" where
  \<comment> \<open>\<open>strconv.ParseInt(s, 10, 64)\<close>\<close>
  "ParseInt s =
     (let (neg, ds) = (case s of
            [] \<Rightarrow> (False, [])
          | c # cs \<Rightarrow> if c = CHR ''-'' then (True, cs) else if c = CHR ''+'' then (False, cs) else (False, s));
          n = digits_value ds
      in if ds = [] \<or> \<not> list_all is_decimal ds then Inl (ParseInt_err s ''invalid syntax'')
         else if (if neg then n > - min_int64 else n > max_int64) then Inl (ParseInt_err s ''value out of range'')
         else Inr (if neg then - n else n))"

section \<open>Reading numbers\<close>

text \<open>\<open>FromString\<close>. The index of a character, an option, stands for Go's index or -1.\<close>

definition show_int64 :: "int \<Rightarrow> string" where
  \<comment> \<open>\<open>strconv.FormatInt(i, 10)\<close>\<close>
  "show_int64 i = (if i < 0 then CHR ''-'' # show_nat (nat (- i)) else show_nat (nat i))"

definition split_exponent :: "string \<Rightarrow> (string \<times> string) option" where
  \<comment> \<open>the parts before and after the first \<open>e\<close> or \<open>E\<close>\<close>
  "split_exponent s =
     (let base = takeWhile (\<lambda>c. c \<noteq> CHR ''e'' \<and> c \<noteq> CHR ''E'') s
      in if length base < length s then Some (base, drop (length base + 1) s) else None)"

definition read_exponent :: "string \<Rightarrow> string + string \<times> int" where
  \<comment> \<open>the mantissa and the exponent\<close>
  "read_exponent s =
     (case split_exponent s of
        None \<Rightarrow> Inr (s, 0)
      | Some (base, expPart) \<Rightarrow>
          (case ParseInt expPart of
             Inl err \<Rightarrow> Inl (''invalid exponent: '' @ err)
           | Inr e \<Rightarrow>
               if e < - 128 \<or> e > 127 then Inl (''exponent '' @ show_int64 e @ '' outside int8 range'')
               else Inr (base, e)))"

definition fraction_length :: "string \<Rightarrow> nat" where
  "fraction_length s = length (drop 1 (dropWhile (\<lambda>c. c \<noteq> CHR ''.'') s))"

definition dec_FromString :: "string \<Rightarrow> string + dec64" where
  "dec_FromString s =
     (case TrimSpace s of
        [] \<Rightarrow> Inl ''empty string''
      | c # cs \<Rightarrow>
          (let neg = (c = CHR ''-''); s = (if neg \<or> c = CHR ''+'' then cs else c # cs)
           in case read_exponent s of
                Inl err \<Rightarrow> Inl err
              | Inr (s, ex) \<Rightarrow>
                  (case ParseInt (filter (\<lambda>c. c \<noteq> CHR ''.'') s) of
                     Inl err \<Rightarrow> Inl (''invalid number: '' @ err)
                   | Inr coef \<Rightarrow>
                       Inr (dec_Normalize
                         (dec_New (if neg then wrap64 (- coef) else coef)
                           (wrap8 (wrap8 (- wrap8 (int (fraction_length s))) + wrap8 ex)))))))"

section \<open>Printing numbers\<close>

definition dec_String_digits :: "string \<Rightarrow> int \<Rightarrow> string" where
  \<comment> \<open>the \<open>switch\<close> of \<open>String\<close>; the arithmetic is on \<open>int8\<close>\<close>
  "dec_String_digits digits ex =
     (let n = length digits
      in if ex \<ge> 16 \<or> (ex < 0 \<and> wrap8 (- ex) \<ge> wrap8 (wrap8 (int n) + 16))
         then take 1 digits @ ''.'' @ drop 1 digits @ ''e'' @ show_int64 (ex + int n - 1)
         else if ex \<ge> 0 then digits @ replicate (nat ex) CHR ''0''
         else if wrap8 (- ex) < wrap8 (int n)
         then (let point = nat (int n + ex) in take point digits @ ''.'' @ drop point digits)
         else ''0.'' @ replicate (nat (- ex) - n) CHR ''0'' @ digits)"

definition dec_String :: "dec64 \<Rightarrow> string" where
  "dec_String a =
     (if dec_IsNaN a then ''NaN''
      else if dec_IsZero a then ''0''
      else
        (let result = dec_String_digits (show_nat (nat (abs64 (Coefficient a)))) (Exponent a)
         in if Coefficient a < 0 then CHR ''-'' # result else result))"

definition dec_StringRaw :: "dec64 \<Rightarrow> string" where
  \<comment> \<open>the multiplication sign is two bytes\<close>
  "dec_StringRaw a =
     (if dec_IsNaN a then ''NaN''
      else if dec_IsZero a then ''0''
      else if Exponent a = 0 then show_int64 (Coefficient a)
      else show_int64 (Coefficient a) @ EncodeRune 0xD7 @ ''10^'' @ show_int64 (Exponent a))"


section \<open>Digits\<close>

lemma is_decimal_iff: "is_decimal c \<longleftrightarrow> 48 \<le> byte c \<and> byte c \<le> 57"
  by (simp add: is_decimal_def less_eq_char_def byte_def)

lemma is_decimal_digit: "n < 10 \<Longrightarrow> is_decimal (char_of (48 + n))" for n :: nat
  by (simp add: is_decimal_iff)

lemma digits_value_snoc: "digits_value (s @ [c]) = digits_value s * 10 + digit_value c"
  by (simp add: digits_value_def)

lemma digits_value_append: "digits_value (s @ t) = digits_value s * 10 ^ length t + digits_value t"
  by (induction t rule: rev_induct)
    (simp_all add: digits_value_snoc append_assoc [symmetric] algebra_simps del: append_assoc, simp add: digits_value_def)

lemma digits_value_zeros: "digits_value (replicate n CHR ''0'') = 0"
  by (induction n) (simp_all add: replicate_append_same [symmetric] digits_value_snoc digits_value_def digit_value_def)

lemma digit_value_byte: "digit_value c = int (byte c) - 48"
  by (simp add: digit_value_def byte_def of_char_def)

lemma digit_value_char_of: "n < 10 \<Longrightarrow> digit_value (char_of (48 + n)) = int n" for n :: nat
  by (simp add: digit_value_byte)

lemma show_nat_value: "digits_value (show_nat n) = int n"
proof (induction n rule: show_nat.induct)
  case (1 n)
  then show ?case
    by (subst show_nat.simps) (auto simp: digits_value_snoc digit_value_char_of digits_value_def zdiv_int zmod_int)
qed

lemma show_nat_decimal: "list_all is_decimal (show_nat n)"
proof (induction n rule: show_nat.induct)
  case (1 n)
  then show ?case by (subst show_nat.simps) (auto simp: is_decimal_digit)
qed

lemma show_nat_Nil: "show_nat n \<noteq> []"
  by (subst show_nat.simps) simp

lemma length_show_nat: "n < 10 ^ k \<Longrightarrow> 0 < k \<Longrightarrow> length (show_nat n) \<le> k"
proof (induction n arbitrary: k rule: show_nat.induct)
  case (1 n)
  show ?case
  proof (cases "n < 10")
    case False
    obtain j where k: "k = Suc j" using 1(3) by (cases k) simp_all
    with False 1(2) have "0 < j" by (cases j) simp_all
    have "n div 10 < 10 ^ j" using 1(2) k by (simp add: less_mult_imp_div_less mult.commute)
    then have "length (show_nat (n div 10)) \<le> j" using 1(1) False \<open>0 < j\<close> by simp
    then show ?thesis using False k by (subst show_nat.simps) simp
  qed (use 1 in \<open>subst show_nat.simps; simp\<close>)
qed

lemma decimal_ascii: "is_decimal c \<Longrightarrow> byte c < 128 \<and> \<not> isSpace (byte c)"
  by (simp add: is_decimal_iff isSpace_def)

lemma rune_parts_ascii: "list_all (\<lambda>c. byte c < 128) s \<Longrightarrow> rune_parts s = map (\<lambda>c. (byte c, [c])) s"
  by (induction s) (subst rune_parts.simps; simp add: DecodeRune_ascii)+

lemma dropWhile_keeps: "(xs \<noteq> [] \<Longrightarrow> \<not> P (hd xs)) \<Longrightarrow> dropWhile P xs = xs"
  by (cases xs) simp_all

lemma TrimSpace_ascii:
  assumes "list_all (\<lambda>c. byte c < 128) s" "s \<noteq> []" "\<not> isSpace (byte (hd s))" "\<not> isSpace (byte (last s))"
  shows "TrimSpace s = s"
proof -
  have "concat (map (\<lambda>c. [c]) s) = s" by (induction s) simp_all
  then show ?thesis
    using assms
    by (simp add: TrimSpace_def Let_def rune_parts_ascii dropWhile_keeps hd_map last_map hd_rev rev_map comp_def)
qed


section \<open>Reading what was printed\<close>

lemma digits_value_nonneg: "list_all is_decimal s \<Longrightarrow> 0 \<le> digits_value s"
  by (induction s rule: rev_induct) (auto simp: digits_value_snoc digit_value_byte is_decimal_iff, simp add: digits_value_def)

lemma not_decimal: "\<not> is_decimal CHR ''-''" "\<not> is_decimal CHR ''+''" "\<not> is_decimal CHR ''.''" "\<not> is_decimal CHR ''e''"
    "\<not> is_decimal CHR ''E''"
  by (simp_all add: is_decimal_iff byte_def)

lemma ParseInt_digits:
  "list_all is_decimal s \<Longrightarrow> s \<noteq> [] \<Longrightarrow> digits_value s \<le> max_int64 \<Longrightarrow> ParseInt s = Inr (digits_value s)"
  using not_decimal by (cases s) (auto simp: ParseInt_def)

lemma ParseInt_show_int64:
  assumes "- 128 \<le> i" "i \<le> 127"
  shows "ParseInt (show_int64 i) = Inr i"
proof (cases "i < 0")
  case True
  then show ?thesis
    using assms show_nat_decimal [of "nat (- i)"] show_nat_Nil [of "nat (- i)"] show_nat_value [of "nat (- i)"]
    by (simp add: show_int64_def ParseInt_def min_int64_def)
next
  case False
  then show ?thesis
    using assms ParseInt_digits [OF show_nat_decimal show_nat_Nil, of "nat i"]
    by (simp add: show_int64_def show_nat_value max_int64_def)
qed

definition no_exponent :: "string \<Rightarrow> bool" where
  "no_exponent s \<longleftrightarrow> list_all (\<lambda>c. c \<noteq> CHR ''e'' \<and> c \<noteq> CHR ''E'') s"

lemma no_exponent_decimal: "list_all is_decimal s \<Longrightarrow> no_exponent s"
  using not_decimal unfolding no_exponent_def by (auto simp: list_all_iff)

lemma no_exponent_append [simp]: "no_exponent (s @ t) \<longleftrightarrow> no_exponent s \<and> no_exponent t"
  by (simp add: no_exponent_def)

lemma no_exponent_take_drop: "no_exponent s \<Longrightarrow> no_exponent (take n s) \<and> no_exponent (drop n s)"
  by (metis append_take_drop_id no_exponent_append)

lemma read_exponent_plain: "no_exponent s \<Longrightarrow> read_exponent s = Inr (s, 0)"
proof -
  assume "no_exponent s"
  then have tw: "takeWhile (\<lambda>c. c \<noteq> CHR ''e'' \<and> c \<noteq> CHR ''E'') s = s"
    by (simp add: no_exponent_def list_all_iff takeWhile_eq_all_conv)
  show ?thesis by (simp only: read_exponent_def split_exponent_def Let_def tw less_irrefl if_False option.case)
qed

lemma read_exponent_scientific:
  assumes "no_exponent s" "- 128 \<le> i" "i \<le> 127"
  shows "read_exponent (s @ CHR ''e'' # show_int64 i) = Inr (s, i)"
proof -
  have "takeWhile (\<lambda>c. c \<noteq> CHR ''e'' \<and> c \<noteq> CHR ''E'') (s @ CHR ''e'' # t) = s" for t
    using assms(1) by (simp add: no_exponent_def list_all_iff takeWhile_append)
  then show ?thesis using assms by (simp add: read_exponent_def split_exponent_def Let_def ParseInt_show_int64)
qed

lemma fraction_length_dot: "list_all is_decimal s \<Longrightarrow> fraction_length (s @ CHR ''.'' # t) = length t"
  using not_decimal(3) unfolding fraction_length_def
  by (subst dropWhile_append2) (auto simp: list_all_iff)

lemma fraction_length_none: "list_all is_decimal s \<Longrightarrow> fraction_length s = 0"
proof -
  assume "list_all is_decimal s"
  then have dw: "dropWhile (\<lambda>c. c \<noteq> CHR ''.'') s = []" using not_decimal(3) by (auto simp: list_all_iff)
  show ?thesis by (simp only: fraction_length_def dw) simp
qed

lemma filter_decimal: "list_all is_decimal s \<Longrightarrow> filter (\<lambda>c. c \<noteq> CHR ''.'') s = s"
  using not_decimal(3) by (auto simp: list_all_iff filter_id_conv)

text \<open>What reading the digits of a number back needs: the parts that \<open>FromString\<close> takes apart.\<close>

definition reads_as :: "string \<Rightarrow> int \<Rightarrow> int \<Rightarrow> bool" where
  "reads_as r m e \<longleftrightarrow>
     (\<exists>s x. read_exponent r = Inr (s, x) \<and> ParseInt (filter (\<lambda>c. c \<noteq> CHR ''.'') s) = Inr m \<and>
        wrap8 (wrap8 (- wrap8 (int (fraction_length s))) + wrap8 x) = e)"

lemma wrap8_small: "- 128 \<le> x \<Longrightarrow> x \<le> 127 \<Longrightarrow> wrap8 x = x"
  by (rule wrap8_id)

lemma reads_as_point:
  assumes "list_all is_decimal s" "list_all is_decimal t" "s @ t \<noteq> []" "digits_value (s @ t) = m" "m \<le> max_int64"
    and "length t \<le> 127" "- 128 \<le> x - int (length t)" "x - int (length t) \<le> 127" "- 128 \<le> x" "x \<le> 127"
    and r: "r = (s @ CHR ''.'' # t) @ CHR ''e'' # show_int64 x \<or> r = s @ CHR ''.'' # t \<and> x = 0"
  shows "reads_as r m (x - int (length t))"
proof -
  have "no_exponent (s @ CHR ''.'' # t)"
    using no_exponent_decimal [OF assms(1)] no_exponent_decimal [OF assms(2)] by (simp add: no_exponent_def)
  then have "read_exponent r = Inr (s @ CHR ''.'' # t, x)"
    using r read_exponent_plain [of "s @ CHR ''.'' # t"] read_exponent_scientific [of "s @ CHR ''.'' # t" x] assms(9,10)
    by auto
  moreover have "filter (\<lambda>c. c \<noteq> CHR ''.'') (s @ CHR ''.'' # t) = s @ t"
    using assms(1,2) by (simp add: filter_decimal)
  moreover have "ParseInt (s @ t) = Inr m" using assms(1-5) ParseInt_digits [of "s @ t"] by simp
  ultimately show ?thesis
    using assms(1,6-10) unfolding reads_as_def by (simp add: fraction_length_dot wrap8_small)
qed

lemma dec_String_digits_reads:
  fixes m :: nat and e :: int
  defines "ds \<equiv> show_nat m"
  assumes m: "0 < m" "int m \<le> 2 ^ 55" and e: "- 127 \<le> e" "e \<le> 0 \<or> 16 \<le> e \<and> e + int (length ds) \<le> 128"
  shows "reads_as (dec_String_digits ds e) (int m) e"
proof -
  have n: "length ds \<le> 17" "0 < length ds" using m length_show_nat [of m 17] show_nat_Nil [of m] by (simp_all add: ds_def)
  have dec: "list_all is_decimal ds" "digits_value ds = int m" by (simp_all add: ds_def show_nat_decimal show_nat_value)
  have dec': "list_all is_decimal (take k ds)" "list_all is_decimal (drop k ds)" for k
    using dec(1) by (metis append_take_drop_id list_all_append)+
  have mx: "int m \<le> max_int64" using m by (simp add: max_int64_def)
  let ?sci = "e \<ge> 16 \<or> (e < 0 \<and> - e \<ge> int (length ds) + 16)"
  have w: "wrap8 (int (length ds)) = int (length ds)" "wrap8 (int (length ds) + 16) = int (length ds) + 16"
    "e < 0 \<Longrightarrow> wrap8 (- e) = - e"
    using n e by (auto intro!: wrap8_small)
  consider "?sci" | "\<not> ?sci" "e = 0" | "e < 0" "\<not> ?sci" "- e < int (length ds)" | "e < 0" "\<not> ?sci" "int (length ds) \<le> - e"
    using e by linarith
  then show ?thesis
  proof cases
    case 1
    have "reads_as (dec_String_digits ds e) (int m) ((e + int (length ds) - 1) - int (length (drop 1 ds)))"
      using 1 n e w dec mx dec' by (intro reads_as_point [where s = "take 1 ds"]) (auto simp: dec_String_digits_def Let_def)
    then show ?thesis using n by simp
  next
    case 2
    have "ParseInt ds = Inr (int m)" using ParseInt_digits [OF dec(1)] dec(2) mx n by simp
    then show ?thesis
      using 2 dec n unfolding reads_as_def
      by (simp add: dec_String_digits_def Let_def read_exponent_plain no_exponent_decimal filter_decimal
          fraction_length_none wrap8_small)
  next
    case 3
    have "reads_as (dec_String_digits ds e) (int m) (0 - int (length (drop (nat (int (length ds) + e)) ds)))"
      using 3 n e w dec mx dec'
      by (intro reads_as_point [where s = "take (nat (int (length ds) + e)) ds"]) (auto simp: dec_String_digits_def Let_def)
    then show ?thesis using 3 by simp
  next
    case 4
    let ?z = "replicate (nat (- e) - length ds) CHR ''0''"
    have z: "list_all is_decimal ?z" "is_decimal CHR ''0''" by (simp_all add: list_all_iff is_decimal_iff byte_def)
    have v: "digits_value (''0'' @ ?z @ ds) = int m"
      using dec(2) digits_value_zeros [of 1] digits_value_append [of "''0''" "?z @ ds"] digits_value_append [of ?z ds]
      by (simp add: digits_value_zeros)
    have "dec_String_digits ds e = ''0'' @ CHR ''.'' # ?z @ ds" using 4 w by (simp add: dec_String_digits_def Let_def)
    moreover have "length (?z @ ds) = nat (- e)" using 4 by simp
    ultimately have "reads_as (dec_String_digits ds e) (int m) (0 - int (length (?z @ ds)))"
      using 4(1) e n dec(1) mx z v by (intro reads_as_point [where s = "''0''"]) simp_all
    then show ?thesis using 4 by simp
  qed
qed


text \<open>The text of a number begins and ends with a digit, so that no space is trimmed off.\<close>

definition closed_text :: "string \<Rightarrow> bool" where
  "closed_text r \<longleftrightarrow> list_all (\<lambda>c. byte c < 128) r \<and> r \<noteq> [] \<and> is_decimal (hd r) \<and> is_decimal (last r)"

lemma ascii_decimal: "list_all is_decimal s \<Longrightarrow> list_all (\<lambda>c. byte c < 128) s"
  by (auto simp: list_all_iff decimal_ascii)

lemma closed_text_join:
  assumes "list_all is_decimal s" "s \<noteq> []" "list_all (\<lambda>c. byte c < 128) t" "u \<noteq> [] \<and> list_all (\<lambda>c. byte c < 128) u \<and> is_decimal (last u)"
  shows "closed_text (s @ t @ u)"
proof -
  have "is_decimal (hd s)" using assms(1,2) by (cases s) simp_all
  then show ?thesis using assms ascii_decimal [OF assms(1)] by (simp add: closed_text_def)
qed

lemma last_decimal: "list_all is_decimal s \<Longrightarrow> s \<noteq> [] \<Longrightarrow> s \<noteq> [] \<and> list_all (\<lambda>c. byte c < 128) s \<and> is_decimal (last s)"
  by (simp add: ascii_decimal) (simp add: list_all_iff)

lemma show_int64_ends: "show_int64 x \<noteq> [] \<and> list_all (\<lambda>c. byte c < 128) (show_int64 x) \<and> is_decimal (last (show_int64 x))"
  using last_decimal [OF show_nat_decimal show_nat_Nil] by (simp add: show_int64_def byte_def)

lemma dec_String_digits_closed:
  assumes "- 127 \<le> e" "e \<le> 127" "length (show_nat m) \<le> 17"
  shows "closed_text (dec_String_digits (show_nat m) e)"
proof -
  let ?ds = "show_nat m"
  have ds: "list_all is_decimal ?ds" "?ds \<noteq> []" by (simp_all add: show_nat_decimal show_nat_Nil)
  have td: "list_all is_decimal (take k ?ds)" "list_all is_decimal (drop k ?ds)" for k
    using ds(1) by (metis append_take_drop_id list_all_append)+
  have w: "wrap8 (int (length ?ds)) = int (length ?ds)" "wrap8 (int (length ?ds) + 16) = int (length ?ds) + 16"
    "e < 0 \<Longrightarrow> wrap8 (- e) = - e"
    using assms by (auto intro!: wrap8_small)
  have z: "is_decimal CHR ''0''" by (simp add: is_decimal_iff byte_def)
  have chars: "byte CHR ''.'' = 46" "byte CHR ''e'' = 101" by (simp_all add: byte_def)
  consider "e \<ge> 16 \<or> (e < 0 \<and> - e \<ge> int (length ?ds) + 16)"
    | "\<not> (e \<ge> 16 \<or> (e < 0 \<and> - e \<ge> int (length ?ds) + 16))" "e \<ge> 0"
    | "\<not> (e \<ge> 16 \<or> (e < 0 \<and> - e \<ge> int (length ?ds) + 16))" "e < 0" "- e < int (length ?ds)"
    | "\<not> (e \<ge> 16 \<or> (e < 0 \<and> - e \<ge> int (length ?ds) + 16))" "e < 0" "int (length ?ds) \<le> - e"
    by linarith
  then show ?thesis
  proof cases
    case 1
    have "closed_text (take 1 ?ds @ (''.'' @ drop 1 ?ds @ ''e'') @ show_int64 (e + int (length ?ds) - 1))"
      using td ds show_int64_ends ascii_decimal [OF td(2)] by (intro closed_text_join) (simp_all add: chars)
    then show ?thesis using 1 w by (auto simp: dec_String_digits_def Let_def)
  next
    case 2
    have "closed_text (?ds @ [] @ replicate (nat e) CHR ''0'')" if "e \<noteq> 0"
      using that 2 ds z by (intro closed_text_join last_decimal) (simp_all add: list_all_iff)
    moreover have "closed_text ?ds" using last_decimal [OF ds] ds by (cases ?ds) (simp_all add: closed_text_def)
    ultimately show ?thesis using 2 w by (cases "e = 0") (simp_all add: dec_String_digits_def Let_def)
  next
    case 3
    have "closed_text (take (nat (int (length ?ds) + e)) ?ds @ ''.'' @ drop (nat (int (length ?ds) + e)) ?ds)"
      using 3 td ds by (intro closed_text_join last_decimal) (auto simp: byte_def)
    then show ?thesis using 3 w by (simp add: dec_String_digits_def Let_def)
  next
    case 4
    have "closed_text (''0'' @ (''.'' @ replicate (nat (- e) - length ?ds) CHR ''0'') @ ?ds)"
      using ds z by (intro closed_text_join last_decimal) (simp_all add: list_all_iff byte_def)
    then show ?thesis using 4 w by (simp add: dec_String_digits_def Let_def)
  qed
qed

section \<open>Round trip\<close>

lemma FromString_signed:
  assumes "closed_text r" "reads_as r m e"
  shows "dec_FromString (if neg then CHR ''-'' # r else r) = Inr (dec_Normalize (dec_New (if neg then wrap64 (- m) else m) e))"
proof -
  let ?s = "if neg then CHR ''-'' # r else r"
  obtain c cs where r: "r = c # cs" "is_decimal c" using assms(1) by (cases r) (simp_all add: closed_text_def)
  have "TrimSpace ?s = ?s"
    using assms(1) r decimal_ascii [of c] decimal_ascii [of "last r"]
    by (intro TrimSpace_ascii) (auto simp: closed_text_def byte_def isSpace_def)
  moreover have "c \<noteq> CHR ''-''" "c \<noteq> CHR ''+''" using r(2) not_decimal by auto
  ultimately show ?thesis
    using assms(2) r(1) unfolding reads_as_def by (auto simp: dec_FromString_def)
qed

text \<open>C23:
  A number that is printed and read again is the number in normal form, if its exponent is not
  positive, or is at least 16 and the printed exponent is at most 127. Between, the digits that
  are printed may be more than 56 bits hold.\<close>
theorem dec64_text_roundtrip:
  assumes "\<not> dec_IsNaN d"
    and "Exponent d \<le> 0 \<or> 16 \<le> Exponent d \<and> Exponent d + int (length (show_nat (nat \<bar>Coefficient d\<bar>))) \<le> 128"
  shows "dec_FromString (dec_String d) = Inr (dec_Normalize d)"
proof (cases "Coefficient d = 0")
  case True
  have "closed_text ''0''" "reads_as ''0'' 0 0"
    by (simp_all add: closed_text_def reads_as_def read_exponent_def split_exponent_def ParseInt_def
        digits_value_def digit_value_byte is_decimal_iff byte_def max_int64_def fraction_length_def wrap8_small)
  from FromString_signed [OF this, of False]
  show ?thesis
    using True assms(1) Coefficient_New [of 0 0]
    by (simp add: dec_String_def dec_IsZero_def dec_Normalize_def normalizeTowardZero_def MIN_COEFF_def MAX_COEFF_def)
next
  case False
  let ?m = "nat \<bar>Coefficient d\<bar>" and ?r = "dec_String_digits (show_nat (nat \<bar>Coefficient d\<bar>)) (Exponent d)"
  have m: "0 < ?m" "int ?m \<le> 2 ^ 55" using False Coefficient_range [of d] by auto
  have e: "- 127 \<le> Exponent d" "Exponent d \<le> 127" using assms(1) Exponent_range [of d] by (auto simp: dec_IsNaN_def)
  have len: "length (show_nat ?m) \<le> 17" using m length_show_nat [of ?m 17] by simp
  have "closed_text ?r" by (rule dec_String_digits_closed) (use e len in simp_all)
  moreover have "reads_as ?r (int ?m) (Exponent d)"
    using dec_String_digits_reads [OF m e(1)] assms(2) by simp
  ultimately have "dec_FromString (if Coefficient d < 0 then CHR ''-'' # ?r else ?r) =
      Inr (dec_Normalize (dec_New (if Coefficient d < 0 then wrap64 (- int ?m) else int ?m) (Exponent d)))"
    by (rule FromString_signed)
  moreover have "(if Coefficient d < 0 then wrap64 (- int ?m) else int ?m) = Coefficient d"
    using m by (simp add: wrap64_id min_int64_def max_int64_def)
  moreover have "dec_String d = (if Coefficient d < 0 then CHR ''-'' # ?r else ?r)"
    using False assms(1) by (simp add: dec_String_def dec_IsZero_def abs64_Coefficient)
  ultimately show ?thesis by (simp add: New_parts)
qed

theorem dec64_text_roundtrip_witness:
  "dec_FromString (dec_String (dec_New (- 125) (- 2))) = Inr (dec_Normalize (dec_New (- 125) (- 2)))"
  by (rule dec64_text_roundtrip) (simp_all add: dec_IsNaN_def MIN_COEFF_def MAX_COEFF_def)

text \<open>
  An integer literal keeps the low 56 bits of its value: literals from 2^55 up to the largest
  64-bit integer are read without an error as another number.\<close>
theorem dec64_literal_wraps:
  assumes "int n \<le> max_int64"
  shows "dec_FromString (show_nat n) = Inr (normalizeTowardZero (signed_take_bit 55 (int n)) 0)"
proof -
  have ds: "list_all is_decimal (show_nat n)" "show_nat n \<noteq> []" by (simp_all add: show_nat_decimal show_nat_Nil)
  have "closed_text (show_nat n)" using last_decimal [OF ds] ds by (cases "show_nat n") (simp_all add: closed_text_def)
  moreover have "reads_as (show_nat n) (int n) 0"
    using ds assms unfolding reads_as_def
    by (simp add: read_exponent_plain no_exponent_decimal filter_decimal fraction_length_none wrap8_small
        ParseInt_digits show_nat_value)
  ultimately show ?thesis
    using FromString_signed [of "show_nat n" "int n" 0 False]
    by (simp add: dec_Normalize_def Coefficient_New_take_bit)
qed

theorem dec64_literal_wraps_witness: "dec_FromString (show_nat (2 ^ 56)) = Inr dec_ZERO"
  using dec64_literal_wraps [of "2 ^ 56"] by (simp add: max_int64_def normalizeTowardZero_def signed_take_bit_def)


text \<open>
  The digits after the point are counted in eight bits: with 200 zeros after the point, the
  digit 1 has the exponent 55 instead of -201.
\<close>

theorem long_fraction_wraps:
  "dec_FromString (''0.'' @ replicate 200 CHR ''0'' @ ''1'') = Inr (dec_Normalize (dec_New 1 55))"
proof -
  let ?z = "replicate 200 CHR ''0''"
  let ?r = "''0'' @ ''.'' @ ?z @ ''1''"
  have z: "list_all is_decimal ?z" "is_decimal CHR ''0''" "is_decimal CHR ''1''" "digit_value CHR ''1'' = 1"
    by (simp_all add: list_all_iff is_decimal_iff byte_def digit_value_byte)
  have v: "digits_value (''0'' @ ?z @ ''1'') = 1"
    using digits_value_append [of "''0'' @ ?z" "''1''"] digits_value_zeros [of 201] z(4)
    by (simp add: digits_value_def replicate_Suc [of 200, simplified])
  have "closed_text ?r"
    using z by (simp add: closed_text_def list_all_iff decimal_ascii byte_def)
  moreover have "reads_as ?r 1 55"
  proof -
    have "no_exponent ?r" using z by (simp add: no_exponent_def list_all_iff)
    moreover have "filter (\<lambda>c. c \<noteq> CHR ''.'') ?r = ''0'' @ ?z @ ''1''" by simp
    moreover have "ParseInt (''0'' @ ?z @ ''1'') = Inr 1"
      using z v ParseInt_digits [of "''0'' @ ?z @ ''1''"] by (simp add: max_int64_def)
    moreover have "fraction_length ?r = 201" using fraction_length_dot [of "''0''" "?z @ ''1''"] z(2) by simp
    ultimately show ?thesis unfolding reads_as_def by (simp add: read_exponent_plain wrap8_def)
  qed
  ultimately show ?thesis using FromString_signed [of ?r 1 55 False] by simp
qed

end
