(* ===== verification/Parser_State.thy ===== *)
theory Parser_State
  imports Printer Diagnostics Dec64_Text
begin

text \<open>
  The state of the parser of \<open>internal/parser/parser.go\<close> and its operations on tokens. The
  parser reads tokens through the interface \<open>Tokenizer\<close>: a state of its own and the method that
  gives the next token. Errors are collected, newest last, and parsing goes on after them.

  A parse gives a value and the new state, panics, or runs out of the fuel that bounds the
  nesting of calls and the rounds of loops.
\<close>

section \<open>State\<close>

record 't parser =
  tokenizer :: 't
  tk_NextToken :: "'t \<Rightarrow> Token \<times> 't"
  p_Path :: string
  p_src :: string
  p_errors :: "string list"
  pendingTags :: "expr Tag list"
  pendingDoc :: string
  hasPendingDoc :: bool
  moduleDoc :: string
  hasModuleDoc :: bool
  seenMeaningful :: bool
  scopeDepth :: nat
  allowStructInit :: bool
  curToken :: Token
  peekToken :: Token
  peek2Token :: Token

datatype ('t, 'a) presult = POk 'a "'t parser" | PPanic string | PFuel

type_synonym ('t, 'a) parse = "'t parser \<Rightarrow> ('t, 'a) presult"

definition retP :: "'a \<Rightarrow> ('t, 'a) parse" where
  "retP a p = POk a p"

definition bindP :: "('t, 'a) parse \<Rightarrow> ('a \<Rightarrow> ('t, 'b) parse) \<Rightarrow> ('t, 'b) parse" where
  "bindP m f p = (case m p of POk a p \<Rightarrow> f a p | PPanic e \<Rightarrow> PPanic e | PFuel \<Rightarrow> PFuel)"

abbreviation thenP :: "('t, 'a) parse \<Rightarrow> ('t, 'b) parse \<Rightarrow> ('t, 'b) parse" where
  "thenP m n \<equiv> bindP m (\<lambda>_. n)"

definition getP :: "('t parser \<Rightarrow> 'a) \<Rightarrow> ('t, 'a) parse" where
  "getP f p = POk (f p) p"

definition modP :: "('t parser \<Rightarrow> 't parser) \<Rightarrow> ('t, unit) parse" where
  "modP f p = POk () (f p)"

definition panicP :: "string \<Rightarrow> ('t, 'a) parse" where
  "panicP e p = PPanic e"

definition fuelP :: "('t, 'a) parse" where
  "fuelP p = PFuel"

definition ifP :: "('t parser \<Rightarrow> bool) \<Rightarrow> ('t, 'a) parse \<Rightarrow> ('t, 'a) parse \<Rightarrow> ('t, 'a) parse" where
  "ifP c m n p = (if c p then m p else n p)"

definition whenP :: "('t parser \<Rightarrow> bool) \<Rightarrow> ('t, unit) parse \<Rightarrow> ('t, unit) parse" where
  "whenP c m = ifP c m (retP ())"

definition orPanic :: "string \<Rightarrow> 'a option \<Rightarrow> ('t, 'a) parse" where
  "orPanic e x = (case x of Some a \<Rightarrow> retP a | None \<Rightarrow> panicP e)"

definition nil_dereference :: string where
  "nil_dereference = ''runtime error: invalid memory address or nil pointer dereference''"

section \<open>Errors\<close>

definition addError :: "nat \<Rightarrow> string \<Rightarrow> 't parser \<Rightarrow> 't parser" where
  \<comment> \<open>\<open>addErrorAt\<close>, given the formatted message\<close>
  "addError pos m p =
     (let (line, col) = GetLineAndColumn (p_src p) pos;
          msg = CHR 0x0A # ''ParseError: '' @ m @ [CHR 0x0A] @
                ''    --> '' @ p_Path p @ '':'' @ show_nat line @ '':'' @ show_nat col @ [CHR 0x0A] @
                GetContextLines (p_src p) line col
      in p\<lparr>p_errors := p_errors p @ [msg]\<rparr>)"

definition addErrorAt :: "nat \<Rightarrow> string \<Rightarrow> ('t, unit) parse" where
  "addErrorAt pos m = modP (addError pos m)"

definition errorHere :: "string \<Rightarrow> ('t, unit) parse" where
  \<comment> \<open>at the current token\<close>
  "errorHere m = modP (\<lambda>p. addError (tok_Position (curToken p)) m p)"

definition noPrefixParseFnError :: "TokenType \<Rightarrow> ('t, unit) parse" where
  "noPrefixParseFnError t = errorHere (''no prefix parse function for '' @ squoted t @ '' found'')"

definition peekError :: "TokenType \<Rightarrow> ('t, unit) parse" where
  "peekError t =
     modP (\<lambda>p. addError (tok_Position (peekToken p))
       (''expected next token to be '' @ t @ '', got '' @ tok_Type (peekToken p) @ '' instead'') p)"

section \<open>Tokens\<close>

definition shift_token :: "'t parser \<Rightarrow> 't parser" where
  "shift_token p =
     (let (t, tz) = tk_NextToken p (tokenizer p)
      in p\<lparr>curToken := peekToken p, peekToken := peek2Token p, peek2Token := t, tokenizer := tz\<rparr>)"

definition report_illegal :: "'t parser \<Rightarrow> 't parser" where
  "report_illegal p =
     (let t = curToken p
      in if tok_Type t = ILLEGAL
         then addError (tok_Position t)
                (''lexer error at position '' @ show_nat (tok_Position t) @ '': '' @ tok_Literal t) p
         else p)"

definition nextToken :: "('t, unit) parse" where
  "nextToken = modP (\<lambda>p. report_illegal (shift_token p))"

definition curTokenIs :: "TokenType \<Rightarrow> 't parser \<Rightarrow> bool" where
  "curTokenIs t p \<longleftrightarrow> tok_Type (curToken p) = t"

definition peekTokenIs :: "TokenType \<Rightarrow> 't parser \<Rightarrow> bool" where
  "peekTokenIs t p \<longleftrightarrow> tok_Type (peekToken p) = t"

definition expectPeek :: "TokenType \<Rightarrow> ('t, bool) parse" where
  "expectPeek t = ifP (peekTokenIs t) (thenP nextToken (retP True)) (thenP (peekError t) (retP False))"

text \<open>Go on if the next token is the expected one, and give a value otherwise.\<close>

definition expecting :: "TokenType \<Rightarrow> 'a \<Rightarrow> ('t, 'a) parse \<Rightarrow> ('t, 'a) parse" where
  "expecting t a m = bindP (expectPeek t) (\<lambda>ok. if ok then m else retP a)"

fun skip_while :: "nat \<Rightarrow> ('t parser \<Rightarrow> bool) \<Rightarrow> ('t, unit) parse" where
  \<comment> \<open>a loop whose body is \<open>nextToken\<close>\<close>
  "skip_while 0 c = fuelP"
| "skip_while (Suc k) c = whenP c (thenP nextToken (skip_while k c))"

definition skipStatementSeparators :: "nat \<Rightarrow> ('t, unit) parse" where
  "skipStatementSeparators k = skip_while k (\<lambda>p. curTokenIs SEMICOLON p \<or> curTokenIs NEWLINE p)"

definition skipCaseSeparators :: "nat \<Rightarrow> ('t, unit) parse" where
  "skipCaseSeparators k = skip_while k (\<lambda>p. curTokenIs NEWLINE p \<or> curTokenIs SEMICOLON p)"

definition skipLeadingNewlines :: "nat \<Rightarrow> ('t, unit) parse" where
  "skipLeadingNewlines k = skip_while k (curTokenIs NEWLINE)"

definition skipPeekNewlines :: "nat \<Rightarrow> ('t, unit) parse" where
  "skipPeekNewlines k = skip_while k (peekTokenIs NEWLINE)"

definition curTokenIsIdentLiteral :: "string \<Rightarrow> 't parser \<Rightarrow> bool" where
  "curTokenIsIdentLiteral lit p \<longleftrightarrow> curTokenIs IDENT p \<and> tok_Literal (curToken p) = lit"

definition tokenIsSymbolName :: "TokenType \<Rightarrow> bool" where
  "tokenIsSymbolName t \<longleftrightarrow>
     t \<in> {IDENT, NIL, TRUE, FALSE, FOREIGN, FUNCTION, VAL, VAR, IF, ELSE, MATCH, RETURN, RECUR, THROW, DEFER,
          STRUCT, COPY, NURSERY, SPAWN}"

definition peekTokenIsSymbolName :: "'t parser \<Rightarrow> bool" where
  "peekTokenIsSymbolName p = tokenIsSymbolName (tok_Type (peekToken p))"

definition curTokenIsSymbolName :: "'t parser \<Rightarrow> bool" where
  "curTokenIsSymbolName p = tokenIsSymbolName (tok_Type (curToken p))"

definition curIdent :: "'t parser \<Rightarrow> Identifier" where
  "curIdent p = Identifier (curToken p) (tok_Literal (curToken p))"

section \<open>The parser at the start of a text\<close>

definition New :: "('t \<Rightarrow> Token \<times> 't) \<Rightarrow> 't \<Rightarrow> string \<Rightarrow> string \<Rightarrow> 't parser" where
  "New next l path source =
     (let p = \<lparr>tokenizer = l, tk_NextToken = next, p_Path = path, p_src = source, p_errors = [], pendingTags = [],
            pendingDoc = [], hasPendingDoc = False, moduleDoc = [], hasModuleDoc = False, seenMeaningful = False,
            scopeDepth = 0, allowStructInit = True, curToken = noToken, peekToken = noToken, peek2Token = noToken\<rparr>
      in ((\<lambda>p. report_illegal (shift_token p)) ^^ 3) p)"

section \<open>Precedences\<close>

definition LOWEST :: int where "LOWEST = 1"
definition PREFIX :: int where "PREFIX = 13"
definition CALL_CHAIN_PREC :: int where "CALL_CHAIN_PREC = 14"

definition precedences :: "(TokenType \<times> int) list" where
  \<comment> \<open>with the numbers that \<open>iota\<close> gives the levels\<close>
  "precedences =
     [(ASSIGN, 1), (EQ, 4), (NOT_EQ, 4), (LOGICAL_AND, 3), (LOGICAL_OR, 2), (BITWISE_AND, 8), (BITWISE_OR, 6),
      (BITWISE_XOR, 7), (SHIFT_LEFT, 9), (SHIFT_RIGHT, 9), (LT, 5), (LT_EQ, 5), (GT, 5), (GT_EQ, 5), (PLUS, 10),
      (MINUS, 10), (SLASH, 11), (ASTERISK, 11), (PERCENT, 11), (APPEND_ITEM, 12), (PREPEND_ITEM, 12),
      (CALL_CHAIN, 14), (COPY, 15), (PERIOD, 15), (LPAREN, 15), (INTERPOLATION_START, 15), (LBRACKET, 16),
      (LBRACE, 15)]"

definition precedence_of :: "TokenType \<Rightarrow> int" where
  "precedence_of t = (case map_of precedences t of Some n \<Rightarrow> n | None \<Rightarrow> LOWEST)"

definition peekPrecedence :: "'t parser \<Rightarrow> int" where
  "peekPrecedence p = precedence_of (tok_Type (peekToken p))"

definition curPrecedence :: "'t parser \<Rightarrow> int" where
  "curPrecedence p = precedence_of (tok_Type (curToken p))"

section \<open>Newlines\<close>

definition isContinuationToken :: "TokenType \<Rightarrow> bool" where
  "isContinuationToken t \<longleftrightarrow>
     t \<in> {PLUS, MINUS, ASTERISK, SLASH, PERCENT, EQ, NOT_EQ, LT, LT_EQ, GT, GT_EQ, LOGICAL_AND, LOGICAL_OR,
          BITWISE_AND, BITWISE_OR, SHIFT_LEFT, SHIFT_RIGHT, APPEND_ITEM, PREPEND_ITEM, CALL_CHAIN, PERIOD}"

definition isRhsRequiredToken :: "TokenType \<Rightarrow> bool" where
  "isRhsRequiredToken t \<longleftrightarrow>
     t \<in> {ASSIGN, PLUS, MINUS, ASTERISK, SLASH, PERCENT, EQ, NOT_EQ, LT, LT_EQ, GT, GT_EQ, LOGICAL_AND, LOGICAL_OR,
          BITWISE_AND, BITWISE_OR, BITWISE_XOR, SHIFT_LEFT, SHIFT_RIGHT, APPEND_ITEM, PREPEND_ITEM, CALL_CHAIN,
          PERIOD, COLON, ROCKET}"

definition newlineTerminates :: "'t parser \<Rightarrow> bool" where
  "newlineTerminates p \<longleftrightarrow>
     (if tok_Type (peek2Token p) = LPAREN \<or> tok_Type (peek2Token p) = LBRACKET then True
      else if isContinuationToken (tok_Type (peek2Token p)) then False
      else if isRhsRequiredToken (tok_Type (curToken p)) then False
      else True)"

section \<open>Documentation comments\<close>

definition clearPendingDoc :: "'t parser \<Rightarrow> 't parser" where
  "clearPendingDoc p = p\<lparr>pendingDoc := [], hasPendingDoc := False\<rparr>"

definition isModuleDocCandidate :: "'t parser \<Rightarrow> bool" where
  "isModuleDocCandidate p \<longleftrightarrow>
     peekTokenIs NEWLINE p \<and> length (filter (\<lambda>c. c = CHR 0x0A) (tok_Literal (peekToken p))) \<ge> 2"

definition handleDocComment :: "'t parser \<Rightarrow> 't parser" where
  "handleDocComment p =
     (if scopeDepth p \<noteq> 0 then p
      else
        (let doc = tok_Literal (curToken p)
         in if \<not> seenMeaningful p \<and> \<not> hasModuleDoc p \<and> isModuleDocCandidate p
            then p\<lparr>moduleDoc := doc, hasModuleDoc := True, seenMeaningful := True\<rparr>
            else p\<lparr>pendingDoc := doc, hasPendingDoc := True, seenMeaningful := True\<rparr>))"

definition isDocAttachStatement :: "stmt \<Rightarrow> bool" where
  "isDocAttachStatement s \<longleftrightarrow>
     (case s of
        ForeignFunctionDeclaration _ _ _ _ _ _ _ _ _ \<Rightarrow> True
      | ExpressionStatement _ e \<Rightarrow>
          (case e of ValExpression _ _ _ _ _ _ _ \<Rightarrow> True | VarExpression _ _ _ _ _ _ _ \<Rightarrow> True | _ \<Rightarrow> False)
      | _ \<Rightarrow> False)"

definition noteStatement :: "stmt \<Rightarrow> ('t, unit) parse" where
  \<comment> \<open>what \<open>parseStatement\<close> and \<open>ParseProgram\<close> record after a statement\<close>
  "noteStatement s =
     modP (\<lambda>p. if scopeDepth p = 0
               then (let p = p\<lparr>seenMeaningful := True\<rparr>
                     in if hasPendingDoc p \<and> \<not> isDocAttachStatement s then clearPendingDoc p else p)
               else p)"

definition takeTags :: "('t, expr Tag list) parse" where
  "takeTags p = POk (pendingTags p) (p\<lparr>pendingTags := []\<rparr>)"

definition takeDoc :: "('t, string \<times> bool) parse" where
  "takeDoc p =
     (if scopeDepth p = 0 \<and> hasPendingDoc p then POk (pendingDoc p, True) (clearPendingDoc p)
      else POk ([], False) p)"

end
