(* ===== verification/Parser.thy ===== *)
theory Parser
  imports Parser_State
begin

text \<open>
  The grammar of \<open>internal/parser/parser.go\<close>: one definition per method, in the order in which
  they call each other. The three methods through which the grammar is recursive,
  \<open>parseExpression\<close>, \<open>parseStatement\<close> and \<open>parseMatchPattern\<close>, are an argument \<open>R\<close> of the others,
  and \<open>k\<close> bounds the rounds of their loops; \<open>parser_at\<close> ties the knot at the end, with a fuel that
  decreases at every call.

  A nil expression is \<open>NoExpr\<close>, a nil statement \<open>NoStmt\<close>, a nil pattern \<open>NoPattern\<close>, and a nil
  slice an empty list. Where a Go composite literal reads a token and parses in its fields, the
  token is read first, which the Go specification allows.
\<close>

record 't callees =
  expression :: "int \<Rightarrow> ('t, expr) parse"
  statement :: "('t, stmt) parse"
  match_pattern :: "('t, pattern) parse"

section \<open>Literals\<close>

definition parseSymbolLiteral :: "('t, expr) parse" where
  "parseSymbolLiteral =
     getP (\<lambda>p. let lit = tok_Literal (curToken p)
               in SymbolLiteral (curToken p) (if take 1 lit = '':'' then drop 1 lit else lit))"

definition parseSymbolLiteralFromColon :: "('t, expr) parse" where
  "parseSymbolLiteralFromColon =
     ifP (\<lambda>p. \<not> peekTokenIsSymbolName p \<and> \<not> peekTokenIs STRING p)
       (thenP (peekError IDENT) (retP NoExpr))
       (thenP nextToken (getP (\<lambda>p. SymbolLiteral (curToken p) (tok_Literal (curToken p)))))"

definition hex_value :: "char \<Rightarrow> nat option" where
  "hex_value c =
     (let b = byte c
      in if 48 \<le> b \<and> b \<le> 57 then Some (b - 48)
         else if 97 \<le> b \<and> b \<le> 102 then Some (b - 87)
         else if 65 \<le> b \<and> b \<le> 70 then Some (b - 55) else None)"

fun hex_DecodeString :: "string \<Rightarrow> string option" where
  \<comment> \<open>\<open>hex.DecodeString\<close>, \<open>None\<close> for an error\<close>
  "hex_DecodeString [] = Some []"
| "hex_DecodeString (c # d # s) =
     (case (hex_value c, hex_value d, hex_DecodeString s) of
        (Some x, Some y, Some r) \<Rightarrow> Some (char_of (16 * x + y) # r)
      | _ \<Rightarrow> None)"
| "hex_DecodeString [c] = None"

definition escaped :: "char \<Rightarrow> string" where
  "escaped c =
     (let b = byte c
      in if c = CHR 0x22 \<or> c = CHR 0x5C then [CHR 0x5C, c]
         else if b \<ge> 32 \<and> b \<noteq> 127 then [c]
         else
           (case map_of [(7, CHR ''a''), (8, CHR ''b''), (12, CHR ''f''), (10, CHR ''n''), (13, CHR ''r''),
                (9, CHR ''t''), (11, CHR ''v'')] b of
              Some d \<Rightarrow> [CHR 0x5C, d]
            | None \<Rightarrow> [CHR 0x5C, CHR ''x'', hex_digit (b div 16), hex_digit (b mod 16)]))"

definition Quote :: "string \<Rightarrow> string" where
  \<comment> \<open>\<open>%q\<close>, for text whose runes from 128 up can be printed\<close>
  "Quote s = dquoted (concat (map escaped s))"

definition parseNumberLiteral :: "('t, expr) parse" where
  "parseNumberLiteral =
     bindP (getP curToken) (\<lambda>t.
     let lit = tok_Literal t
     in if length lit > 2 \<and> take 2 lit = ''0x''
        then
          (case hex_DecodeString (drop 2 lit) of
             None \<Rightarrow> thenP (errorHere (''could not parse '' @ Quote lit @ '' as hex number'')) (retP NoExpr)
           | Some bytes \<Rightarrow>
               (let u = foldl (\<lambda>u b. (u * 256 + int (byte b)) mod 2 ^ 64) 0 bytes
                in retP (NumberLiteral t (FromUint u))))
        else
          (case dec_FromString lit of
             Inl _ \<Rightarrow> thenP (errorHere (''could not parse '' @ Quote lit @ '' as number'')) (retP NoExpr)
           | Inr value \<Rightarrow> retP (NumberLiteral t value)))"

definition parseStringLiteral :: "('t, expr) parse" where
  "parseStringLiteral = getP (\<lambda>p. StringLiteral (curToken p) (tok_Literal (curToken p)))"

definition parseBytesLiteral :: "('t, expr) parse" where
  "parseBytesLiteral =
     bindP (getP curToken) (\<lambda>t.
     case hex_DecodeString (tok_Literal t) of
       None \<Rightarrow> thenP (errorHere (''could not parse '' @ Quote (tok_Literal t) @ '' as bytes'')) (retP NoExpr)
     | Some value \<Rightarrow> retP (BytesLiteral t value))"

definition parseNil :: "('t, expr) parse" where
  "parseNil = getP (\<lambda>p. NilLiteral (curToken p))"

definition parseBoolean :: "('t, expr) parse" where
  "parseBoolean = getP (\<lambda>p. Boolean (curToken p) (curTokenIs TRUE p))"

section \<open>Type annotations\<close>

definition annotation_depth :: "TokenType \<Rightarrow> nat \<times> nat \<times> nat \<Rightarrow> nat \<times> nat \<times> nat" where
  "annotation_depth t d =
     (let (a, p, b) = d
      in if t = LT then (a + 1, p, b)
         else if t = GT then (a - 1, p, b)
         else if t = SHIFT_RIGHT then (a - 2, p, b)
         else if t = LPAREN then (a, p + 1, b)
         else if t = RPAREN then (a, p - 1, b)
         else if t = LBRACKET then (a, p, b + 1)
         else if t = RBRACKET then (a, p, b - 1)
         else d)"

fun annotation_loop :: "nat \<Rightarrow> TokenType list \<Rightarrow> nat \<times> nat \<times> nat \<Rightarrow> string \<Rightarrow> ('t, string) parse" where
  "annotation_loop 0 stops d text = fuelP"
| "annotation_loop (Suc k) stops d text =
     ifP (curTokenIs EOF) (retP text)
       (bindP (getP curToken) (\<lambda>t.
        let d = annotation_depth (tok_Type t) d; text = text @ tok_Literal t
        in ifP (\<lambda>p. d = (0, 0, 0) \<and> tok_Type (peekToken p) \<in> set stops) (retP text)
             (thenP nextToken (annotation_loop k stops d text))))"

definition parseTypeAnnotationLiteral :: "nat \<Rightarrow> TokenType list \<Rightarrow> ('t, string) parse" where
  "parseTypeAnnotationLiteral k stops =
     (if stops = [] then retP [] else bindP (annotation_loop k stops (0, 0, 0) []) (\<lambda>s. retP (TrimSpace s)))"

definition typeIdentStart :: "char \<Rightarrow> bool" where
  "typeIdentStart c \<longleftrightarrow> (97 \<le> byte c \<and> byte c \<le> 122) \<or> (65 \<le> byte c \<and> byte c \<le> 90) \<or> c = CHR ''_''"

definition isSimpleTypeName :: "string \<Rightarrow> bool" where
  \<comment> \<open>\<open>isSimpleTypeIdent\<close> of the parser\<close>
  "isSimpleTypeName s \<longleftrightarrow>
     (case s of
        [] \<Rightarrow> False
      | c # cs \<Rightarrow> typeIdentStart c \<and> (\<forall>d\<in>set cs. typeIdentStart d \<or> (48 \<le> byte d \<and> byte d \<le> 57)))"

definition inferredTagsFromDeclaredType :: "string \<Rightarrow> expr Tag list" where
  "inferredTagsFromDeclaredType raw =
     (let decl = TrimSpace raw
      in if decl = [] \<or> CHR ''|'' \<in> set decl then []
         else if take 1 decl = ''['' \<and> last decl = CHR '']'' then [Tag noToken ''@list'' []]
         else
           (let ident = (if CHR ''<'' \<in> set decl then TrimSpace (takeWhile (\<lambda>c. c \<noteq> CHR ''<'') decl) else decl)
            in if ident \<in> {''num'', ''str'', ''bool'', ''list'', ''map'', ''bytes'', ''sym'', ''fn'', ''task'', ''struct'', ''chan''}
               then [Tag noToken (CHR ''@'' # ident) []]
               else if isSimpleTypeName ident
               then [Tag noToken ''@struct'' [IdentifierExpr (Identifier (Token IDENT ident 0) ident)]]
               else []))"

section \<open>Identifiers and type applications\<close>

definition is_blank :: "char \<Rightarrow> bool" where
  "is_blank c \<longleftrightarrow> c \<in> {CHR '' '', CHR 0x09, CHR 0x0D, CHR 0x0A}"

fun closes_before_paren :: "nat \<Rightarrow> string \<Rightarrow> bool" where
  \<comment> \<open>the loop over the text from the \<open><\<close>, with the depth\<close>
  "closes_before_paren d [] = False"
| "closes_before_paren d (c # cs) =
     (if c = CHR ''<'' then closes_before_paren (d + 1) cs
      else if c = CHR ''>''
      then (if d = 1 then take 1 (dropWhile is_blank cs) = ''('' else closes_before_paren (d - 1) cs)
      else closes_before_paren d cs)"

definition looksLikeTypeApplicationSuffix :: "string \<Rightarrow> Identifier \<Rightarrow> bool" where
  "looksLikeTypeApplicationSuffix src ident =
     (let rest = dropWhile is_blank (drop (tok_Position (id_Token ident) + length (tok_Literal (id_Token ident))) src)
      in take 1 rest = ''<'' \<and> closes_before_paren 0 rest)"

fun type_arguments :: "nat \<Rightarrow> string list \<Rightarrow> ('t, string list option) parse" where
  "type_arguments 0 args = fuelP"
| "type_arguments (Suc k) args =
     thenP nextToken
       (bindP (parseTypeAnnotationLiteral k [COMMA, GT]) (\<lambda>arg.
        if arg = [] then thenP (errorHere ''expected type argument'') (retP None)
        else
          ifP (peekTokenIs COMMA) (thenP nextToken (type_arguments k (args @ [arg])))
            (ifP (peekTokenIs GT) (thenP nextToken (retP (Some (args @ [arg]))))
               (thenP (errorHere (''expected '' @ squoted '','' @ '' or '' @ squoted ''>'' @ '' in type argument list''))
                 (retP None)))))"

definition parseTypeApplicationExpression :: "nat \<Rightarrow> expr \<Rightarrow> ('t, expr) parse" where
  "parseTypeApplicationExpression k f =
     bindP (getP peekToken) (\<lambda>t.
     thenP nextToken
       (ifP (peekTokenIs GT)
          (thenP (modP (\<lambda>p. addError (tok_Position (peekToken p)) ''expected at least one type argument'' p)) (retP NoExpr))
          (bindP (type_arguments k []) (\<lambda>args.
           case args of None \<Rightarrow> retP NoExpr | Some args \<Rightarrow> retP (TypeApplicationExpression t f args)))))"

definition parseAssignmentExpression :: "'t callees \<Rightarrow> Identifier \<Rightarrow> ('t, expr) parse" where
  "parseAssignmentExpression R left =
     bindP (getP curToken) (\<lambda>t.
     bindP (getP curPrecedence) (\<lambda>prec.
     thenP nextToken
       (bindP (expression R prec) (\<lambda>right.
        retP (InfixExpression t (IdentifierExpr left) (tok_Literal t) right)))))"

definition parseIdentifier :: "'t callees \<Rightarrow> nat \<Rightarrow> ('t, expr) parse" where
  "parseIdentifier R k =
     bindP (getP curIdent) (\<lambda>ident.
     ifP (peekTokenIs ASSIGN) (thenP nextToken (parseAssignmentExpression R ident))
       (ifP (\<lambda>p. peekTokenIs LT p \<and> looksLikeTypeApplicationSuffix (p_src p) ident)
          (parseTypeApplicationExpression k (IdentifierExpr ident))
          (retP (IdentifierExpr ident))))"

section \<open>Operators\<close>

definition parsePrefixExpression :: "'t callees \<Rightarrow> ('t, expr) parse" where
  "parsePrefixExpression R =
     bindP (getP curToken) (\<lambda>t.
     thenP nextToken
       (bindP (expression R PREFIX) (\<lambda>right. retP (PrefixExpression t (tok_Literal t) right))))"

definition parseInfixExpression :: "'t callees \<Rightarrow> expr \<Rightarrow> ('t, expr) parse" where
  "parseInfixExpression R left =
     bindP (getP curToken) (\<lambda>t.
     bindP (getP curPrecedence) (\<lambda>prec.
     thenP nextToken
       (bindP (ifP (peekTokenIs PREPEND_ITEM) (expression R (prec - 1)) (expression R prec)) (\<lambda>right.
        retP (InfixExpression t left (tok_Literal t) right)))))"

definition parseGroupedExpression :: "'t callees \<Rightarrow> ('t, expr) parse" where
  "parseGroupedExpression R =
     thenP nextToken
       (bindP (getP allowStructInit) (\<lambda>prev.
        thenP (modP (\<lambda>p. p\<lparr>allowStructInit := True\<rparr>))
          (bindP (expression R LOWEST) (\<lambda>e.
           thenP (modP (\<lambda>p. p\<lparr>allowStructInit := prev\<rparr>))
             (expecting RPAREN NoExpr (retP e))))))"

definition parseInterpolationExpression :: "'t callees \<Rightarrow> expr \<Rightarrow> ('t, expr) parse" where
  "parseInterpolationExpression R left =
     bindP (getP curToken) (\<lambda>t.
     thenP nextToken
       (bindP (expression R LOWEST) (\<lambda>right.
        let e = InfixExpression t left ''+'' right
        in expecting INTERPOLATION_END NoExpr
             (ifP (peekTokenIs STRING)
                (thenP nextToken
                  (bindP (getP curToken) (\<lambda>t.
                   bindP parseStringLiteral (\<lambda>s. retP (InfixExpression t e ''+'' s)))))
                (retP e)))))"

section \<open>Lists of expressions\<close>

definition parseSpread :: "'t callees \<Rightarrow> ('t, expr) parse" where
  "parseSpread R =
     thenP nextToken
       (bindP (getP curToken) (\<lambda>t. bindP (expression R LOWEST) (\<lambda>e. retP (SpreadExpression t e))))"

definition parseListItem :: "'t callees \<Rightarrow> ('t, expr) parse" where
  \<comment> \<open>an element of \<open>parseExpressionList\<close>\<close>
  "parseListItem R = ifP (curTokenIs ELLIPSIS) (parseSpread R) (expression R LOWEST)"

definition parseCallArgument :: "'t callees \<Rightarrow> ('t, expr) parse" where
  "parseCallArgument R =
     ifP (curTokenIs ELLIPSIS) (parseSpread R)
       (ifP (\<lambda>p. curTokenIs IDENT p \<and> peekTokenIs ASSIGN p)
          (bindP (getP curIdent) (\<lambda>name.
           thenP nextToken
             (thenP nextToken
                (bindP (expression R LOWEST) (\<lambda>e. retP (NamedArgument (id_Token name) name e))))))
          (expression R LOWEST))"

fun comma_loop :: "nat \<Rightarrow> TokenType \<Rightarrow> ('t, expr) parse \<Rightarrow> expr list \<Rightarrow> ('t, expr list) parse" where
  "comma_loop 0 end item xs = fuelP"
| "comma_loop (Suc k) end item xs =
     ifP (peekTokenIs COMMA)
       (thenP nextToken
         (ifP (peekTokenIs end) (thenP nextToken (retP xs))
            (thenP nextToken (bindP item (\<lambda>x. comma_loop k end item (xs @ [x]))))))
       (expecting end [] (retP xs))"

definition comma_list :: "nat \<Rightarrow> TokenType \<Rightarrow> ('t, expr) parse \<Rightarrow> ('t, expr list) parse" where
  "comma_list k end item =
     ifP (peekTokenIs end) (thenP nextToken (retP []))
       (thenP nextToken (bindP item (\<lambda>x. comma_loop k end item [x])))"

definition parseCallArguments :: "'t callees \<Rightarrow> nat \<Rightarrow> TokenType \<Rightarrow> ('t, expr list) parse" where
  "parseCallArguments R k end = comma_list k end (parseCallArgument R)"

definition parseExpressionList :: "'t callees \<Rightarrow> nat \<Rightarrow> TokenType \<Rightarrow> ('t, expr list) parse" where
  "parseExpressionList R k end = comma_list k end (parseListItem R)"

definition parseListLiteral :: "'t callees \<Rightarrow> nat \<Rightarrow> ('t, expr) parse" where
  "parseListLiteral R k =
     bindP (getP curToken) (\<lambda>t. bindP (parseExpressionList R k RBRACKET) (\<lambda>es. retP (ListLiteral t es)))"

definition parseCallExpression :: "'t callees \<Rightarrow> nat \<Rightarrow> expr \<Rightarrow> ('t, expr) parse" where
  "parseCallExpression R k f =
     bindP (getP curToken) (\<lambda>t. bindP (parseCallArguments R k RPAREN) (\<lambda>args. retP (CallExpression t f args False)))"

definition parseRecurExpression :: "'t callees \<Rightarrow> nat \<Rightarrow> ('t, expr) parse" where
  "parseRecurExpression R k =
     bindP (getP curToken) (\<lambda>t.
     expecting LPAREN NoExpr
       (bindP (parseCallArguments R k RPAREN) (\<lambda>args. retP (RecurExpression t args))))"

section \<open>Tags\<close>

definition parseTag :: "'t callees \<Rightarrow> nat \<Rightarrow> ('t, expr Tag) parse" where
  "parseTag R k =
     bindP (getP curToken) (\<lambda>t.
     thenP nextToken
       (ifP (\<lambda>p. \<not> curTokenIsSymbolName p)
          (thenP (modP (\<lambda>p. addError (tok_Position (curToken p))
                    (''expected annotation name after '' @ squoted ''@'' @ '', got '' @ tok_Literal (curToken p)) p))
             (retP nilTag))
          (bindP (getP (\<lambda>p. CHR ''@'' # tok_Literal (curToken p))) (\<lambda>name.
           ifP (peekTokenIs LPAREN)
             (thenP nextToken (bindP (parseExpressionList R k RPAREN) (\<lambda>args. retP (Tag t name args))))
             (retP (Tag t name []))))))"

section \<open>Parameters and signatures\<close>

definition errorCurLiteral :: "string \<Rightarrow> ('t, unit) parse" where
  "errorCurLiteral m = modP (\<lambda>p. addError (tok_Position (curToken p)) (m @ tok_Literal (curToken p)) p)"

definition errorCurType :: "string \<Rightarrow> ('t, unit) parse" where
  "errorCurType m = modP (\<lambda>p. addError (tok_Position (curToken p)) (m @ tok_Type (curToken p)) p)"

fun generic_parameters :: "nat \<Rightarrow> string list \<Rightarrow> ('t, string list) parse" where
  "generic_parameters 0 ps = fuelP"
| "generic_parameters (Suc k) ps =
     thenP nextToken
       (ifP (\<lambda>p. \<not> curTokenIs IDENT p)
          (thenP (errorCurLiteral ''expected generic type parameter name, got '') (retP []))
          (bindP (getP (\<lambda>p. ps @ [tok_Literal (curToken p)])) (\<lambda>ps.
           ifP (peekTokenIs COMMA) (thenP nextToken (generic_parameters k ps))
             (ifP (peekTokenIs GT) (thenP nextToken (retP ps))
                (thenP (errorHere (''expected '' @ squoted '','' @ '' or '' @ squoted ''>'' @ '' after generic type parameter''))
                  (retP []))))))"

definition parseGenericTypeParameters :: "nat \<Rightarrow> ('t, string list) parse" where
  "parseGenericTypeParameters k =
     thenP nextToken
       (ifP (peekTokenIs GT)
          (thenP (modP (\<lambda>p. addError (tok_Position (peekToken p)) ''expected at least one generic type parameter'' p))
             (retP []))
          (generic_parameters k []))"

fun parameter_tags :: "'t callees \<Rightarrow> nat \<Rightarrow> expr Tag list \<Rightarrow> ('t, expr Tag list) parse" where
  "parameter_tags R 0 tags = fuelP"
| "parameter_tags R (Suc k) tags =
     ifP (curTokenIs AT)
       (bindP (parseTag R k) (\<lambda>tag. thenP nextToken (parameter_tags R k (tags @ [tag]))))
       (retP tags)"

definition parameter_type :: "nat \<Rightarrow> expr Tag list \<Rightarrow> ('t, string \<times> expr Tag list) parse" where
  "parameter_type k tags =
     ifP (peekTokenIs COLON)
       (thenP nextToken
         (thenP nextToken
            (bindP (parseTypeAnnotationLiteral k [ASSIGN, COMMA, RPAREN]) (\<lambda>ty.
             retP (ty, if tags = [] then inferredTagsFromDeclaredType ty else tags)))))
       (retP ([], tags))"

definition parameter_default :: "'t callees \<Rightarrow> ('t, expr) parse" where
  "parameter_default R =
     ifP (peekTokenIs ASSIGN) (thenP nextToken (thenP nextToken (expression R LOWEST))) (retP NoExpr)"

definition nameExpected :: "'t parser \<Rightarrow> bool" where
  "nameExpected p \<longleftrightarrow> \<not> (curTokenIsSymbolName p \<or> curTokenIs UNDERSCORE p)"

fun parameter_loop ::
  "'t callees \<Rightarrow> nat \<Rightarrow> expr FunctionParameter list \<Rightarrow> ('t, expr FunctionParameter list) parse" where
  "parameter_loop R 0 ps = fuelP"
| "parameter_loop R (Suc k) ps =
     bindP (parameter_tags R k []) (\<lambda>tags.
     ifP (curTokenIs ELLIPSIS)
       (thenP nextToken
         (ifP nameExpected (thenP (errorHere ''expected identifier after ...'') (retP []))
            (bindP (getP curIdent) (\<lambda>name.
             expecting RPAREN [] (retP (ps @ [FunctionParameter tags name [] NoExpr True]))))))
       (ifP nameExpected (thenP (errorCurLiteral ''expected parameter name, got '') (retP []))
          (bindP (getP curIdent) (\<lambda>name.
           bindP (parameter_type k tags) (\<lambda>(ty, tags).
           bindP (parameter_default R) (\<lambda>default.
           let ps = ps @ [FunctionParameter tags name ty default False]
           in ifP (peekTokenIs COMMA) (thenP nextToken (thenP nextToken (parameter_loop R k ps)))
                (expecting RPAREN [] (retP ps))))))))"

definition parseFunctionParameters :: "'t callees \<Rightarrow> nat \<Rightarrow> ('t, expr FunctionParameter list) parse" where
  "parseFunctionParameters R k =
     ifP (peekTokenIs RPAREN) (thenP nextToken (retP [])) (thenP nextToken (parameter_loop R k []))"

definition generateSignature :: "expr FunctionParameter list \<Rightarrow> FSig option" where
  \<comment> \<open>a nil tag panics\<close>
  "generateSignature params =
     (let n = length params;
          variadic = (params \<noteq> [] \<and> fp_IsVariadic (last params));
          maxP = (if variadic then max_int64 else int n);
          minP = (if variadic then n - 1 else n);
          minP = length (dropWhile (\<lambda>p. fp_Default p \<noteq> NoExpr) (rev (take minP params)))
      in map_option (\<lambda>tags. FSig tags (int minP) maxP variadic)
           (cat (map (\<lambda>p. cat [cat (map (Tag_String String_expr) (fp_Tags p)), Some ''|'']) params)))"


section \<open>Blocks\<close>

text \<open>
  The loop of \<open>parseBlockStatement\<close>. The scope depth goes back when the method returns; a block
  that meets the end of the text ends there without an error.
\<close>

fun block_loop :: "'t callees \<Rightarrow> nat \<Rightarrow> stmt list \<Rightarrow> ('t, stmt list) parse" where
  "block_loop R 0 ss = fuelP"
| "block_loop R (Suc k) ss =
     ifP (\<lambda>p. curTokenIs RBRACE p \<or> curTokenIs EOF p) (retP ss)
       (bindP (statement R) (\<lambda>s.
        thenP nextToken
          (thenP (skipStatementSeparators k)
             (block_loop R k (if s = NoStmt then ss else ss @ [s])))))"

definition parseBlockStatement :: "'t callees \<Rightarrow> nat \<Rightarrow> ('t, (stmt, expr) BlockStatement) parse" where
  "parseBlockStatement R k =
     bindP (getP curToken) (\<lambda>t.
     thenP nextToken
       (thenP (skipStatementSeparators k)
          (thenP (modP (\<lambda>p. p\<lparr>scopeDepth := scopeDepth p + 1\<rparr>))
             (bindP (block_loop R k []) (\<lambda>ss.
              thenP (modP (\<lambda>p. p\<lparr>scopeDepth := scopeDepth p - 1\<rparr>))
                (retP (BlockStatement t ss False NoExpr)))))))"

section \<open>Maps\<close>

definition brace_statement_start :: "TokenType \<Rightarrow> bool" where
  "brace_statement_start t \<longleftrightarrow> t \<in> {VAL, VAR, RETURN, THROW, DEFER, IF, MATCH, SELECT, NURSERY, SPAWN}"

definition braceStartsMapLiteral :: "'t parser \<Rightarrow> bool" where
  "braceStartsMapLiteral p \<longleftrightarrow>
     (let first = tok_Type (peekToken p); second = tok_Type (peek2Token p)
      in if first = NEWLINE then \<not> brace_statement_start second
         else if brace_statement_start first then False
         else second = COLON \<or> first = COLON \<or> first = LBRACKET)"

definition put_pair :: "expr \<Rightarrow> expr \<Rightarrow> (expr \<times> expr) list \<Rightarrow> (expr \<times> expr) list" where
  \<comment> \<open>keys are pointers, which differ, or nil\<close>
  "put_pair k v ps = (if k = NoExpr then filter (\<lambda>kv. fst kv \<noteq> NoExpr) ps else ps) @ [(k, v)]"

definition symbol_key :: "bool \<Rightarrow> expr \<Rightarrow> expr" where
  \<comment> \<open>an identifier that is not in brackets stands for the symbol\<close>
  "symbol_key computed key =
     (case key of
        IdentifierExpr i \<Rightarrow> if computed then key else SymbolLiteral (id_Token i) (id_Value i)
      | _ \<Rightarrow> key)"

definition parse_key :: "'t callees \<Rightarrow> ('t, expr) parse" where
  \<comment> \<open>a key of a map literal or a map pattern\<close>
  "parse_key R =
     bindP (getP (curTokenIs LBRACKET)) (\<lambda>computed.
     thenP (if computed then nextToken else retP ())
       (bindP (expression R LOWEST) (\<lambda>key.
        thenP (if computed then bindP (expectPeek RBRACKET) (\<lambda>_. retP ()) else retP ())
          (retP (symbol_key computed key)))))"

fun map_loop :: "'t callees \<Rightarrow> nat \<Rightarrow> Token \<Rightarrow> (expr \<times> expr) list \<Rightarrow> ('t, expr) parse" where
  "map_loop R 0 t ps = fuelP"
| "map_loop R (Suc k) t ps =
     ifP (peekTokenIs RBRACE) (expecting RBRACE NoExpr (retP (MapLiteral t ps)))
       (thenP nextToken
         (thenP (skipLeadingNewlines k)
            (ifP (curTokenIs RBRACE) (retP (MapLiteral t ps))
               (bindP (parse_key R) (\<lambda>key.
                expecting COLON NoExpr
                  (thenP nextToken
                     (thenP (skipLeadingNewlines k)
                        (bindP (expression R LOWEST) (\<lambda>value.
                         let ps = put_pair key value ps
                         in ifP (peekTokenIs RBRACE) (expecting RBRACE NoExpr (retP (MapLiteral t ps)))
                              (expecting COMMA NoExpr
                                 (thenP (skipPeekNewlines k)
                                    (ifP (peekTokenIs RBRACE) (thenP nextToken (retP (MapLiteral t ps)))
                                       (map_loop R k t ps))))))))))))) "

definition parseMapLiteral :: "'t callees \<Rightarrow> nat \<Rightarrow> ('t, expr) parse" where
  "parseMapLiteral R k = bindP (getP curToken) (\<lambda>t. map_loop R k t [])"

definition parseBraceExpression :: "'t callees \<Rightarrow> nat \<Rightarrow> ('t, expr) parse" where
  "parseBraceExpression R k =
     ifP (\<lambda>p. peekTokenIs RBRACE p \<or> braceStartsMapLiteral p) (parseMapLiteral R k)
       (bindP (parseBlockStatement R k) (\<lambda>b. retP (BlockExpr b)))"

section \<open>Patterns\<close>

text \<open>
  \<open>isNonBinding\<close>: whether a pattern binds no name. The loops stop at the first element that
  binds one; the test of a nil map pattern panics.
\<close>

fun all_until :: "bool option list \<Rightarrow> bool option" where
  "all_until [] = Some True"
| "all_until (None # bs) = None"
| "all_until (Some b # bs) = (if b then all_until bs else Some False)"

function isNonBinding :: "pattern \<Rightarrow> bool option" where
  "isNonBinding mp =
     (case mp of
        WildcardPattern _ \<Rightarrow> Some True
      | LiteralPattern _ _ \<Rightarrow> Some True
      | PinnedIdentifierPattern _ _ \<Rightarrow> Some True
      | ListPattern _ els \<Rightarrow> all_until (map isNonBinding els)
      | MapPattern _ es spread _ _ \<Rightarrow>
          if mp = nilMapPattern then None
          else all_until (map (\<lambda>e. isNonBinding (me_Pattern e)) es @
                          (if spread = NoPattern then [] else [isNonBinding spread]))
      | _ \<Rightarrow> Some False)"
  by pat_completeness auto
termination
  by (relation "measure size") (simp_all add: part_size less_SucI trans_less_add1)

declare isNonBinding.simps [simp del]

definition parseAlt :: "'t callees \<Rightarrow> ('t, pattern) parse" where
  "parseAlt R =
     bindP (match_pattern R) (\<lambda>alt.
     if alt = NoPattern then retP NoPattern
     else
       bindP (orPanic nil_dereference (isNonBinding alt)) (\<lambda>ok.
       if ok then retP alt
       else
         thenP (errorHere (''multi-pattern alternatives must not introduce bindings '' @
                  ''(use literals, ^pinned identifiers, or non-binding destructuring like [])''))
           (retP NoPattern)))"

fun multi_loop :: "'t callees \<Rightarrow> nat \<Rightarrow> Token \<Rightarrow> pattern list \<Rightarrow> ('t, pattern) parse" where
  "multi_loop R 0 t ps = fuelP"
| "multi_loop R (Suc k) t ps =
     ifP (peekTokenIs COMMA)
       (thenP nextToken
         (thenP nextToken
            (bindP (parseAlt R) (\<lambda>q.
             if q = NoPattern then retP NoPattern else multi_loop R k t (ps @ [q])))))
       (case ps of [q] \<Rightarrow> retP q | _ \<Rightarrow> retP (MultiPattern t ps))"

definition parseMultiPattern :: "'t callees \<Rightarrow> nat \<Rightarrow> ('t, pattern) parse" where
  "parseMultiPattern R k =
     bindP (getP curToken) (\<lambda>t.
     bindP (parseAlt R) (\<lambda>q. if q = NoPattern then retP NoPattern else multi_loop R k t [q]))"

definition is_spread :: "pattern \<Rightarrow> bool" where
  "is_spread p = (case p of SpreadPattern _ _ \<Rightarrow> True | _ \<Rightarrow> False)"

text \<open>
  The loop of \<open>parseListPattern\<close>. When neither a comma nor a closing bracket follows an element,
  no token is consumed and the loop goes round again.
\<close>

fun list_pattern_loop :: "'t callees \<Rightarrow> nat \<Rightarrow> Token \<Rightarrow> pattern list \<Rightarrow> ('t, pattern) parse" where
  "list_pattern_loop R 0 t els = fuelP"
| "list_pattern_loop R (Suc k) t els =
     ifP (curTokenIs RBRACKET) (retP (ListPattern t els))
       (bindP (match_pattern R) (\<lambda>el.
        if el = NoPattern then retP NoPattern
        else
          ifP (\<lambda>p. is_spread el \<and> \<not> peekTokenIs RBRACKET p)
            (thenP (errorHere ''spread (...) must be the final element in a list pattern'') (retP NoPattern))
            (thenP
               (ifP (peekTokenIs COMMA) (thenP nextToken nextToken) (whenP (peekTokenIs RBRACKET) nextToken))
               (list_pattern_loop R k t (els @ [el])))))"

definition parseListPattern :: "'t callees \<Rightarrow> nat \<Rightarrow> ('t, pattern) parse" where
  "parseListPattern R k = bindP (getP curToken) (\<lambda>t. thenP nextToken (list_pattern_loop R k t []))"

definition entry_name :: "expr \<Rightarrow> string option" where
  \<comment> \<open>the name that a key of a map pattern binds; a nil key panics\<close>
  "entry_name key =
     (case String_expr key of
        None \<Rightarrow> None
      | Some name \<Rightarrow>
          Some (case key of
                  IdentifierExpr i \<Rightarrow> id_Value i | StringLiteral _ v \<Rightarrow> v | SymbolLiteral _ v \<Rightarrow> v | _ \<Rightarrow> name))"

definition map_pattern_entry :: "'t callees \<Rightarrow> expr \<Rightarrow> ('t, (expr, pattern) MapPatternEntry) parse" where
  "map_pattern_entry R key =
     ifP (peekTokenIs COLON)
       (thenP nextToken (thenP nextToken (bindP (match_pattern R) (\<lambda>q. retP (MapPatternEntry key q)))))
       (bindP (orPanic nil_dereference (entry_name key)) (\<lambda>name.
        getP (\<lambda>p. MapPatternEntry key (IdentifierPattern (curToken p) (Identifier (curToken p) name)))))"

definition map_pattern_end :: "'t parser \<Rightarrow> bool" where
  "map_pattern_end p \<longleftrightarrow> peekTokenIs MATCH_KEYS_CLOSE p \<or> peekTokenIs RBRACE p"

fun map_pattern_loop ::
  "'t callees \<Rightarrow> nat \<Rightarrow> Token \<Rightarrow> bool \<Rightarrow> (expr, pattern) MapPatternEntry list \<Rightarrow> pattern \<Rightarrow> ('t, pattern) parse" where
  "map_pattern_loop R 0 t exact es spread = fuelP"
| "map_pattern_loop R (Suc k) t exact es spread =
     ifP map_pattern_end
       (expecting (if exact then MATCH_KEYS_CLOSE else RBRACE) nilMapPattern
          (retP (MapPattern t es spread exact False)))
       (thenP nextToken
         (ifP (curTokenIs ELLIPSIS)
            (if exact then thenP (errorHere ''spread not allowed in exact match'') (retP nilMapPattern)
             else bindP (match_pattern R) (\<lambda>q. map_pattern_loop R k t exact es q))
            (bindP (parse_key R) (\<lambda>key.
             bindP (map_pattern_entry R key) (\<lambda>e.
             ifP map_pattern_end (map_pattern_loop R k t exact (es @ [e]) spread)
               (expecting COMMA nilMapPattern (map_pattern_loop R k t exact (es @ [e]) spread)))))))"

definition parseMapPattern :: "'t callees \<Rightarrow> nat \<Rightarrow> ('t, pattern) parse" where
  "parseMapPattern R k =
     bindP (getP curToken) (\<lambda>t.
     ifP (peekTokenIs RBRACE) (thenP nextToken (retP (MapPattern t [] NoPattern False False)))
       (bindP (getP (curTokenIs MATCH_KEYS_EXACT)) (\<lambda>exact.
        ifP (peekTokenIs ASTERISK)
          (thenP nextToken (bindP (expectPeek RBRACE) (\<lambda>_. retP (MapPattern t [] NoPattern exact True))))
          (map_pattern_loop R k t exact [] NoPattern))))"

definition field_pattern :: "'t callees \<Rightarrow> string \<Rightarrow> ('t, pattern) parse" where
  "field_pattern R name =
     ifP (peekTokenIs COLON) (thenP nextToken (thenP nextToken (match_pattern R)))
       (getP (\<lambda>p. IdentifierPattern (curToken p) (Identifier (curToken p) name)))"

fun struct_pattern_loop ::
  "'t callees \<Rightarrow> nat \<Rightarrow> Identifier \<Rightarrow> pattern StructPatternField list \<Rightarrow> ('t, pattern) parse" where
  "struct_pattern_loop R 0 schema fs = fuelP"
| "struct_pattern_loop R (Suc k) schema fs =
     (let pat = StructPattern (id_Token schema) schema
      in ifP (peekTokenIs RBRACE) (expecting RBRACE NoPattern (retP (pat fs)))
           (thenP nextToken
             (thenP (skipLeadingNewlines k)
                (ifP (curTokenIs RBRACE) (retP (pat fs))
                   (ifP (\<lambda>p. \<not> curTokenIs IDENT p)
                      (thenP (errorCurType ''expected identifier in struct pattern, got '') (retP NoPattern))
                      (bindP (getP (\<lambda>p. tok_Literal (curToken p))) (\<lambda>name.
                       if name \<in> set (map spf_Name fs)
                       then thenP (errorHere (''duplicate field in struct pattern: '' @ name)) (retP NoPattern)
                       else
                         bindP (field_pattern R name) (\<lambda>q.
                         if q = NoPattern then retP NoPattern
                         else
                           let fs = fs @ [StructPatternField name q]
                           in ifP (peekTokenIs RBRACE) (expecting RBRACE NoPattern (retP (pat fs)))
                                (expecting COMMA NoPattern
                                   (thenP (skipPeekNewlines k)
                                      (ifP (peekTokenIs RBRACE) (thenP nextToken (retP (pat fs)))
                                         (struct_pattern_loop R k schema fs))))))))))))"

definition parseStructPattern :: "'t callees \<Rightarrow> nat \<Rightarrow> Identifier \<Rightarrow> ('t, pattern) parse" where
  "parseStructPattern R k schema =
     expecting LBRACE NoPattern
       (ifP (peekTokenIs RBRACE) (thenP nextToken (retP (StructPattern (id_Token schema) schema [])))
          (struct_pattern_loop R k schema []))"

definition literal_pattern :: "'t callees \<Rightarrow> ('t, pattern) parse" where
  "literal_pattern R =
     bindP (getP curToken) (\<lambda>t. bindP (expression R LOWEST) (\<lambda>e. retP (LiteralPattern t e)))"

definition unexpectedPattern :: "('t, pattern) parse" where
  "unexpectedPattern = thenP (errorCurType ''unexpected token in match pattern: '') (retP NoPattern)"

definition parseMatchPattern :: "'t callees \<Rightarrow> nat \<Rightarrow> ('t, pattern) parse" where
  "parseMatchPattern R k =
     bindP (getP curToken) (\<lambda>t.
     let ty = tok_Type t
     in if ty = UNDERSCORE then retP (WildcardPattern t)
        else if ty = ELLIPSIS
        then ifP (peekTokenIs IDENT) (thenP nextToken (getP (\<lambda>p. SpreadPattern t (Some (curIdent p)))))
               (retP (SpreadPattern t None))
        else if ty = BITWISE_XOR
        then ifP (peekTokenIs IDENT)
               (thenP nextToken (getP (\<lambda>p. PinnedIdentifierPattern (curToken p) (curIdent p))))
               (thenP (errorHere ''pinned identifier must be followed by an identifier (e.g. ^name)'') (retP NoPattern))
        else if ty = IDENT
        then ifP (peekTokenIs LBRACE) (bindP (getP curIdent) (parseStructPattern R k))
               (getP (\<lambda>p. IdentifierPattern t (curIdent p)))
        else if ty \<in> {NUMBER, STRING, TRUE, FALSE, NIL, SYMBOL, COLON} then literal_pattern R
        else if ty = MINUS then ifP (peekTokenIs NUMBER) (literal_pattern R) unexpectedPattern
        else if ty = LBRACKET then parseListPattern R k
        else if ty = LBRACE \<or> ty = MATCH_KEYS_EXACT then parseMapPattern R k
        else unexpectedPattern)"

section \<open>Declarations of variables\<close>

definition pattern_start :: "'t parser \<Rightarrow> bool" where
  "pattern_start p \<longleftrightarrow>
     peekTokenIs IDENT p \<or> peekTokenIs LBRACKET p \<or> peekTokenIs LBRACE p \<or> peekTokenIs MATCH_KEYS_EXACT p"

definition is_identifier_pattern :: "pattern \<Rightarrow> bool" where
  "is_identifier_pattern p = (case p of IdentifierPattern _ _ \<Rightarrow> True | _ \<Rightarrow> False)"

definition parse_declaration ::
  "'t callees \<Rightarrow> nat \<Rightarrow> string \<Rightarrow> (expr Tag list \<Rightarrow> Token \<Rightarrow> pattern \<Rightarrow> string \<Rightarrow> expr \<Rightarrow> string \<Rightarrow> bool \<Rightarrow> expr) \<Rightarrow>
   ('t, expr) parse" where
  \<comment> \<open>\<open>parseVarStatement\<close> and \<open>parseValStatement\<close>, which differ in the node and the keyword\<close>
  "parse_declaration R k keyword node =
     bindP (getP curToken) (\<lambda>t.
     bindP takeTags (\<lambda>tags.
     bindP takeDoc (\<lambda>(doc, hasDoc).
     ifP (\<lambda>p. \<not> pattern_start p)
       (thenP (errorHere (''expected identifier, list, or map literal after '' @ squoted keyword)) (retP NoExpr))
       (thenP nextToken
          (bindP (match_pattern R) (\<lambda>pat.
           bindP (ifP (\<lambda>p. is_identifier_pattern pat \<and> peekTokenIs COLON p)
                    (thenP nextToken (thenP nextToken (parseTypeAnnotationLiteral k [ASSIGN])))
                    (retP [])) (\<lambda>ty.
           let rest = thenP nextToken (bindP (expression R LOWEST) (\<lambda>v. retP (node tags t pat ty v doc hasDoc)))
           in ifP (curTokenIs ASSIGN) rest (expecting ASSIGN NoExpr rest))))))))"

definition parseVarStatement :: "'t callees \<Rightarrow> nat \<Rightarrow> ('t, expr) parse" where
  "parseVarStatement R k = parse_declaration R k ''var'' VarExpression"

definition parseValStatement :: "'t callees \<Rightarrow> nat \<Rightarrow> ('t, expr) parse" where
  "parseValStatement R k = parse_declaration R k ''val'' ValExpression"


section \<open>Match and select\<close>

definition single_statement :: "Token \<Rightarrow> stmt \<Rightarrow> (stmt, expr) BlockStatement" where
  \<comment> \<open>a block that a node is wrapped in\<close>
  "single_statement t s = BlockStatement t [s] False NoExpr"

definition brace_body_is_map :: "'t parser \<Rightarrow> bool" where
  \<comment> \<open>whether a case body that begins with a brace is a map\<close>
  "brace_body_is_map p \<longleftrightarrow>
     (if peekTokenIs NEWLINE p then tok_Type (peek2Token p) \<in> {STRING, COLON, LBRACKET}
      else peekTokenIs RBRACE p \<or> braceStartsMapLiteral p)"

definition case_body :: "'t callees \<Rightarrow> nat \<Rightarrow> Token \<Rightarrow> ('t, (stmt, expr) BlockStatement option) parse" where
  "case_body R k t =
     ifP (peekTokenIs LBRACE)
       (thenP nextToken
         (ifP brace_body_is_map
            (bindP (getP curToken) (\<lambda>t'.
             bindP (expression R LOWEST) (\<lambda>e. retP (Some (single_statement t (ExpressionStatement t' e))))))
            (bindP (parseBlockStatement R k) (\<lambda>b. retP (Some b)))))
       (thenP nextToken
         (thenP (skipLeadingNewlines k)
            (bindP (statement R) (\<lambda>s.
             if s = NoStmt
             then thenP (errorCurType (''match case body expected after '' @ squoted ''=>'' @ '', got '')) (retP None)
             else
               thenP (whenP (\<lambda>p. peekTokenIs SEMICOLON p \<or> peekTokenIs NEWLINE p) nextToken)
                 (retP (Some (single_statement t s)))))))"

definition case_pattern :: "'t callees \<Rightarrow> nat \<Rightarrow> ('t, pattern) parse" where
  "case_pattern R k =
     ifP (\<lambda>p. curTokenIs IDENT p \<and> peekTokenIs AT p)
       (bindP (getP curIdent) (\<lambda>name.
        expecting AT NoPattern
          (thenP nextToken
             (bindP (match_pattern R) (\<lambda>inner.
              retP (if inner = NoPattern then NoPattern else BindingPattern (id_Token name) (Some name) inner))))))
       (ifP (peekTokenIs COMMA) (parseMultiPattern R k) (match_pattern R))"

definition case_guard :: "'t callees \<Rightarrow> ('t, expr) parse" where
  "case_guard R = ifP (peekTokenIs IF) (thenP nextToken (thenP nextToken (expression R LOWEST))) (retP NoExpr)"

definition parseMatchCase ::
  "'t callees \<Rightarrow> nat \<Rightarrow> ('t, (expr, pattern, (stmt, expr) BlockStatement) MatchCase option) parse" where
  "parseMatchCase R k =
     bindP (getP curToken) (\<lambda>t.
     bindP (case_pattern R k) (\<lambda>pat.
     if pat = NoPattern then retP None
     else
       bindP (case_guard R) (\<lambda>guard.
       expecting ROCKET None
         (bindP (case_body R k t) (\<lambda>body.
          retP (case body of None \<Rightarrow> None | Some b \<Rightarrow> Some (MatchCase t pat guard (Some b))))))))"

text \<open>The loop over the cases of a match or a select, which have the same separators.\<close>

fun cases_loop :: "nat \<Rightarrow> ('t, 'c option) parse \<Rightarrow> 'c list \<Rightarrow> ('t, 'c list) parse" where
  "cases_loop 0 c cs = fuelP"
| "cases_loop (Suc k) c cs =
     ifP (\<lambda>p. curTokenIs RBRACE p \<or> curTokenIs EOF p) (retP cs)
       (bindP c (\<lambda>x.
        thenP nextToken
          (thenP (skipCaseSeparators k) (cases_loop k c (case x of None \<Rightarrow> cs | Some x \<Rightarrow> cs @ [x])))))"

definition parseMatchExpression :: "'t callees \<Rightarrow> nat \<Rightarrow> ('t, expr) parse" where
  "parseMatchExpression R k =
     bindP (getP curToken) (\<lambda>t.
     bindP (ifP (\<lambda>p. \<not> peekTokenIs LBRACE p)
              (thenP nextToken
                (bindP (getP allowStructInit) (\<lambda>prev.
                 thenP (modP (\<lambda>p. p\<lparr>allowStructInit := False\<rparr>))
                   (bindP (expression R LOWEST) (\<lambda>v.
                    thenP (modP (\<lambda>p. p\<lparr>allowStructInit := prev\<rparr>)) (retP v))))))
              (retP NoExpr)) (\<lambda>v.
     bindP (expectPeek LBRACE) (\<lambda>ok.
     if \<not> ok
     then thenP (addErrorAt (tok_Position t) (squoted ''{'' @ '' expected after match expression'')) (retP NoExpr)
     else
       thenP nextToken
         (thenP (skipCaseSeparators k)
            (bindP (cases_loop k (parseMatchCase R k) []) (\<lambda>cs. retP (MatchExpression t v cs)))))))"

definition required :: "expr \<Rightarrow> ('t, 'a option) parse \<Rightarrow> ('t, 'a option) parse" where
  "required e m = (if e = NoExpr then retP None else m)"

definition select_head :: "'t callees \<Rightarrow> Token \<Rightarrow> ('t, expr SelectCase option) parse" where
  \<comment> \<open>the \<open>switch\<close> of \<open>parseSelectCase\<close>\<close>
  "select_head R t =
     (let operand = thenP nextToken (expression R CALL_CHAIN_PREC)
      in ifP (curTokenIsIdentLiteral ''recv'')
           (bindP operand (\<lambda>c. required c (retP (Some (SelectCase t SelectRecv c NoExpr NoExpr NoExpr NoExpr)))))
         (ifP (curTokenIsIdentLiteral ''send'')
           (bindP operand (\<lambda>c. required c
              (expecting COMMA None
                 (bindP operand (\<lambda>v. required v (retP (Some (SelectCase t SelectSend c v NoExpr NoExpr NoExpr))))))))
         (ifP (curTokenIsIdentLiteral ''after'')
           (bindP operand (\<lambda>a. required a (retP (Some (SelectCase t SelectAfter NoExpr NoExpr a NoExpr NoExpr)))))
         (ifP (curTokenIsIdentLiteral ''await'')
           (bindP operand (\<lambda>a. required a (retP (Some (SelectCase t SelectAwait NoExpr NoExpr NoExpr a NoExpr)))))
         (ifP (curTokenIs UNDERSCORE) (retP (Some (SelectCase t SelectDefault NoExpr NoExpr NoExpr NoExpr NoExpr)))
           (thenP (errorCurType ''expected select case, got '') (retP None)))))))"

definition with_handler :: "expr \<Rightarrow> expr SelectCase \<Rightarrow> expr SelectCase" where
  "with_handler h c = SelectCase (sc_Token c) (sc_Kind c) (sc_Channel c) (sc_Value c) (sc_After c) (sc_Await c) h"

definition parseSelectCase :: "'t callees \<Rightarrow> nat \<Rightarrow> ('t, expr SelectCase option) parse" where
  "parseSelectCase R k =
     bindP (getP curToken) (\<lambda>t.
     bindP (select_head R t) (\<lambda>c.
     case c of
       None \<Rightarrow> retP None
     | Some c \<Rightarrow>
         ifP (peekTokenIs CALL_CHAIN)
           (thenP nextToken
             (thenP nextToken
               (thenP (skipLeadingNewlines k)
                  (bindP (expression R LOWEST) (\<lambda>h.
                   if h = NoExpr
                   then thenP (errorHere (''select case handler expected after '' @ squoted ''/>'')) (retP None)
                   else retP (Some (with_handler h c)))))))
           (retP (Some c))))"

definition parseSelectExpression :: "'t callees \<Rightarrow> nat \<Rightarrow> ('t, expr) parse" where
  "parseSelectExpression R k =
     bindP (getP curToken) (\<lambda>t.
     bindP (expectPeek LBRACE) (\<lambda>ok.
     if \<not> ok
     then thenP (addErrorAt (tok_Position t) (squoted ''{'' @ '' expected after select expression'')) (retP NoExpr)
     else
       thenP nextToken
         (thenP (skipCaseSeparators k)
            (bindP (cases_loop k (parseSelectCase R k) []) (\<lambda>cs. retP (SelectExpression t cs))))))"

section \<open>If, functions and tasks\<close>

fun parseIfExpression :: "'t callees \<Rightarrow> nat \<Rightarrow> ('t, expr) parse" where
  "parseIfExpression R 0 = fuelP"
| "parseIfExpression R (Suc k) =
     bindP (getP curToken) (\<lambda>t.
     expecting LPAREN NoExpr
       (thenP nextToken
          (bindP (expression R LOWEST) (\<lambda>c.
           expecting RPAREN NoExpr
             (expecting LBRACE NoExpr
                (bindP (parseBlockStatement R k) (\<lambda>th.
                 ifP (peekTokenIs ELSE)
                   (thenP nextToken
                      (ifP (peekTokenIs IF)
                         (thenP nextToken
                           (bindP (parseIfExpression R k) (\<lambda>e.
                            getP (\<lambda>p. IfExpression t c (Some th)
                              (Some (single_statement (curToken p) (ExpressionStatement (curToken p) e)))))))
                         (expecting LBRACE NoExpr
                            (bindP (parseBlockStatement R k) (\<lambda>el. retP (IfExpression t c (Some th) (Some el)))))))
                   (retP (IfExpression t c (Some th) None)))))))))"

definition match_with :: "expr \<Rightarrow> expr \<Rightarrow> expr option" where
  \<comment> \<open>the type assertion to a match and the assignment of its value\<close>
  "match_with v e = (case e of MatchExpression t _ cs \<Rightarrow> Some (MatchExpression t v cs) | _ \<Rightarrow> None)"

definition failed_assertion :: string where
  "failed_assertion = ''interface conversion: ast.Expression is nil, not *ast.MatchExpression''"

definition match_block :: "expr \<Rightarrow> (stmt, expr) BlockStatement" where
  \<comment> \<open>the block that a match is wrapped in\<close>
  "match_block m =
     (let t = (case m of MatchExpression t _ _ \<Rightarrow> t | _ \<Rightarrow> noToken)
      in single_statement t (ExpressionStatement t m))"

definition parameters_value :: "Token \<Rightarrow> expr FunctionParameter list \<Rightarrow> expr" where
  "parameters_value t ps =
     (case ps of
        [p] \<Rightarrow> IdentifierExpr (fp_Name p)
      | _ \<Rightarrow> ListLiteral t (map (\<lambda>p. IdentifierExpr (fp_Name p)) ps))"

definition generic_parameters_of :: "nat \<Rightarrow> ('t, string list option) parse" where
  \<comment> \<open>the type parameters, if there are any, and \<open>None\<close> after an error in them\<close>
  "generic_parameters_of k =
     ifP (peekTokenIs LT)
       (bindP (getP (\<lambda>p. length (p_errors p))) (\<lambda>errs.
        bindP (parseGenericTypeParameters k) (\<lambda>tps.
        getP (\<lambda>p. if length (p_errors p) > errs then None else Some tps))))
       (retP (Some []))"

definition parseFunctionLiteral :: "'t callees \<Rightarrow> nat \<Rightarrow> ('t, expr) parse" where
  "parseFunctionLiteral R k =
     bindP (getP curToken) (\<lambda>t.
     bindP (generic_parameters_of k) (\<lambda>tps.
     case tps of
       None \<Rightarrow> retP NoExpr
     | Some tps \<Rightarrow>
         expecting LPAREN NoExpr
           (bindP (parseFunctionParameters R k) (\<lambda>ps.
            bindP (orPanic nil_dereference (generateSignature ps)) (\<lambda>sig.
            bindP (ifP (\<lambda>p. curTokenIs RPAREN p \<and> peekTokenIs COLON p)
                     (thenP nextToken (thenP nextToken (parseTypeAnnotationLiteral k [LBRACE, MATCH])))
                     (retP [])) (\<lambda>rt.
            let lit = (\<lambda>body. FunctionLiteral t tps sig ps rt (Some body) False)
            in ifP (\<lambda>p. curTokenIs MATCH p \<or> peekTokenIs MATCH p)
                 (thenP (whenP (\<lambda>p. \<not> curTokenIs MATCH p) nextToken)
                    (bindP (parseMatchExpression R k) (\<lambda>m.
                     bindP (orPanic failed_assertion (match_with (parameters_value t ps) m)) (\<lambda>m.
                     retP (lit (match_block m))))))
                 (let body = bindP (parseBlockStatement R k) (\<lambda>b. retP (lit b))
                  in ifP (curTokenIs LBRACE) body (expecting LBRACE NoExpr body))))))))"

definition error_text :: "expr \<Rightarrow> string" where
  \<comment> \<open>\<open>%v\<close> of an expression: \<open>fmt\<close> catches a panic of its \<open>String\<close> method\<close>
  "error_text e =
     (if e = NoExpr then ''<nil>''
      else
        (case String_expr e of
           Some s \<Rightarrow> s
         | None \<Rightarrow> ''%!v(PANIC=String method: '' @ nil_dereference @ '')''))"

definition as_nursery :: "expr \<Rightarrow> (stmt, expr) BlockStatement \<Rightarrow> (stmt, expr) BlockStatement" where
  "as_nursery limit b = BlockStatement (bs_Token b) (bs_Statements b) True limit"

definition parseNurseryExpression :: "'t callees \<Rightarrow> ('t, expr) parse" where
  "parseNurseryExpression R =
     bindP (getP curToken) (\<lambda>t.
     thenP nextToken
       (bindP (ifP (curTokenIsIdentLiteral ''limit'')
                 (thenP nextToken (bindP (expression R LOWEST) (\<lambda>l. thenP nextToken (retP l))))
                 (retP NoExpr)) (\<lambda>limit.
        bindP (expression R LOWEST) (\<lambda>e.
        case e of
          FunctionLiteral t' tps sig ps rt body tail \<Rightarrow>
            retP (FunctionLiteral t' tps sig ps rt (map_option (as_nursery limit) body) tail)
        | BlockExpr b \<Rightarrow> retP (BlockExpr (as_nursery limit b))
        | _ \<Rightarrow>
            thenP (addErrorAt (tok_Position t) (''nursery must be followed by a function or block, got '' @ error_text e))
              (retP NoExpr)))))"

definition parseSpawnExpression :: "'t callees \<Rightarrow> nat \<Rightarrow> ('t, expr) parse" where
  "parseSpawnExpression R k =
     bindP (getP curToken) (\<lambda>t.
     thenP nextToken
       (ifP (curTokenIs LBRACE)
          (bindP (parseBlockStatement R k) (\<lambda>b.
           retP (SpawnExpression t
             (FunctionLiteral (Token FUNCTION ''fn'' 0) [] (FSig [] 0 0 False) [] [] (Some b) False))))
          (bindP (expression R PREFIX) (\<lambda>e. retP (SpawnExpression t e)))))"

section \<open>Call chains and indexing\<close>

definition parseCallChainExpression :: "'t callees \<Rightarrow> expr \<Rightarrow> ('t, expr) parse" where
  "parseCallChainExpression R left =
     bindP (getP curPrecedence) (\<lambda>prec.
     thenP nextToken
       (bindP (expression R prec) (\<lambda>right.
        case right of
          NoExpr \<Rightarrow> thenP (errorHere (''expected function or match after '' @ squoted ''/>'')) (retP NoExpr)
        | MatchExpression t v cs \<Rightarrow>
            if v \<noteq> NoExpr
            then thenP (addErrorAt (tok_Position t) ''match in pipeline cannot have an explicit value'') (retP NoExpr)
            else retP (MatchExpression t left cs)
        | CallExpression t f args tail \<Rightarrow> retP (CallExpression t f (left # args) tail)
        | _ \<Rightarrow> getP (\<lambda>p. CallExpression (curToken p) right [left] False))))"

definition parseDotIdentifierToIndexExpression :: "expr \<Rightarrow> ('t, expr) parse" where
  "parseDotIdentifierToIndexExpression left =
     bindP (expectPeek IDENT) (\<lambda>ok.
     if \<not> ok
     then thenP (modP (\<lambda>p. addError (tok_Position (curToken p))
                  (''expected identifier after '' @ squoted ''.'' @ '', got '' @ tok_Type (peekToken p) @ '' instead'') p))
            (retP NoExpr)
     else
       getP (\<lambda>p. let t = curToken p in IndexExpression t left (SymbolLiteral t (tok_Literal t)) True))"

text \<open>
  The loop of \<open>parseIndexExpressionList\<close>, with the rounds that are left: the parts and whether
  a colon made it a slice.
\<close>

fun index_parts :: "'t callees \<Rightarrow> nat \<Rightarrow> expr list \<Rightarrow> bool \<Rightarrow> ('t, expr list \<times> bool) parse" where
  "index_parts R 0 parts sl = retP (parts, sl)"
| "index_parts R (Suc n) parts sl =
     (let next = (\<lambda>parts sl.
            ifP (peekTokenIs RBRACKET) (retP (parts, sl)) (thenP nextToken (index_parts R n parts sl)))
      in ifP (curTokenIs COLON)
           (if n = 2 then bindP (expression R LOWEST) (\<lambda>e. next (parts @ [e]) sl)
            else next (parts @ [NoExpr]) True)
           (ifP (curTokenIs RBRACKET) (retP (parts, sl))
              (bindP (expression R LOWEST) (\<lambda>e.
               ifP (\<lambda>p. peekTokenIs COLON p \<and> n \<ge> 1) (thenP nextToken (next (parts @ [e]) True))
                 (next (parts @ [e]) sl)))))"

definition pad_parts :: "bool \<Rightarrow> expr list \<Rightarrow> expr list" where
  "pad_parts sl parts = (if sl then parts @ replicate (3 - length parts) NoExpr else parts)"

definition parseIndexExpressionList :: "'t callees \<Rightarrow> ('t, expr list) parse" where
  "parseIndexExpressionList R =
     thenP nextToken
       (bindP (index_parts R 3 [] False) (\<lambda>(parts, sl).
        expecting RBRACKET [] (retP (pad_parts sl parts))))"

definition part_at :: "expr list \<Rightarrow> nat \<Rightarrow> expr" where
  "part_at parts i = (if i < length parts then parts ! i else NoExpr)"

definition parseIndexExpression :: "'t callees \<Rightarrow> expr \<Rightarrow> ('t, expr) parse" where
  "parseIndexExpression R left =
     bindP (getP curToken) (\<lambda>t.
     bindP (parseIndexExpressionList R) (\<lambda>parts.
     if parts = [] then retP NoExpr
     else if length parts = 1 \<and> hd parts \<noteq> NoExpr then retP (IndexExpression t left (hd parts) False)
     else
       getP (\<lambda>p. IndexExpression t left
         (SliceExpression (curToken p) (part_at parts 0) (part_at parts 1)
            (if length parts = 3 then parts ! 2 else NoExpr)) False)))"


section \<open>Structs\<close>

definition parseStructSchemaField :: "'t callees \<Rightarrow> nat \<Rightarrow> ('t, expr StructField option) parse" where
  "parseStructSchemaField R k =
     bindP (getP curToken) (\<lambda>t.
     ifP (curTokenIs AT)
       (thenP (errorHere ''struct field tag syntax is no longer supported; use field:type'') (retP None))
       (ifP (\<lambda>p. \<not> curTokenIs IDENT p)
          (thenP (errorCurType ''expected identifier for struct field, got '') (retP None))
          (bindP (ifP (peekTokenIs COLON)
                    (thenP nextToken (thenP nextToken (parseTypeAnnotationLiteral k [ASSIGN, COMMA, RBRACE])))
                    (retP [])) (\<lambda>ty.
           bindP (parameter_default R) (\<lambda>default.
           retP (Some (StructField t (tok_Literal t) ty default)))))))"

text \<open>
  The loop over the fields of a schema or of a struct value: they are separated by commas and
  newlines, and a closing brace may follow the last comma. A field that cannot be read ends the
  loop of a value and is left out of a schema.
\<close>

fun fields_loop :: "nat \<Rightarrow> ('t, 'f list option) parse \<Rightarrow> 'f list \<Rightarrow> ('t, 'f list option) parse" where
  "fields_loop 0 field fs = fuelP"
| "fields_loop (Suc k) field fs =
     ifP (peekTokenIs RBRACE) (expecting RBRACE None (retP (Some fs)))
       (thenP nextToken
         (thenP (skipLeadingNewlines k)
            (ifP (curTokenIs RBRACE) (retP (Some fs))
               (bindP field (\<lambda>f.
                case f of
                  None \<Rightarrow> retP None
                | Some f \<Rightarrow>
                    ifP (peekTokenIs RBRACE) (expecting RBRACE None (retP (Some (fs @ f))))
                      (expecting COMMA None
                         (thenP (skipPeekNewlines k)
                            (ifP (peekTokenIs RBRACE) (thenP nextToken (retP (Some (fs @ f))))
                               (fields_loop k field (fs @ f))))))))))"

definition parseStructSchemaExpression :: "'t callees \<Rightarrow> nat \<Rightarrow> ('t, expr) parse" where
  "parseStructSchemaExpression R k =
     bindP (getP curToken) (\<lambda>t.
     expecting LBRACE NoExpr
       (thenP (skipPeekNewlines k)
          (bindP (fields_loop k
                    (bindP (parseStructSchemaField R k)
                       (\<lambda>f. retP (Some (case f of None \<Rightarrow> [] | Some f \<Rightarrow> [f])))) []) (\<lambda>fs.
           retP (case fs of None \<Rightarrow> NoExpr | Some fs \<Rightarrow> StructSchemaExpression t fs)))))"

definition struct_init_field :: "'t callees \<Rightarrow> nat \<Rightarrow> ('t, expr StructInitField list option) parse" where
  "struct_init_field R k =
     bindP (getP curToken) (\<lambda>t.
     ifP (\<lambda>p. \<not> curTokenIs IDENT p)
       (thenP (errorCurType ''expected identifier for struct field, got '') (retP None))
       (expecting COLON None
          (thenP nextToken
             (thenP (skipLeadingNewlines k)
                (bindP (expression R LOWEST) (\<lambda>v. retP (Some [StructInitField t (tok_Literal t) v])))))))"

definition parseStructInitFields :: "'t callees \<Rightarrow> nat \<Rightarrow> ('t, expr StructInitField list option) parse" where
  "parseStructInitFields R k =
     ifP (peekTokenIs RBRACE) (thenP nextToken (retP (Some []))) (fields_loop k (struct_init_field R k) [])"

definition parseStructInitExpression :: "'t callees \<Rightarrow> nat \<Rightarrow> expr \<Rightarrow> ('t, expr) parse" where
  "parseStructInitExpression R k left =
     bindP (getP curToken) (\<lambda>t.
     bindP (parseStructInitFields R k) (\<lambda>fs.
     retP (case fs of None \<Rightarrow> NoExpr | Some fs \<Rightarrow> StructInitExpression t left fs)))"

definition parseStructCopyExpression :: "'t callees \<Rightarrow> expr \<Rightarrow> ('t, expr) parse" where
  "parseStructCopyExpression R left =
     bindP (getP curToken) (\<lambda>t.
     bindP (getP curPrecedence) (\<lambda>prec.
     thenP nextToken (bindP (expression R prec) (\<lambda>fs. retP (StructCopyExpression t left fs)))))"

section \<open>Statements\<close>

definition parseReturnStatement :: "'t callees \<Rightarrow> nat \<Rightarrow> ('t, stmt) parse" where
  "parseReturnStatement R k =
     bindP (getP curToken) (\<lambda>t.
     thenP nextToken
       (thenP (skipLeadingNewlines k) (bindP (expression R LOWEST) (\<lambda>e. retP (ReturnStatement t e)))))"

definition parseThrowStatement :: "'t callees \<Rightarrow> nat \<Rightarrow> ('t, stmt) parse" where
  "parseThrowStatement R k =
     bindP (getP curToken) (\<lambda>t.
     thenP nextToken
       (thenP (skipLeadingNewlines k) (bindP (expression R LOWEST) (\<lambda>e. retP (ThrowStatement t e)))))"

definition parseExpressionStatement :: "'t callees \<Rightarrow> ('t, stmt) parse" where
  "parseExpressionStatement R =
     bindP (getP curToken) (\<lambda>t. bindP (expression R LOWEST) (\<lambda>e. retP (ExpressionStatement t e)))"

definition parseNotImplemented :: "('t, stmt) parse" where
  "parseNotImplemented =
     bindP (getP curToken) (\<lambda>t.
     thenP (whenP (peekTokenIs SEMICOLON) nextToken)
       (retP (ThrowStatement t
          (MapLiteral t [(StringLiteral t ''type'', StringLiteral t ''NotImplementedError'')]))))"

definition parseForeignFunctionDeclaration :: "'t callees \<Rightarrow> nat \<Rightarrow> ('t, stmt) parse" where
  "parseForeignFunctionDeclaration R k =
     bindP (getP curToken) (\<lambda>t.
     bindP takeTags (\<lambda>tags.
     bindP takeDoc (\<lambda>(doc, hasDoc).
     expecting IDENT nilForeign
       (bindP (getP curIdent) (\<lambda>name.
        expecting ASSIGN nilForeign
          (expecting FUNCTION nilForeign
             (bindP (generic_parameters_of k) (\<lambda>tps.
              case tps of
                None \<Rightarrow> retP nilForeign
              | Some tps \<Rightarrow>
                  expecting LPAREN nilForeign
                    (bindP (parseFunctionParameters R k) (\<lambda>ps.
                     bindP (orPanic nil_dereference (generateSignature ps)) (\<lambda>sig.
                     bindP (ifP (peekTokenIs COLON)
                              (thenP nextToken (thenP nextToken (parseTypeAnnotationLiteral k [SEMICOLON, NEWLINE])))
                              (retP [])) (\<lambda>rt.
                     thenP (whenP (peekTokenIs SEMICOLON) nextToken)
                       (retP (ForeignFunctionDeclaration tags t name tps ps rt sig doc hasDoc))))))))))))))"

definition defer_head :: "('t, (DeferMode \<times> Identifier option) option) parse" where
  \<comment> \<open>the mode and the name of the error, up to the deferred code\<close>
  "defer_head =
     ifP (curTokenIsIdentLiteral ''onsuccess'') (thenP nextToken (retP (Some (DeferOnSuccess, None))))
       (ifP (curTokenIsIdentLiteral ''onerror'')
          (thenP nextToken
            (ifP (curTokenIs LPAREN)
               (thenP nextToken
                 (ifP (\<lambda>p. \<not> curTokenIs IDENT p)
                    (thenP (errorHere ''expected identifier for error variable'') (retP None))
                    (bindP (getP curIdent) (\<lambda>name.
                     thenP nextToken
                       (ifP (\<lambda>p. \<not> curTokenIs RPAREN p)
                          (thenP (errorHere ''expected closing parenthesis'') (retP None))
                          (thenP nextToken (retP (Some (DeferOnError, Some name)))))))))
               (thenP (errorHere (''expected '' @ squoted ''('' @ '' after '' @ squoted ''onerror'')) (retP None))))
          (retP (Some (DeferAlways, None))))"

definition name_expr :: "Identifier option \<Rightarrow> expr" where
  "name_expr n = (case n of None \<Rightarrow> NoExpr | Some i \<Rightarrow> IdentifierExpr i)"

definition parseDeferStatement :: "'t callees \<Rightarrow> nat \<Rightarrow> ('t, stmt) parse" where
  "parseDeferStatement R k =
     bindP (getP curToken) (\<lambda>t.
     thenP nextToken
       (bindP defer_head (\<lambda>hd.
        case hd of
          None \<Rightarrow> retP nilDefer
        | Some (mode, name) \<Rightarrow>
            bindP
              (ifP (\<lambda>p. mode = DeferOnError \<and> curTokenIs MATCH p)
                 (bindP (parseMatchExpression R k) (\<lambda>m.
                  bindP (orPanic failed_assertion (match_with (name_expr name) m)) (\<lambda>m.
                  retP (BlockStmt (match_block m)))))
                 (ifP (curTokenIs LBRACE)
                    (bindP (parseBlockStatement R k) (\<lambda>b. retP (BlockStmt b)))
                    (parseExpressionStatement R)))
              (\<lambda>call. retP (DeferStatement t call mode name)))))"

definition push_tag :: "expr Tag \<Rightarrow> ('t, unit) parse" where
  "push_tag tag =
     modP (\<lambda>p.
       let p = (if tag \<noteq> nilTag \<and> tag_Name tag = ''@main'' \<and> scopeDepth p \<noteq> 0
                then addError (tok_Position (tag_Token tag)) ''@main must be declared at module top-level'' p else p);
           p = p\<lparr>pendingTags := pendingTags p @ [tag]\<rparr>
       in if scopeDepth p = 0 then p\<lparr>seenMeaningful := True\<rparr> else p)"

definition noted :: "('t, stmt) parse \<Rightarrow> ('t, stmt) parse" where
  "noted m = bindP m (\<lambda>s. thenP (noteStatement s) (retP s))"

definition parseStatement :: "'t callees \<Rightarrow> nat \<Rightarrow> ('t, stmt) parse" where
  "parseStatement R k =
     bindP (getP (\<lambda>p. tok_Type (curToken p))) (\<lambda>ty.
     if ty = NEWLINE \<or> ty = SEMICOLON then retP NoStmt
     else if ty = DOC_COMMENT then thenP (modP handleDocComment) (retP NoStmt)
     else if ty = FOREIGN then noted (parseForeignFunctionDeclaration R k)
     else if ty = RETURN then parseReturnStatement R k
     else if ty = NOT_IMPLEMENTED then parseNotImplemented
     else if ty = DEFER then parseDeferStatement R k
     else if ty = THROW then parseThrowStatement R k
     else if ty = AT then bindP (parseTag R k) (\<lambda>tag. thenP (push_tag tag) (retP NoStmt))
     else noted (parseExpressionStatement R))"

section \<open>Expressions\<close>

text \<open>The tables \<open>prefixParseFns\<close> and \<open>infixParseFns\<close>.\<close>

definition prefixParseFn :: "'t callees \<Rightarrow> nat \<Rightarrow> TokenType \<Rightarrow> ('t, expr) parse option" where
  "prefixParseFn R k t =
     map_of
       [(NIL, parseNil), (IDENT, parseIdentifier R k), (SYMBOL, parseSymbolLiteral),
        (COLON, parseSymbolLiteralFromColon), (NUMBER, parseNumberLiteral), (STRING, parseStringLiteral),
        (BYTES, parseBytesLiteral), (BANG, parsePrefixExpression R), (MINUS, parsePrefixExpression R),
        (COMPLEMENT, parsePrefixExpression R), (TRUE, parseBoolean), (FALSE, parseBoolean),
        (LPAREN, parseGroupedExpression R), (IF, parseIfExpression R k), (FUNCTION, parseFunctionLiteral R k),
        (LBRACKET, parseListLiteral R k), (LBRACE, parseBraceExpression R k), (MATCH, parseMatchExpression R k),
        (SELECT, parseSelectExpression R k), (VAR, parseVarStatement R k), (VAL, parseValStatement R k),
        (RECUR, parseRecurExpression R k), (NURSERY, parseNurseryExpression R), (SPAWN, parseSpawnExpression R k),
        (STRUCT, parseStructSchemaExpression R k)] t"

definition infix_operators :: "TokenType list" where
  "infix_operators =
     [PLUS, MINUS, SLASH, ASTERISK, PERCENT, EQ, NOT_EQ, LOGICAL_AND, LOGICAL_OR, BITWISE_AND, BITWISE_OR,
      BITWISE_XOR, SHIFT_RIGHT, SHIFT_LEFT, LT, LT_EQ, GT, GT_EQ, APPEND_ITEM, PREPEND_ITEM]"

definition infixParseFn :: "'t callees \<Rightarrow> nat \<Rightarrow> TokenType \<Rightarrow> (expr \<Rightarrow> ('t, expr) parse) option" where
  "infixParseFn R k t =
     (if t \<in> set infix_operators then Some (parseInfixExpression R)
      else
        map_of
          [(CALL_CHAIN, parseCallChainExpression R), (COPY, parseStructCopyExpression R),
           (PERIOD, parseDotIdentifierToIndexExpression), (LPAREN, parseCallExpression R k),
           (LBRACKET, parseIndexExpression R), (LBRACE, parseStructInitExpression R k),
           (INTERPOLATION_START, parseInterpolationExpression R)] t)"

text \<open>The loop of \<open>parseExpression\<close>, from the expression read so far.\<close>

fun infix_loop :: "'t callees \<Rightarrow> nat \<Rightarrow> int \<Rightarrow> expr \<Rightarrow> ('t, expr) parse" where
  "infix_loop R 0 prec left = fuelP"
| "infix_loop R (Suc k) prec left =
     ifP (\<lambda>p. peekTokenIs SEMICOLON p \<or> peekTokenIs EOF p \<or> peekTokenIs RBRACE p) (retP left)
       (ifP (peekTokenIs NEWLINE)
          (ifP newlineTerminates (retP left) (thenP nextToken (infix_loop R k prec left)))
          (ifP (\<lambda>p. \<not> allowStructInit p \<and> peekTokenIs LBRACE p) (retP left)
             (ifP (\<lambda>p. prec \<ge> peekPrecedence p) (retP left)
                (bindP (getP (\<lambda>p. tok_Type (peekToken p))) (\<lambda>t.
                 case infixParseFn R k t of
                   None \<Rightarrow> retP left
                 | Some f \<Rightarrow> thenP nextToken (bindP (f left) (infix_loop R k prec)))))))"

definition parseExpression :: "'t callees \<Rightarrow> nat \<Rightarrow> int \<Rightarrow> ('t, expr) parse" where
  "parseExpression R k prec =
     thenP (skipLeadingNewlines k)
       (bindP (getP (\<lambda>p. tok_Type (curToken p))) (\<lambda>t.
        case prefixParseFn R k t of
          None \<Rightarrow> thenP (noPrefixParseFnError t) (retP NoExpr)
        | Some f \<Rightarrow> bindP f (infix_loop R k prec)))"

section \<open>The parser\<close>

fun parser_at :: "nat \<Rightarrow> 't callees" where
  "parser_at 0 = \<lparr>expression = (\<lambda>_. fuelP), statement = fuelP, match_pattern = fuelP\<rparr>"
| "parser_at (Suc n) =
     (let R = parser_at n
      in \<lparr>expression = parseExpression R n, statement = parseStatement R n, match_pattern = parseMatchPattern R n\<rparr>)"

record Program =
  Statements :: "stmt list"
  ModuleDoc :: string
  HasModuleDoc :: bool

fun program_loop :: "nat \<Rightarrow> stmt list \<Rightarrow> ('t, stmt list) parse" where
  "program_loop 0 ss = fuelP"
| "program_loop (Suc k) ss =
     ifP (\<lambda>p. curTokenIs EOF p \<or> curTokenIs ILLEGAL p) (retP ss)
       (bindP (statement (parser_at k)) (\<lambda>s.
        thenP (if s = NoStmt then retP () else noteStatement s)
          (thenP nextToken
             (thenP (skipStatementSeparators k)
                (program_loop k (if s = NoStmt then ss else ss @ [s]))))))"

definition ParseProgram :: "nat \<Rightarrow> ('t, Program) parse" where
  "ParseProgram n =
     thenP (skipStatementSeparators n)
       (bindP (program_loop n []) (\<lambda>ss.
        getP (\<lambda>p. \<lparr>Statements = ss, ModuleDoc = moduleDoc p, HasModuleDoc = hasModuleDoc p\<rparr>)))"


end
