(* ===== verification/Pratt.thy ===== *)
theory Pratt
  imports Parser
begin

text \<open>
  Expressions and their spelling: a grammar of operator expressions with precedences, and the
  proof that the parser reads every spelling of an expression back as that expression, whatever
  fuel it is given from some amount on. As the parser is a function, no text spells two
  expressions.
\<close>

section \<open>The tokens ahead\<close>

definition adv :: "nat \<Rightarrow> 't parser \<Rightarrow> 't parser" where
  "adv k = (shift_token ^^ k)"

definition tok_at :: "'t parser \<Rightarrow> nat \<Rightarrow> Token" where
  "tok_at p i = curToken (adv i p)"

definition spelled :: "'t parser \<Rightarrow> Token list \<Rightarrow> bool" where
  \<comment> \<open>the tokens from the current one on\<close>
  "spelled p ts \<longleftrightarrow> (\<forall>i<length ts. tok_at p i = ts ! i)"

lemma adv_0 [simp]: "adv 0 p = p"
  by (simp add: adv_def)

lemma adv_adv [simp]: "adv j (adv k p) = adv (j + k) p"
  by (simp add: adv_def funpow_add)

lemma shift_adv: "shift_token p = adv 1 p"
  by (simp add: adv_def)

lemma tok_at_adv [simp]: "tok_at (adv k p) i = tok_at p (i + k)"
  by (simp add: tok_at_def)

lemma curToken_tok: "curToken p = tok_at p 0"
  by (simp add: tok_at_def)

lemma peekToken_tok: "peekToken p = tok_at p 1"
  by (simp add: tok_at_def adv_def shift_token_def split: prod.split)

lemma peek2Token_tok: "peek2Token p = tok_at p 2"
  by (simp add: tok_at_def adv_def shift_token_def numeral_2_eq_2 split: prod.split)

lemma shift_fields [simp]:
  "p_src (shift_token p) = p_src p" "allowStructInit (shift_token p) = allowStructInit p"
  by (simp_all add: shift_token_def split: prod.split)

lemma adv_fields [simp]: "p_src (adv k p) = p_src p" "allowStructInit (adv k p) = allowStructInit p"
  by (induction k) (simp_all add: adv_def)

lemma shift_struct: "shift_token (p\<lparr>allowStructInit := b\<rparr>) = (shift_token p)\<lparr>allowStructInit := b\<rparr>"
  by (simp add: shift_token_def split: prod.split)

lemma adv_struct: "adv k (p\<lparr>allowStructInit := b\<rparr>) = (adv k p)\<lparr>allowStructInit := b\<rparr>"
  by (induction k) (simp_all add: adv_def shift_struct)

lemma tok_at_struct [simp]: "tok_at (p\<lparr>allowStructInit := b\<rparr>) i = tok_at p i"
  by (simp add: tok_at_def adv_struct)

lemma spelled_Nil [simp]: "spelled p []"
  by (simp add: spelled_def)

lemma spelled_Cons [simp]: "spelled p (t # ts) \<longleftrightarrow> tok_at p 0 = t \<and> spelled (adv 1 p) ts"
  by (auto simp: spelled_def nth_Cons' all_conj_distrib less_Suc_eq_0_disj)

lemma spelled_append [simp]: "spelled p (ts @ us) \<longleftrightarrow> spelled p ts \<and> spelled (adv (length ts) p) us"
  by (induction ts arbitrary: p) (simp_all add: add.commute)

lemma spelled_struct [simp]: "spelled (p\<lparr>allowStructInit := b\<rparr>) ts = spelled p ts"
  by (simp add: spelled_def)

lemmas token_simps = curTokenIs_def peekTokenIs_def curToken_tok peekToken_tok peek2Token_tok

section \<open>Steps of the monad\<close>

lemma nextToken_legal: "tok_Type (tok_at p 1) \<noteq> ILLEGAL \<Longrightarrow> nextToken p = POk () (adv 1 p)"
  by (simp add: nextToken_def modP_def report_illegal_def shift_adv token_simps)

lemma then_nextToken:
  "tok_Type (tok_at p 1) \<noteq> ILLEGAL \<Longrightarrow> bindP nextToken f p = f () (adv 1 p)"
  by (simp add: bindP_def nextToken_legal)

lemma bind_get [simp]: "bindP (getP f) g p = g (f p) p"
  by (simp add: bindP_def getP_def)

lemma bind_ret [simp]: "bindP (retP a) f = f a"
  by (simp add: bindP_def retP_def fun_eq_iff)

lemma bind_mod [simp]: "bindP (modP f) g p = g () (f p)"
  by (simp add: bindP_def modP_def)

lemma bind_ok: "m p = POk a q \<Longrightarrow> bindP m f p = f a q"
  by (simp add: bindP_def)

lemma ret_apply [simp]: "retP a p = POk a p"
  by (simp add: retP_def)

lemma expecting_ok:
  "tok_Type (tok_at p 1) = t \<Longrightarrow> t \<noteq> ILLEGAL \<Longrightarrow> expecting t a m p = m (adv 1 p)"
  by (simp add: expecting_def expectPeek_def bindP_def ifP_def token_simps nextToken_legal)

lemma skip_none: "\<not> c p \<Longrightarrow> 0 < k \<Longrightarrow> skip_while k c p = POk () p"
  by (cases k) (simp_all add: whenP_def ifP_def)

section \<open>The grammar\<close>

text \<open>
  \<open>spells n m e ts\<close>: the tokens \<open>ts\<close> spell \<open>e\<close> where the parser is called with precedence \<open>n\<close>, and
  an operator of a precedence up to \<open>m\<close> after them belongs to the whole, not to its last operand.
  The operator \<open>+:\<close> has a rule of its own and is left out, and so are newlines.
\<close>

definition plain_operator :: "TokenType \<Rightarrow> bool" where
  "plain_operator t \<longleftrightarrow> t \<in> set infix_operators \<and> t \<noteq> PREPEND_ITEM"

definition prefix_operator :: "TokenType \<Rightarrow> bool" where
  "prefix_operator t \<longleftrightarrow> t \<in> {BANG, MINUS, COMPLEMENT}"

definition atom :: "Token \<Rightarrow> expr option" where
  \<comment> \<open>the expression that a token is by itself\<close>
  "atom t =
     (let ty = tok_Type t; lit = tok_Literal t
      in if ty = IDENT then Some (IdentifierExpr (Identifier t lit))
         else if ty = STRING then Some (StringLiteral t lit)
         else if ty = NIL then Some (NilLiteral t)
         else if ty = TRUE \<or> ty = FALSE then Some (Boolean t (ty = TRUE))
         else if ty = NUMBER \<and> take 2 lit \<noteq> ''0x''
         then (case dec_FromString lit of Inr v \<Rightarrow> Some (NumberLiteral t v) | Inl _ \<Rightarrow> None)
         else None)"

inductive spells :: "int \<Rightarrow> int \<Rightarrow> expr \<Rightarrow> Token list \<Rightarrow> bool"
  and spells_items :: "expr list \<Rightarrow> Token list \<Rightarrow> bool"
where
  Atom: "atom t = Some e \<Longrightarrow> spells n m e [t]"
| Group: "spells 1 1 e ts \<Longrightarrow> tok_Type l = LPAREN \<Longrightarrow> tok_Type r = RPAREN \<Longrightarrow> spells n m e (l # ts @ [r])"
| Prefix: "spells 13 m' e ts \<Longrightarrow> prefix_operator (tok_Type t) \<Longrightarrow> m \<le> 13 \<Longrightarrow> m \<le> m' \<Longrightarrow>
    spells n m (PrefixExpression t (tok_Literal t) e) (t # ts)"
| Infix: "spells n m1 a ts \<Longrightarrow> spells (precedence_of (tok_Type t)) m2 b us \<Longrightarrow> plain_operator (tok_Type t) \<Longrightarrow>
    n < precedence_of (tok_Type t) \<Longrightarrow> precedence_of (tok_Type t) \<le> m1 \<Longrightarrow>
    m \<le> precedence_of (tok_Type t) \<Longrightarrow> m \<le> m2 \<Longrightarrow>
    spells n m (InfixExpression t a (tok_Literal t) b) (ts @ t # us)"
| Call: "spells n m1 f ts \<Longrightarrow> spells_items args us \<Longrightarrow> tok_Type l = LPAREN \<Longrightarrow> tok_Type r = RPAREN \<Longrightarrow>
    n < 15 \<Longrightarrow> 15 \<le> m1 \<Longrightarrow> spells n m (CallExpression l f args False) (ts @ l # us @ [r])"
| Index: "spells n m1 a ts \<Longrightarrow> spells 1 1 i us \<Longrightarrow> tok_Type l = LBRACKET \<Longrightarrow> tok_Type r = RBRACKET \<Longrightarrow>
    n < 16 \<Longrightarrow> 16 \<le> m1 \<Longrightarrow> spells n m (IndexExpression l a i False) (ts @ l # us @ [r])"
| Dot: "spells n m1 a ts \<Longrightarrow> tok_Type d = PERIOD \<Longrightarrow> tok_Type t = IDENT \<Longrightarrow> n < 15 \<Longrightarrow> 15 \<le> m1 \<Longrightarrow>
    spells n m (IndexExpression t a (SymbolLiteral t (tok_Literal t)) True) (ts @ [d, t])"
| List: "spells_items es us \<Longrightarrow> tok_Type l = LBRACKET \<Longrightarrow> tok_Type r = RBRACKET \<Longrightarrow>
    spells n m (ListLiteral l es) (l # us @ [r])"
| No_item: "spells_items [] []"
| Last_item: "spells 1 1 e ts \<Longrightarrow> spells_items [e] ts"
| More_items: "spells 1 1 e ts \<Longrightarrow> spells_items es us \<Longrightarrow> es \<noteq> [] \<Longrightarrow> tok_Type c = COMMA \<Longrightarrow>
    spells_items (e # es) (ts @ c # us)"


section \<open>Facts about spellings\<close>

definition calm :: "TokenType \<Rightarrow> bool" where
  "calm t \<longleftrightarrow> t \<notin> {NEWLINE, ASSIGN, PREPEND_ITEM, ILLEGAL, ELLIPSIS, COLON}"

definition not_closing :: "TokenType \<Rightarrow> bool" where
  "not_closing t \<longleftrightarrow> t \<notin> {RPAREN, RBRACKET}"

lemma atom_type: "atom t = Some e \<Longrightarrow> tok_Type t \<in> {IDENT, STRING, NIL, TRUE, FALSE, NUMBER}"
  by (auto simp: atom_def Let_def split: if_splits)

lemma atom_expr: "atom t = Some e \<Longrightarrow> e \<noteq> NoExpr"
  by (auto simp: atom_def Let_def split: if_splits sum.splits)

lemma plain_types: "plain_operator t \<Longrightarrow> t \<in> set infix_operators \<and> t \<noteq> PREPEND_ITEM"
  by (simp add: plain_operator_def)

lemma plain_calm: "plain_operator t \<Longrightarrow> calm t"
  by (auto simp: plain_operator_def infix_operators_def calm_def)

lemma prefix_calm: "prefix_operator t \<Longrightarrow> calm t \<and> not_closing t"
  by (auto simp: prefix_operator_def calm_def not_closing_def)

lemma spells_tokens:
  "spells n m e ts \<Longrightarrow> ts \<noteq> [] \<and> e \<noteq> NoExpr \<and> not_closing (tok_Type (hd ts)) \<and> (\<forall>t\<in>set ts. calm (tok_Type t))"
  "spells_items es us \<Longrightarrow> (es \<noteq> [] \<longrightarrow> us \<noteq> [] \<and> not_closing (tok_Type (hd us))) \<and> (es = [] \<longrightarrow> us = []) \<and> (\<forall>t\<in>set us. calm (tok_Type t))"
proof (induction rule: spells_spells_items.inducts)
  case (Atom t e n m)
  then show ?case using atom_type [of t e] atom_expr [of t e] by (auto simp: calm_def not_closing_def)
next
  case (Prefix m' e ts t m n)
  then show ?case using prefix_calm by auto
next
  case (Infix n m1 a ts t m2 b us m)
  then show ?case using plain_calm by (auto simp: hd_append)
qed (auto simp: hd_append calm_def not_closing_def)

section \<open>Reading a spelling\<close>

definition follows :: "int \<Rightarrow> TokenType \<Rightarrow> bool" where
  "follows m t \<longleftrightarrow> precedence_of t \<le> m \<and> t \<notin> {NEWLINE, ASSIGN, PREPEND_ITEM}"

definition no_applications :: "'t parser \<Rightarrow> bool" where
  \<comment> \<open>no \<open><\<close> after a name is taken for the start of type arguments\<close>
  "no_applications p \<longleftrightarrow> (\<forall>i. \<not> looksLikeTypeApplicationSuffix (p_src p) i)"

definition reads :: "'t itself \<Rightarrow> int \<Rightarrow> int \<Rightarrow> expr \<Rightarrow> Token list \<Rightarrow> bool" where
  \<comment> \<open>the parser comes to the loop with the expression read and its last token the current one\<close>
  "reads T n m e ts \<longleftrightarrow>
     (\<forall>(p :: 't parser) t. spelled p (ts @ [t]) \<longrightarrow> follows m (tok_Type t) \<longrightarrow> no_applications p \<longrightarrow>
        (\<exists>N j. j < N \<and> (\<forall>M K. N \<le> M \<longrightarrow> N \<le> K \<longrightarrow>
           parseExpression (parser_at M) K n p = infix_loop (parser_at M) (K - j) n e (adv (length ts - 1) p))))"

definition reads_items :: "'t itself \<Rightarrow> expr list \<Rightarrow> Token list \<Rightarrow> bool" where
  "reads_items T es us \<longleftrightarrow>
     (\<forall>(p :: 't parser) r xs item end. spelled p (us @ [r]) \<longrightarrow> tok_Type r = end \<longrightarrow> end \<in> {RPAREN, RBRACKET} \<longrightarrow>
        no_applications p \<longrightarrow> item \<in> {parseCallArgument, parseListItem} \<longrightarrow> es \<noteq> [] \<longrightarrow>
        (\<exists>N. \<forall>M K. N \<le> M \<longrightarrow> N \<le> K \<longrightarrow>
           bindP (item (parser_at M)) (\<lambda>x. comma_loop K end (item (parser_at M)) (xs @ [x])) p =
           POk (xs @ es) (adv (length us) p)))"

lemma no_applications_adv [simp]: "no_applications (adv k p) = no_applications p"
  "no_applications (p\<lparr>allowStructInit := b\<rparr>) = no_applications p"
  by (simp_all add: no_applications_def)

lemma parse_start:
  assumes "tok_Type (tok_at p 0) \<noteq> NEWLINE" "0 < K" "prefixParseFn R K (tok_Type (tok_at p 0)) = Some f"
  shows "parseExpression R K n p = bindP f (infix_loop R K n) p"
proof -
  have "skip_while K (curTokenIs NEWLINE) p = POk () p"
    using assms(1,2) by (intro skip_none) (simp add: token_simps)
  then show ?thesis
    using assms(3) by (simp add: parseExpression_def skipLeadingNewlines_def bind_ok token_simps)
qed

lemma loop_stops:
  "precedence_of (tok_Type (tok_at p 1)) \<le> n \<Longrightarrow> tok_Type (tok_at p 1) \<noteq> NEWLINE \<Longrightarrow> 0 < K \<Longrightarrow>
     infix_loop R K n e p = POk e p"
  by (cases K) (simp_all add: ifP_def token_simps peekPrecedence_def)

lemma loop_goes_on:
  assumes "n < precedence_of (tok_Type (tok_at p 1))" "0 < K" "infixParseFn R (K - 1) (tok_Type (tok_at p 1)) = Some f"
    and "tok_Type (tok_at p 1) \<notin> {SEMICOLON, EOF, RBRACE, NEWLINE, LBRACE, ILLEGAL}"
  shows "infix_loop R K n e p = bindP (f e) (infix_loop R (K - 1) n) (adv 1 p)"
proof (cases K)
  case (Suc k)
  then show ?thesis using assms by (simp add: ifP_def token_simps peekPrecedence_def then_nextToken)
qed (use assms in simp)

lemma expression_at: "expression (parser_at (Suc M)) = parseExpression (parser_at M) M"
  by (simp add: Let_def)

lemma reads_expression:
  assumes "reads TYPE('t) n m e ts" "spelled (p :: 't parser) (ts @ [t])" "follows m (tok_Type t)" "no_applications p"
    "precedence_of (tok_Type t) \<le> n" "ts \<noteq> []"
  shows "\<exists>N. \<forall>M. N \<le> M \<longrightarrow> expression (parser_at M) n p = POk e (adv (length ts - 1) p)"
proof -
  obtain N j where N: "j < N" "\<And>M K. N \<le> M \<Longrightarrow> N \<le> K \<Longrightarrow>
      parseExpression (parser_at M) K n p = infix_loop (parser_at M) (K - j) n e (adv (length ts - 1) p)"
    using assms(1-4) unfolding reads_def by blast
  have t: "tok_at p (length ts) = t" using assms(2) by simp
  have "expression (parser_at M) n p = POk e (adv (length ts - 1) p)" if le: "Suc N \<le> M" for M
  proof -
    obtain M' where M: "M = Suc M'" "N \<le> M'" using le by (cases M) simp_all
    have "tok_at (adv (length ts - 1) p) 1 = t" using t assms(6) by (cases ts) simp_all
    then have "infix_loop (parser_at M') (M' - j) n e (adv (length ts - 1) p) = POk e (adv (length ts - 1) p)"
      using assms(3,5) N(1) M(2) by (intro loop_stops) (simp_all add: follows_def)
    then show ?thesis using N(2) [of M' M'] M by (simp only: expression_at)
  qed
  then show ?thesis by blast
qed


text \<open>The rules of the grammar.\<close>

lemma reads_I:
  assumes "\<And>p :: 't parser. \<And>t. spelled p (ts @ [t]) \<Longrightarrow> follows m (tok_Type t) \<Longrightarrow> no_applications p \<Longrightarrow>
     \<exists>N j. j < N \<and> (\<forall>M K. N \<le> M \<longrightarrow> N \<le> K \<longrightarrow>
       parseExpression (parser_at M) K n p = infix_loop (parser_at M) (K - j) n e (adv (length ts - 1) p))"
  shows "reads TYPE('t) n m e ts"
  using assms unfolding reads_def by blast

text \<open>A prefix parser that gives the expression at its last token.\<close>

lemma reads_prefix:
  assumes "\<And>p :: 't parser. \<And>t. spelled p (ts @ [t]) \<Longrightarrow> follows m (tok_Type t) \<Longrightarrow> no_applications p \<Longrightarrow>
     \<exists>N. \<forall>M K. N \<le> M \<longrightarrow> N \<le> K \<longrightarrow>
       (\<exists>f. prefixParseFn (parser_at M) K (tok_Type (tok_at p 0)) = Some f \<and> f p = POk e (adv (length ts - 1) p))"
    and "ts \<noteq> []" "tok_Type (hd ts) \<noteq> NEWLINE"
  shows "reads TYPE('t) n m e ts"
proof (rule reads_I)
  fix p :: "'t parser" and t
  assume p: "spelled p (ts @ [t])" "follows m (tok_Type t)" "no_applications p"
  then obtain N where N: "\<And>M K. N \<le> M \<Longrightarrow> N \<le> K \<Longrightarrow>
      \<exists>f. prefixParseFn (parser_at M) K (tok_Type (tok_at p 0)) = Some f \<and> f p = POk e (adv (length ts - 1) p)"
    using assms(1) by blast
  have "tok_at p 0 = hd ts" using p(1) assms(2) by (cases ts) simp_all
  then have "parseExpression (parser_at M) K n p = infix_loop (parser_at M) (K - 0) n e (adv (length ts - 1) p)"
    if MK: "Suc N \<le> M" "Suc N \<le> K" for M K
  proof -
    obtain f where "prefixParseFn (parser_at M) K (tok_Type (tok_at p 0)) = Some f" "f p = POk e (adv (length ts - 1) p)"
      using N [of M K] MK by auto
    then show ?thesis using \<open>tok_at p 0 = hd ts\<close> assms(3) MK by (simp add: parse_start bind_ok)
  qed
  then show "\<exists>N j. j < N \<and> (\<forall>M K. N \<le> M \<longrightarrow> N \<le> K \<longrightarrow>
      parseExpression (parser_at M) K n p = infix_loop (parser_at M) (K - j) n e (adv (length ts - 1) p))"
    by (intro exI [of _ "Suc N"] exI [of _ 0]) simp
qed

text \<open>An infix parser that goes on after the spelling of the left operand.\<close>

lemma reads_infix:
  assumes left: "reads TYPE('t) n m1 a ts" "ts \<noteq> []" and op: "follows m1 (tok_Type o')" "n < precedence_of (tok_Type o')"
    "tok_Type o' \<notin> {SEMICOLON, EOF, RBRACE, NEWLINE, LBRACE, ILLEGAL}"
    and step: "\<And>p :: 't parser. \<And>t. spelled p (o' # us @ [t]) \<Longrightarrow> follows m (tok_Type t) \<Longrightarrow> no_applications p \<Longrightarrow>
       \<exists>N. \<forall>M K. N \<le> M \<longrightarrow> N \<le> K \<longrightarrow>
         (\<exists>f. infixParseFn (parser_at M) K (tok_Type o') = Some f \<and> f a p = POk e (adv (length us) p))"
  shows "reads TYPE('t) n m e (ts @ o' # us)"
proof (rule reads_I)
  fix p :: "'t parser" and t
  assume p: "spelled p ((ts @ o' # us) @ [t])" "follows m (tok_Type t)" "no_applications p"
  have "spelled p (ts @ [o'])" using p(1) by simp
  then obtain N j where N: "j < N" "\<And>M K. N \<le> M \<Longrightarrow> N \<le> K \<Longrightarrow>
      parseExpression (parser_at M) K n p = infix_loop (parser_at M) (K - j) n a (adv (length ts - 1) p)"
    using left(1) op(1) p(3) unfolding reads_def by blast
  let ?q = "adv (length ts) p"
  have q: "spelled ?q (o' # us @ [t])" "no_applications ?q" "tok_at p (length ts) = o'" using p by simp_all
  then obtain N' where N': "\<And>M K. N' \<le> M \<Longrightarrow> N' \<le> K \<Longrightarrow>
      \<exists>f. infixParseFn (parser_at M) K (tok_Type o') = Some f \<and> f a ?q = POk e (adv (length us) ?q)"
    using step [OF q(1) p(2) q(2)] by blast
  have "parseExpression (parser_at M) K n p = infix_loop (parser_at M) (K - Suc j) n e (adv (length (ts @ o' # us) - 1) p)"
    if MK: "N + N' + 2 \<le> M" "N + N' + 2 \<le> K" for M K
  proof -
    have K: "N' \<le> K - j - 1" "N' \<le> M" using N(1) MK by arith+
    obtain f where f: "infixParseFn (parser_at M) (K - j - 1) (tok_Type o') = Some f" "f a ?q = POk e (adv (length us) ?q)"
      using N' [OF K(2,1)] by blast
    have "adv 1 (adv (length ts - 1) p) = ?q" "tok_at (adv (length ts - 1) p) 1 = o'"
      using left(2) q(3) by (cases ts; simp)+
    then have "infix_loop (parser_at M) (K - j) n a (adv (length ts - 1) p) =
        bindP (f a) (infix_loop (parser_at M) (K - j - 1) n) ?q"
      using loop_goes_on [of n "adv (length ts - 1) p" "K - j" "parser_at M" f a] op f(1) N(1) MK by simp
    then show ?thesis using N(2) [of M K] f(2) MK by (simp add: bind_ok add.commute)
  qed
  then show "\<exists>N j. j < N \<and> (\<forall>M K. N \<le> M \<longrightarrow> N \<le> K \<longrightarrow>
      parseExpression (parser_at M) K n p = infix_loop (parser_at M) (K - j) n e (adv (length (ts @ o' # us) - 1) p))"
    using N(1) by (intro exI [of _ "N + N' + 2"] exI [of _ "Suc j"]) simp
qed


lemma follows_close: "t \<in> {COMMA, RPAREN, RBRACKET} \<Longrightarrow> follows 1 t"
proof -
  have "follows 1 COMMA" "follows 1 RPAREN" "follows 1 RBRACKET"
    by (simp_all add: follows_def precedence_of_def precedences_def LOWEST_def)
  then show "t \<in> {COMMA, RPAREN, RBRACKET} \<Longrightarrow> follows 1 t" by blast
qed

lemma plain_follows: "plain_operator t \<Longrightarrow> precedence_of t \<le> m \<Longrightarrow> follows m t"
  using plain_calm [of t] by (simp add: follows_def calm_def)

lemma plain_infix: "plain_operator t \<Longrightarrow> infixParseFn R k t = Some (parseInfixExpression R)"
  by (simp add: plain_operator_def infixParseFn_def)

lemma reads_atom:
  assumes "atom t = Some e"
  shows "reads TYPE('t) n m e [t]"
proof (rule reads_prefix)
  fix p :: "'t parser" and u
  assume p: "spelled p ([t] @ [u])" "follows m (tok_Type u)" "no_applications p"
  then have tok: "tok_at p 0 = t" "tok_at p 1 = u" by simp_all
  have "\<exists>f. prefixParseFn (parser_at M) K (tok_Type t) = Some f \<and> f p = POk e p" for M K
    using assms p(2,3) tok
    by (auto simp: atom_def Let_def prefixParseFn_def token_simps parseIdentifier_def curIdent_def ifP_def
        follows_def no_applications_def parseStringLiteral_def parseNil_def parseBoolean_def getP_def
        parseNumberLiteral_def split: if_splits sum.splits)
  then show "\<exists>N. \<forall>M K. N \<le> M \<longrightarrow> N \<le> K \<longrightarrow>
      (\<exists>f. prefixParseFn (parser_at M) K (tok_Type (tok_at p 0)) = Some f \<and> f p = POk e (adv (length [t] - 1) p))"
    using tok by simp
qed (use atom_type [OF assms] in auto)

lemma reads_group:
  assumes e: "reads TYPE('t) 1 1 e ts" "ts \<noteq> []" "\<forall>t\<in>set ts. calm (tok_Type t)" and lr: "tok_Type l = LPAREN" "tok_Type r = RPAREN"
  shows "reads TYPE('t) n m e (l # ts @ [r])"
proof (rule reads_prefix)
  fix p :: "'t parser" and u
  assume p: "spelled p ((l # ts @ [r]) @ [u])" "no_applications p"
  let ?q = "(adv 1 p)\<lparr>allowStructInit := True\<rparr>"
  have "spelled ?q (ts @ [r])" "no_applications ?q" using p by simp_all
  then obtain N where N: "\<And>M. N \<le> M \<Longrightarrow> expression (parser_at M) 1 ?q = POk e (adv (length ts - 1) ?q)"
    using reads_expression [OF e(1), of ?q r] follows_close [of "tok_Type r"] e(2) lr(2)
    by (auto simp: precedence_of_def precedences_def LOWEST_def)
  have tok: "tok_at p 0 = l" "tok_at p (Suc (length ts)) = r" "tok_Type (tok_at p 1) \<noteq> ILLEGAL"
    using p(1) e(2,3) by (auto simp: calm_def neq_Nil_conv)
  have "parseGroupedExpression (parser_at M) p = POk e (adv (length ts + 1) p)" if M: "N \<le> M" for M
  proof -
    have "expecting RPAREN NoExpr (retP e) (adv (length ts) p) = POk e (adv (length ts + 1) p)"
      using tok lr by (subst expecting_ok) simp_all
    moreover have "(adv (length ts - 1) ?q)\<lparr>allowStructInit := allowStructInit (adv 1 p)\<rparr> = adv (length ts) p"
      using e(2) by (cases ts) (simp_all add: adv_struct)
    ultimately show ?thesis
      using N [OF M] tok(3) by (simp add: parseGroupedExpression_def then_nextToken LOWEST_def bind_ok)
  qed
  moreover have "prefixParseFn (parser_at M :: 't callees) K LPAREN = Some (parseGroupedExpression (parser_at M))"
    for M K
    by (simp add: prefixParseFn_def)
  ultimately show "\<exists>N. \<forall>M K. N \<le> M \<longrightarrow> N \<le> K \<longrightarrow>
      (\<exists>f. prefixParseFn (parser_at M) K (tok_Type (tok_at p 0)) = Some f \<and>
        f p = POk e (adv (length (l # ts @ [r]) - 1) p))"
    using tok(1) lr(1) by (intro exI [of _ N]) simp
qed (use lr in simp_all)

lemma reads_prefix_operator:
  assumes e: "reads TYPE('t) 13 m' e ts" "ts \<noteq> []" "\<forall>t\<in>set ts. calm (tok_Type t)"
    and t: "prefix_operator (tok_Type t)" and m: "m \<le> 13" "m \<le> m'"
  shows "reads TYPE('t) n m (PrefixExpression t (tok_Literal t) e) (t # ts)"
proof (rule reads_prefix)
  fix p :: "'t parser" and u
  assume p: "spelled p ((t # ts) @ [u])" "follows m (tok_Type u)" "no_applications p"
  let ?q = "adv 1 p"
  have "spelled ?q (ts @ [u])" "no_applications ?q" "follows m' (tok_Type u)" "precedence_of (tok_Type u) \<le> 13"
    using p m by (simp_all add: follows_def)
  then obtain N where N: "\<And>M. N \<le> M \<Longrightarrow> expression (parser_at M) 13 ?q = POk e (adv (length ts - 1) ?q)"
    using reads_expression [OF e(1), of ?q u] e(2) by blast
  have tok: "tok_at p 0 = t" "tok_Type (tok_at p 1) \<noteq> ILLEGAL"
    using p(1) e(2,3) by (auto simp: calm_def neq_Nil_conv)
  have "parsePrefixExpression (parser_at M) p = POk (PrefixExpression t (tok_Literal t) e) (adv (length ts) p)"
    if "N \<le> M" for M
    using N [OF that] tok e(2)
    by (cases ts) (simp_all add: parsePrefixExpression_def then_nextToken bind_ok PREFIX_def token_simps)
  moreover have "prefixParseFn (parser_at M :: 't callees) K (tok_Type t) = Some (parsePrefixExpression (parser_at M))" for M K
    using t by (auto simp: prefixParseFn_def prefix_operator_def)
  ultimately show "\<exists>N. \<forall>M K. N \<le> M \<longrightarrow> N \<le> K \<longrightarrow>
      (\<exists>f. prefixParseFn (parser_at M) K (tok_Type (tok_at p 0)) = Some f \<and>
        f p = POk (PrefixExpression t (tok_Literal t) e) (adv (length (t # ts) - 1) p))"
    using tok(1) by (intro exI [of _ N]) simp
qed (use prefix_calm [OF t] in \<open>simp_all add: calm_def\<close>)

lemma reads_infix_operator:
  assumes a: "reads TYPE('t) n m1 a ts" "ts \<noteq> []" and b: "reads TYPE('t) (precedence_of (tok_Type t)) m2 b us" "us \<noteq> []"
    "\<forall>t\<in>set us. calm (tok_Type t)"
    and t: "plain_operator (tok_Type t)" "n < precedence_of (tok_Type t)" "precedence_of (tok_Type t) \<le> m1"
    and m: "m \<le> precedence_of (tok_Type t)" "m \<le> m2"
  shows "reads TYPE('t) n m (InfixExpression t a (tok_Literal t) b) (ts @ t # us)"
proof (rule reads_infix [OF a plain_follows [OF t(1,3)] t(2)])
  show "tok_Type t \<notin> {SEMICOLON, EOF, RBRACE, NEWLINE, LBRACE, ILLEGAL}"
    using t(1) by (auto simp: plain_operator_def infix_operators_def)
  fix p :: "'t parser" and u
  assume p: "spelled p (t # us @ [u])" "follows m (tok_Type u)" "no_applications p"
  let ?q = "adv 1 p" and ?n = "precedence_of (tok_Type t)"
  have "spelled ?q (us @ [u])" "no_applications ?q" "follows m2 (tok_Type u)" "precedence_of (tok_Type u) \<le> ?n"
    using p m by (simp_all add: follows_def)
  then obtain N where N: "\<And>M. N \<le> M \<Longrightarrow> expression (parser_at M) ?n ?q = POk b (adv (length us - 1) ?q)"
    using reads_expression [OF b(1), of ?q u] b(2) by blast
  have tok: "tok_at p 0 = t" "tok_Type (tok_at p 1) \<noteq> ILLEGAL"
    using p(1) b(2,3) by (auto simp: calm_def neq_Nil_conv)
  have "tok_Type (tok_at ?q 1) \<noteq> PREPEND_ITEM"
    using p(1,2) b(2,3) by (cases us; cases "tl us") (auto simp: calm_def follows_def)
  then have "parseInfixExpression (parser_at M) a p = POk (InfixExpression t a (tok_Literal t) b) (adv (length us) p)"
    if "N \<le> M" for M
    using N [OF that] tok b(2)
    by (cases us) (simp_all add: parseInfixExpression_def then_nextToken bind_ok ifP_def token_simps curPrecedence_def)
  then show "\<exists>N. \<forall>M K. N \<le> M \<longrightarrow> N \<le> K \<longrightarrow>
      (\<exists>f. infixParseFn (parser_at M) K (tok_Type t) = Some f \<and>
        f a p = POk (InfixExpression t a (tok_Literal t) b) (adv (length us) p))"
    by (intro exI [of _ N]) (simp add: plain_infix [OF t(1)])
qed


lemma item_expression:
  assumes "item \<in> {parseCallArgument, parseListItem}" "tok_Type (tok_at p 0) \<noteq> ELLIPSIS" "tok_Type (tok_at p 1) \<noteq> ASSIGN"
  shows "item R p = expression R 1 p"
  using assms by (auto simp: parseCallArgument_def parseListItem_def ifP_def token_simps LOWEST_def)

lemma item_reads:
  assumes e: "reads TYPE('t) 1 1 e ts" "ts \<noteq> []" "\<forall>t\<in>set ts. calm (tok_Type t)"
    and p: "spelled (p :: 't parser) (ts @ [c])" "no_applications p" "tok_Type c \<in> {COMMA, RPAREN, RBRACKET}"
    and item: "item \<in> {parseCallArgument, parseListItem}"
  shows "\<exists>N. \<forall>M. N \<le> M \<longrightarrow> item (parser_at M) p = POk e (adv (length ts - 1) p)"
proof -
  obtain N where N: "\<And>M. N \<le> M \<Longrightarrow> expression (parser_at M) 1 p = POk e (adv (length ts - 1) p)"
    using reads_expression [OF e(1) p(1) _ p(2)] follows_close [OF p(3)] e(2) by (auto simp: follows_def)
  have "tok_Type (tok_at p 0) \<noteq> ELLIPSIS" "tok_Type (tok_at p 1) \<noteq> ASSIGN"
    using p(1,3) e(2,3) by (cases ts; cases "tl ts"; auto simp: calm_def)+
  then show ?thesis using N item_expression [OF item] by (intro exI [of _ N]) simp
qed

lemma reads_items_Nil: "reads_items TYPE('t) [] []"
  by (simp add: reads_items_def)

lemma reads_items_last:
  assumes e: "reads TYPE('t) 1 1 e ts" "ts \<noteq> []" "\<forall>t\<in>set ts. calm (tok_Type t)"
  shows "reads_items TYPE('t) [e] ts"
  unfolding reads_items_def
proof (intro allI impI)
  fix p :: "'t parser" and r xs and item :: "'t callees \<Rightarrow> ('t, expr) parse" and "end"
  assume p: "spelled p (ts @ [r])" "tok_Type r = end" "end \<in> {RPAREN, RBRACKET}" "no_applications p"
    and item: "item \<in> {parseCallArgument, parseListItem}"
  then obtain N where N: "\<And>M. N \<le> M \<Longrightarrow> item (parser_at M) p = POk e (adv (length ts - 1) p)"
    using item_reads [OF e p(1,4) _ item] by blast
  have r: "tok_at (adv (length ts - 1) p) 1 = r" "adv 1 (adv (length ts - 1) p) = adv (length ts) p"
    using p(1) e(2) by (cases ts; simp)+
  have "bindP (item (parser_at M)) (\<lambda>x. comma_loop K end (item (parser_at M)) (xs @ [x])) p = POk (xs @ [e]) (adv (length ts) p)"
    if "Suc N \<le> M" "Suc N \<le> K" for M K
  proof -
    obtain k where k: "K = Suc k" using \<open>Suc N \<le> K\<close> by (cases K) auto
    have "comma_loop K end (item (parser_at M)) (xs @ [e]) (adv (length ts - 1) p) = POk (xs @ [e]) (adv (length ts) p)"
      using r p(2,3) expecting_ok [of "adv (length ts - 1) p" "end" "[]" "retP (xs @ [e])"]
      by (auto simp: k ifP_def token_simps)
    then show ?thesis using N \<open>Suc N \<le> M\<close> by (simp add: bind_ok)
  qed
  then show "\<exists>N. \<forall>M K. N \<le> M \<longrightarrow> N \<le> K \<longrightarrow>
      bindP (item (parser_at M)) (\<lambda>x. comma_loop K end (item (parser_at M)) (xs @ [x])) p = POk (xs @ [e]) (adv (length ts) p)"
    by blast
qed

lemma reads_items_more:
  assumes e: "reads TYPE('t) 1 1 e ts" "ts \<noteq> []" "\<forall>t\<in>set ts. calm (tok_Type t)"
    and es: "reads_items TYPE('t) es us" "es \<noteq> []" "us \<noteq> []" "not_closing (tok_Type (hd us))" "\<forall>t\<in>set us. calm (tok_Type t)"
    and c: "tok_Type c = COMMA"
  shows "reads_items TYPE('t) (e # es) (ts @ c # us)"
  unfolding reads_items_def
proof (intro allI impI)
  fix p :: "'t parser" and r xs and item :: "'t callees \<Rightarrow> ('t, expr) parse" and "end"
  assume p: "spelled p ((ts @ c # us) @ [r])" "tok_Type r = end" "end \<in> {RPAREN, RBRACKET}" "no_applications p"
    and item: "item \<in> {parseCallArgument, parseListItem}"
  let ?q = "adv (length ts + 1) p"
  have 1: "spelled p (ts @ [c])" and 2: "spelled ?q (us @ [r])" "no_applications ?q" using p by (simp_all add: add.commute)
  obtain N where N: "\<And>M. N \<le> M \<Longrightarrow> item (parser_at M) p = POk e (adv (length ts - 1) p)"
    using item_reads [OF e 1 p(4) _ item] c by blast
  obtain N' where N': "\<And>M K. N' \<le> M \<Longrightarrow> N' \<le> K \<Longrightarrow>
      bindP (item (parser_at M)) (\<lambda>x. comma_loop K end (item (parser_at M)) ((xs @ [e]) @ [x])) ?q =
      POk ((xs @ [e]) @ es) (adv (length us) ?q)"
    using es(1) 2 p(2,3) item es(2) unfolding reads_items_def by blast
  have tok: "tok_Type (tok_at (adv (length ts - 1) p) 1) = COMMA" "adv 1 (adv (length ts - 1) p) = adv (length ts) p"
    "tok_Type (tok_at p (length ts + 1)) \<noteq> end" "tok_Type (tok_at p (length ts + 1)) \<noteq> ILLEGAL"
    using p(1,3) e(2) es(3-5) c by (cases ts; cases us; auto simp: not_closing_def calm_def add.commute)+
  have "bindP (item (parser_at M)) (\<lambda>x. comma_loop K end (item (parser_at M)) (xs @ [x])) p =
      POk (xs @ e # es) (adv (length (ts @ c # us)) p)"
    if "N + N' + 1 \<le> M" "N + N' + 1 \<le> K" for M K
  proof -
    obtain k where k: "K = Suc k" "N' \<le> k" using \<open>N + N' + 1 \<le> K\<close> by (cases K) auto
    have "N' \<le> M" using \<open>N + N' + 1 \<le> M\<close> by simp
    have "comma_loop K end (item (parser_at M)) (xs @ [e]) (adv (length ts - 1) p) =
        bindP (item (parser_at M)) (\<lambda>x. comma_loop k end (item (parser_at M)) ((xs @ [e]) @ [x])) ?q"
      using tok by (simp add: k(1) ifP_def token_simps then_nextToken)
    also have "\<dots> = POk ((xs @ [e]) @ es) (adv (length us) ?q)" by (rule N') fact+
    finally show ?thesis using N \<open>N + N' + 1 \<le> M\<close> by (simp add: bind_ok ac_simps)
  qed
  then show "\<exists>N. \<forall>M K. N \<le> M \<longrightarrow> N \<le> K \<longrightarrow>
      bindP (item (parser_at M)) (\<lambda>x. comma_loop K end (item (parser_at M)) (xs @ [x])) p =
      POk (xs @ e # es) (adv (length (ts @ c # us)) p)"
    by blast
qed

text \<open>A list of items up to its closing token.\<close>

lemma reads_comma_list:
  assumes es: "reads_items TYPE('t) es us" "es \<noteq> [] \<longrightarrow> us \<noteq> [] \<and> not_closing (tok_Type (hd us))" "es = [] \<longrightarrow> us = []"
      "\<forall>t\<in>set us. calm (tok_Type t)"
    and p: "spelled (p :: 't parser) (l # us @ [r])" "no_applications p" "tok_Type r = end" "end \<in> {RPAREN, RBRACKET}"
    and item: "item \<in> {parseCallArgument, parseListItem}"
  shows "\<exists>N. \<forall>M K. N \<le> M \<longrightarrow> N \<le> K \<longrightarrow>
    comma_list K end (item (parser_at M)) p = POk es (adv (length us + 1) p)"
proof (cases "es = []")
  case True
  then show ?thesis
    using assms(3) p by (auto simp: comma_list_def ifP_def token_simps then_nextToken)
next
  case False
  have "spelled (adv 1 p) (us @ [r])" "no_applications (adv 1 p)" using p by simp_all
  then obtain N where N: "\<And>M K. N \<le> M \<Longrightarrow> N \<le> K \<Longrightarrow>
      bindP (item (parser_at M)) (\<lambda>x. comma_loop K end (item (parser_at M)) ([] @ [x])) (adv 1 p) =
      POk ([] @ es) (adv (length us) (adv 1 p))"
    using es(1) p(3,4) item False unfolding reads_items_def by blast
  have "tok_Type (tok_at p 1) \<noteq> end" "tok_Type (tok_at p 1) \<noteq> ILLEGAL"
    using p es(2,4) False by (cases us; auto simp: not_closing_def calm_def)+
  then show ?thesis
    using N by (intro exI [of _ N]) (simp add: comma_list_def ifP_def token_simps then_nextToken)
qed


lemma reads_list:
  assumes es: "reads_items TYPE('t) es us" "es \<noteq> [] \<longrightarrow> us \<noteq> [] \<and> not_closing (tok_Type (hd us))" "es = [] \<longrightarrow> us = []"
      "\<forall>t\<in>set us. calm (tok_Type t)"
    and lr: "tok_Type l = LBRACKET" "tok_Type r = RBRACKET"
  shows "reads TYPE('t) n m (ListLiteral l es) (l # us @ [r])"
proof (rule reads_prefix)
  fix p :: "'t parser" and u
  assume p: "spelled p ((l # us @ [r]) @ [u])" "no_applications p"
  obtain N where N: "\<And>M K. N \<le> M \<Longrightarrow> N \<le> K \<Longrightarrow>
      comma_list K RBRACKET (parseListItem (parser_at M)) p = POk es (adv (length us + 1) p)"
    using reads_comma_list [OF es, of p l r RBRACKET parseListItem] p lr by auto
  have "tok_at p 0 = l" using p(1) by simp
  then have "parseListLiteral (parser_at M) K p = POk (ListLiteral l es) (adv (length us + 1) p)"
    if "N \<le> M" "N \<le> K" for M K
    using N [OF that] by (simp add: parseListLiteral_def parseExpressionList_def bind_ok token_simps)
  moreover have "prefixParseFn (parser_at M :: 't callees) K LBRACKET = Some (parseListLiteral (parser_at M) K)" for M K
    by (simp add: prefixParseFn_def)
  ultimately show "\<exists>N. \<forall>M K. N \<le> M \<longrightarrow> N \<le> K \<longrightarrow>
      (\<exists>f. prefixParseFn (parser_at M) K (tok_Type (tok_at p 0)) = Some f \<and>
        f p = POk (ListLiteral l es) (adv (length (l # us @ [r]) - 1) p))"
    using \<open>tok_at p 0 = l\<close> lr(1) by (intro exI [of _ N]) simp
qed (use lr in simp_all)

lemma precedence_postfix [simp]:
  "precedence_of LPAREN = 15" "precedence_of LBRACKET = 16" "precedence_of PERIOD = 15" "precedence_of RBRACKET = 1"
  by (simp_all add: precedence_of_def precedences_def LOWEST_def)

lemma infix_postfix:
  "infixParseFn R k LPAREN = Some (parseCallExpression R k)" "infixParseFn R k LBRACKET = Some (parseIndexExpression R)"
  "infixParseFn R k PERIOD = Some parseDotIdentifierToIndexExpression"
  by (simp_all add: infixParseFn_def infix_operators_def)

lemma reads_call:
  assumes f: "reads TYPE('t) n m1 f ts" "ts \<noteq> []"
    and es: "reads_items TYPE('t) es us" "es \<noteq> [] \<longrightarrow> us \<noteq> [] \<and> not_closing (tok_Type (hd us))" "es = [] \<longrightarrow> us = []"
      "\<forall>t\<in>set us. calm (tok_Type t)"
    and lr: "tok_Type l = LPAREN" "tok_Type r = RPAREN" and n: "n < 15" "15 \<le> m1"
  shows "reads TYPE('t) n m (CallExpression l f es False) (ts @ l # us @ [r])"
proof (rule reads_infix [OF f])
  fix p :: "'t parser" and u
  assume p: "spelled p (l # (us @ [r]) @ [u])" "no_applications p"
  obtain N where N: "\<And>M K. N \<le> M \<Longrightarrow> N \<le> K \<Longrightarrow>
      comma_list K RPAREN (parseCallArgument (parser_at M)) p = POk es (adv (length us + 1) p)"
    using reads_comma_list [OF es, of p l r RPAREN parseCallArgument] p lr by auto
  have "tok_at p 0 = l" using p(1) by simp
  then have "parseCallExpression (parser_at M) K f p = POk (CallExpression l f es False) (adv (length us + 1) p)"
    if "N \<le> M" "N \<le> K" for M K
    using N [OF that] by (simp add: parseCallExpression_def parseCallArguments_def bind_ok token_simps)
  then show "\<exists>N. \<forall>M K. N \<le> M \<longrightarrow> N \<le> K \<longrightarrow>
      (\<exists>g. infixParseFn (parser_at M) K (tok_Type l) = Some g \<and>
        g f p = POk (CallExpression l f es False) (adv (length (us @ [r])) p))"
    using lr(1) by (intro exI [of _ N]) (simp add: infix_postfix)
qed (use lr n in \<open>simp_all add: follows_def\<close>)

lemma reads_index:
  assumes a: "reads TYPE('t) n m1 a ts" "ts \<noteq> []"
    and i: "reads TYPE('t) 1 1 i us" "us \<noteq> []" "i \<noteq> NoExpr" "not_closing (tok_Type (hd us))" "\<forall>t\<in>set us. calm (tok_Type t)"
    and lr: "tok_Type l = LBRACKET" "tok_Type r = RBRACKET" and n: "n < 16" "16 \<le> m1"
  shows "reads TYPE('t) n m (IndexExpression l a i False) (ts @ l # us @ [r])"
proof (rule reads_infix [OF a])
  fix p :: "'t parser" and u
  assume p: "spelled p (l # (us @ [r]) @ [u])" "no_applications p"
  let ?q = "adv 1 p"
  have "spelled ?q (us @ [r])" "no_applications ?q" using p by simp_all
  then obtain N where N: "\<And>M. N \<le> M \<Longrightarrow> expression (parser_at M) 1 ?q = POk i (adv (length us - 1) ?q)"
    using reads_expression [OF i(1), of ?q r] follows_close [of "tok_Type r"] i(2) lr(2) by auto
  have tok: "tok_at p 0 = l" "tok_Type (tok_at p 1) \<notin> {ILLEGAL, COLON, RBRACKET}"
    "tok_Type (tok_at (adv (length us - 1) ?q) 1) = RBRACKET" "adv 1 (adv (length us - 1) ?q) = adv (length us + 1) p"
    using p(1) i(2,4,5) lr(2) by (cases us; auto simp: not_closing_def calm_def)+
  have "parseIndexExpression (parser_at M) a p = POk (IndexExpression l a i False) (adv (length us + 1) p)"
    if "N \<le> M" for M
  proof -
    have "index_parts (parser_at M) 3 [] False ?q = POk ([i], False) (adv (length us - 1) ?q)"
      using tok N [OF that] by (simp add: eval_nat_numeral Let_def ifP_def token_simps LOWEST_def bind_ok)
    moreover have "expecting RBRACKET [] (retP [i]) (adv (length us - 1) ?q) = POk [i] (adv (length us + 1) p)"
      using tok(3,4) by (subst expecting_ok) simp_all
    ultimately show ?thesis
      using tok(1,2) i(3)
      by (simp add: parseIndexExpression_def parseIndexExpressionList_def then_nextToken bind_ok token_simps pad_parts_def
          del: index_parts.simps)
  qed
  then show "\<exists>N. \<forall>M K. N \<le> M \<longrightarrow> N \<le> K \<longrightarrow>
      (\<exists>g. infixParseFn (parser_at M) K (tok_Type l) = Some g \<and>
        g a p = POk (IndexExpression l a i False) (adv (length (us @ [r])) p))"
    using lr(1) by (intro exI [of _ N]) (simp add: infix_postfix)
qed (use lr n in \<open>simp_all add: follows_def\<close>)

lemma reads_dot:
  assumes a: "reads TYPE('t) n m1 a ts" "ts \<noteq> []"
    and dt: "tok_Type d = PERIOD" "tok_Type t = IDENT" and n: "n < 15" "15 \<le> m1"
  shows "reads TYPE('t) n m (IndexExpression t a (SymbolLiteral t (tok_Literal t)) True) (ts @ [d, t])"
proof (rule reads_infix [OF a])
  fix p :: "'t parser" and u
  assume "spelled p (d # [t] @ [u])"
  then have "parseDotIdentifierToIndexExpression a p =
      POk (IndexExpression t a (SymbolLiteral t (tok_Literal t)) True) (adv 1 p)"
    using dt
    by (simp add: parseDotIdentifierToIndexExpression_def expectPeek_def bindP_def ifP_def token_simps nextToken_legal getP_def)
  then show "\<exists>N. \<forall>M K. N \<le> M \<longrightarrow> N \<le> K \<longrightarrow>
      (\<exists>g. infixParseFn (parser_at M) K (tok_Type d) = Some g \<and>
        g a p = POk (IndexExpression t a (SymbolLiteral t (tok_Literal t)) True) (adv (length [t]) p))"
    using dt(1) by (simp add: infix_postfix)
qed (use dt n in \<open>simp_all add: follows_def\<close>)

lemma spells_reads:
  "spells n m e ts \<Longrightarrow> reads TYPE('t) n m e ts"
  "spells_items es us \<Longrightarrow> reads_items TYPE('t) es us"
proof (induction rule: spells_spells_items.inducts)
  case (Atom t e n m)
  then show ?case by (rule reads_atom)
next
  case (Group e ts l r n m)
  then show ?case using spells_tokens(1) [OF Group(1)] by (intro reads_group) auto
next
  case (Prefix m' e ts t m n)
  then show ?case using spells_tokens(1) [OF Prefix(1)] by (intro reads_prefix_operator [of m']) auto
next
  case (Infix n m1 a ts t m2 b us m)
  then show ?case
    using spells_tokens(1) [OF Infix(1)] spells_tokens(1) [OF Infix(2)] by (intro reads_infix_operator [of n m1 a ts t m2]) auto
next
  case (Call n m1 f ts args us l r m)
  then show ?case
    using spells_tokens(1) [OF Call(1)] spells_tokens(2) [OF Call(2)] by (intro reads_call [of n m1]) auto
next
  case (Index n m1 a ts i us l r m)
  then show ?case
    using spells_tokens(1) [OF Index(1)] spells_tokens(1) [OF Index(2)] by (intro reads_index [of n m1]) auto
next
  case (Dot n m1 a ts d t m)
  then show ?case using spells_tokens(1) [OF Dot(1)] by (intro reads_dot [of n m1]) auto
next
  case (List es us l r n m)
  then show ?case using spells_tokens(2) [OF List(1)] by (intro reads_list) auto
next
  case No_item
  show ?case by (rule reads_items_Nil)
next
  case (Last_item e ts)
  then show ?case using spells_tokens(1) [OF Last_item(1)] by (intro reads_items_last) auto
next
  case (More_items e ts es us c)
  then show ?case
    using spells_tokens(1) [OF More_items(1)] spells_tokens(2) [OF More_items(2)] by (intro reads_items_more) auto
qed

section \<open>The theorems\<close>

lemma expression_reads:
  fixes p :: "'t parser"
  assumes "spells n m e ts" and "spelled p (ts @ [t])" and "no_applications p"
    and "precedence_of (tok_Type t) \<le> n" "precedence_of (tok_Type t) \<le> m" "tok_Type t \<notin> {NEWLINE, ASSIGN, PREPEND_ITEM}"
  shows "\<exists>N. \<forall>M\<ge>N. expression (parser_at M) n p = POk e (adv (length ts - 1) p)"
  using reads_expression [OF spells_reads(1) [OF assms(1)] assms(2) _ assms(3,4)] assms(5,6) spells_tokens(1) [OF assms(1)]
  by (auto simp: follows_def)

text \<open>C19:
  The parser reads every spelling of an operator expression back: it gives that expression and
  stops at its last token, whenever the token that follows binds no tighter than the precedence
  it was called with.\<close>
theorem expression_roundtrip:
  fixes p :: "'t parser"
  assumes "spells n m e ts" and "spelled p (ts @ [t])" and "no_applications p"
    and "precedence_of (tok_Type t) \<le> n" "precedence_of (tok_Type t) \<le> m" "tok_Type t \<notin> {NEWLINE, ASSIGN, PREPEND_ITEM}"
  shows "\<exists>N. \<forall>M\<ge>N. expression (parser_at M) n p = POk e (adv (length ts - 1) p)"
  using assms by (rule expression_reads)

text \<open>A parser over a list of tokens, which ends in \<open>EOF\<close> tokens.\<close>

definition token_or_eof :: "Token list \<Rightarrow> nat \<Rightarrow> Token" where
  "token_or_eof ts i = (if i < length ts then ts ! i else Token EOF [] 0)"

definition stream_parser :: "Token list \<Rightarrow> nat parser" where
  "stream_parser ts =
     \<lparr>tokenizer = 3, tk_NextToken = (\<lambda>i. (token_or_eof ts i, i + 1)), p_Path = [], p_src = [], p_errors = [],
      pendingTags = [], pendingDoc = [], hasPendingDoc = False, moduleDoc = [], hasModuleDoc = False,
      seenMeaningful = False, scopeDepth = 0, allowStructInit = True,
      curToken = token_or_eof ts 0, peekToken = token_or_eof ts 1, peek2Token = token_or_eof ts 2\<rparr>"

lemma stream_parser_adv:
  "adv k (stream_parser ts) = (stream_parser ts)\<lparr>tokenizer := k + 3, curToken := token_or_eof ts k,
     peekToken := token_or_eof ts (k + 1), peek2Token := token_or_eof ts (k + 2)\<rparr>"
proof (induction k)
  case (Suc k)
  have "adv (Suc k) (stream_parser ts) = shift_token (adv k (stream_parser ts))" by (simp add: adv_def)
  then show ?case using Suc by (simp add: shift_token_def stream_parser_def eval_nat_numeral)
qed (simp add: stream_parser_def eval_nat_numeral)

lemma spelled_stream: "spelled (stream_parser ts) (ts @ [Token EOF [] 0])"
  by (auto simp: spelled_def tok_at_def stream_parser_adv token_or_eof_def nth_append less_Suc_eq)

lemma no_applications_stream: "no_applications (stream_parser ts)"
  by (simp add: no_applications_def stream_parser_def looksLikeTypeApplicationSuffix_def)

lemma precedence_EOF [simp]: "precedence_of EOF = 1"
  by (simp add: precedence_of_def precedences_def LOWEST_def)

text \<open>
  The grammar of operator expressions is not ambiguous: with the precedences of the parser, no
  text spells two different expressions.\<close>
theorem spelling_unambiguous:
  assumes "spells 1 m e ts" "spells 1 m' e' ts" "1 \<le> m" "1 \<le> m'"
  shows "e = e'"
proof -
  let ?p = "stream_parser ts"
  have read: "\<exists>N. \<forall>M\<ge>N. expression (parser_at M) 1 ?p = POk d (adv (length ts - 1) ?p)"
    if "spells 1 k d ts" "1 \<le> k" for k d
    using expression_reads [OF that(1) spelled_stream no_applications_stream] that(2) by simp
  obtain N N' where "\<forall>M\<ge>N. expression (parser_at M) 1 ?p = POk e (adv (length ts - 1) ?p)"
    "\<forall>M\<ge>N'. expression (parser_at M) 1 ?p = POk e' (adv (length ts - 1) ?p)"
    using read [OF assms(1,3)] read [OF assms(2,4)] by blast
  then have "POk e (adv (length ts - 1) ?p) = POk e' (adv (length ts - 1) ?p)" by (metis le_add1 le_add2)
  then show ?thesis by (rule presult.inject(1) [THEN iffD1, THEN conjunct1])
qed

section \<open>Examples\<close>

definition name_token :: "string \<Rightarrow> Token" where
  "name_token s = Token IDENT s 0"

definition op_token :: "string \<Rightarrow> Token" where
  "op_token s = Token s s 0"

definition name :: "string \<Rightarrow> expr" where
  "name s = IdentifierExpr (Identifier (name_token s) s)"

definition binary :: "expr \<Rightarrow> string \<Rightarrow> expr \<Rightarrow> expr" where
  "binary a s b = InfixExpression (op_token s) a s b"

lemma spells_name: "spells n m (name s) [name_token s]"
  by (rule Atom) (simp add: atom_def name_def name_token_def)

lemma spells_binary:
  assumes "spells n m1 a ts" "spells q m2 b us" "precedence_of s = q" "plain_operator s" "n < q" "q \<le> m1" "m \<le> q" "m \<le> m2"
  shows "spells n m (binary a s b) (ts @ op_token s # us)"
  using Infix [of n m1 a ts "op_token s" m2 b us m] assms by (simp add: binary_def op_token_def)

definition sample_tokens :: "Token list" where
  \<comment> \<open>\<open>a - b * c - d\<close>\<close>
  "sample_tokens =
     [name_token ''a'', op_token ''-'', name_token ''b'', op_token ''*'', name_token ''c'', op_token ''-'', name_token ''d'']"

definition sample_tree :: expr where
  "sample_tree = binary (binary (name ''a'') ''-'' (binary (name ''b'') ''*'' (name ''c''))) ''-'' (name ''d'')"

lemma precedence_arith: "precedence_of MINUS = 10" "precedence_of ASTERISK = 11"
  by (simp_all add: precedence_of_def precedences_def)

lemma sample_spells: "spells 1 10 sample_tree sample_tokens"
proof -
  have plain: "plain_operator MINUS" "plain_operator ASTERISK" by (simp_all add: plain_operator_def infix_operators_def)
  have "spells 10 11 (binary (name ''b'') ''*'' (name ''c'')) ([name_token ''b''] @ op_token ''*'' # [name_token ''c''])"
    using spells_binary [OF spells_name [of _ 11] spells_name [of _ 11] precedence_arith(2) plain(2)] by simp
  from spells_binary [OF spells_name [of 1 10 "''a''"] this precedence_arith(1) plain(1), of 10]
  have "spells 1 10 (binary (name ''a'') ''-'' (binary (name ''b'') ''*'' (name ''c'')))
      ([name_token ''a''] @ op_token ''-'' # [name_token ''b'', op_token ''*'', name_token ''c''])" by simp
  from spells_binary [OF this spells_name [of 10 10 "''d''"] precedence_arith(1) plain(1), of 10]
  show ?thesis by (simp add: sample_tree_def sample_tokens_def)
qed

theorem expression_roundtrip_witness:
  "\<exists>N. \<forall>M\<ge>N. expression (parser_at M) 1 (stream_parser sample_tokens) =
     POk sample_tree (adv 6 (stream_parser sample_tokens))"
  using expression_roundtrip [OF sample_spells spelled_stream no_applications_stream]
  by (simp add: sample_tokens_def eval_nat_numeral)

theorem spelling_unambiguous_witness:
  "\<not> spells 1 10 (binary (name ''a'') ''-'' (name ''d'')) sample_tokens"
  using spelling_unambiguous [OF _ sample_spells, of 10 "binary (name ''a'') ''-'' (name ''d'')"]
  by (auto simp: sample_tree_def binary_def name_def)

end
