(* ===== verification/Parser_Laws.thy ===== *)
theory Parser_Laws
  imports Pratt "HOL-Library.Sublist"
begin

text \<open>
  What holds of every method of the parser. A method that returns leaves the scope depth and the
  permission of struct values as they were, adds errors after those it found, and only moves
  forward in the tokens. More fuel does not change what a method does. The second half has runs
  on which the parser never returns or panics.
\<close>

section \<open>Frames\<close>

definition same_tokens :: "'t parser \<Rightarrow> 't parser \<Rightarrow> bool" where
  "same_tokens p q \<longleftrightarrow>
     tokenizer p = tokenizer q \<and> tk_NextToken p = tk_NextToken q \<and> curToken p = curToken q \<and>
     peekToken p = peekToken q \<and> peek2Token p = peek2Token q"

definition frame :: "'t parser \<Rightarrow> 't parser \<Rightarrow> bool" where
  "frame p q \<longleftrightarrow>
     scopeDepth q = scopeDepth p \<and> allowStructInit q = allowStructInit p \<and> p_src q = p_src p \<and>
     prefix (p_errors p) (p_errors q) \<and> (\<exists>j. same_tokens q (adv j p))"

lemma same_tokens_refl [simp]: "same_tokens p p"
  by (simp add: same_tokens_def)

lemma same_tokens_trans: "same_tokens p q \<Longrightarrow> same_tokens q r \<Longrightarrow> same_tokens p r"
  by (simp add: same_tokens_def)

lemma same_tokens_shift: "same_tokens p q \<Longrightarrow> same_tokens (shift_token p) (shift_token q)"
  by (auto simp: same_tokens_def shift_token_def split: prod.split)

lemma same_tokens_adv: "same_tokens p q \<Longrightarrow> same_tokens (adv j p) (adv j q)"
  by (induction j) (simp_all add: adv_def same_tokens_shift)

lemma frame_refl: "frame p p"
  using adv_0 [of p] by (metis frame_def prefix_order.refl same_tokens_refl)

lemma frame_trans:
  assumes "frame p q" "frame q r"
  shows "frame p r"
proof -
  obtain i j where "same_tokens q (adv i p)" "same_tokens r (adv j q)" using assms by (auto simp: frame_def)
  then have "same_tokens r (adv (j + i) p)"
    using same_tokens_adv [of q "adv i p" j] by (metis adv_adv same_tokens_trans)
  then show ?thesis using assms prefix_order.trans by (auto simp: frame_def)
qed

lemma frame_update:
  assumes "same_tokens q p" "scopeDepth q = scopeDepth p" "allowStructInit q = allowStructInit p" "p_src q = p_src p"
    "prefix (p_errors p) (p_errors q)"
  shows "frame p q"
  using assms unfolding frame_def by (metis adv_0)

section \<open>Agreement\<close>

text \<open>
  Two parses agree if the second does what the first does unless the first runs out of fuel,
  and the first keeps the frame.
\<close>

definition agrees :: "('t, 'a) parse \<Rightarrow> ('t, 'a) parse \<Rightarrow> bool" where
  "agrees m m' \<longleftrightarrow> (\<forall>p. m p = PFuel \<or> m' p = m p) \<and> (\<forall>p a q. m p = POk a q \<longrightarrow> frame p q)"

named_theorems agree

lemma agrees_ret [agree]: "agrees (retP a) (retP a)"
  by (simp add: agrees_def retP_def frame_refl)

lemma agrees_get [agree]: "agrees (getP f) (getP f)"
  by (simp add: agrees_def getP_def frame_refl)

lemma agrees_fuel [agree]: "agrees fuelP m"
  by (simp add: agrees_def fuelP_def)

lemma agrees_panic [agree]: "agrees (panicP e) (panicP e)"
  by (simp add: agrees_def panicP_def)

lemma agrees_mod: "(\<And>p. frame p (f p)) \<Longrightarrow> agrees (modP f) (modP f)"
  by (simp add: agrees_def modP_def)

lemma agrees_bind [agree]:
  assumes "agrees m m'" "\<And>a. agrees (f a) (f' a)"
  shows "agrees (bindP m f) (bindP m' f')"
  unfolding agrees_def
proof (intro conjI allI impI)
  fix p
  show "bindP m f p = PFuel \<or> bindP m' f' p = bindP m f p"
  proof (cases "m p")
    case (POk b r)
    then have "m' p = POk b r" "f b r = PFuel \<or> f' b r = f b r" using assms unfolding agrees_def by (metis presult.distinct(3), blast)
    then show ?thesis using POk by (auto simp: bindP_def)
  next
    case (PPanic e)
    then have "m' p = PPanic e" using assms(1) unfolding agrees_def by (metis presult.distinct(5))
    then show ?thesis using PPanic by (simp add: bindP_def)
  qed (simp add: bindP_def)
  fix a q
  assume "bindP m f p = POk a q"
  then obtain b r where "m p = POk b r" "f b r = POk a q" by (auto simp: bindP_def split: presult.splits)
  then show "frame p q" using assms frame_trans unfolding agrees_def by metis
qed

lemma agrees_ifP [agree]: "agrees m m' \<Longrightarrow> agrees n n' \<Longrightarrow> agrees (ifP c m n) (ifP c m' n')"
  by (simp add: agrees_def ifP_def)

lemma agrees_whenP [agree]: "agrees m m' \<Longrightarrow> agrees (whenP c m) (whenP c m')"
  by (simp add: whenP_def agrees_ifP agrees_ret)

lemma agrees_if [agree]: "agrees m m' \<Longrightarrow> agrees n n' \<Longrightarrow> agrees (if c then m else n) (if c then m' else n')"
  by simp

lemma agrees_option [agree]:
  "agrees m m' \<Longrightarrow> (\<And>a. agrees (f a) (f' a)) \<Longrightarrow>
     agrees (case x of None \<Rightarrow> m | Some a \<Rightarrow> f a) (case x of None \<Rightarrow> m' | Some a \<Rightarrow> f' a)"
  by (simp split: option.split)

lemma agrees_sum [agree]:
  "(\<And>a. agrees (f a) (f' a)) \<Longrightarrow> (\<And>a. agrees (g a) (g' a)) \<Longrightarrow>
     agrees (case x of Inl a \<Rightarrow> f a | Inr a \<Rightarrow> g a) (case x of Inl a \<Rightarrow> f' a | Inr a \<Rightarrow> g' a)"
  by (simp split: sum.split)

lemma agrees_prod [agree]:
  "(\<And>a b. agrees (f a b) (f' a b)) \<Longrightarrow> agrees (case x of (a, b) \<Rightarrow> f a b) (case x of (a, b) \<Rightarrow> f' a b)"
  by (simp split: prod.split)

lemma agrees_let [agree]: "(\<And>a. agrees (f a) (f' a)) \<Longrightarrow> agrees (Let x f) (Let x f')"
  by simp

lemma agrees_orPanic [agree]: "agrees (orPanic e x) (orPanic e x)"
  by (simp add: orPanic_def agree split: option.split)

lemma frame_addError: "frame p (addError pos m p)"
  by (rule frame_update) (simp_all add: addError_def same_tokens_def Let_def split: prod.split)

lemma agrees_error [agree]:
  "agrees (modP (\<lambda>p. addError (f p) (g p) p)) (modP (\<lambda>p. addError (f p) (g p) p))"
  by (rule agrees_mod) (rule frame_addError)

lemma agrees_errors [agree]:
  "agrees (addErrorAt pos m) (addErrorAt pos m)" "agrees (errorHere m) (errorHere m)"
  "agrees (noPrefixParseFnError t) (noPrefixParseFnError t)" "agrees (peekError t) (peekError t)"
  "agrees (errorCurLiteral m) (errorCurLiteral m)" "agrees (errorCurType m) (errorCurType m)"
  by (simp_all add: addErrorAt_def errorHere_def noPrefixParseFnError_def peekError_def errorCurLiteral_def
      errorCurType_def agrees_error)

lemma frame_shift: "frame p (shift_token p)"
proof -
  have "same_tokens (shift_token p) (adv 1 p)" by (simp add: shift_adv)
  moreover have "scopeDepth (shift_token p) = scopeDepth p" "p_errors (shift_token p) = p_errors p"
    by (simp_all add: shift_token_def split: prod.split)
  ultimately show ?thesis unfolding frame_def by (metis prefix_order.refl shift_fields)
qed

lemma agrees_nextToken [agree]: "agrees nextToken nextToken"
  unfolding nextToken_def
proof (rule agrees_mod)
  fix p :: "'t parser"
  have "frame (shift_token p) (report_illegal (shift_token p))"
    by (simp add: report_illegal_def Let_def frame_addError frame_refl)
  then show "frame p (report_illegal (shift_token p))" using frame_shift frame_trans by blast
qed

lemma agrees_expectPeek [agree]: "agrees (expectPeek t) (expectPeek t)"
  unfolding expectPeek_def by (intro agree)

lemma agrees_expecting [agree]: "agrees m m' \<Longrightarrow> agrees (expecting t a m) (expecting t a m')"
  unfolding expecting_def by (intro agree)

text \<open>Fields that are set for a while and then set back.\<close>

lemma agrees_within:
  assumes m: "agrees m m'" and f: "\<And>x. agrees (f x) (f' x)"
    and set: "\<And>p q. frame (s p) q \<Longrightarrow> frame p (r (g p) q)"
  shows "agrees (bindP (getP g) (\<lambda>prev. thenP (modP s) (bindP m (\<lambda>x. thenP (modP (r prev)) (f x)))))
    (bindP (getP g) (\<lambda>prev. thenP (modP s) (bindP m' (\<lambda>x. thenP (modP (r prev)) (f' x)))))"
  unfolding agrees_def
proof (intro conjI allI impI)
  fix p
  let ?l = "\<lambda>m f. bindP (getP g) (\<lambda>prev. thenP (modP s) (bindP m (\<lambda>x. thenP (modP (r prev)) (f x))))"
  have fuel: "m (s p) = PFuel \<or> m' (s p) = m (s p)" using m unfolding agrees_def by blast
  show "?l m f p = PFuel \<or> ?l m' f' p = ?l m f p"
  proof (cases "m (s p)")
    case (POk x q)
    then have "m' (s p) = POk x q" using fuel by simp
    then show ?thesis using POk f unfolding agrees_def by (simp add: bind_ok)
  qed (use fuel in \<open>auto simp: bindP_def getP_def modP_def\<close>)
  fix a q
  assume "?l m f p = POk a q"
  then obtain x t where x: "m (s p) = POk x t" "f x (r (g p) t) = POk a q"
    by (auto simp: bindP_def getP_def modP_def split: presult.splits)
  then have "frame (s p) t" using m unfolding agrees_def by blast
  then have "frame p (r (g p) t)" by (rule set)
  moreover have "frame (r (g p) t) q" using f x(2) unfolding agrees_def by blast
  ultimately show "frame p q" by (rule frame_trans)
qed

lemma same_tokens_struct [simp]:
  "same_tokens (p\<lparr>allowStructInit := b\<rparr>) q = same_tokens p q" "same_tokens p (q\<lparr>allowStructInit := b\<rparr>) = same_tokens p q"
  "same_tokens (p\<lparr>scopeDepth := d\<rparr>) q = same_tokens p q" "same_tokens p (q\<lparr>scopeDepth := d\<rparr>) = same_tokens p q"
  by (simp_all add: same_tokens_def)

lemma shift_scope: "shift_token (p\<lparr>scopeDepth := d\<rparr>) = (shift_token p)\<lparr>scopeDepth := d\<rparr>"
  by (simp add: shift_token_def split: prod.split)

lemma adv_scope: "adv k (p\<lparr>scopeDepth := d\<rparr>) = (adv k p)\<lparr>scopeDepth := d\<rparr>"
  by (induction k) (simp_all add: adv_def shift_scope)

lemma agrees_struct [agree]:
  assumes "agrees m m'" "\<And>x. agrees (f x) (f' x)"
  shows "agrees (bindP (getP allowStructInit) (\<lambda>prev. thenP (modP (\<lambda>p. p\<lparr>allowStructInit := b\<rparr>))
      (bindP m (\<lambda>x. thenP (modP (\<lambda>p. p\<lparr>allowStructInit := prev\<rparr>)) (f x)))))
    (bindP (getP allowStructInit) (\<lambda>prev. thenP (modP (\<lambda>p. p\<lparr>allowStructInit := b\<rparr>))
      (bindP m' (\<lambda>x. thenP (modP (\<lambda>p. p\<lparr>allowStructInit := prev\<rparr>)) (f' x)))))"
  using assms
  by (rule agrees_within [where r = "\<lambda>prev p. p\<lparr>allowStructInit := prev\<rparr>"]) (auto simp: frame_def adv_struct)

lemma agrees_scope [agree]:
  assumes "agrees m m'" "\<And>x. agrees (f x) (f' x)"
  shows "agrees (thenP (modP (\<lambda>p. p\<lparr>scopeDepth := scopeDepth p + 1\<rparr>))
      (bindP m (\<lambda>x. thenP (modP (\<lambda>p. p\<lparr>scopeDepth := scopeDepth p - 1\<rparr>)) (f x))))
    (thenP (modP (\<lambda>p. p\<lparr>scopeDepth := scopeDepth p + 1\<rparr>))
      (bindP m' (\<lambda>x. thenP (modP (\<lambda>p. p\<lparr>scopeDepth := scopeDepth p - 1\<rparr>)) (f' x))))"
proof -
  have get: "bindP (getP (\<lambda>_. ())) (\<lambda>_. n) = n" for n :: "('x, 'y) parse"
    by (simp add: fun_eq_iff)
  show ?thesis
    using agrees_within [OF assms, of "\<lambda>p. p\<lparr>scopeDepth := scopeDepth p + 1\<rparr>"
        "\<lambda>_ p. p\<lparr>scopeDepth := scopeDepth p - 1\<rparr>" "\<lambda>_. ()"]
    by (auto simp: get frame_def adv_scope)
qed

lemma agrees_skip_while [agree]: "k \<le> k' \<Longrightarrow> agrees (skip_while k c) (skip_while k' c)"
proof (induction k arbitrary: k')
  case (Suc k)
  then obtain j where "k' = Suc j" "k \<le> j" by (cases k') auto
  then show ?case using Suc.IH by (auto intro!: agree)
qed (simp add: agree)

lemma agrees_skips [agree]:
  "k \<le> k' \<Longrightarrow> agrees (skipStatementSeparators k) (skipStatementSeparators k')"
  "k \<le> k' \<Longrightarrow> agrees (skipCaseSeparators k) (skipCaseSeparators k')"
  "k \<le> k' \<Longrightarrow> agrees (skipLeadingNewlines k) (skipLeadingNewlines k')"
  "k \<le> k' \<Longrightarrow> agrees (skipPeekNewlines k) (skipPeekNewlines k')"
  by (simp_all add: skipStatementSeparators_def skipCaseSeparators_def skipLeadingNewlines_def skipPeekNewlines_def
      agrees_skip_while)


section \<open>The methods of the parser\<close>

definition callees_agree :: "'t callees \<Rightarrow> 't callees \<Rightarrow> bool" where
  "callees_agree R R' \<longleftrightarrow>
     (\<forall>n. agrees (expression R n) (expression R' n)) \<and> agrees (statement R) (statement R') \<and>
     agrees (match_pattern R) (match_pattern R')"

lemma agrees_callees [agree]:
  "callees_agree R R' \<Longrightarrow> agrees (expression R n) (expression R' n)"
  "callees_agree R R' \<Longrightarrow> agrees (statement R) (statement R')"
  "callees_agree R R' \<Longrightarrow> agrees (match_pattern R) (match_pattern R')"
  by (simp_all add: callees_agree_def)

lemma Suc_le_cases: "Suc k \<le> k' \<Longrightarrow> (\<And>j. k' = Suc j \<Longrightarrow> k \<le> j \<Longrightarrow> P) \<Longrightarrow> P"
  by (cases k') auto

lemma agrees_literals [agree]:
  "agrees parseSymbolLiteral parseSymbolLiteral" "agrees parseSymbolLiteralFromColon parseSymbolLiteralFromColon"
  "agrees parseNumberLiteral parseNumberLiteral" "agrees parseStringLiteral parseStringLiteral"
  "agrees parseBytesLiteral parseBytesLiteral" "agrees parseNil parseNil" "agrees parseBoolean parseBoolean"
  unfolding parseSymbolLiteral_def parseSymbolLiteralFromColon_def parseNumberLiteral_def parseStringLiteral_def
    parseBytesLiteral_def parseNil_def parseBoolean_def Let_def
  by (intro agree)+

lemma agrees_annotation_loop [agree]: "k \<le> k' \<Longrightarrow> agrees (annotation_loop k stops d s) (annotation_loop k' stops d s)"
proof (induction k arbitrary: k' d s)
  case (Suc k)
  from Suc.prems show ?case by (rule Suc_le_cases) (auto simp: Let_def intro!: agree Suc.IH)
qed (simp add: agree)

lemma agrees_annotation [agree]:
  "k \<le> k' \<Longrightarrow> agrees (parseTypeAnnotationLiteral k stops) (parseTypeAnnotationLiteral k' stops)"
  unfolding parseTypeAnnotationLiteral_def by (intro agree; assumption)

lemma agrees_type_arguments [agree]: "k \<le> k' \<Longrightarrow> agrees (type_arguments k args) (type_arguments k' args)"
proof (induction k arbitrary: k' args)
  case (Suc k)
  from Suc.prems show ?case by (rule Suc_le_cases) (auto intro!: agree Suc.IH)
qed (simp add: agree)

lemma agrees_type_application [agree]:
  "k \<le> k' \<Longrightarrow> agrees (parseTypeApplicationExpression k f) (parseTypeApplicationExpression k' f)"
  unfolding parseTypeApplicationExpression_def by (intro agree; assumption)

lemma agrees_operators [agree]:
  assumes "callees_agree R R'"
  shows "agrees (parseAssignmentExpression R i) (parseAssignmentExpression R' i)"
    "agrees (parsePrefixExpression R) (parsePrefixExpression R')"
    "agrees (parseInfixExpression R e) (parseInfixExpression R' e)"
    "agrees (parseInterpolationExpression R e) (parseInterpolationExpression R' e)"
    "agrees (parseSpread R) (parseSpread R')"
  unfolding parseAssignmentExpression_def parsePrefixExpression_def parseInfixExpression_def
    parseInterpolationExpression_def parseSpread_def Let_def
  by (intro agree assms)+

lemma agrees_grouped [agree]:
  assumes "callees_agree R R'"
  shows "agrees (parseGroupedExpression R) (parseGroupedExpression R')"
  unfolding parseGroupedExpression_def
  by (rule agrees_bind [OF agrees_nextToken], rule agrees_struct) (intro agree assms)+

lemma agrees_identifier [agree]:
  "callees_agree R R' \<Longrightarrow> k \<le> k' \<Longrightarrow> agrees (parseIdentifier R k) (parseIdentifier R' k')"
  unfolding parseIdentifier_def by (intro agree; assumption)

lemma agrees_items [agree]:
  assumes "callees_agree R R'"
  shows "agrees (parseListItem R) (parseListItem R')" "agrees (parseCallArgument R) (parseCallArgument R')"
  unfolding parseListItem_def parseCallArgument_def by (intro agree assms)+

lemma agrees_comma_loop [agree]:
  "agrees item item' \<Longrightarrow> k \<le> k' \<Longrightarrow> agrees (comma_loop k t item xs) (comma_loop k' t item' xs)"
proof (induction k arbitrary: k' xs)
  case (Suc k)
  from Suc.prems(2) show ?case by (rule Suc_le_cases) (auto intro!: agree Suc.IH Suc.prems(1))
qed (simp add: agree)

lemma agrees_lists [agree]:
  assumes "callees_agree R R'" "k \<le> k'"
  shows "agrees (parseCallArguments R k t) (parseCallArguments R' k' t)"
    "agrees (parseExpressionList R k t) (parseExpressionList R' k' t)"
  unfolding parseCallArguments_def parseExpressionList_def comma_list_def by (intro agree assms)+

lemma agrees_list_uses [agree]:
  assumes "callees_agree R R'" "k \<le> k'"
  shows "agrees (parseListLiteral R k) (parseListLiteral R' k')"
    "agrees (parseCallExpression R k f) (parseCallExpression R' k' f)"
    "agrees (parseRecurExpression R k) (parseRecurExpression R' k')"
    "agrees (parseTag R k) (parseTag R' k')"
  unfolding parseListLiteral_def parseCallExpression_def parseRecurExpression_def parseTag_def by (intro agree assms)+

lemma agrees_generic_loop [agree]: "k \<le> k' \<Longrightarrow> agrees (generic_parameters k ps) (generic_parameters k' ps)"
proof (induction k arbitrary: k' ps)
  case (Suc k)
  from Suc.prems show ?case by (rule Suc_le_cases) (auto intro!: agree Suc.IH)
qed (simp add: agree)

lemma agrees_generic [agree]:
  assumes "k \<le> k'"
  shows "agrees (parseGenericTypeParameters k) (parseGenericTypeParameters k')"
    "agrees (generic_parameters_of k) (generic_parameters_of k')"
  unfolding parseGenericTypeParameters_def generic_parameters_of_def by (intro agree assms)+

lemma agrees_parameter_tags [agree]:
  "callees_agree R R' \<Longrightarrow> k \<le> k' \<Longrightarrow> agrees (parameter_tags R k tags) (parameter_tags R' k' tags)"
proof (induction k arbitrary: k' tags)
  case (Suc k)
  from Suc.prems(2) show ?case by (rule Suc_le_cases) (auto intro!: agree Suc.IH Suc.prems(1))
qed (simp add: agree)

lemma agrees_parameter_parts [agree]:
  "k \<le> k' \<Longrightarrow> agrees (parameter_type k tags) (parameter_type k' tags)"
  "callees_agree R R' \<Longrightarrow> agrees (parameter_default R) (parameter_default R')"
  unfolding parameter_type_def parameter_default_def by (intro agree; assumption)+

lemma agrees_parameter_loop [agree]:
  "callees_agree R R' \<Longrightarrow> k \<le> k' \<Longrightarrow> agrees (parameter_loop R k ps) (parameter_loop R' k' ps)"
proof (induction k arbitrary: k' ps)
  case (Suc k)
  from Suc.prems(2) show ?case
    by (rule Suc_le_cases) (auto simp: Let_def intro!: agree Suc.IH Suc.prems(1))
qed (simp add: agree)

lemma agrees_parameters [agree]:
  "callees_agree R R' \<Longrightarrow> k \<le> k' \<Longrightarrow> agrees (parseFunctionParameters R k) (parseFunctionParameters R' k')"
  unfolding parseFunctionParameters_def by (intro agree; assumption)

lemma agrees_block_loop [agree]:
  "callees_agree R R' \<Longrightarrow> k \<le> k' \<Longrightarrow> agrees (block_loop R k ss) (block_loop R' k' ss)"
proof (induction k arbitrary: k' ss)
  case (Suc k)
  from Suc.prems(2) show ?case by (rule Suc_le_cases) (auto intro!: agree Suc.IH Suc.prems(1))
qed (simp add: agree)

lemma agrees_block [agree]:
  assumes "callees_agree R R'" "k \<le> k'"
  shows "agrees (parseBlockStatement R k) (parseBlockStatement R' k')"
  unfolding parseBlockStatement_def
  by (rule agrees_bind [OF agrees_get], rule agrees_bind [OF agrees_nextToken],
      rule agrees_bind [OF agrees_skips(1) [OF assms(2)]], rule agrees_scope) (intro agree assms)+

lemma agrees_key [agree]: "callees_agree R R' \<Longrightarrow> agrees (parse_key R) (parse_key R')"
  unfolding parse_key_def by (intro agree; assumption)

lemma agrees_map_loop [agree]:
  "callees_agree R R' \<Longrightarrow> k \<le> k' \<Longrightarrow> agrees (map_loop R k t ps) (map_loop R' k' t ps)"
proof (induction k arbitrary: k' ps)
  case (Suc k)
  from Suc.prems(2) show ?case by (rule Suc_le_cases) (auto simp: Let_def intro!: agree Suc.IH Suc.prems(1))
qed (simp add: agree)

lemma agrees_maps [agree]:
  assumes "callees_agree R R'" "k \<le> k'"
  shows "agrees (parseMapLiteral R k) (parseMapLiteral R' k')" "agrees (parseBraceExpression R k) (parseBraceExpression R' k')"
proof -
  show "agrees (parseMapLiteral R k) (parseMapLiteral R' k')"
    unfolding parseMapLiteral_def by (intro agree assms)
  then show "agrees (parseBraceExpression R k) (parseBraceExpression R' k')"
    unfolding parseBraceExpression_def by (intro agree assms)
qed


lemma agrees_alt [agree]: "callees_agree R R' \<Longrightarrow> agrees (parseAlt R) (parseAlt R')"
  unfolding parseAlt_def by (intro agree; assumption)

lemma agrees_list_case [agree]:
  "(\<And>x. agrees (f x) (f x)) \<Longrightarrow> agrees m m \<Longrightarrow>
     agrees (case xs of [x] \<Rightarrow> f x | _ \<Rightarrow> m) (case xs of [x] \<Rightarrow> f x | _ \<Rightarrow> m)"
  by (simp split: list.split)

lemma agrees_multi_loop [agree]:
  "callees_agree R R' \<Longrightarrow> k \<le> k' \<Longrightarrow> agrees (multi_loop R k t ps) (multi_loop R' k' t ps)"
proof (induction k arbitrary: k' ps)
  case (Suc k)
  from Suc.prems(2) show ?case
    by (rule Suc_le_cases) (simp only: multi_loop.simps, intro agree Suc.IH Suc.prems(1), assumption)
qed (simp add: agree)

lemma agrees_list_pattern_loop [agree]:
  "callees_agree R R' \<Longrightarrow> k \<le> k' \<Longrightarrow> agrees (list_pattern_loop R k t els) (list_pattern_loop R' k' t els)"
proof (induction k arbitrary: k' els)
  case (Suc k)
  from Suc.prems(2) show ?case by (rule Suc_le_cases) (auto intro!: agree Suc.IH Suc.prems(1))
qed (simp add: agree)

lemma agrees_map_pattern_entry [agree]: "callees_agree R R' \<Longrightarrow> agrees (map_pattern_entry R key) (map_pattern_entry R' key)"
  unfolding map_pattern_entry_def by (intro agree; assumption)

lemma agrees_map_pattern_loop [agree]:
  "callees_agree R R' \<Longrightarrow> k \<le> k' \<Longrightarrow>
     agrees (map_pattern_loop R k t exact es spread) (map_pattern_loop R' k' t exact es spread)"
proof (induction k arbitrary: k' exact es spread)
  case (Suc k)
  from Suc.prems(2) show ?case by (rule Suc_le_cases) (auto intro!: agree Suc.IH Suc.prems(1))
qed (simp add: agree)

lemma agrees_field_pattern [agree]: "callees_agree R R' \<Longrightarrow> agrees (field_pattern R s) (field_pattern R' s)"
  unfolding field_pattern_def by (intro agree; assumption)

lemma agrees_struct_pattern_loop [agree]:
  "callees_agree R R' \<Longrightarrow> k \<le> k' \<Longrightarrow> agrees (struct_pattern_loop R k schema fs) (struct_pattern_loop R' k' schema fs)"
proof (induction k arbitrary: k' fs)
  case (Suc k)
  from Suc.prems(2) show ?case by (rule Suc_le_cases) (auto simp: Let_def intro!: agree Suc.IH Suc.prems(1))
qed (simp add: agree)

lemma agrees_patterns [agree]:
  assumes "callees_agree R R'" "k \<le> k'"
  shows "agrees (parseMultiPattern R k) (parseMultiPattern R' k')" "agrees (parseListPattern R k) (parseListPattern R' k')"
    "agrees (parseMapPattern R k) (parseMapPattern R' k')" "agrees (parseStructPattern R k schema) (parseStructPattern R' k' schema)"
    "agrees (literal_pattern R) (literal_pattern R')" "agrees unexpectedPattern unexpectedPattern"
  unfolding parseMultiPattern_def parseListPattern_def parseMapPattern_def parseStructPattern_def literal_pattern_def
    unexpectedPattern_def
  by (intro agree assms)+

lemma agrees_match_pattern [agree]:
  "callees_agree R R' \<Longrightarrow> k \<le> k' \<Longrightarrow> agrees (parseMatchPattern R k) (parseMatchPattern R' k')"
  unfolding parseMatchPattern_def Let_def by (intro agree; assumption)

lemma frame_clear: "frame p (p\<lparr>pendingTags := []\<rparr>)" "frame p (clearPendingDoc p)"
  by (rule frame_update; simp add: same_tokens_def clearPendingDoc_def)+

lemma agrees_take_tags [agree]: "agrees takeTags takeTags"
  by (simp add: agrees_def takeTags_def frame_clear)

lemma agrees_take_doc [agree]: "agrees takeDoc takeDoc"
  by (auto simp: agrees_def takeDoc_def frame_refl frame_clear)

lemma agrees_declarations [agree]:
  assumes "callees_agree R R'" "k \<le> k'"
  shows "agrees (parseVarStatement R k) (parseVarStatement R' k')" "agrees (parseValStatement R k) (parseValStatement R' k')"
  unfolding parseVarStatement_def parseValStatement_def parse_declaration_def Let_def by (intro agree assms)+

lemma agrees_case_parts [agree]:
  assumes "callees_agree R R'" "k \<le> k'"
  shows "agrees (case_body R k t) (case_body R' k' t)" "agrees (case_pattern R k) (case_pattern R' k')"
    "agrees (case_guard R) (case_guard R')"
  unfolding case_body_def case_pattern_def case_guard_def by (intro agree assms)+

lemma agrees_match_case [agree]:
  "callees_agree R R' \<Longrightarrow> k \<le> k' \<Longrightarrow> agrees (parseMatchCase R k) (parseMatchCase R' k')"
  unfolding parseMatchCase_def by (intro agree; assumption)

lemma agrees_cases_loop [agree]:
  "agrees c c' \<Longrightarrow> k \<le> k' \<Longrightarrow> agrees (cases_loop k c cs) (cases_loop k' c' cs)"
proof (induction k arbitrary: k' cs)
  case (Suc k)
  from Suc.prems(2) show ?case by (rule Suc_le_cases) (auto intro!: agree Suc.IH Suc.prems(1))
qed (simp add: agree)

lemma agrees_match_value:
  assumes "callees_agree R R'"
  shows "agrees (bindP (getP allowStructInit) (\<lambda>prev. thenP (modP (\<lambda>p. p\<lparr>allowStructInit := False\<rparr>))
      (bindP (expression R n) (\<lambda>v. thenP (modP (\<lambda>p. p\<lparr>allowStructInit := prev\<rparr>)) (retP v)))))
    (bindP (getP allowStructInit) (\<lambda>prev. thenP (modP (\<lambda>p. p\<lparr>allowStructInit := False\<rparr>))
      (bindP (expression R' n) (\<lambda>v. thenP (modP (\<lambda>p. p\<lparr>allowStructInit := prev\<rparr>)) (retP v)))))"
  by (rule agrees_struct) (intro agree assms)+

lemma agrees_match [agree]:
  assumes "callees_agree R R'" "k \<le> k'"
  shows "agrees (parseMatchExpression R k) (parseMatchExpression R' k')"
  unfolding parseMatchExpression_def
  by (rule agrees_bind [OF agrees_get], rule agrees_bind, rule agrees_ifP, rule agrees_bind [OF agrees_nextToken],
      rule agrees_match_value [OF assms(1)]) (intro agree assms)+

lemma agrees_required [agree]: "agrees m m' \<Longrightarrow> agrees (required e m) (required e m')"
  unfolding required_def by (intro agree)

lemma agrees_select [agree]:
  assumes "callees_agree R R'" "k \<le> k'"
  shows "agrees (select_head R t) (select_head R' t)" "agrees (parseSelectCase R k) (parseSelectCase R' k')"
    "agrees (parseSelectExpression R k) (parseSelectExpression R' k')"
proof -
  show 1: "agrees (select_head R t) (select_head R' t)" for t
    unfolding select_head_def Let_def by (intro agree assms)
  show 2: "agrees (parseSelectCase R k) (parseSelectCase R' k')"
    unfolding parseSelectCase_def by (intro agree assms 1)
  show "agrees (parseSelectExpression R k) (parseSelectExpression R' k')"
    unfolding parseSelectExpression_def by (intro agree assms 2)
qed

lemma agrees_if_expression [agree]:
  "callees_agree R R' \<Longrightarrow> k \<le> k' \<Longrightarrow> agrees (parseIfExpression R k) (parseIfExpression R' k')"
proof (induction k arbitrary: k')
  case (Suc k)
  from Suc.prems(2) show ?case
    by (rule Suc_le_cases) (simp only: parseIfExpression.simps, intro agree Suc.IH Suc.prems(1))
qed (simp add: agree)

lemma agrees_function [agree]:
  "callees_agree R R' \<Longrightarrow> k \<le> k' \<Longrightarrow> agrees (parseFunctionLiteral R k) (parseFunctionLiteral R' k')"
  unfolding parseFunctionLiteral_def Let_def by (intro agree; assumption)

lemma agrees_spawn [agree]:
  "callees_agree R R' \<Longrightarrow> k \<le> k' \<Longrightarrow> agrees (parseSpawnExpression R k) (parseSpawnExpression R' k')"
  unfolding parseSpawnExpression_def by (intro agree; assumption)

lemma agrees_expr_case [agree]:
  "(\<And>a b c d e f g. agrees (F a b c d e f g) (F a b c d e f g)) \<Longrightarrow> (\<And>b. agrees (B b) (B b)) \<Longrightarrow> agrees m m \<Longrightarrow>
     agrees (case e of FunctionLiteral a b c d e f g \<Rightarrow> F a b c d e f g | BlockExpr b \<Rightarrow> B b | _ \<Rightarrow> m)
       (case e of FunctionLiteral a b c d e f g \<Rightarrow> F a b c d e f g | BlockExpr b \<Rightarrow> B b | _ \<Rightarrow> m)"
  by (simp split: expr.split)

lemma agrees_nursery [agree]:
  "callees_agree R R' \<Longrightarrow> agrees (parseNurseryExpression R) (parseNurseryExpression R')"
  unfolding parseNurseryExpression_def by (intro agree; assumption)

lemma agrees_call_chain [agree]:
  assumes "callees_agree R R'"
  shows "agrees (parseCallChainExpression R e) (parseCallChainExpression R' e)"
  unfolding parseCallChainExpression_def
  by (intro agrees_bind agrees_get agrees_nextToken agrees_callees assms) (auto intro!: agree split: expr.split)

lemma agrees_dot [agree]:
  "agrees (parseDotIdentifierToIndexExpression e) (parseDotIdentifierToIndexExpression e)"
  unfolding parseDotIdentifierToIndexExpression_def by (intro agree)

lemma agrees_index_parts [agree]:
  "callees_agree R R' \<Longrightarrow> agrees (index_parts R n parts sl) (index_parts R' n parts sl)"
  by (induction n arbitrary: parts sl) (auto simp: Let_def intro!: agree)

lemma agrees_index [agree]:
  "callees_agree R R' \<Longrightarrow> agrees (parseIndexExpression R e) (parseIndexExpression R' e)"
  unfolding parseIndexExpression_def parseIndexExpressionList_def by (intro agree; assumption)

lemma agrees_fields_loop [agree]:
  "agrees m m' \<Longrightarrow> k \<le> k' \<Longrightarrow> agrees (fields_loop k m fs) (fields_loop k' m' fs)"
proof (induction k arbitrary: k' fs)
  case (Suc k)
  from Suc.prems(2) show ?case by (rule Suc_le_cases) (auto intro!: agree Suc.IH Suc.prems(1))
qed (simp add: agree)

lemma agrees_structs [agree]:
  assumes "callees_agree R R'" "k \<le> k'"
  shows "agrees (parseStructSchemaExpression R k) (parseStructSchemaExpression R' k')"
    "agrees (parseStructInitExpression R k e) (parseStructInitExpression R' k' e)"
  unfolding parseStructSchemaExpression_def parseStructSchemaField_def parseStructInitExpression_def
    parseStructInitFields_def struct_init_field_def
  by (intro agree assms)+

lemma agrees_struct_copy [agree]:
  "callees_agree R R' \<Longrightarrow> agrees (parseStructCopyExpression R e) (parseStructCopyExpression R' e)"
  unfolding parseStructCopyExpression_def by (intro agree; assumption)

lemma agrees_simple_statements [agree]:
  assumes "callees_agree R R'" "k \<le> k'"
  shows "agrees (parseReturnStatement R k) (parseReturnStatement R' k')" "agrees (parseThrowStatement R k) (parseThrowStatement R' k')"
    "agrees (parseForeignFunctionDeclaration R k) (parseForeignFunctionDeclaration R' k')"
  unfolding parseReturnStatement_def parseThrowStatement_def parseForeignFunctionDeclaration_def
  by (intro agree assms)+

lemma agrees_not_implemented [agree]: "agrees parseNotImplemented parseNotImplemented"
  unfolding parseNotImplemented_def by (intro agree)

lemma agrees_expression_statement [agree]:
  "callees_agree R R' \<Longrightarrow> agrees (parseExpressionStatement R) (parseExpressionStatement R')"
  unfolding parseExpressionStatement_def by (intro agree; assumption)

lemma agrees_defer [agree]:
  assumes "callees_agree R R'" "k \<le> k'"
  shows "agrees (parseDeferStatement R k) (parseDeferStatement R' k')"
  unfolding parseDeferStatement_def defer_head_def by (intro agree assms)

lemma agrees_notes [agree]:
  "agrees (noteStatement s) (noteStatement s)" "agrees (modP handleDocComment) (modP handleDocComment)"
  "agrees (push_tag tag) (push_tag tag)"
  unfolding noteStatement_def push_tag_def
  by (intro agrees_mod frame_update; simp add: same_tokens_def clearPendingDoc_def handleDocComment_def addError_def Let_def
      split: prod.split)+

lemma agrees_noted [agree]: "agrees m m' \<Longrightarrow> agrees (noted m) (noted m')"
  unfolding noted_def by (intro agree)

lemma agrees_statement [agree]:
  "callees_agree R R' \<Longrightarrow> k \<le> k' \<Longrightarrow> agrees (parseStatement R k) (parseStatement R' k')"
  unfolding parseStatement_def by (intro agree; assumption)


section \<open>The parser\<close>

lemma map_of_related:
  "list_all2 (\<lambda>x y. fst x = fst y \<and> P (snd x) (snd y)) xs ys \<Longrightarrow> rel_option P (map_of xs t) (map_of ys t)"
  by (induction rule: list_all2_induct) auto

lemma prefix_agrees:
  assumes "callees_agree R R'" "k \<le> k'"
  shows "rel_option agrees (prefixParseFn R k t) (prefixParseFn R' k' t)"
  unfolding prefixParseFn_def
  by (rule map_of_related) (simp only: list_all2_Cons list_all2_Nil fst_conv snd_conv simp_thms, intro conjI agree assms)

lemma infix_agrees:
  assumes "callees_agree R R'" "k \<le> k'"
  shows "rel_option (\<lambda>f g. \<forall>e. agrees (f e) (g e)) (infixParseFn R k t) (infixParseFn R' k' t)"
proof -
  have "\<forall>e. agrees (parseInfixExpression R e) (parseInfixExpression R' e)" by (intro allI agree assms)
  moreover have "rel_option (\<lambda>f g. \<forall>e. agrees (f e) (g e)) (map_of xs t) (map_of ys t)"
    if "xs = [(CALL_CHAIN, parseCallChainExpression R), (COPY, parseStructCopyExpression R),
          (PERIOD, parseDotIdentifierToIndexExpression), (LPAREN, parseCallExpression R k),
          (LBRACKET, parseIndexExpression R), (LBRACE, parseStructInitExpression R k),
          (INTERPOLATION_START, parseInterpolationExpression R)]"
      "ys = [(CALL_CHAIN, parseCallChainExpression R'), (COPY, parseStructCopyExpression R'),
          (PERIOD, parseDotIdentifierToIndexExpression), (LPAREN, parseCallExpression R' k'),
          (LBRACKET, parseIndexExpression R'), (LBRACE, parseStructInitExpression R' k'),
          (INTERPOLATION_START, parseInterpolationExpression R')]" for xs ys
    by (rule map_of_related) (simp only: that list_all2_Cons list_all2_Nil fst_conv snd_conv simp_thms,
        intro conjI allI agree assms)
  ultimately show ?thesis by (simp add: infixParseFn_def)
qed

lemma agrees_case_prefix:
  assumes "rel_option agrees x y" "agrees m m'" "\<And>f f'. agrees f f' \<Longrightarrow> agrees (g f) (g' f')"
  shows "agrees (case x of None \<Rightarrow> m | Some f \<Rightarrow> g f) (case y of None \<Rightarrow> m' | Some f \<Rightarrow> g' f)"
  using assms by (cases x; cases y) auto

lemma agrees_case_infix:
  assumes "rel_option (\<lambda>f g. \<forall>e. agrees (f e) (g e)) x y" "agrees m m'"
    "\<And>f f'. (\<And>e. agrees (f e) (f' e)) \<Longrightarrow> agrees (g f) (g' f')"
  shows "agrees (case x of None \<Rightarrow> m | Some f \<Rightarrow> g f) (case y of None \<Rightarrow> m' | Some f \<Rightarrow> g' f)"
  using assms by (cases x; cases y) auto

lemma agrees_infix_loop [agree]:
  "callees_agree R R' \<Longrightarrow> k \<le> k' \<Longrightarrow> agrees (infix_loop R k prec e) (infix_loop R' k' prec e)"
proof (induction k arbitrary: k' e)
  case (Suc k)
  show ?case
  proof (rule Suc_le_cases [OF Suc.prems(2)])
    fix j assume j: "k' = Suc j" "k \<le> j"
    show ?thesis unfolding j(1) infix_loop.simps
      by (intro agree agrees_case_infix [OF infix_agrees] Suc.IH Suc.prems(1) j(2)) assumption?
  qed
qed (simp add: agree)

lemma agrees_expression [agree]:
  assumes "callees_agree R R'" "k \<le> k'"
  shows "agrees (parseExpression R k prec) (parseExpression R' k' prec)"
  unfolding parseExpression_def
  by (intro agrees_bind agrees_skips agrees_get agrees_case_prefix [OF prefix_agrees] agrees_errors agrees_ret
      agrees_infix_loop assms) assumption?

lemma match_pattern_Suc: "match_pattern (parser_at (Suc n)) = parseMatchPattern (parser_at n) n"
  by (simp add: Let_def)

lemma statement_Suc: "statement (parser_at (Suc n)) = parseStatement (parser_at n) n"
  by (simp add: Let_def)

lemma expression_Suc: "expression (parser_at (Suc n)) = parseExpression (parser_at n) n"
  by (simp add: Let_def)

lemma parser_0: "match_pattern (parser_at 0) = fuelP" "statement (parser_at 0) = fuelP" "expression (parser_at 0) prec = fuelP"
  by simp_all

lemmas parser_unfold = match_pattern_Suc statement_Suc expression_Suc parser_0

declare parser_at.simps [simp del]

lemma parser_agrees: "n \<le> n' \<Longrightarrow> callees_agree (parser_at n :: 't callees) (parser_at n')"
proof (induction n arbitrary: n')
  case (Suc n)
  from Suc.prems show ?case
  proof (rule Suc_le_cases)
    fix j assume j: "n' = Suc j" "n \<le> j"
    have R: "callees_agree (parser_at n :: 't callees) (parser_at j)" by (rule Suc.IH [OF j(2)])
    show ?thesis unfolding j(1) callees_agree_def parser_unfold
      by (intro conjI allI agree R j(2))
  qed
qed (simp add: callees_agree_def parser_unfold agrees_fuel)

lemma agrees_program_loop: "k \<le> k' \<Longrightarrow> agrees (program_loop k ss) (program_loop k' ss)"
proof (induction k arbitrary: k' ss)
  case (Suc k)
  from Suc.prems show ?case
  proof (rule Suc_le_cases)
    fix j assume j: "k' = Suc j" "k \<le> j"
    show ?thesis unfolding j(1) program_loop.simps
      by (intro agree Suc.IH parser_agrees j(2))
  qed
qed (simp add: agree)

lemma agrees_ParseProgram: "n \<le> n' \<Longrightarrow> agrees (ParseProgram n) (ParseProgram n')"
  unfolding ParseProgram_def by (intro agree agrees_program_loop)


lemma agreement_fuel: "agrees m m' \<Longrightarrow> m p \<noteq> PFuel \<Longrightarrow> m' p = m p"
  by (auto simp: agrees_def)

lemma agreement_frame: "agrees m m' \<Longrightarrow> m p = POk a q \<Longrightarrow> frame p q"
  by (simp add: agrees_def)

lemma methods_frame:
  "expression (parser_at n) prec p = POk e q \<Longrightarrow> frame p q"
  "statement (parser_at n) p = POk s q \<Longrightarrow> frame p q"
  "match_pattern (parser_at n) p = POk pat q \<Longrightarrow> frame p q"
  by (rule agreement_frame [OF agrees_callees(1) [OF parser_agrees [OF order_refl]]], assumption)
    (rule agreement_frame [OF agrees_callees(2) [OF parser_agrees [OF order_refl]]], assumption,
     rule agreement_frame [OF agrees_callees(3) [OF parser_agrees [OF order_refl]]], assumption)

section \<open>Runs that never end\<close>

lemma name_pattern:
  assumes "tok_Type (tok_at p 0) = IDENT" "tok_Type (tok_at p 1) \<noteq> LBRACE"
  shows "parseMatchPattern R k p = POk (IdentifierPattern (tok_at p 0) (curIdent p)) p"
  using assms by (simp add: parseMatchPattern_def ifP_def getP_def token_simps Let_def)

lemma list_pattern_stuck:
  assumes "tok_Type (tok_at p 0) = IDENT" "tok_Type (tok_at p 1) \<notin> {COMMA, RBRACKET, LBRACE}"
  shows "list_pattern_loop (parser_at n) k t els p = PFuel"
proof (induction k arbitrary: els)
  case (Suc k)
  have step: "match_pattern (parser_at n) p = PFuel \<or>
      match_pattern (parser_at n) p = POk (IdentifierPattern (tok_at p 0) (curIdent p)) p"
    using assms by (cases n) (simp_all add: parser_unfold name_pattern fuelP_def)
  then show ?case
  proof
    assume "match_pattern (parser_at n) p = PFuel"
    then show ?thesis using assms(1) by (simp add: ifP_def bindP_def token_simps)
  next
    assume "match_pattern (parser_at n) p = POk (IdentifierPattern (tok_at p 0) (curIdent p)) p"
    then show ?thesis using assms Suc.IH
      by (simp add: ifP_def whenP_def bindP_def token_simps is_spread_def)
  qed
qed (simp add: fuelP_def)

definition only_illegal :: "'t parser \<Rightarrow> bool" where
  \<comment> \<open>every token from the current one on is illegal\<close>
  "only_illegal p \<longleftrightarrow> (\<forall>i. tok_Type (tok_at p i) = ILLEGAL)"

lemma tok_at_same: "same_tokens p q \<Longrightarrow> tok_at p i = tok_at q i"
  using same_tokens_adv [of p q i] unfolding tok_at_def same_tokens_def by blast

lemma only_illegal_frame: "only_illegal p \<Longrightarrow> frame p q \<Longrightarrow> only_illegal q"
  by (auto simp add: frame_def only_illegal_def tok_at_same)

lemma no_prefix_ILLEGAL [simp]: "prefixParseFn R k ILLEGAL = None"
  by (simp add: prefixParseFn_def)

lemma illegal_expression:
  assumes "tok_Type (tok_at p 0) = ILLEGAL" "expression (parser_at n) prec p \<noteq> PFuel"
  shows "\<exists>q. expression (parser_at n) prec p = POk NoExpr q"
proof (cases n)
  case (Suc m)
  have "parseExpression (parser_at m) m prec p \<noteq> PFuel" using assms(2) by (simp add: Suc parser_unfold)
  then have "0 < m" by (cases m) (simp_all add: parseExpression_def skipLeadingNewlines_def bindP_def fuelP_def)
  then have "skipLeadingNewlines m p = POk () p"
    using assms(1) by (simp add: skipLeadingNewlines_def skip_none token_simps)
  then show ?thesis
    using assms(1) by (simp add: Suc parser_unfold parseExpression_def bind_ok token_simps noPrefixParseFnError_def
        errorHere_def)
qed (use assms(2) in \<open>simp add: parser_unfold fuelP_def\<close>)

lemma illegal_statement:
  assumes "tok_Type (tok_at p 0) = ILLEGAL"
  shows "\<exists>s q. statement (parser_at n) p \<in> {PFuel, POk s q}"
proof (cases n)
  case (Suc m)
  have "\<exists>q. expression (parser_at m) LOWEST p = PFuel \<or> expression (parser_at m) LOWEST p = POk NoExpr q"
    using illegal_expression [OF assms] by blast
  then show ?thesis
    using assms by (auto simp: Suc parser_unfold parseStatement_def noted_def parseExpressionStatement_def token_simps
        bindP_def getP_def noteStatement_def modP_def)
qed (simp add: parser_unfold fuelP_def)

lemma illegal_block_stuck: "only_illegal p \<Longrightarrow> block_loop (parser_at n) k ss p = PFuel"
proof (induction k arbitrary: ss p)
  case (Suc k)
  have 0: "tok_Type (tok_at p 0) = ILLEGAL" using Suc.prems by (simp add: only_illegal_def)
  then obtain s q where "statement (parser_at n) p = PFuel \<or> statement (parser_at n) p = POk s q"
    using illegal_statement by blast
  then show ?case
  proof
    assume "statement (parser_at n) p = PFuel"
    then show ?thesis using 0 by (simp add: ifP_def bindP_def token_simps)
  next
    assume s: "statement (parser_at n) p = POk s q"
    let ?rest = "thenP nextToken (thenP (skipStatementSeparators k)
        (block_loop (parser_at n) k (if s = NoStmt then ss else ss @ [s])))"
    have eq: "block_loop (parser_at n) (Suc k) ss p = ?rest q"
      using 0 s by (simp add: ifP_def bind_ok token_simps)
    have "?rest q = PFuel"
    proof -
      obtain r where r: "nextToken q = POk () r" by (simp add: nextToken_def modP_def)
      have "frame q r" using agreement_frame [OF agrees_nextToken r] .
      then have r_ill: "only_illegal r"
        using only_illegal_frame [OF Suc.prems frame_trans [OF methods_frame(2) [OF s]]] by blast
      show ?thesis
      proof (cases k)
        case (Suc j)
        have "skipStatementSeparators k r = POk () r"
          using r_ill Suc unfolding skipStatementSeparators_def
          by (intro skip_none) (simp_all add: token_simps only_illegal_def)
        then show ?thesis using r r_ill Suc.IH by (simp add: bind_ok)
      qed (use r in \<open>simp add: bind_ok skipStatementSeparators_def bindP_def fuelP_def\<close>)
    qed
    then show ?thesis using eq by simp
  qed
qed (simp add: fuelP_def)


lemma nextToken_moves: "\<exists>q. nextToken p = POk () q \<and> same_tokens q (adv 1 p)"
  by (simp add: nextToken_def modP_def report_illegal_def Let_def shift_adv same_tokens_def addError_def split: prod.split)

lemma noteStatement_stays: "\<exists>q. noteStatement s p = POk () q \<and> same_tokens q p"
  by (simp add: noteStatement_def modP_def Let_def same_tokens_def clearPendingDoc_def)

section \<open>The theorems\<close>

text \<open>
  Fuel only bounds the search: once a program is parsed, to a tree or to a panic, more fuel gives
  the same result. So the tree of a text does not depend on the bound chosen.\<close>
theorem parser_fuel_irrelevant:
  assumes "ParseProgram n p \<noteq> PFuel" "n \<le> n'"
  shows "ParseProgram n' p = ParseProgram n p"
  using agreement_fuel [OF agrees_ParseProgram [OF assms(2)] assms(1)] .

text \<open>C20:
  Every statement, expression and pattern that is read leaves the scope depth and the permission
  of struct values as it found them, keeps the errors reported before it, and only moves forward
  in the tokens.\<close>
theorem parser_keeps_frame:
  assumes "statement (parser_at n) p = POk s q \<or> expression (parser_at n) prec p = POk e q \<or>
      match_pattern (parser_at n) p = POk pat q"
  shows "scopeDepth q = scopeDepth p \<and> allowStructInit q = allowStructInit p \<and>
    (\<exists>new. p_errors q = p_errors p @ new) \<and> (\<exists>j. \<forall>i. tok_at q i = tok_at p (i + j))"
proof -
  have "frame p q" using assms methods_frame by blast
  then show ?thesis by (auto simp add: frame_def prefix_def tok_at_same)
qed

text \<open>C21:
  A list pattern whose first element is a name followed by anything but a comma, a closing bracket
  or a brace is never read to an end: the loop over the elements does not move, whatever fuel it
  is given.\<close>
theorem list_pattern_never_returns:
  assumes "tok_Type (tok_at p 0) = LBRACKET" "tok_Type (tok_at p 1) = IDENT"
    "tok_Type (tok_at p 2) \<notin> {COMMA, RBRACKET, LBRACE}"
  shows "match_pattern (parser_at n) p = PFuel"
proof (cases n)
  case (Suc m)
  have "nextToken p = POk () (adv 1 p)" by (rule nextToken_legal) (use assms(2) in simp)
  moreover have "list_pattern_loop (parser_at m) m t [] (adv 1 p) = PFuel" for t
    by (rule list_pattern_stuck) (use assms(2,3) in \<open>simp_all add: numeral_2_eq_2\<close>)
  ultimately show ?thesis
    using assms(1) by (simp add: Suc parser_unfold parseMatchPattern_def parseListPattern_def Let_def bind_ok token_simps)
qed (simp add: parser_unfold fuelP_def)

text \<open>C22:
  A block is never read to an end once the tokenizer gives nothing but illegal tokens: the loop
  over the statements stops at a brace or at the end of the text only, and collects errors for
  ever.\<close>
theorem illegal_block_never_returns:
  assumes "\<forall>i\<ge>1. tok_Type (tok_at p i) = ILLEGAL"
  shows "parseBlockStatement (parser_at n) k p = PFuel"
proof (cases k)
  case (Suc j)
  obtain r where r: "nextToken p = POk () r" "same_tokens r (adv 1 p)" using nextToken_moves by blast
  have ill: "only_illegal r" using r(2) assms by (simp add: only_illegal_def tok_at_same)
  then have "skipStatementSeparators k r = POk () r"
    unfolding skipStatementSeparators_def using Suc by (intro skip_none) (simp_all add: token_simps only_illegal_def)
  moreover have "only_illegal (r\<lparr>scopeDepth := scopeDepth r + 1\<rparr>)"
    using ill tok_at_same [of "r\<lparr>scopeDepth := scopeDepth r + 1\<rparr>" r] by (simp add: only_illegal_def)
  ultimately show ?thesis
    by (simp add: parseBlockStatement_def bind_ok r(1) bindP_def [of "block_loop _ _ _"] illegal_block_stuck)
qed (auto simp: parseBlockStatement_def bindP_def nextToken_def modP_def getP_def skipStatementSeparators_def fuelP_def
    split: prod.split)

text \<open>
  A map pattern whose first key begins with a token that begins no expression panics, as the key
  is a nil node when its name is asked for.\<close>
theorem map_pattern_panics:
  assumes "tok_Type (tok_at p 0) = LBRACE" "tok_Type (tok_at p 1) = COMMA" "tok_Type (tok_at p 2) \<noteq> COLON"
  shows "match_pattern (parser_at (n + 4)) p = PPanic nil_dereference"
proof -
  have next_p: "nextToken p = POk () (adv 1 p)" by (rule nextToken_legal) (use assms(2) in simp)
  have prefix: "prefixParseFn R k COMMA = None" for R :: "'a callees" and k by (simp add: prefixParseFn_def)
  obtain q where q: "noPrefixParseFnError COMMA (adv 1 p) = POk () q" "same_tokens q (adv 1 p)"
    by (simp add: noPrefixParseFnError_def errorHere_def modP_def addError_def Let_def same_tokens_def split: prod.split)
  have "skipLeadingNewlines (Suc (Suc n)) (adv 1 p) = POk () (adv 1 p)"
    unfolding skipLeadingNewlines_def using assms(2) by (intro skip_none) (simp_all add: token_simps)
  then have "expression (parser_at (Suc (Suc (Suc n)))) LOWEST (adv 1 p) = POk NoExpr q"
    using assms(2) q(1) prefix by (simp add: parser_unfold parseExpression_def bind_ok token_simps)
  then have "parse_key (parser_at (Suc (Suc (Suc n)))) (adv 1 p) = POk NoExpr q"
    using assms(2) by (simp add: parse_key_def bind_ok token_simps symbol_key_def)
  moreover have "map_pattern_entry (parser_at (Suc (Suc (Suc n)))) NoExpr q = PPanic nil_dereference"
    using assms(3) tok_at_same [OF q(2), of 1]
    by (simp add: map_pattern_entry_def ifP_def token_simps entry_name_def orPanic_def bindP_def panicP_def numeral_2_eq_2
        String_expr.simps)
  ultimately have "map_pattern_loop (parser_at (Suc (Suc (Suc n)))) (Suc (Suc (Suc n))) t False [] NoPattern p =
      PPanic nil_dereference" for t
    using assms(1,2) next_p
    by (simp add: map_pattern_loop.simps(2) [of _ "Suc (Suc n)"] ifP_def token_simps bind_ok bindP_def map_pattern_end_def
        del: map_pattern_loop.simps)
  then show ?thesis
    using assms(1,2)
    by (simp add: parser_unfold parseMatchPattern_def parseMapPattern_def Let_def ifP_def token_simps bind_ok
        numeral_eq_Suc del: map_pattern_loop.simps)
qed


section \<open>Examples\<close>

lemma tok_at_stream: "tok_at (stream_parser ts) i = token_or_eof ts i"
  by (simp add: tok_at_def stream_parser_adv)

definition not_implemented_tokens :: "Token list" where
  "not_implemented_tokens = [Token NOT_IMPLEMENTED ''???'' 0]"

lemma statement_not_implemented:
  assumes "tok_Type (tok_at p 0) = NOT_IMPLEMENTED" "tok_Type (tok_at p 1) \<noteq> SEMICOLON"
  shows "statement (parser_at (Suc n)) p = POk (ThrowStatement (tok_at p 0)
      (MapLiteral (tok_at p 0) [(StringLiteral (tok_at p 0) ''type'', StringLiteral (tok_at p 0) ''NotImplementedError'')])) p"
  using assms by (simp add: parser_unfold parseStatement_def parseNotImplemented_def whenP_def ifP_def token_simps
      bindP_def getP_def)

theorem parser_keeps_frame_witness:
  "\<exists>s q. statement (parser_at 1) (stream_parser not_implemented_tokens) = POk s q \<and> scopeDepth q = 0 \<and> p_errors q = []"
proof -
  let ?p = "stream_parser not_implemented_tokens"
  obtain s where s: "statement (parser_at 1) ?p = POk s ?p"
    using statement_not_implemented [of ?p 0] by (auto simp: tok_at_stream not_implemented_tokens_def token_or_eof_def)
  show ?thesis using s parser_keeps_frame [OF disjI1 [OF s]] by (auto simp: stream_parser_def)
qed

lemma ends_after_statement:
  assumes "statement (parser_at (Suc (Suc n))) p = POk s p" "s \<noteq> NoStmt" "tok_Type (tok_at p 0) = NOT_IMPLEMENTED"
    "tok_Type (tok_at p 1) = EOF"
  shows "\<exists>q. program_loop (Suc (Suc (Suc n))) [] p = POk [s] q"
proof -
  obtain p1 where p1: "noteStatement s p = POk () p1" "same_tokens p1 p" using noteStatement_stays by blast
  obtain q where q: "nextToken p1 = POk () q" "same_tokens q (adv 1 p1)" using nextToken_moves by blast
  have EOF: "tok_Type (tok_at q 0) = EOF" using tok_at_same [OF q(2), of 0] tok_at_same [OF p1(2), of 1] assms(4) by simp
  have "skipStatementSeparators (Suc (Suc n)) q = POk () q"
    unfolding skipStatementSeparators_def using EOF by (intro skip_none) (simp_all add: token_simps)
  then show ?thesis
    using assms p1(1) q(1) EOF by (simp add: ifP_def token_simps bind_ok)
qed

theorem parser_fuel_irrelevant_witness:
  "\<exists>r. r \<noteq> PFuel \<and> (\<forall>n\<ge>3. ParseProgram n (stream_parser not_implemented_tokens) = r)"
proof -
  let ?p = "stream_parser not_implemented_tokens"
  have t: "tok_Type (tok_at ?p 0) = NOT_IMPLEMENTED" "tok_Type (tok_at ?p 1) = EOF"
    by (simp_all add: tok_at_stream not_implemented_tokens_def token_or_eof_def)
  obtain q ss where "program_loop 3 [] ?p = POk ss q"
    using ends_after_statement [OF statement_not_implemented [OF t(1), of 1, simplified One_nat_def]] t
    by (auto simp: numeral_3_eq_3)
  moreover have "skipStatementSeparators 3 ?p = POk () ?p"
    unfolding skipStatementSeparators_def using t(1) by (intro skip_none) (simp_all add: token_simps)
  ultimately have "ParseProgram 3 ?p \<noteq> PFuel" by (simp add: ParseProgram_def bind_ok getP_def)
  then show ?thesis using parser_fuel_irrelevant [of 3 ?p] by blast
qed

theorem list_pattern_never_returns_witness:
  "match_pattern (parser_at 100) (stream_parser (map op_token [''['', ''IDENT'', ''IDENT'', '']''])) = PFuel"
  by (rule list_pattern_never_returns) (simp_all add: tok_at_stream token_or_eof_def op_token_def)

theorem map_pattern_panics_witness:
  "match_pattern (parser_at 4) (stream_parser (map op_token [''{'', '','', ''}''])) = PPanic nil_dereference"
  using map_pattern_panics [of "stream_parser (map op_token [''{'', '','', ''}''])" 0]
  by (simp add: tok_at_stream token_or_eof_def op_token_def)

lemma stuck_tokenizer:
  assumes "tk_NextToken p (tokenizer p) = (t, tokenizer p)"
  shows "tk_NextToken (adv i p) = tk_NextToken p \<and> tokenizer (adv i p) = tokenizer p"
  using assms by (induction i) (simp_all add: adv_def shift_token_def)

lemma stuck_tokens:
  assumes "tk_NextToken p (tokenizer p) = (t, tokenizer p)"
  shows "tok_at p (i + 3) = t"
proof -
  have "tok_at p (i + 3) = tok_at (adv i p) 3" by (simp add: add.commute)
  then show ?thesis using stuck_tokenizer [OF assms, of i] assms
    by (simp add: tok_at_def adv_def shift_token_def numeral_3_eq_3)
qed

theorem illegal_block_never_returns_witness:
  "parseBlockStatement (parser_at 100) 100 (New (\<lambda>u. (Token ILLEGAL ''?'' 0, u)) () [] ''?'') = PFuel"
proof (rule illegal_block_never_returns, intro allI impI)
  fix i :: nat
  let ?p = "New (\<lambda>u. (Token ILLEGAL ''?'' 0, u)) () [] ''?''"
  have "curToken ?p = Token ILLEGAL ''?'' 0" "peekToken ?p = Token ILLEGAL ''?'' 0" "peek2Token ?p = Token ILLEGAL ''?'' 0"
    "tk_NextToken ?p (tokenizer ?p) = (Token ILLEGAL ''?'' 0, tokenizer ?p)"
    by (simp_all add: New_def shift_token_def report_illegal_def addError_def Let_def noToken_def eval_nat_numeral
        split: prod.split)
  note first = this
  show "tok_Type (tok_at ?p i) = ILLEGAL"
  proof (cases "i < 3")
    case True
    then have "i \<in> {0, 1, 2}" by auto
    then show ?thesis using first(1-3) by (auto simp: curToken_tok peekToken_tok peek2Token_tok)
  next
    case False
    then obtain j where "i = j + 3" using le_Suc_ex by (metis add.commute not_less)
    then show ?thesis using stuck_tokens [OF first(4), of j] by simp
  qed
qed

end
