(* ===== verification/Type_Store.thy ===== *)
theory Type_Store
  imports DeclaredType Diagnostics "HOL-Library.AList" "HOL-Library.List_Lexorder" "HOL-Library.Char_ord"
begin

text \<open>
  \<open>internal/semantic/typecheck.go\<close>: the types of the inference and the operations on them. A Go
  \<open>*tnode\<close> is the address of a node in the list \<open>nodes\<close> of the state, or \<open>None\<close> for nil; a new
  node goes to the end. A node whose \<open>t_parent\<close> is set stands for its parent, so that the nodes
  form a union-find structure, and \<open>find\<close> (here \<open>tfind\<close>) compresses paths as it goes.

  The graph of types may have cycles: unification has no occurs check. The recursive operations
  take fuel, and give \<open>TDeep\<close> where Go recurses deeper. A nil dereference is \<open>TPanic\<close>.
\<close>

section \<open>State\<close>

datatype typeKind =
  typeUnknown | typeNever | typeAny | typeNil | typeBool | typeNum | typeStr | typeBytes | typeSym
| typeParam | typeList | typeTuple | typeMap | typeFn | typeTask | typeChan | typeStruct | typeUnion

definition kind_string :: "typeKind \<Rightarrow> string" where
  "kind_string k =
     (case k of
        typeUnknown \<Rightarrow> ''unknown'' | typeNever \<Rightarrow> ''never'' | typeAny \<Rightarrow> ''any'' | typeNil \<Rightarrow> ''nil''
      | typeBool \<Rightarrow> ''bool'' | typeNum \<Rightarrow> ''num'' | typeStr \<Rightarrow> ''str'' | typeBytes \<Rightarrow> ''bytes'' | typeSym \<Rightarrow> ''sym''
      | typeParam \<Rightarrow> ''typeparam'' | typeList \<Rightarrow> ''list'' | typeTuple \<Rightarrow> ''tuple'' | typeMap \<Rightarrow> ''map''
      | typeFn \<Rightarrow> ''fn'' | typeTask \<Rightarrow> ''task'' | typeChan \<Rightarrow> ''chan'' | typeStruct \<Rightarrow> ''struct''
      | typeUnion \<Rightarrow> ''union'')"

definition maxUnionOptions :: nat where
  "maxUnionOptions = 8"

type_synonym tref = "nat option"

record tnode =
  t_kind :: typeKind
  t_id :: nat
  t_parent :: tref
  t_placeholder :: bool
  t_elem :: tref
  t_key :: tref
  t_val :: tref
  t_params :: "tref list"
  t_typeParams :: "tref list"
  t_options :: "tref list"
  t_ret :: tref
  t_variadic :: bool
  t_minArgs :: int
  t_maxArgs :: int
  t_name :: string

definition zero_tnode :: "typeKind \<Rightarrow> tnode" where
  \<comment> \<open>\<open>&tnode{kind: k}\<close>\<close>
  "zero_tnode k =
     \<lparr>t_kind = k, t_id = 0, t_parent = None, t_placeholder = False, t_elem = None, t_key = None, t_val = None,
      t_params = [], t_typeParams = [], t_options = [], t_ret = None, t_variadic = False, t_minArgs = 0,
      t_maxArgs = 0, t_name = []\<rparr>"

record tconstraint =
  tc_lhs :: tref
  tc_rhs :: tref
  tc_pos :: nat
  tc_reason :: string

record typeCheck =
  \<comment> \<open>\<open>callCheck\<close> and \<open>declaredReturnCheck\<close> (got and expected), \<open>plusCheck\<close>, \<open>mulCheck\<close> and \<open>bitwiseCheck\<close> (left and right)\<close>
  ck_pos :: nat
  ck_first :: tref
  ck_second :: tref

type_synonym bindings = "(string \<times> tref) list"

text \<open>
  The stacks of scopes have the innermost scope first. A Go map is the list of its entries in the
  order in which they were added, the order in which the model iterates where Go's is unspecified.
\<close>

record typeChecker =
  nodes :: "tnode list"
  nextID :: nat
  constraints :: "tconstraint list"
  diags :: "(nat \<times> string) list"
  diagSeen :: "string list"
  callChecks :: "typeCheck list"
  retChecks :: "typeCheck list"
  plusChecks :: "typeCheck list"
  mulChecks :: "typeCheck list"
  bitChecks :: "typeCheck list"
  scopes :: "bindings list"
  declared :: "bindings list"
  overrides :: "bindings list"
  generics :: "bindings list"
  schemas :: "(string \<times> bindings) list"

datatype 'a tresult = TOk 'a typeChecker | TPanic | TDeep

type_synonym 'a tc = "typeChecker \<Rightarrow> 'a tresult"

definition retT :: "'a \<Rightarrow> 'a tc" where
  "retT a c = TOk a c"

definition bindT :: "'a tc \<Rightarrow> ('a \<Rightarrow> 'b tc) \<Rightarrow> 'b tc" where
  "bindT m f c = (case m c of TOk a c \<Rightarrow> f a c | TPanic \<Rightarrow> TPanic | TDeep \<Rightarrow> TDeep)"

abbreviation thenT :: "'a tc \<Rightarrow> 'b tc \<Rightarrow> 'b tc" where
  "thenT m n \<equiv> bindT m (\<lambda>_. n)"

definition panicT :: "'a tc" where
  "panicT c = TPanic"

definition deepT :: "'a tc" where
  "deepT c = TDeep"

definition getT :: "(typeChecker \<Rightarrow> 'a) \<Rightarrow> 'a tc" where
  "getT f c = TOk (f c) c"

definition modT :: "(typeChecker \<Rightarrow> typeChecker) \<Rightarrow> unit tc" where
  "modT f c = TOk () (f c)"

fun mapT :: "('a \<Rightarrow> 'b tc) \<Rightarrow> 'a list \<Rightarrow> 'b list tc" where
  "mapT f [] = retT []"
| "mapT f (x # xs) = bindT (f x) (\<lambda>y. bindT (mapT f xs) (\<lambda>ys. retT (y # ys)))"

fun eachT :: "('a \<Rightarrow> unit tc) \<Rightarrow> 'a list \<Rightarrow> unit tc" where
  "eachT f [] = retT ()"
| "eachT f (x # xs) = thenT (f x) (eachT f xs)"

fun foldT :: "('s \<Rightarrow> 'a \<Rightarrow> 's tc) \<Rightarrow> 's \<Rightarrow> 'a list \<Rightarrow> 's tc" where
  "foldT f s [] = retT s"
| "foldT f s (x # xs) = bindT (f s x) (\<lambda>s. foldT f s xs)"

fun allT :: "('a \<Rightarrow> bool tc) \<Rightarrow> 'a list \<Rightarrow> bool tc" where
  \<comment> \<open>a loop that returns false at the first element without the property\<close>
  "allT f [] = retT True"
| "allT f (x # xs) = bindT (f x) (\<lambda>ok. if ok then allT f xs else retT False)"

fun anyT :: "('a \<Rightarrow> bool tc) \<Rightarrow> 'a list \<Rightarrow> bool tc" where
  "anyT f [] = retT False"
| "anyT f (x # xs) = bindT (f x) (\<lambda>ok. if ok then retT True else anyT f xs)"

section \<open>Nodes\<close>

definition new_node :: "tnode \<Rightarrow> tref tc" where
  "new_node t c = TOk (Some (length (nodes c))) (c\<lparr>nodes := nodes c @ [t]\<rparr>)"

definition node_of :: "tref \<Rightarrow> tnode tc" where
  "node_of t c =
     (case t of
        None \<Rightarrow> TPanic
      | Some p \<Rightarrow> if p < length (nodes c) then TOk (nodes c ! p) c else TPanic)"

definition update_node :: "(tnode \<Rightarrow> tnode) \<Rightarrow> tref \<Rightarrow> unit tc" where
  "update_node f t = bindT (node_of t) (\<lambda>n. modT (\<lambda>c. c\<lparr>nodes := (nodes c)[the t := f n]\<rparr>))"

fun find_at :: "nat \<Rightarrow> nat \<Rightarrow> nat tc" where
  "find_at 0 p = deepT"
| "find_at (Suc k) p =
     bindT (node_of (Some p)) (\<lambda>t.
       case t_parent t of
         None \<Rightarrow> retT p
       | Some q \<Rightarrow> bindT (find_at k q) (\<lambda>r. thenT (update_node (t_parent_update (\<lambda>_. Some r)) (Some p)) (retT r)))"

definition tfind :: "tref \<Rightarrow> tref tc" where
  \<comment> \<open>a chain of parents without a cycle is no longer than the list of nodes\<close>
  "tfind t =
     (case t of
        None \<Rightarrow> retT None
      | Some p \<Rightarrow> bindT (getT (\<lambda>c. length (nodes c))) (\<lambda>k. bindT (find_at k p) (\<lambda>r. retT (Some r))))"

definition found :: "tref \<Rightarrow> (tref \<Rightarrow> tnode option \<Rightarrow> 'a tc) \<Rightarrow> 'a tc" where
  \<comment> \<open>\<open>tf := c.find(t)\<close>: the pointer and the node behind it, if it is not nil\<close>
  "found t f =
     bindT (tfind t) (\<lambda>r. case r of
       None \<Rightarrow> f None None
     | Some _ \<Rightarrow> bindT (node_of r) (\<lambda>n. f r (Some n)))"

definition freshUnknown :: "tref tc" where
  "freshUnknown =
     thenT (modT (\<lambda>c. c\<lparr>nextID := nextID c + 1\<rparr>))
       (bindT (getT nextID) (\<lambda>i. new_node ((zero_tnode typeUnknown)\<lparr>t_id := i\<rparr>)))"

definition scalar :: "typeKind \<Rightarrow> tref tc" where
  "scalar k = new_node (zero_tnode k)"

definition or_fresh :: "tref \<Rightarrow> tref tc" where
  "or_fresh t = (if t = None then freshUnknown else retT t)"

definition listType :: "tref \<Rightarrow> tref tc" where
  "listType e = bindT (or_fresh e) (\<lambda>e. new_node ((zero_tnode typeList)\<lparr>t_elem := e\<rparr>))"

definition tupleType :: "tref list \<Rightarrow> tref tc" where
  "tupleType ps = new_node ((zero_tnode typeTuple)\<lparr>t_params := ps\<rparr>)"

definition mapType :: "tref \<Rightarrow> tref \<Rightarrow> tref tc" where
  "mapType k v =
     bindT (or_fresh k) (\<lambda>k. bindT (or_fresh v) (\<lambda>v. new_node ((zero_tnode typeMap)\<lparr>t_key := k, t_val := v\<rparr>)))"

definition fnType :: "tref list \<Rightarrow> tref \<Rightarrow> bool \<Rightarrow> int \<Rightarrow> int \<Rightarrow> tref tc" where
  "fnType ps r variadic mn mx =
     bindT (or_fresh r) (\<lambda>r.
       new_node ((zero_tnode typeFn)\<lparr>t_params := ps, t_ret := r, t_variadic := variadic, t_minArgs := mn, t_maxArgs := mx\<rparr>))"

definition typeParam_node :: "string \<Rightarrow> tref tc" where
  "typeParam_node nm = new_node ((zero_tnode typeParam)\<lparr>t_name := nm\<rparr>)"

definition struct_node :: "string \<Rightarrow> tref tc" where
  "struct_node nm = new_node ((zero_tnode typeStruct)\<lparr>t_name := nm\<rparr>)"

section \<open>Texts of types\<close>

definition param_text :: "tnode \<Rightarrow> string" where
  "param_text t = (if t_name t \<noteq> [] then t_name t else ''t'' @ show_nat (t_id t))"

definition struct_text :: "tnode \<Rightarrow> string" where
  "struct_text t = (if t_name t = [] then ''struct'' else ''struct('' @ t_name t @ '')'')"

fun typeSig :: "nat \<Rightarrow> tref \<Rightarrow> string tc"
and describe :: "nat \<Rightarrow> tref \<Rightarrow> string tc" where
  "typeSig 0 t = deepT"
| "typeSig (Suc n) t =
     found t (\<lambda>_ tn. case tn of
       None \<Rightarrow> retT ''nilnode''
     | Some u \<Rightarrow>
         (case t_kind u of
            typeList \<Rightarrow> bindT (typeSig n (t_elem u)) (\<lambda>e. retT (''list<'' @ e @ ''>''))
          | typeTuple \<Rightarrow> bindT (mapT (typeSig n) (t_params u)) (\<lambda>ps. retT (''['' @ join '','' ps @ '']''))
          | typeMap \<Rightarrow>
              bindT (typeSig n (t_key u)) (\<lambda>k. bindT (typeSig n (t_val u)) (\<lambda>v. retT (''map<'' @ k @ '','' @ v @ ''>'')))
          | typeFn \<Rightarrow>
              bindT (describe n (t_ret u)) (\<lambda>r. bindT (mapT (describe n) (t_params u)) (\<lambda>ps.
                retT (''fn<'' @ r @ concat (map (\<lambda>p. '', '' @ p) ps) @ ''>'')))
          | typeParam \<Rightarrow> retT (param_text u)
          | typeStruct \<Rightarrow> retT (struct_text u)
          | typeUnion \<Rightarrow> bindT (mapT (typeSig n) (t_options u)) (\<lambda>os. retT (''union('' @ join ''|'' os @ '')''))
          | k \<Rightarrow> retT (kind_string k)))"
| "describe 0 t = deepT"
| "describe (Suc n) t =
     found t (\<lambda>_ tn. case tn of
       None \<Rightarrow> retT ''unknown''
     | Some u \<Rightarrow>
         (case t_kind u of
            typeNever \<Rightarrow> retT ''never''
          | typeUnknown \<Rightarrow> retT (''t'' @ show_nat (t_id u))
          | typeList \<Rightarrow> bindT (describe n (t_elem u)) (\<lambda>e. retT (''list<'' @ e @ ''>''))
          | typeTuple \<Rightarrow> bindT (mapT (describe n) (t_params u)) (\<lambda>ps. retT (''['' @ join '', '' ps @ '']''))
          | typeMap \<Rightarrow>
              bindT (describe n (t_key u)) (\<lambda>k. bindT (describe n (t_val u)) (\<lambda>v. retT (''map<'' @ k @ '', '' @ v @ ''>'')))
          | typeFn \<Rightarrow>
              bindT (typeSig n (t_ret u)) (\<lambda>r. bindT (mapT (typeSig n) (t_params u)) (\<lambda>ps.
                retT (''fn<'' @ r @ concat (map (\<lambda>p. '','' @ p) ps) @ ''>'')))
          | typeParam \<Rightarrow> retT (param_text u)
          | typeStruct \<Rightarrow> retT (struct_text u)
          | typeUnion \<Rightarrow>
              \<comment> \<open>a stable sort by signature, as Go sorts at most twelve options\<close>
              bindT (mapT (typeSig n) (t_options u)) (\<lambda>sigs.
              bindT (mapT (describe n) (map snd (sort_key fst (zip sigs (t_options u))))) (\<lambda>os.
                retT (''union<'' @ join '' | '' os @ ''>'')))
          | k \<Rightarrow> retT (kind_string k)))"

section \<open>Copies\<close>

type_synonym memo = "(nat \<times> tref) list"

definition shallow_copy :: "tnode \<Rightarrow> tnode" where
  \<comment> \<open>the fields that both copying methods set at once\<close>
  "shallow_copy t =
     (zero_tnode (t_kind t))\<lparr>t_id := t_id t, t_variadic := t_variadic t, t_minArgs := t_minArgs t,
       t_maxArgs := t_maxArgs t, t_name := t_name t\<rparr>"

definition map_memo :: "(memo \<Rightarrow> tref \<Rightarrow> (tref \<times> memo) tc) \<Rightarrow> memo \<Rightarrow> tref list \<Rightarrow> (tref list \<times> memo) tc" where
  "map_memo f memo ts =
     bindT (foldT (\<lambda>(out, memo) t. bindT (f memo t) (\<lambda>(r, memo). retT (r # out, memo))) ([], memo) ts)
       (\<lambda>(out, memo). retT (rev out, memo))"

definition copied :: "tref \<Rightarrow> (tnode \<Rightarrow> tnode) \<Rightarrow> memo \<Rightarrow> (tref \<times> memo) tc" where
  \<comment> \<open>set fields of the copy, and return it\<close>
  "copied cp f memo = thenT (update_node f cp) (retT (cp, memo))"

fun cloneForCaseScope :: "nat \<Rightarrow> memo \<Rightarrow> tref \<Rightarrow> (tref \<times> memo) tc" where
  "cloneForCaseScope 0 memo t = deepT"
| "cloneForCaseScope (Suc n) memo t =
     found t (\<lambda>r tn. case tn of
       None \<Rightarrow> bindT freshUnknown (\<lambda>u. retT (u, memo))
     | Some u \<Rightarrow>
         (case map_of memo (the r) of
            Some cp \<Rightarrow> retT (cp, memo)
          | None \<Rightarrow>
              bindT (new_node (shallow_copy u)) (\<lambda>cp.
                let memo = (the r, cp) # memo; clone = cloneForCaseScope n; clones = map_memo (cloneForCaseScope n)
                in (case t_kind u of
                      typeUnknown \<Rightarrow> copied cp (\<lambda>x. x\<lparr>t_id := 0\<rparr>) memo
                    | typeList \<Rightarrow> bindT (clone memo (t_elem u)) (\<lambda>(e, memo). copied cp (\<lambda>x. x\<lparr>t_elem := e\<rparr>) memo)
                    | typeMap \<Rightarrow>
                        bindT (clone memo (t_key u)) (\<lambda>(k, memo). bindT (clone memo (t_val u)) (\<lambda>(v, memo).
                          copied cp (\<lambda>x. x\<lparr>t_key := k, t_val := v\<rparr>) memo))
                    | typeFn \<Rightarrow>
                        bindT (clones memo (t_params u)) (\<lambda>(ps, memo). bindT (clones memo (t_typeParams u)) (\<lambda>(tps, memo).
                          bindT (clone memo (t_ret u)) (\<lambda>(rt, memo).
                            copied cp (\<lambda>x. x\<lparr>t_params := ps, t_typeParams := tps, t_ret := rt\<rparr>) memo)))
                    | typeUnion \<Rightarrow>
                        bindT (clones memo (t_options u)) (\<lambda>(os, memo). copied cp (\<lambda>x. x\<lparr>t_options := os\<rparr>) memo)
                    | _ \<Rightarrow> retT (cp, memo)))))"

fun cloneTypeWithSubst :: "nat \<Rightarrow> memo \<Rightarrow> memo \<Rightarrow> tref \<Rightarrow> (tref \<times> memo) tc" where
  "cloneTypeWithSubst 0 sub memo t = deepT"
| "cloneTypeWithSubst (Suc n) sub memo t =
     found t (\<lambda>r tn. case tn of
       None \<Rightarrow> retT (None, memo)
     | Some u \<Rightarrow>
         (case (map_of sub (the r), map_of memo (the r)) of
            (Some repl, _) \<Rightarrow> retT (repl, memo)
          | (None, Some cp) \<Rightarrow> retT (cp, memo)
          | (None, None) \<Rightarrow>
              bindT (new_node (shallow_copy u)) (\<lambda>cp.
                let memo = (the r, cp) # memo; clone = cloneTypeWithSubst n sub; clones = map_memo (cloneTypeWithSubst n sub)
                in (case t_kind u of
                      typeList \<Rightarrow> bindT (clone memo (t_elem u)) (\<lambda>(e, memo). copied cp (\<lambda>x. x\<lparr>t_elem := e\<rparr>) memo)
                    | typeTuple \<Rightarrow>
                        bindT (clones memo (t_params u)) (\<lambda>(ps, memo). copied cp (\<lambda>x. x\<lparr>t_params := ps\<rparr>) memo)
                    | typeMap \<Rightarrow>
                        bindT (clone memo (t_key u)) (\<lambda>(k, memo). bindT (clone memo (t_val u)) (\<lambda>(v, memo).
                          copied cp (\<lambda>x. x\<lparr>t_key := k, t_val := v\<rparr>) memo))
                    | typeFn \<Rightarrow>
                        bindT (clones memo (t_typeParams u)) (\<lambda>(tps, memo). bindT (clones memo (t_params u)) (\<lambda>(ps, memo).
                          bindT (clone memo (t_ret u)) (\<lambda>(rt, memo).
                            copied cp (\<lambda>x. x\<lparr>t_typeParams := tps, t_params := ps, t_ret := rt\<rparr>) memo)))
                    | typeUnion \<Rightarrow>
                        bindT (clones memo (t_options u)) (\<lambda>(os, memo). copied cp (\<lambda>x. x\<lparr>t_options := os\<rparr>) memo)
                    | _ \<Rightarrow> retT (cp, memo)))))"

definition type_substitution :: "tref list option \<Rightarrow> nat \<times> tref \<Rightarrow> (nat \<times> tref) tc" where
  \<comment> \<open>the entry of \<open>subst\<close> for a type parameter, by its index\<close>
  "type_substitution explicit = (\<lambda>(i, tp).
     bindT (node_of tp) (\<lambda>u.
       case explicit of
         Some es \<Rightarrow>
           if i < length es \<and> es ! i \<noteq> None then retT (the tp, es ! i)
           else bindT (typeParam_node (t_name u)) (\<lambda>p. retT (the tp, p))
       | None \<Rightarrow> bindT (typeParam_node (t_name u)) (\<lambda>p. retT (the tp, p))))"

definition instantiateFunctionType :: "nat \<Rightarrow> tref \<Rightarrow> tref list option \<Rightarrow> tref tc" where
  "instantiateFunctionType n fn explicit =
     found fn (\<lambda>r tn. case tn of
       None \<Rightarrow> retT r
     | Some u \<Rightarrow>
         if t_kind u \<noteq> typeFn then retT r
         else
           bindT (mapT (type_substitution explicit) (enumerate 0 (t_typeParams u))) (\<lambda>sub.
           bindT (cloneTypeWithSubst n (rev sub) [] r) (\<lambda>(inst, _).
             if inst = None then retT inst
             else
               bindT (node_of inst) (\<lambda>v.
               thenT (if t_kind v = typeFn then update_node (\<lambda>x. x\<lparr>t_typeParams := []\<rparr>) inst else retT ()) (retT inst)))))"

fun contains_walk :: "nat \<Rightarrow> nat list \<Rightarrow> tref \<Rightarrow> (bool \<times> nat list) tc"
and contains_any :: "nat \<Rightarrow> nat list \<Rightarrow> tref list \<Rightarrow> (bool \<times> nat list) tc" where
  \<comment> \<open>with the nodes seen so far\<close>
  "contains_walk 0 seen t = deepT"
| "contains_walk (Suc n) seen t =
     found t (\<lambda>r tn. case tn of
       None \<Rightarrow> retT (False, seen)
     | Some u \<Rightarrow>
         if the r \<in> set seen then retT (False, seen)
         else
           (let seen = the r # seen
            in (case t_kind u of
                  typeParam \<Rightarrow> retT (True, seen)
                | typeList \<Rightarrow> contains_walk n seen (t_elem u)
                | typeTuple \<Rightarrow> contains_any n seen (t_params u)
                | typeMap \<Rightarrow> contains_any n seen [t_key u, t_val u]
                | typeFn \<Rightarrow> contains_any n seen (t_typeParams u @ t_params u @ [t_ret u])
                | typeUnion \<Rightarrow> contains_any n seen (t_options u)
                | _ \<Rightarrow> retT (False, seen))))"
| "contains_any n seen [] = retT (False, seen)"
| "contains_any n seen (t # ts) =
     bindT (contains_walk n seen t) (\<lambda>(b, seen). if b then retT (True, seen) else contains_any n seen ts)"

definition containsTypeParam :: "nat \<Rightarrow> tref \<Rightarrow> bool tc" where
  "containsTypeParam n t = bindT (contains_walk n [] t) (\<lambda>(b, _). retT b)"

section \<open>Unions\<close>

definition any_alone :: "tref list \<Rightarrow> bool tc" where
  \<comment> \<open>\<open>len(flat) == 1 && flat[0].kind == typeAny\<close>\<close>
  "any_alone flat =
     (case flat of [t] \<Rightarrow> bindT (node_of t) (\<lambda>u. retT (t_kind u = typeAny)) | _ \<Rightarrow> retT False)"

fun until_any :: "(tref list \<times> string list \<Rightarrow> tref \<Rightarrow> (tref list \<times> string list) tc) \<Rightarrow>
  tref list \<times> string list \<Rightarrow> tref list \<Rightarrow> (tref list \<times> string list) tc" where
  "until_any add st [] = retT st"
| "until_any add st (t # ts) =
     bindT (add st t) (\<lambda>st. bindT (any_alone (fst st)) (\<lambda>stop. if stop then retT st else until_any add st ts))"

fun addOpt :: "nat \<Rightarrow> tref list \<times> string list \<Rightarrow> tref \<Rightarrow> (tref list \<times> string list) tc" where
  \<comment> \<open>with \<open>flat\<close> and \<open>seen\<close>\<close>
  "addOpt 0 st t = deepT"
| "addOpt (Suc n) st t =
     found t (\<lambda>r tn. case tn of
       None \<Rightarrow> retT st
     | Some u \<Rightarrow>
         if t_kind u = typeAny then bindT (scalar typeAny) (\<lambda>a. retT ([a], [''any'']))
         else if t_kind u = typeNever then retT st
         else if t_kind u = typeUnion then until_any (addOpt n) st (t_options u)
         else
           bindT (typeSig n r) (\<lambda>sig.
             retT (if sig \<in> set (snd st) then st else (fst st @ [r], snd st @ [sig]))))"

record families =
  listElem :: tref
  mapKey :: tref
  mapVal :: tref
  hasList :: bool
  hasMap :: bool
  rest :: "tref list"

definition add_family :: "(tref list \<Rightarrow> tref tc) \<Rightarrow> families \<Rightarrow> tref \<Rightarrow> families tc" where
  "add_family mk st opt =
     found opt (\<lambda>r tn. case tn of
       None \<Rightarrow> retT st
     | Some u \<Rightarrow>
         if t_kind u = typeList then
           bindT (if listElem st = None then retT (t_elem u) else mk [listElem st, t_elem u])
             (\<lambda>e. retT (st\<lparr>hasList := True, listElem := e\<rparr>))
         else if t_kind u = typeMap then
           if mapKey st = None then retT (st\<lparr>hasMap := True, mapKey := t_key u, mapVal := t_val u\<rparr>)
           else
             bindT (mk [mapKey st, t_key u]) (\<lambda>k. bindT (mk [mapVal st, t_val u]) (\<lambda>v.
               retT (st\<lparr>hasMap := True, mapKey := k, mapVal := v\<rparr>)))
         else retT (st\<lparr>rest := rest st @ [r]\<rparr>))"

definition mergeUnionFamilies :: "(tref list \<Rightarrow> tref tc) \<Rightarrow> tref list \<Rightarrow> tref list tc" where
  "mergeUnionFamilies mk opts =
     (if length opts < 2 then retT opts
      else
        bindT (foldT (add_family mk)
          \<lparr>listElem = None, mapKey = None, mapVal = None, hasList = False, hasMap = False, rest = []\<rparr> opts) (\<lambda>st.
        bindT (if hasList st then bindT (listType (listElem st)) (\<lambda>l. retT [l]) else retT []) (\<lambda>ls.
        bindT (if hasMap st then bindT (mapType (mapKey st) (mapVal st)) (\<lambda>m. retT [m]) else retT []) (\<lambda>ms.
          retT (rest st @ ls @ ms)))))"

definition dedup_option :: "nat \<Rightarrow> tref list \<times> string list \<Rightarrow> tref \<Rightarrow> (tref list \<times> string list) tc" where
  "dedup_option n st opt =
     found opt (\<lambda>r tn. case tn of
       None \<Rightarrow> retT st
     | Some u \<Rightarrow>
         if t_kind u = typeNever then retT st
         else
           bindT (typeSig n r) (\<lambda>sig.
             retT (if sig \<in> set (snd st) then st else (fst st @ [r], snd st @ [sig]))))"

definition is_any :: "tref \<Rightarrow> bool tc" where
  "is_any t = found t (\<lambda>_ tn. retT (case tn of Some u \<Rightarrow> t_kind u = typeAny | None \<Rightarrow> False))"

definition normalizeUnionOptions :: "nat \<Rightarrow> (tref list \<Rightarrow> tref tc) \<Rightarrow> tref list \<Rightarrow> tref list tc" where
  "normalizeUnionOptions n mk opts =
     (if opts = [] then retT opts
      else
        bindT (anyT is_any opts) (\<lambda>dominated.
          if dominated then bindT (scalar typeAny) (\<lambda>a. retT [a])
          else bindT (foldT (dedup_option n) ([], []) opts) (\<lambda>(out, _). mergeUnionFamilies mk out)))"

fun unionType :: "nat \<Rightarrow> tref list \<Rightarrow> tref tc" where
  "unionType 0 ts = deepT"
| "unionType (Suc n) ts =
     bindT (until_any (addOpt n) ([], []) ts) (\<lambda>(flat, _).
     bindT (any_alone flat) (\<lambda>stop.
       if stop then retT (hd flat)
       else
         bindT (normalizeUnionOptions n (unionType n) flat) (\<lambda>flat.
           case flat of
             [] \<Rightarrow> freshUnknown
           | [t] \<Rightarrow> retT t
           | _ \<Rightarrow>
               if length flat > maxUnionOptions then scalar typeAny
               else bindT (new_node ((zero_tnode typeUnion)\<lparr>t_options := flat\<rparr>)) (\<lambda>u.
                 \<comment> \<open>the argument of the trace is computed even without a trace\<close>
                 thenT (describe n u) (retT u)))))"

end
