(* ===== verification/Type_Unify.thy ===== *)
theory Type_Unify
  imports Type_Store
begin

text \<open>
  \<open>internal/semantic/typecheck.go\<close>: reading type annotations, the relations between types, their
  unification and the constraints that are solved at the end.
\<close>

section \<open>Diagnostics and constraints\<close>

definition addConstraint :: "tref \<Rightarrow> tref \<Rightarrow> nat \<Rightarrow> string \<Rightarrow> unit tc" where
  "addConstraint l r pos why =
     (if l = None \<or> r = None then retT ()
      else modT (\<lambda>c. c\<lparr>constraints := constraints c @ [\<lparr>tc_lhs = l, tc_rhs = r, tc_pos = pos, tc_reason = why\<rparr>]\<rparr>))"

definition addDiag :: "nat \<Rightarrow> string \<Rightarrow> unit tc" where
  \<comment> \<open>given the formatted message\<close>
  "addDiag pos msg =
     (let key = show_nat pos @ '':'' @ msg
      in modT (\<lambda>c. if key \<in> set (diagSeen c) then c
           else c\<lparr>diagSeen := key # diagSeen c, diags := diags c @ [(pos, msg)]\<rparr>))"

definition constrain_scalar :: "tref \<Rightarrow> typeKind \<Rightarrow> nat \<Rightarrow> string \<Rightarrow> unit tc" where
  "constrain_scalar t k pos why = bindT (scalar k) (\<lambda>s. addConstraint t s pos why)"

section \<open>Annotations\<close>

definition cloneScalarTagType :: "string \<Rightarrow> tref tc" where
  "cloneScalarTagType tag =
     (if tag = ''@num'' then scalar typeNum
      else if tag = ''@str'' then scalar typeStr
      else if tag = ''@bool'' then scalar typeBool
      else if tag = ''@bytes'' then scalar typeBytes
      else if tag = ''@sym'' \<or> tag = ''@symbol'' then scalar typeSym
      else if tag = ''@list'' then bindT freshUnknown listType
      else if tag = ''@map'' then bindT freshUnknown (\<lambda>k. bindT freshUnknown (mapType k))
      else if tag = ''@fn'' then bindT freshUnknown (\<lambda>r. fnType [] r False 0 (- 1))
      else if tag = ''@task'' then scalar typeTask
      else if tag = ''@chan'' then scalar typeChan
      else if tag = ''@struct'' then struct_node []
      else if map_of TypeTags tag \<noteq> None then scalar typeAny
      else retT None)"

definition splitTypeTopLevel :: "string \<Rightarrow> char \<Rightarrow> string list" where
  "splitTypeTopLevel s sep = split_from sep (0, 0, 0) [] s"

definition isSimpleTypeIdent_annotation :: "string \<Rightarrow> bool" where
  "isSimpleTypeIdent_annotation s \<longleftrightarrow>
     (case s of
        [] \<Rightarrow> False
      | c # cs \<Rightarrow> ident_start c \<and> (\<forall>d\<in>set cs. ident_start d \<or> (CHR ''0'' \<le> d \<and> d \<le> CHR ''9'')))"

definition simple_type :: "bindings \<Rightarrow> string \<Rightarrow> tref tc" where
  \<comment> \<open>the last \<open>switch\<close>\<close>
  "simple_type gs s =
     (if s = ''num'' then scalar typeNum
      else if s = ''str'' then scalar typeStr
      else if s = ''bool'' then scalar typeBool
      else if s = ''bytes'' then scalar typeBytes
      else if s = ''sym'' \<or> s = ''symbol'' then scalar typeSym
      else if s = ''list'' then bindT freshUnknown listType
      else if s = ''map'' then bindT freshUnknown (\<lambda>k. bindT freshUnknown (mapType k))
      else if s = ''fn'' then bindT freshUnknown (\<lambda>r. fnType [] r False 0 (- 1))
      else if s = ''task'' then scalar typeTask
      else if s = ''chan'' then scalar typeChan
      else if s = ''struct'' then struct_node []
      else if s = ''nil'' then scalar typeNil
      else if s = ''any'' \<or> s = ''?'' then scalar typeAny
      else case map_of gs s of
        Some tp \<Rightarrow> retT tp
      | None \<Rightarrow> if isSimpleTypeIdent_annotation s then struct_node s else retT None)"

fun parseDeclaredTypeWithScope :: "nat \<Rightarrow> bindings \<Rightarrow> string \<Rightarrow> tref tc" where
  "parseDeclaredTypeWithScope 0 gs raw = deepT"
| "parseDeclaredTypeWithScope (Suc n) gs raw =
     (let s = TrimSpace raw; parse = parseDeclaredTypeWithScope n gs; parse_or_fresh = (\<lambda>p. bindT (parse p) or_fresh)
      in if s = [] then retT None
         else if 1 < length (splitTypeTopLevel s (CHR ''|'')) then
           bindT (mapT parse (splitTypeTopLevel s (CHR ''|''))) (\<lambda>ts.
             let opts = filter (\<lambda>t. t \<noteq> None) ts
             in if opts = [] then retT None else unionType n opts)
         else case enclosed ''list<'' (CHR ''>'') s of
           Some inner \<Rightarrow>
             if length (splitTypeTopLevel inner (CHR '','')) \<noteq> 1 then retT None
             else bindT (parse_or_fresh inner) listType
         | None \<Rightarrow> (case enclosed ''['' (CHR '']'') s of
           Some inner \<Rightarrow>
             if inner = [] then tupleType []
             else bindT (mapT parse_or_fresh (splitTypeTopLevel inner (CHR '',''))) tupleType
         | None \<Rightarrow> (case enclosed ''map<'' (CHR ''>'') s of
           Some inner \<Rightarrow>
             (case splitTypeTopLevel inner (CHR '','') of
                [a, b] \<Rightarrow> bindT (parse a) (\<lambda>k. bindT (parse b) (\<lambda>v. mapType k v))
              | _ \<Rightarrow> retT None)
         | None \<Rightarrow> (case enclosed ''chan<'' (CHR ''>'') s of
           Some inner \<Rightarrow> thenT (parse inner) (scalar typeChan)
         | None \<Rightarrow> (case enclosed ''task<'' (CHR ''>'') s of
           Some inner \<Rightarrow> thenT (parse inner) (scalar typeTask)
         | None \<Rightarrow> (case enclosed ''fn<'' (CHR ''>'') s of
           Some inner \<Rightarrow>
             (case splitTypeTopLevel inner (CHR '','') of
                [] \<Rightarrow> retT None
              | r # ps \<Rightarrow>
                  bindT (parse_or_fresh r) (\<lambda>rt.
                    if ps = [] then fnType [] rt False 0 0
                    else bindT (mapT parse_or_fresh ps) (\<lambda>pts. fnType pts rt False (int (length pts)) (int (length pts)))))
         | None \<Rightarrow> (case enclosed ''struct<'' (CHR ''>'') s of
           Some nm \<Rightarrow> struct_node nm
         | None \<Rightarrow> simple_type gs s)))))))"

definition currentGenericScope :: "typeChecker \<Rightarrow> bindings" where
  "currentGenericScope c = fold (\<lambda>scope out. fold (\<lambda>(k, v) out. AList.update k v out) scope out) (rev (generics c)) []"

definition parseDeclaredType :: "nat \<Rightarrow> string \<Rightarrow> tref tc" where
  "parseDeclaredType n raw = bindT (getT currentGenericScope) (\<lambda>gs. parseDeclaredTypeWithScope n gs raw)"

section \<open>Nil\<close>

fun typeAllowsNil :: "nat \<Rightarrow> tref \<Rightarrow> bool tc" where
  "typeAllowsNil 0 t = deepT"
| "typeAllowsNil (Suc n) t =
     found t (\<lambda>_ tn. case tn of
       None \<Rightarrow> retT True
     | Some u \<Rightarrow>
         if t_kind u \<in> {typeAny, typeUnknown, typeNil} then retT True
         else if t_kind u = typeUnion then anyT (typeAllowsNil n) (t_options u)
         else retT False)"

fun typeMayBeNilConcretely :: "nat \<Rightarrow> tref \<Rightarrow> bool tc"
and options_nil :: "nat \<Rightarrow> bool \<Rightarrow> tref list \<Rightarrow> bool tc" where
  "typeMayBeNilConcretely 0 t = deepT"
| "typeMayBeNilConcretely (Suc n) t =
     found t (\<lambda>_ tn. case tn of
       None \<Rightarrow> retT False
     | Some u \<Rightarrow>
         if t_kind u = typeNil then retT True
         else if t_kind u = typeUnion then options_nil n False (t_options u)
         else retT False)"
| "options_nil n hasNil [] = retT hasNil"
| "options_nil n hasNil (opt # opts) =
     found opt (\<lambda>r tn. case tn of
       None \<Rightarrow> options_nil n hasNil opts
     | Some u \<Rightarrow>
         if t_kind u = typeUnknown \<or> t_kind u = typeAny then retT False
         else bindT (typeMayBeNilConcretely n r) (\<lambda>b. options_nil n (b \<or> hasNil) opts))"

section \<open>Checks of annotations\<close>

definition invalid_annotation :: "nat \<Rightarrow> string \<Rightarrow> string \<Rightarrow> unit tc" where
  "invalid_annotation pos ctxt m = addDiag pos (''invalid '' @ ctxt @ '' type annotation: '' @ m)"

fun first_unparsed :: "nat \<Rightarrow> bindings \<Rightarrow> nat \<Rightarrow> string \<Rightarrow> string list \<Rightarrow> unit tc" where
  "first_unparsed n gs pos ctxt [] = retT ()"
| "first_unparsed n gs pos ctxt (p # ps) =
     bindT (parseDeclaredTypeWithScope n gs p) (\<lambda>t.
       if t = None then invalid_annotation pos ctxt (''unable to parse function parameter type '' @ squoted p)
       else first_unparsed n gs pos ctxt ps)"

definition validateSpecialDeclaredTypeWithScope :: "nat \<Rightarrow> string \<Rightarrow> nat \<Rightarrow> string \<Rightarrow> bindings \<Rightarrow> unit tc" where
  "validateSpecialDeclaredTypeWithScope n raw pos ctxt gs =
     (let s = TrimSpace raw
      in case enclosed ''chan<'' (CHR ''>'') s of
           Some inner \<Rightarrow>
             if inner = [] then invalid_annotation pos ctxt ''channel payload type is required''
             else
               bindT (parseDeclaredType n inner) (\<lambda>payload.
                 if payload = None
                 then invalid_annotation pos ctxt (''unable to parse channel payload type '' @ squoted inner)
                 else
                   bindT (typeAllowsNil n payload) (\<lambda>ok.
                     if ok then retT ()
                     else invalid_annotation pos ctxt ''channel payload must include nil (use chan<...|nil>)''))
         | None \<Rightarrow> (case enclosed ''fn<'' (CHR ''>'') s of
           Some inner \<Rightarrow>
             if inner = [] then invalid_annotation pos ctxt ''function type requires at least one type argument''
             else
               (case splitTypeTopLevel inner (CHR '','') of
                  [] \<Rightarrow> invalid_annotation pos ctxt ''function type requires at least one type argument''
                | r # ps \<Rightarrow>
                    bindT (parseDeclaredTypeWithScope n gs r) (\<lambda>t.
                      if t = None
                      then invalid_annotation pos ctxt (''unable to parse function return type '' @ squoted r)
                      else first_unparsed n gs pos ctxt ps))
         | None \<Rightarrow> retT ()))"

definition validateSpecialDeclaredType :: "nat \<Rightarrow> string \<Rightarrow> nat \<Rightarrow> string \<Rightarrow> unit tc" where
  "validateSpecialDeclaredType n raw pos ctxt =
     bindT (getT currentGenericScope) (validateSpecialDeclaredTypeWithScope n raw pos ctxt)"

definition validateDeclaredTypeShape :: "string \<Rightarrow> nat \<Rightarrow> string \<Rightarrow> unit tc" where
  "validateDeclaredTypeShape raw pos ctxt =
     (let s = TrimSpace raw
      in case enclosed ''list<'' (CHR ''>'') s of
           Some inner \<Rightarrow>
             if length (splitTypeTopLevel inner (CHR '','')) \<noteq> 1
             then invalid_annotation pos ctxt ''list expects exactly one type argument'' else retT ()
         | None \<Rightarrow> (case enclosed ''map<'' (CHR ''>'') s of
           Some inner \<Rightarrow>
             if length (splitTypeTopLevel inner (CHR '','')) \<noteq> 2
             then invalid_annotation pos ctxt ''map expects exactly two type arguments'' else retT ()
         | None \<Rightarrow> retT ()))"

section \<open>Narrowing\<close>

definition both_found :: "tref \<Rightarrow> tref \<Rightarrow> 'a tc \<Rightarrow> (tref \<Rightarrow> tref \<Rightarrow> tnode \<Rightarrow> tnode \<Rightarrow> 'a tc) \<Rightarrow> 'a tc" where
  \<comment> \<open>the two \<open>find\<close>s at the start of a relation, and what it gives if one of them is nil\<close>
  "both_found a b none f =
     bindT (tfind a) (\<lambda>ra. bindT (tfind b) (\<lambda>rb.
       if ra = None \<or> rb = None then none
       else bindT (node_of ra) (\<lambda>u. bindT (node_of rb) (\<lambda>v. f ra rb u v))))"

definition all_pairs :: "(tref \<Rightarrow> tref \<Rightarrow> bool tc) \<Rightarrow> tref list \<Rightarrow> tref list \<Rightarrow> bool tc" where
  "all_pairs f as bs = allT (\<lambda>(a, b). f a b) (zip as bs)"

definition andT :: "bool tc \<Rightarrow> bool tc \<Rightarrow> bool tc" where
  "andT m n = bindT m (\<lambda>ok. if ok then n else retT False)"

fun matchesRefinementTarget :: "nat \<Rightarrow> tref \<Rightarrow> tref \<Rightarrow> bool tc" where
  "matchesRefinementTarget 0 candidate target = deepT"
| "matchesRefinementTarget (Suc n) candidate target =
     both_found candidate target (retT False) (\<lambda>cp tp cf tf.
       let ok = matchesRefinementTarget n
       in if t_kind tf = typeUnion then anyT (ok cp) (t_options tf)
          else if t_kind tf = typeAny \<or> t_kind tf = typeUnknown then retT True
          else if t_kind cf \<noteq> t_kind tf then retT False
          else case t_kind tf of
              typeStruct \<Rightarrow> retT (if t_name tf = [] then True else if t_name cf = [] then False else t_name cf = t_name tf)
            | typeList \<Rightarrow> if t_elem tf = None then retT True else ok (t_elem cf) (t_elem tf)
            | typeTuple \<Rightarrow>
                \<comment> \<open>the branch for a list candidate is behind the comparison of the kinds and never taken\<close>
                if t_kind cf = typeList then allT (ok (t_elem cf)) (t_params tf)
                else if t_kind cf \<noteq> typeTuple \<or> length (t_params cf) \<noteq> length (t_params tf) then retT False
                else all_pairs ok (t_params cf) (t_params tf)
            | typeMap \<Rightarrow>
                bindT (if t_key tf \<noteq> None then ok (t_key cf) (t_key tf) else retT True) (\<lambda>keyOK.
                bindT (if t_val tf \<noteq> None then ok (t_val cf) (t_val tf) else retT True) (\<lambda>valOK.
                  retT (keyOK \<and> valOK)))
            | typeFn \<Rightarrow>
                if t_maxArgs tf = - 1 \<and> t_params tf = [] then retT True
                else if length (t_params cf) \<noteq> length (t_params tf) then retT False
                else andT (all_pairs ok (t_params cf) (t_params tf)) (ok (t_ret cf) (t_ret tf))
            | typeParam \<Rightarrow> retT (cp = tp)
            | _ \<Rightarrow> retT True)"

definition filterT :: "('a \<Rightarrow> bool tc) \<Rightarrow> 'a list \<Rightarrow> 'a list tc" where
  "filterT f xs = bindT (mapT f xs) (\<lambda>bs. retT (map fst (filter snd (zip xs bs))))"

definition union_or_nil :: "nat \<Rightarrow> tref list \<Rightarrow> tref tc" where
  "union_or_nil n opts = (if opts = [] then retT None else unionType n opts)"

definition intersectType :: "nat \<Rightarrow> tref \<Rightarrow> tref \<Rightarrow> tref tc" where
  "intersectType n base target =
     both_found base target (retT base) (\<lambda>bp tp b t.
       if t_kind b = typeAny \<or> t_kind b = typeUnknown then retT tp
       else if t_kind t = typeAny \<or> t_kind t = typeUnknown then retT bp
       else if t_kind b = typeUnion then
         bindT (filterT (\<lambda>opt. matchesRefinementTarget n opt tp) (t_options b)) (union_or_nil n)
       else bindT (matchesRefinementTarget n bp tp) (\<lambda>ok. retT (if ok then bp else None)))"

definition excludeType :: "nat \<Rightarrow> tref \<Rightarrow> tref \<Rightarrow> tref tc" where
  "excludeType n base target =
     both_found base target (retT base) (\<lambda>bp tp b t.
       if t_kind b = typeAny \<or> t_kind b = typeUnknown then retT bp
       else if t_kind b = typeUnion then
         bindT (filterT (\<lambda>opt. bindT (matchesRefinementTarget n opt tp) (\<lambda>ok. retT (\<not> ok))) (t_options b)) (union_or_nil n)
       else bindT (matchesRefinementTarget n bp tp) (\<lambda>ok. retT (if ok then None else bp)))"

section \<open>Compatibility\<close>

definition normalizedDeclaredReturnType :: "nat \<Rightarrow> tref \<Rightarrow> tref tc" where
  "normalizedDeclaredReturnType n t =
     found t (\<lambda>r tn. case tn of
       None \<Rightarrow> retT r
     | Some u \<Rightarrow>
         if t_kind u \<noteq> typeUnion \<or> length (t_options u) < 2 then retT r
         else
           bindT (mapT (\<lambda>opt. found opt (\<lambda>o' on. retT (case on of
               Some v \<Rightarrow> if t_kind v = typeNil then [] else [o'] | None \<Rightarrow> []))) (t_options u)) (\<lambda>outs.
             let withoutNil = concat outs
             in if withoutNil = [] \<or> length withoutNil = length (t_options u) then retT r
                else unionType n withoutNil))"

definition generic_function :: "tnode \<Rightarrow> bool" where
  "generic_function u \<longleftrightarrow> t_maxArgs u = - 1 \<and> t_params u = []"

definition clashing_structs :: "tnode \<Rightarrow> tnode \<Rightarrow> bool" where
  "clashing_structs u v \<longleftrightarrow> t_name u \<noteq> [] \<and> t_name v \<noteq> [] \<and> t_name u \<noteq> t_name v"

definition compatible_shapes :: "nat \<Rightarrow> (tref \<Rightarrow> tref \<Rightarrow> bool tc) \<Rightarrow> tnode \<Rightarrow> tnode \<Rightarrow> bool tc" where
  \<comment> \<open>from the comparison of the kinds on, the same in both relations\<close>
  "compatible_shapes n ok g e =
     (if t_kind g \<noteq> t_kind e then
        if t_kind g = typeTuple \<and> t_kind e = typeList then allT (\<lambda>et. ok et (t_elem e)) (t_params g)
        else if t_kind g = typeList \<and> t_kind e = typeTuple then allT (\<lambda>et. ok (t_elem g) et) (t_params e)
        else retT False
      else case t_kind g of
          typeList \<Rightarrow> ok (t_elem g) (t_elem e)
        | typeTuple \<Rightarrow>
            if length (t_params g) \<noteq> length (t_params e) then retT False else all_pairs ok (t_params g) (t_params e)
        | typeMap \<Rightarrow> andT (ok (t_key g) (t_key e)) (ok (t_val g) (t_val e))
        | typeFn \<Rightarrow>
            if generic_function e \<or> generic_function g then retT True
            else if t_variadic g \<noteq> t_variadic e then retT False
            else if length (t_params g) \<noteq> length (t_params e) then retT False
            else
              andT (all_pairs ok (t_params g) (t_params e))
                (bindT (normalizedDeclaredReturnType n (t_ret g)) (\<lambda>a.
                 bindT (normalizedDeclaredReturnType n (t_ret e)) (ok a)))
        | typeStruct \<Rightarrow> retT (\<not> clashing_structs g e)
        | _ \<Rightarrow> retT True)"

text \<open>\<open>isCompatible\<close>, and \<open>isDeclaredCompatible\<close> if strict: they differ in what nil is compatible with.\<close>

fun compatible :: "bool \<Rightarrow> nat \<Rightarrow> tref \<Rightarrow> tref \<Rightarrow> bool tc" where
  "compatible strict 0 got expected = deepT"
| "compatible strict (Suc n) got expected =
     both_found got expected (retT True) (\<lambda>gp ep g e.
       let ok = compatible strict n
       in if t_kind g = typeNever \<or> t_kind e = typeNever then retT True
          else if gp = ep then retT True
          else if t_kind g \<in> {typeAny, typeUnknown} \<or> t_kind e \<in> {typeAny, typeUnknown} then retT True
          else if t_kind g = typeParam \<or> t_kind e = typeParam then
            retT (\<not> (t_kind g = typeNil \<or> t_kind e = typeNil))
          else if t_kind g = typeUnion then allT (\<lambda>opt. ok opt ep) (t_options g)
          else if t_kind e = typeUnion then anyT (ok gp) (t_options e)
          else if t_kind g = typeNil \<or> t_kind e = typeNil then
            retT (strict \<longrightarrow> t_kind g = typeNil \<and> t_kind e = typeNil)
          else compatible_shapes n ok g e)"

definition isCompatible :: "nat \<Rightarrow> tref \<Rightarrow> tref \<Rightarrow> bool tc" where
  "isCompatible = compatible False"

definition isDeclaredCompatible :: "nat \<Rightarrow> tref \<Rightarrow> tref \<Rightarrow> bool tc" where
  "isDeclaredCompatible = compatible True"

text \<open>The three checks of operands differ in the kinds that they accept at the end.\<close>

fun operands_ok :: "(typeKind \<Rightarrow> typeKind \<Rightarrow> bool) \<Rightarrow> nat \<Rightarrow> tref \<Rightarrow> tref \<Rightarrow> bool tc" where
  "operands_ok rule 0 l r = deepT"
| "operands_ok rule (Suc n) l r =
     both_found l r (retT True) (\<lambda>lp rp u v.
       if t_kind u = typeNever \<or> t_kind v = typeNever then retT True
       else if t_kind u \<in> {typeAny, typeUnknown} \<or> t_kind v \<in> {typeAny, typeUnknown} then retT True
       else if t_kind u = typeUnion then allT (\<lambda>opt. operands_ok rule n opt rp) (t_options u)
       else if t_kind v = typeUnion then allT (operands_ok rule n lp) (t_options v)
       else retT (rule (t_kind u) (t_kind v)))"

definition isPlusCompatible :: "nat \<Rightarrow> tref \<Rightarrow> tref \<Rightarrow> bool tc" where
  "isPlusCompatible = operands_ok (\<lambda>a b. a = typeStr \<or> b = typeStr \<or> (a = b \<and> a \<in> {typeNum, typeList, typeBytes}))"

definition isMulCompatible :: "nat \<Rightarrow> tref \<Rightarrow> tref \<Rightarrow> bool tc" where
  "isMulCompatible = operands_ok (\<lambda>a b. (a = typeStr \<or> a = typeNum) \<and> b = typeNum)"

definition isBitwiseCompatible :: "nat \<Rightarrow> tref \<Rightarrow> tref \<Rightarrow> bool tc" where
  "isBitwiseCompatible = operands_ok (\<lambda>a b. a \<in> {typeNum, typeBytes} \<and> b \<in> {typeNum, typeBytes})"

section \<open>Unification\<close>

definition bindUnknown :: "tref \<Rightarrow> tref \<Rightarrow> bool tc" where
  "bindUnknown u target =
     bindT (tfind u) (\<lambda>u. bindT (tfind target) (\<lambda>target.
       if u = target then retT True
       else thenT (update_node (\<lambda>n. n\<lparr>t_parent := target\<rparr>) u) (retT True)))"

fun unify :: "nat \<Rightarrow> tref \<Rightarrow> tref \<Rightarrow> bool tc" where
  "unify 0 a b = deepT"
| "unify (Suc n) a b =
     both_found a b (retT True) (\<lambda>a b u v.
       if t_kind u = typeNever \<or> t_kind v = typeNever then retT True
       else if a = b then retT True
       else if t_kind u = typeAny \<or> t_kind v = typeAny then retT True
       else if t_kind u = typeParam \<and> t_kind v = typeNil then retT False
       else if t_kind v = typeParam \<and> t_kind u = typeNil then retT False
       else if t_kind u = typeUnion then anyT (\<lambda>opt. isCompatible n opt b) (t_options u)
       else if t_kind v = typeUnion then anyT (isCompatible n a) (t_options v)
       else if t_kind u = typeNil \<or> t_kind v = typeNil then retT True
       else if t_kind u = typeUnknown then bindUnknown a b
       else if t_kind v = typeUnknown then bindUnknown b a
       else if t_kind u = typeParam then bindUnknown a b
       else if t_kind v = typeParam then bindUnknown b a
       else if t_kind u \<noteq> t_kind v then
         if t_kind u = typeTuple \<and> t_kind v = typeList then allT (\<lambda>et. unify n et (t_elem v)) (t_params u)
         else if t_kind u = typeList \<and> t_kind v = typeTuple then allT (unify n (t_elem u)) (t_params v)
         else retT False
       else case t_kind u of
           typeList \<Rightarrow> unify n (t_elem u) (t_elem v)
         | typeTuple \<Rightarrow>
             if length (t_params u) \<noteq> length (t_params v) then retT False
             else all_pairs (unify n) (t_params u) (t_params v)
         | typeMap \<Rightarrow> andT (unify n (t_key u) (t_key v)) (unify n (t_val u) (t_val v))
         | typeFn \<Rightarrow>
             if generic_function u \<or> generic_function v then retT True
             else if t_variadic u \<noteq> t_variadic v then retT False
             else if length (t_params u) \<noteq> length (t_params v) then retT False
             else
               andT (all_pairs (unify n) (t_params u) (t_params v))
                 (bindT (normalizedDeclaredReturnType n (t_ret u)) (\<lambda>x.
                  bindT (normalizedDeclaredReturnType n (t_ret v)) (unify n x)))
         | typeStruct \<Rightarrow> retT (\<not> clashing_structs u v)
         | _ \<Rightarrow> retT True)"

section \<open>The constraints\<close>

definition mismatch_text :: "string \<Rightarrow> string \<Rightarrow> string \<Rightarrow> string" where
  "mismatch_text why left right =
     (if why = ''assignment'' then ''assignment type mismatch: cannot assign '' @ right @ '' to '' @ left
      else if why = ''call argument type'' then ''call argument type mismatch: expected '' @ right @ '', got '' @ left
      else if why = ''call return type'' then ''call return type mismatch: expected '' @ right @ '', got '' @ left
      else if why = ''if condition must be boolean'' then ''if condition type mismatch: expected bool, got '' @ left
      else if why = ''match guard must be boolean'' then ''match guard type mismatch: expected bool, got '' @ left
      else if why = ''select await expects task'' then ''select await type mismatch: expected task, got '' @ left
      else if why = ''prefix numeric operator'' then ''prefix operator type mismatch: expected num, got '' @ left
      else if why = ''numeric operator'' then ''numeric operator type mismatch: expected num, got '' @ left
      else if why = ''logical operator'' then ''logical operator type mismatch: expected bool, got '' @ left
      else if why = ''+ operand compatibility'' then ''operator '' @ squoted ''+'' @ '' type mismatch: '' @ left @ '' vs '' @ right
      else if why = ''comparison operand compatibility''
      then ''comparison operand type mismatch: '' @ left @ '' vs '' @ right
      else ''inferred type mismatch ('' @ why @ ''): '' @ left @ '' vs '' @ right)"

definition renderConstraintMismatch :: "nat \<Rightarrow> tconstraint \<Rightarrow> string tc" where
  "renderConstraintMismatch n cs =
     bindT (describe n (tc_lhs cs)) (\<lambda>l. bindT (describe n (tc_rhs cs)) (\<lambda>r. retT (mismatch_text (tc_reason cs) l r)))"

definition describe_both :: "nat \<Rightarrow> (string \<Rightarrow> string \<Rightarrow> string) \<Rightarrow> typeCheck \<Rightarrow> string tc" where
  "describe_both n msg ck =
     bindT (describe n (ck_first ck)) (\<lambda>a. bindT (describe n (ck_second ck)) (\<lambda>b. retT (msg a b)))"

definition check_pair :: "(tref \<Rightarrow> tref \<Rightarrow> bool tc) \<Rightarrow> (typeCheck \<Rightarrow> string tc) \<Rightarrow> typeCheck \<Rightarrow> unit tc" where
  \<comment> \<open>a diagnostic if the two types do not go together\<close>
  "check_pair ok msg ck =
     bindT (ok (ck_first ck) (ck_second ck)) (\<lambda>fits.
       if fits then retT () else bindT (msg ck) (addDiag (ck_pos ck)))"

definition solve_constraint :: "nat \<Rightarrow> tconstraint \<Rightarrow> unit tc" where
  "solve_constraint n cs =
     bindT (unify n (tc_lhs cs) (tc_rhs cs)) (\<lambda>ok.
       if ok then retT () else bindT (renderConstraintMismatch n cs) (addDiag (tc_pos cs)))"

definition check_call :: "nat \<Rightarrow> typeCheck \<Rightarrow> unit tc" where
  "check_call n =
     check_pair (isCompatible n)
       (describe_both n (\<lambda>a b. ''call argument type mismatch: expected '' @ b @ '', got '' @ a))"

definition check_return :: "nat \<Rightarrow> typeCheck \<Rightarrow> unit tc" where
  "check_return n rc =
     bindT (normalizedDeclaredReturnType n (ck_first rc)) (\<lambda>got.
       check_pair (isDeclaredCompatible n)
         (describe_both n (\<lambda>a b. ''inferred type mismatch (function return annotation): '' @ a @ '' vs '' @ b))
         (rc\<lparr>ck_first := got\<rparr>))"

definition check_plus :: "nat \<Rightarrow> typeCheck \<Rightarrow> unit tc" where
  "check_plus n =
     check_pair (isPlusCompatible n)
       (describe_both n (\<lambda>a b. ''operator '' @ squoted ''+'' @ '' type mismatch: '' @ a @ '' vs '' @ b))"

definition check_mul :: "nat \<Rightarrow> typeCheck \<Rightarrow> unit tc" where
  "check_mul n =
     check_pair (isMulCompatible n)
       (\<lambda>ck. bindT (describe n (ck_first ck)) (\<lambda>a. retT (''numeric operator type mismatch: expected num, got '' @ a)))"

definition check_bitwise :: "nat \<Rightarrow> typeCheck \<Rightarrow> unit tc" where
  "check_bitwise n =
     check_pair (isBitwiseCompatible n)
       (describe_both n (\<lambda>a b. ''bitwise operator type mismatch: '' @ a @ '' vs '' @ b))"

definition solveConstraints :: "nat \<Rightarrow> unit tc" where
  "solveConstraints n =
     thenT (bindT (getT constraints) (eachT (solve_constraint n)))
     (thenT (bindT (getT callChecks) (eachT (check_call n)))
     (thenT (bindT (getT retChecks) (eachT (check_return n)))
     (thenT (bindT (getT plusChecks) (eachT (check_plus n)))
     (thenT (bindT (getT mulChecks) (eachT (check_mul n)))
     (bindT (getT bitChecks) (eachT (check_bitwise n)))))))"

end
