(* ===== verification/Analyzer.thy ===== *)
theory Analyzer
  imports Parser
begin

text \<open>
  \<open>internal/semantic/analyzer.go\<close>: the checks of a program before it runs, without the inferred
  types. The analyzer walks over the tree, sets the flags of calls in tail position, and collects
  errors about \<open>recur\<close>, struct schemas and the tag \<open>@main\<close>; \<open>runtime.go\<close> calls it on trees that
  were parsed without an error, which have no nil statement nodes.

  The walk changes flags and collects errors at the same time. As the checks do not read the
  flags, the two effects are definitions of their own: \<open>annotate\<close> gives the new tree and \<open>walk\<close>
  the errors. An error is a position and a message until the end.
\<close>

type_synonym diag = "nat \<times> string"

definition diagnostic :: "string \<Rightarrow> string \<Rightarrow> diag \<Rightarrow> string" where
  \<comment> \<open>the text that \<open>addErrorAt\<close> appends\<close>
  "diagnostic path src d =
     (let (line, col) = GetLineAndColumn src (fst d)
      in CHR 0x0A # ''ParseError: '' @ snd d @ [CHR 0x0A] @
         ''    --> '' @ path @ '':'' @ show_nat line @ '':'' @ show_nat col @ [CHR 0x0A] @
         GetContextLines src line col)"

section \<open>Tail calls\<close>

definition is_defer :: "stmt \<Rightarrow> bool" where
  "is_defer s = (case s of DeferStatement _ _ _ _ \<Rightarrow> True | _ \<Rightarrow> False)"

definition checkTailCallsInStatement :: "(expr \<Rightarrow> bool \<times> expr) \<Rightarrow> stmt \<Rightarrow> bool \<times> stmt" where
  \<comment> \<open>whether there is a tail call, and the statement with its flags\<close>
  "checkTailCallsInStatement f s =
     (case s of
        ReturnStatement t e \<Rightarrow> map_prod id (ReturnStatement t) (f e)
      | ExpressionStatement t e \<Rightarrow> map_prod id (ExpressionStatement t) (f e)
      | _ \<Rightarrow> (False, s))"

definition checkTailCallsInBlock ::
  "(expr \<Rightarrow> bool \<times> expr) \<Rightarrow> (stmt, expr) BlockStatement option \<Rightarrow> bool \<times> (stmt, expr) BlockStatement option" where
  "checkTailCallsInBlock f b =
     (case b of
        None \<Rightarrow> (False, None)
      | Some b \<Rightarrow>
          (let ss = bs_Statements b
           in if ss = [] \<or> (\<exists>s\<in>set ss. is_defer s) then (False, Some b)
              else
                (let (ok, s) = checkTailCallsInStatement f (last ss)
                 in (ok, Some (BlockStatement (bs_Token b) (butlast ss @ [s]) (bs_IsNursery b) (bs_Limit b))))))"

definition mark_case ::
  "(expr \<Rightarrow> bool \<times> expr) \<Rightarrow> (expr, pattern, (stmt, expr) BlockStatement) MatchCase \<Rightarrow>
   bool \<times> (expr, pattern, (stmt, expr) BlockStatement) MatchCase" where
  "mark_case f c =
     (let (ok, body) = checkTailCallsInBlock f (mc_Body c)
      in (ok, MatchCase (mc_Token c) (mc_Pattern c) (mc_Guard c) body))"

definition statement_expr :: "stmt \<Rightarrow> expr" where
  "statement_expr s = (case s of ReturnStatement _ e \<Rightarrow> e | ExpressionStatement _ e \<Rightarrow> e | _ \<Rightarrow> NoExpr)"

lemma tail_block_cong [fundef_cong]:
  assumes "b = b'" "\<And>c s. b' = Some c \<Longrightarrow> s \<in> set (bs_Statements c) \<Longrightarrow> f (statement_expr s) = g (statement_expr s)"
  shows "checkTailCallsInBlock f b = checkTailCallsInBlock g b'"
proof -
  have "checkTailCallsInStatement f s = checkTailCallsInStatement g s" if "b' = Some c" "s \<in> set (bs_Statements c)" for c s
    using assms(2) [OF that] by (simp add: checkTailCallsInStatement_def statement_expr_def split: stmt.splits)
  then show ?thesis using assms(1) by (auto simp: checkTailCallsInBlock_def Let_def split: option.split)
qed

lemma mark_cases_cong [fundef_cong]:
  assumes "cs = cs'"
    "\<And>m c s. m \<in> set cs' \<Longrightarrow> mc_Body m = Some c \<Longrightarrow> s \<in> set (bs_Statements c) \<Longrightarrow> f (statement_expr s) = g (statement_expr s)"
  shows "map (mark_case f) cs = map (mark_case g) cs'"
proof (rule map_cong [OF assms(1)])
  fix m assume "m \<in> set cs'"
  then show "mark_case f m = mark_case g m"
    unfolding mark_case_def using assms(2) by (subst tail_block_cong [OF refl, of "mc_Body m" f g]) auto
qed

lemma size_statement_expr: "size (statement_expr s) \<le> size s"
  by (cases s) (simp_all add: statement_expr_def)

lemma size_block_expr [part_size]:
  "s \<in> set (bs_Statements b) \<Longrightarrow> size (statement_expr s) < size_BlockStatement size size b"
  using size_block(2) [of s b] size_statement_expr [of s] by simp

lemma size_case_expr [part_size]:
  "m \<in> set cs \<Longrightarrow> mc_Body m = Some b \<Longrightarrow> s \<in> set (bs_Statements b) \<Longrightarrow>
     size (statement_expr s) < size_list (size_MatchCase size size (size_BlockStatement size size)) cs"
  using size_match_case(4) [of m cs b s] size_statement_expr [of s] by simp

function markTailCall :: "expr \<Rightarrow> bool \<times> expr" where
  "markTailCall e =
     (case e of
        CallExpression t f args _ \<Rightarrow> (True, CallExpression t f args True)
      | RecurExpression _ _ \<Rightarrow> (True, e)
      | IfExpression t c th el \<Rightarrow>
          (let (thenHas, th) = checkTailCallsInBlock markTailCall th;
               (elseHas, el) = checkTailCallsInBlock markTailCall el
           in (thenHas \<or> elseHas, IfExpression t c th el))
      | MatchExpression t v cs \<Rightarrow>
          (let marked = map (mark_case markTailCall) cs
           in (\<exists>m\<in>set marked. fst m, MatchExpression t v (map snd marked)))
      | _ \<Rightarrow> (False, e))"
  by pat_completeness auto
termination
  by (relation "measure size") (simp_all add: part_size less_SucI trans_less_add1 trans_less_add2)

declare markTailCall.simps [simp del]

definition tail_flags ::
  "(stmt, expr) BlockStatement option \<Rightarrow> bool \<Rightarrow> bool \<times> (stmt, expr) BlockStatement option" where
  \<comment> \<open>\<open>setTailCallFlags\<close>: the flag and the body of a function literal after it\<close>
  "tail_flags body tail =
     (case body of
        None \<Rightarrow> (tail, body)
      | Some b \<Rightarrow> if bs_Statements b = [] then (tail, body) else checkTailCallsInBlock markTailCall body)"

lemma size_last_update:
  "xs \<noteq> [] \<Longrightarrow> f y = f (last xs) \<Longrightarrow> size_list f (butlast xs @ [y]) = size_list f xs"
  by (induction xs rule: rev_induct) (simp_all add: size_list_append)

lemma size_tail_statement:
  "size (snd (f (statement_expr s))) = size (statement_expr s) \<Longrightarrow> size (snd (checkTailCallsInStatement f s)) = size s"
  by (cases s) (simp_all add: checkTailCallsInStatement_def statement_expr_def)

lemma size_tail_block:
  assumes "\<And>c s. b = Some c \<Longrightarrow> s \<in> set (bs_Statements c) \<Longrightarrow> size (snd (f (statement_expr s))) = size (statement_expr s)"
  shows "size_option (size_BlockStatement size size) (snd (checkTailCallsInBlock f b)) =
    size_option (size_BlockStatement size size) b"
proof (cases b)
  case (Some c)
  obtain t ss n l where c: "c = BlockStatement t ss n l" by (cases c) blast
  show ?thesis
  proof (cases "ss = [] \<or> (\<exists>s\<in>set ss. is_defer s)")
    case True then show ?thesis using Some c by (simp add: checkTailCallsInBlock_def)
  next
    case False
    obtain ok s where s: "checkTailCallsInStatement f (last ss) = (ok, s)" by fastforce
    have "size s = size (last ss)" using size_tail_statement [of f "last ss"] assms [OF Some, of "last ss"] False c s by simp
    then have "size_list size (butlast ss @ [s]) = size_list size ss" using False by (intro size_last_update) simp_all
    then show ?thesis using Some c False s by (simp add: checkTailCallsInBlock_def del: size_list_append)
  qed
qed (simp add: checkTailCallsInBlock_def)

lemma size_markTailCall: "size (snd (markTailCall e)) = size e"
proof (induction e rule: measure_induct_rule [of size])
  case (less e)
  show ?case
  proof (cases e)
    case (IfExpression t c th el)
    have sub: "size_option (size_BlockStatement size size) (snd (checkTailCallsInBlock markTailCall b)) =
        size_option (size_BlockStatement size size) b" if "b \<in> {th, el}" for b
    proof (rule size_tail_block)
      fix c s assume "b = Some c" "s \<in> set (bs_Statements c)"
      then have "size (statement_expr s) < size e"
        using size_block_expr [of s c] that IfExpression by (auto simp: less_SucI trans_less_add1 trans_less_add2)
      then show "size (snd (markTailCall (statement_expr s))) = size (statement_expr s)" by (rule less.IH)
    qed
    obtain a th' b el' where "checkTailCallsInBlock markTailCall th = (a, th')" "checkTailCallsInBlock markTailCall el = (b, el')"
      by fastforce
    then show ?thesis unfolding markTailCall.simps [of e] using IfExpression sub [of th] sub [of el] by simp
  next
    case (MatchExpression t v cs)
    have sub: "size_MatchCase size size (size_BlockStatement size size) (snd (mark_case markTailCall m)) =
        size_MatchCase size size (size_BlockStatement size size) m" if m: "m \<in> set cs" for m
    proof -
      have "size_option (size_BlockStatement size size) (snd (checkTailCallsInBlock markTailCall (mc_Body m))) =
          size_option (size_BlockStatement size size) (mc_Body m)"
      proof (rule size_tail_block)
        fix c s assume "mc_Body m = Some c" "s \<in> set (bs_Statements c)"
        then have "size (statement_expr s) < size e"
          using size_case_expr [OF m, of c s] MatchExpression by (simp add: less_SucI trans_less_add1)
        then show "size (snd (markTailCall (statement_expr s))) = size (statement_expr s)" by (rule less.IH)
      qed
      moreover obtain ok body where "checkTailCallsInBlock markTailCall (mc_Body m) = (ok, body)" by fastforce
      ultimately show ?thesis by (cases m) (simp add: mark_case_def)
    qed
    then have "size_list (size_MatchCase size size (size_BlockStatement size size)) (map (snd \<circ> mark_case markTailCall) cs) =
        size_list (size_MatchCase size size (size_BlockStatement size size)) cs"
      by (induction cs) simp_all
    then show ?thesis unfolding markTailCall.simps [of e] using MatchExpression by simp
  qed (simp_all add: markTailCall.simps)
qed

lemma size_tail_flags [part_size]:
  "s \<in> set (bs_Statements c) \<Longrightarrow> snd (tail_flags body tail) = Some c \<Longrightarrow>
     size s < size_option (size_BlockStatement size size) body"
proof -
  assume s: "s \<in> set (bs_Statements c)" and c: "snd (tail_flags body tail) = Some c"
  have "size_option (size_BlockStatement size size) (snd (tail_flags body tail)) = size_option (size_BlockStatement size size) body"
    by (simp add: tail_flags_def size_tail_block size_markTailCall split: option.split)
  then show ?thesis using size_block(2) [OF s] c by simp
qed

section \<open>The walk\<close>

text \<open>The tree with its flags set, as \<open>walkStatementForFunctions\<close> and \<open>walkExpressionForFunctions\<close> leave it.\<close>

definition in_block :: "(stmt \<Rightarrow> stmt) \<Rightarrow> (stmt, expr) BlockStatement \<Rightarrow> (stmt, expr) BlockStatement" where
  "in_block g b = BlockStatement (bs_Token b) (map g (bs_Statements b)) (bs_IsNursery b) (bs_Limit b)"

lemma in_block_cong [fundef_cong]:
  "b = b' \<Longrightarrow> (\<And>s. s \<in> set (bs_Statements b') \<Longrightarrow> g s = g' s) \<Longrightarrow> in_block g b = in_block g' b'"
  by (simp add: in_block_def)

definition annotate_field :: "(expr \<Rightarrow> expr) \<Rightarrow> expr StructField \<Rightarrow> expr StructField" where
  "annotate_field f x = StructField (sf_Token x) (sf_Name x) (sf_Type x) (f (sf_Default x))"

definition annotate_init :: "(expr \<Rightarrow> expr) \<Rightarrow> expr StructInitField \<Rightarrow> expr StructInitField" where
  "annotate_init f x = StructInitField (si_Token x) (si_Name x) (f (si_Value x))"

definition annotate_case ::
  "(expr \<Rightarrow> expr) \<Rightarrow> (stmt \<Rightarrow> stmt) \<Rightarrow> (expr, pattern, (stmt, expr) BlockStatement) MatchCase \<Rightarrow>
   (expr, pattern, (stmt, expr) BlockStatement) MatchCase" where
  "annotate_case f g c =
     MatchCase (mc_Token c) (mc_Pattern c) (f (mc_Guard c)) (map_option (in_block g) (mc_Body c))"

definition annotate_select :: "(expr \<Rightarrow> expr) \<Rightarrow> expr SelectCase \<Rightarrow> expr SelectCase" where
  "annotate_select f c =
     SelectCase (sc_Token c) (sc_Kind c) (f (sc_Channel c)) (f (sc_Value c)) (f (sc_After c)) (f (sc_Await c))
       (f (sc_Handler c))"

lemma annotate_fields_cong [fundef_cong]:
  "xs = xs' \<Longrightarrow> (\<And>x. x \<in> set xs' \<Longrightarrow> f (sf_Default x) = f' (sf_Default x)) \<Longrightarrow>
     map (annotate_field f) xs = map (annotate_field f') xs'"
  by (simp add: annotate_field_def)

lemma annotate_inits_cong [fundef_cong]:
  "xs = xs' \<Longrightarrow> (\<And>x. x \<in> set xs' \<Longrightarrow> f (si_Value x) = f' (si_Value x)) \<Longrightarrow>
     map (annotate_init f) xs = map (annotate_init f') xs'"
  by (simp add: annotate_init_def)

lemma annotate_cases_cong [fundef_cong]:
  assumes "xs = xs'" "\<And>x. x \<in> set xs' \<Longrightarrow> f (mc_Guard x) = f' (mc_Guard x)"
    "\<And>x b s. x \<in> set xs' \<Longrightarrow> mc_Body x = Some b \<Longrightarrow> s \<in> set (bs_Statements b) \<Longrightarrow> g s = g' s"
  shows "map (annotate_case f g) xs = map (annotate_case f' g') xs'"
  using assms by (auto simp: annotate_case_def in_block_def intro!: option.map_cong_simp)

lemma annotate_selects_cong [fundef_cong]:
  "xs = xs' \<Longrightarrow> (\<And>x e. x \<in> set xs' \<Longrightarrow> e \<in> {sc_Channel x, sc_Value x, sc_After x, sc_Await x, sc_Handler x} \<Longrightarrow> f e = f' e) \<Longrightarrow>
     map (annotate_select f) xs = map (annotate_select f') xs'"
  by (simp add: annotate_select_def)

function annotate :: "expr \<Rightarrow> expr"
and annotate_stmt :: "stmt \<Rightarrow> stmt" where
  "annotate e =
     (case e of
        FunctionLiteral t tps sig ps rt body tail \<Rightarrow>
          FunctionLiteral t tps sig ps rt (map_option (in_block annotate_stmt) (snd (tail_flags body tail)))
            (fst (tail_flags body tail))
      | StructSchemaExpression t fs \<Rightarrow> StructSchemaExpression t (map (annotate_field annotate) fs)
      | StructInitExpression t s fs \<Rightarrow> StructInitExpression t (annotate s) (map (annotate_init annotate) fs)
      | StructCopyExpression t s fs \<Rightarrow> StructCopyExpression t (annotate s) (annotate fs)
      | VarExpression tags t p ty v d h \<Rightarrow> VarExpression tags t p ty (annotate v) d h
      | ValExpression tags t p ty v d h \<Rightarrow> ValExpression tags t p ty (annotate v) d h
      | IfExpression t c th el \<Rightarrow>
          IfExpression t (annotate c) (map_option (in_block annotate_stmt) th) (map_option (in_block annotate_stmt) el)
      | MatchExpression t v cs \<Rightarrow> MatchExpression t (annotate v) (map (annotate_case annotate annotate_stmt) cs)
      | SelectExpression t cs \<Rightarrow> SelectExpression t (map (annotate_select annotate) cs)
      | CallExpression t f args tail \<Rightarrow> CallExpression t (annotate f) (map annotate args) tail
      | TypeApplicationExpression t f args \<Rightarrow> TypeApplicationExpression t (annotate f) args
      | InfixExpression t l op r \<Rightarrow> InfixExpression t (annotate l) op (annotate r)
      | PrefixExpression t op r \<Rightarrow> PrefixExpression t op (annotate r)
      | ListLiteral t es \<Rightarrow> ListLiteral t (map annotate es)
      | MapLiteral t ps \<Rightarrow> MapLiteral t (map (\<lambda>kv. (annotate (fst kv), annotate (snd kv))) ps)
      | IndexExpression t l i dot \<Rightarrow> IndexExpression t (annotate l) (annotate i) dot
      | SliceExpression t a b c \<Rightarrow> SliceExpression t (annotate a) (annotate b) (annotate c)
      | SpreadExpression t v \<Rightarrow> SpreadExpression t (annotate v)
      | BlockExpr b \<Rightarrow> BlockExpr (in_block annotate_stmt b)
      | _ \<Rightarrow> e)"
| "annotate_stmt s =
     (case s of
        ExpressionStatement t e \<Rightarrow> ExpressionStatement t (annotate e)
      | ReturnStatement t e \<Rightarrow> ReturnStatement t (annotate e)
      | ThrowStatement t e \<Rightarrow> ThrowStatement t (annotate e)
      | BlockStmt b \<Rightarrow> BlockStmt (in_block annotate_stmt b)
      | DeferStatement t call mode n \<Rightarrow> DeferStatement t (annotate_stmt call) mode n
      | _ \<Rightarrow> s)"
  by pat_completeness auto
termination
  by (relation "measure (\<lambda>x. case x of Inl e \<Rightarrow> size e | Inr s \<Rightarrow> size s)")
    (simp_all add: part_size less_SucI trans_less_add1 trans_less_add2)

declare annotate.simps [simp del] annotate_stmt.simps [simp del]

section \<open>Where recur may stand\<close>

definition recur_block :: "bool \<Rightarrow> stmt list \<Rightarrow> (expr \<times> bool) list" where
  \<comment> \<open>\<open>validateRecurInBlock\<close> and \<open>validateRecurInStatement\<close>: the expressions they look at, and whether in tail position\<close>
  "recur_block inTail ss =
     concat (map (\<lambda>(i, s). case s of
         ReturnStatement _ e \<Rightarrow> [(e, True)]
       | ExpressionStatement _ e \<Rightarrow> [(e, inTail \<and> i = length ss - 1)]
       | _ \<Rightarrow> []) (enumerate 0 ss))"

definition block_statements :: "(stmt, expr) BlockStatement option \<Rightarrow> stmt list" where
  "block_statements b = (case b of None \<Rightarrow> [] | Some b \<Rightarrow> bs_Statements b)"

definition recur_select :: "bool \<Rightarrow> expr SelectCase \<Rightarrow> (expr \<times> bool) list" where
  "recur_select inTail c =
     (case sc_Kind c of
        SelectRecv \<Rightarrow> [(sc_Channel c, False)]
      | SelectSend \<Rightarrow> [(sc_Channel c, False), (sc_Value c, False)]
      | SelectAfter \<Rightarrow> [(sc_After c, False)]
      | SelectAwait \<Rightarrow> [(sc_Await c, False)]
      | SelectDefault \<Rightarrow> []) @ [(sc_Handler c, inTail)]"

definition recur_children :: "expr \<Rightarrow> bool \<Rightarrow> (expr \<times> bool) list" where
  \<comment> \<open>the calls of \<open>validateRecurInExpr\<close> on the parts of an expression\<close>
  "recur_children e inTail =
     (case e of
        IfExpression _ c th el \<Rightarrow>
          (c, False) # recur_block inTail (block_statements th) @ recur_block inTail (block_statements el)
      | MatchExpression _ v cs \<Rightarrow>
          (v, False) # concat (map (\<lambda>c. (mc_Guard c, False) # recur_block inTail (block_statements (mc_Body c))) cs)
      | SelectExpression _ cs \<Rightarrow> concat (map (recur_select inTail) cs)
      | CallExpression _ f args _ \<Rightarrow> (f, False) # map (\<lambda>a. (a, False)) args
      | TypeApplicationExpression _ f _ \<Rightarrow> [(f, False)]
      | PrefixExpression _ _ r \<Rightarrow> [(r, False)]
      | InfixExpression _ l _ r \<Rightarrow> [(l, False), (r, False)]
      | ListLiteral _ es \<Rightarrow> map (\<lambda>a. (a, False)) es
      | MapLiteral _ ps \<Rightarrow> concat (map (\<lambda>kv. [(fst kv, False), (snd kv, False)]) ps)
      | IndexExpression _ l i _ \<Rightarrow> [(l, False), (i, False)]
      | SliceExpression _ a b c \<Rightarrow> [(a, False), (b, False), (c, False)]
      | SpreadExpression _ v \<Rightarrow> [(v, False)]
      | FunctionLiteral _ _ _ _ _ body _ \<Rightarrow> recur_block True (block_statements body)
      | _ \<Rightarrow> [])"


lemma size_recur_block:
  assumes "(e, b) \<in> set (recur_block inTail ss)"
  shows "size e < size_list size ss"
proof -
  obtain i s where i: "(i, s) \<in> set (enumerate 0 ss)"
    and e: "(e, b) \<in> set (case s of ReturnStatement _ e \<Rightarrow> [(e, True)]
         | ExpressionStatement _ e \<Rightarrow> [(e, inTail \<and> i = length ss - Suc 0)] | _ \<Rightarrow> [])"
    using assms by (auto simp: recur_block_def)
  have "s \<in> set ss" using i by (auto simp: in_set_enumerate_eq)
  moreover have "size e < size s" using e by (cases s) simp_all
  ultimately show ?thesis using size_mem [of s ss size] by simp
qed

lemma size_recur_body:
  "(e, b) \<in> set (recur_block inTail (block_statements body)) \<Longrightarrow> size e < size_option (size_BlockStatement size size) body"
proof (cases body)
  case (Some c)
  assume "(e, b) \<in> set (recur_block inTail (block_statements body))"
  from size_recur_block [OF this] show ?thesis using Some by (cases c) (simp add: block_statements_def)
qed (simp add: block_statements_def recur_block_def)

lemma size_recur_case:
  assumes "m \<in> set cs" "(e, b) \<in> set (recur_block inTail (block_statements (mc_Body m)))"
  shows "size e < size_list (size_MatchCase size size (size_BlockStatement size size)) cs"
  using size_mem [OF assms(1), of "size_MatchCase size size (size_BlockStatement size size)"] size_recur_body [OF assms(2)]
  by (cases m) simp

lemma recur_select_parts:
  "(c, b) \<in> set (recur_select inTail x) \<Longrightarrow> c \<in> {sc_Channel x, sc_Value x, sc_After x, sc_Await x, sc_Handler x}"
  by (cases "sc_Kind x") (auto simp: recur_select_def)

lemma size_pair_parts:
  "(a, b) \<in> set xs \<Longrightarrow> size a < size_list (size_prod size size) xs"
  "(a, b) \<in> set xs \<Longrightarrow> size b < size_list (size_prod size size) xs"
  using size_pairs [of "(a, b)" xs] by simp_all

lemmas parts_below = size_field size_init_field size_match_case(1) size_select_case size_pairs size_pair_parts
  size_member size_block(2) less_SucI trans_less_add1 trans_less_add2

lemma size_recur_children: "(c, b) \<in> set (recur_children e inTail) \<Longrightarrow> size c < size e"
proof (cases e)
  case (SelectExpression t cs)
  assume "(c, b) \<in> set (recur_children e inTail)"
  then obtain x where x: "x \<in> set cs" "c \<in> {sc_Channel x, sc_Value x, sc_After x, sc_Await x, sc_Handler x}"
    using SelectExpression by (auto simp: recur_children_def dest: recur_select_parts)
  show ?thesis using size_select_case [OF x] SelectExpression by simp
qed (auto simp: recur_children_def parts_below dest: size_recur_body size_recur_case)

function validateRecurInExpr :: "expr \<Rightarrow> bool \<Rightarrow> diag list" where
  "validateRecurInExpr e inTail =
     (case e of
        RecurExpression t _ \<Rightarrow>
          if inTail then [] else [(tok_Position t, squoted ''recur'' @ '' is only allowed in tail position'')]
      | _ \<Rightarrow> concat (map (\<lambda>(c, b). validateRecurInExpr c b) (recur_children e inTail)))"
  by pat_completeness auto
termination
  by (relation "measure (size \<circ> fst)") (auto dest: size_recur_children)

declare validateRecurInExpr.simps [simp del]

definition validateRecurUsage :: "(stmt, expr) BlockStatement option \<Rightarrow> diag list" where
  \<comment> \<open>given the body of the function\<close>
  "validateRecurUsage body =
     concat (map (\<lambda>(c, b). validateRecurInExpr c b) (recur_block True (block_statements body)))"

section \<open>The errors of the walk\<close>

definition walk_children :: "expr + stmt \<Rightarrow> (expr + stmt) list" where
  \<comment> \<open>the parts of a node that the two walk methods visit, in order\<close>
  "walk_children n =
     (case n of
        Inl e \<Rightarrow>
          (case e of
             FunctionLiteral _ _ _ _ _ body _ \<Rightarrow> map Inr (block_statements body)
           | StructSchemaExpression _ fs \<Rightarrow> map (\<lambda>f. Inl (sf_Default f)) fs
           | StructInitExpression _ s fs \<Rightarrow> Inl s # map (\<lambda>f. Inl (si_Value f)) fs
           | StructCopyExpression _ s fs \<Rightarrow> [Inl s, Inl fs]
           | VarExpression _ _ _ _ v _ _ \<Rightarrow> [Inl v]
           | ValExpression _ _ _ _ v _ _ \<Rightarrow> [Inl v]
           | IfExpression _ c th el \<Rightarrow> Inl c # map Inr (block_statements th @ block_statements el)
           | MatchExpression _ v cs \<Rightarrow>
               Inl v # concat (map (\<lambda>c. Inl (mc_Guard c) # map Inr (block_statements (mc_Body c))) cs)
           | SelectExpression _ cs \<Rightarrow>
               concat (map (\<lambda>c. map Inl [sc_Channel c, sc_Value c, sc_After c, sc_Await c, sc_Handler c]) cs)
           | CallExpression _ f args _ \<Rightarrow> map Inl (f # args)
           | TypeApplicationExpression _ f _ \<Rightarrow> [Inl f]
           | InfixExpression _ l _ r \<Rightarrow> [Inl l, Inl r]
           | PrefixExpression _ _ r \<Rightarrow> [Inl r]
           | ListLiteral _ es \<Rightarrow> map Inl es
           | MapLiteral _ ps \<Rightarrow> concat (map (\<lambda>kv. [Inl (fst kv), Inl (snd kv)]) ps)
           | IndexExpression _ l i _ \<Rightarrow> [Inl l, Inl i]
           | SliceExpression _ a b c \<Rightarrow> [Inl a, Inl b, Inl c]
           | SpreadExpression _ v \<Rightarrow> [Inl v]
           | BlockExpr b \<Rightarrow> map Inr (bs_Statements b)
           | _ \<Rightarrow> [])
      | Inr s \<Rightarrow>
          (case s of
             ExpressionStatement _ e \<Rightarrow> [Inl e]
           | ReturnStatement _ e \<Rightarrow> [Inl e]
           | ThrowStatement _ e \<Rightarrow> [Inl e]
           | BlockStmt b \<Rightarrow> map Inr (bs_Statements b)
           | DeferStatement _ call _ _ \<Rightarrow> [Inr call]
           | _ \<Rightarrow> []))"

definition node_size :: "expr + stmt \<Rightarrow> nat" where
  "node_size n = (case n of Inl e \<Rightarrow> size e | Inr s \<Rightarrow> size s)"

lemma size_block_statements [part_size]:
  "s \<in> set (block_statements b) \<Longrightarrow> size s < size_option (size_BlockStatement size size) b"
  using size_block(2) by (cases b) (fastforce simp: block_statements_def)+

lemma size_case_statements [part_size]:
  "m \<in> set cs \<Longrightarrow> s \<in> set (block_statements (mc_Body m)) \<Longrightarrow>
     size s < size_list (size_MatchCase size size (size_BlockStatement size size)) cs"
  using size_match_case(4) [of m cs _ s] by (cases "mc_Body m") (auto simp: block_statements_def)

lemma walk_children_size: "c \<in> set (walk_children n) \<Longrightarrow> node_size c < node_size n"
proof (cases n)
  case (Inl e)
  assume "c \<in> set (walk_children n)"
  then show ?thesis unfolding Inl
    by (cases e) (auto simp: walk_children_def node_size_def parts_below size_block_statements size_case_statements)
next
  case (Inr s)
  assume "c \<in> set (walk_children n)"
  then show ?thesis unfolding Inr
    by (cases s) (auto simp: walk_children_def node_size_def parts_below)
qed

definition walk_own :: "expr + stmt \<Rightarrow> diag list" where
  "walk_own n = (case n of Inl (FunctionLiteral _ _ _ _ _ body _) \<Rightarrow> validateRecurUsage body | _ \<Rightarrow> [])"

function walk :: "expr + stmt \<Rightarrow> diag list" where
  \<comment> \<open>\<open>walkExpressionForFunctions\<close> and \<open>walkStatementForFunctions\<close>\<close>
  "walk n = walk_own n @ concat (map walk (walk_children n))"
  by pat_completeness auto
termination
  by (relation "measure node_size") (auto dest: walk_children_size)

declare walk.simps [simp del]

section \<open>Struct schemas\<close>

definition schema_children :: "expr + stmt \<Rightarrow> (expr + stmt) list" where
  \<comment> \<open>the parts that \<open>containsStructSchema\<close> and \<open>containsStructSchemaInStatement\<close> look into\<close>
  "schema_children n =
     (case n of
        Inl e \<Rightarrow>
          (case e of
             StructInitExpression _ s fs \<Rightarrow> Inl s # map (\<lambda>f. Inl (si_Value f)) fs
           | StructCopyExpression _ s fs \<Rightarrow> [Inl s, Inl fs]
           | FunctionLiteral _ _ _ _ _ body _ \<Rightarrow> map Inr (block_statements body)
           | BlockExpr b \<Rightarrow> map Inr (bs_Statements b)
           | CallExpression _ f args _ \<Rightarrow> map Inl (f # args)
           | TypeApplicationExpression _ f _ \<Rightarrow> [Inl f]
           | InfixExpression _ l _ r \<Rightarrow> [Inl l, Inl r]
           | PrefixExpression _ _ r \<Rightarrow> [Inl r]
           | IfExpression _ c th el \<Rightarrow> Inl c # map Inr (block_statements th @ block_statements el)
           | MatchExpression _ v cs \<Rightarrow>
               Inl v # concat (map (\<lambda>c. Inl (mc_Guard c) # map Inr (block_statements (mc_Body c))) cs)
           | ListLiteral _ es \<Rightarrow> map Inl es
           | MapLiteral _ ps \<Rightarrow> concat (map (\<lambda>kv. [Inl (fst kv), Inl (snd kv)]) ps)
           | IndexExpression _ l i _ \<Rightarrow> [Inl l, Inl i]
           | SliceExpression _ a b c \<Rightarrow> [Inl a, Inl b, Inl c]
           | SpreadExpression _ v \<Rightarrow> [Inl v]
           | _ \<Rightarrow> [])
      | Inr s \<Rightarrow>
          (case s of
             ExpressionStatement _ e \<Rightarrow> [Inl e]
           | ReturnStatement _ e \<Rightarrow> [Inl e]
           | ThrowStatement _ e \<Rightarrow> [Inl e]
           | BlockStmt b \<Rightarrow> map Inr (bs_Statements b)
           | DeferStatement _ call _ _ \<Rightarrow> [Inr call]
           | _ \<Rightarrow> []))"

lemma schema_children_walk: "set (schema_children n) \<subseteq> set (walk_children n)"
  by (auto simp: schema_children_def walk_children_def split: sum.splits expr.splits stmt.splits)

definition is_schema :: "expr \<Rightarrow> bool" where
  "is_schema e = (case e of StructSchemaExpression _ _ \<Rightarrow> True | _ \<Rightarrow> False)"

function containsStructSchema :: "expr + stmt \<Rightarrow> bool" where
  "containsStructSchema n \<longleftrightarrow>
     (case n of Inl e \<Rightarrow> is_schema e | _ \<Rightarrow> False) \<or> (\<exists>c\<in>set (schema_children n). containsStructSchema c)"
  by pat_completeness auto
termination
  by (relation "measure node_size") (use schema_children_walk in \<open>auto dest: walk_children_size\<close>)

declare containsStructSchema.simps [simp del]

definition schema_error :: "Token \<Rightarrow> expr + stmt \<Rightarrow> diag list" where
  "schema_error t n =
     (if containsStructSchema n
      then [(tok_Position t, ''struct schemas are only allowed on the right-hand side of val/var bindings'')] else [])"

definition schema_binding :: "Token \<Rightarrow> expr \<Rightarrow> diag list" where
  "schema_binding t v = (if is_schema v then [] else schema_error t (Inl v))"

function validateStructSchemaInStatement :: "stmt \<Rightarrow> diag list" where
  "validateStructSchemaInStatement s =
     (case s of
        ExpressionStatement t e \<Rightarrow>
          (case e of
             VarExpression _ t' _ _ v _ _ \<Rightarrow> schema_binding t' v
           | ValExpression _ t' _ _ v _ _ \<Rightarrow> schema_binding t' v
           | _ \<Rightarrow> schema_error t (Inl e))
      | ReturnStatement t e \<Rightarrow> schema_error t (Inl e)
      | ThrowStatement t e \<Rightarrow> schema_error t (Inl e)
      | BlockStmt b \<Rightarrow> concat (map validateStructSchemaInStatement (bs_Statements b))
      | DeferStatement t call _ _ \<Rightarrow> schema_error t (Inr call)
      | _ \<Rightarrow> [])"
  by pat_completeness auto
termination
  by (relation "measure size") (simp_all add: part_size less_SucI)

declare validateStructSchemaInStatement.simps [simp del]

section \<open>The main function\<close>

definition findTagByName :: "expr Tag list \<Rightarrow> string \<Rightarrow> expr Tag option" where
  "findTagByName tags name = find (\<lambda>t. t \<noteq> nilTag \<and> tag_Name t = name) tags"

definition check_main :: "expr Tag list \<Rightarrow> string option \<Rightarrow> nat \<times> diag list \<Rightarrow> nat \<times> diag list" where
  \<comment> \<open>the count and the errors after a declaration with the tags, given the complaint about what it declares\<close>
  "check_main tags complaint st =
     (case (findTagByName tags ''@main'', st) of
        (None, _) \<Rightarrow> st
      | (Some t, (n, errs)) \<Rightarrow>
          (let err = (\<lambda>m. (tok_Position (tag_Token t), m))
           in (n + 1,
               errs @
               (if n + 1 > 1 then [err ''a module may define at most one @main function'']
                else case complaint of None \<Rightarrow> [] | Some m \<Rightarrow> [err m]))))"

definition main_arity :: "FSig \<Rightarrow> string option" where
  "main_arity sig =
     (if sig_Min sig \<noteq> 0 then Some ''@main function must be callable with zero arguments'' else None)"

definition validateMainOnBinding :: "expr Tag list \<Rightarrow> expr \<Rightarrow> nat \<times> diag list \<Rightarrow> nat \<times> diag list" where
  "validateMainOnBinding tags value =
     check_main tags
       (case value of
          FunctionLiteral _ _ sig _ _ _ _ \<Rightarrow> main_arity sig
        | _ \<Rightarrow> Some ''@main may only annotate functions'')"

definition validateMainTag :: "nat \<times> diag list \<Rightarrow> stmt \<Rightarrow> nat \<times> diag list" where
  "validateMainTag st s =
     (case s of
        ExpressionStatement _ e \<Rightarrow>
          (case e of
             ValExpression tags _ _ _ v _ _ \<Rightarrow> validateMainOnBinding tags v st
           | VarExpression tags _ _ _ v _ _ \<Rightarrow> validateMainOnBinding tags v st
           | _ \<Rightarrow> st)
      | ForeignFunctionDeclaration tags _ _ _ _ _ sig _ _ \<Rightarrow> check_main tags (main_arity sig) st
      | _ \<Rightarrow> st)"

definition validateMainTagUsage :: "stmt list \<Rightarrow> diag list" where
  "validateMainTagUsage ss = snd (foldl validateMainTag (0, []) ss)"

section \<open>The analysis\<close>

definition annotateAndValidateFunctions :: "stmt list \<Rightarrow> stmt list \<times> diag list" where
  "annotateAndValidateFunctions ss = (map annotate_stmt ss, concat (map (\<lambda>s. walk (Inr s)) ss))"

definition validateStructSchemaUsage :: "stmt list \<Rightarrow> diag list" where
  "validateStructSchemaUsage ss = concat (map validateStructSchemaInStatement ss)"

definition Analyze :: "string \<Rightarrow> string \<Rightarrow> Program \<Rightarrow> Program \<times> string list" where
  \<comment> \<open>the program with its flags, and the errors\<close>
  "Analyze path src program =
     (let (ss, errs) = annotateAndValidateFunctions (Statements program)
      in (program\<lparr>Statements := ss\<rparr>,
          map (diagnostic path src) (errs @ validateStructSchemaUsage ss @ validateMainTagUsage ss)))"

end
