(* ===== verification/Module_Symbols.thy ===== *)
theory Module_Symbols
  imports Lexer Parser
begin

text \<open>
  \<open>internal/modulemeta/modulemeta.go\<close>: the exported symbols of a module, from its source. The
  files in which \<open>ResolveModuleSource\<close> looks for a module are not modelled.
\<close>

record Callable =
  cb_Name :: string
  cb_TypeParams :: "string list"
  cb_Parameters :: "expr FunctionParameter list"
  cb_ReturnType :: string
  cb_Signature :: FSig

record Symbol =
  sym_Name :: string
  sym_Kind :: string
  sym_Start :: nat
  sym_End :: nat
  sym_ScopeDepth :: nat
  sym_Callables :: "Callable list"

definition hasTag :: "expr Tag list \<Rightarrow> string \<Rightarrow> bool" where
  "hasTag tags nm \<longleftrightarrow> (\<exists>t\<in>set tags. t \<noteq> nilTag \<and> tag_Name t = nm)"

type_synonym patternNameRef = "string \<times> nat \<times> nat"

definition identifier_ref :: "Identifier \<Rightarrow> patternNameRef" where
  "identifier_ref i =
     (let start = tok_Position (id_Token i) in (id_Value i, start, start + length (tok_Literal (id_Token i))))"

definition topLevelPatternNames :: "pattern \<Rightarrow> patternNameRef list" where
  "topLevelPatternNames pat =
     (case pat of
        IdentifierPattern _ i \<Rightarrow> [identifier_ref i]
      | BindingPattern _ (Some i) _ \<Rightarrow> [identifier_ref i]
      | _ \<Rightarrow> [])"

definition topLevelPatternName :: "pattern \<Rightarrow> string" where
  "topLevelPatternName pat = (case topLevelPatternNames pat of [] \<Rightarrow> [] | (nm, _) # _ \<Rightarrow> nm)"

definition binding_symbols :: "string \<Rightarrow> expr Tag list \<Rightarrow> pattern \<Rightarrow> expr \<Rightarrow> Symbol list" where
  \<comment> \<open>the symbols of a \<open>val\<close> or \<open>var\<close>, given the kind of one that is no function\<close>
  "binding_symbols plain tags pat v =
     (if \<not> hasTag tags ''@export'' then []
      else
        (let (kind, callables) =
           (case v of
              FunctionLiteral _ tps sig ps rt _ _ \<Rightarrow>
                (''function'', [\<lparr>cb_Name = topLevelPatternName pat, cb_TypeParams = tps, cb_Parameters = ps,
                   cb_ReturnType = TrimSpace rt, cb_Signature = sig\<rparr>])
            | _ \<Rightarrow> (plain, []))
         in map (\<lambda>(nm, start, stop). \<lparr>sym_Name = nm, sym_Kind = kind, sym_Start = start, sym_End = stop,
              sym_ScopeDepth = 0, sym_Callables = callables\<rparr>) (topLevelPatternNames pat)))"

definition statement_symbols :: "stmt \<Rightarrow> Symbol list" where
  "statement_symbols st =
     (case st of
        ForeignFunctionDeclaration tags _ nm tps ps rt sig _ _ \<Rightarrow>
          if \<not> hasTag tags ''@export'' then []
          else
            (let (n, start, stop) = identifier_ref nm
             in [\<lparr>sym_Name = n, sym_Kind = ''function'', sym_Start = start, sym_End = stop, sym_ScopeDepth = 0,
                  sym_Callables = [\<lparr>cb_Name = n, cb_TypeParams = tps, cb_Parameters = ps,
                    cb_ReturnType = TrimSpace rt, cb_Signature = sig\<rparr>]\<rparr>])
      | ExpressionStatement _ (ValExpression tags _ pat _ v _ _) \<Rightarrow> binding_symbols ''constant'' tags pat v
      | ExpressionStatement _ (VarExpression tags _ pat _ v _ _) \<Rightarrow> binding_symbols ''variable'' tags pat v
      | _ \<Rightarrow> [])"

definition CollectExportedSymbols :: "nat \<Rightarrow> unicode \<Rightarrow> string \<Rightarrow> Symbol list option" where
  \<comment> \<open>\<open>None\<close> if the parser panics or the fuel is too small\<close>
  "CollectExportedSymbols n U src =
     (case ParseProgram n (New (NextToken U) (lexer_New src) ''<modulemeta>'' src) of
        POk program p \<Rightarrow>
          Some (if p_errors p \<noteq> [] then [] else concat (map statement_symbols (Statements program)))
      | _ \<Rightarrow> None)"

end
