(* ===== verification/Type_Infer.thy ===== *)
theory Type_Infer
  imports Type_Unify Analyzer Module_Symbols
begin

text \<open>
  \<open>internal/semantic/typecheck.go\<close>: the inference of types over the syntax tree. Statements and
  expressions are inferred by methods that call each other: the two entry points are a record
  that fuel unrolls, together with the depth that the operations on types may use and with the
  imported modules, whose symbols are a parameter.
\<close>

section \<open>Scopes\<close>

definition push_scope :: "typeChecker \<Rightarrow> typeChecker" where
  "push_scope c = c\<lparr>scopes := [] # scopes c, declared := [] # declared c\<rparr>"

definition pushScope :: "unit tc" where
  "pushScope = modT push_scope"

definition pushOverride :: "unit tc" where
  "pushOverride = modT (\<lambda>c. c\<lparr>overrides := [] # overrides c\<rparr>)"

definition add_bindings :: "bindings \<Rightarrow> bindings \<Rightarrow> bindings" where
  \<comment> \<open>copy the entries of one Go map into another\<close>
  "add_bindings from out = fold (\<lambda>(k, v). AList.update k v) from out"

definition pushGenericScope :: "bindings \<Rightarrow> unit tc" where
  "pushGenericScope bs = modT (\<lambda>c. c\<lparr>generics := add_bindings bs [] # generics c\<rparr>)"

definition popGenericScope :: "unit tc" where
  "popGenericScope = modT (\<lambda>c. c\<lparr>generics := tl (generics c)\<rparr>)"

definition popScope :: "unit tc" where
  "popScope = modT (\<lambda>c. c\<lparr>scopes := tl (scopes c), declared := tl (declared c)\<rparr>)"

definition popOverride :: "unit tc" where
  "popOverride = modT (\<lambda>c. c\<lparr>overrides := tl (overrides c)\<rparr>)"

fun lookup_in :: "bindings list \<Rightarrow> string \<Rightarrow> tref option" where
  "lookup_in [] nm = None"
| "lookup_in (s # ss) nm = (case map_of s nm of Some t \<Rightarrow> Some t | None \<Rightarrow> lookup_in ss nm)"

definition or_nil_type :: "tref option \<Rightarrow> tref" where
  "or_nil_type t = (case t of Some t \<Rightarrow> t | None \<Rightarrow> None)"

definition lookupDeclared :: "string \<Rightarrow> typeChecker \<Rightarrow> tref" where
  "lookupDeclared nm c = or_nil_type (lookup_in (declared c) nm)"

definition lookup_type :: "string \<Rightarrow> typeChecker \<Rightarrow> tref" where
  "lookup_type nm c =
     (case lookup_in (overrides c) nm of
        Some t \<Rightarrow> t
      | None \<Rightarrow> or_nil_type (lookup_in (scopes c) nm))"

definition update_top :: "string \<Rightarrow> tref \<Rightarrow> bindings list \<Rightarrow> bindings list" where
  \<comment> \<open>set an entry of the innermost map, of a new one if there is none\<close>
  "update_top nm t ss = (case ss of [] \<Rightarrow> [AList.update nm t []] | s # ss \<Rightarrow> AList.update nm t s # ss)"

definition setOverride :: "string \<Rightarrow> tref \<Rightarrow> unit tc" where
  "setOverride nm t =
     (if nm = [] \<or> t = None then retT () else modT (\<lambda>c. c\<lparr>overrides := update_top nm t (overrides c)\<rparr>))"

definition bindDeclared :: "string \<Rightarrow> tref \<Rightarrow> unit tc" where
  "bindDeclared nm t =
     (if nm = [] \<or> t = None then retT () else modT (\<lambda>c. c\<lparr>declared := update_top nm t (declared c)\<rparr>))"

definition put_binding :: "string \<Rightarrow> tref \<Rightarrow> unit tc" where
  "put_binding nm t = thenT (modT (\<lambda>c. c\<lparr>scopes := update_top nm t (scopes c)\<rparr>)) (setOverride nm t)"

definition is_fn :: "tnode option \<Rightarrow> bool" where
  "is_fn tn \<longleftrightarrow> (case tn of Some u \<Rightarrow> t_kind u = typeFn | None \<Rightarrow> False)"

definition is_placeholder :: "tnode option \<Rightarrow> bool" where
  "is_placeholder tn \<longleftrightarrow> (case tn of Some u \<Rightarrow> t_placeholder u | None \<Rightarrow> False)"

definition bind_type :: "string \<Rightarrow> tref \<Rightarrow> unit tc" where
  "bind_type nm t =
     thenT (modT (\<lambda>c. if scopes c = [] then push_scope c else c))
       (bindT (getT (\<lambda>c. map_of (hd (scopes c)) nm)) (\<lambda>existing. case existing of
          None \<Rightarrow> put_binding nm t
        | Some old \<Rightarrow>
            found old (\<lambda>_ ef. found t (\<lambda>_ tf.
              if is_placeholder ef \<and> is_fn tf then put_binding nm t
              else if is_fn ef \<and> is_fn tf then
                bindT freshUnknown (\<lambda>r. bindT (fnType [] r False 0 (- 1)) (put_binding nm))
              else put_binding nm t))))"

definition snapshotCurrentOverride :: "bindings tc" where
  "snapshotCurrentOverride = getT (\<lambda>c. case overrides c of [] \<Rightarrow> [] | s # _ \<Rightarrow> s)"

definition visibleBindings :: "typeChecker \<Rightarrow> bindings" where
  "visibleBindings c = fold add_bindings (rev (scopes c)) []"

definition clone_binding :: "nat \<Rightarrow> string \<times> tref \<Rightarrow> (string \<times> tref) tc" where
  "clone_binding n nt = bindT (cloneForCaseScope n [] (snd nt)) (\<lambda>(t, _). retT (fst nt, t))"

definition pushIsolatedScopeFromVisible :: "nat \<Rightarrow> unit tc" where
  "pushIsolatedScopeFromVisible n =
     bindT (getT visibleBindings) (\<lambda>visible. bindT (mapT (clone_binding n) visible) (\<lambda>cloned.
       modT (\<lambda>c. c\<lparr>scopes := cloned # scopes c, declared := [] # declared c, overrides := cloned # overrides c\<rparr>)))"

section \<open>Refinements by guards\<close>

definition identifierName :: "expr \<Rightarrow> string option" where
  "identifierName e = (case e of IdentifierExpr i \<Rightarrow> Some (id_Value i) | _ \<Rightarrow> None)"

definition isNilExpr :: "expr \<Rightarrow> bool" where
  "isNilExpr e = (case e of NoExpr \<Rightarrow> True | NilLiteral _ \<Rightarrow> True | _ \<Rightarrow> False)"

definition call_of_name :: "string \<Rightarrow> expr \<Rightarrow> string option" where
  \<comment> \<open>the argument of a call of the function with this name on one identifier\<close>
  "call_of_name f e =
     (case e of
        CallExpression _ (IdentifierExpr i) [a] _ \<Rightarrow> if id_Value i = f then identifierName a else None
      | _ \<Rightarrow> None)"

definition ToUpper :: "string \<Rightarrow> string" where
  \<comment> \<open>\<open>strings.ToUpper\<close> on ASCII\<close>
  "ToUpper s = map (\<lambda>c. if CHR ''a'' \<le> c \<and> c \<le> CHR ''z'' then char_of (of_char c - (32 :: nat)) else c) s"

definition typeConstToKind :: "expr \<Rightarrow> typeKind option" where
  "typeConstToKind e =
     (case e of
        IdentifierExpr i \<Rightarrow>
          map_of [(''NIL_TYPE'', typeNil), (''BOOLEAN_TYPE'', typeBool), (''NUMBER_TYPE'', typeNum),
            (''STRING_TYPE'', typeStr), (''LIST_TYPE'', typeList), (''MAP_TYPE'', typeMap), (''FUNCTION_TYPE'', typeFn),
            (''TASK_TYPE'', typeTask), (''CHAN_TYPE'', typeChan), (''CHANNEL_TYPE'', typeChan),
            (''STRUCT_TYPE'', typeStruct), (''BYTES_TYPE'', typeBytes), (''SYMBOL_TYPE'', typeSym)] (ToUpper (id_Value i))
      | SymbolLiteral _ v \<Rightarrow>
          map_of [(''nil'', typeNil), (''bool'', typeBool), (''boolean'', typeBool), (''number'', typeNum),
            (''num'', typeNum), (''string'', typeStr), (''str'', typeStr), (''list'', typeList), (''map'', typeMap),
            (''function'', typeFn), (''fn'', typeFn), (''task'', typeTask), (''chan'', typeChan), (''channel'', typeChan),
            (''struct'', typeStruct), (''bytes'', typeBytes), (''symbol'', typeSym), (''sym'', typeSym)] (ToLower v)
      | _ \<Rightarrow> None)"

definition parseTypePredicate :: "expr \<Rightarrow> expr \<Rightarrow> (string \<times> typeKind) option" where
  "parseTypePredicate typeExpr typeConst =
     (case (call_of_name ''type'' typeExpr, typeConstToKind typeConst) of
        (Some nm, Some k) \<Rightarrow> Some (nm, k)
      | _ \<Rightarrow> None)"

definition parseLenCallName :: "expr \<Rightarrow> string option" where
  "parseLenCallName = call_of_name ''len''"

definition parseIntLiteral :: "expr \<Rightarrow> int option tc" where
  "parseIntLiteral e =
     (case e of
        NumberLiteral _ v \<Rightarrow>
          (case dec_IsFloat v of None \<Rightarrow> panicT | Some f \<Rightarrow> retT (if f then None else Some (ToInt v)))
      | _ \<Rightarrow> retT None)"

definition reverseCmpOp :: "string \<Rightarrow> string" where
  "reverseCmpOp op =
     (if op = ''>'' then ''<'' else if op = ''>='' then ''<='' else if op = ''<'' then ''>''
      else if op = ''<='' then ''>='' else if op = ''=='' \<or> op = ''!='' then op else [])"

definition parseLenComparison :: "expr \<Rightarrow> expr \<Rightarrow> string \<Rightarrow> (string \<times> int \<times> string) option tc" where
  "parseLenComparison lft rgt op =
     bindT (case parseLenCallName lft of
         None \<Rightarrow> retT None
       | Some nm \<Rightarrow> bindT (parseIntLiteral rgt) (\<lambda>i. retT (map_option (\<lambda>i. (nm, i, op)) i))) (\<lambda>first.
     case first of
       Some r \<Rightarrow> retT (Some r)
     | None \<Rightarrow>
         (case parseLenCallName rgt of
            None \<Rightarrow> retT None
          | Some nm \<Rightarrow>
              bindT (parseIntLiteral lft) (\<lambda>i. retT (case i of
                  None \<Rightarrow> None
                | Some i \<Rightarrow> if reverseCmpOp op = [] then None else Some (nm, i, reverseCmpOp op)))))"

definition evalLenPredicate :: "int \<Rightarrow> string \<Rightarrow> bool \<Rightarrow> bool" where
  "evalLenPredicate n op whenTrue \<longleftrightarrow>
     (if op = ''>'' then (n \<ge> 0 \<and> whenTrue) \<or> (n < 0 \<and> \<not> whenTrue)
      else if op = ''>='' then (n > 0 \<and> whenTrue) \<or> (n \<le> 0 \<and> \<not> whenTrue)
      else if op = ''<'' then (n \<le> 0 \<and> whenTrue) \<or> (n > 0 \<and> \<not> whenTrue)
      else if op = ''<='' then (n < 0 \<and> whenTrue) \<or> (n \<ge> 0 \<and> \<not> whenTrue)
      else if op = ''=='' then n = 0
      else if op = ''!='' then n = 0
      else False)"

definition currentRefinementBase :: "string \<Rightarrow> bindings \<Rightarrow> (tref \<times> bool) tc" where
  "currentRefinementBase nm out =
     (case map_of out nm of
        Some (Some t) \<Rightarrow> retT (Some t, True)
      | _ \<Rightarrow> bindT (getT (lookup_type nm)) (\<lambda>t. retT (t, False)))"

definition refined :: "nat \<Rightarrow> (tref \<Rightarrow> tref \<Rightarrow> tref tc) \<Rightarrow> string \<Rightarrow> tref \<Rightarrow> bindings \<Rightarrow> bindings tc" where
  \<comment> \<open>what \<open>refineBinding\<close> and \<open>refineBindingExclude\<close> share; the arguments of the traces are computed\<close>
  "refined n narrow nm target out =
     bindT (currentRefinementBase nm out) (\<lambda>(base, fromRefinement).
       if base = None then retT out
       else
         bindT (narrow base target) (\<lambda>narrowed.
           if narrowed = None then
             if fromRefinement then
               bindT (scalar typeNever) (\<lambda>never.
               thenT (describe n base) (thenT (describe n target) (retT (AList.update nm never out))))
             else retT out
           else
             thenT (describe n base) (thenT (describe n narrowed) (thenT (describe n target)
               (retT (AList.update nm narrowed out))))))"

definition refineBinding :: "nat \<Rightarrow> string \<Rightarrow> tref \<Rightarrow> bindings \<Rightarrow> bindings tc" where
  "refineBinding n = refined n (intersectType n)"

definition refineBindingExclude :: "nat \<Rightarrow> string \<Rightarrow> tref \<Rightarrow> bindings \<Rightarrow> bindings tc" where
  "refineBindingExclude n = refined n (excludeType n)"

definition refine_kind :: "nat \<Rightarrow> bool \<Rightarrow> bool \<Rightarrow> string \<Rightarrow> typeKind \<Rightarrow> bindings \<Rightarrow> bindings tc" where
  "refine_kind n eq neq nm k out =
     bindT (scalar k) (\<lambda>target.
       if eq then refineBinding n nm target out
       else if neq then refineBindingExclude n nm target out
       else retT out)"

definition collectComparisonRefinement :: "nat \<Rightarrow> expr \<Rightarrow> expr \<Rightarrow> string \<Rightarrow> bool \<Rightarrow> bindings \<Rightarrow> bindings tc" where
  \<comment> \<open>called with \<open>==\<close> and \<open>!=\<close> only, so that one of \<open>eq\<close> and \<open>neq\<close> holds\<close>
  "collectComparisonRefinement n lft rgt op whenTrue out =
     (let eq = (op = ''=='' \<and> whenTrue) \<or> (op = ''!='' \<and> \<not> whenTrue);
          neq = (op = ''!='' \<and> whenTrue) \<or> (op = ''=='' \<and> \<not> whenTrue)
      in case (identifierName lft, isNilExpr rgt) of
           (Some nm, True) \<Rightarrow> refine_kind n eq neq nm typeNil out
         | _ \<Rightarrow>
             (case (identifierName rgt, isNilExpr lft) of
                (Some nm, True) \<Rightarrow> refine_kind n eq neq nm typeNil out
              | _ \<Rightarrow>
                  (case parseTypePredicate lft rgt of
                     Some (nm, k) \<Rightarrow> refine_kind n eq neq nm k out
                   | None \<Rightarrow>
                       (case parseTypePredicate rgt lft of
                          Some (nm, k) \<Rightarrow> refine_kind n eq neq nm k out
                        | None \<Rightarrow> retT out))))"

definition any_list :: "tref tc" where
  "any_list = bindT (scalar typeAny) listType"

definition any_map :: "tref tc" where
  "any_map = bindT (scalar typeAny) (\<lambda>k. bindT (scalar typeAny) (mapType k))"

definition predicate_target :: "string \<Rightarrow> tref tc option" where
  "predicate_target f =
     (if f = ''isList'' then Some any_list
      else if f = ''isMap'' then Some any_map
      else if f = ''isStruct'' then Some (struct_node [])
      else if f = ''isFn'' then Some (bindT freshUnknown (\<lambda>r. fnType [] r False 0 (- 1)))
      else if f = ''isBytes'' then Some (scalar typeBytes)
      else if f = ''isStr'' \<or> f = ''isString'' then Some (scalar typeStr)
      else if f = ''isNum'' \<or> f = ''isNumber'' then Some (scalar typeNum)
      else if f = ''isBool'' \<or> f = ''isBoolean'' then Some (scalar typeBool)
      else None)"

definition collectPredicateCallRefinement :: "nat \<Rightarrow> expr \<Rightarrow> expr list \<Rightarrow> bool \<Rightarrow> bindings \<Rightarrow> bindings tc" where
  \<comment> \<open>given the function and the arguments of the call\<close>
  "collectPredicateCallRefinement n f args whenTrue out =
     (case (f, args) of
        (IdentifierExpr i, [a]) \<Rightarrow>
          (case (identifierName a, predicate_target (id_Value i)) of
             (Some nm, Some mk) \<Rightarrow>
               bindT mk (\<lambda>target.
                 if whenTrue then refineBinding n nm target out else refineBindingExclude n nm target out)
           | _ \<Rightarrow> retT out)
      | _ \<Rightarrow> retT out)"

definition collectLenRefinement :: "nat \<Rightarrow> expr \<Rightarrow> expr \<Rightarrow> string \<Rightarrow> bool \<Rightarrow> bindings \<Rightarrow> bindings tc" where
  "collectLenRefinement n lft rgt op whenTrue out =
     bindT (parseLenComparison lft rgt op) (\<lambda>cmp. case cmp of
         None \<Rightarrow> retT out
       | Some (nm, k, cmpOp) \<Rightarrow>
           bindT (getT (lookup_type nm)) (\<lambda>base.
             if base = None then retT out
             else
               bindT any_list (\<lambda>l. bindT any_map (\<lambda>m. bindT (scalar typeBytes) (\<lambda>b. bindT (scalar typeStr) (\<lambda>s.
               bindT (unionType n [l, m, b, s]) (\<lambda>seqMap.
                 if evalLenPredicate k cmpOp whenTrue then refineBinding n nm seqMap out else retT out)))))))"

definition intersectRefinements :: "nat \<Rightarrow> bindings \<Rightarrow> bindings \<Rightarrow> bindings tc" where
  "intersectRefinements n a b =
     foldT (\<lambda>out (k, av). case map_of b k of
         None \<Rightarrow> retT out
       | Some bv \<Rightarrow> bindT (unionType n [av, bv]) (\<lambda>m. retT (AList.update k m out))) [] a"

fun collectGuardRefinementsInto :: "nat \<Rightarrow> expr \<Rightarrow> bool \<Rightarrow> bindings \<Rightarrow> bindings tc" where
  "collectGuardRefinementsInto 0 e whenTrue out = deepT"
| "collectGuardRefinementsInto (Suc n) e whenTrue out =
     (let collect = collectGuardRefinementsInto n
      in case e of
           PrefixExpression _ op r \<Rightarrow> if op = ''!'' then collect r (\<not> whenTrue) out else retT out
         | InfixExpression _ l op r \<Rightarrow>
             if op = ''&&'' \<or> op = ''||'' then
               if whenTrue = (op = ''&&'') then bindT (collect l whenTrue out) (collect r whenTrue)
               else
                 bindT (collect l whenTrue []) (\<lambda>a. bindT (collect r whenTrue []) (\<lambda>b.
                 bindT (intersectRefinements n a b) (\<lambda>both. retT (add_bindings both out))))
             else if op = ''=='' \<or> op = ''!='' then
               bindT (collectComparisonRefinement n l r op whenTrue out) (collectLenRefinement n l r op whenTrue)
             else if op \<in> {''>'', ''>='', ''<'', ''<=''} then collectLenRefinement n l r op whenTrue out
             else retT out
         | CallExpression _ f args _ \<Rightarrow> collectPredicateCallRefinement n f args whenTrue out
         | _ \<Rightarrow> retT out)"

definition collectGuardRefinements :: "nat \<Rightarrow> expr \<Rightarrow> bool \<Rightarrow> bindings tc" where
  "collectGuardRefinements n e whenTrue = collectGuardRefinementsInto n e whenTrue []"

definition hasImpossibleRefinement :: "bindings \<Rightarrow> bool tc" where
  "hasImpossibleRefinement refs =
     anyT (\<lambda>(_, t). found t (\<lambda>_ tn. retT (case tn of Some u \<Rightarrow> t_kind u = typeNever | None \<Rightarrow> False))) refs"

section \<open>Functions that loop\<close>

text \<open>
  \<open>containsRecurInExpr\<close> and \<open>containsRecurInStmt\<close>: the parts of a node that they look into, each
  with the flag \<open>nestedFn\<close>. A block resets the flag, in whatever function it stands.
\<close>

definition block_nodes :: "(stmt, expr) BlockStatement option \<Rightarrow> ((expr + stmt) \<times> bool) list" where
  \<comment> \<open>\<open>containsRecurInCurrentFunction\<close>\<close>
  "block_nodes b = map (\<lambda>s. (Inr s, False)) (block_statements b)"

definition recur_nodes :: "expr + stmt \<Rightarrow> bool \<Rightarrow> ((expr + stmt) \<times> bool) list" where
  "recur_nodes node nestedFn =
     (let on = (\<lambda>e. (Inl e, nestedFn))
      in case node of
        Inl e \<Rightarrow>
          (case e of
             IfExpression _ c th el \<Rightarrow> on c # block_nodes th @ block_nodes el
           | InfixExpression _ l _ r \<Rightarrow> [on l, on r]
           | PrefixExpression _ _ r \<Rightarrow> [on r]
           | CallExpression _ f args _ \<Rightarrow> on f # map on args
           | FunctionLiteral _ _ _ _ _ body _ \<Rightarrow> block_nodes body
           | MatchExpression _ v cs \<Rightarrow> on v # concat (map (\<lambda>c. on (mc_Guard c) # block_nodes (mc_Body c)) cs)
           | ListLiteral _ es \<Rightarrow> map on es
           | MapLiteral _ ps \<Rightarrow> concat (map (\<lambda>kv. [on (fst kv), on (snd kv)]) ps)
           | IndexExpression _ l i _ \<Rightarrow> [on l, on i]
           | StructInitExpression _ s fs \<Rightarrow> on s # map (\<lambda>f. on (si_Value f)) fs
           | StructCopyExpression _ s fs \<Rightarrow> [on s, on fs]
           | VarExpression _ _ _ _ v _ _ \<Rightarrow> [on v]
           | ValExpression _ _ _ _ v _ _ \<Rightarrow> [on v]
           | SpawnExpression _ b \<Rightarrow> [on b]
           | BlockExpr b \<Rightarrow> block_nodes (Some b)
           | _ \<Rightarrow> [])
      | Inr s \<Rightarrow>
          (case s of
             ExpressionStatement _ e \<Rightarrow> [on e]
           | ReturnStatement _ e \<Rightarrow> [on e]
           | ThrowStatement _ e \<Rightarrow> [on e]
           | BlockStmt b \<Rightarrow> block_nodes (Some b)
           | DeferStatement _ call _ _ \<Rightarrow> [(Inr call, nestedFn)]
           | _ \<Rightarrow> []))"

lemma block_nodes_size:
  "(x, b) \<in> set (block_nodes body) \<Longrightarrow> node_size x < size_option (size_BlockStatement size size) body"
  by (auto simp: block_nodes_def node_size_def size_block_statements)

lemma case_nodes_size:
  assumes "m \<in> set cs" "(x, b) \<in> set (block_nodes (mc_Body m))"
  shows "node_size x < size_list (size_MatchCase size size (size_BlockStatement size size)) cs"
  using size_case_statements [OF assms(1)] assms(2) by (auto simp: block_nodes_def node_size_def)

lemma recur_nodes_size: "(x, b) \<in> set (recur_nodes node nestedFn) \<Longrightarrow> node_size x < node_size node"
proof (cases node)
  case (Inl e)
  assume "(x, b) \<in> set (recur_nodes node nestedFn)"
  then show ?thesis unfolding Inl
    by (cases e) (auto simp: recur_nodes_def Let_def node_size_def parts_below
        dest: block_nodes_size [unfolded node_size_def] case_nodes_size [unfolded node_size_def])
next
  case (Inr s)
  assume "(x, b) \<in> set (recur_nodes node nestedFn)"
  then show ?thesis unfolding Inr
    by (cases s) (auto simp: recur_nodes_def Let_def node_size_def
        dest: block_nodes_size [unfolded node_size_def])
qed

function containsRecur :: "expr + stmt \<Rightarrow> bool \<Rightarrow> bool" where
  "containsRecur node nestedFn \<longleftrightarrow>
     (case node of
        Inl (RecurExpression _ _) \<Rightarrow> \<not> nestedFn
      | _ \<Rightarrow> (\<exists>(x, b)\<in>set (recur_nodes node nestedFn). containsRecur x b))"
  by pat_completeness auto
termination
  by (relation "measure (node_size \<circ> fst)") (auto dest: recur_nodes_size)

declare containsRecur.simps [simp del]

definition containsRecurInCurrentFunction :: "(stmt, expr) BlockStatement option \<Rightarrow> bool" where
  "containsRecurInCurrentFunction b \<longleftrightarrow> (\<exists>s\<in>set (block_statements b). containsRecur (Inr s) False)"

section \<open>Imported symbols\<close>

definition isImportCall :: "expr \<Rightarrow> bool" where
  "isImportCall e \<longleftrightarrow> (case e of CallExpression _ (IdentifierExpr i) _ _ \<Rightarrow> id_Value i = ''import'' | _ \<Rightarrow> False)"

definition importModuleArgs :: "expr list \<Rightarrow> string list" where
  "importModuleArgs args =
     (let names = map (\<lambda>a. case a of StringLiteral _ v \<Rightarrow> Some v | _ \<Rightarrow> None) args
      in if None \<in> set names then [] else map the names)"

definition patternEntryKeyName :: "expr \<Rightarrow> string" where
  "patternEntryKeyName key =
     (case key of IdentifierExpr i \<Rightarrow> id_Value i | StringLiteral _ v \<Rightarrow> v | SymbolLiteral _ v \<Rightarrow> v | _ \<Rightarrow> [])"

definition patternBindingName :: "pattern \<Rightarrow> string" where
  "patternBindingName pat =
     (case pat of
        IdentifierPattern _ i \<Rightarrow> id_Value i
      | BindingPattern _ (Some i) _ \<Rightarrow> id_Value i
      | _ \<Rightarrow> [])"

definition in_library :: "string \<Rightarrow> bool" where
  \<comment> \<open>\<open>strings.Contains(path, "/lib/")\<close>\<close>
  "in_library path \<longleftrightarrow> (\<exists>i\<in>set [0..<length path]. take 5 (drop i path) = ''/lib/'')"

definition importedSymbolsForModules :: "(string \<Rightarrow> Symbol list) \<Rightarrow> string list \<Rightarrow> Symbol list" where
  "importedSymbolsForModules exports ms =
     fold (\<lambda>sy out. if sym_Name sy \<in> sym_Name ` set out then out else out @ [sy]) (concat (map exports ms)) []"

definition importedSymbolByName :: "(string \<Rightarrow> Symbol list) \<Rightarrow> string list \<Rightarrow> string \<Rightarrow> Symbol option" where
  "importedSymbolByName exports ms nm = List.find (\<lambda>sy. sym_Name sy = nm) (concat (map exports ms))"

definition generic_params :: "string list \<Rightarrow> (bindings \<times> tref list) tc" where
  \<comment> \<open>\<open>genericBindings\<close> and \<open>genericOrder\<close>\<close>
  "generic_params names =
     foldT (\<lambda>(bs, order) nm.
         if nm = [] then retT (bs, order)
         else bindT (typeParam_node nm) (\<lambda>tp. retT (AList.update nm tp bs, order @ [tp]))) ([], []) names"

definition callable_param :: "nat \<Rightarrow> bindings \<Rightarrow> expr FunctionParameter \<Rightarrow> tref tc" where
  "callable_param n gs p =
     bindT freshUnknown (\<lambda>pt.
       if TrimSpace (fp_Type p) = [] then retT pt
       else bindT (parseDeclaredTypeWithScope n gs (fp_Type p)) (\<lambda>tt. retT (if tt = None then pt else tt)))"

definition callableType :: "nat \<Rightarrow> Callable \<Rightarrow> tref tc" where
  "callableType n cb =
     bindT (generic_params (cb_TypeParams cb)) (\<lambda>(gs, order).
     bindT (mapT (callable_param n gs) (cb_Parameters cb)) (\<lambda>ps.
     bindT freshUnknown (\<lambda>ret.
     bindT (if TrimSpace (cb_ReturnType cb) = [] then retT ret
            else bindT (parseDeclaredTypeWithScope n gs (cb_ReturnType cb)) (\<lambda>tt. retT (if tt = None then ret else tt)))
       (\<lambda>ret.
     bindT (fnType ps ret (sig_IsVariadic (cb_Signature cb)) (sig_Min (cb_Signature cb)) (sig_Max (cb_Signature cb))) (\<lambda>ft.
     thenT (update_node (\<lambda>x. x\<lparr>t_typeParams := order\<rparr>) ft) (retT ft))))))"

definition bindImportedSymbol :: "nat \<Rightarrow> string \<Rightarrow> Symbol \<Rightarrow> unit tc" where
  \<comment> \<open>\<open>callableType\<close> never gives nil, so that the diagnostic after it is not reached\<close>
  "bindImportedSymbol n nm sy =
     (if nm = [] then retT ()
      else case sym_Callables sy of
          [] \<Rightarrow> bindT freshUnknown (bind_type nm)
        | cb # _ \<Rightarrow> bindT (callableType n cb) (bind_type nm))"

definition import_entry ::
  "nat \<Rightarrow> (string \<Rightarrow> Symbol list) \<Rightarrow> string list \<Rightarrow> string list \<Rightarrow> (expr, pattern) MapPatternEntry \<Rightarrow> string list tc" where
  \<comment> \<open>one round of the loop over the pairs, with the local names seen so far\<close>
  "import_entry n exports ms seen entry =
     (let source = patternEntryKeyName (me_Key entry); local = patternBindingName (me_Pattern entry)
      in if source = [] \<or> local = [] \<or> local \<in> set seen then retT seen
         else case importedSymbolByName exports ms source of
             None \<Rightarrow> retT seen
           | Some sy \<Rightarrow> thenT (bindImportedSymbol n local sy) (retT (local # seen)))"

definition bindImportedPattern ::
  "nat \<Rightarrow> string \<Rightarrow> (string \<Rightarrow> Symbol list) \<Rightarrow> pattern \<Rightarrow> expr \<Rightarrow> bool tc" where
  "bindImportedPattern n path exports pat v =
     (if in_library path \<or> \<not> isImportCall v then retT False
      else
        (let ms = importModuleArgs (case v of CallExpression _ _ args _ \<Rightarrow> args | _ \<Rightarrow> [])
         in if ms = [] then retT True
            else case pat of
                MapPattern _ pairs _ _ selectAll \<Rightarrow>
                  (let syms = importedSymbolsForModules exports ms
                   in if syms = [] then retT True
                      else if selectAll then
                        thenT (eachT (\<lambda>sy. bindImportedSymbol n (sym_Name sy) sy) syms) (retT True)
                      else thenT (foldT (import_entry n exports ms) [] pairs) (retT True))
              | _ \<Rightarrow> retT False))"

section \<open>Patterns\<close>

fun bindPatternDeclared :: "nat \<Rightarrow> pattern \<Rightarrow> tref \<Rightarrow> unit tc" where
  "bindPatternDeclared 0 pat d = deepT"
| "bindPatternDeclared (Suc n) pat d =
     (let go = (\<lambda>p. bindPatternDeclared n p d); name = (\<lambda>i. bindDeclared (id_Value i) d)
      in case pat of
           IdentifierPattern _ i \<Rightarrow> name i
         | BindingPattern _ nm p \<Rightarrow>
             thenT (case nm of Some i \<Rightarrow> name i | None \<Rightarrow> retT ()) (if p = NoPattern then retT () else go p)
         | ListPattern _ ps \<Rightarrow> eachT go ps
         | MapPattern _ pairs sp _ _ \<Rightarrow>
             thenT (eachT (\<lambda>e. go (me_Pattern e)) pairs) (if sp = NoPattern then retT () else go sp)
         | StructPattern _ _ fs \<Rightarrow> eachT (\<lambda>f. go (spf_Pattern f)) fs
         | SpreadPattern _ (Some i) \<Rightarrow> name i
         | _ \<Rightarrow> retT ())"

definition sequenceElementType :: "tref \<Rightarrow> tref tc" where
  "sequenceElementType t =
     found t (\<lambda>_ tn. case tn of
       Some u \<Rightarrow>
         if t_kind u = typeBytes then scalar typeNum
         else if t_kind u = typeList \<and> t_elem u \<noteq> None then retT (t_elem u)
         else freshUnknown
     | None \<Rightarrow> freshUnknown)"

definition constrainSequenceLike :: "nat \<Rightarrow> tref \<Rightarrow> tref \<Rightarrow> nat \<Rightarrow> string \<Rightarrow> unit tc" where
  "constrainSequenceLike n t e pos why =
     found t (\<lambda>_ tn. case tn of
       None \<Rightarrow> retT ()
     | Some u \<Rightarrow>
         if t_kind u = typeBytes then retT ()
         else if t_kind u \<in> {typeList, typeUnknown, typeAny} then bindT (listType e) (\<lambda>l. addConstraint t l pos why)
         else
           bindT (describe n t) (\<lambda>d. addDiag pos (''list pattern type mismatch: expected list or bytes, got '' @ d)))"

definition open_map :: "tref tc" where
  \<comment> \<open>\<open>c.mapType(c.freshUnknown(), c.scalar(typeAny))\<close>\<close>
  "open_map = bindT freshUnknown (\<lambda>k. bindT (scalar typeAny) (mapType k))"

fun bindPattern :: "nat \<Rightarrow> pattern \<Rightarrow> tref \<Rightarrow> unit tc" where
  "bindPattern 0 pat t = deepT"
| "bindPattern (Suc n) pat t =
     (let go = bindPattern n
      in case pat of
           IdentifierPattern _ i \<Rightarrow> bind_type (id_Value i) t
         | BindingPattern _ nm p \<Rightarrow>
             thenT (case nm of Some i \<Rightarrow> bind_type (id_Value i) t | None \<Rightarrow> retT ()) (go p t)
         | ListPattern tok ps \<Rightarrow>
             bindT (sequenceElementType t) (\<lambda>e.
             thenT (constrainSequenceLike n t e (tok_Position tok) ''list pattern type'') (eachT (\<lambda>p. go p e) ps))
         | MapPattern tok pairs sp _ _ \<Rightarrow>
             bindT open_map (\<lambda>m.
             thenT (addConstraint t m (tok_Position tok) ''map pattern type'')
             (thenT (eachT (\<lambda>e. bindT freshUnknown (go (me_Pattern e))) pairs)
               (if sp = NoPattern then retT () else bindT open_map (go sp))))
         | StructPattern _ _ fs \<Rightarrow> eachT (\<lambda>f. bindT freshUnknown (go (spf_Pattern f))) fs
         | SpreadPattern _ (Some i) \<Rightarrow> bindT freshUnknown (bind_type (id_Value i))
         | _ \<Rightarrow> retT ())"

end
