(* ===== verification/Type_Checker.thy ===== *)
theory Type_Checker
  imports Type_Infer
begin

text \<open>
  \<open>internal/semantic/typecheck.go\<close>: the methods that infer statements and expressions, and the
  check of a program. The fields of the record \<open>infer\<close> are the depth for the operations on types,
  the path of the program, the symbols that a module exports (none if it cannot be resolved) and
  the two recursive methods.
\<close>

record infer =
  i_depth :: nat
  i_path :: string
  i_exports :: "string \<Rightarrow> Symbol list"
  i_expr :: "expr \<Rightarrow> tref tc"
  i_stmt :: "stmt \<Rightarrow> tref tc"

section \<open>Blocks\<close>

definition inferBlockInCurrentScope :: "infer \<Rightarrow> (stmt, expr) BlockStatement option \<Rightarrow> tref tc" where
  "inferBlockInCurrentScope R b =
     bindT (scalar typeNil) (\<lambda>last. case b of
         None \<Rightarrow> retT last
       | Some b \<Rightarrow> foldT (\<lambda>_ s. i_stmt R s) last (bs_Statements b))"

definition inferBlock :: "infer \<Rightarrow> (stmt, expr) BlockStatement option \<Rightarrow> tref tc" where
  "inferBlock R b =
     (if b = None then scalar typeNil
      else
        thenT pushScope (thenT pushOverride
          (bindT (inferBlockInCurrentScope R b) (\<lambda>t. thenT popOverride (thenT popScope (retT t))))))"

definition inferBlockWithRefinementsAndOverrides ::
  "infer \<Rightarrow> (stmt, expr) BlockStatement option \<Rightarrow> bindings \<Rightarrow> (tref \<times> bindings) tc" where
  "inferBlockWithRefinementsAndOverrides R b refs =
     (if b = None then bindT (scalar typeNil) (\<lambda>t. retT (t, []))
      else
        bindT (hasImpossibleRefinement refs) (\<lambda>impossible.
          if impossible then bindT (scalar typeNever) (\<lambda>t. retT (t, []))
          else
            thenT pushScope (thenT pushOverride (thenT (eachT (\<lambda>(nm, t). bind_type nm t) refs)
              (bindT (inferBlockInCurrentScope R b) (\<lambda>t. bindT snapshotCurrentOverride (\<lambda>ov.
                thenT popOverride (thenT popScope (retT (t, ov))))))))))"

definition kind_of :: "tref \<Rightarrow> typeKind tc" where
  \<comment> \<open>\<open>c.find(t).kind\<close>\<close>
  "kind_of t = found t (\<lambda>_ tn. case tn of None \<Rightarrow> panicT | Some u \<Rightarrow> retT (t_kind u))"

definition widened :: "tref \<Rightarrow> tref \<Rightarrow> tref \<Rightarrow> unit tc" where
  \<comment> \<open>the condition of a trace, whose nil dereferences are the only effect without a trace\<close>
  "widened merged a b =
     bindT (kind_of merged) (\<lambda>k. if k \<noteq> typeAny then retT ()
       else bindT (kind_of a) (\<lambda>k. if k = typeAny then retT () else thenT (kind_of b) (retT ())))"

definition merge_override :: "nat \<Rightarrow> bindings \<Rightarrow> bindings \<Rightarrow> bool \<Rightarrow> string \<times> tref \<Rightarrow> unit tc" where
  "merge_override n thenOv elseOv hasElse nt =
     (let thenType = (case map_of thenOv (fst nt) of Some t \<Rightarrow> t | None \<Rightarrow> snd nt);
          elseType = (case map_of elseOv (fst nt) of Some t \<Rightarrow> if hasElse then t else snd nt | None \<Rightarrow> snd nt)
      in bindT (unionType n [thenType, elseType]) (\<lambda>merged.
         thenT (describe n thenType) (thenT (describe n elseType) (thenT (describe n merged)
         (thenT (widened merged thenType elseType) (setOverride (fst nt) merged))))))"

definition mergeIfOverrides :: "nat \<Rightarrow> bindings \<Rightarrow> bindings \<Rightarrow> bindings \<Rightarrow> bool \<Rightarrow> unit tc" where
  "mergeIfOverrides n outer thenOv elseOv hasElse = eachT (merge_override n thenOv elseOv hasElse) outer"

section \<open>Parameters and functions\<close>

definition declared_param :: "infer \<Rightarrow> nat \<Rightarrow> expr FunctionParameter \<Rightarrow> tref tc" where
  \<comment> \<open>the type of a parameter of a function literal or a foreign function, with its constraints\<close>
  "declared_param R pos p =
     (let n = i_depth R
      in bindT freshUnknown (\<lambda>fresh.
         thenT (validateDeclaredTypeShape (fp_Type p) pos ''parameter'')
         (bindT (getT currentGenericScope) (\<lambda>gs.
         thenT (validateSpecialDeclaredTypeWithScope n (fp_Type p) pos ''parameter'' gs)
         (bindT (parseDeclaredType n (fp_Type p)) (\<lambda>tt.
           let pt = (if tt = None then fresh else tt)
           in thenT (if tt = None then retT () else addConstraint pt tt pos ''parameter annotation constraint'')
             (thenT (eachT (\<lambda>tag. if tag = nilTag then retT ()
                else bindT (cloneScalarTagType (tag_Name tag)) (\<lambda>t. addConstraint pt t pos ''parameter tag constraint''))
                (fp_Tags p))
             (thenT (if fp_Default p = NoExpr then retT ()
                else bindT (i_expr R (fp_Default p)) (\<lambda>d. addConstraint pt d pos ''default argument type''))
               (retT pt)))))))))"

definition last_variadic :: "expr FunctionParameter list \<Rightarrow> bool" where
  "last_variadic ps \<longleftrightarrow> ps \<noteq> [] \<and> fp_IsVariadic (last ps)"

definition with_generics :: "string list \<Rightarrow> (tref list \<Rightarrow> 'a tc) \<Rightarrow> 'a tc" where
  \<comment> \<open>run with the type parameters in scope, given their nodes\<close>
  "with_generics names f =
     bindT (generic_params names) (\<lambda>(gs, order).
       thenT (pushGenericScope gs) (bindT (f order) (\<lambda>a. thenT popGenericScope (retT a))))"

definition validate_return :: "infer \<Rightarrow> string \<Rightarrow> nat \<Rightarrow> tref tc" where
  \<comment> \<open>the checks of the annotation of the result, and its type\<close>
  "validate_return R rt pos =
     thenT (validateDeclaredTypeShape rt pos ''function return'')
     (bindT (getT currentGenericScope) (\<lambda>gs.
      thenT (validateSpecialDeclaredTypeWithScope (i_depth R) rt pos ''function return'' gs)
        (parseDeclaredType (i_depth R) rt)))"

definition add_return_check :: "nat \<Rightarrow> tref \<Rightarrow> tref \<Rightarrow> unit tc" where
  "add_return_check pos got expected =
     modT (\<lambda>c. c\<lparr>retChecks := retChecks c @ [\<lparr>ck_pos = pos, ck_first = got, ck_second = expected\<rparr>]\<rparr>)"

definition inferForeign ::
  "infer \<Rightarrow> Token \<Rightarrow> Identifier \<Rightarrow> string list \<Rightarrow> expr FunctionParameter list \<Rightarrow> string \<Rightarrow> FSig \<Rightarrow> tref tc" where
  "inferForeign R tok nm tps ps rt sig =
     (let pos = tok_Position tok
      in with_generics tps (\<lambda>order.
         bindT (mapT (declared_param R pos) ps) (\<lambda>params.
         bindT freshUnknown (\<lambda>ret.
         bindT (validate_return R rt pos) (\<lambda>tt.
         thenT (if tt = None then retT ()
                else thenT (addConstraint ret tt pos ''function return annotation'') (add_return_check pos ret tt))
         (bindT (fnType params ret (last_variadic ps) (sig_Min sig) (sig_Max sig)) (\<lambda>ft.
         thenT (update_node (\<lambda>x. x\<lparr>t_typeParams := order\<rparr>) ft)
         (thenT (bind_type (id_Value nm) ft) (retT ft)))))))))"

definition inferStatement :: "infer \<Rightarrow> stmt \<Rightarrow> tref tc" where
  "inferStatement R s =
     (case s of
        ExpressionStatement _ e \<Rightarrow> i_expr R e
      | ReturnStatement _ e \<Rightarrow> i_expr R e
      | ThrowStatement _ e \<Rightarrow> thenT (i_expr R e) (scalar typeAny)
      | BlockStmt b \<Rightarrow> inferBlock R (Some b)
      | DeferStatement _ call mode errName \<Rightarrow>
          thenT (if call = NoStmt then retT ()
             else case (mode, errName) of
                 (DeferOnError, Some i) \<Rightarrow>
                   thenT pushScope (thenT pushOverride (bindT (scalar typeAny) (\<lambda>t.
                     thenT (bind_type (id_Value i) t) (thenT (i_stmt R call) (thenT popOverride popScope)))))
               | _ \<Rightarrow> thenT (i_stmt R call) (retT ()))
            (scalar typeNil)
      | ForeignFunctionDeclaration _ tok nm tps ps rt sig _ _ \<Rightarrow> inferForeign R tok nm tps ps rt sig
      | NoStmt \<Rightarrow> freshUnknown)"

definition enforceTags :: "tref \<Rightarrow> expr Tag list \<Rightarrow> nat \<Rightarrow> unit tc" where
  "enforceTags t tags pos =
     eachT (\<lambda>tag. if tag = nilTag then retT ()
       else bindT (cloneScalarTagType (tag_Name tag)) (\<lambda>tt.
         if tt = None then retT () else addConstraint t tt pos (''tag constraint '' @ tag_Name tag))) tags"

definition check_element :: "infer \<Rightarrow> nat \<Rightarrow> string \<Rightarrow> tref \<Rightarrow> tref \<Rightarrow> unit tc" where
  "check_element R pos what got d =
     bindT (isDeclaredCompatible (i_depth R) got d) (\<lambda>ok.
       if ok then retT ()
       else
         bindT (describe (i_depth R) got) (\<lambda>a. bindT (describe (i_depth R) d) (\<lambda>b.
           addDiag pos (''inferred type mismatch ('' @ what @ ''): '' @ a @ '' vs '' @ b))))"

definition enforceDeclaredLiteralCompatibility :: "infer \<Rightarrow> expr \<Rightarrow> tref \<Rightarrow> nat \<Rightarrow> unit tc" where
  "enforceDeclaredLiteralCompatibility R e d pos =
     found d (\<lambda>_ tn. case (tn, e) of
         (Some u, ListLiteral _ es) \<Rightarrow>
           if t_kind u = typeList then
             eachT (\<lambda>item. bindT (i_expr R item) (\<lambda>it. check_element R pos ''list element type'' it (t_elem u))) es
           else if t_kind u \<noteq> typeTuple then retT ()
           else if length es \<noteq> length (t_params u) then
             addDiag pos (''inferred type mismatch (tuple length): expected '' @ show_nat (length (t_params u)) @
               '', got '' @ show_nat (length es))
           else
             eachT (\<lambda>(item, p). bindT (i_expr R item) (\<lambda>it. check_element R pos ''tuple element type'' it p))
               (zip es (t_params u))
       | (Some u, MapLiteral _ ps) \<Rightarrow>
           if t_kind u \<noteq> typeMap then retT ()
           else
             eachT (\<lambda>(k, v).
               bindT (i_expr R k) (\<lambda>kt. bindT (i_expr R v) (\<lambda>vt.
                 thenT (check_element R pos ''map key type'' kt (t_key u))
                   (check_element R pos ''map value type'' vt (t_val u))))) ps
       | _ \<Rightarrow> retT ())"

definition is_list_literal :: "expr \<Rightarrow> bool" where
  "is_list_literal e = (case e of ListLiteral _ _ \<Rightarrow> True | _ \<Rightarrow> False)"

definition bodyReturnsListLiteral :: "(stmt, expr) BlockStatement option \<Rightarrow> bool" where
  "bodyReturnsListLiteral body \<longleftrightarrow>
     (case rev (block_statements body) of [] \<Rightarrow> False | s # _ \<Rightarrow> is_list_literal (statement_expr s))"

fun enforceFunctionReturnLiteralCompatibility :: "nat \<Rightarrow> infer \<Rightarrow> stmt list \<Rightarrow> tref \<Rightarrow> unit tc" where
  \<comment> \<open>given the statements of the body\<close>
  "enforceFunctionReturnLiteralCompatibility 0 R ss d = deepT"
| "enforceFunctionReturnLiteralCompatibility (Suc n) R ss d =
     (if d = None then retT ()
      else
        eachT (\<lambda>(i, s). case s of
            ReturnStatement t e \<Rightarrow> enforceDeclaredLiteralCompatibility R e d (tok_Position t)
          | ExpressionStatement t e \<Rightarrow>
              if i = length ss - 1 then enforceDeclaredLiteralCompatibility R e d (tok_Position t) else retT ()
          | BlockStmt b \<Rightarrow> enforceFunctionReturnLiteralCompatibility n R (bs_Statements b) d
          | _ \<Rightarrow> retT ()) (enumerate 0 ss))"

definition widen_param :: "nat \<Rightarrow> bindings \<Rightarrow> string \<times> tref \<Rightarrow> (tref \<times> bool) tc" where
  \<comment> \<open>the parameter after an iteration, and whether it changed\<close>
  "widen_param n ov nt =
     bindT (case map_of ov (fst nt) of Some t \<Rightarrow> unionType n [snd nt, t] | None \<Rightarrow> retT (snd nt)) (\<lambda>nxt.
     bindT (typeSig n nxt) (\<lambda>a. bindT (typeSig n (snd nt)) (\<lambda>b.
       retT (if a \<noteq> b then (nxt, True) else (snd nt, False)))))"

definition rebind_param :: "string \<times> tref \<Rightarrow> unit tc" where
  "rebind_param nt =
     thenT (modT (\<lambda>c. if scopes c = [] then c else c\<lparr>scopes := update_top (fst nt) (snd nt) (scopes c)\<rparr>))
       (setOverride (fst nt) (snd nt))"

definition inferFunctionIteration ::
  "infer \<Rightarrow> (stmt, expr) BlockStatement option \<Rightarrow> string list \<Rightarrow> tref list \<Rightarrow> (tref \<times> bool \<times> tref list) tc" where
  \<comment> \<open>the type of the body, whether a parameter changed, and the parameters after it\<close>
  "inferFunctionIteration R body names params =
     thenT pushScope (thenT pushOverride (thenT (eachT (\<lambda>(nm, t). bind_type nm t) (zip names params))
       (bindT (inferBlockInCurrentScope R body) (\<lambda>iterRet. bindT snapshotCurrentOverride (\<lambda>ov.
        thenT popOverride (thenT popScope
          (bindT (mapT (widen_param (i_depth R) ov) (zip names params)) (\<lambda>outs.
           let params = map fst outs
           in thenT (eachT rebind_param (zip names params))
                (retT (iterRet, (\<exists>out\<in>set outs. snd out), params))))))))))"

fun infer_iterations ::
  "nat \<Rightarrow> infer \<Rightarrow> (stmt, expr) BlockStatement option \<Rightarrow> string list \<Rightarrow> tref list \<Rightarrow> tref \<Rightarrow> (tref \<times> tref list) tc" where
  \<comment> \<open>at most so many iterations, with the parameters and the result so far\<close>
  "infer_iterations 0 R body names params ret = retT (ret, params)"
| "infer_iterations (Suc k) R body names params ret =
     bindT (inferFunctionIteration R body names params) (\<lambda>(iterRet, changed, params).
     bindT (unionType (i_depth R) [ret, iterRet]) (\<lambda>ret.
       if changed then infer_iterations k R body names params ret else retT (ret, params)))"

definition bind_param :: "infer \<Rightarrow> expr FunctionParameter \<Rightarrow> tref tc" where
  "bind_param R p =
     bindT (declared_param R (tok_Position (id_Token (fp_Name p))) p) (\<lambda>pt.
       thenT (bind_type (id_Value (fp_Name p)) pt) (retT pt))"

definition inferFunctionLiteral ::
  "infer \<Rightarrow> Token \<Rightarrow> string list \<Rightarrow> FSig \<Rightarrow> expr FunctionParameter list \<Rightarrow> string \<Rightarrow>
   (stmt, expr) BlockStatement option \<Rightarrow> tref tc" where
  "inferFunctionLiteral R tok tps sig ps rt body =
     (let pos = tok_Position tok; names = map (\<lambda>p. id_Value (fp_Name p)) ps
      in with_generics tps (\<lambda>order.
         thenT pushScope (thenT pushOverride
         (bindT (mapT (bind_param R) ps) (\<lambda>params.
         bindT (scalar typeNever) (\<lambda>never.
         bindT (if body = None then retT (never, params)
                else infer_iterations (if containsRecurInCurrentFunction body then 4 else 1) R body names params never)
           (\<lambda>(ret, params).
         bindT (validate_return R rt pos) (\<lambda>tt.
         bindT (if tt = None then retT ret
                else
                  bindT (node_of tt) (\<lambda>u.
                  thenT (if t_kind u = typeTuple \<and> bodyReturnsListLiteral body then retT ()
                         else addConstraint ret tt pos ''function return annotation'')
                  (thenT (enforceFunctionReturnLiteralCompatibility (i_depth R) R (block_statements body) tt)
                  (thenT (add_return_check pos tt tt) (retT tt))))) (\<lambda>ret.
         thenT popOverride (thenT popScope
         (bindT (fnType params ret (last_variadic ps) (sig_Min sig) (if sig_Max sig > 1000000 then - 1 else sig_Max sig))
           (\<lambda>ft. thenT (update_node (\<lambda>x. x\<lparr>t_typeParams := order\<rparr>) ft) (retT ft)))))))))))))"

section \<open>Calls\<close>

definition infer_argument :: "infer \<Rightarrow> expr \<Rightarrow> (tref \<times> bool) tc" where
  \<comment> \<open>the type, and whether the argument is spread\<close>
  "infer_argument R a =
     (case a of
        SpreadExpression _ v \<Rightarrow> bindT (i_expr R v) (\<lambda>t. retT (t, True))
      | _ \<Rightarrow> bindT (i_expr R a) (\<lambda>t. retT (t, False)))"

definition call_arity :: "tnode \<Rightarrow> int \<times> int" where
  "call_arity ct =
     (let mx = (if t_maxArgs ct = 0 \<and> t_params ct \<noteq> [] \<and> \<not> t_variadic ct then int (length (t_params ct)) else t_maxArgs ct)
      in (t_minArgs ct, if mx = 0 \<and> t_params ct = [] then - 1 else mx))"

definition check_arity :: "tnode \<Rightarrow> (tref \<times> bool) list \<Rightarrow> nat \<Rightarrow> unit tc" where
  "check_arity ct args pos =
     (let (mn, mx) = call_arity ct; argc = int (length args);
          fixed = int (length (filter (\<lambda>a. \<not> snd a) args))
      in if \<not> (\<exists>a\<in>set args. snd a) then
           if argc < mn \<or> (mx \<ge> 0 \<and> argc > mx) then
             if mx \<ge> 0 then
               addDiag pos (''call arity mismatch: expected '' @ show_int mn @ ''..'' @ show_int mx @ '' arguments, got '' @
                 show_int argc)
             else
               addDiag pos (''call arity mismatch: expected at least '' @ show_int mn @ '' arguments, got '' @ show_int argc)
           else retT ()
         else if mx \<ge> 0 \<and> fixed > mx then
           addDiag pos (''call arity mismatch: expected '' @ show_int mn @ ''..'' @ show_int mx @
             '' arguments, got at least '' @ show_int fixed)
         else retT ())"

definition relate_argument :: "bool \<Rightarrow> nat \<Rightarrow> tref \<Rightarrow> tref \<Rightarrow> unit tc" where
  "relate_argument useConstraints pos got expected =
     (if useConstraints then addConstraint got expected pos ''call argument type''
      else
        modT (\<lambda>c. c\<lparr>callChecks := callChecks c @ [\<lparr>ck_pos = pos, ck_first = got, ck_second = expected\<rparr>]\<rparr>))"

definition spread_element :: "tref \<Rightarrow> tref tc" where
  "spread_element t =
     bindT freshUnknown (\<lambda>e.
       found t (\<lambda>_ tn. case tn of
         None \<Rightarrow> panicT
       | Some u \<Rightarrow>
           if t_kind u = typeList then retT (t_elem u)
           else if t_kind u = typeBytes then scalar typeNum
           else if t_kind u = typeStr then scalar typeStr
           else retT e))"

fun relate_arguments :: "bool \<Rightarrow> nat \<Rightarrow> (tref \<times> bool) list \<Rightarrow> tref list \<Rightarrow> unit tc" where
  \<comment> \<open>with the parameters that are left\<close>
  "relate_arguments uc pos [] ps = retT ()"
| "relate_arguments uc pos (a # as) [] = retT ()"
| "relate_arguments uc pos (a # as) (p # ps) =
     (if \<not> snd a then thenT (relate_argument uc pos (fst a) p) (relate_arguments uc pos as ps)
      else
        bindT (spread_element (fst a)) (\<lambda>e.
          thenT (eachT (relate_argument uc pos e) (p # ps)) (relate_arguments uc pos as [])))"

definition inferCall :: "infer \<Rightarrow> Token \<Rightarrow> expr \<Rightarrow> expr list \<Rightarrow> tref tc" where
  "inferCall R tok f args =
     (let pos = tok_Position tok; n = i_depth R
      in bindT (i_expr R f) (\<lambda>callee.
         bindT freshUnknown (\<lambda>result.
         bindT (mapT (infer_argument R) args) (\<lambda>args.
         found callee (\<lambda>r tn. case tn of
             None \<Rightarrow> panicT
           | Some u \<Rightarrow>
               if t_kind u \<noteq> typeFn then retT result
               else
                 bindT (if t_typeParams u \<noteq> [] then retT True else containsTypeParam n r) (\<lambda>uc.
                 bindT (if t_typeParams u \<noteq> [] then instantiateFunctionType n r None else retT r) (\<lambda>inst.
                 bindT (node_of inst) (\<lambda>ct.
                 thenT (check_arity ct args pos)
                 (thenT (relate_arguments uc pos args (t_params ct))
                 (thenT (addConstraint result (t_ret ct) pos ''call return type'') (retT result)))))))))))"

section \<open>Operators\<close>

definition unionContainerModes :: "tref \<Rightarrow> (bool \<times> bool \<times> bool) tc" where
  \<comment> \<open>whether the options have a list, bytes, and anything else\<close>
  "unionContainerModes t =
     found t (\<lambda>_ tn. case tn of
       None \<Rightarrow> retT (False, False, False)
     | Some u \<Rightarrow>
         if t_kind u \<noteq> typeUnion then retT (False, False, False)
         else
           foldT (\<lambda>(l, b, other) opt. found opt (\<lambda>_ on. retT (case on of
               None \<Rightarrow> (l, b, other)
             | Some v \<Rightarrow>
                 if t_kind v = typeList then (True, b, other)
                 else if t_kind v = typeBytes then (l, True, other)
                 else if t_kind v \<in> {typeUnknown, typeAny, typeNil, typeNever} then (l, b, other)
                 else (l, b, True)))) (False, False, False) (t_options u))"

definition reassign_scope :: "nat \<Rightarrow> string \<Rightarrow> tref \<Rightarrow> nat \<Rightarrow> unit tc" where
  \<comment> \<open>widen the variable in the scope with this index from the innermost\<close>
  "reassign_scope n nm t i =
     bindT (getT (\<lambda>c. or_nil_type (map_of (scopes c ! i) nm))) (\<lambda>cur.
     bindT (unionType n [cur, t]) (\<lambda>merged.
     thenT (describe n cur) (thenT (describe n t) (thenT (describe n merged)
     (thenT (widened merged cur t)
     (thenT (modT (\<lambda>c. c\<lparr>scopes := (scopes c)[i := AList.update nm merged (scopes c ! i)]\<rparr>)) (setOverride nm t)))))))"

definition trackReassignmentType :: "nat \<Rightarrow> expr \<Rightarrow> tref \<Rightarrow> nat \<Rightarrow> unit tc" where
  "trackReassignmentType n target t pos =
     (case identifierName target of
        None \<Rightarrow> retT ()
      | Some nm \<Rightarrow>
          if nm = [] then retT ()
          else
            thenT (bindT (getT (lookupDeclared nm)) (\<lambda>dt.
                if dt = None then retT ()
                else
                  bindT (typeMayBeNilConcretely n t) (\<lambda>mayBe. if \<not> mayBe then retT ()
                  else bindT (typeAllowsNil n dt) (\<lambda>allowed. if allowed then retT ()
                  else bindT (describe n dt) (\<lambda>a. bindT (describe n t) (\<lambda>b.
                    addDiag pos (''nilability mismatch (assignment): expected '' @ a @ '', got '' @ b)))))))
              (bindT (getT (\<lambda>c. List.find (\<lambda>i. or_nil_type (map_of (scopes c ! i) nm) \<noteq> None) [0..<length (scopes c)]))
                (\<lambda>i. case i of None \<Rightarrow> retT () | Some i \<Rightarrow> reassign_scope n nm t i)))"

text \<open>
  \<open>:+\<close> and \<open>+:\<close> mirror each other: the container is the left operand of \<open>:+\<close> and the right one of
  \<open>+:\<close>, and the element is the other. The messages differ in a word.
\<close>

definition infer_extend :: "nat \<Rightarrow> string \<Rightarrow> string \<Rightarrow> string \<Rightarrow> tref \<Rightarrow> tref \<Rightarrow> tref \<Rightarrow> nat \<Rightarrow> tref tc" where
  "infer_extend n word side list_reason container element out pos =
     (let bytes_mode =
            thenT (constrain_scalar element typeNum pos (''bytes '' @ word @ '' operator''))
              (thenT (constrain_scalar out typeBytes pos (''bytes '' @ word @ '' result'')) (retT out));
          open_mode = bindT freshUnknown (\<lambda>u. thenT (addConstraint out u pos ''list concat result'') (retT out))
      in found container (\<lambda>r tn. case tn of
           None \<Rightarrow> panicT
         | Some u \<Rightarrow>
             bindT (unionContainerModes r) (\<lambda>(hasList, hasBytes, hasOther).
               if t_kind u = typeUnion \<and> (hasList \<or> hasBytes) then
                 if hasBytes \<and> \<not> hasList then bytes_mode else open_mode
               else if t_kind u = typeUnion \<and> \<not> hasOther then open_mode
               else if t_kind u = typeList then thenT (addConstraint out r pos list_reason) (retT out)
               else if t_kind u = typeBytes then bytes_mode
               else if t_kind u \<in> {typeUnknown, typeAny} then open_mode
               else
                 bindT (describe n container) (\<lambda>d.
                   thenT (addDiag pos (''list/bytes '' @ word @ '' type mismatch: expected list or bytes on '' @ side @
                     '', got '' @ d)) (retT out)))))"

definition both_constrained :: "tref \<Rightarrow> tref \<Rightarrow> tref \<Rightarrow> typeKind \<Rightarrow> nat \<Rightarrow> string \<Rightarrow> string \<Rightarrow> tref tc" where
  "both_constrained l r out k pos why result =
     thenT (constrain_scalar l k pos why) (thenT (constrain_scalar r k pos why)
       (thenT (constrain_scalar out k pos result) (retT out)))"

definition pair_check :: "nat \<Rightarrow> tref \<Rightarrow> tref \<Rightarrow> typeCheck" where
  "pair_check pos l r = \<lparr>ck_pos = pos, ck_first = l, ck_second = r\<rparr>"

definition inferInfix :: "infer \<Rightarrow> Token \<Rightarrow> expr \<Rightarrow> string \<Rightarrow> expr \<Rightarrow> tref tc" where
  "inferInfix R tok le op re =
     (let pos = tok_Position tok; n = i_depth R
      in bindT (i_expr R le) (\<lambda>l. bindT (i_expr R re) (\<lambda>r. bindT freshUnknown (\<lambda>out.
         if op = ''='' then
           thenT (addConstraint l r pos ''assignment'') (thenT (trackReassignmentType n le r pos) (retT r))
         else if op = ''+'' then
           bindT (kind_of l) (\<lambda>lk. bindT (kind_of r) (\<lambda>rk.
             if lk = typeStr \<or> rk = typeStr then
               thenT (constrain_scalar out typeStr pos ''string concatenation'') (retT out)
             else if lk = typeNum \<and> rk = typeNum then
               thenT (constrain_scalar out typeNum pos ''numeric result'') (retT out)
             else thenT (modT (\<lambda>c. c\<lparr>plusChecks := plusChecks c @ [pair_check pos l r]\<rparr>)) (retT out)))
         else if op \<in> {''-'', ''/'', ''%'', ''<<'', ''>>''} then
           both_constrained l r out typeNum pos ''numeric operator'' ''numeric result''
         else if op \<in> {''&'', ''|'', ''^''} then
           thenT (modT (\<lambda>c. c\<lparr>bitChecks := bitChecks c @ [pair_check pos l r]\<rparr>)) (retT out)
         else if op = ''*'' then
           thenT (modT (\<lambda>c. c\<lparr>mulChecks := mulChecks c @ [pair_check pos l r]\<rparr>)) (retT out)
         else if op = ''=='' \<or> op = ''!='' then
           thenT (constrain_scalar out typeBool pos ''equality result'') (retT out)
         else if op \<in> {''<'', ''<='', ''>'', ''>=''} then
           thenT (addConstraint l r pos ''comparison operand compatibility'')
             (thenT (constrain_scalar out typeBool pos ''comparison result'') (retT out))
         else if op = ''&&'' \<or> op = ''||'' then
           both_constrained l r out typeBool pos ''logical operator'' ''logical result''
         else if op = '':+'' then infer_extend n ''append'' ''left'' ''list concat result'' l r out pos
         else if op = ''+:'' then infer_extend n ''prepend'' ''right'' ''list prepend result'' r l out pos
         else retT out))))"

section \<open>Bindings\<close>

definition schema_field :: "infer \<Rightarrow> string \<Rightarrow> expr StructField \<Rightarrow> (string \<times> tref) tc" where
  "schema_field R nm f =
     (let n = i_depth R; pos = tok_Position (sf_Token f); qualified = nm @ ''.'' @ sf_Name f; typed = TrimSpace (sf_Type f) \<noteq> []
      in bindT freshUnknown (\<lambda>ft.
         bindT (if \<not> typed \<and> isNilExpr (sf_Default f) then scalar typeAny else retT ft) (\<lambda>ft.
         thenT (if \<not> typed then retT ()
            else
              thenT (validateDeclaredTypeShape (sf_Type f) pos ''struct field'')
              (thenT (validateSpecialDeclaredType n (sf_Type f) pos ''struct field'')
              (bindT (parseDeclaredType n (sf_Type f)) (\<lambda>tt.
                addConstraint ft tt pos (''struct schema type '' @ qualified)))))
         (thenT (if isNilExpr (sf_Default f) then retT ()
            else
              bindT (i_expr R (sf_Default f)) (\<lambda>d.
                addConstraint ft d pos (''struct schema default '' @ qualified)))
           (retT (sf_Name f, ft))))))"

definition registerStructSchema :: "infer \<Rightarrow> pattern \<Rightarrow> expr \<Rightarrow> unit tc" where
  "registerStructSchema R pat v =
     (case (v, pat) of
        (StructSchemaExpression _ fs, IdentifierPattern _ i) \<Rightarrow>
          bindT (mapT (schema_field R (id_Value i)) fs) (\<lambda>fts.
            modT (\<lambda>c. c\<lparr>schemas := AList.update (id_Value i) (add_bindings fts []) (schemas c)\<rparr>))
      | _ \<Rightarrow> retT ())"

definition check_annotation :: "infer \<Rightarrow> string \<Rightarrow> pattern \<Rightarrow> string \<Rightarrow> expr \<Rightarrow> nat \<Rightarrow> tref \<Rightarrow> unit tc" where
  \<comment> \<open>the annotation of a \<open>val\<close> or \<open>var\<close>, which is the keyword\<close>
  "check_annotation R kw pat ty v pos t =
     (let n = i_depth R
      in thenT (validateDeclaredTypeShape ty pos kw) (thenT (validateSpecialDeclaredType n ty pos kw)
         (bindT (parseDeclaredType n ty) (\<lambda>tt.
           if tt = None then retT ()
           else
             thenT (addConstraint t tt pos (kw @ '' annotation''))
             (thenT (check_element R pos (kw @ '' annotation'') t tt)
             (thenT (enforceDeclaredLiteralCompatibility R v tt pos)
             (thenT (bindPatternDeclared n pat tt)
             (bindT (typeMayBeNilConcretely n t) (\<lambda>mayBe. if \<not> mayBe then retT ()
              else bindT (typeAllowsNil n tt) (\<lambda>allowed. if allowed then retT ()
              else bindT (describe n tt) (\<lambda>a. bindT (describe n t) (\<lambda>b.
                addDiag pos (''nilability mismatch ('' @ kw @ '' annotation): expected '' @ a @ '', got '' @ b)))))))))))))"

definition inferBinding ::
  "infer \<Rightarrow> string \<Rightarrow> expr Tag list \<Rightarrow> Token \<Rightarrow> pattern \<Rightarrow> string \<Rightarrow> expr \<Rightarrow> tref tc" where
  \<comment> \<open>\<open>VarExpression\<close> and \<open>ValExpression\<close>; a function that has a name is inferred with a placeholder for it\<close>
  "inferBinding R kw tags tok pat ty v =
     (let pos = tok_Position tok; n = i_depth R
      in bindT (case v of
             FunctionLiteral _ _ sig ps _ _ _ \<Rightarrow>
               if patternBindingName pat \<noteq> [] then
                 thenT pushOverride (bindT freshUnknown (\<lambda>u.
                 bindT (fnType [] u (last_variadic ps) (sig_Min sig) (sig_Max sig)) (\<lambda>placeholder.
                 thenT (setOverride (patternBindingName pat) placeholder)
                 (bindT (i_expr R v) (\<lambda>t. thenT popOverride (retT t))))))
               else i_expr R v
           | _ \<Rightarrow> i_expr R v) (\<lambda>t.
         thenT (check_annotation R kw pat ty v pos t)
         (thenT (enforceTags t tags pos)
         (thenT (bindT (bindImportedPattern n (i_path R) (i_exports R) pat v) (\<lambda>imported.
            if imported then retT () else bindPattern n pat t))
         (thenT (registerStructSchema R pat v) (retT t))))))"

section \<open>Expressions\<close>

fun same_signatures :: "nat \<Rightarrow> tref \<Rightarrow> tref list \<Rightarrow> bool tc" where
  "same_signatures n e [] = retT True"
| "same_signatures n e (t # ts) =
     bindT (typeSig n t) (\<lambda>a. bindT (typeSig n e) (\<lambda>b. if a \<noteq> b then retT False else same_signatures n e ts))"

definition inferList :: "infer \<Rightarrow> expr list \<Rightarrow> tref tc" where
  "inferList R es =
     bindT (mapT (i_expr R) es) (\<lambda>ts.
     bindT (scalar typeAny) (\<lambda>plain.
       case ts of
         [] \<Rightarrow> listType plain
       | t # ts \<Rightarrow>
           bindT (same_signatures (i_depth R) t ts) (\<lambda>same.
             if same then listType t else bindT (scalar typeAny) listType)))"

definition inferPrefix :: "infer \<Rightarrow> Token \<Rightarrow> string \<Rightarrow> expr \<Rightarrow> tref tc" where
  "inferPrefix R tok op e =
     bindT (i_expr R e) (\<lambda>r.
       let pos = tok_Position tok;
           numeric = thenT (constrain_scalar r typeNum pos ''prefix numeric operator'') (scalar typeNum)
       in if op = ''-'' then numeric
          else if op = ''~'' then
            bindT (kind_of r) (\<lambda>k.
              if k = typeBytes then scalar typeBytes
              else if k = typeUnknown \<or> k = typeAny then freshUnknown
              else numeric)
          else if op = ''!'' then scalar typeBool
          else freshUnknown)"

definition inferIf ::
  "infer \<Rightarrow> Token \<Rightarrow> expr \<Rightarrow> (stmt, expr) BlockStatement option \<Rightarrow> (stmt, expr) BlockStatement option \<Rightarrow> tref tc" where
  "inferIf R tok c th el =
     (let pos = tok_Position tok; n = i_depth R
      in bindT (i_expr R c) (\<lambda>cond.
         thenT (constrain_scalar cond typeBool pos ''if condition must be boolean'')
         (bindT (getT visibleBindings) (\<lambda>outer.
         bindT (collectGuardRefinements n c True) (\<lambda>thenRefs.
         bindT (collectGuardRefinements n c False) (\<lambda>elseRefs.
         bindT (hasImpossibleRefinement thenRefs) (\<lambda>noThen.
         thenT (if noThen then addDiag pos ''unreachable if-branch: guard refinements are contradictory'' else retT ())
         (bindT (hasImpossibleRefinement elseRefs) (\<lambda>noElse.
         thenT (if noElse then addDiag pos ''unreachable else-branch: guard refinements are contradictory'' else retT ())
         (bindT (inferBlockWithRefinementsAndOverrides R th thenRefs) (\<lambda>(thenType, thenOv).
         bindT (scalar typeNil) (\<lambda>nilType.
         bindT (if el = None then retT (nilType, []) else inferBlockWithRefinementsAndOverrides R el elseRefs)
           (\<lambda>(elseType, elseOv).
         thenT (mergeIfOverrides n outer thenOv elseOv (el \<noteq> None)) (unionType n [thenType, elseType]))))))))))))))"

definition inferTypeApplication :: "infer \<Rightarrow> Token \<Rightarrow> expr \<Rightarrow> string list \<Rightarrow> tref tc" where
  "inferTypeApplication R tok f args =
     (let pos = tok_Position tok; n = i_depth R
      in bindT (i_expr R f) (\<lambda>base.
         found base (\<lambda>r tn. case tn of
             None \<Rightarrow> retT base
           | Some u \<Rightarrow>
               if t_kind u \<noteq> typeFn then retT base
               else
                 bindT (mapT (\<lambda>a. bindT (getT currentGenericScope) (\<lambda>gs.
                   bindT (parseDeclaredTypeWithScope n gs a) or_fresh)) args) (\<lambda>explicit.
                   let want = length (t_typeParams u)
                   in if want > 0 \<and> length explicit \<noteq> want then
                        thenT (addDiag pos (''generic type argument mismatch: expected '' @ show_nat want @
                          '' arguments, got '' @ show_nat (length explicit))) (instantiateFunctionType n r None)
                      else if want > 0 then instantiateFunctionType n r (Some explicit)
                      else
                        thenT (if explicit \<noteq> [] then addDiag pos ''type application requires a generic function'' else retT ())
                          (retT base)))))"

definition inferStructInit :: "infer \<Rightarrow> Token \<Rightarrow> expr \<Rightarrow> expr StructInitField list \<Rightarrow> tref tc" where
  "inferStructInit R tok s fs =
     (let schemaName = (case identifierName s of Some nm \<Rightarrow> nm | None \<Rightarrow> [])
      in bindT (i_expr R s) (\<lambda>schemaType.
         bindT (struct_node []) (\<lambda>st.
         thenT (addConstraint schemaType st (tok_Position tok) ''struct init schema type'')
         (thenT (eachT (\<lambda>f. bindT (i_expr R (si_Value f)) (\<lambda>fv.
             bindT (getT schemas) (\<lambda>ss.
               if schemaName = [] then retT ()
               else case map_of ss schemaName of
                   None \<Rightarrow> retT ()
                 | Some fts \<Rightarrow>
                     (case map_of fts (si_Name f) of
                        None \<Rightarrow> retT ()
                      | Some expected \<Rightarrow>
                          addConstraint fv expected (tok_Position (si_Token f))
                            (''struct field '' @ schemaName @ ''.'' @ si_Name f))))) fs)
           (struct_node schemaName)))))"

fun narrowPattern :: "nat \<Rightarrow> infer \<Rightarrow> pattern \<Rightarrow> tref \<Rightarrow> nat \<Rightarrow> unit tc" where
  "narrowPattern 0 R pat t pos = deepT"
| "narrowPattern (Suc n) R pat t pos =
     (let go = (\<lambda>p t. narrowPattern n R p t pos); open_go = (\<lambda>p. bindT freshUnknown (go p))
      in case pat of
           IdentifierPattern _ _ \<Rightarrow> bindPattern n pat t
         | BindingPattern _ _ _ \<Rightarrow> bindPattern n pat t
         | SpreadPattern _ _ \<Rightarrow> bindPattern n pat t
         | LiteralPattern _ e \<Rightarrow> bindT (i_expr R e) (\<lambda>lit. addConstraint t lit pos ''match literal pattern'')
         | ListPattern _ ps \<Rightarrow>
             bindT (sequenceElementType t) (\<lambda>e.
             thenT (constrainSequenceLike n t e pos ''match list pattern'') (eachT (\<lambda>p. go p e) ps))
         | MapPattern _ pairs sp _ _ \<Rightarrow>
             bindT open_map (\<lambda>m.
             thenT (addConstraint t m pos ''match map pattern'')
             (thenT (eachT (\<lambda>e. open_go (me_Pattern e)) pairs)
               (if sp = NoPattern then retT () else bindT open_map (go sp))))
         | StructPattern _ schema fs \<Rightarrow>
             bindT (struct_node (id_Value schema)) (\<lambda>st.
             thenT (addConstraint t st pos ''match struct pattern'')
             (bindT (getT (\<lambda>c. map_of (schemas c) (id_Value schema))) (\<lambda>fts.
               eachT (\<lambda>f. case fts of
                   None \<Rightarrow> open_go (spf_Pattern f)
                 | Some ts \<Rightarrow>
                     (case map_of ts (spf_Name f) of
                        Some expected \<Rightarrow> go (spf_Pattern f) expected
                      | None \<Rightarrow> open_go (spf_Pattern f))) fs)))
         | MultiPattern _ ps \<Rightarrow> (case ps of [] \<Rightarrow> retT () | p # _ \<Rightarrow> go p t)
         | _ \<Rightarrow> retT ())"

definition inferCase ::
  "infer \<Rightarrow> tref \<Rightarrow> (expr, pattern, (stmt, expr) BlockStatement) MatchCase \<Rightarrow> tref tc" where
  "inferCase R scrutinee cs =
     (let n = i_depth R; pos = tok_Position (mc_Token cs);
          leave = (\<lambda>t. thenT popOverride (thenT popScope (retT t)))
      in thenT (pushIsolatedScopeFromVisible n)
         (thenT (if scrutinee = None then retT ()
            else bindT (cloneForCaseScope n [] scrutinee) (\<lambda>(t, _). narrowPattern n R (mc_Pattern cs) t pos))
         (bindT (if mc_Guard cs = NoExpr then retT False
            else
              bindT (i_expr R (mc_Guard cs)) (\<lambda>g.
              thenT (constrain_scalar g typeBool pos ''match guard must be boolean'')
              (bindT (collectGuardRefinements n (mc_Guard cs) True) (\<lambda>refs.
              bindT (hasImpossibleRefinement refs) (\<lambda>impossible.
                thenT (if impossible then addDiag pos ''unreachable match case: guard refinements are contradictory''
                       else eachT (\<lambda>(nm, t). bind_type nm t) refs) (retT impossible)))))) (\<lambda>impossible.
           if impossible then thenT popOverride (thenT popScope (scalar typeNever))
           else bindT (inferBlockInCurrentScope R (mc_Body cs)) leave))))"

definition inferMatch ::
  "infer \<Rightarrow> expr \<Rightarrow> (expr, pattern, (stmt, expr) BlockStatement) MatchCase list \<Rightarrow> tref tc" where
  "inferMatch R v cs =
     bindT (if v = NoExpr then retT None else i_expr R v) (\<lambda>scrutinee.
     bindT (mapT (inferCase R scrutinee) cs) (\<lambda>results.
       if results = [] then scalar typeNil else unionType (i_depth R) results))"

definition infer_present :: "infer \<Rightarrow> expr \<Rightarrow> (tref \<Rightarrow> unit tc) \<Rightarrow> unit tc" where
  "infer_present R e f = (if e = NoExpr then retT () else bindT (i_expr R e) f)"

definition inferSelect :: "infer \<Rightarrow> expr SelectCase list \<Rightarrow> tref tc" where
  "inferSelect R cs =
     bindT freshUnknown (\<lambda>out.
       thenT (eachT (\<lambda>c.
           let pos = tok_Position (sc_Token c); skip = (\<lambda>_. retT ())
           in thenT (infer_present R (sc_Channel c) skip) (thenT (infer_present R (sc_Value c) skip)
              (thenT (infer_present R (sc_After c) skip)
              (thenT (infer_present R (sc_Await c) (\<lambda>h. constrain_scalar h typeTask pos ''select await expects task''))
                (infer_present R (sc_Handler c) (\<lambda>h. addConstraint out h pos ''select handler result'')))))) cs)
         (retT out))"

definition inferIndex :: "infer \<Rightarrow> Token \<Rightarrow> expr \<Rightarrow> expr \<Rightarrow> tref tc" where
  "inferIndex R tok e i =
     bindT (i_expr R e) (\<lambda>l. thenT (i_expr R i)
       (bindT freshUnknown (\<lambda>result. bindT freshUnknown (\<lambda>container.
        thenT (addConstraint container l (tok_Position tok) ''index container'')
        (bindT freshUnknown (\<lambda>u.
         thenT (addConstraint result u (tok_Position tok) ''index result'') (retT result)))))))"

definition inferIdentifier :: "string \<Rightarrow> tref tc" where
  "inferIdentifier nm =
     bindT (getT (lookup_type nm)) (\<lambda>t.
       if t \<noteq> None then retT t else bindT freshUnknown (\<lambda>u. thenT (bind_type nm u) (retT u)))"

definition inferExpr :: "infer \<Rightarrow> expr \<Rightarrow> tref tc" where
  "inferExpr R e =
     (case e of
        NoExpr \<Rightarrow> scalar typeNil
      | NumberLiteral _ _ \<Rightarrow> scalar typeNum
      | StringLiteral _ _ \<Rightarrow> scalar typeStr
      | BytesLiteral _ _ \<Rightarrow> scalar typeBytes
      | Boolean _ _ \<Rightarrow> scalar typeBool
      | NilLiteral _ \<Rightarrow> scalar typeNil
      | SymbolLiteral _ _ \<Rightarrow> scalar typeSym
      | IdentifierExpr i \<Rightarrow> inferIdentifier (id_Value i)
      | ListLiteral _ es \<Rightarrow> inferList R es
      | MapLiteral _ ps \<Rightarrow>
          bindT (scalar typeAny) (\<lambda>kt. bindT (scalar typeAny) (\<lambda>vt.
            thenT (eachT (\<lambda>(k, v). thenT (i_expr R k) (thenT (i_expr R v) (retT ()))) ps) (mapType kt vt)))
      | PrefixExpression tok op r \<Rightarrow> inferPrefix R tok op r
      | InfixExpression tok l op r \<Rightarrow> inferInfix R tok l op r
      | IfExpression tok c th el \<Rightarrow> inferIf R tok c th el
      | FunctionLiteral tok tps sig ps rt body _ \<Rightarrow> inferFunctionLiteral R tok tps sig ps rt body
      | TypeApplicationExpression tok f args \<Rightarrow> inferTypeApplication R tok f args
      | CallExpression tok f args _ \<Rightarrow> inferCall R tok f args
      | NamedArgument _ _ v \<Rightarrow> i_expr R v
      | SpreadExpression _ v \<Rightarrow> i_expr R v
      | IndexExpression tok l i _ \<Rightarrow> inferIndex R tok l i
      | StructSchemaExpression _ _ \<Rightarrow> struct_node ''schema''
      | StructInitExpression tok s fs \<Rightarrow> inferStructInit R tok s fs
      | StructCopyExpression _ s fs \<Rightarrow> bindT (i_expr R s) (\<lambda>t. thenT (i_expr R fs) (retT t))
      | VarExpression tags tok pat ty v _ _ \<Rightarrow> inferBinding R ''var'' tags tok pat ty v
      | ValExpression tags tok pat ty v _ _ \<Rightarrow> inferBinding R ''val'' tags tok pat ty v
      | MatchExpression _ v cs \<Rightarrow> inferMatch R v cs
      | SelectExpression _ cs \<Rightarrow> inferSelect R cs
      | RecurExpression _ args \<Rightarrow> thenT (mapT (i_expr R) args) freshUnknown
      | SpawnExpression _ b \<Rightarrow> thenT (i_expr R b) (scalar typeTask)
      | BlockExpr b \<Rightarrow> inferBlock R (Some b)
      | _ \<Rightarrow> freshUnknown)"

section \<open>The check of a program\<close>

fun infer_at :: "string \<Rightarrow> (string \<Rightarrow> Symbol list) \<Rightarrow> nat \<Rightarrow> infer" where
  "infer_at path exports 0 =
     \<lparr>i_depth = 0, i_path = path, i_exports = exports, i_expr = (\<lambda>_. deepT), i_stmt = (\<lambda>_. deepT)\<rparr>"
| "infer_at path exports (Suc n) =
     (let R = infer_at path exports n
      in \<lparr>i_depth = n, i_path = path, i_exports = exports, i_expr = inferExpr R, i_stmt = inferStatement R\<rparr>)"

definition predeclare :: "FSig \<Rightarrow> string \<Rightarrow> unit tc" where
  "predeclare sig nm =
     bindT freshUnknown (\<lambda>u. bindT (fnType [] u False (sig_Min sig) (sig_Max sig)) (\<lambda>ph.
       thenT (update_node (\<lambda>x. x\<lparr>t_placeholder := True\<rparr>) ph) (put_binding nm ph)))"

definition predeclare_statement :: "stmt \<Rightarrow> unit tc" where
  "predeclare_statement s =
     (case s of
        ExpressionStatement _ (ValExpression _ _ pat _ (FunctionLiteral _ _ sig _ _ _ _) _ _) \<Rightarrow>
          eachT (\<lambda>(nm, _). predeclare sig nm) (topLevelPatternNames pat)
      | ExpressionStatement _ (VarExpression _ _ pat _ (FunctionLiteral _ _ sig _ _ _ _) _ _) \<Rightarrow>
          eachT (\<lambda>(nm, _). predeclare sig nm) (topLevelPatternNames pat)
      | ForeignFunctionDeclaration _ _ nm _ _ _ sig _ _ \<Rightarrow> predeclare sig (id_Value nm)
      | _ \<Rightarrow> retT ())"

definition predeclareTopLevelCallables :: "stmt list \<Rightarrow> unit tc" where
  "predeclareTopLevelCallables ss = eachT predeclare_statement ss"

definition newTypeChecker :: typeChecker where
  "newTypeChecker =
     \<lparr>nodes = [], nextID = 0, constraints = [], diags = [], diagSeen = [], callChecks = [], retChecks = [], plusChecks = [],
      mulChecks = [], bitChecks = [], scopes = [[]], declared = [[]], overrides = [[]], generics = [], schemas = []\<rparr>"

definition checkProgram :: "infer \<Rightarrow> stmt list \<Rightarrow> unit tc" where
  "checkProgram R ss =
     thenT (predeclareTopLevelCallables ss)
       (thenT (eachT (\<lambda>s. thenT (i_stmt R s) (retT ())) ss) (solveConstraints (i_depth R)))"

definition runInferredTypeChecks :: "infer \<Rightarrow> stmt list \<Rightarrow> diag list option" where
  \<comment> \<open>the errors that it adds; \<open>None\<close> if it panics or recurses deeper than the fuel\<close>
  "runInferredTypeChecks R ss =
     (case checkProgram R ss newTypeChecker of TOk _ c \<Rightarrow> Some (diags c) | _ \<Rightarrow> None)"

definition AnalyzeWithOptions ::
  "bool \<Rightarrow> nat \<Rightarrow> (string \<Rightarrow> Symbol list) \<Rightarrow> string \<Rightarrow> string \<Rightarrow> Program \<Rightarrow> (Program \<times> string list) option" where
  \<comment> \<open>with and without \<open>EnableTypeCheck\<close>, given the fuel\<close>
  "AnalyzeWithOptions enableTypeCheck n exports path src program =
     (let (annotated, errs) = Analyze path src program
      in if enableTypeCheck then
           map_option (\<lambda>ds. (annotated, errs @ map (diagnostic path src) ds))
             (runInferredTypeChecks (infer_at path exports n) (Statements annotated))
         else Some (annotated, errs))"

end
