(* ===== verification/Type_Laws.thy ===== *)
theory Type_Laws
  imports Type_Checker
begin

text \<open>
  The union-find structure of the type checker: the parents of nodes never form a cycle, so that
  \<open>tfind\<close> ends at the representative of a node, and compressing paths changes no representative.
\<close>

section \<open>Representatives\<close>

text \<open>\<open>leads c k p r\<close>: the node \<open>r\<close> without a parent is reached from \<open>p\<close> over \<open>k\<close> parents.\<close>

inductive leads :: "typeChecker \<Rightarrow> nat \<Rightarrow> nat \<Rightarrow> nat \<Rightarrow> bool" where
  leads_root: "p < length (nodes c) \<Longrightarrow> t_parent (nodes c ! p) = None \<Longrightarrow> leads c 0 p p"
| leads_step: "p < length (nodes c) \<Longrightarrow> t_parent (nodes c ! p) = Some q \<Longrightarrow> leads c k q r \<Longrightarrow> leads c (Suc k) p r"

inductive_cases leads_cases: "leads c k p r"

definition forest :: "typeChecker \<Rightarrow> bool" where
  "forest c \<longleftrightarrow> (\<forall>p<length (nodes c). \<exists>k r. leads c k p r)"

lemma leads_range: "leads c k p r \<Longrightarrow> p < length (nodes c) \<and> r < length (nodes c) \<and> t_parent (nodes c ! r) = None"
  by (induction rule: leads.induct) simp_all

lemma leads_unique: "leads c k p r \<Longrightarrow> leads c k' p r' \<Longrightarrow> k = k' \<and> r = r'"
proof (induction arbitrary: k' r' rule: leads.induct)
  case (leads_root p c)
  from leads_root(3) show ?case by (rule leads_cases) (use leads_root in simp_all)
next
  case (leads_step p c q k r)
  from leads_step.prems show ?case
  proof (rule leads_cases)
    fix q' k'' assume "k' = Suc k''" "t_parent (nodes c ! p) = Some q'" "leads c k'' q' r'"
    then show "Suc k = k' \<and> r = r'" using leads_step.IH [of k'' r'] leads_step.hyps(2) by simp
  qed (use leads_step.hyps(2) in simp)
qed

lemma leads_self: "leads c k r s \<Longrightarrow> t_parent (nodes c ! r) = None \<Longrightarrow> s = r"
  by (erule leads_cases) simp_all

lemma leads_each: "leads c k p r \<Longrightarrow> i \<le> k \<Longrightarrow> \<exists>q. leads c i q r"
proof (induction arbitrary: i rule: leads.induct)
  case (leads_step p c q k r)
  show ?case
  proof (cases "i = Suc k")
    case True then show ?thesis using leads_step.hyps leads.leads_step by blast
  next
    case False then show ?thesis using leads_step by simp
  qed
qed (auto intro: leads_root)

lemma leads_short: "leads c k p r \<Longrightarrow> k < length (nodes c)"
proof -
  assume l: "leads c k p r"
  obtain f where f: "\<And>i. i \<le> k \<Longrightarrow> leads c i (f i) r" using leads_each [OF l] by metis
  have "inj_on f {..k}"
  proof (rule inj_onI)
    fix i j assume "i \<in> {..k}" "j \<in> {..k}" "f i = f j"
    then have "leads c i (f i) r" "leads c j (f i) r" using f [of i] f [of j] by simp_all
    then show "i = j" using leads_unique by blast
  qed
  moreover have "f ` {..k} \<subseteq> {..<length (nodes c)}" using f leads_range by blast
  ultimately have "card {..k} \<le> card {..<length (nodes c)}" by (intro card_inj_on_le) simp_all
  then show ?thesis by simp
qed

section \<open>Path compression\<close>

definition same_node :: "tnode \<Rightarrow> tnode \<Rightarrow> bool" where
  \<comment> \<open>equal up to the parent\<close>
  "same_node u v \<longleftrightarrow> u\<lparr>t_parent := None\<rparr> = v\<lparr>t_parent := None\<rparr>"

definition reaches :: "typeChecker \<Rightarrow> nat \<Rightarrow> nat \<Rightarrow> bool" where
  "reaches c p r \<longleftrightarrow> (\<exists>k. leads c k p r)"

definition compressed :: "typeChecker \<Rightarrow> typeChecker \<Rightarrow> bool" where
  "compressed c c' \<longleftrightarrow>
     length (nodes c') = length (nodes c) \<and> (\<forall>p<length (nodes c). same_node (nodes c' ! p) (nodes c ! p)) \<and>
     (\<forall>p r. reaches c' p r = reaches c p r) \<and> c'\<lparr>nodes := []\<rparr> = c\<lparr>nodes := []\<rparr>"

lemma reaches_unique: "reaches c p r \<Longrightarrow> reaches c p s \<Longrightarrow> r = s"
  by (auto simp: reaches_def dest: leads_unique)

lemma reaches_range: "reaches c p r \<Longrightarrow> p < length (nodes c) \<and> r < length (nodes c) \<and> t_parent (nodes c ! r) = None"
  by (auto simp: reaches_def dest: leads_range)

lemma reaches_root: "p < length (nodes c) \<Longrightarrow> t_parent (nodes c ! p) = None \<Longrightarrow> reaches c p r \<longleftrightarrow> r = p"
  unfolding reaches_def using leads_root leads_self by blast

lemma reaches_step:
  "p < length (nodes c) \<Longrightarrow> t_parent (nodes c ! p) = Some q \<Longrightarrow> reaches c p r \<longleftrightarrow> reaches c q r"
proof -
  assume p: "p < length (nodes c)" "t_parent (nodes c ! p) = Some q"
  have "reaches c q r" if "leads c k p r" for k
    using that by (rule leads_cases) (use p in \<open>auto simp: reaches_def\<close>)
  moreover have "reaches c p r" if "leads c k q r" for k
    using leads_step [OF p that] by (auto simp: reaches_def)
  ultimately show ?thesis unfolding reaches_def by blast
qed

lemma reaches_root': "reaches c p r \<Longrightarrow> reaches c r s \<longleftrightarrow> s = r"
  using reaches_range reaches_root by blast

lemma reaches_induct [consumes 1, case_names root step]:
  assumes "reaches c p r"
    and "\<And>p. p < length (nodes c) \<Longrightarrow> t_parent (nodes c ! p) = None \<Longrightarrow> P p p"
    and "\<And>p q r. p < length (nodes c) \<Longrightarrow> t_parent (nodes c ! p) = Some q \<Longrightarrow> reaches c q r \<Longrightarrow> P q r \<Longrightarrow> P p r"
  shows "P p r"
proof -
  obtain k where "leads c k p r" using assms(1) by (auto simp: reaches_def)
  then show ?thesis using assms(2,3) unfolding reaches_def by (induction rule: leads.induct) blast+
qed

lemma forest_iff: "forest c \<longleftrightarrow> (\<forall>p<length (nodes c). \<exists>r. reaches c p r)"
  unfolding forest_def reaches_def by blast

lemma compressed_refl [simp]: "compressed c c"
  by (simp add: compressed_def same_node_def)

lemma compressed_trans: "compressed c d \<Longrightarrow> compressed d e \<Longrightarrow> compressed c e"
  by (simp add: compressed_def same_node_def)

lemma compressed_reaches: "compressed c d \<Longrightarrow> reaches d p r \<longleftrightarrow> reaches c p r"
  by (simp add: compressed_def)

lemma compressed_length: "compressed c d \<Longrightarrow> length (nodes d) = length (nodes c)"
  by (simp add: compressed_def)

lemma compressed_forest: "compressed c d \<Longrightarrow> forest d \<longleftrightarrow> forest c"
  by (simp add: forest_iff compressed_def)

text \<open>A new parent for a node, which is its representative or another one.\<close>

definition set_parent :: "nat \<Rightarrow> nat \<Rightarrow> typeChecker \<Rightarrow> typeChecker" where
  "set_parent p r c = c\<lparr>nodes := (nodes c)[p := (nodes c ! p)\<lparr>t_parent := Some r\<rparr>]\<rparr>"

lemma nodes_set_parent [simp]: "length (nodes (set_parent p r c)) = length (nodes c)"
  by (simp add: set_parent_def)

lemma nth_set_parent:
  "q < length (nodes c) \<Longrightarrow>
     nodes (set_parent p r c) ! q = (if q = p then (nodes c ! p)\<lparr>t_parent := Some r\<rparr> else nodes c ! q)"
  by (auto simp: set_parent_def)

lemma compress_step:
  assumes p: "reaches c p r" "p \<noteq> r"
  shows "compressed c (set_parent p r c)"
proof -
  let ?d = "set_parent p r c"
  have range: "p < length (nodes c)" "r < length (nodes c)" "t_parent (nodes c ! r) = None"
    using reaches_range [OF p(1)] by simp_all
  have r: "reaches ?d r r" using range p(2) by (simp add: reaches_root nth_set_parent)
  have pr: "reaches ?d p s \<longleftrightarrow> reaches ?d r s" for s
    using range by (intro reaches_step) (simp_all add: nth_set_parent)
  have there: "reaches ?d q s" if "reaches c q s" for q s
    using that
  proof (induction rule: reaches_induct)
    case (root q)
    show ?case
    proof (cases "q = p")
      case True then show ?thesis using p root by (simp add: reaches_root)
    next
      case False then show ?thesis using root by (simp add: reaches_root nth_set_parent)
    qed
  next
    case (step q q' s)
    show ?case
    proof (cases "q = p")
      case True
      then have "s = r" using p(1) step reaches_unique reaches_step by metis
      then show ?thesis using True r pr by simp
    next
      case False then show ?thesis using step reaches_step [of q ?d q' s] by (simp add: nth_set_parent)
    qed
  qed
  have from_d: "reaches c q s" if "reaches ?d q s" for q s
    using that
  proof (induction rule: reaches_induct)
    case (root q)
    then show ?case by (cases "q = p") (simp_all add: reaches_root nth_set_parent)
  next
    case (step q q' s)
    show ?case
    proof (cases "q = p")
      case True
      then have "q' = r" using step range by (simp add: nth_set_parent)
      then show ?thesis using True p step reaches_root' by metis
    next
      case False then show ?thesis using step reaches_step [of q c q' s] by (simp add: nth_set_parent)
    qed
  qed
  have "same_node (nodes ?d ! q) (nodes c ! q)" if "q < length (nodes c)" for q
    using that by (simp add: nth_set_parent same_node_def)
  moreover have "?d\<lparr>nodes := []\<rparr> = c\<lparr>nodes := []\<rparr>" by (simp add: set_parent_def)
  ultimately show ?thesis unfolding compressed_def using there from_d by (simp, blast)
qed

section \<open>The monad\<close>

lemma retT_apply [simp]: "retT a c = TOk a c" by (simp add: retT_def)
lemma getT_apply [simp]: "getT f c = TOk (f c) c" by (simp add: getT_def)
lemma modT_apply [simp]: "modT f c = TOk () (f c)" by (simp add: modT_def)
lemma bind_TOk [simp]: "m c = TOk a d \<Longrightarrow> bindT m f c = f a d" by (simp add: bindT_def)

lemma node_of_ok [simp]: "p < length (nodes c) \<Longrightarrow> node_of (Some p) c = TOk (nodes c ! p) c"
  by (simp add: node_of_def)

lemma update_parent:
  "p < length (nodes c) \<Longrightarrow> update_node (t_parent_update (\<lambda>_. Some r)) (Some p) c = TOk () (set_parent p r c)"
  by (simp add: update_node_def set_parent_def)

section \<open>Finding\<close>

lemma find_at_ok:
  assumes "leads c k p r" "k < n"
  shows "\<exists>d. find_at n p c = TOk r d \<and> compressed c d"
  using assms
proof (induction arbitrary: n rule: leads.induct)
  case (leads_root p c)
  then show ?case by (cases n) simp_all
next
  case (leads_step p c q k r)
  obtain m where n: "n = Suc m" "k < m" using leads_step.prems by (cases n) simp_all
  obtain d where d: "find_at m q c = TOk r d" "compressed c d" using leads_step.IH [OF n(2)] by blast
  have pr: "reaches c p r" using leads.leads_step [OF leads_step.hyps] by (auto simp: reaches_def)
  then have "p \<noteq> r" using leads_step.hyps reaches_range by fastforce
  then have "compressed d (set_parent p r d)" using pr d(2) by (intro compress_step) (simp_all add: compressed_reaches)
  moreover have "p < length (nodes d)" using leads_step.hyps d(2) by (simp add: compressed_length)
  ultimately show ?case
    using leads_step.hyps d n update_parent [of p d r] by (auto intro: compressed_trans)
qed

lemma tfind_ok: "reaches c p r \<Longrightarrow> \<exists>d. tfind (Some p) c = TOk (Some r) d \<and> compressed c d"
proof -
  assume "reaches c p r"
  then obtain k where k: "leads c k p r" by (auto simp: reaches_def)
  from find_at_ok [OF k leads_short [OF k]] obtain d where "find_at (length (nodes c)) p c = TOk r d" "compressed c d"
    by blast
  then show ?thesis by (simp add: tfind_def)
qed

lemma tfind_None [simp]: "tfind None c = TOk None c"
  by (simp add: tfind_def)


section \<open>Reading operations\<close>

text \<open>
  An operation that only reads types gives the same value in every state that differs by path
  compression, and its own effect is path compression.
\<close>

definition yields :: "typeChecker \<Rightarrow> 'a tc \<Rightarrow> 'a \<Rightarrow> bool" where
  "yields c m a \<longleftrightarrow> (\<forall>d. compressed c d \<longrightarrow> (\<exists>e. m d = TOk a e \<and> compressed d e))"

lemma yields_now: "yields c m a \<Longrightarrow> \<exists>d. m c = TOk a d \<and> compressed c d"
  by (simp add: yields_def)

lemma yields_ret [intro, simp]: "yields c (retT a) a" "yields c (TOk a) a"
  by (simp_all add: yields_def)

lemma yields_retI: "a = b \<Longrightarrow> yields c (retT a) b"
  by simp

lemma yields_if: "(b \<Longrightarrow> yields c m a) \<Longrightarrow> (\<not> b \<Longrightarrow> yields c n a) \<Longrightarrow> yields c (if b then m else n) a"
  by simp

lemma yields_bind: "yields c m a \<Longrightarrow> yields c (f a) b \<Longrightarrow> yields c (bindT m f) b"
  unfolding yields_def using compressed_trans bind_TOk by metis

lemma yields_allT: "(\<And>x. x \<in> set xs \<Longrightarrow> yields c (f x) (P x)) \<Longrightarrow> yields c (allT f xs) (\<forall>x\<in>set xs. P x)"
proof (induction xs)
  case (Cons x xs)
  then show ?case by (cases "P x") (auto intro!: yields_bind [of c "f x" "P x"])
qed simp

lemma yields_anyT: "(\<And>x. x \<in> set xs \<Longrightarrow> yields c (f x) (P x)) \<Longrightarrow> yields c (anyT f xs) (\<exists>x\<in>set xs. P x)"
proof (induction xs)
  case (Cons x xs)
  then show ?case by (cases "P x") (auto intro!: yields_bind [of c "f x" "P x"])
qed simp

lemma yields_andT: "yields c m a \<Longrightarrow> yields c n b \<Longrightarrow> yields c (andT m n) (a \<and> b)"
  unfolding andT_def by (cases a) (auto intro!: yields_bind [of c m a])

lemma yields_mapT: "list_all2 (\<lambda>x y. yields c (f x) y) xs ys \<Longrightarrow> yields c (mapT f xs) ys"
  by (induction rule: list_all2_induct) (auto intro: yields_bind)

text \<open>The node that stands for a reference.\<close>

definition root_node :: "typeChecker \<Rightarrow> nat \<Rightarrow> tnode \<Rightarrow> bool" where
  "root_node c p u \<longleftrightarrow> (\<exists>r. reaches c p r \<and> u = nodes c ! r)"

lemma root_node_unique: "root_node c p u \<Longrightarrow> root_node c p v \<Longrightarrow> u = v"
  using reaches_unique by (auto simp: root_node_def)

lemma compressed_root:
  assumes "compressed c d" "reaches c p r"
  shows "nodes d ! r = nodes c ! r"
proof -
  have "reaches d p r" using assms by (simp add: compressed_reaches)
  then have "t_parent (nodes d ! r) = None" "t_parent (nodes c ! r) = None"
    using assms(2) reaches_range by blast+
  moreover have "same_node (nodes d ! r) (nodes c ! r)"
    using assms reaches_range unfolding compressed_def by blast
  ultimately show ?thesis unfolding same_node_def by (cases "nodes d ! r"; cases "nodes c ! r") simp
qed

lemma compressed_root_node: "compressed c d \<Longrightarrow> root_node d p u \<longleftrightarrow> root_node c p u"
  unfolding root_node_def using compressed_reaches compressed_root by fastforce

lemma yields_tfind: "reaches c p r \<Longrightarrow> yields c (tfind (Some p)) (Some r)"
  by (simp add: yields_def compressed_reaches tfind_ok)

lemma yields_node_of: "reaches c p r \<Longrightarrow> yields c (node_of (Some r)) (nodes c ! r)"
  using reaches_range compressed_length compressed_root by (fastforce simp: yields_def)

lemma yields_found: "reaches c p r \<Longrightarrow> yields c (f (Some r) (Some (nodes c ! r))) a \<Longrightarrow> yields c (found (Some p) f) a"
  unfolding found_def by (auto intro!: yields_bind [OF yields_tfind] yields_bind [OF yields_node_of])

lemma yields_both_found:
  "reaches c p r \<Longrightarrow> reaches c q s \<Longrightarrow> yields c (f (Some r) (Some s) (nodes c ! r) (nodes c ! s)) a \<Longrightarrow>
     yields c (both_found (Some p) (Some q) none f) a"
  unfolding both_found_def
  by (auto intro!: yields_bind [OF yields_tfind] yields_bind [OF yields_node_of])


section \<open>The types that references denote\<close>

text \<open>
  A reference whose types contain no cycle denotes a type of the run time. The kinds unknown and
  never are related to others just as any. A function type whose declared result is optional is
  left out, as the relations drop the nil of the option there.
\<close>

definition scalar_rt :: "typeKind \<Rightarrow> rtType option" where
  "scalar_rt k =
     (case k of
        typeUnknown \<Rightarrow> Some RtAny | typeNever \<Rightarrow> Some RtAny | typeAny \<Rightarrow> Some RtAny | typeNil \<Rightarrow> Some RtNil
      | typeBool \<Rightarrow> Some RtBool | typeNum \<Rightarrow> Some RtNum | typeStr \<Rightarrow> Some RtStr | typeBytes \<Rightarrow> Some RtBytes
      | typeSym \<Rightarrow> Some RtSym | typeTask \<Rightarrow> Some RtTask | typeChan \<Rightarrow> Some RtChan | _ \<Rightarrow> None)"

definition nil_free :: "rtType \<Rightarrow> bool" where
  "nil_free \<tau> \<longleftrightarrow> (case \<tau> of RtUnion \<tau>s \<Rightarrow> RtNil \<notin> set \<tau>s | _ \<Rightarrow> True)"

inductive denotes :: "typeChecker \<Rightarrow> nat \<Rightarrow> rtType \<Rightarrow> bool" for c where
  denotes_scalar: "root_node c p u \<Longrightarrow> scalar_rt (t_kind u) = Some \<tau> \<Longrightarrow> denotes c p \<tau>"
| denotes_param: "root_node c p u \<Longrightarrow> t_kind u = typeParam \<Longrightarrow> denotes c p (RtTypeParam (t_name u))"
| denotes_struct: "root_node c p u \<Longrightarrow> t_kind u = typeStruct \<Longrightarrow> denotes c p (RtStruct (t_name u))"
| denotes_list:
    "root_node c p u \<Longrightarrow> t_kind u = typeList \<Longrightarrow> t_elem u = Some q \<Longrightarrow> denotes c q \<tau> \<Longrightarrow> denotes c p (RtList \<tau>)"
| denotes_tuple:
    "root_node c p u \<Longrightarrow> t_kind u = typeTuple \<Longrightarrow> t_params u = map Some qs \<Longrightarrow> list_all2 (denotes c) qs \<tau>s \<Longrightarrow>
       denotes c p (RtTuple \<tau>s)"
| denotes_map:
    "root_node c p u \<Longrightarrow> t_kind u = typeMap \<Longrightarrow> t_key u = Some q \<Longrightarrow> t_val u = Some q' \<Longrightarrow> denotes c q \<kappa> \<Longrightarrow>
       denotes c q' \<nu> \<Longrightarrow> denotes c p (RtMap \<kappa> \<nu>)"
| denotes_any_fn: "root_node c p u \<Longrightarrow> t_kind u = typeFn \<Longrightarrow> generic_function u \<Longrightarrow> denotes c p (RtFn None [] False)"
| denotes_fn:
    "root_node c p u \<Longrightarrow> t_kind u = typeFn \<Longrightarrow> \<not> generic_function u \<Longrightarrow> t_params u = map Some qs \<Longrightarrow>
       list_all2 (denotes c) qs \<tau>s \<Longrightarrow> t_ret u = Some q \<Longrightarrow> denotes c q \<rho> \<Longrightarrow> nil_free \<rho> \<Longrightarrow>
       denotes c p (RtFn (Some \<rho>) \<tau>s (t_variadic u))"
| denotes_union:
    "root_node c p u \<Longrightarrow> t_kind u = typeUnion \<Longrightarrow> t_options u = map Some qs \<Longrightarrow> list_all2 (denotes c) qs \<tau>s \<Longrightarrow>
       denotes c p (RtUnion \<tau>s)"

section \<open>Compatibility of denoted types\<close>

definition is_param :: "rtType \<Rightarrow> bool" where
  "is_param \<tau> \<longleftrightarrow> (case \<tau> of RtTypeParam _ \<Rightarrow> True | _ \<Rightarrow> False)"

definition any_function :: "rtType \<Rightarrow> bool" where
  "any_function \<tau> \<longleftrightarrow> \<tau> = RtFn None [] False"

lemma zip_sizes: "(a, b) \<in> set (zip xs ys) \<Longrightarrow> size a + size b \<le> size_list size xs + size_list size ys"
  for xs :: "'a::size list" and ys :: "'b::size list"
  using size_mem [of a xs size] size_mem [of b ys size] set_zip_leftD set_zip_rightD by fastforce

function compat_types :: "bool \<Rightarrow> rtType \<Rightarrow> rtType \<Rightarrow> bool" where
  "compat_types strict \<sigma> \<tau> \<longleftrightarrow>
     (if \<sigma> = RtAny \<or> \<tau> = RtAny then True
      else if is_param \<sigma> \<or> is_param \<tau> then \<sigma> \<noteq> RtNil \<and> \<tau> \<noteq> RtNil
      else case (\<sigma>, \<tau>) of
          (RtUnion \<sigma>s, _) \<Rightarrow> \<forall>\<sigma>\<in>set \<sigma>s. compat_types strict \<sigma> \<tau>
        | (_, RtUnion \<tau>s) \<Rightarrow> \<exists>\<tau>\<in>set \<tau>s. compat_types strict \<sigma> \<tau>
        | (RtNil, _) \<Rightarrow> strict \<longrightarrow> \<tau> = RtNil
        | (_, RtNil) \<Rightarrow> \<not> strict
        | (RtTuple \<sigma>s, RtList \<tau>) \<Rightarrow> \<forall>\<sigma>\<in>set \<sigma>s. compat_types strict \<sigma> \<tau>
        | (RtList \<sigma>, RtTuple \<tau>s) \<Rightarrow> \<forall>\<tau>\<in>set \<tau>s. compat_types strict \<sigma> \<tau>
        | (RtList \<sigma>, RtList \<tau>) \<Rightarrow> compat_types strict \<sigma> \<tau>
        | (RtTuple \<sigma>s, RtTuple \<tau>s) \<Rightarrow>
            length \<sigma>s = length \<tau>s \<and> (\<forall>p\<in>set (zip \<sigma>s \<tau>s). compat_types strict (fst p) (snd p))
        | (RtMap \<kappa> \<nu>, RtMap \<kappa>' \<nu>') \<Rightarrow> compat_types strict \<kappa> \<kappa>' \<and> compat_types strict \<nu> \<nu>'
        | (RtFn \<rho> \<sigma>s variadic, RtFn \<rho>' \<tau>s variadic') \<Rightarrow>
            any_function \<sigma> \<or> any_function \<tau> \<or>
            variadic = variadic' \<and> length \<sigma>s = length \<tau>s \<and> (\<forall>p\<in>set (zip \<sigma>s \<tau>s). compat_types strict (fst p) (snd p)) \<and>
            (case (\<rho>, \<rho>') of (Some \<rho>, Some \<rho>') \<Rightarrow> compat_types strict \<rho> \<rho>' | _ \<Rightarrow> True)
        | (RtStruct nm, RtStruct nm') \<Rightarrow> nm = [] \<or> nm' = [] \<or> nm = nm'
        | _ \<Rightarrow> rt_kind \<sigma> = rt_kind \<tau>)"
  by pat_completeness auto
termination
  by (relation "measure (\<lambda>(strict, \<sigma>, \<tau>). size \<sigma> + size \<tau>)")
    (auto dest!: zip_sizes simp: less_Suc_eq_le dest: size_mem [where f = size])

declare compat_types.simps [simp del]

definition is_union :: "rtType \<Rightarrow> bool" where
  "is_union \<tau> \<longleftrightarrow> (case \<tau> of RtUnion _ \<Rightarrow> True | _ \<Rightarrow> False)"

lemma compat_any [simp]: "compat_types strict RtAny \<tau>" "compat_types strict \<sigma> RtAny"
  by (simp_all add: compat_types.simps)

lemma compat_param:
  "is_param \<sigma> \<or> is_param \<tau> \<Longrightarrow> \<sigma> \<noteq> RtAny \<Longrightarrow> \<tau> \<noteq> RtAny \<Longrightarrow> compat_types strict \<sigma> \<tau> \<longleftrightarrow> \<sigma> \<noteq> RtNil \<and> \<tau> \<noteq> RtNil"
  by (auto simp: compat_types.simps [of strict \<sigma> \<tau>])

lemma compat_union_left:
  "\<not> is_param \<tau> \<Longrightarrow> \<tau> \<noteq> RtAny \<Longrightarrow> compat_types strict (RtUnion \<sigma>s) \<tau> \<longleftrightarrow> (\<forall>\<sigma>\<in>set \<sigma>s. compat_types strict \<sigma> \<tau>)"
  by (simp add: compat_types.simps [of strict "RtUnion \<sigma>s"] is_param_def)

lemma compat_union_right:
  "\<not> is_param \<sigma> \<Longrightarrow> \<sigma> \<noteq> RtAny \<Longrightarrow> \<not> is_union \<sigma> \<Longrightarrow>
     compat_types strict \<sigma> (RtUnion \<tau>s) \<longleftrightarrow> (\<exists>\<tau>\<in>set \<tau>s. compat_types strict \<sigma> \<tau>)"
  by (cases \<sigma>) (simp_all add: compat_types.simps [of strict _ "RtUnion \<tau>s"] is_param_def is_union_def)

lemma compat_nil_left:
  "\<not> is_param \<tau> \<Longrightarrow> \<tau> \<noteq> RtAny \<Longrightarrow> \<not> is_union \<tau> \<Longrightarrow> compat_types strict RtNil \<tau> \<longleftrightarrow> (strict \<longrightarrow> \<tau> = RtNil)"
  by (cases \<tau>) (simp_all add: compat_types.simps [of strict RtNil] is_param_def is_union_def)

lemma compat_nil_right:
  "\<not> is_param \<sigma> \<Longrightarrow> \<sigma> \<noteq> RtAny \<Longrightarrow> \<not> is_union \<sigma> \<Longrightarrow> compat_types strict \<sigma> RtNil \<longleftrightarrow> (strict \<longrightarrow> \<sigma> = RtNil)"
  by (cases \<sigma>) (simp_all add: compat_types.simps [of strict _ RtNil] is_param_def is_union_def)

lemma compat_shapes:
  "compat_types strict (RtTuple \<sigma>s) (RtList \<tau>) \<longleftrightarrow> (\<forall>\<sigma>\<in>set \<sigma>s. compat_types strict \<sigma> \<tau>)"
  "compat_types strict (RtList \<sigma>) (RtTuple \<tau>s) \<longleftrightarrow> (\<forall>\<tau>\<in>set \<tau>s. compat_types strict \<sigma> \<tau>)"
  "compat_types strict (RtList \<sigma>) (RtList \<tau>) \<longleftrightarrow> compat_types strict \<sigma> \<tau>"
  "compat_types strict (RtTuple \<sigma>s) (RtTuple \<tau>s) \<longleftrightarrow>
     length \<sigma>s = length \<tau>s \<and> (\<forall>p\<in>set (zip \<sigma>s \<tau>s). compat_types strict (fst p) (snd p))"
  "compat_types strict (RtMap \<kappa> \<nu>) (RtMap \<kappa>' \<nu>') \<longleftrightarrow> compat_types strict \<kappa> \<kappa>' \<and> compat_types strict \<nu> \<nu>'"
  "compat_types strict (RtFn \<rho> \<sigma>s variadic) (RtFn \<rho>' \<tau>s variadic') \<longleftrightarrow>
     any_function (RtFn \<rho> \<sigma>s variadic) \<or> any_function (RtFn \<rho>' \<tau>s variadic') \<or>
     variadic = variadic' \<and> length \<sigma>s = length \<tau>s \<and> (\<forall>p\<in>set (zip \<sigma>s \<tau>s). compat_types strict (fst p) (snd p)) \<and>
     (case (\<rho>, \<rho>') of (Some \<rho>, Some \<rho>') \<Rightarrow> compat_types strict \<rho> \<rho>' | _ \<Rightarrow> True)"
  "compat_types strict (RtStruct nm) (RtStruct nm') \<longleftrightarrow> nm = [] \<or> nm' = [] \<or> nm = nm'"
  by (subst compat_types.simps, simp add: is_param_def)+

lemma compat_scalar: "\<sigma> \<in> {RtNil, RtBool, RtNum, RtStr, RtBytes, RtSym, RtTask, RtChan} \<Longrightarrow> compat_types strict \<sigma> \<sigma>"
  by (auto simp: compat_types.simps is_param_def)

definition sequences :: "rtType \<Rightarrow> rtType \<Rightarrow> bool" where
  \<comment> \<open>a tuple and a list\<close>
  "sequences \<sigma> \<tau> \<longleftrightarrow> {rt_kind \<sigma>, rt_kind \<tau>} = {''tuple'', ''list''}"

lemma compat_kinds:
  "rt_kind \<sigma> \<noteq> rt_kind \<tau> \<Longrightarrow> \<sigma> \<notin> {RtAny, RtNil} \<Longrightarrow> \<tau> \<notin> {RtAny, RtNil} \<Longrightarrow> \<not> is_param \<sigma> \<Longrightarrow> \<not> is_param \<tau> \<Longrightarrow>
     \<not> is_union \<sigma> \<Longrightarrow> \<not> is_union \<tau> \<Longrightarrow> \<not> sequences \<sigma> \<tau> \<Longrightarrow> \<not> compat_types strict \<sigma> \<tau>"
  by (cases \<sigma>; cases \<tau>) (auto simp: compat_types.simps [of strict] is_param_def is_union_def rt_kind_def sequences_def)

subsection \<open>Every type is compatible with itself\<close>

fun leaves :: "rtType \<Rightarrow> rtType set" where
  \<comment> \<open>the options of a union and of its options\<close>
  "leaves (RtUnion \<tau>s) = (\<Union>\<tau>\<in>set \<tau>s. leaves \<tau>)"
| "leaves \<tau> = {\<tau>}"

lemma leaves_no_union: "\<sigma> \<in> leaves \<tau> \<Longrightarrow> \<not> is_union \<sigma>"
  by (induction \<tau> rule: leaves.induct) (auto simp: is_union_def)

lemma compat_leaf: "\<sigma> \<in> leaves \<tau> \<Longrightarrow> compat_types strict \<sigma> \<sigma> \<Longrightarrow> compat_types strict \<sigma> \<tau>"
proof (induction \<tau> rule: leaves.induct)
  case (1 \<tau>s)
  then obtain \<tau> where t: "\<tau> \<in> set \<tau>s" "compat_types strict \<sigma> \<tau>" by auto
  have "\<not> is_union \<sigma>" using 1(2) by (rule leaves_no_union)
  then show ?case
    using t 1 compat_param [of \<sigma> "RtUnion \<tau>s"] compat_union_right [of \<sigma> strict \<tau>s]
    by (cases "\<sigma> = RtAny"; cases "is_param \<sigma>") (auto simp: is_param_def)
qed simp_all

lemma compat_leaves: "(\<And>\<rho>. \<rho> \<in> leaves \<sigma> \<Longrightarrow> compat_types strict \<rho> \<tau>) \<Longrightarrow> compat_types strict \<sigma> \<tau>"
proof (induction \<sigma> rule: leaves.induct)
  case (1 \<sigma>s)
  then show ?case
    using compat_param [of "RtUnion \<sigma>s" \<tau>] compat_union_left [of \<tau> strict \<sigma>s]
    by (cases "\<tau> = RtAny"; cases "is_param \<tau>"; cases "\<tau> = RtNil") (auto simp: is_param_def)
qed simp_all

lemma compat_self: "\<rho> \<in> leaves \<tau> \<Longrightarrow> compat_types strict \<rho> \<rho>"
proof (induction \<tau> arbitrary: \<rho>)
  case (RtList \<tau>)
  then have "compat_types strict \<tau> \<tau>" by (blast intro: compat_leaves compat_leaf)
  then show ?case using RtList.prems by (simp add: compat_shapes)
next
  case (RtTuple \<tau>s)
  have "compat_types strict \<tau> \<tau>" if "\<tau> \<in> set \<tau>s" for \<tau>
    using RtTuple.IH [OF that] by (blast intro: compat_leaves compat_leaf)
  then show ?case using RtTuple.prems by (auto simp: compat_shapes zip_same)
next
  case (RtMap \<kappa> \<nu>)
  then have "compat_types strict \<kappa> \<kappa>" "compat_types strict \<nu> \<nu>" by (blast intro: compat_leaves compat_leaf)+
  then show ?case using RtMap.prems by (simp add: compat_shapes)
next
  case (RtFn \<rho>' \<tau>s variadic)
  have "compat_types strict \<tau> \<tau>" if "\<tau> \<in> set \<tau>s" for \<tau>
    using RtFn.IH(2) [OF that] by (blast intro: compat_leaves compat_leaf)
  moreover have "compat_types strict r r" if "\<rho>' = Some r" for r
    using RtFn.IH(1) [of r] that by (auto intro: compat_leaves compat_leaf)
  ultimately show ?case using RtFn.prems by (auto simp: compat_shapes zip_same split: option.split)
next
  case (RtUnion \<tau>s)
  then show ?case by auto
qed (auto simp: compat_shapes compat_param is_param_def intro: compat_scalar)

lemma compat_refl [simp]: "compat_types strict \<tau> \<tau>"
  by (blast intro: compat_leaves compat_leaf compat_self)


subsection \<open>The relation on references refines it\<close>

text \<open>What a reference denotes, by the kind of its node.\<close>

definition node_denotes :: "typeChecker \<Rightarrow> tnode \<Rightarrow> rtType \<Rightarrow> bool" where
  "node_denotes c u \<tau> \<longleftrightarrow>
     (case t_kind u of
        typeParam \<Rightarrow> \<tau> = RtTypeParam (t_name u)
      | typeStruct \<Rightarrow> \<tau> = RtStruct (t_name u)
      | typeList \<Rightarrow> \<exists>q \<sigma>. \<tau> = RtList \<sigma> \<and> t_elem u = Some q \<and> denotes c q \<sigma>
      | typeTuple \<Rightarrow> \<exists>qs \<sigma>s. \<tau> = RtTuple \<sigma>s \<and> t_params u = map Some qs \<and> list_all2 (denotes c) qs \<sigma>s
      | typeMap \<Rightarrow>
          \<exists>q q' \<kappa> \<nu>. \<tau> = RtMap \<kappa> \<nu> \<and> t_key u = Some q \<and> t_val u = Some q' \<and> denotes c q \<kappa> \<and> denotes c q' \<nu>
      | typeFn \<Rightarrow>
          if generic_function u then \<tau> = RtFn None [] False
          else \<exists>qs \<sigma>s q \<rho>. \<tau> = RtFn (Some \<rho>) \<sigma>s (t_variadic u) \<and> t_params u = map Some qs \<and>
                 list_all2 (denotes c) qs \<sigma>s \<and> t_ret u = Some q \<and> denotes c q \<rho> \<and> nil_free \<rho>
      | typeUnion \<Rightarrow> \<exists>qs \<sigma>s. \<tau> = RtUnion \<sigma>s \<and> t_options u = map Some qs \<and> list_all2 (denotes c) qs \<sigma>s
      | k \<Rightarrow> scalar_rt k = Some \<tau>)"

lemma denotes_root: "denotes c p \<tau> \<Longrightarrow> \<exists>u. root_node c p u \<and> node_denotes c u \<tau>"
proof (induction rule: denotes.induct)
  case (denotes_scalar p u \<tau>)
  then show ?case by (intro exI [of _ u]) (auto simp: node_denotes_def scalar_rt_def split: typeKind.splits)
next
  case (denotes_tuple p u qs \<tau>s)
  then have "list_all2 (denotes c) qs \<tau>s" by (simp add: list_all2_conv_all_nth)
  then show ?case using denotes_tuple by (intro exI [of _ u]) (simp add: node_denotes_def)
next
  case (denotes_fn p u qs \<tau>s q \<rho>)
  then have "list_all2 (denotes c) qs \<tau>s" by (simp add: list_all2_conv_all_nth)
  then show ?case using denotes_fn by (intro exI [of _ u]) (simp add: node_denotes_def)
next
  case (denotes_union p u qs \<tau>s)
  then have "list_all2 (denotes c) qs \<tau>s" by (simp add: list_all2_conv_all_nth)
  then show ?case using denotes_union by (intro exI [of _ u]) (simp add: node_denotes_def)
qed (rule exI, erule conjI, simp add: node_denotes_def)+

lemma denotes_node: "denotes c p \<tau> \<Longrightarrow> \<exists>r. reaches c p r \<and> node_denotes c (nodes c ! r) \<tau>"
  using denotes_root [of c p \<tau>] by (auto simp: root_node_def)

lemma map_Some_eq [simp]: "map Some xs = map Some ys \<longleftrightarrow> xs = ys"
proof (induction xs arbitrary: ys)
  case (Cons x xs)
  then show ?case by (cases ys) simp_all
qed auto

lemma denotes_step:
  assumes "denotes c q \<sigma>" "denotes c q \<tau>" "\<And>u \<tau>. node_denotes c u \<sigma> \<Longrightarrow> node_denotes c u \<tau> \<Longrightarrow> \<sigma> = \<tau>"
  shows "\<sigma> = \<tau>"
proof -
  obtain r s where "reaches c q r" "node_denotes c (nodes c ! r) \<sigma>" "reaches c q s" "node_denotes c (nodes c ! s) \<tau>"
    using assms(1,2) [THEN denotes_node] by blast
  then show ?thesis using assms(3) reaches_unique by blast
qed

lemma denotes_steps:
  assumes "list_all2 (denotes c) qs \<sigma>s" "list_all2 (denotes c) qs \<tau>s"
    and "\<And>\<sigma> u \<tau>. \<sigma> \<in> set \<sigma>s \<Longrightarrow> node_denotes c u \<sigma> \<Longrightarrow> node_denotes c u \<tau> \<Longrightarrow> \<sigma> = \<tau>"
  shows "\<sigma>s = \<tau>s"
proof (rule nth_equalityI)
  show "length \<sigma>s = length \<tau>s" using list_all2_lengthD [OF assms(1)] list_all2_lengthD [OF assms(2)] by simp
  fix i assume i: "i < length \<sigma>s"
  then have "denotes c (qs ! i) (\<sigma>s ! i)" "denotes c (qs ! i) (\<tau>s ! i)"
    using assms(1,2) by (simp_all add: list_all2_conv_all_nth)
  then show "\<sigma>s ! i = \<tau>s ! i" using denotes_step assms(3) i nth_mem by metis
qed

lemma node_denotes_unique: "node_denotes c u \<sigma> \<Longrightarrow> node_denotes c u \<tau> \<Longrightarrow> \<sigma> = \<tau>"
proof (induction \<sigma> arbitrary: u \<tau>)
  case (RtList \<sigma>)
  have "t_kind u = typeList" using RtList.prems(1)
    by (auto simp: node_denotes_def scalar_rt_def split: typeKind.splits if_splits)
  then show ?case using RtList.prems denotes_step [OF _ _ RtList.IH]
    by (auto simp: node_denotes_def)
next
  case (RtTuple \<sigma>s)
  have "t_kind u = typeTuple" using RtTuple.prems(1)
    by (auto simp: node_denotes_def scalar_rt_def split: typeKind.splits if_splits)
  then show ?case using RtTuple.prems denotes_steps [OF _ _ RtTuple.IH]
    by (auto simp: node_denotes_def)
next
  case (RtMap \<kappa> \<nu>)
  have "t_kind u = typeMap" using RtMap.prems(1)
    by (auto simp: node_denotes_def scalar_rt_def split: typeKind.splits if_splits)
  then show ?case using RtMap.prems denotes_step [OF _ _ RtMap.IH(1)] denotes_step [OF _ _ RtMap.IH(2)]
    by (auto simp: node_denotes_def)
next
  case (RtUnion \<sigma>s)
  have "t_kind u = typeUnion" using RtUnion.prems(1)
    by (auto simp: node_denotes_def scalar_rt_def split: typeKind.splits if_splits)
  then show ?case using RtUnion.prems denotes_steps [OF _ _ RtUnion.IH]
    by (auto simp: node_denotes_def)
next
  case (RtFn \<rho> \<sigma>s variadic)
  have "t_kind u = typeFn" using RtFn.prems(1)
    by (auto simp: node_denotes_def scalar_rt_def split: typeKind.splits if_splits)
  then show ?case using RtFn.prems denotes_steps [OF _ _ RtFn.IH(2)] denotes_step [OF _ _ RtFn.IH(1)]
    by (auto simp: node_denotes_def split: if_splits)
qed (auto simp: node_denotes_def scalar_rt_def split: typeKind.splits if_splits)

lemma denotes_unique: "denotes c p \<sigma> \<Longrightarrow> reaches c p r \<Longrightarrow> reaches c q r \<Longrightarrow> denotes c q \<tau> \<Longrightarrow> \<sigma> = \<tau>"
  using denotes_node node_denotes_unique reaches_unique by metis


text \<open>The relation of kinds and types of the run time.\<close>

lemma node_kind:
  assumes "node_denotes c u \<tau>"
  shows "\<tau> = RtAny \<longleftrightarrow> t_kind u \<in> {typeNever, typeAny, typeUnknown}"
    and "\<tau> = RtNil \<longleftrightarrow> t_kind u = typeNil"
    and "is_param \<tau> \<longleftrightarrow> t_kind u = typeParam"
    and "is_union \<tau> \<longleftrightarrow> t_kind u = typeUnion"
    and "\<tau> \<noteq> RtAny \<longrightarrow> rt_kind \<tau> = kind_string (t_kind u)"
  using assms
  by (auto simp: node_denotes_def scalar_rt_def is_param_def is_union_def rt_kind_def kind_string_def
      split: typeKind.splits if_splits)

lemma kind_string_inj: "kind_string k = kind_string k' \<longleftrightarrow> k = k'"
  by (cases k; cases k') (simp_all add: kind_string_def)

lemma yields_options:
  assumes "list_all2 (denotes c) qs \<tau>s" "\<And>q \<tau>. q \<in> set qs \<Longrightarrow> \<tau> \<in> set \<tau>s \<Longrightarrow> denotes c q \<tau> \<Longrightarrow> yields c (f (Some q)) (P \<tau>)"
  shows "yields c (allT f (map Some qs)) (\<forall>\<tau>\<in>set \<tau>s. P \<tau>)" "yields c (anyT f (map Some qs)) (\<exists>\<tau>\<in>set \<tau>s. P \<tau>)"
  using assms
  by (induction rule: list_all2_induct)
    (auto intro!: yields_bind split: if_splits)

lemma yields_pairs:
  assumes "list_all2 (denotes c) qs \<sigma>s" "list_all2 (denotes c) qs' \<tau>s" "length qs = length qs'"
    and "\<And>q \<sigma> q' \<tau>. \<sigma> \<in> set \<sigma>s \<Longrightarrow> \<tau> \<in> set \<tau>s \<Longrightarrow> denotes c q \<sigma> \<Longrightarrow> denotes c q' \<tau> \<Longrightarrow> yields c (f (Some q) (Some q')) (P \<sigma> \<tau>)"
  shows "yields c (all_pairs f (map Some qs) (map Some qs')) (\<forall>p\<in>set (zip \<sigma>s \<tau>s). P (fst p) (snd p))"
  using assms unfolding all_pairs_def
proof (induction arbitrary: qs' \<tau>s rule: list_all2_induct)
  case (Cons q qs \<sigma> \<sigma>s)
  then obtain q' qs'' \<tau> \<tau>s' where "qs' = q' # qs''" "\<tau>s = \<tau> # \<tau>s'" "denotes c q' \<tau>" "list_all2 (denotes c) qs'' \<tau>s'"
    by (cases qs'; cases \<tau>s) auto
  moreover have "yields c (f (Some q) (Some q')) (P \<sigma> \<tau>)" using Cons.prems Cons.hyps calculation by simp
  moreover have "yields c (allT (\<lambda>(a, b). f a b) (zip (map Some qs) (map Some qs''))) (\<forall>p\<in>set (zip \<sigma>s \<tau>s'). P (fst p) (snd p))"
    using Cons.prems calculation by (intro Cons.IH) simp_all
  ultimately show ?case
    by (auto intro!: yields_bind [of c "f (Some q) (Some q')" "P \<sigma> \<tau>"] split: if_splits)
qed simp


lemma root_node_root: "reaches c p r \<Longrightarrow> root_node c p u \<Longrightarrow> root_node c r u"
  using reaches_unique reaches_root' by (auto simp: root_node_def)

lemma denotes_at_root: "denotes c p \<tau> \<Longrightarrow> reaches c p r \<Longrightarrow> denotes c r \<tau>"
  by (cases rule: denotes.cases) (auto intro: denotes.intros root_node_root)

lemma yields_normalized:
  assumes "denotes c q \<rho>" "nil_free \<rho>" "reaches c q r"
  shows "yields c (normalizedDeclaredReturnType n (Some q)) (Some r)"
proof -
  have node: "node_denotes c (nodes c ! r) \<rho>" using denotes_node [OF assms(1)] assms(3) reaches_unique by metis
  show ?thesis
  proof (cases "t_kind (nodes c ! r) = typeUnion")
    case False
    then show ?thesis unfolding normalizedDeclaredReturnType_def by (auto intro!: yields_found [OF assms(3)])
  next
    case True
    then obtain qs \<tau>s where qs: "\<rho> = RtUnion \<tau>s" "t_options (nodes c ! r) = map Some qs" "list_all2 (denotes c) qs \<tau>s"
      using node by (auto simp: node_denotes_def)
    have "\<exists>rs. list_all2 (reaches c) qs rs \<and> (\<forall>r\<in>set rs. t_kind (nodes c ! r) \<noteq> typeNil)"
      using qs(3) assms(2) unfolding qs(1) nil_free_def
    proof (induction rule: list_all2_induct)
      case (Cons q qs \<tau> \<tau>s)
      then obtain rs s where "list_all2 (reaches c) qs rs" "\<forall>r\<in>set rs. t_kind (nodes c ! r) \<noteq> typeNil"
        "reaches c q s" "node_denotes c (nodes c ! s) \<tau>"
        using denotes_node by fastforce
      moreover have "t_kind (nodes c ! s) \<noteq> typeNil" using node_kind(2) calculation(4) Cons.prems by auto
      ultimately show ?case by (intro exI [of _ "s # rs"]) simp
    qed simp
    then obtain rs where rs: "list_all2 (reaches c) qs rs" "\<forall>r\<in>set rs. t_kind (nodes c ! r) \<noteq> typeNil" by blast
    let ?keep = "\<lambda>opt. found opt (\<lambda>o' on. retT (case on of
        Some v \<Rightarrow> if t_kind v = typeNil then [] else [o'] | None \<Rightarrow> []))"
    have "list_all2 (\<lambda>x y. yields c (?keep x) y) (map Some qs) (map (\<lambda>r. [Some r]) rs)"
      using rs by (induction rule: list_all2_induct) (auto intro!: yields_found)
    then have "yields c (mapT ?keep (map Some qs)) (map (\<lambda>r. [Some r]) rs)" by (rule yields_mapT)
    moreover have "concat (map (\<lambda>r. [Some r]) rs) = map Some rs" by (induction rs) simp_all
    ultimately show ?thesis
      using qs(2) list_all2_lengthD [OF rs(1)] unfolding normalizedDeclaredReturnType_def
      by (auto intro!: yields_found [OF assms(3)] yields_bind)
  qed
qed


lemma fn_sizes: "\<tau> \<in> set \<tau>s \<Longrightarrow> size \<tau> < size (RtFn \<rho> \<tau>s variadic)" "size \<rho>' < size (RtFn (Some \<rho>') \<tau>s variadic)"
  and part_sizes: "\<tau> \<in> set \<tau>s \<Longrightarrow> size \<tau> < size (RtTuple \<tau>s)" "\<tau> \<in> set \<tau>s \<Longrightarrow> size \<tau> < size (RtUnion \<tau>s)"
  using size_mem [of \<tau> \<tau>s size] by simp_all

lemma compatible_shapes_yields:
  assumes ok: "\<And>q q' \<sigma>' \<tau>'. denotes c q \<sigma>' \<Longrightarrow> denotes c q' \<tau>' \<Longrightarrow> size \<sigma>' + size \<tau>' < size \<sigma> + size \<tau> \<Longrightarrow>
      yields c (ok (Some q) (Some q')) (compat_types strict \<sigma>' \<tau>')"
    and g: "node_denotes c g \<sigma>" and e: "node_denotes c e \<tau>"
    and plain: "\<sigma> \<notin> {RtAny, RtNil}" "\<tau> \<notin> {RtAny, RtNil}" "\<not> is_param \<sigma>" "\<not> is_param \<tau>" "\<not> is_union \<sigma>" "\<not> is_union \<tau>"
  shows "yields c (compatible_shapes n ok g e) (compat_types strict \<sigma> \<tau>)"
proof (cases "t_kind g = t_kind e")
  case False
  then have kinds: "rt_kind \<sigma> \<noteq> rt_kind \<tau>" using node_kind(5) [OF g] node_kind(5) [OF e] plain by (auto simp: kind_string_inj)
  consider (tl) "t_kind g = typeTuple" "t_kind e = typeList" | (lt) "t_kind g = typeList" "t_kind e = typeTuple"
    | (other) "\<not> (t_kind g = typeTuple \<and> t_kind e = typeList)" "\<not> (t_kind g = typeList \<and> t_kind e = typeTuple)"
    by blast
  then show ?thesis
  proof cases
    case tl
    then obtain qs \<sigma>s q \<tau>' where x: "\<sigma> = RtTuple \<sigma>s" "t_params g = map Some qs" "list_all2 (denotes c) qs \<sigma>s"
      "\<tau> = RtList \<tau>'" "t_elem e = Some q" "denotes c q \<tau>'" using g e by (auto simp: node_denotes_def)
    have "yields c (allT (\<lambda>et. ok et (Some q)) (map Some qs)) (\<forall>\<sigma>\<in>set \<sigma>s. compat_types strict \<sigma> \<tau>')"
      using x(3) by (rule yields_options) (auto intro!: ok x(6) simp: x dest: size_mem [where f = size])
    then show ?thesis using tl x by (simp add: compatible_shapes_def compat_shapes)
  next
    case lt
    then obtain qs \<tau>s q \<sigma>' where x: "\<tau> = RtTuple \<tau>s" "t_params e = map Some qs" "list_all2 (denotes c) qs \<tau>s"
      "\<sigma> = RtList \<sigma>'" "t_elem g = Some q" "denotes c q \<sigma>'" using g e by (auto simp: node_denotes_def)
    have "yields c (allT (\<lambda>et. ok (Some q) et) (map Some qs)) (\<forall>\<tau>\<in>set \<tau>s. compat_types strict \<sigma>' \<tau>)"
      using x(3) by (rule yields_options) (auto intro!: ok x(6) simp: x dest: size_mem [where f = size])
    then show ?thesis using lt x by (simp add: compatible_shapes_def compat_shapes)
  next
    case other
    then have "\<not> sequences \<sigma> \<tau>" using node_kind(5) [OF g] node_kind(5) [OF e] plain
      by (cases "t_kind g"; cases "t_kind e") (auto simp: sequences_def kind_string_def doubleton_eq_iff)
    then have "\<not> compat_types strict \<sigma> \<tau>" using kinds plain by (intro compat_kinds)
    then show ?thesis using False other by (auto simp: compatible_shapes_def)
  qed
next
  case True
  show ?thesis
  proof (cases "t_kind g")
    case typeList
    then obtain q \<sigma>' q' \<tau>' where x: "\<sigma> = RtList \<sigma>'" "t_elem g = Some q" "denotes c q \<sigma>'"
      "\<tau> = RtList \<tau>'" "t_elem e = Some q'" "denotes c q' \<tau>'" using True g e by (auto simp: node_denotes_def)
    then show ?thesis using True typeList ok [OF x(3) x(6)] by (simp add: compatible_shapes_def compat_shapes)
  next
    case typeMap
    then obtain q r \<kappa> \<nu> q' r' \<kappa>' \<nu>' where x: "\<sigma> = RtMap \<kappa> \<nu>" "t_key g = Some q" "t_val g = Some r" "denotes c q \<kappa>"
      "denotes c r \<nu>" "\<tau> = RtMap \<kappa>' \<nu>'" "t_key e = Some q'" "t_val e = Some r'" "denotes c q' \<kappa>'" "denotes c r' \<nu>'"
      using True g e by (auto simp: node_denotes_def)
    then show ?thesis using True typeMap ok [OF x(4) x(9)] ok [OF x(5) x(10)]
      by (simp add: compatible_shapes_def compat_shapes yields_andT)
  next
    case typeTuple
    then obtain qs \<sigma>s qs' \<tau>s where x: "\<sigma> = RtTuple \<sigma>s" "t_params g = map Some qs" "list_all2 (denotes c) qs \<sigma>s"
      "\<tau> = RtTuple \<tau>s" "t_params e = map Some qs'" "list_all2 (denotes c) qs' \<tau>s"
      using True g e by (auto simp: node_denotes_def)
    show ?thesis
    proof (cases "length qs = length qs'")
      case same: True
      have "yields c (all_pairs ok (map Some qs) (map Some qs')) (\<forall>p\<in>set (zip \<sigma>s \<tau>s). compat_types strict (fst p) (snd p))"
        by (rule yields_pairs [OF x(3) x(6) same], rule ok)
          (auto simp: x dest!: size_mem [where f = size])
      then show ?thesis
        using True typeTuple x same list_all2_lengthD [OF x(3)] list_all2_lengthD [OF x(6)]
        by (simp add: compatible_shapes_def compat_shapes)
    next
      case False
      then show ?thesis
        using True typeTuple x list_all2_lengthD [OF x(3)] list_all2_lengthD [OF x(6)]
        by (simp add: compatible_shapes_def compat_shapes)
    qed
  next
    case typeStruct
    then show ?thesis using True g e
      by (auto simp: node_denotes_def compatible_shapes_def compat_shapes clashing_structs_def)
  next
    case typeFn
    show ?thesis
    proof (cases "generic_function g \<or> generic_function e")
      case generic: True
      then show ?thesis using True typeFn g e
        by (auto simp: node_denotes_def compatible_shapes_def compat_shapes any_function_def split: if_splits)
    next
      case False
      then obtain qs \<sigma>s q \<rho> qs' \<tau>s q' \<rho>' where
        x: "\<sigma> = RtFn (Some \<rho>) \<sigma>s (t_variadic g)" "t_params g = map Some qs" "list_all2 (denotes c) qs \<sigma>s"
          "t_ret g = Some q" "denotes c q \<rho>" "nil_free \<rho>"
        and y: "\<tau> = RtFn (Some \<rho>') \<tau>s (t_variadic e)" "t_params e = map Some qs'" "list_all2 (denotes c) qs' \<tau>s"
          "t_ret e = Some q'" "denotes c q' \<rho>'" "nil_free \<rho>'"
        using True typeFn g e by (auto simp: node_denotes_def)
      note lengths = list_all2_lengthD [OF x(3)] list_all2_lengthD [OF y(3)]
      show ?thesis
      proof (cases "t_variadic g = t_variadic e \<and> length qs = length qs'")
        case same: True
        obtain r r' where r: "reaches c q r" "reaches c q' r'" using x(5) y(5) denotes_node by meson
        have "yields c (all_pairs ok (map Some qs) (map Some qs')) (\<forall>p\<in>set (zip \<sigma>s \<tau>s). compat_types strict (fst p) (snd p))"
          by (rule yields_pairs [OF x(3) y(3)], use same in simp, rule ok)
            (auto simp: x y dest!: size_mem [where f = size])
        moreover have "yields c (ok (Some r) (Some r')) (compat_types strict \<rho> \<rho>')"
          by (rule ok [OF denotes_at_root [OF x(5) r(1)] denotes_at_root [OF y(5) r(2)]]) (simp add: x y)
        then have "yields c (bindT (normalizedDeclaredReturnType n (Some q)) (\<lambda>a.
            bindT (normalizedDeclaredReturnType n (Some q')) (ok a))) (compat_types strict \<rho> \<rho>')"
          by (rule yields_bind [OF yields_normalized [OF x(5,6) r(1)] yields_bind [OF yields_normalized [OF y(5,6) r(2)]]])
        ultimately show ?thesis
          using True typeFn False x y same lengths
          by (auto simp: compatible_shapes_def compat_shapes any_function_def intro: yields_andT)
      next
        case different: False
        then show ?thesis using True typeFn False x y lengths
          by (auto simp: compatible_shapes_def compat_shapes any_function_def)
      qed
    qed
  qed (use True g e plain in \<open>auto simp: node_denotes_def scalar_rt_def compatible_shapes_def is_param_def
        is_union_def intro: compat_scalar split: option.splits typeKind.splits\<close>)
qed

lemma compatible_yields:
  "denotes c p \<sigma> \<Longrightarrow> denotes c q \<tau> \<Longrightarrow> size \<sigma> + size \<tau> < n \<Longrightarrow>
     yields c (compatible strict n (Some p) (Some q)) (compat_types strict \<sigma> \<tau>)"
proof (induction n arbitrary: p q \<sigma> \<tau>)
  case (Suc n)
  obtain r s where r: "reaches c p r" "node_denotes c (nodes c ! r) \<sigma>" and s: "reaches c q s" "node_denotes c (nodes c ! s) \<tau>"
    using Suc.prems(1,2) denotes_node by meson
  let ?g = "nodes c ! r" and ?e = "nodes c ! s"
  note kinds = node_kind(1-4) [OF r(2)] node_kind(1-4) [OF s(2)]
  let ?any = "\<lambda>k. k = typeNever \<or> k = typeAny \<or> k = typeUnknown"
  have any: "\<sigma> = RtAny \<longleftrightarrow> ?any (t_kind ?g)" "\<tau> = RtAny \<longleftrightarrow> ?any (t_kind ?e)"
    using kinds(1,5) by blast+
  have some: "compat_types strict \<sigma> \<tau>" if "?any (t_kind ?g) \<or> ?any (t_kind ?e)"
    using that any compat_any by metis
  have at_root: "denotes c r \<sigma>" "denotes c s \<tau>" using Suc.prems r s by (auto intro: denotes_at_root)
  have same: "compat_types strict \<sigma> \<tau>" if "r = s"
    using denotes_unique [OF Suc.prems(1) r(1)] Suc.prems(2) s(1) that compat_refl by metis
  have left: "yields c (allT (\<lambda>opt. compatible strict n opt (Some s)) (t_options ?g)) (compat_types strict \<sigma> \<tau>)"
    if u: "t_kind ?g = typeUnion" "\<tau> \<noteq> RtAny" "\<not> is_param \<tau>"
  proof -
    obtain qs \<sigma>s where x: "\<sigma> = RtUnion \<sigma>s" "t_options ?g = map Some qs" "list_all2 (denotes c) qs \<sigma>s"
      using r(2) u by (auto simp: node_denotes_def)
    have "yields c (allT (\<lambda>opt. compatible strict n opt (Some s)) (map Some qs)) (\<forall>\<sigma>\<in>set \<sigma>s. compat_types strict \<sigma> \<tau>)"
      by (rule yields_options [OF x(3)], rule Suc.IH [OF _ at_root(2)])
        (use Suc.prems(3) x(1) in \<open>auto dest!: part_sizes(2)\<close>)
    then show ?thesis using x u by (simp add: compat_union_left)
  qed
  have right: "yields c (anyT (compatible strict n (Some r)) (t_options ?e)) (compat_types strict \<sigma> \<tau>)"
    if u: "t_kind ?e = typeUnion" "\<sigma> \<noteq> RtAny" "\<not> is_param \<sigma>" "\<not> is_union \<sigma>"
  proof -
    obtain qs \<tau>s where x: "\<tau> = RtUnion \<tau>s" "t_options ?e = map Some qs" "list_all2 (denotes c) qs \<tau>s"
      using s(2) u by (auto simp: node_denotes_def)
    have "yields c (anyT (compatible strict n (Some r)) (map Some qs)) (\<exists>\<tau>\<in>set \<tau>s. compat_types strict \<sigma> \<tau>)"
      by (rule yields_options [OF x(3)], rule Suc.IH [OF at_root(1)])
        (use Suc.prems(3) x(1) in \<open>auto dest!: part_sizes(2)\<close>)
    then show ?thesis using x u by (simp add: compat_union_right)
  qed
  have shapes: "yields c (compatible_shapes n (compatible strict n) ?g ?e) (compat_types strict \<sigma> \<tau>)"
    if "\<sigma> \<notin> {RtAny, RtNil}" "\<tau> \<notin> {RtAny, RtNil}" "\<not> is_param \<sigma>" "\<not> is_param \<tau>" "\<not> is_union \<sigma>" "\<not> is_union \<tau>"
    by (rule compatible_shapes_yields [OF _ r(2) s(2) that], rule Suc.IH) (use Suc.prems(3) in auto)
  show ?case
    unfolding compatible.simps Let_def
    apply (rule yields_both_found [OF r(1) s(1)])
    apply (intro yields_if)
    subgoal using some by (intro yields_retI) blast
    subgoal using same by (intro yields_retI) blast
    subgoal using some by (intro yields_retI) blast
    subgoal using any kinds compat_param [of \<sigma> \<tau> strict] by (intro yields_retI) (simp only: insert_iff empty_iff, blast)
    subgoal using any kinds by (intro left) blast+
    subgoal using any kinds by (intro right) blast+
    subgoal using any kinds compat_nil_left [of \<tau> strict] compat_nil_right [of \<sigma> strict]
      by (intro yields_retI) (simp only: insert_iff empty_iff, blast)
    subgoal using any kinds by (intro shapes) blast+
    done
qed simp

end
