(* ===== verification/Type_Soundness.thy ===== *)
theory Type_Soundness
  imports Type_Laws
begin

text \<open>
  What the checks of types promise: the relation of declared types is sound for the checks that the
  virtual machine makes, and where the code is weaker than that.
\<close>

section \<open>Declared types and values\<close>

text \<open>
  The side conditions: a type without \<open>any\<close>, type parameters and unnamed structs on the one side;
  no tuples and no function types but \<open>fn\<close> on the other.
\<close>

fun precise :: "rtType \<Rightarrow> bool" where
  "precise RtAny \<longleftrightarrow> False"
| "precise (RtTypeParam nm) \<longleftrightarrow> False"
| "precise (RtStruct nm) \<longleftrightarrow> nm \<noteq> []"
| "precise (RtList \<tau>) \<longleftrightarrow> precise \<tau>"
| "precise (RtTuple \<tau>s) \<longleftrightarrow> (\<forall>\<tau>\<in>set \<tau>s. precise \<tau>)"
| "precise (RtMap \<kappa> \<nu>) \<longleftrightarrow> precise \<kappa> \<and> precise \<nu>"
| "precise (RtUnion \<tau>s) \<longleftrightarrow> (\<forall>\<tau>\<in>set \<tau>s. precise \<tau>)"
| "precise \<tau> \<longleftrightarrow> True"

fun checkable :: "rtType \<Rightarrow> bool" where
  "checkable (RtTuple \<tau>s) \<longleftrightarrow> False"
| "checkable (RtFn \<rho> \<tau>s variadic) \<longleftrightarrow> \<rho> = None \<and> \<tau>s = [] \<and> \<not> variadic"
| "checkable (RtList \<tau>) \<longleftrightarrow> checkable \<tau>"
| "checkable (RtMap \<kappa> \<nu>) \<longleftrightarrow> checkable \<kappa> \<and> checkable \<nu>"
| "checkable (RtUnion \<tau>s) \<longleftrightarrow> (\<forall>\<tau>\<in>set \<tau>s. checkable \<tau>)"
| "checkable \<tau> \<longleftrightarrow> True"

abbreviation "matches \<equiv> runtimeObjectMatchesDeclaredType"
lemmas matches_simps = runtimeObjectMatchesDeclaredType.simps

lemma matches_function:
  "matches sname v (RtFn \<rho> \<tau>s variadic) \<Longrightarrow> matches sname v (RtFn None [] False)"
  by (auto simp: matches_simps [of _ _ "RtFn _ _ _"] runtimeDeclaredTypeFromObject_def head_type_def
      runtimeDeclaredTypeFromVMFunction_def runtimeDeclaredTypeFromFunction_def rt_kind_def
      runtimeDeclaredTypeCompatible.simps [of _ "RtFn None [] False"] split: obj.splits)

lemma matches_list: "matches sname v (RtList \<tau>) \<longleftrightarrow> (\<exists>xs. v = ListO xs \<and> (\<forall>x\<in>set xs. matches sname x \<tau>))"
  by (subst matches_simps) (simp split: obj.split)

lemma matches_tuple:
  "matches sname v (RtTuple \<tau>s) \<longleftrightarrow>
     (\<exists>xs. v = ListO xs \<and> length xs = length \<tau>s \<and> (\<forall>p\<in>set (zip xs \<tau>s). matches sname (fst p) (snd p)))"
  by (subst matches_simps) (simp split: obj.split)

lemma matches_map:
  "matches sname v (RtMap \<kappa> \<nu>) \<longleftrightarrow>
     (\<exists>a st. v = MapO a st \<and>
        (\<forall>e\<in>set (collect_entries st). matches sname (mp_Key (snd e)) \<kappa> \<and> matches sname (mp_Value (snd e)) \<nu>))"
  by (subst matches_simps) (simp split: obj.split)

lemma matches_option: "\<tau> \<in> set \<tau>s \<Longrightarrow> matches sname v \<tau> \<Longrightarrow> matches sname v (RtUnion \<tau>s)"
  by (subst matches_simps) auto

lemma related_kinds:
  "rt_kind \<sigma> = rt_kind \<tau> \<or> sequences \<sigma> \<tau> \<Longrightarrow>
     (case \<sigma> of
        RtList _ \<Rightarrow> (\<exists>\<rho>. \<tau> = RtList \<rho>) \<or> (\<exists>\<rho>s. \<tau> = RtTuple \<rho>s)
      | RtTuple _ \<Rightarrow> (\<exists>\<rho>. \<tau> = RtList \<rho>) \<or> (\<exists>\<rho>s. \<tau> = RtTuple \<rho>s)
      | RtMap _ _ \<Rightarrow> \<exists>\<kappa> \<nu>. \<tau> = RtMap \<kappa> \<nu>
      | RtFn _ _ _ \<Rightarrow> \<exists>\<rho> \<rho>s variadic. \<tau> = RtFn \<rho> \<rho>s variadic
      | RtStruct _ \<Rightarrow> \<exists>nm. \<tau> = RtStruct nm
      | RtTypeParam _ \<Rightarrow> is_param \<tau>
      | RtUnion _ \<Rightarrow> is_union \<tau>
      | _ \<Rightarrow> \<tau> = \<sigma>)"
  by (cases \<sigma>; cases \<tau>) (simp_all add: rt_kind_def sequences_def doubleton_eq_iff is_param_def is_union_def)

lemma compat_sound:
  "compat_types True \<sigma> \<tau> \<Longrightarrow> precise \<sigma> \<Longrightarrow> checkable \<tau> \<Longrightarrow> matches sname v \<sigma> \<Longrightarrow> matches sname v \<tau>"
proof (induction "size \<sigma> + size \<tau>" arbitrary: \<sigma> \<tau> v rule: less_induct)
  case less
  note IH = less.hyps and prems = less.prems
  consider (trivial) "\<tau> = RtAny \<or> is_param \<tau>" | (left) \<sigma>s where "\<sigma> = RtUnion \<sigma>s" "\<tau> \<noteq> RtAny" "\<not> is_param \<tau>"
    | (right) \<tau>s where "\<tau> = RtUnion \<tau>s" "\<not> is_union \<sigma>"
    | (plain) "\<tau> \<noteq> RtAny" "\<not> is_param \<tau>" "\<not> is_union \<sigma>" "\<not> is_union \<tau>"
    by (cases \<sigma>; cases \<tau>) (auto simp: is_union_def is_param_def)
  then show ?case
  proof cases
    case trivial
    then show ?thesis by (auto simp: matches_simps [of _ _ \<tau>] is_param_def split: rtType.splits)
  next
    case left
    then obtain \<rho> where \<rho>: "\<rho> \<in> set \<sigma>s" "matches sname v \<rho>" using prems(4) by (subst (asm) matches_simps) auto
    then have "compat_types True \<rho> \<tau>" "precise \<rho>" using prems left by (auto simp: compat_union_left)
    then show ?thesis using IH [of \<rho> \<tau> v] \<rho> left prems(3) part_sizes(2) [OF \<rho>(1)] by simp
  next
    case right
    then have "\<not> is_param \<sigma>" "\<sigma> \<noteq> RtAny" using prems(2) by (auto simp: is_param_def split: rtType.splits)
    then obtain \<rho> where \<rho>: "\<rho> \<in> set \<tau>s" "compat_types True \<sigma> \<rho>" using prems(1) right by (auto simp: compat_union_right)
    then show ?thesis
      using IH [of \<sigma> \<rho> v] prems right part_sizes(2) [OF \<rho>(1)] by (auto intro: matches_option)
  next
    case plain
    have s: "\<sigma> \<noteq> RtAny" "\<not> is_param \<sigma>" using prems(2) by (auto simp: is_param_def split: rtType.splits)
    show ?thesis
    proof (cases "\<sigma> = RtNil \<or> \<tau> = RtNil")
      case True
      then show ?thesis using prems plain s compat_nil_left [of \<tau> True] compat_nil_right [of \<sigma> True] by auto
    next
      case nil: False
      show ?thesis
      proof (cases "rt_kind \<sigma> = rt_kind \<tau> \<or> sequences \<sigma> \<tau>")
        case False
        then show ?thesis using compat_kinds [of \<sigma> \<tau> True] prems(1) plain s nil by auto
      next
        case True
        note related = related_kinds [OF True]
        show ?thesis
        proof (cases \<sigma>)
          case (RtList \<sigma>')
          then obtain \<tau>' where t: "\<tau> = RtList \<tau>'"
            using related prems(3) by auto
          have "matches sname x \<tau>'" if "matches sname x \<sigma>'" for x
            by (rule IH [OF _ _ _ _ that]) (use prems(1-3) RtList t in \<open>simp_all add: compat_shapes\<close>)
          then show ?thesis using prems(4) unfolding RtList t matches_list by blast
        next
          case (RtTuple \<sigma>s)
          then obtain \<tau>' where t: "\<tau> = RtList \<tau>'"
            using related prems(3) by auto
          obtain xs where v: "v = ListO xs" "length xs = length \<sigma>s" "\<forall>p\<in>set (zip xs \<sigma>s). matches sname (fst p) (snd p)"
            using prems(4) unfolding RtTuple matches_tuple by blast
          have "matches sname x \<tau>'" if x: "x \<in> set xs" for x
          proof -
            obtain \<rho> where "(x, \<rho>) \<in> set (zip xs \<sigma>s)" using x v(2) by (auto elim: in_set_impl_in_set_zip1)
            then have "\<rho> \<in> set \<sigma>s" "matches sname x \<rho>" using v(3) by (auto dest: set_zip_rightD)
            then show ?thesis using prems(1-3) RtTuple t part_sizes(1) [of \<rho> \<sigma>s]
              by (intro IH [of \<rho> \<tau>' x]) (auto simp: compat_shapes)
          qed
          then show ?thesis using v(1) unfolding t matches_list by blast
        next
          case (RtMap \<kappa> \<nu>)
          then obtain \<kappa>' \<nu>' where t: "\<tau> = RtMap \<kappa>' \<nu>'"
            using related prems(3) by auto
          have "matches sname x \<kappa>'" if "matches sname x \<kappa>" for x
            by (rule IH [OF _ _ _ _ that]) (use prems(1-3) RtMap t in \<open>simp_all add: compat_shapes\<close>)
          moreover have "matches sname x \<nu>'" if "matches sname x \<nu>" for x
            by (rule IH [OF _ _ _ _ that]) (use prems(1-3) RtMap t in \<open>simp_all add: compat_shapes\<close>)
          ultimately show ?thesis using prems(4) unfolding RtMap t matches_map by blast
        next
          case (RtFn \<rho> \<sigma>s variadic)
          then have "\<tau> = RtFn None [] False"
            using related prems(3) by auto
          then show ?thesis using matches_function prems(4) RtFn by simp
        next
          case (RtStruct nm)
          then obtain nm' where t: "\<tau> = RtStruct nm'"
            using related by auto
          then have "nm' = [] \<or> nm = nm'" "nm \<noteq> []" using prems RtStruct by (auto simp: compat_shapes)
          then show ?thesis using prems(4) RtStruct t
            by (auto simp: matches_simps [of _ _ "RtStruct _"] split: obj.splits)
        qed (use related prems(4) plain s in simp_all)
      qed
    qed
  qed
qed


subsection \<open>The relation of the code\<close>

text \<open>C12: The compatibility of types that \<open>isCompatible\<close> and \<open>isDeclaredCompatible\<close> compute over the
  union-find graph of nodes, following parents and compressing paths as they go, is the relation
  \<open>compat_types\<close> on the finite types that the two references denote, whatever the sharing of
  nodes (a function type with an optional result denotes no such type): the call returns with that answer for any fuel above the sizes of the types, and changes
  the state by path compression only.\<close>

theorem compatible_refines_compat:
  assumes "denotes c p \<sigma>" and "denotes c q \<tau>" and "size \<sigma> + size \<tau> < n"
  shows "\<exists>d. compatible strict n (Some p) (Some q) c = TOk (compat_types strict \<sigma> \<tau>) d \<and> compressed c d"
  using compatible_yields [OF assms] by (rule yields_now)

text \<open>Nodes 0 to 2 are the type \<open>list<num>\<close> behind a bound unknown, and 3 to 6 are \<open>list<num|nil>\<close>.\<close>

definition sample_types :: typeChecker where
  "sample_types = newTypeChecker\<lparr>nodes :=
     [(zero_tnode typeUnknown)\<lparr>t_parent := Some 1\<rparr>, (zero_tnode typeList)\<lparr>t_elem := Some 2\<rparr>, zero_tnode typeNum,
      (zero_tnode typeList)\<lparr>t_elem := Some 4\<rparr>, (zero_tnode typeUnion)\<lparr>t_options := [Some 5, Some 6]\<rparr>,
      zero_tnode typeNum, zero_tnode typeNil]\<rparr>"

lemma sample_nodes:
  "root_node sample_types 0 ((zero_tnode typeList)\<lparr>t_elem := Some 2\<rparr>)"
  "root_node sample_types 2 (zero_tnode typeNum)"
  "root_node sample_types 3 ((zero_tnode typeList)\<lparr>t_elem := Some 4\<rparr>)"
  "root_node sample_types 4 ((zero_tnode typeUnion)\<lparr>t_options := [Some 5, Some 6]\<rparr>)"
  "root_node sample_types 5 (zero_tnode typeNum)" "root_node sample_types 6 (zero_tnode typeNil)"
proof -
  have l: "length (nodes sample_types) = 7" by (simp add: sample_types_def)
  have r: "reaches sample_types 0 1" "reaches sample_types 2 2" "reaches sample_types 3 3" "reaches sample_types 4 4"
    "reaches sample_types 5 5" "reaches sample_types 6 6"
    by (simp_all add: reaches_step [of 0 _ 1] reaches_root sample_types_def zero_tnode_def)
  then show "root_node sample_types 0 ((zero_tnode typeList)\<lparr>t_elem := Some 2\<rparr>)"
    "root_node sample_types 2 (zero_tnode typeNum)"
    "root_node sample_types 3 ((zero_tnode typeList)\<lparr>t_elem := Some 4\<rparr>)"
    "root_node sample_types 4 ((zero_tnode typeUnion)\<lparr>t_options := [Some 5, Some 6]\<rparr>)"
    "root_node sample_types 5 (zero_tnode typeNum)" "root_node sample_types 6 (zero_tnode typeNil)"
    unfolding root_node_def by (auto intro!: exI simp: sample_types_def)
qed

lemma sample_denotes:
  "denotes sample_types 0 (RtList RtNum)" "denotes sample_types 3 (RtList (RtUnion [RtNum, RtNil]))"
proof -
  have s: "denotes sample_types 2 RtNum" "denotes sample_types 5 RtNum" "denotes sample_types 6 RtNil"
    using sample_nodes by (auto intro!: denotes_scalar simp: scalar_rt_def zero_tnode_def)
  show "denotes sample_types 0 (RtList RtNum)"
    by (rule denotes_list [OF sample_nodes(1) _ _ s(1)]) (simp_all add: zero_tnode_def)
  have "denotes sample_types 4 (RtUnion [RtNum, RtNil])"
    by (rule denotes_union [OF sample_nodes(4), of "[5, 6]"]) (use s in \<open>simp_all add: zero_tnode_def\<close>)
  then show "denotes sample_types 3 (RtList (RtUnion [RtNum, RtNil]))"
    by (intro denotes_list [OF sample_nodes(3)]) (simp_all add: zero_tnode_def)
qed

lemma sample_compat:
  "compat_types strict (RtList RtNum) (RtList (RtUnion [RtNum, RtNil]))"
  "compat_types True (RtList (RtUnion [RtNum, RtNil])) (RtList RtNum) \<longleftrightarrow> False"
  by (simp_all add: compat_types.simps is_param_def rt_kind_def)

theorem compatible_refines_compat_witness:
  "\<exists>d. compatible True 9 (Some 0) (Some 3) sample_types = TOk True d \<and> compressed sample_types d"
  using compatible_refines_compat [OF sample_denotes, of 9 True] by (simp add: sample_compat)

text \<open>C13: Declared types are sound: if \<open>isDeclaredCompatible\<close> accepts a declared type for another one,
  the first without \<open>any\<close>, type parameters and unnamed structs and the second without tuples and
  structured function types, then every value that the virtual machine accepts for the first type
  it accepts for the second.\<close>

theorem declared_compatible_sound:
  assumes "denotes c p \<sigma>" and "denotes c q \<tau>" and "size \<sigma> + size \<tau> < n"
    and "isDeclaredCompatible n (Some p) (Some q) c = TOk True d"
    and "precise \<sigma>" and "checkable \<tau>" and "runtimeObjectMatchesDeclaredType sname v \<sigma>"
  shows "runtimeObjectMatchesDeclaredType sname v \<tau>"
proof -
  have "compat_types True \<sigma> \<tau>"
    using yields_now [OF compatible_yields [OF assms(1-3), of True]] assms(4) by (auto simp: isDeclaredCompatible_def)
  then show ?thesis using assms(5-7) by (rule compat_sound)
qed

lemma sample_list: "runtimeObjectMatchesDeclaredType sname (ListO []) (RtList \<tau>)"
  by (simp add: matches_list)

theorem declared_compatible_sound_witness:
  "runtimeObjectMatchesDeclaredType (\<lambda>_. []) (ListO []) (RtList (RtUnion [RtNum, RtNil]))"
proof -
  obtain d where "isDeclaredCompatible 9 (Some 0) (Some 3) sample_types = TOk True d"
    using yields_now [OF compatible_yields [OF sample_denotes, of 9 True]]
    by (auto simp: isDeclaredCompatible_def sample_compat)
  from declared_compatible_sound [OF sample_denotes _ this] show ?thesis by (simp add: sample_list)
qed

end
