(* ===== verification/Type_Merge.thy ===== *)
theory Type_Merge
  imports Type_Soundness
begin

text \<open>
  What unification does to the graph of types: it merges the class of an unknown with another
  class, and makes a cycle where an unknown is unified with a type that contains it.
\<close>

section \<open>Finding\<close>

text \<open>
  In a state whose parents form no cycle, \<open>find\<close> returns for every node: it gives the one
  representative that the parents lead to, changes nothing but parents, and leaves every node
  with the same representative, so that the parents still form no cycle.\<close>

theorem find_keeps_representatives:
  assumes "forest c" and "p < length (nodes c)"
  shows "\<exists>r d. tfind (Some p) c = TOk (Some r) d \<and> reaches c p r \<and> compressed c d \<and> forest d"
proof -
  obtain r where r: "reaches c p r" using assms by (auto simp: forest_iff)
  from tfind_ok [OF r] obtain d where "tfind (Some p) c = TOk (Some r) d" "compressed c d" by blast
  then show ?thesis using r assms(1) compressed_forest by blast
qed

lemma sample_forest: "forest sample_types"
proof -
  have "\<exists>r. reaches sample_types p r" if p: "p < 7" for p
  proof -
    have "p \<noteq> 0 \<Longrightarrow> t_parent (nodes sample_types ! p) = None"
      using p by (auto simp: sample_types_def zero_tnode_def numeral_eq_Suc less_Suc_eq)
    then show ?thesis
      using p sample_nodes(1) reaches_root [of p sample_types p] by (cases "p = 0") (auto simp: root_node_def sample_types_def)
  qed
  then show ?thesis by (simp add: forest_iff sample_types_def)
qed

theorem find_keeps_representatives_witness:
  "\<exists>r d. tfind (Some 0) sample_types = TOk (Some r) d \<and> reaches sample_types 0 r \<and> compressed sample_types d \<and> forest d"
  by (rule find_keeps_representatives [OF sample_forest]) (simp add: sample_types_def)

section \<open>Binding\<close>

lemma merge_reaches:
  assumes r: "reaches c r r" and s: "reaches c s s" and "r \<noteq> s"
  shows "reaches (set_parent r s c) x y \<longleftrightarrow> (\<exists>z. reaches c x z \<and> y = (if z = r then s else z))"
proof -
  let ?d = "set_parent r s c"
  have range: "r < length (nodes c)" "s < length (nodes c)" "t_parent (nodes c ! r) = None" "t_parent (nodes c ! s) = None"
    using reaches_range [OF r] reaches_range [OF s] by simp_all
  have s': "reaches ?d s s" using range assms(3) by (simp add: reaches_root nth_set_parent)
  have r': "reaches ?d r t \<longleftrightarrow> reaches ?d s t" for t
    using range by (intro reaches_step) (simp_all add: nth_set_parent)
  have there: "reaches ?d x (if z = r then s else z)" if "reaches c x z" for x z
    using that
  proof (induction rule: reaches_induct)
    case (root x)
    then show ?case using r' s' by (cases "x = r") (simp_all add: reaches_root nth_set_parent)
  next
    case (step x q z)
    then have "x \<noteq> r" using range by auto
    then show ?case using step reaches_step [of x ?d q] by (simp add: nth_set_parent)
  qed
  have "\<exists>z. reaches c x z \<and> y = (if z = r then s else z)" if "reaches ?d x y" for x y
    using that
  proof (induction rule: reaches_induct)
    case (root x)
    then have "x \<noteq> r" using range by (auto simp: nth_set_parent)
    then show ?case using root by (intro exI [of _ x]) (simp add: reaches_root nth_set_parent)
  next
    case (step x q y)
    show ?case
    proof (cases "x = r")
      case True
      then have "q = s" using step(1,2) range by (simp add: nth_set_parent)
      then show ?thesis using step(4) True s r reaches_unique by (metis assms(3))
    next
      case False
      then show ?thesis using step reaches_step [of x c q] by (auto simp: nth_set_parent)
    qed
  qed
  then show ?thesis using there by blast
qed

lemma bindUnknown_root:
  assumes "reaches c r r" "reaches c s s" "r \<noteq> s"
  shows "\<exists>d. bindUnknown (Some r) (Some s) c = TOk True (set_parent r s d) \<and> compressed c d"
proof -
  obtain d where d: "tfind (Some r) c = TOk (Some r) d" "compressed c d" using tfind_ok [OF assms(1)] by blast
  then have "reaches d s s" using assms(2) by (simp add: compressed_reaches)
  from tfind_ok [OF this] obtain e where e: "tfind (Some s) d = TOk (Some s) e" "compressed d e" by blast
  have "compressed c e" using d e compressed_trans by blast
  moreover have "r < length (nodes e)" using calculation assms(1) reaches_range compressed_length by metis
  then have "update_node (\<lambda>n. n\<lparr>t_parent := Some s\<rparr>) (Some r) e = TOk () (set_parent r s e)"
    by (simp add: update_node_def set_parent_def)
  ultimately show ?thesis using d e assms(3) by (auto simp: bindUnknown_def)
qed

lemma both_found_run:
  assumes "reaches c p r" "reaches c q s"
  shows "\<exists>d. compressed c d \<and>
           (\<forall>none f. both_found (Some p) (Some q) none f c = (f (Some r) (Some s) (nodes c ! r) (nodes c ! s) d :: 'a tresult))"
proof -
  obtain d where d: "tfind (Some p) c = TOk (Some r) d" "compressed c d" using tfind_ok [OF assms(1)] by blast
  then have "reaches d q s" using assms(2) by (simp add: compressed_reaches)
  from tfind_ok [OF this] obtain e where e: "tfind (Some q) d = TOk (Some s) e" "compressed d e" by blast
  have ce: "compressed c e" using d e compressed_trans by blast
  have "r < length (nodes e)" "s < length (nodes e)"
    using assms reaches_range compressed_length [OF ce] by metis+
  moreover have "nodes e ! r = nodes c ! r" "nodes e ! s = nodes c ! s"
    using assms compressed_root [OF ce] by blast+
  ultimately show ?thesis using d e ce by (auto simp: both_found_def)
qed

definition bindable :: "typeKind \<Rightarrow> bool" where
  \<comment> \<open>the kinds of types that an unknown is bound to\<close>
  "bindable k \<longleftrightarrow> k \<notin> {typeNever, typeAny, typeUnion, typeNil}"

text \<open>C16: Unifying an unknown type with a type that is not never, any, nil or a union succeeds and
  merges the two classes: every node of the class of the unknown gets the representative of the
  other type, every other node keeps its own, and the parents still form no cycle.\<close>

theorem unify_binds_unknown:
  assumes "reaches c p r" and "reaches c q s" and "r \<noteq> s" and "t_kind (nodes c ! r) = typeUnknown"
    and "bindable (t_kind (nodes c ! s))"
  shows "\<exists>d. unify (Suc n) (Some p) (Some q) c = TOk True d \<and>
           (\<forall>x y. reaches d x y \<longleftrightarrow> (\<exists>z. reaches c x z \<and> y = (if z = r then s else z)))"
proof -
  have roots: "reaches c r r" "reaches c s s" using assms(1,2) reaches_root' by blast+
  obtain d where cd: "compressed c d" and
    run: "\<And>none f. both_found (Some p) (Some q) none f c = (f (Some r) (Some s) (nodes c ! r) (nodes c ! s) d :: bool tresult)"
    using both_found_run [OF assms(1,2)] by blast
  have d: "unify (Suc n) (Some p) (Some q) c = bindUnknown (Some r) (Some s) d"
    using assms(3-5) unfolding unify.simps run by (auto simp: bindable_def)
  have "reaches d r r" "reaches d s s" using roots cd by (simp_all add: compressed_reaches)
  from bindUnknown_root [OF this assms(3)] obtain e where
    e: "bindUnknown (Some r) (Some s) d = TOk True (set_parent r s e)" "compressed d e" by blast
  have ce: "compressed c e" using cd e compressed_trans by blast
  show ?thesis
  proof (intro exI conjI allI)
    show "unify (Suc n) (Some p) (Some q) c = TOk True (set_parent r s e)" using d e by simp
    fix x y
    show "reaches (set_parent r s e) x y \<longleftrightarrow> (\<exists>z. reaches c x z \<and> y = (if z = r then s else z))"
      using merge_reaches [of e r s x y] roots assms(3) by (simp add: compressed_reaches [OF ce])
  qed
qed

text \<open>Node 0 is an unknown, and node 1 is the list type of it.\<close>

definition sample_unknown :: typeChecker where
  "sample_unknown = newTypeChecker\<lparr>nodes := [zero_tnode typeUnknown, (zero_tnode typeList)\<lparr>t_elem := Some 0\<rparr>, zero_tnode typeNum]\<rparr>"

lemma sample_unknown_roots:
  "reaches sample_unknown 0 0" "reaches sample_unknown (Suc 0) (Suc 0)" "reaches sample_unknown 2 2"
  "nodes sample_unknown ! 0 = zero_tnode typeUnknown"
  "nodes sample_unknown ! Suc 0 = (zero_tnode typeList)\<lparr>t_elem := Some 0\<rparr>"
  "nodes sample_unknown ! 2 = zero_tnode typeNum"
  by (simp_all add: reaches_root sample_unknown_def zero_tnode_def)

theorem unify_binds_unknown_witness:
  "\<exists>d. unify 1 (Some 0) (Some 2) sample_unknown = TOk True d \<and>
     (\<forall>x y. reaches d x y \<longleftrightarrow> (\<exists>z. reaches sample_unknown x z \<and> y = (if z = 0 then 2 else z)))"
  using unify_binds_unknown [OF sample_unknown_roots(1,3), of 0]
  by (simp add: sample_unknown_roots bindable_def zero_tnode_def)

section \<open>No occurs check\<close>

definition cyclic_list :: "typeChecker \<Rightarrow> nat \<Rightarrow> bool" where
  \<comment> \<open>the node is a list type whose elements have that type\<close>
  "cyclic_list c s \<longleftrightarrow> t_kind (nodes c ! s) = typeList \<and> (\<exists>x. t_elem (nodes c ! s) = Some x \<and> reaches c x s)"

lemma cyclic_compressed: "compressed c d \<Longrightarrow> reaches c y s \<Longrightarrow> cyclic_list c s \<Longrightarrow> cyclic_list d s"
  using compressed_root [of c d y s] by (simp add: cyclic_list_def compressed_reaches)

lemma describe_cyclic: "reaches c y s \<Longrightarrow> cyclic_list c s \<Longrightarrow> describe m (Some y) c = TDeep"
proof (induction m arbitrary: y c)
  case (Suc m)
  obtain d where d: "tfind (Some y) c = TOk (Some s) d" "compressed c d" using tfind_ok [OF Suc.prems(1)] by blast
  have "cyclic_list d s" using cyclic_compressed [OF d(2) Suc.prems] .
  then obtain x where x: "t_kind (nodes d ! s) = typeList" "t_elem (nodes d ! s) = Some x" "reaches d x s"
    by (auto simp: cyclic_list_def)
  then have "describe m (Some x) d = TDeep" using Suc.IH \<open>cyclic_list d s\<close> by blast
  moreover have "s < length (nodes d)" using x(3) reaches_range by blast
  ultimately show ?case using d x by (simp add: found_def bindT_def)
qed (simp add: deepT_def)

text \<open>C17: Unification has no occurs check: unifying an unknown with a list type whose elements are of
  that unknown type succeeds, and afterwards the recursion that describes the type (as the trace
  of every union, every diagnostic and every signature does) does not end: with no fuel does it
  return.\<close>

theorem unify_makes_endless_type:
  assumes "reaches c p r" and "t_kind (nodes c ! r) = typeUnknown" and "reaches c q s"
    and "t_kind (nodes c ! s) = typeList" and "t_elem (nodes c ! s) = Some x" and "reaches c x r"
  shows "\<exists>d. unify (Suc n) (Some p) (Some q) c = TOk True d \<and>
           (\<forall>m. describe m (Some p) d = TDeep \<and> describe m (Some q) d = TDeep)"
proof -
  have rs: "r \<noteq> s" using assms(2,4) by auto
  have roots: "reaches c r r" "reaches c s s" using assms(1,3) reaches_root' by blast+
  obtain d where cd: "compressed c d" and
    run: "\<And>none f. both_found (Some p) (Some q) none f c = (f (Some r) (Some s) (nodes c ! r) (nodes c ! s) d :: bool tresult)"
    using both_found_run [OF assms(1,3)] by blast
  have d: "unify (Suc n) (Some p) (Some q) c = bindUnknown (Some r) (Some s) d"
    using assms(2,4) rs unfolding unify.simps run by auto
  have "reaches d r r" "reaches d s s" using roots cd by (simp_all add: compressed_reaches)
  from bindUnknown_root [OF this rs] obtain e where
    e: "bindUnknown (Some r) (Some s) d = TOk True (set_parent r s e)" "compressed d e" by blast
  have ce: "compressed c e" using cd e compressed_trans by blast
  let ?f = "set_parent r s e"
  have merged: "reaches ?f y t \<longleftrightarrow> (\<exists>z. reaches c y z \<and> t = (if z = r then s else z))" for y t
    using merge_reaches [of e r s y t] roots rs by (simp add: compressed_reaches [OF ce])
  have "nodes ?f ! s = nodes c ! s"
    using compressed_root [OF ce roots(2)] rs reaches_range [OF roots(2)] compressed_length [OF ce]
    by (simp add: nth_set_parent)
  moreover have "reaches ?f x s" "reaches ?f p s" "reaches ?f q s" using merged assms(1,3,6) rs by metis+
  ultimately have "cyclic_list ?f s" "reaches ?f p s" "reaches ?f q s" using assms(4,5) by (auto simp: cyclic_list_def)
  then show ?thesis using d e describe_cyclic by metis
qed

theorem unify_makes_endless_type_witness:
  "\<exists>d. unify 1 (Some 0) (Some 1) sample_unknown = TOk True d \<and>
     (\<forall>m. describe m (Some 0) d = TDeep \<and> describe m (Some 1) d = TDeep)"
  using unify_makes_endless_type [OF sample_unknown_roots(1) _ sample_unknown_roots(2), of 0 0] sample_unknown_roots(1)
  by (simp add: sample_unknown_roots zero_tnode_def)

end
