(* ===== verification/Type_Frame.thy ===== *)
theory Type_Frame
  imports Type_Merge "HOL-Library.Sublist"
begin

text \<open>
  What all operations of the type checker keep: the parents of nodes form no cycle, the stacks of
  scopes have their heights back after an operation, and nodes and diagnostics are only added.
\<close>

section \<open>Relations between states that operations keep\<close>

definition keeps :: "(typeChecker \<Rightarrow> typeChecker \<Rightarrow> bool) \<Rightarrow> 'a tc \<Rightarrow> bool" where
  \<comment> \<open>whenever the operation returns\<close>
  "keeps R m \<longleftrightarrow> (\<forall>c a d. m c = TOk a d \<longrightarrow> R c d)"

named_theorems keeping \<open>operations that keep a relation\<close>

declare retT_apply [simp del] getT_apply [simp del] modT_apply [simp del]

lemma keepsD: "keeps R m \<Longrightarrow> m c = TOk a d \<Longrightarrow> R c d"
  by (auto simp: keeps_def)

lemma keeps_if [keeping]: "(b \<Longrightarrow> keeps R m) \<Longrightarrow> (\<not> b \<Longrightarrow> keeps R n) \<Longrightarrow> keeps R (if b then m else n)"
  by simp

lemma keeps_Let [keeping]: "(\<And>x. x = a \<Longrightarrow> keeps R (f x)) \<Longrightarrow> keeps R (Let a f)"
  by simp

lemma keeps_option [keeping]:
  "(x = None \<Longrightarrow> keeps R m) \<Longrightarrow> (\<And>y. x = Some y \<Longrightarrow> keeps R (f y)) \<Longrightarrow> keeps R (case x of None \<Rightarrow> m | Some y \<Rightarrow> f y)"
  by (cases x) simp_all

lemma keeps_list [keeping]:
  "(x = [] \<Longrightarrow> keeps R m) \<Longrightarrow> (\<And>y ys. x = y # ys \<Longrightarrow> keeps R (f y ys)) \<Longrightarrow> keeps R (case x of [] \<Rightarrow> m | y # ys \<Rightarrow> f y ys)"
  by (cases x) simp_all

lemma keeps_prod [keeping]: "(\<And>a b. x = (a, b) \<Longrightarrow> keeps R (f a b)) \<Longrightarrow> keeps R (case x of (a, b) \<Rightarrow> f a b)"
  by (cases x) simp

lemma keeps_prod_fun [keeping]: "(\<And>a b. x = (a, b) \<Longrightarrow> keeps R (f a b y)) \<Longrightarrow> keeps R ((case x of (a, b) \<Rightarrow> f a b) y)"
  by (cases x) simp

lemma keeps_kind [keeping]:
  "keeps R k1 \<Longrightarrow> keeps R k2 \<Longrightarrow> keeps R k3 \<Longrightarrow> keeps R k4 \<Longrightarrow> keeps R k5 \<Longrightarrow> keeps R k6 \<Longrightarrow> keeps R k7 \<Longrightarrow> keeps R k8 \<Longrightarrow>
   keeps R k9 \<Longrightarrow> keeps R k10 \<Longrightarrow> keeps R k11 \<Longrightarrow> keeps R k12 \<Longrightarrow> keeps R k13 \<Longrightarrow> keeps R k14 \<Longrightarrow> keeps R k15 \<Longrightarrow>
   keeps R k16 \<Longrightarrow> keeps R k17 \<Longrightarrow> keeps R k18 \<Longrightarrow>
     keeps R (case_typeKind k1 k2 k3 k4 k5 k6 k7 k8 k9 k10 k11 k12 k13 k14 k15 k16 k17 k18 k)"
  by (cases k) simp_all

lemma keeps_fail [keeping]: "keeps R panicT" "keeps R deepT"
  by (simp_all add: keeps_def panicT_def deepT_def)

locale frame =
  fixes R :: "typeChecker \<Rightarrow> typeChecker \<Rightarrow> bool"
  assumes kept_refl: "R c c" and kept_trans: "R c d \<Longrightarrow> R d e \<Longrightarrow> R c e"
begin

lemma ret [keeping]: "keeps R (retT a)"
  by (simp add: keeps_def retT_def kept_refl)

lemma get [keeping]: "keeps R (getT f)"
  by (simp add: keeps_def getT_def kept_refl)

lemma bind [keeping]: "keeps R m \<Longrightarrow> (\<And>a. keeps R (f a)) \<Longrightarrow> keeps R (bindT m f)"
  by (fastforce simp: keeps_def bindT_def split: tresult.splits intro: kept_trans)

lemma mapT [keeping]: "(\<And>x. x \<in> set xs \<Longrightarrow> keeps R (f x)) \<Longrightarrow> keeps R (mapT f xs)"
  by (induction xs) (auto intro!: ret bind)

lemma eachT [keeping]: "(\<And>x. x \<in> set xs \<Longrightarrow> keeps R (f x)) \<Longrightarrow> keeps R (eachT f xs)"
  by (induction xs) (auto intro!: ret bind)

lemma foldT [keeping]: "(\<And>s x. x \<in> set xs \<Longrightarrow> keeps R (f s x)) \<Longrightarrow> keeps R (foldT f s xs)"
  by (induction xs arbitrary: s) (auto intro!: ret bind)

lemma allT [keeping]: "(\<And>x. x \<in> set xs \<Longrightarrow> keeps R (f x)) \<Longrightarrow> keeps R (allT f xs)"
  by (induction xs) (auto intro!: ret bind)

lemma anyT [keeping]: "(\<And>x. x \<in> set xs \<Longrightarrow> keeps R (f x)) \<Longrightarrow> keeps R (anyT f xs)"
  by (induction xs) (auto intro!: ret bind)

lemma node_of [keeping]: "keeps R (node_of t)"
  by (auto simp: keeps_def node_of_def kept_refl split: option.splits if_splits)

end

section \<open>The order of the checker\<close>

definition heights :: "typeChecker \<Rightarrow> nat \<times> nat \<times> nat \<times> nat" where
  "heights c = (length (scopes c), length (declared c), length (overrides c), length (generics c))"

definition ready :: "typeChecker \<Rightarrow> bool" where
  "ready c \<longleftrightarrow> scopes c \<noteq> [] \<and> declared c \<noteq> [] \<and> overrides c \<noteq> []"

definition moves :: "(nat \<times> nat \<times> nat \<times> nat \<Rightarrow> nat \<times> nat \<times> nat \<times> nat) \<Rightarrow> typeChecker \<Rightarrow> typeChecker \<Rightarrow> bool" where
  \<comment> \<open>the heights of the stacks change by a function\<close>
  "moves f c d \<longleftrightarrow>
     (forest c \<longrightarrow> forest d) \<and> (ready c \<longrightarrow> heights d = f (heights c)) \<and> length (nodes c) \<le> length (nodes d) \<and>
     prefix (diags c) (diags d)"

definition orderly :: "typeChecker \<Rightarrow> typeChecker \<Rightarrow> bool" where
  "orderly c d \<longleftrightarrow> moves id c d"

lemma ready_heights: "ready c \<longleftrightarrow> (case heights c of (s, d, o', g) \<Rightarrow> 0 < s \<and> 0 < d \<and> 0 < o')"
  by (auto simp: ready_def heights_def)

interpretation order: frame orderly
proof
  fix c d e
  show "orderly c c" by (simp add: moves_def orderly_def)
  assume "orderly c d" "orderly d e"
  moreover from this have "ready c \<longrightarrow> ready d" by (simp add: orderly_def moves_def ready_heights)
  ultimately show "orderly c e" unfolding orderly_def moves_def by (auto intro: prefix_order.trans)
qed

lemma forest_added:
  assumes "forest c" "length (nodes c) \<le> length (nodes d)"
    and "\<And>p. p < length (nodes c) \<Longrightarrow> t_parent (nodes d ! p) = t_parent (nodes c ! p)"
    and "\<And>p. length (nodes c) \<le> p \<Longrightarrow> p < length (nodes d) \<Longrightarrow> t_parent (nodes d ! p) = None"
  shows "forest d"
proof -
  have old: "\<exists>r. reaches d p r" if "reaches c p r" for p r
    using that
  proof (induction rule: reaches_induct)
    case (root p)
    then show ?case using assms(2,3) reaches_root [of p d p] by auto
  next
    case (step p q r)
    then show ?case using assms(2,3) reaches_step [of p d q] by auto
  qed
  show ?thesis unfolding forest_iff
  proof (intro allI impI)
    fix p assume p: "p < length (nodes d)"
    show "\<exists>r. reaches d p r"
    proof (cases "p < length (nodes c)")
      case True
      then show ?thesis using assms(1) old by (auto simp: forest_iff)
    next
      case False
      then show ?thesis using assms(4) p reaches_root [of p d p] by auto
    qed
  qed
qed

lemma same_nodes: "forest c \<Longrightarrow> nodes d = nodes c \<Longrightarrow> forest d"
  by (rule forest_added) auto

lemma orderly_modT:
  "(\<And>c. nodes (f c) = nodes c \<and> prefix (diags c) (diags (f c)) \<and> (ready c \<longrightarrow> heights (f c) = g (heights c))) \<Longrightarrow>
     keeps (moves g) (modT f)"
  by (auto simp: keeps_def modT_def moves_def dest: same_nodes)

lemma orderly_change:
  "(\<And>c. nodes (f c) = nodes c \<and> prefix (diags c) (diags (f c)) \<and> (ready c \<longrightarrow> heights (f c) = heights c)) \<Longrightarrow>
     keeps orderly (modT f)"
  using orderly_modT [of f id] by (simp add: keeps_def orderly_def)

lemma orderly_new_node [keeping]: "t_parent u = None \<Longrightarrow> keeps orderly (new_node u)"
  unfolding keeps_def
proof (intro allI impI)
  fix c a d assume "t_parent u = None" "new_node u c = TOk a d"
  then have d: "d = c\<lparr>nodes := nodes c @ [u]\<rparr>" "t_parent u = None" by (simp_all add: new_node_def)
  have "forest d" if "forest c" by (rule forest_added [OF that]) (auto simp: d nth_append less_Suc_eq)
  then show "orderly c d" by (simp add: orderly_def moves_def heights_def d)
qed

lemma orderly_update_node: "(\<And>u. t_parent (f u) = t_parent u) \<Longrightarrow> keeps orderly (update_node f t)"
  unfolding keeps_def
proof (intro allI impI)
  fix c a d assume f: "\<And>u. t_parent (f u) = t_parent u" and "update_node f t c = TOk a d"
  then obtain p where p: "p < length (nodes c)" and d: "d = c\<lparr>nodes := (nodes c)[p := f (nodes c ! p)]\<rparr>"
    by (auto simp: update_node_def node_of_def bindT_def modT_def split: option.splits if_splits)
  have "forest d" if "forest c" by (rule forest_added [OF that]) (auto simp: d f p nth_list_update)
  then show "orderly c d" by (simp add: orderly_def moves_def heights_def d)
qed

lemma find_at_frame: "find_at n p c = TOk r d \<Longrightarrow> length (nodes d) = length (nodes c) \<and> d\<lparr>nodes := []\<rparr> = c\<lparr>nodes := []\<rparr> \<and> p < length (nodes c)"
proof (induction n arbitrary: p r c d)
  case (Suc n)
  show ?case
  proof (cases "p < length (nodes c)")
    case True
    then show ?thesis using Suc.prems Suc.IH
      by (fastforce simp: bindT_def node_of_def update_node_def modT_def retT_def split: option.splits tresult.splits if_splits)
  qed (use Suc.prems in \<open>simp add: bindT_def node_of_def\<close>)
qed (simp add: deepT_def)

lemma tfind_frame:
  assumes "tfind t c = TOk r d"
  shows "length (nodes d) = length (nodes c)" "d\<lparr>nodes := []\<rparr> = c\<lparr>nodes := []\<rparr>" "forest c \<Longrightarrow> compressed c d"
proof -
  have "length (nodes d) = length (nodes c) \<and> d\<lparr>nodes := []\<rparr> = c\<lparr>nodes := []\<rparr> \<and> (forest c \<longrightarrow> compressed c d)"
  proof (cases t)
    case None
    then show ?thesis using assms by simp
  next
    case (Some p)
    then obtain r' where f: "find_at (length (nodes c)) p c = TOk r' d" "r = Some r'"
      using assms by (auto simp: tfind_def bindT_def getT_def retT_def split: tresult.splits)
    have "compressed c d" if "forest c"
    proof -
      obtain s where s: "reaches c p s" using \<open>forest c\<close> find_at_frame [OF f(1)] by (auto simp: forest_iff)
      from tfind_ok [OF this] obtain e where "tfind t c = TOk (Some s) e" "compressed c e" using Some by blast
      then show ?thesis using assms by simp
    qed
    then show ?thesis using find_at_frame [OF f(1)] by simp
  qed
  then show "length (nodes d) = length (nodes c)" "d\<lparr>nodes := []\<rparr> = c\<lparr>nodes := []\<rparr>" "forest c \<Longrightarrow> compressed c d"
    by blast+
qed

lemma orderly_tfind [keeping]: "keeps orderly (tfind t)"
  unfolding keeps_def orderly_def moves_def
proof (intro allI impI conjI)
  fix c a d assume r: "tfind t c = TOk a d"
  have "scopes d = scopes c \<and> declared d = declared c \<and> overrides d = overrides c \<and> generics d = generics c \<and> diags d = diags c"
    using tfind_frame(2) [OF r] by (cases c; cases d) simp
  then show "heights d = id (heights c)" "prefix (diags c) (diags d)" by (simp_all add: heights_def)
  show "forest d" if "forest c" using tfind_frame(3) [OF r that] that compressed_forest by blast
  show "length (nodes c) \<le> length (nodes d)" using tfind_frame(1) [OF r] by simp
qed

lemma orderly_found [keeping]: "(\<And>r u. keeps orderly (f r u)) \<Longrightarrow> keeps orderly (found t f)"
  unfolding found_def by (intro keeping)

lemma orderly_both_found [keeping]:
  "keeps orderly none \<Longrightarrow> (\<And>r s u v. keeps orderly (f r s u v)) \<Longrightarrow> keeps orderly (both_found a b none f)"
  unfolding both_found_def by (intro keeping)

section \<open>Types\<close>

lemma orderly_freshUnknown [keeping]: "keeps orderly freshUnknown"
  unfolding freshUnknown_def by (intro keeping orderly_change; simp add: zero_tnode_def heights_def)

lemma orderly_scalar [keeping]: "keeps orderly (scalar k)"
  unfolding scalar_def Let_def by (intro keeping; simp add: zero_tnode_def)

lemma orderly_or_fresh [keeping]: "keeps orderly (or_fresh t)"
  unfolding or_fresh_def Let_def by (intro keeping; simp add: zero_tnode_def)

lemma orderly_listType [keeping]: "keeps orderly (listType e)"
  unfolding listType_def Let_def by (intro keeping; simp add: zero_tnode_def)

lemma orderly_tupleType [keeping]: "keeps orderly (tupleType ps)"
  unfolding tupleType_def Let_def by (intro keeping; simp add: zero_tnode_def)

lemma orderly_mapType [keeping]: "keeps orderly (mapType k v)"
  unfolding mapType_def Let_def by (intro keeping; simp add: zero_tnode_def)

lemma orderly_fnType [keeping]: "keeps orderly (fnType ps r v mn mx)"
  unfolding fnType_def Let_def by (intro keeping; simp add: zero_tnode_def)

lemma orderly_typeParam_node [keeping]: "keeps orderly (typeParam_node nm)"
  unfolding typeParam_node_def Let_def by (intro keeping; simp add: zero_tnode_def)

lemma orderly_struct_node [keeping]: "keeps orderly (struct_node nm)"
  unfolding struct_node_def Let_def by (intro keeping; simp add: zero_tnode_def)

lemma orderly_texts [keeping]: "keeps orderly (typeSig n t)" "keeps orderly (describe n t)"
proof -
  have "keeps orderly (typeSig n t) \<and> keeps orderly (describe n t)" for n t
  proof (induction n arbitrary: t)
    case (Suc n)
    then have ih [keeping]: "keeps orderly (typeSig n t)" "keeps orderly (describe n t)" for t by blast+
    show ?case unfolding typeSig.simps describe.simps by (intro conjI keeping ih)
  qed (simp add: keeping)
  then show "keeps orderly (typeSig n t)" "keeps orderly (describe n t)" by blast+
qed


lemma orderly_map_memo [keeping]:
  assumes [keeping]: "\<And>m t. keeps orderly (f m t)"
  shows "keeps orderly (map_memo f memo ts)"
  unfolding map_memo_def Let_def by (intro keeping; simp add: zero_tnode_def shallow_copy_def)

lemma orderly_copied [keeping]: "(\<And>u. t_parent (f u) = t_parent u) \<Longrightarrow> keeps orderly (copied cp f memo)"
  unfolding copied_def by (intro keeping orderly_update_node)

lemma orderly_cloneForCaseScope [keeping]: "keeps orderly (cloneForCaseScope n memo t)"
proof (induction n arbitrary: memo t)
  case (Suc n)
  note [keeping] = Suc.IH
  show ?case unfolding cloneForCaseScope.simps Let_def by (intro keeping; simp add: zero_tnode_def shallow_copy_def)
qed (simp add: keeping)

lemma orderly_cloneTypeWithSubst [keeping]: "keeps orderly (cloneTypeWithSubst n sub memo t)"
proof (induction n arbitrary: sub memo t)
  case (Suc n)
  note [keeping] = Suc.IH
  show ?case unfolding cloneTypeWithSubst.simps Let_def by (intro keeping; simp add: zero_tnode_def shallow_copy_def)
qed (simp add: keeping)

lemma orderly_type_substitution [keeping]: "keeps orderly (type_substitution ex it)"
  unfolding type_substitution_def Let_def by (intro keeping; simp add: zero_tnode_def shallow_copy_def)

lemma orderly_instantiateFunctionType [keeping]: "keeps orderly (instantiateFunctionType n fn ex)"
  unfolding instantiateFunctionType_def by (intro keeping orderly_update_node; simp)

lemma orderly_contains_any:
  assumes [keeping]: "\<And>seen t. keeps orderly (contains_walk n seen t)"
  shows "keeps orderly (contains_any n seen ts)"
proof (induction ts arbitrary: seen)
  case (Cons t ts)
  note [keeping] = Cons.IH
  show ?case unfolding contains_any.simps by (intro keeping)
qed (simp add: keeping)

lemma orderly_contains_walk [keeping]: "keeps orderly (contains_walk n seen t)"
proof (induction n arbitrary: seen t)
  case (Suc n)
  note [keeping] = Suc.IH orderly_contains_any [OF Suc.IH]
  show ?case unfolding contains_walk.simps Let_def by (intro keeping)
qed (simp add: keeping)

lemma orderly_containsTypeParam [keeping]: "keeps orderly (containsTypeParam n t)"
  unfolding containsTypeParam_def Let_def by (intro keeping; simp add: zero_tnode_def shallow_copy_def)

lemma orderly_any_alone [keeping]: "keeps orderly (any_alone fl)"
  unfolding any_alone_def Let_def by (intro keeping; simp add: zero_tnode_def shallow_copy_def)

lemma orderly_until_any [keeping]: "(\<And>st t. keeps orderly (add st t)) \<Longrightarrow> keeps orderly (until_any add st ts)"
  by (induction ts arbitrary: st) (auto intro!: keeping)

lemma orderly_addOpt [keeping]: "keeps orderly (addOpt n st t)"
proof (induction n arbitrary: st t)
  case (Suc n)
  note [keeping] = Suc.IH
  show ?case unfolding addOpt.simps Let_def by (intro keeping; simp add: zero_tnode_def shallow_copy_def)
qed (simp add: keeping)

lemma orderly_add_family [keeping]:
  assumes [keeping]: "\<And>ts. keeps orderly (mk ts)"
  shows "keeps orderly (add_family mk st opt)"
  unfolding add_family_def Let_def by (intro keeping; simp add: zero_tnode_def shallow_copy_def)

lemma orderly_mergeUnionFamilies [keeping]:
  assumes [keeping]: "\<And>ts. keeps orderly (mk ts)"
  shows "keeps orderly (mergeUnionFamilies mk opts)"
  unfolding mergeUnionFamilies_def Let_def by (intro keeping; simp add: zero_tnode_def shallow_copy_def)

lemma orderly_dedup_option [keeping]: "keeps orderly (dedup_option n st opt)"
  unfolding dedup_option_def Let_def by (intro keeping; simp add: zero_tnode_def shallow_copy_def)

lemma orderly_is_any [keeping]: "keeps orderly (is_any t)"
  unfolding is_any_def Let_def by (intro keeping; simp add: zero_tnode_def shallow_copy_def)

lemma orderly_normalizeUnionOptions [keeping]:
  assumes [keeping]: "\<And>ts. keeps orderly (mk ts)"
  shows "keeps orderly (normalizeUnionOptions n mk opts)"
  unfolding normalizeUnionOptions_def Let_def by (intro keeping; simp add: zero_tnode_def shallow_copy_def)

lemma orderly_unionType [keeping]: "keeps orderly (unionType n ts)"
proof (induction n arbitrary: ts)
  case (Suc n)
  note [keeping] = Suc.IH
  show ?case unfolding unionType.simps Let_def by (intro keeping; simp add: zero_tnode_def shallow_copy_def)
qed (simp add: keeping)


section \<open>Annotations, relations and unification\<close>

lemma orderly_addConstraint [keeping]: "keeps orderly (addConstraint l r pos why)"
  unfolding addConstraint_def Let_def by (intro keeping orderly_change; simp add: heights_def)

lemma orderly_addDiag [keeping]: "keeps orderly (addDiag pos msg)"
  unfolding addDiag_def Let_def by (intro keeping orderly_change; simp add: heights_def)

lemma orderly_constrain_scalar [keeping]: "keeps orderly (constrain_scalar t k pos why)"
  unfolding constrain_scalar_def Let_def by (intro keeping; simp add: zero_tnode_def)

lemma orderly_cloneScalarTagType [keeping]: "keeps orderly (cloneScalarTagType tag)"
  unfolding cloneScalarTagType_def Let_def by (intro keeping; simp add: zero_tnode_def)

lemma orderly_simple_type [keeping]: "keeps orderly (simple_type gs s)"
  unfolding simple_type_def Let_def by (intro keeping; simp add: zero_tnode_def)

lemma orderly_parseDeclaredTypeWithScope [keeping]: "keeps orderly (parseDeclaredTypeWithScope n gs raw)"
proof (induction n arbitrary: gs raw)
  case (Suc n)
  note [keeping] = Suc.IH
  show ?case unfolding parseDeclaredTypeWithScope.simps Let_def by (intro keeping; simp add: zero_tnode_def)
qed (simp add: keeping)

lemma orderly_parseDeclaredType [keeping]: "keeps orderly (parseDeclaredType n raw)"
  unfolding parseDeclaredType_def Let_def by (intro keeping; simp add: zero_tnode_def)

lemma orderly_typeAllowsNil [keeping]: "keeps orderly (typeAllowsNil n t)"
proof (induction n arbitrary: t)
  case (Suc n)
  note [keeping] = Suc.IH
  show ?case unfolding typeAllowsNil.simps Let_def by (intro keeping; simp add: zero_tnode_def)
qed (simp add: keeping)

lemma orderly_options_nil:
  assumes [keeping]: "\<And>t. keeps orderly (typeMayBeNilConcretely n t)"
  shows "keeps orderly (options_nil n b ts)"
proof (induction ts arbitrary: b)
  case (Cons t ts)
  note [keeping] = Cons.IH
  show ?case unfolding options_nil.simps by (intro keeping)
qed (simp add: keeping)

lemma orderly_typeMayBeNilConcretely [keeping]: "keeps orderly (typeMayBeNilConcretely n t)"
proof (induction n arbitrary: t)
  case (Suc n)
  note [keeping] = orderly_options_nil [OF Suc.IH]
  show ?case unfolding typeMayBeNilConcretely.simps by (intro keeping)
qed (simp add: keeping)

lemma orderly_invalid_annotation [keeping]: "keeps orderly (invalid_annotation pos ct m)"
  unfolding invalid_annotation_def Let_def by (intro keeping; simp add: zero_tnode_def)

lemma orderly_first_unparsed [keeping]: "keeps orderly (first_unparsed n gs pos ct ps)"
  by (induction ps) (auto intro!: keeping)

lemma orderly_validateSpecialDeclaredTypeWithScope [keeping]: "keeps orderly (validateSpecialDeclaredTypeWithScope n raw pos ct gs)"
  unfolding validateSpecialDeclaredTypeWithScope_def Let_def by (intro keeping; simp add: zero_tnode_def)

lemma orderly_validateSpecialDeclaredType [keeping]: "keeps orderly (validateSpecialDeclaredType n raw pos ct)"
  unfolding validateSpecialDeclaredType_def Let_def by (intro keeping; simp add: zero_tnode_def)

lemma orderly_validateDeclaredTypeShape [keeping]: "keeps orderly (validateDeclaredTypeShape raw pos ct)"
  unfolding validateDeclaredTypeShape_def Let_def by (intro keeping; simp add: zero_tnode_def)

lemma orderly_all_pairs [keeping]:
  assumes [keeping]: "\<And>a b. keeps orderly (f a b)"
  shows "keeps orderly (all_pairs f as bs)"
  unfolding all_pairs_def Let_def by (intro keeping; simp add: zero_tnode_def)

lemma orderly_andT [keeping]:
  assumes [keeping]: "keeps orderly m" "keeps orderly k"
  shows "keeps orderly (andT m k)"
  unfolding andT_def Let_def by (intro keeping; simp add: zero_tnode_def)

lemma orderly_matchesRefinementTarget [keeping]: "keeps orderly (matchesRefinementTarget n a b)"
proof (induction n arbitrary: a b)
  case (Suc n)
  note [keeping] = Suc.IH
  show ?case unfolding matchesRefinementTarget.simps Let_def by (intro keeping; simp add: zero_tnode_def)
qed (simp add: keeping)

lemma orderly_filterT [keeping]:
  assumes [keeping]: "\<And>x. keeps orderly (f x)"
  shows "keeps orderly (filterT f xs)"
  unfolding filterT_def Let_def by (intro keeping; simp add: zero_tnode_def)

lemma orderly_union_or_nil [keeping]: "keeps orderly (union_or_nil n opts)"
  unfolding union_or_nil_def Let_def by (intro keeping; simp add: zero_tnode_def)

lemma orderly_intersectType [keeping]: "keeps orderly (intersectType n a b)"
  unfolding intersectType_def Let_def by (intro keeping; simp add: zero_tnode_def)

lemma orderly_excludeType [keeping]: "keeps orderly (excludeType n a b)"
  unfolding excludeType_def Let_def by (intro keeping; simp add: zero_tnode_def)

lemma orderly_normalizedDeclaredReturnType [keeping]: "keeps orderly (normalizedDeclaredReturnType n t)"
  unfolding normalizedDeclaredReturnType_def Let_def by (intro keeping; simp add: zero_tnode_def)

lemma orderly_compatible_shapes [keeping]:
  assumes [keeping]: "\<And>a b. keeps orderly (ok a b)"
  shows "keeps orderly (compatible_shapes n ok g e)"
  unfolding compatible_shapes_def Let_def by (intro keeping; simp add: zero_tnode_def)

lemma orderly_compatible [keeping]: "keeps orderly (compatible strict n a b)"
proof (induction n arbitrary: strict a b)
  case (Suc n)
  note [keeping] = Suc.IH
  show ?case unfolding compatible.simps Let_def by (intro keeping; simp add: zero_tnode_def)
qed (simp add: keeping)

lemma orderly_isCompatible [keeping]: "keeps orderly (isCompatible n a b)"
  unfolding isCompatible_def Let_def by (intro keeping; simp add: zero_tnode_def)

lemma orderly_isDeclaredCompatible [keeping]: "keeps orderly (isDeclaredCompatible n a b)"
  unfolding isDeclaredCompatible_def Let_def by (intro keeping; simp add: zero_tnode_def)

lemma orderly_operands_ok [keeping]: "keeps orderly (operands_ok rule n l r)"
proof (induction n arbitrary: rule l r)
  case (Suc n)
  note [keeping] = Suc.IH
  show ?case unfolding operands_ok.simps Let_def by (intro keeping; simp add: zero_tnode_def)
qed (simp add: keeping)

lemma orderly_isPlusCompatible [keeping]: "keeps orderly (isPlusCompatible n a b)"
  unfolding isPlusCompatible_def Let_def by (intro keeping; simp add: zero_tnode_def)

lemma orderly_isMulCompatible [keeping]: "keeps orderly (isMulCompatible n a b)"
  unfolding isMulCompatible_def Let_def by (intro keeping; simp add: zero_tnode_def)

lemma orderly_isBitwiseCompatible [keeping]: "keeps orderly (isBitwiseCompatible n a b)"
  unfolding isBitwiseCompatible_def Let_def by (intro keeping; simp add: zero_tnode_def)

lemma tfind_root:
  assumes "forest c" "tfind t c = TOk (Some r) d"
  shows "reaches c r r" "compressed c d"
proof -
  show "compressed c d" using tfind_frame(3) assms by blast
  obtain p where p: "t = Some p" using assms(2) by (cases t) auto
  then obtain k where "find_at k p c = TOk r d"
    using assms(2) by (auto simp: tfind_def bindT_def getT_def retT_def split: tresult.splits)
  then obtain s where s: "reaches c p s" using find_at_frame [of k p c r d] assms(1) by (auto simp: forest_iff)
  then have "s = r" using tfind_ok [OF s] p assms(2) by auto
  then show "reaches c r r" using s reaches_root' by blast
qed

lemma orderly_bindUnknown [keeping]: "keeps orderly (bindUnknown a b)"
  unfolding keeps_def
proof (intro allI impI)
  fix c ok e assume run: "bindUnknown a b c = TOk ok e"
  then obtain r d s d' where f: "tfind a c = TOk r d" "tfind b d = TOk s d'"
    by (auto simp: bindUnknown_def bindT_def split: tresult.splits)
  have cd: "orderly c d'"
    using keepsD [OF orderly_tfind f(1)] keepsD [OF orderly_tfind f(2)] order.kept_trans by blast
  consider "e = d'" | p where "r = Some p" "r \<noteq> s" "p < length (nodes d')" "e = d'\<lparr>nodes := (nodes d')[p := (nodes d' ! p)\<lparr>t_parent := s\<rparr>]\<rparr>"
    using run f by (auto simp: bindUnknown_def bindT_def update_node_def node_of_def modT_def retT_def split: option.splits if_splits)
  then show "orderly c e"
  proof cases
    case 2
    have "forest e" if "forest c"
    proof -
      have c: "compressed c d" "reaches c p p" using tfind_root [of c a p d] f(1) 2 that by blast+
      then have d: "forest d" "compressed d d'" using that compressed_forest tfind_frame(3) [OF f(2)] by blast+
      then have root: "reaches d' p p" using c by (simp add: compressed_reaches)
      have d': "forest d'" using d compressed_forest by blast
      show ?thesis
      proof (cases s)
        case None
        then show ?thesis using d' reaches_range [OF root] 2 by (intro forest_added [OF d']) (auto simp: nth_list_update)
      next
        case (Some q)
        then have "reaches d q q" using tfind_root(1) [of d b q d'] d f(2) by blast
        then have "reaches d' q q" using d by (simp add: compressed_reaches)
        then have "reaches e x y \<longleftrightarrow> (\<exists>z. reaches d' x z \<and> y = (if z = p then q else z))" for x y
          using merge_reaches [of d' p q x y] root 2 Some by (simp add: set_parent_def)
        then show ?thesis using d' 2 by (fastforce simp: forest_iff)
      qed
    qed
    then show ?thesis using cd 2 by (simp add: orderly_def moves_def heights_def)
  qed (use cd in simp)
qed


lemma orderly_unify [keeping]: "keeps orderly (unify n a b)"
proof (induction n arbitrary: a b)
  case (Suc n)
  note [keeping] = Suc.IH
  show ?case unfolding unify.simps Let_def by (intro keeping)
qed (simp add: keeping)

lemma orderly_renderConstraintMismatch [keeping]: "keeps orderly (renderConstraintMismatch n cs)"
  unfolding renderConstraintMismatch_def Let_def by (intro keeping)

lemma orderly_describe_both [keeping]: "keeps orderly (describe_both n msg ck)"
  unfolding describe_both_def Let_def by (intro keeping)

lemma orderly_check_pair [keeping]:
  assumes [keeping]: "\<And>a b. keeps orderly (ok a b)" "\<And>ck. keeps orderly (msg ck)"
  shows "keeps orderly (check_pair ok msg ck)"
  unfolding check_pair_def Let_def by (intro keeping)

lemma orderly_solve_constraint [keeping]: "keeps orderly (solve_constraint n cs)"
  unfolding solve_constraint_def Let_def by (intro keeping)

lemma orderly_check_call [keeping]: "keeps orderly (check_call n ck)"
  unfolding check_call_def Let_def by (intro keeping)

lemma orderly_check_return [keeping]: "keeps orderly (check_return n ck)"
  unfolding check_return_def Let_def by (intro keeping)

lemma orderly_check_plus [keeping]: "keeps orderly (check_plus n ck)"
  unfolding check_plus_def Let_def by (intro keeping)

lemma orderly_check_mul [keeping]: "keeps orderly (check_mul n ck)"
  unfolding check_mul_def Let_def by (intro keeping)

lemma orderly_check_bitwise [keeping]: "keeps orderly (check_bitwise n ck)"
  unfolding check_bitwise_def Let_def by (intro keeping)

lemma orderly_solveConstraints [keeping]: "keeps orderly (solveConstraints n)"
  unfolding solveConstraints_def Let_def by (intro keeping)

section \<open>Scopes and guards\<close>

lemma orderly_setOverride [keeping]: "keeps orderly (setOverride nm t)"
  unfolding setOverride_def Let_def by (intro keeping orderly_change; simp add: heights_def ready_def update_top_def split: list.split)

lemma orderly_bindDeclared [keeping]: "keeps orderly (bindDeclared nm t)"
  unfolding bindDeclared_def Let_def by (intro keeping orderly_change; simp add: heights_def ready_def update_top_def split: list.split)

lemma orderly_put_binding [keeping]: "keeps orderly (put_binding nm t)"
  unfolding put_binding_def Let_def by (intro keeping orderly_change; simp add: heights_def ready_def update_top_def split: list.split)

lemma orderly_bind_type [keeping]: "keeps orderly (bind_type nm t)"
  unfolding bind_type_def Let_def by (intro keeping orderly_change; simp add: heights_def ready_def push_scope_def)

lemma orderly_snapshotCurrentOverride [keeping]: "keeps orderly snapshotCurrentOverride"
  unfolding snapshotCurrentOverride_def Let_def by (intro keeping)

lemma orderly_clone_binding [keeping]: "keeps orderly (clone_binding n nt)"
  unfolding clone_binding_def Let_def by (intro keeping)


lemma orderly_parseIntLiteral [keeping]: "keeps orderly (parseIntLiteral e)"
  unfolding parseIntLiteral_def Let_def by (auto intro!: keeping split: expr.split)

lemma orderly_parseLenComparison [keeping]: "keeps orderly (parseLenComparison l r op)"
  unfolding parseLenComparison_def Let_def by (intro keeping)

lemma orderly_currentRefinementBase [keeping]: "keeps orderly (currentRefinementBase nm out)"
  unfolding currentRefinementBase_def Let_def by (auto intro!: keeping split: option.split)

lemma orderly_refined [keeping]:
  assumes [keeping]: "\<And>a b. keeps orderly (narrow a b)"
  shows "keeps orderly (refined n narrow nm t out)"
  unfolding refined_def Let_def by (intro keeping)

lemma orderly_refineBinding [keeping]: "keeps orderly (refineBinding n nm t out)"
  unfolding refineBinding_def Let_def by (intro keeping)

lemma orderly_refineBindingExclude [keeping]: "keeps orderly (refineBindingExclude n nm t out)"
  unfolding refineBindingExclude_def Let_def by (intro keeping)

lemma orderly_refine_kind [keeping]: "keeps orderly (refine_kind n eq neq nm k out)"
  unfolding refine_kind_def Let_def by (intro keeping)

lemma orderly_collectComparisonRefinement [keeping]: "keeps orderly (collectComparisonRefinement n l r op w out)"
  unfolding collectComparisonRefinement_def Let_def by (auto intro!: keeping split: option.split bool.split)

lemma orderly_any_list [keeping]: "keeps orderly any_list"
  unfolding any_list_def Let_def by (intro keeping)

lemma orderly_any_map [keeping]: "keeps orderly any_map"
  unfolding any_map_def Let_def by (intro keeping)

lemma orderly_predicate_target: "predicate_target f = Some mk \<Longrightarrow> keeps orderly mk"
  by (auto simp: predicate_target_def intro!: keeping split: if_splits)

lemma orderly_collectPredicateCallRefinement [keeping]: "keeps orderly (collectPredicateCallRefinement n f args w out)"
  unfolding collectPredicateCallRefinement_def Let_def by (auto intro!: keeping orderly_predicate_target split: expr.split list.split option.split)

lemma orderly_collectLenRefinement [keeping]: "keeps orderly (collectLenRefinement n l r op w out)"
  unfolding collectLenRefinement_def Let_def by (intro keeping)

lemma orderly_intersectRefinements [keeping]: "keeps orderly (intersectRefinements n a b)"
  unfolding intersectRefinements_def Let_def by (intro keeping)

lemma orderly_collectGuardRefinementsInto [keeping]: "keeps orderly (collectGuardRefinementsInto n e w out)"
proof (induction n arbitrary: e w out)
  case (Suc n)
  note [keeping] = Suc.IH
  show ?case unfolding collectGuardRefinementsInto.simps Let_def by (auto intro!: keeping split: expr.split)
qed (simp add: keeping)

lemma orderly_collectGuardRefinements [keeping]: "keeps orderly (collectGuardRefinements n e w)"
  unfolding collectGuardRefinements_def Let_def by (intro keeping)

lemma orderly_hasImpossibleRefinement [keeping]: "keeps orderly (hasImpossibleRefinement refs)"
  unfolding hasImpossibleRefinement_def Let_def by (intro keeping)

section \<open>Imports and patterns\<close>

lemma orderly_generic_params [keeping]: "keeps orderly (generic_params names)"
  unfolding generic_params_def Let_def by (intro keeping)

lemma orderly_callable_param [keeping]: "keeps orderly (callable_param n gs p)"
  unfolding callable_param_def Let_def by (intro keeping)

lemma orderly_callableType [keeping]: "keeps orderly (callableType n cb)"
  unfolding callableType_def Let_def by (intro keeping orderly_update_node; simp add: zero_tnode_def)

lemma orderly_bindImportedSymbol [keeping]: "keeps orderly (bindImportedSymbol n nm sy)"
  unfolding bindImportedSymbol_def Let_def by (intro keeping)

lemma orderly_import_entry [keeping]: "keeps orderly (import_entry n ex ms seen e)"
  unfolding import_entry_def Let_def by (intro keeping)

lemma orderly_bindImportedPattern [keeping]: "keeps orderly (bindImportedPattern n path ex pat v)"
  unfolding bindImportedPattern_def Let_def by (auto intro!: keeping split: pattern.split)

lemma orderly_bindPatternDeclared [keeping]: "keeps orderly (bindPatternDeclared n pat d)"
proof (induction n arbitrary: pat d)
  case (Suc n)
  note [keeping] = Suc.IH
  show ?case unfolding bindPatternDeclared.simps Let_def by (auto intro!: keeping split: pattern.split option.split)
qed (simp add: keeping)

lemma orderly_sequenceElementType [keeping]: "keeps orderly (sequenceElementType t)"
  unfolding sequenceElementType_def Let_def by (intro keeping)

lemma orderly_constrainSequenceLike [keeping]: "keeps orderly (constrainSequenceLike n t e pos why)"
  unfolding constrainSequenceLike_def Let_def by (intro keeping)

lemma orderly_open_map [keeping]: "keeps orderly open_map"
  unfolding open_map_def Let_def by (intro keeping)

lemma orderly_bindPattern [keeping]: "keeps orderly (bindPattern n pat t)"
proof (induction n arbitrary: pat t)
  case (Suc n)
  note [keeping] = Suc.IH
  show ?case unfolding bindPattern.simps Let_def by (auto intro!: keeping split: pattern.split option.split)
qed (simp add: keeping)

section \<open>The inference\<close>

text \<open>Pushing and popping scopes.\<close>

definition push_both :: "unit tc" where
  "push_both = thenT pushScope pushOverride"

definition pop_both :: "unit tc" where
  "pop_both = thenT popOverride popScope"

lemma bind_assoc: "bindT (bindT m f) g = bindT m (\<lambda>x. bindT (f x) g)"
  by (rule ext) (simp add: bindT_def split: tresult.split)

lemma push_both: "thenT pushScope (thenT pushOverride m) = thenT push_both m"
  by (simp add: push_both_def bind_assoc)

lemma pop_both: "thenT popOverride (thenT popScope m) = thenT pop_both m"
  by (simp add: pop_both_def bind_assoc)

type_synonym heights = "nat \<times> nat \<times> nat \<times> nat"

declare split_paired_All [simp del]

lemma same_nodes_iff: "nodes d = nodes c \<Longrightarrow> forest d \<longleftrightarrow> forest c"
  using same_nodes by metis

lemma forest_scopes [simp]:
  "forest (c\<lparr>scopes := s\<rparr>) \<longleftrightarrow> forest c" "forest (c\<lparr>declared := d\<rparr>) \<longleftrightarrow> forest c"
  "forest (c\<lparr>overrides := ov\<rparr>) \<longleftrightarrow> forest c" "forest (c\<lparr>generics := g\<rparr>) \<longleftrightarrow> forest c"
  by (rule same_nodes_iff, simp)+

definition filled :: "heights \<Rightarrow> bool" where
  "filled h \<longleftrightarrow> (case h of (s, d, o', g) \<Rightarrow> 0 < s \<and> 0 < d \<and> 0 < o')"

lemma ready_filled: "ready c \<longleftrightarrow> filled (heights c)"
  by (simp add: ready_heights filled_def)

definition both_higher :: "heights \<Rightarrow> heights" where
  "both_higher = (\<lambda>(s, d, o', g). (Suc s, Suc d, Suc o', g))"

definition override_higher :: "heights \<Rightarrow> heights" where
  "override_higher = (\<lambda>(s, d, o', g). (s, d, Suc o', g))"

definition generic_higher :: "heights \<Rightarrow> heights" where
  "generic_higher = (\<lambda>(s, d, o', g). (s, d, o', Suc g))"

definition lowering :: "(heights \<Rightarrow> heights) \<Rightarrow> typeChecker \<Rightarrow> typeChecker \<Rightarrow> bool" where
  \<comment> \<open>undo a change of the heights\<close>
  "lowering up c d \<longleftrightarrow>
     (forest c \<longrightarrow> forest d) \<and> (\<forall>h. filled h \<and> heights c = up h \<longrightarrow> heights d = h) \<and>
     length (nodes c) \<le> length (nodes d) \<and> prefix (diags c) (diags d)"

lemma higher_filled: "up \<in> {both_higher, override_higher, generic_higher} \<Longrightarrow> filled h \<Longrightarrow> filled (up h)"
  by (cases h) (auto simp: filled_def both_higher_def override_higher_def generic_higher_def)

lemma nested:
  "keeps (moves up) m \<Longrightarrow> (\<And>a. keeps (lowering up) (f a)) \<Longrightarrow> keeps orderly (bindT m f)"
  unfolding keeps_def
proof (intro allI impI)
  fix c b e assume m: "\<forall>c a d. m c = TOk a d \<longrightarrow> moves up c d" "\<And>a. \<forall>c b d. f a c = TOk b d \<longrightarrow> lowering up c d"
    and "bindT m f c = TOk b e"
  then obtain a d where "m c = TOk a d" "f a d = TOk b e" by (auto simp: bindT_def split: tresult.splits)
  then have "moves up c d" "lowering up d e" using m by blast+
  then show "orderly c e" unfolding orderly_def moves_def lowering_def ready_filled by (auto intro: prefix_order.trans)
qed

lemma inside:
  assumes "up \<in> {both_higher, override_higher, generic_higher}"
    and "keeps orderly m" and "\<And>a. keeps (lowering up) (f a)"
  shows "keeps (lowering up) (bindT m f)"
  unfolding keeps_def
proof (intro allI impI)
  fix c b e assume "bindT m f c = TOk b e"
  then obtain a d where r: "m c = TOk a d" "f a d = TOk b e" by (auto simp: bindT_def split: tresult.splits)
  have md: "moves id c d" "lowering up d e" using keepsD [OF assms(2) r(1)] keepsD [OF assms(3) r(2)] by (simp_all add: orderly_def)
  have "heights e = h" if "filled h" "heights c = up h" for h
    using md that higher_filled [OF assms(1) that(1)] by (simp add: moves_def lowering_def ready_filled)
  then show "lowering up c e" using md unfolding moves_def lowering_def by (auto intro: prefix_order.trans)
qed

lemma after:
  assumes "keeps (lowering up) m" and "\<And>a. keeps orderly (f a)"
  shows "keeps (lowering up) (bindT m f)"
  unfolding keeps_def
proof (intro allI impI)
  fix c b e assume "bindT m f c = TOk b e"
  then obtain a d where r: "m c = TOk a d" "f a d = TOk b e" by (auto simp: bindT_def split: tresult.splits)
  have md: "lowering up c d" "moves id d e" using keepsD [OF assms(1) r(1)] keepsD [OF assms(2) r(2)] by (simp_all add: orderly_def)
  then show "lowering up c e" unfolding moves_def lowering_def ready_filled by (auto intro: prefix_order.trans)
qed

lemmas inside_both = inside [of both_higher, simplified]
lemmas inside_override = inside [of override_higher, simplified]
lemmas inside_generic = inside [of generic_higher, simplified]

lemma lowering_modT:
  assumes "\<And>c. nodes (f c) = nodes c \<and> diags (f c) = diags c \<and> (\<forall>h. filled h \<and> heights c = up h \<longrightarrow> heights (f c) = h)"
  shows "keeps (lowering up) (modT f)"
proof -
  have "lowering up c (f c)" for c
    using assms [of c] same_nodes_iff [of "f c" c] by (simp add: lowering_def)
  then show ?thesis by (simp add: keeps_def modT_def)
qed

lemma push_both_higher: "keeps (moves both_higher) push_both"
  by (auto simp: keeps_def push_both_def pushScope_def pushOverride_def bindT_def modT_def moves_def heights_def both_higher_def
      push_scope_def)

lemma pop_both_lower: "keeps (lowering both_higher) pop_both"
  by (auto simp: keeps_def pop_both_def popScope_def popOverride_def bindT_def modT_def lowering_def heights_def both_higher_def)

lemma push_override_higher: "keeps (moves override_higher) pushOverride"
  unfolding pushOverride_def by (rule orderly_modT) (simp add: heights_def override_higher_def)

lemma pop_override_lower: "keeps (lowering override_higher) popOverride"
  unfolding popOverride_def by (rule lowering_modT) (auto simp: heights_def override_higher_def)

lemma push_generic_higher: "keeps (moves generic_higher) (pushGenericScope bs)"
  unfolding pushGenericScope_def by (rule orderly_modT) (simp add: heights_def generic_higher_def)

lemma pop_generic_lower: "keeps (lowering generic_higher) popGenericScope"
  unfolding popGenericScope_def by (rule lowering_modT) (auto simp: heights_def generic_higher_def)

text \<open>An operation between a push and a pop, followed by anything.\<close>

lemma scoped: "(\<And>a. keeps (lowering both_higher) (f a)) \<Longrightarrow> keeps orderly (thenT push_both (f ()))"
  by (rule nested [OF push_both_higher])

lemma popped: "keeps orderly m \<Longrightarrow> keeps (lowering both_higher) (thenT pop_both m)"
  by (rule after [OF pop_both_lower])

definition good_infer :: "infer \<Rightarrow> bool" where
  "good_infer R \<longleftrightarrow> (\<forall>e. keeps orderly (i_expr R e)) \<and> (\<forall>s. keeps orderly (i_stmt R s))"

lemma good_inferD [keeping]: "good_infer R \<Longrightarrow> keeps orderly (i_expr R e)" "good_infer R \<Longrightarrow> keeps orderly (i_stmt R s)"
  by (simp_all add: good_infer_def)

lemma orderly_inferBlockInCurrentScope [keeping]:
  assumes [keeping]: "good_infer R"
  shows "keeps orderly (inferBlockInCurrentScope R b)"
  unfolding inferBlockInCurrentScope_def Let_def by (intro keeping)

lemma orderly_inferBlock [keeping]:
  assumes [keeping]: "good_infer R"
  shows "keeps orderly (inferBlock R b)"
  unfolding inferBlock_def push_both pop_both
  by (intro keeping nested [OF push_both_higher] inside_both popped)

lemma orderly_inferBlockWithRefinementsAndOverrides [keeping]:
  assumes [keeping]: "good_infer R"
  shows "keeps orderly (inferBlockWithRefinementsAndOverrides R b refs)"
  unfolding inferBlockWithRefinementsAndOverrides_def push_both pop_both
  by (intro keeping nested [OF push_both_higher] inside_both popped)


lemma orderly_kind_of [keeping]: "keeps orderly (kind_of t)"
  unfolding kind_of_def Let_def by (intro keeping)

lemma orderly_widened [keeping]: "keeps orderly (widened m a b)"
  unfolding widened_def Let_def by (intro keeping)

lemma orderly_merge_override [keeping]: "keeps orderly (merge_override n a b h nt)"
  unfolding merge_override_def Let_def by (intro keeping)

lemma orderly_mergeIfOverrides [keeping]: "keeps orderly (mergeIfOverrides n o1 a b h)"
  unfolding mergeIfOverrides_def Let_def by (intro keeping)

lemma orderly_declared_param [keeping]:
  assumes [keeping]: "good_infer R"
  shows "keeps orderly (declared_param R pos p)"
  unfolding declared_param_def Let_def by (intro keeping)

lemma orderly_with_generics [keeping]:
  assumes [keeping]: "\<And>order. keeps orderly (f order)"
  shows "keeps orderly (with_generics names f)"
  unfolding with_generics_def
  by (intro keeping nested [OF push_generic_higher] inside_generic after [OF pop_generic_lower])

lemma orderly_validate_return [keeping]: "keeps orderly (validate_return R rt pos)"
  unfolding validate_return_def Let_def by (intro keeping)

lemma orderly_add_return_check [keeping]: "keeps orderly (add_return_check pos a b)"
  unfolding add_return_check_def Let_def by (intro keeping orderly_change; simp add: heights_def)

lemma orderly_inferForeign [keeping]:
  assumes [keeping]: "good_infer R"
  shows "keeps orderly (inferForeign R tok nm tps ps rt sig)"
  unfolding inferForeign_def Let_def by (intro keeping orderly_update_node; simp add: zero_tnode_def)

definition on_error_scope :: "infer \<Rightarrow> Identifier \<Rightarrow> stmt \<Rightarrow> unit tc" where
  "on_error_scope R i call =
     thenT pushScope (thenT pushOverride (bindT (scalar typeAny) (\<lambda>t.
       thenT (bind_type (id_Value i) t) (thenT (i_stmt R call) (thenT popOverride popScope)))))"

lemma orderly_on_error_scope [keeping]:
  assumes [keeping]: "good_infer R"
  shows "keeps orderly (on_error_scope R i call)"
  unfolding on_error_scope_def push_both pop_both_def [symmetric]
  by (intro keeping nested [OF push_both_higher] inside_both pop_both_lower)

lemma orderly_inferStatement [keeping]:
  assumes [keeping]: "good_infer R"
  shows "keeps orderly (inferStatement R s)"
  unfolding inferStatement_def on_error_scope_def [symmetric]
  by (auto intro!: keeping split: stmt.split DeferMode.split option.split)

lemma orderly_enforceTags [keeping]: "keeps orderly (enforceTags t tags pos)"
  unfolding enforceTags_def Let_def by (intro keeping)

lemma orderly_check_element [keeping]: "keeps orderly (check_element R pos w a b)"
  unfolding check_element_def Let_def by (intro keeping)

lemma orderly_enforceDeclaredLiteralCompatibility [keeping]:
  assumes [keeping]: "good_infer R"
  shows "keeps orderly (enforceDeclaredLiteralCompatibility R e d pos)"
  unfolding enforceDeclaredLiteralCompatibility_def Let_def by (auto intro!: keeping  split: option.split expr.split)

lemma orderly_enforceFunctionReturn [keeping]:
  assumes [keeping]: "good_infer R"
  shows "keeps orderly (enforceFunctionReturnLiteralCompatibility n R ss d)"
proof (induction n arbitrary: ss d)
  case (Suc n)
  note [keeping] = Suc.IH
  show ?case unfolding enforceFunctionReturnLiteralCompatibility.simps by (auto intro!: keeping split: stmt.split)
qed (simp add: keeping)

lemma orderly_widen_param [keeping]: "keeps orderly (widen_param n ov nt)"
  unfolding widen_param_def Let_def by (intro keeping)

lemma orderly_rebind_param [keeping]: "keeps orderly (rebind_param nt)"
  unfolding rebind_param_def Let_def by (intro keeping orderly_change; simp add: heights_def ready_def update_top_def split: list.split)

lemma orderly_inferFunctionIteration [keeping]:
  assumes [keeping]: "good_infer R"
  shows "keeps orderly (inferFunctionIteration R body names params)"
  unfolding inferFunctionIteration_def push_both pop_both Let_def
  by (intro keeping nested [OF push_both_higher] inside_both popped)

lemma orderly_infer_iterations [keeping]:
  assumes [keeping]: "good_infer R"
  shows "keeps orderly (infer_iterations k R body names params ret)"
proof (induction k arbitrary: params ret)
  case (Suc k)
  note [keeping] = Suc.IH
  show ?case unfolding infer_iterations.simps by (intro keeping)
qed (simp add: keeping)

lemma orderly_bind_param [keeping]:
  assumes [keeping]: "good_infer R"
  shows "keeps orderly (bind_param R p)"
  unfolding bind_param_def Let_def by (intro keeping)

lemma orderly_inferFunctionLiteral [keeping]:
  assumes [keeping]: "good_infer R"
  shows "keeps orderly (inferFunctionLiteral R tok tps sig ps rt body)"
  unfolding inferFunctionLiteral_def push_both pop_both Let_def
  by (intro keeping nested [OF push_both_higher] inside_both popped orderly_update_node)
    (simp_all add: zero_tnode_def)

lemma orderly_infer_argument [keeping]:
  assumes [keeping]: "good_infer R"
  shows "keeps orderly (infer_argument R a)"
  unfolding infer_argument_def Let_def by (auto intro!: keeping  split: expr.split)

lemma orderly_check_arity [keeping]: "keeps orderly (check_arity u args pos)"
  unfolding check_arity_def Let_def by (intro keeping)

lemma orderly_relate_argument [keeping]: "keeps orderly (relate_argument uc pos a b)"
  unfolding relate_argument_def Let_def by (intro keeping orderly_change; simp add: heights_def)

lemma orderly_spread_element [keeping]: "keeps orderly (spread_element t)"
  unfolding spread_element_def Let_def by (intro keeping)

lemma orderly_relate_arguments [keeping]: "keeps orderly (relate_arguments uc pos as ps)"
  by (induction uc pos as ps rule: relate_arguments.induct) (auto intro!: keeping)

lemma orderly_inferCall [keeping]:
  assumes [keeping]: "good_infer R"
  shows "keeps orderly (inferCall R tok f args)"
  unfolding inferCall_def Let_def by (intro keeping)


lemma orderly_unionContainerModes [keeping]: "keeps orderly (unionContainerModes t)"
  unfolding unionContainerModes_def Let_def by (intro keeping)

lemma orderly_reassign_scope [keeping]: "keeps orderly (reassign_scope n nm t i)"
  unfolding reassign_scope_def Let_def by (intro keeping orderly_change; simp add: heights_def)

lemma orderly_trackReassignmentType [keeping]: "keeps orderly (trackReassignmentType n target t pos)"
  unfolding trackReassignmentType_def Let_def by (intro keeping)

lemma orderly_infer_extend [keeping]: "keeps orderly (infer_extend n w sd lr c e out1 pos)"
  unfolding infer_extend_def Let_def by (intro keeping)

lemma orderly_both_constrained [keeping]: "keeps orderly (both_constrained l r out1 k pos why res)"
  unfolding both_constrained_def Let_def by (intro keeping)

lemma orderly_inferInfix [keeping]:
  assumes [keeping]: "good_infer R"
  shows "keeps orderly (inferInfix R tok l op r)"
  unfolding inferInfix_def Let_def by (intro keeping orderly_change; simp add: heights_def)

lemma orderly_schema_field [keeping]:
  assumes [keeping]: "good_infer R"
  shows "keeps orderly (schema_field R nm f)"
  unfolding schema_field_def Let_def by (intro keeping)

lemma orderly_registerStructSchema [keeping]:
  assumes [keeping]: "good_infer R"
  shows "keeps orderly (registerStructSchema R pat v)"
  unfolding registerStructSchema_def Let_def by (auto intro!: keeping orderly_change simp: heights_def split: expr.split pattern.split)

lemma orderly_check_annotation [keeping]:
  assumes [keeping]: "good_infer R"
  shows "keeps orderly (check_annotation R kw pat ty v pos t)"
  unfolding check_annotation_def Let_def by (intro keeping)

definition infer_named :: "infer \<Rightarrow> string \<Rightarrow> expr \<Rightarrow> FSig \<Rightarrow> bool \<Rightarrow> tref tc" where
  "infer_named R nm v sig variadic =
     thenT pushOverride (bindT freshUnknown (\<lambda>u. bindT (fnType [] u variadic (sig_Min sig) (sig_Max sig)) (\<lambda>placeholder.
       thenT (setOverride nm placeholder) (bindT (i_expr R v) (\<lambda>t. thenT popOverride (retT t))))))"

lemma orderly_infer_named [keeping]:
  assumes [keeping]: "good_infer R"
  shows "keeps orderly (infer_named R nm v sig variadic)"
  unfolding infer_named_def
  by (intro keeping nested [OF push_override_higher] inside_override after [OF pop_override_lower])

lemma orderly_inferBinding [keeping]:
  assumes [keeping]: "good_infer R"
  shows "keeps orderly (inferBinding R kw tags tok pat ty v)"
  unfolding inferBinding_def Let_def infer_named_def [symmetric]
  by (auto intro!: keeping split: expr.split)

lemma orderly_same_signatures [keeping]: "keeps orderly (same_signatures n e ts)"
  by (induction ts) (auto intro!: keeping)

lemma orderly_inferList [keeping]:
  assumes [keeping]: "good_infer R"
  shows "keeps orderly (inferList R es)"
  unfolding inferList_def Let_def by (intro keeping)

lemma orderly_inferPrefix [keeping]:
  assumes [keeping]: "good_infer R"
  shows "keeps orderly (inferPrefix R tok op e)"
  unfolding inferPrefix_def Let_def by (intro keeping)

lemma orderly_inferIf [keeping]:
  assumes [keeping]: "good_infer R"
  shows "keeps orderly (inferIf R tok c th el)"
  unfolding inferIf_def Let_def by (intro keeping)

lemma orderly_inferTypeApplication [keeping]:
  assumes [keeping]: "good_infer R"
  shows "keeps orderly (inferTypeApplication R tok f args)"
  unfolding inferTypeApplication_def Let_def by (intro keeping)

lemma orderly_inferStructInit [keeping]:
  assumes [keeping]: "good_infer R"
  shows "keeps orderly (inferStructInit R tok e fs)"
  unfolding inferStructInit_def Let_def by (intro keeping)

lemma orderly_narrowPattern [keeping]:
  assumes [keeping]: "good_infer R"
  shows "keeps orderly (narrowPattern n R pat t pos)"
proof (induction n arbitrary: pat t)
  case (Suc n)
  note [keeping] = Suc.IH
  show ?case unfolding narrowPattern.simps Let_def by (auto intro!: keeping split: pattern.split list.split option.split)
qed (simp add: keeping)

text \<open>A case of a match runs in a copy of the visible bindings.\<close>

lemma before:
  assumes "keeps orderly m" and "\<And>a. keeps (moves up) (f a)"
  shows "keeps (moves up) (bindT m f)"
  unfolding keeps_def
proof (intro allI impI)
  fix c b e assume "bindT m f c = TOk b e"
  then obtain a d where r: "m c = TOk a d" "f a d = TOk b e" by (auto simp: bindT_def split: tresult.splits)
  have "moves id c d" "moves up d e" using keepsD [OF assms(1) r(1)] keepsD [OF assms(2) r(2)] by (simp_all add: orderly_def)
  then show "moves up c e" unfolding moves_def ready_filled by (auto intro: prefix_order.trans)
qed

lemma heights_isolated: "keeps (moves both_higher) (pushIsolatedScopeFromVisible n)"
  unfolding pushIsolatedScopeFromVisible_def
  by (intro before keeping orderly_modT) (simp add: heights_def both_higher_def)


lemma orderly_inferCase [keeping]:
  assumes [keeping]: "good_infer R"
  shows "keeps orderly (inferCase R scrutinee cs)"
  unfolding inferCase_def push_both pop_both Let_def
  by (intro keeping nested [OF heights_isolated] inside_both popped)

lemma orderly_inferMatch [keeping]:
  assumes [keeping]: "good_infer R"
  shows "keeps orderly (inferMatch R v cs)"
  unfolding inferMatch_def Let_def by (intro keeping)

lemma orderly_infer_present [keeping]:
  assumes [keeping]: "good_infer R" "\<And>t. keeps orderly (f t)"
  shows "keeps orderly (infer_present R e f)"
  unfolding infer_present_def Let_def by (intro keeping)

lemma orderly_inferSelect [keeping]:
  assumes [keeping]: "good_infer R"
  shows "keeps orderly (inferSelect R cs)"
  unfolding inferSelect_def Let_def by (intro keeping)

lemma orderly_inferIndex [keeping]:
  assumes [keeping]: "good_infer R"
  shows "keeps orderly (inferIndex R tok e i)"
  unfolding inferIndex_def Let_def by (intro keeping)

lemma orderly_inferIdentifier [keeping]: "keeps orderly (inferIdentifier nm)"
  unfolding inferIdentifier_def Let_def by (intro keeping)

lemma orderly_inferExpr [keeping]:
  assumes [keeping]: "good_infer R"
  shows "keeps orderly (inferExpr R e)"
  unfolding inferExpr_def by (cases e) (auto intro!: keeping)

lemma good_infer_at: "good_infer (infer_at path exports n)"
proof (induction n)
  case (Suc n)
  then show ?case by (simp add: Let_def good_infer_def orderly_inferExpr orderly_inferStatement)
qed (simp add: good_infer_def keeping)

lemma orderly_predeclare [keeping]: "keeps orderly (predeclare sig nm)"
  unfolding predeclare_def Let_def by (intro keeping orderly_update_node; simp add: zero_tnode_def)

lemma orderly_predeclare_statement [keeping]: "keeps orderly (predeclare_statement s)"
  unfolding predeclare_statement_def Let_def by (auto intro!: keeping  split: stmt.split expr.split)

lemma orderly_predeclareTopLevelCallables [keeping]: "keeps orderly (predeclareTopLevelCallables ss)"
  unfolding predeclareTopLevelCallables_def Let_def by (intro keeping)

lemma orderly_checkProgram [keeping]:
  assumes [keeping]: "good_infer R"
  shows "keeps orderly (checkProgram R ss)"
  unfolding checkProgram_def Let_def by (intro keeping)

section \<open>The properties\<close>

text \<open>C11: Whatever the inference of an expression or of a statement does, and however it recurses,
  if it returns then the parents of the nodes form no cycle after it if they formed none before,
  the stacks of scopes, declared types, overrides and type parameters have their heights back, the
  store has not become shorter, and the diagnostics so far are still the first ones.\<close>

theorem inference_keeps_order:
  assumes "i_expr (infer_at path exports n) e c = TOk t d \<or> i_stmt (infer_at path exports n) s c = TOk t d"
    and "forest c" and "ready c"
  shows "forest d \<and> ready d \<and> heights d = heights c \<and> length (nodes c) \<le> length (nodes d) \<and> prefix (diags c) (diags d)"
proof -
  note good = good_infer_at [of path exports n]
  have "orderly c d"
    using assms(1) keepsD [OF good_inferD(1) [OF good]] keepsD [OF good_inferD(2) [OF good]] by blast
  then have "moves id c d" by (simp add: orderly_def)
  moreover from this have "ready d" using assms(3) by (simp add: moves_def ready_heights)
  ultimately show ?thesis using assms(2,3) by (simp add: moves_def)
qed

lemma new_checker: "forest newTypeChecker" "ready newTypeChecker"
  by (simp_all add: newTypeChecker_def forest_def ready_def)

definition sample_block :: expr where
  \<comment> \<open>\<open>{ !true }\<close>\<close>
  "sample_block =
     (let t = Token [] [] 0
      in BlockExpr (BlockStatement t [ExpressionStatement t (PrefixExpression t ''!'' (Boolean t True))] False NoExpr))"

lemma sample_run: "\<exists>t d. i_expr (infer_at [] (\<lambda>_. []) 4) sample_block newTypeChecker = TOk t d"
proof -
  have "case i_expr (infer_at [] (\<lambda>_. []) 4) sample_block newTypeChecker of TOk t d \<Rightarrow> True | _ \<Rightarrow> False" by code_simp
  then show ?thesis by (auto split: tresult.splits)
qed

theorem inference_keeps_order_witness:
  "\<exists>t d. i_expr (infer_at [] (\<lambda>_. []) 4) sample_block newTypeChecker = TOk t d \<and> forest d \<and> heights d = (1, 1, 1, 0)"
proof -
  obtain t d where run: "i_expr (infer_at [] (\<lambda>_. []) 4) sample_block newTypeChecker = TOk t d" using sample_run by blast
  from inference_keeps_order [OF disjI1 [OF this] new_checker]
  show ?thesis using run by (auto simp: heights_def newTypeChecker_def)
qed

text \<open>C14: When the check of a program returns, with whatever constraints it has solved, it is in the
  outermost scope again: the stacks of scopes, declared types, overrides and type parameters are
  as high as those of a new checker. And \<open>find\<close> gives a representative for every node that the
  check has made, as the parents form no cycle.\<close>

theorem program_check_keeps_order:
  assumes "checkProgram (infer_at path exports n) ss newTypeChecker = TOk u d"
  shows "length (scopes d) = 1 \<and> length (declared d) = 1 \<and> length (overrides d) = 1 \<and> generics d = [] \<and>
    (\<forall>p<length (nodes d). \<exists>r e. tfind (Some p) d = TOk (Some r) e \<and> compressed d e)"
proof -
  have "orderly newTypeChecker d"
    using keepsD [OF orderly_checkProgram [OF good_infer_at] assms(1)] .
  then have "forest d" "heights d = heights newTypeChecker" using new_checker by (simp_all add: orderly_def moves_def)
  then show ?thesis using tfind_ok by (fastforce simp: forest_iff heights_def newTypeChecker_def)
qed

definition sample_statements :: "stmt list" where
  "sample_statements = [ExpressionStatement (Token [] [] 0) sample_block]"

lemma sample_program_run:
  "\<exists>d. checkProgram (infer_at [] (\<lambda>_. []) 5) sample_statements newTypeChecker = TOk () d \<and> 2 < length (nodes d)"
proof -
  have "case checkProgram (infer_at [] (\<lambda>_. []) 5) sample_statements newTypeChecker of
      TOk u d \<Rightarrow> 2 < length (nodes d) | _ \<Rightarrow> False" by code_simp
  then show ?thesis by (auto split: tresult.splits)
qed

theorem program_check_keeps_order_witness:
  "\<exists>d. checkProgram (infer_at [] (\<lambda>_. []) 5) sample_statements newTypeChecker = TOk () d \<and>
     length (scopes d) = 1 \<and> (\<exists>r e. tfind (Some 2) d = TOk (Some r) e)"
  using sample_program_run program_check_keeps_order [of "[]" "\<lambda>_. []" 5 sample_statements "()"] by blast

end
