(* ===== verification/Type_Unions.thy ===== *)
theory Type_Unions
  imports Type_Frame
begin

text \<open>
  The union types that the type checker builds: how many options they have, and of which kinds.
\<close>

section \<open>Nodes that stay\<close>

definition extends :: "typeChecker \<Rightarrow> typeChecker \<Rightarrow> bool" where
  \<comment> \<open>old nodes differ in the parents of nodes that had one only\<close>
  "extends c d \<longleftrightarrow>
     length (nodes c) \<le> length (nodes d) \<and>
     (\<forall>p<length (nodes c). same_node (nodes d ! p) (nodes c ! p) \<and>
        (t_parent (nodes d ! p) = None \<longleftrightarrow> t_parent (nodes c ! p) = None))"

interpretation growth: frame extends
  by unfold_locales (auto simp: extends_def same_node_def)

lemma same_nodes_extend: "nodes d = nodes c \<Longrightarrow> extends c d"
  by (simp add: extends_def same_node_def)

lemma extends_modT: "(\<And>c. nodes (f c) = nodes c) \<Longrightarrow> keeps extends (modT f)"
  by (auto simp: keeps_def modT_def intro: same_nodes_extend)

lemma extends_new_node [keeping]: "keeps extends (new_node u)"
  by (auto simp: keeps_def new_node_def extends_def nth_append same_node_def)

lemma find_at_extends: "find_at k p c = TOk r d \<Longrightarrow> extends c d \<and> r < length (nodes d) \<and> t_parent (nodes d ! r) = None"
proof (induction k arbitrary: p r c d)
  case (Suc k)
  have p: "p < length (nodes c)" using find_at_frame [OF Suc.prems] by simp
  show ?case
  proof (cases "t_parent (nodes c ! p)")
    case None
    then show ?thesis using Suc.prems p by (auto simp: retT_def growth.kept_refl)
  next
    case (Some q)
    then obtain e where e: "find_at k q c = TOk r e" "d = set_parent p r e"
      using Suc.prems p
      by (auto simp: bindT_def update_node_def node_of_def modT_def retT_def set_parent_def split: tresult.splits if_splits)
    have ih: "extends c e" "r < length (nodes e)" "t_parent (nodes e ! r) = None" using Suc.IH [OF e(1)] by blast+
    have pe: "p < length (nodes e)" "t_parent (nodes e ! p) \<noteq> None" using ih(1) p Some by (auto simp: extends_def)
    then have "extends e d" using e(2) by (auto simp: extends_def nth_set_parent same_node_def)
    moreover have "nodes d ! r = nodes e ! r" using pe ih e(2) by (auto simp: nth_set_parent)
    ultimately show ?thesis using ih growth.kept_trans e(2) by auto
  qed
qed (simp add: deepT_def)

lemma tfind_extends: "tfind t c = TOk r d \<Longrightarrow>
  extends c d \<and> (case r of None \<Rightarrow> True | Some p \<Rightarrow> p < length (nodes d) \<and> t_parent (nodes d ! p) = None)"
  by (cases t) (auto simp: tfind_def bindT_def getT_def retT_def growth.kept_refl dest!: find_at_extends split: tresult.splits)

lemma extends_tfind [keeping]: "keeps extends (tfind t)"
  using tfind_extends by (fastforce simp: keeps_def)

lemma extends_found [keeping]: "(\<And>r u. keeps extends (f r u)) \<Longrightarrow> keeps extends (found t f)"
  unfolding found_def by (intro keeping)

lemma extends_freshUnknown [keeping]: "keeps extends freshUnknown"
  unfolding freshUnknown_def by (intro keeping extends_modT; simp)

lemma extends_makers [keeping]:
  "keeps extends (scalar k)" "keeps extends (or_fresh t)" "keeps extends (listType t)" "keeps extends (mapType t t')"
  unfolding scalar_def or_fresh_def listType_def mapType_def by (intro keeping)+

lemma extends_texts [keeping]: "keeps extends (typeSig n t)" "keeps extends (describe n t)"
proof -
  have "keeps extends (typeSig n t) \<and> keeps extends (describe n t)" for n t
  proof (induction n arbitrary: t)
    case (Suc n)
    then have ih [keeping]: "keeps extends (typeSig n t)" "keeps extends (describe n t)" for t by blast+
    show ?case unfolding typeSig.simps describe.simps by (intro conjI keeping ih)
  qed (simp add: keeping)
  then show "keeps extends (typeSig n t)" "keeps extends (describe n t)" by blast+
qed

section \<open>Options\<close>

definition option_ok :: "typeChecker \<Rightarrow> tref \<Rightarrow> bool" where
  "option_ok c t \<longleftrightarrow>
     (case t of None \<Rightarrow> False | Some p \<Rightarrow>
        p < length (nodes c) \<and> t_parent (nodes c ! p) = None \<and> t_kind (nodes c ! p) \<notin> {typeAny, typeNever, typeUnion})"

definition any_node :: "typeChecker \<Rightarrow> tref \<Rightarrow> bool" where
  "any_node c t \<longleftrightarrow>
     (case t of None \<Rightarrow> False | Some p \<Rightarrow>
        p < length (nodes c) \<and> t_parent (nodes c ! p) = None \<and> t_kind (nodes c ! p) = typeAny)"

definition options_ok :: "tref list \<Rightarrow> typeChecker \<Rightarrow> bool" where
  "options_ok ts c \<longleftrightarrow> (\<forall>t\<in>set ts. option_ok c t)"

lemma options_Nil [simp]: "options_ok [] c"
  by (simp add: options_ok_def)

definition flat_ok :: "tref list \<Rightarrow> typeChecker \<Rightarrow> bool" where
  "flat_ok ts c \<longleftrightarrow> options_ok ts c \<or> (\<exists>t. ts = [t] \<and> any_node c t)"

lemma extends_root:
  "extends c d \<Longrightarrow> p < length (nodes c) \<Longrightarrow> t_parent (nodes c ! p) = None \<Longrightarrow> p < length (nodes d) \<and> nodes d ! p = nodes c ! p"
  unfolding extends_def same_node_def by (cases "nodes c ! p"; cases "nodes d ! p") fastforce

lemma option_ok_extends: "extends c d \<Longrightarrow> option_ok c t \<Longrightarrow> option_ok d t"
  using extends_root by (fastforce simp: option_ok_def split: option.splits)

lemma any_node_extends: "extends c d \<Longrightarrow> any_node c t \<Longrightarrow> any_node d t"
  using extends_root by (fastforce simp: any_node_def split: option.splits)

definition persists :: "(typeChecker \<Rightarrow> bool) \<Rightarrow> bool" where
  "persists P \<longleftrightarrow> (\<forall>c d. P c \<longrightarrow> extends c d \<longrightarrow> P d)"

lemma persists_options [simp]: "persists (options_ok ts)"
  using option_ok_extends by (auto simp: persists_def options_ok_def)

definition ends_in :: "(typeChecker \<Rightarrow> bool) \<Rightarrow> 'a tc \<Rightarrow> ('a \<Rightarrow> typeChecker \<Rightarrow> bool) \<Rightarrow> bool" where
  \<comment> \<open>if it returns, the result has the property then\<close>
  "ends_in P m Q \<longleftrightarrow> (\<forall>c a d. P c \<longrightarrow> m c = TOk a d \<longrightarrow> Q a d)"

lemma ends_in_bind: "ends_in P m Q \<Longrightarrow> (\<And>a. ends_in (Q a) (f a) Q') \<Longrightarrow> ends_in P (bindT m f) Q'"
  unfolding ends_in_def bindT_def by (fastforce split: tresult.splits)

lemma ends_in_keep: "persists P \<Longrightarrow> keeps extends m \<Longrightarrow> ends_in P m (\<lambda>_. P)"
  unfolding ends_in_def persists_def keeps_def by blast

lemma ends_in_ret: "(\<And>c. P c \<Longrightarrow> Q a c) \<Longrightarrow> ends_in P (retT a) Q"
  by (simp add: ends_in_def retT_def)

lemma ends_in_if: "(b \<Longrightarrow> ends_in P m Q) \<Longrightarrow> (\<not> b \<Longrightarrow> ends_in P n Q) \<Longrightarrow> ends_in P (if b then m else n) Q"
  by simp

lemma ends_in_weaken: "ends_in P m Q \<Longrightarrow> (\<And>c. P' c \<Longrightarrow> P c) \<Longrightarrow> (\<And>a c. Q a c \<Longrightarrow> Q' a c) \<Longrightarrow> ends_in P' m Q'"
  unfolding ends_in_def by blast

lemma ends_in_found:
  assumes "persists P" and "ends_in P (f None None) Q"
    and "\<And>p u. ends_in (\<lambda>c. P c \<and> p < length (nodes c) \<and> nodes c ! p = u \<and> t_parent u = None) (f (Some p) (Some u)) Q"
  shows "ends_in P (found t f) Q"
  unfolding ends_in_def
proof (intro allI impI)
  fix c a e assume "P c" and run: "found t f c = TOk a e"
  obtain r d where d: "tfind t c = TOk r d" using run by (auto simp: found_def bindT_def split: tresult.splits)
  have "P d" using assms(1) \<open>P c\<close> tfind_extends [OF d] by (auto simp: persists_def)
  show "Q a e"
  proof (cases r)
    case None
    then show ?thesis using run d assms(2) \<open>P d\<close> by (simp add: found_def ends_in_def)
  next
    case (Some p)
    then have "p < length (nodes d)" "t_parent (nodes d ! p) = None" using tfind_extends [OF d] by simp_all
    then show ?thesis using run d assms(3) [of p "nodes d ! p"] \<open>P d\<close> Some by (simp add: found_def ends_in_def)
  qed
qed


definition node_is :: "nat \<Rightarrow> tnode \<Rightarrow> typeChecker \<Rightarrow> bool" where
  \<comment> \<open>a node without a parent\<close>
  "node_is p u c \<longleftrightarrow> p < length (nodes c) \<and> nodes c ! p = u \<and> t_parent u = None"

lemma persists_node [simp]: "persists (node_is p u)"
  using extends_root by (auto simp: persists_def node_is_def)

lemma persists_and [simp]: "persists P \<Longrightarrow> persists Q \<Longrightarrow> persists (\<lambda>c. P c \<and> Q c)"
  by (auto simp: persists_def)

lemma node_option: "node_is p u c \<Longrightarrow> t_kind u \<notin> {typeAny, typeNever, typeUnion} \<Longrightarrow> option_ok c (Some p)"
  by (auto simp: node_is_def option_ok_def)

lemma node_any: "node_is p u c \<Longrightarrow> t_kind u = typeAny \<Longrightarrow> any_node c (Some p)"
  by (auto simp: node_is_def any_node_def)

lemma ends_in_found_node:
  assumes "persists P" and "ends_in P (f None None) Q" and "\<And>p u. ends_in (\<lambda>c. P c \<and> node_is p u c) (f (Some p) (Some u)) Q"
  shows "ends_in P (found t f) Q"
  using assms by (intro ends_in_found) (auto simp: node_is_def)

lemma ends_in_found_option:
  assumes "\<And>c. P c \<Longrightarrow> option_ok c t"
    and "\<And>p u. t = Some p \<Longrightarrow> t_kind u \<notin> {typeAny, typeNever, typeUnion} \<Longrightarrow>
           ends_in (\<lambda>c. P c \<and> node_is p u c) (f (Some p) (Some u)) Q"
  shows "ends_in P (found t f) Q"
  unfolding ends_in_def
proof (intro allI impI)
  fix c a e assume P: "P c" and run: "found t f c = TOk a e"
  obtain p where p: "t = Some p" "p < length (nodes c)" "t_parent (nodes c ! p) = None"
    "t_kind (nodes c ! p) \<notin> {typeAny, typeNever, typeUnion}"
    using assms(1) [OF P] by (auto simp: option_ok_def split: option.splits)
  obtain k where "length (nodes c) = Suc k" using p(2) by (cases "length (nodes c)") auto
  then have "tfind t c = TOk (Some p) c" using p by (simp add: tfind_def bindT_def getT_def retT_def)
  then have "f (Some p) (Some (nodes c ! p)) c = TOk a e" using run p by (simp add: found_def bindT_def)
  then show "Q a e" using assms(2) [OF p(1) p(4)] P p by (auto simp: ends_in_def node_is_def)
qed

lemma new_node_is: "t_parent u = None \<Longrightarrow> ends_in P (new_node u) (\<lambda>t c. \<exists>p. t = Some p \<and> node_is p u c)"
  by (auto simp: ends_in_def new_node_def node_is_def)

lemma scalar_is: "ends_in P (scalar k) (\<lambda>t c. \<exists>p. t = Some p \<and> node_is p (zero_tnode k) c)"
  unfolding scalar_def by (rule new_node_is) (simp add: zero_tnode_def)

lemma list_option: "ends_in P (listType e) (\<lambda>t c. option_ok c t)"
  unfolding listType_def
  by (rule ends_in_bind [where Q = "\<lambda>_ _. True"], simp add: ends_in_def, rule ends_in_weaken [OF new_node_is])
    (auto simp: zero_tnode_def intro: node_option)

lemma map_option': "ends_in P (mapType k v) (\<lambda>t c. option_ok c t)"
  unfolding mapType_def
  by (rule ends_in_bind [where Q = "\<lambda>_ _. True"], simp add: ends_in_def,
      rule ends_in_bind [where Q = "\<lambda>_ _. True"], simp add: ends_in_def, rule ends_in_weaken [OF new_node_is])
    (auto simp: zero_tnode_def intro: node_option)

lemma any_alone_result:
  "ends_in (flat_ok ts) (any_alone ts) (\<lambda>b c. if b then \<exists>t. ts = [t] \<and> any_node c t else options_ok ts c)"
proof (cases "\<exists>t. ts = [t]")
  case True
  then obtain t where t: "ts = [t]" by blast
  have "flat_ok ts c \<Longrightarrow> any_alone ts c = TOk b d \<Longrightarrow> d = c \<and> (if b then any_node c t else options_ok ts c)" for c b d
    using t by (cases t) (auto simp: any_alone_def flat_ok_def options_ok_def option_ok_def any_node_def bindT_def node_of_def
        retT_def split: if_splits)
  then show ?thesis using t by (fastforce simp: ends_in_def)
next
  case False
  then have "any_alone ts c = TOk False c" for c by (auto simp: any_alone_def retT_def split: list.split)
  then show ?thesis using False by (auto simp: ends_in_def flat_ok_def)
qed

lemma options_flat: "options_ok ts c \<Longrightarrow> flat_ok ts c"
  by (simp add: flat_ok_def)

lemma any_flat: "ts = [t] \<Longrightarrow> any_node c t \<Longrightarrow> flat_ok ts c"
  by (simp add: flat_ok_def)

lemma until_any_flat:
  assumes add: "\<And>st t. ends_in (options_ok (fst st)) (add st t) (\<lambda>st. flat_ok (fst st))"
  shows "ends_in (options_ok (fst st)) (until_any add st ts) (\<lambda>st. flat_ok (fst st))"
proof (induction ts arbitrary: st)
  case Nil
  show ?case by (auto intro!: ends_in_ret options_flat)
next
  case (Cons t ts)
  show ?case unfolding until_any.simps
    by (intro ends_in_bind [OF add] ends_in_bind [OF any_alone_result] ends_in_if)
      (use Cons.IH in \<open>auto intro!: ends_in_ret any_flat\<close>)
qed

lemma addOpt_flat: "ends_in (options_ok (fst st)) (addOpt n st t) (\<lambda>st. flat_ok (fst st))"
proof (induction n arbitrary: st t)
  case 0
  show ?case by (simp add: ends_in_def deepT_def)
next
  case (Suc n)
  show ?case unfolding addOpt.simps
  proof (rule ends_in_found_node, simp, simp add: ends_in_ret options_flat, simp only: option.case, intro ends_in_if)
    fix p u
    let ?P = "\<lambda>c. options_ok (fst st) c \<and> node_is p u c"
    show "ends_in ?P (bindT (scalar typeAny) (\<lambda>a. retT ([a], [''any'']))) (\<lambda>st. flat_ok (fst st))"
      by (rule ends_in_bind [OF scalar_is], rule ends_in_ret)
        (auto simp: flat_ok_def zero_tnode_def dest: node_any)
    show "ends_in ?P (retT st) (\<lambda>st. flat_ok (fst st))" by (auto intro: ends_in_ret options_flat)
    show "ends_in ?P (until_any (addOpt n) st (t_options u)) (\<lambda>st. flat_ok (fst st))"
      by (rule ends_in_weaken [OF until_any_flat [OF Suc.IH]]) auto
    assume "t_kind u \<noteq> typeAny" "t_kind u \<noteq> typeNever" "t_kind u \<noteq> typeUnion"
    then show "ends_in ?P (bindT (typeSig n (Some p)) (\<lambda>sig.
        retT (if sig \<in> set (snd st) then st else (fst st @ [Some p], snd st @ [sig])))) (\<lambda>st. flat_ok (fst st))"
      by (intro ends_in_bind [OF ends_in_keep [OF persists_and [OF persists_options persists_node] extends_texts(1)]] ends_in_ret
          options_flat) (auto intro: node_option simp: options_ok_def)
  qed
qed


section \<open>Families and whole unions\<close>

lemma foldT_ends_in:
  "(\<And>s x. x \<in> set xs \<Longrightarrow> ends_in (I s) (f s x) I) \<Longrightarrow> ends_in (I s) (foldT f s xs) I"
proof (induction xs arbitrary: s)
  case (Cons x xs)
  then show ?case by (auto intro!: ends_in_bind [of _ "f s x" I])
qed (simp add: ends_in_ret)

lemma add_family_rest:
  assumes mk: "\<And>ts. keeps extends (mk ts)" and opt: "opt \<in> set opts"
  shows "ends_in (\<lambda>c. options_ok opts c \<and> options_ok (rest st) c) (add_family mk st opt)
           (\<lambda>st c. options_ok opts c \<and> options_ok (rest st) c)"
proof -
  let ?P = "\<lambda>c. options_ok opts c \<and> options_ok (rest st) c"
  have P: "persists ?P" by simp
  note kept = ends_in_bind [OF ends_in_keep [OF persists_and [OF P persists_node]]]
  show ?thesis unfolding add_family_def
  proof (rule ends_in_found_option, use opt in \<open>simp add: options_ok_def\<close>, simp only: option.case, intro ends_in_if)
    fix p and u :: tnode assume kind: "t_kind u \<notin> {typeAny, typeNever, typeUnion}"
    let ?Q = "\<lambda>st c. options_ok opts c \<and> options_ok (rest st) c"
    show "ends_in (\<lambda>c. ?P c \<and> node_is p u c) (bindT (if listElem st = None then retT (t_elem u) else mk [listElem st, t_elem u])
        (\<lambda>e. retT (st\<lparr>hasList := True, listElem := e\<rparr>))) ?Q"
      by (rule kept) (auto intro!: keeping mk ends_in_ret)
    show "ends_in (\<lambda>c. ?P c \<and> node_is p u c) (retT (st\<lparr>hasMap := True, mapKey := t_key u, mapVal := t_val u\<rparr>)) ?Q"
      by (auto intro!: ends_in_ret)
    show "ends_in (\<lambda>c. ?P c \<and> node_is p u c) (bindT (mk [mapKey st, t_key u]) (\<lambda>k. bindT (mk [mapVal st, t_val u]) (\<lambda>v.
        retT (st\<lparr>hasMap := True, mapKey := k, mapVal := v\<rparr>)))) ?Q"
      by (intro kept mk ends_in_ret) auto
    show "ends_in (\<lambda>c. ?P c \<and> node_is p u c) (retT (st\<lparr>rest := rest st @ [Some p]\<rparr>)) ?Q"
      by (rule ends_in_ret) (use kind in \<open>auto simp: options_ok_def intro: node_option\<close>)
  qed
qed

lemma options_append: "options_ok (xs @ ys) c \<longleftrightarrow> options_ok xs c \<and> options_ok ys c"
  by (auto simp: options_ok_def)

lemma mergeUnionFamilies_ok:
  assumes mk: "\<And>ts. keeps extends (mk ts)"
  shows "ends_in (options_ok opts) (mergeUnionFamilies mk opts) options_ok"
proof (cases "length opts < 2")
  case True
  then show ?thesis by (simp add: mergeUnionFamilies_def ends_in_ret)
next
  case False
  let ?start = "\<lparr>listElem = None, mapKey = None, mapVal = None, hasList = False, hasMap = False, rest = []\<rparr>"
  have fold: "ends_in (options_ok opts) (foldT (add_family mk) ?start opts) (\<lambda>st. options_ok (rest st))"
    by (rule ends_in_weaken [OF foldT_ends_in [where I = "\<lambda>st c. options_ok opts c \<and> options_ok (rest st) c"]])
      (auto intro: add_family_rest mk)
  have one: "ends_in (options_ok xs) (if b then bindT m (\<lambda>l. retT [l]) else retT []) (\<lambda>ls c. options_ok (xs @ ls) c)"
    if "ends_in (options_ok xs) m (\<lambda>t c. option_ok c t)" "keeps extends m" for b m xs
  proof (rule ends_in_if)
    have "ends_in (options_ok xs) m (\<lambda>t c. options_ok xs c \<and> option_ok c t)"
      using that(1) ends_in_keep [OF persists_options that(2), of xs] by (auto simp: ends_in_def)
    then show "ends_in (options_ok xs) (bindT m (\<lambda>l. retT [l])) (\<lambda>ls c. options_ok (xs @ ls) c)"
      by (rule ends_in_bind) (auto intro!: ends_in_ret simp: options_ok_def)
  qed (auto intro: ends_in_ret)
  show ?thesis
    using False unfolding mergeUnionFamilies_def
    by (simp, intro ends_in_bind [OF fold] ends_in_bind [OF one] ends_in_ret list_option map_option' keeping) simp
qed

lemma dedup_ok:
  "opt \<in> set opts \<Longrightarrow> ends_in (\<lambda>c. options_ok opts c \<and> options_ok (fst st) c) (dedup_option n st opt)
     (\<lambda>st c. options_ok opts c \<and> options_ok (fst st) c)"
  unfolding dedup_option_def
proof (rule ends_in_found_option, simp add: options_ok_def, simp only: option.case, intro ends_in_if)
  fix p and u :: tnode assume kind: "t_kind u \<notin> {typeAny, typeNever, typeUnion}"
  show "ends_in (\<lambda>c. (options_ok opts c \<and> options_ok (fst st) c) \<and> node_is p u c) (retT st)
      (\<lambda>st c. options_ok opts c \<and> options_ok (fst st) c)"
    by (auto intro: ends_in_ret)
  show "ends_in (\<lambda>c. (options_ok opts c \<and> options_ok (fst st) c) \<and> node_is p u c)
      (bindT (typeSig n (Some p)) (\<lambda>sig. retT (if sig \<in> set (snd st) then st else (fst st @ [Some p], snd st @ [sig]))))
      (\<lambda>st c. options_ok opts c \<and> options_ok (fst st) c)"
    by (intro ends_in_bind [OF ends_in_keep [OF persists_and [OF persists_and [OF persists_options persists_options] persists_node]
          extends_texts(1)]] ends_in_ret)
      (use kind in \<open>auto simp: options_ok_def intro: node_option\<close>)
qed

lemma normalize_flat:
  assumes mk: "\<And>ts. keeps extends (mk ts)"
  shows "ends_in (options_ok opts) (normalizeUnionOptions n mk opts) flat_ok"
proof -
  have any: "keeps extends (anyT is_any opts)" unfolding is_any_def by (intro keeping)
  have dedup: "ends_in (options_ok opts) (foldT (dedup_option n) ([], []) opts) (\<lambda>st. options_ok (fst st))"
    by (rule ends_in_weaken [OF foldT_ends_in [where I = "\<lambda>st c. options_ok opts c \<and> options_ok (fst st) c"]])
      (auto intro: dedup_ok [of _ opts "(a, b)" for a b, simplified])
  have alone: "ends_in P (bindT (scalar typeAny) (\<lambda>a. retT [a])) flat_ok" for P
    by (rule ends_in_bind [OF scalar_is], rule ends_in_ret) (auto simp: flat_ok_def zero_tnode_def dest: node_any)
  have rest: "ends_in (options_ok opts) (bindT (foldT (dedup_option n) ([], []) opts) (\<lambda>(out, _). mergeUnionFamilies mk out)) flat_ok"
    by (rule ends_in_bind [OF dedup]) (auto split: prod.splits intro!: ends_in_weaken [OF mergeUnionFamilies_ok] mk options_flat)
  show ?thesis unfolding normalizeUnionOptions_def
    by (intro ends_in_if ends_in_bind [OF ends_in_keep [OF persists_options any]] alone rest) (simp add: ends_in_ret options_flat)
qed

lemma extends_union_parts [keeping]:
  assumes [keeping]: "\<And>st t. keeps extends (add st t)"
  shows "keeps extends (until_any add st ts)"
proof (induction ts arbitrary: st)
  case (Cons t ts)
  note [keeping] = Cons.IH
  show ?case unfolding until_any.simps any_alone_def by (intro keeping)
qed (simp add: keeping)

lemma extends_addOpt [keeping]: "keeps extends (addOpt n st t)"
proof (induction n arbitrary: st t)
  case (Suc n)
  note [keeping] = Suc.IH
  show ?case unfolding addOpt.simps by (intro keeping)
qed (simp add: keeping)

lemma extends_unionType [keeping]: "keeps extends (unionType n ts)"
proof (induction n arbitrary: ts)
  case (Suc n)
  note [keeping] = Suc.IH
  show ?case
    unfolding unionType.simps any_alone_def normalizeUnionOptions_def mergeUnionFamilies_def add_family_def dedup_option_def is_any_def
    by (intro keeping)
qed (simp add: keeping)

definition union_ok :: "tref \<Rightarrow> typeChecker \<Rightarrow> bool" where
  \<comment> \<open>a node without a parent; if it is a union, one within bounds\<close>
  "union_ok t c \<longleftrightarrow>
     (\<exists>p u. t = Some p \<and> node_is p u c \<and>
        (t_kind u = typeUnion \<longrightarrow>
           2 \<le> length (t_options u) \<and> length (t_options u) \<le> maxUnionOptions \<and> options_ok (t_options u) c))"

lemma option_union_ok: "option_ok c t \<Longrightarrow> union_ok t c"
  by (auto simp: option_ok_def union_ok_def node_is_def split: option.splits)

lemma any_union_ok: "any_node c t \<Longrightarrow> union_ok t c"
  by (auto simp: any_node_def union_ok_def node_is_def split: option.splits)

lemma other_union_ok: "node_is p u c \<Longrightarrow> t_kind u \<noteq> typeUnion \<Longrightarrow> union_ok (Some p) c"
  by (auto simp: union_ok_def)

lemma made_union_ok:
  "node_is p ((zero_tnode typeUnion)\<lparr>t_options := ts\<rparr>) c \<Longrightarrow> 2 \<le> length ts \<Longrightarrow> \<not> maxUnionOptions < length ts \<Longrightarrow>
     options_ok ts c \<Longrightarrow> union_ok (Some p) c"
  unfolding union_ok_def by (rule exI, rule exI, rule conjI, rule refl, erule conjI) simp

lemma flat_one: "flat_ok [t] c \<Longrightarrow> union_ok t c"
  by (auto simp: flat_ok_def options_ok_def intro: option_union_ok any_union_ok)

lemma flat_more: "flat_ok ts c \<Longrightarrow> length ts \<noteq> 1 \<Longrightarrow> options_ok ts c"
  by (auto simp: flat_ok_def)

lemma unionType_ok: "ends_in (\<lambda>_. True) (unionType n ts) union_ok"
proof (cases n)
  case 0
  then show ?thesis by (simp add: ends_in_def deepT_def)
next
  case (Suc n)
  have fresh: "ends_in P freshUnknown union_ok" for P
    unfolding freshUnknown_def
    by (rule ends_in_bind [where Q = "\<lambda>_ _. True"], simp add: ends_in_def,
        rule ends_in_bind [where Q = "\<lambda>_ _. True"], simp add: ends_in_def, rule ends_in_weaken [OF new_node_is])
      (auto simp: zero_tnode_def dest: other_union_ok)
  have many: "ends_in (flat_ok ts) (if length ts > maxUnionOptions then scalar typeAny
       else bindT (new_node ((zero_tnode typeUnion)\<lparr>t_options := ts\<rparr>)) (\<lambda>u. thenT (describe n u) (retT u))) union_ok"
    if len: "2 \<le> length ts" for ts
  proof (rule ends_in_if)
    show "ends_in (flat_ok ts) (scalar typeAny) union_ok"
      by (rule ends_in_weaken [OF scalar_is]) (auto simp: zero_tnode_def dest: other_union_ok)
    assume "\<not> maxUnionOptions < length ts"
    let ?u = "(zero_tnode typeUnion)\<lparr>t_options := ts\<rparr>"
    have "ends_in (options_ok ts) (new_node ?u) (\<lambda>t c. \<exists>p. t = Some p \<and> (options_ok ts c \<and> node_is p ?u c))"
      using ends_in_keep [OF persists_options extends_new_node, of ts ?u] new_node_is [of ?u "options_ok ts"]
      by (auto simp: ends_in_def zero_tnode_def)
    then have "ends_in (flat_ok ts) (new_node ?u) (\<lambda>t c. \<exists>p. t = Some p \<and> (options_ok ts c \<and> node_is p ?u c))"
      by (rule ends_in_weaken) (use len in \<open>auto intro: flat_more\<close>)
    then have made: "ends_in (flat_ok ts) (new_node ?u) (\<lambda>t c. \<exists>p. t = Some p \<and> (options_ok ts c \<and> node_is p ?u c))" .
    have "persists (\<lambda>c. \<exists>p. t = Some p \<and> (options_ok ts c \<and> node_is p ?u c))" for t
      using persists_and [OF persists_options persists_node] unfolding persists_def by blast
    note keep = ends_in_bind [OF ends_in_keep [OF this extends_texts(2)]]
    show "ends_in (flat_ok ts) (bindT (new_node ?u) (\<lambda>u. thenT (describe n u) (retT u))) union_ok"
      by (rule ends_in_bind [OF made], rule keep, rule ends_in_ret)
        (use len \<open>\<not> maxUnionOptions < length ts\<close> in \<open>auto intro: made_union_ok\<close>)
  qed
  have built: "ends_in (flat_ok ts) (case ts of [] \<Rightarrow> freshUnknown | [t] \<Rightarrow> retT t
       | _ \<Rightarrow> if length ts > maxUnionOptions then scalar typeAny
              else bindT (new_node ((zero_tnode typeUnion)\<lparr>t_options := ts\<rparr>)) (\<lambda>u. thenT (describe n u) (retT u))) union_ok" for ts
    using fresh many [of ts] by (auto split: list.split intro: ends_in_ret flat_one)
  have start: "ends_in (\<lambda>_. True) (until_any (addOpt n) ([], []) ts) (\<lambda>st. flat_ok (fst st))"
    by (rule ends_in_weaken [OF until_any_flat [OF addOpt_flat]]) simp_all
  show ?thesis unfolding Suc unionType.simps
  proof (rule ends_in_bind [OF start], simp only: split_beta, rule ends_in_bind [OF any_alone_result], rule ends_in_if)
    fix st :: "tref list \<times> string list" and stop
    assume stop
    then show "ends_in (\<lambda>c. if stop then \<exists>t. fst st = [t] \<and> any_node c t else options_ok (fst st) c) (retT (hd (fst st))) union_ok"
      by (auto intro!: ends_in_ret any_union_ok)
  next
    fix st :: "tref list \<times> string list" and stop
    assume "\<not> stop"
    then show "ends_in (\<lambda>c. if stop then \<exists>t. fst st = [t] \<and> any_node c t else options_ok (fst st) c)
        (bindT (normalizeUnionOptions n (unionType n) (fst st)) (\<lambda>flat. case flat of [] \<Rightarrow> freshUnknown | [t] \<Rightarrow> retT t
           | _ \<Rightarrow> if length flat > maxUnionOptions then scalar typeAny
              else bindT (new_node ((zero_tnode typeUnion)\<lparr>t_options := flat\<rparr>)) (\<lambda>u. thenT (describe n u) (retT u)))) union_ok"
      by (simp, intro ends_in_bind [OF normalize_flat built] keeping)
  qed
qed

text \<open>C15: \<open>unionType\<close> keeps unions small and flat: whatever types it is given, if it returns, the
  result is a node without a parent, and if that node is a union then it has at least two and at
  most \<open>maxUnionOptions\<close> options, each of them a node without a parent that is neither \<open>any\<close> nor
  \<open>never\<close> nor itself a union.\<close>

theorem union_options_bounded:
  assumes "unionType n ts c = TOk t d"
  shows "\<exists>p. t = Some p \<and> p < length (nodes d) \<and>
           (t_kind (nodes d ! p) = typeUnion \<longrightarrow>
              2 \<le> length (t_options (nodes d ! p)) \<and> length (t_options (nodes d ! p)) \<le> maxUnionOptions \<and>
              (\<forall>o'\<in>set (t_options (nodes d ! p)). \<exists>q. o' = Some q \<and> q < length (nodes d) \<and> t_parent (nodes d ! q) = None \<and>
                 t_kind (nodes d ! q) \<notin> {typeAny, typeNever, typeUnion}))"
  using unionType_ok [of n ts] assms
  by (fastforce simp: ends_in_def union_ok_def node_is_def options_ok_def option_ok_def split: option.splits)

lemma sample_union_run:
  "\<exists>d. unionType 9 [Some 4, Some 0] sample_types = TOk (Some 8) d \<and>
     t_kind (nodes d ! 8) = typeUnion \<and> length (t_options (nodes d ! 8)) = 3"
proof -
  have "case unionType 9 [Some 4, Some 0] sample_types of
      TOk t d \<Rightarrow> t = Some 8 \<and> t_kind (nodes d ! 8) = typeUnion \<and> length (t_options (nodes d ! 8)) = 3 | _ \<Rightarrow> False"
    by code_simp
  then show ?thesis by (auto split: tresult.splits)
qed

theorem union_options_bounded_witness:
  "\<exists>d. unionType 9 [Some 4, Some 0] sample_types = TOk (Some 8) d \<and> length (t_options (nodes d ! 8)) \<le> 8 \<and>
     (\<forall>o'\<in>set (t_options (nodes d ! 8)). \<exists>q. o' = Some q \<and> t_kind (nodes d ! q) \<noteq> typeUnion)"
proof -
  obtain d where d: "unionType 9 [Some 4, Some 0] sample_types = TOk (Some 8) d" "t_kind (nodes d ! 8) = typeUnion"
    using sample_union_run by blast
  show ?thesis using d union_options_bounded [OF d(1)] by (fastforce simp: maxUnionOptions_def)
qed

end
