(* ===== verification/Analyzer_Laws.thy ===== *)
theory Analyzer_Laws
  imports Analyzer
begin

text \<open>
  What the analyzer promises: which calls it marks as tail calls, and how it reports errors.
\<close>

section \<open>Tail positions\<close>

text \<open>
  The expressions in tail position of an expression: itself, and what is in tail position of the
  last statement of a branch or of a case, if that block has no \<open>defer\<close>.
\<close>

definition tail_statement :: "(stmt, expr) BlockStatement option \<Rightarrow> stmt \<Rightarrow> bool" where
  "tail_statement b s \<longleftrightarrow>
     (\<exists>c. b = Some c \<and> bs_Statements c \<noteq> [] \<and> \<not> (\<exists>d\<in>set (bs_Statements c). is_defer d) \<and> s = last (bs_Statements c))"

inductive tail_of :: "expr \<Rightarrow> expr \<Rightarrow> bool" where
  tail_self: "tail_of e e"
| tail_if: "tail_statement th s \<or> tail_statement el s \<Longrightarrow> tail_of (statement_expr s) x \<Longrightarrow> tail_of (IfExpression t c th el) x"
| tail_match: "m \<in> set cs \<Longrightarrow> tail_statement (mc_Body m) s \<Longrightarrow> tail_of (statement_expr s) x \<Longrightarrow> tail_of (MatchExpression t v cs) x"

inductive_cases tail_if_cases: "tail_of (IfExpression t c th el) x"
inductive_cases tail_match_cases: "tail_of (MatchExpression t v cs) x"

definition jumps :: "expr \<Rightarrow> bool" where
  "jumps e = (case e of CallExpression _ _ _ _ \<Rightarrow> True | RecurExpression _ _ \<Rightarrow> True | _ \<Rightarrow> False)"

lemma tail_if_iff:
  "tail_of (IfExpression t c th el) x \<longleftrightarrow>
     x = IfExpression t c th el \<or> (\<exists>s. (tail_statement th s \<or> tail_statement el s) \<and> tail_of (statement_expr s) x)"
  by (auto elim: tail_if_cases intro: tail_of.intros)

lemma tail_match_iff:
  "tail_of (MatchExpression t v cs) x \<longleftrightarrow>
     x = MatchExpression t v cs \<or> (\<exists>m\<in>set cs. \<exists>s. tail_statement (mc_Body m) s \<and> tail_of (statement_expr s) x)"
  by (auto elim: tail_match_cases intro: tail_of.intros)

definition block_or_match :: "expr \<Rightarrow> bool" where
  "block_or_match e = (case e of IfExpression _ _ _ _ \<Rightarrow> True | MatchExpression _ _ _ \<Rightarrow> True | _ \<Rightarrow> False)"

lemma tail_other: "\<not> block_or_match e \<Longrightarrow> tail_of e x \<longleftrightarrow> x = e"
  by (rule iffI, erule tail_of.cases) (simp_all add: block_or_match_def tail_self)

lemma mark_NoExpr: "markTailCall NoExpr = (False, NoExpr)"
  by (simp add: markTailCall.simps)

lemma mark_statement:
  assumes "f NoExpr = (False, NoExpr)"
  shows "fst (checkTailCallsInStatement f s) = fst (f (statement_expr s))"
    and "statement_expr (snd (checkTailCallsInStatement f s)) = snd (f (statement_expr s))"
    and "is_defer (snd (checkTailCallsInStatement f s)) = is_defer s"
  using assms by (cases s; simp add: checkTailCallsInStatement_def statement_expr_def is_defer_def)+

lemma mark_block:
  assumes "f NoExpr = (False, NoExpr)"
  shows "fst (checkTailCallsInBlock f b) \<longleftrightarrow> (\<exists>s. tail_statement b s \<and> fst (f (statement_expr s)))"
    and "(\<exists>s. tail_statement (snd (checkTailCallsInBlock f b)) s \<and> P (statement_expr s)) \<longleftrightarrow>
      (\<exists>s. tail_statement b s \<and> P (snd (f (statement_expr s))))"
proof -
  have "(fst (checkTailCallsInBlock f b) \<longleftrightarrow> (\<exists>s. tail_statement b s \<and> fst (f (statement_expr s)))) \<and>
    ((\<exists>s. tail_statement (snd (checkTailCallsInBlock f b)) s \<and> P (statement_expr s)) \<longleftrightarrow>
      (\<exists>s. tail_statement b s \<and> P (snd (f (statement_expr s)))))"
  proof (cases "\<exists>c. b = Some c \<and> bs_Statements c \<noteq> [] \<and> \<not> (\<exists>d\<in>set (bs_Statements c). is_defer d)")
    case True
    then obtain c where c: "b = Some c" "bs_Statements c \<noteq> []" "\<not> (\<exists>d\<in>set (bs_Statements c). is_defer d)" by blast
    let ?r = "checkTailCallsInStatement f (last (bs_Statements c))"
    have "\<not> is_defer (snd ?r)" using c mark_statement(3) [of f "last (bs_Statements c)"] assms by simp
    moreover have "checkTailCallsInBlock f b =
        (fst ?r, Some (BlockStatement (bs_Token c) (butlast (bs_Statements c) @ [snd ?r]) (bs_IsNursery c) (bs_Limit c)))"
      using c by (auto simp: checkTailCallsInBlock_def Let_def split_beta)
    ultimately show ?thesis
      using c mark_statement(1,2) [of f "last (bs_Statements c)"] assms
      by (auto simp: tail_statement_def dest: in_set_butlastD)
  next
    case False
    then have "checkTailCallsInBlock f b = (False, b)"
      by (auto simp: checkTailCallsInBlock_def Let_def split: option.split)
    then show ?thesis using False by (auto simp: tail_statement_def)
  qed
  then show "fst (checkTailCallsInBlock f b) \<longleftrightarrow> (\<exists>s. tail_statement b s \<and> fst (f (statement_expr s)))"
    and "(\<exists>s. tail_statement (snd (checkTailCallsInBlock f b)) s \<and> P (statement_expr s)) \<longleftrightarrow>
      (\<exists>s. tail_statement b s \<and> P (snd (f (statement_expr s))))" by blast+
qed

lemmas mark_blocks = mark_block [of markTailCall, OF mark_NoExpr]

lemma tail_statement_size: "tail_statement b s \<Longrightarrow> size (statement_expr s) < size_option (size_BlockStatement size size) b"
  by (auto simp: tail_statement_def intro!: less_SucI size_block_expr)

lemma tail_case_size:
  "m \<in> set cs \<Longrightarrow> tail_statement (mc_Body m) s \<Longrightarrow>
     size (statement_expr s) < size_list (size_MatchCase size size (size_BlockStatement size size)) cs"
  using size_case_expr [of m cs] by (auto simp: tail_statement_def)

lemma mark_case_parts:
  "fst (mark_case f m) = fst (checkTailCallsInBlock f (mc_Body m))"
  "mc_Body (snd (mark_case f m)) = snd (checkTailCallsInBlock f (mc_Body m))"
  by (simp_all add: mark_case_def split_beta)

lemma mark_cases:
  "markTailCall (MatchExpression t v cs) =
     (\<exists>m\<in>set cs. fst (mark_case markTailCall m), MatchExpression t v (map (\<lambda>m. snd (mark_case markTailCall m)) cs))"
  by (subst markTailCall.simps) (simp add: Let_def comp_def)

lemma mark_if:
  "markTailCall (IfExpression t c th el) =
     (fst (checkTailCallsInBlock markTailCall th) \<or> fst (checkTailCallsInBlock markTailCall el),
      IfExpression t c (snd (checkTailCallsInBlock markTailCall th)) (snd (checkTailCallsInBlock markTailCall el)))"
  by (subst markTailCall.simps) (simp add: split_beta)

lemma tail_jump: "fst (markTailCall e) \<longleftrightarrow> (\<exists>x. tail_of e x \<and> jumps x)"
proof (induction e rule: measure_induct_rule [of size])
  case (less e)
  show ?case
  proof (cases "block_or_match e")
    case False
    then show ?thesis by (cases e) (simp_all add: tail_other markTailCall.simps jumps_def block_or_match_def)
  next
    case True
    then consider t c th el where "e = IfExpression t c th el" | t v cs where "e = MatchExpression t v cs"
      by (auto simp: block_or_match_def split: expr.splits)
    then show ?thesis
    proof cases
      case 1
      have "fst (markTailCall (statement_expr s)) \<longleftrightarrow> (\<exists>x. tail_of (statement_expr s) x \<and> jumps x)"
        if "tail_statement th s \<or> tail_statement el s" for s
        using that less 1 tail_statement_size [of th s] tail_statement_size [of el s] by auto
      then show ?thesis unfolding 1 mark_if tail_if_iff by (auto simp: mark_blocks(1) jumps_def)
    next
      case 2
      have "fst (markTailCall (statement_expr s)) \<longleftrightarrow> (\<exists>x. tail_of (statement_expr s) x \<and> jumps x)"
        if "m \<in> set cs" "tail_statement (mc_Body m) s" for m s
        using less 2 tail_case_size [OF that] by auto
      then show ?thesis unfolding 2 mark_cases tail_match_iff
        by (auto simp: mark_case_parts mark_blocks(1) jumps_def) blast+
    qed
  qed
qed

lemma tail_marked:
  "tail_of (snd (markTailCall e)) (CallExpression t f as b) \<longleftrightarrow> b \<and> (\<exists>b'. tail_of e (CallExpression t f as b'))"
proof (induction e rule: measure_induct_rule [of size])
  case (less e)
  show ?case
  proof (cases "block_or_match e")
    case False
    then have "\<not> block_or_match (snd (markTailCall e))"
      by (cases e) (simp_all add: markTailCall.simps block_or_match_def)
    then show ?thesis using False by (cases e) (auto simp: tail_other markTailCall.simps block_or_match_def)
  next
    case True
    then consider t c th el where "e = IfExpression t c th el" | t v cs where "e = MatchExpression t v cs"
      by (auto simp: block_or_match_def split: expr.splits)
    then show ?thesis
    proof cases
      case (1 t' c th el)
      have ih: "tail_of (snd (markTailCall (statement_expr s))) (CallExpression t f as b) \<longleftrightarrow>
          b \<and> (\<exists>b'. tail_of (statement_expr s) (CallExpression t f as b'))"
        if "tail_statement th s \<or> tail_statement el s" for s
        using that less 1 tail_statement_size [of th s] tail_statement_size [of el s] by auto
      have "tail_of (snd (markTailCall e)) (CallExpression t f as b) \<longleftrightarrow>
          (\<exists>s. tail_statement th s \<and> tail_of (snd (markTailCall (statement_expr s))) (CallExpression t f as b)) \<or>
          (\<exists>s. tail_statement el s \<and> tail_of (snd (markTailCall (statement_expr s))) (CallExpression t f as b))"
        unfolding 1 mark_if tail_if_iff snd_conv
        using mark_blocks(2) [where P = "\<lambda>e. tail_of e (CallExpression t f as b)"] by blast
      then show ?thesis using ih unfolding 1 tail_if_iff by blast
    next
      case (2 t' v cs)
      have ih: "tail_of (snd (markTailCall (statement_expr s))) (CallExpression t f as b) \<longleftrightarrow>
          b \<and> (\<exists>b'. tail_of (statement_expr s) (CallExpression t f as b'))"
        if "m \<in> set cs" "tail_statement (mc_Body m) s" for m s
        using less 2 tail_case_size [OF that] by auto
      have "tail_of (snd (markTailCall e)) (CallExpression t f as b) \<longleftrightarrow>
          (\<exists>m\<in>set cs. \<exists>s. tail_statement (mc_Body m) s \<and>
             tail_of (snd (markTailCall (statement_expr s))) (CallExpression t f as b))"
        unfolding 2 mark_cases tail_match_iff snd_conv
        using mark_blocks(2) [where P = "\<lambda>e. tail_of e (CallExpression t f as b)"] by (auto simp: mark_case_parts)
      then show ?thesis using ih unfolding 2 tail_match_iff by blast
    qed
  qed
qed

text \<open>
  Expressions that are the same but for the flags of calls in tail position: a change may only be
  made to the expression itself, if it is a call, and below the last statement of a branch or of
  a case, if that block has no \<open>defer\<close>.
\<close>

definition last_changed ::
  "(expr \<Rightarrow> expr \<Rightarrow> bool) \<Rightarrow> (stmt, expr) BlockStatement option \<Rightarrow> (stmt, expr) BlockStatement option \<Rightarrow> bool" where
  "last_changed R b b' \<longleftrightarrow>
     b' = b \<or>
     (\<exists>c ss t e e'. b = Some c \<and> \<not> (\<exists>d\<in>set ss. is_defer d) \<and> R e e' \<and>
        (bs_Statements c = ss @ [ReturnStatement t e] \<and>
           b' = Some (BlockStatement (bs_Token c) (ss @ [ReturnStatement t e']) (bs_IsNursery c) (bs_Limit c)) \<or>
         bs_Statements c = ss @ [ExpressionStatement t e] \<and>
           b' = Some (BlockStatement (bs_Token c) (ss @ [ExpressionStatement t e']) (bs_IsNursery c) (bs_Limit c))))"

lemma last_changed_mono [mono]: "(\<And>x y. R x y \<longrightarrow> Q x y) \<Longrightarrow> last_changed R b b' \<longrightarrow> last_changed Q b b'"
  unfolding last_changed_def by metis

inductive retagged :: "expr \<Rightarrow> expr \<Rightarrow> bool" where
  retag_same: "retagged e e"
| retag_call: "retagged (CallExpression t f as b) (CallExpression t f as b')"
| retag_if: "last_changed retagged th th' \<Longrightarrow> last_changed retagged el el' \<Longrightarrow>
    retagged (IfExpression t c th el) (IfExpression t c th' el')"
| retag_match: "length cs' = length cs \<Longrightarrow>
    (\<And>i. i < length cs \<Longrightarrow> \<exists>b. last_changed retagged (mc_Body (cs ! i)) b \<and>
       cs' ! i = MatchCase (mc_Token (cs ! i)) (mc_Pattern (cs ! i)) (mc_Guard (cs ! i)) b) \<Longrightarrow>
    retagged (MatchExpression t v cs) (MatchExpression t v cs')"

lemma mark_changes_last:
  assumes "\<And>s. tail_statement b s \<Longrightarrow> R (statement_expr s) (snd (f (statement_expr s)))"
  shows "last_changed R b (snd (checkTailCallsInBlock f b))"
proof (cases "\<exists>c. b = Some c \<and> bs_Statements c \<noteq> [] \<and> \<not> (\<exists>d\<in>set (bs_Statements c). is_defer d)")
  case True
  then obtain c where c: "b = Some c" "bs_Statements c \<noteq> []" "\<not> (\<exists>d\<in>set (bs_Statements c). is_defer d)" by blast
  then obtain ss s where s: "bs_Statements c = ss @ [s]" by (metis append_butlast_last_id)
  have "R (statement_expr s) (snd (f (statement_expr s)))" using assms c s by (simp add: tail_statement_def)
  moreover have "snd (checkTailCallsInBlock f b) = b" if "snd (checkTailCallsInStatement f s) = s"
    using c s that by (cases c) (auto simp: checkTailCallsInBlock_def Let_def split_beta)
  ultimately show ?thesis using c s
    by (cases s) (auto simp: last_changed_def checkTailCallsInBlock_def checkTailCallsInStatement_def Let_def split_beta statement_expr_def)
next
  case False
  then have "checkTailCallsInBlock f b = (False, b)"
    by (auto simp: checkTailCallsInBlock_def Let_def split: option.split)
  then show ?thesis by (simp add: last_changed_def)
qed

lemma mark_retags: "retagged e (snd (markTailCall e))"
proof (induction e rule: measure_induct_rule [of size])
  case (less e)
  show ?case
  proof (cases "block_or_match e")
    case False
    then show ?thesis by (cases e) (simp_all add: markTailCall.simps block_or_match_def retag_same retag_call)
  next
    case True
    then consider t c th el where "e = IfExpression t c th el" | t v cs where "e = MatchExpression t v cs"
      by (auto simp: block_or_match_def split: expr.splits)
    then show ?thesis
    proof cases
      case (1 t c th el)
      have "retagged (statement_expr s) (snd (markTailCall (statement_expr s)))"
        if "tail_statement th s \<or> tail_statement el s" for s
        using that less 1 tail_statement_size [of th s] tail_statement_size [of el s] by auto
      then show ?thesis unfolding 1 mark_if snd_conv by (intro retag_if mark_changes_last) blast+
    next
      case (2 t v cs)
      have "last_changed retagged (mc_Body m) (snd (checkTailCallsInBlock markTailCall (mc_Body m)))" if "m \<in> set cs" for m
        using 2 tail_case_size [OF that] by (intro mark_changes_last less.IH) (auto intro!: less_SucI trans_less_add1)
      then show ?thesis unfolding 2 mark_cases snd_conv
        by (intro retag_match) (auto simp: mark_case_def split_beta)
    qed
  qed
qed

text \<open>C18: \<open>markTailCall\<close> marks the calls in tail position and nothing else: it reports that there is
  one just if a call or a \<open>recur\<close> is in tail position of the expression; afterwards the calls in
  tail position are those that were there before, each with its flag set; and outside of the flags
  of these calls the expression is the same. In tail position are the expression itself and, for
  the last statement of a branch or of a case whose block has no \<open>defer\<close>, what is in tail position
  of its expression; a \<open>return\<close> before the last statement is not.\<close>

theorem tail_calls_marked:
  "(fst (markTailCall e) \<longleftrightarrow> (\<exists>x. tail_of e x \<and> jumps x)) \<and>
   (tail_of (snd (markTailCall e)) (CallExpression t f as b) \<longleftrightarrow> b \<and> (\<exists>b'. tail_of e (CallExpression t f as b'))) \<and>
   retagged e (snd (markTailCall e))"
  using tail_jump tail_marked mark_retags by blast

section \<open>Reports\<close>

text \<open>Functions in functions, with a \<open>recur\<close> that is no tail call in the innermost.\<close>

fun nested_recur :: "Token \<Rightarrow> nat \<Rightarrow> expr" where
  "nested_recur t 0 = PrefixExpression t ''-'' (RecurExpression t [])"
| "nested_recur t (Suc k) =
     FunctionLiteral t [] (FSig [] 0 0 False) [] []
       (Some (BlockStatement t [ExpressionStatement t (nested_recur t k)] False NoExpr)) False"


lemma nested_usage:
  "validateRecurUsage (Some (BlockStatement t [ExpressionStatement t e] False NoExpr)) = validateRecurInExpr e True"
  by (simp add: validateRecurUsage_def recur_block_def block_statements_def)

lemma nested_errors: "length (validateRecurInExpr (nested_recur t k) True) = 1"
proof (induction k)
  case 0
  then show ?case by (simp add: validateRecurInExpr.simps recur_children_def)
next
  case (Suc k)
  have "validateRecurInExpr (nested_recur t (Suc k)) True = validateRecurInExpr (nested_recur t k) True"
    by (subst validateRecurInExpr.simps) (simp add: recur_children_def recur_block_def block_statements_def)
  then show ?case using Suc by simp
qed

text \<open>
  For this family one \<open>recur\<close> is reported as often as there are functions around it: the check of a
  function looks into the function literals that it reaches, and the walk checks those again.
\<close>

lemma misplaced_recur_repeated: "length (walk (Inl (nested_recur t k))) = k"
proof (induction k)
  case 0
  then show ?case by (simp add: walk.simps walk_own_def walk_children_def)
next
  case (Suc k)
  have "walk (Inl (nested_recur t (Suc k))) = validateRecurInExpr (nested_recur t k) True @ walk (Inl (nested_recur t k))"
    by (subst walk.simps, simp add: walk_own_def walk_children_def nested_usage block_statements_def, subst walk.simps)
      (simp add: walk_own_def walk_children_def)
  then show ?case using Suc by (simp add: nested_errors)
qed

end
