(* ===== verification/Tasks.thy ===== *)
theory Tasks
  imports Executor
begin

text \<open>
  The tasks of one scope, as goroutines run them: \<open>OpSpawn\<close> of \<open>internal/vm/executor.go\<close> with the
  limit of the scope, the methods of \<open>internal/vm/task.go\<close>, and
  \<open>executeTaskHandlesInCurrentScope\<close>, which joins the tasks when the scope is left. The machine
  of \<open>Executor\<close> runs a task when it is spawned; here the steps of the goroutines and of the
  scope interleave in any order.

  A body is what it returns, \<open>None\<close> if it never returns: the tasks here are those whose results
  do not depend on the schedule. The scope spawns its bodies one after the other, has a value,
  and joins. \<open>OpSpawn\<close> takes the limit on the top of \<open>taskLimits\<close>, but appends the handle to the
  nearest enclosing nursery: a spawn that stands in a plain block inside the nursery is joined by
  the nursery and does not take a slot of it. So each body says whether its spawn is limited.
\<close>

section \<open>State\<close>

datatype goroutine = Running | Releasing | Ended

record task =
  tk_body :: "obj option"
  tk_limited :: bool
  tk_handle :: VMTaskHandle
  tk_goroutine :: goroutine

text \<open>
  \<open>sc_slots\<close> is the number of elements in the channel \<open>limiter\<close>, whose capacity is \<open>sc_limit\<close>.
  The loop that joins has the handles that it has not seen and the result so far.
\<close>

record task_scope =
  sc_bodies :: "(obj option \<times> bool) list"
  sc_limit :: "nat option"
  sc_slots :: nat
  sc_tasks :: "task list"
  sc_value :: obj
  sc_joining :: "(nat list \<times> obj) option"

definition enter_tasks :: "nat option \<Rightarrow> obj \<Rightarrow> (obj option \<times> bool) list \<Rightarrow> task_scope" where
  "enter_tasks limit v bodies =
     \<lparr>sc_bodies = bodies, sc_limit = limit, sc_slots = 0, sc_tasks = [], sc_value = v, sc_joining = None\<rparr>"

section \<open>Steps\<close>

definition limiter :: "bool \<Rightarrow> task_scope \<Rightarrow> nat option" where
  \<comment> \<open>the capacity of the limiter of a spawn: the top of \<open>taskLimits\<close> is nil in a plain block\<close>
  "limiter limited s = (if limited then sc_limit s else None)"

definition has_slot :: "bool \<Rightarrow> task_scope \<Rightarrow> bool" where
  \<comment> \<open>\<open>limiter <- struct{}{}\<close> does not wait\<close>
  "has_slot limited s = (case limiter limited s of None \<Rightarrow> True | Some n \<Rightarrow> sc_slots s < n)"

definition spawn_task :: "obj option \<Rightarrow> bool \<Rightarrow> task_scope \<Rightarrow> task_scope" where
  "spawn_task b limited s =
     s\<lparr>sc_slots := (if limiter limited s = None then sc_slots s else sc_slots s + 1),
       sc_tasks := sc_tasks s @
         [\<lparr>tk_body = b, tk_limited = limited, tk_handle = NewVMTaskHandle, tk_goroutine = Running\<rparr>]\<rparr>"

definition complete_task :: "nat \<Rightarrow> obj \<Rightarrow> task_scope \<Rightarrow> task_scope" where
  "complete_task i result s =
     s\<lparr>sc_tasks := (sc_tasks s)[i := (sc_tasks s ! i)
         \<lparr>tk_handle := Complete result (tk_handle (sc_tasks s ! i)), tk_goroutine := Releasing\<rparr>]\<rparr>"

definition release_slot :: "nat \<Rightarrow> task_scope \<Rightarrow> task_scope" where
  \<comment> \<open>the deferred receive from the limiter\<close>
  "release_slot i s =
     s\<lparr>sc_slots := (if limiter (tk_limited (sc_tasks s ! i)) s = None then sc_slots s else sc_slots s - 1),
       sc_tasks := (sc_tasks s)[i := (sc_tasks s ! i)\<lparr>tk_goroutine := Ended\<rparr>]\<rparr>"

definition leave_tasks :: "task_scope \<Rightarrow> task_scope" where
  "leave_tasks s = s\<lparr>sc_joining := Some ([0..<length (sc_tasks s)], sc_value s)\<rparr>"

definition takes_error :: "obj \<Rightarrow> obj \<Rightarrow> bool" where
  "takes_error current res \<longleftrightarrow> is_error res \<and> \<not> is_error current \<and> obj_type current \<noteq> ''RETURN_VALUE''"

definition cancel_from :: "nat \<Rightarrow> nat list \<Rightarrow> task list \<Rightarrow> task list" where
  \<comment> \<open>the errors get the references from \<open>r\<close> on\<close>
  "cancel_from r is ts =
     fold (\<lambda>i ts. ts[i := (ts ! i)\<lparr>tk_handle := Cancel (r + i) ''sibling cancelled due to fail-fast'' (tk_handle (ts ! i))\<rparr>])
       is ts"

definition join_handle :: "nat \<Rightarrow> nat \<Rightarrow> nat list \<Rightarrow> obj \<Rightarrow> task_scope \<Rightarrow> task_scope" where
  \<comment> \<open>one round of the loop, when the handle is done\<close>
  "join_handle r i is current s =
     (case th_result (tk_handle (sc_tasks s ! i)) of
        None \<Rightarrow> s\<lparr>sc_joining := Some (is, current)\<rparr>
      | Some res \<Rightarrow>
          if takes_error current res
          then s\<lparr>sc_joining := Some (is, res), sc_tasks := cancel_from r is (sc_tasks s)\<rparr>
          else s\<lparr>sc_joining := Some (is, current)\<rparr>)"

inductive task_step :: "task_scope \<Rightarrow> task_scope \<Rightarrow> bool" where
  spawn: "sc_joining s = None \<Longrightarrow> sc_bodies s = (b, limited) # bs \<Longrightarrow> has_slot limited s \<Longrightarrow>
    task_step s (spawn_task b limited (s\<lparr>sc_bodies := bs\<rparr>))"
| complete: "i < length (sc_tasks s) \<Longrightarrow> tk_goroutine (sc_tasks s ! i) = Running \<Longrightarrow>
    tk_body (sc_tasks s ! i) = Some result \<Longrightarrow> task_step s (complete_task i result s)"
| release: "i < length (sc_tasks s) \<Longrightarrow> tk_goroutine (sc_tasks s ! i) = Releasing \<Longrightarrow>
    task_step s (release_slot i s)"
| leave: "sc_joining s = None \<Longrightarrow> sc_bodies s = [] \<Longrightarrow> task_step s (leave_tasks s)"
| join: "sc_joining s = Some (i # is, current) \<Longrightarrow> th_done (tk_handle (sc_tasks s ! i)) \<Longrightarrow>
    task_step s (join_handle r i is current s)"

definition has_joined :: "task_scope \<Rightarrow> obj \<Rightarrow> bool" where
  "has_joined s x \<longleftrightarrow> sc_joining s = Some ([], x)"

text \<open>
  What the scope gives, by the results of its bodies alone: \<open>None\<close> if it waits for ever. After the first error
  that becomes the result, nothing is waited for any more.
\<close>

fun join_bodies :: "obj \<Rightarrow> obj option list \<Rightarrow> obj option" where
  "join_bodies current [] = Some current"
| "join_bodies current (None # bs) = None"
| "join_bodies current (Some res # bs) =
     (if takes_error current res then Some res else join_bodies current bs)"

end
