(* ===== verification/Tasks_Laws.thy ===== *)
theory Tasks_Laws
  imports Tasks Environment_Laws
begin

text \<open>
  What holds of every interleaving of the tasks of a scope, for tasks whose results do not depend
  on it: the join of the results is the one that the machine of \<open>Executor\<close> computes; the
  goroutines that were spawned under the limit of the scope keep it; the join ends in every
  schedule if the tasks up to the first failure return, and in no schedule if a task before it
  does not.
\<close>

section \<open>Handles\<close>

text \<open>
  A task that was not cancelled is clean: its handle is open until the body has returned, and
  holds the result of the body from then on. A task is over when its handle has a result,
  whichever.
\<close>

definition clean :: "task \<Rightarrow> bool" where
  "clean t \<longleftrightarrow>
     (if tk_goroutine t = Running then tk_handle t = NewVMTaskHandle
      else \<exists>r. tk_body t = Some r \<and> tk_handle t = Complete r NewVMTaskHandle)"

definition over :: "task \<Rightarrow> bool" where
  "over t \<longleftrightarrow>
     th_done (tk_handle t) \<and> th_closed (tk_handle t) \<and> th_result (tk_handle t) \<noteq> None \<and>
     (tk_goroutine t = Running \<or> tk_body t \<noteq> None)"

lemmas task_states = clean_def over_def Complete_def Cancel_def NewVMTaskHandle_def

lemma clean_done:
  "clean t \<Longrightarrow> th_done (tk_handle t) \<Longrightarrow> tk_body t = th_result (tk_handle t) \<and> tk_body t \<noteq> None"
  by (auto simp: task_states split: if_splits)


lemma clean_complete:
  "clean t \<Longrightarrow> tk_body t = Some r \<Longrightarrow> tk_goroutine t = Running \<Longrightarrow>
     clean (t\<lparr>tk_handle := Complete r (tk_handle t), tk_goroutine := Releasing\<rparr>)"
  by (auto simp: task_states)

lemma over_complete:
  "over t \<Longrightarrow> tk_body t = Some r \<Longrightarrow> over (t\<lparr>tk_handle := Complete r (tk_handle t), tk_goroutine := Releasing\<rparr>)"
  by (auto simp: task_states)

lemma clean_release: "clean t \<Longrightarrow> tk_goroutine t = Releasing \<Longrightarrow> clean (t\<lparr>tk_goroutine := Ended\<rparr>)"
  by (auto simp: task_states)

lemma over_release: "over t \<Longrightarrow> tk_goroutine t = Releasing \<Longrightarrow> over (t\<lparr>tk_goroutine := Ended\<rparr>)"
  by (auto simp: task_states)

lemma cancelled_over: "clean t \<or> over t \<Longrightarrow> over (t\<lparr>tk_handle := Cancel r why (tk_handle t)\<rparr>)"
  by (auto simp: task_states split: if_splits)

lemma all_update: "\<forall>t\<in>set ts. P t \<Longrightarrow> P t' \<Longrightarrow> \<forall>t\<in>set (ts[i := t']). P t"
  using set_update_subset_insert [of ts i t'] by blast

lemma map_same_update: "i < length ts \<Longrightarrow> f t' = f (ts ! i) \<Longrightarrow> map f (ts[i := t']) = map f ts"
  by (simp add: map_update) (metis list_update_id nth_map)

text \<open>What the steps never change of a task.\<close>

definition body_of :: "task \<Rightarrow> obj option \<times> bool" where
  "body_of t = (tk_body t, tk_limited t)"

lemma map_body_of: "map body_of ts = map body_of us \<Longrightarrow> map tk_body ts = map tk_body us"
  unfolding body_of_def by (metis (no_types, lifting) fst_conv map_eq_conv map_map comp_def)

lemma cancel_from_over:
  assumes "\<forall>t\<in>set ts. clean t \<or> over t" and "\<forall>i\<in>set is. i < length ts"
  shows "map body_of (cancel_from r is ts) = map body_of ts" (is ?body)
    and "map tk_goroutine (cancel_from r is ts) = map tk_goroutine ts" (is ?goroutine)
    and "\<forall>t\<in>set (cancel_from r is ts). clean t \<or> over t" (is ?both)
    and "\<forall>i\<in>set is. over (cancel_from r is ts ! i)" (is ?over)
    and "\<forall>i<length ts. over (ts ! i) \<longrightarrow> over (cancel_from r is ts ! i)" (is ?still)
proof -
  have "?body \<and> ?goroutine \<and> ?both \<and> ?over \<and> ?still"
    using assms
  proof (induction "is" arbitrary: ts)
    case Nil
    then show ?case by (simp add: cancel_from_def)
  next
    case (Cons i "is")
    define t where "t = (ts ! i)\<lparr>tk_handle := Cancel (r + i) ''sibling cancelled due to fail-fast'' (tk_handle (ts ! i))\<rparr>"
    have i: "i < length ts" using Cons.prems(2) by simp
    have t: "over t" unfolding t_def using Cons.prems(1) i by (intro cancelled_over) auto
    have step: "cancel_from r (i # is) ts = cancel_from r is (ts[i := t])" by (simp add: cancel_from_def t_def)
    have all: "\<forall>t\<in>set (ts[i := t]). clean t \<or> over t" using Cons.prems(1) t by (intro all_update) auto
    have same: "map body_of (ts[i := t]) = map body_of ts" "map tk_goroutine (ts[i := t]) = map tk_goroutine ts"
      using i by (simp_all add: map_same_update t_def body_of_def)
    note IH = Cons.IH [OF all]
    show ?case
      unfolding step using IH Cons.prems(2) t i same by (auto simp: nth_list_update)
  qed
  then show ?body ?goroutine ?both ?over ?still by blast+
qed

section \<open>The invariant\<close>

definition busy :: "task list \<Rightarrow> nat" where
  "busy ts = length (filter (\<lambda>t. tk_limited t \<and> tk_goroutine t \<noteq> Ended) ts)"

definition slots_ok :: "task_scope \<Rightarrow> bool" where
  "slots_ok s \<longleftrightarrow> (case sc_limit s of None \<Rightarrow> True | Some n \<Rightarrow> sc_slots s = busy (sc_tasks s) \<and> sc_slots s \<le> n)"

definition join_ok :: "obj option \<Rightarrow> task list \<Rightarrow> nat list \<Rightarrow> obj \<Rightarrow> bool" where
  "join_ok final ts is cur \<longleftrightarrow>
     (\<exists>k\<le>length ts. is = [k..<length ts] \<and>
        ((\<forall>t\<in>set ts. clean t) \<and> final = join_bodies cur (drop k (map tk_body ts)) \<or>
         (\<forall>t\<in>set ts. clean t \<or> over t) \<and> (\<forall>i\<in>set is. over (ts ! i)) \<and> is_error cur \<and> final = Some cur))"

definition scope_ok :: "obj \<Rightarrow> (obj option \<times> bool) list \<Rightarrow> task_scope \<Rightarrow> bool" where
  "scope_ok v bodies s \<longleftrightarrow>
     sc_value s = v \<and> bodies = map body_of (sc_tasks s) @ sc_bodies s \<and> slots_ok s \<and>
     (case sc_joining s of
        None \<Rightarrow> \<forall>t\<in>set (sc_tasks s). clean t
      | Some (is, cur) \<Rightarrow> sc_bodies s = [] \<and> join_ok (join_bodies v (map fst bodies)) (sc_tasks s) is cur)"

lemma map_fst_body_of [simp]: "map (fst \<circ> body_of) ts = map tk_body ts"
  by (simp add: body_of_def)

lemma busy_map: "busy ts = length (filter (\<lambda>(b, g). snd b \<and> g \<noteq> Ended) (zip (map body_of ts) (map tk_goroutine ts)))"
  by (simp add: busy_def zip_map_map zip_same_conv_map filter_map comp_def body_of_def)

lemma busy_same:
  "map body_of ts = map body_of us \<Longrightarrow> map tk_goroutine ts = map tk_goroutine us \<Longrightarrow> busy ts = busy us"
  by (simp only: busy_map)

lemma busy_update:
  assumes "i < length ts"
  shows "busy (ts[i := t]) + (if tk_limited (ts ! i) \<and> tk_goroutine (ts ! i) \<noteq> Ended then 1 else 0) =
         busy ts + (if tk_limited t \<and> tk_goroutine t \<noteq> Ended then 1 else 0)"
proof -
  have "ts = take i ts @ ts ! i # drop (Suc i) ts" using assms by (simp add: id_take_nth_drop)
  then have "busy ts = busy (take i ts @ ts ! i # drop (Suc i) ts)" by simp
  then show ?thesis using assms by (simp add: upd_conv_take_nth_drop busy_def)
qed

lemma start_ok: "scope_ok v bodies (enter_tasks limit v bodies)"
  by (simp add: scope_ok_def enter_tasks_def slots_ok_def busy_def split: option.split)

lemma join_ok_update:
  assumes "join_ok final ts is cur" and "i < length ts" and "tk_body t = tk_body (ts ! i)"
    and "clean (ts ! i) \<Longrightarrow> clean t" and "over (ts ! i) \<Longrightarrow> over t"
  shows "join_ok final (ts[i := t]) is cur"
proof -
  have body: "map tk_body (ts[i := t]) = map tk_body ts" using assms(2,3) by (rule map_same_update)
  have 1: "\<forall>t\<in>set ts. clean t \<Longrightarrow> \<forall>t\<in>set (ts[i := t]). clean t"
    using assms(2,4) by (intro all_update) auto
  have 2: "\<forall>t\<in>set ts. clean t \<or> over t \<Longrightarrow> \<forall>t\<in>set (ts[i := t]). clean t \<or> over t"
    using assms(2,4,5) nth_mem by (intro all_update) blast+
  have 3: "\<forall>j\<in>set is. over (ts ! j) \<Longrightarrow> \<forall>j\<in>set is. over (ts[i := t] ! j)"
    using assms(2,5) by (auto simp: nth_list_update)
  show ?thesis using assms(1) 1 2 3 unfolding join_ok_def length_list_update body by blast
qed

lemma task_changed:
  assumes ok: "scope_ok v bodies s" and i: "i < length (sc_tasks s)"
    and t: "body_of t = body_of (sc_tasks s ! i)"
      "clean (sc_tasks s ! i) \<Longrightarrow> clean t" "over (sc_tasks s ! i) \<Longrightarrow> over t"
    and slots: "slots_ok (s\<lparr>sc_slots := n, sc_tasks := (sc_tasks s)[i := t]\<rparr>)"
  shows "scope_ok v bodies (s\<lparr>sc_slots := n, sc_tasks := (sc_tasks s)[i := t]\<rparr>)"
proof -
  have body: "map body_of ((sc_tasks s)[i := t]) = map body_of (sc_tasks s)" using i t(1) by (rule map_same_update)
  have t1: "tk_body t = tk_body (sc_tasks s ! i)" using t(1) by (simp add: body_of_def)
  show ?thesis
  proof (cases "sc_joining s")
    case None
    have "\<forall>t\<in>set (sc_tasks s). clean t" using ok None by (simp add: scope_ok_def)
    then have "\<forall>t\<in>set ((sc_tasks s)[i := t]). clean t" using i t(2) by (intro all_update) auto
    then show ?thesis using ok slots None unfolding scope_ok_def by (simp add: body)
  next
    case (Some p)
    then show ?thesis
      using ok slots join_ok_update [OF _ i t1 t(2,3)] unfolding scope_ok_def by (cases p) (auto simp: body)
  qed
qed

lemma complete_ok:
  assumes "scope_ok v bodies s" and "i < length (sc_tasks s)"
    and "tk_goroutine (sc_tasks s ! i) = Running" and "tk_body (sc_tasks s ! i) = Some r"
  shows "scope_ok v bodies (complete_task i r s)"
proof -
  let ?t = "(sc_tasks s ! i)\<lparr>tk_handle := Complete r (tk_handle (sc_tasks s ! i)), tk_goroutine := Releasing\<rparr>"
  have "slots_ok (s\<lparr>sc_slots := sc_slots s, sc_tasks := (sc_tasks s)[i := ?t]\<rparr>)"
    using assms(1) busy_update [OF assms(2), of ?t] assms(3)
    by (simp add: scope_ok_def slots_ok_def split: option.splits)
  from task_changed [OF assms(1,2) _ _ _ this] assms(3,4) show ?thesis
    by (simp add: clean_complete over_complete complete_task_def body_of_def)
qed

lemma release_ok:
  assumes "scope_ok v bodies s" and "i < length (sc_tasks s)" and "tk_goroutine (sc_tasks s ! i) = Releasing"
  shows "scope_ok v bodies (release_slot i s)"
proof -
  let ?t = "(sc_tasks s ! i)\<lparr>tk_goroutine := Ended\<rparr>"
  let ?n = "if limiter (tk_limited (sc_tasks s ! i)) s = None then sc_slots s else sc_slots s - 1"
  have "slots_ok (s\<lparr>sc_slots := ?n, sc_tasks := (sc_tasks s)[i := ?t]\<rparr>)"
    using assms(1) busy_update [OF assms(2), of ?t] assms(3)
    by (auto simp: scope_ok_def slots_ok_def limiter_def split: option.splits if_splits)
  from task_changed [OF assms(1,2) _ _ _ this] assms(3) show ?thesis
    by (simp add: clean_release over_release release_slot_def body_of_def)
qed

lemma spawn_ok:
  assumes "scope_ok v bodies s" and "sc_joining s = None" and "sc_bodies s = (b, limited) # bs" and "has_slot limited s"
  shows "scope_ok v bodies (spawn_task b limited (s\<lparr>sc_bodies := bs\<rparr>))"
  using assms
  by (auto simp: scope_ok_def spawn_task_def slots_ok_def has_slot_def limiter_def busy_def clean_def body_of_def
      split: option.splits if_splits)

lemma leave_ok:
  assumes "scope_ok v bodies s" and "sc_joining s = None" and "sc_bodies s = []"
  shows "scope_ok v bodies (leave_tasks s)"
  using assms
  by (auto simp: scope_ok_def leave_tasks_def slots_ok_def join_ok_def intro!: exI [of _ 0] split: option.split)

lemma takes_error_error: "takes_error cur res \<Longrightarrow> is_error res"
  by (simp add: takes_error_def)

lemma slots_ok_joining [simp]: "slots_ok (s\<lparr>sc_joining := j\<rparr>) = slots_ok s"
  by (simp add: slots_ok_def split: option.split)

lemma Cons_eq_upt: "x # xs = [i..<j] \<longleftrightarrow> i < j \<and> i = x \<and> xs = [Suc i..<j]"
  using upt_eq_Cons_conv [of i j x xs] by auto

lemma join_ok_step:
  assumes ok: "scope_ok v bodies s" and s: "sc_joining s = Some (i # is, cur)"
    and d: "th_done (tk_handle (sc_tasks s ! i))"
  shows "scope_ok v bodies (join_handle r i is cur s)"
proof -
  let ?ts = "sc_tasks s" and ?n = "length (sc_tasks s)"
  have jo: "join_ok (join_bodies v (map fst bodies)) ?ts (i # is) cur" and b: "sc_bodies s = []"
    and bodies: "bodies = map body_of ?ts" and slots: "slots_ok s" and v: "sc_value s = v"
    using ok s by (auto simp: scope_ok_def)
  from jo have k: "i < ?n" "is = [Suc i..<?n]"
    by (auto simp: join_ok_def Cons_eq_upt)
  have isn: "\<forall>j\<in>set is. j < ?n" using k by simp
  have drop: "drop i (map tk_body ?ts) = tk_body (?ts ! i) # drop (Suc i) (map tk_body ?ts)"
    using k(1) by (simp add: Cons_nth_drop_Suc [symmetric])
  consider (clean) "\<forall>t\<in>set ?ts. clean t" "join_bodies v (map fst bodies) = join_bodies cur (drop i (map tk_body ?ts))"
    | (over) "\<forall>t\<in>set ?ts. clean t \<or> over t" "\<forall>j\<in>set (i # is). over (?ts ! j)" "is_error cur"
        "join_bodies v (map fst bodies) = Some cur"
    using jo unfolding join_ok_def Cons_eq_upt by metis
  then show ?thesis
  proof cases
    case clean
    obtain res where res: "th_result (tk_handle (?ts ! i)) = Some res" "tk_body (?ts ! i) = Some res"
      using clean(1) clean_done [OF _ d] k(1) by (metis nth_mem option.exhaust)
    show ?thesis
    proof (cases "takes_error cur res")
      case True
      note c = cancel_from_over [of ?ts "is" r, OF _ isn]
      have all: "\<forall>t\<in>set ?ts. clean t \<or> over t" using clean(1) by blast
      have len: "length (cancel_from r is ?ts) = ?n" using c(1) [OF all] by (metis length_map)
      have "join_ok (Some res) (cancel_from r is ?ts) is res"
        unfolding join_ok_def len using c(3,4) [OF all] k takes_error_error [OF True]
        by (intro exI [of _ "Suc i"]) auto
      moreover have "join_bodies v (map fst bodies) = Some res" using clean(2) True by (simp add: drop res(2))
      moreover have "slots_ok (join_handle r i is cur s)"
        using slots busy_same [OF c(1) [OF all] c(2) [OF all]] True
        by (simp add: slots_ok_def join_handle_def res(1) split: option.splits)
      ultimately show ?thesis
        using b bodies v True c(1) [OF all] by (simp add: scope_ok_def join_handle_def res(1))
    next
      case False
      have "join_ok (join_bodies v (map fst bodies)) ?ts is cur"
        unfolding join_ok_def using clean k False by (intro exI [of _ "Suc i"]) (simp add: drop res(2))
      then show ?thesis using False b bodies v slots by (simp add: scope_ok_def join_handle_def res(1))
    qed
  next
    case over
    have "join_ok (join_bodies v (map fst bodies)) ?ts is cur"
      unfolding join_ok_def using over k by (intro exI [of _ "Suc i"]) auto
    moreover have "\<not> takes_error cur res" for res using over(3) by (simp add: takes_error_def)
    ultimately show ?thesis
      using b bodies v slots by (simp add: scope_ok_def join_handle_def split: option.split)
  qed
qed

lemma step_ok: "task_step s s' \<Longrightarrow> scope_ok v bodies s \<Longrightarrow> scope_ok v bodies s'"
  by (induction rule: task_step.induct)
     (simp_all add: spawn_ok complete_ok release_ok leave_ok join_ok_step)

lemma reachable_ok: "task_step\<^sup>*\<^sup>* (enter_tasks limit v bodies) s \<Longrightarrow> scope_ok v bodies s"
  by (induction rule: rtranclp_induct) (auto intro: start_ok step_ok)

section \<open>Results and termination\<close>

lemma Nil_eq_upt: "[] = [i..<j] \<longleftrightarrow> j \<le> i"
  using upt_eq_Nil_conv [of i j] eq_commute [of "[]" "[i..<j]"] by auto

lemma joined_result: "scope_ok v bodies s \<Longrightarrow> has_joined s x \<Longrightarrow> join_bodies v (map fst bodies) = Some x"
  by (auto simp: scope_ok_def has_joined_def join_ok_def Nil_eq_upt)

lemma foldl_join_error: "is_error cur \<Longrightarrow> foldl join_result cur rs = cur"
  by (induction rs) (simp_all add: join_result_def)

lemma join_bodies_foldl: "join_bodies v (map Some rs) = Some (foldl join_result v rs)"
proof (induction rs arbitrary: v)
  case (Cons r rs)
  have "join_result v r = (if takes_error v r then r else v)" by (simp add: join_result_def takes_error_def)
  then show ?case using Cons [of v] foldl_join_error [OF takes_error_error [of v r]] by simp
qed simp

lemma join_bodies_stuck:
  "\<forall>r\<in>set rs. \<not> is_error r \<Longrightarrow> join_bodies v (map Some rs @ None # bs) = None"
  by (induction rs) (auto simp: takes_error_def)











lemma step_limit: "task_step s s' \<Longrightarrow> sc_limit s' = sc_limit s"
  by (induction rule: task_step.induct)
     (auto simp: spawn_task_def complete_task_def release_slot_def leave_tasks_def join_handle_def split: option.split)

lemma reachable_limit: "task_step\<^sup>*\<^sup>* s s' \<Longrightarrow> sc_limit s' = sc_limit s"
  by (induction rule: rtranclp_induct) (simp_all add: step_limit)

section \<open>Theorems\<close>

text \<open>C5: For tasks that return, with results that do not depend on the schedule: in whatever order
  the goroutines of a scope run, with any limit, if the join ends then its result is the one that
  \<open>executeTaskHandlesInCurrentScope\<close> of the virtual machine computes by folding these results in
  the order of the spawns.\<close>

theorem concurrent_join_is_sequential:
  assumes "task_step\<^sup>*\<^sup>* (enter_tasks limit v bodies) s" and "has_joined s x"
    and "map fst bodies = map Some rs"
    and "taskScopes m = Some hs # ss" and "map (\<lambda>t. task_results h ! t) hs = rs"
  shows "executeTaskHandlesInCurrentScope v m h = Val x (m\<lparr>taskScopes := ss\<rparr>) h"
proof -
  have "x = foldl join_result v rs"
    using joined_result [OF reachable_ok [OF assms(1)] assms(2)] by (simp add: join_bodies_foldl assms(3))
  moreover have "foldl (\<lambda>cur t. join_result cur (task_results h ! t)) v hs = foldl join_result v rs"
    unfolding assms(5) [symmetric] by (simp add: foldl_map)
  ultimately show ?thesis
    by (simp add: executeTaskHandlesInCurrentScope_def bindE_def getV_def getH_def modV_def ret_def assms(4))
qed

definition sample_error :: obj where
  "sample_error = ErrorO 0 ''failed'' ''RuntimeError'' [] [] 0"

lemma sample_takes: "takes_error NilO sample_error" "\<not> takes_error x NilO"
  by (simp_all add: takes_error_def is_error_def obj_type_def sample_error_def)

text \<open>
  A run with three bodies, where the second never returns and the third fails: the first and the
  third return, in this order, before the scope is left and has joined the first. The second body
  is spawned in a plain block.
\<close>

definition sample_bodies :: "(obj option \<times> bool) list" where
  "sample_bodies = [(Some NilO, True), (None, False), (Some sample_error, True)]"

definition sample_state :: task_scope where
  "sample_state =
     \<lparr>sc_bodies = [], sc_limit = Some 2, sc_slots = 2,
      sc_tasks =
        [\<lparr>tk_body = Some NilO, tk_limited = True, tk_handle = Complete NilO NewVMTaskHandle, tk_goroutine = Releasing\<rparr>,
         \<lparr>tk_body = None, tk_limited = False, tk_handle = NewVMTaskHandle, tk_goroutine = Running\<rparr>,
         \<lparr>tk_body = Some sample_error, tk_limited = True, tk_handle = Complete sample_error NewVMTaskHandle,
          tk_goroutine = Releasing\<rparr>],
      sc_value = NilO, sc_joining = Some ([1, 2], NilO)\<rparr>"

lemma sample_state_reached: "task_step\<^sup>*\<^sup>* (enter_tasks (Some 2) NilO sample_bodies) sample_state"
proof -
  define s0 where "s0 = enter_tasks (Some 2) NilO sample_bodies"
  define s1 where "s1 = spawn_task (Some NilO) True (s0\<lparr>sc_bodies := tl sample_bodies\<rparr>)"
  define s2 where "s2 = spawn_task None False (s1\<lparr>sc_bodies := tl (tl sample_bodies)\<rparr>)"
  define s3 where "s3 = spawn_task (Some sample_error) True (s2\<lparr>sc_bodies := []\<rparr>)"
  define s4 where "s4 = complete_task 0 NilO s3"
  define s5 where "s5 = complete_task 2 sample_error s4"
  define s6 where "s6 = leave_tasks s5"
  note defs = s6_def s5_def s4_def s3_def s2_def s1_def s0_def enter_tasks_def spawn_task_def complete_task_def
    leave_tasks_def sample_bodies_def has_slot_def limiter_def
  have 1: "task_step s0 s1" unfolding s1_def by (rule task_step.spawn) (simp_all add: defs)
  have 2: "task_step s1 s2" unfolding s2_def by (rule task_step.spawn) (simp_all add: defs)
  have 3: "task_step s2 s3" unfolding s3_def by (rule task_step.spawn) (simp_all add: defs)
  have 4: "task_step s3 s4" unfolding s4_def by (rule task_step.complete) (simp_all add: defs)
  have 5: "task_step s4 s5" unfolding s5_def by (rule task_step.complete) (simp_all add: defs)
  have 6: "task_step s5 s6" unfolding s6_def by (rule task_step.leave) (simp_all add: defs)
  have 7: "task_step s6 (join_handle 0 0 [1, 2] NilO s6)"
    by (rule task_step.join) (simp_all add: defs Complete_def NewVMTaskHandle_def upt_rec)
  have "join_handle 0 0 [1, 2] NilO s6 = sample_state"
    by (simp add: defs join_handle_def Complete_def NewVMTaskHandle_def sample_takes sample_state_def)
  note last = 7 [unfolded this]
  note converse_rtranclp_into_rtranclp [OF 4 converse_rtranclp_into_rtranclp [OF 5 converse_rtranclp_into_rtranclp
    [OF 6 r_into_rtranclp [of task_step, OF last]]]]
  from converse_rtranclp_into_rtranclp [OF 1 converse_rtranclp_into_rtranclp [OF 2 converse_rtranclp_into_rtranclp [OF 3 this]]]
  show ?thesis unfolding s0_def .
qed

lemma sample_join:
  "\<exists>s. task_step\<^sup>*\<^sup>* (enter_tasks (Some 1) NilO [(Some NilO, True)]) s \<and> has_joined s NilO"
proof -
  define s0 where "s0 = enter_tasks (Some 1) NilO [(Some NilO, True)]"
  define s1 where "s1 = spawn_task (Some NilO) True (s0\<lparr>sc_bodies := []\<rparr>)"
  define s2 where "s2 = complete_task 0 NilO s1"
  define s3 where "s3 = leave_tasks s2"
  define s4 where "s4 = join_handle 0 0 [] NilO s3"
  note defs = s4_def s3_def s2_def s1_def s0_def enter_tasks_def spawn_task_def complete_task_def
    leave_tasks_def join_handle_def Complete_def NewVMTaskHandle_def has_slot_def limiter_def takes_error_def
  have 1: "task_step s0 s1" unfolding s1_def by (rule task_step.spawn) (simp_all add: defs)
  have 2: "task_step s1 s2" unfolding s2_def by (rule task_step.complete) (simp_all add: defs)
  have 3: "task_step s2 s3" unfolding s3_def by (rule task_step.leave) (simp_all add: defs)
  have 4: "task_step s3 s4" unfolding s4_def by (rule task_step.join) (simp_all add: defs)
  have "has_joined s4 NilO" by (simp add: has_joined_def defs is_error_def obj_type_def)
  then show ?thesis using 1 2 3 4 unfolding s0_def [symmetric]
    by (meson rtranclp.rtrancl_refl rtranclp.rtrancl_into_rtrancl)
qed

theorem concurrent_join_is_sequential_witness:
  "executeTaskHandlesInCurrentScope NilO ((NewExecutor 0)\<lparr>taskScopes := [Some [0]]\<rparr>)
     (empty_heap\<lparr>task_results := [NilO]\<rparr>) =
   Val NilO (((NewExecutor 0)\<lparr>taskScopes := [Some [0]]\<rparr>)\<lparr>taskScopes := []\<rparr>) (empty_heap\<lparr>task_results := [NilO]\<rparr>)"
proof -
  obtain s where "task_step\<^sup>*\<^sup>* (enter_tasks (Some 1) NilO [(Some NilO, True)]) s" "has_joined s NilO"
    using sample_join by blast
  from concurrent_join_is_sequential [OF this, of "[NilO]"] show ?thesis by simp
qed



text \<open>C8: A task that never returns keeps the scope waiting although a task spawned after it has
  failed: as handles are awaited in the order of the spawns, the failure is not seen, and no task
  is cancelled for it, so that every handle that is done has the result of its own body.\<close>

theorem hanging_task_hides_failure:
  assumes "\<forall>r\<in>set rs. \<not> is_error r" and "map fst bodies = map Some rs @ None # rest"
    and "task_step\<^sup>*\<^sup>* (enter_tasks limit v bodies) s"
  shows "\<not> has_joined s x \<and> (\<forall>t\<in>set (sc_tasks s). th_done (tk_handle t) \<longrightarrow> th_result (tk_handle t) = tk_body t)"
proof -
  have ok: "scope_ok v bodies s" using assms(3) by (rule reachable_ok)
  have none: "join_bodies v (map fst bodies) = None" using join_bodies_stuck [OF assms(1)] assms(2) by simp
  then have "\<forall>t\<in>set (sc_tasks s). clean t" using ok by (auto simp: scope_ok_def join_ok_def split: option.splits)
  then show ?thesis using clean_done joined_result [OF ok] none by fastforce
qed

theorem hanging_task_hides_failure_witness:
  "sc_joining sample_state = Some ([1, 2], NilO) \<and>
   th_result (tk_handle (sc_tasks sample_state ! 2)) = Some sample_error \<and> is_error sample_error \<and>
   (\<forall>x. \<not> has_joined sample_state x)"
proof -
  have "\<not> has_joined sample_state x" for x
    using hanging_task_hides_failure [OF _ _ sample_state_reached, of "[NilO]" "[Some sample_error]"]
    by (simp add: sample_bodies_def is_error_def obj_type_def)
  then show ?thesis by (simp add: sample_state_def Complete_def NewVMTaskHandle_def is_error_def obj_type_def sample_error_def)
qed

text \<open>C7: The goroutines that were spawned under the limit of a scope and have not given their slot
  back are never more than the limit allows. A spawn in a plain block inside the scope takes no
  slot and is not counted.\<close>

theorem task_limit_respected:
  assumes "task_step\<^sup>*\<^sup>* (enter_tasks (Some n) v bodies) s"
  shows "length (filter (\<lambda>t. tk_limited t \<and> tk_goroutine t \<noteq> Ended) (sc_tasks s)) \<le> n"
proof -
  have "sc_limit s = Some n" using reachable_limit [OF assms] by (simp add: enter_tasks_def)
  then show ?thesis using reachable_ok [OF assms] by (simp add: scope_ok_def slots_ok_def busy_def)
qed

theorem task_limit_respected_witness:
  "length (filter (\<lambda>t. tk_limited t \<and> tk_goroutine t \<noteq> Ended) (sc_tasks sample_state)) \<le> 2 \<and> length (sc_tasks sample_state) = 3"
  using task_limit_respected [OF sample_state_reached] by (simp add: sample_state_def)

text \<open>Spawns in plain blocks do not count: any number of them runs at once, whatever the limit.\<close>

lemma spawns_run:
  "sc_joining s = None \<Longrightarrow> sc_bodies s = map (\<lambda>b. (b, False)) bs \<Longrightarrow>
     \<exists>s'. task_step\<^sup>*\<^sup>* s s' \<and>
       length (filter (\<lambda>t. tk_goroutine t = Running) (sc_tasks s')) =
       length (filter (\<lambda>t. tk_goroutine t = Running) (sc_tasks s)) + length bs"
proof (induction bs arbitrary: s)
  case (Cons b bs)
  let ?s = "spawn_task b False (s\<lparr>sc_bodies := map (\<lambda>b. (b, False)) bs\<rparr>)"
  have "task_step s ?s" using Cons.prems by (intro task_step.spawn) (simp_all add: has_slot_def limiter_def)
  moreover obtain s' where "task_step\<^sup>*\<^sup>* ?s s'"
    "length (filter (\<lambda>t. tk_goroutine t = Running) (sc_tasks s')) =
     length (filter (\<lambda>t. tk_goroutine t = Running) (sc_tasks ?s)) + length bs"
    using Cons.IH [of ?s] Cons.prems by (auto simp: spawn_task_def)
  ultimately show ?case by (intro exI [of _ s']) (auto simp: spawn_task_def intro: converse_rtranclp_into_rtranclp)
qed auto

lemma nested_spawns_unlimited:
  "\<exists>s. task_step\<^sup>*\<^sup>* (enter_tasks limit v (map (\<lambda>b. (b, False)) bs)) s \<and>
     length (filter (\<lambda>t. tk_goroutine t = Running) (sc_tasks s)) = length bs"
  using spawns_run [of "enter_tasks limit v (map (\<lambda>b. (b, False)) bs)" bs] by (simp add: enter_tasks_def)

end
