(* ===== verification/Select_Laws.thy ===== *)
theory Select_Laws
  imports Executor Environment_Laws
begin

text \<open>
  What \<open>evalSelect\<close> does with the list of its cases and the list of its entries: the two differ by
  the cases \<open>after 0\<close>, which have an entry but nothing that \<open>reflect.Select\<close> waits for.
\<close>

section \<open>Cases and entries\<close>

definition zero_after :: "vmSelectEvalCase \<Rightarrow> bool" where
  "zero_after ev \<longleftrightarrow>
     ev_kind ev = SelectAfter \<and> (case ev_afterVal ev of Some (NumberO n) \<Rightarrow> ToInt64 n = 0 | _ \<Rightarrow> False)"

text \<open>The case that stands for an entry.\<close>

definition stands_for :: "ReflectCase \<Rightarrow> vmSelectEvalCase \<Rightarrow> bool" where
  "stands_for k ev \<longleftrightarrow>
     (case ev_kind ev of
        SelectRecv \<Rightarrow> \<exists>c. k = RecvOn c \<and> ev_channel ev = Some c
      | SelectSend \<Rightarrow> \<exists>c x. (k = SendOn c x \<or> k = RecvReady) \<and> ev_channel ev = Some c \<and> ev_sendValue ev = Some x
      | SelectAfter \<Rightarrow>
          \<exists>n. k = RecvTimer (wrap64 (ToInt64 n * 1000000)) \<and> ev_afterVal ev = Some (NumberO n) \<and> ToInt64 n > 0
      | SelectAwait \<Rightarrow> \<exists>t. k = RecvDone t \<and> ev_awaitTask ev = Some t
      | SelectDefault \<Rightarrow> k = DefaultCase)"

definition case_list_ok :: "ReflectCase list \<Rightarrow> vmSelectEvalCase \<Rightarrow> bool" where
  "case_list_ok ks ev \<longleftrightarrow> (if zero_after ev then ks = [] else \<exists>k. ks = [k] \<and> stands_for k ev)"

lemma bindE_Val:
  "bindE m f v h = Val a v' h' \<longleftrightarrow> (\<exists>b v1 h1. m v h = Val b v1 h1 \<and> f b v1 h1 = Val a v' h')"
  by (cases "m v h") (simp_all add: bindE_def)

lemma no_Val: "fail pos msg v h \<noteq> Val a v' h'" "stop x v h \<noteq> Val a v' h'"
  by (simp_all add: fail_def bindE_def stop_def split: outcome.split)

lemma ret_Val: "ret a v h = Val b v' h' \<longleftrightarrow> a = b \<and> v = v' \<and> h = h'"
  by (simp add: ret_def)

lemma getH_Val: "getH f v h = Val b v' h' \<longleftrightarrow> b = f h \<and> v = v' \<and> h = h'"
  by (auto simp: getH_def)

lemmas exec_Val = bindE_Val no_Val ret_Val getH_Val

lemma select_channel_Val: "select_channel what pos x v h = Val c v' h' \<Longrightarrow> x = ChannelO c"
  by (auto simp: select_channel_def exec_Val split: obj.splits)

lemma select_case_ok:
  assumes "select_case C R k ch spec ev v h = Val (ks, ev') v' h'" and "ev_kind ev = ss_Kind spec"
  shows "case_list_ok ks ev' \<and> ev_kind ev' = ev_kind ev \<and> ev_handlerFn ev' = ev_handlerFn ev"
proof (cases "ss_Kind spec")
  case SelectAfter
  then obtain x v1 h1 where
    "(case x of
        NumberO n \<Rightarrow>
          let ms = ToInt64 n
          in if ms < 0 then fail (ss_TokenPos spec) ''after expects a non-negative duration''
             else ret (if ms > 0 then [RecvTimer (wrap64 (ms * 1000000))] else [], ev\<lparr>ev_afterVal := Some x\<rparr>)
      | _ \<Rightarrow> fail (ss_TokenPos spec) ''after expects a number (ms)'') v1 h1 = Val (ks, ev') v' h'"
    using assms(1) by (auto simp: select_case_def bindE_Val Let_def)
  then show ?thesis
    using SelectAfter assms(2)
    by (cases x) (auto simp: exec_Val Let_def case_list_ok_def zero_after_def stands_for_def split: if_splits)
next
  case SelectAwait
  then obtain x v1 h1 where
    "(case x of
        TaskHandleO t \<Rightarrow> ret ([RecvDone t], ev\<lparr>ev_awaitTask := Some t\<rparr>)
      | _ \<Rightarrow> fail (ss_TokenPos spec) (''await expects a task handle, got '' @ obj_type x)) v1 h1 = Val (ks, ev') v' h'"
    using assms(1) by (auto simp: select_case_def bindE_Val Let_def)
  then show ?thesis
    using SelectAwait assms(2)
    by (cases x) (auto simp: exec_Val case_list_ok_def zero_after_def stands_for_def)
qed (use assms in \<open>auto simp: select_case_def exec_Val case_list_ok_def zero_after_def stands_for_def Let_def
        split: if_splits\<close>)

lemma select_cases_ok:
  "select_cases C R k ch seen specs v h = Val (cases, evals) v' h' \<Longrightarrow>
     \<exists>kss. cases = concat kss \<and> list_all2 case_list_ok kss evals \<and> map ev_kind evals = map ss_Kind specs"
proof (induction specs arbitrary: seen v h cases evals v' h')
  case (Cons spec specs)
  obtain handler v1 h1 ks ev v2 h2 cases1 evals1 where
    1: "select_case C R k ch spec (new_eval spec handler) v1 h1 = Val (ks, ev) v2 h2"
    and 2: "select_cases C R k ch (seen \<or> ss_Kind spec = SelectDefault) specs v2 h2 = Val (cases1, evals1) v' h'"
    and 3: "cases = ks @ cases1" "evals = ev # evals1"
    using Cons.prems by (auto simp: exec_Val split: if_splits prod.splits)
  obtain kss where "cases1 = concat kss" "list_all2 case_list_ok kss evals1" "map ev_kind evals1 = map ss_Kind specs"
    using Cons.IH [OF 2] by blast
  moreover have "case_list_ok ks ev" "ev_kind ev = ss_Kind spec"
    using select_case_ok [OF 1] by (simp_all add: new_eval_def)
  ultimately show ?case using 3 by (intro exI [of _ "ks # kss"]) simp
qed (simp add: exec_Val)

lemma case_offset:
  "list_all2 case_list_ok kss evals \<Longrightarrow> i < length (concat kss) \<Longrightarrow>
     \<exists>j<length evals. stands_for (concat kss ! i) (evals ! j) \<and> j = i + length (filter zero_after (take j evals))"
proof (induction kss evals arbitrary: i rule: list_all2_induct)
  case (Cons ks kss ev evals)
  show ?case
  proof (cases "zero_after ev")
    case True
    then have "ks = []" using Cons.hyps(1) by (simp add: case_list_ok_def)
    then obtain j where "j < length evals" "stands_for (concat kss ! i) (evals ! j)"
        "j = i + length (filter zero_after (take j evals))"
      using Cons.IH [of i] Cons.prems by auto
    then show ?thesis using True \<open>ks = []\<close> by (intro exI [of _ "Suc j"]) simp
  next
    case False
    then obtain k where k: "ks = [k]" "stands_for k ev" using Cons.hyps(1) by (auto simp: case_list_ok_def)
    show ?thesis
    proof (cases i)
      case 0
      then show ?thesis using k by (intro exI [of _ 0]) simp
    next
      case (Suc i')
      then obtain j where "j < length evals" "stands_for (concat kss ! i') (evals ! j)"
          "j = i' + length (filter zero_after (take j evals))"
        using Cons.IH [of i'] Cons.prems k by auto
      then show ?thesis using False Suc k by (intro exI [of _ "Suc j"]) simp
    qed
  qed
qed simp

lemma case_list_length: "list_all2 case_list_ok kss evals \<Longrightarrow> length (concat kss) \<le> length evals"
  by (induction rule: list_all2_induct) (auto simp: case_list_ok_def split: if_splits)

lemma case_list_shorter:
  "list_all2 case_list_ok kss evals \<Longrightarrow> ev \<in> set evals \<Longrightarrow> zero_after ev \<Longrightarrow> length (concat kss) < length evals"
proof (induction rule: list_all2_induct)
  case (Cons ks kss e evals)
  then show ?case
    using case_list_length [OF Cons.hyps(2)] by (cases "zero_after e") (auto simp: case_list_ok_def [of ks e])
qed simp

section \<open>Theorems\<close>

text \<open>C9: The entry that \<open>evalSelect\<close> takes has the index of the case that was chosen, whereas the
  case belongs to the entry that many places further on as there are cases \<open>after 0\<close> before it.
  So the right handler runs, with the received value, exactly if none of these comes first.\<close>

theorem select_entry_offset:
  assumes "Select q \<noteq> []"
    and "select_cases C R k ch False (Select q) v h = Val (cases, evals) v1 h1"
    and "reflect_Select C cases v1 h1 = Val (i, recv) v2 h2"
  shows "(\<exists>j<length evals. stands_for (cases ! i) (evals ! j) \<and> j = i + length (filter zero_after (take j evals))) \<and>
         evalSelect C R k ch q v h =
           bindE (selected_value (evals ! i) recv) (\<lambda>val.
             case ev_handlerFn (evals ! i) of
               None \<Rightarrow> push val
             | Some f \<Rightarrow>
                 bindE (invokeVMFunction C R k f [val] [] (ev_tokenPos (evals ! i))) (\<lambda>res.
                 bindE (stop_at_error res) push)) v2 h2"
proof
  obtain kss where kss: "cases = concat kss" "list_all2 case_list_ok kss evals"
    using select_cases_ok [OF assms(2)] by blast
  have "i < length cases"
    using assms(3) by (auto simp: reflect_Select_def may_take_def split: option.splits if_splits ReflectCase.splits prod.splits)
  then show "\<exists>j<length evals. stands_for (cases ! i) (evals ! j) \<and> j = i + length (filter zero_after (take j evals))"
    using case_offset [OF kss(2)] kss(1) by simp
qed (use assms in \<open>simp add: evalSelect_def bindE_def Let_def\<close>)

text \<open>
  The thunks of the number 0 and of a global variable \<open>c\<close>, as the compiler makes them, in a store
  where \<open>c\<close> is a channel without a buffer; and selects with a receive from \<open>c\<close>, deadlines of 0
  milliseconds, and a default.
\<close>

abbreviation zero_chunk :: Chunk where
  "zero_chunk \<equiv> Chunk [ins_int OpConstant 0 0, ins OpReturn 0] [NumberConst dec_ZERO]"

abbreviation name_chunk :: Chunk where
  "name_chunk \<equiv> Chunk [ins_str OpGetGlobal ''c'' 0, ins OpReturn 0] []"

definition select_chunk :: Chunk where
  "select_chunk = Chunk [] (map (\<lambda>ch. FunctionConst (VMFunction [] [] [] [] ch (FSig [] 0 0 False) [])) [zero_chunk, name_chunk])"

definition select_ins :: "SelectCaseType list \<Rightarrow> Instruction" where
  "select_ins kinds = Instruction OpSelect 0 [] [] [] (map (\<lambda>kind. SelectCaseSpec kind 0 1 0 0 0 (- 1)) kinds) 0"

definition select_config :: config where
  "select_config =
     \<lparr>cfg_Inspect = (\<lambda>_. []), cfg_SymbolId = (\<lambda>_. 0), cfg_TagString = (\<lambda>_. []), cfg_Call = None,
      cfg_Select = (\<lambda>ks _. if ks = [] then None else Some 0)\<rparr>"

definition select_root :: heap where
  "select_root = bind_name 0 ''c'' 0 (snd (NewRootEnvironment 4 (empty_heap
     \<lparr>bindings := [\<lparr>bn_Value = Some (ChannelO 0), bn_Err = None, bn_Meta = no_meta, bn_IsMutable = False\<rparr>],
      channels := [NewChannel 0]\<rparr>)))"

abbreviation select_runner :: runner where
  "select_runner \<equiv> run_chunk select_config (Suc (Suc (Suc 0)))"

lemma zero_chunk_returns: "select_runner zero_chunk (NewExecutor e) h = Stop (NumberO dec_ZERO) (NewExecutor e) h"
  by (simp add: run_chunk_def run.simps NewExecutor_def bindE_def modV_def step_def ins_int_def ins_def perform_op_def
      LoadConstant_def bindClosureIfNeeded_def ret_def push_def Return_def pop_option_def return_unwound_def getV_def stop_def)

definition select_after :: "heap \<Rightarrow> heap" where
  "select_after h = snd (NewEnclosedEnvironment 0 None (h\<lparr>next_ref := next_ref h + 1\<rparr>))"

lemma TrimSpace_Nil: "TrimSpace [] = []"
  by code_simp

lemmas operand_run = select_operand_def selectThunkByIndex_def select_chunk_def bindClosureIfNeeded_def fresh_def onH_def
  bindE_def ret_def getV_def invokeVMFunction_def catchE_def bindVMArgumentsInto_def bind_slots_def
  bind_positional_def has_variadic_def liftM_def Let_def NewEnclosedEnvironment_def alloc_env_def
  setVMCallFrameParams_def modV_def in_child_def NewExecutor_def TrimSpace_Nil stop_at_error_def select_after_def

lemma zero_operand:
  "select_operand select_config select_runner (Suc 0) select_chunk 0 0 (NewExecutor 0) h =
     Val (NumberO dec_ZERO) (NewExecutor 0) (select_after h)"
  using zero_chunk_returns [unfolded NewExecutor_def] by (simp add: operand_run)

lemma root_parts: "length (envs select_root) = 1" "channels select_root = [NewChannel 0]"
  by (simp_all add: select_root_def bind_name_def NewRootEnvironment_def alloc_env_def empty_heap_def)

lemma after_parts: "channels (select_after h) = channels h"
  by (simp add: select_after_def NewEnclosedEnvironment_def alloc_env_def Let_def)

lemma root_binding: "env_Get (select_after select_root) 1 ''c'' = Some (Some (ChannelO 0))"
  by (simp add: env_Get_def GetBinding.simps [of _ "Suc 0"] GetBinding.simps [of _ 0] select_after_def select_root_def
      bind_name_def NewRootEnvironment_def NewEnclosedEnvironment_def alloc_env_def empty_heap_def Let_def)

lemma name_chunk_returns:
  "select_runner name_chunk (NewExecutor 1) (select_after select_root) =
     Stop (ChannelO 0) (NewExecutor 1) (select_after select_root)"
  using root_binding
  by (simp add: run_chunk_def run.simps NewExecutor_def bindE_def modV_def step_def ins_str_def ins_def perform_op_def
      GetGlobal_def read_name_def onH_env_def onH_def resolveValue_def getH_def resolve_loop.simps liftF_def ret_def push_def
      Return_def pop_option_def return_unwound_def getV_def stop_def)

lemma name_operand:
  "select_operand select_config select_runner (Suc 0) select_chunk 1 0 (NewExecutor 0) select_root =
     Val (ChannelO 0) (NewExecutor 0) (select_after select_root)"
  using name_chunk_returns [unfolded NewExecutor_def] root_parts by (simp add: operand_run)

abbreviation sample_select :: "SelectCaseType list \<Rightarrow> (ReflectCase list \<times> vmSelectEvalCase list) outcome" where
  "sample_select kinds \<equiv>
     select_cases select_config select_runner (Suc 0) select_chunk False (Select (select_ins kinds)) (NewExecutor 0) select_root"

definition sample_eval :: "SelectCaseType \<Rightarrow> vmSelectEvalCase" where
  "sample_eval kind =
     \<lparr>ev_kind = kind, ev_tokenPos = 0, ev_channel = None, ev_sendValue = None,
      ev_afterVal = (if kind = SelectAfter then Some (NumberO dec_ZERO) else None), ev_awaitTask = None, ev_handlerFn = None\<rparr>"

lemma ToInt64_ZERO: "ToInt64 dec_ZERO = 0"
  by code_simp

lemma sample_select_runs:
  "sample_select [SelectAfter, SelectDefault] =
     Val ([DefaultCase], [sample_eval SelectAfter, sample_eval SelectDefault]) (NewExecutor 0) (select_after select_root)"
  by (simp add: select_ins_def select_case_def select_handler_def zero_operand bindE_def ret_def Let_def
      ToInt64_ZERO new_eval_def sample_eval_def)

theorem select_entry_offset_witness:
  "evalSelect select_config select_runner (Suc 0) select_chunk (select_ins [SelectAfter, SelectDefault]) (NewExecutor 0) select_root =
     push (NumberO dec_ZERO) (NewExecutor 0) (select_after select_root)"
proof -
  have "reflect_Select select_config [DefaultCase] (NewExecutor 0) (select_after select_root) =
      Val (0, None) (NewExecutor 0) (select_after select_root)"
    by (simp add: reflect_Select_def select_config_def may_take_def case_ready_def)
  from select_entry_offset [OF _ sample_select_runs this] show ?thesis
    by (simp add: select_ins_def selected_value_def sample_eval_def bindE_def ret_def or_nil_def)
qed

text \<open>
  What a select of receives and deadlines of no time does, by its entries: a channel is silent if
  a receive from it has to wait.
\<close>

definition silent_receive :: "Channel list \<Rightarrow> vmSelectEvalCase \<Rightarrow> bool" where
  "silent_receive cs ev \<longleftrightarrow>
     ev_kind ev = SelectRecv \<and> (\<exists>c. ev_channel ev = Some c \<and> ch_buffer (cs ! c) = [] \<and> \<not> ch_closed (cs ! c))"

lemma silent_cases:
  assumes "list_all2 case_list_ok kss evals" and "\<forall>ev\<in>set evals. zero_after ev \<or> silent_receive cs ev"
    and "k \<in> set (concat kss)"
  shows "\<exists>c. k = RecvOn c \<and> \<not> can_receive (cs ! c)"
  using assms
proof (induction rule: list_all2_induct)
  case (Cons ks kss ev evals)
  then show ?case
    by (cases "zero_after ev")
       (auto simp: case_list_ok_def [of ks ev] stands_for_def silent_receive_def can_receive_def split: if_splits)
qed simp

text \<open>C10: A deadline of no time is not seen. Whatever entries a select has evaluated, if one of them
  is an \<open>after\<close> of 0 milliseconds and the others are such deadlines too or receives from channels
  that are open and empty, then the select blocks until a channel becomes ready, on this machine,
  where nothing else runs, for ever: the deadline, which has run out, adds no case that
  \<open>reflect.Select\<close> could choose.\<close>

theorem select_misses_deadline:
  assumes "Select q \<noteq> []"
    and "select_cases C R k ch False (Select q) v h = Val (cases, evals) v1 h1"
    and "ev \<in> set evals" and "zero_after ev"
    and "\<forall>ev\<in>set evals. zero_after ev \<or> silent_receive (channels h1) ev"
  shows "evalSelect C R k ch q v h = OutOfFuel \<and> length cases < length evals"
proof
  obtain kss where kss: "cases = concat kss" "list_all2 case_list_ok kss evals"
    using select_cases_ok [OF assms(2)] by blast
  have "\<not> may_take (channels h1) cases i" for i
    using silent_cases [OF kss(2) assms(5), of "cases ! i"] kss(1) nth_mem [of i cases]
    by (fastforce simp: may_take_def case_ready_def)
  then have "reflect_Select C cases v1 h1 = OutOfFuel"
    by (simp add: reflect_Select_def split: option.split)
  then show "evalSelect C R k ch q v h = OutOfFuel"
    using assms(1,2) by (simp add: evalSelect_def bindE_def)
  show "length cases < length evals"
    using case_list_shorter [OF kss(2) assms(3,4)] kss(1) by simp
qed

definition recv_eval :: vmSelectEvalCase where
  "recv_eval =
     \<lparr>ev_kind = SelectRecv, ev_tokenPos = 0, ev_channel = Some 0, ev_sendValue = None, ev_afterVal = None,
      ev_awaitTask = None, ev_handlerFn = None\<rparr>"

lemma recv_select_runs:
  "sample_select [SelectRecv, SelectAfter] =
     Val ([RecvOn 0], [recv_eval, sample_eval SelectAfter]) (NewExecutor 0) (select_after (select_after select_root))"
  by (simp add: select_ins_def select_case_def select_handler_def name_operand zero_operand select_channel_def
      bindE_def ret_def Let_def ToInt64_ZERO new_eval_def sample_eval_def recv_eval_def)

theorem select_misses_deadline_witness:
  "evalSelect select_config select_runner (Suc 0) select_chunk (select_ins [SelectRecv, SelectAfter]) (NewExecutor 0) select_root =
     OutOfFuel"
  using select_misses_deadline [OF _ recv_select_runs, of "sample_eval SelectAfter"]
  by (simp add: select_ins_def sample_eval_def zero_after_def ToInt64_ZERO silent_receive_def recv_eval_def after_parts
      root_parts NewChannel_def)

text \<open>A handler that throws gives the select a value: the error is pushed, and the run goes on.\<close>

lemma select_pushes_thrown_error:
  assumes "Select q \<noteq> []" and "select_cases C R k ch False (Select q) v h = Val (cases, evals) v1 h1"
    and "reflect_Select C cases v1 h1 = Val (i, recv) v2 h2"
    and "selected_value (evals ! i) recv v2 h2 = Val x v3 h3" and "ev_handlerFn (evals ! i) = Some f"
    and "invokeVMFunction C R k f [x] [] (ev_tokenPos (evals ! i)) v3 h3 = Val (RuntimeErrorO r payload trace cause) v4 h4"
  shows "evalSelect C R k ch q v h = push (RuntimeErrorO r payload trace cause) v4 h4"
  using assms by (simp add: evalSelect_def bindE_def Let_def stop_at_error_def ret_def)

end
