(* ===== verification/Format.thy ===== *)
theory Format
  imports Executor Dec64_Text
begin

text \<open>
  \<open>internal/foreign/slug_std_fmt.go\<close>: the formatting of values by a format string with
  placeholders. A string is its bytes; an error is its message. \<open>Inspect\<close> of objects other than
  numbers and strings is a parameter.
\<close>

section \<open>Placeholders\<close>

record formatSpec =
  fs_align :: "char option"
  fs_width :: int
  fs_precision :: "int option"
  fs_verb :: string
  fs_grouping :: bool
  fs_percent :: bool

definition no_spec :: formatSpec where
  "no_spec = \<lparr>fs_align = None, fs_width = 0, fs_precision = None, fs_verb = [], fs_grouping = False, fs_percent = False\<rparr>"

record placeholder =
  ph_index :: int
  ph_isAuto :: bool
  ph_spec :: formatSpec

definition Atoi :: "string \<Rightarrow> int option" where
  \<comment> \<open>\<open>strconv.Atoi\<close> of one or more digits\<close>
  "Atoi s = (if digits_value s > max_int64 then None else Some (digits_value s))"

definition show_byte :: "char \<Rightarrow> string" where
  \<comment> \<open>\<open>%c\<close> of a byte\<close>
  "show_byte c = EncodeRune (of_char c)"

text \<open>The flags after alignment and width, in any order but each at most once.\<close>

function parse_flags :: "string \<Rightarrow> formatSpec \<Rightarrow> string + formatSpec" where
  "parse_flags [] fs = Inr fs"
| "parse_flags (c # rest) fs =
     (if c = CHR ''.'' then
        if fs_precision fs \<noteq> None then Inl ''duplicate precision''
        else if takeWhile is_decimal rest = [] then Inl ''precision missing digits''
        else
          (case Atoi (takeWhile is_decimal rest) of
             None \<Rightarrow> Inl ''invalid precision''
           | Some n \<Rightarrow> parse_flags (dropWhile is_decimal rest) (fs\<lparr>fs_precision := Some n\<rparr>))
      else if c \<in> {CHR ''f'', CHR ''d'', CHR ''s''} then
        if fs_verb fs \<noteq> [] then Inl ''duplicate verb'' else parse_flags rest (fs\<lparr>fs_verb := [c]\<rparr>)
      else if c = CHR '','' then
        if fs_grouping fs then Inl ''duplicate grouping'' else parse_flags rest (fs\<lparr>fs_grouping := True\<rparr>)
      else if c = CHR ''%'' then
        if fs_percent fs then Inl ''duplicate percent flag'' else parse_flags rest (fs\<lparr>fs_percent := True\<rparr>)
      else Inl (''invalid format specifier '' @ [CHR 0x27] @ show_byte c @ [CHR 0x27]))"
  by pat_completeness auto
termination
  by (relation "measure (length \<circ> fst)") (auto simp: less_Suc_eq_le length_dropWhile_le)

definition parse_align :: "string \<Rightarrow> char option \<times> string" where
  "parse_align s =
     (case s of
        c # rest \<Rightarrow> if c \<in> {CHR ''<'', CHR ''>'', CHR ''^''} then (Some c, rest) else (None, s)
      | [] \<Rightarrow> (None, s))"

definition parseFormatSpec :: "string \<Rightarrow> string + formatSpec" where
  "parseFormatSpec s =
     (let (align, s) = parse_align s; ds = takeWhile is_decimal s
      in case (if ds = [] then Some 0 else Atoi ds) of
           None \<Rightarrow> Inl ''invalid width''
         | Some w \<Rightarrow> parse_flags (dropWhile is_decimal s) (no_spec\<lparr>fs_align := align, fs_width := w\<rparr>))"

definition parsePlaceholder :: "string \<Rightarrow> string + placeholder" where
  "parsePlaceholder content =
     (let place = (\<lambda>i auto spec. \<lparr>ph_index = i, ph_isAuto = auto, ph_spec = spec\<rparr>);
          spec_of = (\<lambda>i auto s. case parseFormatSpec s of Inl e \<Rightarrow> Inl e | Inr fs \<Rightarrow> Inr (place i auto fs))
      in case content of
           [] \<Rightarrow> Inr (place 0 True no_spec)
         | c # s \<Rightarrow>
             if c = CHR '':'' then spec_of 0 True s
             else
               let ds = takeWhile is_decimal content
               in if ds = [] then Inl (''expected positional index or '' @ [CHR 0x27] @ '':'' @ [CHR 0x27])
                  else case Atoi ds of
                      None \<Rightarrow> Inl ''invalid index''
                    | Some i \<Rightarrow>
                        (case dropWhile is_decimal content of
                           [] \<Rightarrow> Inr (place i False no_spec)
                         | d # rest \<Rightarrow>
                             if d \<noteq> CHR '':''
                             then Inl (''unexpected character '' @ [CHR 0x27] @ show_byte d @ [CHR 0x27])
                             else spec_of i False rest))"

section \<open>Rendering\<close>

definition fmt_abs64 :: "int \<Rightarrow> int" where
  "fmt_abs64 v = (if v < 0 then wrap64 (- v) else v)"

fun fmt_pow10_from :: "nat \<Rightarrow> int \<Rightarrow> int" where
  "fmt_pow10_from 0 r = r"
| "fmt_pow10_from (Suc n) r = fmt_pow10_from n (wrap64 (r * 10))"

definition fmt_pow10 :: "int \<Rightarrow> int" where
  "fmt_pow10 n = fmt_pow10_from (nat n) 1"

definition zeros :: "nat \<Rightarrow> string" where
  "zeros n = replicate n (CHR ''0'')"

definition applyWidth :: "string \<Rightarrow> int \<Rightarrow> char option \<Rightarrow> string" where
  "applyWidth text width align =
     (if width \<le> 0 \<or> int (length text) \<ge> width then text
      else
        let pad = nat width - length text; blanks = (\<lambda>n. replicate n (CHR '' ''))
        in if align = Some (CHR ''<'') then text @ blanks pad
           else if align = Some (CHR ''^'') then blanks (pad div 2) @ text @ blanks (pad - pad div 2)
           else blanks pad @ text)"

function comma_groups :: "string \<Rightarrow> string" where
  \<comment> \<open>groups of three, each after a comma\<close>
  "comma_groups s = (if s = [] then [] else CHR '','' # take 3 s @ comma_groups (drop 3 s))"
  by pat_completeness auto
termination by (relation "measure length") auto

declare comma_groups.simps [simp del]

definition addGrouping :: "string \<Rightarrow> string" where
  "addGrouping text =
     (let neg = (case text of c # _ \<Rightarrow> c = CHR ''-'' | [] \<Rightarrow> False);
          text = (if neg then tl text else text);
          n = length text;
          lead = (if n mod 3 = 0 then 3 else n mod 3);
          out = (if n \<le> 3 then text else take lead text @ comma_groups (drop lead text))
      in if neg then CHR ''-'' # out else out)"

definition applyGroupingIfDecimal :: "string \<Rightarrow> string" where
  "applyGroupingIfDecimal text =
     (if CHR ''e'' \<in> set text \<or> CHR ''E'' \<in> set text then text
      else if CHR ''.'' \<notin> set text then addGrouping text
      else addGrouping (takeWhile (\<lambda>c. c \<noteq> CHR ''.'') text) @ dropWhile (\<lambda>c. c \<noteq> CHR ''.'') text)"

text \<open>
  The coefficient rounded half to even to the target exponent; \<open>exp\<close> and \<open>targetExp\<close> are
  \<open>int8\<close>, and so is their difference.
\<close>

definition round_to :: "int \<Rightarrow> int \<Rightarrow> int \<Rightarrow> int" where
  "round_to coef ex targetExp =
     (let delta = wrap8 (targetExp - ex)
      in if delta > 18 then 0
         else
           let divisor = fmt_pow10 delta; q = coef sdiv divisor; r = coef smod divisor; absR = fmt_abs64 r
           in if r \<noteq> 0 \<and> (wrap64 (absR * 2) > divisor \<or> wrap64 (absR * 2) = divisor \<and> q smod 2 \<noteq> 0)
              then (if coef > 0 then q + 1 else q - 1) else q)"

definition split_digits :: "string \<Rightarrow> int \<Rightarrow> string \<times> string" where
  \<comment> \<open>the digits before and after the point\<close>
  "split_digits digits ex =
     (if ex \<ge> 0 then (digits @ zeros (nat ex), [])
      else
        let point = int (length digits) + ex
        in if point > 0 then (take (nat point) digits, drop (nat point) digits)
           else (''0'', zeros (nat (- point)) @ digits))"

definition formatFixedNumber :: "dec64 \<Rightarrow> int \<Rightarrow> bool \<Rightarrow> string" where
  "formatFixedNumber val precision grouping =
     (if dec_IsNaN val then ''NaN''
      else
        let coef = Coefficient val; ex = Exponent val;
            precision = (if precision < 0 then 0 else precision);
            targetExp = wrap8 (- precision);
            (coef, ex) = (if ex < targetExp then (round_to coef ex targetExp, targetExp) else (coef, ex));
            ex = (if coef = 0 then targetExp else ex);
            neg = coef < 0;
            (intPart, fracPart) = split_digits (show_int64 (fmt_abs64 coef)) ex;
            fracPart =
              (if precision > 0 then
                 if int (length fracPart) < precision then fracPart @ zeros (nat precision - length fracPart)
                 else take (nat precision) fracPart
               else []);
            intPart = (if grouping then addGrouping intPart else intPart);
            result = (if precision > 0 then intPart @ ''.'' @ fracPart else intPart)
        in if neg then CHR ''-'' # result else result)"

definition defaultFloatPrecision :: int where
  "defaultFloatPrecision = 6"

definition renderNumber :: "dec64 \<Rightarrow> formatSpec \<Rightarrow> string + string" where
  "renderNumber val spec =
     (if fs_verb spec = ''s'' then Inl (''unsupported verb '' @ dquoted (fs_verb spec) @ '' for number'')
      else
        let val = (if fs_percent spec then dec_Mul val (dec_New 100 0) else val);
            prec = (if fs_verb spec = ''d'' then Some 0 else fs_precision spec)
        in if prec \<noteq> None \<or> fs_verb spec = ''f'' \<or> fs_percent spec then
             let text = formatFixedNumber val (case prec of Some n \<Rightarrow> n | None \<Rightarrow> defaultFloatPrecision) (fs_grouping spec)
             in Inr (applyWidth (if fs_percent spec then text @ ''%'' else text) (fs_width spec) (fs_align spec))
           else
             let base = dec_String val
             in Inr (applyWidth (if fs_grouping spec then applyGroupingIfDecimal base else base)
                       (fs_width spec) (fs_align spec)))"

definition renderArgument :: "(obj \<Rightarrow> string) \<Rightarrow> obj \<Rightarrow> formatSpec \<Rightarrow> string + string" where
  "renderArgument inspect arg spec =
     (case arg of
        NumberO n \<Rightarrow> renderNumber n spec
      | _ \<Rightarrow>
          if fs_precision spec \<noteq> None \<or> fs_grouping spec \<or> fs_percent spec then Inl ''requires numeric value''
          else if fs_verb spec \<noteq> [] \<and> fs_verb spec \<noteq> ''s''
          then Inl (''unsupported verb '' @ dquoted (fs_verb spec) @ '' for '' @ obj_type arg)
          else
            Inr (applyWidth (case arg of StringO s \<Rightarrow> s | _ \<Rightarrow> inspect arg) (fs_width spec) (fs_align spec)))"

section \<open>Format strings\<close>

definition in_braces :: "string \<Rightarrow> string" where
  "in_braces s = ''{'' @ s @ ''}''"

definition render_placeholder :: "(obj \<Rightarrow> string) \<Rightarrow> obj list \<Rightarrow> nat \<Rightarrow> string \<Rightarrow> string + string \<times> nat" where
  \<comment> \<open>with the next automatic index\<close>
  "render_placeholder inspect args auto content =
     (case parsePlaceholder content of
        Inl e \<Rightarrow> Inl (''invalid placeholder '' @ in_braces content @ '': '' @ e)
      | Inr ph \<Rightarrow>
          let i = (if ph_isAuto ph then int auto else ph_index ph)
          in if i < 0 \<or> i \<ge> int (length args)
             then Inl (''placeholder '' @ in_braces content @ '' references missing argument '' @ show_int64 i)
             else case renderArgument inspect (args ! nat i) (ph_spec ph) of
                 Inl e \<Rightarrow> Inl (''placeholder '' @ in_braces content @ '' '' @ e)
               | Inr s \<Rightarrow> Inr (s, if ph_isAuto ph then auto + 1 else auto))"

definition prefixed :: "string \<Rightarrow> string + string \<Rightarrow> string + string" where
  \<comment> \<open>text written before the rest\<close>
  "prefixed s r = map_sum id ((@) s) r"

function format_from :: "(obj \<Rightarrow> string) \<Rightarrow> obj list \<Rightarrow> nat \<Rightarrow> string \<Rightarrow> string + string" where
  "format_from inspect args auto [] = Inr []"
| "format_from inspect args auto (c # rest) =
     (if c = CHR 0x5C then
        (case rest of
           [] \<Rightarrow> Inl ''dangling escape at end of format string''
         | d # rest' \<Rightarrow>
             if d \<noteq> CHR ''{'' \<and> d \<noteq> CHR ''}'' then Inl (''invalid escape sequence: '' @ [CHR 0x5C] @ show_byte d)
             else prefixed [d] (format_from inspect args auto rest'))
      else if c = CHR ''{'' then
        if CHR ''}'' \<notin> set rest then Inl (''unmatched '' @ [CHR 0x27] @ ''{'' @ [CHR 0x27] @ '' in format string'')
        else
          (case render_placeholder inspect args auto (takeWhile (\<lambda>c. c \<noteq> CHR ''}'') rest) of
             Inl e \<Rightarrow> Inl e
           | Inr (s, auto) \<Rightarrow>
               prefixed s (format_from inspect args auto (tl (dropWhile (\<lambda>c. c \<noteq> CHR ''}'') rest))))
      else if c = CHR ''}'' then Inl (''unescaped '' @ [CHR 0x27] @ ''}'' @ [CHR 0x27] @ '' in format string'')
      else prefixed [c] (format_from inspect args auto rest))"
  by pat_completeness auto
termination
  by (relation "measure (\<lambda>(inspect, args, auto, s). length s)")
     (auto simp: less_Suc_eq_le intro: le_trans [OF diff_le_self length_dropWhile_le])

declare format_from.simps [simp del]

definition formatWithSpec :: "(obj \<Rightarrow> string) \<Rightarrow> string \<Rightarrow> obj list \<Rightarrow> string + string" where
  "formatWithSpec inspect format args = format_from inspect args 0 format"

definition formatExcerpt :: "string \<Rightarrow> int \<Rightarrow> string" where
  "formatExcerpt text maxLen =
     (if maxLen \<le> 0 \<or> int (length text) \<le> maxLen then text
      else if maxLen \<le> 3 then take (nat maxLen) text
      else take (nat (maxLen - 3)) text @ ''...'')"

end
