(* ===== verification/Format_Laws.thy ===== *)
theory Format_Laws
  imports Format
begin

text \<open>
  Formatting: a number printed with a precision is the number rounded to that many places, as
  long as the precision fits an \<open>int8\<close>; escaped text is printed as it was; grouping only adds
  commas.
\<close>

section \<open>The value of a printed number\<close>

definition unsigned_value :: "string \<Rightarrow> rat" where
  "unsigned_value s =
     (let a = takeWhile (\<lambda>c. c \<noteq> CHR ''.'') s; b = tl (dropWhile (\<lambda>c. c \<noteq> CHR ''.'') s)
      in of_int (digits_value (a @ b)) / 10 ^ length b)"

definition text_value :: "string \<Rightarrow> rat" where
  "text_value s =
     (if \<exists>t. s = CHR ''-'' # t then - unsigned_value (tl s) else unsigned_value s)"

lemma point_not_decimal: "\<not> is_decimal (CHR ''.'')" "\<not> is_decimal (CHR ''-'')"
  by (simp_all add: is_decimal_def less_eq_char_def)

lemma decimal_zeros: "list_all is_decimal (zeros n)"
  by (induction n) (simp_all add: zeros_def is_decimal_def less_eq_char_def)

lemma unsigned_value_parts:
  assumes "list_all is_decimal a"
  shows "unsigned_value (a @ CHR ''.'' # b) = of_int (digits_value (a @ b)) / 10 ^ length b"
    and "unsigned_value a = of_int (digits_value a)"
proof -
  have "\<forall>c\<in>set a. c \<noteq> CHR ''.''" using assms point_not_decimal(1) by (auto simp: list_all_iff)
  then have "takeWhile (\<lambda>c. c \<noteq> CHR ''.'') (a @ CHR ''.'' # b) = a"
    "dropWhile (\<lambda>c. c \<noteq> CHR ''.'') (a @ CHR ''.'' # b) = CHR ''.'' # b"
    "takeWhile (\<lambda>c. c \<noteq> CHR ''.'') a = a" "dropWhile (\<lambda>c. c \<noteq> CHR ''.'') a = []"
    by (auto simp: takeWhile_append dropWhile_append)
  note parts = this
  show "unsigned_value (a @ CHR ''.'' # b) = of_int (digits_value (a @ b)) / 10 ^ length b"
    by (simp add: unsigned_value_def parts(1,2))
  show "unsigned_value a = of_int (digits_value a)"
    by (simp add: unsigned_value_def parts(3,4) del: takeWhile_eq_all_conv)
qed

lemma text_value_decimal:
  "list_all is_decimal a \<Longrightarrow> a \<noteq> [] \<Longrightarrow> text_value (a @ b) = unsigned_value (a @ b)"
  using point_not_decimal(2) by (cases a) (auto simp: text_value_def)

lemma text_value_minus: "text_value (CHR ''-'' # s) = - unsigned_value s"
  by (simp add: text_value_def)

section \<open>Rounding\<close>

lemma fmt_pow10_exact: "d \<le> 18 \<Longrightarrow> fmt_pow10 d = 10 ^ nat d"
proof -
  have "fmt_pow10_from n r = pow10_from n r" for n r by (induction n arbitrary: r) simp_all
  then show "d \<le> 18 \<Longrightarrow> fmt_pow10 d = 10 ^ nat d" using pow10_exact [of d] by (simp add: fmt_pow10_def pow10_def)
qed

lemma sdiv_neg: "c < 0 \<Longrightarrow> 0 < d \<Longrightarrow> c sdiv d = - ((- c) div d)" for c d :: int
  by (simp add: sdiv_int_alt)

lemma smod_neg: "c < 0 \<Longrightarrow> 0 < d \<Longrightarrow> c smod d = - ((- c) mod d)" for c d :: int
  by (simp add: signed_modulo_int_def)

lemma fmt_abs64_abs: "\<bar>c\<bar> \<le> max_int64 \<Longrightarrow> fmt_abs64 c = \<bar>c\<bar>"
  by (simp add: fmt_abs64_def wrap64_id go_arith)

lemma round_to_error:
  assumes c: "\<bar>c\<bar> \<le> 2 ^ 55" and d: "0 \<le> t - e" "t - e \<le> 18"
  shows "2 * \<bar>round_to c e t * 10 ^ nat (t - e) - c\<bar> \<le> 10 ^ nat (t - e)"
proof -
  define D :: int where "D = 10 ^ nat (t - e)"
  have D: "0 < D" "D \<le> 10 ^ 18"
    unfolding D_def using d power_increasing [of "nat (t - e)" 18 "10 :: int"] by simp_all
  have delta: "wrap8 (t - e) = t - e" using d by (intro wrap8_id) auto
  have pow: "fmt_pow10 (t - e) = D" using fmt_pow10_exact d by (simp add: D_def)
  define a where "a = \<bar>c\<bar>"
  define q where "q = a div D"
  define r where "r = a mod D"
  have r: "0 \<le> r" "r < D" "a = q * D + r" "0 \<le> a" using D by (simp_all add: q_def r_def a_def)
  have abs_r: "fmt_abs64 (c smod D) = r" "wrap64 (r * 2) = 2 * r"
  proof -
    have "\<bar>c smod D\<bar> = r"
      using D r(1) by (cases "c < 0") (simp_all add: smod_neg smod_nonneg r_def a_def)
    moreover have "r * 2 \<le> max_int64" using r(2) D(2) by (simp add: go_arith)
    ultimately show "fmt_abs64 (c smod D) = r" "wrap64 (r * 2) = 2 * r"
      using r(1) by (simp_all add: fmt_abs64_abs go_arith wrap64_id)
  qed
  have zero: "c smod D \<noteq> 0 \<longleftrightarrow> r \<noteq> 0"
    using D by (cases "c < 0") (simp_all add: smod_neg smod_nonneg r_def a_def)
  define up where "up \<longleftrightarrow> 2 * r > D \<or> 2 * r = D \<and> odd q"
  have up_r: "up \<Longrightarrow> r \<noteq> 0" using D(1) by (auto simp: up_def)
  have parity: "c sdiv D smod 2 \<noteq> 0 \<longleftrightarrow> odd q"
    using D by (cases "c < 0") (simp_all add: smod_eq_0_iff sdiv_neg sdiv_nonneg q_def a_def)
  have "round_to c e t = (if up then if c > 0 then c sdiv D + 1 else c sdiv D - 1 else c sdiv D)"
    using d up_r unfolding round_to_def delta pow Let_def abs_r zero parity up_def by auto
  then have "round_to c e t * D - c = (if c < 0 then - 1 else 1) * ((if up then q + 1 else q) * D - a)"
    using D up_r r by (cases "c < 0"; cases "c = 0") (auto simp: sdiv_neg sdiv_nonneg q_def a_def algebra_simps)
  moreover have "2 * \<bar>(if up then q + 1 else q) * D - a\<bar> \<le> D"
    unfolding up_def using r by (auto simp: algebra_simps abs_if)
  ultimately show ?thesis unfolding D_def by (simp add: abs_mult split: if_splits)
qed

lemma round_to_tiny:
  assumes "18 < t - e" "t - e \<le> 127"
  shows "round_to c e t = 0"
  using assms by (simp add: round_to_def wrap8_id)

section \<open>Digits before and after the point\<close>

lemma split_digits_value:
  assumes "list_all is_decimal ds" and "ds \<noteq> []" and "split_digits ds e = (a, b)"
  shows "of_int (digits_value (a @ b)) / 10 ^ length b = cval (digits_value ds) e"
    and "length b = nat (- e)" and "list_all is_decimal a" and "a \<noteq> []"
proof -
  have 0: "digits_value (zeros n) = 0" "length (zeros n) = n" for n
    by (simp_all add: zeros_def digits_value_zeros)
  have leading: "digits_value (''0'' @ s) = digits_value s" for s
    using digits_value_append [of "''0''" s] digits_value_zeros [of 1] by simp
  have parts: "digits_value (a @ b) = digits_value ds * 10 ^ nat e \<and> length b = nat (- e)"
  proof (cases "0 \<le> e")
    case True
    then have "a = ds @ zeros (nat e)" "b = []" using assms(3) by (simp_all add: split_digits_def)
    then show ?thesis using True by (simp add: digits_value_append 0)
  next
    case False
    show ?thesis
    proof (cases "int (length ds) + e > 0")
      case True
      then have "a = take (nat (int (length ds) + e)) ds" "b = drop (nat (int (length ds) + e)) ds"
        using False assms(3) by (simp_all add: split_digits_def Let_def)
      then show ?thesis using False True by simp
    next
      case point: False
      then have "a = ''0''" "b = zeros (nat (- (int (length ds) + e))) @ ds"
        using False assms(3) by (simp_all add: split_digits_def Let_def)
      then show ?thesis using False point by (simp only: append_assoc leading) (simp add: digits_value_append 0)
    qed
  qed
  show "length b = nat (- e)" using parts by simp
  show "of_int (digits_value (a @ b)) / 10 ^ length b = cval (digits_value ds) e"
    using parts by (cases "0 \<le> e") (auto simp: cval_def power_int_def field_simps)
  show "list_all is_decimal a" "a \<noteq> []"
    using assms decimal_zeros by (auto simp: split_digits_def Let_def is_decimal_def less_eq_char_def list_all_iff split: if_splits dest: in_set_takeD)
qed

lemma show_abs_value:
  assumes "\<bar>c\<bar> \<le> max_int64"
  shows "list_all is_decimal (show_int64 (fmt_abs64 c))" "show_int64 (fmt_abs64 c) \<noteq> []"
    "digits_value (show_int64 (fmt_abs64 c)) = \<bar>c\<bar>"
  using assms by (simp_all add: show_int64_def fmt_abs64_abs show_nat_decimal show_nat_Nil show_nat_value)

lemma printed_value:
  assumes c: "\<bar>c\<bar> \<le> max_int64" and e: "- p \<le> e" and p: "0 \<le> p"
    and parts: "split_digits (show_int64 (fmt_abs64 c)) e = (a, b)"
    and s: "s = (if p > 0 then a @ ''.'' @ (if int (length b) < p then b @ zeros (nat p - length b) else take (nat p) b) else a)"
  shows "text_value (if c < 0 then CHR ''-'' # s else s) = cval c e"
proof -
  note ds = show_abs_value [OF c] and sd = split_digits_value [OF show_abs_value(1) [OF c] show_abs_value(2) [OF c] parts]
  have abs_value: "unsigned_value s = cval \<bar>c\<bar> e"
  proof (cases "p > 0")
    case True
    define b' where "b' = b @ zeros (nat p - length b)"
    have "length b \<le> nat p" using sd(2) e by simp
    then have "s = a @ CHR ''.'' # b'" using s True by (auto simp: b'_def zeros_def)
    moreover have "of_int (digits_value (a @ b')) / (10 :: rat) ^ length b' = of_int (digits_value (a @ b)) / 10 ^ length b"
      using digits_value_append [of "a @ b" "zeros (nat p - length b)"]
      by (simp add: b'_def zeros_def digits_value_zeros power_add)
    ultimately show ?thesis using unsigned_value_parts(1) [OF sd(3)] sd(1) ds(3) by simp
  next
    case False
    then have "b = []" "s = a" using sd(2) e p s by auto
    then show ?thesis using unsigned_value_parts(2) [OF sd(3)] sd(1) ds(3) by simp
  qed
  have "text_value s = unsigned_value s"
    using s text_value_decimal [OF sd(3,4)] text_value_decimal [OF sd(3,4), of "[]"] by (auto split: if_splits)
  then show ?thesis using abs_value by (simp add: text_value_minus cval_def)
qed

lemma round_to_err:
  assumes "\<bar>c\<bar> \<le> 2 ^ 55" and "e < - p" and "- 127 \<le> e" and "0 \<le> p"
  shows "2 * \<bar>cval (round_to c e (- p)) (- p) - cval c e\<bar> \<le> 10 powi (- p) \<and> \<bar>round_to c e (- p)\<bar> \<le> max_int64"
proof (cases "- p - e \<le> 18")
  case True
  define D :: int where "D = 10 ^ nat (- p - e)"
  define R where "R = round_to c e (- p)"
  have D: "1 \<le> D" "D \<le> 10 ^ 18"
    unfolding D_def using True assms(2) power_increasing [of "nat (- p - e)" 18 "10 :: int"] by simp_all
  have R: "2 * \<bar>R * D - c\<bar> \<le> D" unfolding R_def D_def using assms True by (intro round_to_error) auto
  have shift: "cval R (- p) = cval (R * D) e"
    using cval_shift_n [of R "nat (- p - e)" "- p"] assms(2) by (simp add: D_def)
  have unit: "(10 :: rat) powi (- p) = of_int D * 10 powi e"
    using assms(2) power_int_add [of "10 :: rat" "- p - e" e] by (simp add: D_def power_int_def)
  have "cval R (- p) - cval c e = of_int (R * D - c) * 10 powi e"
    unfolding shift by (simp add: cval_def left_diff_distrib)
  then have "2 * \<bar>cval R (- p) - cval c e\<bar> = of_int (2 * \<bar>R * D - c\<bar>) * 10 powi e" by (simp add: abs_mult)
  also have "\<dots> \<le> 10 powi (- p)"
    unfolding unit using R by (intro mult_right_mono) (simp_all only: of_int_le_iff, simp)
  finally have 1: "2 * \<bar>cval R (- p) - cval c e\<bar> \<le> 10 powi (- p)" .
  have "\<bar>R\<bar> \<le> \<bar>R * D\<bar>" using D(1) mult_left_mono [of 1 D "\<bar>R\<bar>"] by (simp add: abs_mult)
  moreover have "2 * \<bar>m - c\<bar> \<le> D \<Longrightarrow> 2 * \<bar>m\<bar> \<le> 2 * \<bar>c\<bar> + D" for m
    using abs_triangle_ineq [of "m - c" c] by simp
  from this [OF R] have "2 * \<bar>R * D\<bar> \<le> 2 * \<bar>c\<bar> + D" .
  ultimately have "\<bar>R\<bar> \<le> max_int64" using assms(1) D(2) by (simp add: go_arith)
  then show ?thesis using 1 by (simp add: R_def)
next
  case False
  have R: "round_to c e (- p) = 0" using False assms by (intro round_to_tiny) auto
  have "2 * \<bar>cval c e\<bar> = of_int (2 * \<bar>c\<bar>) * (10 :: rat) powi e" by (simp add: cval_def abs_mult)
  also have "\<dots> \<le> 10 ^ 19 * 10 powi e"
  proof (rule mult_right_mono)
    have "2 * \<bar>c\<bar> \<le> 10 ^ 19" using assms(1) by simp
    then show "rat_of_int (2 * \<bar>c\<bar>) \<le> 10 ^ 19" by (metis of_int_le_iff of_int_power of_int_numeral)
  qed simp
  also have "\<dots> = 10 powi (19 + e)" by (simp add: power_int_add)
  also have "\<dots> \<le> 10 powi (- p)" using False by (intro power_int_increasing) auto
  finally show ?thesis by (simp add: R go_arith)
qed

text \<open>C29: A number printed with a precision of up to 128 places and without grouping reads as a
  number that differs from it by at most half a unit of the last place, and as the number itself
  if it has no more places.\<close>

theorem fixed_format_rounds:
  assumes "\<not> dec_IsNaN v" and "0 \<le> p" and "p \<le> 128"
  shows "2 * \<bar>text_value (formatFixedNumber v p False) - dval v\<bar> \<le> 10 powi (- p) \<and>
         (- p \<le> Exponent v \<longrightarrow> text_value (formatFixedNumber v p False) = dval v)"
proof -
  let ?c = "Coefficient v" and ?e = "Exponent v"
  define c where "c = (if ?e < - p then round_to ?c ?e (- p) else ?c)"
  define e' where "e' = (if ?e < - p then - p else ?e)"
  define e where "e = (if c = 0 then - p else e')"
  obtain a b where ab: "split_digits (show_int64 (fmt_abs64 c)) e = (a, b)" by fastforce
  have t: "wrap8 (- p) = - p" using assms by (intro wrap8_id) auto
  have range: "- 127 \<le> ?e" "\<bar>?c\<bar> \<le> 2 ^ 55"
    using assms(1) Exponent_range [of v] Coefficient_range [of v] by (auto simp: dec_IsNaN_def)
  have err: "2 * \<bar>cval c e - dval v\<bar> \<le> 10 powi (- p) \<and> (- p \<le> ?e \<longrightarrow> cval c e = dval v) \<and> \<bar>c\<bar> \<le> max_int64"
  proof (cases "?e < - p")
    case True
    note err = round_to_err [OF range(2) True range(1) assms(2)]
    then show ?thesis using True by (auto simp: c_def e_def e'_def dval_def)
  next
    case False
    then show ?thesis using range(2) by (auto simp: c_def e_def e'_def dval_def go_arith)
  qed
  have e: "- p \<le> e" by (simp add: e_def e'_def)
  have pair: "(if ?e < - p then (round_to ?c ?e (- p), - p) else (?c, ?e)) = (c, e')" by (simp add: c_def e'_def)
  have p: "(if p < 0 then 0 else p) = p" using assms(2) by simp
  have "formatFixedNumber v p False =
      (if c < 0 then CHR ''-'' # (if p > 0 then a @ ''.'' @ (if int (length b) < p then b @ zeros (nat p - length b) else take (nat p) b) else a)
       else if p > 0 then a @ ''.'' @ (if int (length b) < p then b @ zeros (nat p - length b) else take (nat p) b) else a)"
    unfolding formatFixedNumber_def Let_def p t pair case_prod_conv e_def [symmetric] ab using assms(1) by simp
  then have "text_value (formatFixedNumber v p False) = cval c e"
    using printed_value [OF _ e assms(2) ab refl] err by simp
  then show ?thesis using err by simp
qed

theorem fixed_format_rounds_witness:
  "2 * \<bar>text_value (formatFixedNumber (dec_New 314159 (- 5)) 2 False) - dval (dec_New 314159 (- 5))\<bar> \<le> 10 powi (- 2) \<and>
   formatFixedNumber (dec_New 314159 (- 5)) 2 False = ''3.14''"
proof -
  have "\<not> dec_IsNaN (dec_New 314159 (- 5))" by code_simp
  from fixed_format_rounds [OF this, of 2]
  have "2 * \<bar>text_value (formatFixedNumber (dec_New 314159 (- 5)) 2 False) - dval (dec_New 314159 (- 5))\<bar> \<le> 10 powi (- 2)"
    by simp
  moreover have "formatFixedNumber (dec_New 314159 (- 5)) 2 False = ''3.14''" by code_simp
  ultimately show ?thesis by blast
qed

text \<open>C31: A precision from 129 to 237 places wraps to a positive target exponent: every integer
  that is stored without an exponent is then printed as a zero.\<close>

theorem precision_wraps:
  assumes "Exponent v = 0" and "129 \<le> p" and "p \<le> 237"
  shows "formatFixedNumber v p False = ''0'' @ zeros (nat (256 - p)) @ ''.'' @ zeros (nat p)"
proof -
  have "(128 - p) mod 256 = (128 - p + 256) mod 256" by (rule mod_add_self2 [symmetric])
  also have "\<dots> = 384 - p" using assms(2,3) by (subst mod_pos_pos_trivial) simp_all
  finally have "(128 - p) mod 256 = 384 - p" .
  then have t: "wrap8 (- p) = 256 - p" by (simp add: wrap8_def)
  have r: "round_to (Coefficient v) 0 (256 - p) = 0" using assms by (intro round_to_tiny) auto
  have z: "show_int64 (fmt_abs64 0) = ''0''" by code_simp
  have p: "(if p < 0 then 0 else p) = p" using assms(2) by simp
  show ?thesis
    unfolding formatFixedNumber_def Let_def p t assms(1) using assms
    by (simp add: dec_IsNaN_def r z split_digits_def zeros_def)
qed

theorem precision_wraps_witness:
  "formatFixedNumber (dec_New 5 0) 237 False = ''0'' @ zeros 19 @ ''.'' @ zeros 237"
  using precision_wraps [of "dec_New 5 0" 237] by (simp add: go_arith)

text \<open>A tie goes to the even digit; \<open>docs/_adr/ADR-024.md\<close> gives \<open>12.35\<close> for this number.\<close>

lemma tie_to_even: "formatFixedNumber (dec_New 12345 (- 3)) 2 False = ''12.34''"
  by code_simp

section \<open>Escapes\<close>

definition escape_format :: "string \<Rightarrow> string" where
  "escape_format s = concat (map (\<lambda>c. if c = CHR ''{'' \<or> c = CHR ''}'' then [CHR 0x5C, c] else [c]) s)"

text \<open>C30: Text without backslashes, its braces escaped, is printed as it was, whatever the
  arguments.\<close>

theorem format_escape_roundtrip:
  assumes "CHR 0x5C \<notin> set s"
  shows "formatWithSpec inspect (escape_format s) args = Inr s"
proof -
  have "format_from inspect args auto (escape_format s) = Inr s" for auto
    using assms
  proof (induction s)
    case (Cons c s)
    then show ?case by (auto simp: escape_format_def format_from.simps prefixed_def)
  qed (simp add: escape_format_def format_from.simps)
  then show ?thesis by (simp add: formatWithSpec_def)
qed

theorem format_escape_roundtrip_witness: "formatWithSpec (\<lambda>_. []) (escape_format ''a{b}'') [] = Inr ''a{b}''"
  by (rule format_escape_roundtrip) simp

text \<open>A backslash is always part of an escape of a brace, so that no format string prints one.\<close>

lemma backslash_rejected:
  "c \<noteq> CHR ''{'' \<Longrightarrow> c \<noteq> CHR ''}'' \<Longrightarrow> formatWithSpec inspect (CHR 0x5C # c # s) args =
     Inl (''invalid escape sequence: '' @ [CHR 0x5C] @ show_byte c)"
  by (simp add: formatWithSpec_def format_from.simps)

section \<open>Grouping and width\<close>

lemma comma_groups_text: "CHR '','' \<notin> set s \<Longrightarrow> filter (\<lambda>c. c \<noteq> CHR '','') (comma_groups s) = s"
proof (induction s rule: comma_groups.induct)
  case (1 s)
  have id: "filter (\<lambda>c. c \<noteq> CHR '','') (take 3 s) = take 3 s"
    using 1(2) by (auto simp: filter_id_conv dest: in_set_takeD)
  have "CHR '','' \<notin> set (drop 3 s)" using 1(2) by (meson in_set_dropD)
  then show ?case using 1(1) id by (subst comma_groups.simps) auto
qed

lemma grouping_text: "CHR '','' \<notin> set s \<Longrightarrow> filter (\<lambda>c. c \<noteq> CHR '','') (addGrouping s) = s"
proof -
  assume s: "CHR '','' \<notin> set s"
  have "filter (\<lambda>c. c \<noteq> CHR '','') (take n t @ comma_groups (drop n t)) = t" if "CHR '','' \<notin> set t" for n t
  proof -
    have "filter (\<lambda>c. c \<noteq> CHR '','') (take n t) = take n t" using that by (auto simp: filter_id_conv dest: in_set_takeD)
    moreover have "CHR '','' \<notin> set (drop n t)" using that by (meson in_set_dropD)
    ultimately show ?thesis by (simp add: comma_groups_text)
  qed
  moreover have "CHR '','' \<notin> set t \<Longrightarrow> filter (\<lambda>c. c \<noteq> CHR '','') t = t" for t by (auto simp: filter_id_conv)
  ultimately show ?thesis using s by (cases s) (auto simp: addGrouping_def Let_def)
qed

lemma width_length: "int (length (applyWidth s w a)) = max w (int (length s))"
  by (auto simp: applyWidth_def Let_def)

end
