(* ===== verification/Spec2Isabelle.thy ===== *)
theory Spec2Isabelle
  imports Dec64_Laws MapStorage Lexer_Laws Compiler_Laws Value_Laws Environment_Laws Dispatch_Laws Compiler_Correct
    Parser_Laws Type_Unions Analyzer_Laws Tasks_Laws Select_Laws Format_Laws
begin

text \<open>
  A verification library for the implementation of the language slug (Go, under
  \<open>src/internal\<close>): the front end, the static checks, the compiler to bytecode, the virtual machine
  and the data structures of its values.

  \<^bold>\<open>The program.\<close> Text is cut into tokens by a lexer with three modes (\<open>lexer/\<close>), which a
  Pratt parser (\<open>parser/parser.go\<close>) turns into a syntax tree (\<open>ast/ast.go\<close>). The analyzer
  (\<open>semantic/analyzer.go\<close>) checks the positions of recur and marks tail calls, the type checker
  (\<open>semantic/typecheck.go\<close>) infers a type for every node with a union-find of type nodes and asks
  for the symbols that modules export (\<open>modulemeta/\<close>). The compiler
  (\<open>vm/compiler.go\<close>) emits chunks of bytecode (\<open>vm/bytecode.go\<close>, \<open>vm/function.go\<close>), which the
  executor (\<open>vm/executor.go\<close>) runs on a stack, a chain of environments
  (\<open>object/environment.go\<close>) and lists of deferred code. Values (\<open>object/object.go\<close>) include decimal
  numbers (\<open>dec64/dec64.go\<close>), maps over a hash array mapped trie (\<open>object/hamt.go\<close>,
  \<open>object/map_storage.go\<close>) and groups of overloaded functions; a call binds its arguments and
  chooses an overload, and its result is checked against the declared type
  (\<open>vm/declared_type_runtime.go\<close>).

  \<^bold>\<open>The theories.\<close>
  \<^item> \<open>Prelude\<close>: lemmas on lists, words and options, and the collections of hints.
  \<^item> \<open>Dec64\<close>, \<open>Dec64_Laws\<close>, \<open>Dec64_Text\<close>: the packed 64-bit word of a number, arithmetic with
    Go's wrap-around, reading and printing. Exactness of sums and products, the error of a
    quotient, comparison, round trips through integers and text.
  \<^item> \<open>Hamt\<close>, \<open>Hamt_Laws\<close>, \<open>MapStorage\<close>: trie nodes with 32-bit occupancy words, the interface of
    map storages as a locale with its interpretation on the trie, map objects. The trie
    invariant, refinement of finite maps, enumeration that depends on the contents only.
  \<^item> \<open>Token\<close>, \<open>Lexer\<close>, \<open>Lexer_Laws\<close>: token types, UTF-8, the three tokenizers and their mode
    switches. The position invariant, termination of the token stream, round trips of strings.
  \<^item> \<open>Ast\<close>, \<open>Printer\<close>, \<open>Diagnostics\<close>: the nodes of the tree, their \<open>String\<close> methods, and the
    lines that an error message quotes.
  \<^item> \<open>Parser_State\<close>, \<open>Parser\<close>, \<open>Pratt\<close>, \<open>Parser_Laws\<close>: the state of the parser and its monad,
    one definition per method, the grammar of operator expressions with the theorem that its
    spellings are read back, the frame that every method keeps, independence of fuel, and runs
    that never end or panic.
  \<^item> \<open>Bytecode\<close>, \<open>Compiler\<close>, \<open>Compiler_Rec\<close>, \<open>Compiler_Laws\<close>: instructions and chunks, one
    definition per method of the compiler. Compiled chunks are well formed and every path
    through them ends.
  \<^item> \<open>Value\<close>, \<open>Indexing\<close>, \<open>Value_Laws\<close>: objects, operators, indexing and slicing, map keys and
    the symbol table.
  \<^item> \<open>Environment\<close>, \<open>Environment_Laws\<close>: the store of environments, bindings and function groups,
    and what holds of every history of its operations.
  \<^item> \<open>Dispatch\<close>, \<open>Dispatch_Laws\<close>: binding of arguments and the two ways in which an overload is
    chosen.
  \<^item> \<open>DeclaredType\<close>: declared types, and the checks of returned values.
  \<^item> \<open>Machine\<close>, \<open>Executor\<close>: the state of the machine, one definition per opcode, and the loop.
  \<^item> \<open>Channels\<close>: channels, task handles, and what a select can wait for; \<open>Select_Laws\<close>: which entry of
    a select the chosen case belongs to.
  \<^item> \<open>Tasks\<close>, \<open>Tasks_Laws\<close>: the goroutines of a scope as a step relation, with the limit of the scope
    and the join at its end, for tasks whose results do not depend on the schedule. Every schedule
    joins these results as the machine does, keeps the limit for the spawns that are under it, and
    ends if the tasks up to the first failure return.
  \<^item> \<open>Format\<close>, \<open>Format_Laws\<close>: formatting of values by a format string (\<open>foreign/slug_std_fmt.go\<close>).
    The value that a number printed with a precision has, and the printing of escaped text.
  \<^item> \<open>Semantics\<close>, \<open>Simulation\<close>, \<open>Compiler_Correct\<close>: a reference evaluator that works on the
    tree, and the theorem that compiled code on the machine gives its values, errors and store,
    for declarations, assignments, operators, short circuits, blocks, conditionals, lists,
    maps, indexing and slices.
  \<^item> \<open>Analyzer\<close>, \<open>Analyzer_Laws\<close>: the walk over the tree, the validation of recur and the marking
    of tail calls. The calls in tail position are marked and nothing else is changed.
  \<^item> \<open>Module_Symbols\<close>: the symbols that a parsed module exports.
  \<^item> \<open>Type_Store\<close>, \<open>Type_Unify\<close>, \<open>Type_Infer\<close>, \<open>Type_Checker\<close>: the state of the type checker, a
    store of type nodes with parent pointers, and its monad; unions, annotations and printing;
    the compatibility relations, unification and refinement; one definition per method that
    infers a node; the constraints and the check of a program.
  \<^item> \<open>Type_Laws\<close>, \<open>Type_Soundness\<close>, \<open>Type_Merge\<close>, \<open>Type_Frame\<close>, \<open>Type_Unions\<close>: the parents form a
    forest with one root above every node, and path compression keeps the roots; compatibility
    decides a relation on the trees that nodes denote, and what it accepts the machine accepts
    too; unification merges classes; an interface of frames (a locale) that carries a relation
    between states through every method, with its two interpretations: the scopes and nodes
    are kept, and unions stay small and flat.

  \<^bold>\<open>Correspondence.\<close> A definition has the name of the Go function it models, with a prefix
  where the name is taken. A struct is a record or a one-constructor datatype in the order of
  its fields. Pointers that are shared and written are references into a store of environments,
  bindings, groups and schemas (\<open>Environment\<close>); nodes of the tree, tokens, chunks and maps are
  values. A nil expression, statement or pattern is a constructor of its own; a nil pointer of a
  node type inside an interface is a node with an empty token (\<open>Printer\<close>). Go integers are
  integers with the wrap-around written out, or naturals where they count. A panic is a
  result: \<open>None\<close> of an option, \<open>PPanic\<close> in the parser, the fault outcome of the machine.
  Where Go leaves the order of evaluation open, the order of the source is taken.

  \<^bold>\<open>Bounds.\<close> The parser takes fuel for the nesting of its calls and the rounds of its loops;
  \<open>parser_fuel_irrelevant\<close> shows that enough fuel changes nothing, \<open>expression_roundtrip\<close> that there
  is enough for every spelled expression, and two theorems that on some texts no fuel is enough.
  The type checker takes fuel for the recursion along type nodes, which need not end as types can
  be cyclic (\<open>unify_makes_endless_type\<close>); running out is the result \<open>TDeep\<close>.
  The machine takes fuel for steps and calls; the simulation theorems give an amount from which
  on every run returns. The token stream needs at most \<open>4 n + 3\<close> tokens for \<open>n\<close> bytes. All other
  recursion terminates by measures.

  \<^bold>\<open>Parameters.\<close> The tables of Go's \<open>unicode\<close> package beyond ASCII; the interface \<open>Tokenizer\<close> of
  the parser; for the machine the printing of objects, the numbering of symbols, the printing of
  tag arguments, the calls of foreign functions and the case that a select takes; for the type checker the symbols that the
  modules of the file system export. Maps that Go iterates in an open order are association
  lists, iterated in the order of insertion.

  \<^bold>\<open>Not modelled.\<close> Loading of modules (\<open>runtime/\<close>, \<open>vm/program_prepare.go\<close>) and the
  search for their files; the texts of the traces of type errors; goroutines that share
  variables or meet at a channel: a task of the machine runs when it is spawned, one of the
  schedules that Go allows, and another may give such tasks other results (for tasks whose results
  are fixed, \<open>concurrent_join_is_sequential\<close> shows that the join does not depend on
  it); nursery scopes (\<open>vm/nursery_scope.go\<close>), whose children nothing registers; the
  tag tables of objects; foreign functions (\<open>foreign/\<close>) other than formatting, most
  of which are input and output; the language server (\<open>lsp/\<close>), configuration and the
  command line; conversion of numbers to and from floating point; the printing of objects.
\<close>

end
